(* ===== verification/LitPrelude.thy ===== *)
theory LitPrelude
  imports Main "HOL-Library.Word"
begin

text \<open>
  Shared vocabulary of the development: bytes and machine words, the error values of the model,
  big- and little-endian byte strings, Go's \<open>copy\<close> into a fixed-size array, and the reading side of
  \<open>bytes.Buffer\<close>. A buffer is the list of its unread bytes; every reader returns what it read
  together with what is left. The collections \<open>buf_simps\<close> and \<open>bytes_simps\<close> gather the rewrite rules
  the component theories use for round trips.
\<close>

unbundle bit_operations_syntax

named_theorems buf_simps "reading back from a buffer what was written to it"
named_theorems bytes_simps "lengths and inverses of byte encodings"

section \<open>Types and errors\<close>

type_synonym byte = "8 word"
type_synonym bytes = "byte list"
type_synonym u16 = "16 word"
type_synonym u32 = "32 word"
type_synonym u64 = "64 word"

text \<open>
  Errors are values. \<open>Panic\<close> is a Go run-time panic (index or slice bounds out of range, nil
  dereference, \<open>makeslice\<close> out of range): the source has no \<open>recover\<close>, so it ends the process.
  \<open>Blocked\<close> stands for a send on a full channel, which does not return.
\<close>

datatype lit_error =
    TooShort nat
  | UnexpectedEOF
  | NonCanonicalVarInt
  | UnknownMsgType byte
  | BadLength nat
  | BadFormat
  | Mismatch
  | OutOfRange
  | NilPointer
  | Panic
  | Blocked

text \<open>Sequencing of fallible steps: the first error wins, as the early returns of the source do.\<close>

definition bind_res :: "'e + 'a \<Rightarrow> ('a \<Rightarrow> 'e + 'b) \<Rightarrow> 'e + 'b" where
  "bind_res r f = (case r of Inl e \<Rightarrow> Inl e | Inr x \<Rightarrow> f x)"

lemma bind_res_simps [simp]:
  "bind_res (Inl e) f = Inl e"
  "bind_res (Inr x) f = f x"
  by (simp_all add: bind_res_def)

lemma bind_res_eq_Inr:
  "bind_res r f = Inr y \<longleftrightarrow> (\<exists>x. r = Inr x \<and> f x = Inr y)"
  by (cases r) simp_all

lemma bind_res_eq_Inl:
  "bind_res r f = Inl e \<longleftrightarrow> r = Inl e \<or> (\<exists>x. r = Inr x \<and> f x = Inl e)"
  by (cases r) simp_all

text \<open>A fallible step over a list, stopping at the first error.\<close>

primrec fold_res :: "('s \<Rightarrow> 'a \<Rightarrow> 'e + 's) \<Rightarrow> 's \<Rightarrow> 'a list \<Rightarrow> 'e + 's" where
  "fold_res f s [] = Inr s"
| "fold_res f s (x # xs) = bind_res (f s x) (\<lambda>s'. fold_res f s' xs)"

lemma fold_res_append:
  "fold_res f s (xs @ ys) = bind_res (fold_res f s xs) (\<lambda>s'. fold_res f s' ys)"
  by (induction xs arbitrary: s) (auto simp: bind_res_def split: sum.splits)

text \<open>The first position satisfying a condition.\<close>

primrec find_idx :: "('a \<Rightarrow> bool) \<Rightarrow> 'a list \<Rightarrow> nat option" where
  "find_idx P [] = None"
| "find_idx P (x # xs) = (if P x then Some 0 else map_option Suc (find_idx P xs))"

section \<open>Signed 64- and 32-bit arithmetic, and allocation\<close>

text \<open>
  A Go \<open>int64\<close> (\<open>int32\<close>) held in a variable is an integer in range; \<open>i64\<close> (\<open>i32\<close>) is the wrap-around
  that every assignment of an arithmetic result performs.
\<close>

definition i64 :: "int \<Rightarrow> int" where "i64 x = signed_take_bit 63 x"
definition i32 :: "int \<Rightarrow> int" where "i32 x = signed_take_bit 31 x"

lemma i64_id: "- (2 ^ 63) \<le> x \<Longrightarrow> x < 2 ^ 63 \<Longrightarrow> i64 x = x"
  unfolding i64_def by (rule signed_take_bit_int_eq_self)

lemma i32_id: "- (2 ^ 31) \<le> x \<Longrightarrow> x < 2 ^ 31 \<Longrightarrow> i32 x = x"
  unfolding i32_def by (rule signed_take_bit_int_eq_self)

lemma sint64_range: "- (2 ^ 63) \<le> sint (w :: u64)" "sint (w :: u64) < 2 ^ 63"
  using sint_ge [of w] sint_lt [of w] by simp_all

text \<open>
  \<open>make([]T, n)\<close> panics when the slice would exceed the address space (2^48 bytes on amd64). Below
  that the model has all the memory it needs; a real process may run out earlier.
\<close>

definition makeslice :: "nat \<Rightarrow> u64 \<Rightarrow> lit_error + nat" where
  "makeslice sz n = (if 2 ^ 48 < unat n * sz then Inl Panic else Inr (unat n))"

section \<open>Byte strings of numbers\<close>

primrec le_enc :: "nat \<Rightarrow> nat \<Rightarrow> bytes" where
  "le_enc 0 x = []"
| "le_enc (Suc n) x = of_nat x # le_enc n (x div 256)"

primrec le_val :: "bytes \<Rightarrow> nat" where
  "le_val [] = 0"
| "le_val (b # bs) = unat b + 256 * le_val bs"

definition be_enc :: "nat \<Rightarrow> nat \<Rightarrow> bytes" where
  "be_enc n x = rev (le_enc n x)"

definition be_val :: "bytes \<Rightarrow> nat" where
  "be_val bs = le_val (rev bs)"

lemma length_le_enc [simp]: "length (le_enc n x) = n"
  by (induction n arbitrary: x) simp_all

lemma length_be_enc [simp]: "length (be_enc n x) = n"
  by (simp add: be_enc_def)

lemma unat_byte_of_nat: "unat (of_nat x :: byte) = x mod 256"
  by (simp add: unat_of_nat)

lemma le_val_le_enc: "le_val (le_enc n x) = x mod 256 ^ n"
proof (induction n arbitrary: x)
  case 0
  then show ?case by simp
next
  case (Suc n)
  have "x mod (256 * 256 ^ n) = 256 * (x div 256 mod 256 ^ n) + x mod 256"
    by (rule mod_mult2_eq)
  with Suc show ?case
    by (simp add: unat_byte_of_nat)
qed

lemma le_val_bound: "le_val bs < 256 ^ length bs"
proof (induction bs)
  case Nil
  then show ?case by simp
next
  case (Cons b bs)
  have "unat b < 256"
    using unsigned_less [of b] by simp
  moreover have "256 * le_val bs + 256 \<le> 256 * 256 ^ length bs"
    using Cons by (simp flip: mult_Suc_right add: Suc_le_eq)
  ultimately show ?case by simp
qed

lemma le_enc_le_val: "le_enc (length bs) (le_val bs) = bs"
proof (induction bs)
  case Nil
  then show ?case by simp
next
  case (Cons b bs)
  have b: "unat b < 256"
    using unsigned_less [of b] by simp
  then have d: "(unat b + 256 * le_val bs) div 256 = le_val bs"
    by simp
  have "(of_nat (unat b + 256 * le_val bs) :: byte) = b"
    by (rule word_unat_eq_iff [THEN iffD2], subst unat_byte_of_nat) (use b in simp)
  with Cons d show ?case by simp
qed

lemma be_val_be_enc [bytes_simps]: "be_val (be_enc n x) = x mod 256 ^ n"
  by (simp add: be_val_def be_enc_def le_val_le_enc)

lemma be_val_bound: "be_val bs < 256 ^ length bs"
  using le_val_bound [of "rev bs"] by (simp add: be_val_def)

lemma be_enc_be_val [bytes_simps]: "n = length bs \<Longrightarrow> be_enc n (be_val bs) = bs"
  using le_enc_le_val [of "rev bs"] by (simp add: be_val_def be_enc_def)

text \<open>Words of 8, 16, 32 and 64 bits as byte strings, most significant byte first.\<close>

abbreviation be16 :: "u16 \<Rightarrow> bytes" where "be16 w \<equiv> be_enc 2 (unat w)"
abbreviation be32 :: "u32 \<Rightarrow> bytes" where "be32 w \<equiv> be_enc 4 (unat w)"
abbreviation be64 :: "u64 \<Rightarrow> bytes" where "be64 w \<equiv> be_enc 8 (unat w)"

lemma of_nat_be_val_word [simp]:
  "of_nat (be_val (be16 a)) = a"
  "of_nat (be_val (be32 b)) = b"
  "of_nat (be_val (be64 c)) = c"
proof -
  have "unat a < 256 ^ 2" "unat b < 256 ^ 4" "unat c < 256 ^ 8"
    using unsigned_less [of a] unsigned_less [of b] unsigned_less [of c] by simp_all
  then show "of_nat (be_val (be16 a)) = a" "of_nat (be_val (be32 b)) = b"
      "of_nat (be_val (be64 c)) = c"
    by (simp_all add: be_val_be_enc)
qed

lemma of_nat_le_val_word [simp]:
  "of_nat (le_val (le_enc 2 (unat (a :: u16)))) = a"
  "of_nat (le_val (le_enc 4 (unat (b :: u32)))) = b"
  "of_nat (le_val (le_enc 8 (unat (c :: u64)))) = c"
proof -
  have "unat a < 256 ^ 2" "unat b < 256 ^ 4" "unat c < 256 ^ 8"
    using unsigned_less [of a] unsigned_less [of b] unsigned_less [of c] by simp_all
  then show "of_nat (le_val (le_enc 2 (unat a))) = a"
      "of_nat (le_val (le_enc 4 (unat b))) = b" "of_nat (le_val (le_enc 8 (unat c))) = c"
    by (simp_all add: le_val_le_enc)
qed

lemma unat_mod_width [simp]:
  "unat (a :: u16) mod 65536 = unat a"
  "unat (b :: u32) mod 4294967296 = unat b"
  "unat (c :: u64) mod 18446744073709551616 = unat c"
proof -
  have "unat a < 65536" "unat b < 4294967296" "unat c < 18446744073709551616"
    using unsigned_less [of a] unsigned_less [of b]
      unsigned_less [of c] by simp_all
  then show "unat a mod 65536 = unat a" "unat b mod 4294967296 = unat b"
      "unat c mod 18446744073709551616 = unat c"
    by simp_all
qed

section \<open>Fixed-size arrays and buffers\<close>

text \<open>
  A Go array \<open>[n]byte\<close> is a list of length \<open>n\<close>. \<open>copy(dst[:], src)\<close> overwrites a prefix of \<open>dst\<close>;
  into a fresh array the rest stays zero.
\<close>

definition copy_over :: "bytes \<Rightarrow> bytes \<Rightarrow> bytes" where
  "copy_over dst src = take (length dst) src @ drop (length src) dst"

definition copy_fresh :: "nat \<Rightarrow> bytes \<Rightarrow> bytes" where
  "copy_fresh n src = copy_over (replicate n 0) src"

lemma length_copy_over [simp]: "length (copy_over dst src) = length dst"
  by (simp add: copy_over_def)

lemma length_copy_fresh [simp]: "length (copy_fresh n src) = n"
  by (simp add: copy_fresh_def)

lemma copy_over_full [buf_simps]: "length src = length dst \<Longrightarrow> copy_over dst src = src"
  by (simp add: copy_over_def)

lemma copy_fresh_full [buf_simps]: "length src = n \<Longrightarrow> copy_fresh n src = src"
  by (simp add: copy_fresh_def copy_over_full)

text \<open>\<open>buf.Next(n)\<close>: up to \<open>n\<close> bytes, fewer when the buffer holds fewer.\<close>

definition buf_next :: "nat \<Rightarrow> bytes \<Rightarrow> bytes \<times> bytes" where
  "buf_next n b = (take n b, drop n b)"

lemma buf_next_append [buf_simps]: "length x = n \<Longrightarrow> buf_next n (x @ r) = (x, r)"
  by (auto simp: buf_next_def)

lemma buf_next_exact [buf_simps]: "length x = n \<Longrightarrow> buf_next n x = (x, [])"
  by (auto simp: buf_next_def)

text \<open>
  \<open>copy(arr[:], buf.Next(n))\<close> into a fresh array of \<open>n\<close> bytes, the way the message parsers read a
  fixed-size field: a short buffer silently leaves zeros.
\<close>

definition next_arr :: "nat \<Rightarrow> bytes \<Rightarrow> bytes \<times> bytes" where
  "next_arr n b = (copy_fresh n (take n b), drop n b)"

lemma next_arr_append [buf_simps]: "length x = n \<Longrightarrow> next_arr n (x @ r) = (x, r)"
  by (auto simp: next_arr_def copy_fresh_full)

lemma next_arr_exact [buf_simps]: "length x = n \<Longrightarrow> next_arr n x = (x, [])"
  using next_arr_append [of x n "[]"] by simp

lemma length_next_arr [simp]: "length (fst (next_arr n b)) = n"
  by (simp add: next_arr_def)

text \<open>
  \<open>binary.Read\<close> and the reads of \<open>binarySerializer\<close> go through \<open>io.ReadFull\<close>: with fewer than \<open>n\<close>
  bytes left they fail, consume what there is, and leave the destination as it was.
\<close>

definition read_full :: "nat \<Rightarrow> bytes \<Rightarrow> bytes option \<times> bytes" where
  "read_full n b = (if length b < n then (None, []) else (Some (take n b), drop n b))"

lemma read_full_append [buf_simps]: "length x = n \<Longrightarrow> read_full n (x @ r) = (Some x, r)"
  by (auto simp: read_full_def)

lemma read_full_exact [buf_simps]: "length x = n \<Longrightarrow> read_full n x = (Some x, [])"
  using read_full_append [of x n "[]"] by simp

lemma read_full_one [buf_simps]: "read_full (Suc 0) (x # r) = (Some [x], r)"
  by (simp add: read_full_def)

text \<open>\<open>_ = binary.Read(buf, BigEndian, &x)\<close> with the error dropped: \<open>x\<close> keeps its zero value.\<close>

definition read_be :: "nat \<Rightarrow> bytes \<Rightarrow> nat \<times> bytes" where
  "read_be n b = (case read_full n b of (None, r) \<Rightarrow> (0, r) | (Some x, r) \<Rightarrow> (be_val x, r))"

lemma read_be_append [buf_simps]: "read_be n (be_enc n x @ r) = (x mod 256 ^ n, r)"
  by (simp add: read_be_def buf_simps bytes_simps)

lemma read_be_exact [buf_simps]: "read_be n (be_enc n x) = (x mod 256 ^ n, [])"
  using read_be_append [of n x "[]"] by simp

text \<open>The same with the error returned to the caller.\<close>

definition read_be_err :: "nat \<Rightarrow> bytes \<Rightarrow> lit_error + nat \<times> bytes" where
  "read_be_err n b = (case read_full n b of (None, r) \<Rightarrow> Inl UnexpectedEOF | (Some x, r) \<Rightarrow> Inr (be_val x, r))"

lemma read_be_err_append [buf_simps]: "read_be_err n (be_enc n x @ r) = Inr (x mod 256 ^ n, r)"
  by (simp add: read_be_err_def buf_simps bytes_simps)

lemma read_be_err_exact [buf_simps]: "read_be_err n (be_enc n x) = Inr (x mod 256 ^ n, [])"
  using read_be_err_append [of n x "[]"] by simp

section \<open>Signed values of words\<close>

lemma sint_of_int64: "- (2 ^ 63) \<le> x \<Longrightarrow> x < 2 ^ 63 \<Longrightarrow> sint (of_int x :: u64) = x"
  by (simp add: signed_of_int signed_take_bit_int_eq_self)

end
