(* ===== verification/LitWire.thy ===== *)
theory LitWire
  imports LitPrelude
begin

text \<open>
  The part of the wire protocol the node's own messages are built from: Bitcoin's variable-length
  integers (\<open>wire/common.go\<close>), outpoints in lit's 36-byte form (\<open>lnutil/btclib.go\<close>), and transactions
  (\<open>wire/msgtx.go\<close>). Readers take the unread bytes and return the value with the bytes left, or an
  error. The free lists of scratch buffers (\<open>binaryFreeList\<close>, \<open>scriptFreeList\<close>) only recycle memory
  and are not modelled.
\<close>

section \<open>Codecs of single items and of counted lists\<close>

text \<open>The two loop shapes of the parsers: with an error return in the body, and without.\<close>

primrec read_list_err :: "nat \<Rightarrow> (bytes \<Rightarrow> lit_error + 'a \<times> bytes) \<Rightarrow> bytes \<Rightarrow> lit_error + 'a list \<times> bytes" where
  "read_list_err 0 dec b = Inr ([], b)"
| "read_list_err (Suc n) dec b =
     bind_res (dec b) (\<lambda>(x, b1). bind_res (read_list_err n dec b1) (\<lambda>(xs, b2). Inr (x # xs, b2)))"

primrec read_list :: "nat \<Rightarrow> (bytes \<Rightarrow> 'a \<times> bytes) \<Rightarrow> bytes \<Rightarrow> 'a list \<times> bytes" where
  "read_list 0 dec b = ([], b)"
| "read_list (Suc n) dec b =
     (let (x, b1) = dec b; (xs, b2) = read_list n dec b1 in (x # xs, b2))"

locale item_codec =
  fixes enc :: "'a \<Rightarrow> bytes"
    and dec :: "bytes \<Rightarrow> lit_error + 'a \<times> bytes"
    and ok :: "'a \<Rightarrow> bool"
  assumes dec_enc: "ok x \<Longrightarrow> dec (enc x @ r) = Inr (x, r)"
begin

lemma read_list_enc:
  "\<forall>x \<in> set xs. ok x \<Longrightarrow> n = length xs \<Longrightarrow>
   read_list_err n dec (concat (map enc xs) @ r) = Inr (xs, r)"
  by (induction xs arbitrary: n) (simp_all add: dec_enc)

lemma read_list_enc_exact:
  "\<forall>x \<in> set xs. ok x \<Longrightarrow> n = length xs \<Longrightarrow>
   read_list_err n dec (concat (map enc xs)) = Inr (xs, [])"
  using read_list_enc [of xs n "[]"] by simp

end

text \<open>A reader that cannot fail is a codec of the first kind, so it shares the list lemmas.\<close>

locale field_codec =
  fixes enc :: "'a \<Rightarrow> bytes"
    and rd :: "bytes \<Rightarrow> 'a \<times> bytes"
    and ok :: "'a \<Rightarrow> bool"
  assumes rd_enc: "ok x \<Longrightarrow> rd (enc x @ r) = (x, r)"

sublocale field_codec \<subseteq> item_codec enc "\<lambda>b. Inr (rd b)" ok
  by unfold_locales (simp add: rd_enc)

context field_codec begin

lemma read_list_total:
  "\<forall>x \<in> set xs. ok x \<Longrightarrow> n = length xs \<Longrightarrow>
   read_list n rd (concat (map enc xs) @ r) = (xs, r)"
  by (induction xs arbitrary: n) (simp_all add: rd_enc Let_def)

lemma read_list_total_exact:
  "\<forall>x \<in> set xs. ok x \<Longrightarrow> n = length xs \<Longrightarrow>
   read_list n rd (concat (map enc xs)) = (xs, [])"
  using read_list_total [of xs n "[]"] by simp

end

section \<open>Variable-length integers\<close>

definition read_le :: "nat \<Rightarrow> bytes \<Rightarrow> lit_error + nat \<times> bytes" where
  "read_le n b = (case read_full n b of (None, r) \<Rightarrow> Inl UnexpectedEOF | (Some x, r) \<Rightarrow> Inr (le_val x, r))"

lemma read_le_append [buf_simps]: "read_le n (le_enc n x @ r) = Inr (x mod 256 ^ n, r)"
  by (simp add: read_le_def buf_simps le_val_le_enc)

lemma read_le_exact [buf_simps]: "read_le n (le_enc n x) = Inr (x mod 256 ^ n, [])"
  using read_le_append [of n x "[]"] by simp

text \<open>
  \<open>ReadVarInt\<close> with the reader's state: callers that drop the error keep reading from where the
  failed read left the buffer, so the buffer is returned in both cases.
\<close>

definition ReadVarInt_st :: "bytes \<Rightarrow> (lit_error + u64) \<times> bytes" where
  "ReadVarInt_st b =
     (case read_full 1 b of (None, r) \<Rightarrow> (Inl UnexpectedEOF, r)
      | (Some d, b1) \<Rightarrow>
        (let rest = (\<lambda>n least. (case read_full n b1 of (None, r) \<Rightarrow> (Inl UnexpectedEOF, r)
               | (Some x, r) \<Rightarrow> (if of_nat (le_val x) < (least :: u64) then Inl NonCanonicalVarInt
                                 else Inr (of_nat (le_val x)), r)))
         in if hd d = 0xff then rest 8 0x100000000
            else if hd d = 0xfe then rest 4 0x10000
            else if hd d = 0xfd then rest 2 0xfd
            else (Inr (ucast (hd d)), b1)))"

definition ReadVarInt :: "bytes \<Rightarrow> lit_error + u64 \<times> bytes" where
  "ReadVarInt b = (case ReadVarInt_st b of (Inl e, r) \<Rightarrow> Inl e | (Inr v, r) \<Rightarrow> Inr (v, r))"

text \<open>\<open>v, _ := wire.ReadVarInt(buf, 0)\<close>: the value is 0 on any error.\<close>

definition ReadVarInt_ign :: "bytes \<Rightarrow> u64 \<times> bytes" where
  "ReadVarInt_ign b = (case ReadVarInt_st b of (Inl e, r) \<Rightarrow> (0, r) | (Inr v, r) \<Rightarrow> (v, r))"

definition WriteVarInt :: "u64 \<Rightarrow> bytes" where
  "WriteVarInt val =
     (if val < 0xfd then [ucast val]
      else if val \<le> 0xffff then 0xfd # le_enc 2 (unat val)
      else if val \<le> 0xffffffff then 0xfe # le_enc 4 (unat val)
      else 0xff # le_enc 8 (unat val))"

definition VarIntSerializeSize :: "u64 \<Rightarrow> nat" where
  "VarIntSerializeSize val =
     (if val < 0xfd then 1 else if val \<le> 0xffff then 3 else if val \<le> 0xffffffff then 5 else 9)"

lemma length_WriteVarInt: "length (WriteVarInt v) = VarIntSerializeSize v"
  by (simp add: WriteVarInt_def VarIntSerializeSize_def)

lemma ReadVarInt_st_Write [buf_simps]: "ReadVarInt_st (WriteVarInt v @ r) = (Inr v, r)"
proof -
  consider "v < 0xfd" | "\<not> v < 0xfd" "v \<le> 0xffff" | "\<not> v \<le> 0xffff" "v \<le> 0xffffffff"
    | "\<not> v \<le> 0xffffffff"
    by blast
  then show ?thesis
  proof cases
    case 1
    then have v: "unat v < 253" by (simp add: word_less_nat_alt)
    then have c: "unat (ucast v :: byte) = unat v"
      by (simp add: unsigned_ucast_eq take_bit_eq_mod)
    have "ucast (ucast v :: byte) = v"
      by (simp only: word_unat_eq_iff unsigned_ucast_eq unsigned_take_bit_eq) (use v in \<open>simp add: take_bit_eq_mod\<close>)
    moreover have "ucast v \<noteq> (0xff :: byte)" "ucast v \<noteq> (0xfe :: byte)" "ucast v \<noteq> (0xfd :: byte)"
      using v c by (auto simp: word_unat_eq_iff)
    ultimately show ?thesis
      using 1 by (simp add: ReadVarInt_st_def WriteVarInt_def buf_simps)
  next
    case 2
    then have "unat v mod 65536 = unat v" by (intro mod_less) (simp add: word_le_nat_alt)
    with 2 show ?thesis
      by (simp add: ReadVarInt_st_def WriteVarInt_def buf_simps le_val_le_enc)
  next
    case 3
    then have "unat v mod 4294967296 = unat v" by (intro mod_less) (simp add: word_le_nat_alt)
    moreover have "\<not> v < 0xfd" "\<not> v < 0x10000"
      using 3 by (auto simp: word_le_nat_alt word_less_nat_alt)
    ultimately show ?thesis
      using 3 by (simp add: ReadVarInt_st_def WriteVarInt_def buf_simps le_val_le_enc)
  next
    case 4
    then have "\<not> v < 0xfd" "\<not> v \<le> 0xffff" "\<not> v < 0x100000000"
      by (auto simp: word_le_nat_alt word_less_nat_alt)
    with 4 show ?thesis
      by (simp add: ReadVarInt_st_def WriteVarInt_def buf_simps le_val_le_enc)
  qed
qed

lemma ReadVarInt_Write [buf_simps]: "ReadVarInt (WriteVarInt v @ r) = Inr (v, r)"
  by (simp add: ReadVarInt_def buf_simps)

lemma ReadVarInt_ign_Write [buf_simps]: "ReadVarInt_ign (WriteVarInt v @ r) = (v, r)"
  by (simp add: ReadVarInt_ign_def buf_simps)

lemma ReadVarInt_exact [buf_simps]:
  "ReadVarInt (WriteVarInt v) = Inr (v, [])" "ReadVarInt_ign (WriteVarInt v) = (v, [])"
  using ReadVarInt_Write [of v "[]"] ReadVarInt_ign_Write [of v "[]"] by simp_all

text \<open>The decoder accepts canonical encodings only: it is the inverse of the encoder.\<close>

lemma WriteVarInt_canonical:
  assumes "ReadVarInt b = Inr (v, r)" shows "b = WriteVarInt v @ r"
proof (cases b)
  case Nil
  with assms show ?thesis by (simp add: ReadVarInt_def ReadVarInt_st_def read_full_def)
next
  case (Cons d b1)
  have small: "WriteVarInt (ucast d) = [d]" if "d \<noteq> 0xff" "d \<noteq> 0xfe" "d \<noteq> 0xfd"
  proof -
    have d: "unat d < 256" using unsigned_less [of d] by simp
    with that have "unat d < 253" by (auto simp: word_unat_eq_iff)
    moreover have u: "unat (ucast d :: u64) = unat d"
      using d by (simp add: unsigned_ucast_eq take_bit_eq_mod)
    moreover have "ucast (ucast d :: u64) = d"
      by (simp only: word_unat_eq_iff unsigned_ucast_eq unsigned_take_bit_eq) (use d in \<open>simp add: take_bit_eq_mod\<close>)
    ultimately show ?thesis by (simp add: WriteVarInt_def word_less_nat_alt)
  qed
  have big: "le_enc n (unat (of_nat (le_val x) :: u64)) = x \<and> unat (of_nat (le_val x) :: u64) < 256 ^ n"
    if "length x = n" "n \<le> 8" for x :: bytes and n
  proof -
    have "le_val x < 256 ^ n" using le_val_bound [of x] that by simp
    moreover have "(256::nat) ^ n \<le> 256 ^ 8" using that by (intro power_increasing) auto
    ultimately have "unat (of_nat (le_val x) :: u64) = le_val x" by (simp add: unat_of_nat)
    with \<open>le_val x < 256 ^ n\<close> show ?thesis using le_enc_le_val [of x] that by simp
  qed
  show ?thesis
  proof (cases "d = 0xff \<or> d = 0xfe \<or> d = 0xfd")
    case False
    with assms Cons small show ?thesis
      by (auto simp: ReadVarInt_def ReadVarInt_st_def buf_simps Let_def)
  next
    case True
    then obtain n :: nat and least where nl: "(d, n, least) \<in> {(0xff, 8, 0x100000000), (0xfe, 4, 0x10000), (0xfd, 2, 0xfd :: u64)}"
      by auto
    then have "length b1 \<ge> n \<and> v = of_nat (le_val (take n b1)) \<and> r = drop n b1 \<and> \<not> v < least"
      using assms Cons
      by (auto simp: ReadVarInt_def ReadVarInt_st_def buf_simps Let_def read_full_def split: if_splits)
    then have v: "v = of_nat (le_val (take n b1))" "\<not> v < least" and b1: "b1 = take n b1 @ r"
      and len: "length (take n b1) = n"
      by auto
    have "n \<le> 8" using nl by auto
    note b = big [OF len this, folded v(1)]
    have "WriteVarInt v = d # le_enc n (unat v)"
      using nl b v(2) by (auto simp: WriteVarInt_def word_less_nat_alt word_le_nat_alt)
    with b b1 Cons show ?thesis by simp
  qed
qed

interpretation varint: item_codec WriteVarInt ReadVarInt "\<lambda>_. True"
  by unfold_locales (simp add: buf_simps)

section \<open>Outpoints\<close>

record outpoint =
  op_Hash :: bytes
  op_Index :: u32

definition wf_outpoint :: "outpoint \<Rightarrow> bool" where
  "wf_outpoint op \<longleftrightarrow> length (op_Hash op) = 32"

definition OutPointsEqual :: "outpoint \<Rightarrow> outpoint \<Rightarrow> bool" where
  "OutPointsEqual a b = (if op_Hash a \<noteq> op_Hash b then False else op_Index a = op_Index b)"

definition OutPointToBytes :: "outpoint \<Rightarrow> bytes" where
  "OutPointToBytes op = copy_fresh 36 (op_Hash op @ be32 (op_Index op))"

text \<open>\<open>BtU32\<close> of a slice that is not four bytes long gives ffffffff.\<close>

definition BtU32 :: "bytes \<Rightarrow> u32" where
  "BtU32 b = (if length b \<noteq> 4 then 0xffffffff else of_nat (be_val b))"

definition BtI32 :: "bytes \<Rightarrow> u32" where
  "BtI32 b = (if length b \<noteq> 4 then 0x7fffffff else of_nat (be_val b))"

definition BtU64 :: "bytes \<Rightarrow> u64" where
  "BtU64 b = (if length b \<noteq> 8 then 0xffffffffffffffff else of_nat (be_val b))"

definition BtI64 :: "bytes \<Rightarrow> u64" where
  "BtI64 b = (if length b \<noteq> 8 then 0x7fffffffffffffff else of_nat (be_val b))"

definition U32tB :: "u32 \<Rightarrow> bytes" where "U32tB i = be32 i"
definition I32tB :: "u32 \<Rightarrow> bytes" where "I32tB i = be32 i"
definition U64tB :: "u64 \<Rightarrow> bytes" where "U64tB i = be64 i"
definition I64tB :: "u64 \<Rightarrow> bytes" where "I64tB i = be64 i"

text \<open>\<open>Hash.SetBytes\<close> leaves the (zero) hash alone unless it gets exactly 32 bytes.\<close>

definition OutPointFromBytes :: "bytes \<Rightarrow> outpoint" where
  "OutPointFromBytes b =
     \<lparr>op_Hash = (if length (take 32 b) = 32 then take 32 b else replicate 32 0),
      op_Index = BtU32 (drop 32 b)\<rparr>"

lemma Bt_tB [buf_simps]:
  "BtU32 (U32tB i) = i" "BtI32 (I32tB i) = i" "BtU64 (U64tB j) = j" "BtI64 (I64tB j) = j"
  by (simp_all add: BtU32_def U32tB_def BtI32_def I32tB_def BtU64_def U64tB_def BtI64_def I64tB_def)

lemma length_tB [simp]:
  "length (U32tB i) = 4" "length (I32tB i) = 4" "length (U64tB j) = 8" "length (I64tB j) = 8"
  by (simp_all add: U32tB_def I32tB_def U64tB_def I64tB_def)

lemma length_OutPointToBytes [simp]: "length (OutPointToBytes op) = 36"
  by (simp add: OutPointToBytes_def)

lemma OutPoint_roundtrip [buf_simps]: "wf_outpoint op \<Longrightarrow> OutPointFromBytes (OutPointToBytes op) = op"
  by (simp add: OutPointFromBytes_def OutPointToBytes_def wf_outpoint_def buf_simps BtU32_def)

lemma wf_OutPointFromBytes [simp]: "wf_outpoint (OutPointFromBytes b)"
  by (simp add: wf_outpoint_def OutPointFromBytes_def)

lemma OutPointsEqual_iff: "OutPointsEqual a b \<longleftrightarrow> a = b"
  by (auto simp: OutPointsEqual_def)

section \<open>Transactions\<close>

record tx_in =
  ti_PreviousOutPoint :: outpoint
  ti_SignatureScript :: bytes
  ti_Witness :: "bytes list"
  ti_Sequence :: u32

record tx_out =
  to_Value :: u64
  to_PkScript :: bytes

record msg_tx =
  tx_Version :: u32
  tx_TxIn :: "tx_in list"
  tx_TxOut :: "tx_out list"
  tx_LockTime :: u32

definition MaxMessagePayload :: u64 where "MaxMessagePayload = 1024 * 1024 * 32"
definition maxTxInPerMessage :: u64 where "maxTxInPerMessage = MaxMessagePayload div 41 + 1"
definition maxTxOutPerMessage :: u64 where "maxTxOutPerMessage = MaxMessagePayload div 9 + 1"
definition maxWitnessItemsPerInput :: u64 where "maxWitnessItemsPerInput = 4000000"
definition maxWitnessItemSize :: u64 where "maxWitnessItemSize = 4000000"

definition NewMsgTx :: msg_tx where
  "NewMsgTx = \<lparr>tx_Version = 1, tx_TxIn = [], tx_TxOut = [], tx_LockTime = 0\<rparr>"

definition NewTxIn :: "outpoint \<Rightarrow> bytes \<Rightarrow> bytes list \<Rightarrow> tx_in" where
  "NewTxIn prevOut signatureScript witness =
     \<lparr>ti_PreviousOutPoint = prevOut, ti_SignatureScript = signatureScript, ti_Witness = witness,
      ti_Sequence = 0xffffffff\<rparr>"

definition NewTxOut :: "u64 \<Rightarrow> bytes \<Rightarrow> tx_out" where
  "NewTxOut val pkScript = \<lparr>to_Value = val, to_PkScript = pkScript\<rparr>"

definition AddTxIn :: "msg_tx \<Rightarrow> tx_in \<Rightarrow> msg_tx" where
  "AddTxIn msg ti = msg\<lparr>tx_TxIn := tx_TxIn msg @ [ti]\<rparr>"

definition AddTxOut :: "msg_tx \<Rightarrow> tx_out \<Rightarrow> msg_tx" where
  "AddTxOut msg out = msg\<lparr>tx_TxOut := tx_TxOut msg @ [out]\<rparr>"

subsection \<open>Writing\<close>

abbreviation len64 :: "'a list \<Rightarrow> u64" where "len64 xs \<equiv> of_nat (length xs)"

definition WriteVarBytes :: "bytes \<Rightarrow> bytes" where
  "WriteVarBytes b = WriteVarInt (len64 b) @ b"

definition writeOutPoint :: "outpoint \<Rightarrow> bytes" where
  "writeOutPoint op = op_Hash op @ le_enc 4 (unat (op_Index op))"

definition writeTxIn :: "tx_in \<Rightarrow> bytes" where
  "writeTxIn ti = writeOutPoint (ti_PreviousOutPoint ti) @ WriteVarBytes (ti_SignatureScript ti) @
     le_enc 4 (unat (ti_Sequence ti))"

definition WriteTxOut :: "tx_out \<Rightarrow> bytes" where
  "WriteTxOut out = le_enc 8 (unat (to_Value out)) @ WriteVarBytes (to_PkScript out)"

definition writeTxWitness :: "bytes list \<Rightarrow> bytes" where
  "writeTxWitness wit = WriteVarInt (len64 wit) @ concat (map WriteVarBytes wit)"

definition HasWitness :: "msg_tx \<Rightarrow> bool" where
  "HasWitness msg = list_ex (\<lambda>ti. length (ti_Witness ti) \<noteq> 0) (tx_TxIn msg)"

text \<open>\<open>enc\<close> is true for \<open>WitnessEncoding\<close>, false for \<open>BaseEncoding\<close>.\<close>

definition BtcEncode :: "bool \<Rightarrow> msg_tx \<Rightarrow> bytes" where
  "BtcEncode enc msg =
     le_enc 4 (unat (tx_Version msg)) @
     (if enc \<and> HasWitness msg then [0x00, 0x01] else []) @
     WriteVarInt (len64 (tx_TxIn msg)) @ concat (map writeTxIn (tx_TxIn msg)) @
     WriteVarInt (len64 (tx_TxOut msg)) @ concat (map WriteTxOut (tx_TxOut msg)) @
     (if enc \<and> HasWitness msg then concat (map (writeTxWitness \<circ> ti_Witness) (tx_TxIn msg)) else []) @
     le_enc 4 (unat (tx_LockTime msg))"

definition Serialize :: "msg_tx \<Rightarrow> bytes" where "Serialize = BtcEncode True"
definition SerializeNoWitness :: "msg_tx \<Rightarrow> bytes" where "SerializeNoWitness = BtcEncode False"

definition txin_SerializeSize :: "tx_in \<Rightarrow> nat" where
  "txin_SerializeSize t = 40 + VarIntSerializeSize (len64 (ti_SignatureScript t)) +
     length (ti_SignatureScript t)"

definition txout_SerializeSize :: "tx_out \<Rightarrow> nat" where
  "txout_SerializeSize t = 8 + VarIntSerializeSize (len64 (to_PkScript t)) + length (to_PkScript t)"

definition witness_SerializeSize :: "bytes list \<Rightarrow> nat" where
  "witness_SerializeSize t = VarIntSerializeSize (len64 t) +
     sum_list (map (\<lambda>i. VarIntSerializeSize (len64 i) + length i) t)"

definition baseSize :: "msg_tx \<Rightarrow> nat" where
  "baseSize msg = 8 + VarIntSerializeSize (len64 (tx_TxIn msg)) + VarIntSerializeSize (len64 (tx_TxOut msg)) +
     sum_list (map txin_SerializeSize (tx_TxIn msg)) + sum_list (map txout_SerializeSize (tx_TxOut msg))"

definition SerializeSize :: "msg_tx \<Rightarrow> nat" where
  "SerializeSize msg = baseSize msg +
     (if HasWitness msg then 2 + sum_list (map (witness_SerializeSize \<circ> ti_Witness) (tx_TxIn msg)) else 0)"

subsection \<open>Reading\<close>

definition readScript :: "u64 \<Rightarrow> bytes \<Rightarrow> lit_error + bytes \<times> bytes" where
  "readScript maxAllowed b =
     bind_res (ReadVarInt b) (\<lambda>(count, b1).
     if maxAllowed < count then Inl OutOfRange
     else (case read_full (unat count) b1 of (None, r) \<Rightarrow> Inl UnexpectedEOF | (Some s, r) \<Rightarrow> Inr (s, r)))"

definition readOutPoint :: "bytes \<Rightarrow> lit_error + outpoint \<times> bytes" where
  "readOutPoint b =
     (case read_full 32 b of (None, r) \<Rightarrow> Inl UnexpectedEOF
      | (Some h, b1) \<Rightarrow> bind_res (read_le 4 b1) (\<lambda>(i, b2).
          Inr (\<lparr>op_Hash = h, op_Index = of_nat i\<rparr>, b2)))"

definition readTxIn :: "bytes \<Rightarrow> lit_error + tx_in \<times> bytes" where
  "readTxIn b =
     bind_res (readOutPoint b) (\<lambda>(op, b1).
     bind_res (readScript MaxMessagePayload b1) (\<lambda>(s, b2).
     bind_res (read_le 4 b2) (\<lambda>(q, b3).
     Inr (\<lparr>ti_PreviousOutPoint = op, ti_SignatureScript = s, ti_Witness = [], ti_Sequence = of_nat q\<rparr>, b3))))"

definition readTxOut :: "bytes \<Rightarrow> lit_error + tx_out \<times> bytes" where
  "readTxOut b =
     bind_res (read_le 8 b) (\<lambda>(v, b1).
     bind_res (readScript MaxMessagePayload b1) (\<lambda>(s, b2).
     Inr (\<lparr>to_Value = of_nat v, to_PkScript = s\<rparr>, b2)))"

definition readWitness :: "bytes \<Rightarrow> lit_error + bytes list \<times> bytes" where
  "readWitness b =
     bind_res (ReadVarInt b) (\<lambda>(witCount, b1).
     if maxWitnessItemsPerInput < witCount then Inl OutOfRange
     else read_list_err (unat witCount) (readScript maxWitnessItemSize) b1)"

primrec readWitnesses :: "tx_in list \<Rightarrow> bytes \<Rightarrow> lit_error + tx_in list \<times> bytes" where
  "readWitnesses [] b = Inr ([], b)"
| "readWitnesses (ti # tis) b =
     bind_res (readWitness b) (\<lambda>(wit, b1).
     bind_res (readWitnesses tis b1) (\<lambda>(tis', b2). Inr (ti\<lparr>ti_Witness := wit\<rparr> # tis', b2)))"

text \<open>
  The input count, looking through the segregated-witness marker: a count of zero in witness
  encoding is followed by a flag byte, which must be 1, and the real count.
\<close>

definition readTxInCount :: "bool \<Rightarrow> bytes \<Rightarrow> lit_error + (u64 \<times> byte) \<times> bytes" where
  "readTxInCount enc b =
     bind_res (ReadVarInt b) (\<lambda>(count, b1).
     if count = 0 \<and> enc then
       (case read_full 1 b1 of (None, r) \<Rightarrow> Inl UnexpectedEOF
        | (Some flag, b2) \<Rightarrow>
          if hd flag \<noteq> 0x01 then Inl BadFormat
          else bind_res (ReadVarInt b2) (\<lambda>(c, b3). Inr ((c, hd flag), b3)))
     else Inr ((count, 0), b1))"

definition BtcDecode :: "bool \<Rightarrow> bytes \<Rightarrow> lit_error + msg_tx \<times> bytes" where
  "BtcDecode enc b =
     bind_res (read_le 4 b) (\<lambda>(version, b1).
     bind_res (readTxInCount enc b1) (\<lambda>((count, flag), b2).
     if maxTxInPerMessage < count then Inl OutOfRange else
     bind_res (read_list_err (unat count) readTxIn b2) (\<lambda>(ins, b3).
     bind_res (ReadVarInt b3) (\<lambda>(count', b4).
     if maxTxOutPerMessage < count' then Inl OutOfRange else
     bind_res (read_list_err (unat count') readTxOut b4) (\<lambda>(outs, b5).
     bind_res (if flag \<noteq> 0 \<and> enc then readWitnesses ins b5 else Inr (ins, b5)) (\<lambda>(ins', b6).
     bind_res (read_le 4 b6) (\<lambda>(lock, b7).
     Inr (\<lparr>tx_Version = of_nat version, tx_TxIn = ins', tx_TxOut = outs, tx_LockTime = of_nat lock\<rparr>, b7))))))))"

definition Deserialize :: "bytes \<Rightarrow> lit_error + msg_tx \<times> bytes" where
  "Deserialize = BtcDecode True"

subsection \<open>Round trip and size\<close>

definition wf_script :: "u64 \<Rightarrow> bytes \<Rightarrow> bool" where
  "wf_script m s \<longleftrightarrow> length s \<le> unat m"

definition wf_tx_in :: "tx_in \<Rightarrow> bool" where
  "wf_tx_in ti \<longleftrightarrow> wf_outpoint (ti_PreviousOutPoint ti) \<and>
     wf_script MaxMessagePayload (ti_SignatureScript ti) \<and>
     length (ti_Witness ti) \<le> unat maxWitnessItemsPerInput \<and>
     (\<forall>w \<in> set (ti_Witness ti). wf_script maxWitnessItemSize w)"

definition wf_tx_out :: "tx_out \<Rightarrow> bool" where
  "wf_tx_out out \<longleftrightarrow> wf_script MaxMessagePayload (to_PkScript out)"

definition wf_tx :: "msg_tx \<Rightarrow> bool" where
  "wf_tx tx \<longleftrightarrow> tx_TxIn tx \<noteq> [] \<and> length (tx_TxIn tx) \<le> unat maxTxInPerMessage \<and>
     length (tx_TxOut tx) \<le> unat maxTxOutPerMessage \<and>
     (\<forall>ti \<in> set (tx_TxIn tx). wf_tx_in ti) \<and> (\<forall>out \<in> set (tx_TxOut tx). wf_tx_out out)"

lemma unat_len64: "length xs \<le> unat (m :: u64) \<Longrightarrow> unat (len64 xs) = length xs"
proof -
  assume "length xs \<le> unat m"
  also have "unat m < 2 ^ 64" using unsigned_less [of m] by simp
  finally show ?thesis by (simp add: unat_of_nat)
qed

lemma len64_not_more: "length xs \<le> unat (m :: u64) \<Longrightarrow> \<not> m < len64 xs"
  by (simp add: word_less_nat_alt unat_len64)

lemma readScript_Write [buf_simps]:
  "wf_script m s \<Longrightarrow> readScript m (WriteVarBytes s @ r) = Inr (s, r)"
  by (simp add: readScript_def WriteVarBytes_def wf_script_def buf_simps unat_len64 len64_not_more)

lemma readOutPoint_write [buf_simps]:
  "wf_outpoint op \<Longrightarrow> readOutPoint (writeOutPoint op @ r) = Inr (op, r)"
  by (simp add: readOutPoint_def writeOutPoint_def wf_outpoint_def buf_simps)

lemma readTxIn_write [buf_simps]:
  "wf_tx_in ti \<Longrightarrow> readTxIn (writeTxIn ti @ r) = Inr (ti\<lparr>ti_Witness := []\<rparr>, r)"
  by (simp add: readTxIn_def writeTxIn_def wf_tx_in_def buf_simps)

lemma readTxOut_write [buf_simps]:
  "wf_tx_out out \<Longrightarrow> readTxOut (WriteTxOut out @ r) = Inr (out, r)"
  by (simp add: readTxOut_def WriteTxOut_def wf_tx_out_def buf_simps)

interpretation txin: item_codec writeTxIn readTxIn "\<lambda>ti. wf_tx_in ti \<and> ti_Witness ti = []"
  by unfold_locales (simp add: buf_simps)

interpretation txout: item_codec WriteTxOut readTxOut wf_tx_out
  by unfold_locales (simp add: buf_simps)

interpretation witem: item_codec WriteVarBytes "readScript m" "wf_script m" for m
  by unfold_locales (simp add: buf_simps)

lemma readWitness_write [buf_simps]:
  "length wit \<le> unat maxWitnessItemsPerInput \<Longrightarrow> \<forall>w \<in> set wit. wf_script maxWitnessItemSize w \<Longrightarrow>
   readWitness (writeTxWitness wit @ r) = Inr (wit, r)"
  by (simp add: readWitness_def writeTxWitness_def buf_simps unat_len64 len64_not_more
      witem.read_list_enc)

lemma readWitnesses_write:
  "\<forall>ti \<in> set tis. wf_tx_in ti \<Longrightarrow>
   readWitnesses (map (\<lambda>ti. ti\<lparr>ti_Witness := []\<rparr>) tis)
     (concat (map (writeTxWitness \<circ> ti_Witness) tis) @ r) = Inr (tis, r)"
  by (induction tis) (simp_all add: wf_tx_in_def buf_simps)

lemma read_ins_write:
  "\<forall>ti \<in> set tis. wf_tx_in ti \<Longrightarrow> n = length tis \<Longrightarrow>
   read_list_err n readTxIn (concat (map writeTxIn tis) @ r) =
     Inr (map (\<lambda>ti. ti\<lparr>ti_Witness := []\<rparr>) tis, r)"
proof -
  assume wf: "\<forall>ti \<in> set tis. wf_tx_in ti" and n: "n = length tis"
  let ?f = "\<lambda>ti. ti\<lparr>ti_Witness := []\<rparr>"
  have cm: "map writeTxIn (map ?f tis) = map writeTxIn tis"
    by (simp add: writeTxIn_def)
  have "\<forall>ti \<in> set (map ?f tis). wf_tx_in ti \<and> ti_Witness ti = []"
    using wf by (auto simp: wf_tx_in_def)
  then show ?thesis
    using txin.read_list_enc [of "map ?f tis" n r] n by (simp only: cm length_map)
qed

lemma no_witness_map: "\<not> HasWitness tx \<Longrightarrow> map (\<lambda>ti. ti\<lparr>ti_Witness := []\<rparr>) (tx_TxIn tx) = tx_TxIn tx"
  by (rule map_idI) (auto simp: HasWitness_def list_ex_iff)

lemma len64_nonzero: "xs \<noteq> [] \<Longrightarrow> length xs \<le> unat (m :: u64) \<Longrightarrow> len64 xs \<noteq> 0"
  using unat_len64 [of xs m] by (auto simp: word_unat_eq_iff)

lemma readTxInCount_write [buf_simps]:
  assumes "xs \<noteq> []" "length xs \<le> unat maxTxInPerMessage"
  shows "readTxInCount True (0 # 1 # WriteVarInt (len64 xs) @ r) = Inr ((len64 xs, 1), r)"
    and "readTxInCount True (WriteVarInt (len64 xs) @ r) = Inr ((len64 xs, 0), r)"
proof -
  have "WriteVarInt 0 = [0]" by (simp add: WriteVarInt_def)
  then have "ReadVarInt (0 # b) = Inr (0, b)" for b
    using ReadVarInt_Write [of 0 b] by simp
  then show "readTxInCount True (0 # 1 # WriteVarInt (len64 xs) @ r) = Inr ((len64 xs, 1), r)"
    by (simp add: readTxInCount_def buf_simps)
  show "readTxInCount True (WriteVarInt (len64 xs) @ r) = Inr ((len64 xs, 0), r)"
    using len64_nonzero [OF assms] by (simp add: readTxInCount_def buf_simps)
qed

lemma Deserialize_Serialize [buf_simps]:
  assumes "wf_tx tx" shows "Deserialize (Serialize tx @ r) = Inr (tx, r)"
proof -
  note wf = assms [unfolded wf_tx_def]
  note simps = Deserialize_def Serialize_def BtcDecode_def BtcEncode_def buf_simps
    read_ins_write txout.read_list_enc len64_not_more
    unat_len64 [of _ maxTxInPerMessage] unat_len64 [of _ maxTxOutPerMessage]
  show ?thesis
  proof (cases "HasWitness tx")
    case True
    with wf show ?thesis by (simp add: simps readWitnesses_write)
  next
    case False
    with wf show ?thesis by (simp add: simps no_witness_map)
  qed
qed

lemma length_concat_sum: "(\<And>x. length (f x) = g x) \<Longrightarrow> length (concat (map f xs)) = sum_list (map g xs)"
  by (induction xs) simp_all

lemma length_WriteVarBytes: "length (WriteVarBytes b) = VarIntSerializeSize (len64 b) + length b"
  by (simp add: WriteVarBytes_def length_WriteVarInt)

lemma length_writeTxWitness: "length (writeTxWitness wit) = witness_SerializeSize wit"
  by (simp add: writeTxWitness_def witness_SerializeSize_def length_WriteVarInt
      length_concat_sum [OF length_WriteVarBytes])

lemma length_WriteTxOut: "length (WriteTxOut out) = txout_SerializeSize out"
  by (simp add: WriteTxOut_def txout_SerializeSize_def length_WriteVarBytes)

lemma length_ins:
  "\<forall>ti \<in> set tis. wf_tx_in ti \<Longrightarrow>
   length (concat (map writeTxIn tis)) = sum_list (map txin_SerializeSize tis)"
  by (induction tis) (simp_all add: writeTxIn_def txin_SerializeSize_def length_WriteVarBytes
      writeOutPoint_def wf_tx_in_def wf_outpoint_def)

lemma length_Serialize: "wf_tx tx \<Longrightarrow> length (Serialize tx) = SerializeSize tx"
  by (simp add: Serialize_def BtcEncode_def SerializeSize_def baseSize_def length_WriteVarInt wf_tx_def
      length_ins length_concat_sum [OF length_WriteTxOut] length_concat_sum [of "writeTxWitness \<circ> ti_Witness"
      "witness_SerializeSize \<circ> ti_Witness"] length_writeTxWitness)

section \<open>Properties\<close>

text \<open>C32: \<open>ReadVarInt\<close> accepts exactly the encodings \<open>WriteVarInt\<close> produces: it reads a value off a
  buffer if and only if the buffer starts with the (shortest) encoding of that value.\<close>

theorem varint_canonical:
  "ReadVarInt b = Inr (v, r) \<longleftrightarrow> b = WriteVarInt v @ r"
  using WriteVarInt_canonical by (auto simp: ReadVarInt_Write)

text \<open>C32: a transaction within the parser's limits, with or without witnesses, is read back from its
  serialization, and \<open>SerializeSize\<close> predicts the number of bytes.\<close>

theorem tx_roundtrip:
  "wf_tx tx \<Longrightarrow> Deserialize (Serialize tx @ r) = Inr (tx, r) \<and> length (Serialize tx) = SerializeSize tx"
  by (simp add: Deserialize_Serialize length_Serialize)

definition toy_tx :: msg_tx where
  "toy_tx = AddTxOut (AddTxIn (NewMsgTx\<lparr>tx_Version := 2\<rparr>)
     (NewTxIn \<lparr>op_Hash = replicate 32 7, op_Index = 1\<rparr> [] [[1, 2], []])) (NewTxOut 5000 [0, 0x14])"

theorem tx_roundtrip_witness:
  "Deserialize (Serialize toy_tx @ [9]) = Inr (toy_tx, [9]) \<and> length (Serialize toy_tx) = SerializeSize toy_tx"
  by (rule tx_roundtrip)
    (simp add: toy_tx_def wf_tx_def wf_tx_in_def wf_tx_out_def wf_outpoint_def wf_script_def AddTxIn_def AddTxOut_def
      NewMsgTx_def NewTxIn_def NewTxOut_def maxTxInPerMessage_def maxTxOutPerMessage_def MaxMessagePayload_def
      maxWitnessItemsPerInput_def maxWitnessItemSize_def)

end
