(* ===== verification/LnScript.thy ===== *)
theory LnScript
  imports LitWire
begin

text \<open>
  Scripts: the script builder of \<open>btcutil/txscript\<close>, the scripts of \<open>lnutil/lnlib.go\<close> and
  \<open>lnutil/btclib.go\<close>, and the BIP69 sorting of \<open>btcutil/txsort\<close>. The hash functions and the elliptic
  curve operations are fields of a parameter record \<open>crypto\<close>.
\<close>

section \<open>The cryptographic primitives\<close>

text \<open>
  \<open>cr_DoubleHash\<close> is SHA-256 twice, \<open>cr_Hash160\<close> RIPEMD-160 of SHA-256; \<open>cr_CombinePubs\<close>, \<open>cr_AddPubsEZ\<close>
  and \<open>cr_PubFromHash\<close> are the curve operations of \<open>lnutil/curvelib.go\<close> over \<open>koblitz\<close>. The model assumes
  nothing about them.
\<close>

record crypto =
  cr_Sha256 :: "bytes \<Rightarrow> bytes"
  cr_DoubleHash :: "bytes \<Rightarrow> bytes"
  cr_Hash160 :: "bytes \<Rightarrow> bytes"
  cr_CombinePubs :: "bytes \<Rightarrow> bytes \<Rightarrow> bytes"
  cr_AddPubsEZ :: "bytes \<Rightarrow> bytes \<Rightarrow> bytes"
  cr_PubFromHash :: "bytes \<Rightarrow> bytes"

text \<open>\<open>"ELKSCALAR"\<close> in ASCII.\<close>

definition ElkScalar :: "crypto \<Rightarrow> bytes \<Rightarrow> bytes" where
  "ElkScalar cr h = cr_DoubleHash cr (h @ [0x45, 0x4c, 0x4b, 0x53, 0x43, 0x41, 0x4c, 0x41, 0x52])"

definition ElkPointFromHash :: "crypto \<Rightarrow> bytes \<Rightarrow> bytes" where
  "ElkPointFromHash cr h = cr_PubFromHash cr (ElkScalar cr h)"

definition TxHash :: "crypto \<Rightarrow> msg_tx \<Rightarrow> bytes" where
  "TxHash cr tx = cr_DoubleHash cr (SerializeNoWitness tx)"

section \<open>The script builder\<close>

abbreviation "OP_0 \<equiv> (0x00 :: byte)"
abbreviation "OP_PUSHDATA1 \<equiv> (0x4c :: byte)"
abbreviation "OP_PUSHDATA2 \<equiv> (0x4d :: byte)"
abbreviation "OP_PUSHDATA4 \<equiv> (0x4e :: byte)"
abbreviation "OP_1NEGATE \<equiv> (0x4f :: byte)"
abbreviation "OP_1 \<equiv> (0x51 :: byte)"
abbreviation "OP_2 \<equiv> (0x52 :: byte)"
abbreviation "OP_IF \<equiv> (0x63 :: byte)"
abbreviation "OP_NOTIF \<equiv> (0x64 :: byte)"
abbreviation "OP_ELSE \<equiv> (0x67 :: byte)"
abbreviation "OP_ENDIF \<equiv> (0x68 :: byte)"
abbreviation "OP_DROP \<equiv> (0x75 :: byte)"
abbreviation "OP_DUP \<equiv> (0x76 :: byte)"
abbreviation "OP_SWAP \<equiv> (0x7c :: byte)"
abbreviation "OP_SIZE \<equiv> (0x82 :: byte)"
abbreviation "OP_EQUAL \<equiv> (0x87 :: byte)"
abbreviation "OP_EQUALVERIFY \<equiv> (0x88 :: byte)"
abbreviation "OP_SHA256 \<equiv> (0xa8 :: byte)"
abbreviation "OP_HASH160 \<equiv> (0xa9 :: byte)"
abbreviation "OP_CHECKSIG \<equiv> (0xac :: byte)"
abbreviation "OP_CHECKMULTISIG \<equiv> (0xae :: byte)"
abbreviation "OP_CHECKLOCKTIMEVERIFY \<equiv> (0xb1 :: byte)"
abbreviation "OP_NOP3 \<equiv> (0xb2 :: byte)"

definition maxScriptSize :: nat where "maxScriptSize = 10000"
definition MaxScriptElementSize :: nat where "MaxScriptElementSize = 520"

text \<open>The builder: the bytes so far, and the first error, after which nothing is added.\<close>

record script_builder =
  sb_script :: bytes
  sb_err :: "lit_error option"

definition NewScriptBuilder :: script_builder where
  "NewScriptBuilder = \<lparr>sb_script = [], sb_err = None\<rparr>"

definition AddOp :: "byte \<Rightarrow> script_builder \<Rightarrow> script_builder" where
  "AddOp opcode b =
     (if sb_err b \<noteq> None then b
      else if maxScriptSize < length (sb_script b) + 1 then b\<lparr>sb_err := Some OutOfRange\<rparr>
      else b\<lparr>sb_script := sb_script b @ [opcode]\<rparr>)"

definition canonicalDataSize :: "bytes \<Rightarrow> nat" where
  "canonicalDataSize data =
     (let dataLen = length data in
      if dataLen = 0 then 1
      else if dataLen = 1 \<and> hd data \<le> 16 then 1
      else if dataLen = 1 \<and> hd data = 0x81 then 1
      else if dataLen < unat OP_PUSHDATA1 then 1 + dataLen
      else if dataLen \<le> 0xff then 2 + dataLen
      else if dataLen \<le> 0xffff then 3 + dataLen
      else 5 + dataLen)"

text \<open>The bytes \<open>addData\<close> appends.\<close>

definition addData_bytes :: "bytes \<Rightarrow> bytes" where
  "addData_bytes data =
     (let dataLen = length data in
      if dataLen = 0 \<or> dataLen = 1 \<and> hd data = 0 then [OP_0]
      else if dataLen = 1 \<and> hd data \<le> 16 then [(OP_1 - 1) + hd data]
      else if dataLen = 1 \<and> hd data = 0x81 then [OP_1NEGATE]
      else (if dataLen < unat OP_PUSHDATA1 then [of_nat dataLen]
            else if dataLen \<le> 0xff then [OP_PUSHDATA1, of_nat dataLen]
            else if dataLen \<le> 0xffff then OP_PUSHDATA2 # le_enc 2 dataLen
            else OP_PUSHDATA4 # le_enc 4 dataLen) @ data)"

definition addData :: "bytes \<Rightarrow> script_builder \<Rightarrow> script_builder" where
  "addData data b = b\<lparr>sb_script := sb_script b @ addData_bytes data\<rparr>"

definition AddData :: "bytes \<Rightarrow> script_builder \<Rightarrow> script_builder" where
  "AddData data b =
     (if sb_err b \<noteq> None then b
      else if maxScriptSize < length (sb_script b) + canonicalDataSize data then b\<lparr>sb_err := Some OutOfRange\<rparr>
      else if MaxScriptElementSize < length data then b\<lparr>sb_err := Some OutOfRange\<rparr>
      else addData data b)"

text \<open>
  Script numbers. The scripts push lock times and small constants, converted from unsigned types, so the
  model covers the non-negative numbers.
\<close>

fun le_min :: "nat \<Rightarrow> bytes" where
  "le_min n = (if n = 0 then [] else of_nat n # le_min (n div 256))"

declare le_min.simps [simp del]

definition scriptNum_Bytes :: "nat \<Rightarrow> bytes" where
  "scriptNum_Bytes n =
     (if n = 0 then []
      else let result = le_min n in if last result AND 0x80 \<noteq> 0 then result @ [0x00] else result)"

definition AddInt64 :: "nat \<Rightarrow> script_builder \<Rightarrow> script_builder" where
  "AddInt64 val b =
     (if sb_err b \<noteq> None then b
      else if maxScriptSize < length (sb_script b) + 1 then b\<lparr>sb_err := Some OutOfRange\<rparr>
      else if val = 0 then b\<lparr>sb_script := sb_script b @ [OP_0]\<rparr>
      else if 1 \<le> val \<and> val \<le> 16 then b\<lparr>sb_script := sb_script b @ [(OP_1 - 1) + of_nat val]\<rparr>
      else AddData (scriptNum_Bytes val) b)"

text \<open>A script as the sequence of builder calls that makes it.\<close>

datatype script_item = Op byte | Data bytes | Num nat

primrec add_item :: "script_item \<Rightarrow> script_builder \<Rightarrow> script_builder" where
  "add_item (Op c) b = AddOp c b"
| "add_item (Data d) b = AddData d b"
| "add_item (Num n) b = AddInt64 n b"

definition build_script :: "script_item list \<Rightarrow> script_builder" where
  "build_script items = fold add_item items NewScriptBuilder"

section \<open>The scripts of lnlib and btclib\<close>

definition CommitScript :: "bytes \<Rightarrow> bytes \<Rightarrow> u16 \<Rightarrow> bytes" where
  "CommitScript rkey tkey delay = sb_script (build_script
     [Op OP_IF, Data rkey, Op OP_ELSE, Num (unat delay), Op OP_NOP3, Op OP_DROP, Data tkey,
      Op OP_ENDIF, Op OP_CHECKSIG])"

text \<open>\<open>bytes.Compare(a, b) == -1\<close>.\<close>

fun bytes_less :: "bytes \<Rightarrow> bytes \<Rightarrow> bool" where
  "bytes_less [] [] = False"
| "bytes_less [] (b # bs) = True"
| "bytes_less (a # as) [] = False"
| "bytes_less (a # as) (b # bs) = (if a < b then True else if b < a then False else bytes_less as bs)"

definition FundTxScript :: "bytes \<Rightarrow> bytes \<Rightarrow> lit_error + bytes \<times> bool" where
  "FundTxScript aPub bPub =
     (let swapped = bytes_less aPub bPub;
          (aPub, bPub) = (if swapped then (bPub, aPub) else (aPub, bPub));
          b = build_script [Op OP_2, Data aPub, Data bPub, Op OP_2, Op OP_CHECKMULTISIG]
      in case sb_err b of Some e \<Rightarrow> Inl e | None \<Rightarrow> Inr (sb_script b, swapped))"

definition P2WSHify :: "crypto \<Rightarrow> bytes \<Rightarrow> bytes" where
  "P2WSHify cr scriptBytes = sb_script (build_script [Op OP_0, Data (cr_Sha256 cr scriptBytes)])"

definition DirectWPKHScript :: "crypto \<Rightarrow> bytes \<Rightarrow> bytes" where
  "DirectWPKHScript cr pub = sb_script (build_script [Op OP_0, Data (cr_Hash160 cr pub)])"

definition DirectWPKHScriptFromPKH :: "bytes \<Rightarrow> bytes" where
  "DirectWPKHScriptFromPKH pkh = sb_script (build_script [Op OP_0, Data pkh])"

definition FundTxOut :: "crypto \<Rightarrow> bytes \<Rightarrow> bytes \<Rightarrow> int \<Rightarrow> lit_error + tx_out" where
  "FundTxOut cr pubA pubB amt =
     (if amt < 0 then Inl OutOfRange
      else bind_res (FundTxScript pubA pubB) (\<lambda>(s, swapped). Inr (NewTxOut (of_int amt) (P2WSHify cr s))))"

definition ReceiveHTLCScript :: "bytes \<Rightarrow> bytes \<Rightarrow> bytes \<Rightarrow> bytes \<Rightarrow> u32 \<Rightarrow> bytes" where
  "ReceiveHTLCScript revPKH remotePub rHash localPub locktime = sb_script (build_script
     [Op OP_DUP, Op OP_HASH160, Data revPKH, Op OP_EQUAL, Op OP_IF, Op OP_CHECKSIG, Op OP_ELSE,
      Data remotePub, Op OP_SWAP, Op OP_SIZE, Num 16, Op OP_EQUAL, Op OP_IF, Op OP_SHA256, Data rHash,
      Op OP_EQUALVERIFY, Num 2, Op OP_SWAP, Data localPub, Num 2, Op OP_CHECKMULTISIG, Op OP_ELSE,
      Op OP_DROP, Num (unat locktime), Op OP_CHECKLOCKTIMEVERIFY, Op OP_DROP, Op OP_CHECKSIG,
      Op OP_ENDIF, Op OP_ENDIF])"

definition OfferHTLCScript :: "bytes \<Rightarrow> bytes \<Rightarrow> bytes \<Rightarrow> bytes \<Rightarrow> bytes" where
  "OfferHTLCScript revPKH remotePub rHash localPub = sb_script (build_script
     [Op OP_DUP, Op OP_HASH160, Data revPKH, Op OP_EQUAL, Op OP_IF, Op OP_CHECKSIG, Op OP_ELSE,
      Data remotePub, Op OP_SWAP, Op OP_SIZE, Num 16, Op OP_EQUAL, Op OP_NOTIF, Op OP_DROP, Num 2,
      Op OP_SWAP, Data localPub, Num 2, Op OP_CHECKMULTISIG, Op OP_ELSE, Op OP_SHA256, Data rHash,
      Op OP_EQUALVERIFY, Op OP_CHECKSIG, Op OP_ENDIF, Op OP_ENDIF])"

lemma bytes_less_asym: "bytes_less a b \<Longrightarrow> \<not> bytes_less b a"
  by (induction a b rule: bytes_less.induct) (auto split: if_splits)

lemma bytes_less_total: "\<not> bytes_less a b \<Longrightarrow> \<not> bytes_less b a \<Longrightarrow> a = b"
  by (induction a b rule: bytes_less.induct) (auto split: if_splits)

lemma bytes_less_irrefl [simp]: "\<not> bytes_less a a"
  using bytes_less_asym by blast

lemma bytes_less_trans: "bytes_less a b \<Longrightarrow> bytes_less b c \<Longrightarrow> bytes_less a c"
proof (induction a b arbitrary: c rule: bytes_less.induct)
  case (2 b bs)
  then show ?case by (cases c) auto
next
  case (4 a as b bs)
  then show ?case by (cases c) (auto split: if_splits)
qed simp_all

text \<open>Whichever party builds it, the funding script is the same.\<close>

lemma FundTxScript_sym:
  assumes "FundTxScript a b = Inr (s, w)"
  shows "\<exists>w'. FundTxScript b a = Inr (s, w')"
proof -
  consider "bytes_less a b" "\<not> bytes_less b a" | "bytes_less b a" "\<not> bytes_less a b" | "a = b"
    using bytes_less_asym bytes_less_total by blast
  then show ?thesis
    using assms by cases (auto simp: FundTxScript_def Let_def split: option.splits)
qed

section \<open>BIP69 sorting\<close>

text \<open>
  \<open>sort.Sort\<close> with a \<open>Less\<close> function. Elements that are equivalent for these two orders are compared on
  all that is sorted by, so any correct sort gives an order the model's insertion sort also gives, up to
  inputs with the same outpoint.
\<close>

primrec insert_by :: "('a \<Rightarrow> 'a \<Rightarrow> bool) \<Rightarrow> 'a \<Rightarrow> 'a list \<Rightarrow> 'a list" where
  "insert_by lt x [] = [x]"
| "insert_by lt x (y # ys) = (if lt y x then y # insert_by lt x ys else x # y # ys)"

definition sort_by :: "('a \<Rightarrow> 'a \<Rightarrow> bool) \<Rightarrow> 'a list \<Rightarrow> 'a list" where
  "sort_by lt xs = foldr (insert_by lt) xs []"

definition input_less :: "tx_in \<Rightarrow> tx_in \<Rightarrow> bool" where
  "input_less i j =
     (let ihash = op_Hash (ti_PreviousOutPoint i); jhash = op_Hash (ti_PreviousOutPoint j)
      in if ihash = jhash then op_Index (ti_PreviousOutPoint i) < op_Index (ti_PreviousOutPoint j)
         else bytes_less (rev ihash) (rev jhash))"

definition output_less :: "tx_out \<Rightarrow> tx_out \<Rightarrow> bool" where
  "output_less i j =
     (if to_Value i = to_Value j then bytes_less (to_PkScript i) (to_PkScript j)
      else sint (to_Value i) < sint (to_Value j))"

definition InPlaceSort :: "msg_tx \<Rightarrow> msg_tx" where
  "InPlaceSort tx = tx\<lparr>tx_TxIn := sort_by input_less (tx_TxIn tx), tx_TxOut := sort_by output_less (tx_TxOut tx)\<rparr>"

lemma set_insert_by [simp]: "set (insert_by lt x ys) = insert x (set ys)"
  by (induction ys) auto

lemma mset_insert_by_length [simp]: "length (insert_by lt x ys) = Suc (length ys)"
  by (induction ys) auto

lemma sort_by_simps [simp]: "sort_by lt [] = []" "sort_by lt [x] = [x]"
  by (simp_all add: sort_by_def)

lemma set_sort_by [simp]: "set (sort_by lt xs) = set xs"
  by (induction xs) (auto simp: sort_by_def)

lemma length_sort_by [simp]: "length (sort_by lt xs) = length xs"
  by (induction xs) (auto simp: sort_by_def)

lemma output_less_trans: "output_less a b \<Longrightarrow> output_less b c \<Longrightarrow> output_less a c"
  by (auto simp: output_less_def split: if_splits intro: bytes_less_trans)

lemma output_less_total: "\<not> output_less a b \<Longrightarrow> \<not> output_less b a \<Longrightarrow> a = b"
  by (auto simp: output_less_def not_less split: if_splits dest: bytes_less_total signed_word_eqI antisym)

end
