(* ===== verification/Dlc.thy ===== *)
theory Dlc
  imports LnScript
begin

text \<open>
  Discreet log contracts: the contract record of \<open>lnutil/dlclib.go\<close>, its binary form, the lookup of
  divisions and signatures, and the settlement transaction. Key derivation (\<open>koblitz\<close> points) and the
  hashed commitment script enter as parameters of \<open>SettlementTx\<close>.
\<close>

section \<open>The contract and its parts\<close>

record dlc_division =
  dv_OracleValue :: u64
  dv_ValueOurs :: u64

record dlc_input =
  fi_Outpoint :: outpoint
  fi_Value :: u64

record dlc_sig =
  ss_Outcome :: u64
  ss_Signature :: bytes

text \<open>The status is a Go \<open>int\<close>, kept as its 64-bit pattern.\<close>

definition ContractStatusDraft :: u64 where "ContractStatusDraft = 0"
definition ContractStatusOfferedByMe :: u64 where "ContractStatusOfferedByMe = 1"
definition ContractStatusOfferedToMe :: u64 where "ContractStatusOfferedToMe = 2"
definition ContractStatusDeclined :: u64 where "ContractStatusDeclined = 3"
definition ContractStatusAccepted :: u64 where "ContractStatusAccepted = 4"
definition ContractStatusAcknowledged :: u64 where "ContractStatusAcknowledged = 5"
definition ContractStatusActive :: u64 where "ContractStatusActive = 6"
definition ContractStatusSettling :: u64 where "ContractStatusSettling = 7"
definition ContractStatusClosed :: u64 where "ContractStatusClosed = 8"
definition ContractStatusError :: u64 where "ContractStatusError = 9"
definition ContractStatusAccepting :: u64 where "ContractStatusAccepting = 10"

record dlc_contract =
  dc_Idx :: u64
  dc_TheirIdx :: u64
  dc_PeerIdx :: u32
  dc_CoinType :: u32
  dc_OracleA :: bytes
  dc_OracleR :: bytes
  dc_OracleTimestamp :: u64
  dc_Division :: "dlc_division list"
  dc_OurFundingAmount :: u64
  dc_TheirFundingAmount :: u64
  dc_OurChangePKH :: bytes
  dc_TheirChangePKH :: bytes
  dc_OurFundMultisigPub :: bytes
  dc_TheirFundMultisigPub :: bytes
  dc_OurPayoutBase :: bytes
  dc_TheirPayoutBase :: bytes
  dc_OurPayoutPKH :: bytes
  dc_TheirPayoutPKH :: bytes
  dc_Status :: u64
  dc_OurFundingInputs :: "dlc_input list"
  dc_TheirFundingInputs :: "dlc_input list"
  dc_TheirSettlementSignatures :: "dlc_sig list"
  dc_FundingOutpoint :: outpoint

section \<open>Binary form\<close>

text \<open>
  The reading loops. The scratch array \<open>op\<close> is declared once, outside the loops, so a short read
  leaves the bytes of the previous outpoint in it; it is threaded through.
\<close>

primrec read_dlc_inputs :: "nat \<Rightarrow> bytes \<Rightarrow> bytes \<Rightarrow> lit_error + (dlc_input list \<times> bytes) \<times> bytes" where
  "read_dlc_inputs 0 op b = Inr (([], op), b)"
| "read_dlc_inputs (Suc n) op b =
     (let (x, b1) = buf_next 36 b; op' = copy_over op x in
      bind_res (ReadVarInt b1) (\<lambda>(v, b2).
      bind_res (read_dlc_inputs n op' b2) (\<lambda>((xs, op''), b3).
      Inr ((\<lparr>fi_Outpoint = OutPointFromBytes op', fi_Value = v\<rparr> # xs, op''), b3))))"

definition read_dlc_division :: "bytes \<Rightarrow> lit_error + dlc_division \<times> bytes" where
  "read_dlc_division b =
     bind_res (ReadVarInt b) (\<lambda>(o1, b1).
     bind_res (ReadVarInt b1) (\<lambda>(v, b2).
     Inr (\<lparr>dv_OracleValue = o1, dv_ValueOurs = v\<rparr>, b2)))"

definition read_dlc_sig :: "bytes \<Rightarrow> lit_error + dlc_sig \<times> bytes" where
  "read_dlc_sig b =
     bind_res (ReadVarInt b) (\<lambda>(o1, b1).
     let (s, b2) = next_arr 64 b1 in Inr (\<lparr>ss_Outcome = o1, ss_Signature = s\<rparr>, b2))"

definition DlcContractFromBytes :: "bytes \<Rightarrow> lit_error + dlc_contract" where
  "DlcContractFromBytes b =
     bind_res (ReadVarInt b) (\<lambda>(ourIdx, b).
     bind_res (ReadVarInt b) (\<lambda>(theirIdx, b).
     let (oracleA, b) = next_arr 33 b; (oracleR, b) = next_arr 33 b in
     bind_res (ReadVarInt b) (\<lambda>(peerIdx, b).
     bind_res (ReadVarInt b) (\<lambda>(coinType, b).
     bind_res (ReadVarInt b) (\<lambda>(oracleTimestamp, b).
     bind_res (ReadVarInt b) (\<lambda>(ourFundingAmount, b).
     bind_res (ReadVarInt b) (\<lambda>(theirFundingAmount, b).
     let (ourChangePKH, b) = next_arr 20 b; (theirChangePKH, b) = next_arr 20 b;
         (ourFundMultisigPub, b) = next_arr 33 b; (theirFundMultisigPub, b) = next_arr 33 b;
         (ourPayoutBase, b) = next_arr 33 b; (theirPayoutBase, b) = next_arr 33 b;
         (ourPayoutPKH, b) = next_arr 20 b; (theirPayoutPKH, b) = next_arr 20 b in
     bind_res (ReadVarInt b) (\<lambda>(status, b).
     bind_res (ReadVarInt b) (\<lambda>(ourInputsLen, b).
     bind_res (makeslice 48 ourInputsLen) (\<lambda>n.
     bind_res (read_dlc_inputs n (replicate 36 0) b) (\<lambda>((ourInputs, op), b).
     bind_res (ReadVarInt b) (\<lambda>(theirInputsLen, b).
     bind_res (makeslice 48 theirInputsLen) (\<lambda>n.
     bind_res (read_dlc_inputs n op b) (\<lambda>((theirInputs, op), b).
     bind_res (ReadVarInt b) (\<lambda>(divisionLen, b).
     bind_res (makeslice 16 divisionLen) (\<lambda>n.
     bind_res (read_list_err n read_dlc_division b) (\<lambda>(division, b).
     bind_res (ReadVarInt b) (\<lambda>(theirSigCount, b).
     bind_res (makeslice 72 theirSigCount) (\<lambda>n.
     bind_res (read_list_err n read_dlc_sig b) (\<lambda>(sigs, b).
     let (x, b) = buf_next 36 b in
     Inr \<lparr>dc_Idx = ourIdx, dc_TheirIdx = theirIdx, dc_PeerIdx = ucast peerIdx,
       dc_CoinType = ucast coinType, dc_OracleA = oracleA, dc_OracleR = oracleR,
       dc_OracleTimestamp = oracleTimestamp, dc_Division = division,
       dc_OurFundingAmount = ourFundingAmount, dc_TheirFundingAmount = theirFundingAmount,
       dc_OurChangePKH = ourChangePKH, dc_TheirChangePKH = theirChangePKH,
       dc_OurFundMultisigPub = ourFundMultisigPub, dc_TheirFundMultisigPub = theirFundMultisigPub,
       dc_OurPayoutBase = ourPayoutBase, dc_TheirPayoutBase = theirPayoutBase,
       dc_OurPayoutPKH = ourPayoutPKH, dc_TheirPayoutPKH = theirPayoutPKH, dc_Status = status,
       dc_OurFundingInputs = ourInputs, dc_TheirFundingInputs = theirInputs,
       dc_TheirSettlementSignatures = sigs,
       dc_FundingOutpoint = OutPointFromBytes (copy_over op x)\<rparr>))))))))))))))))))))"

definition write_dlc_input :: "dlc_input \<Rightarrow> bytes" where
  "write_dlc_input i = OutPointToBytes (fi_Outpoint i) @ WriteVarInt (fi_Value i)"

definition write_dlc_division :: "dlc_division \<Rightarrow> bytes" where
  "write_dlc_division d = WriteVarInt (dv_OracleValue d) @ WriteVarInt (dv_ValueOurs d)"

definition write_dlc_sig :: "dlc_sig \<Rightarrow> bytes" where
  "write_dlc_sig s = WriteVarInt (ss_Outcome s) @ ss_Signature s"

definition DlcContract_Bytes :: "dlc_contract \<Rightarrow> bytes" where
  "DlcContract_Bytes c =
     WriteVarInt (dc_Idx c) @ WriteVarInt (dc_TheirIdx c) @ dc_OracleA c @ dc_OracleR c @
     WriteVarInt (ucast (dc_PeerIdx c)) @ WriteVarInt (ucast (dc_CoinType c)) @
     WriteVarInt (dc_OracleTimestamp c) @ WriteVarInt (dc_OurFundingAmount c) @
     WriteVarInt (dc_TheirFundingAmount c) @ dc_OurChangePKH c @ dc_TheirChangePKH c @
     dc_OurFundMultisigPub c @ dc_TheirFundMultisigPub c @ dc_OurPayoutBase c @ dc_TheirPayoutBase c @
     dc_OurPayoutPKH c @ dc_TheirPayoutPKH c @ WriteVarInt (dc_Status c) @
     WriteVarInt (len64 (dc_OurFundingInputs c)) @ concat (map write_dlc_input (dc_OurFundingInputs c)) @
     WriteVarInt (len64 (dc_TheirFundingInputs c)) @ concat (map write_dlc_input (dc_TheirFundingInputs c)) @
     WriteVarInt (len64 (dc_Division c)) @ concat (map write_dlc_division (dc_Division c)) @
     WriteVarInt (len64 (dc_TheirSettlementSignatures c)) @
     concat (map write_dlc_sig (dc_TheirSettlementSignatures c)) @
     OutPointToBytes (dc_FundingOutpoint c)"

section \<open>Round trip\<close>

definition wf_dlc_input :: "dlc_input \<Rightarrow> bool" where
  "wf_dlc_input i \<longleftrightarrow> wf_outpoint (fi_Outpoint i)"

definition wf_dlc_sig :: "dlc_sig \<Rightarrow> bool" where
  "wf_dlc_sig s \<longleftrightarrow> length (ss_Signature s) = 64"

text \<open>The array widths of the Go struct, and lists that fit the address space.\<close>

definition wf_contract :: "dlc_contract \<Rightarrow> bool" where
  "wf_contract c \<longleftrightarrow>
     length (dc_OracleA c) = 33 \<and> length (dc_OracleR c) = 33 \<and>
     length (dc_OurChangePKH c) = 20 \<and> length (dc_TheirChangePKH c) = 20 \<and>
     length (dc_OurFundMultisigPub c) = 33 \<and> length (dc_TheirFundMultisigPub c) = 33 \<and>
     length (dc_OurPayoutBase c) = 33 \<and> length (dc_TheirPayoutBase c) = 33 \<and>
     length (dc_OurPayoutPKH c) = 20 \<and> length (dc_TheirPayoutPKH c) = 20 \<and>
     length (dc_OurFundingInputs c) * 48 \<le> 2 ^ 48 \<and> length (dc_TheirFundingInputs c) * 48 \<le> 2 ^ 48 \<and>
     length (dc_Division c) * 16 \<le> 2 ^ 48 \<and> length (dc_TheirSettlementSignatures c) * 72 \<le> 2 ^ 48 \<and>
     (\<forall>i \<in> set (dc_OurFundingInputs c). wf_dlc_input i) \<and>
     (\<forall>i \<in> set (dc_TheirFundingInputs c). wf_dlc_input i) \<and>
     (\<forall>s \<in> set (dc_TheirSettlementSignatures c). wf_dlc_sig s) \<and>
     wf_outpoint (dc_FundingOutpoint c)"

lemma makeslice_len:
  "length xs * sz \<le> 2 ^ 48 \<Longrightarrow> 0 < sz \<Longrightarrow> makeslice sz (len64 xs) = Inr (length xs)"
proof -
  assume a: "length xs * sz \<le> 2 ^ 48" "0 < sz"
  have "length xs \<le> length xs * sz" using a(2) by simp
  also note a(1)
  finally have "unat (len64 xs) = length xs" by (simp add: unat_of_nat)
  with a show ?thesis by (simp add: makeslice_def)
qed

lemma read_dlc_inputs_write:
  "\<forall>i \<in> set xs. wf_dlc_input i \<Longrightarrow> n = length xs \<Longrightarrow> length op = 36 \<Longrightarrow>
   \<exists>op'. length op' = 36 \<and>
     read_dlc_inputs n op (concat (map write_dlc_input xs) @ r) = Inr ((xs, op'), r)"
proof (induction xs arbitrary: n op)
  case (Cons x xs)
  let ?op = "OutPointToBytes (fi_Outpoint x)"
  obtain op' where "length op' = 36" "read_dlc_inputs (length xs) ?op
      (concat (map write_dlc_input xs) @ r) = Inr ((xs, op'), r)"
    using Cons.IH [of "length xs" ?op] Cons.prems by auto
  then have "read_dlc_inputs n op (concat (map write_dlc_input (x # xs)) @ r) = Inr ((x # xs, op'), r)"
    using Cons.prems
    by (simp add: write_dlc_input_def [of x] wf_dlc_input_def buf_simps Let_def)
  with \<open>length op' = 36\<close> show ?case by blast
qed simp

interpretation division: item_codec write_dlc_division read_dlc_division "\<lambda>_. True"
  by unfold_locales (simp add: read_dlc_division_def write_dlc_division_def buf_simps)

interpretation dsig: item_codec write_dlc_sig read_dlc_sig wf_dlc_sig
  by unfold_locales (simp add: read_dlc_sig_def write_dlc_sig_def wf_dlc_sig_def buf_simps)

lemma ucast_u32_u64 [simp]: "ucast (ucast (w :: u32) :: u64) = w"
proof -
  have "unat w < 4294967296" using unsigned_less [of w] by simp
  then show ?thesis
    by (simp only: word_unat_eq_iff unsigned_ucast_eq unsigned_take_bit_eq)
      (simp add: take_bit_eq_mod)
qed

lemma DlcContract_decode:
  assumes "wf_contract c" shows "DlcContractFromBytes (DlcContract_Bytes c) = Inr c"
proof -
  note wf = assms [unfolded wf_contract_def]
  let ?r2 = "WriteVarInt (len64 (dc_Division c)) @ concat (map write_dlc_division (dc_Division c)) @
     WriteVarInt (len64 (dc_TheirSettlementSignatures c)) @
     concat (map write_dlc_sig (dc_TheirSettlementSignatures c)) @
     OutPointToBytes (dc_FundingOutpoint c)"
  let ?r1 = "WriteVarInt (len64 (dc_TheirFundingInputs c)) @
     concat (map write_dlc_input (dc_TheirFundingInputs c)) @ ?r2"
  obtain op1 where op1: "length op1 = 36" "read_dlc_inputs (length (dc_OurFundingInputs c))
      (replicate 36 0) (concat (map write_dlc_input (dc_OurFundingInputs c)) @ ?r1) =
      Inr ((dc_OurFundingInputs c, op1), ?r1)"
    using read_dlc_inputs_write [of "dc_OurFundingInputs c" _ "replicate 36 0" ?r1] wf by auto
  obtain op2 where op2: "length op2 = 36" "read_dlc_inputs (length (dc_TheirFundingInputs c))
      op1 (concat (map write_dlc_input (dc_TheirFundingInputs c)) @ ?r2) =
      Inr ((dc_TheirFundingInputs c, op2), ?r2)"
    using read_dlc_inputs_write [of "dc_TheirFundingInputs c" _ op1 ?r2] wf op1(1) by auto
  from wf op1 op2 show ?thesis
    unfolding DlcContractFromBytes_def DlcContract_Bytes_def
    by (simp add: buf_simps makeslice_len division.read_list_enc dsig.read_list_enc)
qed

lemma makeslice_bound: "makeslice sz n = Inr k \<Longrightarrow> k * sz \<le> 2 ^ 48"
  by (auto simp: makeslice_def split: if_splits)

lemma read_dlc_inputs_wf:
  "read_dlc_inputs n op b = Inr ((xs, op'), r) \<Longrightarrow> length xs = n \<and> (\<forall>i \<in> set xs. wf_dlc_input i)"
  by (induction n arbitrary: op b xs) (auto simp: bind_res_eq_Inr Let_def case_prod_unfold wf_dlc_input_def)

lemma read_dlc_sigs_wf:
  "read_list_err n read_dlc_sig b = Inr (xs, r) \<Longrightarrow> length xs = n \<and> (\<forall>s \<in> set xs. wf_dlc_sig s)"
  by (induction n arbitrary: b xs)
    (auto simp: bind_res_eq_Inr Let_def case_prod_unfold wf_dlc_sig_def read_dlc_sig_def)

lemma read_list_err_length: "read_list_err n dec b = Inr (xs, r) \<Longrightarrow> length xs = n"
  by (induction n arbitrary: b xs) (auto simp: bind_res_eq_Inr)

text \<open>Whatever the parser accepts is well formed.\<close>

lemma DlcContract_wf: "DlcContractFromBytes b = Inr c \<Longrightarrow> wf_contract c"
  unfolding DlcContractFromBytes_def
  by (auto simp: bind_res_eq_Inr Let_def case_prod_unfold wf_contract_def
      dest!: makeslice_bound read_dlc_inputs_wf read_dlc_sigs_wf read_list_err_length [where dec = read_dlc_division])

section \<open>Looking up a division or a signature\<close>

definition GetDivision :: "dlc_contract \<Rightarrow> u64 \<Rightarrow> lit_error + dlc_division" where
  "GetDivision c val =
     (case find (\<lambda>d. dv_OracleValue d = val) (dc_Division c) of None \<Rightarrow> Inl OutOfRange | Some d \<Rightarrow> Inr d)"

definition GetTheirSettlementSignature :: "dlc_contract \<Rightarrow> u64 \<Rightarrow> lit_error + bytes" where
  "GetTheirSettlementSignature c val =
     (case find (\<lambda>s. ss_Outcome s = val) (dc_TheirSettlementSignatures c) of
        None \<Rightarrow> Inl OutOfRange | Some s \<Rightarrow> Inr (ss_Signature s))"

section \<open>The contract on the other side\<close>

definition zero_contract :: dlc_contract where
  "zero_contract =
     \<lparr>dc_Idx = 0, dc_TheirIdx = 0, dc_PeerIdx = 0, dc_CoinType = 0, dc_OracleA = replicate 33 0,
      dc_OracleR = replicate 33 0, dc_OracleTimestamp = 0, dc_Division = [], dc_OurFundingAmount = 0,
      dc_TheirFundingAmount = 0, dc_OurChangePKH = replicate 20 0, dc_TheirChangePKH = replicate 20 0,
      dc_OurFundMultisigPub = replicate 33 0, dc_TheirFundMultisigPub = replicate 33 0,
      dc_OurPayoutBase = replicate 33 0, dc_TheirPayoutBase = replicate 33 0,
      dc_OurPayoutPKH = replicate 20 0, dc_TheirPayoutPKH = replicate 20 0, dc_Status = 0,
      dc_OurFundingInputs = [], dc_TheirFundingInputs = [], dc_TheirSettlementSignatures = [],
      dc_FundingOutpoint = \<lparr>op_Hash = replicate 32 0, op_Index = 0\<rparr>\<rparr>"

text \<open>
  The contract \<open>DlcOfferHandler\<close> stores for an incoming offer: the same contract seen from the other
  side. (Its index is assigned when it is saved.)
\<close>

definition offered_contract :: "u32 \<Rightarrow> dlc_contract \<Rightarrow> dlc_contract" where
  "offered_contract peerIdx m = zero_contract
     \<lparr>dc_PeerIdx := peerIdx, dc_Status := ContractStatusOfferedToMe,
      dc_OurFundingAmount := dc_TheirFundingAmount m, dc_TheirFundingAmount := dc_OurFundingAmount m,
      dc_OurFundingInputs := dc_TheirFundingInputs m, dc_TheirFundingInputs := dc_OurFundingInputs m,
      dc_OurFundMultisigPub := dc_TheirFundMultisigPub m, dc_TheirFundMultisigPub := dc_OurFundMultisigPub m,
      dc_OurPayoutBase := dc_TheirPayoutBase m, dc_TheirPayoutBase := dc_OurPayoutBase m,
      dc_OurChangePKH := dc_TheirChangePKH m, dc_TheirChangePKH := dc_OurChangePKH m,
      dc_TheirIdx := dc_Idx m,
      dc_Division := map (\<lambda>d. d\<lparr>dv_ValueOurs :=
        (dc_OurFundingAmount m + dc_TheirFundingAmount m) - dv_ValueOurs d\<rparr>) (dc_Division m),
      dc_CoinType := dc_CoinType m, dc_OracleA := dc_OracleA m, dc_OracleR := dc_OracleR m,
      dc_OracleTimestamp := dc_OracleTimestamp m\<rparr>"

section \<open>The settlement transaction\<close>

definition DlcSettlementTxFee :: int where "DlcSettlementTxFee = 1000"

text \<open>The two amounts \<open>(valueOurs, valueTheirs)\<close> the local variables of \<open>SettlementTx\<close> end up with.\<close>

definition settlement_values :: "int \<Rightarrow> int \<Rightarrow> int \<times> int" where
  "settlement_values v cv =
     (let totalFee = DlcSettlementTxFee; feeEach = totalFee div 2;
          feeTheirs = feeEach;
          (feeOurs, valueOurs) = (if v < feeEach then (v, 0) else (feeEach, i64 (v - feeEach)));
          valueTheirs = i64 (cv - v)
      in if valueTheirs < feeEach then
           (let feeTheirs = valueTheirs; valueTheirs = 0; feeOurs = i64 (totalFee - feeTheirs)
            in (i64 (v - feeOurs), valueTheirs))
         else (valueOurs, i64 (valueTheirs - feeTheirs)))"

text \<open>
  \<open>sigPub\<close> stands for \<open>DlcCalcOracleSignaturePubKey\<close> (curve arithmetic on the oracle's keys) and
  \<open>outScript\<close> for the hashed commitment script of \<open>DlcOutput\<close>.
\<close>

definition SettlementTx ::
  "(bytes \<Rightarrow> bytes \<Rightarrow> bytes \<Rightarrow> lit_error + bytes) \<Rightarrow> (bytes \<Rightarrow> bytes \<Rightarrow> bytes \<Rightarrow> bytes) \<Rightarrow>
   dlc_contract \<Rightarrow> dlc_division \<Rightarrow> bool \<Rightarrow> lit_error + msg_tx" where
  "SettlementTx sigPub outScript c d ours =
     (let tx = AddTxIn (NewMsgTx\<lparr>tx_Version := 2\<rparr>) (NewTxIn (dc_FundingOutpoint c) [] []);
          cv = i64 (sint (dc_TheirFundingAmount c) + sint (dc_OurFundingAmount c));
          (valueOurs, valueTheirs) = settlement_values (sint (dv_ValueOurs d)) cv;
          DlcOutput = (\<lambda>pkPeer pkSig pkOurs val. NewTxOut (of_int val) (outScript pkPeer pkSig pkOurs))
      in bind_res (sigPub (be64 0 @ be64 0 @ be64 0 @ be64 (dv_OracleValue d)) (dc_OracleA c) (dc_OracleR c))
        (\<lambda>oracleSigPub. Inr
          (if ours then
             (let tx = (if 0 < valueTheirs then AddTxOut tx (DlcOutput (dc_TheirPayoutBase c) oracleSigPub
                          (dc_OurPayoutBase c) valueTheirs) else tx)
              in if 0 < valueOurs then AddTxOut tx (NewTxOut (of_int valueOurs)
                          (DirectWPKHScriptFromPKH (dc_OurPayoutPKH c))) else tx)
           else
             (let tx = (if 0 < valueOurs then AddTxOut tx (DlcOutput (dc_OurPayoutBase c) oracleSigPub
                          (dc_TheirPayoutBase c) valueOurs) else tx)
              in if 0 < valueTheirs then AddTxOut tx (NewTxOut (of_int valueTheirs)
                          (DirectWPKHScriptFromPKH (dc_TheirPayoutPKH c))) else tx))))"

text \<open>Two records of one contract, held by the two parties once both know all keys.\<close>

definition counterparts :: "dlc_contract \<Rightarrow> dlc_contract \<Rightarrow> bool" where
  "counterparts c c' \<longleftrightarrow>
     dc_OurFundingAmount c' = dc_TheirFundingAmount c \<and> dc_TheirFundingAmount c' = dc_OurFundingAmount c \<and>
     dc_OurPayoutBase c' = dc_TheirPayoutBase c \<and> dc_TheirPayoutBase c' = dc_OurPayoutBase c \<and>
     dc_OurPayoutPKH c' = dc_TheirPayoutPKH c \<and> dc_TheirPayoutPKH c' = dc_OurPayoutPKH c \<and>
     dc_FundingOutpoint c' = dc_FundingOutpoint c \<and>
     dc_OracleA c' = dc_OracleA c \<and> dc_OracleR c' = dc_OracleR c"

definition other_division :: "dlc_contract \<Rightarrow> dlc_division \<Rightarrow> dlc_division" where
  "other_division c d =
     d\<lparr>dv_ValueOurs := (dc_OurFundingAmount c + dc_TheirFundingAmount c) - dv_ValueOurs d\<rparr>"

text \<open>The value of the contract, when both amounts are sane.\<close>

definition funded :: "dlc_contract \<Rightarrow> int \<Rightarrow> bool" where
  "funded c cv \<longleftrightarrow> cv = sint (dc_TheirFundingAmount c) + sint (dc_OurFundingAmount c) \<and>
     0 \<le> sint (dc_TheirFundingAmount c) \<and> 0 \<le> sint (dc_OurFundingAmount c) \<and> cv < 2 ^ 62"

lemma sint_add_i64: "sint (a + b :: u64) = i64 (sint a + sint b)"
  by (simp add: i64_def sint_word_ariths)

lemma sint_sub_i64: "sint (a - b :: u64) = i64 (sint a - sint b)"
  by (simp add: i64_def sint_word_ariths)

lemma other_division_value:
  assumes "funded c cv" "0 \<le> sint (dv_ValueOurs d)" "sint (dv_ValueOurs d) \<le> cv"
  shows "sint (dv_ValueOurs (other_division c d)) = cv - sint (dv_ValueOurs d)"
  using assms by (simp add: other_division_def funded_def sint_sub_i64 sint_add_i64 i64_id)

lemma settlement_values_fair:
  assumes "500 \<le> v" "v \<le> cv - 500" "cv < 2 ^ 62"
  shows "settlement_values v cv = (v - 500, cv - v - 500)"
  using assms by (simp add: settlement_values_def DlcSettlementTxFee_def i64_id)

lemma settlement_values_low:
  assumes "0 \<le> v" "v < 500" "1000 \<le> cv" "cv < 2 ^ 62"
  shows "settlement_values v cv = (0, cv - v - 500)"
    and "settlement_values (cv - v) cv = (cv - 1000, 0)"
  using assms by (simp_all add: settlement_values_def DlcSettlementTxFee_def i64_id)

text \<open>What a transaction pays out in total.\<close>

definition tx_out_sum :: "msg_tx \<Rightarrow> int" where
  "tx_out_sum tx = sum_list (map (sint \<circ> to_Value) (tx_TxOut tx))"

text \<open>The outputs of the two transactions, as functions of the pair of values and the key.\<close>

definition settlement_outs ::
  "(bytes \<Rightarrow> bytes \<Rightarrow> bytes \<Rightarrow> bytes) \<Rightarrow> dlc_contract \<Rightarrow> bytes \<Rightarrow> int \<Rightarrow> int \<Rightarrow> tx_out list" where
  "settlement_outs outScript c k mine other =
     (if 0 < other then [NewTxOut (of_int other) (outScript (dc_TheirPayoutBase c) k (dc_OurPayoutBase c))] else []) @
     (if 0 < mine then [NewTxOut (of_int mine) (DirectWPKHScriptFromPKH (dc_OurPayoutPKH c))] else [])"

abbreviation settlement_of :: "dlc_contract \<Rightarrow> tx_out list \<Rightarrow> msg_tx" where
  "settlement_of c outs \<equiv> (AddTxIn (NewMsgTx\<lparr>tx_Version := 2\<rparr>) (NewTxIn (dc_FundingOutpoint c) [] []))\<lparr>tx_TxOut := outs\<rparr>"

definition settlement_msg :: "dlc_division \<Rightarrow> bytes" where
  "settlement_msg d = be64 0 @ be64 0 @ be64 0 @ be64 (dv_OracleValue d)"

lemma settlement_ours:
  assumes "funded c cv" "sigPub (settlement_msg d) (dc_OracleA c) (dc_OracleR c) = Inr k"
    and "settlement_values (sint (dv_ValueOurs d)) cv = (mine, other)"
  shows "SettlementTx sigPub outScript c d True = Inr (settlement_of c (settlement_outs outScript c k mine other))"
proof -
  have "i64 (sint (dc_TheirFundingAmount c) + sint (dc_OurFundingAmount c)) = cv"
    using assms(1) by (simp add: funded_def i64_id)
  with assms(2,3) show ?thesis
    by (simp add: SettlementTx_def settlement_outs_def settlement_msg_def Let_def NewMsgTx_def AddTxIn_def
        AddTxOut_def)
qed

lemma settlement_other:
  assumes "counterparts c c'" "funded c cv" "0 \<le> sint (dv_ValueOurs d)" "sint (dv_ValueOurs d) \<le> cv"
    and "sigPub (settlement_msg d) (dc_OracleA c) (dc_OracleR c) = Inr k"
    and "settlement_values (cv - sint (dv_ValueOurs d)) cv = (other, mine)"
  shows "SettlementTx sigPub outScript c' (other_division c d) False =
    Inr (settlement_of c (settlement_outs outScript c k mine other))"
proof -
  have "i64 (sint (dc_OurFundingAmount c) + sint (dc_TheirFundingAmount c)) = cv"
    using assms(2) by (simp add: funded_def i64_id add.commute)
  moreover have "settlement_values (sint (dv_ValueOurs (other_division c d))) cv = (other, mine)"
    using other_division_value [OF assms(2-4)] assms(6) by simp
  moreover have "dv_OracleValue (other_division c d) = dv_OracleValue d"
    by (simp add: other_division_def)
  ultimately show ?thesis using assms(1,5)
    by (simp add: SettlementTx_def settlement_outs_def settlement_msg_def Let_def NewMsgTx_def AddTxIn_def
        AddTxOut_def counterparts_def)
qed

lemma settlement_out_sum:
  assumes "0 \<le> mine" "mine < 2 ^ 62" "0 \<le> other" "other < 2 ^ 62"
  shows "tx_out_sum (settlement_of c (settlement_outs outScript c k mine other)) = mine + other"
  using assms by (auto simp: tx_out_sum_def settlement_outs_def NewTxOut_def sint_of_int64)

text \<open>A concrete contract over 10000 and 20000 for the witnesses.\<close>

definition toy_key :: bytes where "toy_key = replicate 33 7"
definition toy_sigPub :: "bytes \<Rightarrow> bytes \<Rightarrow> bytes \<Rightarrow> lit_error + bytes" where "toy_sigPub m a r = Inr toy_key"
definition toy_outScript :: "bytes \<Rightarrow> bytes \<Rightarrow> bytes \<Rightarrow> bytes" where "toy_outScript a b c = a @ b @ c"
definition toy_contract :: dlc_contract where
  "toy_contract = zero_contract\<lparr>dc_OurFundingAmount := 10000, dc_TheirFundingAmount := 20000\<rparr>"
definition toy_counterpart :: dlc_contract where
  "toy_counterpart = zero_contract\<lparr>dc_OurFundingAmount := 20000, dc_TheirFundingAmount := 10000\<rparr>"
definition toy_division :: dlc_division where
  "toy_division = \<lparr>dv_OracleValue = 3, dv_ValueOurs = 12000\<rparr>"

lemmas toy_dlc_defs = toy_sigPub_def toy_contract_def toy_counterpart_def toy_division_def zero_contract_def


section \<open>Properties\<close>

text \<open>a contract survives serialization, for every contract whose arrays have their Go widths
  and whose lists fit the address space.\<close>

theorem dlc_contract_roundtrip:
  "wf_contract c \<Longrightarrow> DlcContractFromBytes (DlcContract_Bytes c) = Inr c"
  by (rule DlcContract_decode)

theorem dlc_contract_roundtrip_witness:
  "wf_contract zero_contract \<and>
   DlcContractFromBytes (DlcContract_Bytes zero_contract) = Inr zero_contract"
proof
  show wf: "wf_contract zero_contract"
    by (simp add: wf_contract_def zero_contract_def wf_outpoint_def)
  show "DlcContractFromBytes (DlcContract_Bytes zero_contract) = Inr zero_contract"
    by (rule dlc_contract_roundtrip [OF wf])
qed

text \<open>C31: when each side's share covers its half of the fee, the settlement transaction one party
  signs is the very transaction the other party builds to use that signature, and it pays out the
  contract's value less the fee of 1000.\<close>

theorem settlement_parties_agree:
  assumes "counterparts c c'" "funded c cv"
    and "500 \<le> sint (dv_ValueOurs d)" "sint (dv_ValueOurs d) \<le> cv - 500"
    and "sigPub (settlement_msg d) (dc_OracleA c) (dc_OracleR c) = Inr k"
  shows "\<exists>tx. SettlementTx sigPub outScript c d True = Inr tx \<and>
    SettlementTx sigPub outScript c' (other_division c d) False = Inr tx \<and> tx_out_sum tx = cv - 1000"
proof -
  let ?v = "sint (dv_ValueOurs d)"
  have cv: "cv < 2 ^ 62" "0 \<le> cv" using assms(2) by (auto simp: funded_def)
  have "settlement_values ?v cv = (?v - 500, cv - ?v - 500)"
      "settlement_values (cv - ?v) cv = (cv - ?v - 500, ?v - 500)"
    using settlement_values_fair [of ?v cv] settlement_values_fair [of "cv - ?v" cv] assms(3,4) cv
    by simp_all
  with settlement_ours [where sigPub = sigPub and outScript = outScript, OF assms(2,5)]
    settlement_other [where sigPub = sigPub and outScript = outScript, OF assms(1,2) _ _ assms(5)] assms(3,4)
    settlement_out_sum [where mine = "?v - 500" and other = "cv - ?v - 500" and c = c and outScript = outScript and k = k] cv
  show ?thesis by auto
qed

theorem settlement_parties_agree_witness:
  "\<exists>tx. SettlementTx toy_sigPub toy_outScript toy_contract toy_division True = Inr tx \<and>
    SettlementTx toy_sigPub toy_outScript toy_counterpart (other_division toy_contract toy_division) False = Inr tx \<and>
    tx_out_sum tx = 30000 - 1000"
  by (rule settlement_parties_agree [where k = toy_key])
    (simp_all add: toy_dlc_defs counterparts_def funded_def)

text \<open>when the richer party is owed all but less than half a fee of the contract, the settlement it
  builds for itself is not the one its partner signed: it pays out the value less 1000, the partner's
  version pays out the share less 500. The partner's signature does not fit.\<close>

theorem settlement_parties_disagree:
  assumes "counterparts c c'" "funded c cv" "1500 \<le> cv"
    and "cv - 500 < sint (dv_ValueOurs d)" "sint (dv_ValueOurs d) \<le> cv"
    and "sigPub (settlement_msg d) (dc_OracleA c) (dc_OracleR c) = Inr k"
  shows "\<exists>tx tx'. SettlementTx sigPub outScript c d True = Inr tx \<and>
    SettlementTx sigPub outScript c' (other_division c d) False = Inr tx' \<and> tx \<noteq> tx' \<and>
    tx_out_sum tx = cv - 1000 \<and> tx_out_sum tx' = sint (dv_ValueOurs d) - 500"
proof -
  let ?v = "sint (dv_ValueOurs d)"
  have cv: "cv < 2 ^ 62" using assms(2) by (auto simp: funded_def)
  have "settlement_values ?v cv = (cv - 1000, 0)" "settlement_values (cv - ?v) cv = (0, ?v - 500)"
    using settlement_values_low [of "cv - ?v" cv] assms(3,4,5) cv by simp_all
  with settlement_ours [where sigPub = sigPub and outScript = outScript, OF assms(2,6)]
    settlement_other [where sigPub = sigPub and outScript = outScript, OF assms(1,2) _ _ assms(6)] assms(3-5) cv
  have "SettlementTx sigPub outScript c d True = Inr (settlement_of c (settlement_outs outScript c k (cv - 1000) 0))"
    "SettlementTx sigPub outScript c' (other_division c d) False =
      Inr (settlement_of c (settlement_outs outScript c k (?v - 500) 0))"
    by simp_all
  moreover have "tx_out_sum (settlement_of c (settlement_outs outScript c k (cv - 1000) 0)) = cv - 1000"
    "tx_out_sum (settlement_of c (settlement_outs outScript c k (?v - 500) 0)) = ?v - 500"
    using settlement_out_sum assms(3-5) cv by simp_all
  moreover have "cv - 1000 \<noteq> ?v - 500" using assms(4) by simp
  ultimately show ?thesis by metis
qed

theorem settlement_parties_disagree_witness:
  "\<exists>tx tx'. SettlementTx toy_sigPub toy_outScript toy_contract (toy_division\<lparr>dv_ValueOurs := 30000\<rparr>) True = Inr tx \<and>
    SettlementTx toy_sigPub toy_outScript toy_counterpart
      (other_division toy_contract (toy_division\<lparr>dv_ValueOurs := 30000\<rparr>)) False = Inr tx' \<and> tx \<noteq> tx' \<and>
    tx_out_sum tx = 30000 - 1000 \<and>
    tx_out_sum tx' = sint (dv_ValueOurs (toy_division\<lparr>dv_ValueOurs := 30000\<rparr>)) - 500"
  by (rule settlement_parties_disagree [where k = toy_key])
    (simp_all add: toy_dlc_defs counterparts_def funded_def)

end
