(* ===== verification/Elkrem.thy ===== *)
theory Elkrem
  imports LitPrelude
begin

text \<open>
  The elkrem hash tree of \<open>elkrem/elkrem.go\<close> and \<open>elkrem/serdes.go\<close>. A sender derives every
  revocation hash of a channel from one root; a receiver that is given the hashes in order keeps a
  logarithmic stack of nodes and can recompute every hash it was given. The model keeps the
  source's word widths (indices are uint64, heights uint8). The double SHA256 of
  \<open>chainhash.DoubleHashH\<close> is the parameter \<open>dh\<close>; no law about it is needed. A pointer to a hash is an
  option; a nil slice of nodes is \<open>None\<close>, an empty one \<open>Some []\<close>.
\<close>

section \<open>Data and operations\<close>

type_synonym hash = bytes

definition maxIndex :: u64 where "maxIndex = 281474976710654"
definition maxHeight :: byte where "maxHeight = 47"

record elk_node =
  elk_H :: byte
  elk_I :: u64
  elk_Sha :: "hash option"

record elkrem_sender =
  elk_root :: hash

record elkrem_receiver =
  elk_Nodes :: "elk_node list option"

abbreviation nodes_of :: "elkrem_receiver \<Rightarrow> elk_node list" where
  "nodes_of e \<equiv> (case elk_Nodes e of None \<Rightarrow> [] | Some ns \<Rightarrow> ns)"

definition LeftSha :: "(bytes \<Rightarrow> hash) \<Rightarrow> hash \<Rightarrow> hash" where
  "LeftSha dh h = dh (h @ [0x00])"

definition RightSha :: "(bytes \<Rightarrow> hash) \<Rightarrow> hash \<Rightarrow> hash" where
  "RightSha dh h = dh (h @ [0x01])"

text \<open>
  The loop of \<open>descend\<close>: it returns the index and hash it stops at. The height drops by one in every
  round and the loop breaks at height 0.
\<close>

function descend_loop :: "(bytes \<Rightarrow> hash) \<Rightarrow> u64 \<Rightarrow> u64 \<Rightarrow> byte \<Rightarrow> hash \<Rightarrow> u64 \<times> hash" where
  "descend_loop dh w i h sha =
     (if w < i then
        let (i', sha') =
          (if w \<le> i - push_bit (unat h) 1 then (i - push_bit (unat h) 1, LeftSha dh sha)
           else (i - 1, RightSha dh sha))
        in if h = 0 then (i', sha') else descend_loop dh w i' (h - 1) sha'
      else (i, sha))"
  by pat_completeness auto
termination
  by (relation "measure (\<lambda>(dh, w, i, h, sha). unat h)") (auto simp: unat_minus_one unat_gt_0)

declare descend_loop.simps [simp del]

definition descend :: "(bytes \<Rightarrow> hash) \<Rightarrow> u64 \<Rightarrow> u64 \<Rightarrow> byte \<Rightarrow> hash \<Rightarrow> lit_error + hash" where
  "descend dh w i h sha =
     (let (i', sha') = descend_loop dh w i h sha in if w \<noteq> i' then Inl OutOfRange else Inr sha')"

definition NewElkremSender :: "hash \<Rightarrow> elkrem_sender" where
  "NewElkremSender r = \<lparr>elk_root = r\<rparr>"

definition NewElkremReceiver :: elkrem_receiver where
  "NewElkremReceiver = \<lparr>elk_Nodes = Some []\<rparr>"

definition sender_AtIndex :: "(bytes \<Rightarrow> hash) \<Rightarrow> elkrem_sender \<Rightarrow> u64 \<Rightarrow> lit_error + hash" where
  "sender_AtIndex dh e w = descend dh w maxIndex maxHeight (elk_root e)"

text \<open>
  \<open>AddNext\<close>: dereferencing a nil hash panics, both in \<open>LeftSha(*sha)\<close> and, for a stored nil, in
  formatting the error message (\<open>Sha.String()\<close> has a value receiver).
\<close>

definition AddNext ::
  "(bytes \<Rightarrow> hash) \<Rightarrow> elkrem_receiver \<Rightarrow> hash option \<Rightarrow> lit_error + elkrem_receiver" where
  "AddNext dh e sha =
     (let ns = nodes_of e; k = length ns;
          i = (if 1 \<le> k then elk_I (ns ! (k - 1)) + 1 else 0)
      in if 2 \<le> k \<and> elk_H (ns ! (k - 2)) = elk_H (ns ! (k - 1)) then
           (case sha of None \<Rightarrow> Inl Panic
            | Some s \<Rightarrow>
              (case elk_Sha (ns ! (k - 2)) of None \<Rightarrow> Inl Panic
               | Some ls \<Rightarrow>
                 if ls \<noteq> LeftSha dh s then Inl Mismatch
                 else (case elk_Sha (ns ! (k - 1)) of None \<Rightarrow> Inl Panic
                       | Some rs \<Rightarrow>
                         if rs \<noteq> RightSha dh s then Inl Mismatch
                         else Inr \<lparr>elk_Nodes = Some (take (k - 2) ns @
                                [\<lparr>elk_H = elk_H (ns ! (k - 1)) + 1, elk_I = i, elk_Sha = sha\<rparr>])\<rparr>)))
         else Inr \<lparr>elk_Nodes = Some (ns @ [\<lparr>elk_H = 0, elk_I = i, elk_Sha = sha\<rparr>])\<rparr>)"

text \<open>
  The receiver's \<open>AtIndex\<close>: the first node whose index is not below \<open>w\<close>. When there is none (or it
  holds a nil hash), the error message reads the last node, which panics on an empty stack.
\<close>

definition receiver_AtIndex :: "(bytes \<Rightarrow> hash) \<Rightarrow> elkrem_receiver \<Rightarrow> u64 \<Rightarrow> lit_error + hash" where
  "receiver_AtIndex dh e w =
     (case elk_Nodes e of None \<Rightarrow> Inl NilPointer
      | Some ns \<Rightarrow>
        (let missing = (if ns = [] then Inl Panic else Inl OutOfRange) in
         case find (\<lambda>n. w \<le> elk_I n) ns of None \<Rightarrow> missing
         | Some n \<Rightarrow>
           (case elk_Sha n of None \<Rightarrow> missing
            | Some s \<Rightarrow> descend dh w (elk_I n) (elk_H n) s)))"

definition UpTo :: "elkrem_receiver \<Rightarrow> u64" where
  "UpTo e = (let ns = nodes_of e in if length ns < 1 then 0 else elk_I (ns ! (length ns - 1)))"

text \<open>Serialization: one byte for the number of nodes, then 41 bytes a node.\<close>

primrec nodes_ToBytes :: "elk_node list \<Rightarrow> lit_error + bytes" where
  "nodes_ToBytes [] = Inr []"
| "nodes_ToBytes (n # ns) =
     (case elk_Sha n of None \<Rightarrow> Inl NilPointer
      | Some s \<Rightarrow>
        if length s \<noteq> 32 then Inl (BadLength (length s))
        else bind_res (nodes_ToBytes ns) (\<lambda>r. Inr (elk_H n # be64 (elk_I n) @ s @ r)))"

definition receiver_ToBytes :: "elkrem_receiver \<Rightarrow> lit_error + bytes" where
  "receiver_ToBytes e =
     (let num = (of_nat (length (nodes_of e)) :: byte) in
      if num = 0 then Inr []
      else if maxHeight + 1 < num then Inl OutOfRange
      else bind_res (nodes_ToBytes (nodes_of e))
        (\<lambda>body. if length (num # body) \<noteq> unat num * 41 + 1 then Inl (BadLength (length (num # body)))
                else Inr (num # body)))"

text \<open>The reading loop; \<open>prev\<close> is the height of the node before, \<open>None\<close> for the first.\<close>

primrec nodes_FromBytes :: "nat \<Rightarrow> byte option \<Rightarrow> bytes \<Rightarrow> lit_error + elk_node list" where
  "nodes_FromBytes 0 prev b = Inr []"
| "nodes_FromBytes (Suc k) prev b =
     bind_res (read_be_err 1 b) (\<lambda>(h, b1).
     bind_res (read_be_err 8 b1) (\<lambda>(i, b2).
     let (s, b3) = buf_next 32 b2;
         n = \<lparr>elk_H = of_nat h, elk_I = of_nat i, elk_Sha = Some s\<rparr>
     in if length s \<noteq> 32 then Inl (BadLength (length s))
        else if maxHeight < elk_H n then Inl OutOfRange
        else if maxIndex < elk_I n then Inl OutOfRange
        else if (case prev of None \<Rightarrow> False | Some p \<Rightarrow> p < elk_H n) then Inl BadFormat
        else bind_res (nodes_FromBytes k (Some (elk_H n)) b3) (\<lambda>ns. Inr (n # ns))))"

definition ElkremReceiverFromBytes :: "bytes \<Rightarrow> lit_error + elkrem_receiver" where
  "ElkremReceiverFromBytes b =
     (case b of [] \<Rightarrow> Inr \<lparr>elk_Nodes = None\<rparr>
      | num # rest \<Rightarrow>
        if num < 1 \<or> maxHeight + 1 < num then Inl OutOfRange
        else if length rest \<noteq> unat num * 41 then Inl (BadLength (length rest))
        else bind_res (nodes_FromBytes (unat num) None rest) (\<lambda>ns. Inr \<lparr>elk_Nodes = Some ns\<rparr>))"

text \<open>Feeding a whole sequence of revealed hashes to a receiver; the first refusal stops it.\<close>

abbreviation feed :: "(bytes \<Rightarrow> hash) \<Rightarrow> elkrem_receiver \<Rightarrow> hash list \<Rightarrow> lit_error + elkrem_receiver" where
  "feed dh \<equiv> fold_res (\<lambda>e s. AddNext dh e (Some s))"

section \<open>The tree the hashes come from\<close>

text \<open>
  The specification. A node of height \<open>h\<close> with index \<open>i\<close> is the root of a subtree whose
  \<open>2 ^ (h + 1) - 1\<close> indices end at \<open>i\<close>: first the left subtree, then the right one, then the node.
  \<open>elk_hash\<close> is the hash at an index of that range, \<open>postorder\<close> lists them all.
\<close>

fun elk_hash :: "(bytes \<Rightarrow> hash) \<Rightarrow> nat \<Rightarrow> nat \<Rightarrow> hash \<Rightarrow> nat \<Rightarrow> hash" where
  "elk_hash dh 0 i s w = s"
| "elk_hash dh (Suc h) i s w =
     (if w = i then s
      else if w + 2 ^ Suc h \<le> i then elk_hash dh h (i - 2 ^ Suc h) (LeftSha dh s) w
      else elk_hash dh h (i - 1) (RightSha dh s) w)"

primrec postorder :: "(bytes \<Rightarrow> hash) \<Rightarrow> nat \<Rightarrow> hash \<Rightarrow> hash list" where
  "postorder dh 0 s = [s]"
| "postorder dh (Suc h) s = postorder dh h (LeftSha dh s) @ postorder dh h (RightSha dh s) @ [s]"

definition span :: "nat \<Rightarrow> nat" where "span h = 2 ^ Suc h - 1"

lemma span_0 [simp]: "span 0 = 1"
  by (simp add: span_def)

lemma span_pow: "span h + 1 = 2 ^ Suc h"
proof -
  have "(1::nat) \<le> 2 ^ Suc h" by (rule one_le_power) simp
  then show ?thesis unfolding span_def by linarith
qed

lemma span_pos [simp]: "0 < span h"
proof -
  have "(1::nat) \<le> 2 ^ h" by (rule one_le_power) simp
  then show ?thesis using span_pow [of h] unfolding power_Suc by linarith
qed

lemma span_Suc: "span (Suc h) = 2 * span h + 1"
  using span_pow [of "Suc h"] span_pow [of h] by simp

lemma span_less_pow: "span h < 2 ^ Suc h"
  using span_pow [of h] by simp

lemma length_postorder [simp]: "length (postorder dh h s) = span h"
  by (induction h arbitrary: s) (simp_all add: span_Suc)

lemma postorder_nth:
  "a \<le> w \<Longrightarrow> w < a + span h \<Longrightarrow> postorder dh h s ! (w - a) = elk_hash dh h (a + span h - 1) s w"
proof (induction h arbitrary: s a)
  case 0
  then show ?case by simp
next
  case (Suc h)
  let ?i = "a + span (Suc h) - 1"
  have p: "2 ^ Suc h = span h + 1" and i: "?i = a + 2 * span h"
    by (simp_all only: span_pow) (simp add: span_Suc)
  consider (left) "w < a + span h" | (right) "a + span h \<le> w" "w < a + 2 * span h" | (root) "w = ?i"
    using Suc.prems i by (simp add: span_Suc) linarith
  then show ?case
  proof cases
    case left
    have l: "?i - 2 ^ Suc h = a + span h - 1" and le: "w + 2 ^ Suc h \<le> ?i" and ne: "w \<noteq> ?i"
      using left unfolding p i by (auto intro: order.strict_implies_order)
    have "postorder dh (Suc h) s ! (w - a) = postorder dh h (LeftSha dh s) ! (w - a)"
      using left less_diff_conv2 [OF Suc.prems(1)] by (auto simp: nth_append)
    also have "\<dots> = elk_hash dh h (a + span h - 1) (LeftSha dh s) w"
      using left Suc.prems by (intro Suc.IH) auto
    finally show ?thesis
      using l le ne by (simp only: elk_hash.simps if_False if_True)
  next
    case right
    have l: "?i - 1 = (a + span h) + span h - 1" and le: "\<not> w + 2 ^ Suc h \<le> ?i" and ne: "w \<noteq> ?i"
      using right unfolding p i by auto
    have ix: "w - a - span h = w - (a + span h)" and "w - a - span h < span h"
      using right by auto
    then have "postorder dh (Suc h) s ! (w - a) = postorder dh h (RightSha dh s) ! (w - (a + span h))"
      using right by (auto simp: nth_append)
    also have "\<dots> = elk_hash dh h (a + span h + span h - 1) (RightSha dh s) w"
      using right by (intro Suc.IH) auto
    finally show ?thesis
      using l le ne by (simp only: elk_hash.simps if_False)
  next
    case root
    then have "w - a = 2 * span h"
      unfolding i by simp
    then show ?thesis
      using root by (simp add: nth_append)
  qed
qed

section \<open>Descent computes the tree\<close>

lemma unat_pow_word: "k < 64 \<Longrightarrow> unat (2 ^ k :: u64) = 2 ^ k"
proof -
  assume "k < 64"
  then have "(2::nat) ^ k < 2 ^ 64"
    by (intro power_strict_increasing) auto
  moreover have "unat (of_nat (2 ^ k) :: u64) = 2 ^ k mod 2 ^ 64"
    by (simp only: unat_of_nat) simp
  ultimately show ?thesis by (simp only: mod_less of_nat_power of_nat_numeral)
qed

lemma descend_loop_elk:
  assumes "unat i + 1 = a + span (unat h)" "a \<le> unat w" "unat w \<le> unat i" "unat h < 63"
  shows "descend_loop dh w i h s = (w, elk_hash dh (unat h) (unat i) s (unat w))"
  using assms
proof (induction "unat h" arbitrary: i h s a)
  case 0
  then have "unat i = unat w" by simp
  with 0 show ?case
    by (subst descend_loop.simps) (simp add: word_unat_eq_iff word_less_nat_alt flip: 0(1))
next
  case (Suc k)
  let ?P = "2 ^ unat h :: u64"
  have i: "unat i = a + 2 * span k" and p: "2 ^ Suc k = span k + 1"
    using Suc.prems(1) by (simp_all only: Suc.hyps(2) [symmetric] span_Suc span_pow)
  have P: "unat ?P = span k + 1"
    using Suc.prems(4) Suc.hyps(2) by (simp only: p [symmetric]) (simp add: unat_pow_word)
  have Ple: "?P \<le> i"
    unfolding word_le_nat_alt P i using span_pos [of k] by linarith
  have iP: "unat (i - ?P) = a + span k - 1"
    using unat_sub [OF Ple] by (simp add: P i)
  have h0: "h \<noteq> 0"
    using Suc.hyps(2) by auto
  then have hk: "unat (h - 1) = k"
    using Suc.hyps(2) by (simp add: unat_minus_one)
  have k63: "k < 63" using Suc.prems(4) Suc.hyps(2) by simp
  show ?case
  proof (cases "w < i")
    case False
    with Suc.prems(3) have "w = i"
      by (simp add: word_less_nat_alt word_unat_eq_iff)
    then show ?thesis
      by (subst descend_loop.simps) (simp flip: Suc.hyps(2))
  next
    case True
    then have ne: "unat w \<noteq> unat i" by (simp add: word_less_nat_alt)
    have i1: "unat (i - 1) = unat i - 1"
      using True by (intro unat_minus_one) auto
    have le: "w \<le> i - ?P \<longleftrightarrow> unat w + 2 ^ Suc k \<le> unat i"
      unfolding word_le_nat_alt iP p i using span_pos [of k] by linarith
    show ?thesis
    proof (cases "unat w + 2 ^ Suc k \<le> unat i")
      case l: True
      have "unat (i - ?P) = unat i - 2 ^ Suc k"
        unfolding iP i p by simp
      moreover have "descend_loop dh w (i - ?P) (h - 1) (LeftSha dh s) =
          (w, elk_hash dh (unat (h - 1)) (unat (i - ?P)) (LeftSha dh s) (unat w))"
        using Suc.prems(2) k63 l span_pos [of k] unfolding i p
        by (intro Suc.hyps(1)) (auto simp: hk iP)
      ultimately show ?thesis
        using True l le ne h0 by (subst descend_loop.simps) (simp add: hk flip: Suc.hyps(2))
    next
      case r: False
      have "descend_loop dh w (i - 1) (h - 1) (RightSha dh s) =
          (w, elk_hash dh (unat (h - 1)) (unat (i - 1)) (RightSha dh s) (unat w))"
        using Suc.prems(3) k63 r ne span_pos [of k] unfolding i p
        by (intro Suc.hyps(1) [where a = "a + span k"]) (auto simp: i1 i hk)
      then show ?thesis
        using True r le ne h0 by (subst descend_loop.simps) (simp add: hk i1 flip: Suc.hyps(2))
    qed
  qed
qed

lemma descend_elk:
  assumes "unat i + 1 = a + span (unat h)" "a \<le> unat w" "unat w \<le> unat i" "unat h < 63"
  shows "descend dh w i h s = Inr (elk_hash dh (unat h) (unat i) s (unat w))"
  using descend_loop_elk [OF assms] by (simp add: descend_def)

lemma descend_below: "i < w \<Longrightarrow> descend dh w i h s = Inl OutOfRange"
  by (auto simp: descend_def descend_loop.simps [of dh w i h s])

lemma unat_maxIndex: "unat maxIndex + 1 = 0 + span (unat maxHeight)"
  by (simp add: maxIndex_def maxHeight_def span_def)

lemma sender_AtIndex_elk:
  "w \<le> maxIndex \<Longrightarrow> sender_AtIndex dh (NewElkremSender r) w =
     Inr (postorder dh 47 r ! unat w)"
proof -
  assume w: "w \<le> maxIndex"
  have h: "unat maxHeight = 47" by (simp add: maxHeight_def)
  have "unat w \<le> unat maxIndex" using w by (simp add: word_le_nat_alt)
  moreover have top: "unat maxIndex + 1 = 0 + span 47"
    using unat_maxIndex by (simp only: h)
  ultimately have b: "unat w < 0 + span 47"
    by linarith
  have "sender_AtIndex dh (NewElkremSender r) w =
      Inr (elk_hash dh (unat maxHeight) (unat maxIndex) r (unat w))"
    unfolding sender_AtIndex_def NewElkremSender_def elkrem_sender.simps
    using w by (intro descend_elk [OF unat_maxIndex]) (auto simp: h word_le_nat_alt)
  also have "unat maxIndex = 0 + span 47 - 1"
    using top by linarith
  finally show ?thesis
    using postorder_nth [OF _ b, of dh r] by (simp only: h minus_nat.diff_0 le0)
qed

section \<open>The receiver's invariant\<close>

text \<open>
  The stack covers the received hashes \<open>hs\<close> from left to right: consecutive nodes own consecutive
  index ranges, and each node's subtree reproduces the hashes of its range. Heights fall strictly
  from the bottom to the top of the stack, except that the two topmost may be equal (two siblings
  whose parent is the next hash).
\<close>

definition node_ok :: "(bytes \<Rightarrow> hash) \<Rightarrow> hash list \<Rightarrow> nat \<Rightarrow> elk_node \<Rightarrow> bool" where
  "node_ok dh hs a n \<longleftrightarrow>
     unat (elk_I n) + 1 = a + span (unat (elk_H n)) \<and> unat (elk_H n) \<le> 47 \<and>
     unat (elk_I n) < length hs \<and>
     (\<exists>s. elk_Sha n = Some s \<and> s \<in> set hs \<and>
        (\<forall>w. a \<le> w \<and> w \<le> unat (elk_I n) \<longrightarrow>
          elk_hash dh (unat (elk_H n)) (unat (elk_I n)) s w = hs ! w))"

primrec seg :: "(bytes \<Rightarrow> hash) \<Rightarrow> hash list \<Rightarrow> nat \<Rightarrow> elk_node list \<Rightarrow> nat \<Rightarrow> bool" where
  "seg dh hs a [] b \<longleftrightarrow> a = b"
| "seg dh hs a (n # ns) b \<longleftrightarrow> node_ok dh hs a n \<and> seg dh hs (Suc (unat (elk_I n))) ns b"

fun heights_ok :: "elk_node list \<Rightarrow> bool" where
  "heights_ok (m # n # ns) \<longleftrightarrow>
     (if ns = [] then unat (elk_H n) \<le> unat (elk_H m) else unat (elk_H n) < unat (elk_H m)) \<and>
     heights_ok (n # ns)"
| "heights_ok _ \<longleftrightarrow> True"

definition receiver_inv :: "(bytes \<Rightarrow> hash) \<Rightarrow> elkrem_receiver \<Rightarrow> hash list \<Rightarrow> bool" where
  "receiver_inv dh e hs \<longleftrightarrow>
     seg dh hs 0 (nodes_of e) (length hs) \<and> heights_ok (nodes_of e) \<and> length hs \<le> 2 ^ 48 - 1"

lemma seg_append:
  "seg dh hs a (xs @ ys) c \<longleftrightarrow> (\<exists>b. seg dh hs a xs b \<and> seg dh hs b ys c)"
  by (induction xs arbitrary: a) auto

lemma node_ok_mono: "node_ok dh hs a n \<Longrightarrow> node_ok dh (hs @ xs) a n"
  by (auto simp: node_ok_def nth_append)

lemma seg_mono: "seg dh hs a ns b \<Longrightarrow> seg dh (hs @ xs) a ns b"
  by (induction ns arbitrary: a) (auto simp: node_ok_mono)

lemma seg_end_le: "seg dh hs a ns b \<Longrightarrow> a \<le> b"
proof (induction ns arbitrary: a)
  case (Cons n ns)
  then have "Suc (unat (elk_I n)) \<le> b" and "unat (elk_I n) + 1 = a + span (unat (elk_H n))"
    by (auto simp: node_ok_def)
  then show ?case by linarith
qed simp

lemma node_okI:
  assumes "unat (elk_I n) + 1 = a + span (unat (elk_H n))" "unat (elk_H n) \<le> 47"
    "unat (elk_I n) < length hs" "elk_Sha n = Some s" "s \<in> set hs"
    "\<And>w. a \<le> w \<Longrightarrow> w \<le> unat (elk_I n) \<Longrightarrow>
       elk_hash dh (unat (elk_H n)) (unat (elk_I n)) s w = hs ! w"
  shows "node_ok dh hs a n"
  using assms by (auto simp: node_ok_def)

lemma heights_ok_leaf:
  assumes "heights_ok ns" "\<nexists>pre l r. ns = pre @ [l, r] \<and> elk_H l = elk_H r"
  shows "heights_ok (ns @ [\<lparr>elk_H = 0, elk_I = i, elk_Sha = s\<rparr>])"
  using assms
proof (induction ns rule: heights_ok.induct)
  case (1 m n ns)
  have no: "\<nexists>pre l r. n # ns = pre @ [l, r] \<and> elk_H l = elk_H r"
  proof
    assume "\<exists>pre l r. n # ns = pre @ [l, r] \<and> elk_H l = elk_H r"
    then obtain pre l r where "n # ns = pre @ [l, r]" "elk_H l = elk_H r" by blast
    then have "m # n # ns = (m # pre) @ [l, r] \<and> elk_H l = elk_H r" by simp
    then show False using "1.prems"(2) by blast
  qed
  have "elk_H m \<noteq> elk_H n" if "ns = []"
    using "1.prems"(2) that by (metis append_Nil)
  then have "unat (elk_H n) < unat (elk_H m)"
    using "1.prems"(1) by (cases "ns = []") (auto simp: word_unat_eq_iff le_less)
  with 1 no show ?case by simp
qed simp_all

lemma heights_ok_merge:
  "heights_ok (pre @ [l, r]) \<Longrightarrow> elk_H l = elk_H r \<Longrightarrow> unat (elk_H p) = Suc (unat (elk_H r)) \<Longrightarrow>
   heights_ok (pre @ [p])"
proof (induction pre)
  case (Cons m pre)
  then show ?case by (cases pre) (auto split: if_splits)
qed simp

lemma heights_ok_length: "heights_ok (n # ns) \<Longrightarrow> length (n # ns) \<le> unat (elk_H n) + 2"
proof (induction ns arbitrary: n)
  case (Cons m ns)
  then have "length (m # ns) \<le> unat (elk_H m) + 2" by simp
  with Cons.prems show ?case by (cases "ns = []") auto
qed simp

section \<open>What AddNext does on a stack\<close>

lemma two_on_top:
  assumes "2 \<le> length ns"
  obtains pre l r where "ns = pre @ [l, r]"
proof -
  from assms obtain ms r where ms: "ns = ms @ [r]" by (cases ns rule: rev_cases) auto
  with assms obtain pre l where "ms = pre @ [l]" by (cases ms rule: rev_cases) auto
  with ms that show thesis by simp
qed

lemma AddNext_merge:
  assumes "nodes_of e = pre @ [l, r]" "elk_H l = elk_H r" "elk_Sha l = Some ls" "elk_Sha r = Some rs"
  shows "AddNext dh e (Some s) =
    (if ls = LeftSha dh s \<and> rs = RightSha dh s
     then Inr \<lparr>elk_Nodes = Some (pre @ [\<lparr>elk_H = elk_H r + 1, elk_I = elk_I r + 1, elk_Sha = Some s\<rparr>])\<rparr>
     else Inl Mismatch)"
  using assms(2-) unfolding AddNext_def assms(1) by (simp add: nth_append Let_def)

lemma AddNext_leaf:
  assumes "\<nexists>pre l r. nodes_of e = pre @ [l, r] \<and> elk_H l = elk_H r"
  shows "AddNext dh e sha = Inr \<lparr>elk_Nodes = Some (nodes_of e @
    [\<lparr>elk_H = 0, elk_I = (if nodes_of e = [] then 0 else elk_I (last (nodes_of e)) + 1), elk_Sha = sha\<rparr>])\<rparr>"
proof -
  let ?ns = "nodes_of e" let ?k = "length ?ns"
  have "\<not> (2 \<le> ?k \<and> elk_H (?ns ! (?k - 2)) = elk_H (?ns ! (?k - 1)))"
  proof
    assume a: "2 \<le> ?k \<and> elk_H (?ns ! (?k - 2)) = elk_H (?ns ! (?k - 1))"
    then obtain pre l r where ns: "?ns = pre @ [l, r]" using two_on_top by blast
    with a have "elk_H l = elk_H r" by (simp add: nth_append)
    with ns assms show False by blast
  qed
  then show ?thesis
    unfolding AddNext_def Let_def by (cases "?ns = []") (auto simp: last_conv_nth Suc_le_eq)
qed

lemma unat_word_Suc: "unat x + 1 < 2 ^ 64 \<Longrightarrow> unat (x + 1 :: u64) = unat x + 1"
  by (simp add: unat_word_ariths)

lemma seg_last: "seg dh hs a (ns @ [n]) b \<Longrightarrow> b = Suc (unat (elk_I n))"
  by (auto simp: seg_append)

lemma AddNext_inv:
  assumes inv: "receiver_inv dh e hs" and len: "length hs < 2 ^ 48 - 1"
    and add: "AddNext dh e (Some s) = Inr e'"
  shows "receiver_inv dh e' (hs @ [s])"
proof (cases "\<exists>pre l r. nodes_of e = pre @ [l, r] \<and> elk_H l = elk_H r")
  case True
  then obtain pre l r where ns: "nodes_of e = pre @ [l, r]" and eq: "elk_H l = elk_H r" by blast
  from inv obtain a where pre: "seg dh hs 0 pre a" and l: "node_ok dh hs a l"
    and r: "node_ok dh hs (Suc (unat (elk_I l))) r" and rI: "length hs = Suc (unat (elk_I r))"
    by (auto simp: receiver_inv_def ns seg_append)
  from l r obtain ls rs where sha: "elk_Sha l = Some ls" "elk_Sha r = Some rs"
    by (auto simp: node_ok_def)
  let ?p = "\<lparr>elk_H = elk_H r + 1, elk_I = elk_I r + 1, elk_Sha = Some s\<rparr>"
  let ?h = "unat (elk_H r)"
  from add have lr: "ls = LeftSha dh s" "rs = RightSha dh s"
    and e': "nodes_of e' = pre @ [?p]"
    by (auto simp: AddNext_merge [OF ns eq sha] split: if_splits)
  have lI: "unat (elk_I l) + 1 = a + span ?h" and rI': "unat (elk_I r) + 1 = a + 2 * span ?h"
    using l r eq by (auto simp: node_ok_def)
  have pI: "unat (elk_I ?p) = a + 2 * span ?h"
    using len rI rI' by (simp add: unat_word_Suc)
  have h46: "?h < 47"
  proof (rule ccontr)
    assume "\<not> ?h < 47"
    then have "(2::nat) ^ 48 \<le> 2 ^ Suc ?h" by (intro power_increasing) auto
    then have "2 ^ 48 - 1 \<le> span ?h" using span_pow [of ?h] by linarith
    then show False using rI rI' len by linarith
  qed
  then have pH: "unat (elk_H ?p) = Suc ?h"
    by (simp add: unat_word_ariths)
  have "node_ok dh (hs @ [s]) a ?p"
  proof (rule node_okI [where s = s])
    show "unat (elk_I ?p) + 1 = a + span (unat (elk_H ?p))"
      unfolding pI pH span_Suc by simp
    fix w assume w: "a \<le> w" "w \<le> unat (elk_I ?p)"
    have p2: "2 ^ Suc ?h = span ?h + 1" by (simp only: span_pow)
    consider "w \<le> unat (elk_I l)" | "unat (elk_I l) < w" "w \<le> unat (elk_I r)" | "w = unat (elk_I ?p)"
      using w pI rI' by linarith
    then show "elk_hash dh (unat (elk_H ?p)) (unat (elk_I ?p)) s w = (hs @ [s]) ! w"
    proof cases
      case 1
      then have "elk_hash dh ?h (unat (elk_I l)) ls w = hs ! w" and "w < length hs"
        using l w(1) sha eq by (auto simp: node_ok_def)
      moreover have "w + 2 ^ Suc ?h \<le> unat (elk_I ?p)" "w \<noteq> unat (elk_I ?p)"
          "unat (elk_I ?p) - 2 ^ Suc ?h = unat (elk_I l)"
        using 1 lI unfolding p2 pI by linarith+
      ultimately show ?thesis
        unfolding pH by (simp only: elk_hash.simps if_True if_False lr nth_append)
    next
      case 2
      then have "elk_hash dh ?h (unat (elk_I r)) rs w = hs ! w" and "w < length hs"
        using r sha by (auto simp: node_ok_def)
      moreover have "\<not> w + 2 ^ Suc ?h \<le> unat (elk_I ?p)" "w \<noteq> unat (elk_I ?p)"
          "unat (elk_I ?p) - 1 = unat (elk_I r)"
        using 2 lI rI' unfolding p2 pI by linarith+
      ultimately show ?thesis
        unfolding pH by (simp only: elk_hash.simps if_True if_False lr nth_append)
    next
      case 3
      then have "w = length hs" using pI rI rI' by linarith
      then show ?thesis unfolding pH using 3 by (simp add: pH)
    qed
  qed (use pI pH h46 rI rI' in simp_all)
  moreover have "Suc (unat (elk_I ?p)) = length (hs @ [s])"
    using pI rI rI' by simp
  ultimately have "seg dh (hs @ [s]) 0 (nodes_of e') (length (hs @ [s]))"
    using seg_mono [OF pre] unfolding e' seg_append by auto
  moreover have "heights_ok (nodes_of e')"
    unfolding e' using heights_ok_merge [of pre l r ?p] inv eq pH by (simp add: receiver_inv_def ns)
  ultimately show ?thesis
    using len by (simp add: receiver_inv_def)
next
  case False
  let ?ns = "nodes_of e"
  let ?i = "if ?ns = [] then 0 else elk_I (last ?ns) + 1"
  let ?p = "\<lparr>elk_H = 0, elk_I = ?i, elk_Sha = Some s\<rparr>"
  have e': "nodes_of e' = ?ns @ [?p]"
    using add by (auto simp: AddNext_leaf [OF False])
  have segs: "seg dh hs 0 ?ns (length hs)" using inv by (simp add: receiver_inv_def)
  have pI: "unat ?i = length hs"
  proof (cases "?ns" rule: rev_cases)
    case Nil
    then show ?thesis using segs by auto
  next
    case (snoc ms n)
    then have "length hs = Suc (unat (elk_I n))" using segs seg_last by metis
    then show ?thesis using len snoc by (simp add: unat_word_Suc)
  qed
  have "node_ok dh (hs @ [s]) (length hs) ?p"
    by (rule node_okI [where s = s]) (use pI in \<open>auto simp: nth_append\<close>)
  then have "seg dh (hs @ [s]) 0 (nodes_of e') (length (hs @ [s]))"
    unfolding e' seg_append using seg_mono [OF segs, of "[s]"] pI by auto
  moreover have "heights_ok (nodes_of e')"
    unfolding e' using inv False by (intro heights_ok_leaf) (auto simp: receiver_inv_def)
  ultimately show ?thesis
    using len by (simp add: receiver_inv_def)
qed

section \<open>Revocation stores\<close>

text \<open>
  What a channel needs from the structure that keeps the counterparty's revealed secrets: secrets
  are added in order, and every secret that was accepted can be looked up by its number. \<open>holds\<close>
  relates a store to the secrets it was given, \<open>cap\<close> bounds their number.
\<close>

locale revocation_store =
  fixes fresh :: 'r
    and add :: "'r \<Rightarrow> 'h \<Rightarrow> lit_error + 'r"
    and look :: "'r \<Rightarrow> u64 \<Rightarrow> lit_error + 'h"
    and holds :: "'r \<Rightarrow> 'h list \<Rightarrow> bool"
    and cap :: nat
  assumes holds_fresh: "holds fresh []"
    and holds_add: "holds r hs \<Longrightarrow> length hs < cap \<Longrightarrow> add r h = Inr r' \<Longrightarrow> holds r' (hs @ [h])"
    and look_holds: "holds r hs \<Longrightarrow> unat w < length hs \<Longrightarrow> look r w = Inr (hs ! unat w)"
begin

lemma holds_fold:
  "fold_res add r xs = Inr r' \<Longrightarrow> holds r hs \<Longrightarrow> length hs + length xs \<le> cap \<Longrightarrow>
   holds r' (hs @ xs)"
proof (induction xs arbitrary: r hs)
  case (Cons x xs)
  from Cons.prems(1) obtain r1 where r1: "add r x = Inr r1" "fold_res add r1 xs = Inr r'"
    by (auto simp: bind_res_eq_Inr)
  have "holds r1 (hs @ [x])"
    using Cons.prems r1 by (intro holds_add) auto
  from Cons.IH [OF r1(2) this] Cons.prems(3) show ?case by simp
qed simp

lemma look_fold:
  "fold_res add fresh hs = Inr r \<Longrightarrow> length hs \<le> cap \<Longrightarrow> unat w < length hs \<Longrightarrow>
   look r w = Inr (hs ! unat w)"
  using holds_fold [of fresh hs r "[]"] holds_fresh by (intro look_holds) auto

end

lemma seg_find:
  "seg dh hs a ns b \<Longrightarrow> a \<le> unat w \<Longrightarrow> unat w < b \<Longrightarrow>
   \<exists>n a'. find (\<lambda>n. w \<le> elk_I n) ns = Some n \<and> node_ok dh hs a' n \<and> a' \<le> unat w \<and>
     unat w \<le> unat (elk_I n)"
proof (induction ns arbitrary: a)
  case (Cons n ns)
  show ?case
  proof (cases "w \<le> elk_I n")
    case True
    with Cons.prems show ?thesis by (auto simp: word_le_nat_alt)
  next
    case False
    with Cons.prems have "Suc (unat (elk_I n)) \<le> unat w" "seg dh hs (Suc (unat (elk_I n))) ns b"
      by (auto simp: word_le_nat_alt)
    from Cons.IH [OF this(2,1) Cons.prems(3)] False show ?thesis by simp
  qed
qed simp

lemma receiver_inv_AtIndex:
  assumes "receiver_inv dh e hs" "unat w < length hs"
  shows "receiver_AtIndex dh e w = Inr (hs ! unat w)"
proof -
  from assms obtain n a where n: "find (\<lambda>n. w \<le> elk_I n) (nodes_of e) = Some n"
      "node_ok dh hs a n" "a \<le> unat w" "unat w \<le> unat (elk_I n)"
    using seg_find [of dh hs 0 "nodes_of e" "length hs" w] by (auto simp: receiver_inv_def)
  then obtain ns where ns: "elk_Nodes e = Some ns" "find (\<lambda>n. w \<le> elk_I n) ns = Some n"
    by (cases "elk_Nodes e") auto
  from n obtain s where s: "elk_Sha n = Some s"
      "elk_hash dh (unat (elk_H n)) (unat (elk_I n)) s (unat w) = hs ! unat w"
      "unat (elk_I n) + 1 = a + span (unat (elk_H n))" "unat (elk_H n) \<le> 47"
    by (auto simp: node_ok_def)
  with n(3,4) have "descend dh w (elk_I n) (elk_H n) s = Inr (hs ! unat w)"
    using descend_elk [OF s(3) n(3,4)] by simp
  with ns s(1) show ?thesis by (simp add: receiver_AtIndex_def)
qed

interpretation elk: revocation_store NewElkremReceiver "\<lambda>e s. AddNext dh e (Some s)"
  "receiver_AtIndex dh" "receiver_inv dh" "2 ^ 48 - 1" for dh
proof
  show "receiver_inv dh NewElkremReceiver []"
    by (simp add: receiver_inv_def NewElkremReceiver_def)
qed (auto intro: AddNext_inv receiver_inv_AtIndex)

section \<open>A receiver accepts what a sender derives\<close>

definition open_for :: "nat \<Rightarrow> elk_node list \<Rightarrow> bool" where
  "open_for h ns \<longleftrightarrow> ns = [] \<or>
     (h \<le> unat (elk_H (last ns)) \<and> (\<nexists>pre l r. ns = pre @ [l, r] \<and> elk_H l = elk_H r))"

definition next_I :: "elk_node list \<Rightarrow> u64" where
  "next_I ns = (if ns = [] then 0 else elk_I (last ns) + 1)"

lemma open_for_mono: "open_for (Suc h) ns \<Longrightarrow> open_for h ns"
  by (auto simp: open_for_def)

lemma open_for_snoc:
  assumes "open_for (Suc h) ns" "unat (elk_H n) = h"
  shows "open_for h (ns @ [n])"
proof -
  have "elk_H l \<noteq> elk_H n" if "ns = pre @ [l]" for pre l
    using assms that by (auto simp: open_for_def)
  then show ?thesis
    using assms(2) unfolding open_for_def by (auto simp: append_eq_append_conv2 Cons_eq_append_conv)
qed

lemma feed_postorder:
  assumes "open_for h (nodes_of e)" "h \<le> 47"
  shows "\<exists>e'. feed dh e (postorder dh h s) = Inr e' \<and> elk_Nodes e' = Some (nodes_of e @
    [\<lparr>elk_H = of_nat h, elk_I = next_I (nodes_of e) + of_nat (span h - 1), elk_Sha = Some s\<rparr>])"
  using assms
proof (induction h arbitrary: e s)
  case 0
  then have "\<nexists>pre l r. nodes_of e = pre @ [l, r] \<and> elk_H l = elk_H r"
    by (auto simp: open_for_def)
  from AddNext_leaf [OF this, of dh "Some s"] show ?case
    by (simp add: next_I_def)
next
  case (Suc h)
  let ?ns = "nodes_of e" and ?i = "next_I (nodes_of e)"
  let ?l = "\<lparr>elk_H = of_nat h, elk_I = ?i + of_nat (span h - 1), elk_Sha = Some (LeftSha dh s)\<rparr>"
  let ?r = "\<lparr>elk_H = of_nat h, elk_I = ?i + of_nat (span h + span h - 1), elk_Sha = Some (RightSha dh s)\<rparr>"
  obtain m where m: "span h = Suc m" using span_pos [of h] gr0_conv_Suc by auto
  have h: "unat (of_nat h :: byte) = h"
    using Suc.prems(2) by (simp add: unat_of_nat)
  obtain e1 where e1: "feed dh e (postorder dh h (LeftSha dh s)) = Inr e1"
      "elk_Nodes e1 = Some (?ns @ [?l])"
    using Suc.IH [of e "LeftSha dh s"] Suc.prems open_for_mono by auto
  have "open_for h (nodes_of e1)"
    using open_for_snoc [OF Suc.prems(1), of ?l] h e1(2) by simp
  moreover have "next_I (nodes_of e1) + of_nat (span h - 1) = elk_I ?r"
    by (simp add: next_I_def e1(2) m)
  ultimately obtain e2 where e2: "feed dh e1 (postorder dh h (RightSha dh s)) = Inr e2"
      "elk_Nodes e2 = Some (?ns @ [?l, ?r])"
    using Suc.IH [of e1 "RightSha dh s"] Suc.prems(2) e1(2) by auto
  have "elk_I ?r + 1 = ?i + of_nat (span (Suc h) - 1)"
    by (simp add: span_Suc m)
  moreover have "AddNext dh e2 (Some s) =
      Inr \<lparr>elk_Nodes = Some (?ns @ [\<lparr>elk_H = elk_H ?r + 1, elk_I = elk_I ?r + 1, elk_Sha = Some s\<rparr>])\<rparr>"
    using AddNext_merge [of e2 ?ns ?l ?r "LeftSha dh s" "RightSha dh s" dh s] e2(2) by simp
  ultimately show ?case
    using e1(1) e2(1) by (simp add: fold_res_append add.commute)
qed

lemma feed_prefix: "feed dh e xs = Inr e' \<Longrightarrow> \<exists>e1. feed dh e (take n xs) = Inr e1"
  using fold_res_append [of "\<lambda>e s. AddNext dh e (Some s)" e "take n xs" "drop n xs"]
  by (cases "feed dh e (take n xs)") auto

lemma feed_sender: "\<exists>e. feed dh NewElkremReceiver (take n (postorder dh 47 r)) = Inr e"
proof -
  have "open_for 47 (nodes_of NewElkremReceiver)"
    by (simp add: open_for_def NewElkremReceiver_def)
  from feed_postorder [OF this, of dh r] show ?thesis
    using feed_prefix by blast
qed

section \<open>Storage and serialization\<close>

lemma seg_nodes:
  "seg dh hs a ns b \<Longrightarrow> n \<in> set ns \<Longrightarrow> b \<le> length hs \<Longrightarrow>
   unat (elk_H n) \<le> 47 \<and> unat (elk_I n) < length hs \<and> (\<exists>s \<in> set hs. elk_Sha n = Some s)"
  by (induction ns arbitrary: a) (auto simp: node_ok_def)

lemma seg_first_47:
  "seg dh hs a (n # ns) b \<Longrightarrow> unat (elk_H n) = 47 \<Longrightarrow> b \<le> 2 ^ 48 - 1 \<Longrightarrow> ns = []"
proof (rule ccontr)
  assume a: "seg dh hs a (n # ns) b" "unat (elk_H n) = 47" "b \<le> 2 ^ 48 - 1" "ns \<noteq> []"
  then obtain m ms where ms: "ns = m # ms" by (cases ns) auto
  have "unat (elk_I n) + 1 = a + span 47"
    using a by (auto simp: node_ok_def)
  moreover have "span 47 = 2 ^ 48 - 1" by (simp add: span_def)
  moreover have "unat (elk_I m) + 1 = Suc (unat (elk_I n)) + span (unat (elk_H m))"
    using a ms by (auto simp: node_ok_def)
  moreover have "0 < span (unat (elk_H m))" by simp
  moreover have "Suc (unat (elk_I m)) \<le> b"
    using a(1) seg_end_le unfolding ms by fastforce
  ultimately show False using a(3) by linarith
qed

lemma receiver_inv_length: "receiver_inv dh e hs \<Longrightarrow> length (nodes_of e) \<le> 48"
proof (cases "nodes_of e")
  case (Cons n ns)
  assume inv: "receiver_inv dh e hs"
  with Cons have segs: "seg dh hs 0 (n # ns) (length hs)" and b: "length hs \<le> 2 ^ 48 - 1"
    and hok: "heights_ok (n # ns)"
    by (auto simp: receiver_inv_def)
  have "unat (elk_H n) \<le> 47" using segs by (simp add: node_ok_def)
  then consider "unat (elk_H n) = 47" | "unat (elk_H n) \<le> 46" by linarith
  then show ?thesis
  proof cases
    case 1
    then have "ns = []" by (rule seg_first_47 [OF segs _ b])
    with Cons show ?thesis by simp
  next
    case 2
    with heights_ok_length [OF hok] Cons show ?thesis by simp
  qed
qed simp

text \<open>What \<open>ElkremReceiverFromBytes\<close> checks of each node, and what it does not: the byte widths.\<close>

definition node_fits :: "elk_node \<Rightarrow> bool" where
  "node_fits n \<longleftrightarrow> elk_H n \<le> maxHeight \<and> elk_I n \<le> maxIndex \<and> (\<exists>s. elk_Sha n = Some s \<and> length s = 32)"

primrec descending :: "byte option \<Rightarrow> elk_node list \<Rightarrow> bool" where
  "descending prev [] \<longleftrightarrow> True"
| "descending prev (n # ns) \<longleftrightarrow>
     (case prev of None \<Rightarrow> True | Some p \<Rightarrow> elk_H n \<le> p) \<and> descending (Some (elk_H n)) ns"

lemma heights_ok_descending: "heights_ok ns \<Longrightarrow> descending None ns"
proof -
  have "heights_ok (n # ns) \<Longrightarrow> descending (Some (elk_H n)) ns" for n and ns
    by (induction ns arbitrary: n) (auto simp: word_le_nat_alt split: if_splits)
  then show "heights_ok ns \<Longrightarrow> descending None ns" by (cases ns) auto
qed

lemma nodes_ToBytes_ok:
  "\<forall>n \<in> set ns. node_fits n \<Longrightarrow> \<exists>b. nodes_ToBytes ns = Inr b \<and> length b = 41 * length ns"
  by (induction ns) (auto simp: node_fits_def)

lemma nodes_roundtrip:
  "\<forall>n \<in> set ns. node_fits n \<Longrightarrow> descending prev ns \<Longrightarrow> nodes_ToBytes ns = Inr b \<Longrightarrow>
   nodes_FromBytes (length ns) prev b = Inr ns"
proof (induction ns arbitrary: prev b)
  case (Cons n ns)
  from Cons.prems(1) obtain s where s: "elk_Sha n = Some s" "length s = 32"
      "elk_H n \<le> maxHeight" "elk_I n \<le> maxIndex"
    by (auto simp: node_fits_def)
  from Cons.prems s obtain r where r: "nodes_ToBytes ns = Inr r"
      "b = elk_H n # be64 (elk_I n) @ s @ r"
    by (auto simp: bind_res_eq_Inr)
  have IH: "nodes_FromBytes (length ns) (Some (elk_H n)) r = Inr ns"
    using Cons.prems r(1) by (intro Cons.IH) auto
  have one: "read_be_err 1 (elk_H n # be64 (elk_I n) @ s @ r) = Inr (unat (elk_H n), be64 (elk_I n) @ s @ r)"
    by (simp add: read_be_err_def buf_simps be_val_def)
  show ?case
    using s Cons.prems(2) one IH
    by (cases prev) (auto simp: r(2) buf_simps Let_def split: option.splits)
qed simp

lemma receiver_inv_fits:
  assumes "receiver_inv dh e hs" "\<forall>h \<in> set hs. length h = 32" "n \<in> set (nodes_of e)"
  shows "node_fits n"
proof -
  have b: "length hs \<le> 2 ^ 48 - 1" and "seg dh hs 0 (nodes_of e) (length hs)"
    using assms(1) by (auto simp: receiver_inv_def)
  from seg_nodes [OF this(2) assms(3)] obtain s where
    s: "unat (elk_H n) \<le> 47" "unat (elk_I n) < length hs" "s \<in> set hs" "elk_Sha n = Some s"
    by auto
  moreover have "unat (elk_I n) \<le> unat maxIndex"
    using s(2) b by (simp add: maxIndex_def)
  ultimately show ?thesis
    using assms(2) by (auto simp: node_fits_def word_le_nat_alt maxHeight_def)
qed

lemma receiver_roundtrip:
  assumes inv: "receiver_inv dh e hs" and len: "\<forall>h \<in> set hs. length h = 32"
  shows "\<exists>b. receiver_ToBytes e = Inr b \<and> length b \<le> 1969 \<and>
    map_sum id nodes_of (ElkremReceiverFromBytes b) = Inr (nodes_of e)"
proof (cases "nodes_of e")
  case Nil
  then show ?thesis by (simp add: receiver_ToBytes_def ElkremReceiverFromBytes_def)
next
  case (Cons n ns)
  let ?k = "length (nodes_of e)"
  have k: "?k \<le> 48" "0 < ?k" using receiver_inv_length [OF inv] Cons by auto
  then have num: "unat (of_nat ?k :: byte) = ?k" by (simp add: unat_of_nat)
  have fits: "\<forall>n \<in> set (nodes_of e). node_fits n"
    using receiver_inv_fits [OF inv len] by blast
  obtain b where b: "nodes_ToBytes (nodes_of e) = Inr b" "length b = 41 * ?k"
    using nodes_ToBytes_ok [OF fits] by auto
  have "descending None (nodes_of e)"
    using inv heights_ok_descending by (auto simp: receiver_inv_def)
  then have rt: "nodes_FromBytes ?k None b = Inr (nodes_of e)"
    by (rule nodes_roundtrip [OF fits _ b(1)])
  have cmp: "(of_nat ?k :: byte) \<noteq> 0" "\<not> maxHeight + 1 < (of_nat ?k :: byte)"
      "\<not> (of_nat ?k :: byte) < 1"
    using k num by (auto simp: word_less_nat_alt maxHeight_def word_unat_eq_iff)
  then have "receiver_ToBytes e = Inr (of_nat ?k # b)"
    using b num by (simp add: receiver_ToBytes_def Let_def)
  moreover have "ElkremReceiverFromBytes (of_nat ?k # b) = Inr \<lparr>elk_Nodes = Some (nodes_of e)\<rparr>"
    using cmp b num rt by (simp add: ElkremReceiverFromBytes_def)
  ultimately show ?thesis using k b by simp
qed

section \<open>Properties\<close>

text \<open>C19: whatever sequence of at most 2^48 - 1 hashes a fresh receiver accepts, from an honest
  sender or not, it can afterwards reproduce each of them by its number.\<close>

theorem elkrem_receiver_recovers:
  "feed dh NewElkremReceiver hs = Inr e \<Longrightarrow> length hs \<le> 2 ^ 48 - 1 \<Longrightarrow> unat w < length hs \<Longrightarrow>
   receiver_AtIndex dh e w = Inr (hs ! unat w)"
  by (rule elk.look_fold)

text \<open>A concrete hash function for the witnesses: it keeps the first byte and adds the direction.\<close>

definition toy_hash :: "bytes \<Rightarrow> hash" where
  "toy_hash b = replicate 31 7 @ [fold (\<lambda>x acc. 3 * acc + x + 1) b 0]"

lemma toy_hash_length [simp]: "length (toy_hash b) = 32"
  by (simp add: toy_hash_def)

definition toy_hashes :: "hash list" where
  "toy_hashes = [toy_hash (replicate 32 1 @ [0]), toy_hash (replicate 32 1 @ [1]), replicate 32 1]"

lemma toy_feed:
  "feed toy_hash NewElkremReceiver toy_hashes =
     Inr \<lparr>elk_Nodes = Some [\<lparr>elk_H = 1, elk_I = 2, elk_Sha = Some (replicate 32 1)\<rparr>]\<rparr>"
  by (simp add: toy_hashes_def NewElkremReceiver_def AddNext_def LeftSha_def RightSha_def Let_def)

theorem elkrem_receiver_recovers_witness:
  "receiver_AtIndex toy_hash
     \<lparr>elk_Nodes = Some [\<lparr>elk_H = 1, elk_I = 2, elk_Sha = Some (replicate 32 1)\<rparr>]\<rparr> 1 =
   Inr (toy_hash (replicate 32 1 @ [1]))"
  using elkrem_receiver_recovers [OF toy_feed, of 1] by (simp add: toy_hashes_def)

text \<open>C30: the hashes a sender derives from its root, taken in order, are all accepted by a fresh
  receiver, however many of the 2^48 - 1 are revealed, and the receiver then answers every revealed
  index exactly as the sender does.\<close>

theorem elkrem_sender_receiver:
  assumes "n \<le> 2 ^ 48 - 1" "unat w < n"
  shows "\<exists>hs e. length hs = n \<and>
    (\<forall>i<n. sender_AtIndex dh (NewElkremSender r) (of_nat i) = Inr (hs ! i)) \<and>
    feed dh NewElkremReceiver hs = Inr e \<and>
    receiver_AtIndex dh e w = sender_AtIndex dh (NewElkremSender r) w"
proof -
  let ?hs = "take n (postorder dh 47 r)"
  have len: "length ?hs = n" using assms(1) by (simp add: span_def)
  have at: "sender_AtIndex dh (NewElkremSender r) (of_nat i) = Inr (?hs ! i)" if "i < n" for i
  proof -
    have "i < 2 ^ 48 - 1" using that assms(1) by linarith
    then have u: "unat (of_nat i :: u64) = i" by (simp add: unat_of_nat)
    with \<open>i < 2 ^ 48 - 1\<close> have "(of_nat i :: u64) \<le> maxIndex"
      by (simp add: word_le_nat_alt maxIndex_def)
    from sender_AtIndex_elk [OF this, of dh r] that show ?thesis by (simp add: u)
  qed
  obtain e where e: "feed dh NewElkremReceiver ?hs = Inr e" using feed_sender by blast
  from elk.look_fold [OF this] len assms have "receiver_AtIndex dh e w = Inr (?hs ! unat w)"
    by simp
  with at [OF assms(2)] have "receiver_AtIndex dh e w = sender_AtIndex dh (NewElkremSender r) w"
    by simp
  with len at e show ?thesis by blast
qed

theorem elkrem_sender_receiver_witness:
  "\<exists>hs e. length hs = 5 \<and>
    (\<forall>i<5. sender_AtIndex toy_hash (NewElkremSender []) (of_nat i) = Inr (hs ! i)) \<and>
    feed toy_hash NewElkremReceiver hs = Inr e \<and>
    receiver_AtIndex toy_hash e 4 = sender_AtIndex toy_hash (NewElkremSender []) 4"
  by (rule elkrem_sender_receiver) simp_all

text \<open>a sender answers exactly the indices up to 2^48 - 2, and errors on all others.\<close>

theorem elkrem_sender_range:
  "(\<exists>h. sender_AtIndex dh (NewElkremSender r) w = Inr h) \<longleftrightarrow> w \<le> maxIndex"
proof (cases "w \<le> maxIndex")
  case True
  then show ?thesis by (simp add: sender_AtIndex_elk)
next
  case False
  then show ?thesis by (simp add: sender_AtIndex_def descend_below)
qed

text \<open>the receiver never stores more than 48 nodes, so serialization never fails; it takes at
  most 1969 bytes, and reading it back restores the stack.\<close>

theorem elkrem_receiver_serialization:
  assumes "feed dh NewElkremReceiver hs = Inr e" "length hs \<le> 2 ^ 48 - 1"
    and "\<forall>h \<in> set hs. length h = 32"
  shows "length (nodes_of e) \<le> 48 \<and> (\<exists>b. receiver_ToBytes e = Inr b \<and> length b \<le> 1969 \<and>
    map_sum id nodes_of (ElkremReceiverFromBytes b) = Inr (nodes_of e))"
proof -
  have "receiver_inv dh e hs"
    using elk.holds_fold [OF assms(1), of "[]"] elk.holds_fresh assms(2) by simp
  from receiver_inv_length [OF this] receiver_roundtrip [OF this assms(3)] show ?thesis by blast
qed

theorem elkrem_receiver_serialization_witness:
  "\<exists>b. receiver_ToBytes \<lparr>elk_Nodes = Some [\<lparr>elk_H = 1, elk_I = 2, elk_Sha = Some (replicate 32 1)\<rparr>]\<rparr> = Inr b \<and>
    map_sum id nodes_of (ElkremReceiverFromBytes b) =
      Inr [\<lparr>elk_H = 1, elk_I = 2, elk_Sha = Some (replicate 32 1)\<rparr>]"
  using elkrem_receiver_serialization [OF toy_feed] by (auto simp: toy_hashes_def)

text \<open>asking a receiver that was created but never fed for any index panics, because the error
  message indexes the empty stack; a receiver restored from its (empty) serialization reports an
  error instead.\<close>

theorem elkrem_fresh_receiver_panics:
  "receiver_AtIndex dh NewElkremReceiver w = Inl Panic \<and>
   bind_res (bind_res (receiver_ToBytes NewElkremReceiver) ElkremReceiverFromBytes)
     (\<lambda>e. receiver_AtIndex dh e w) = Inl NilPointer"
  by (simp add: receiver_AtIndex_def NewElkremReceiver_def receiver_ToBytes_def
      ElkremReceiverFromBytes_def)

end
