(* ===== verification/MsgBase.thy ===== *)
theory MsgBase
  imports LitWire
begin

text \<open>
  What the message parsers and printers of \<open>lnutil/msglib.go\<close> share: stripping the type byte, the lists
  of 64-byte signatures at the end of the channel messages, the contract of a message codec, and the
  funding transaction some messages carry. The lemma bundle \<open>msg_read_simps\<close> takes a successful parse
  apart.
\<close>

section \<open>Common pieces of the parsers\<close>

text \<open>\<open>b[1:]\<close>, which panics on an empty slice.\<close>

definition strip_type :: "bytes \<Rightarrow> lit_error + bytes" where
  "strip_type b = (case b of [] \<Rightarrow> Inl Panic | t # r \<Rightarrow> Inr r)"

lemma strip_type_Cons [buf_simps]: "strip_type (t # r) = Inr r"
  by (simp add: strip_type_def)

text \<open>
  \<open>elk, _ := chainhash.NewHash(s)\<close> followed by \<open>*elk\<close>: a slice of the wrong length gives a nil pointer,
  and dereferencing it panics.
\<close>

definition NewHash :: "bytes \<Rightarrow> lit_error + bytes" where
  "NewHash s = (if length s \<noteq> 32 then Inl Panic else Inr s)"

lemma NewHash_ok [buf_simps]: "length s = 32 \<Longrightarrow> NewHash s = Inr s"
  by (simp add: NewHash_def)

lemma NewHash_Inr: "NewHash s = Inr h \<longleftrightarrow> h = s \<and> length s = 32"
  by (auto simp: NewHash_def)

text \<open>The loop over the HTLC signatures, and the other loops over fixed-size arrays.\<close>

definition all_len :: "nat \<Rightarrow> bytes list \<Rightarrow> bool" where
  "all_len n xs \<longleftrightarrow> (\<forall>x \<in> set xs. length x = n)"

lemma all_len_simps [simp]:
  "all_len n []" "all_len n (x # xs) \<longleftrightarrow> length x = n \<and> all_len n xs"
  by (simp_all add: all_len_def)

definition read_sigs :: "nat \<Rightarrow> bytes \<Rightarrow> bytes list \<times> bytes" where
  "read_sigs n b = read_list n (next_arr 64) b"

interpretation sig_bytes: field_codec "\<lambda>s. s" "next_arr n" "\<lambda>s. length s = n" for n
  by unfold_locales (simp add: buf_simps)

lemma read_sigs_append [buf_simps]:
  "all_len 64 xs \<Longrightarrow> n = length xs \<Longrightarrow> read_sigs n (concat xs @ r) = (xs, r)"
  using sig_bytes.read_list_total [of xs 64 n r] by (simp add: read_sigs_def all_len_def)

lemma read_sigs_exact [buf_simps]:
  "all_len 64 xs \<Longrightarrow> n = length xs \<Longrightarrow> read_sigs n (concat xs) = (xs, [])"
  using read_sigs_append [of xs n "[]"] by simp

lemma length_concat_len: "all_len n xs \<Longrightarrow> length (concat xs) = n * length xs"
  by (induction xs) simp_all

lemma length_concat_sigs [simp]: "all_len 64 xs \<Longrightarrow> length (concat xs) = 64 * length xs"
  by (rule length_concat_len)

lemma read_sigs_len [simp]:
  "length (fst (read_sigs n b)) = n" "all_len 64 (fst (read_sigs n b))"
  unfolding read_sigs_def
  by (induction n arbitrary: b) (simp_all add: Let_def case_prod_unfold)

lemmas msg_read_simps = bind_res_eq_Inr NewHash_Inr Let_def case_prod_unfold

section \<open>The contract of a message\<close>

text \<open>
  What \<open>LitMsgFromBytes\<close> relies on for every message type: the printed form starts with the type byte,
  and the parser inverts the printer on the values that satisfy \<open>ok\<close>.
\<close>

locale msg_codec =
  fixes mtype :: byte
    and ser :: "'m \<Rightarrow> lit_error + bytes"
    and par :: "bytes \<Rightarrow> u32 \<Rightarrow> lit_error + 'm"
    and peer :: "'m \<Rightarrow> u32"
    and ok :: "'m \<Rightarrow> bool"
  assumes ser_par: "ok m \<Longrightarrow> \<exists>r. ser m = Inr (mtype # r) \<and> par (mtype # r) (peer m) = Inr m"
begin

lemma ser_cases:
  assumes "ok m" obtains r where "ser m = Inr (mtype # r)" "par (mtype # r) (peer m) = Inr m"
  using ser_par [OF assms] by blast

lemma ser_inj: "ok m \<Longrightarrow> ok m' \<Longrightarrow> peer m = peer m' \<Longrightarrow> ser m = ser m' \<Longrightarrow> m = m'"
  using ser_par [of m] ser_par [of m'] by auto

end

text \<open>The stronger contract of the parsers whose results are all well formed.\<close>

locale msg_codec_total = msg_codec mtype ser par peer ok
  for mtype :: byte and ser :: "'m \<Rightarrow> lit_error + bytes" and par :: "bytes \<Rightarrow> u32 \<Rightarrow> lit_error + 'm"
    and peer :: "'m \<Rightarrow> u32" and ok :: "'m \<Rightarrow> bool" +
  assumes par_ok: "par b p = Inr m \<Longrightarrow> ok m \<and> peer m = p"
begin

text \<open>Printing what was parsed and parsing it again changes nothing.\<close>

lemma reparse:
  assumes "par b p = Inr m"
  shows "\<exists>r. ser m = Inr (mtype # r) \<and> par (mtype # r) p = Inr m"
  using par_ok [OF assms] ser_par [of m] by auto

end

section \<open>Funding transactions in messages\<close>

text \<open>
  The parsers drop the error of \<open>SignedFundingTx.Deserialize(buf)\<close> and return the message with the
  transaction as far as it was read. \<open>PartialTx e\<close> stands for such a transaction, \<open>e\<close> being the dropped
  error; what it would serialize to is not modelled, its printed form is that error.
\<close>

datatype funding_tx = FullTx msg_tx | PartialTx lit_error

definition read_funding_tx :: "bytes \<Rightarrow> funding_tx" where
  "read_funding_tx b = (case Deserialize b of Inl e \<Rightarrow> PartialTx e | Inr (tx, r) \<Rightarrow> FullTx tx)"

definition funding_tx_Bytes :: "funding_tx \<Rightarrow> lit_error + bytes" where
  "funding_tx_Bytes t = (case t of FullTx tx \<Rightarrow> Inr (Serialize tx) | PartialTx e \<Rightarrow> Inl e)"

definition wf_funding_tx :: "funding_tx \<Rightarrow> bool" where
  "wf_funding_tx t = (case t of FullTx tx \<Rightarrow> wf_tx tx | PartialTx e \<Rightarrow> False)"

lemma wf_funding_txE:
  assumes "wf_funding_tx t" obtains tx where "t = FullTx tx" "wf_tx tx"
  using assms by (cases t) (simp_all add: wf_funding_tx_def)

lemma read_funding_tx_Serialize [buf_simps]:
  "wf_tx tx \<Longrightarrow> read_funding_tx (Serialize tx) = FullTx tx"
  "wf_tx tx \<Longrightarrow> read_funding_tx (Serialize tx @ r) = FullTx tx"
  using Deserialize_Serialize [of tx "[]"] by (simp_all add: read_funding_tx_def buf_simps)

end
