(* ===== verification/MsgChannel.thy ===== *)
theory MsgChannel
  imports MsgBase
begin

text \<open>
  The channel messages of \<open>lnutil/msglib.go\<close>: creation (point request and response, description,
  acknowledgement, signature proof), closing, and the push/pull messages with their HTLC variants. For
  each: the struct, the constructor function, the parser with its length check, the printer, and the
  interpretation of the message contract.
\<close>

section \<open>Chat\<close>

record chat_msg =
  ct_PeerIdx :: u32
  ct_Text :: bytes

definition NewChatMsg :: "u32 \<Rightarrow> bytes \<Rightarrow> chat_msg" where
  "NewChatMsg peerid txt = \<lparr>ct_PeerIdx = peerid, ct_Text = txt\<rparr>"

definition NewChatMsgFromBytes :: "bytes \<Rightarrow> u32 \<Rightarrow> lit_error + chat_msg" where
  "NewChatMsgFromBytes b peerid =
     (if length b \<le> 1 then Inl (TooShort (length b))
      else bind_res (strip_type b) (\<lambda>b. Inr \<lparr>ct_PeerIdx = peerid, ct_Text = b\<rparr>))"

definition ChatMsg_Bytes :: "chat_msg \<Rightarrow> bytes" where
  "ChatMsg_Bytes m = 0x00 # ct_Text m"

text \<open>The empty text prints to a message its own parser refuses.\<close>

definition wf_chat_msg :: "chat_msg \<Rightarrow> bool" where
  "wf_chat_msg m \<longleftrightarrow> ct_Text m \<noteq> []"

interpretation chat_msg_codec: msg_codec_total "0x00" "\<lambda>m. Inr (ChatMsg_Bytes m)" NewChatMsgFromBytes ct_PeerIdx wf_chat_msg
  by unfold_locales
    (auto simp: NewChatMsgFromBytes_def ChatMsg_Bytes_def wf_chat_msg_def buf_simps strip_type_def
      split: if_splits list.splits)

section \<open>Channel creation\<close>

subsection \<open>\<open>PointReqMsg\<close>\<close>

record point_req_msg =
  pq_PeerIdx :: u32
  pq_Cointype :: u32

definition NewPointReqMsg :: "u32 \<Rightarrow> u32 \<Rightarrow> point_req_msg" where
  "NewPointReqMsg peerid cointype =
     \<lparr>pq_PeerIdx = peerid, pq_Cointype = cointype\<rparr>"

definition NewPointReqMsgFromBytes :: "bytes \<Rightarrow> u32 \<Rightarrow> lit_error + point_req_msg" where
  "NewPointReqMsgFromBytes b peerid =
     (if length b < 5 then Inl (TooShort (length b)) else
      bind_res (strip_type b) (\<lambda>buf.
      let (cointype, buf) = buf_next 4 buf in
      Inr \<lparr>pq_PeerIdx = peerid, pq_Cointype = BtU32 cointype\<rparr>))"

definition PointReqMsg_Bytes :: "point_req_msg \<Rightarrow> bytes" where
  "PointReqMsg_Bytes m =
     0x10 # U32tB (pq_Cointype m)"

definition wf_point_req_msg :: "point_req_msg \<Rightarrow> bool" where
  "wf_point_req_msg m \<longleftrightarrow> True"

interpretation point_req_msg_codec:
  msg_codec_total "0x10" "\<lambda>m. Inr (PointReqMsg_Bytes m)" NewPointReqMsgFromBytes pq_PeerIdx wf_point_req_msg
  by unfold_locales
    (simp add: NewPointReqMsgFromBytes_def PointReqMsg_Bytes_def wf_point_req_msg_def buf_simps,
     auto simp: NewPointReqMsgFromBytes_def wf_point_req_msg_def msg_read_simps split: if_splits)

subsection \<open>\<open>PointRespMsg\<close>\<close>

record point_resp_msg =
  pr_PeerIdx :: u32
  pr_ChannelPub :: bytes
  pr_RefundPub :: bytes
  pr_HAKDbase :: bytes
  pr_NextHTLCBase :: bytes
  pr_N2HTLCBase :: bytes

definition NewPointRespMsg :: "u32 \<Rightarrow> bytes \<Rightarrow> bytes \<Rightarrow> bytes \<Rightarrow> bytes \<Rightarrow> bytes \<Rightarrow> point_resp_msg" where
  "NewPointRespMsg peerid channelPub refundPub hAKDbase nextHTLCBase n2HTLCBase =
     \<lparr>pr_PeerIdx = peerid, pr_ChannelPub = channelPub, pr_RefundPub = refundPub,
      pr_HAKDbase = hAKDbase, pr_NextHTLCBase = nextHTLCBase, pr_N2HTLCBase = n2HTLCBase\<rparr>"

definition NewPointRespMsgFromBytes :: "bytes \<Rightarrow> u32 \<Rightarrow> lit_error + point_resp_msg" where
  "NewPointRespMsgFromBytes b peerid =
     (if length b < 166 then Inl (TooShort (length b)) else
      bind_res (strip_type b) (\<lambda>buf.
      let (channelPub, buf) = next_arr 33 buf; (refundPub, buf) = next_arr 33 buf;
          (hAKDbase, buf) = next_arr 33 buf; (nextHTLCBase, buf) = next_arr 33 buf;
          (n2HTLCBase, buf) = next_arr 33 buf in
      Inr \<lparr>pr_PeerIdx = peerid, pr_ChannelPub = channelPub, pr_RefundPub = refundPub,
        pr_HAKDbase = hAKDbase, pr_NextHTLCBase = nextHTLCBase, pr_N2HTLCBase = n2HTLCBase\<rparr>))"

definition PointRespMsg_Bytes :: "point_resp_msg \<Rightarrow> bytes" where
  "PointRespMsg_Bytes m =
     0x11 # pr_ChannelPub m @ pr_RefundPub m @ pr_HAKDbase m @ pr_NextHTLCBase m @ pr_N2HTLCBase m"

definition wf_point_resp_msg :: "point_resp_msg \<Rightarrow> bool" where
  "wf_point_resp_msg m \<longleftrightarrow> length (pr_ChannelPub m) = 33 \<and>
     length (pr_RefundPub m) = 33 \<and> length (pr_HAKDbase m) = 33 \<and>
     length (pr_NextHTLCBase m) = 33 \<and> length (pr_N2HTLCBase m) = 33"

interpretation point_resp_msg_codec:
  msg_codec_total "0x11" "\<lambda>m. Inr (PointRespMsg_Bytes m)" NewPointRespMsgFromBytes pr_PeerIdx wf_point_resp_msg
  by unfold_locales
    (simp add: NewPointRespMsgFromBytes_def PointRespMsg_Bytes_def wf_point_resp_msg_def buf_simps,
     auto simp: NewPointRespMsgFromBytes_def wf_point_resp_msg_def msg_read_simps split: if_splits)

subsection \<open>\<open>ChanDescMsg\<close>\<close>

text \<open>
  The length check asks for 283 bytes of the 353 the message has; the fields read past the end come
  out zero (or all ones, for the numbers).
\<close>

record chan_desc_msg =
  cd_PeerIdx :: u32
  cd_Outpoint :: outpoint
  cd_PubKey :: bytes
  cd_RefundPub :: bytes
  cd_HAKDbase :: bytes
  cd_NextHTLCBase :: bytes
  cd_N2HTLCBase :: bytes
  cd_CoinType :: u32
  cd_Capacity :: u64
  cd_InitPayment :: u64
  cd_ElkZero :: bytes
  cd_ElkOne :: bytes
  cd_ElkTwo :: bytes
  cd_Data :: bytes

definition NewChanDescMsg :: "u32 \<Rightarrow> outpoint \<Rightarrow> bytes \<Rightarrow> bytes \<Rightarrow> bytes \<Rightarrow> bytes \<Rightarrow> bytes \<Rightarrow> u32 \<Rightarrow> u64 \<Rightarrow> u64 \<Rightarrow> bytes \<Rightarrow> bytes \<Rightarrow> bytes \<Rightarrow> bytes \<Rightarrow> chan_desc_msg" where
  "NewChanDescMsg peerid outpoint pubKey refundPub hAKDbase nextHTLCBase n2HTLCBase coinType capacity initPayment elkZero elkOne elkTwo data =
     \<lparr>cd_PeerIdx = peerid, cd_Outpoint = outpoint, cd_PubKey = pubKey, cd_RefundPub = refundPub,
      cd_HAKDbase = hAKDbase, cd_NextHTLCBase = nextHTLCBase, cd_N2HTLCBase = n2HTLCBase,
      cd_CoinType = coinType, cd_Capacity = capacity, cd_InitPayment = initPayment,
      cd_ElkZero = elkZero, cd_ElkOne = elkOne, cd_ElkTwo = elkTwo, cd_Data = data\<rparr>"

definition NewChanDescMsgFromBytes :: "bytes \<Rightarrow> u32 \<Rightarrow> lit_error + chan_desc_msg" where
  "NewChanDescMsgFromBytes b peerid =
     (if length b < 283 then Inl (TooShort (length b)) else
      bind_res (strip_type b) (\<lambda>buf.
      let (op, buf) = next_arr 36 buf; (pubKey, buf) = next_arr 33 buf;
          (refundPub, buf) = next_arr 33 buf; (hAKDbase, buf) = next_arr 33 buf;
          (nextHTLCBase, buf) = next_arr 33 buf; (n2HTLCBase, buf) = next_arr 33 buf;
          (coinType, buf) = buf_next 4 buf; (capacity, buf) = buf_next 8 buf;
          (initPayment, buf) = buf_next 8 buf; (elkZero, buf) = next_arr 33 buf;
          (elkOne, buf) = next_arr 33 buf; (elkTwo, buf) = next_arr 33 buf;
          (data, buf) = next_arr 32 buf in
      Inr \<lparr>cd_PeerIdx = peerid, cd_Outpoint = OutPointFromBytes op, cd_PubKey = pubKey,
        cd_RefundPub = refundPub, cd_HAKDbase = hAKDbase, cd_NextHTLCBase = nextHTLCBase,
        cd_N2HTLCBase = n2HTLCBase, cd_CoinType = BtU32 coinType, cd_Capacity = BtI64 capacity,
        cd_InitPayment = BtI64 initPayment, cd_ElkZero = elkZero, cd_ElkOne = elkOne,
        cd_ElkTwo = elkTwo, cd_Data = data\<rparr>))"

definition ChanDescMsg_Bytes :: "chan_desc_msg \<Rightarrow> bytes" where
  "ChanDescMsg_Bytes m =
     0x12 # OutPointToBytes (cd_Outpoint m) @ cd_PubKey m @ cd_RefundPub m @ cd_HAKDbase m @
       cd_NextHTLCBase m @ cd_N2HTLCBase m @ U32tB (cd_CoinType m) @ I64tB (cd_Capacity m) @
       I64tB (cd_InitPayment m) @ cd_ElkZero m @ cd_ElkOne m @ cd_ElkTwo m @ cd_Data m"

definition wf_chan_desc_msg :: "chan_desc_msg \<Rightarrow> bool" where
  "wf_chan_desc_msg m \<longleftrightarrow> wf_outpoint (cd_Outpoint m) \<and>
     length (cd_PubKey m) = 33 \<and> length (cd_RefundPub m) = 33 \<and>
     length (cd_HAKDbase m) = 33 \<and> length (cd_NextHTLCBase m) = 33 \<and>
     length (cd_N2HTLCBase m) = 33 \<and> length (cd_ElkZero m) = 33 \<and>
     length (cd_ElkOne m) = 33 \<and> length (cd_ElkTwo m) = 33 \<and> length (cd_Data m) = 32"

interpretation chan_desc_msg_codec:
  msg_codec_total "0x12" "\<lambda>m. Inr (ChanDescMsg_Bytes m)" NewChanDescMsgFromBytes cd_PeerIdx wf_chan_desc_msg
  by unfold_locales
    (simp add: NewChanDescMsgFromBytes_def ChanDescMsg_Bytes_def wf_chan_desc_msg_def buf_simps,
     auto simp: NewChanDescMsgFromBytes_def wf_chan_desc_msg_def msg_read_simps split: if_splits)

subsection \<open>\<open>ChanAckMsg\<close>\<close>

record chan_ack_msg =
  ak_PeerIdx :: u32
  ak_Outpoint :: outpoint
  ak_ElkZero :: bytes
  ak_ElkOne :: bytes
  ak_ElkTwo :: bytes
  ak_Signature :: bytes

definition NewChanAckMsg :: "u32 \<Rightarrow> outpoint \<Rightarrow> bytes \<Rightarrow> bytes \<Rightarrow> bytes \<Rightarrow> bytes \<Rightarrow> chan_ack_msg" where
  "NewChanAckMsg peerid outpoint elkZero elkOne elkTwo signature =
     \<lparr>ak_PeerIdx = peerid, ak_Outpoint = outpoint, ak_ElkZero = elkZero, ak_ElkOne = elkOne,
      ak_ElkTwo = elkTwo, ak_Signature = signature\<rparr>"

definition NewChanAckMsgFromBytes :: "bytes \<Rightarrow> u32 \<Rightarrow> lit_error + chan_ack_msg" where
  "NewChanAckMsgFromBytes b peerid =
     (if length b < 200 then Inl (TooShort (length b)) else
      bind_res (strip_type b) (\<lambda>buf.
      let (op, buf) = next_arr 36 buf; (elkZero, buf) = next_arr 33 buf;
          (elkOne, buf) = next_arr 33 buf; (elkTwo, buf) = next_arr 33 buf;
          (signature, buf) = next_arr 64 buf in
      Inr \<lparr>ak_PeerIdx = peerid, ak_Outpoint = OutPointFromBytes op, ak_ElkZero = elkZero,
        ak_ElkOne = elkOne, ak_ElkTwo = elkTwo, ak_Signature = signature\<rparr>))"

definition ChanAckMsg_Bytes :: "chan_ack_msg \<Rightarrow> bytes" where
  "ChanAckMsg_Bytes m =
     0x13 # OutPointToBytes (ak_Outpoint m) @ ak_ElkZero m @ ak_ElkOne m @ ak_ElkTwo m @ ak_Signature m"

definition wf_chan_ack_msg :: "chan_ack_msg \<Rightarrow> bool" where
  "wf_chan_ack_msg m \<longleftrightarrow> wf_outpoint (ak_Outpoint m) \<and>
     length (ak_ElkZero m) = 33 \<and> length (ak_ElkOne m) = 33 \<and> length (ak_ElkTwo m) = 33 \<and>
     length (ak_Signature m) = 64"

interpretation chan_ack_msg_codec:
  msg_codec_total "0x13" "\<lambda>m. Inr (ChanAckMsg_Bytes m)" NewChanAckMsgFromBytes ak_PeerIdx wf_chan_ack_msg
  by unfold_locales
    (simp add: NewChanAckMsgFromBytes_def ChanAckMsg_Bytes_def wf_chan_ack_msg_def buf_simps,
     auto simp: NewChanAckMsgFromBytes_def wf_chan_ack_msg_def msg_read_simps split: if_splits)

subsection \<open>\<open>SigProofMsg\<close>\<close>

record sig_proof_msg =
  sp_PeerIdx :: u32
  sp_Outpoint :: outpoint
  sp_Signature :: bytes

definition NewSigProofMsg :: "u32 \<Rightarrow> outpoint \<Rightarrow> bytes \<Rightarrow> sig_proof_msg" where
  "NewSigProofMsg peerid outpoint signature =
     \<lparr>sp_PeerIdx = peerid, sp_Outpoint = outpoint, sp_Signature = signature\<rparr>"

definition NewSigProofMsgFromBytes :: "bytes \<Rightarrow> u32 \<Rightarrow> lit_error + sig_proof_msg" where
  "NewSigProofMsgFromBytes b peerid =
     (if length b < 101 then Inl (TooShort (length b)) else
      bind_res (strip_type b) (\<lambda>buf.
      let (op, buf) = next_arr 36 buf; (signature, buf) = next_arr 64 buf in
      Inr \<lparr>sp_PeerIdx = peerid, sp_Outpoint = OutPointFromBytes op, sp_Signature = signature\<rparr>))"

definition SigProofMsg_Bytes :: "sig_proof_msg \<Rightarrow> bytes" where
  "SigProofMsg_Bytes m =
     0x14 # OutPointToBytes (sp_Outpoint m) @ sp_Signature m"

definition wf_sig_proof_msg :: "sig_proof_msg \<Rightarrow> bool" where
  "wf_sig_proof_msg m \<longleftrightarrow> wf_outpoint (sp_Outpoint m) \<and>
     length (sp_Signature m) = 64"

interpretation sig_proof_msg_codec:
  msg_codec_total "0x14" "\<lambda>m. Inr (SigProofMsg_Bytes m)" NewSigProofMsgFromBytes sp_PeerIdx wf_sig_proof_msg
  by unfold_locales
    (simp add: NewSigProofMsgFromBytes_def SigProofMsg_Bytes_def wf_sig_proof_msg_def buf_simps,
     auto simp: NewSigProofMsgFromBytes_def wf_sig_proof_msg_def msg_read_simps split: if_splits)

section \<open>Channel closing\<close>

subsection \<open>\<open>CloseReqMsg\<close>\<close>

record close_req_msg =
  cr_PeerIdx :: u32
  cr_Outpoint :: outpoint
  cr_Signature :: bytes

definition NewCloseReqMsg :: "u32 \<Rightarrow> outpoint \<Rightarrow> bytes \<Rightarrow> close_req_msg" where
  "NewCloseReqMsg peerid outpoint signature =
     \<lparr>cr_PeerIdx = peerid, cr_Outpoint = outpoint, cr_Signature = signature\<rparr>"

definition NewCloseReqMsgFromBytes :: "bytes \<Rightarrow> u32 \<Rightarrow> lit_error + close_req_msg" where
  "NewCloseReqMsgFromBytes b peerid =
     (if length b < 101 then Inl (TooShort (length b)) else
      bind_res (strip_type b) (\<lambda>buf.
      let (op, buf) = next_arr 36 buf; (signature, buf) = next_arr 64 buf in
      Inr \<lparr>cr_PeerIdx = peerid, cr_Outpoint = OutPointFromBytes op, cr_Signature = signature\<rparr>))"

definition CloseReqMsg_Bytes :: "close_req_msg \<Rightarrow> bytes" where
  "CloseReqMsg_Bytes m =
     0x20 # OutPointToBytes (cr_Outpoint m) @ cr_Signature m"

definition wf_close_req_msg :: "close_req_msg \<Rightarrow> bool" where
  "wf_close_req_msg m \<longleftrightarrow> wf_outpoint (cr_Outpoint m) \<and>
     length (cr_Signature m) = 64"

interpretation close_req_msg_codec:
  msg_codec_total "0x20" "\<lambda>m. Inr (CloseReqMsg_Bytes m)" NewCloseReqMsgFromBytes cr_PeerIdx wf_close_req_msg
  by unfold_locales
    (simp add: NewCloseReqMsgFromBytes_def CloseReqMsg_Bytes_def wf_close_req_msg_def buf_simps,
     auto simp: NewCloseReqMsgFromBytes_def wf_close_req_msg_def msg_read_simps split: if_splits)

section \<open>Push and pull\<close>

subsection \<open>\<open>DeltaSigMsg\<close>\<close>

record delta_sig_msg =
  ds_PeerIdx :: u32
  ds_Outpoint :: outpoint
  ds_Delta :: u32
  ds_Signature :: bytes
  ds_Data :: bytes
  ds_HTLCSigs :: "bytes list"

definition NewDeltaSigMsg :: "u32 \<Rightarrow> outpoint \<Rightarrow> u32 \<Rightarrow> bytes \<Rightarrow> bytes list \<Rightarrow> bytes \<Rightarrow> delta_sig_msg" where
  "NewDeltaSigMsg peerid outpoint delta signature hTLCSigs data =
     \<lparr>ds_PeerIdx = peerid, ds_Outpoint = outpoint, ds_Delta = delta, ds_Signature = signature,
      ds_Data = data, ds_HTLCSigs = hTLCSigs\<rparr>"

definition NewDeltaSigMsgFromBytes :: "bytes \<Rightarrow> u32 \<Rightarrow> lit_error + delta_sig_msg" where
  "NewDeltaSigMsgFromBytes b peerid =
     (if length b < 105 then Inl (TooShort (length b)) else
      bind_res (strip_type b) (\<lambda>buf.
      let (op, buf) = next_arr 36 buf; (delta, buf) = buf_next 4 buf;
          (signature, buf) = next_arr 64 buf; (data, buf) = next_arr 32 buf;
          (sigs, buf) = read_sigs (length buf div 64) buf in
      Inr \<lparr>ds_PeerIdx = peerid, ds_Outpoint = OutPointFromBytes op, ds_Delta = BtI32 delta,
        ds_Signature = signature, ds_Data = data, ds_HTLCSigs = sigs\<rparr>))"

definition DeltaSigMsg_Bytes :: "delta_sig_msg \<Rightarrow> bytes" where
  "DeltaSigMsg_Bytes m =
     0x30 # OutPointToBytes (ds_Outpoint m) @ I32tB (ds_Delta m) @ ds_Signature m @ ds_Data m @
       concat (ds_HTLCSigs m)"

definition wf_delta_sig_msg :: "delta_sig_msg \<Rightarrow> bool" where
  "wf_delta_sig_msg m \<longleftrightarrow> wf_outpoint (ds_Outpoint m) \<and>
     length (ds_Signature m) = 64 \<and> length (ds_Data m) = 32 \<and> all_len 64 (ds_HTLCSigs m)"

interpretation delta_sig_msg_codec:
  msg_codec_total "0x30" "\<lambda>m. Inr (DeltaSigMsg_Bytes m)" NewDeltaSigMsgFromBytes ds_PeerIdx wf_delta_sig_msg
  by unfold_locales
    (simp add: NewDeltaSigMsgFromBytes_def DeltaSigMsg_Bytes_def wf_delta_sig_msg_def buf_simps,
     auto simp: NewDeltaSigMsgFromBytes_def wf_delta_sig_msg_def msg_read_simps split: if_splits)

subsection \<open>\<open>SigRevMsg\<close>\<close>

text \<open>
  The count of HTLC signatures is \<open>(buf.Len() - 33) / 64\<close>, which Go truncates towards
  zero: with fewer than 33 bytes left it is 0, as it is on natural numbers.
\<close>

record sig_rev_msg =
  sr_PeerIdx :: u32
  sr_Outpoint :: outpoint
  sr_Signature :: bytes
  sr_Elk :: bytes
  sr_N2ElkPoint :: bytes
  sr_HTLCSigs :: "bytes list"
  sr_N2HTLCBase :: bytes

definition NewSigRev :: "u32 \<Rightarrow> outpoint \<Rightarrow> bytes \<Rightarrow> bytes \<Rightarrow> bytes \<Rightarrow> bytes list \<Rightarrow> bytes \<Rightarrow> sig_rev_msg" where
  "NewSigRev peerid outpoint signature elk n2ElkPoint hTLCSigs n2HTLCBase =
     \<lparr>sr_PeerIdx = peerid, sr_Outpoint = outpoint, sr_Signature = signature, sr_Elk = elk,
      sr_N2ElkPoint = n2ElkPoint, sr_HTLCSigs = hTLCSigs, sr_N2HTLCBase = n2HTLCBase\<rparr>"

definition NewSigRevFromBytes :: "bytes \<Rightarrow> u32 \<Rightarrow> lit_error + sig_rev_msg" where
  "NewSigRevFromBytes b peerid =
     (if length b < 166 then Inl (TooShort (length b)) else
      bind_res (strip_type b) (\<lambda>buf.
      let (op, buf) = next_arr 36 buf; (signature, buf) = next_arr 64 buf; (elk, buf) = buf_next 32 buf in
      bind_res (NewHash elk) (\<lambda>elk.
      let (n2ElkPoint, buf) = next_arr 33 buf; (sigs, buf) = read_sigs ((length buf - 33) div 64) buf;
          (n2HTLCBase, buf) = next_arr 33 buf in
      Inr \<lparr>sr_PeerIdx = peerid, sr_Outpoint = OutPointFromBytes op, sr_Signature = signature,
        sr_Elk = elk, sr_N2ElkPoint = n2ElkPoint, sr_HTLCSigs = sigs, sr_N2HTLCBase = n2HTLCBase\<rparr>)))"

definition SigRevMsg_Bytes :: "sig_rev_msg \<Rightarrow> bytes" where
  "SigRevMsg_Bytes m =
     0x31 # OutPointToBytes (sr_Outpoint m) @ sr_Signature m @ sr_Elk m @ sr_N2ElkPoint m @
       concat (sr_HTLCSigs m) @ sr_N2HTLCBase m"

definition wf_sig_rev_msg :: "sig_rev_msg \<Rightarrow> bool" where
  "wf_sig_rev_msg m \<longleftrightarrow> wf_outpoint (sr_Outpoint m) \<and>
     length (sr_Signature m) = 64 \<and> length (sr_Elk m) = 32 \<and>
     length (sr_N2ElkPoint m) = 33 \<and> all_len 64 (sr_HTLCSigs m) \<and>
     length (sr_N2HTLCBase m) = 33"

interpretation sig_rev_msg_codec:
  msg_codec_total "0x31" "\<lambda>m. Inr (SigRevMsg_Bytes m)" NewSigRevFromBytes sr_PeerIdx wf_sig_rev_msg
  by unfold_locales
    (simp add: NewSigRevFromBytes_def SigRevMsg_Bytes_def wf_sig_rev_msg_def buf_simps,
     auto simp: NewSigRevFromBytes_def wf_sig_rev_msg_def msg_read_simps split: if_splits)

subsection \<open>\<open>GapSigRevMsg\<close>\<close>

record gap_sig_rev_msg =
  gs_PeerIdx :: u32
  gs_Outpoint :: outpoint
  gs_Signature :: bytes
  gs_Elk :: bytes
  gs_N2ElkPoint :: bytes
  gs_N2HTLCBase :: bytes
  gs_HTLCSigs :: "bytes list"

definition NewGapSigRev :: "u32 \<Rightarrow> outpoint \<Rightarrow> bytes \<Rightarrow> bytes \<Rightarrow> bytes \<Rightarrow> bytes list \<Rightarrow> bytes \<Rightarrow> gap_sig_rev_msg" where
  "NewGapSigRev peerId outpoint signature elk n2ElkPoint hTLCSigs n2HTLCBase =
     \<lparr>gs_PeerIdx = peerId, gs_Outpoint = outpoint, gs_Signature = signature, gs_Elk = elk,
      gs_N2ElkPoint = n2ElkPoint, gs_N2HTLCBase = n2HTLCBase, gs_HTLCSigs = hTLCSigs\<rparr>"

definition NewGapSigRevFromBytes :: "bytes \<Rightarrow> u32 \<Rightarrow> lit_error + gap_sig_rev_msg" where
  "NewGapSigRevFromBytes b peerId =
     (if length b < 166 then Inl (TooShort (length b)) else
      bind_res (strip_type b) (\<lambda>buf.
      let (op, buf) = next_arr 36 buf; (signature, buf) = next_arr 64 buf; (elk, buf) = buf_next 32 buf in
      bind_res (NewHash elk) (\<lambda>elk.
      let (n2ElkPoint, buf) = next_arr 33 buf; (n2HTLCBase, buf) = next_arr 33 buf;
          (sigs, buf) = read_sigs (length buf div 64) buf in
      Inr \<lparr>gs_PeerIdx = peerId, gs_Outpoint = OutPointFromBytes op, gs_Signature = signature,
        gs_Elk = elk, gs_N2ElkPoint = n2ElkPoint, gs_N2HTLCBase = n2HTLCBase, gs_HTLCSigs = sigs\<rparr>)))"

definition GapSigRevMsg_Bytes :: "gap_sig_rev_msg \<Rightarrow> bytes" where
  "GapSigRevMsg_Bytes m =
     0x32 # OutPointToBytes (gs_Outpoint m) @ gs_Signature m @ gs_Elk m @ gs_N2ElkPoint m @
       gs_N2HTLCBase m @ concat (gs_HTLCSigs m)"

definition wf_gap_sig_rev_msg :: "gap_sig_rev_msg \<Rightarrow> bool" where
  "wf_gap_sig_rev_msg m \<longleftrightarrow> wf_outpoint (gs_Outpoint m) \<and>
     length (gs_Signature m) = 64 \<and> length (gs_Elk m) = 32 \<and>
     length (gs_N2ElkPoint m) = 33 \<and> length (gs_N2HTLCBase m) = 33 \<and>
     all_len 64 (gs_HTLCSigs m)"

interpretation gap_sig_rev_msg_codec:
  msg_codec_total "0x32" "\<lambda>m. Inr (GapSigRevMsg_Bytes m)" NewGapSigRevFromBytes gs_PeerIdx wf_gap_sig_rev_msg
  by unfold_locales
    (simp add: NewGapSigRevFromBytes_def GapSigRevMsg_Bytes_def wf_gap_sig_rev_msg_def buf_simps,
     auto simp: NewGapSigRevFromBytes_def wf_gap_sig_rev_msg_def msg_read_simps split: if_splits)

subsection \<open>\<open>RevMsg\<close>\<close>

record rev_msg =
  rv_PeerIdx :: u32
  rv_Outpoint :: outpoint
  rv_Elk :: bytes
  rv_N2ElkPoint :: bytes
  rv_N2HTLCBase :: bytes

definition NewRevMsg :: "u32 \<Rightarrow> outpoint \<Rightarrow> bytes \<Rightarrow> bytes \<Rightarrow> bytes \<Rightarrow> rev_msg" where
  "NewRevMsg peerId outpoint elk n2ElkPoint n2HTLCBase =
     \<lparr>rv_PeerIdx = peerId, rv_Outpoint = outpoint, rv_Elk = elk, rv_N2ElkPoint = n2ElkPoint,
      rv_N2HTLCBase = n2HTLCBase\<rparr>"

definition NewRevMsgFromBytes :: "bytes \<Rightarrow> u32 \<Rightarrow> lit_error + rev_msg" where
  "NewRevMsgFromBytes b peerId =
     (if length b < 102 then Inl (TooShort (length b)) else
      bind_res (strip_type b) (\<lambda>buf.
      let (op, buf) = next_arr 36 buf; (elk, buf) = buf_next 32 buf in
      bind_res (NewHash elk) (\<lambda>elk.
      let (n2ElkPoint, buf) = next_arr 33 buf; (n2HTLCBase, buf) = next_arr 33 buf in
      Inr \<lparr>rv_PeerIdx = peerId, rv_Outpoint = OutPointFromBytes op, rv_Elk = elk,
        rv_N2ElkPoint = n2ElkPoint, rv_N2HTLCBase = n2HTLCBase\<rparr>)))"

definition RevMsg_Bytes :: "rev_msg \<Rightarrow> bytes" where
  "RevMsg_Bytes m =
     0x33 # OutPointToBytes (rv_Outpoint m) @ rv_Elk m @ rv_N2ElkPoint m @ rv_N2HTLCBase m"

definition wf_rev_msg :: "rev_msg \<Rightarrow> bool" where
  "wf_rev_msg m \<longleftrightarrow> wf_outpoint (rv_Outpoint m) \<and> length (rv_Elk m) = 32 \<and>
     length (rv_N2ElkPoint m) = 33 \<and> length (rv_N2HTLCBase m) = 33"

interpretation rev_msg_codec:
  msg_codec_total "0x33" "\<lambda>m. Inr (RevMsg_Bytes m)" NewRevMsgFromBytes rv_PeerIdx wf_rev_msg
  by unfold_locales
    (simp add: NewRevMsgFromBytes_def RevMsg_Bytes_def wf_rev_msg_def buf_simps,
     auto simp: NewRevMsgFromBytes_def wf_rev_msg_def msg_read_simps split: if_splits)

subsection \<open>\<open>HashSigMsg\<close>\<close>

record hash_sig_msg =
  hs_PeerIdx :: u32
  hs_Outpoint :: outpoint
  hs_Amt :: u64
  hs_Locktime :: u32
  hs_RHash :: bytes
  hs_Data :: bytes
  hs_CommitmentSignature :: bytes
  hs_HTLCSigs :: "bytes list"

definition NewHashSigMsg :: "u32 \<Rightarrow> outpoint \<Rightarrow> u64 \<Rightarrow> u32 \<Rightarrow> bytes \<Rightarrow> bytes \<Rightarrow> bytes list \<Rightarrow> bytes \<Rightarrow> hash_sig_msg" where
  "NewHashSigMsg peerid outpoint amt locktime rHash commitmentSignature hTLCSigs data =
     \<lparr>hs_PeerIdx = peerid, hs_Outpoint = outpoint, hs_Amt = amt, hs_Locktime = locktime,
      hs_RHash = rHash, hs_Data = data, hs_CommitmentSignature = commitmentSignature,
      hs_HTLCSigs = hTLCSigs\<rparr>"

definition NewHashSigMsgFromBytes :: "bytes \<Rightarrow> u32 \<Rightarrow> lit_error + hash_sig_msg" where
  "NewHashSigMsgFromBytes b peerid =
     (if length b < 169 then Inl (TooShort (length b)) else
      bind_res (strip_type b) (\<lambda>buf.
      let (op, buf) = next_arr 36 buf; (amt, buf) = buf_next 8 buf; (locktime, buf) = buf_next 4 buf;
          (rHash, buf) = next_arr 32 buf; (data, buf) = next_arr 32 buf;
          (commitmentSignature, buf) = next_arr 64 buf; (sigs, buf) = read_sigs (length buf div 64) buf in
      Inr \<lparr>hs_PeerIdx = peerid, hs_Outpoint = OutPointFromBytes op, hs_Amt = BtI64 amt,
        hs_Locktime = BtU32 locktime, hs_RHash = rHash, hs_Data = data,
        hs_CommitmentSignature = commitmentSignature, hs_HTLCSigs = sigs\<rparr>))"

definition HashSigMsg_Bytes :: "hash_sig_msg \<Rightarrow> bytes" where
  "HashSigMsg_Bytes m =
     0x34 # OutPointToBytes (hs_Outpoint m) @ I64tB (hs_Amt m) @ U32tB (hs_Locktime m) @ hs_RHash m @
       hs_Data m @ hs_CommitmentSignature m @ concat (hs_HTLCSigs m)"

definition wf_hash_sig_msg :: "hash_sig_msg \<Rightarrow> bool" where
  "wf_hash_sig_msg m \<longleftrightarrow> wf_outpoint (hs_Outpoint m) \<and>
     length (hs_RHash m) = 32 \<and> length (hs_Data m) = 32 \<and>
     length (hs_CommitmentSignature m) = 64 \<and> all_len 64 (hs_HTLCSigs m)"

interpretation hash_sig_msg_codec:
  msg_codec_total "0x34" "\<lambda>m. Inr (HashSigMsg_Bytes m)" NewHashSigMsgFromBytes hs_PeerIdx wf_hash_sig_msg
  by unfold_locales
    (simp add: NewHashSigMsgFromBytes_def HashSigMsg_Bytes_def wf_hash_sig_msg_def buf_simps,
     auto simp: NewHashSigMsgFromBytes_def wf_hash_sig_msg_def msg_read_simps split: if_splits)

subsection \<open>\<open>PreimageSigMsg\<close>\<close>

record preimage_sig_msg =
  ps_PeerIdx :: u32
  ps_Outpoint :: outpoint
  ps_Idx :: u32
  ps_R :: bytes
  ps_Data :: bytes
  ps_CommitmentSignature :: bytes
  ps_HTLCSigs :: "bytes list"

definition NewPreimageSigMsg :: "u32 \<Rightarrow> outpoint \<Rightarrow> u32 \<Rightarrow> bytes \<Rightarrow> bytes \<Rightarrow> bytes list \<Rightarrow> bytes \<Rightarrow> preimage_sig_msg" where
  "NewPreimageSigMsg peerid outpoint idx r commitmentSignature hTLCSigs data =
     \<lparr>ps_PeerIdx = peerid, ps_Outpoint = outpoint, ps_Idx = idx, ps_R = r, ps_Data = data,
      ps_CommitmentSignature = commitmentSignature, ps_HTLCSigs = hTLCSigs\<rparr>"

definition NewPreimageSigMsgFromBytes :: "bytes \<Rightarrow> u32 \<Rightarrow> lit_error + preimage_sig_msg" where
  "NewPreimageSigMsgFromBytes b peerid =
     (if length b < 152 then Inl (TooShort (length b)) else
      bind_res (strip_type b) (\<lambda>buf.
      let (op, buf) = next_arr 36 buf; (idx, buf) = buf_next 4 buf; (r, buf) = next_arr 16 buf;
          (data, buf) = next_arr 32 buf; (commitmentSignature, buf) = next_arr 64 buf;
          (sigs, buf) = read_sigs (length buf div 64) buf in
      Inr \<lparr>ps_PeerIdx = peerid, ps_Outpoint = OutPointFromBytes op, ps_Idx = BtU32 idx, ps_R = r,
        ps_Data = data, ps_CommitmentSignature = commitmentSignature, ps_HTLCSigs = sigs\<rparr>))"

definition PreimageSigMsg_Bytes :: "preimage_sig_msg \<Rightarrow> bytes" where
  "PreimageSigMsg_Bytes m =
     0x35 # OutPointToBytes (ps_Outpoint m) @ U32tB (ps_Idx m) @ ps_R m @ ps_Data m @
       ps_CommitmentSignature m @ concat (ps_HTLCSigs m)"

definition wf_preimage_sig_msg :: "preimage_sig_msg \<Rightarrow> bool" where
  "wf_preimage_sig_msg m \<longleftrightarrow> wf_outpoint (ps_Outpoint m) \<and>
     length (ps_R m) = 16 \<and> length (ps_Data m) = 32 \<and>
     length (ps_CommitmentSignature m) = 64 \<and> all_len 64 (ps_HTLCSigs m)"

interpretation preimage_sig_msg_codec:
  msg_codec_total "0x35" "\<lambda>m. Inr (PreimageSigMsg_Bytes m)" NewPreimageSigMsgFromBytes ps_PeerIdx wf_preimage_sig_msg
  by unfold_locales
    (simp add: NewPreimageSigMsgFromBytes_def PreimageSigMsg_Bytes_def wf_preimage_sig_msg_def buf_simps,
     auto simp: NewPreimageSigMsgFromBytes_def wf_preimage_sig_msg_def msg_read_simps split: if_splits)

end
