(* ===== verification/MsgTower.thy ===== *)
theory MsgTower
  imports MsgChannel
begin

text \<open>
  The messages a node sends to a watchtower (\<open>lnutil/msglib.go\<close>): the descriptor of a channel, the state
  message, and the request to forget a channel. \<open>LitMsgFromBytes\<close> does not dispatch the last one.
\<close>

section \<open>Watchtower messages\<close>

subsection \<open>\<open>WatchDescMsg\<close>\<close>

record watch_desc_msg =
  wd_PeerIdx :: u32
  wd_CoinType :: u32
  wd_DestPKHScript :: bytes
  wd_Delay :: u16
  wd_Fee :: u64
  wd_CustomerBasePoint :: bytes
  wd_AdversaryBasePoint :: bytes

definition NewWatchDescMsg :: "u32 \<Rightarrow> u32 \<Rightarrow> bytes \<Rightarrow> u16 \<Rightarrow> u64 \<Rightarrow> bytes \<Rightarrow> bytes \<Rightarrow> watch_desc_msg" where
  "NewWatchDescMsg peerIDX coinType destPKHScript delay fee customerBasePoint adversaryBasePoint =
     \<lparr>wd_PeerIdx = peerIDX, wd_CoinType = coinType, wd_DestPKHScript = destPKHScript,
      wd_Delay = delay, wd_Fee = fee, wd_CustomerBasePoint = customerBasePoint,
      wd_AdversaryBasePoint = adversaryBasePoint\<rparr>"

definition NewWatchDescMsgFromBytes :: "bytes \<Rightarrow> u32 \<Rightarrow> lit_error + watch_desc_msg" where
  "NewWatchDescMsgFromBytes b peerIDX =
     (if length b < 97 then Inl (TooShort (length b)) else
      bind_res (strip_type b) (\<lambda>buf.
      let (coinType, buf) = read_be 4 buf; (destPKHScript, buf) = next_arr 20 buf;
          (delay, buf) = read_be 2 buf; (fee, buf) = read_be 8 buf;
          (customerBasePoint, buf) = next_arr 33 buf; (adversaryBasePoint, buf) = next_arr 33 buf in
      Inr \<lparr>wd_PeerIdx = peerIDX, wd_CoinType = of_nat coinType, wd_DestPKHScript = destPKHScript,
        wd_Delay = of_nat delay, wd_Fee = of_nat fee, wd_CustomerBasePoint = customerBasePoint,
        wd_AdversaryBasePoint = adversaryBasePoint\<rparr>))"

definition WatchDescMsg_Bytes :: "watch_desc_msg \<Rightarrow> bytes" where
  "WatchDescMsg_Bytes m =
     0x60 # be32 (wd_CoinType m) @ wd_DestPKHScript m @ be16 (wd_Delay m) @ be64 (wd_Fee m) @
       wd_CustomerBasePoint m @ wd_AdversaryBasePoint m"

definition wf_watch_desc_msg :: "watch_desc_msg \<Rightarrow> bool" where
  "wf_watch_desc_msg m \<longleftrightarrow> length (wd_DestPKHScript m) = 20 \<and>
     length (wd_CustomerBasePoint m) = 33 \<and> length (wd_AdversaryBasePoint m) = 33"

interpretation watch_desc_msg_codec:
  msg_codec_total "0x60" "\<lambda>m. Inr (WatchDescMsg_Bytes m)" NewWatchDescMsgFromBytes wd_PeerIdx wf_watch_desc_msg
  by unfold_locales
    (simp add: NewWatchDescMsgFromBytes_def WatchDescMsg_Bytes_def wf_watch_desc_msg_def buf_simps,
     auto simp: NewWatchDescMsgFromBytes_def wf_watch_desc_msg_def msg_read_simps split: if_splits)

subsection \<open>\<open>WatchStateMsg\<close>\<close>

record watch_state_msg =
  ws_PeerIdx :: u32
  ws_CoinType :: u32
  ws_DestPKH :: bytes
  ws_Elk :: bytes
  ws_ParTxid :: bytes
  ws_Sig :: bytes

definition NewComMsg :: "u32 \<Rightarrow> u32 \<Rightarrow> bytes \<Rightarrow> bytes \<Rightarrow> bytes \<Rightarrow> bytes \<Rightarrow> watch_state_msg" where
  "NewComMsg peerIDX coinType destPKH elk parTxid sig =
     \<lparr>ws_PeerIdx = peerIDX, ws_CoinType = coinType, ws_DestPKH = destPKH, ws_Elk = elk,
      ws_ParTxid = parTxid, ws_Sig = sig\<rparr>"

definition NewWatchStateMsgFromBytes :: "bytes \<Rightarrow> u32 \<Rightarrow> lit_error + watch_state_msg" where
  "NewWatchStateMsgFromBytes b peerIDX =
     (if length b < 137 then Inl (TooShort (length b)) else
      bind_res (strip_type b) (\<lambda>buf.
      let (coinType, buf) = read_be 4 buf; (destPKH, buf) = next_arr 20 buf;
          (parTxid, buf) = next_arr 16 buf; (sig, buf) = next_arr 64 buf; (elk, buf) = next_arr 32 buf in
      Inr \<lparr>ws_PeerIdx = peerIDX, ws_CoinType = of_nat coinType, ws_DestPKH = destPKH,
        ws_Elk = elk, ws_ParTxid = parTxid, ws_Sig = sig\<rparr>))"

definition WatchStateMsg_Bytes :: "watch_state_msg \<Rightarrow> bytes" where
  "WatchStateMsg_Bytes m =
     0x61 # be32 (ws_CoinType m) @ ws_DestPKH m @ ws_ParTxid m @ ws_Sig m @ ws_Elk m"

definition wf_watch_state_msg :: "watch_state_msg \<Rightarrow> bool" where
  "wf_watch_state_msg m \<longleftrightarrow> length (ws_DestPKH m) = 20 \<and>
     length (ws_Elk m) = 32 \<and> length (ws_ParTxid m) = 16 \<and> length (ws_Sig m) = 64"

interpretation watch_state_msg_codec:
  msg_codec_total "0x61" "\<lambda>m. Inr (WatchStateMsg_Bytes m)" NewWatchStateMsgFromBytes ws_PeerIdx wf_watch_state_msg
  by unfold_locales
    (simp add: NewWatchStateMsgFromBytes_def WatchStateMsg_Bytes_def wf_watch_state_msg_def buf_simps,
     auto simp: NewWatchStateMsgFromBytes_def wf_watch_state_msg_def msg_read_simps split: if_splits)

subsection \<open>\<open>WatchDelMsg\<close>\<close>

record watch_del_msg =
  wl_PeerIdx :: u32
  wl_DestPKH :: bytes
  wl_RevealPK :: bytes

definition NewWatchDelMsgFromBytes :: "bytes \<Rightarrow> u32 \<Rightarrow> lit_error + watch_del_msg" where
  "NewWatchDelMsgFromBytes b peerIDX =
     (if length b < 54 then Inl (TooShort (length b)) else
      bind_res (strip_type b) (\<lambda>buf.
      let (destPKH, buf) = next_arr 20 buf; (revealPK, buf) = next_arr 33 buf in
      Inr \<lparr>wl_PeerIdx = peerIDX, wl_DestPKH = destPKH, wl_RevealPK = revealPK\<rparr>))"

definition WatchDelMsg_Bytes :: "watch_del_msg \<Rightarrow> bytes" where
  "WatchDelMsg_Bytes m =
     0x62 # wl_DestPKH m @ wl_RevealPK m"

definition wf_watch_del_msg :: "watch_del_msg \<Rightarrow> bool" where
  "wf_watch_del_msg m \<longleftrightarrow> length (wl_DestPKH m) = 20 \<and>
     length (wl_RevealPK m) = 33"

interpretation watch_del_msg_codec:
  msg_codec_total "0x62" "\<lambda>m. Inr (WatchDelMsg_Bytes m)" NewWatchDelMsgFromBytes wl_PeerIdx wf_watch_del_msg
  by unfold_locales
    (simp add: NewWatchDelMsgFromBytes_def WatchDelMsg_Bytes_def wf_watch_del_msg_def buf_simps,
     auto simp: NewWatchDelMsgFromBytes_def wf_watch_del_msg_def msg_read_simps split: if_splits)

end
