(* ===== verification/MsgFunding.thy ===== *)
theory MsgFunding
  imports MsgTower Dlc
begin

text \<open>
  The routing advertisement (\<open>LinkMsg\<close> with its exchange rates) and the dual-funding messages of
  \<open>lnutil/msglib.go\<close>.
\<close>

section \<open>Exchange rates and links\<close>

lemma read_be_byte [buf_simps]: "read_be (Suc 0) (x # r) = (unat x, r)"
  by (simp add: read_be_def read_full_one be_val_def)

lemma read_be_err_byte [buf_simps]: "read_be_err (Suc 0) (x # r) = Inr (unat x, r)"
  by (simp add: read_be_err_def read_full_one be_val_def)

lemma unat_len32: "length xs < 2 ^ 32 \<Longrightarrow> unat (of_nat (length xs) :: u32) = length xs"
  by (simp add: unat_of_nat)

lemma unat_u32_less [simp]: "unat (w :: u32) < 4294967296"
  using unsigned_less [of w] by simp

record rate_desc =
  rd_CoinType :: u32
  rd_Rate :: u64
  rd_Reciprocal :: bool

definition NewRateDescFromBytes :: "bytes \<Rightarrow> lit_error + rate_desc" where
  "NewRateDescFromBytes b =
     bind_res (read_be_err 4 b) (\<lambda>(coinType, buf).
     bind_res (read_be_err 8 buf) (\<lambda>(rate, buf).
     bind_res (read_be_err 1 buf) (\<lambda>(reciprocal, buf).
     Inr \<lparr>rd_CoinType = of_nat coinType, rd_Rate = of_nat rate, rd_Reciprocal = (reciprocal \<noteq> 0)\<rparr>)))"

definition RateDesc_Bytes :: "rate_desc \<Rightarrow> bytes" where
  "RateDesc_Bytes rd =
     be32 (rd_CoinType rd) @ be64 (rd_Rate rd) @ [if rd_Reciprocal rd then 1 else 0]"

text \<open>One round of the loop over the rates.\<close>

definition read_rate :: "bytes \<Rightarrow> lit_error + rate_desc \<times> bytes" where
  "read_rate b =
     (let (x, buf) = buf_next 13 b in bind_res (NewRateDescFromBytes x) (\<lambda>rd. Inr (rd, buf)))"

lemma NewRateDescFromBytes_Bytes [buf_simps]: "NewRateDescFromBytes (RateDesc_Bytes rd) = Inr rd"
  by (simp add: NewRateDescFromBytes_def RateDesc_Bytes_def buf_simps)

interpretation rate: item_codec RateDesc_Bytes read_rate "\<lambda>_. True"
proof unfold_locales
  fix rd r
  have "length (RateDesc_Bytes rd) = 13" by (simp add: RateDesc_Bytes_def)
  then show "read_rate (RateDesc_Bytes rd @ r) = Inr (rd, r)" by (simp add: read_rate_def buf_simps)
qed

record link_msg =
  lk_PeerIdx :: u32
  lk_APKH :: bytes
  lk_ACapacity :: u64
  lk_BPKH :: bytes
  lk_CoinType :: u32
  lk_Seq :: u32
  lk_Timestamp :: u64
  lk_Rates :: "rate_desc list"

definition NewLinkMsgFromBytes :: "bytes \<Rightarrow> u32 \<Rightarrow> lit_error + link_msg" where
  "NewLinkMsgFromBytes b peerIDX =
     (if length b < 61 then Inl (TooShort (length b)) else
      bind_res (strip_type b) (\<lambda>buf.
      let (aPKH, buf) = next_arr 20 buf in
      bind_res (read_be_err 8 buf) (\<lambda>(aCapacity, buf).
      let (bPKH, buf) = next_arr 20 buf in
      bind_res (read_be_err 4 buf) (\<lambda>(coinType, buf).
      bind_res (read_be_err 4 buf) (\<lambda>(seq, buf).
      bind_res (read_be_err 4 buf) (\<lambda>(n, buf).
      let nRates = (of_nat n :: u32) in
      bind_res (read_list_err (unat nRates) read_rate buf) (\<lambda>(rates, buf).
      Inr \<lparr>lk_PeerIdx = peerIDX, lk_APKH = aPKH, lk_ACapacity = of_nat aCapacity, lk_BPKH = bPKH,
        lk_CoinType = of_nat coinType, lk_Seq = of_nat seq, lk_Timestamp = 0, lk_Rates = rates\<rparr>)))))))"

text \<open>The timestamp is not part of the printed form.\<close>

definition LinkMsg_Bytes :: "link_msg \<Rightarrow> bytes" where
  "LinkMsg_Bytes m =
     0x70 # lk_APKH m @ be64 (lk_ACapacity m) @ lk_BPKH m @ be32 (lk_CoinType m) @ be32 (lk_Seq m) @
       be32 (of_nat (length (lk_Rates m))) @ concat (map RateDesc_Bytes (lk_Rates m))"

definition wf_link_msg :: "link_msg \<Rightarrow> bool" where
  "wf_link_msg m \<longleftrightarrow> length (lk_APKH m) = 20 \<and> length (lk_BPKH m) = 20 \<and> lk_Timestamp m = 0 \<and>
     length (lk_Rates m) < 2 ^ 32"

interpretation link_msg_codec:
  msg_codec_total "0x70" "\<lambda>m. Inr (LinkMsg_Bytes m)" NewLinkMsgFromBytes lk_PeerIdx wf_link_msg
  by unfold_locales
    (simp add: NewLinkMsgFromBytes_def LinkMsg_Bytes_def wf_link_msg_def buf_simps rate.read_list_enc_exact unat_len32,
     auto simp: NewLinkMsgFromBytes_def wf_link_msg_def msg_read_simps split: if_splits dest!: read_list_err_length)

section \<open>Dual funding\<close>

record fund_input =
  du_Outpoint :: outpoint
  du_Value :: u64

text \<open>
  The loop over the inputs. The array \<open>op\<close> is declared outside of it, so after a short read it still
  holds bytes of the input before.
\<close>

primrec read_fund_inputs :: "nat \<Rightarrow> bytes \<Rightarrow> bytes \<Rightarrow> fund_input list \<times> bytes" where
  "read_fund_inputs 0 op b = ([], b)"
| "read_fund_inputs (Suc n) op b =
     (let (x, b1) = buf_next 36 b; op' = copy_over op x; (v, b2) = read_be 8 b1;
          (xs, b3) = read_fund_inputs n op' b2
      in (\<lparr>du_Outpoint = OutPointFromBytes op', du_Value = of_nat v\<rparr> # xs, b3))"

definition write_fund_input :: "fund_input \<Rightarrow> bytes" where
  "write_fund_input i = OutPointToBytes (du_Outpoint i) @ be64 (du_Value i)"

definition wf_fund_inputs :: "fund_input list \<Rightarrow> bool" where
  "wf_fund_inputs xs \<longleftrightarrow> (\<forall>i \<in> set xs. wf_outpoint (du_Outpoint i)) \<and> 44 * length xs + 144 < 2 ^ 32"

lemma length_write_fund_inputs [simp]: "length (concat (map write_fund_input xs)) = 44 * length xs"
  by (induction xs) (simp_all add: write_fund_input_def)

lemma read_fund_inputs_write:
  "\<forall>i \<in> set xs. wf_outpoint (du_Outpoint i) \<Longrightarrow> n = length xs \<Longrightarrow> length op = 36 \<Longrightarrow>
   read_fund_inputs n op (concat (map write_fund_input xs) @ r) = (xs, r)"
proof (induction xs arbitrary: n op)
  case (Cons x xs)
  let ?op = "OutPointToBytes (du_Outpoint x)"
  have "read_fund_inputs (length xs) ?op (concat (map write_fund_input xs) @ r) = (xs, r)"
    using Cons by simp
  with Cons.prems show ?case by (simp add: write_fund_input_def [of x] buf_simps Let_def)
qed simp

lemma read_fund_inputs_exact:
  "wf_fund_inputs xs \<Longrightarrow>
   read_fund_inputs (length xs) (replicate 36 0) (concat (map write_fund_input xs)) = (xs, [])"
  using read_fund_inputs_write [of xs "length xs" "replicate 36 0" "[]"] by (simp add: wf_fund_inputs_def)

lemma length_read_fund_inputs [simp]: "length (fst (read_fund_inputs n op b)) = n"
  by (induction n arbitrary: op b) (simp_all add: Let_def case_prod_unfold)

lemma fund_count: "wf_fund_inputs xs \<Longrightarrow> length xs mod 4294967296 = length xs"
  by (simp add: wf_fund_inputs_def)

subsection \<open>\<open>DualFundingReqMsg\<close>\<close>

record dual_req_msg =
  fr_PeerIdx :: u32
  fr_CoinType :: u32
  fr_OurAmount :: u64
  fr_TheirAmount :: u64
  fr_OurPub :: bytes
  fr_OurRefundPub :: bytes
  fr_OurHAKDBase :: bytes
  fr_OurChangeAddressPKH :: bytes
  fr_OurInputs :: "fund_input list"

definition NewDualFundingReqMsg ::
  "u32 \<Rightarrow> u32 \<Rightarrow> u64 \<Rightarrow> u64 \<Rightarrow> bytes \<Rightarrow> bytes \<Rightarrow> bytes \<Rightarrow> bytes \<Rightarrow> fund_input list \<Rightarrow> dual_req_msg" where
  "NewDualFundingReqMsg peerIdx cointype ourAmount theirAmount ourPub ourRefundPub ourHAKDBase
     ourChangeAddressPKH ourInputs =
     \<lparr>fr_PeerIdx = peerIdx, fr_CoinType = cointype, fr_OurAmount = ourAmount,
      fr_TheirAmount = theirAmount, fr_OurPub = ourPub, fr_OurRefundPub = ourRefundPub,
      fr_OurHAKDBase = ourHAKDBase, fr_OurChangeAddressPKH = ourChangeAddressPKH,
      fr_OurInputs = ourInputs\<rparr>"

text \<open>
  The expected length is computed in 32 bits and wraps around. (A 32-bit count of 48-byte entries is
  always within what \<open>make\<close> accepts.)
\<close>

definition NewDualFundingReqMsgFromBytes :: "bytes \<Rightarrow> u32 \<Rightarrow> lit_error + dual_req_msg" where
  "NewDualFundingReqMsgFromBytes b peerIdx =
     (if length b < 144 then Inl (TooShort (length b)) else
      bind_res (strip_type b) (\<lambda>buf.
      let (coinType, buf) = read_be 4 buf; (ourAmount, buf) = read_be 8 buf;
          (theirAmount, buf) = read_be 8 buf; (ourPub, buf) = next_arr 33 buf;
          (ourRefundPub, buf) = next_arr 33 buf; (ourHAKDBase, buf) = next_arr 33 buf;
          (ourChangeAddressPKH, buf) = next_arr 20 buf; (n, buf) = read_be 4 buf;
          utxoCount = (of_nat n :: u32); expectedLength = 144 + 44 * utxoCount in
      if of_nat (length b) < expectedLength then Inl (TooShort (length b)) else
      let (inputs, buf) = read_fund_inputs (unat utxoCount) (replicate 36 0) buf in
      Inr \<lparr>fr_PeerIdx = peerIdx, fr_CoinType = of_nat coinType, fr_OurAmount = of_nat ourAmount,
        fr_TheirAmount = of_nat theirAmount, fr_OurPub = ourPub, fr_OurRefundPub = ourRefundPub,
        fr_OurHAKDBase = ourHAKDBase, fr_OurChangeAddressPKH = ourChangeAddressPKH,
        fr_OurInputs = inputs\<rparr>))"

definition DualFundingReqMsg_Bytes :: "dual_req_msg \<Rightarrow> bytes" where
  "DualFundingReqMsg_Bytes m =
     0xA0 # be32 (fr_CoinType m) @ be64 (fr_OurAmount m) @ be64 (fr_TheirAmount m) @ fr_OurPub m @
       fr_OurRefundPub m @ fr_OurHAKDBase m @ fr_OurChangeAddressPKH m @
       be32 (of_nat (length (fr_OurInputs m))) @ concat (map write_fund_input (fr_OurInputs m))"

definition wf_dual_req_msg :: "dual_req_msg \<Rightarrow> bool" where
  "wf_dual_req_msg m \<longleftrightarrow> length (fr_OurPub m) = 33 \<and> length (fr_OurRefundPub m) = 33 \<and>
     length (fr_OurHAKDBase m) = 33 \<and> length (fr_OurChangeAddressPKH m) = 20 \<and>
     wf_fund_inputs (fr_OurInputs m)"

interpretation dual_req_msg_codec:
  msg_codec "0xA0" "\<lambda>m. Inr (DualFundingReqMsg_Bytes m)" NewDualFundingReqMsgFromBytes fr_PeerIdx wf_dual_req_msg
  by unfold_locales
    (simp add: NewDualFundingReqMsgFromBytes_def DualFundingReqMsg_Bytes_def wf_dual_req_msg_def buf_simps
      fund_count unat_of_nat read_fund_inputs_exact Let_def)

subsection \<open>\<open>DualFundingDeclMsg\<close>\<close>

record dual_decl_msg =
  fd_PeerIdx :: u32
  fd_Reason :: byte

definition NewDualFundingDeclMsg :: "u32 \<Rightarrow> byte \<Rightarrow> dual_decl_msg" where
  "NewDualFundingDeclMsg peerIdx reason = \<lparr>fd_PeerIdx = peerIdx, fd_Reason = reason\<rparr>"

definition NewDualFundingDeclMsgFromBytes :: "bytes \<Rightarrow> u32 \<Rightarrow> lit_error + dual_decl_msg" where
  "NewDualFundingDeclMsgFromBytes b peerIdx =
     (if length b < 2 then Inl (TooShort (length b)) else
      bind_res (strip_type b) (\<lambda>buf.
      let (reason, buf) = read_be 1 buf in
      Inr \<lparr>fd_PeerIdx = peerIdx, fd_Reason = of_nat reason\<rparr>))"

definition DualFundingDeclMsg_Bytes :: "dual_decl_msg \<Rightarrow> bytes" where
  "DualFundingDeclMsg_Bytes m = [0xA2, fd_Reason m]"

definition wf_dual_decl_msg :: "dual_decl_msg \<Rightarrow> bool" where
  "wf_dual_decl_msg m \<longleftrightarrow> True"

interpretation dual_decl_msg_codec:
  msg_codec_total "0xA2" "\<lambda>m. Inr (DualFundingDeclMsg_Bytes m)" NewDualFundingDeclMsgFromBytes fd_PeerIdx wf_dual_decl_msg
  by unfold_locales
    (simp add: NewDualFundingDeclMsgFromBytes_def DualFundingDeclMsg_Bytes_def wf_dual_decl_msg_def buf_simps,
     auto simp: NewDualFundingDeclMsgFromBytes_def wf_dual_decl_msg_def msg_read_simps split: if_splits)

subsection \<open>\<open>DualFundingAcceptMsg\<close>\<close>

record dual_accept_msg =
  fa_PeerIdx :: u32
  fa_CoinType :: u32
  fa_OurPub :: bytes
  fa_OurRefundPub :: bytes
  fa_OurHAKDBase :: bytes
  fa_OurChangeAddressPKH :: bytes
  fa_OurNextHTLCBase :: bytes
  fa_OurN2HTLCBase :: bytes
  fa_OurInputs :: "fund_input list"

definition NewDualFundingAcceptMsg ::
  "u32 \<Rightarrow> u32 \<Rightarrow> bytes \<Rightarrow> bytes \<Rightarrow> bytes \<Rightarrow> bytes \<Rightarrow> fund_input list \<Rightarrow> bytes \<Rightarrow> bytes \<Rightarrow> dual_accept_msg" where
  "NewDualFundingAcceptMsg peerIdx coinType ourPub ourRefundPub ourHAKDBase ourChangeAddress ourInputs
     ourNextHTLCBase ourN2HTLCBase =
     \<lparr>fa_PeerIdx = peerIdx, fa_CoinType = coinType, fa_OurPub = ourPub, fa_OurRefundPub = ourRefundPub,
      fa_OurHAKDBase = ourHAKDBase, fa_OurChangeAddressPKH = ourChangeAddress,
      fa_OurNextHTLCBase = ourNextHTLCBase, fa_OurN2HTLCBase = ourN2HTLCBase, fa_OurInputs = ourInputs\<rparr>"

text \<open>The expected length counts 29 bytes for the fixed part, which is 194 bytes long.\<close>

definition NewDualFundingAcceptMsgFromBytes :: "bytes \<Rightarrow> u32 \<Rightarrow> lit_error + dual_accept_msg" where
  "NewDualFundingAcceptMsgFromBytes b peerIdx =
     (if length b < 29 then Inl (TooShort (length b)) else
      bind_res (strip_type b) (\<lambda>buf.
      let (coinType, buf) = read_be 4 buf; (ourPub, buf) = next_arr 33 buf;
          (ourRefundPub, buf) = next_arr 33 buf; (ourHAKDBase, buf) = next_arr 33 buf;
          (ourChangeAddressPKH, buf) = next_arr 20 buf; (ourNextHTLCBase, buf) = next_arr 33 buf;
          (ourN2HTLCBase, buf) = next_arr 33 buf; (n, buf) = read_be 4 buf;
          utxoCount = (of_nat n :: u32); expectedLength = 29 + 44 * utxoCount in
      if of_nat (length b) < expectedLength then Inl (TooShort (length b)) else
      let (inputs, buf) = read_fund_inputs (unat utxoCount) (replicate 36 0) buf in
      Inr \<lparr>fa_PeerIdx = peerIdx, fa_CoinType = of_nat coinType, fa_OurPub = ourPub,
        fa_OurRefundPub = ourRefundPub, fa_OurHAKDBase = ourHAKDBase,
        fa_OurChangeAddressPKH = ourChangeAddressPKH, fa_OurNextHTLCBase = ourNextHTLCBase,
        fa_OurN2HTLCBase = ourN2HTLCBase, fa_OurInputs = inputs\<rparr>))"

definition DualFundingAcceptMsg_Bytes :: "dual_accept_msg \<Rightarrow> bytes" where
  "DualFundingAcceptMsg_Bytes m =
     0xA1 # be32 (fa_CoinType m) @ fa_OurPub m @ fa_OurRefundPub m @ fa_OurHAKDBase m @
       fa_OurChangeAddressPKH m @ fa_OurNextHTLCBase m @ fa_OurN2HTLCBase m @
       be32 (of_nat (length (fa_OurInputs m))) @ concat (map write_fund_input (fa_OurInputs m))"

definition wf_dual_accept_msg :: "dual_accept_msg \<Rightarrow> bool" where
  "wf_dual_accept_msg m \<longleftrightarrow> length (fa_OurPub m) = 33 \<and> length (fa_OurRefundPub m) = 33 \<and>
     length (fa_OurHAKDBase m) = 33 \<and> length (fa_OurChangeAddressPKH m) = 20 \<and>
     length (fa_OurNextHTLCBase m) = 33 \<and> length (fa_OurN2HTLCBase m) = 33 \<and>
     wf_fund_inputs (fa_OurInputs m) \<and> 44 * length (fa_OurInputs m) + 194 < 2 ^ 32"

lemma accept_length_ok:
  assumes "44 * n + 194 < 2 ^ 32"
  shows "\<not> (of_nat (194 + 44 * n) :: u32) < 29 + 44 * of_nat n"
proof -
  have "(29 + 44 * of_nat n :: u32) = of_nat (29 + 44 * n)" by simp
  then have "unat (29 + 44 * of_nat n :: u32) = 29 + 44 * n"
    using assms by (simp only: unat_of_nat) simp
  moreover have "unat (of_nat (194 + 44 * n) :: u32) = 194 + 44 * n"
    using assms by (simp only: unat_of_nat) simp
  ultimately show ?thesis by (simp only: word_less_nat_alt)
qed

interpretation dual_accept_msg_codec:
  msg_codec "0xA1" "\<lambda>m. Inr (DualFundingAcceptMsg_Bytes m)" NewDualFundingAcceptMsgFromBytes fa_PeerIdx
    wf_dual_accept_msg
proof unfold_locales
  fix m :: dual_accept_msg
  assume wf: "wf_dual_accept_msg m"
  then have "\<not> (of_nat (194 + 44 * length (fa_OurInputs m)) :: u32) < 29 + 44 * of_nat (length (fa_OurInputs m))"
    by (intro accept_length_ok) (simp add: wf_dual_accept_msg_def)
  with wf show "\<exists>r. Inr (DualFundingAcceptMsg_Bytes m) = Inr (0xA1 # r) \<and>
      NewDualFundingAcceptMsgFromBytes (0xA1 # r) (fa_PeerIdx m) = Inr m"
    by (simp add: NewDualFundingAcceptMsgFromBytes_def DualFundingAcceptMsg_Bytes_def
        wf_dual_accept_msg_def buf_simps fund_count unat_of_nat read_fund_inputs_exact Let_def)
qed

subsection \<open>\<open>DualFundingChanAckMsg\<close>\<close>

record dual_chan_ack_msg =
  fc_PeerIdx :: u32
  fc_Outpoint :: outpoint
  fc_ElkZero :: bytes
  fc_ElkOne :: bytes
  fc_ElkTwo :: bytes
  fc_Signature :: bytes
  fc_SignedFundingTx :: funding_tx

definition NewDualFundingChanAckMsg ::
  "u32 \<Rightarrow> outpoint \<Rightarrow> bytes \<Rightarrow> bytes \<Rightarrow> bytes \<Rightarrow> bytes \<Rightarrow> msg_tx \<Rightarrow> dual_chan_ack_msg" where
  "NewDualFundingChanAckMsg peerid op elkZero elkOne elkTwo sig signedFundingTx =
     \<lparr>fc_PeerIdx = peerid, fc_Outpoint = op, fc_ElkZero = elkZero, fc_ElkOne = elkOne,
      fc_ElkTwo = elkTwo, fc_Signature = sig, fc_SignedFundingTx = FullTx signedFundingTx\<rparr>"

definition NewDualFundingChanAckMsgFromBytes :: "bytes \<Rightarrow> u32 \<Rightarrow> lit_error + dual_chan_ack_msg" where
  "NewDualFundingChanAckMsgFromBytes b peerid =
     (if length b < 208 then Inl (TooShort (length b)) else
      bind_res (strip_type b) (\<lambda>buf.
      let (op, buf) = next_arr 36 buf; (elkZero, buf) = next_arr 33 buf;
          (elkOne, buf) = next_arr 33 buf; (elkTwo, buf) = next_arr 33 buf;
          (signature, buf) = next_arr 64 buf; (n, buf) = read_be 8 buf;
          txLen = (of_nat n :: u64); expectedLength = 208 + txLen in
      if of_nat (length b) < expectedLength then Inl (TooShort (length b)) else
      Inr \<lparr>fc_PeerIdx = peerid, fc_Outpoint = OutPointFromBytes op, fc_ElkZero = elkZero,
        fc_ElkOne = elkOne, fc_ElkTwo = elkTwo, fc_Signature = signature,
        fc_SignedFundingTx = read_funding_tx buf\<rparr>))"

definition DualFundingChanAckMsg_Bytes :: "dual_chan_ack_msg \<Rightarrow> lit_error + bytes" where
  "DualFundingChanAckMsg_Bytes m =
     (case fc_SignedFundingTx m of
        PartialTx e \<Rightarrow> Inl e
      | FullTx tx \<Rightarrow> Inr (0xA3 # OutPointToBytes (fc_Outpoint m) @ fc_ElkZero m @ fc_ElkOne m @ fc_ElkTwo m @
          fc_Signature m @ be64 (of_nat (SerializeSize tx)) @ Serialize tx))"

definition wf_dual_chan_ack_msg :: "dual_chan_ack_msg \<Rightarrow> bool" where
  "wf_dual_chan_ack_msg m \<longleftrightarrow> wf_outpoint (fc_Outpoint m) \<and> length (fc_ElkZero m) = 33 \<and>
     length (fc_ElkOne m) = 33 \<and> length (fc_ElkTwo m) = 33 \<and> length (fc_Signature m) = 64 \<and>
     wf_funding_tx (fc_SignedFundingTx m)"

interpretation dual_chan_ack_msg_codec:
  msg_codec "0xA3" DualFundingChanAckMsg_Bytes NewDualFundingChanAckMsgFromBytes fc_PeerIdx wf_dual_chan_ack_msg
proof unfold_locales
  fix m :: dual_chan_ack_msg
  assume wf: "wf_dual_chan_ack_msg m"
  then obtain tx where tx: "fc_SignedFundingTx m = FullTx tx" "wf_tx tx"
    by (auto simp: wf_dual_chan_ack_msg_def elim: wf_funding_txE)
  with wf show "\<exists>r. DualFundingChanAckMsg_Bytes m = Inr (0xA3 # r) \<and>
      NewDualFundingChanAckMsgFromBytes (0xA3 # r) (fc_PeerIdx m) = Inr m"
    by (simp add: NewDualFundingChanAckMsgFromBytes_def DualFundingChanAckMsg_Bytes_def
        wf_dual_chan_ack_msg_def buf_simps length_Serialize)
qed

end
