(* ===== verification/MsgRpc.thy ===== *)
theory MsgRpc
  imports MsgFunding
begin

text \<open>
  The multihop payment messages and the remote-control messages of \<open>lnutil/msglib.go\<close>. None of these
  parsers checks a length first; \<open>strip_type\<close> carries the panic of \<open>b[1:]\<close> on an empty slice.
\<close>

section \<open>Multihop payments\<close>

record pay_req_msg =
  mq_PeerIdx :: u32
  mq_Cointype :: u32

definition NewMultihopPaymentRequestMsg :: "u32 \<Rightarrow> u32 \<Rightarrow> pay_req_msg" where
  "NewMultihopPaymentRequestMsg peerIdx cointype = \<lparr>mq_PeerIdx = peerIdx, mq_Cointype = cointype\<rparr>"

definition NewMultihopPaymentRequestMsgFromBytes :: "bytes \<Rightarrow> u32 \<Rightarrow> lit_error + pay_req_msg" where
  "NewMultihopPaymentRequestMsgFromBytes b peerIdx =
     bind_res (strip_type b) (\<lambda>buf.
     bind_res (read_be_err 4 buf) (\<lambda>(cointype, buf).
     Inr \<lparr>mq_PeerIdx = peerIdx, mq_Cointype = of_nat cointype\<rparr>))"

definition MultihopPaymentRequestMsg_Bytes :: "pay_req_msg \<Rightarrow> bytes" where
  "MultihopPaymentRequestMsg_Bytes m = 0x75 # be32 (mq_Cointype m)"

definition wf_pay_req_msg :: "pay_req_msg \<Rightarrow> bool" where
  "wf_pay_req_msg m \<longleftrightarrow> True"

interpretation pay_req_msg_codec:
  msg_codec_total "0x75" "\<lambda>m. Inr (MultihopPaymentRequestMsg_Bytes m)"
    NewMultihopPaymentRequestMsgFromBytes mq_PeerIdx wf_pay_req_msg
  by unfold_locales
    (simp add: NewMultihopPaymentRequestMsgFromBytes_def MultihopPaymentRequestMsg_Bytes_def
      wf_pay_req_msg_def buf_simps,
     auto simp: NewMultihopPaymentRequestMsgFromBytes_def wf_pay_req_msg_def msg_read_simps)

record pay_ack_msg =
  ma_PeerIdx :: u32
  ma_HHash :: bytes

definition NewMultihopPaymentAckMsg :: "u32 \<Rightarrow> bytes \<Rightarrow> pay_ack_msg" where
  "NewMultihopPaymentAckMsg peerIdx hHash = \<lparr>ma_PeerIdx = peerIdx, ma_HHash = hHash\<rparr>"

definition NewMultihopPaymentAckMsgFromBytes :: "bytes \<Rightarrow> u32 \<Rightarrow> lit_error + pay_ack_msg" where
  "NewMultihopPaymentAckMsgFromBytes b peerIdx =
     bind_res (strip_type b) (\<lambda>buf.
     let (hHash, buf) = next_arr 32 buf in Inr \<lparr>ma_PeerIdx = peerIdx, ma_HHash = hHash\<rparr>)"

definition MultihopPaymentAckMsg_Bytes :: "pay_ack_msg \<Rightarrow> bytes" where
  "MultihopPaymentAckMsg_Bytes m = 0x76 # ma_HHash m"

definition wf_pay_ack_msg :: "pay_ack_msg \<Rightarrow> bool" where
  "wf_pay_ack_msg m \<longleftrightarrow> length (ma_HHash m) = 32"

interpretation pay_ack_msg_codec:
  msg_codec_total "0x76" "\<lambda>m. Inr (MultihopPaymentAckMsg_Bytes m)" NewMultihopPaymentAckMsgFromBytes
    ma_PeerIdx wf_pay_ack_msg
  by unfold_locales
    (simp add: NewMultihopPaymentAckMsgFromBytes_def MultihopPaymentAckMsg_Bytes_def wf_pay_ack_msg_def buf_simps,
     auto simp: NewMultihopPaymentAckMsgFromBytes_def wf_pay_ack_msg_def msg_read_simps)

subsection \<open>Routes\<close>

record route_hop =
  rh_Node :: bytes
  rh_CoinType :: u32

definition RouteHop_Bytes :: "route_hop \<Rightarrow> bytes" where
  "RouteHop_Bytes rh = rh_Node rh @ be32 (rh_CoinType rh)"

definition NewRouteHopFromBytes :: "bytes \<Rightarrow> lit_error + route_hop" where
  "NewRouteHopFromBytes b =
     (if length b < 24 then Inl (TooShort (length b)) else
      let (node, buf) = next_arr 20 b in
      bind_res (read_be_err 4 buf) (\<lambda>(coinType, buf).
      Inr \<lparr>rh_Node = node, rh_CoinType = of_nat coinType\<rparr>))"

definition wf_route_hop :: "route_hop \<Rightarrow> bool" where
  "wf_route_hop rh \<longleftrightarrow> length (rh_Node rh) = 20"

text \<open>One round of the loop over the hops.\<close>

definition read_hop :: "bytes \<Rightarrow> lit_error + route_hop \<times> bytes" where
  "read_hop b = (let (x, buf) = buf_next 24 b in bind_res (NewRouteHopFromBytes x) (\<lambda>rh. Inr (rh, buf)))"

lemma NewRouteHopFromBytes_Bytes: "wf_route_hop rh \<Longrightarrow> NewRouteHopFromBytes (RouteHop_Bytes rh) = Inr rh"
  by (simp add: NewRouteHopFromBytes_def RouteHop_Bytes_def wf_route_hop_def buf_simps)

interpretation hop: item_codec RouteHop_Bytes read_hop wf_route_hop
proof unfold_locales
  fix rh r
  assume wf: "wf_route_hop rh"
  then have "length (RouteHop_Bytes rh) = 24" by (simp add: RouteHop_Bytes_def wf_route_hop_def)
  with wf show "read_hop (RouteHop_Bytes rh @ r) = Inr (rh, r)"
    by (simp add: read_hop_def buf_simps NewRouteHopFromBytes_Bytes)
qed

lemma read_hops_wf:
  "read_list_err n read_hop b = Inr (xs, r) \<Longrightarrow> length xs = n \<and> (\<forall>h \<in> set xs. wf_route_hop h)"
  by (induction n arbitrary: b xs)
    (auto simp: msg_read_simps wf_route_hop_def read_hop_def NewRouteHopFromBytes_def split: if_splits)

record pay_setup_msg =
  mp_PeerIdx :: u32
  mp_HHash :: bytes
  mp_NodeRoute :: "route_hop list"
  mp_Data :: bytes

definition NewMultihopPaymentSetupMsg :: "u32 \<Rightarrow> bytes \<Rightarrow> route_hop list \<Rightarrow> bytes \<Rightarrow> pay_setup_msg" where
  "NewMultihopPaymentSetupMsg peerIdx hHash nodeRoute data =
     \<lparr>mp_PeerIdx = peerIdx, mp_HHash = hHash, mp_NodeRoute = nodeRoute, mp_Data = data\<rparr>"

definition NewMultihopPaymentSetupMsgFromBytes :: "bytes \<Rightarrow> u32 \<Rightarrow> lit_error + pay_setup_msg" where
  "NewMultihopPaymentSetupMsgFromBytes b peerIdx =
     bind_res (strip_type b) (\<lambda>buf.
     let (hHash, buf) = next_arr 32 buf; (hops, buf) = ReadVarInt_ign buf in
     bind_res (read_list_err (unat hops) read_hop buf) (\<lambda>(route, buf).
     let (data, buf) = next_arr 32 buf in
     Inr \<lparr>mp_PeerIdx = peerIdx, mp_HHash = hHash, mp_NodeRoute = route, mp_Data = data\<rparr>))"

definition MultihopPaymentSetupMsg_Bytes :: "pay_setup_msg \<Rightarrow> bytes" where
  "MultihopPaymentSetupMsg_Bytes m =
     0x77 # mp_HHash m @ WriteVarInt (len64 (mp_NodeRoute m)) @
       concat (map RouteHop_Bytes (mp_NodeRoute m)) @ mp_Data m"

definition wf_pay_setup_msg :: "pay_setup_msg \<Rightarrow> bool" where
  "wf_pay_setup_msg m \<longleftrightarrow> length (mp_HHash m) = 32 \<and> length (mp_Data m) = 32 \<and>
     length (mp_NodeRoute m) < 2 ^ 64 \<and> (\<forall>h \<in> set (mp_NodeRoute m). wf_route_hop h)"

lemma unat_u64_less [simp]: "unat (w :: u64) < 18446744073709551616"
  using unsigned_less [of w] by simp

interpretation pay_setup_msg_codec:
  msg_codec_total "0x77" "\<lambda>m. Inr (MultihopPaymentSetupMsg_Bytes m)" NewMultihopPaymentSetupMsgFromBytes
    mp_PeerIdx wf_pay_setup_msg
  by unfold_locales
    (simp add: NewMultihopPaymentSetupMsgFromBytes_def MultihopPaymentSetupMsg_Bytes_def
      wf_pay_setup_msg_def buf_simps hop.read_list_enc unat_of_nat,
     auto simp: NewMultihopPaymentSetupMsgFromBytes_def wf_pay_setup_msg_def msg_read_simps dest!: read_hops_wf)

section \<open>Remote control\<close>

text \<open>\<open>buf.Next(int(n))\<close>: a length of 2^63 or more is a negative \<open>int\<close>, and slicing with it panics.\<close>

definition next_int :: "u64 \<Rightarrow> bytes \<Rightarrow> lit_error + bytes \<times> bytes" where
  "next_int n b = (if sint n < 0 then Inl Panic else Inr (buf_next (nat (sint n)) b))"

lemma next_int_len:
  assumes "length x < 2 ^ 63" shows "next_int (len64 x) (x @ r) = Inr (x, r)"
proof -
  have "sint (of_int (int (length x)) :: u64) = int (length x)"
    using assms by (intro sint_of_int64) simp_all
  then have "sint (len64 x) = int (length x)" by (simp del: signed_of_int signed_of_nat)
  then show ?thesis by (simp add: next_int_def buf_simps del: signed_of_nat)
qed

lemma next_int_exact: "length x < 2 ^ 63 \<Longrightarrow> next_int (len64 x) x = Inr (x, [])"
  using next_int_len [of x "[]"] by simp

lemma next_int_bound: "next_int n b = Inr (x, r) \<Longrightarrow> length x < 2 ^ 63"
  using sint64_range(2) [of n]
  by (auto simp: next_int_def buf_next_def nat_less_iff min_def split: if_splits)

record rpc_request_msg =
  rq_PeerIdx :: u32
  rq_PubKey :: bytes
  rq_Method :: bytes
  rq_Idx :: u64
  rq_Args :: bytes
  rq_Sig :: bytes
  rq_DigestType :: byte

definition NewRemoteControlRpcRequestMsgFromBytes :: "bytes \<Rightarrow> u32 \<Rightarrow> lit_error + rpc_request_msg" where
  "NewRemoteControlRpcRequestMsgFromBytes b peerIdx =
     bind_res (strip_type b) (\<lambda>buf.
     let (pubKey, buf) = next_arr 33 buf; (sig, buf) = next_arr 64 buf;
         (digestType, buf) = read_be 1 buf; (idx, buf) = read_be 8 buf;
         (methodLength, buf) = ReadVarInt_ign buf in
     bind_res (next_int methodLength buf) (\<lambda>(meth, buf).
     let (argsLength, buf) = ReadVarInt_ign buf in
     bind_res (next_int argsLength buf) (\<lambda>(args, buf).
     Inr \<lparr>rq_PeerIdx = peerIdx, rq_PubKey = pubKey, rq_Method = meth, rq_Idx = of_nat idx,
       rq_Args = args, rq_Sig = sig, rq_DigestType = of_nat digestType\<rparr>)))"

definition RemoteControlRpcRequestMsg_Bytes :: "rpc_request_msg \<Rightarrow> bytes" where
  "RemoteControlRpcRequestMsg_Bytes m =
     0xB0 # rq_PubKey m @ rq_Sig m @ [rq_DigestType m] @ be64 (rq_Idx m) @
       WriteVarInt (len64 (rq_Method m)) @ rq_Method m @ WriteVarInt (len64 (rq_Args m)) @ rq_Args m"

definition wf_rpc_request_msg :: "rpc_request_msg \<Rightarrow> bool" where
  "wf_rpc_request_msg m \<longleftrightarrow> length (rq_PubKey m) = 33 \<and> length (rq_Sig m) = 64 \<and>
     length (rq_Method m) < 2 ^ 63 \<and> length (rq_Args m) < 2 ^ 63"

interpretation rpc_request_msg_codec:
  msg_codec_total "0xB0" "\<lambda>m. Inr (RemoteControlRpcRequestMsg_Bytes m)"
    NewRemoteControlRpcRequestMsgFromBytes rq_PeerIdx wf_rpc_request_msg
  by unfold_locales
    (simp add: NewRemoteControlRpcRequestMsgFromBytes_def RemoteControlRpcRequestMsg_Bytes_def
      wf_rpc_request_msg_def buf_simps next_int_len next_int_exact,
     auto simp: NewRemoteControlRpcRequestMsgFromBytes_def wf_rpc_request_msg_def msg_read_simps
      dest!: next_int_bound)

record rpc_response_msg =
  rp_PeerIdx :: u32
  rp_Idx :: u64
  rp_Error :: bool
  rp_Result :: bytes

definition NewRemoteControlRpcResponseMsg :: "u32 \<Rightarrow> u64 \<Rightarrow> bool \<Rightarrow> bytes \<Rightarrow> rpc_response_msg" where
  "NewRemoteControlRpcResponseMsg peerIdx msgIdx isError json =
     \<lparr>rp_PeerIdx = peerIdx, rp_Idx = msgIdx, rp_Error = isError, rp_Result = json\<rparr>"

definition NewRemoteControlRpcResponseMsgFromBytes :: "bytes \<Rightarrow> u32 \<Rightarrow> lit_error + rpc_response_msg" where
  "NewRemoteControlRpcResponseMsgFromBytes b peerIdx =
     bind_res (strip_type b) (\<lambda>buf.
     let (idx, buf) = read_be 8 buf; (err, buf) = read_be 1 buf;
         (resultLength, buf) = ReadVarInt_ign buf in
     bind_res (next_int resultLength buf) (\<lambda>(result, buf).
     Inr \<lparr>rp_PeerIdx = peerIdx, rp_Idx = of_nat idx, rp_Error = (err \<noteq> 0), rp_Result = result\<rparr>))"

definition RemoteControlRpcResponseMsg_Bytes :: "rpc_response_msg \<Rightarrow> bytes" where
  "RemoteControlRpcResponseMsg_Bytes m =
     0xB1 # be64 (rp_Idx m) @ [if rp_Error m then 1 else 0] @ WriteVarInt (len64 (rp_Result m)) @ rp_Result m"

definition wf_rpc_response_msg :: "rpc_response_msg \<Rightarrow> bool" where
  "wf_rpc_response_msg m \<longleftrightarrow> length (rp_Result m) < 2 ^ 63"

interpretation rpc_response_msg_codec:
  msg_codec_total "0xB1" "\<lambda>m. Inr (RemoteControlRpcResponseMsg_Bytes m)"
    NewRemoteControlRpcResponseMsgFromBytes rp_PeerIdx wf_rpc_response_msg
  by unfold_locales
    (simp add: NewRemoteControlRpcResponseMsgFromBytes_def RemoteControlRpcResponseMsg_Bytes_def
      wf_rpc_response_msg_def buf_simps next_int_exact,
     auto simp: NewRemoteControlRpcResponseMsgFromBytes_def wf_rpc_response_msg_def msg_read_simps
      dest!: next_int_bound)

end
