(* ===== verification/Channel.thy ===== *)
theory Channel
  imports Elkrem LnScript MsgRpc
begin

text \<open>
  The payment channel of \<open>qln\<close>: the records of \<open>lnchannels.go\<close>, key paths, the elkrem points of
  \<open>elkpoints.go\<close>, and what is stored of a channel and restored from the database (\<open>serdes.go\<close>,
  \<open>lndb.go\<close>). 64-bit and 32-bit signed amounts are integers, wrapped by \<open>i64\<close> and \<open>i32\<close> where the code
  computes with them; indices are words.
\<close>

section \<open>Key paths\<close>

record keygen =
  kg_Depth :: byte
  kg_Step :: "u32 list"
  kg_PrivKey :: bytes

abbreviation hardened :: u32 where "hardened \<equiv> 0x80000000"

definition UseChannelFund :: u32 where "UseChannelFund = 20 OR hardened"
definition UseChannelRefund :: u32 where "UseChannelRefund = 30 OR hardened"
definition UseChannelHAKDBase :: u32 where "UseChannelHAKDBase = 40 OR hardened"
definition UseChannelElkrem :: u32 where "UseChannelElkrem = 8888 OR hardened"
definition UseHTLCBase :: u32 where "UseHTLCBase = 60 OR hardened"

section \<open>Records\<close>

record por_txo =
  px_Op :: outpoint
  px_Value :: int
  px_Height :: int
  px_Seq :: u32
  px_Mode :: byte
  px_KeyGen :: keygen
  px_PkScript :: bytes
  px_PreSigStack :: "bytes list"

record htlc =
  ht_Idx :: u32
  ht_Incoming :: bool
  ht_Amt :: int
  ht_RHash :: bytes
  ht_Locktime :: u32
  ht_MyHTLCBase :: bytes
  ht_TheirHTLCBase :: bytes
  ht_KeyGen :: keygen
  ht_Sig :: bytes
  ht_R :: bytes
  ht_Clearing :: bool
  ht_Cleared :: bool
  ht_ClearedOnChain :: bool

record stat_com =
  st_StateIdx :: u64
  st_WatchUpTo :: u64
  st_MyAmt :: int
  st_Fee :: int
  st_Data :: bytes
  st_Delta :: int
  st_Collision :: int
  st_ElkPoint :: bytes
  st_NextElkPoint :: bytes
  st_N2ElkPoint :: bytes
  st_Sig :: bytes
  st_HTLCIdx :: u32
  st_InProgHTLC :: "htlc option"
  st_CollidingHTLC :: "htlc option"
  st_CollidingHashDelta :: bool
  st_CollidingHashPreimage :: bool
  st_CollidingPreimages :: bool
  st_CollidingPreimageDelta :: bool
  st_NextHTLCBase :: bytes
  st_N2HTLCBase :: bytes
  st_MyNextHTLCBase :: bytes
  st_MyN2HTLCBase :: bytes
  st_HTLCs :: "htlc list"
  st_Failed :: bool

record close_data =
  cl_CloseTxid :: bytes
  cl_CloseHeight :: int
  cl_Closed :: bool

text \<open>\<open>q_ClearToSend\<close> is the buffered channel of capacity one: whether a token is in it.\<close>

record qchan =
  q_Txo :: por_txo
  q_CloseData :: close_data
  q_MyPub :: bytes
  q_TheirPub :: bytes
  q_MyRefundPub :: bytes
  q_TheirRefundPub :: bytes
  q_MyHAKDBase :: bytes
  q_TheirHAKDBase :: bytes
  q_WatchRefundAdr :: bytes
  q_ElkSnd :: elkrem_sender
  q_ElkRcv :: elkrem_receiver
  q_Delay :: u16
  q_State :: stat_com
  q_ClearToSend :: bool
  q_LastUpdate :: u64

text \<open>What the database keeps of a channel.\<close>

record chan_data =
  cdt_Txo :: por_txo
  cdt_CloseData :: close_data
  cdt_TheirPub :: bytes
  cdt_TheirRefundPub :: bytes
  cdt_TheirHAKDBase :: bytes
  cdt_State :: stat_com
  cdt_LastUpdate :: u64

section \<open>The node\<close>

text \<open>
  What the channel code is given: the primitives, the wallets (\<open>SubWallet\<close>) with their key derivation,
  signatures in their 64-byte form, the clock, the set of connected peers, and whether the event bus
  lets an event pass.
\<close>

record wallet =
  wl_TestCoin :: bool
  wl_Fee :: int
  wl_Height :: int

record node_env =
  ev_crypto :: crypto
  ev_wallet :: "u32 \<Rightarrow> wallet option"
  ev_GetPub :: "keygen \<Rightarrow> bytes"
  ev_GetPriv :: "keygen \<Rightarrow> lit_error + bytes"
  ev_CombinePriv :: "bytes \<Rightarrow> bytes \<Rightarrow> bytes"
  ev_sign :: "bytes \<Rightarrow> bytes \<Rightarrow> msg_tx \<Rightarrow> int \<Rightarrow> lit_error + bytes"
  ev_verify :: "bytes \<Rightarrow> bytes \<Rightarrow> msg_tx \<Rightarrow> int \<Rightarrow> bytes \<Rightarrow> bool"
  ev_now :: u64
  ev_connected :: "u32 \<Rightarrow> bool"
  ev_publish :: bool

abbreviation ev_dh :: "node_env \<Rightarrow> bytes \<Rightarrow> bytes" where "ev_dh ev \<equiv> cr_DoubleHash (ev_crypto ev)"

record in_flight =
  mu_Path :: "route_hop list"
  mu_Amt :: int
  mu_HHash :: bytes
  mu_PreImage :: bytes
  mu_Succeeded :: bool

text \<open>
  The node's own state, as far as channels touch it: the channel bucket (by outpoint), the justice
  signatures (by refund hash and state number), multihop payments in flight and in the database, and the
  messages sent so far.
\<close>

record lit_node =
  nd_Channels :: "bytes \<Rightarrow> chan_data option"
  nd_Justice :: "bytes \<Rightarrow> u64 \<Rightarrow> bytes option"
  nd_InProgMultihop :: "in_flight list"
  nd_Payments :: "bytes \<Rightarrow> in_flight option"

section \<open>Accessors\<close>

abbreviation q_Op :: "qchan \<Rightarrow> outpoint" where "q_Op q \<equiv> px_Op (q_Txo q)"
abbreviation q_Value :: "qchan \<Rightarrow> int" where "q_Value q \<equiv> px_Value (q_Txo q)"
abbreviation q_Height :: "qchan \<Rightarrow> int" where "q_Height q \<equiv> px_Height (q_Txo q)"
abbreviation q_KeyGen :: "qchan \<Rightarrow> keygen" where "q_KeyGen q \<equiv> px_KeyGen (q_Txo q)"

definition Qchan_Peer :: "qchan \<Rightarrow> u32" where "Qchan_Peer q = kg_Step (q_KeyGen q) ! 3 AND 0x7fffffff"
definition Qchan_Idx :: "qchan \<Rightarrow> u32" where "Qchan_Idx q = kg_Step (q_KeyGen q) ! 4 AND 0x7fffffff"
definition Qchan_Coin :: "qchan \<Rightarrow> u32" where "Qchan_Coin q = kg_Step (q_KeyGen q) ! 1 AND 0x7fffffff"

definition ImFirst :: "qchan \<Rightarrow> bool" where
  "ImFirst q = bytes_less (q_MyRefundPub q) (q_TheirRefundPub q)"

definition GetChanHint :: "crypto \<Rightarrow> qchan \<Rightarrow> bool \<Rightarrow> u64" where
  "GetChanHint cr q mine =
     (let h = cr_DoubleHash cr (if mine then q_MyRefundPub q @ q_TheirRefundPub q
                                else q_TheirRefundPub q @ q_MyRefundPub q)
      in if length h \<noteq> 32 then 2 ^ 63 else BtU64 ([0, 0] @ take 6 (drop 2 h)))"

definition GetChannelBalances :: "qchan \<Rightarrow> int \<times> int" where
  "GetChannelBalances q =
     (let s = q_State q;
          v = fold (\<lambda>h v. if \<not> ht_Cleared h then i64 (v - ht_Amt h) else v) (st_HTLCs s) (q_Value q)
      in (st_MyAmt s, i64 (v - st_MyAmt s)))"

text \<open>\<open>GetUsePub\<close> and \<open>GetElkremRoot\<close> (\<open>basewallet.go\<close>).\<close>

definition GetUsePub :: "node_env \<Rightarrow> keygen \<Rightarrow> u32 \<Rightarrow> lit_error + bytes" where
  "GetUsePub ev k use =
     (case ev_wallet ev (kg_Step k ! 1 AND 0x7fffffff) of None \<Rightarrow> Inl OutOfRange
      | Some w \<Rightarrow> Inr (ev_GetPub ev (k\<lparr>kg_Step := (kg_Step k)[2 := use]\<rparr>)))"

definition GetUsePub_ign :: "node_env \<Rightarrow> keygen \<Rightarrow> u32 \<Rightarrow> bytes" where
  "GetUsePub_ign ev k use = (case GetUsePub ev k use of Inl e \<Rightarrow> replicate 33 0 | Inr p \<Rightarrow> p)"

definition GetElkremRoot :: "node_env \<Rightarrow> keygen \<Rightarrow> lit_error + bytes" where
  "GetElkremRoot ev k =
     bind_res (GetUsePub ev k UseChannelElkrem) (\<lambda>p. Inr (ev_dh ev p))"

text \<open>The key path of the \<open>n\<close>-th HTLC base key of a channel.\<close>

definition htlc_keygen :: "qchan \<Rightarrow> u32 \<Rightarrow> keygen" where
  "htlc_keygen q n =
     \<lparr>kg_Depth = 5, kg_Step = [44 OR hardened, Qchan_Coin q OR hardened, UseHTLCBase, n OR hardened,
      Qchan_Idx q OR hardened], kg_PrivKey = replicate 32 0\<rparr>"

section \<open>Elkrem points\<close>

definition ElkPoint :: "crypto \<Rightarrow> qchan \<Rightarrow> bool \<Rightarrow> u64 \<Rightarrow> lit_error + bytes" where
  "ElkPoint cr q mine idx =
     bind_res (if mine then receiver_AtIndex (cr_DoubleHash cr) (q_ElkRcv q) idx
               else sender_AtIndex (cr_DoubleHash cr) (q_ElkSnd q) idx)
       (\<lambda>elk. Inr (ElkPointFromHash cr elk))"

definition N2ElkPointForThem :: "crypto \<Rightarrow> qchan \<Rightarrow> lit_error + bytes" where
  "N2ElkPointForThem cr q = ElkPoint cr q False (st_StateIdx (q_State q) + 2)"

text \<open>
  \<open>IngestElkrem\<close> changes the receiver even when the point check fails afterwards, so the channel is
  returned in both cases.
\<close>

definition IngestElkrem :: "crypto \<Rightarrow> qchan \<Rightarrow> bytes \<Rightarrow> lit_error option \<times> qchan" where
  "IngestElkrem cr q elk =
     (case AddNext (cr_DoubleHash cr) (q_ElkRcv q) (Some elk) of
        Inl e \<Rightarrow> (Some e, q)
      | Inr rcv \<Rightarrow>
        (let q = q\<lparr>q_ElkRcv := rcv\<rparr> in
         if st_StateIdx (q_State q) = 0 then (None, q)
         else if ElkPointFromHash cr elk \<noteq> st_ElkPoint (q_State q) then (Some Mismatch, q)
         else (None, q)))"

definition AdvanceElkrem :: "crypto \<Rightarrow> qchan \<Rightarrow> bytes \<Rightarrow> bytes \<Rightarrow> lit_error option \<times> qchan" where
  "AdvanceElkrem cr q elk n2Elk =
     (case IngestElkrem cr q elk of
        (Some e, q) \<Rightarrow> (Some e, q)
      | (None, q) \<Rightarrow>
        (None, q\<lparr>q_State := (q_State q)\<lparr>st_ElkPoint := st_NextElkPoint (q_State q),
           st_NextElkPoint := st_N2ElkPoint (q_State q), st_N2ElkPoint := n2Elk\<rparr>\<rparr>))"

section \<open>Storing and restoring\<close>

text \<open>
  The JSON form is taken to keep every field of \<open>ChanData\<close>. It has no field for the elkrem receiver and
  none for the refund address, so a restored channel has an empty receiver and a zero address.
\<close>

definition NewChanDataFromQchan :: "qchan \<Rightarrow> chan_data" where
  "NewChanDataFromQchan q =
     \<lparr>cdt_Txo = q_Txo q, cdt_CloseData = q_CloseData q, cdt_TheirPub = q_TheirPub q,
      cdt_TheirRefundPub = q_TheirRefundPub q, cdt_TheirHAKDBase = q_TheirHAKDBase q,
      cdt_State = q_State q, cdt_LastUpdate = q_LastUpdate q\<rparr>"

definition NewQchanFromChanData :: "node_env \<Rightarrow> chan_data \<Rightarrow> qchan" where
  "NewQchanFromChanData ev data =
     \<lparr>q_Txo = cdt_Txo data, q_CloseData = cdt_CloseData data,
      q_MyPub = GetUsePub_ign ev (px_KeyGen (cdt_Txo data)) UseChannelFund,
      q_TheirPub = cdt_TheirPub data,
      q_MyRefundPub = GetUsePub_ign ev (px_KeyGen (cdt_Txo data)) UseChannelRefund,
      q_TheirRefundPub = cdt_TheirRefundPub data,
      q_MyHAKDBase = GetUsePub_ign ev (px_KeyGen (cdt_Txo data)) UseChannelHAKDBase,
      q_TheirHAKDBase = cdt_TheirHAKDBase data, q_WatchRefundAdr = replicate 20 0,
      q_ElkSnd = NewElkremSender (case GetElkremRoot ev (px_KeyGen (cdt_Txo data)) of
        Inl e \<Rightarrow> replicate 32 0 | Inr r \<Rightarrow> r),
      q_ElkRcv = NewElkremReceiver, q_Delay = 5, q_State = cdt_State data, q_ClearToSend = True,
      q_LastUpdate = cdt_LastUpdate data\<rparr>"

text \<open>\<open>ApplyChanDataToQchan\<close> keeps the token channel (and the mutex) of the channel in memory.\<close>

definition ApplyChanDataToQchan :: "node_env \<Rightarrow> chan_data \<Rightarrow> qchan \<Rightarrow> qchan" where
  "ApplyChanDataToQchan ev data q = (NewQchanFromChanData ev data)\<lparr>q_ClearToSend := q_ClearToSend q\<rparr>"

definition ReloadQchanState :: "node_env \<Rightarrow> lit_node \<Rightarrow> qchan \<Rightarrow> lit_error + qchan" where
  "ReloadQchanState ev nd q =
     (case nd_Channels nd (OutPointToBytes (q_Op q)) of None \<Rightarrow> Inl OutOfRange
      | Some data \<Rightarrow> Inr (ApplyChanDataToQchan ev data q))"

definition GetQchan :: "node_env \<Rightarrow> lit_node \<Rightarrow> bytes \<Rightarrow> lit_error + qchan" where
  "GetQchan ev nd opArr =
     (case nd_Channels nd opArr of None \<Rightarrow> Inl OutOfRange | Some data \<Rightarrow> Inr (NewQchanFromChanData ev data))"

definition SaveQChan :: "lit_node \<Rightarrow> qchan \<Rightarrow> lit_node" where
  "SaveQChan nd q =
     nd\<lparr>nd_Channels := (nd_Channels nd)(OutPointToBytes (q_Op q) := Some (NewChanDataFromQchan q))\<rparr>"

text \<open>\<open>SaveQchanState\<close> stores the state only; for a channel the database does not know it does nothing.\<close>

definition SaveQchanState :: "node_env \<Rightarrow> lit_node \<Rightarrow> qchan \<Rightarrow> lit_node" where
  "SaveQchanState ev nd q =
     (case GetQchan ev nd (OutPointToBytes (q_Op q)) of Inl e \<Rightarrow> nd
      | Inr fq \<Rightarrow> SaveQChan nd (fq\<lparr>q_State := q_State q\<rparr>))"

definition SaveQchanUtxoData :: "node_env \<Rightarrow> lit_node \<Rightarrow> qchan \<Rightarrow> lit_node" where
  "SaveQchanUtxoData ev nd q =
     (case GetQchan ev nd (OutPointToBytes (q_Op q)) of Inl e \<Rightarrow> nd
      | Inr fq \<Rightarrow>
        (let fq = fq\<lparr>q_Txo := q_Txo q\<rparr>;
             fq = (if cl_Closed (q_CloseData q) then fq\<lparr>q_CloseData := q_CloseData q\<rparr> else fq)
         in SaveQChan nd fq))"

definition FailChannel :: "node_env \<Rightarrow> lit_node \<Rightarrow> qchan \<Rightarrow> lit_node \<times> qchan" where
  "FailChannel ev nd q =
     (let q = (case ReloadQchanState ev nd q of Inl e \<Rightarrow> q | Inr q' \<Rightarrow> q');
          q = q\<lparr>q_State := (q_State q)\<lparr>st_Failed := True\<rparr>\<rparr>
      in (SaveQchanState ev nd q, q))"

end
