(* ===== verification/Commitment.thy ===== *)
theory Commitment
  imports Channel
begin

text \<open>
  Commitment transactions (\<open>qln/buildtx.go\<close>) and the signatures on them (\<open>qln/signtx.go\<close>): the state
  number hidden in sequence and lock time, the keys of a state, the HTLC outputs and the transactions
  that spend them, the cooperative close, \<open>SignState\<close> and \<open>VerifySigs\<close>. A nil dereference is \<open>Inl Panic\<close>.
\<close>

section \<open>State numbers in transactions\<close>

definition seqMask :: u32 where "seqMask = 0xff000000"
definition timeMask :: u32 where "timeMask = 0x21000000"
definition MinOutput :: int where "MinOutput = 100000"

definition GetStateIdxFromTx :: "msg_tx \<Rightarrow> u64 \<Rightarrow> u64" where
  "GetStateIdxFromTx tx x =
     (if length (tx_TxIn tx) \<noteq> 1 then 0
      else if 2 ^ 48 < x then 0
      else if drop_bit 24 (ti_Sequence (hd (tx_TxIn tx))) \<noteq> 0xff \<or> drop_bit 24 (tx_LockTime tx) \<noteq> 0x21 then 0
      else let seqBits = ucast (ti_Sequence (hd (tx_TxIn tx)) AND 0x00ffffff) :: u64;
               timeBits = ucast (tx_LockTime tx AND 0x00ffffff) :: u64
           in (push_bit 24 seqBits OR timeBits) XOR x)"

text \<open>The transaction is changed only when there is no error; the callers drop the error.\<close>

definition SetStateIdxBits :: "msg_tx \<Rightarrow> u64 \<Rightarrow> u64 \<Rightarrow> lit_error option \<times> msg_tx" where
  "SetStateIdxBits tx idx x =
     (if length (tx_TxIn tx) \<noteq> 1 then (Some OutOfRange, tx)
      else if 2 ^ 48 \<le> idx then (Some OutOfRange, tx)
      else let idx = idx XOR x;
               seqBits = ucast (drop_bit 24 idx) :: u32;
               timeBits = ucast (idx AND 0x00ffffff) :: u32
           in (None, tx\<lparr>tx_TxIn := [(hd (tx_TxIn tx))\<lparr>ti_Sequence := seqBits OR seqMask\<rparr>],
                        tx_LockTime := timeBits OR timeMask\<rparr>))"

section \<open>The keys of a state\<close>

definition GetKeysFromState :: "crypto \<Rightarrow> qchan \<Rightarrow> bool \<Rightarrow> lit_error + bytes \<times> bytes \<times> bytes" where
  "GetKeysFromState cr q mine =
     (if mine then
        bind_res (ElkPoint cr q False (st_StateIdx (q_State q))) (\<lambda>curElk.
          Inr (cr_CombinePubs cr (q_TheirHAKDBase q) curElk, cr_AddPubsEZ cr (q_MyHAKDBase q) curElk,
               q_TheirRefundPub q))
      else
        Inr (cr_CombinePubs cr (q_MyHAKDBase q) (st_ElkPoint (q_State q)),
             cr_AddPubsEZ cr (q_TheirHAKDBase q) (st_ElkPoint (q_State q)), q_MyRefundPub q))"

section \<open>HTLC outputs\<close>

definition GenHTLCScriptWithElkPointsAndRevPub ::
    "crypto \<Rightarrow> htlc \<Rightarrow> bool \<Rightarrow> bytes \<Rightarrow> bytes \<Rightarrow> bytes \<Rightarrow> bytes" where
  "GenHTLCScriptWithElkPointsAndRevPub cr h mine theirElkPoint myElkPoint revPub =
     (let revPKH = copy_fresh 20 (take 20 (cr_Hash160 cr revPub));
          (remotePub, localPub) =
            (if mine then (cr_CombinePubs cr (ht_TheirHTLCBase h) theirElkPoint,
                           cr_CombinePubs cr (ht_MyHTLCBase h) myElkPoint)
             else (cr_CombinePubs cr (ht_MyHTLCBase h) myElkPoint,
                   cr_CombinePubs cr (ht_TheirHTLCBase h) theirElkPoint))
      in if ht_Incoming h \<noteq> mine then OfferHTLCScript revPKH remotePub (ht_RHash h) localPub
         else ReceiveHTLCScript revPKH remotePub (ht_RHash h) localPub (ht_Locktime h))"

definition GenHTLCScript :: "crypto \<Rightarrow> qchan \<Rightarrow> htlc \<Rightarrow> bool \<Rightarrow> lit_error + bytes" where
  "GenHTLCScript cr q h mine =
     bind_res (GetKeysFromState cr q mine) (\<lambda>(revPub, timePub, pkhPub).
     bind_res (ElkPoint cr q False (st_StateIdx (q_State q))) (\<lambda>curElk.
       Inr (GenHTLCScriptWithElkPointsAndRevPub cr h mine (st_ElkPoint (q_State q)) curElk revPub)))"

definition GenHTLCOut :: "crypto \<Rightarrow> qchan \<Rightarrow> htlc \<Rightarrow> bool \<Rightarrow> lit_error + tx_out" where
  "GenHTLCOut cr q h mine =
     bind_res (GetKeysFromState cr q mine) (\<lambda>(revPub, timePub, pkhPub).
     bind_res (ElkPoint cr q False (st_StateIdx (q_State q))) (\<lambda>curElk.
       Inr (NewTxOut (of_int (ht_Amt h)) (P2WSHify cr
         (GenHTLCScriptWithElkPointsAndRevPub cr h mine (st_ElkPoint (q_State q)) curElk revPub)))))"

definition htlc_active :: "htlc \<Rightarrow> bool" where
  "htlc_active h \<longleftrightarrow> \<not> ht_Clearing h \<and> \<not> ht_Cleared h"

text \<open>The HTLCs with an output in the commitment transaction: the active ones, then the ones in progress.\<close>

definition live_htlcs :: "stat_com \<Rightarrow> htlc list" where
  "live_htlcs s = filter htlc_active (st_HTLCs s) @
     (case st_InProgHTLC s of None \<Rightarrow> [] | Some h \<Rightarrow> [h]) @
     (case st_CollidingHTLC s of None \<Rightarrow> [] | Some h \<Rightarrow> [h])"

text \<open>
  Later code finds the HTLC of the \<open>j\<close>-th output by its position in \<open>State.HTLCs\<close> (the cleared ones
  included), in progress at \<open>len(HTLCs)\<close> and colliding at \<open>len(HTLCs)+1\<close>.
\<close>

definition htlc_at :: "stat_com \<Rightarrow> nat \<Rightarrow> lit_error + htlc" where
  "htlc_at s j =
     (if j = length (st_HTLCs s) then (case st_InProgHTLC s of None \<Rightarrow> Inl Panic | Some h \<Rightarrow> Inr h)
      else if j = length (st_HTLCs s) + 1 then (case st_CollidingHTLC s of None \<Rightarrow> Inl Panic | Some h \<Rightarrow> Inr h)
      else if j < length (st_HTLCs s) then Inr (st_HTLCs s ! j) else Inl Panic)"

primrec map_res :: "('a \<Rightarrow> lit_error + 'b) \<Rightarrow> 'a list \<Rightarrow> lit_error + 'b list" where
  "map_res f [] = Inr []"
| "map_res f (x # xs) = bind_res (f x) (\<lambda>y. bind_res (map_res f xs) (\<lambda>ys. Inr (y # ys)))"

definition find_vout :: "msg_tx \<Rightarrow> tx_out \<Rightarrow> nat" where
  "find_vout tx h = (case find_idx (\<lambda>out. to_PkScript out = to_PkScript h) (tx_TxOut tx) of
     None \<Rightarrow> 0 | Some i \<Rightarrow> i)"

text \<open>A Go map from indices, and the array made by looking up \<open>0 .. len + 1\<close>.\<close>

definition map_put :: "nat \<Rightarrow> 'a \<Rightarrow> (nat \<times> 'a) list \<Rightarrow> (nat \<times> 'a) list" where
  "map_put k v m = (k, v) # filter (\<lambda>(k', v'). k' \<noteq> k) m"

definition map_arr :: "(nat \<times> 'a) list \<Rightarrow> 'a list" where
  "map_arr m = concat (map (\<lambda>i. case map_of m i of None \<Rightarrow> [] | Some x \<Rightarrow> [x]) [0..<length m + 2])"

section \<open>The commitment transaction\<close>

definition state_value :: "qchan \<Rightarrow> int" where
  "state_value q =
     (let s = q_State q;
          v = q_Value q;
          v = (case st_InProgHTLC s of None \<Rightarrow> v | Some h \<Rightarrow> i64 (v - ht_Amt h));
          v = (case st_CollidingHTLC s of None \<Rightarrow> v | Some h \<Rightarrow> i64 (v - ht_Amt h))
      in fold (\<lambda>h v. if \<not> ht_Cleared h \<and> \<not> ht_Clearing h then i64 (v - ht_Amt h) else v) (st_HTLCs s) v)"

definition output_amts :: "qchan \<Rightarrow> bool \<Rightarrow> int \<times> int" where
  "output_amts q mine =
     (let s = q_State q; fee = st_Fee s;
          theirAmt = i64 (state_value q - st_MyAmt s);
          theirs = (if 0 < theirAmt then i64 (theirAmt - fee) else 0);
          ours = (if 0 < st_MyAmt s then i64 (st_MyAmt s - fee) else 0)
      in if mine then (ours, theirs) else (theirs, ours))"

text \<open>The transaction spending the \<open>j\<close>-th HTLC output, and the index of that output.\<close>

definition htlc_spend :: "crypto \<Rightarrow> qchan \<Rightarrow> bool \<Rightarrow> bytes \<Rightarrow> bytes \<Rightarrow> msg_tx \<Rightarrow> nat \<Rightarrow> tx_out \<Rightarrow> lit_error + nat \<times> msg_tx" where
  "htlc_spend cr q mine revPub timePub tx j h =
     (let s = q_State q; amt = i64 (sint (to_Value h) - st_Fee s) in
      if amt < MinOutput then Inl OutOfRange
      else let idx = find_vout tx h;
               ti = (NewTxIn \<lparr>op_Hash = TxHash cr tx, op_Index = of_nat idx\<rparr> [] [])\<lparr>ti_Sequence := 0\<rparr>;
               sp = AddTxOut (AddTxIn NewMsgTx ti)
                      (NewTxOut (of_int amt) (P2WSHify cr (CommitScript revPub timePub (q_Delay q))))
           in bind_res (htlc_at s j) (\<lambda>e. Inr (idx,
                sp\<lparr>tx_Version := 2, tx_LockTime := (if ht_Incoming e = mine then 0 else ht_Locktime e)\<rparr>)))"

definition htlc_spends :: "crypto \<Rightarrow> qchan \<Rightarrow> bool \<Rightarrow> bytes \<Rightarrow> bytes \<Rightarrow> msg_tx \<Rightarrow> tx_out list \<Rightarrow> lit_error + (nat \<times> msg_tx) list" where
  "htlc_spends cr q mine revPub timePub tx outs =
     fold_res (\<lambda>m (j, h). bind_res (htlc_spend cr q mine revPub timePub tx j h) (\<lambda>(i, sp). Inr (map_put i sp m)))
       [] (zip [0..<length outs] outs)"

definition BuildStateTxs :: "crypto \<Rightarrow> qchan \<Rightarrow> bool \<Rightarrow> lit_error + msg_tx \<times> msg_tx list \<times> tx_out list" where
  "BuildStateTxs cr q mine =
     bind_res (GetKeysFromState cr q mine) (\<lambda>(revPub, timePub, pkhPub).
     let s = q_State q; (fancyAmt, pkhAmt) = output_amts q mine in
     if fancyAmt \<noteq> 0 \<and> fancyAmt < MinOutput then Inl OutOfRange
     else if pkhAmt \<noteq> 0 \<and> pkhAmt < MinOutput then Inl OutOfRange
     else
       let fancyScript = P2WSHify cr (CommitScript revPub timePub (q_Delay q));
           pkhScript = DirectWPKHScript cr pkhPub
       in bind_res (map_res (\<lambda>h. GenHTLCOut cr q h mine) (live_htlcs s)) (\<lambda>HTLCTxOuts.
          let tx = NewMsgTx;
              tx = (if fancyAmt \<noteq> 0 then AddTxOut tx (NewTxOut (of_int fancyAmt) fancyScript) else tx);
              tx = (if pkhAmt \<noteq> 0 then AddTxOut tx (NewTxOut (of_int pkhAmt) pkhScript) else tx);
              tx = foldl AddTxOut tx HTLCTxOuts
          in if length (tx_TxOut tx) < 1 then Inl OutOfRange
             else
               let tx = AddTxIn tx (NewTxIn (q_Op q) [] []);
                   tx = snd (SetStateIdxBits tx (st_StateIdx s) (GetChanHint cr q mine));
                   tx = InPlaceSort tx
               in bind_res (htlc_spends cr q mine revPub timePub tx HTLCTxOuts) (\<lambda>m.
                  Inr (tx, map_arr m, HTLCTxOuts))))"

section \<open>Cooperative close\<close>

definition SimpleCloseTx :: "crypto \<Rightarrow> qchan \<Rightarrow> lit_error + msg_tx" where
  "SimpleCloseTx cr q =
     (let s = q_State q; fee = st_Fee s;
          myAmt = (if st_MyAmt s \<noteq> 0 then i64 (st_MyAmt s - fee) else 0);
          rest = i64 (q_Value q - st_MyAmt s);
          theirAmt = (if rest \<noteq> 0 then i64 (rest - fee) else 0)
      in if myAmt = 0 \<and> theirAmt = 0 then Inl OutOfRange
         else if myAmt \<noteq> 0 \<and> myAmt < MinOutput then Inl OutOfRange
         else if theirAmt \<noteq> 0 \<and> theirAmt < MinOutput then Inl OutOfRange
         else
           let tx = NewMsgTx;
               tx = (if myAmt \<noteq> 0 then AddTxOut tx (NewTxOut (of_int myAmt) (DirectWPKHScript cr (q_MyRefundPub q))) else tx);
               tx = (if theirAmt \<noteq> 0 then AddTxOut tx (NewTxOut (of_int theirAmt) (DirectWPKHScript cr (q_TheirRefundPub q))) else tx)
           in Inr (InPlaceSort (AddTxIn tx (NewTxIn (q_Op q) [] []))))"

definition SpendMultiSigWitStack :: "bytes \<Rightarrow> bytes \<Rightarrow> bytes \<Rightarrow> bytes list" where
  "SpendMultiSigWitStack pre sigA sigB = [[], sigA, sigB, pre]"

section \<open>Signing and verifying a state\<close>

definition find_spend :: "msg_tx list \<Rightarrow> nat \<Rightarrow> nat option" where
  "find_spend txs vout =
     find_idx (\<lambda>t. op_Index (ti_PreviousOutPoint (hd (tx_TxIn t))) = of_nat vout) txs"

text \<open>
  The signature on the transaction spending the \<open>idx\<close>-th HTLC output. When no such transaction is found
  the code hashes a nil transaction.
\<close>

definition sign_htlc :: "node_env \<Rightarrow> qchan \<Rightarrow> msg_tx \<Rightarrow> msg_tx list \<Rightarrow> bytes \<Rightarrow> nat \<Rightarrow> tx_out \<Rightarrow> lit_error + nat \<times> bytes" where
  "sign_htlc ev q tx spends elkScalar idx h =
     bind_res (htlc_at (q_State q) idx) (\<lambda>e.
     bind_res (ev_GetPriv ev (ht_KeyGen e)) (\<lambda>base.
     case find_spend spends (find_vout tx h) of None \<Rightarrow> Inl Panic
     | Some which \<Rightarrow>
       bind_res (GenHTLCScript (ev_crypto ev) q e False) (\<lambda>script.
       bind_res (ev_sign ev (ev_CombinePriv ev base elkScalar) script (spends ! which) (sint (to_Value h))) (\<lambda>sig.
         Inr (which, sig)))))"

definition SignState :: "node_env \<Rightarrow> qchan \<Rightarrow> lit_error + bytes \<times> bytes list" where
  "SignState ev q =
     (if ev_wallet ev (Qchan_Coin q) = None then Inl OutOfRange
      else
        bind_res (BuildStateTxs (ev_crypto ev) q False) (\<lambda>(tx, spends, outs).
        bind_res (FundTxScript (q_MyPub q) (q_TheirPub q)) (\<lambda>(pre, swapped).
        bind_res (ev_GetPriv ev (q_KeyGen q)) (\<lambda>priv.
        bind_res (ev_sign ev priv pre tx (q_Value q)) (\<lambda>sig.
        bind_res (sender_AtIndex (ev_dh ev) (q_ElkSnd q) (st_StateIdx (q_State q))) (\<lambda>curElk.
        bind_res (fold_res (\<lambda>m (j, h).
            bind_res (sign_htlc ev q tx spends (ElkScalar (ev_crypto ev) curElk) j h)
              (\<lambda>(which, s). Inr (map_put which s m))) [] (zip [0..<length outs] outs)) (\<lambda>m.
          Inr (sig, map_arr m))))))))"

definition verify_htlc :: "node_env \<Rightarrow> qchan \<Rightarrow> msg_tx \<Rightarrow> msg_tx list \<Rightarrow> bytes list \<Rightarrow> nat \<Rightarrow> tx_out \<Rightarrow> lit_error + nat" where
  "verify_htlc ev q tx spends sigs idx h =
     (case find_spend spends (find_vout tx h) of None \<Rightarrow> Inl Panic
      | Some which \<Rightarrow>
        bind_res (htlc_at (q_State q) idx) (\<lambda>e.
        bind_res (GenHTLCScript (ev_crypto ev) q e True) (\<lambda>script.
          if ev_verify ev (cr_CombinePubs (ev_crypto ev) (ht_TheirHTLCBase e) (st_NextElkPoint (q_State q)))
               script (spends ! which) (sint (to_Value h)) (sigs ! which)
          then Inr which else Inl Mismatch)))"

definition set_htlc_sig :: "nat \<Rightarrow> bytes \<Rightarrow> stat_com \<Rightarrow> stat_com" where
  "set_htlc_sig j sig s =
     (if j = length (st_HTLCs s) then s\<lparr>st_InProgHTLC := map_option (\<lambda>h. h\<lparr>ht_Sig := sig\<rparr>) (st_InProgHTLC s)\<rparr>
      else if j = length (st_HTLCs s) + 1 then
        s\<lparr>st_CollidingHTLC := map_option (\<lambda>h. h\<lparr>ht_Sig := sig\<rparr>) (st_CollidingHTLC s)\<rparr>
      else s\<lparr>st_HTLCs := (st_HTLCs s)[j := (st_HTLCs s ! j)\<lparr>ht_Sig := sig\<rparr>]\<rparr>)"

definition VerifySigs :: "node_env \<Rightarrow> qchan \<Rightarrow> bytes \<Rightarrow> bytes list \<Rightarrow> lit_error + qchan" where
  "VerifySigs ev q sig HTLCSigs =
     bind_res (BuildStateTxs (ev_crypto ev) q True) (\<lambda>(tx, spends, outs).
     bind_res (FundTxScript (q_MyPub q) (q_TheirPub q)) (\<lambda>(pre, swapped).
     if \<not> ev_verify ev (q_TheirPub q) pre tx (q_Value q) sig then Inl Mismatch
     else if length HTLCSigs \<noteq> length spends then Inl (BadLength (length HTLCSigs))
     else
       bind_res (map_res (\<lambda>(j, h). verify_htlc ev q tx spends HTLCSigs j h) (zip [0..<length outs] outs)) (\<lambda>which.
         let s = (q_State q)\<lparr>st_Sig := sig\<rparr>;
             s = fold (\<lambda>(j, w) s. set_htlc_sig j (HTLCSigs ! w) s) (zip [0..<length which] which) s
         in Inr (q\<lparr>q_State := s\<rparr>))))"

section \<open>Lemmas on sequencing, sorting and the bits of a state number\<close>

lemma state_masks: "(0x00ffffff :: u32) = mask 24" "(0x00ffffff :: u64) = mask 24" "(0xff000000 :: u32) = push_bit 24 (mask 8)"
  "(0x21000000 :: u32) = push_bit 24 0x21"
  by (simp_all add: mask_eq_exp_minus_1 push_bit_eq_mult)

lemma high_bits: assumes "(y :: u64) < 2 ^ 48" "bit y n" shows "n < 48"
proof -
  have "unat y < 2 ^ 48" using assms(1) by (simp add: word_less_nat_alt)
  then have "take_bit 48 y = y"
    by (intro word_unat_eq_iff [THEN iffD2]) (simp add: unsigned_take_bit_eq take_bit_nat_eq_self)
  then have "bit (take_bit 48 y) n = bit y n" by simp
  with assms(2) show ?thesis by (simp add: bit_take_bit_iff)
qed

lemma low_bits_tag: "bit (0x21000000 :: u32) n \<Longrightarrow> 24 \<le> n"
  unfolding state_masks(4) by (simp only: bit_push_bit_iff)

lemma state_bits_value:
  assumes "(y :: u64) < 2 ^ 48"
  shows "push_bit 24 (ucast ((ucast (drop_bit 24 y) OR 0xff000000 :: u32) AND 0x00ffffff) :: u64) OR
     ucast ((ucast (y AND 0x00ffffff) OR 0x21000000 :: u32) AND 0x00ffffff) = y"
  unfolding state_masks(1-3)
proof (rule bit_word_eqI)
  fix n
  have t: "\<not> bit (0x21000000 :: u32) n" if "n < 24" using low_bits_tag that by force
  consider "n < 24" | "24 \<le> n" "n < 48" | "48 \<le> n" by linarith
  then show "bit (push_bit 24 (ucast ((ucast (drop_bit 24 y) OR push_bit 24 (mask 8) :: u32) AND mask 24) :: u64) OR
      ucast ((ucast (y AND mask 24) OR 0x21000000 :: u32) AND mask 24)) n = bit y n"
    using high_bits [OF assms, of n] t
    by cases (auto simp: bit_or_iff bit_and_iff bit_push_bit_iff bit_drop_bit_eq bit_unsigned_iff bit_mask_iff)
qed

lemma state_bits_tag:
  assumes "(y :: u64) < 2 ^ 48"
  shows "drop_bit 24 (ucast (drop_bit 24 y) OR 0xff000000 :: u32) = 0xff"
   "drop_bit 24 (ucast (y AND 0x00ffffff) OR 0x21000000 :: u32) = 0x21"
proof -
  have "drop_bit 24 (ucast (drop_bit 24 y) :: u32) = 0"
    by (rule bit_word_eqI) (use high_bits [OF assms] in \<open>auto simp: bit_unsigned_iff bit_drop_bit_eq\<close>)
  moreover have "drop_bit 24 (0xff000000 :: u32) = 0xff" by (simp add: drop_bit_eq_div)
  ultimately show "drop_bit 24 (ucast (drop_bit 24 y) OR 0xff000000 :: u32) = 0xff" by (simp add: drop_bit_or)
  have "drop_bit 24 (ucast (y AND mask 24) :: u32) = 0"
    by (rule bit_word_eqI) (auto simp: bit_unsigned_iff bit_drop_bit_eq bit_and_iff bit_mask_iff)
  moreover have "drop_bit 24 (0x21000000 :: u32) = 0x21" by (simp add: drop_bit_eq_div)
  ultimately show "drop_bit 24 (ucast (y AND 0x00ffffff) OR 0x21000000 :: u32) = 0x21" by (simp add: drop_bit_or state_masks(2))
qed

lemma xor_48: "(a :: u64) < 2 ^ 48 \<Longrightarrow> b < 2 ^ 48 \<Longrightarrow> a XOR b < 2 ^ 48"
proof -
  assume "a < 2 ^ 48" "b < 2 ^ 48"
  then have "bit a n \<Longrightarrow> n < 48" "bit b n \<Longrightarrow> n < 48" for n
    using high_bits by blast+
  then have "take_bit 48 (a XOR b) = a XOR b"
    by (auto intro!: bit_word_eqI simp: bit_simps)
  then have "unat (a XOR b) = take_bit 48 (unat (a XOR b))"
    by (metis unsigned_take_bit_eq)
  then have "unat (a XOR b) < 2 ^ 48"
    by (metis take_bit_nat_less_exp)
  then show ?thesis by (simp add: word_less_nat_alt)
qed

lemma map_res_Inr: "map_res f xs = Inr ys \<longleftrightarrow> list_all2 (\<lambda>x y. f x = Inr y) xs ys"
  by (induction xs arbitrary: ys) (auto simp: bind_res_eq_Inr list_all2_Cons1)

lemma find_idx_bound: "find_idx P xs = Some i \<Longrightarrow> i < length xs"
  by (induction xs arbitrary: i) (auto split: if_splits)

lemma find_idx_Some: "find_idx P xs = Some i \<Longrightarrow> i < length xs \<and> P (xs ! i)"
  by (induction xs arbitrary: i) (auto split: if_splits)

lemma find_idx_None: "find_idx P xs = None \<longleftrightarrow> (\<forall>x \<in> set xs. \<not> P x)"
  by (induction xs) auto

lemma find_vout_bound: "find_vout tx h < max 1 (length (tx_TxOut tx))"
  by (auto simp: find_vout_def less_max_iff_disj dest: find_idx_bound split: option.splits)

lemma foldl_AddTxOut: "foldl AddTxOut tx outs = tx\<lparr>tx_TxOut := tx_TxOut tx @ outs\<rparr>"
  by (induction outs arbitrary: tx) (simp_all add: AddTxOut_def)

lemma sum_sort_by: "sum_list (map f (sort_by lt xs)) = (sum_list (map f xs) :: int)"
proof -
  have "sum_list (map f (insert_by lt x ys)) = (f x + sum_list (map f ys) :: int)" for x ys
    by (induction ys) simp_all
  then show ?thesis by (induction xs) (simp_all add: sort_by_def)
qed

section \<open>What a successful build is made of\<close>

definition commit_outs :: "int \<Rightarrow> int \<Rightarrow> bytes \<Rightarrow> bytes \<Rightarrow> tx_out list \<Rightarrow> tx_out list" where
  "commit_outs fancy pkh fs ps outs =
     (if fancy \<noteq> 0 then [NewTxOut (of_int fancy) fs] else []) @
     (if pkh \<noteq> 0 then [NewTxOut (of_int pkh) ps] else []) @ outs"

lemma BuildStateTxs_elim:
  assumes "BuildStateTxs cr q mine = Inr (tx, spends, outs)"
  obtains rp tp pk fancy pkh m fs ps where
    "GetKeysFromState cr q mine = Inr (rp, tp, pk)" "output_amts q mine = (fancy, pkh)"
    "fancy \<noteq> 0 \<longrightarrow> MinOutput \<le> fancy" "pkh \<noteq> 0 \<longrightarrow> MinOutput \<le> pkh"
    "map_res (\<lambda>h. GenHTLCOut cr q h mine) (live_htlcs (q_State q)) = Inr outs"
    "tx = InPlaceSort (snd (SetStateIdxBits
       \<lparr>tx_Version = 1, tx_TxIn = [NewTxIn (q_Op q) [] []], tx_TxOut = commit_outs fancy pkh fs ps outs,
        tx_LockTime = 0\<rparr> (st_StateIdx (q_State q)) (GetChanHint cr q mine)))"
    "htlc_spends cr q mine rp tp tx outs = Inr m" "spends = map_arr m"
proof -
  obtain rp tp pk where k: "GetKeysFromState cr q mine = Inr (rp, tp, pk)"
    using assms by (auto simp: BuildStateTxs_def bind_res_eq_Inr)
  obtain fancy pkh where a: "output_amts q mine = (fancy, pkh)" by fastforce
  let ?fs = "P2WSHify cr (CommitScript rp tp (q_Delay q))" and ?ps = "DirectWPKHScript cr pk"
  from assms show thesis
    by (auto simp: BuildStateTxs_def k a Let_def bind_res_eq_Inr not_less foldl_AddTxOut AddTxIn_def AddTxOut_def
        NewMsgTx_def commit_outs_def split: if_splits intro!: that [where fs = ?fs and ps = ?ps, OF k a])
qed

text \<open>Without live HTLCs a build succeeds exactly when the two balances allow it.\<close>

lemma BuildStateTxs_plain:
  assumes "live_htlcs (q_State q) = []" "GetKeysFromState cr q mine = Inr (rp, tp, pk)"
    and "output_amts q mine = (fancy, pkh)" "fancy \<noteq> 0 \<longrightarrow> MinOutput \<le> fancy" "pkh \<noteq> 0 \<longrightarrow> MinOutput \<le> pkh"
    and "fancy \<noteq> 0 \<or> pkh \<noteq> 0"
  shows "BuildStateTxs cr q mine = Inr (InPlaceSort (snd (SetStateIdxBits
     \<lparr>tx_Version = 1, tx_TxIn = [NewTxIn (q_Op q) [] []],
      tx_TxOut = commit_outs fancy pkh (P2WSHify cr (CommitScript rp tp (q_Delay q))) (DirectWPKHScript cr pk) [],
      tx_LockTime = 0\<rparr> (st_StateIdx (q_State q)) (GetChanHint cr q mine))), [], [])"
  using assms(4-6)
  by (auto simp: BuildStateTxs_def assms(1-3) Let_def AddTxOut_def AddTxIn_def NewMsgTx_def commit_outs_def
      htlc_spends_def map_arr_def)

lemma SetStateIdxBits_fields:
  "tx_TxOut (snd (SetStateIdxBits tx i x)) = tx_TxOut tx"
  "length (tx_TxIn (snd (SetStateIdxBits tx i x))) = length (tx_TxIn tx)"
  by (simp_all add: SetStateIdxBits_def Let_def)

lemma GetSet_StateIdx:
  assumes "length (tx_TxIn tx) = 1" "i < 2 ^ 48" "x < 2 ^ 48"
  shows "GetStateIdxFromTx (InPlaceSort (snd (SetStateIdxBits tx i x))) x = i"
proof -
  have y: "i XOR x < 2 ^ 48" using assms by (intro xor_48)
  have "\<not> 2 ^ 48 < x" "\<not> 2 ^ 48 \<le> i" using assms by (simp_all add: not_less not_le order_less_imp_le)
  then show ?thesis
    using assms(1) state_bits_value [OF y] state_bits_tag [OF y]
    by (simp add: GetStateIdxFromTx_def SetStateIdxBits_def Let_def InPlaceSort_def seqMask_def timeMask_def
        xor.assoc)
qed

section \<open>The two views of a channel\<close>

text \<open>An HTLC as the two parties keep it, and a channel as the two parties keep it.\<close>

definition htlc_mirror :: "htlc \<Rightarrow> htlc \<Rightarrow> bool" where
  "htlc_mirror h h' \<longleftrightarrow>
     ht_Incoming h' = (\<not> ht_Incoming h) \<and> ht_Amt h' = ht_Amt h \<and> ht_RHash h' = ht_RHash h \<and>
     ht_Locktime h' = ht_Locktime h \<and> ht_MyHTLCBase h' = ht_TheirHTLCBase h \<and>
     ht_TheirHTLCBase h' = ht_MyHTLCBase h \<and> ht_Clearing h' = ht_Clearing h \<and> ht_Cleared h' = ht_Cleared h"

definition static_mirror :: "qchan \<Rightarrow> qchan \<Rightarrow> bool" where
  "static_mirror q q' \<longleftrightarrow>
     q_Op q' = q_Op q \<and> q_Value q' = q_Value q \<and> q_Delay q' = q_Delay q \<and>
     q_MyPub q' = q_TheirPub q \<and> q_TheirPub q' = q_MyPub q \<and>
     q_MyRefundPub q' = q_TheirRefundPub q \<and> q_TheirRefundPub q' = q_MyRefundPub q \<and>
     q_MyHAKDBase q' = q_TheirHAKDBase q \<and> q_TheirHAKDBase q' = q_MyHAKDBase q"

definition commit_mirror :: "crypto \<Rightarrow> qchan \<Rightarrow> qchan \<Rightarrow> bool" where
  "commit_mirror cr q q' \<longleftrightarrow>
     static_mirror q q' \<and>
     st_StateIdx (q_State q') = st_StateIdx (q_State q) \<and> st_Fee (q_State q') = st_Fee (q_State q) \<and>
     st_MyAmt (q_State q) + st_MyAmt (q_State q') = state_value q \<and>
     - (2 ^ 63) \<le> st_MyAmt (q_State q) \<and> st_MyAmt (q_State q) < 2 ^ 63 \<and>
     - (2 ^ 63) \<le> st_MyAmt (q_State q') \<and> st_MyAmt (q_State q') < 2 ^ 63 \<and>
     list_all2 htlc_mirror (st_HTLCs (q_State q)) (st_HTLCs (q_State q')) \<and>
     rel_option htlc_mirror (st_InProgHTLC (q_State q)) (st_InProgHTLC (q_State q')) \<and>
     rel_option htlc_mirror (st_CollidingHTLC (q_State q)) (st_CollidingHTLC (q_State q')) \<and>
     ElkPoint cr q False (st_StateIdx (q_State q)) = Inr (st_ElkPoint (q_State q')) \<and>
     ElkPoint cr q' False (st_StateIdx (q_State q)) = Inr (st_ElkPoint (q_State q))"

lemma htlc_mirror_active: "htlc_mirror h h' \<Longrightarrow> htlc_active h' = htlc_active h"
  by (simp add: htlc_mirror_def htlc_active_def)

lemma fold_mirror:
  assumes "list_all2 htlc_mirror hs hs'"
  shows "fold (\<lambda>h v. if \<not> ht_Cleared h \<and> \<not> ht_Clearing h then i64 (v - ht_Amt h) else v) hs' v =
     fold (\<lambda>h v. if \<not> ht_Cleared h \<and> \<not> ht_Clearing h then i64 (v - ht_Amt h) else v) hs v"
  using assms by (induction arbitrary: v rule: list_all2_induct) (simp_all add: htlc_mirror_def)

lemma commit_mirror_value:
  assumes "commit_mirror cr q q'"
  shows "state_value q' = state_value q"
proof -
  have c: "case_option v (\<lambda>h. i64 (v - ht_Amt h)) o' = case_option v (\<lambda>h. i64 (v - ht_Amt h)) o1"
    if "rel_option htlc_mirror o1 o'" for v o1 o'
    using that by cases (simp_all add: htlc_mirror_def)
  have m: "q_Value q' = q_Value q" "list_all2 htlc_mirror (st_HTLCs (q_State q)) (st_HTLCs (q_State q'))"
    "rel_option htlc_mirror (st_InProgHTLC (q_State q)) (st_InProgHTLC (q_State q'))"
    "rel_option htlc_mirror (st_CollidingHTLC (q_State q)) (st_CollidingHTLC (q_State q'))"
    using assms by (simp_all add: commit_mirror_def static_mirror_def)
  show ?thesis
    by (simp add: state_value_def Let_def m(1) c [OF m(3)] c [OF m(4)] fold_mirror [OF m(2)]
        cong: option.case_cong)
qed

lemma commit_mirror_amts:
  assumes "commit_mirror cr q q'"
  shows "output_amts q' False = output_amts q True"
proof -
  let ?s = "q_State q" and ?s' = "q_State q'"
  have sum: "state_value q - st_MyAmt ?s = st_MyAmt ?s'" "state_value q - st_MyAmt ?s' = st_MyAmt ?s"
    and r: "i64 (st_MyAmt ?s) = st_MyAmt ?s" "i64 (st_MyAmt ?s') = st_MyAmt ?s'"
    and f: "st_Fee ?s' = st_Fee ?s"
    using assms by (auto simp: commit_mirror_def i64_id)
  show ?thesis
    by (simp add: output_amts_def commit_mirror_value [OF assms] sum r f Let_def)
qed

lemma commit_mirror_keys:
  assumes "commit_mirror cr q q'"
  shows "GetKeysFromState cr q' False = GetKeysFromState cr q True"
  using assms by (simp add: GetKeysFromState_def commit_mirror_def static_mirror_def)

lemma commit_mirror_script:
  assumes "commit_mirror cr q q'" and "htlc_mirror h h'"
  shows "GenHTLCScript cr q' h' False = GenHTLCScript cr q h True"
proof -
  have "GenHTLCScriptWithElkPointsAndRevPub cr h' False a b p = GenHTLCScriptWithElkPointsAndRevPub cr h True b a p"
    for a b p
    using assms(2) by (simp add: GenHTLCScriptWithElkPointsAndRevPub_def htlc_mirror_def Let_def)
  with assms(1) show ?thesis
    by (simp add: GenHTLCScript_def commit_mirror_keys) (simp add: commit_mirror_def)
qed

lemma GenHTLCOut_alt:
  "GenHTLCOut cr q h mine =
     bind_res (GenHTLCScript cr q h mine) (\<lambda>script. Inr (NewTxOut (of_int (ht_Amt h)) (P2WSHify cr script)))"
  by (auto simp: GenHTLCOut_def GenHTLCScript_def bind_res_def split: sum.splits prod.splits)

lemma commit_mirror_out:
  assumes "commit_mirror cr q q'" and "htlc_mirror h h'"
  shows "GenHTLCOut cr q' h' False = GenHTLCOut cr q h True"
  using assms commit_mirror_script [OF assms] by (simp add: GenHTLCOut_alt htlc_mirror_def)

lemma map_res_mirror:
  assumes "list_all2 R xs ys" and "\<And>x y. R x y \<Longrightarrow> g y = f x"
  shows "map_res g ys = map_res f xs"
  using assms(1) by (induction rule: list_all2_induct) (simp_all add: assms(2))

lemma live_htlcs_mirror:
  assumes "commit_mirror cr q q'"
  shows "list_all2 htlc_mirror (live_htlcs (q_State q)) (live_htlcs (q_State q'))"
proof -
  have "list_all2 htlc_mirror (filter htlc_active hs) (filter htlc_active hs')"
    if "list_all2 htlc_mirror hs hs'" for hs hs'
    using that by (induction rule: list_all2_induct) (auto simp: htlc_mirror_active)
  moreover have "list_all2 htlc_mirror (case_option [] (\<lambda>h. [h]) o1) (case_option [] (\<lambda>h. [h]) o')"
    if "rel_option htlc_mirror o1 o'" for o1 o'
    using that by cases simp_all
  ultimately show ?thesis
    using assms by (auto simp: live_htlcs_def commit_mirror_def intro!: list_all2_appendI)
qed

lemma htlc_at_mirror:
  assumes "commit_mirror cr q q'"
  shows "rel_sum (=) htlc_mirror (htlc_at (q_State q) j) (htlc_at (q_State q') j)"
proof -
  have l: "length (st_HTLCs (q_State q')) = length (st_HTLCs (q_State q))"
    using assms by (auto simp: commit_mirror_def dest: list_all2_lengthD)
  have o: "rel_sum (=) htlc_mirror (case_option (Inl Panic) Inr o1) (case_option (Inl Panic) Inr o')"
    if "rel_option htlc_mirror o1 o'" for o1 o'
    using that by cases simp_all
  from assms l o show ?thesis
    by (auto simp: htlc_at_def commit_mirror_def intro: list_all2_nthD)
qed

lemma htlc_spend_mirror:
  assumes "commit_mirror cr q q'"
  shows "htlc_spend cr q' False rp tp tx j h = htlc_spend cr q True rp tp tx j h"
proof -
  have e: "st_Fee (q_State q') = st_Fee (q_State q)" "q_Delay q' = q_Delay q"
    using assms by (simp_all add: commit_mirror_def static_mirror_def)
  show ?thesis
    using htlc_at_mirror [OF assms, of j]
    by (cases rule: rel_sum.cases) (simp_all add: htlc_spend_def e Let_def htlc_mirror_def)
qed

lemma htlc_spends_mirror:
  assumes "commit_mirror cr q q'"
  shows "htlc_spends cr q' False rp tp tx outs = htlc_spends cr q True rp tp tx outs"
  by (simp add: htlc_spends_def htlc_spend_mirror [OF assms])

lemma BuildStateTxs_mirror:
  assumes "commit_mirror cr q q'"
  shows "BuildStateTxs cr q True = BuildStateTxs cr q' False"
proof -
  have hint: "GetChanHint cr q' False = GetChanHint cr q True"
    and s: "st_StateIdx (q_State q') = st_StateIdx (q_State q)" "q_Op q' = q_Op q" "q_Delay q' = q_Delay q"
    using assms by (simp_all add: GetChanHint_def commit_mirror_def static_mirror_def)
  have outs: "map_res (\<lambda>h. GenHTLCOut cr q' h False) (live_htlcs (q_State q')) =
      map_res (\<lambda>h. GenHTLCOut cr q h True) (live_htlcs (q_State q))"
    using live_htlcs_mirror [OF assms] commit_mirror_out [OF assms] by (rule map_res_mirror)
  show ?thesis
    by (simp add: BuildStateTxs_def commit_mirror_keys [OF assms] commit_mirror_amts [OF assms] hint s
        htlc_spends_mirror [OF assms] outs Let_def cong: if_cong prod.case_cong)
qed

text \<open>C7: For two views of one channel at one state, the commitment transaction a party builds for itself
  is the one its counterparty builds for it, with the same HTLC-spending transactions and HTLC outputs,
  or both report the same error.\<close>

theorem commitment_agreement:
  assumes "commit_mirror cr q q'"
  shows "BuildStateTxs cr q True = BuildStateTxs cr q' False"
  using assms by (rule BuildStateTxs_mirror)

section \<open>State numbers, outputs and balances of a commitment transaction\<close>

lemma le_val_zeros: "le_val (xs @ [0, 0]) = le_val xs"
  by (induction xs) simp_all

lemma GetChanHint_bound:
  assumes "\<forall>b. length (cr_DoubleHash cr b) = 32"
  shows "GetChanHint cr q mine < 2 ^ 48"
proof -
  have "BtU64 ([0, 0] @ ys) < 2 ^ 48" if "length ys = 6" for ys
  proof -
    have "be_val ys < 2 ^ 48"
      using be_val_bound [of ys] that by simp
    moreover have "be_val (0 # 0 # ys) = be_val ys"
      by (simp add: be_val_def le_val_zeros)
    ultimately show ?thesis
      using that by (simp add: BtU64_def word_less_nat_alt unat_of_nat)
  qed
  with assms show ?thesis
    by (simp add: GetChanHint_def Let_def)
qed

text \<open>The state number of every commitment transaction below 2^48 can be read back from it with the
  hint of the channel.\<close>

theorem commitment_state_index:
  assumes "BuildStateTxs cr q mine = Inr (tx, spends, outs)"
    and "st_StateIdx (q_State q) < 2 ^ 48"
    and "\<forall>b. length (cr_DoubleHash cr b) = 32"
  shows "GetStateIdxFromTx tx (GetChanHint cr q mine) = st_StateIdx (q_State q)"
proof -
  have "GetChanHint cr q mine < 2 ^ 48"
    using assms(3) by (rule GetChanHint_bound)
  with assms(1,2) show ?thesis
    by (elim BuildStateTxs_elim) (simp add: GetSet_StateIdx)
qed

text \<open>Balances and amounts of a state that do not overflow.\<close>

definition sound_amounts :: "qchan \<Rightarrow> bool" where
  "sound_amounts q \<longleftrightarrow>
     (let s = q_State q; pending = sum_list (map ht_Amt (live_htlcs s)) in
      0 \<le> st_Fee s \<and> st_Fee s < 2 ^ 62 \<and> 0 \<le> st_MyAmt s \<and> q_Value q < 2 ^ 62 \<and>
      (\<forall>h \<in> set (live_htlcs s). 0 \<le> ht_Amt h) \<and> st_MyAmt s + pending \<le> q_Value q)"

lemma fold_live:
  assumes "\<forall>h \<in> set (filter htlc_active hs). 0 \<le> ht_Amt h"
    "sum_list (map ht_Amt (filter htlc_active hs)) \<le> v" "v < 2 ^ 62"
  shows "fold (\<lambda>h v. if \<not> ht_Cleared h \<and> \<not> ht_Clearing h then i64 (v - ht_Amt h) else v) hs v =
     v - sum_list (map ht_Amt (filter htlc_active hs))"
  using assms
proof (induction hs arbitrary: v)
  case (Cons h hs)
  have "0 \<le> sum_list (map ht_Amt (filter htlc_active hs))"
    using Cons.prems(1) by (intro sum_list_nonneg) auto
  moreover have "(\<not> ht_Cleared h \<and> \<not> ht_Clearing h) = htlc_active h"
    by (auto simp: htlc_active_def)
  ultimately show ?case
    using Cons.prems Cons.IH [of "v - ht_Amt h"] Cons.IH [of v] by (auto simp: i64_id)
qed simp

lemma state_value_sound:
  assumes "sound_amounts q"
  shows "state_value q = q_Value q - sum_list (map ht_Amt (live_htlcs (q_State q)))"
proof -
  let ?s = "q_State q" let ?a = "sum_list (map ht_Amt (filter htlc_active (st_HTLCs ?s)))"
  have "0 \<le> ?a"
    using assms by (intro sum_list_nonneg) (auto simp: sound_amounts_def live_htlcs_def Let_def)
  with assms show ?thesis
    by (cases "st_InProgHTLC ?s"; cases "st_CollidingHTLC ?s")
      (auto simp: sound_amounts_def live_htlcs_def state_value_def Let_def i64_id fold_live)
qed

lemma GenHTLCOut_value: "GenHTLCOut cr q h mine = Inr out \<Longrightarrow> to_Value out = of_int (ht_Amt h)"
  by (auto simp: GenHTLCOut_alt bind_res_eq_Inr NewTxOut_def)

lemma live_amounts:
  assumes "sound_amounts q" and "map_res (\<lambda>h. GenHTLCOut cr q h mine) (live_htlcs (q_State q)) = Inr outs"
  shows "map (\<lambda>out. sint (to_Value out)) outs = map ht_Amt (live_htlcs (q_State q))"
    and "\<forall>out \<in> set outs. 0 \<le> sint (to_Value out)"
proof -
  let ?L = "live_htlcs (q_State q)"
  have pos: "\<forall>h \<in> set ?L. 0 \<le> ht_Amt h" and tot: "sum_list (map ht_Amt ?L) < 2 ^ 63"
    using assms(1) by (auto simp: sound_amounts_def Let_def)
  have le: "ht_Amt h < 2 ^ 63" if "h \<in> set ?L" for h
  proof -
    have "ht_Amt h \<le> sum_list (map ht_Amt ?L)"
      using pos that by (intro member_le_sum_list) auto
    with tot show ?thesis by linarith
  qed
  have r: "list_all2 (\<lambda>h out. GenHTLCOut cr q h mine = Inr out) ?L outs"
    using assms(2) by (simp add: map_res_Inr)
  then show e: "map (\<lambda>out. sint (to_Value out)) outs = map ht_Amt ?L"
  proof (intro nth_equalityI)
    fix i assume "i < length (map (\<lambda>out. sint (to_Value out)) outs)"
    then have i: "i < length ?L" "GenHTLCOut cr q (?L ! i) mine = Inr (outs ! i)"
      using r by (auto simp: list_all2_conv_all_nth)
    then show "map (\<lambda>out. sint (to_Value out)) outs ! i = map ht_Amt ?L ! i"
      using bspec [OF pos nth_mem [OF i(1)]] le [OF nth_mem [OF i(1)]] i(1) list_all2_lengthD [OF r]
      by (simp add: GenHTLCOut_value [OF i(2)] sint_of_int64)
  qed (use r in \<open>simp add: list_all2_lengthD\<close>)
  have "\<forall>v \<in> set (map (\<lambda>out. sint (to_Value out)) outs). 0 \<le> v"
    unfolding e using pos by simp
  then show "\<forall>out \<in> set outs. 0 \<le> sint (to_Value out)" by simp
qed

lemma htlc_spends_min:
  assumes "htlc_spends cr q mine rp tp tx outs = Inr m" and "out \<in> set outs"
  shows "MinOutput \<le> i64 (sint (to_Value out) - st_Fee (q_State q))"
proof -
  have "\<forall>(j, h) \<in> set xs. MinOutput \<le> i64 (sint (to_Value h) - st_Fee (q_State q))"
    if "fold_res (\<lambda>m (j, h). bind_res (htlc_spend cr q mine rp tp tx j h) (\<lambda>(i, sp). Inr (map_put i sp m))) m0 xs = Inr m"
    for xs m0
    using that
    by (induction xs arbitrary: m0) (auto simp: bind_res_eq_Inr htlc_spend_def Let_def split: if_splits)
  moreover obtain j where "(j, out) \<in> set (zip [0..<length outs] outs)"
    using assms(2) by (fastforce simp: in_set_conv_nth in_set_zip)
  ultimately show ?thesis
    using assms(1) unfolding htlc_spends_def by blast
qed

text \<open>C29: In a commitment transaction built from balances that do not overflow, every output is worth at
  least \<open>MinOutput\<close>, and the outputs together with one fee for each party that has a balance make up exactly
  the value of the channel.\<close>

theorem commitment_outputs:
  assumes "BuildStateTxs cr q mine = Inr (tx, spends, outs)" and "sound_amounts q"
  shows "(\<forall>out \<in> set (tx_TxOut tx). MinOutput \<le> sint (to_Value out)) \<and>
    sum_list (map (\<lambda>out. sint (to_Value out)) (tx_TxOut tx)) +
      st_Fee (q_State q) * ((if 0 < st_MyAmt (q_State q) then 1 else 0) +
        (if st_MyAmt (q_State q) < state_value q then 1 else 0)) = q_Value q"
proof -
  let ?s = "q_State q" let ?L = "live_htlcs ?s"
  obtain fancy pkh m fs ps rp tp where b: "output_amts q mine = (fancy, pkh)"
    "fancy \<noteq> 0 \<longrightarrow> MinOutput \<le> fancy" "pkh \<noteq> 0 \<longrightarrow> MinOutput \<le> pkh"
    "map_res (\<lambda>h. GenHTLCOut cr q h mine) ?L = Inr outs"
    "tx_TxOut tx = sort_by output_less (commit_outs fancy pkh fs ps outs)"
    "htlc_spends cr q mine rp tp tx outs = Inr m"
    using assms(1) by (elim BuildStateTxs_elim) (auto simp: InPlaceSort_def SetStateIdxBits_fields)
  have pend: "0 \<le> sum_list (map ht_Amt ?L)"
    using assms(2) by (intro sum_list_nonneg) (auto simp: sound_amounts_def Let_def)
  note sv = state_value_sound [OF assms(2)]
  have am: "fancy + pkh + st_Fee ?s * ((if 0 < st_MyAmt ?s then 1 else 0) +
      (if st_MyAmt ?s < state_value q then 1 else 0)) = state_value q"
    and rng: "fancy < 2 ^ 63" "pkh < 2 ^ 63"
    using b(1) assms(2) pend
    by (auto simp: output_amts_def Let_def sv sound_amounts_def i64_id split: if_splits)
  have rf: "sint (of_int fancy :: u64) = fancy" "sint (of_int pkh :: u64) = pkh"
    if "fancy \<noteq> 0 \<longrightarrow> MinOutput \<le> fancy" "pkh \<noteq> 0 \<longrightarrow> MinOutput \<le> pkh"
    using that rng by (cases "fancy = 0"; cases "pkh = 0"; auto simp: sint_of_int64 MinOutput_def)+
  have sum: "sum_list (map (\<lambda>out. sint (to_Value out)) (tx_TxOut tx)) = fancy + pkh + sum_list (map ht_Amt ?L)"
    using rf [OF b(2,3)] live_amounts(1) [OF assms(2) b(4)]
    by (simp add: b(5) sum_sort_by commit_outs_def NewTxOut_def)
  have "MinOutput \<le> sint (to_Value out)" if "out \<in> set outs" for out
  proof -
    have "0 \<le> sint (to_Value out)" using live_amounts(2) [OF assms(2) b(4)] that by blast
    moreover have "0 \<le> st_Fee ?s" "st_Fee ?s < 2 ^ 62"
      using assms(2) by (auto simp: sound_amounts_def Let_def)
    ultimately show ?thesis
      using htlc_spends_min [OF b(6) that] sint64_range [of "to_Value out"] by (simp add: i64_id)
  qed
  then have "\<forall>out \<in> set (tx_TxOut tx). MinOutput \<le> sint (to_Value out)"
    using rf [OF b(2,3)] b(2,3) by (auto simp: b(5) commit_outs_def NewTxOut_def split: if_splits)
  with sum am sv show ?thesis by auto
qed

section \<open>Cooperative close, and positions of cleared HTLCs\<close>

text \<open>The closing transaction that pays two balances \<open>a\<close> and \<open>b\<close>, less the fee, to two scripts.\<close>

definition paying :: "outpoint \<Rightarrow> int \<Rightarrow> int \<Rightarrow> bytes \<Rightarrow> bytes \<Rightarrow> lit_error + msg_tx" where
  "paying op a b sa sb =
     (if a = 0 \<and> b = 0 then Inl OutOfRange
      else if a \<noteq> 0 \<and> a < MinOutput then Inl OutOfRange
      else if b \<noteq> 0 \<and> b < MinOutput then Inl OutOfRange
      else Inr \<lparr>tx_Version = 1, tx_TxIn = [NewTxIn op [] []], tx_TxOut = sort_by output_less
        ((if a \<noteq> 0 then [NewTxOut (of_int a) sa] else []) @ (if b \<noteq> 0 then [NewTxOut (of_int b) sb] else [])),
        tx_LockTime = 0\<rparr>)"

definition less_fee :: "int \<Rightarrow> int \<Rightarrow> int" where
  "less_fee fee x = (if x \<noteq> 0 then i64 (x - fee) else 0)"

lemma paying_sym: "paying op a b sa sb = paying op b a sb sa"
proof -
  have sw: "sort_by output_less [x, y] = sort_by output_less [y, x]" for x y
    using output_less_total [of x y] by (auto simp: sort_by_def output_less_def dest: bytes_less_asym)
  show ?thesis using sw by (auto simp: paying_def)
qed

lemma SimpleCloseTx_paying:
  "SimpleCloseTx cr q = paying (q_Op q) (less_fee (st_Fee (q_State q)) (st_MyAmt (q_State q)))
     (less_fee (st_Fee (q_State q)) (i64 (q_Value q - st_MyAmt (q_State q))))
     (DirectWPKHScript cr (q_MyRefundPub q)) (DirectWPKHScript cr (q_TheirRefundPub q))"
proof -
  have "(if a = 0 \<and> b = 0 then Inl OutOfRange
     else if a \<noteq> 0 \<and> a < MinOutput then Inl OutOfRange else if b \<noteq> 0 \<and> b < MinOutput then Inl OutOfRange
     else Inr (InPlaceSort (AddTxIn (if b \<noteq> 0 then AddTxOut (if a \<noteq> 0 then AddTxOut NewMsgTx
       (NewTxOut (of_int a) sa) else NewMsgTx) (NewTxOut (of_int b) sb)
       else if a \<noteq> 0 then AddTxOut NewMsgTx (NewTxOut (of_int a) sa) else NewMsgTx) (NewTxIn (q_Op q) [] []))))
     = paying (q_Op q) a b sa sb" for a b sa sb
    by (cases "a = 0"; cases "b = 0") (simp_all add: paying_def AddTxIn_def AddTxOut_def NewMsgTx_def InPlaceSort_def)
  then show ?thesis unfolding SimpleCloseTx_def Let_def less_fee_def .
qed

lemma SimpleCloseTx_mirror:
  assumes "static_mirror q q'" and "st_Fee (q_State q') = st_Fee (q_State q)"
    and "st_MyAmt (q_State q) + st_MyAmt (q_State q') = q_Value q"
    and "- (2 ^ 63) \<le> st_MyAmt (q_State q)" "st_MyAmt (q_State q) < 2 ^ 63"
    and "- (2 ^ 63) \<le> st_MyAmt (q_State q')" "st_MyAmt (q_State q') < 2 ^ 63"
  shows "SimpleCloseTx cr q = SimpleCloseTx cr q'"
proof -
  have r: "i64 (q_Value q - st_MyAmt (q_State q)) = st_MyAmt (q_State q')"
    "i64 (q_Value q - st_MyAmt (q_State q')) = st_MyAmt (q_State q)"
    using assms(3-7) by (auto simp: i64_id)
  have m: "q_Value q' = q_Value q" "q_Op q' = q_Op q" "q_MyRefundPub q' = q_TheirRefundPub q"
    "q_TheirRefundPub q' = q_MyRefundPub q"
    using assms(1) by (simp_all add: static_mirror_def)
  show ?thesis
    unfolding SimpleCloseTx_paying m assms(2) r by (rule paying_sym)
qed

text \<open>Both parties of a channel without pending HTLCs build the same closing transaction.\<close>

theorem close_agreement:
  assumes "static_mirror q q'" and "st_Fee (q_State q') = st_Fee (q_State q)"
    and "st_MyAmt (q_State q) + st_MyAmt (q_State q') = q_Value q"
    and "- (2 ^ 63) \<le> st_MyAmt (q_State q)" "st_MyAmt (q_State q) < 2 ^ 63"
    and "- (2 ^ 63) \<le> st_MyAmt (q_State q')" "st_MyAmt (q_State q') < 2 ^ 63"
  shows "SimpleCloseTx cr q = SimpleCloseTx cr q'"
  using assms by (rule SimpleCloseTx_mirror)

text \<open>With a cleared HTLC before the only active one, the transaction spending the active HTLC's output
  takes direction and lock time from the cleared one.\<close>

theorem cleared_htlc_shifts_locktime:
  assumes "BuildStateTxs cr q mine = Inr (tx, spends, outs)"
    and "st_HTLCs (q_State q) = [c, h]" "ht_Cleared c" "htlc_active h"
    and "st_InProgHTLC (q_State q) = None" "st_CollidingHTLC (q_State q) = None"
  shows "\<exists>sp. spends = [sp] \<and> tx_LockTime sp = (if ht_Incoming c = mine then 0 else ht_Locktime c)"
proof -
  have l: "live_htlcs (q_State q) = [h]"
    using assms(2-) by (simp add: live_htlcs_def htlc_active_def)
  obtain rp tp m fancy pkh fs ps where m: "map_res (\<lambda>h. GenHTLCOut cr q h mine) [h] = Inr outs"
    "htlc_spends cr q mine rp tp tx outs = Inr m" "spends = map_arr m"
    "tx_TxOut tx = sort_by output_less (commit_outs fancy pkh fs ps outs)"
    using assms(1) by (elim BuildStateTxs_elim) (auto simp: l InPlaceSort_def SetStateIdxBits_fields)
  then obtain out where out: "outs = [out]"
    by (auto simp: bind_res_eq_Inr)
  have "length (tx_TxOut tx) \<le> 3"
    by (simp add: m(4) commit_outs_def out)
  then have v: "find_vout tx out < 3"
    using find_vout_bound [of tx out] by linarith
  obtain sp where "m = [(find_vout tx out, sp)]" "tx_LockTime sp = (if ht_Incoming c = mine then 0 else ht_Locktime c)"
    using m(2) assms(2)
    by (auto simp: out htlc_spends_def htlc_spend_def bind_res_eq_Inr Let_def htlc_at_def map_put_def split: if_splits)
  moreover from this(1) v have "map_arr m = [sp]"
    by (auto simp: map_arr_def upt_rec)
  ultimately show ?thesis using m(3) by simp
qed

section \<open>A small channel\<close>

text \<open>Parties 1 and 2 with toy primitives and a channel of one million, at state \<open>i\<close>.\<close>

definition toy_crypto :: crypto where
  "toy_crypto = \<lparr>cr_Sha256 = (\<lambda>x. replicate 32 0), cr_DoubleHash = (\<lambda>x. take 32 (x @ replicate 32 0)),
     cr_Hash160 = (\<lambda>x. take 20 (x @ replicate 20 0)), cr_CombinePubs = (\<lambda>a b. a),
     cr_AddPubsEZ = (\<lambda>a b. a), cr_PubFromHash = (\<lambda>h. 2 # h)\<rparr>"

definition toy_point :: "byte \<Rightarrow> u64 \<Rightarrow> bytes" where
  "toy_point r i = (case sender_AtIndex (cr_DoubleHash toy_crypto) (NewElkremSender (replicate 32 r)) i of
     Inl e \<Rightarrow> [] | Inr h \<Rightarrow> ElkPointFromHash toy_crypto h)"

definition toy_htlc :: "byte \<Rightarrow> byte \<Rightarrow> bool \<Rightarrow> u32 \<Rightarrow> bool \<Rightarrow> htlc" where
  "toy_htlc me them inc lt clr =
     \<lparr>ht_Idx = 0, ht_Incoming = inc, ht_Amt = 200000, ht_RHash = replicate 32 9, ht_Locktime = lt,
      ht_MyHTLCBase = replicate 33 me, ht_TheirHTLCBase = replicate 33 them,
      ht_KeyGen = \<lparr>kg_Depth = 5, kg_Step = [0, 0, 0, 0, 0], kg_PrivKey = []\<rparr>, ht_Sig = replicate 64 0,
      ht_R = replicate 16 0, ht_Clearing = clr, ht_Cleared = clr, ht_ClearedOnChain = False\<rparr>"

definition toy_chan :: "byte \<Rightarrow> byte \<Rightarrow> u64 \<Rightarrow> int \<Rightarrow> int \<Rightarrow> htlc list \<Rightarrow> qchan" where
  "toy_chan me them i amt fee hs =
     \<lparr>q_Txo = \<lparr>px_Op = \<lparr>op_Hash = replicate 32 7, op_Index = 0\<rparr>, px_Value = 1000000, px_Height = 500, px_Seq = 0,
        px_Mode = 0, px_KeyGen = \<lparr>kg_Depth = 5, kg_Step = [44 OR hardened, 1 OR hardened, 0, ucast them OR hardened,
        1 OR hardened], kg_PrivKey = []\<rparr>, px_PkScript = [], px_PreSigStack = []\<rparr>,
      q_CloseData = \<lparr>cl_CloseTxid = replicate 32 0, cl_CloseHeight = 0, cl_Closed = False\<rparr>,
      q_MyPub = replicate 33 me, q_TheirPub = replicate 33 them, q_MyRefundPub = replicate 33 me,
      q_TheirRefundPub = replicate 33 them, q_MyHAKDBase = replicate 33 me, q_TheirHAKDBase = replicate 33 them,
      q_WatchRefundAdr = replicate 20 0, q_ElkSnd = NewElkremSender (replicate 32 me),
      q_ElkRcv = NewElkremReceiver, q_Delay = 5,
      q_State = \<lparr>st_StateIdx = i, st_WatchUpTo = 0, st_MyAmt = amt, st_Fee = fee, st_Data = replicate 32 0,
        st_Delta = 0, st_Collision = 0, st_ElkPoint = toy_point them i, st_NextElkPoint = toy_point them (i + 1),
        st_N2ElkPoint = toy_point them (i + 2), st_Sig = replicate 64 0, st_HTLCIdx = 0, st_InProgHTLC = None,
        st_CollidingHTLC = None, st_CollidingHashDelta = False, st_CollidingHashPreimage = False,
        st_CollidingPreimages = False, st_CollidingPreimageDelta = False, st_NextHTLCBase = [], st_N2HTLCBase = [],
        st_MyNextHTLCBase = [], st_MyN2HTLCBase = [], st_HTLCs = hs, st_Failed = False\<rparr>,
      q_ClearToSend = True, q_LastUpdate = 0\<rparr>"

lemma toy_chan_elk:
  assumes "i \<le> maxIndex"
  shows "ElkPoint toy_crypto (toy_chan me them j a f hs) False i = Inr (toy_point me i)"
  using assms by (simp add: ElkPoint_def toy_chan_def toy_point_def sender_AtIndex_elk)

lemma toy_state_idx [simp]: "st_StateIdx (q_State (toy_chan me them i a f hs)) = i"
  by (simp add: toy_chan_def)

theorem commitment_agreement_witness:
  "BuildStateTxs toy_crypto (toy_chan 1 2 3 500000 1000 [toy_htlc 1 2 True 600 False]) True =
   BuildStateTxs toy_crypto (toy_chan 2 1 3 300000 1000 [toy_htlc 2 1 False 600 False]) False"
proof (rule commitment_agreement)
  have e: "ElkPoint toy_crypto (toy_chan me them 3 a f hs) False 3 = Inr (toy_point me 3)" for me them a f hs
    by (rule toy_chan_elk) (simp add: maxIndex_def)
  show "commit_mirror toy_crypto (toy_chan 1 2 3 500000 1000 [toy_htlc 1 2 True 600 False])
      (toy_chan 2 1 3 300000 1000 [toy_htlc 2 1 False 600 False])"
    unfolding commit_mirror_def toy_state_idx e
    by (simp add: static_mirror_def toy_chan_def state_value_def Let_def toy_htlc_def htlc_mirror_def i64_id)
qed

lemma toy_build:
  "\<exists>tx spends outs. BuildStateTxs toy_crypto (toy_chan 1 2 3 500000 1000 [toy_htlc 1 2 True 600 True, toy_htlc 1 2 False 700 False])
     True = Inr (tx, spends, outs)"
proof -
  let ?q = "toy_chan 1 2 3 500000 1000 [toy_htlc 1 2 True 600 True, toy_htlc 1 2 False 700 False]"
  have e: "ElkPoint toy_crypto ?q False 3 = Inr (toy_point 1 3)"
    by (rule toy_chan_elk) (simp add: maxIndex_def)
  have a: "output_amts ?q True = (499000, 299000)"
    by (simp add: output_amts_def state_value_def Let_def toy_chan_def toy_htlc_def i64_id)
  have l: "live_htlcs (q_State ?q) = [toy_htlc 1 2 False 700 False]" "ht_Amt (toy_htlc 1 2 False 700 False) = 200000"
    by (simp_all add: live_htlcs_def toy_chan_def toy_htlc_def htlc_active_def)
  have h: "htlc_at (q_State ?q) 0 = Inr (toy_htlc 1 2 True 600 True)" "st_Fee (q_State ?q) = 1000"
    by (simp_all add: htlc_at_def toy_chan_def)
  show ?thesis
    by (simp add: BuildStateTxs_def GetKeysFromState_def GenHTLCOut_alt GenHTLCScript_def e a l h htlc_spends_def
       htlc_spend_def Let_def i64_id MinOutput_def NewTxOut_def AddTxOut_def)
qed

text \<open>The properties above on this channel.\<close>

theorem commitment_state_index_witness:
  "\<exists>tx spends outs. BuildStateTxs toy_crypto (toy_chan 1 2 3 500000 1000
     [toy_htlc 1 2 True 600 True, toy_htlc 1 2 False 700 False]) True = Inr (tx, spends, outs) \<and>
     GetStateIdxFromTx tx (GetChanHint toy_crypto (toy_chan 1 2 3 500000 1000
     [toy_htlc 1 2 True 600 True, toy_htlc 1 2 False 700 False]) True) = 3"
proof -
  obtain tx spends outs where b: "BuildStateTxs toy_crypto (toy_chan 1 2 3 500000 1000
     [toy_htlc 1 2 True 600 True, toy_htlc 1 2 False 700 False]) True = Inr (tx, spends, outs)"
    using toy_build by blast
  have "\<forall>b. length (cr_DoubleHash toy_crypto b) = 32"
    by (auto simp: toy_crypto_def)
  with commitment_state_index [OF b] b show ?thesis by simp
qed

theorem commitment_outputs_witness:
  "\<exists>tx spends outs. BuildStateTxs toy_crypto (toy_chan 1 2 3 500000 1000
     [toy_htlc 1 2 True 600 True, toy_htlc 1 2 False 700 False]) True = Inr (tx, spends, outs) \<and>
     (\<forall>out \<in> set (tx_TxOut tx). MinOutput \<le> sint (to_Value out))"
proof -
  obtain tx spends outs where b: "BuildStateTxs toy_crypto (toy_chan 1 2 3 500000 1000
     [toy_htlc 1 2 True 600 True, toy_htlc 1 2 False 700 False]) True = Inr (tx, spends, outs)"
    using toy_build by blast
  have "live_htlcs (q_State (toy_chan 1 2 3 500000 1000
     [toy_htlc 1 2 True 600 True, toy_htlc 1 2 False 700 False])) = [toy_htlc 1 2 False 700 False]" "ht_Amt (toy_htlc 1 2 False 700 False) = 200000"
    by (simp_all add: live_htlcs_def toy_chan_def toy_htlc_def htlc_active_def)
  then have "sound_amounts (toy_chan 1 2 3 500000 1000
     [toy_htlc 1 2 True 600 True, toy_htlc 1 2 False 700 False])"
    by (simp add: sound_amounts_def) (simp add: toy_chan_def)
  with commitment_outputs [OF b] b show ?thesis by blast
qed

theorem cleared_htlc_shifts_locktime_witness:
  "\<exists>tx sp outs. BuildStateTxs toy_crypto (toy_chan 1 2 3 500000 1000
      [toy_htlc 1 2 True 600 True, toy_htlc 1 2 False 700 False]) True = Inr (tx, [sp], outs) \<and> tx_LockTime sp = 0"
proof -
  obtain tx spends outs where b: "BuildStateTxs toy_crypto (toy_chan 1 2 3 500000 1000
      [toy_htlc 1 2 True 600 True, toy_htlc 1 2 False 700 False]) True = Inr (tx, spends, outs)"
    using toy_build by blast
  have "\<exists>sp. spends = [sp] \<and> tx_LockTime sp = 0"
    using cleared_htlc_shifts_locktime [OF b, of "toy_htlc 1 2 True 600 True" "toy_htlc 1 2 False 700 False"]
    by (simp add: toy_chan_def toy_htlc_def htlc_active_def)
  with b show ?thesis by blast
qed

theorem close_agreement_witness:
  "SimpleCloseTx toy_crypto (toy_chan 1 2 3 600000 1000 []) = SimpleCloseTx toy_crypto (toy_chan 2 1 3 400000 1000 [])"
  by (rule close_agreement) (simp_all add: toy_chan_def static_mirror_def)

end
