(* ===== verification/Justice.thy ===== *)
theory Justice
  imports Commitment
begin

text \<open>
  The signatures kept for the watchtower (\<open>qln/justicetx.go\<close>): the 120-byte record of a justice
  transaction, and \<open>BuildJusticeSig\<close>, which signs, for a revoked state of the counterparty, the
  transaction that takes its revocable output.
\<close>

section \<open>The stored record\<close>

definition JusticeTxBump :: int where "JusticeTxBump = 100"

record justice_tx =
  jt_Sig :: bytes
  jt_Txid :: bytes
  jt_Amt :: int
  jt_Data :: bytes

definition JusticeTx_ToBytes :: "justice_tx \<Rightarrow> bytes" where
  "JusticeTx_ToBytes jte = jt_Sig jte @ jt_Txid jte @ I64tB (of_int (jt_Amt jte)) @ jt_Data jte"

definition JusticeTxFromBytes :: "bytes \<Rightarrow> lit_error + justice_tx" where
  "JusticeTxFromBytes jte =
     (if length jte < 120 \<or> 120 < length jte then Inl (BadLength (length jte))
      else Inr \<lparr>jt_Sig = copy_fresh 64 (take 64 jte), jt_Txid = copy_fresh 16 (take 16 (drop 64 jte)),
        jt_Amt = sint (BtI64 (take 8 (drop 80 jte))), jt_Data = copy_fresh 32 (drop 88 jte)\<rparr>)"

definition SaveJusticeSig :: "lit_node \<Rightarrow> u64 \<Rightarrow> bytes \<Rightarrow> bytes \<Rightarrow> lit_node" where
  "SaveJusticeSig nd comnum pkh txidsig =
     nd\<lparr>nd_Justice := (nd_Justice nd)(pkh := (nd_Justice nd pkh)(comnum := Some txidsig))\<rparr>"

definition LoadJusticeSig :: "lit_node \<Rightarrow> u64 \<Rightarrow> bytes \<Rightarrow> lit_error + justice_tx" where
  "LoadJusticeSig nd comnum pkh =
     (case nd_Justice nd pkh comnum of None \<Rightarrow> Inl OutOfRange | Some b \<Rightarrow> JusticeTxFromBytes b)"

section \<open>Building a justice signature\<close>

text \<open>
  The channel handed in is one state old. Its remote elkrem point is overwritten even when a later step
  fails, so the channel is returned with the error, next to the node.
\<close>

definition BuildJusticeSig :: "node_env \<Rightarrow> lit_node \<Rightarrow> qchan \<Rightarrow> lit_node \<times> qchan \<times> lit_error option" where
  "BuildJusticeSig ev nd q =
     (let cr = ev_crypto ev in
      case ev_wallet ev (Qchan_Coin q) of None \<Rightarrow> (nd, q, Some OutOfRange)
      | Some wal \<Rightarrow>
        (let fee = i64 (JusticeTxBump * wl_Fee wal) in
         case receiver_AtIndex (cr_DoubleHash cr) (q_ElkRcv q) (st_StateIdx (q_State q)) of
           Inl e \<Rightarrow> (nd, q, Some e)
         | Inr elk \<Rightarrow>
           (let elkScalar = ElkScalar cr elk;
                elkPoint = ElkPointFromHash cr elk;
                q = q\<lparr>q_State := (q_State q)\<lparr>st_ElkPoint := elkPoint\<rparr>\<rparr>;
                badRevokePub = cr_CombinePubs cr (q_MyHAKDBase q) elkPoint;
                badTimeoutPub = cr_AddPubsEZ cr (q_TheirHAKDBase q) elkPoint;
                script = CommitScript badRevokePub badTimeoutPub (q_Delay q);
                scriptHashOutScript = P2WSHify cr script;
                res = bind_res (BuildStateTxs cr q False) (\<lambda>(badTx, spends, outs).
                  case find_idx (\<lambda>out. to_PkScript out = scriptHashOutScript) (tx_TxOut badTx) of
                    None \<Rightarrow> Inl OutOfRange
                  | Some badIdx \<Rightarrow>
                    (let badAmt = sint (to_Value (tx_TxOut badTx ! badIdx)) in
                     bind_res (ev_GetPriv ev ((q_KeyGen q)\<lparr>kg_Step := (kg_Step (q_KeyGen q))[2 := UseChannelHAKDBase]\<rparr>))
                       (\<lambda>privBase.
                     let badTxid = TxHash cr badTx;
                         justiceIn = (NewTxIn \<lparr>op_Hash = badTxid, op_Index = of_nat badIdx\<rparr> [] [])\<lparr>ti_Sequence := 1\<rparr>;
                         justiceOut = NewTxOut (of_int (i64 (badAmt - fee))) (DirectWPKHScriptFromPKH (q_WatchRefundAdr q));
                         justiceTx = AddTxOut (AddTxIn (NewMsgTx\<lparr>tx_Version := 2\<rparr>) justiceIn) justiceOut
                     in bind_res (ev_sign ev (ev_CombinePriv ev privBase elkScalar) script justiceTx badAmt) (\<lambda>sig.
                          Inr (JusticeTx_ToBytes \<lparr>jt_Sig = copy_fresh 64 sig, jt_Txid = copy_fresh 16 (take 16 badTxid),
                            jt_Amt = st_MyAmt (q_State q), jt_Data = st_Data (q_State q)\<rparr>)))))
            in case res of Inl e \<Rightarrow> (nd, q, Some e)
               | Inr b \<Rightarrow> (SaveJusticeSig nd (st_StateIdx (q_State q)) (q_WatchRefundAdr q) b, q, None))))"

section \<open>Properties\<close>

lemma justice_load:
  assumes "length (jt_Sig j) = 64" "length (jt_Txid j) = 16" "length (jt_Data j) = 32"
    and "- (2 ^ 63) \<le> jt_Amt j" "jt_Amt j < 2 ^ 63"
  shows "LoadJusticeSig (SaveJusticeSig nd n pkh (JusticeTx_ToBytes j)) n pkh = Inr j"
proof -
  have "sint (BtI64 (I64tB (of_int (jt_Amt j)))) = jt_Amt j"
    using assms by (simp add: sint_of_int64 BtI64_def I64tB_def)
  with assms show ?thesis
    by (simp add: LoadJusticeSig_def SaveJusticeSig_def JusticeTxFromBytes_def JusticeTx_ToBytes_def copy_fresh_full I64tB_def)
qed

text \<open>A justice record with fields of the Go widths survives storing and loading.\<close>

theorem justice_roundtrip:
  assumes "length (jt_Sig j) = 64" "length (jt_Txid j) = 16" "length (jt_Data j) = 32"
    and "- (2 ^ 63) \<le> jt_Amt j" "jt_Amt j < 2 ^ 63"
  shows "LoadJusticeSig (SaveJusticeSig nd n pkh (JusticeTx_ToBytes j)) n pkh = Inr j"
  using assms by (rule justice_load)

text \<open>A receiver that has just taken one hash, as every receiver in use has.\<close>

lemma one_hash_AtIndex:
  assumes "AddNext dh NewElkremReceiver (Some h) = Inr rcv"
  shows "receiver_AtIndex dh rcv w = (if w = 0 then Inr h else Inl OutOfRange)"
proof -
  have "descend dh 0 0 0 h = Inr h"
    by (simp add: descend_def descend_loop.simps)
  with assms show ?thesis
    by (auto simp: AddNext_def NewElkremReceiver_def receiver_AtIndex_def word_gt_0 split: option.splits)
qed

lemma no_justice:
  assumes "AddNext (ev_dh ev) NewElkremReceiver (Some h) = Inr (q_ElkRcv q)" "st_StateIdx (q_State q) \<noteq> 0"
  shows "\<exists>e. BuildJusticeSig ev nd q = (nd, q, Some e) \<and> e \<noteq> Panic"
  using assms(2)
  by (auto simp: BuildJusticeSig_def Let_def one_hash_AtIndex [OF assms(1)] split: option.splits)

text \<open>The transaction a justice signature is for: it spends output \<open>i\<close> of the transaction with the given hash.\<close>

definition justice_spend :: "bytes \<Rightarrow> nat \<Rightarrow> int \<Rightarrow> bytes \<Rightarrow> msg_tx" where
  "justice_spend txid i amt pkh = \<lparr>tx_Version = 2,
     tx_TxIn = [\<lparr>ti_PreviousOutPoint = \<lparr>op_Hash = txid, op_Index = of_nat i\<rparr>, ti_SignatureScript = [], ti_Witness = [], ti_Sequence = 1\<rparr>],
     tx_TxOut = [\<lparr>to_Value = of_int amt, to_PkScript = DirectWPKHScriptFromPKH pkh\<rparr>], tx_LockTime = 0\<rparr>"

lemma justice_spend_built:
  "AddTxOut (AddTxIn (NewMsgTx\<lparr>tx_Version := 2\<rparr>) ((NewTxIn \<lparr>op_Hash = txid, op_Index = of_nat i\<rparr> [] [])\<lparr>ti_Sequence := 1\<rparr>))
     (NewTxOut (of_int amt) (DirectWPKHScriptFromPKH pkh)) = justice_spend txid i amt pkh"
  by (simp add: justice_spend_def AddTxOut_def AddTxIn_def NewMsgTx_def NewTxIn_def NewTxOut_def)

text \<open>What a stored justice record rests on, in terms of the node that built it.\<close>

lemma BuildJusticeSig_built:
  assumes "BuildJusticeSig ev nd q = (nd', q', None)"
  shows "\<exists>wal elk badTx spends outs i priv sig.
    ev_wallet ev (Qchan_Coin q) = Some wal \<and>
    receiver_AtIndex (ev_dh ev) (q_ElkRcv q) (st_StateIdx (q_State q)) = Inr elk \<and>
    q' = q\<lparr>q_State := (q_State q)\<lparr>st_ElkPoint := ElkPointFromHash (ev_crypto ev) elk\<rparr>\<rparr> \<and>
    BuildStateTxs (ev_crypto ev) q' False = Inr (badTx, spends, outs) \<and>
    i < length (tx_TxOut badTx) \<and>
    to_PkScript (tx_TxOut badTx ! i) = P2WSHify (ev_crypto ev) (CommitScript
      (cr_CombinePubs (ev_crypto ev) (q_MyHAKDBase q) (ElkPointFromHash (ev_crypto ev) elk))
      (cr_AddPubsEZ (ev_crypto ev) (q_TheirHAKDBase q) (ElkPointFromHash (ev_crypto ev) elk)) (q_Delay q)) \<and>
    ev_GetPriv ev ((q_KeyGen q)\<lparr>kg_Step := (kg_Step (q_KeyGen q))[2 := UseChannelHAKDBase]\<rparr>) = Inr priv \<and>
    ev_sign ev (ev_CombinePriv ev priv (ElkScalar (ev_crypto ev) elk))
      (CommitScript (cr_CombinePubs (ev_crypto ev) (q_MyHAKDBase q) (ElkPointFromHash (ev_crypto ev) elk))
        (cr_AddPubsEZ (ev_crypto ev) (q_TheirHAKDBase q) (ElkPointFromHash (ev_crypto ev) elk)) (q_Delay q))
      (justice_spend (TxHash (ev_crypto ev) badTx) i
        (i64 (sint (to_Value (tx_TxOut badTx ! i)) - i64 (JusticeTxBump * wl_Fee wal))) (q_WatchRefundAdr q))
      (sint (to_Value (tx_TxOut badTx ! i))) = Inr sig \<and>
    nd' = SaveJusticeSig nd (st_StateIdx (q_State q)) (q_WatchRefundAdr q)
      (JusticeTx_ToBytes \<lparr>jt_Sig = copy_fresh 64 sig, jt_Txid = copy_fresh 16 (take 16 (TxHash (ev_crypto ev) badTx)),
        jt_Amt = st_MyAmt (q_State q), jt_Data = st_Data (q_State q)\<rparr>)"
proof -
  let ?cr = "ev_crypto ev"
  let ?fs = "\<lambda>elk. P2WSHify ?cr (CommitScript (cr_CombinePubs ?cr (q_MyHAKDBase q) (ElkPointFromHash ?cr elk))
      (cr_AddPubsEZ ?cr (q_TheirHAKDBase q) (ElkPointFromHash ?cr elk)) (q_Delay q))"
  obtain wal where w: "ev_wallet ev (Qchan_Coin q) = Some wal"
    using assms by (cases "ev_wallet ev (Qchan_Coin q)") (simp_all add: BuildJusticeSig_def)
  obtain elk where elk: "receiver_AtIndex (ev_dh ev) (q_ElkRcv q) (st_StateIdx (q_State q)) = Inr elk"
    using assms by (auto simp: BuildJusticeSig_def Let_def w split: sum.splits)
  obtain badTx spends outs i where b: "BuildStateTxs ?cr (q\<lparr>q_State := (q_State q)\<lparr>st_ElkPoint := ElkPointFromHash ?cr elk\<rparr>\<rparr>) False =
      Inr (badTx, spends, outs)" "find_idx (\<lambda>out. to_PkScript out = ?fs elk) (tx_TxOut badTx) = Some i"
    using assms by (auto simp: BuildJusticeSig_def Let_def w elk bind_res_eq_Inr split: option.splits sum.splits)
  let ?sc = "\<lambda>elk. CommitScript (cr_CombinePubs ?cr (q_MyHAKDBase q) (ElkPointFromHash ?cr elk))
      (cr_AddPubsEZ ?cr (q_TheirHAKDBase q) (ElkPointFromHash ?cr elk)) (q_Delay q)"
  obtain priv sig where s: "ev_GetPriv ev ((q_KeyGen q)\<lparr>kg_Step := (kg_Step (q_KeyGen q))[2 := UseChannelHAKDBase]\<rparr>) = Inr priv"
    "ev_sign ev (ev_CombinePriv ev priv (ElkScalar ?cr elk)) (?sc elk) (justice_spend (TxHash ?cr badTx) i
       (i64 (sint (to_Value (tx_TxOut badTx ! i)) - i64 (JusticeTxBump * wl_Fee wal))) (q_WatchRefundAdr q))
       (sint (to_Value (tx_TxOut badTx ! i))) = Inr sig"
    "q' = q\<lparr>q_State := (q_State q)\<lparr>st_ElkPoint := ElkPointFromHash ?cr elk\<rparr>\<rparr>"
    "nd' = SaveJusticeSig nd (st_StateIdx (q_State q)) (q_WatchRefundAdr q)
      (JusticeTx_ToBytes \<lparr>jt_Sig = copy_fresh 64 sig, jt_Txid = copy_fresh 16 (take 16 (TxHash ?cr badTx)),
        jt_Amt = st_MyAmt (q_State q), jt_Data = st_Data (q_State q)\<rparr>)"
    using assms by (auto simp: BuildJusticeSig_def Let_def w elk b bind_res_eq_Inr justice_spend_built split: sum.splits)
  show ?thesis
    using w elk b(1) s find_idx_Some [OF b(2)] by blast
qed

text \<open>C28: When a justice signature is stored, it is for the time-locked output of the commitment transaction that the
  counterparty itself builds for that state, under the revocation and timeout keys the counterparty uses there. The signature
  is made with the node's revocation key for that state (its base key combined with the scalar of the secret) over the
  transaction that spends this output, sequence 1, to the refund address, less a hundred times the fee rate; the record holds
  it with the first half of the hash of the commitment transaction, and is loaded again under the state number. The channel at
  hand is the counterparty's mirrored at that state (\<open>commit_mirror\<close>), with the secret's point in its place.\<close>

theorem justice_matches_commitment:
  assumes "BuildJusticeSig ev nd q = (nd', q', None)" and "commit_mirror (ev_crypto ev) peer q'"
    and "length (st_Data (q_State q)) = 32" "- (2 ^ 63) \<le> st_MyAmt (q_State q)" "st_MyAmt (q_State q) < 2 ^ 63"
    and "\<forall>b. length (cr_DoubleHash (ev_crypto ev) b) = 32"
  shows "\<exists>tx spends outs rev tmo pkh i wal elk priv sig j.
    BuildStateTxs (ev_crypto ev) peer True = Inr (tx, spends, outs) \<and>
    GetKeysFromState (ev_crypto ev) peer True = Inr (rev, tmo, pkh) \<and>
    i < length (tx_TxOut tx) \<and> to_PkScript (tx_TxOut tx ! i) = P2WSHify (ev_crypto ev) (CommitScript rev tmo (q_Delay peer)) \<and>
    ev_wallet ev (Qchan_Coin q) = Some wal \<and>
    receiver_AtIndex (ev_dh ev) (q_ElkRcv q) (st_StateIdx (q_State q)) = Inr elk \<and>
    ev_GetPriv ev ((q_KeyGen q)\<lparr>kg_Step := (kg_Step (q_KeyGen q))[2 := UseChannelHAKDBase]\<rparr>) = Inr priv \<and>
    ev_sign ev (ev_CombinePriv ev priv (ElkScalar (ev_crypto ev) elk)) (CommitScript rev tmo (q_Delay peer))
      (justice_spend (TxHash (ev_crypto ev) tx) i
        (i64 (sint (to_Value (tx_TxOut tx ! i)) - i64 (JusticeTxBump * wl_Fee wal))) (q_WatchRefundAdr q))
      (sint (to_Value (tx_TxOut tx ! i))) = Inr sig \<and>
    LoadJusticeSig nd' (st_StateIdx (q_State q)) (q_WatchRefundAdr q) = Inr j \<and> jt_Sig j = copy_fresh 64 sig \<and>
    jt_Txid j = take 16 (TxHash (ev_crypto ev) tx) \<and> jt_Amt j = st_MyAmt (q_State q) \<and> jt_Data j = st_Data (q_State q)"
proof -
  let ?cr = "ev_crypto ev"
  let ?rev = "\<lambda>elk. cr_CombinePubs ?cr (q_MyHAKDBase q) (ElkPointFromHash ?cr elk)"
    and ?tmo = "\<lambda>elk. cr_AddPubsEZ ?cr (q_TheirHAKDBase q) (ElkPointFromHash ?cr elk)"
  from BuildJusticeSig_built [OF assms(1)] obtain wal elk tx spends outs i priv sig where
    w: "ev_wallet ev (Qchan_Coin q) = Some wal" "receiver_AtIndex (ev_dh ev) (q_ElkRcv q) (st_StateIdx (q_State q)) = Inr elk"
    and q': "q' = q\<lparr>q_State := (q_State q)\<lparr>st_ElkPoint := ElkPointFromHash ?cr elk\<rparr>\<rparr>"
    and b: "BuildStateTxs ?cr q' False = Inr (tx, spends, outs)"
    and i: "i < length (tx_TxOut tx)" "to_PkScript (tx_TxOut tx ! i) = P2WSHify ?cr (CommitScript (?rev elk) (?tmo elk) (q_Delay q))"
    and s: "ev_GetPriv ev ((q_KeyGen q)\<lparr>kg_Step := (kg_Step (q_KeyGen q))[2 := UseChannelHAKDBase]\<rparr>) = Inr priv"
      "ev_sign ev (ev_CombinePriv ev priv (ElkScalar ?cr elk)) (CommitScript (?rev elk) (?tmo elk) (q_Delay q))
        (justice_spend (TxHash ?cr tx) i
          (i64 (sint (to_Value (tx_TxOut tx ! i)) - i64 (JusticeTxBump * wl_Fee wal))) (q_WatchRefundAdr q))
        (sint (to_Value (tx_TxOut tx ! i))) = Inr sig"
    and n: "nd' = SaveJusticeSig nd (st_StateIdx (q_State q)) (q_WatchRefundAdr q)
      (JusticeTx_ToBytes \<lparr>jt_Sig = copy_fresh 64 sig, jt_Txid = copy_fresh 16 (take 16 (TxHash ?cr tx)),
        jt_Amt = st_MyAmt (q_State q), jt_Data = st_Data (q_State q)\<rparr>)"
    by blast
  have d: "q_Delay peer = q_Delay q" using assms(2) by (simp add: commit_mirror_def static_mirror_def q')
  have k: "GetKeysFromState ?cr peer True = Inr (?rev elk, ?tmo elk, q_MyRefundPub q)"
    using commit_mirror_keys [OF assms(2)] by (simp add: q' GetKeysFromState_def)
  have "length (TxHash ?cr tx) = 32" using assms(6) by (simp add: TxHash_def)
  then have "LoadJusticeSig nd' (st_StateIdx (q_State q)) (q_WatchRefundAdr q) = Inr \<lparr>jt_Sig = copy_fresh 64 sig,
      jt_Txid = take 16 (TxHash ?cr tx), jt_Amt = st_MyAmt (q_State q), jt_Data = st_Data (q_State q)\<rparr>"
    using assms(3-5) by (simp add: n justice_load copy_fresh_full)
  with w b i s k d show ?thesis
    using BuildStateTxs_mirror [OF assms(2)] by auto
qed

section \<open>A small node\<close>

text \<open>The node of party \<open>me\<close>: every key of a party is the same, and a signature repeats the key.\<close>

definition toy_env :: "byte \<Rightarrow> node_env" where
  "toy_env me = \<lparr>ev_crypto = toy_crypto, ev_wallet = (\<lambda>c. Some \<lparr>wl_TestCoin = True, wl_Fee = 10, wl_Height = 500\<rparr>),
     ev_GetPub = (\<lambda>k. replicate 33 me), ev_GetPriv = (\<lambda>k. Inr (replicate 33 me)),
     ev_CombinePriv = (\<lambda>b s. b), ev_sign = (\<lambda>k script tx v. Inr (take 64 (k @ replicate 64 0))),
     ev_verify = (\<lambda>pub script tx v sig. sig = take 64 (pub @ replicate 64 0)), ev_now = 1,
     ev_connected = (\<lambda>p. True), ev_publish = True\<rparr>"

definition toy_node :: lit_node where
  "toy_node = \<lparr>nd_Channels = (\<lambda>k. None), nd_Justice = (\<lambda>p n. None), nd_InProgMultihop = [], nd_Payments = (\<lambda>k. None)\<rparr>"

theorem justice_roundtrip_witness:
  "LoadJusticeSig (SaveJusticeSig toy_node 3 [1] (JusticeTx_ToBytes
     \<lparr>jt_Sig = replicate 64 1, jt_Txid = replicate 16 2, jt_Amt = -5, jt_Data = replicate 32 3\<rparr>)) 3 [1] =
   Inr \<lparr>jt_Sig = replicate 64 1, jt_Txid = replicate 16 2, jt_Amt = -5, jt_Data = replicate 32 3\<rparr>"
  by (rule justice_roundtrip) simp_all

text \<open>A channel of the first party that knows the secret of the state it is in.\<close>

definition toy_punisher :: qchan where
  "toy_punisher = (toy_chan 1 2 0 600000 1000 [])\<lparr>q_ElkRcv :=
      \<lparr>elk_Nodes = Some [\<lparr>elk_H = 0, elk_I = 0, elk_Sha = Some (projr (sender_AtIndex (cr_DoubleHash toy_crypto)
        (NewElkremSender (replicate 32 2)) 0))\<rparr>]\<rparr>\<rparr>"

lemma toy_punisher_fields:
  "st_StateIdx (q_State toy_punisher) = 0" "st_Data (q_State toy_punisher) = replicate 32 0" "st_MyAmt (q_State toy_punisher) = 600000"
  "q_WatchRefundAdr toy_punisher = replicate 20 0" "q_Delay toy_punisher = 5" "live_htlcs (q_State toy_punisher) = []"
  "q_MyHAKDBase toy_punisher = replicate 33 1" "q_TheirHAKDBase toy_punisher = replicate 33 2" "q_ElkSnd toy_punisher = NewElkremSender (replicate 32 1)"
  by (simp_all add: toy_punisher_def toy_chan_def live_htlcs_def)

lemma toy_punisher_justice: "\<exists>nd'. BuildJusticeSig (toy_env 1) toy_node toy_punisher = (nd', toy_punisher, None)"
proof -
  let ?Q = toy_punisher
  obtain h where h: "sender_AtIndex (cr_DoubleHash toy_crypto) (NewElkremSender (replicate 32 2)) 0 = Inr h"
    using sender_AtIndex_elk [of 0] by (auto simp: maxIndex_def)
  have r: "receiver_AtIndex (cr_DoubleHash toy_crypto) (q_ElkRcv ?Q) 0 = Inr h"
    by (simp add: toy_punisher_def h receiver_AtIndex_def descend_def descend_loop.simps)
  have q': "?Q\<lparr>q_State := (q_State ?Q)\<lparr>st_ElkPoint := ElkPointFromHash toy_crypto h\<rparr>\<rparr> = ?Q"
    by (simp add: toy_punisher_def toy_chan_def toy_point_def h)
  let ?fs = "P2WSHify toy_crypto (CommitScript (replicate 33 1) (replicate 33 2) 5)"
  have a: "output_amts ?Q False = (399000, 599000)"
    by (simp add: toy_punisher_def output_amts_def state_value_def Let_def toy_chan_def i64_id)
  have k: "GetKeysFromState toy_crypto ?Q False = Inr (replicate 33 1, replicate 33 2, replicate 33 1)"
    by (simp add: toy_punisher_def GetKeysFromState_def toy_chan_def toy_crypto_def)
  obtain tx where tx: "BuildStateTxs toy_crypto ?Q False = Inr (tx, [], [])" "NewTxOut 399000 ?fs \<in> set (tx_TxOut tx)"
    using BuildStateTxs_plain [OF toy_punisher_fields(6) k a]
    by (auto simp: MinOutput_def SetStateIdxBits_fields InPlaceSort_def commit_outs_def toy_punisher_fields)
  then obtain i where i: "find_idx (\<lambda>out. to_PkScript out = ?fs) (tx_TxOut tx) = Some i"
    by (cases "find_idx (\<lambda>out. to_PkScript out = ?fs) (tx_TxOut tx)") (auto simp: find_idx_None NewTxOut_def)
  have env: "ev_crypto (toy_env 1) = toy_crypto" "ev_wallet (toy_env 1) c = Some \<lparr>wl_TestCoin = True, wl_Fee = 10, wl_Height = 500\<rparr>" "ev_GetPriv (toy_env 1) k = Inr (replicate 33 1)"
    "ev_sign (toy_env 1) k1 script t v = Inr (take 64 (k1 @ replicate 64 0))" for c k k1 script t v
    by (simp_all add: toy_env_def)
  have "cr_CombinePubs toy_crypto a b = a" "cr_AddPubsEZ toy_crypto a b = a" for a b
    by (simp_all add: toy_crypto_def)
  then show ?thesis
    by (simp add: BuildJusticeSig_def Let_def env r q' tx i toy_punisher_fields)
qed

theorem justice_matches_commitment_witness:
  "\<exists>nd' q' j. BuildJusticeSig (toy_env 1) toy_node toy_punisher = (nd', q', None) \<and>
     LoadJusticeSig nd' 0 (replicate 20 0) = Inr j \<and> jt_Amt j = 600000"
proof -
  let ?Q = toy_punisher and ?peer = "toy_chan 2 1 0 400000 1000 []"
  obtain nd' where b: "BuildJusticeSig (toy_env 1) toy_node ?Q = (nd', ?Q, None)" using toy_punisher_justice by blast
  have e: "ElkPoint toy_crypto ?peer False 0 = Inr (toy_point 2 0)" "ElkPoint toy_crypto ?Q False 0 = Inr (toy_point 1 0)"
    using toy_chan_elk [of 0] by (simp_all add: maxIndex_def ElkPoint_def toy_punisher_fields(9), simp add: toy_chan_def)
  have m: "commit_mirror toy_crypto ?peer ?Q"
    unfolding commit_mirror_def toy_state_idx e
    by (simp add: e toy_punisher_fields(1), simp add: toy_punisher_def static_mirror_def toy_chan_def state_value_def Let_def i64_id)
  have f: "ev_crypto (toy_env 1) = toy_crypto" "\<forall>b. length (cr_DoubleHash toy_crypto b) = 32"
    by (simp_all add: toy_env_def toy_crypto_def min_def)
  have "\<exists>j. LoadJusticeSig nd' 0 (replicate 20 0) = Inr j \<and> jt_Amt j = 600000"
    using justice_matches_commitment [OF b, of ?peer] m by (auto simp: f toy_punisher_fields)
  with b show ?thesis by blast
qed

end
