(* ===== verification/MsgDlc.thy ===== *)
theory MsgDlc
  imports MsgFunding
begin

text \<open>
  The messages that set up a discreet log contract (\<open>lnutil/msglib.go\<close>): offer, decline, accept,
  acknowledgement, funding signatures and signature proof.
\<close>

section \<open>Offer and decline\<close>

subsection \<open>\<open>DlcOfferMsg\<close>\<close>

record dlc_offer_msg =
  lo_PeerIdx :: u32
  lo_Contract :: dlc_contract

definition NewDlcOfferMsg :: "u32 \<Rightarrow> dlc_contract \<Rightarrow> dlc_offer_msg" where
  "NewDlcOfferMsg peerIdx contract = \<lparr>lo_PeerIdx = peerIdx, lo_Contract = contract\<rparr>"

definition NewDlcOfferMsgFromBytes :: "bytes \<Rightarrow> u32 \<Rightarrow> lit_error + dlc_offer_msg" where
  "NewDlcOfferMsgFromBytes b peerIDX =
     bind_res (strip_type b) (\<lambda>buf.
     bind_res (DlcContractFromBytes buf) (\<lambda>contract.
     Inr \<lparr>lo_PeerIdx = peerIDX, lo_Contract = contract\<rparr>))"

definition DlcOfferMsg_Bytes :: "dlc_offer_msg \<Rightarrow> bytes" where
  "DlcOfferMsg_Bytes m = 0x90 # DlcContract_Bytes (lo_Contract m)"

definition wf_dlc_offer_msg :: "dlc_offer_msg \<Rightarrow> bool" where
  "wf_dlc_offer_msg m \<longleftrightarrow> wf_contract (lo_Contract m)"

interpretation dlc_offer_msg_codec:
  msg_codec_total "0x90" "\<lambda>m. Inr (DlcOfferMsg_Bytes m)" NewDlcOfferMsgFromBytes lo_PeerIdx wf_dlc_offer_msg
  by unfold_locales
    (simp add: NewDlcOfferMsgFromBytes_def DlcOfferMsg_Bytes_def wf_dlc_offer_msg_def buf_simps DlcContract_decode,
     auto simp: NewDlcOfferMsgFromBytes_def wf_dlc_offer_msg_def msg_read_simps DlcContract_wf split: if_splits)

subsection \<open>\<open>DlcOfferDeclineMsg\<close>\<close>

record dlc_decline_msg =
  ld_PeerIdx :: u32
  ld_Idx :: u64
  ld_Reason :: byte

definition NewDlcOfferDeclineMsg :: "u32 \<Rightarrow> byte \<Rightarrow> u64 \<Rightarrow> dlc_decline_msg" where
  "NewDlcOfferDeclineMsg peerIdx reason theirIdx =
     \<lparr>ld_PeerIdx = peerIdx, ld_Idx = theirIdx, ld_Reason = reason\<rparr>"

definition NewDlcOfferDeclineMsgFromBytes :: "bytes \<Rightarrow> u32 \<Rightarrow> lit_error + dlc_decline_msg" where
  "NewDlcOfferDeclineMsgFromBytes b peerIdx =
     (if length b < 2 then Inl (TooShort (length b)) else
      bind_res (strip_type b) (\<lambda>buf.
      let (reason, buf) = read_be 1 buf; (idx, buf) = ReadVarInt_ign buf in
      Inr \<lparr>ld_PeerIdx = peerIdx, ld_Idx = idx, ld_Reason = of_nat reason\<rparr>))"

definition DlcOfferDeclineMsg_Bytes :: "dlc_decline_msg \<Rightarrow> bytes" where
  "DlcOfferDeclineMsg_Bytes m = 0x92 # [ld_Reason m] @ WriteVarInt (ld_Idx m)"

definition wf_dlc_decline_msg :: "dlc_decline_msg \<Rightarrow> bool" where
  "wf_dlc_decline_msg m \<longleftrightarrow> True"

interpretation dlc_decline_msg_codec:
  msg_codec_total "0x92" "\<lambda>m. Inr (DlcOfferDeclineMsg_Bytes m)" NewDlcOfferDeclineMsgFromBytes ld_PeerIdx
    wf_dlc_decline_msg
  by unfold_locales
    (simp add: NewDlcOfferDeclineMsgFromBytes_def DlcOfferDeclineMsg_Bytes_def wf_dlc_decline_msg_def buf_simps,
     auto simp: NewDlcOfferDeclineMsgFromBytes_def wf_dlc_decline_msg_def msg_read_simps split: if_splits)

section \<open>Accepting\<close>

text \<open>
  The inputs of an acceptance come value first, outpoint second (the other way round in a contract),
  and the scratch array \<open>op\<close> again survives from one round to the next.
\<close>

primrec read_accept_inputs :: "nat \<Rightarrow> bytes \<Rightarrow> bytes \<Rightarrow> dlc_input list \<times> bytes" where
  "read_accept_inputs 0 op b = ([], b)"
| "read_accept_inputs (Suc n) op b =
     (let (v, b1) = ReadVarInt_ign b; (x, b2) = buf_next 36 b1; op' = copy_over op x;
          (xs, b3) = read_accept_inputs n op' b2
      in (\<lparr>fi_Outpoint = OutPointFromBytes op', fi_Value = v\<rparr> # xs, b3))"

definition write_accept_input :: "dlc_input \<Rightarrow> bytes" where
  "write_accept_input i = WriteVarInt (fi_Value i) @ OutPointToBytes (fi_Outpoint i)"

definition read_accept_sig :: "bytes \<Rightarrow> dlc_sig \<times> bytes" where
  "read_accept_sig b =
     (let (v, b1) = ReadVarInt_ign b; (s, b2) = next_arr 64 b1
      in (\<lparr>ss_Outcome = v, ss_Signature = s\<rparr>, b2))"

lemma read_accept_inputs_write:
  "\<forall>i \<in> set xs. wf_dlc_input i \<Longrightarrow> n = length xs \<Longrightarrow> length op = 36 \<Longrightarrow>
   read_accept_inputs n op (concat (map write_accept_input xs) @ r) = (xs, r)"
proof (induction xs arbitrary: n op)
  case (Cons x xs)
  let ?op = "OutPointToBytes (fi_Outpoint x)"
  have "read_accept_inputs (length xs) ?op (concat (map write_accept_input xs) @ r) = (xs, r)"
    using Cons by simp
  with Cons.prems show ?case by (simp add: write_accept_input_def [of x] wf_dlc_input_def buf_simps Let_def)
qed simp

lemma read_accept_inputs_wf [simp]:
  "length (fst (read_accept_inputs n op b)) = n"
  "i \<in> set (fst (read_accept_inputs n op b)) \<Longrightarrow> wf_dlc_input i"
  by (induction n arbitrary: op b) (auto simp: Let_def case_prod_unfold wf_dlc_input_def)

interpretation accept_sig: field_codec write_dlc_sig read_accept_sig wf_dlc_sig
  by unfold_locales (simp add: read_accept_sig_def write_dlc_sig_def wf_dlc_sig_def buf_simps)

lemma read_accept_sigs_wf [simp]:
  "length (fst (read_list n read_accept_sig b)) = n"
  "s \<in> set (fst (read_list n read_accept_sig b)) \<Longrightarrow> wf_dlc_sig s"
  by (induction n arbitrary: b) (auto simp: Let_def case_prod_unfold wf_dlc_sig_def read_accept_sig_def)

record dlc_accept_msg =
  la_PeerIdx :: u32
  la_Idx :: u64
  la_OurIdx :: u64
  la_OurChangePKH :: bytes
  la_OurFundMultisigPub :: bytes
  la_OurPayoutBase :: bytes
  la_OurPayoutPKH :: bytes
  la_FundingInputs :: "dlc_input list"
  la_SettlementSignatures :: "dlc_sig list"

definition NewDlcOfferAcceptMsg :: "dlc_contract \<Rightarrow> dlc_sig list \<Rightarrow> dlc_accept_msg" where
  "NewDlcOfferAcceptMsg contract signatures =
     \<lparr>la_PeerIdx = dc_PeerIdx contract, la_Idx = dc_TheirIdx contract, la_OurIdx = dc_Idx contract,
      la_OurChangePKH = dc_OurChangePKH contract, la_OurFundMultisigPub = dc_OurFundMultisigPub contract,
      la_OurPayoutBase = dc_OurPayoutBase contract, la_OurPayoutPKH = dc_OurPayoutPKH contract,
      la_FundingInputs = dc_OurFundingInputs contract, la_SettlementSignatures = signatures\<rparr>"

definition NewDlcOfferAcceptMsgFromBytes :: "bytes \<Rightarrow> u32 \<Rightarrow> lit_error + dlc_accept_msg" where
  "NewDlcOfferAcceptMsgFromBytes b peerIdx =
     (if length b < 34 then Inl (TooShort (length b)) else
      bind_res (strip_type b) (\<lambda>buf.
      let (idx, buf) = ReadVarInt_ign buf; (ourIdx, buf) = ReadVarInt_ign buf;
          (ourChangePKH, buf) = next_arr 20 buf; (ourFundMultisigPub, buf) = next_arr 33 buf;
          (ourPayoutBase, buf) = next_arr 33 buf; (ourPayoutPKH, buf) = next_arr 20 buf;
          (inputCount, buf) = ReadVarInt_ign buf in
      bind_res (makeslice 48 inputCount) (\<lambda>n.
      let (inputs, buf) = read_accept_inputs n (replicate 36 0) buf;
          (sigCount, buf) = ReadVarInt_ign buf in
      bind_res (makeslice 72 sigCount) (\<lambda>n.
      let (sigs, buf) = read_list n read_accept_sig buf in
      Inr \<lparr>la_PeerIdx = peerIdx, la_Idx = idx, la_OurIdx = ourIdx, la_OurChangePKH = ourChangePKH,
        la_OurFundMultisigPub = ourFundMultisigPub, la_OurPayoutBase = ourPayoutBase,
        la_OurPayoutPKH = ourPayoutPKH, la_FundingInputs = inputs, la_SettlementSignatures = sigs\<rparr>))))"

definition DlcOfferAcceptMsg_Bytes :: "dlc_accept_msg \<Rightarrow> bytes" where
  "DlcOfferAcceptMsg_Bytes m =
     0x91 # WriteVarInt (la_Idx m) @ WriteVarInt (la_OurIdx m) @ la_OurChangePKH m @
       la_OurFundMultisigPub m @ la_OurPayoutBase m @ la_OurPayoutPKH m @
       WriteVarInt (len64 (la_FundingInputs m)) @ concat (map write_accept_input (la_FundingInputs m)) @
       WriteVarInt (len64 (la_SettlementSignatures m)) @ concat (map write_dlc_sig (la_SettlementSignatures m))"

definition wf_dlc_accept_msg :: "dlc_accept_msg \<Rightarrow> bool" where
  "wf_dlc_accept_msg m \<longleftrightarrow> length (la_OurChangePKH m) = 20 \<and> length (la_OurFundMultisigPub m) = 33 \<and>
     length (la_OurPayoutBase m) = 33 \<and> length (la_OurPayoutPKH m) = 20 \<and>
     (\<forall>i \<in> set (la_FundingInputs m). wf_dlc_input i) \<and>
     (\<forall>s \<in> set (la_SettlementSignatures m). wf_dlc_sig s) \<and>
     length (la_FundingInputs m) * 48 \<le> 2 ^ 48 \<and> length (la_SettlementSignatures m) * 72 \<le> 2 ^ 48"

interpretation dlc_accept_msg_codec:
  msg_codec_total "0x91" "\<lambda>m. Inr (DlcOfferAcceptMsg_Bytes m)" NewDlcOfferAcceptMsgFromBytes la_PeerIdx
    wf_dlc_accept_msg
  by unfold_locales
    (simp add: NewDlcOfferAcceptMsgFromBytes_def DlcOfferAcceptMsg_Bytes_def wf_dlc_accept_msg_def buf_simps
      makeslice_len read_accept_inputs_write accept_sig.read_list_total_exact,
     auto simp: NewDlcOfferAcceptMsgFromBytes_def wf_dlc_accept_msg_def msg_read_simps
      split: if_splits dest!: makeslice_bound)

section \<open>Acknowledging, funding, proof\<close>

definition read_ack_sig :: "bytes \<Rightarrow> dlc_sig \<times> bytes" where
  "read_ack_sig b =
     (let (v, b1) = read_be 8 b; (s, b2) = next_arr 64 b1
      in (\<lparr>ss_Outcome = of_nat v, ss_Signature = s\<rparr>, b2))"

definition write_ack_sig :: "dlc_sig \<Rightarrow> bytes" where
  "write_ack_sig s = be64 (ss_Outcome s) @ ss_Signature s"

interpretation ack_sig: field_codec write_ack_sig read_ack_sig wf_dlc_sig
  by unfold_locales (simp add: read_ack_sig_def write_ack_sig_def wf_dlc_sig_def buf_simps)

record dlc_ack_msg =
  lc_PeerIdx :: u32
  lc_Idx :: u64
  lc_SettlementSignatures :: "dlc_sig list"

definition NewDlcContractAckMsg :: "dlc_contract \<Rightarrow> dlc_sig list \<Rightarrow> dlc_ack_msg" where
  "NewDlcContractAckMsg contract signatures =
     \<lparr>lc_PeerIdx = dc_PeerIdx contract, lc_Idx = dc_TheirIdx contract, lc_SettlementSignatures = signatures\<rparr>"

definition NewDlcContractAckMsgFromBytes :: "bytes \<Rightarrow> u32 \<Rightarrow> lit_error + dlc_ack_msg" where
  "NewDlcContractAckMsgFromBytes b peerIdx =
     (if length b < 34 then Inl (TooShort (length b)) else
      bind_res (strip_type b) (\<lambda>buf.
      let (idx, buf) = ReadVarInt_ign buf; (n, buf) = read_be 4 buf; sigCount = (of_nat n :: u32);
          (sigs, buf) = read_list (unat sigCount) read_ack_sig buf in
      Inr \<lparr>lc_PeerIdx = peerIdx, lc_Idx = idx, lc_SettlementSignatures = sigs\<rparr>))"

definition DlcContractAckMsg_Bytes :: "dlc_ack_msg \<Rightarrow> bytes" where
  "DlcContractAckMsg_Bytes m =
     0x93 # WriteVarInt (lc_Idx m) @ be32 (of_nat (length (lc_SettlementSignatures m))) @
       concat (map write_ack_sig (lc_SettlementSignatures m))"

text \<open>With no signatures at all the message is shorter than the 34 bytes its parser asks for.\<close>

definition wf_dlc_ack_msg :: "dlc_ack_msg \<Rightarrow> bool" where
  "wf_dlc_ack_msg m \<longleftrightarrow> lc_SettlementSignatures m \<noteq> [] \<and> length (lc_SettlementSignatures m) < 2 ^ 32 \<and>
     (\<forall>s \<in> set (lc_SettlementSignatures m). wf_dlc_sig s)"

lemma length_write_ack_sigs:
  "\<forall>s \<in> set xs. wf_dlc_sig s \<Longrightarrow> length (concat (map write_ack_sig xs)) = 72 * length xs"
  by (induction xs) (simp_all add: write_ack_sig_def wf_dlc_sig_def)

interpretation dlc_ack_msg_codec:
  msg_codec "0x93" "\<lambda>m. Inr (DlcContractAckMsg_Bytes m)" NewDlcContractAckMsgFromBytes lc_PeerIdx wf_dlc_ack_msg
proof unfold_locales
  fix m :: dlc_ack_msg
  assume wf: "wf_dlc_ack_msg m"
  then obtain k where "length (lc_SettlementSignatures m) = Suc k"
    by (cases "lc_SettlementSignatures m") (auto simp: wf_dlc_ack_msg_def)
  with wf have "\<not> length (DlcContractAckMsg_Bytes m) < 34"
    by (simp add: DlcContractAckMsg_Bytes_def length_write_ack_sigs wf_dlc_ack_msg_def)
  with wf show "\<exists>r. Inr (DlcContractAckMsg_Bytes m) = Inr (0x93 # r) \<and>
      NewDlcContractAckMsgFromBytes (0x93 # r) (lc_PeerIdx m) = Inr m"
    by (simp add: NewDlcContractAckMsgFromBytes_def DlcContractAckMsg_Bytes_def wf_dlc_ack_msg_def
        buf_simps ack_sig.read_list_total_exact unat_of_nat)
qed

text \<open>The two messages that carry a funding transaction have one shape.\<close>

record dlc_funding_sigs_msg =
  lf_PeerIdx :: u32
  lf_Idx :: u64
  lf_SignedFundingTx :: funding_tx

definition NewDlcContractFundingSigsMsg :: "dlc_contract \<Rightarrow> msg_tx \<Rightarrow> dlc_funding_sigs_msg" where
  "NewDlcContractFundingSigsMsg contract signedTx =
     \<lparr>lf_PeerIdx = dc_PeerIdx contract, lf_Idx = dc_TheirIdx contract, lf_SignedFundingTx = FullTx signedTx\<rparr>"

definition NewDlcContractFundingSigsMsgFromBytes :: "bytes \<Rightarrow> u32 \<Rightarrow> lit_error + dlc_funding_sigs_msg" where
  "NewDlcContractFundingSigsMsgFromBytes b peerIdx =
     (if length b < 34 then Inl (TooShort (length b)) else
      bind_res (strip_type b) (\<lambda>buf.
      let (idx, buf) = ReadVarInt_ign buf in
      Inr \<lparr>lf_PeerIdx = peerIdx, lf_Idx = idx, lf_SignedFundingTx = read_funding_tx buf\<rparr>))"

definition DlcContractFundingSigsMsg_Bytes :: "dlc_funding_sigs_msg \<Rightarrow> lit_error + bytes" where
  "DlcContractFundingSigsMsg_Bytes m =
     bind_res (funding_tx_Bytes (lf_SignedFundingTx m)) (\<lambda>t. Inr (0x94 # WriteVarInt (lf_Idx m) @ t))"

definition wf_dlc_tx :: "u64 \<Rightarrow> funding_tx \<Rightarrow> bool" where
  "wf_dlc_tx idx t \<longleftrightarrow> (case t of FullTx tx \<Rightarrow> wf_tx tx \<and> 33 \<le> VarIntSerializeSize idx + SerializeSize tx
     | PartialTx e \<Rightarrow> False)"

lemma wf_dlc_txE:
  assumes "wf_dlc_tx idx t"
  obtains tx where "t = FullTx tx" "wf_tx tx" "33 \<le> VarIntSerializeSize idx + length (Serialize tx)"
  using assms by (cases t) (auto simp: wf_dlc_tx_def length_Serialize)

definition wf_dlc_funding_sigs_msg :: "dlc_funding_sigs_msg \<Rightarrow> bool" where
  "wf_dlc_funding_sigs_msg m \<longleftrightarrow> wf_dlc_tx (lf_Idx m) (lf_SignedFundingTx m)"

interpretation dlc_funding_sigs_msg_codec:
  msg_codec "0x94" DlcContractFundingSigsMsg_Bytes NewDlcContractFundingSigsMsgFromBytes lf_PeerIdx
    wf_dlc_funding_sigs_msg
proof unfold_locales
  fix m :: dlc_funding_sigs_msg
  assume "wf_dlc_funding_sigs_msg m"
  then obtain tx where "lf_SignedFundingTx m = FullTx tx" "wf_tx tx"
      "33 \<le> VarIntSerializeSize (lf_Idx m) + length (Serialize tx)"
    by (auto simp: wf_dlc_funding_sigs_msg_def elim: wf_dlc_txE)
  then show "\<exists>r. DlcContractFundingSigsMsg_Bytes m = Inr (0x94 # r) \<and>
      NewDlcContractFundingSigsMsgFromBytes (0x94 # r) (lf_PeerIdx m) = Inr m"
    by (simp add: NewDlcContractFundingSigsMsgFromBytes_def DlcContractFundingSigsMsg_Bytes_def
        funding_tx_Bytes_def buf_simps length_WriteVarInt)
qed

record dlc_sig_proof_msg =
  lp_PeerIdx :: u32
  lp_Idx :: u64
  lp_SignedFundingTx :: funding_tx

definition NewDlcContractSigProofMsg :: "dlc_contract \<Rightarrow> msg_tx \<Rightarrow> dlc_sig_proof_msg" where
  "NewDlcContractSigProofMsg contract signedTx =
     \<lparr>lp_PeerIdx = dc_PeerIdx contract, lp_Idx = dc_TheirIdx contract, lp_SignedFundingTx = FullTx signedTx\<rparr>"

definition NewDlcContractSigProofMsgFromBytes :: "bytes \<Rightarrow> u32 \<Rightarrow> lit_error + dlc_sig_proof_msg" where
  "NewDlcContractSigProofMsgFromBytes b peerIdx =
     (if length b < 34 then Inl (TooShort (length b)) else
      bind_res (strip_type b) (\<lambda>buf.
      let (idx, buf) = ReadVarInt_ign buf in
      Inr \<lparr>lp_PeerIdx = peerIdx, lp_Idx = idx, lp_SignedFundingTx = read_funding_tx buf\<rparr>))"

definition DlcContractSigProofMsg_Bytes :: "dlc_sig_proof_msg \<Rightarrow> lit_error + bytes" where
  "DlcContractSigProofMsg_Bytes m =
     bind_res (funding_tx_Bytes (lp_SignedFundingTx m)) (\<lambda>t. Inr (0x95 # WriteVarInt (lp_Idx m) @ t))"

definition wf_dlc_sig_proof_msg :: "dlc_sig_proof_msg \<Rightarrow> bool" where
  "wf_dlc_sig_proof_msg m \<longleftrightarrow> wf_dlc_tx (lp_Idx m) (lp_SignedFundingTx m)"

interpretation dlc_sig_proof_msg_codec:
  msg_codec "0x95" DlcContractSigProofMsg_Bytes NewDlcContractSigProofMsgFromBytes lp_PeerIdx wf_dlc_sig_proof_msg
proof unfold_locales
  fix m :: dlc_sig_proof_msg
  assume "wf_dlc_sig_proof_msg m"
  then obtain tx where "lp_SignedFundingTx m = FullTx tx" "wf_tx tx"
      "33 \<le> VarIntSerializeSize (lp_Idx m) + length (Serialize tx)"
    by (auto simp: wf_dlc_sig_proof_msg_def elim: wf_dlc_txE)
  then show "\<exists>r. DlcContractSigProofMsg_Bytes m = Inr (0x95 # r) \<and>
      NewDlcContractSigProofMsgFromBytes (0x95 # r) (lp_PeerIdx m) = Inr m"
    by (simp add: NewDlcContractSigProofMsgFromBytes_def DlcContractSigProofMsg_Bytes_def
        funding_tx_Bytes_def buf_simps length_WriteVarInt)
qed

end
