(* ===== verification/LitMsg.thy ===== *)
theory LitMsg
  imports MsgDlc MsgRpc
begin

text \<open>
  The message interface of \<open>lnutil/msglib.go\<close>: the sum of the message types with \<open>MsgType\<close>, \<open>Peer\<close> and
  \<open>Bytes\<close>, the dispatching parser \<open>LitMsgFromBytes\<close>, and \<open>LitMsgEqual\<close>. The properties at the end are
  about the dispatcher as a whole; each rests on the codec of the single messages.
\<close>

section \<open>The interface\<close>

datatype lit_msg =
    MsgChat chat_msg
  | MsgPointReq point_req_msg
  | MsgPointResp point_resp_msg
  | MsgChanDesc chan_desc_msg
  | MsgChanAck chan_ack_msg
  | MsgSigProof sig_proof_msg
  | MsgCloseReq close_req_msg
  | MsgDeltaSig delta_sig_msg
  | MsgSigRev sig_rev_msg
  | MsgGapSigRev gap_sig_rev_msg
  | MsgRev rev_msg
  | MsgHashSig hash_sig_msg
  | MsgPreimageSig preimage_sig_msg
  | MsgWatchDesc watch_desc_msg
  | MsgWatchState watch_state_msg
  | MsgLink link_msg
  | MsgPayReq pay_req_msg
  | MsgPayAck pay_ack_msg
  | MsgPaySetup pay_setup_msg
  | MsgDualReq dual_req_msg
  | MsgDualAccept dual_accept_msg
  | MsgDualDecl dual_decl_msg
  | MsgDualChanAck dual_chan_ack_msg
  | MsgDlcOffer dlc_offer_msg
  | MsgDlcAccept dlc_accept_msg
  | MsgDlcDecline dlc_decline_msg
  | MsgDlcAck dlc_ack_msg
  | MsgDlcFundingSigs dlc_funding_sigs_msg
  | MsgDlcSigProof dlc_sig_proof_msg
  | MsgRpcRequest rpc_request_msg
  | MsgRpcResponse rpc_response_msg

primrec MsgType :: "lit_msg \<Rightarrow> byte" where
  "MsgType (MsgChat m) = 0x00"
| "MsgType (MsgPointReq m) = 0x10"
| "MsgType (MsgPointResp m) = 0x11"
| "MsgType (MsgChanDesc m) = 0x12"
| "MsgType (MsgChanAck m) = 0x13"
| "MsgType (MsgSigProof m) = 0x14"
| "MsgType (MsgCloseReq m) = 0x20"
| "MsgType (MsgDeltaSig m) = 0x30"
| "MsgType (MsgSigRev m) = 0x31"
| "MsgType (MsgGapSigRev m) = 0x32"
| "MsgType (MsgRev m) = 0x33"
| "MsgType (MsgHashSig m) = 0x34"
| "MsgType (MsgPreimageSig m) = 0x35"
| "MsgType (MsgWatchDesc m) = 0x60"
| "MsgType (MsgWatchState m) = 0x61"
| "MsgType (MsgLink m) = 0x70"
| "MsgType (MsgPayReq m) = 0x75"
| "MsgType (MsgPayAck m) = 0x76"
| "MsgType (MsgPaySetup m) = 0x77"
| "MsgType (MsgDualReq m) = 0xA0"
| "MsgType (MsgDualAccept m) = 0xA1"
| "MsgType (MsgDualDecl m) = 0xA2"
| "MsgType (MsgDualChanAck m) = 0xA3"
| "MsgType (MsgDlcOffer m) = 0x90"
| "MsgType (MsgDlcAccept m) = 0x91"
| "MsgType (MsgDlcDecline m) = 0x92"
| "MsgType (MsgDlcAck m) = 0x93"
| "MsgType (MsgDlcFundingSigs m) = 0x94"
| "MsgType (MsgDlcSigProof m) = 0x95"
| "MsgType (MsgRpcRequest m) = 0xB0"
| "MsgType (MsgRpcResponse m) = 0xB1"

primrec Peer :: "lit_msg \<Rightarrow> u32" where
  "Peer (MsgChat m) = ct_PeerIdx m"
| "Peer (MsgPointReq m) = pq_PeerIdx m"
| "Peer (MsgPointResp m) = pr_PeerIdx m"
| "Peer (MsgChanDesc m) = cd_PeerIdx m"
| "Peer (MsgChanAck m) = ak_PeerIdx m"
| "Peer (MsgSigProof m) = sp_PeerIdx m"
| "Peer (MsgCloseReq m) = cr_PeerIdx m"
| "Peer (MsgDeltaSig m) = ds_PeerIdx m"
| "Peer (MsgSigRev m) = sr_PeerIdx m"
| "Peer (MsgGapSigRev m) = gs_PeerIdx m"
| "Peer (MsgRev m) = rv_PeerIdx m"
| "Peer (MsgHashSig m) = hs_PeerIdx m"
| "Peer (MsgPreimageSig m) = ps_PeerIdx m"
| "Peer (MsgWatchDesc m) = wd_PeerIdx m"
| "Peer (MsgWatchState m) = ws_PeerIdx m"
| "Peer (MsgLink m) = lk_PeerIdx m"
| "Peer (MsgPayReq m) = mq_PeerIdx m"
| "Peer (MsgPayAck m) = ma_PeerIdx m"
| "Peer (MsgPaySetup m) = mp_PeerIdx m"
| "Peer (MsgDualReq m) = fr_PeerIdx m"
| "Peer (MsgDualAccept m) = fa_PeerIdx m"
| "Peer (MsgDualDecl m) = fd_PeerIdx m"
| "Peer (MsgDualChanAck m) = fc_PeerIdx m"
| "Peer (MsgDlcOffer m) = lo_PeerIdx m"
| "Peer (MsgDlcAccept m) = la_PeerIdx m"
| "Peer (MsgDlcDecline m) = ld_PeerIdx m"
| "Peer (MsgDlcAck m) = lc_PeerIdx m"
| "Peer (MsgDlcFundingSigs m) = lf_PeerIdx m"
| "Peer (MsgDlcSigProof m) = lp_PeerIdx m"
| "Peer (MsgRpcRequest m) = rq_PeerIdx m"
| "Peer (MsgRpcResponse m) = rp_PeerIdx m"

primrec LitMsg_Bytes :: "lit_msg \<Rightarrow> lit_error + bytes" where
  "LitMsg_Bytes (MsgChat m) = Inr (ChatMsg_Bytes m)"
| "LitMsg_Bytes (MsgPointReq m) = Inr (PointReqMsg_Bytes m)"
| "LitMsg_Bytes (MsgPointResp m) = Inr (PointRespMsg_Bytes m)"
| "LitMsg_Bytes (MsgChanDesc m) = Inr (ChanDescMsg_Bytes m)"
| "LitMsg_Bytes (MsgChanAck m) = Inr (ChanAckMsg_Bytes m)"
| "LitMsg_Bytes (MsgSigProof m) = Inr (SigProofMsg_Bytes m)"
| "LitMsg_Bytes (MsgCloseReq m) = Inr (CloseReqMsg_Bytes m)"
| "LitMsg_Bytes (MsgDeltaSig m) = Inr (DeltaSigMsg_Bytes m)"
| "LitMsg_Bytes (MsgSigRev m) = Inr (SigRevMsg_Bytes m)"
| "LitMsg_Bytes (MsgGapSigRev m) = Inr (GapSigRevMsg_Bytes m)"
| "LitMsg_Bytes (MsgRev m) = Inr (RevMsg_Bytes m)"
| "LitMsg_Bytes (MsgHashSig m) = Inr (HashSigMsg_Bytes m)"
| "LitMsg_Bytes (MsgPreimageSig m) = Inr (PreimageSigMsg_Bytes m)"
| "LitMsg_Bytes (MsgWatchDesc m) = Inr (WatchDescMsg_Bytes m)"
| "LitMsg_Bytes (MsgWatchState m) = Inr (WatchStateMsg_Bytes m)"
| "LitMsg_Bytes (MsgLink m) = Inr (LinkMsg_Bytes m)"
| "LitMsg_Bytes (MsgPayReq m) = Inr (MultihopPaymentRequestMsg_Bytes m)"
| "LitMsg_Bytes (MsgPayAck m) = Inr (MultihopPaymentAckMsg_Bytes m)"
| "LitMsg_Bytes (MsgPaySetup m) = Inr (MultihopPaymentSetupMsg_Bytes m)"
| "LitMsg_Bytes (MsgDualReq m) = Inr (DualFundingReqMsg_Bytes m)"
| "LitMsg_Bytes (MsgDualAccept m) = Inr (DualFundingAcceptMsg_Bytes m)"
| "LitMsg_Bytes (MsgDualDecl m) = Inr (DualFundingDeclMsg_Bytes m)"
| "LitMsg_Bytes (MsgDualChanAck m) = DualFundingChanAckMsg_Bytes m"
| "LitMsg_Bytes (MsgDlcOffer m) = Inr (DlcOfferMsg_Bytes m)"
| "LitMsg_Bytes (MsgDlcAccept m) = Inr (DlcOfferAcceptMsg_Bytes m)"
| "LitMsg_Bytes (MsgDlcDecline m) = Inr (DlcOfferDeclineMsg_Bytes m)"
| "LitMsg_Bytes (MsgDlcAck m) = Inr (DlcContractAckMsg_Bytes m)"
| "LitMsg_Bytes (MsgDlcFundingSigs m) = DlcContractFundingSigsMsg_Bytes m"
| "LitMsg_Bytes (MsgDlcSigProof m) = DlcContractSigProofMsg_Bytes m"
| "LitMsg_Bytes (MsgRpcRequest m) = Inr (RemoteControlRpcRequestMsg_Bytes m)"
| "LitMsg_Bytes (MsgRpcResponse m) = Inr (RemoteControlRpcResponseMsg_Bytes m)"

definition LitMsgEqual :: "lit_msg \<Rightarrow> lit_msg \<Rightarrow> lit_error + bool" where
  "LitMsgEqual msg msg2 =
     (if Peer msg \<noteq> Peer msg2 then Inr False
      else if MsgType msg \<noteq> MsgType msg2 then Inr False
      else bind_res (LitMsg_Bytes msg) (\<lambda>b. bind_res (LitMsg_Bytes msg2) (\<lambda>b2. Inr (b = b2))))"

section \<open>The dispatcher\<close>

definition as_msg :: "('a \<Rightarrow> lit_msg) \<Rightarrow> lit_error + 'a \<Rightarrow> lit_error + lit_msg" where
  "as_msg f r = bind_res r (\<lambda>m. Inr (f m))"

lemma as_msg_simps [simp]:
  "as_msg f (Inr m) = Inr (f m)" "as_msg f (Inl e) = Inl e"
  by (simp_all add: as_msg_def)

lemma as_msg_Inr: "as_msg f r = Inr m \<longleftrightarrow> (\<exists>x. r = Inr x \<and> m = f x)"
  by (cases r) auto

lemma as_msg_Inl: "as_msg f r = Inl e \<longleftrightarrow> r = Inl e"
  by (cases r) auto

definition LitMsgFromBytes :: "bytes \<Rightarrow> u32 \<Rightarrow> lit_error + lit_msg" where
  "LitMsgFromBytes b peerid =
     (if length b < 1 then Inl (TooShort 0) else
      let msgType = hd b in
      if msgType = 0x00 then as_msg MsgChat (NewChatMsgFromBytes b peerid)
      else if msgType = 0x10 then as_msg MsgPointReq (NewPointReqMsgFromBytes b peerid)
      else if msgType = 0x11 then as_msg MsgPointResp (NewPointRespMsgFromBytes b peerid)
      else if msgType = 0x12 then as_msg MsgChanDesc (NewChanDescMsgFromBytes b peerid)
      else if msgType = 0x13 then as_msg MsgChanAck (NewChanAckMsgFromBytes b peerid)
      else if msgType = 0x14 then as_msg MsgSigProof (NewSigProofMsgFromBytes b peerid)
      else if msgType = 0x20 then as_msg MsgCloseReq (NewCloseReqMsgFromBytes b peerid)
      else if msgType = 0x30 then as_msg MsgDeltaSig (NewDeltaSigMsgFromBytes b peerid)
      else if msgType = 0x31 then as_msg MsgSigRev (NewSigRevFromBytes b peerid)
      else if msgType = 0x32 then as_msg MsgGapSigRev (NewGapSigRevFromBytes b peerid)
      else if msgType = 0x33 then as_msg MsgRev (NewRevMsgFromBytes b peerid)
      else if msgType = 0x34 then as_msg MsgHashSig (NewHashSigMsgFromBytes b peerid)
      else if msgType = 0x35 then as_msg MsgPreimageSig (NewPreimageSigMsgFromBytes b peerid)
      else if msgType = 0x60 then as_msg MsgWatchDesc (NewWatchDescMsgFromBytes b peerid)
      else if msgType = 0x61 then as_msg MsgWatchState (NewWatchStateMsgFromBytes b peerid)
      else if msgType = 0x70 then as_msg MsgLink (NewLinkMsgFromBytes b peerid)
      else if msgType = 0x75 then as_msg MsgPayReq (NewMultihopPaymentRequestMsgFromBytes b peerid)
      else if msgType = 0x76 then as_msg MsgPayAck (NewMultihopPaymentAckMsgFromBytes b peerid)
      else if msgType = 0x77 then as_msg MsgPaySetup (NewMultihopPaymentSetupMsgFromBytes b peerid)
      else if msgType = 0xA0 then as_msg MsgDualReq (NewDualFundingReqMsgFromBytes b peerid)
      else if msgType = 0xA1 then as_msg MsgDualAccept (NewDualFundingAcceptMsgFromBytes b peerid)
      else if msgType = 0xA2 then as_msg MsgDualDecl (NewDualFundingDeclMsgFromBytes b peerid)
      else if msgType = 0xA3 then as_msg MsgDualChanAck (NewDualFundingChanAckMsgFromBytes b peerid)
      else if msgType = 0x90 then as_msg MsgDlcOffer (NewDlcOfferMsgFromBytes b peerid)
      else if msgType = 0x91 then as_msg MsgDlcAccept (NewDlcOfferAcceptMsgFromBytes b peerid)
      else if msgType = 0x92 then as_msg MsgDlcDecline (NewDlcOfferDeclineMsgFromBytes b peerid)
      else if msgType = 0x93 then as_msg MsgDlcAck (NewDlcContractAckMsgFromBytes b peerid)
      else if msgType = 0x94 then as_msg MsgDlcFundingSigs (NewDlcContractFundingSigsMsgFromBytes b peerid)
      else if msgType = 0x95 then as_msg MsgDlcSigProof (NewDlcContractSigProofMsgFromBytes b peerid)
      else if msgType = 0xB0 then as_msg MsgRpcRequest (NewRemoteControlRpcRequestMsgFromBytes b peerid)
      else if msgType = 0xB1 then as_msg MsgRpcResponse (NewRemoteControlRpcResponseMsgFromBytes b peerid)
      else Inl (UnknownMsgType msgType))"

primrec wf_lit_msg :: "lit_msg \<Rightarrow> bool" where
  "wf_lit_msg (MsgChat m) \<longleftrightarrow> wf_chat_msg m"
| "wf_lit_msg (MsgPointReq m) \<longleftrightarrow> wf_point_req_msg m"
| "wf_lit_msg (MsgPointResp m) \<longleftrightarrow> wf_point_resp_msg m"
| "wf_lit_msg (MsgChanDesc m) \<longleftrightarrow> wf_chan_desc_msg m"
| "wf_lit_msg (MsgChanAck m) \<longleftrightarrow> wf_chan_ack_msg m"
| "wf_lit_msg (MsgSigProof m) \<longleftrightarrow> wf_sig_proof_msg m"
| "wf_lit_msg (MsgCloseReq m) \<longleftrightarrow> wf_close_req_msg m"
| "wf_lit_msg (MsgDeltaSig m) \<longleftrightarrow> wf_delta_sig_msg m"
| "wf_lit_msg (MsgSigRev m) \<longleftrightarrow> wf_sig_rev_msg m"
| "wf_lit_msg (MsgGapSigRev m) \<longleftrightarrow> wf_gap_sig_rev_msg m"
| "wf_lit_msg (MsgRev m) \<longleftrightarrow> wf_rev_msg m"
| "wf_lit_msg (MsgHashSig m) \<longleftrightarrow> wf_hash_sig_msg m"
| "wf_lit_msg (MsgPreimageSig m) \<longleftrightarrow> wf_preimage_sig_msg m"
| "wf_lit_msg (MsgWatchDesc m) \<longleftrightarrow> wf_watch_desc_msg m"
| "wf_lit_msg (MsgWatchState m) \<longleftrightarrow> wf_watch_state_msg m"
| "wf_lit_msg (MsgLink m) \<longleftrightarrow> wf_link_msg m"
| "wf_lit_msg (MsgPayReq m) \<longleftrightarrow> wf_pay_req_msg m"
| "wf_lit_msg (MsgPayAck m) \<longleftrightarrow> wf_pay_ack_msg m"
| "wf_lit_msg (MsgPaySetup m) \<longleftrightarrow> wf_pay_setup_msg m"
| "wf_lit_msg (MsgDualReq m) \<longleftrightarrow> wf_dual_req_msg m"
| "wf_lit_msg (MsgDualAccept m) \<longleftrightarrow> wf_dual_accept_msg m"
| "wf_lit_msg (MsgDualDecl m) \<longleftrightarrow> wf_dual_decl_msg m"
| "wf_lit_msg (MsgDualChanAck m) \<longleftrightarrow> wf_dual_chan_ack_msg m"
| "wf_lit_msg (MsgDlcOffer m) \<longleftrightarrow> wf_dlc_offer_msg m"
| "wf_lit_msg (MsgDlcAccept m) \<longleftrightarrow> wf_dlc_accept_msg m"
| "wf_lit_msg (MsgDlcDecline m) \<longleftrightarrow> wf_dlc_decline_msg m"
| "wf_lit_msg (MsgDlcAck m) \<longleftrightarrow> wf_dlc_ack_msg m"
| "wf_lit_msg (MsgDlcFundingSigs m) \<longleftrightarrow> wf_dlc_funding_sigs_msg m"
| "wf_lit_msg (MsgDlcSigProof m) \<longleftrightarrow> wf_dlc_sig_proof_msg m"
| "wf_lit_msg (MsgRpcRequest m) \<longleftrightarrow> wf_rpc_request_msg m"
| "wf_lit_msg (MsgRpcResponse m) \<longleftrightarrow> wf_rpc_response_msg m"

section \<open>The codecs together\<close>

lemmas msg_decoders =
    chat_msg_codec.ser_par point_req_msg_codec.ser_par point_resp_msg_codec.ser_par
    chan_desc_msg_codec.ser_par chan_ack_msg_codec.ser_par sig_proof_msg_codec.ser_par
    close_req_msg_codec.ser_par delta_sig_msg_codec.ser_par sig_rev_msg_codec.ser_par
    gap_sig_rev_msg_codec.ser_par rev_msg_codec.ser_par hash_sig_msg_codec.ser_par
    preimage_sig_msg_codec.ser_par watch_desc_msg_codec.ser_par watch_state_msg_codec.ser_par
    link_msg_codec.ser_par pay_req_msg_codec.ser_par pay_ack_msg_codec.ser_par
    pay_setup_msg_codec.ser_par dual_req_msg_codec.ser_par dual_accept_msg_codec.ser_par
    dual_decl_msg_codec.ser_par dual_chan_ack_msg_codec.ser_par dlc_offer_msg_codec.ser_par
    dlc_accept_msg_codec.ser_par dlc_decline_msg_codec.ser_par dlc_ack_msg_codec.ser_par
    dlc_funding_sigs_msg_codec.ser_par dlc_sig_proof_msg_codec.ser_par rpc_request_msg_codec.ser_par
    rpc_response_msg_codec.ser_par

lemmas msg_parsed_ok =
    chat_msg_codec.par_ok point_req_msg_codec.par_ok point_resp_msg_codec.par_ok
    chan_desc_msg_codec.par_ok chan_ack_msg_codec.par_ok sig_proof_msg_codec.par_ok
    close_req_msg_codec.par_ok delta_sig_msg_codec.par_ok sig_rev_msg_codec.par_ok
    gap_sig_rev_msg_codec.par_ok rev_msg_codec.par_ok hash_sig_msg_codec.par_ok
    preimage_sig_msg_codec.par_ok watch_desc_msg_codec.par_ok watch_state_msg_codec.par_ok
    link_msg_codec.par_ok pay_req_msg_codec.par_ok pay_ack_msg_codec.par_ok
    pay_setup_msg_codec.par_ok dual_decl_msg_codec.par_ok dlc_offer_msg_codec.par_ok
    dlc_accept_msg_codec.par_ok dlc_decline_msg_codec.par_ok rpc_request_msg_codec.par_ok
    rpc_response_msg_codec.par_ok

lemma LitMsg_decode:
  assumes "wf_lit_msg m"
  shows "\<exists>r. LitMsg_Bytes m = Inr (MsgType m # r) \<and> LitMsgFromBytes (MsgType m # r) (Peer m) = Inr m"
  using assms by (cases m) (auto simp: LitMsgFromBytes_def dest!: msg_decoders)

text \<open>
  The types whose parser guarantees a well-formed message: all but those that carry a transaction, the
  dual-funding messages with their wrapping length check, and the acknowledgement without signatures.
\<close>

definition strict_type :: "byte \<Rightarrow> bool" where
  "strict_type t \<longleftrightarrow> t \<notin> {0xA0, 0xA1, 0xA3, 0x93, 0x94, 0x95}"

lemma other_peers:
  "NewDualFundingReqMsgFromBytes b p = Inr m1 \<Longrightarrow> fr_PeerIdx m1 = p"
  "NewDualFundingAcceptMsgFromBytes b p = Inr m2 \<Longrightarrow> fa_PeerIdx m2 = p"
  "NewDualFundingChanAckMsgFromBytes b p = Inr m3 \<Longrightarrow> fc_PeerIdx m3 = p"
  "NewDlcContractAckMsgFromBytes b p = Inr m4 \<Longrightarrow> lc_PeerIdx m4 = p"
  "NewDlcContractFundingSigsMsgFromBytes b p = Inr m5 \<Longrightarrow> lf_PeerIdx m5 = p"
  "NewDlcContractSigProofMsgFromBytes b p = Inr m6 \<Longrightarrow> lp_PeerIdx m6 = p"
  by (auto simp: NewDualFundingReqMsgFromBytes_def NewDualFundingAcceptMsgFromBytes_def
      NewDualFundingChanAckMsgFromBytes_def NewDlcContractAckMsgFromBytes_def
      NewDlcContractFundingSigsMsgFromBytes_def NewDlcContractSigProofMsgFromBytes_def msg_read_simps
      split: if_splits)

lemma LitMsg_parsed:
  assumes "LitMsgFromBytes b p = Inr m"
  shows "b \<noteq> [] \<and> MsgType m = hd b \<and> Peer m = p \<and> (strict_type (hd b) \<longrightarrow> wf_lit_msg m)"
  using assms unfolding LitMsgFromBytes_def Let_def
  by (auto simp: as_msg_Inr strict_type_def dest!: msg_parsed_ok other_peers split: if_splits)

section \<open>Panics\<close>

lemma strip_type_safe [simp]: "strip_type b = Inl Panic \<longleftrightarrow> b = []"
  by (cases b) (simp_all add: strip_type_def)

lemma strip_type_length: "strip_type b = Inr r \<Longrightarrow> length r = length b - 1"
  by (cases b) (simp_all add: strip_type_def)

lemma read_be_err_safe [simp]: "read_be_err n b \<noteq> Inl Panic"
  by (simp add: read_be_err_def split: prod.splits option.splits)

lemma read_list_err_safe: "(\<And>b. dec b \<noteq> Inl Panic) \<Longrightarrow> read_list_err n dec b \<noteq> Inl Panic"
  by (induction n arbitrary: b) (auto simp: bind_res_eq_Inl)

lemma read_rate_safe [simp]: "read_list_err n read_rate b \<noteq> Inl Panic"
  by (rule read_list_err_safe)
    (auto simp: read_rate_def NewRateDescFromBytes_def bind_res_eq_Inl Let_def case_prod_unfold)

lemma read_hop_safe [simp]: "read_list_err n read_hop b \<noteq> Inl Panic"
  by (rule read_list_err_safe)
    (auto simp: read_hop_def NewRouteHopFromBytes_def bind_res_eq_Inl Let_def case_prod_unfold split: if_splits)

lemma NewHash_safe [simp]: "32 \<le> length b \<Longrightarrow> NewHash (fst (buf_next 32 b)) \<noteq> Inl Panic"
  by (simp add: NewHash_def buf_next_def)

lemma snd_readers [simp]:
  "snd (next_arr n b) = drop n b" "snd (buf_next n b) = drop n b"
  by (simp_all add: next_arr_def buf_next_def)

lemmas msg_panic_simps = bind_res_eq_Inl Let_def case_prod_unfold

text \<open>The parsers that cannot panic, when they are given the non-empty slice the dispatcher has.\<close>

lemma parsers_safe:
  "b \<noteq> [] \<Longrightarrow> NewChatMsgFromBytes b p \<noteq> Inl Panic"
  "b \<noteq> [] \<Longrightarrow> NewPointReqMsgFromBytes b p \<noteq> Inl Panic"
  "b \<noteq> [] \<Longrightarrow> NewPointRespMsgFromBytes b p \<noteq> Inl Panic"
  "b \<noteq> [] \<Longrightarrow> NewChanDescMsgFromBytes b p \<noteq> Inl Panic"
  "b \<noteq> [] \<Longrightarrow> NewChanAckMsgFromBytes b p \<noteq> Inl Panic"
  "b \<noteq> [] \<Longrightarrow> NewSigProofMsgFromBytes b p \<noteq> Inl Panic"
  "b \<noteq> [] \<Longrightarrow> NewCloseReqMsgFromBytes b p \<noteq> Inl Panic"
  "b \<noteq> [] \<Longrightarrow> NewDeltaSigMsgFromBytes b p \<noteq> Inl Panic"
  "b \<noteq> [] \<Longrightarrow> NewSigRevFromBytes b p \<noteq> Inl Panic"
  "b \<noteq> [] \<Longrightarrow> NewGapSigRevFromBytes b p \<noteq> Inl Panic"
  "b \<noteq> [] \<Longrightarrow> NewRevMsgFromBytes b p \<noteq> Inl Panic"
  "b \<noteq> [] \<Longrightarrow> NewHashSigMsgFromBytes b p \<noteq> Inl Panic"
  "b \<noteq> [] \<Longrightarrow> NewPreimageSigMsgFromBytes b p \<noteq> Inl Panic"
  "b \<noteq> [] \<Longrightarrow> NewWatchDescMsgFromBytes b p \<noteq> Inl Panic"
  "b \<noteq> [] \<Longrightarrow> NewWatchStateMsgFromBytes b p \<noteq> Inl Panic"
  "b \<noteq> [] \<Longrightarrow> NewLinkMsgFromBytes b p \<noteq> Inl Panic"
  "b \<noteq> [] \<Longrightarrow> NewMultihopPaymentRequestMsgFromBytes b p \<noteq> Inl Panic"
  "b \<noteq> [] \<Longrightarrow> NewMultihopPaymentAckMsgFromBytes b p \<noteq> Inl Panic"
  "b \<noteq> [] \<Longrightarrow> NewMultihopPaymentSetupMsgFromBytes b p \<noteq> Inl Panic"
  "b \<noteq> [] \<Longrightarrow> NewDualFundingReqMsgFromBytes b p \<noteq> Inl Panic"
  "b \<noteq> [] \<Longrightarrow> NewDualFundingAcceptMsgFromBytes b p \<noteq> Inl Panic"
  "b \<noteq> [] \<Longrightarrow> NewDualFundingDeclMsgFromBytes b p \<noteq> Inl Panic"
  "b \<noteq> [] \<Longrightarrow> NewDualFundingChanAckMsgFromBytes b p \<noteq> Inl Panic"
  "b \<noteq> [] \<Longrightarrow> NewDlcOfferDeclineMsgFromBytes b p \<noteq> Inl Panic"
  "b \<noteq> [] \<Longrightarrow> NewDlcContractAckMsgFromBytes b p \<noteq> Inl Panic"
  "b \<noteq> [] \<Longrightarrow> NewDlcContractFundingSigsMsgFromBytes b p \<noteq> Inl Panic"
  "b \<noteq> [] \<Longrightarrow> NewDlcContractSigProofMsgFromBytes b p \<noteq> Inl Panic"
  by (auto simp: msg_panic_simps
      NewChatMsgFromBytes_def NewPointReqMsgFromBytes_def NewPointRespMsgFromBytes_def
      NewChanDescMsgFromBytes_def NewChanAckMsgFromBytes_def NewSigProofMsgFromBytes_def
      NewCloseReqMsgFromBytes_def NewDeltaSigMsgFromBytes_def NewSigRevFromBytes_def
      NewGapSigRevFromBytes_def NewRevMsgFromBytes_def NewHashSigMsgFromBytes_def
      NewPreimageSigMsgFromBytes_def NewWatchDescMsgFromBytes_def NewWatchStateMsgFromBytes_def
      NewLinkMsgFromBytes_def NewMultihopPaymentRequestMsgFromBytes_def
      NewMultihopPaymentAckMsgFromBytes_def NewMultihopPaymentSetupMsgFromBytes_def
      NewDualFundingReqMsgFromBytes_def NewDualFundingAcceptMsgFromBytes_def
      NewDualFundingDeclMsgFromBytes_def NewDualFundingChanAckMsgFromBytes_def
      NewDlcOfferDeclineMsgFromBytes_def NewDlcContractAckMsgFromBytes_def
      NewDlcContractFundingSigsMsgFromBytes_def NewDlcContractSigProofMsgFromBytes_def
      dest!: strip_type_length split: if_splits)

definition may_panic :: "byte \<Rightarrow> bool" where
  "may_panic t \<longleftrightarrow> t \<in> {0x90, 0x91, 0xB0, 0xB1}"

lemma LitMsg_no_panic:
  assumes "LitMsgFromBytes b p = Inl Panic"
  shows "may_panic (hd b)"
  using assms unfolding LitMsgFromBytes_def Let_def
  by (auto simp: as_msg_Inl may_panic_def parsers_safe split: if_splits)

lemma sint_big: "2 ^ 63 \<le> unat (n :: u64) \<Longrightarrow> sint n < 0"
proof (rule ccontr)
  assume a: "2 ^ 63 \<le> unat n" "\<not> sint n < 0"
  have "uint n = take_bit LENGTH(64) (sint n)" by (rule uint_sint)
  also have "\<dots> = sint n" using a(2) sint64_range(2) [of n] by (intro take_bit_int_eq_self) simp_all
  finally have "nat (uint n) < 2 ^ 63" using sint64_range(2) [of n] by (simp add: nat_less_iff)
  with a(1) show False by simp
qed

lemma rpc_response_huge:
  "length idx = 8 \<Longrightarrow> 2 ^ 63 \<le> unat n \<Longrightarrow>
   NewRemoteControlRpcResponseMsgFromBytes (0xB1 # idx @ e # WriteVarInt n @ rest) p = Inl Panic"
  by (simp add: NewRemoteControlRpcResponseMsgFromBytes_def buf_simps read_be_def next_int_def sint_big
      Let_def case_prod_unfold)

lemma snd_read_be [simp]: "n \<le> length b \<Longrightarrow> snd (read_be n b) = drop n b"
  by (simp add: read_be_def read_full_def)

section \<open>Properties\<close>

text \<open>C27: every well-formed message survives the trip over the wire: printing it gives its type byte
  and a body, and the dispatcher, told the sender, returns the message.\<close>

theorem litmsg_roundtrip:
  assumes "wf_lit_msg m"
  shows "\<exists>b. LitMsg_Bytes m = Inr b \<and> hd b = MsgType m \<and> LitMsgFromBytes b (Peer m) = Inr m"
  using LitMsg_decode [OF assms] by auto

definition toy_delta_sig :: lit_msg where
  "toy_delta_sig = MsgDeltaSig (NewDeltaSigMsg 3 \<lparr>op_Hash = replicate 32 9, op_Index = 1\<rparr> 0xffffff9c
     (replicate 64 1) [replicate 64 2, replicate 64 3] (replicate 32 4))"

lemma wf_toy_delta_sig: "wf_lit_msg toy_delta_sig"
  by (simp add: toy_delta_sig_def NewDeltaSigMsg_def wf_delta_sig_msg_def wf_outpoint_def)

theorem litmsg_roundtrip_witness:
  "\<exists>b. LitMsg_Bytes toy_delta_sig = Inr b \<and> hd b = MsgType toy_delta_sig \<and>
     LitMsgFromBytes b (Peer toy_delta_sig) = Inr toy_delta_sig"
  by (rule litmsg_roundtrip [OF wf_toy_delta_sig])

text \<open>a parsed message keeps its type and sender, and for the strict types it is well formed and
  stable: printing it (which drops trailing bytes and fills short fields) and parsing that again
  gives the same message.\<close>

theorem litmsg_reparse:
  assumes "LitMsgFromBytes b p = Inr m" "strict_type (hd b)"
  shows "MsgType m = hd b \<and> Peer m = p \<and> wf_lit_msg m \<and>
    (\<exists>b'. LitMsg_Bytes m = Inr b' \<and> LitMsgFromBytes b' p = Inr m)"
  using LitMsg_parsed [OF assms(1)] assms(2) LitMsg_decode [of m] by auto

theorem litmsg_reparse_witness:
  "MsgType (MsgPayReq \<lparr>mq_PeerIdx = 5, mq_Cointype = 257\<rparr>) = hd [0x75, 0, 0, 1, 1, 99] \<and>
   Peer (MsgPayReq \<lparr>mq_PeerIdx = 5, mq_Cointype = 257\<rparr>) = 5 \<and>
   wf_lit_msg (MsgPayReq \<lparr>mq_PeerIdx = 5, mq_Cointype = 257\<rparr>) \<and>
   (\<exists>b'. LitMsg_Bytes (MsgPayReq \<lparr>mq_PeerIdx = 5, mq_Cointype = 257\<rparr>) = Inr b' \<and>
     LitMsgFromBytes b' 5 = Inr (MsgPayReq \<lparr>mq_PeerIdx = 5, mq_Cointype = 257\<rparr>))"
  by (rule litmsg_reparse)
    (simp_all add: LitMsgFromBytes_def NewMultihopPaymentRequestMsgFromBytes_def strip_type_def
      read_be_err_def read_full_def be_val_def strict_type_def)

text \<open>C31: \<open>LitMsgEqual\<close>, which compares senders, types and printed forms, decides equality of
  well-formed messages.\<close>

theorem litmsg_equal_decides:
  assumes "wf_lit_msg m" "wf_lit_msg m'"
  shows "LitMsgEqual m m' = Inr (m = m')"
proof -
  obtain r r' where r: "LitMsg_Bytes m = Inr (MsgType m # r)" "LitMsgFromBytes (MsgType m # r) (Peer m) = Inr m"
      "LitMsg_Bytes m' = Inr (MsgType m' # r')" "LitMsgFromBytes (MsgType m' # r') (Peer m') = Inr m'"
    using LitMsg_decode [OF assms(1)] LitMsg_decode [OF assms(2)] by blast
  show ?thesis
  proof (cases "m = m'")
    case True
    then show ?thesis by (simp add: LitMsgEqual_def r(3))
  next
    case False
    then have "\<not> (Peer m = Peer m' \<and> MsgType m = MsgType m' \<and> r = r')" using r by (metis sum.inject(2))
    with False show ?thesis by (simp add: LitMsgEqual_def r(1,3))
  qed
qed

theorem litmsg_equal_decides_witness:
  "LitMsgEqual toy_delta_sig toy_delta_sig = Inr (toy_delta_sig = toy_delta_sig)"
  by (rule litmsg_equal_decides [OF wf_toy_delta_sig wf_toy_delta_sig])

text \<open>whatever bytes a peer sends, the dispatcher can only panic on four message types: the
  contract offer, its acceptance and the two remote-control messages.\<close>

theorem litmsg_panics_only:
  "LitMsgFromBytes b p = Inl Panic \<Longrightarrow> hd b \<in> {0x90, 0x91, 0xB0, 0xB1}"
  using LitMsg_no_panic by (simp add: may_panic_def)

theorem litmsg_panics_only_witness:
  "hd (0xB1 # replicate 8 0 @ 0 # WriteVarInt 0x8000000000000000 @ []) \<in> {0x90, 0x91, 0xB0, 0xB1}"
  by (rule litmsg_panics_only [where p = 0])
    (use rpc_response_huge [where idx = "replicate 8 0" and n = "0x8000000000000000" and e = 0 and rest = "[]" and p = 0] in \<open>simp add: LitMsgFromBytes_def\<close>)

text \<open>a remote-control request that announces a method name of 2^63 bytes or more makes the
  receiver panic, before any authorization is looked at.\<close>

theorem rpc_request_panics:
  assumes "length pk = 33" "length sg = 64" "length idx = 8" "2 ^ 63 \<le> unat n"
  shows "LitMsgFromBytes (0xB0 # pk @ sg @ dg # idx @ WriteVarInt n @ rest) p = Inl Panic"
  using assms by (simp add: LitMsgFromBytes_def NewRemoteControlRpcRequestMsgFromBytes_def buf_simps
      next_int_def sint_big Let_def case_prod_unfold read_be_def)

theorem rpc_request_panics_witness:
  "LitMsgFromBytes (0xB0 # replicate 33 0 @ replicate 64 0 @ 0 # replicate 8 0 @ WriteVarInt 0x8000000000000000 @ []) 7 = Inl Panic"
  by (rule rpc_request_panics) simp_all

text \<open>a dual-funding request of 144 bytes that announces 2^30 inputs passes the length check
  (44 times 2^30 is 0 in 32 bits) and is parsed into a message with 2^30 inputs.\<close>

theorem dual_funding_length_wraps:
  assumes "length hdr = 139"
  shows "\<exists>m. LitMsgFromBytes (0xA0 # hdr @ be32 0x40000000) p = Inr (MsgDualReq m) \<and>
    length (fr_OurInputs m) = 2 ^ 30"
  using assms
  by (simp add: LitMsgFromBytes_def NewDualFundingReqMsgFromBytes_def strip_type_Cons Let_def case_prod_unfold
      read_be_exact)

theorem dual_funding_length_wraps_witness:
  "\<exists>m. LitMsgFromBytes (0xA0 # replicate 139 0 @ be32 0x40000000) 7 = Inr (MsgDualReq m) \<and>
    length (fr_OurInputs m) = 2 ^ 30"
  by (rule dual_funding_length_wraps) simp

text \<open>a channel description may be 70 bytes too short: the parser accepts 283 bytes and leaves the
  third elkrem point and the user data zero.\<close>

theorem short_chan_desc_accepted:
  assumes "length r = 282"
  shows "\<exists>m. LitMsgFromBytes (0x12 # r) p = Inr (MsgChanDesc m) \<and>
    cd_ElkTwo m = replicate 33 0 \<and> cd_Data m = replicate 32 0"
  using assms
  by (simp add: LitMsgFromBytes_def NewChanDescMsgFromBytes_def strip_type_Cons Let_def case_prod_unfold
      next_arr_def buf_next_def copy_fresh_def copy_over_def)

theorem short_chan_desc_accepted_witness:
  "\<exists>m. LitMsgFromBytes (0x12 # replicate 282 1) 7 = Inr (MsgChanDesc m) \<and>
    cd_ElkTwo m = replicate 33 0 \<and> cd_Data m = replicate 32 0"
  by (rule short_chan_desc_accepted) simp

end
