(* ===== verification/PushPull.thy ===== *)
theory PushPull
  imports Justice LitMsg
begin

text \<open>
  The channel state updates of \<open>qln/pushpull.go\<close>: pushing an amount (DeltaSig, SigRev, Rev), the
  collision path (GapSigRev), and what each handler saves and sends. A handler returns the node, the
  channel in memory, the messages it sends, and its error. \<open>Panic\<close> ends the process and \<open>Blocked\<close> is a
  call that does not return.
\<close>

type_synonym q_result = "lit_node \<times> qchan \<times> lit_msg list \<times> lit_error option"

definition MaxSendAmt :: u32 where "MaxSendAmt = 2 ^ 30"

section \<open>Sending\<close>

definition tmpSendLitMsg :: "node_env \<Rightarrow> lit_msg \<Rightarrow> lit_msg list" where
  "tmpSendLitMsg ev m = (if ev_connected ev (Peer m) then [m] else [])"

definition SendREV :: "node_env \<Rightarrow> qchan \<Rightarrow> lit_msg list \<times> lit_error option" where
  "SendREV ev q =
     (case bind_res (sender_AtIndex (ev_dh ev) (q_ElkSnd q) (st_StateIdx (q_State q) - 1)) (\<lambda>elk.
           bind_res (N2ElkPointForThem (ev_crypto ev) q) (\<lambda>n2.
             Inr (NewRevMsg (Qchan_Peer q) (q_Op q) elk n2 (st_MyN2HTLCBase (q_State q))))) of
        Inl e \<Rightarrow> ([], Some e)
      | Inr msg \<Rightarrow> (tmpSendLitMsg ev (MsgRev msg), None))"

definition SendDeltaSig :: "node_env \<Rightarrow> qchan \<Rightarrow> qchan \<times> lit_msg list \<times> lit_error option" where
  "SendDeltaSig ev q =
     (let s = q_State q;
          q = q\<lparr>q_State := s\<lparr>st_StateIdx := st_StateIdx s + 1, st_MyAmt := i64 (st_MyAmt s + st_Delta s),
                  st_ElkPoint := st_NextElkPoint s, st_NextElkPoint := st_N2ElkPoint s\<rparr>\<rparr>
      in case SignState ev q of Inl e \<Rightarrow> (q, [], Some e)
         | Inr (sig, HTLCSigs) \<Rightarrow>
           if st_Delta (q_State q) = 0 then (q, [], Some OutOfRange)
           else (q, tmpSendLitMsg ev (MsgDeltaSig (NewDeltaSigMsg (Qchan_Peer q) (q_Op q)
                  (of_int (i32 (- st_Delta (q_State q)))) sig HTLCSigs (st_Data (q_State q)))), None))"

text \<open>
  The balance after the pending HTLC operations: an offered HTLC in progress leaves it, and a clearing
  HTLC that comes back to this party (incoming with its preimage, outgoing without) is added.
\<close>

definition credit_htlc :: "htlc \<Rightarrow> bool" where
  "credit_htlc h \<longleftrightarrow> ht_Clearing h \<and> \<not> ht_Cleared h \<and> ht_Incoming h \<noteq> (ht_R h = replicate 16 0)"

definition pending_amt :: "stat_com \<Rightarrow> int \<Rightarrow> int" where
  "pending_amt s amt =
     (let offered = (\<lambda>o' a. case o' of None \<Rightarrow> a | Some h \<Rightarrow> if \<not> ht_Incoming h then i64 (a - ht_Amt h) else a);
          amt = offered (st_InProgHTLC s) amt;
          amt = offered (st_CollidingHTLC s) amt
      in fold (\<lambda>h a. if credit_htlc h then i64 (a + ht_Amt h) else a) (st_HTLCs s) amt)"

definition SendGapSigRev :: "node_env \<Rightarrow> qchan \<Rightarrow> qchan \<times> lit_msg list \<times> lit_error option" where
  "SendGapSigRev ev q =
     (case bind_res (sender_AtIndex (ev_dh ev) (q_ElkSnd q) (st_StateIdx (q_State q) - 1)) (\<lambda>elk.
           bind_res (N2ElkPointForThem (ev_crypto ev) q) (\<lambda>n2. Inr (elk, n2))) of
        Inl e \<Rightarrow> (q, [], Some e)
      | Inr (elk, n2) \<Rightarrow>
        (let s = q_State q;
             q = q\<lparr>q_State := s\<lparr>st_ElkPoint := st_N2ElkPoint s, st_StateIdx := st_StateIdx s + 1,
                     st_MyAmt := pending_amt s (i64 (st_MyAmt s + st_Delta s))\<rparr>\<rparr>
         in case SignState ev q of Inl e \<Rightarrow> (q, [], Some e)
            | Inr (sig, HTLCSigs) \<Rightarrow>
              (q, tmpSendLitMsg ev (MsgGapSigRev (NewGapSigRev (Qchan_Peer q) (q_Op q) sig elk n2 HTLCSigs
                    (st_MyN2HTLCBase (q_State q)))), None)))"

definition SendSigRev :: "node_env \<Rightarrow> qchan \<Rightarrow> qchan \<times> lit_msg list \<times> lit_error option" where
  "SendSigRev ev q =
     (case sender_AtIndex (ev_dh ev) (q_ElkSnd q) (st_StateIdx (q_State q) - 1) of
        Inl e \<Rightarrow> (q, [], Some e)
      | Inr elk \<Rightarrow>
        (let q = q\<lparr>q_State := (q_State q)\<lparr>st_ElkPoint := st_NextElkPoint (q_State q)\<rparr>\<rparr> in
         case SignState ev q of Inl e \<Rightarrow> (q, [], Some e)
         | Inr (sig, HTLCSigs) \<Rightarrow>
           (case N2ElkPointForThem (ev_crypto ev) q of Inl e \<Rightarrow> (q, [], Some e)
            | Inr n2 \<Rightarrow> (q, tmpSendLitMsg ev (MsgSigRev (NewSigRev (Qchan_Peer q) (q_Op q) sig elk n2 HTLCSigs
                (st_MyN2HTLCBase (q_State q)))), None))))"

definition ReSendMsg :: "node_env \<Rightarrow> qchan \<Rightarrow> qchan \<times> lit_msg list \<times> lit_error option" where
  "ReSendMsg ev q =
     (if st_Delta (q_State q) < 0 then SendDeltaSig ev q
      else if 0 < st_Delta (q_State q) then SendSigRev ev q
      else (q, SendREV ev q))"

section \<open>Errors, and giving back the right to send\<close>

text \<open>
  The usual reaction to an error: the channel is marked failed and the error returned. A panic inside
  the call does not get that far.
\<close>

definition fail_with :: "node_env \<Rightarrow> lit_node \<Rightarrow> qchan \<Rightarrow> lit_msg list \<Rightarrow> lit_error \<Rightarrow> q_result" where
  "fail_with ev nd q msgs e =
     (if e = Panic then (nd, q, msgs, Some Panic)
      else let (nd, q) = FailChannel ev nd q in (nd, q, msgs, Some e))"

text \<open>\<open>ClearToSend <- true\<close>: with the token already there, the send blocks.\<close>

definition clear_to_send :: "lit_node \<Rightarrow> qchan \<Rightarrow> lit_msg list \<Rightarrow> lit_error option \<Rightarrow> q_result" where
  "clear_to_send nd q msgs e =
     (if q_ClearToSend q then (nd, q, msgs, Some Blocked) else (nd, q\<lparr>q_ClearToSend := True\<rparr>, msgs, e))"

section \<open>Pushing\<close>

text \<open>
  \<open>PushChannel\<close> up to the point where it has sent the DeltaSig. It waits for the token in a busy loop;
  without it the step is not enabled (\<open>Blocked\<close>). The amount is an unsigned 32-bit number.
\<close>

definition PushChannel :: "node_env \<Rightarrow> lit_node \<Rightarrow> qchan \<Rightarrow> u32 \<Rightarrow> bytes \<Rightarrow> q_result" where
  "PushChannel ev nd q amt data =
     (if st_Failed (q_State q) then (nd, q, [], Some Mismatch)
      else if MaxSendAmt \<le> amt then (nd, q, [], Some OutOfRange)
      else if amt = 0 then (nd, q, [], Some OutOfRange)
      else if \<not> q_ClearToSend q then (nd, q, [], Some Blocked)
      else
        let q = q\<lparr>q_ClearToSend := False\<rparr> in
        case ReloadQchanState ev nd q of Inl e \<Rightarrow> fail_with ev nd q [] e
        | Inr q \<Rightarrow>
          (case ev_wallet ev (Qchan_Coin q) of None \<Rightarrow> clear_to_send nd q [] (Some OutOfRange)
           | Some wal \<Rightarrow>
             if \<not> wl_TestCoin wal \<and> q_Height q < 100 then clear_to_send nd q [] (Some OutOfRange)
             else
               let (myAmt, theirAmt) = GetChannelBalances q;
                   myAmt = i64 (myAmt - i64 (st_Fee (q_State q) - uint amt));
                   theirAmt = i64 (theirAmt + i64 (uint amt - st_Fee (q_State q)))
               in if myAmt < MinOutput then clear_to_send nd q [] (Some OutOfRange)
                  else if theirAmt < MinOutput then clear_to_send nd q [] (Some OutOfRange)
                  else if st_Delta (q_State q) \<noteq> 0 then fail_with ev nd q [] Mismatch
                  else
                    let q = q\<lparr>q_State := (q_State q)\<lparr>st_Data := data, st_Delta := sint (- amt)\<rparr>\<rparr> in
                    if st_Delta (q_State q) = 0 then fail_with ev nd q [] OutOfRange
                    else
                      let nd = SaveQchanState ev nd q;
                          q = q\<lparr>q_LastUpdate := ev_now ev\<rparr>
                      in (nd, SendDeltaSig ev q)))"

text \<open>
  What \<open>PushChannel\<close> does afterwards: it waits for the token, and puts it back; when its timer fires
  first, the channel fails. With neither it goes on waiting.
\<close>

definition PushChannel_wait :: "node_env \<Rightarrow> lit_node \<Rightarrow> qchan \<Rightarrow> bool \<Rightarrow> q_result" where
  "PushChannel_wait ev nd q fired =
     (if fired then fail_with ev nd q [] Mismatch
      else if q_ClearToSend q then (nd, q, [], None)
      else (nd, q, [], Some Blocked))"

section \<open>The receiving side\<close>

text \<open>Setting \<open>Clearing\<close> of the HTLCs with the given indices, by position; out of range is a panic.\<close>

definition set_clearing :: "bool \<Rightarrow> u32 list \<Rightarrow> stat_com \<Rightarrow> lit_error + stat_com" where
  "set_clearing b idxs s =
     fold_res (\<lambda>s i. if unat i < length (st_HTLCs s)
        then Inr (s\<lparr>st_HTLCs := (st_HTLCs s)[unat i := (st_HTLCs s ! unat i)\<lparr>ht_Clearing := b\<rparr>]\<rparr>)
        else Inl Panic) s idxs"

text \<open>What a collision changes in the state before the signatures are checked.\<close>

definition delta_collision :: "node_env \<Rightarrow> qchan \<Rightarrow> u32 list \<Rightarrow> int \<Rightarrow> lit_error + stat_com" where
  "delta_collision ev q clearingIdxs incomingDelta =
     (let s = q_State q in
      if st_InProgHTLC s \<noteq> None then
        Inr (s\<lparr>st_InProgHTLC := None, st_CollidingHashDelta := True, st_MyNextHTLCBase := st_MyN2HTLCBase s,
          st_MyN2HTLCBase := GetUsePub_ign ev (htlc_keygen q (st_HTLCIdx s + 2)) UseHTLCBase\<rparr>)
      else if clearingIdxs \<noteq> [] then
        bind_res (set_clearing False clearingIdxs s) (\<lambda>s. Inr (s\<lparr>st_CollidingPreimageDelta := True\<rparr>))
      else Inr (s\<lparr>st_Collision := incomingDelta\<rparr>))"

text \<open>
  The handlers set the pointer \<open>InProgHTLC\<close> aside, may replace it by nil for the verification, and put it
  back. The signatures found good were written through the pointer that was in place.
\<close>

definition keep_inprog :: "htlc option \<Rightarrow> htlc option \<Rightarrow> htlc option" where
  "keep_inprog stashed current = (case current of None \<Rightarrow> stashed | Some h \<Rightarrow> Some h)"

definition DeltaSigHandler :: "node_env \<Rightarrow> lit_node \<Rightarrow> delta_sig_msg \<Rightarrow> qchan \<Rightarrow> q_result" where
  "DeltaSigHandler ev nd msg q =
     (let incomingDelta = sint (ds_Delta msg);
          collision = (\<not> q_ClearToSend q);
          q = q\<lparr>q_ClearToSend := False\<rparr>
      in case ReloadQchanState ev nd q of Inl e \<Rightarrow> fail_with ev nd q [] e
      | Inr q \<Rightarrow>
        if cl_Closed (q_CloseData q) then (nd, q, [], Some Mismatch)
        else
          let clearingIdxs = map ht_Idx (filter ht_Clearing (st_HTLCs (q_State q)));
              inProgHTLC = st_InProgHTLC (q_State q)
          in case (if collision then delta_collision ev q clearingIdxs incomingDelta else Inr (q_State q)) of
               Inl e \<Rightarrow> (nd, q, [], Some e)
             | Inr s \<Rightarrow>
               let q = q\<lparr>q_State := s\<rparr> in
               if 0 < st_Delta s then (nd, q, SendREV ev q)
               else
                 let q = (if \<not> collision \<or> st_InProgHTLC s \<noteq> None
                          then q\<lparr>q_State := s\<lparr>st_Delta := incomingDelta\<rparr>\<rparr> else q)
                 in if incomingDelta < 1 then fail_with ev nd q [] OutOfRange
                 else
                   let (myAmt, theirAmt) = GetChannelBalances q;
                       theirAmt = i64 (theirAmt - i64 (incomingDelta + st_Fee (q_State q)));
                       myAmt = i64 (myAmt + i64 (incomingDelta - st_Fee (q_State q)))
                   in if theirAmt < MinOutput then fail_with ev nd q [] OutOfRange
                   else if myAmt < MinOutput then fail_with ev nd q [] OutOfRange
                   else
                     let s = q_State q;
                         stashElk = st_ElkPoint s;
                         q = q\<lparr>q_LastUpdate := ev_now ev, q_State := s\<lparr>st_StateIdx := st_StateIdx s + 1,
                           st_MyAmt := i64 (st_MyAmt s + incomingDelta), st_Data := ds_Data msg,
                           st_ElkPoint := st_NextElkPoint s\<rparr>\<rparr>
                     in case VerifySigs ev q (ds_Signature msg) (ds_HTLCSigs msg) of
                          Inl e \<Rightarrow> fail_with ev nd q [] e
                        | Inr q \<Rightarrow>
                          (case set_clearing True clearingIdxs ((q_State q)\<lparr>st_ElkPoint := stashElk\<rparr>) of
                             Inl e \<Rightarrow> (nd, q, [], Some e)
                           | Inr s \<Rightarrow>
                             let s = s\<lparr>st_InProgHTLC := keep_inprog inProgHTLC (st_InProgHTLC s)\<rparr>;
                                 q = q\<lparr>q_State := s\<rparr>;
                                 nd = SaveQchanState ev nd q;
                                 (q, msgs, err) =
                                   (if st_Collision s \<noteq> 0 \<or> st_CollidingHashDelta s \<or> st_CollidingPreimageDelta s
                                    then SendGapSigRev ev q else SendSigRev ev q)
                             in case err of None \<Rightarrow> (nd, q, msgs, None) | Some e \<Rightarrow> fail_with ev nd q msgs e))"

definition GapSigRevHandler :: "node_env \<Rightarrow> lit_node \<Rightarrow> gap_sig_rev_msg \<Rightarrow> qchan \<Rightarrow> q_result" where
  "GapSigRevHandler ev nd msg q =
     (case ReloadQchanState ev nd q of Inl e \<Rightarrow> fail_with ev nd q [] e
      | Inr q \<Rightarrow>
        let s = q_State q in
        if st_Collision s = 0 \<and> st_CollidingHTLC s = None \<and> \<not> st_CollidingHashPreimage s \<and>
           \<not> st_CollidingHashDelta s \<and> \<not> st_CollidingPreimageDelta s \<and> \<not> st_CollidingPreimages s
        then fail_with ev nd q [] Mismatch
        else
          let prevAmt = i64 (st_MyAmt s - st_Collision s);
              s = s\<lparr>st_MyAmt := pending_amt s (i64 (st_MyAmt s + st_Delta s)), st_Delta := st_Collision s,
                    st_Collision := 0\<rparr>
          in case AdvanceElkrem (ev_crypto ev) (q\<lparr>q_State := s\<rparr>) (gs_Elk msg) (gs_N2ElkPoint msg) of
               (Some e, q) \<Rightarrow> fail_with ev nd q [] e
             | (None, q) \<Rightarrow>
               let s = q_State q;
                   stashElkPoint = st_ElkPoint s;
                   q = q\<lparr>q_LastUpdate := ev_now ev,
                     q_State := s\<lparr>st_ElkPoint := st_NextElkPoint s, st_StateIdx := st_StateIdx s + 1\<rparr>\<rparr>
               in case VerifySigs ev q (gs_Signature msg) (gs_HTLCSigs msg) of
                    Inl e \<Rightarrow> fail_with ev nd q [] e
                  | Inr q \<Rightarrow>
                    let s = (q_State q)\<lparr>st_ElkPoint := stashElkPoint\<rparr>;
                        s = (if gs_N2HTLCBase msg \<noteq> st_N2HTLCBase s
                             then s\<lparr>st_NextHTLCBase := st_N2HTLCBase s, st_N2HTLCBase := gs_N2HTLCBase msg\<rparr> else s);
                        base = (if st_CollidingHTLC s \<noteq> None
                          then bind_res (GetUsePub ev (htlc_keygen q (st_HTLCIdx s + 3)) UseHTLCBase) (\<lambda>p.
                            Inr (s\<lparr>st_MyNextHTLCBase := st_MyN2HTLCBase s, st_MyN2HTLCBase := p\<rparr>))
                          else Inr s)
                    in case base of Inl e \<Rightarrow> fail_with ev nd q [] e
                       | Inr s \<Rightarrow>
                         let q = q\<lparr>q_State := s\<rparr>;
                             nd = SaveQchanState ev nd q
                         in case SendREV ev q of (msgs, Some e) \<Rightarrow> fail_with ev nd q msgs e
                            | (msgs, None) \<Rightarrow>
                              let q = q\<lparr>q_State := s\<lparr>st_StateIdx := st_StateIdx s - 2, st_MyAmt := prevAmt\<rparr>\<rparr>;
                                  (nd, q, err) = BuildJusticeSig ev nd q
                              in (nd, q, msgs, if err = Some Panic then Some Panic else None))"

text \<open>The HTLC in progress joins the list.\<close>

definition append_inprog :: "stat_com \<Rightarrow> stat_com" where
  "append_inprog s = (case st_InProgHTLC s of None \<Rightarrow> s
     | Some h \<Rightarrow> s\<lparr>st_HTLCs := st_HTLCs s @ [h], st_InProgHTLC := None, st_HTLCIdx := st_HTLCIdx s + 1\<rparr>)"

definition mark_cleared :: "htlc \<Rightarrow> htlc" where
  "mark_cleared h = (if ht_Clearing h \<and> \<not> ht_Cleared h then h\<lparr>ht_Cleared := True\<rparr> else h)"

definition SigRevHandler :: "node_env \<Rightarrow> lit_node \<Rightarrow> sig_rev_msg \<Rightarrow> qchan \<Rightarrow> q_result" where
  "SigRevHandler ev nd msg q =
     (case ReloadQchanState ev nd q of Inl e \<Rightarrow> fail_with ev nd q [] e
      | Inr q \<Rightarrow>
        let s = q_State q in
        if 0 < st_Delta s then fail_with ev nd q [] Mismatch
        else if st_Delta s = 0 \<and> st_InProgHTLC s = None \<and> \<not> (\<exists>h \<in> set (st_HTLCs s). ht_Clearing h) then
          (case SendREV ev q of (msgs, None) \<Rightarrow> (nd, q, msgs, None) | (msgs, Some e) \<Rightarrow> fail_with ev nd q msgs e)
        else if st_Collision s \<noteq> 0 \<or> st_CollidingHTLC s \<noteq> None then fail_with ev nd q [] Mismatch
        else
          let prevAmt = st_MyAmt s;
              curElk = st_ElkPoint s;
              q = q\<lparr>q_State := s\<lparr>st_StateIdx := st_StateIdx s + 1,
                    st_MyAmt := pending_amt s (i64 (st_MyAmt s + st_Delta s)), st_Delta := 0,
                    st_ElkPoint := st_NextElkPoint s\<rparr>\<rparr>
          in case VerifySigs ev q (sr_Signature msg) (sr_HTLCSigs msg) of
               Inl e \<Rightarrow> fail_with ev nd q [] e
             | Inr q \<Rightarrow>
               let q = q\<lparr>q_State := (q_State q)\<lparr>st_ElkPoint := curElk\<rparr>\<rparr> in
               case AdvanceElkrem (ev_crypto ev) q (sr_Elk msg) (sr_N2ElkPoint msg) of
                 (Some e, q) \<Rightarrow> fail_with ev nd q [] e
               | (None, q) \<Rightarrow>
                 let s = q_State q;
                     base = (if st_InProgHTLC s \<noteq> None \<or> st_CollidingHashDelta s
                       then bind_res (GetUsePub ev (htlc_keygen q (st_HTLCIdx s + 2)) UseHTLCBase) (\<lambda>p.
                         Inr (s\<lparr>st_MyNextHTLCBase := st_MyN2HTLCBase s, st_MyN2HTLCBase := p\<rparr>))
                       else Inr s)
                 in case base of Inl e \<Rightarrow> fail_with ev nd q [] e
                    | Inr s \<Rightarrow>
                      let s = (if st_InProgHTLC s \<noteq> None
                            then (append_inprog s)\<lparr>st_NextHTLCBase := st_N2HTLCBase s, st_N2HTLCBase := sr_N2HTLCBase msg\<rparr>
                            else s);
                          s = s\<lparr>st_HTLCs := map mark_cleared (st_HTLCs s)\<rparr>;
                          q = q\<lparr>q_State := s\<rparr>;
                          nd = SaveQchanState ev nd q
                      in case SendREV ev q of (msgs, Some e) \<Rightarrow> fail_with ev nd q msgs e
                         | (msgs, None) \<Rightarrow>
                           if \<not> ev_connected ev (Qchan_Peer q) then (nd, q, msgs, Some Panic)
                           else if \<not> ev_publish ev then (nd, q, msgs, None)
                           else
                             let q = q\<lparr>q_State := s\<lparr>st_StateIdx := st_StateIdx s - 1, st_MyAmt := prevAmt\<rparr>\<rparr>;
                                 (nd, q, err) = BuildJusticeSig ev nd q
                             in if err = Some Panic then (nd, q, msgs, Some Panic)
                                else clear_to_send nd q msgs None)"

text \<open>
  Revocation. Every HTLC being cleared takes the multihop mutex inside the loop, and it is released only
  when the handler returns: a second such HTLC waits for itself.
\<close>

definition mark_payment :: "htlc \<Rightarrow> in_flight list \<Rightarrow> (bytes \<Rightarrow> in_flight option) \<Rightarrow> in_flight list \<times> (bytes \<Rightarrow> in_flight option)" where
  "mark_payment h mus db =
     (let hit = (\<lambda>mu. mu_HHash mu = ht_RHash h \<and> \<not> mu_Succeeded mu);
          done = (\<lambda>mu. mu\<lparr>mu_Succeeded := True, mu_PreImage := ht_R h\<rparr>)
      in (map (\<lambda>mu. if hit mu then done mu else mu) mus,
          fold (\<lambda>mu db. if hit mu then db(mu_HHash mu := Some (done mu)) else db) mus db))"

primrec clear_htlcs :: "nat list \<Rightarrow> bool \<Rightarrow> lit_node \<Rightarrow> stat_com \<Rightarrow> lit_node \<times> stat_com \<times> lit_error option" where
  "clear_htlcs [] locked nd s = (nd, s, None)"
| "clear_htlcs (i # is) locked nd s =
     (let h = st_HTLCs s ! i in
      if ht_Clearing h \<and> \<not> ht_Cleared h then
        let s = s\<lparr>st_HTLCs := (st_HTLCs s)[i := h\<lparr>ht_Cleared := True\<rparr>]\<rparr> in
        if locked then (nd, s, Some Blocked)
        else let (mus, db) = mark_payment h (nd_InProgMultihop nd) (nd_Payments nd)
             in clear_htlcs is True (nd\<lparr>nd_InProgMultihop := mus, nd_Payments := db\<rparr>) s
      else clear_htlcs is locked nd s)"

definition append_colliding :: "stat_com \<Rightarrow> stat_com" where
  "append_colliding s = (case st_CollidingHTLC s of None \<Rightarrow> s
     | Some h \<Rightarrow> s\<lparr>st_HTLCs := st_HTLCs s @ [h], st_CollidingHTLC := None, st_HTLCIdx := st_HTLCIdx s + 1\<rparr>)"

definition RevHandler :: "node_env \<Rightarrow> lit_node \<Rightarrow> rev_msg \<Rightarrow> qchan \<Rightarrow> q_result" where
  "RevHandler ev nd msg q =
     (case ReloadQchanState ev nd q of Inl e \<Rightarrow> fail_with ev nd q [] e
      | Inr q \<Rightarrow>
        let s = q_State q in
        if st_Delta s = 0 \<and> st_InProgHTLC s = None \<and> \<not> (\<exists>h \<in> set (st_HTLCs s). ht_Clearing h)
        then (nd, q, [], Some Mismatch)
        else if st_Delta s < 0 then (nd, q, SendREV ev q)
        else
          case AdvanceElkrem (ev_crypto ev) q (rv_Elk msg) (rv_N2ElkPoint msg) of
            (Some e, q) \<Rightarrow> fail_with ev nd q [] e
          | (None, q) \<Rightarrow>
            let s = q_State q;
                prevAmt = i64 (st_MyAmt s - st_Delta s);
                q = q\<lparr>q_LastUpdate := ev_now ev\<rparr>;
                s = s\<lparr>st_Delta := 0\<rparr>;
                s = (if rv_N2HTLCBase msg \<noteq> st_N2HTLCBase s
                     then s\<lparr>st_NextHTLCBase := st_N2HTLCBase s, st_N2HTLCBase := rv_N2HTLCBase msg\<rparr> else s);
                s = s\<lparr>st_CollidingHashDelta := False, st_CollidingHashPreimage := False,
                      st_CollidingPreimages := False, st_CollidingPreimageDelta := False\<rparr>;
                s = append_colliding (append_inprog s);
                (nd, s, err) = clear_htlcs [0..<length (st_HTLCs s)] False nd s;
                q = q\<lparr>q_State := s\<rparr>
            in case err of Some e \<Rightarrow> (nd, q, [], Some e)
               | None \<Rightarrow>
                 let nd = SaveQchanState ev nd q;
                     q = q\<lparr>q_State := s\<lparr>st_StateIdx := st_StateIdx s - 1, st_MyAmt := prevAmt\<rparr>\<rparr>;
                     (nd, q, err) = BuildJusticeSig ev nd q
                 in if err = Some Panic then (nd, q, [], Some Panic) else clear_to_send nd q [] None)"

end
