(* ===== verification/Htlc.thy ===== *)
theory Htlc
  imports PushPull
begin

text \<open>
  HTLCs (\<open>qln/htlc.go\<close>): offering one (HashSig), clearing it with its preimage or after its locktime
  (PreimageSig), the two handlers with their collisions, the dispatch of channel messages
  (\<open>PushPullHandler\<close>), and the search for HTLCs over all channels. Results are as in \<open>PushPull\<close>; the
  preimage handler also starts a goroutine, returned as the preimage it claims with.
\<close>

section \<open>Offering\<close>

definition new_htlc :: "node_env \<Rightarrow> qchan \<Rightarrow> u32 \<Rightarrow> bool \<Rightarrow> int \<Rightarrow> bytes \<Rightarrow> u32 \<Rightarrow> htlc" where
  "new_htlc ev q idx incoming amt rhash locktime =
     \<lparr>ht_Idx = idx, ht_Incoming = incoming, ht_Amt = amt, ht_RHash = rhash, ht_Locktime = locktime,
      ht_MyHTLCBase = GetUsePub_ign ev (htlc_keygen q idx) UseHTLCBase,
      ht_TheirHTLCBase = st_NextHTLCBase (q_State q), ht_KeyGen = htlc_keygen q idx,
      ht_Sig = replicate 64 0, ht_R = replicate 16 0, ht_Clearing = False, ht_Cleared = False,
      ht_ClearedOnChain = False\<rparr>"

definition SendHashSig :: "node_env \<Rightarrow> qchan \<Rightarrow> qchan \<times> lit_msg list \<times> lit_error option" where
  "SendHashSig ev q =
     (let s = q_State q in
      case st_InProgHTLC s of None \<Rightarrow> (q\<lparr>q_State := s\<lparr>st_StateIdx := st_StateIdx s + 1\<rparr>\<rparr>, [], Some Panic)
      | Some h \<Rightarrow>
        (let q = q\<lparr>q_State := s\<lparr>st_StateIdx := st_StateIdx s + 1, st_MyAmt := i64 (st_MyAmt s - ht_Amt h),
                  st_ElkPoint := st_NextElkPoint s, st_NextElkPoint := st_N2ElkPoint s\<rparr>\<rparr>
         in case SignState ev q of Inl e \<Rightarrow> (q, [], Some e)
            | Inr (commitmentSig, HTLCSigs) \<Rightarrow>
              (q\<lparr>q_State := (q_State q)\<lparr>st_NextHTLCBase := st_N2HTLCBase s\<rparr>\<rparr>,
               tmpSendLitMsg ev (MsgHashSig (NewHashSigMsg (Qchan_Peer q) (q_Op q) (of_int (ht_Amt h)) (ht_Locktime h)
                 (ht_RHash h) commitmentSig HTLCSigs (st_Data s))), None)))"

text \<open>\<open>OfferHTLC\<close> up to the point where it has sent the HashSig; \<open>OfferHTLC_wait\<close> is the rest.\<close>

definition OfferHTLC :: "node_env \<Rightarrow> lit_node \<Rightarrow> qchan \<Rightarrow> u32 \<Rightarrow> bytes \<Rightarrow> u32 \<Rightarrow> bytes \<Rightarrow> q_result" where
  "OfferHTLC ev nd q amt RHash locktime data =
     (if st_Failed (q_State q) then (nd, q, [], Some Mismatch)
      else if MaxSendAmt \<le> amt then (nd, q, [], Some OutOfRange)
      else if amt = 0 then (nd, q, [], Some OutOfRange)
      else if \<not> q_ClearToSend q then (nd, q, [], Some Blocked)
      else
        let q = q\<lparr>q_ClearToSend := False\<rparr> in
        case ReloadQchanState ev nd q of Inl e \<Rightarrow> fail_with ev nd q [] e
        | Inr q \<Rightarrow>
          (case ev_wallet ev (Qchan_Coin q) of None \<Rightarrow> clear_to_send nd q [] (Some OutOfRange)
           | Some wal \<Rightarrow>
             if \<not> wl_TestCoin wal \<and> q_Height q < 100 then clear_to_send nd q [] (Some OutOfRange)
             else if i64 (fst (GetChannelBalances q) - i64 (st_Fee (q_State q) + uint amt)) < MinOutput
             then clear_to_send nd q [] (Some OutOfRange)
             else if st_Delta (q_State q) \<noteq> 0 \<or> st_InProgHTLC (q_State q) \<noteq> None then fail_with ev nd q [] Mismatch
             else
               let s = q_State q;
                   h = new_htlc ev q (st_HTLCIdx s) False (uint amt) RHash locktime;
                   q = q\<lparr>q_State := s\<lparr>st_Data := data, st_InProgHTLC := Some h\<rparr>\<rparr>;
                   nd = SaveQchanState ev nd q
               in case SendHashSig ev q of
                    (q, msgs, Some e) \<Rightarrow> fail_with ev nd q msgs e
                  | (q, msgs, None) \<Rightarrow> (nd, q, msgs, None)))"

definition OfferHTLC_wait :: "node_env \<Rightarrow> lit_node \<Rightarrow> qchan \<Rightarrow> bool \<Rightarrow> q_result" where
  "OfferHTLC_wait ev nd q fired =
     (if fired then fail_with ev nd q [] Mismatch
      else if q_ClearToSend q then (nd, q, [], None) else (nd, q, [], Some Blocked))"

text \<open>
  What a collision changes before the offered HTLC is put in place, and the index the HTLC gets for the
  verification.
\<close>

definition hash_collision :: "qchan \<Rightarrow> u32 list \<Rightarrow> lit_error + u32 \<times> stat_com" where
  "hash_collision q clearingIdxs =
     (let s = q_State q in
      case st_InProgHTLC s of Some h \<Rightarrow> Inr (ht_Idx h, s)
      | None \<Rightarrow>
        if clearingIdxs \<noteq> [] then
          bind_res (set_clearing False clearingIdxs s) (\<lambda>s. Inr (st_HTLCIdx s, s\<lparr>st_CollidingHashPreimage := True\<rparr>))
        else Inr (st_HTLCIdx s, s\<lparr>st_CollidingHashDelta := True\<rparr>))"

text \<open>Two HTLCs offered at once: the order of the base keys decides which one comes first.\<close>

definition place_htlcs :: "node_env \<Rightarrow> qchan \<Rightarrow> htlc \<Rightarrow> htlc \<Rightarrow> stat_com" where
  "place_htlcs ev q mine incoming =
     (let s = q_State q;
          curIdx = ht_Idx incoming;
          nextIdx = st_HTLCIdx s + 1;
          (first, second) = (if bytes_less (st_NextHTLCBase s) (st_MyNextHTLCBase s) then (incoming, mine) else (mine, incoming))
      in s\<lparr>st_InProgHTLC := Some (first\<lparr>ht_Idx := curIdx\<rparr>),
           st_CollidingHTLC := Some (second\<lparr>ht_Idx := nextIdx, ht_TheirHTLCBase := st_N2HTLCBase s,
             ht_KeyGen := (htlc_keygen q nextIdx)\<lparr>kg_PrivKey := kg_PrivKey (ht_KeyGen second)\<rparr>,
             ht_MyHTLCBase := GetUsePub_ign ev (htlc_keygen q nextIdx) UseHTLCBase\<rparr>)\<rparr>)"

definition HashSigHandler :: "node_env \<Rightarrow> lit_node \<Rightarrow> hash_sig_msg \<Rightarrow> qchan \<Rightarrow> q_result" where
  "HashSigHandler ev nd msg q =
     (let collision = (\<not> q_ClearToSend q);
          q = q\<lparr>q_ClearToSend := False\<rparr>
      in case ReloadQchanState ev nd q of Inl e \<Rightarrow> fail_with ev nd q [] e
      | Inr q \<Rightarrow>
        if cl_Closed (q_CloseData q) then (nd, q, [], Some Mismatch)
        else
          let inProgHTLC = st_InProgHTLC (q_State q);
              clearingIdxs = map ht_Idx (filter ht_Clearing (st_HTLCs (q_State q)));
              msgAmt = sint (hs_Amt msg)
          in case (if collision then hash_collision q clearingIdxs else Inr (st_HTLCIdx (q_State q), q_State q)) of
               Inl e \<Rightarrow> (nd, q, [], Some e)
             | Inr (htlcIdx, s) \<Rightarrow>
               let incoming = new_htlc ev q htlcIdx True msgAmt (hs_RHash msg) (hs_Locktime msg);
                   q = q\<lparr>q_State := s\<lparr>st_InProgHTLC := Some incoming\<rparr>\<rparr>
               in if msgAmt < MinOutput then fail_with ev nd q [] OutOfRange
               else if i64 (snd (GetChannelBalances q) - msgAmt) < MinOutput then fail_with ev nd q [] OutOfRange
               else
                 let s = q_State q;
                     curElk = st_ElkPoint s;
                     q = q\<lparr>q_State := s\<lparr>st_StateIdx := st_StateIdx s + 1, st_Data := hs_Data msg,
                           st_ElkPoint := st_NextElkPoint s\<rparr>\<rparr>
                 in case VerifySigs ev q (hs_CommitmentSignature msg) (hs_HTLCSigs msg) of
                      Inl e \<Rightarrow> fail_with ev nd q [] e
                    | Inr q \<Rightarrow>
                      (case set_clearing True clearingIdxs ((q_State q)\<lparr>st_ElkPoint := curElk\<rparr>) of
                         Inl e \<Rightarrow> (nd, q, [], Some e)
                       | Inr s \<Rightarrow>
                         let q = q\<lparr>q_State := s\<rparr>;
                             nd = SaveQchanState ev nd q;
                             s = (case (collision, inProgHTLC, st_InProgHTLC s) of
                                    (True, Some mine, Some incoming) \<Rightarrow> place_htlcs ev q mine incoming
                                  | _ \<Rightarrow> s)
                         in case GetUsePub ev (htlc_keygen q (st_HTLCIdx s + 2)) UseHTLCBase of
                              Inl e \<Rightarrow> fail_with ev nd (q\<lparr>q_State := s\<rparr>) [] e
                            | Inr p \<Rightarrow>
                              let s = s\<lparr>st_MyNextHTLCBase := st_MyN2HTLCBase s, st_MyN2HTLCBase := p\<rparr>;
                                  q = q\<lparr>q_State := s\<rparr>;
                                  nd = SaveQchanState ev nd q;
                                  (q, msgs, err) =
                                    (if st_Collision s \<noteq> 0 \<or> st_CollidingHTLC s \<noteq> None \<or> st_CollidingHashPreimage s \<or>
                                        st_CollidingHashDelta s
                                     then SendGapSigRev ev q else SendSigRev ev q)
                              in case err of None \<Rightarrow> (nd, q, msgs, None) | Some e \<Rightarrow> fail_with ev nd q msgs e))"

section \<open>Clearing\<close>

definition zeroR :: bytes where "zeroR = replicate 16 0"

definition SendPreimageSig :: "node_env \<Rightarrow> qchan \<Rightarrow> u32 \<Rightarrow> qchan \<times> lit_msg list \<times> lit_error option" where
  "SendPreimageSig ev q idx =
     (let s = q_State q in
      if length (st_HTLCs s) \<le> unat idx then (q\<lparr>q_State := s\<lparr>st_StateIdx := st_StateIdx s + 1\<rparr>\<rparr>, [], Some Panic)
      else
        let h = st_HTLCs s ! unat idx;
            q = q\<lparr>q_State := s\<lparr>st_StateIdx := st_StateIdx s + 1,
                st_MyAmt := (if ht_Incoming h \<noteq> (ht_R h = zeroR) then i64 (st_MyAmt s + ht_Amt h) else st_MyAmt s),
                st_ElkPoint := st_NextElkPoint s, st_NextElkPoint := st_N2ElkPoint s\<rparr>\<rparr>
        in case SignState ev q of Inl e \<Rightarrow> (q, [], Some e)
           | Inr (commitmentSig, HTLCSigs) \<Rightarrow>
             (q, tmpSendLitMsg ev (MsgPreimageSig (NewPreimageSigMsg (Qchan_Peer q) (q_Op q) idx (ht_R h) commitmentSig
                HTLCSigs (st_Data s))), None))"

text \<open>
  Whether an HTLC may be cleared with \<open>R\<close>: without a preimage after its locktime, with one that hashes
  to the HTLC's hash. \<open>int32\<close> of the locktime is its signed reading.
\<close>

definition may_clear :: "node_env \<Rightarrow> wallet \<Rightarrow> htlc \<Rightarrow> bytes \<Rightarrow> bool" where
  "may_clear ev wal h R =
     (if R = zeroR then sint (ht_Locktime h) \<le> wl_Height wal else cr_Sha256 (ev_crypto ev) R = ht_RHash h)"

definition ClearHTLC :: "node_env \<Rightarrow> lit_node \<Rightarrow> qchan \<Rightarrow> bytes \<Rightarrow> u32 \<Rightarrow> bytes \<Rightarrow> q_result" where
  "ClearHTLC ev nd q R idx data =
     (if st_Failed (q_State q) then (nd, q, [], Some Mismatch)
      else if \<not> q_ClearToSend q then (nd, q, [], Some Blocked)
      else
        let q = q\<lparr>q_ClearToSend := False\<rparr> in
        case ReloadQchanState ev nd q of Inl e \<Rightarrow> fail_with ev nd q [] e
        | Inr q \<Rightarrow>
          (case ev_wallet ev (Qchan_Coin q) of None \<Rightarrow> clear_to_send nd q [] (Some OutOfRange)
           | Some wal \<Rightarrow>
             let s = q_State q; h = st_HTLCs s ! unat idx in
             if \<not> wl_TestCoin wal \<and> q_Height q < 100 then clear_to_send nd q [] (Some OutOfRange)
             else if length (st_HTLCs s) \<le> unat idx then clear_to_send nd q [] (Some OutOfRange)
             else if ht_Cleared h then clear_to_send nd q [] (Some Mismatch)
             else if \<not> may_clear ev wal h R then clear_to_send nd q [] (Some Mismatch)
             else if st_Delta s \<noteq> 0 \<or> st_InProgHTLC s \<noteq> None then fail_with ev nd q [] Mismatch
             else
               let q = q\<lparr>q_State := s\<lparr>st_Data := data, st_HTLCs := (st_HTLCs s)[unat idx := h\<lparr>ht_R := R, ht_Clearing := True\<rparr>]\<rparr>\<rparr>;
                   nd = SaveQchanState ev nd q
               in case SendPreimageSig ev q idx of
                    (q, msgs, Some e) \<Rightarrow> fail_with ev nd q msgs e
                  | (q, msgs, None) \<Rightarrow> (nd, q, msgs, None)))"

definition ClearHTLC_wait :: "node_env \<Rightarrow> lit_node \<Rightarrow> qchan \<Rightarrow> bool \<Rightarrow> q_result" where
  "ClearHTLC_wait ev nd q fired =
     (if fired then fail_with ev nd q [] Mismatch
      else if q_ClearToSend q then (nd, q, [], None) else (nd, q, [], Some Blocked))"

definition preimage_collision :: "stat_com \<Rightarrow> u32 list \<Rightarrow> lit_error + stat_com" where
  "preimage_collision s clearingIdxs =
     (if st_InProgHTLC s \<noteq> None then Inr (s\<lparr>st_InProgHTLC := None, st_CollidingHashPreimage := True\<rparr>)
      else if clearingIdxs \<noteq> [] then
        bind_res (set_clearing False clearingIdxs s) (\<lambda>s. Inr (s\<lparr>st_CollidingPreimages := True\<rparr>))
      else Inr (s\<lparr>st_CollidingPreimageDelta := True\<rparr>))"

definition preimage_next :: "stat_com \<Rightarrow> preimage_sig_msg \<Rightarrow> stat_com" where
  "preimage_next s msg =
     (let h = (st_HTLCs s ! unat (ps_Idx msg))\<lparr>ht_R := ps_R msg, ht_Clearing := True\<rparr>
      in s\<lparr>st_StateIdx := st_StateIdx s + 1,
           st_MyAmt := (if ht_Incoming h \<noteq> (ps_R msg = zeroR) then i64 (st_MyAmt s + ht_Amt h) else st_MyAmt s),
           st_Data := ps_Data msg, st_ElkPoint := st_NextElkPoint s,
           st_HTLCs := (st_HTLCs s)[unat (ps_Idx msg) := h]\<rparr>)"

text \<open>After the signatures are verified: put back what was set aside, save, and answer.\<close>

definition preimage_done ::
  "node_env \<Rightarrow> lit_node \<Rightarrow> qchan \<Rightarrow> bytes \<Rightarrow> htlc option \<Rightarrow> u32 list \<Rightarrow> q_result" where
  "preimage_done ev nd q stashElk inProgHTLC clearingIdxs =
     (case set_clearing True clearingIdxs ((q_State q)\<lparr>st_ElkPoint := stashElk,
             st_InProgHTLC := keep_inprog inProgHTLC (st_InProgHTLC (q_State q))\<rparr>) of
        Inl e \<Rightarrow> (nd, q, [], Some e)
      | Inr s \<Rightarrow>
        (case (if st_CollidingHashPreimage s
               then bind_res (GetUsePub ev (htlc_keygen q (st_HTLCIdx s + 2)) UseHTLCBase) (\<lambda>p.
                 Inr (s\<lparr>st_MyNextHTLCBase := st_MyN2HTLCBase s, st_MyN2HTLCBase := p\<rparr>))
               else Inr s) of
           Inl e \<Rightarrow> fail_with ev nd (q\<lparr>q_State := s\<rparr>) [] e
         | Inr s \<Rightarrow>
           let q = q\<lparr>q_State := s\<rparr>;
               nd = SaveQchanState ev nd q;
               (q, msgs, err) =
                 (if st_Collision s \<noteq> 0 \<or> st_CollidingHashPreimage s \<or> st_CollidingPreimages s \<or> st_CollidingPreimageDelta s
                  then SendGapSigRev ev q else SendSigRev ev q)
           in case err of None \<Rightarrow> (nd, q, msgs, None) | Some e \<Rightarrow> fail_with ev nd q msgs e))"

definition PreimageSigHandler :: "node_env \<Rightarrow> lit_node \<Rightarrow> preimage_sig_msg \<Rightarrow> qchan \<Rightarrow> q_result \<times> bytes list" where
  "PreimageSigHandler ev nd msg q =
     (let collision = (\<not> q_ClearToSend q);
          q = q\<lparr>q_ClearToSend := False\<rparr>
      in case ReloadQchanState ev nd q of Inl e \<Rightarrow> (fail_with ev nd q [] e, [])
      | Inr q \<Rightarrow>
        (case ev_wallet ev (Qchan_Coin q) of None \<Rightarrow> ((nd, q, [], Some OutOfRange), [])
         | Some wal \<Rightarrow>
           let s = q_State q;
               idx = unat (ps_Idx msg);
               clearingIdxs = map ht_Idx (filter ht_Clearing (st_HTLCs s))
           in if cl_Closed (q_CloseData q) then ((nd, q, [], Some Mismatch), [])
           else if 0 < st_Delta s then ((nd, q, SendREV ev q), [])
           else if length (st_HTLCs s) \<le> idx then ((nd, q, [], Some OutOfRange), [])
           else if ht_Cleared (st_HTLCs s ! idx) then ((nd, q, [], Some Mismatch), [])
           else if \<not> may_clear ev wal (st_HTLCs s ! idx) (ps_R msg) then ((nd, q, [], Some Mismatch), [])
           else
             ((case (if collision then preimage_collision s clearingIdxs else Inr s) of
                 Inl e \<Rightarrow> (nd, q, [], Some e)
               | Inr s' \<Rightarrow>
                 let q = q\<lparr>q_State := preimage_next s' msg\<rparr> in
                 case VerifySigs ev q (ps_CommitmentSignature msg) (ps_HTLCSigs msg) of
                   Inl e \<Rightarrow> fail_with ev nd q [] e
                 | Inr q \<Rightarrow> preimage_done ev nd q (st_ElkPoint s') (st_InProgHTLC s) clearingIdxs),
              [ps_R msg])))"

section \<open>Dispatch\<close>

definition PushPullHandler :: "node_env \<Rightarrow> lit_node \<Rightarrow> lit_msg \<Rightarrow> qchan \<Rightarrow> q_result \<times> bytes list" where
  "PushPullHandler ev nd routedMsg q =
     (case routedMsg of
        MsgDeltaSig m \<Rightarrow> (DeltaSigHandler ev nd m q, [])
      | MsgSigRev m \<Rightarrow> (SigRevHandler ev nd m q, [])
      | MsgGapSigRev m \<Rightarrow> (GapSigRevHandler ev nd m q, [])
      | MsgRev m \<Rightarrow> (RevHandler ev nd m q, [])
      | MsgHashSig m \<Rightarrow> (HashSigHandler ev nd m q, [])
      | MsgPreimageSig m \<Rightarrow> PreimageSigHandler ev nd m q
      | _ \<Rightarrow> ((nd, q, [], Some (UnknownMsgType (MsgType routedMsg))), []))"

section \<open>Searching\<close>

text \<open>The channels of the database, in the order of the keys of its bucket.\<close>

definition GetAllQchans :: "node_env \<Rightarrow> lit_node \<Rightarrow> bytes list \<Rightarrow> qchan list" where
  "GetAllQchans ev nd keys = map (NewQchanFromChanData ev) (List.map_filter (nd_Channels nd) keys)"

definition FindHTLCsByHash :: "node_env \<Rightarrow> lit_node \<Rightarrow> bytes list \<Rightarrow> bytes \<Rightarrow> (htlc \<times> qchan) list" where
  "FindHTLCsByHash ev nd keys hash =
     concat (map (\<lambda>q. map (\<lambda>h. (h, q)) (filter (\<lambda>h. ht_RHash h = hash) (st_HTLCs (q_State q)))) (GetAllQchans ev nd keys))"

definition timed_out :: "int \<Rightarrow> htlc \<Rightarrow> bool" where
  "timed_out height h \<longleftrightarrow> \<not> ht_Incoming h \<and> \<not> ht_Cleared h \<and> sint (ht_Locktime h) \<le> height"

definition FindHTLCsByTimeoutHeight ::
  "node_env \<Rightarrow> lit_node \<Rightarrow> bytes list \<Rightarrow> u32 \<Rightarrow> int \<Rightarrow> lit_error + (htlc \<times> qchan) list" where
  "FindHTLCsByTimeoutHeight ev nd keys coinType height =
     fold_res (\<lambda>acc q. bind_res (ReloadQchanState ev nd q) (\<lambda>q.
        Inr (if Qchan_Coin q = coinType
             then acc @ map (\<lambda>h. (h, q)) (filter (timed_out height) (st_HTLCs (q_State q))) else acc)))
       [] (GetAllQchans ev nd keys)"

definition GetHTLCOut :: "crypto \<Rightarrow> qchan \<Rightarrow> htlc \<Rightarrow> msg_tx \<Rightarrow> bool \<Rightarrow> lit_error + tx_out \<times> u32" where
  "GetHTLCOut cr q h tx mine =
     (if tx_TxOut tx = [] then Inl OutOfRange
      else bind_res (GenHTLCOut cr q h mine) (\<lambda>out.
        case find_idx (\<lambda>o'. to_PkScript o' = to_PkScript out) (tx_TxOut tx) of
          None \<Rightarrow> Inl OutOfRange | Some i \<Rightarrow> Inr (tx_TxOut tx ! i, of_nat i)))"

text \<open>The first HTLC over all channels whose output in the other party's transaction is \<open>op\<close>.\<close>

primrec GetHTLC_in :: "crypto \<Rightarrow> qchan \<Rightarrow> msg_tx \<Rightarrow> outpoint \<Rightarrow> htlc list \<Rightarrow> lit_error + htlc option" where
  "GetHTLC_in cr q tx op [] = Inr None"
| "GetHTLC_in cr q tx op (h # hs) =
     bind_res (GetHTLCOut cr q h tx False) (\<lambda>(out, i).
       if op = \<lparr>op_Hash = TxHash cr tx, op_Index = i\<rparr> then Inr (Some h) else GetHTLC_in cr q tx op hs)"

primrec GetHTLC :: "crypto \<Rightarrow> outpoint \<Rightarrow> qchan list \<Rightarrow> lit_error + (htlc \<times> qchan) option" where
  "GetHTLC cr op [] = Inr None"
| "GetHTLC cr op (q # qs) =
     bind_res (BuildStateTxs cr q False) (\<lambda>(tx, spends, outs).
       bind_res (GetHTLC_in cr q tx op (st_HTLCs (q_State q))) (\<lambda>r.
         case r of Some h \<Rightarrow> Inr (Some (h, q)) | None \<Rightarrow> GetHTLC cr op qs))"

text \<open>
  The commitment transaction a closed channel was closed with: the own or the other party's one at the
  present state, whichever has the transaction id that was seen.
\<close>

definition close_state :: "stat_com \<Rightarrow> stat_com" where
  "close_state s =
     s\<lparr>st_HTLCs := map (\<lambda>h. if \<not> ht_Cleared h \<and> ht_Clearing h then h\<lparr>ht_Clearing := False\<rparr> else h) (st_HTLCs s),
       st_InProgHTLC := None, st_CollidingHTLC := None\<rparr>"

definition GetCloseTxs :: "crypto \<Rightarrow> qchan \<Rightarrow> qchan \<times> (lit_error + msg_tx \<times> msg_tx list \<times> bool)" where
  "GetCloseTxs cr q =
     (let q = q\<lparr>q_State := close_state (q_State q)\<rparr>
      in (q, bind_res (BuildStateTxs cr q True) (\<lambda>(tx, spends, outs).
           if cl_CloseTxid (q_CloseData q) = TxHash cr tx then Inr (tx, spends, True)
           else bind_res (BuildStateTxs cr q False) (\<lambda>(tx, spends, outs).
             if cl_CloseTxid (q_CloseData q) = TxHash cr tx then Inr (tx, spends, False) else Inl Mismatch))))"

text \<open>The entry is chosen by the index stored in the HTLC.\<close>

definition SetHTLCClearedOnChain :: "node_env \<Rightarrow> lit_node \<Rightarrow> qchan \<Rightarrow> htlc \<Rightarrow> lit_node \<times> qchan \<times> lit_error option" where
  "SetHTLCClearedOnChain ev nd q h =
     (case ReloadQchanState ev nd q of Inl e \<Rightarrow> (nd, q, Some e)
      | Inr q \<Rightarrow>
        let s = q_State q; i = unat (ht_Idx h) in
        if length (st_HTLCs s) \<le> i then (nd, q, Some Panic)
        else
          let q = q\<lparr>q_State := s\<lparr>st_HTLCs := (st_HTLCs s)[i := (st_HTLCs s ! i)\<lparr>ht_ClearedOnChain := True\<rparr>]\<rparr>\<rparr>
          in (SaveQchanState ev nd q, q, None))"

end
