(* ===== verification/PushRun.thy ===== *)
theory PushRun
  imports PushPull
begin

text \<open>
  Runs of the push protocol between two nodes, each with its own environment and database: an honest
  push completes, moves the amount, and leaves both channels at rest one state further.
\<close>

section \<open>Loading and saving\<close>

definition chan_of :: "node_env \<Rightarrow> chan_data \<Rightarrow> bool \<Rightarrow> qchan" where
  "chan_of ev d c = (NewQchanFromChanData ev d)\<lparr>q_ClearToSend := c\<rparr>"

definition root_of :: "node_env \<Rightarrow> chan_data \<Rightarrow> bytes" where
  "root_of ev d = (case GetElkremRoot ev (px_KeyGen (cdt_Txo d)) of Inl e \<Rightarrow> replicate 32 0 | Inr r \<Rightarrow> r)"

lemma chan_of_simps [simp]:
  "q_Txo (chan_of ev d c) = cdt_Txo d" "q_State (chan_of ev d c) = cdt_State d"
  "q_CloseData (chan_of ev d c) = cdt_CloseData d"
  "q_ElkSnd (chan_of ev d c) = NewElkremSender (root_of ev d)" "q_ElkRcv (chan_of ev d c) = NewElkremReceiver"
  "q_ClearToSend (chan_of ev d c) = c" "q_TheirPub (chan_of ev d c) = cdt_TheirPub d"
  "Qchan_Coin (chan_of ev d c) = kg_Step (px_KeyGen (cdt_Txo d)) ! 1 AND 0x7fffffff"
  "Qchan_Peer (chan_of ev d c) = kg_Step (px_KeyGen (cdt_Txo d)) ! 3 AND 0x7fffffff"
  by (simp_all add: chan_of_def NewQchanFromChanData_def root_of_def Qchan_Coin_def Qchan_Peer_def)

text \<open>\<open>stored nd q d\<close>: the database has \<open>d\<close> for the channel \<open>q\<close> in memory.\<close>

definition stored :: "lit_node \<Rightarrow> outpoint \<Rightarrow> chan_data \<Rightarrow> bool" where
  "stored nd op d \<longleftrightarrow> nd_Channels nd (OutPointToBytes op) = Some d \<and> px_Op (cdt_Txo d) = op"

lemma reload_stored:
  "stored nd (q_Op q) d \<Longrightarrow> ReloadQchanState ev nd q = Inr (chan_of ev d (q_ClearToSend q))"
  by (simp add: stored_def ReloadQchanState_def ApplyChanDataToQchan_def chan_of_def)

lemma stored_tok: "stored nd (q_Op q) d \<Longrightarrow> stored nd (q_Op (q\<lparr>q_ClearToSend := c\<rparr>)) d"
  by simp

definition store_state :: "lit_node \<Rightarrow> outpoint \<Rightarrow> chan_data \<Rightarrow> stat_com \<Rightarrow> lit_node" where
  "store_state nd op d s = nd\<lparr>nd_Channels := (nd_Channels nd)(OutPointToBytes op := Some (d\<lparr>cdt_State := s\<rparr>))\<rparr>"

lemma save_stored:
  "stored nd (q_Op q) d \<Longrightarrow> SaveQchanState ev nd q = store_state nd (q_Op q) d (q_State q)"
  by (cases d) (simp add: stored_def SaveQchanState_def GetQchan_def SaveQChan_def NewChanDataFromQchan_def
      NewQchanFromChanData_def store_state_def)

lemma stored_store: "stored nd op d \<Longrightarrow> stored (store_state nd op d s) op (d\<lparr>cdt_State := s\<rparr>)"
  by (simp add: stored_def store_state_def)

section \<open>Signatures between two views\<close>

lemma FundTxScript_ok: "length a = 33 \<Longrightarrow> length b = 33 \<Longrightarrow> \<exists>s w. FundTxScript a b = Inr (s, w)"
proof -
  have "AddData d sb = sb\<lparr>sb_script := sb_script sb @ 33 # d\<rparr>"
    if "length d = 33" "sb_err sb = None" "length (sb_script sb) < 100" for d sb
    using that by (simp add: AddData_def addData_def addData_bytes_def canonicalDataSize_def maxScriptSize_def
        MaxScriptElementSize_def)
  then have "sb_err (build_script [Op OP_2, Data x, Data y, Op OP_2, Op OP_CHECKMULTISIG]) = None"
    if "length x = 33" "length y = 33" for x y
    using that by (simp add: build_script_def NewScriptBuilder_def AddOp_def maxScriptSize_def)
  then show "length a = 33 \<Longrightarrow> length b = 33 \<Longrightarrow> \<exists>s w. FundTxScript a b = Inr (s, w)"
    by (auto simp: FundTxScript_def Let_def)
qed

text \<open>The wallet of \<open>ev\<close> signs for funding outputs, and \<open>ev'\<close> accepts its signatures under the key \<open>pub\<close>.\<close>

definition signs_for :: "node_env \<Rightarrow> node_env \<Rightarrow> keygen \<Rightarrow> bytes \<Rightarrow> bool" where
  "signs_for ev ev' kg pub \<longleftrightarrow>
     (\<exists>priv. ev_GetPriv ev kg = Inr priv \<and>
        (\<forall>a b script w tx v. length a = 33 \<longrightarrow> length b = 33 \<longrightarrow> FundTxScript a b = Inr (script, w) \<longrightarrow>
           (\<exists>sig. ev_sign ev priv script tx v = Inr sig \<and> ev_verify ev' pub script tx v sig)))"

lemma state_signature_accepted:
  assumes m: "commit_mirror (ev_crypto ev) q' q" and cr: "ev_crypto ev' = ev_crypto ev"
    and w: "ev_wallet ev (Qchan_Coin q) \<noteq> None" and l: "live_htlcs (q_State q) = []"
    and k: "signs_for ev ev' (q_KeyGen q) (q_MyPub q)" and len: "length (q_MyPub q) = 33" "length (q_TheirPub q) = 33"
    and e: "sender_AtIndex (ev_dh ev) (q_ElkSnd q) (st_StateIdx (q_State q)) = Inr elk"
    and a: "output_amts q False = (fancy, pkh)" "fancy \<noteq> 0 \<longrightarrow> MinOutput \<le> fancy" "pkh \<noteq> 0 \<longrightarrow> MinOutput \<le> pkh"
      "fancy \<noteq> 0 \<or> pkh \<noteq> 0"
  shows "\<exists>sig. SignState ev q = Inr (sig, []) \<and>
    VerifySigs ev' q' sig [] = Inr (q'\<lparr>q_State := (q_State q')\<lparr>st_Sig := sig\<rparr>\<rparr>)"
proof -
  obtain rp tp pk where "GetKeysFromState (ev_crypto ev) q False = Inr (rp, tp, pk)"
    by (simp add: GetKeysFromState_def)
  from BuildStateTxs_plain [OF l this a]
  obtain tx where tx: "BuildStateTxs (ev_crypto ev) q False = Inr (tx, [], [])"
    by blast
  then have tx': "BuildStateTxs (ev_crypto ev) q' True = Inr (tx, [], [])"
    using BuildStateTxs_mirror [OF m] by simp
  have st: "q_MyPub q = q_TheirPub q'" "q_TheirPub q = q_MyPub q'" "q_Value q' = q_Value q"
    using m by (simp_all add: commit_mirror_def static_mirror_def)
  obtain pre w1 where p: "FundTxScript (q_MyPub q) (q_TheirPub q) = Inr (pre, w1)"
    using FundTxScript_ok [OF len] by blast
  obtain w2 where p': "FundTxScript (q_MyPub q') (q_TheirPub q') = Inr (pre, w2)"
    using FundTxScript_sym [OF p] by (auto simp: st)
  obtain priv sig where s: "ev_GetPriv ev (q_KeyGen q) = Inr priv" "ev_sign ev priv pre tx (q_Value q) = Inr sig"
    "ev_verify ev' (q_MyPub q) pre tx (q_Value q) sig"
    using k p len unfolding signs_for_def by blast
  have "SignState ev q = Inr (sig, [])"
    using w by (simp add: SignState_def tx p s e map_arr_def)
  moreover have "VerifySigs ev' q' sig [] = Inr (q'\<lparr>q_State := (q_State q')\<lparr>st_Sig := sig\<rparr>\<rparr>)"
    using s(3) by (simp add: VerifySigs_def cr tx' p' st)
  ultimately show ?thesis by blast
qed

section \<open>Channels in step\<close>

text \<open>A channel in memory that differs from the stored one only in its state, its token and its time stamp.\<close>

definition like :: "node_env \<Rightarrow> chan_data \<Rightarrow> qchan \<Rightarrow> bool" where
  "like ev d q \<longleftrightarrow> (\<exists>s c t. q = (chan_of ev d True)\<lparr>q_State := s, q_ClearToSend := c, q_LastUpdate := t\<rparr>)"

lemma likeI: "like ev d (chan_of ev d c)"
  unfolding like_def by (rule exI [of _ "cdt_State d"], rule exI [of _ c], rule exI [of _ "cdt_LastUpdate d"])
    (simp add: chan_of_def NewQchanFromChanData_def)

lemma like_upd [simp]:
  "like ev d q \<Longrightarrow> like ev d (q\<lparr>q_State := s\<rparr>)" "like ev d q \<Longrightarrow> like ev d (q\<lparr>q_LastUpdate := t\<rparr>)"
proof -
  assume "like ev d q"
  then obtain s0 c t0 where q: "q = (chan_of ev d True)\<lparr>q_State := s0, q_ClearToSend := c, q_LastUpdate := t0\<rparr>"
    by (auto simp: like_def)
  show "like ev d (q\<lparr>q_State := s\<rparr>)"
    unfolding like_def q by (rule exI [of _ s], rule exI [of _ c], rule exI [of _ t0]) simp
  show "like ev d (q\<lparr>q_LastUpdate := t\<rparr>)"
    unfolding like_def q by (rule exI [of _ s0], rule exI [of _ c], rule exI [of _ t]) simp
qed

lemma like_simps:
  assumes "like ev d q"
  shows "q_Txo q = cdt_Txo d" "q_ElkSnd q = NewElkremSender (root_of ev d)" "q_ElkRcv q = NewElkremReceiver"
    "q_MyPub q = q_MyPub (chan_of ev d True)" "q_TheirPub q = q_TheirPub (chan_of ev d True)"
    "Qchan_Coin q = Qchan_Coin (chan_of ev d True)" "Qchan_Peer q = Qchan_Peer (chan_of ev d True)"
  using assms by (auto simp: like_def Qchan_Coin_def Qchan_Peer_def)

lemma static_mirror_like:
  assumes "like ev d q" "like ev' d' q'"
  shows "static_mirror q q' = static_mirror (chan_of ev d True) (chan_of ev' d' True)"
  using assms by (auto simp: like_def static_mirror_def)

lemma static_mirror_sym: "static_mirror q q' \<Longrightarrow> static_mirror q' q"
  by (simp add: static_mirror_def)

definition pt :: "crypto \<Rightarrow> bytes \<Rightarrow> u64 \<Rightarrow> bytes" where
  "pt cr r i = (case sender_AtIndex (cr_DoubleHash cr) (NewElkremSender r) i of
     Inl e \<Rightarrow> [] | Inr h \<Rightarrow> ElkPointFromHash cr h)"

lemma sender_pt:
  assumes "i \<le> maxIndex"
  obtains h where "sender_AtIndex (cr_DoubleHash cr) (NewElkremSender r) i = Inr h" "ElkPointFromHash cr h = pt cr r i"
  using sender_AtIndex_elk [OF assms] by (fastforce simp: pt_def)

lemma ElkPoint_like: "like ev d q \<Longrightarrow> i \<le> maxIndex \<Longrightarrow> ElkPoint cr q False i = Inr (pt cr (root_of ev d) i)"
  using sender_pt [of i cr "root_of ev d"] by (force simp: ElkPoint_def like_simps)

text \<open>What an honest node needs to run a channel: its coin, its keys, a connection, and listeners that let
  the events pass.\<close>

definition link_ok :: "node_env \<Rightarrow> node_env \<Rightarrow> chan_data \<Rightarrow> bool" where
  "link_ok ev ev' d \<longleftrightarrow>
     (\<exists>wal. ev_wallet ev (Qchan_Coin (chan_of ev d True)) = Some wal \<and> (wl_TestCoin wal \<or> 100 \<le> px_Height (cdt_Txo d))) \<and>
     signs_for ev ev' (px_KeyGen (cdt_Txo d)) (q_MyPub (chan_of ev d True)) \<and>
     length (q_MyPub (chan_of ev d True)) = 33 \<and> ev_connected ev (Qchan_Peer (chan_of ev d True)) \<and> ev_publish ev \<and>
     (\<forall>k. ev_GetPriv ev k \<noteq> Inl Panic) \<and> (\<forall>k s t v. ev_sign ev k s t v \<noteq> Inl Panic) \<and>
     \<not> cl_Closed (cdt_CloseData d)"

text \<open>The part of it that signing needs.\<close>

definition link_keys :: "node_env \<Rightarrow> node_env \<Rightarrow> chan_data \<Rightarrow> bool" where
  "link_keys ev ev' d \<longleftrightarrow>
     ev_wallet ev (Qchan_Coin (chan_of ev d True)) \<noteq> None \<and>
     signs_for ev ev' (px_KeyGen (cdt_Txo d)) (q_MyPub (chan_of ev d True)) \<and>
     length (q_MyPub (chan_of ev d True)) = 33"

lemma link_ok_keys: "link_ok ev ev' d \<Longrightarrow> link_keys ev ev' d"
  by (auto simp: link_ok_def link_keys_def)

text \<open>A state at rest without HTLCs.\<close>

definition quiet :: "stat_com \<Rightarrow> bool" where
  "quiet s \<longleftrightarrow> st_Delta s = 0 \<and> st_Collision s = 0 \<and> st_InProgHTLC s = None \<and> st_CollidingHTLC s = None \<and>
     \<not> st_CollidingHashDelta s \<and> \<not> st_CollidingHashPreimage s \<and> \<not> st_CollidingPreimages s \<and>
     \<not> st_CollidingPreimageDelta s \<and> st_HTLCs s = [] \<and> \<not> st_Failed s"

definition points_at :: "crypto \<Rightarrow> bytes \<Rightarrow> stat_com \<Rightarrow> bool" where
  "points_at cr r s \<longleftrightarrow> st_ElkPoint s = pt cr r (st_StateIdx s) \<and> st_NextElkPoint s = pt cr r (st_StateIdx s + 1) \<and>
     st_N2ElkPoint s = pt cr r (st_StateIdx s + 2)"

definition in_sync :: "node_env \<Rightarrow> chan_data \<Rightarrow> node_env \<Rightarrow> chan_data \<Rightarrow> bool" where
  "in_sync ev d ev' d' \<longleftrightarrow>
     ev_crypto ev' = ev_crypto ev \<and> static_mirror (chan_of ev d True) (chan_of ev' d' True) \<and>
     link_ok ev ev' d \<and> link_ok ev' ev d' \<and> quiet (cdt_State d) \<and> quiet (cdt_State d') \<and>
     st_StateIdx (cdt_State d') = st_StateIdx (cdt_State d) \<and> st_Fee (cdt_State d') = st_Fee (cdt_State d) \<and>
     0 \<le> st_Fee (cdt_State d) \<and> st_Fee (cdt_State d) < 2 ^ 32 \<and> px_Value (cdt_Txo d) < 2 ^ 62 \<and>
     0 \<le> st_MyAmt (cdt_State d) \<and> 0 \<le> st_MyAmt (cdt_State d') \<and>
     st_MyAmt (cdt_State d) + st_MyAmt (cdt_State d') = px_Value (cdt_Txo d) \<and>
     points_at (ev_crypto ev) (root_of ev' d') (cdt_State d) \<and>
     points_at (ev_crypto ev) (root_of ev d) (cdt_State d')"

text \<open>A signature made on one side is accepted on the other: each side has nothing or enough for its output.\<close>

lemma side_amount:
  assumes "x \<noteq> 0 \<longrightarrow> m + f \<le> x" "0 \<le> f" "0 < (m :: int)"
  shows "0 \<le> x" "(if x = 0 then 0 else x - f) \<noteq> 0 \<longrightarrow> m \<le> (if x = 0 then 0 else x - f)"
    "(if x = 0 then 0 else x - f) = 0 \<longleftrightarrow> x = 0"
  using assms by auto

lemma theirs_amount:
  assumes "a + b = v" "0 \<le> a" "0 \<le> b" "0 \<le> f" "v < 2 ^ 62" "b \<noteq> 0 \<longrightarrow> m + f \<le> b" "0 < (m :: int)"
  shows "i64 (v - a) = b" "(if 0 < b then i64 (b - f) else 0) = (if b = 0 then 0 else b - f)"
proof -
  have "b < 2 ^ 63" "- (2 ^ 63) \<le> b" using assms(1-3,5) by simp_all
  then show "i64 (v - a) = b" using assms(1) i64_id by auto
  show "(if 0 < b then i64 (b - f) else 0) = (if b = 0 then 0 else b - f)"
    using assms \<open>b < 2 ^ 63\<close> by (cases "b = 0") (simp_all add: i64_id)
qed

lemma exchange:
  fixes q q' :: qchan
  defines "s \<equiv> q_State q" and "s' \<equiv> q_State q'"
  assumes lk: "like ev d q" "like ev' d' q'" and cr: "ev_crypto ev' = ev_crypto ev"
    and sm: "static_mirror (chan_of ev d True) (chan_of ev' d' True)" and ok: "link_keys ev ev' d" "link_keys ev' ev d'"
    and h: "st_HTLCs s = []" "st_InProgHTLC s = None" "st_CollidingHTLC s = None"
      "st_HTLCs s' = []" "st_InProgHTLC s' = None" "st_CollidingHTLC s' = None"
    and n: "st_StateIdx s' = st_StateIdx s" "st_StateIdx s \<le> maxIndex"
    and e: "st_ElkPoint s = pt (ev_crypto ev) (root_of ev' d') (st_StateIdx s)"
      "st_ElkPoint s' = pt (ev_crypto ev) (root_of ev d) (st_StateIdx s)"
    and f: "st_Fee s' = st_Fee s" "0 \<le> st_Fee s" "px_Value (cdt_Txo d) < 2 ^ 62"
    and v: "st_MyAmt s + st_MyAmt s' = px_Value (cdt_Txo d)"
      "st_MyAmt s \<noteq> 0 \<longrightarrow> MinOutput + st_Fee s \<le> st_MyAmt s"
      "st_MyAmt s' \<noteq> 0 \<longrightarrow> MinOutput + st_Fee s \<le> st_MyAmt s'"
      "st_MyAmt s \<noteq> 0 \<or> st_MyAmt s' \<noteq> 0"
  shows "\<exists>sig. SignState ev q = Inr (sig, []) \<and>
    VerifySigs ev' q' sig [] = Inr (q'\<lparr>q_State := (q_State q')\<lparr>st_Sig := sig\<rparr>\<rparr>)"
proof -
  have val: "px_Value (cdt_Txo d') = px_Value (cdt_Txo d)"
    using sm by (simp add: static_mirror_def)
  have pos: "0 < MinOutput" by (simp add: MinOutput_def)
  have sv: "state_value q = px_Value (cdt_Txo d)" "state_value q' = px_Value (cdt_Txo d)"
    using h by (simp_all add: state_value_def Let_def s_def s'_def like_simps [OF lk(1)] like_simps [OF lk(2)] val)
  note sa = side_amount [OF v(2) f(2) pos] side_amount [OF v(3) f(2) pos]
  note v' = sa(1,4)
  have vc: "st_MyAmt s' + st_MyAmt s = px_Value (cdt_Txo d)" using v(1) by simp
  have amts: "output_amts q False =
      (if st_MyAmt s' = 0 then 0 else st_MyAmt s' - st_Fee s, if st_MyAmt s = 0 then 0 else st_MyAmt s - st_Fee s)"
    unfolding output_amts_def Let_def s_def [symmetric] sv theirs_amount(1) [OF v(1) v' f(2,3) v(3) pos]
    using theirs_amount(2) [OF v(1) v' f(2,3) v(3) pos] theirs_amount(2) [OF vc v'(2,1) f(2,3) v(2) pos] by simp
  obtain elk where elk: "sender_AtIndex (ev_dh ev) (q_ElkSnd q) (st_StateIdx (q_State q)) = Inr elk"
    using sender_pt [OF n(2)] by (metis s_def like_simps(2) [OF lk(1)])
  have m: "commit_mirror (ev_crypto ev) q' q"
    unfolding commit_mirror_def s_def [symmetric] s'_def [symmetric] n(1)
    using static_mirror_sym sm v v' f h pos
    by (simp add: static_mirror_like [OF lk(2,1)] sv ElkPoint_like [OF lk(1) n(2)] ElkPoint_like [OF lk(2) n(2)] e)
  have "live_htlcs (q_State q) = []" "ev_wallet ev (Qchan_Coin q) \<noteq> None" "signs_for ev ev' (q_KeyGen q) (q_MyPub q)"
    "length (q_MyPub q) = 33" "length (q_TheirPub q) = 33"
    using ok sm h by (auto simp: link_keys_def like_simps [OF lk(1)] live_htlcs_def s_def static_mirror_def)
  from this(2,1,3-5) show ?thesis
    by (rule state_signature_accepted [OF m cr _ _ _ _ _ elk amts]) (use sa v(4) in auto)
qed

section \<open>The steps of an honest push\<close>

lemma amount_words:
  assumes "(amt :: u32) < 2 ^ 30"
  shows "sint amt = uint amt" "sint (- amt) = - uint amt" "of_int (i32 (uint amt)) = amt" "uint amt < 2 ^ 30" "0 \<le> uint amt"
proof -
  show u: "uint amt < 2 ^ 30" using assms by (simp add: word_less_alt)
  show p: "0 \<le> uint amt" by simp
  have sw: "sint (of_int x :: u32) = x" if "- (2 ^ 31) \<le> x" "x < 2 ^ 31" for x
    using that by (simp add: signed_of_int signed_take_bit_int_eq_self)
  show "sint amt = uint amt"
    using sw [of "uint amt"] u p by simp
  show "sint (- amt) = - uint amt"
    using sw [of "- uint amt"] u p by simp
  have "i32 (uint amt) = uint amt"
  proof (rule i32_id)
    show "- (2 ^ 31) \<le> uint amt" by (rule order_trans [OF _ p]) simp
  qed (use u in simp)
  then show "of_int (i32 (uint amt)) = amt" by simp
qed

definition pushed :: "stat_com \<Rightarrow> u32 \<Rightarrow> bytes \<Rightarrow> stat_com" where
  "pushed s amt data = s\<lparr>st_Data := data, st_Delta := - uint amt\<rparr>"

definition push_signed :: "stat_com \<Rightarrow> u32 \<Rightarrow> bytes \<Rightarrow> stat_com" where
  "push_signed s amt data = (pushed s amt data)\<lparr>st_StateIdx := st_StateIdx s + 1, st_MyAmt := st_MyAmt s - uint amt,
     st_ElkPoint := st_NextElkPoint s, st_NextElkPoint := st_N2ElkPoint s\<rparr>"

lemma push_start:
  assumes sy: "in_sync ev d ev' d'" and st: "stored nd (q_Op q) d" and q: "q_ClearToSend q" "\<not> st_Failed (q_State q)"
    and amt: "1 \<le> amt" "amt < 2 ^ 30"
    and bal: "MinOutput + st_Fee (cdt_State d) \<le> st_MyAmt (cdt_State d) + uint amt"
      "MinOutput + st_Fee (cdt_State d) \<le> st_MyAmt (cdt_State d') + uint amt"
    and q1: "q1 = (chan_of ev d False)\<lparr>q_LastUpdate := ev_now ev, q_State := push_signed (cdt_State d) amt data\<rparr>"
    and sig: "SignState ev q1 = Inr (sig, [])"
  shows "PushChannel ev nd q amt data = (store_state nd (q_Op q) d (pushed (cdt_State d) amt data), q1,
     [MsgDeltaSig (NewDeltaSigMsg (Qchan_Peer (chan_of ev d True)) (q_Op q) amt sig [] data)], None)"
proof -
  let ?s = "cdt_State d"
  have op: "px_Op (cdt_Txo d) = q_Op q" using st by (simp add: stored_def)
  note w = amount_words [OF amt(2)]
  obtain wal where wal: "ev_wallet ev (Qchan_Coin (chan_of ev d True)) = Some wal"
    "wl_TestCoin wal \<or> 100 \<le> px_Height (cdt_Txo d)" "ev_connected ev (Qchan_Peer (chan_of ev d True))"
    using sy by (auto simp: in_sync_def link_ok_def)
  have qs: "st_Delta ?s = 0" "st_HTLCs ?s = []"
    using sy by (simp_all add: in_sync_def quiet_def)
  have v: "st_MyAmt ?s + st_MyAmt (cdt_State d') = px_Value (cdt_Txo d)" "px_Value (cdt_Txo d) < 2 ^ 62"
    "0 \<le> st_Fee ?s" "st_Fee ?s < 2 ^ 32" "0 \<le> st_MyAmt ?s" "0 \<le> st_MyAmt (cdt_State d')"
    using sy by (simp_all add: in_sync_def)
  have amt0: "amt \<noteq> 0" using amt(1) by auto
  then have amt1: "uint amt \<noteq> 0" by (simp add: uint_0_iff)
  have b: "GetChannelBalances (chan_of ev d False) = (st_MyAmt ?s, st_MyAmt (cdt_State d'))"
    using v by (simp add: GetChannelBalances_def Let_def qs i64_id)
  have "i64 (st_MyAmt ?s - i64 (st_Fee ?s - a)) = st_MyAmt ?s - (st_Fee ?s - a) \<and>
      i64 (st_MyAmt (cdt_State d') + i64 (a - st_Fee ?s)) = st_MyAmt (cdt_State d') + (a - st_Fee ?s) \<and>
      i64 (st_MyAmt ?s + - a) = st_MyAmt ?s - a" if "0 \<le> a" "a < 2 ^ 30" for a
    using v that by (simp add: i64_id)
  note i = this [OF w(5,4)]
  have sd: "SendDeltaSig ev ((chan_of ev d False)\<lparr>q_State := pushed ?s amt data, q_LastUpdate := ev_now ev\<rparr>) =
      (q1, [MsgDeltaSig (NewDeltaSigMsg (Qchan_Peer (chan_of ev d True)) (q_Op q) amt sig [] data)], None)"
  proof -
    have q1': "(chan_of ev d False)\<lparr>q_LastUpdate := ev_now ev, q_State := (pushed ?s amt data)\<lparr>st_StateIdx := st_StateIdx ?s + 1,
        st_MyAmt := st_MyAmt ?s - uint amt, st_ElkPoint := st_NextElkPoint ?s, st_NextElkPoint := st_N2ElkPoint ?s\<rparr>\<rparr> = q1"
      by (simp add: q1 push_signed_def)
    have "q_State q1 = push_signed ?s amt data" "q_Txo q1 = cdt_Txo d" by (simp_all add: q1)
    then show ?thesis
      using sig wal(3) amt1 i w q1'
      by (simp add: SendDeltaSig_def Let_def pushed_def push_signed_def tmpSendLitMsg_def op Qchan_Peer_def NewDeltaSigMsg_def)
  qed
  have sv: "SaveQchanState ev nd ((chan_of ev d False)\<lparr>q_State := pushed ?s amt data\<rparr>) =
      store_state nd (q_Op q) d (pushed ?s amt data)"
    using save_stored [of nd "(chan_of ev d False)\<lparr>q_State := pushed ?s amt data\<rparr>" d ev] st by (simp add: op)
  have lt: "\<not> MaxSendAmt \<le> amt" using amt(2) by (simp add: MaxSendAmt_def)
  have c: "\<not> st_MyAmt ?s - (st_Fee ?s - uint amt) < MinOutput"
    "\<not> st_MyAmt (cdt_State d') + (uint amt - st_Fee ?s) < MinOutput"
    "\<not> (\<not> wl_TestCoin wal \<and> px_Height (cdt_Txo d) < 100)"
    using bal w(5) wal(2) by linarith+
  show ?thesis
    using q wal(1) sd sv reload_stored [OF stored_tok [OF st]] amt0 amt1
    by (simp add: PushChannel_def lt Let_def b i w qs c pushed_def del: not_less)
qed



definition received :: "stat_com \<Rightarrow> u32 \<Rightarrow> bytes \<Rightarrow> stat_com" where
  "received s amt data = s\<lparr>st_Delta := uint amt, st_StateIdx := st_StateIdx s + 1, st_MyAmt := st_MyAmt s + uint amt,
     st_Data := data\<rparr>"

lemma delta_step:
  assumes sy: "in_sync ev d ev' d'" and st: "stored nd (q_Op q) d'" and q: "q_ClearToSend q"
    and amt: "1 \<le> amt" "amt < 2 ^ 30"
    and bal: "MinOutput + st_Fee (cdt_State d) + uint amt \<le> st_MyAmt (cdt_State d)"
      "MinOutput + st_Fee (cdt_State d) \<le> st_MyAmt (cdt_State d') + uint amt"
    and qv: "qv = (chan_of ev' d' False)\<lparr>q_LastUpdate := ev_now ev', q_State :=
      (received (cdt_State d') amt data)\<lparr>st_ElkPoint := st_NextElkPoint (cdt_State d')\<rparr>\<rparr>"
    and ver: "VerifySigs ev' qv sig [] = Inr (qv\<lparr>q_State := (q_State qv)\<lparr>st_Sig := sig\<rparr>\<rparr>)"
    and q2: "q2 = (chan_of ev' d' False)\<lparr>q_LastUpdate := ev_now ev', q_State :=
      (received (cdt_State d') amt data)\<lparr>st_Sig := sig, st_InProgHTLC := None, st_ElkPoint := st_NextElkPoint (cdt_State d')\<rparr>\<rparr>"
    and sig: "SignState ev' q2 = Inr (sig2, [])"
    and n: "st_StateIdx (cdt_State d') + 3 \<le> maxIndex" 
    and elk: "sender_AtIndex (ev_dh ev') (NewElkremSender (root_of ev' d')) (st_StateIdx (cdt_State d')) = Inr elk"
  shows "DeltaSigHandler ev' nd (NewDeltaSigMsg p op' amt sig [] data) q =
    (store_state nd (q_Op q) d' ((received (cdt_State d') amt data)\<lparr>st_Sig := sig, st_InProgHTLC := None\<rparr>), q2,
     [MsgSigRev (NewSigRev (Qchan_Peer (chan_of ev' d' True)) (q_Op q) sig2 elk
        (pt (ev_crypto ev') (root_of ev' d') (st_StateIdx (cdt_State d') + 3)) [] (st_MyN2HTLCBase (cdt_State d')))], None)"
proof -
  let ?s = "cdt_State d'"
  have op: "px_Op (cdt_Txo d') = q_Op q" using st by (simp add: stored_def)
  note w = amount_words [OF amt(2)]
  have conn: "ev_connected ev' (Qchan_Peer (chan_of ev' d' True))" "\<not> cl_Closed (cdt_CloseData d')"
    using sy by (auto simp: in_sync_def link_ok_def)
  have qs: "st_Delta ?s = 0" "st_HTLCs ?s = []" "st_Collision ?s = 0" "st_InProgHTLC ?s = None"
    "\<not> st_CollidingHashDelta ?s" "\<not> st_CollidingPreimageDelta ?s"
    using sy by (simp_all add: in_sync_def quiet_def)
  have v: "st_MyAmt (cdt_State d) + st_MyAmt ?s = px_Value (cdt_Txo d')" "px_Value (cdt_Txo d') < 2 ^ 62"
    "st_Fee ?s = st_Fee (cdt_State d)" "0 \<le> st_Fee ?s" "st_Fee ?s < 2 ^ 32" "0 \<le> st_MyAmt ?s" "0 \<le> st_MyAmt (cdt_State d)"
    using sy by (auto simp: in_sync_def static_mirror_def)
  have b: "GetChannelBalances ((chan_of ev' d' False)\<lparr>q_State := ?s\<lparr>st_Delta := x\<rparr>\<rparr>) =
      (st_MyAmt ?s, st_MyAmt (cdt_State d))" for x
    using v by (simp add: GetChannelBalances_def Let_def qs i64_id)
  have "i64 (st_MyAmt (cdt_State d) - i64 (a + st_Fee (cdt_State d))) = st_MyAmt (cdt_State d) - (a + st_Fee (cdt_State d)) \<and>
      i64 (st_MyAmt ?s + i64 (a - st_Fee (cdt_State d))) = st_MyAmt ?s + (a - st_Fee (cdt_State d)) \<and>
      i64 (st_MyAmt ?s + a) = st_MyAmt ?s + a" if "0 \<le> a" "a < 2 ^ 30" for a
    using v that by (simp add: i64_id)
  note i = this [OF w(5,4)]
  have amt1: "1 \<le> uint amt"
    using amt(1) by (simp add: word_le_def)
  have sv: "SaveQchanState ev' nd ((chan_of ev' d' False)\<lparr>q_LastUpdate := t, q_State := s1\<rparr>) = store_state nd (q_Op q) d' s1" for s1 t
    using save_stored [of nd "(chan_of ev' d' False)\<lparr>q_LastUpdate := t, q_State := s1\<rparr>" d' ev'] st by (simp add: op)
  have n2: "N2ElkPointForThem (ev_crypto ev') q2 = Inr (pt (ev_crypto ev') (root_of ev' d') (st_StateIdx ?s + 3))"
  proof -
    have "like ev' d' q2" by (simp add: q2 likeI)
    from ElkPoint_like [OF this n] show ?thesis
      by (simp add: N2ElkPointForThem_def q2 received_def add.assoc)
  qed
  have sr: "SendSigRev ev' ((chan_of ev' d' False)\<lparr>q_LastUpdate := ev_now ev', q_State :=
      (received ?s amt data)\<lparr>st_Sig := sig, st_InProgHTLC := None\<rparr>\<rparr>) = (q2, [MsgSigRev (NewSigRev (Qchan_Peer (chan_of ev' d' True)) (q_Op q) sig2 elk
        (pt (ev_crypto ev') (root_of ev' d') (st_StateIdx ?s + 3)) [] (st_MyN2HTLCBase ?s))], None)"
  proof -
    have q2': "(chan_of ev' d' False)\<lparr>q_LastUpdate := ev_now ev', q_State :=
        (received ?s amt data)\<lparr>st_Sig := sig, st_InProgHTLC := None, st_ElkPoint := st_NextElkPoint ?s\<rparr>\<rparr> = q2"
      by (simp add: q2)
    have "q_State q2 = (received ?s amt data)\<lparr>st_Sig := sig, st_InProgHTLC := None, st_ElkPoint := st_NextElkPoint ?s\<rparr>" "q_Txo q2 = cdt_Txo d'"
      by (simp_all add: q2)
    then show ?thesis
      using sig elk n2 q2' conn(1)
      by (simp add: SendSigRev_def Let_def received_def op Qchan_Peer_def tmpSendLitMsg_def NewSigRev_def)
  qed
  have c: "\<not> st_MyAmt (cdt_State d) - (uint amt + st_Fee (cdt_State d)) < MinOutput"
    "\<not> st_MyAmt ?s + (uint amt - st_Fee (cdt_State d)) < MinOutput" "\<not> uint amt < 1"
    using bal amt1 by linarith+
  show ?thesis
    using q conn(2) reload_stored [OF stored_tok [OF st]] ver sr
    by (simp add: DeltaSigHandler_def Let_def b i w qs c qv received_def set_clearing_def keep_inprog_def sv v NewDeltaSigMsg_def del: not_less)
qed

section \<open>Revocations\<close>

lemma chan_of_state: "chan_of ev (d\<lparr>cdt_State := s\<rparr>) c = (chan_of ev d c)\<lparr>q_State := s\<rparr>"
  by (simp add: chan_of_def NewQchanFromChanData_def)

lemma justice_frame:
  assumes "BuildJusticeSig ev nd q = (nd', q', e)"
  shows "nd_Channels nd' = nd_Channels nd" "q_ClearToSend q' = q_ClearToSend q" "q_Txo q' = q_Txo q"
    "st_Failed (q_State q') = st_Failed (q_State q)"
  using assms
  by (auto simp: BuildJusticeSig_def Let_def SaveJusticeSig_def split: option.splits sum.splits)

lemma build_plain_no_panic:
  assumes "live_htlcs (q_State q) = []"
  shows "BuildStateTxs cr q False \<noteq> Inl Panic"
  using assms by (auto simp: BuildStateTxs_def GetKeysFromState_def Let_def htlc_spends_def split: prod.splits)

lemma justice_no_panic:
  assumes "live_htlcs (q_State q) = []" "AddNext (ev_dh ev) NewElkremReceiver (Some h) = Inr (q_ElkRcv q)"
    and "\<forall>k. ev_GetPriv ev k \<noteq> Inl Panic" "\<forall>k s t v. ev_sign ev k s t v \<noteq> Inl Panic"
    and b: "BuildJusticeSig ev nd q = (nd', q', e)"
  shows "e \<noteq> Some Panic"
proof
  assume e: "e = Some Panic"
  have "BuildStateTxs (ev_crypto ev) (q\<lparr>q_State := (q_State q)\<lparr>st_ElkPoint := x\<rparr>\<rparr>) False \<noteq> Inl Panic" for x
    using assms(1) by (intro build_plain_no_panic) (simp add: live_htlcs_def)
  then show False
    using assms(3,4) b
    by (auto simp: e BuildJusticeSig_def Let_def one_hash_AtIndex [OF assms(2)] bind_res_eq_Inl
        split: option.splits sum.splits if_splits)
qed

lemma ingest_restored:
  assumes "q_ElkRcv q = NewElkremReceiver" "st_StateIdx (q_State q) \<noteq> 0" "ElkPointFromHash cr h = st_ElkPoint (q_State q)"
  obtains rcv where "AddNext (cr_DoubleHash cr) NewElkremReceiver (Some h) = Inr rcv"
    "AdvanceElkrem cr q h n2 = (None, q\<lparr>q_ElkRcv := rcv, q_State := (q_State q)\<lparr>st_ElkPoint := st_NextElkPoint (q_State q),
       st_NextElkPoint := st_N2ElkPoint (q_State q), st_N2ElkPoint := n2\<rparr>\<rparr>)"
proof -
  obtain rcv where r: "AddNext (cr_DoubleHash cr) NewElkremReceiver (Some h) = Inr rcv"
    by (simp add: AddNext_def NewElkremReceiver_def)
  moreover have "AdvanceElkrem cr q h n2 = (None, q\<lparr>q_ElkRcv := rcv, q_State := (q_State q)\<lparr>st_ElkPoint := st_NextElkPoint (q_State q),
       st_NextElkPoint := st_N2ElkPoint (q_State q), st_N2ElkPoint := n2\<rparr>\<rparr>)"
    by (simp add: AdvanceElkrem_def IngestElkrem_def assms r)
  ultimately show thesis by (rule that)
qed

text \<open>The state of the pusher once it has the counterparty's signature and revocation.\<close>

definition sent :: "stat_com \<Rightarrow> u32 \<Rightarrow> bytes \<Rightarrow> stat_com" where
  "sent s amt data = s\<lparr>st_Data := data, st_StateIdx := st_StateIdx s + 1, st_MyAmt := st_MyAmt s - uint amt, st_Delta := 0\<rparr>"

definition advanced :: "bytes \<Rightarrow> stat_com \<Rightarrow> stat_com" where
  "advanced n2 s = s\<lparr>st_ElkPoint := st_NextElkPoint s, st_NextElkPoint := st_N2ElkPoint s, st_N2ElkPoint := n2\<rparr>"

lemma sigrev_step:
  assumes sy: "in_sync ev d ev' d'"
    and st: "stored nd (q_Op q) (d\<lparr>cdt_State := pushed (cdt_State d) amt data\<rparr>)" and q: "\<not> q_ClearToSend q"
    and amt: "1 \<le> amt" "amt < 2 ^ 30" "uint amt \<le> st_MyAmt (cdt_State d)"
    and qv: "qv = (chan_of ev d False)\<lparr>q_State := (sent (cdt_State d) amt data)\<lparr>st_ElkPoint := st_NextElkPoint (cdt_State d)\<rparr>\<rparr>"
    and ver: "VerifySigs ev qv sig [] = Inr (qv\<lparr>q_State := (q_State qv)\<lparr>st_Sig := sig\<rparr>\<rparr>)"
    and n: "st_StateIdx (cdt_State d) + 3 \<le> maxIndex" "st_StateIdx (cdt_State d) + 1 \<noteq> 0"
    and elk: "ElkPointFromHash (ev_crypto ev) elk' = st_ElkPoint (cdt_State d)"
    and own: "sender_AtIndex (ev_dh ev) (NewElkremSender (root_of ev d)) (st_StateIdx (cdt_State d)) = Inr elk"
  shows "\<exists>nd' q'. SigRevHandler ev nd (NewSigRev p op' sig elk' n2 [] base) q = (nd', q',
      [MsgRev (NewRevMsg (Qchan_Peer (chan_of ev d True)) (q_Op q) elk
         (pt (ev_crypto ev) (root_of ev d) (st_StateIdx (cdt_State d) + 3)) (st_MyN2HTLCBase (cdt_State d)))], None) \<and>
    q_ClearToSend q' \<and> q_Op q' = q_Op q \<and> \<not> st_Failed (q_State q') \<and>
    stored nd' (q_Op q) (d\<lparr>cdt_State := (advanced n2 ((sent (cdt_State d) amt data)\<lparr>st_Sig := sig\<rparr>))\<lparr>st_HTLCs := []\<rparr>\<rparr>)"
proof -
  let ?s = "cdt_State d"
  let ?S1 = "(sent ?s amt data)\<lparr>st_Sig := sig\<rparr>"
  let ?S2 = "(advanced n2 ?S1)\<lparr>st_HTLCs := []\<rparr>"
  have op: "px_Op (cdt_Txo d) = q_Op q" using st by (simp add: stored_def)
  note w = amount_words [OF amt(2)]
  have amt1: "0 < uint amt"
    using amt(1) by (simp add: word_le_def)
  have env: "ev_connected ev (Qchan_Peer (chan_of ev d True))" "ev_publish ev" "\<forall>k. ev_GetPriv ev k \<noteq> Inl Panic"
    "\<forall>k s t v. ev_sign ev k s t v \<noteq> Inl Panic"
    using sy by (auto simp: in_sync_def link_ok_def)
  have qs: "st_HTLCs ?s = []" "st_Collision ?s = 0" "st_InProgHTLC ?s = None" "st_CollidingHTLC ?s = None"
    "\<not> st_CollidingHashDelta ?s" "\<not> st_Failed ?s"
    using sy by (simp_all add: in_sync_def quiet_def)
  have i: "i64 (st_MyAmt ?s - uint amt) = st_MyAmt ?s - uint amt"
  proof (rule i64_id)
    have v: "0 \<le> st_MyAmt ?s - uint amt" "st_MyAmt ?s < 2 ^ 62"
      using sy amt(3) by (auto simp: in_sync_def)
    then show "- (2 ^ 63) \<le> st_MyAmt ?s - uint amt" by simp
    have "st_MyAmt ?s - uint amt < 2 ^ 62" using v(2) w(5) by (rule_tac order.strict_trans1 [of _ "st_MyAmt ?s"]) linarith+
    also have "(2 :: int) ^ 62 < 2 ^ 63" by simp
    finally show "st_MyAmt ?s - uint amt < 2 ^ 63" .
  qed
  define Q1 where "Q1 = (chan_of ev d False)\<lparr>q_State := ?S1\<rparr>"
  have Q1: "q_ElkRcv Q1 = NewElkremReceiver" "q_State Q1 = ?S1" by (simp_all add: Q1_def)
  obtain rcv where rcv: "AddNext (ev_dh ev) NewElkremReceiver (Some elk') = Inr rcv"
    and adv: "AdvanceElkrem (ev_crypto ev) Q1 elk' n2 = (None, Q1\<lparr>q_ElkRcv := rcv, q_State := advanced n2 ?S1\<rparr>)"
    using ingest_restored [OF Q1(1), of "ev_crypto ev" elk' n2] n(2) elk
    by (auto simp: Q1(2) sent_def advanced_def)
  define Q2 where "Q2 = Q1\<lparr>q_ElkRcv := rcv, q_State := ?S2\<rparr>"
  have Q2: "q_Op Q2 = q_Op q" "q_ElkSnd Q2 = NewElkremSender (root_of ev d)" "q_State Q2 = ?S2" "q_Txo Q2 = cdt_Txo d"
    "Qchan_Peer Q2 = Qchan_Peer (chan_of ev d True)" "q_ClearToSend Q2 = False" "q_ElkRcv Q2 = rcv"
    by (simp_all add: Q2_def Q1_def op Qchan_Peer_def)
  have rev: "SendREV ev Q2 = ([MsgRev (NewRevMsg (Qchan_Peer (chan_of ev d True)) (q_Op q) elk
         (pt (ev_crypto ev) (root_of ev d) (st_StateIdx ?s + 3)) (st_MyN2HTLCBase ?s))], None)"
  proof -
    obtain h where "sender_AtIndex (ev_dh ev) (NewElkremSender (root_of ev d)) (st_StateIdx ?s + 3) = Inr h"
      "ElkPointFromHash (ev_crypto ev) h = pt (ev_crypto ev) (root_of ev d) (st_StateIdx ?s + 3)"
      using n(1) by (rule sender_pt)
    then show ?thesis
      using own env(1)
      by (simp add: SendREV_def N2ElkPointForThem_def ElkPoint_def Q2 sent_def advanced_def add.assoc tmpSendLitMsg_def NewRevMsg_def op)
  qed
  let ?nd = "store_state nd (q_Op q) (d\<lparr>cdt_State := pushed ?s amt data\<rparr>) ?S2"
  have sv: "SaveQchanState ev nd Q2 = ?nd"
    using save_stored [of nd Q2] st by (simp add: Q2 op)
  let ?Q3 = "Q2\<lparr>q_State := ?S2\<lparr>st_StateIdx := st_StateIdx ?s, st_MyAmt := st_MyAmt ?s\<rparr>\<rparr>"
  obtain nd3 q3 e3 where j: "BuildJusticeSig ev ?nd ?Q3 = (nd3, q3, e3)" by (cases "BuildJusticeSig ev ?nd ?Q3")
  have e3: "e3 \<noteq> Some Panic"
    by (rule justice_no_panic [OF _ _ env(3,4) j, of elk'])
      (simp_all add: live_htlcs_def sent_def advanced_def qs Q2(7) rcv)
  note fr = justice_frame [OF j]
  have raw: "(chan_of ev d False)\<lparr>q_State := ?s\<lparr>st_Data := data, st_StateIdx := st_StateIdx ?s + 1,
      st_MyAmt := st_MyAmt ?s - uint amt, st_Delta := 0, st_Sig := sig\<rparr>\<rparr> = Q1"
    by (simp add: Q1_def sent_def)
  have raw2: "Q1\<lparr>q_ElkRcv := rcv, q_State := x\<rparr> = Q2\<lparr>q_State := x\<rparr>" for x
    by (simp add: Q2_def)
  have raw3: "Q2\<lparr>q_State := ?S2\<rparr> = Q2"
    by (simp add: Q2_def)
  have "SigRevHandler ev nd (NewSigRev p op' sig elk' n2 [] base) q = clear_to_send nd3 q3
      [MsgRev (NewRevMsg (Qchan_Peer (chan_of ev d True)) (q_Op q) elk
         (pt (ev_crypto ev) (root_of ev d) (st_StateIdx ?s + 3)) (st_MyN2HTLCBase ?s))] None"
    using q reload_stored [OF st] ver adv rev sv j e3 env(1,2) amt1 raw3
    by (simp add: SigRevHandler_def Let_def chan_of_state pushed_def qs i qv sent_def advanced_def NewSigRev_def
        pending_amt_def raw Q2(5) raw2)
  moreover have "stored nd3 (q_Op q) (d\<lparr>cdt_State := ?S2\<rparr>)"
    using stored_store [OF st, of ?S2] fr(1) by (simp add: stored_def)
  ultimately show ?thesis
    using fr(2-4) qs(6) by (simp add: clear_to_send_def Q2 op sent_def advanced_def)
qed

definition rev_done :: "bytes \<Rightarrow> stat_com \<Rightarrow> stat_com" where
  "rev_done base s =
     (let s = s\<lparr>st_Delta := 0\<rparr>;
          s = (if base \<noteq> st_N2HTLCBase s then s\<lparr>st_NextHTLCBase := st_N2HTLCBase s, st_N2HTLCBase := base\<rparr> else s)
      in s\<lparr>st_CollidingHashDelta := False, st_CollidingHashPreimage := False,
           st_CollidingPreimages := False, st_CollidingPreimageDelta := False\<rparr>)"

lemma rev_done_fields [simp]:
  "st_StateIdx (rev_done b s) = st_StateIdx s" "st_MyAmt (rev_done b s) = st_MyAmt s" "st_Fee (rev_done b s) = st_Fee s"
  "st_Delta (rev_done b s) = 0" "st_Collision (rev_done b s) = st_Collision s" "st_HTLCs (rev_done b s) = st_HTLCs s"
  "st_InProgHTLC (rev_done b s) = st_InProgHTLC s" "st_CollidingHTLC (rev_done b s) = st_CollidingHTLC s"
  "st_ElkPoint (rev_done b s) = st_ElkPoint s" "st_NextElkPoint (rev_done b s) = st_NextElkPoint s"
  "st_N2ElkPoint (rev_done b s) = st_N2ElkPoint s" "st_Failed (rev_done b s) = st_Failed s" "st_Data (rev_done b s) = st_Data s"
  "\<not> st_CollidingHashDelta (rev_done b s)" "\<not> st_CollidingHashPreimage (rev_done b s)"
  "\<not> st_CollidingPreimages (rev_done b s)" "\<not> st_CollidingPreimageDelta (rev_done b s)"
  by (simp_all add: rev_done_def Let_def)

lemma rev_step:
  assumes ok: "link_ok ev' ev d'"
    and st: "stored nd (q_Op q) (d'\<lparr>cdt_State := s\<rparr>)" and q: "\<not> q_ClearToSend q"
    and s: "0 < st_Delta s" "st_HTLCs s = []" "st_InProgHTLC s = None" "st_CollidingHTLC s = None"
    and n: "st_StateIdx s \<noteq> 0" and elk: "ElkPointFromHash (ev_crypto ev') elk = st_ElkPoint s"
  shows "\<exists>nd' q'. RevHandler ev' nd (NewRevMsg p op' elk n2 base) q = (nd', q', [], None) \<and>
    q_ClearToSend q' \<and> q_Op q' = q_Op q \<and> st_Failed (q_State q') = st_Failed s \<and>
    stored nd' (q_Op q) (d'\<lparr>cdt_State := rev_done base (advanced n2 s)\<rparr>)"
proof -
  let ?S2 = "rev_done base (advanced n2 s)"
  have op: "px_Op (cdt_Txo d') = q_Op q" using st by (simp add: stored_def)
  have env: "\<forall>k. ev_GetPriv ev' k \<noteq> Inl Panic" "\<forall>k s t v. ev_sign ev' k s t v \<noteq> Inl Panic"
    using ok by (auto simp: link_ok_def)
  define Q1 where "Q1 = (chan_of ev' d' False)\<lparr>q_State := s\<rparr>"
  have Q1: "q_ElkRcv Q1 = NewElkremReceiver" "q_State Q1 = s" by (simp_all add: Q1_def)
  obtain rcv where rcv: "AddNext (ev_dh ev') NewElkremReceiver (Some elk) = Inr rcv"
    and adv: "AdvanceElkrem (ev_crypto ev') Q1 elk n2 = (None, Q1\<lparr>q_ElkRcv := rcv, q_State := advanced n2 s\<rparr>)"
    using ingest_restored [OF Q1(1), of "ev_crypto ev'" elk n2] n elk by (auto simp: Q1(2) advanced_def)
  define Q2 where "Q2 = Q1\<lparr>q_ElkRcv := rcv, q_LastUpdate := ev_now ev', q_State := ?S2\<rparr>"
  have Q2: "q_State Q2 = ?S2" "q_Txo Q2 = cdt_Txo d'" "q_ClearToSend Q2 = False" "q_ElkRcv Q2 = rcv"
    by (simp_all add: Q2_def Q1_def)
  have app: "append_colliding (append_inprog ?S2) = ?S2"
    using s by (simp add: append_inprog_def append_colliding_def advanced_def)
  let ?nd = "store_state nd (q_Op q) (d'\<lparr>cdt_State := s\<rparr>) ?S2"
  have sv: "SaveQchanState ev' nd Q2 = ?nd"
    using save_stored [of nd Q2] st by (simp add: Q2 op)
  let ?Q3 = "Q2\<lparr>q_State := ?S2\<lparr>st_StateIdx := st_StateIdx s - 1, st_MyAmt := i64 (st_MyAmt s - st_Delta s)\<rparr>\<rparr>"
  obtain nd3 q3 e3 where j: "BuildJusticeSig ev' ?nd ?Q3 = (nd3, q3, e3)" by (cases "BuildJusticeSig ev' ?nd ?Q3")
  have e3: "e3 \<noteq> Some Panic"
    by (rule justice_no_panic [OF _ _ env j, of elk])
      (simp_all add: live_htlcs_def advanced_def s Q2 rcv)
  note fr = justice_frame [OF j]
  have raw: "Q1\<lparr>q_ElkRcv := rcv, q_LastUpdate := ev_now ev', q_State := x\<rparr> = Q2\<lparr>q_State := x\<rparr>" for x
    by (simp add: Q2_def)
  have raw2: "Q2\<lparr>q_State := ?S2\<rparr> = Q2" by (simp add: Q2_def)
  have rl: "ReloadQchanState ev' nd q = Inr Q1"
    using reload_stored [OF st] q by (simp add: Q1_def chan_of_state)
  have "RevHandler ev' nd (NewRevMsg p op' elk n2 base) q = clear_to_send nd3 q3 [] None"
    using adv sv j e3 s(1) raw2 app
    by (cases "base = st_N2HTLCBase s")
      (simp_all add: RevHandler_def rl Let_def Q1(2) s(2,3,4) advanced_def rev_done_def NewRevMsg_def raw)
  moreover have "stored nd3 (q_Op q) (d'\<lparr>cdt_State := ?S2\<rparr>)"
    using stored_store [OF st, of ?S2] fr(1) by (simp add: stored_def)
  ultimately show ?thesis
    using fr(2-4) by (simp add: clear_to_send_def Q2 op rev_done_def advanced_def Let_def)
qed

section \<open>An honest push completes\<close>

lemma root_of_state [simp]: "root_of ev (d\<lparr>cdt_State := s\<rparr>) = root_of ev d"
  by (simp add: root_of_def)

lemma link_ok_state [simp]: "link_ok ev ev' (d\<lparr>cdt_State := s\<rparr>) = link_ok ev ev' d"
  by (simp add: link_ok_def chan_of_state Qchan_Coin_def Qchan_Peer_def)

lemma static_mirror_state [simp]:
  "static_mirror (chan_of ev (d\<lparr>cdt_State := s\<rparr>) True) (chan_of ev' (d'\<lparr>cdt_State := s'\<rparr>) True) =
   static_mirror (chan_of ev d True) (chan_of ev' d' True)"
  by (simp add: static_mirror_def chan_of_state)

lemma index_bounds:
  assumes "(n :: u64) < 2 ^ 47"
  shows "n \<le> maxIndex" "n + 1 \<le> maxIndex" "n + 3 \<le> maxIndex" "n + 1 \<noteq> 0"
proof -
  have u: "unat n < 2 ^ 47" using assms by (simp add: word_less_nat_alt)
  have "unat (n + of_nat k) = unat n + k" if "k < 4" for k
    using u that by (subst unat_add_lem [THEN iffD1]) (simp_all add: unat_of_nat)
  from this [of 1] this [of 3] u show "n \<le> maxIndex" "n + 1 \<le> maxIndex" "n + 3 \<le> maxIndex" "n + 1 \<noteq> 0"
    by (auto simp: word_le_nat_alt maxIndex_def)
qed

text \<open>All four steps of a push, with what both sides hold in memory and in the database afterwards.\<close>

lemma honest_push:
  assumes sy: "in_sync ev d ev' d'" and st: "stored nd (q_Op q) d" "stored nd' (q_Op q') d'"
    and q: "q_ClearToSend q" "\<not> st_Failed (q_State q)" "q_ClearToSend q'"
    and amt: "1 \<le> amt" "amt < 2 ^ 30" and n: "st_StateIdx (cdt_State d) < 2 ^ 47"
    and bal: "MinOutput + st_Fee (cdt_State d) + uint amt \<le> st_MyAmt (cdt_State d)"
      "MinOutput + st_Fee (cdt_State d) \<le> st_MyAmt (cdt_State d') + uint amt"
  shows "\<exists>m1 m2 m3 nd1 q1 nd1' q1' nd2 q2 nd2' q2' e e'.
    PushChannel ev nd q amt data = (nd1, q1, [MsgDeltaSig m1], None) \<and>
    DeltaSigHandler ev' nd' m1 q' = (nd1', q1', [MsgSigRev m2], None) \<and>
    SigRevHandler ev nd1 m2 q1 = (nd2, q2, [MsgRev m3], None) \<and>
    RevHandler ev' nd1' m3 q1' = (nd2', q2', [], None) \<and>
    PushChannel_wait ev nd2 q2 False = (nd2, q2, [], None) \<and> q_ClearToSend q2 \<and> q_ClearToSend q2' \<and>
    q_Op q2 = q_Op q \<and> q_Op q2' = q_Op q' \<and> \<not> st_Failed (q_State q2) \<and> \<not> st_Failed (q_State q2') \<and>
    stored nd2 (q_Op q) e \<and> stored nd2' (q_Op q') e' \<and> in_sync ev e ev' e' \<and>
    st_StateIdx (cdt_State e) = st_StateIdx (cdt_State d) + 1 \<and>
    st_MyAmt (cdt_State e) = st_MyAmt (cdt_State d) - uint amt \<and>
    st_MyAmt (cdt_State e') = st_MyAmt (cdt_State d') + uint amt \<and>
    st_Fee (cdt_State e) = st_Fee (cdt_State d) \<and> st_Data (cdt_State e) = data \<and> st_Data (cdt_State e') = data"
proof -
  let ?s = "cdt_State d" and ?s' = "cdt_State d'" and ?n = "st_StateIdx (cdt_State d)" and ?cr = "ev_crypto ev"
  note ib = index_bounds [OF n]
  have y: "ev_crypto ev' = ?cr" "static_mirror (chan_of ev d True) (chan_of ev' d' True)" "link_ok ev ev' d" "link_ok ev' ev d'"
    "st_StateIdx ?s' = ?n" "st_Fee ?s' = st_Fee ?s" "0 \<le> st_Fee ?s" "px_Value (cdt_Txo d) < 2 ^ 62"
    "st_MyAmt ?s + st_MyAmt ?s' = px_Value (cdt_Txo d)" "px_Value (cdt_Txo d') = px_Value (cdt_Txo d)"
    "points_at ?cr (root_of ev' d') ?s" "points_at ?cr (root_of ev d) ?s'" "quiet ?s" "quiet ?s'"
    using sy by (simp_all add: in_sync_def static_mirror_def)
  note pa = y(11,12) [unfolded points_at_def y(5)]
  have nz: "st_MyAmt ?s' + uint amt \<noteq> 0" "uint amt + st_MyAmt ?s' \<noteq> 0"
    using bal(2) y(7) by (auto simp: MinOutput_def)
  have h: "st_HTLCs ?s = []" "st_InProgHTLC ?s = None" "st_CollidingHTLC ?s = None"
    "st_HTLCs ?s' = []" "st_InProgHTLC ?s' = None" "st_CollidingHTLC ?s' = None"
    using y(13,14) by (simp_all add: quiet_def)
  define q1 where "q1 = (chan_of ev d False)\<lparr>q_LastUpdate := ev_now ev, q_State := push_signed ?s amt data\<rparr>"
  define v1 where "v1 = (chan_of ev' d' False)\<lparr>q_LastUpdate := ev_now ev', q_State :=
      (received ?s' amt data)\<lparr>st_ElkPoint := st_NextElkPoint ?s'\<rparr>\<rparr>"
  obtain sig where sig: "SignState ev q1 = Inr (sig, [])"
    "VerifySigs ev' v1 sig [] = Inr (v1\<lparr>q_State := (q_State v1)\<lparr>st_Sig := sig\<rparr>\<rparr>)"
  proof -
    have "\<exists>sig. SignState ev q1 = Inr (sig, []) \<and>
        VerifySigs ev' v1 sig [] = Inr (v1\<lparr>q_State := (q_State v1)\<lparr>st_Sig := sig\<rparr>\<rparr>)"
      by (rule exchange [OF _ _ y(1,2) y(3,4) [THEN link_ok_keys]])
        (use y(5-10) bal nz ib h pa in \<open>simp_all add: q1_def v1_def likeI push_signed_def pushed_def received_def\<close>)
    then show thesis using that by blast
  qed
  define q2 where "q2 = (chan_of ev' d' False)\<lparr>q_LastUpdate := ev_now ev', q_State :=
      (received ?s' amt data)\<lparr>st_Sig := sig, st_InProgHTLC := None, st_ElkPoint := st_NextElkPoint ?s'\<rparr>\<rparr>"
  define v2 where "v2 = (chan_of ev d False)\<lparr>q_State := (sent ?s amt data)\<lparr>st_ElkPoint := st_NextElkPoint ?s\<rparr>\<rparr>"
  obtain sig2 where sig2: "SignState ev' q2 = Inr (sig2, [])"
    "VerifySigs ev v2 sig2 [] = Inr (v2\<lparr>q_State := (q_State v2)\<lparr>st_Sig := sig2\<rparr>\<rparr>)"
  proof -
    have "\<exists>sig. SignState ev' q2 = Inr (sig, []) \<and>
        VerifySigs ev v2 sig [] = Inr (v2\<lparr>q_State := (q_State v2)\<lparr>st_Sig := sig\<rparr>\<rparr>)"
      by (rule exchange [OF _ _ y(1) [symmetric] static_mirror_sym [OF y(2)] y(4,3) [THEN link_ok_keys]])
        (use y(1,5-10) bal nz ib h pa in \<open>simp_all add: q2_def v2_def likeI sent_def received_def\<close>)
    then show thesis using that by blast
  qed
  obtain elkB where elkB: "sender_AtIndex (ev_dh ev') (NewElkremSender (root_of ev' d')) ?n = Inr elkB"
    "ElkPointFromHash ?cr elkB = st_ElkPoint ?s"
    using sender_pt [OF ib(1), of ?cr "root_of ev' d'"] pa y(1) by metis
  obtain elkA where elkA: "sender_AtIndex (ev_dh ev) (NewElkremSender (root_of ev d)) ?n = Inr elkA"
    "ElkPointFromHash ?cr elkA = st_ElkPoint ?s'"
    using sender_pt [OF ib(1), of ?cr "root_of ev d"] pa by metis
  have bal': "MinOutput + st_Fee ?s \<le> st_MyAmt ?s + uint amt"
    using bal(1) uint_ge_0 [of amt] by linarith
  note s1 = push_start [OF sy st(1) q(1,2) amt bal' bal(2) q1_def sig(1)]
  have idx: "st_StateIdx ?s' + 3 \<le> maxIndex" using ib(3) y(5) by simp
  note s2 = delta_step [OF sy st(2) q(3) amt bal v1_def sig(2) q2_def sig2(1) idx elkB(1) [folded y(5)]]
  have op: "q_Op q1 = q_Op q" "q_Op q2 = q_Op q'"
    using st by (simp_all add: q1_def q2_def stored_def)
  have le: "uint amt \<le> st_MyAmt ?s" using bal(1) y(7) by (simp add: MinOutput_def)
  let ?sB = "(received ?s' amt data)\<lparr>st_Sig := sig, st_InProgHTLC := None\<rparr>"
  let ?n2 = "pt ?cr (root_of ev' d') (?n + 3)" and ?n3 = "pt ?cr (root_of ev d) (?n + 3)"
  let ?e = "d\<lparr>cdt_State := (advanced ?n2 ((sent ?s amt data)\<lparr>st_Sig := sig2\<rparr>))\<lparr>st_HTLCs := []\<rparr>\<rparr>"
  let ?e' = "d'\<lparr>cdt_State := rev_done (st_MyN2HTLCBase ?s) (advanced ?n3 ?sB)\<rparr>"
  have "stored (store_state nd (q_Op q) d (pushed ?s amt data)) (q_Op q1) (d\<lparr>cdt_State := pushed ?s amt data\<rparr>)"
    unfolding op using st(1) by (rule stored_store)
  note sigrev_step [OF sy this _ amt le v2_def sig2(2) ib(3,4) elkB(2) elkA(1)]
  then obtain nd2 r2 where s3: "SigRevHandler ev (store_state nd (q_Op q) d (pushed ?s amt data))
      (NewSigRev (Qchan_Peer (chan_of ev' d' True)) (q_Op q') sig2 elkB ?n2 [] (st_MyN2HTLCBase ?s')) q1 = (nd2, r2,
      [MsgRev (NewRevMsg (Qchan_Peer (chan_of ev d True)) (q_Op q) elkA ?n3 (st_MyN2HTLCBase ?s))], None)"
      "q_ClearToSend r2" "stored nd2 (q_Op q) ?e" "q_Op r2 = q_Op q" "\<not> st_Failed (q_State r2)"
    unfolding op by (fastforce simp: q1_def)
  have "stored (store_state nd' (q_Op q') d' ?sB) (q_Op q2) (d'\<lparr>cdt_State := ?sB\<rparr>)"
    unfolding op using st(2) by (rule stored_store)
  note rev_step [OF y(4) this, of elkA "Qchan_Peer (chan_of ev d True)" "q_Op q" ?n3 "st_MyN2HTLCBase ?s"]
  moreover have "0 < uint amt" using amt(1) by (simp add: word_le_def)
  ultimately obtain nd2' r2' where s4: "RevHandler ev' (store_state nd' (q_Op q') d' ?sB)
      (NewRevMsg (Qchan_Peer (chan_of ev d True)) (q_Op q) elkA ?n3 (st_MyN2HTLCBase ?s)) q2 = (nd2', r2', [], None)"
      "q_ClearToSend r2'" "stored nd2' (q_Op q') ?e'" "q_Op r2' = q_Op q'" "\<not> st_Failed (q_State r2')"
    unfolding op using h y(1,5) y(14) ib(4) elkA(2) by (fastforce simp: q2_def received_def quiet_def)
  have "0 \<le> st_MyAmt ?s - uint amt" using le by simp
  moreover have "0 \<le> st_MyAmt ?s' + uint amt" using sy by (simp add: in_sync_def)
  ultimately have sync: "in_sync ev ?e ev' ?e'"
    using sy pa h y(5)
    by (simp add: in_sync_def quiet_def points_at_def sent_def advanced_def received_def add.assoc)
  have w: "PushChannel_wait ev nd2 r2 False = (nd2, r2, [], None)"
    using s3(2) by (simp add: PushChannel_wait_def)
  show ?thesis
    by (intro exI conjI, rule s1, rule s2 [unfolded y(1,5)], rule s3(1), rule s4(1), rule w, rule s3(2), rule s4(2), rule s3(4),
        rule s4(4), rule s3(5), rule s4(5), rule s3(3), rule s4(3), rule sync) (simp_all add: sent_def advanced_def received_def y(5))
qed

text \<open>Between two honest nodes in step, a push within the balances runs through its four steps without
  an error: the pusher sends a DeltaSig, the receiver answers with a SigRev, the pusher with a Rev, and
  both get the right to send back. Both databases then hold channels in step again, one state further,
  with the amount moved and the data delivered.\<close>

theorem push_completes:
  assumes "in_sync ev d ev' d'" "stored nd (q_Op q) d" "stored nd' (q_Op q') d'"
    and "q_ClearToSend q" "\<not> st_Failed (q_State q)" "q_ClearToSend q'"
    and "1 \<le> amt" "amt < 2 ^ 30" "st_StateIdx (cdt_State d) < 2 ^ 47"
    and "MinOutput + st_Fee (cdt_State d) + uint amt \<le> st_MyAmt (cdt_State d)"
    and "MinOutput + st_Fee (cdt_State d) \<le> st_MyAmt (cdt_State d') + uint amt"
  shows "\<exists>m1 m2 m3 nd1 q1 nd1' q1' nd2 q2 nd2' q2' e e'.
    PushChannel ev nd q amt data = (nd1, q1, [MsgDeltaSig m1], None) \<and>
    DeltaSigHandler ev' nd' m1 q' = (nd1', q1', [MsgSigRev m2], None) \<and>
    SigRevHandler ev nd1 m2 q1 = (nd2, q2, [MsgRev m3], None) \<and>
    RevHandler ev' nd1' m3 q1' = (nd2', q2', [], None) \<and>
    PushChannel_wait ev nd2 q2 False = (nd2, q2, [], None) \<and> q_ClearToSend q2' \<and>
    stored nd2 (q_Op q) e \<and> stored nd2' (q_Op q') e' \<and> in_sync ev e ev' e' \<and>
    st_StateIdx (cdt_State e) = st_StateIdx (cdt_State d) + 1 \<and>
    st_MyAmt (cdt_State e) = st_MyAmt (cdt_State d) - uint amt \<and>
    st_MyAmt (cdt_State e') = st_MyAmt (cdt_State d') + uint amt \<and>
    st_Data (cdt_State e) = data \<and> st_Data (cdt_State e') = data"
  using honest_push [OF assms, of data]
  by (elim exE conjE) (intro exI conjI; assumption)

definition toy_data :: "byte \<Rightarrow> byte \<Rightarrow> int \<Rightarrow> chan_data" where
  "toy_data me them amt = NewChanDataFromQchan (toy_chan me them 3 amt 1000 [])"

definition toy_db :: "byte \<Rightarrow> byte \<Rightarrow> int \<Rightarrow> lit_node" where
  "toy_db me them amt = toy_node\<lparr>nd_Channels := (\<lambda>k. Some (toy_data me them amt))\<rparr>"

lemma toy_sync:
  assumes "0 \<le> a" "a \<le> 1000000"
  shows "in_sync (toy_env 1) (toy_data 1 2 a) (toy_env 2) (toy_data 2 1 (1000000 - a))"
    "stored (toy_db 1 2 a) (q_Op (toy_chan 1 2 3 a 1000 [])) (toy_data 1 2 a)"
    "stored (toy_db 2 1 (1000000 - a)) (q_Op (toy_chan 2 1 3 (1000000 - a) 1000 [])) (toy_data 2 1 (1000000 - a))"
proof -
  have c: "ev_crypto (toy_env me) = toy_crypto" for me by (simp add: toy_env_def)
  have r: "root_of (toy_env me) (toy_data me' t b) = replicate 32 me" for me me' t b
    by (simp add: root_of_def GetElkremRoot_def GetUsePub_def toy_env_def toy_crypto_def)
  have p: "toy_point r i = pt toy_crypto (replicate 32 r) i" for r i
    by (simp add: toy_point_def pt_def)
  have m: "static_mirror (chan_of (toy_env 1) (toy_data 1 2 a) True) (chan_of (toy_env 2) (toy_data 2 1 (1000000 - a)) True)"
    by (simp add: static_mirror_def chan_of_def NewQchanFromChanData_def toy_data_def NewChanDataFromQchan_def
        toy_chan_def GetUsePub_ign_def GetUsePub_def toy_env_def)
  have l: "link_ok (toy_env x) (toy_env y) (toy_data x y b)" for x y b
    by (simp add: link_ok_def signs_for_def toy_env_def chan_of_def NewQchanFromChanData_def GetUsePub_ign_def
        GetUsePub_def toy_data_def NewChanDataFromQchan_def toy_chan_def)
  have s: "cdt_State (toy_data x y b) = q_State (toy_chan x y 3 b 1000 [])" "cdt_Txo (toy_data x y b) = q_Txo (toy_chan x y 3 b 1000 [])" for x y b
    by (simp_all add: toy_data_def NewChanDataFromQchan_def)
  show "in_sync (toy_env 1) (toy_data 1 2 a) (toy_env 2) (toy_data 2 1 (1000000 - a))"
    unfolding in_sync_def c points_at_def r s using m l assms by (simp add: toy_chan_def quiet_def p)
  show "stored (toy_db 1 2 a) (q_Op (toy_chan 1 2 3 a 1000 [])) (toy_data 1 2 a)"
    "stored (toy_db 2 1 (1000000 - a)) (q_Op (toy_chan 2 1 3 (1000000 - a) 1000 [])) (toy_data 2 1 (1000000 - a))"
    by (simp_all add: stored_def toy_db_def s)
qed

theorem push_completes_witness:
  "\<exists>m1 nd1 q1. PushChannel (toy_env 1) (toy_db 1 2 600000) (toy_chan 1 2 3 600000 1000 []) 50000 (replicate 32 5) =
     (nd1, q1, [MsgDeltaSig m1], None)"
proof -
  have f: "q_ClearToSend (toy_chan x y 3 b 1000 [])" "\<not> st_Failed (q_State (toy_chan x y 3 b 1000 []))"
    "st_MyAmt (cdt_State (toy_data x y b)) = b" "st_Fee (cdt_State (toy_data x y b)) = 1000"
    "st_StateIdx (cdt_State (toy_data x y b)) = 3" for x y b
    by (simp_all add: toy_data_def NewChanDataFromQchan_def toy_chan_def)
  have a: "(0 :: int) \<le> 600000" "(600000 :: int) \<le> 1000000" by simp_all
  note push_completes [OF toy_sync [OF a] f(1,2,1), of 50000 "replicate 32 5"]
  then show ?thesis
    by (simp add: f MinOutput_def) blast
qed

end
