(* ===== verification/ChannelSafety.thy ===== *)
theory ChannelSafety
  imports PushRun
begin

text \<open>
  What the update handlers guarantee and what they miss, for any channel and any message: no justice
  signature is stored past the first state, two HTLCs cleared at once stop the handler, a push larger than
  the balance is sent and makes the receiver fail the channel.
\<close>

section \<open>Justice signatures\<close>

lemma FailChannel_justice: "FailChannel ev nd q = (nd', q') \<Longrightarrow> nd_Justice nd' = nd_Justice nd"
  by (auto simp: FailChannel_def SaveQchanState_def SaveQChan_def Let_def split: sum.splits)

lemma fail_with_justice: "fail_with ev nd q msgs e = (nd', r) \<Longrightarrow> nd_Justice nd' = nd_Justice nd"
  by (auto simp: fail_with_def Let_def dest: FailChannel_justice split: if_splits prod.splits)

lemma save_justice [simp]: "nd_Justice (SaveQchanState ev nd q) = nd_Justice nd"
  by (auto simp: SaveQchanState_def SaveQChan_def split: sum.splits)

lemma clear_to_send_justice: "clear_to_send nd q msgs e = (nd', r) \<Longrightarrow> nd_Justice nd' = nd_Justice nd"
  by (auto simp: clear_to_send_def split: if_splits)

lemma clear_htlcs_frame:
  "clear_htlcs is l nd s = (nd', s', e) \<Longrightarrow> nd_Justice nd' = nd_Justice nd \<and> st_StateIdx s' = st_StateIdx s"
  by (induction "is" arbitrary: l nd s) (auto simp: Let_def split: if_splits prod.splits)

lemma AdvanceElkrem_fields:
  assumes "AdvanceElkrem cr q h n2 = (None, q')" "q_ElkRcv q = NewElkremReceiver"
  shows "AddNext (cr_DoubleHash cr) NewElkremReceiver (Some h) = Inr (q_ElkRcv q')"
    "st_StateIdx (q_State q') = st_StateIdx (q_State q)"
  using assms by (auto simp: AdvanceElkrem_def IngestElkrem_def Let_def split: sum.splits if_splits)

lemma advance_no_justice:
  assumes "AdvanceElkrem (ev_crypto ev) q h n2 = (None, q')" "q_ElkRcv q = NewElkremReceiver"
    and "BuildJusticeSig ev nd qj = (nd', r)" "q_ElkRcv qj = q_ElkRcv q'" "st_StateIdx (q_State qj) \<noteq> 0"
  shows "nd_Justice nd' = nd_Justice nd"
proof -
  have "AddNext (ev_dh ev) NewElkremReceiver (Some h) = Inr (q_ElkRcv qj)"
    using AdvanceElkrem_fields(1) [OF assms(1,2)] assms(4) by simp
  from no_justice [OF this assms(5), of nd] assms(3) show ?thesis by auto
qed

text \<open>Past its first update a channel never gets a justice signature: whatever revocation the handler of
  the final message takes in, nothing is stored for the watchtower.\<close>

theorem rev_stores_no_justice:
  assumes "stored nd (q_Op q) d" and "2 \<le> st_StateIdx (cdt_State d)"
    and "RevHandler ev nd msg q = (nd', q', msgs, err)"
  shows "nd_Justice nd' = nd_Justice nd"
proof -
  let ?q = "chan_of ev d (q_ClearToSend q)"
  have rl: "ReloadQchanState ev nd q = Inr ?q" by (rule reload_stored [OF assms(1)])
  have n: "st_StateIdx (cdt_State d) - 1 \<noteq> 0"
    using assms(2) by (auto simp: word_le_nat_alt)
  show ?thesis
  proof (cases "AdvanceElkrem (ev_crypto ev) ?q (rv_Elk msg) (rv_N2ElkPoint msg)")
    case (Pair e q1)
    show ?thesis
    proof (cases e)
      case None
      note adv = Pair [unfolded None]
      show ?thesis
        using assms(3) AdvanceElkrem_fields(2) [OF adv] n
        by (auto simp: RevHandler_def rl Let_def adv append_inprog_def append_colliding_def
            dest!: clear_to_send_justice clear_htlcs_frame advance_no_justice [OF adv chan_of_simps(5)] split: if_splits prod.splits option.splits)
    next
      case (Some x)
      then show ?thesis
        using assms(3) by (auto simp: RevHandler_def rl Let_def Pair dest: fail_with_justice split: if_splits)
    qed
  qed
qed

section \<open>Two HTLCs cleared in one update\<close>

abbreviation open_htlc :: "stat_com \<Rightarrow> nat \<Rightarrow> bool" where
  "open_htlc s i \<equiv> ht_Clearing (st_HTLCs s ! i) \<and> \<not> ht_Cleared (st_HTLCs s ! i)"

lemma clear_htlcs_locked:
  "i \<in> set is \<Longrightarrow> open_htlc s i \<Longrightarrow> \<exists>nd' s'. clear_htlcs is True nd s = (nd', s', Some Blocked)"
  by (induction "is" arbitrary: nd s) (auto simp: Let_def)

lemma clear_htlcs_channels: "clear_htlcs is l nd s = (nd', s', e) \<Longrightarrow> nd_Channels nd' = nd_Channels nd"
  by (induction "is" arbitrary: l nd s) (auto simp: Let_def split: if_splits prod.splits)

lemma clear_htlcs_two:
  assumes "distinct is" "i \<in> set is" "j \<in> set is" "i \<noteq> j" "open_htlc s i" "open_htlc s j"
  shows "\<exists>nd' s'. clear_htlcs is False nd s = (nd', s', Some Blocked)"
  using assms
proof (induction "is" arbitrary: nd s)
  case (Cons k ks)
  show ?case
  proof (cases "open_htlc s k")
    case False
    with Cons show ?thesis by auto
  next
    case True
    obtain mus db where mp: "mark_payment (st_HTLCs s ! k) (nd_InProgMultihop nd) (nd_Payments nd) = (mus, db)"
      by fastforce
    obtain m where "m \<in> set ks" "m \<noteq> k" "open_htlc s m"
      using Cons.prems by (cases "k = i") auto
    then show ?thesis
      using clear_htlcs_locked [of m ks] True by (simp add: mp Let_def)
  qed
qed simp

text \<open>When two HTLCs are being cleared, as after a collision of two preimages, the handler of the
  revocation waits for the mutex it holds itself: it does not return, and what it verified is not saved.\<close>

theorem rev_two_clearing_blocks:
  assumes "stored nd (q_Op q) d" and "i < j" "j < length (st_HTLCs (cdt_State d))"
    and "open_htlc (cdt_State d) i" "open_htlc (cdt_State d) j" and "0 \<le> st_Delta (cdt_State d)"
    and "st_StateIdx (cdt_State d) \<noteq> 0" "ElkPointFromHash (ev_crypto ev) (rv_Elk msg) = st_ElkPoint (cdt_State d)"
  shows "\<exists>nd' q'. RevHandler ev nd msg q = (nd', q', [], Some Blocked) \<and> nd_Channels nd' = nd_Channels nd"
proof -
  let ?q = "chan_of ev d (q_ClearToSend q)"
  have rl: "ReloadQchanState ev nd q = Inr ?q" by (rule reload_stored [OF assms(1)])
  obtain rcv where adv: "AdvanceElkrem (ev_crypto ev) ?q (rv_Elk msg) (rv_N2ElkPoint msg) = (None,
      ?q\<lparr>q_ElkRcv := rcv, q_State := advanced (rv_N2ElkPoint msg) (cdt_State d)\<rparr>)"
    using ingest_restored [of ?q "ev_crypto ev" "rv_Elk msg" "rv_N2ElkPoint msg"] assms(7,8)
    by (auto simp: advanced_def)
  let ?s = "append_colliding (append_inprog (rev_done (rv_N2HTLCBase msg) (advanced (rv_N2ElkPoint msg) (cdt_State d))))"
  have len: "length (st_HTLCs (cdt_State d)) \<le> length (st_HTLCs ?s)"
    and same: "\<And>k. k < length (st_HTLCs (cdt_State d)) \<Longrightarrow> st_HTLCs ?s ! k = st_HTLCs (cdt_State d) ! k"
    by (auto simp: append_colliding_def append_inprog_def advanced_def nth_append split: option.splits)
  have o: "open_htlc ?s i" "open_htlc ?s j" using same assms by auto
  have m: "i \<in> set [0..<length (st_HTLCs ?s)]" "j \<in> set [0..<length (st_HTLCs ?s)]" "i \<noteq> j"
    using len assms(2,3) by auto
  obtain nd' s' where c: "clear_htlcs [0..<length (st_HTLCs ?s)] False nd ?s = (nd', s', Some Blocked)"
    using clear_htlcs_two [OF distinct_upt m o] by blast
  have ex: "\<exists>h \<in> set (st_HTLCs (cdt_State d)). ht_Clearing h"
    using assms(2-4) by (intro bexI [of _ "st_HTLCs (cdt_State d) ! i"]) auto
  show ?thesis
    using c clear_htlcs_channels [OF c] ex assms(6)
    by (cases "rv_N2HTLCBase msg = st_N2HTLCBase (cdt_State d)")
      (simp_all add: RevHandler_def rl adv Let_def rev_done_def advanced_def)
qed

section \<open>Pushing more than one has\<close>

lemma fail_stored:
  assumes "stored nd (q_Op q) d" "e \<noteq> Panic"
  shows "\<exists>nd' q'. fail_with ev nd q msgs e = (nd', q', msgs, Some e) \<and>
    stored nd' (q_Op q) (d\<lparr>cdt_State := (cdt_State d)\<lparr>st_Failed := True\<rparr>\<rparr>)"
proof -
  let ?q = "(chan_of ev d (q_ClearToSend q))\<lparr>q_State := (cdt_State d)\<lparr>st_Failed := True\<rparr>\<rparr>"
  have op: "q_Op ?q = q_Op q" using assms(1) by (simp add: stored_def)
  have "FailChannel ev nd q = (store_state nd (q_Op q) d ((cdt_State d)\<lparr>st_Failed := True\<rparr>), ?q)"
    using save_stored [of nd ?q d ev] assms(1) op
    by (simp add: FailChannel_def reload_stored [OF assms(1)] Let_def)
  then show ?thesis
    using assms(2) stored_store [OF assms(1)] by (simp add: fail_with_def)
qed

lemma overdraft_refused:
  assumes sy: "in_sync ev d ev' d'" and st: "stored nd (q_Op q) d'" and q: "q_ClearToSend q"
    and amt: "1 \<le> amt" "amt < 2 ^ 30" and over: "st_MyAmt (cdt_State d) < uint amt"
  shows "DeltaSigHandler ev' nd (NewDeltaSigMsg p op' amt sig [] data) q =
    fail_with ev' nd ((chan_of ev' d' False)\<lparr>q_State := (cdt_State d')\<lparr>st_Delta := uint amt\<rparr>\<rparr>) [] OutOfRange"
proof -
  let ?s = "cdt_State d'"
  note w = amount_words [OF amt(2)]
  have cl: "\<not> cl_Closed (cdt_CloseData d')"
    using sy by (auto simp: in_sync_def link_ok_def)
  have qs: "st_Delta ?s = 0" "st_HTLCs ?s = []" "st_InProgHTLC ?s = None"
    using sy by (simp_all add: in_sync_def quiet_def)
  have v: "st_MyAmt (cdt_State d) + st_MyAmt ?s = px_Value (cdt_Txo d')" "px_Value (cdt_Txo d') < 2 ^ 62"
    "st_Fee ?s = st_Fee (cdt_State d)" "0 \<le> st_Fee ?s" "st_Fee ?s < 2 ^ 32" "0 \<le> st_MyAmt ?s" "0 \<le> st_MyAmt (cdt_State d)"
    using sy by (auto simp: in_sync_def static_mirror_def)
  have b: "GetChannelBalances ((chan_of ev' d' False)\<lparr>q_State := ?s\<lparr>st_Delta := x\<rparr>\<rparr>) =
      (st_MyAmt ?s, st_MyAmt (cdt_State d))" for x
    using v by (simp add: GetChannelBalances_def Let_def qs i64_id)
  have "i64 (st_MyAmt (cdt_State d) - i64 (a + st_Fee (cdt_State d))) = st_MyAmt (cdt_State d) - (a + st_Fee (cdt_State d))"
    if "0 \<le> a" "a < 2 ^ 30" for a
    using v that by (simp add: i64_id)
  note i = this [OF w(5,4)]
  have c: "st_MyAmt (cdt_State d) - (uint amt + st_Fee (cdt_State d)) < MinOutput" "\<not> uint amt < 1"
    using over v(3,4) amt(1) by (simp_all add: MinOutput_def word_le_def)
  show ?thesis
    using q cl reload_stored [OF stored_tok [OF st]]
    by (simp add: DeltaSigHandler_def Let_def b i w qs c v(3) NewDeltaSigMsg_def del: not_less)
qed

text \<open>A push larger than the pusher's balance is not stopped where the comment says it is: the pusher
  signs a state with a negative balance and sends it, and the receiver marks the channel failed.\<close>

theorem overdraft_fails_channel:
  assumes sy: "in_sync ev d ev' d'" and st: "stored nd (q_Op q) d" "stored nd' (q_Op q') d'"
    and q: "q_ClearToSend q" "\<not> st_Failed (q_State q)" "q_ClearToSend q'"
    and amt: "1 \<le> amt" "amt < 2 ^ 30" and n: "st_StateIdx (cdt_State d) < 2 ^ 47"
    and over: "st_MyAmt (cdt_State d) < uint amt"
    and bal: "MinOutput + st_Fee (cdt_State d) \<le> st_MyAmt (cdt_State d) + uint amt"
      "MinOutput + st_Fee (cdt_State d) \<le> st_MyAmt (cdt_State d') + uint amt"
  shows "\<exists>m1 nd1 q1 nd1' q1' e.
    PushChannel ev nd q amt data = (nd1, q1, [MsgDeltaSig m1], None) \<and>
    DeltaSigHandler ev' nd' m1 q' = (nd1', q1', [], Some OutOfRange) \<and>
    stored nd1' (q_Op q') e \<and> st_Failed (cdt_State e)"
proof -
  let ?s = "cdt_State d" and ?s' = "cdt_State d'"
  note w = amount_words [OF amt(2)]
  have y: "st_HTLCs ?s = []" "st_InProgHTLC ?s = None" "st_CollidingHTLC ?s = None" "0 \<le> st_Fee ?s" "st_Fee ?s < 2 ^ 32"
    "px_Value (cdt_Txo d) < 2 ^ 62" "st_MyAmt ?s + st_MyAmt ?s' = px_Value (cdt_Txo d)" "0 \<le> st_MyAmt ?s" "0 \<le> st_MyAmt ?s'"
    using sy by (simp_all add: in_sync_def quiet_def)
  define q1 where "q1 = (chan_of ev d False)\<lparr>q_LastUpdate := ev_now ev, q_State := push_signed ?s amt data\<rparr>"
  have like: "like ev d q1" by (simp add: q1_def likeI)
  have l: "live_htlcs (q_State q1) = []" using y by (simp add: q1_def push_signed_def pushed_def live_htlcs_def)
  have "output_amts q1 False = (st_MyAmt ?s' + a - st_Fee ?s, 0)" if "a = uint amt" "0 \<le> a" "a < 2 ^ 30" for a
    using y over bal that
    by (simp add: output_amts_def Let_def state_value_def q1_def push_signed_def pushed_def i64_id MinOutput_def)
  note a = this [OF refl w(5,4)]
  obtain rp tp pk where k: "GetKeysFromState (ev_crypto ev) q1 False = Inr (rp, tp, pk)"
    by (simp add: GetKeysFromState_def)
  have "st_MyAmt ?s' + uint amt - st_Fee ?s \<noteq> 0" "MinOutput \<le> st_MyAmt ?s' + uint amt - st_Fee ?s"
    using bal(2) by (auto simp: MinOutput_def)
  then obtain tx where tx: "BuildStateTxs (ev_crypto ev) q1 False = Inr (tx, [], [])"
    using BuildStateTxs_plain [OF l k a] by simp
  have ok: "link_ok ev ev' d" "link_ok ev' ev d'" "static_mirror (chan_of ev d True) (chan_of ev' d' True)"
    using sy by (simp_all add: in_sync_def)
  have len: "length (q_MyPub q1) = 33" "length (q_TheirPub q1) = 33"
    using ok like_simps(4,5) [OF like] by (simp_all add: link_ok_def static_mirror_def)
  obtain pre w1 where p: "FundTxScript (q_MyPub q1) (q_TheirPub q1) = Inr (pre, w1)"
    using FundTxScript_ok [OF len] by blast
  obtain priv sig where s: "ev_GetPriv ev (q_KeyGen q1) = Inr priv" "ev_sign ev priv pre tx (q_Value q1) = Inr sig"
    using ok(1) like_simps(1) [OF like] p len unfolding link_ok_def signs_for_def by metis
  obtain elk where e: "sender_AtIndex (ev_dh ev) (NewElkremSender (root_of ev d)) (st_StateIdx ?s + 1) = Inr elk"
    using index_bounds(2) [OF n] by (rule sender_pt)
  have "ev_wallet ev (Qchan_Coin q1) \<noteq> None"
    using ok(1) like_simps(6) [OF like] by (auto simp: link_ok_def)
  then have sig: "SignState ev q1 = Inr (sig, [])"
    using e s p by (simp add: SignState_def tx like_simps(2) [OF like] map_arr_def)
      (simp add: q1_def push_signed_def)
  note s1 = push_start [OF sy st(1) q(1,2) amt bal q1_def sig]
  let ?m = "NewDeltaSigMsg (Qchan_Peer (chan_of ev d True)) (q_Op q) amt sig [] data"
  have "\<exists>nd1' q1' e. DeltaSigHandler ev' nd' ?m q' = (nd1', q1', [], Some OutOfRange) \<and>
    stored nd1' (q_Op q') e \<and> st_Failed (cdt_State e)"
  proof -
    let ?v = "(chan_of ev' d' False)\<lparr>q_State := ?s'\<lparr>st_Delta := uint amt\<rparr>\<rparr>"
    have op: "q_Op ?v = q_Op q'" using st(2) by (simp add: stored_def)
    obtain nd1' q1' where f: "fail_with ev' nd' ?v [] OutOfRange = (nd1', q1', [], Some OutOfRange)"
      and e: "stored nd1' (q_Op q') (d'\<lparr>cdt_State := ?s'\<lparr>st_Failed := True\<rparr>\<rparr>)"
      using fail_stored [of nd' ?v d' OutOfRange ev' "[]", unfolded op, OF st(2)] by auto
    show ?thesis
      unfolding overdraft_refused [OF sy st(2) q(3) amt over]
      by (intro exI conjI, rule f, rule e) simp
  qed
  with s1 show ?thesis by blast
qed

theorem overdraft_fails_channel_witness:
  "\<exists>m1 nd1 q1 nd1' q1' e.
    PushChannel (toy_env 1) (toy_db 1 2 200000) (toy_chan 1 2 3 200000 1000 []) 300000 [] = (nd1, q1, [MsgDeltaSig m1], None) \<and>
    DeltaSigHandler (toy_env 2) (toy_db 2 1 800000) m1 (toy_chan 2 1 3 800000 1000 []) = (nd1', q1', [], Some OutOfRange) \<and>
    stored nd1' (q_Op (toy_chan 2 1 3 800000 1000 [])) e \<and> st_Failed (cdt_State e)"
proof -
  have f: "q_ClearToSend (toy_chan x y 3 b 1000 [])" "\<not> st_Failed (q_State (toy_chan x y 3 b 1000 []))"
    "st_MyAmt (cdt_State (toy_data x y b)) = b" "st_Fee (cdt_State (toy_data x y b)) = 1000"
    "st_StateIdx (cdt_State (toy_data x y b)) = 3" for x y b
    by (simp_all add: toy_data_def NewChanDataFromQchan_def toy_chan_def)
  have a: "(0 :: int) \<le> 200000" "(200000 :: int) \<le> 1000000" by simp_all
  note sync = toy_sync [OF a, simplified]
  have "st_MyAmt (cdt_State (toy_data 1 2 200000)) < uint (300000 :: u32)" by (simp add: f)
  note overdraft_fails_channel [OF sync f(1,2,1) _ _ _ this]
  then show ?thesis by (simp add: f MinOutput_def)
qed

text \<open>The first two properties on a channel with an update under way.\<close>

definition toy_pending :: "htlc list \<Rightarrow> chan_data" where
  "toy_pending hs = NewChanDataFromQchan ((toy_chan 2 1 3 500000 1000 hs)\<lparr>q_State :=
     (q_State (toy_chan 2 1 3 500000 1000 hs))\<lparr>st_Delta := 100\<rparr>\<rparr>)"

definition toy_pending_db :: "htlc list \<Rightarrow> lit_node" where
  "toy_pending_db hs = toy_node\<lparr>nd_Channels := (\<lambda>k. Some (toy_pending hs))\<rparr>"

lemma toy_pending_stored:
  "stored (toy_pending_db hs) (q_Op (toy_chan 2 1 3 500000 1000 [])) (toy_pending hs)"
  by (simp add: stored_def toy_pending_db_def toy_pending_def NewChanDataFromQchan_def toy_chan_def)

lemma toy_pending_simps:
  "st_StateIdx (cdt_State (toy_pending hs)) = 3" "st_HTLCs (cdt_State (toy_pending hs)) = hs"
  "st_Delta (cdt_State (toy_pending hs)) = 100" "st_ElkPoint (cdt_State (toy_pending hs)) = toy_point 1 3"
  by (simp_all add: toy_pending_def NewChanDataFromQchan_def toy_chan_def)

theorem rev_stores_no_justice_witness:
  "nd_Justice (fst (RevHandler (toy_env 2) (toy_pending_db [])
     (NewRevMsg 1 (q_Op (toy_chan 2 1 3 500000 1000 [])) (replicate 32 4) (toy_point 1 6) (replicate 33 1))
     (toy_chan 2 1 3 500000 1000 []))) = nd_Justice (toy_pending_db [])"
proof -
  obtain nd' q' msgs err where r: "RevHandler (toy_env 2) (toy_pending_db [])
     (NewRevMsg 1 (q_Op (toy_chan 2 1 3 500000 1000 [])) (replicate 32 4) (toy_point 1 6) (replicate 33 1))
     (toy_chan 2 1 3 500000 1000 []) = (nd', q', msgs, err)"
    using prod_cases4 by blast
  show ?thesis
    using rev_stores_no_justice [OF toy_pending_stored _ r] by (simp add: r toy_pending_simps)
qed

definition toy_clearing :: "htlc list" where
  "toy_clearing = [(toy_htlc 2 1 True 600 False)\<lparr>ht_Clearing := True\<rparr>, (toy_htlc 2 1 True 700 False)\<lparr>ht_Clearing := True\<rparr>]"

theorem rev_two_clearing_blocks_witness:
  "\<exists>elk nd' q'. RevHandler (toy_env 2) (toy_pending_db toy_clearing)
     (NewRevMsg 1 (q_Op (toy_chan 2 1 3 500000 1000 [])) elk (toy_point 1 6) (replicate 33 1))
     (toy_chan 2 1 3 500000 1000 []) = (nd', q', [], Some Blocked)"
proof -
  have len: "1 < length toy_clearing" by (simp add: toy_clearing_def)
  have o: "ht_Clearing (toy_clearing ! 0) \<and> \<not> ht_Cleared (toy_clearing ! 0)"
    "ht_Clearing (toy_clearing ! 1) \<and> \<not> ht_Cleared (toy_clearing ! 1)"
    by (simp_all add: toy_clearing_def toy_htlc_def)
  obtain elk where elk: "ElkPointFromHash toy_crypto elk = toy_point 1 3"
  proof -
    have "(3 :: u64) \<le> maxIndex" by (simp add: maxIndex_def)
    then show thesis
      by (rule sender_pt [of 3 toy_crypto "replicate 32 1"]) (rule that, simp add: toy_point_def pt_def)
  qed
  have cr: "ev_crypto (toy_env 2) = toy_crypto" by (simp add: toy_env_def)
  define m where "m = NewRevMsg 1 (q_Op (toy_chan 2 1 3 500000 1000 [])) elk (toy_point 1 6) (replicate 33 1)"
  have "rv_Elk m = elk" by (simp add: m_def NewRevMsg_def)
  with elk have e: "ElkPointFromHash (ev_crypto (toy_env 2)) (rv_Elk m) = st_ElkPoint (cdt_State (toy_pending toy_clearing))"
    by (simp only: cr toy_pending_simps)
  have i: "0 \<le> st_Delta (cdt_State (toy_pending toy_clearing))" "st_StateIdx (cdt_State (toy_pending toy_clearing)) \<noteq> 0"
    by (simp_all add: toy_pending_simps)
  note rev_two_clearing_blocks [OF toy_pending_stored _ _ _ _ i e, of 0 1, unfolded toy_pending_simps(2)]
  from this [OF zero_less_one len o] obtain nd' q' where
    "RevHandler (toy_env 2) (toy_pending_db toy_clearing) m (toy_chan 2 1 3 500000 1000 []) = (nd', q', [], Some Blocked)"
    by (elim exE conjE)
  then show ?thesis unfolding m_def by (intro exI)
qed

end
