(* ===== verification/ChannelSpec.thy ===== *)
theory ChannelSpec
  imports Htlc ChannelSafety
begin

text \<open>
  An abstract specification of a channel's stored state: the updates an operation may make
  (\<open>update\<close>), without messages, signatures and keys. Every operation of the model is shown to refine it in
  \<open>ChannelFlow\<close>; here are the relation and what follows from it alone: the HTLCs stay where they are,
  the state number goes up by at most one, and the balance only goes down by an update this node started.
\<close>

section \<open>States of the same shape\<close>

text \<open>An HTLC without what an update may change, and the flags that only go up.\<close>

definition ident :: "htlc \<Rightarrow> htlc" where
  "ident h = h\<lparr>ht_Sig := [], ht_R := [], ht_Clearing := False, ht_Cleared := False, ht_ClearedOnChain := False\<rparr>"

definition follows :: "htlc \<Rightarrow> htlc \<Rightarrow> bool" where
  "follows h h' \<longleftrightarrow> ident h' = ident h \<and> (ht_Cleared h \<longrightarrow> ht_Cleared h') \<and> (ht_ClearedOnChain h \<longrightarrow> ht_ClearedOnChain h')"

definition extends :: "htlc list \<Rightarrow> htlc list \<Rightarrow> bool" where
  "extends hs hs' \<longleftrightarrow> length hs \<le> length hs' \<and> (\<forall>i < length hs. follows (hs ! i) (hs' ! i))"

text \<open>The HTLC with index \<open>i\<close> stands at position \<open>i\<close>; pending ones have the next two indices.\<close>

definition indexed :: "stat_com \<Rightarrow> bool" where
  "indexed s \<longleftrightarrow>
     (\<forall>i < length (st_HTLCs s). ht_Idx (st_HTLCs s ! i) = of_nat i) \<and> st_HTLCIdx s = of_nat (length (st_HTLCs s)) \<and>
     (\<forall>h. st_InProgHTLC s = Some h \<longrightarrow> ht_Idx h = st_HTLCIdx s) \<and>
     (\<forall>h. st_CollidingHTLC s = Some h \<longrightarrow> ht_Idx h = st_HTLCIdx s + 1 \<and> st_InProgHTLC s \<noteq> None)"

lemma follows_refl [simp]: "follows h h"
  by (simp add: follows_def)

lemma follows_trans: "follows a b \<Longrightarrow> follows b c \<Longrightarrow> follows a c"
  by (auto simp: follows_def)

lemma extends_refl [simp]: "extends hs hs"
  by (simp add: extends_def)

lemma extends_trans: "extends a b \<Longrightarrow> extends b c \<Longrightarrow> extends a c"
  unfolding extends_def by (meson follows_trans order_less_le_trans order_trans)

lemma extends_append [simp]: "extends hs (hs @ ts)"
  by (simp add: extends_def nth_append)

lemma extends_update: "follows (hs ! i) h \<Longrightarrow> extends hs (hs[i := h])"
  unfolding extends_def by (metis follows_refl length_list_update nth_list_update_eq nth_list_update_neq order_refl)

text \<open>States that differ only in keys, points, signatures, and flags that go up.\<close>

definition same_shape :: "stat_com \<Rightarrow> stat_com \<Rightarrow> bool" where
  "same_shape s s' \<longleftrightarrow>
     length (st_HTLCs s') = length (st_HTLCs s) \<and> extends (st_HTLCs s) (st_HTLCs s') \<and>
     st_HTLCIdx s' = st_HTLCIdx s \<and> st_StateIdx s' = st_StateIdx s \<and> st_MyAmt s' = st_MyAmt s \<and>
     st_Failed s' = st_Failed s \<and> map_option ht_Idx (st_InProgHTLC s') = map_option ht_Idx (st_InProgHTLC s) \<and>
     map_option ht_Idx (st_CollidingHTLC s') = map_option ht_Idx (st_CollidingHTLC s)"

lemma same_shape_refl [simp]: "same_shape s s"
  by (simp add: same_shape_def)

lemma same_shape_trans: "same_shape a b \<Longrightarrow> same_shape b c \<Longrightarrow> same_shape a c"
  by (auto simp: same_shape_def elim: extends_trans)

lemma follows_Idx: "follows h h' \<Longrightarrow> ht_Idx h' = ht_Idx h"
  unfolding follows_def ident_def by (cases h; cases h') simp

lemma indexed_shape:
  assumes "same_shape s s'" "indexed s"
  shows "indexed s'"
proof -
  have l: "length (st_HTLCs s') = length (st_HTLCs s)" "st_HTLCIdx s' = st_HTLCIdx s"
    and o: "map_option ht_Idx (st_InProgHTLC s') = map_option ht_Idx (st_InProgHTLC s)"
      "map_option ht_Idx (st_CollidingHTLC s') = map_option ht_Idx (st_CollidingHTLC s)"
    using assms(1) by (auto simp: same_shape_def)
  have "ht_Idx (st_HTLCs s' ! i) = ht_Idx (st_HTLCs s ! i)" if "i < length (st_HTLCs s)" for i
    using assms(1) that by (intro follows_Idx) (simp add: same_shape_def extends_def)
  moreover have "\<exists>h. st_InProgHTLC s = Some h \<and> ht_Idx h = ht_Idx h'" if "st_InProgHTLC s' = Some h'" for h'
    using o(1) that by (cases "st_InProgHTLC s") auto
  moreover have "\<exists>h. st_CollidingHTLC s = Some h \<and> ht_Idx h = ht_Idx h'" if "st_CollidingHTLC s' = Some h'" for h'
    using o(2) that by (cases "st_CollidingHTLC s") auto
  moreover have "st_InProgHTLC s' = None \<longleftrightarrow> st_InProgHTLC s = None"
    using o(1) by (metis option.map_disc_iff)
  ultimately show ?thesis
    using assms(2) l unfolding indexed_def by (metis (no_types, lifting))
qed

text \<open>Updates of fields no invariant speaks of.\<close>

lemma same_shape_upd [simp]:
  "same_shape s (t\<lparr>st_Data := x1\<rparr>) = same_shape s t" "same_shape s (t\<lparr>st_Delta := x2\<rparr>) = same_shape s t"
  "same_shape s (t\<lparr>st_Collision := x2\<rparr>) = same_shape s t"
  "same_shape s (t\<lparr>st_ElkPoint := x1\<rparr>) = same_shape s t" "same_shape s (t\<lparr>st_NextElkPoint := x1\<rparr>) = same_shape s t"
  "same_shape s (t\<lparr>st_N2ElkPoint := x1\<rparr>) = same_shape s t" "same_shape s (t\<lparr>st_NextHTLCBase := x1\<rparr>) = same_shape s t"
  "same_shape s (t\<lparr>st_N2HTLCBase := x1\<rparr>) = same_shape s t" "same_shape s (t\<lparr>st_MyNextHTLCBase := x1\<rparr>) = same_shape s t"
  "same_shape s (t\<lparr>st_MyN2HTLCBase := x1\<rparr>) = same_shape s t"
  "same_shape s (t\<lparr>st_CollidingHashDelta := b\<rparr>) = same_shape s t"
  "same_shape s (t\<lparr>st_CollidingHashPreimage := b\<rparr>) = same_shape s t"
  "same_shape s (t\<lparr>st_CollidingPreimages := b\<rparr>) = same_shape s t"
  "same_shape s (t\<lparr>st_CollidingPreimageDelta := b\<rparr>) = same_shape s t"
  by (simp_all add: same_shape_def)

text \<open>A state whose pending HTLC may have been set aside.\<close>

definition paused :: "stat_com \<Rightarrow> stat_com \<Rightarrow> bool" where
  "paused s t \<longleftrightarrow> same_shape s (t\<lparr>st_InProgHTLC := st_InProgHTLC s\<rparr>) \<and> (st_InProgHTLC t = None \<or> st_InProgHTLC t = st_InProgHTLC s)"

lemma paused_refl [simp]: "paused s s"
  by (simp add: paused_def)

section \<open>The updates\<close>

text \<open>
  \<open>credit_amt\<close> is the balance after the other party's DeltaSig or PreimageSig: unchanged, plus the amount
  pushed, or plus the amount of an HTLC that comes back. \<open>own_amt\<close> is the balance once the update this node
  started is complete.
\<close>

definition credit_amt :: "stat_com \<Rightarrow> int \<Rightarrow> bool" where
  "credit_amt t m \<longleftrightarrow> m = st_MyAmt t \<or>
     (\<exists>x. m = i64 (st_MyAmt t + x) \<and> (1 \<le> x \<and> x < 2 ^ 31 \<or> (\<exists>h \<in> set (st_HTLCs t). x = ht_Amt h)))"

definition own_amt :: "stat_com \<Rightarrow> int" where
  "own_amt t = pending_amt t (i64 (st_MyAmt t + st_Delta t))"

text \<open>The second entry of two HTLCs offered at once.\<close>

definition two_placed :: "htlc \<Rightarrow> htlc \<Rightarrow> htlc \<Rightarrow> stat_com \<Rightarrow> stat_com" where
  "two_placed x first second u =
     u\<lparr>st_InProgHTLC := Some (first\<lparr>ht_Idx := ht_Idx x\<rparr>), st_CollidingHTLC := Some (second\<lparr>ht_Idx := st_HTLCIdx u + 1\<rparr>)\<rparr>"

inductive update :: "stat_com \<Rightarrow> stat_com \<Rightarrow> bool" where
  stay: "same_shape t u \<Longrightarrow> update t u"
| offered: "st_InProgHTLC t = None \<Longrightarrow> ht_Idx h = st_HTLCIdx t \<Longrightarrow> same_shape (t\<lparr>st_InProgHTLC := Some h\<rparr>) u \<Longrightarrow> update t u"
| credited: "paused t s \<Longrightarrow> credit_amt t m \<Longrightarrow> same_shape (s\<lparr>st_StateIdx := st_StateIdx s + 1, st_MyAmt := m\<rparr>) u \<Longrightarrow>
    same_shape (u\<lparr>st_InProgHTLC := keep_inprog (st_InProgHTLC t) (st_InProgHTLC u)\<rparr>) w \<Longrightarrow> update t w"
| received: "(indexed t \<Longrightarrow> ht_Idx h = st_HTLCIdx t) \<Longrightarrow>
    same_shape (t\<lparr>st_StateIdx := st_StateIdx t + 1, st_InProgHTLC := Some h\<rparr>) u \<Longrightarrow> update t u"
| placed: "(indexed t \<Longrightarrow> ht_Idx h = st_HTLCIdx t) \<Longrightarrow>
    same_shape (t\<lparr>st_StateIdx := st_StateIdx t + 1, st_InProgHTLC := Some h\<rparr>) u \<Longrightarrow>
    same_shape (two_placed h first second u) w \<Longrightarrow> update t w"
| own: "same_shape (t\<lparr>st_StateIdx := st_StateIdx t + 1, st_MyAmt := own_amt t\<rparr>) u \<Longrightarrow> update t u"
| own_listed: "st_CollidingHTLC t = None \<Longrightarrow>
    same_shape (t\<lparr>st_StateIdx := st_StateIdx t + 1, st_MyAmt := own_amt t\<rparr>) s \<Longrightarrow> same_shape (append_inprog s) u \<Longrightarrow> update t u"
| finished: "same_shape t s \<Longrightarrow> same_shape (append_colliding (append_inprog s)) u \<Longrightarrow> update t u"
| failed: "update t u \<Longrightarrow> update t (u\<lparr>st_Failed := True\<rparr>)"

section \<open>Positions and order\<close>

definition adv :: "stat_com \<Rightarrow> stat_com \<Rightarrow> bool" where
  "adv s s' \<longleftrightarrow>
     (st_StateIdx s' = st_StateIdx s \<or> st_StateIdx s' = st_StateIdx s + 1) \<and> (st_Failed s \<longrightarrow> st_Failed s') \<and>
     extends (st_HTLCs s) (st_HTLCs s') \<and> (indexed s \<longrightarrow> indexed s')"

lemma same_shape_adv: "same_shape s s' \<Longrightarrow> adv s s'"
  using indexed_shape by (auto simp: adv_def same_shape_def)

lemma adv_next: "same_shape (s\<lparr>st_StateIdx := st_StateIdx s + 1, st_MyAmt := m\<rparr>) s' \<Longrightarrow> adv s s'"
proof -
  assume a: "same_shape (s\<lparr>st_StateIdx := st_StateIdx s + 1, st_MyAmt := m\<rparr>) s'"
  have "indexed (s\<lparr>st_StateIdx := st_StateIdx s + 1, st_MyAmt := m\<rparr>) = indexed s" by (simp add: indexed_def)
  with a indexed_shape [OF a] show ?thesis by (simp add: adv_def same_shape_def)
qed

lemma adv_grow:
  assumes "adv t s" "extends (st_HTLCs s) (st_HTLCs u)" "indexed s \<Longrightarrow> indexed u" "st_StateIdx u = st_StateIdx s"
    "st_Failed u = st_Failed s"
  shows "adv t u"
  using assms extends_trans [OF _ assms(2)] by (simp add: adv_def)

lemma adv_shape: "adv t s \<Longrightarrow> same_shape s u \<Longrightarrow> adv t u"
  using indexed_shape [of s u] by (intro adv_grow [of t s u]) (simp_all add: same_shape_def)

lemma adv_Failed: "adv s s' \<Longrightarrow> adv s (s'\<lparr>st_Failed := True\<rparr>)"
proof -
  have "indexed (s'\<lparr>st_Failed := True\<rparr>) = indexed s'" by (simp add: indexed_def)
  then show "adv s s' \<Longrightarrow> adv s (s'\<lparr>st_Failed := True\<rparr>)" by (simp add: adv_def)
qed

lemma append_inprog_simps [simp]:
  "st_StateIdx (append_inprog s) = st_StateIdx s" "st_Failed (append_inprog s) = st_Failed s"
  "st_CollidingHTLC (append_inprog s) = st_CollidingHTLC s" "st_InProgHTLC (append_inprog s) = None"
  "extends (st_HTLCs s) (st_HTLCs (append_inprog s))"
  by (cases "st_InProgHTLC s"; simp add: append_inprog_def)+

lemma append_colliding_simps [simp]:
  "st_StateIdx (append_colliding s) = st_StateIdx s" "st_Failed (append_colliding s) = st_Failed s"
  "st_CollidingHTLC (append_colliding s) = None" "st_InProgHTLC (append_colliding s) = st_InProgHTLC s"
  "extends (st_HTLCs s) (st_HTLCs (append_colliding s))"
  by (cases "st_CollidingHTLC s"; simp add: append_colliding_def)+

lemma indexed_snoc:
  assumes "\<forall>i < length hs. ht_Idx (hs ! i) = (of_nat i :: u32)" "ht_Idx h = of_nat (length hs)"
  shows "\<forall>i < length (hs @ [h]). ht_Idx ((hs @ [h]) ! i) = (of_nat i :: u32)"
  using assms by (auto simp: nth_append less_Suc_eq)

lemma indexed_append:
  assumes "indexed s"
  shows "st_CollidingHTLC s = None \<Longrightarrow> indexed (append_inprog s)"
    and "indexed (append_colliding (append_inprog s))"
proof -
  let ?hs = "st_HTLCs s"
  have i: "\<forall>i < length ?hs. ht_Idx (?hs ! i) = of_nat i" "st_HTLCIdx s = of_nat (length ?hs)"
    and h: "\<And>h. st_InProgHTLC s = Some h \<Longrightarrow> ht_Idx h = of_nat (length ?hs)"
    and c: "\<And>c. st_CollidingHTLC s = Some c \<Longrightarrow> ht_Idx c = of_nat (length ?hs) + 1 \<and> st_InProgHTLC s \<noteq> None"
    using assms by (auto simp: indexed_def)
  show one: "indexed (append_inprog s)" if "st_CollidingHTLC s = None"
  proof (cases "st_InProgHTLC s")
    case (Some h)
    then have "\<forall>i < length (?hs @ [h]). ht_Idx ((?hs @ [h]) ! i) = of_nat i"
      using indexed_snoc [OF i(1)] h by blast
    with Some i(2) that show ?thesis by (simp add: indexed_def append_inprog_def)
  qed (simp add: append_inprog_def assms)
  show "indexed (append_colliding (append_inprog s))"
  proof (cases "st_CollidingHTLC s")
    case None
    then show ?thesis using one by (simp add: append_colliding_def)
  next
    case (Some c)
    then obtain h where p: "st_InProgHTLC s = Some h" using c by blast
    then have one: "\<forall>i < length (?hs @ [h]). ht_Idx ((?hs @ [h]) ! i) = of_nat i"
      using indexed_snoc [OF i(1)] h by blast
    have "ht_Idx c = of_nat (length (?hs @ [h]))" using c [OF Some] by simp
    with one have "\<forall>i < length ((?hs @ [h]) @ [c]). ht_Idx (((?hs @ [h]) @ [c]) ! i) = of_nat i"
      by (rule indexed_snoc)
    with Some p i(2) show ?thesis by (simp add: indexed_def append_inprog_def append_colliding_def)
  qed
qed

lemma adv_credited:
  assumes p: "paused t s" and c: "same_shape (s\<lparr>st_StateIdx := st_StateIdx s + 1, st_MyAmt := m\<rparr>) u"
  shows "adv t (u\<lparr>st_InProgHTLC := keep_inprog (st_InProgHTLC t) (st_InProgHTLC u)\<rparr>)"
proof (rule adv_next)
  have "map_option ht_Idx (keep_inprog (st_InProgHTLC t) (st_InProgHTLC u)) = map_option ht_Idx (st_InProgHTLC t)"
    using p c by (auto simp: paused_def same_shape_def keep_inprog_def split: option.split)
  moreover have "extends (st_HTLCs t) (st_HTLCs u)"
    using p c extends_trans [of "st_HTLCs t" "st_HTLCs s" "st_HTLCs u"] by (simp add: paused_def same_shape_def)
  ultimately show "same_shape (t\<lparr>st_StateIdx := st_StateIdx t + 1, st_MyAmt := st_MyAmt u\<rparr>)
      (u\<lparr>st_InProgHTLC := keep_inprog (st_InProgHTLC t) (st_InProgHTLC u)\<rparr>)"
    using p c by (auto simp: paused_def same_shape_def)
qed

lemma adv_received:
  assumes h: "indexed t \<Longrightarrow> ht_Idx h = st_HTLCIdx t"
    and u: "same_shape (t\<lparr>st_StateIdx := st_StateIdx t + 1, st_InProgHTLC := Some h\<rparr>) u"
  shows "adv t u"
proof -
  have "adv t (t\<lparr>st_StateIdx := st_StateIdx t + 1, st_InProgHTLC := Some h\<rparr>)"
    using h by (simp add: adv_def indexed_def)
  then show ?thesis using u by (rule adv_shape)
qed

lemma adv_update: "update t u \<Longrightarrow> adv t u"
proof (induction rule: update.induct)
  case (offered t h u)
  have "indexed (t\<lparr>st_InProgHTLC := Some h\<rparr>)" if "indexed t"
    using that offered(1,2) by (simp add: indexed_def)
  then have "adv t (t\<lparr>st_InProgHTLC := Some h\<rparr>)" by (simp add: adv_def)
  then show ?case using offered(3) by (rule adv_shape)
next
  case (placed t h u first second w)
  have u: "adv t u" by (rule adv_received [OF placed(1,2)])
  have "adv t (two_placed h first second u)"
  proof (rule adv_grow [OF u])
    assume "indexed u"
    moreover obtain x where "st_InProgHTLC u = Some x" "ht_Idx x = ht_Idx h"
      using placed(2) by (cases "st_InProgHTLC u") (simp_all add: same_shape_def)
    ultimately show "indexed (two_placed h first second u)"
      by (simp add: indexed_def two_placed_def)
  qed (simp_all add: two_placed_def)
  then show ?case using placed(3) by (rule adv_shape)
next
  case (own_listed t s u)
  have n: "st_CollidingHTLC s = None" using own_listed(1,2) by (simp add: same_shape_def)
  have "adv t (append_inprog s)"
    by (rule adv_grow [OF adv_next [OF own_listed(2)]]) (simp_all add: indexed_append(1) n)
  then show ?case using own_listed(3) by (rule adv_shape)
next
  case (finished t s u)
  have "adv t (append_colliding (append_inprog s))"
    by (rule adv_grow [OF same_shape_adv [OF finished(1)]])
      (simp_all add: indexed_append extends_trans [OF append_inprog_simps(5) append_colliding_simps(5)])
  then show ?case using finished(2) by (rule adv_shape)
next
  case (received t h u)
  show ?case by (rule adv_received [OF received])
next
  case (credited t s m u w)
  show ?case by (rule adv_shape [OF adv_credited [OF credited(1,3)] credited(4)])
qed (blast intro: same_shape_adv adv_next adv_Failed)+

end
