(* ===== verification/ChannelFlow.thy ===== *)
theory ChannelFlow
  imports ChannelSpec
begin

text \<open>
  Every operation on a channel refines the abstract updates of \<open>ChannelSpec\<close>: whatever the environment,
  the message and the copy in memory are, what the database holds of the channel afterwards is one
  \<open>update\<close> away from what it held before.
\<close>

section \<open>The parts of the handlers\<close>

lemma set_htlc_sig_shape: "same_shape s (set_htlc_sig j sig s)"
  by (auto simp: set_htlc_sig_def same_shape_def follows_def ident_def option.map_comp comp_def intro!: extends_update)

lemma VerifySigs_shape:
  assumes "VerifySigs ev q sig sigs = Inr q'"
  shows "same_shape (q_State q) (q_State q')" "q_Txo q' = q_Txo q"
proof -
  have "same_shape s (fold (\<lambda>(j, w) s. set_htlc_sig j (sigs ! w) s) xs s)" for xs s
    by (induction xs arbitrary: s) (auto intro: same_shape_trans set_htlc_sig_shape)
  moreover have "same_shape s (s\<lparr>st_Sig := sig\<rparr>)" for s by (simp add: same_shape_def)
  ultimately have "same_shape s (fold (\<lambda>(j, w) s. set_htlc_sig j (sigs ! w) s) xs (s\<lparr>st_Sig := sig\<rparr>))" for xs s
    by (blast intro: same_shape_trans)
  then show "same_shape (q_State q) (q_State q')" "q_Txo q' = q_Txo q"
    using assms by (auto simp: VerifySigs_def bind_res_def Let_def split: sum.splits if_splits)
qed

lemma set_clearing_shape: "set_clearing b ks s = Inr s' \<Longrightarrow> same_shape s s'"
proof (induction ks arbitrary: s)
  case (Cons i ks)
  let ?s = "s\<lparr>st_HTLCs := (st_HTLCs s)[unat i := (st_HTLCs s ! unat i)\<lparr>ht_Clearing := b\<rparr>]\<rparr>"
  have "same_shape s ?s"
    by (auto simp: same_shape_def follows_def ident_def intro!: extends_update)
  with Cons show ?case
    by (auto simp: set_clearing_def bind_res_def split: if_splits intro: same_shape_trans)
qed (simp add: set_clearing_def)

lemma mark_cleared_shape: "same_shape s (s\<lparr>st_HTLCs := map mark_cleared (st_HTLCs s)\<rparr>)"
  by (auto simp: same_shape_def extends_def follows_def mark_cleared_def ident_def)

lemma clear_htlcs_shape: "clear_htlcs ks l nd s = (nd', s', e) \<Longrightarrow> same_shape s s'"
proof (induction ks arbitrary: l nd s)
  case (Cons k ks)
  let ?s = "s\<lparr>st_HTLCs := (st_HTLCs s)[k := (st_HTLCs s ! k)\<lparr>ht_Cleared := True\<rparr>]\<rparr>"
  have "same_shape s ?s"
    by (auto simp: same_shape_def follows_def ident_def intro!: extends_update)
  with Cons show ?case
    by (auto simp: Let_def split: if_splits prod.splits intro: same_shape_trans)
qed simp

text \<open>The new base key, when one is due.\<close>

lemma base_shape:
  assumes "y = (if c then bind_res r (\<lambda>p. Inr (s\<lparr>st_MyNextHTLCBase := b, st_MyN2HTLCBase := p\<rparr>)) else Inr s)" "y = Inr u"
  shows "same_shape s u"
  using assms by (auto simp: bind_res_def split: if_splits sum.splits)

lemma AdvanceElkrem_shape:
  assumes "AdvanceElkrem cr q h n2 = (e, q')"
  shows "same_shape (q_State q) (q_State q')" "q_Txo q' = q_Txo q"
  using assms by (auto simp: AdvanceElkrem_def IngestElkrem_def Let_def split: sum.splits if_splits)

section \<open>What is stored\<close>

definition keeps :: "outpoint \<Rightarrow> chan_data \<Rightarrow> lit_node \<Rightarrow> bool" where
  "keeps op d nd \<longleftrightarrow> (\<exists>s. stored nd op (d\<lparr>cdt_State := s\<rparr>) \<and> update (cdt_State d) s)"

lemma keeps_refl: "stored nd op d \<Longrightarrow> keeps op d nd"
  unfolding keeps_def by (rule exI [of _ "cdt_State d"]) (simp add: stay)

lemma keeps_cong: "nd_Channels nd' = nd_Channels nd \<Longrightarrow> keeps op d nd' = keeps op d nd"
  by (simp add: keeps_def stored_def)

lemma keeps_save:
  assumes "keeps op d nd" "q_Op q = op" "update (cdt_State d) (q_State q)"
  shows "keeps op d (SaveQchanState ev nd q)"
proof -
  obtain s where st: "stored nd (q_Op q) (d\<lparr>cdt_State := s\<rparr>)"
    using assms(1,2) unfolding keeps_def by metis
  have "stored (SaveQchanState ev nd q) op (d\<lparr>cdt_State := q_State q\<rparr>)"
    using stored_store [OF st, of "q_State q"] unfolding save_stored [OF st] assms(2) by simp
  with assms(3) show ?thesis unfolding keeps_def by blast
qed

lemma keeps_fail:
  assumes "keeps op d nd" "q_Op q = op"
  shows "keeps op d (fst (fail_with ev nd q msgs e))"
proof -
  obtain s where st: "stored nd (q_Op q) (d\<lparr>cdt_State := s\<rparr>)" "update (cdt_State d) s"
    using assms by (auto simp: keeps_def)
  show ?thesis
  proof (cases "e = Panic")
    case True
    then show ?thesis using assms(1) by (simp add: fail_with_def)
  next
    case False
    obtain nd' q' where "fail_with ev nd q msgs e = (nd', q', msgs, Some e)"
      "stored nd' (q_Op q) (d\<lparr>cdt_State := s\<lparr>st_Failed := True\<rparr>\<rparr>)"
      using fail_stored [OF st(1) False, of ev msgs] by auto
    then show ?thesis
      using failed [OF st(2)] assms(2) unfolding keeps_def by (intro exI [of _ "s\<lparr>st_Failed := True\<rparr>"]) simp
  qed
qed

lemma keeps_clear: "keeps op d nd \<Longrightarrow> keeps op d (fst (clear_to_send nd q msgs e))"
  by (simp add: clear_to_send_def)

section \<open>Following a handler\<close>

text \<open>
  One rule per construct of the model: the value of a \<open>let\<close> becomes an equation, the outcome of a test or
  of a call a premise, until an exit of the handler is reached.
\<close>

lemma keeps_let: "(\<And>y. y = x \<Longrightarrow> keeps op d (fst (f y))) \<Longrightarrow> keeps op d (fst (Let x f))"
  by (simp add: Let_def)

lemma keeps_if:
  "(b \<Longrightarrow> keeps op d (fst x)) \<Longrightarrow> (\<not> b \<Longrightarrow> keeps op d (fst y)) \<Longrightarrow> keeps op d (fst (if b then x else y))"
  by simp

lemma keeps_sum:
  "(\<And>e. r = Inl e \<Longrightarrow> keeps op d (fst (f e))) \<Longrightarrow> (\<And>x. r = Inr x \<Longrightarrow> keeps op d (fst (g x))) \<Longrightarrow>
   keeps op d (fst (case r of Inl e \<Rightarrow> f e | Inr x \<Rightarrow> g x))"
  by (simp split: sum.split)

lemma keeps_opt:
  "(r = None \<Longrightarrow> keeps op d (fst a)) \<Longrightarrow> (\<And>x. r = Some x \<Longrightarrow> keeps op d (fst (g x))) \<Longrightarrow>
   keeps op d (fst (case r of None \<Rightarrow> a | Some x \<Rightarrow> g x))"
  by (simp split: option.split)

lemma keeps_prod:
  "(\<And>x y. r = (x, y) \<Longrightarrow> keeps op d (fst (g x y))) \<Longrightarrow> keeps op d (fst (case r of (x, y) \<Rightarrow> g x y))"
  by (simp split: prod.split)

lemma keeps_ret: "keeps op d nd \<Longrightarrow> keeps op d (fst (nd, r))"
  by simp

text \<open>What is left to show where a state is saved; the simplifier leaves it alone.\<close>

definition saves :: "chan_data \<Rightarrow> qchan \<Rightarrow> bool" where
  "saves d q \<longleftrightarrow> update (cdt_State d) (q_State q)"

lemma saves_cong [cong]: "saves d q = saves d q" ..

lemma saves_upd: "q = q0\<lparr>q_State := s\<rparr> \<Longrightarrow> update (cdt_State d) s \<Longrightarrow> saves d q"
  by (simp add: saves_def)

lemma keeps_save_let:
  "keeps op d nd \<Longrightarrow> q_Op q = op \<Longrightarrow> saves d q \<Longrightarrow> (\<And>y. keeps op d y \<Longrightarrow> keeps op d (fst (f y))) \<Longrightarrow>
   keeps op d (fst (Let (SaveQchanState ev nd q) f))"
  by (simp add: Let_def saves_def keeps_save)

lemma keeps_reload:
  assumes "stored nd (q_Op q) d" "keeps op d (fst (g (chan_of ev d (q_ClearToSend q))))"
  shows "keeps op d (fst (case ReloadQchanState ev nd q of Inl e \<Rightarrow> f e | Inr x \<Rightarrow> g x))"
  using assms by (simp add: reload_stored)

text \<open>The two ways a handler that verified a signature answers.\<close>

lemma answers_Txo:
  "q_Txo (fst (SendGapSigRev ev q)) = q_Txo q" "q_Txo (fst (SendSigRev ev q)) = q_Txo q"
  by (auto simp: SendGapSigRev_def SendSigRev_def Let_def split: sum.splits prod.splits)

lemma keeps_answer:
  assumes "keeps op d nd" "q_Op q = op"
  shows "keeps op d (fst (let (q, msgs, err) = (if c then SendGapSigRev ev q else SendSigRev ev q) in
    case err of None \<Rightarrow> (nd, q, msgs, None) | Some e \<Rightarrow> fail_with ev nd q msgs e))"
  using assms answers_Txo [of ev q] by (auto simp: Let_def split: prod.splits option.splits intro!: keeps_fail)

lemmas follow = keeps_answer keeps_save_let keeps_let keeps_if keeps_sum keeps_opt keeps_prod keeps_ret keeps_fail

lemmas q_Txo_if = if_distrib [of q_Txo]

section \<open>Putting an operation together\<close>

lemma verified_shape:
  assumes "VerifySigs ev q sig sigs = Inr q'" "set_clearing b ks ((q_State q')\<lparr>st_ElkPoint := e\<rparr>) = Inr u"
    and "same_shape t (q_State q)"
  shows "same_shape t u"
proof -
  have "same_shape ((q_State q')\<lparr>st_ElkPoint := e\<rparr>) u" by (rule set_clearing_shape [OF assms(2)])
  moreover have "same_shape (q_State q) ((q_State q')\<lparr>st_ElkPoint := e\<rparr>)"
    using VerifySigs_shape(1) [OF assms(1)] by simp
  ultimately show ?thesis using assms(3) same_shape_trans by blast
qed

text \<open>One lemma per place where a handler saves: its premises are what the handler has tested and computed.\<close>

lemma delta_collision_paused: "delta_collision ev q ks x = Inr t \<Longrightarrow> paused (q_State q) t"
  by (auto simp: delta_collision_def Let_def paused_def same_shape_def bind_res_def
      dest!: set_clearing_shape split: if_splits sum.splits)

lemma delta_saved:
  assumes "(if c then delta_collision ev q ks x else Inr (q_State q)) = Inr s" "q_State q = t"
    and v: "VerifySigs ev v a b = Inr w" "set_clearing True ks' ((q_State w)\<lparr>st_ElkPoint := e\<rparr>) = Inr u"
    and n: "\<not> x < 1" "x < 2 ^ 31" "same_shape (s\<lparr>st_StateIdx := st_StateIdx s + 1, st_MyAmt := i64 (st_MyAmt s + x)\<rparr>) (q_State v)"
  shows "update t (u\<lparr>st_InProgHTLC := keep_inprog (st_InProgHTLC t) (st_InProgHTLC u)\<rparr>)"
proof (rule credited)
  show p: "paused t s"
    using assms(1,2) by (auto split: if_splits dest: delta_collision_paused)
  then have "st_MyAmt s = st_MyAmt t" by (simp add: paused_def same_shape_def)
  then show "credit_amt t (i64 (st_MyAmt s + x))"
    using n(1,2) by (auto simp: credit_amt_def)
  show "same_shape (s\<lparr>st_StateIdx := st_StateIdx s + 1, st_MyAmt := i64 (st_MyAmt s + x)\<rparr>) u"
    by (rule verified_shape [OF v n(3)])
qed simp

lemma gap_saved:
  assumes "AdvanceElkrem cr q1 h n2 = (e, q2)" "same_shape (t\<lparr>st_MyAmt := own_amt t\<rparr>) (q_State q1)"
    and "VerifySigs ev q3 a b = Inr q4" "same_shape ((q_State q2)\<lparr>st_StateIdx := st_StateIdx (q_State q2) + 1\<rparr>) (q_State q3)"
    and "same_shape (q_State q4) s"
  shows "update t s"
proof (rule own)
  have "same_shape (t\<lparr>st_MyAmt := own_amt t\<rparr>) (q_State q2)"
    using AdvanceElkrem_shape(1) [OF assms(1)] assms(2) same_shape_trans by blast
  then have "same_shape (t\<lparr>st_StateIdx := st_StateIdx t + 1, st_MyAmt := own_amt t\<rparr>)
      ((q_State q2)\<lparr>st_StateIdx := st_StateIdx (q_State q2) + 1\<rparr>)"
    by (simp add: same_shape_def)
  then show "same_shape (t\<lparr>st_StateIdx := st_StateIdx t + 1, st_MyAmt := own_amt t\<rparr>) s"
    using VerifySigs_shape(1) [OF assms(3)] assms(4,5) same_shape_trans by blast
qed

lemma sig_rev_saved:
  assumes "VerifySigs ev q1 a b = Inr q2" "same_shape (t\<lparr>st_StateIdx := st_StateIdx t + 1, st_MyAmt := own_amt t\<rparr>) (q_State q1)"
    and "AdvanceElkrem cr q3 h n2 = (e, q4)" "same_shape (q_State q2) (q_State q3)" "same_shape (q_State q4) s"
    and "\<not> (c \<or> st_CollidingHTLC t' \<noteq> None)" "t' = t"
    and y: "y = (if st_InProgHTLC s \<noteq> None then (append_inprog s)\<lparr>st_NextHTLCBase := x, st_N2HTLCBase := z\<rparr> else s)"
    and w: "w = y\<lparr>st_HTLCs := map mark_cleared (st_HTLCs y)\<rparr>"
  shows "update t w"
proof (rule own_listed)
  show "st_CollidingHTLC t = None" using assms(6,7) by simp
  show "same_shape (t\<lparr>st_StateIdx := st_StateIdx t + 1, st_MyAmt := own_amt t\<rparr>) s"
    using VerifySigs_shape(1) [OF assms(1)] AdvanceElkrem_shape(1) [OF assms(3)] assms(2,4,5) same_shape_trans by blast
  have "same_shape (append_inprog s) y"
    using y by (auto simp: append_inprog_def)
  then show "same_shape (append_inprog s) w"
    using mark_cleared_shape [of y] same_shape_trans unfolding w by blast
qed

lemma rev_saved:
  assumes "AdvanceElkrem cr q1 h n2 = (e, q2)" "same_shape t (q_State q1)"
    and "y = append_colliding (append_inprog s)" "same_shape y u" "same_shape (q_State q2) s"
  shows "update t u"
  using AdvanceElkrem_shape(1) [OF assms(1)] assms(2-5) same_shape_trans finished by blast

lemma offer_saved:
  assumes "\<not> (c \<or> st_InProgHTLC (q_State q) \<noteq> None)" "q_State q = t" "t' = t" "ht_Idx h = st_HTLCIdx t"
  shows "update t (t'\<lparr>st_Data := x, st_InProgHTLC := Some h\<rparr>)"
  using assms by (intro offered [of t h]) (simp_all add: same_shape_def)

lemma new_htlc_Idx [simp]: "ht_Idx (new_htlc ev q i inc amt rh lt) = i"
  by (simp add: new_htlc_def)

lemma clear_saved: "same_shape t (t\<lparr>st_Data := x, st_HTLCs := (st_HTLCs t)[i := (st_HTLCs t ! i)\<lparr>ht_R := R, ht_Clearing := b\<rparr>]\<rparr>)"
  by (auto simp: same_shape_def follows_def ident_def intro!: extends_update)

lemma hash_collision_shape:
  assumes "hash_collision q ks = Inr (i, s)"
  shows "same_shape (q_State q) s" "indexed (q_State q) \<Longrightarrow> i = st_HTLCIdx s"
proof -
  show "same_shape (q_State q) s"
    using assms by (auto simp: hash_collision_def Let_def bind_res_def dest!: set_clearing_shape split: if_splits sum.splits option.splits)
  moreover have "i = st_HTLCIdx s \<or> (\<exists>h. st_InProgHTLC (q_State q) = Some h \<and> i = ht_Idx h)"
    using assms by (auto simp: hash_collision_def Let_def bind_res_def split: if_splits sum.splits option.splits)
  ultimately show "indexed (q_State q) \<Longrightarrow> i = st_HTLCIdx s"
    by (auto simp: indexed_def same_shape_def)
qed

lemma hash_received:
  assumes x: "(if c then hash_collision q ks else Inr (st_HTLCIdx (q_State q), q_State q)) = Inr x" "x = (i, s)"
    and v: "VerifySigs ev q1 a b = Inr q2" "set_clearing True ks' ((q_State q2)\<lparr>st_ElkPoint := e\<rparr>) = Inr u"
    and "q0 = q'\<lparr>q_State := s\<lparr>st_InProgHTLC := Some h\<rparr>\<rparr>"
    and n: "same_shape (s\<lparr>st_StateIdx := st_StateIdx s + 1, st_InProgHTLC := Some h\<rparr>) (q_State q1)"
    and h: "ht_Idx h = i" "q_State q = t"
  shows "indexed t \<Longrightarrow> ht_Idx h = st_HTLCIdx t"
    "same_shape (t\<lparr>st_StateIdx := st_StateIdx t + 1, st_InProgHTLC := Some h\<rparr>) u"
proof -
  have s: "same_shape t s" "indexed t \<Longrightarrow> i = st_HTLCIdx s"
    using x h(2) hash_collision_shape [of q ks i s] by (auto split: if_splits)
  show "indexed t \<Longrightarrow> ht_Idx h = st_HTLCIdx t"
    using s h(1) by (simp add: same_shape_def)
  have "same_shape (t\<lparr>st_StateIdx := st_StateIdx t + 1, st_InProgHTLC := Some h\<rparr>)
      (s\<lparr>st_StateIdx := st_StateIdx s + 1, st_InProgHTLC := Some h\<rparr>)"
    using s(1) by (simp add: same_shape_def)
  then show "same_shape (t\<lparr>st_StateIdx := st_StateIdx t + 1, st_InProgHTLC := Some h\<rparr>) u"
    using verified_shape [OF v n] same_shape_trans by blast
qed

lemma hash_saved:
  assumes r: "indexed t \<Longrightarrow> ht_Idx h = st_HTLCIdx t" "same_shape (t\<lparr>st_StateIdx := st_StateIdx t + 1, st_InProgHTLC := Some h\<rparr>) u"
    and y: "y = (case (c, m, st_InProgHTLC u) of (True, Some mine, Some incoming) \<Rightarrow> place_htlcs ev q mine incoming | _ \<Rightarrow> u)"
    and q: "q_State q = u" and w: "same_shape y w"
  shows "update t w"
proof -
  have "\<exists>first second. same_shape (two_placed h first second u) (place_htlcs ev q mine x)"
    if "st_InProgHTLC u = Some x" for mine x
  proof -
    have "ht_Idx x = ht_Idx h" using r(2) that by (simp add: same_shape_def)
    then show ?thesis
      by (cases "bytes_less (st_NextHTLCBase u) (st_MyNextHTLCBase u)")
        (force simp: place_htlcs_def Let_def q two_placed_def same_shape_def)+
  qed
  then have "y = u \<or> (\<exists>first second. same_shape (two_placed h first second u) y)"
    unfolding y by (cases c; cases m; cases "st_InProgHTLC u") simp_all
  then consider "y = u" | first second where "same_shape (two_placed h first second u) y" by blast
  then show ?thesis
  proof cases
    case 1
    then show ?thesis using received [OF r(1)] r(2) w same_shape_trans by blast
  next
    case 2
    then show ?thesis using placed [OF r] w same_shape_trans by blast
  qed
qed

lemma preimage_collision_paused: "preimage_collision s ks = Inr t \<Longrightarrow> paused s t"
  by (auto simp: preimage_collision_def paused_def same_shape_def bind_res_def
      dest!: set_clearing_shape split: if_splits sum.splits)

text \<open>The balance the preimage of an HTLC in the list gives.\<close>

definition preimage_amt :: "stat_com \<Rightarrow> preimage_sig_msg \<Rightarrow> int" where
  "preimage_amt s msg = (let h = st_HTLCs s ! unat (ps_Idx msg) in
     if ht_Incoming h \<noteq> (ps_R msg = zeroR) then i64 (st_MyAmt s + ht_Amt h) else st_MyAmt s)"

lemma preimage_next_shape:
  "same_shape (s\<lparr>st_StateIdx := st_StateIdx s + 1, st_MyAmt := preimage_amt s msg\<rparr>) (preimage_next s msg)"
  by (auto simp: preimage_next_def preimage_amt_def Let_def same_shape_def follows_def ident_def intro!: extends_update)

lemma follows_Amt: "follows h h' \<Longrightarrow> ht_Amt h' = ht_Amt h"
  unfolding follows_def ident_def by (cases h; cases h') simp

lemma preimage_credit:
  assumes p: "paused t s" and i: "unat (ps_Idx msg) < length (st_HTLCs t)"
  shows "credit_amt t (preimage_amt s msg)"
proof -
  let ?h = "st_HTLCs t ! unat (ps_Idx msg)" and ?h' = "st_HTLCs s ! unat (ps_Idx msg)"
  have "st_MyAmt s = st_MyAmt t" "ht_Amt ?h' = ht_Amt ?h"
    using p i by (auto simp: paused_def same_shape_def extends_def intro!: follows_Amt)
  then have "preimage_amt s msg = st_MyAmt t \<or> preimage_amt s msg = i64 (st_MyAmt t + ht_Amt ?h)"
    by (simp add: preimage_amt_def Let_def)
  then show ?thesis
    unfolding credit_amt_def using nth_mem [OF i] by blast
qed

lemma preimage_saved:
  assumes i: "\<not> length (st_HTLCs t) \<le> unat (ps_Idx msg)"
    and c: "(if c then preimage_collision t ks else Inr t) = Inr s"
    and v: "VerifySigs ev q1 a b = Inr q2" "q_State q1 = preimage_next s msg"
    and u: "set_clearing True ks ((q_State q2)\<lparr>st_ElkPoint := e, st_InProgHTLC := keep_inprog (st_InProgHTLC t) (st_InProgHTLC (q_State q2))\<rparr>) = Inr u"
    and w: "same_shape u w"
  shows "update t w"
proof -
  have p: "paused t s"
    using c preimage_collision_paused by (auto split: if_splits)
  have n: "same_shape (s\<lparr>st_StateIdx := st_StateIdx s + 1, st_MyAmt := preimage_amt s msg\<rparr>) (q_State q2)"
    using VerifySigs_shape(1) [OF v(1)] preimage_next_shape [of s msg] same_shape_trans unfolding v(2) by blast
  have "same_shape ((q_State q2)\<lparr>st_InProgHTLC := keep_inprog (st_InProgHTLC t) (st_InProgHTLC (q_State q2))\<rparr>) u"
    using set_clearing_shape [OF u] by (simp add: same_shape_def)
  then have "same_shape ((q_State q2)\<lparr>st_InProgHTLC := keep_inprog (st_InProgHTLC t) (st_InProgHTLC (q_State q2))\<rparr>) w"
    using w same_shape_trans by blast
  then show ?thesis
    using i by (intro credited [OF p preimage_credit [OF p] n]) simp_all
qed

end
