(* ===== verification/ChannelSteps.thy ===== *)
theory ChannelSteps
  imports ChannelFlow
begin

text \<open>
  The operations and handlers of \<open>PushPull\<close> and \<open>Htlc\<close>, one by one: each leaves the database one abstract
  \<open>update\<close> away from where it was. Then the steps of a channel and what holds along every run of them.
\<close>

section \<open>Pushing\<close>

lemma keeps_justice:
  assumes "keeps op d nd" "\<And>nd' q' e. keeps op d nd' \<Longrightarrow> keeps op d (fst (f nd' q' e))"
  shows "keeps op d (fst (let (nd, q, err) = BuildJusticeSig ev nd q in f nd q err))"
proof -
  obtain nd' q' e where b: "BuildJusticeSig ev nd q = (nd', q', e)" by (cases "BuildJusticeSig ev nd q")
  show ?thesis
    using assms keeps_cong [OF justice_frame(1) [OF b]] by (simp add: b)
qed

lemma PushChannel_keeps:
  assumes st: "stored nd (q_Op q) d"
  shows "keeps (q_Op q) d (fst (PushChannel ev nd q amt data))"
proof -
  have op: "px_Op (cdt_Txo d) = q_Op q" using st by (simp add: stored_def)
  have k: "keeps (q_Op q) d nd" by (rule keeps_refl [OF st])
  show ?thesis
    unfolding PushChannel_def
    apply (intro keeps_reload keeps_clear follow k)
          apply (simp_all (no_asm_simp) add: st op)
    apply (rule saves_upd, assumption, rule stay, simp (no_asm_simp))
    done
qed

lemma PushChannel_wait_keeps:
  "stored nd (q_Op q) d \<Longrightarrow> keeps (q_Op q) d (fst (PushChannel_wait ev nd q fired))"
  unfolding PushChannel_wait_def by (intro follow) (simp_all add: keeps_refl)

lemma GapSigRev_keeps:
  assumes st: "stored nd (q_Op q) d"
  shows "keeps (q_Op q) d (fst (GapSigRevHandler ev nd msg q))"
proof -
  have op: "px_Op (cdt_Txo d) = q_Op q" using st by (simp add: stored_def)
  have k: "keeps (q_Op q) d nd" by (rule keeps_refl [OF st])
  show ?thesis
    unfolding GapSigRevHandler_def
    apply (intro keeps_reload keeps_justice follow k)
           apply (simp_all (no_asm_simp) add: st op VerifySigs_shape(2) AdvanceElkrem_shape(2))
    apply (rule saves_upd, assumption)
    apply (rule gap_saved, assumption, simp (no_asm_simp) add: same_shape_def own_amt_def, assumption, simp (no_asm_simp) add: same_shape_def)
    apply (rule same_shape_trans [rotated], erule (1) base_shape, simp (no_asm_simp))
    done
qed

lemma SigRev_keeps:
  assumes st: "stored nd (q_Op q) d"
  shows "keeps (q_Op q) d (fst (SigRevHandler ev nd msg q))"
proof -
  have op: "px_Op (cdt_Txo d) = q_Op q" using st by (simp add: stored_def)
  have k: "keeps (q_Op q) d nd" by (rule keeps_refl [OF st])
  show ?thesis
    unfolding SigRevHandler_def
    apply (intro keeps_reload keeps_justice keeps_clear follow k)
             apply (simp_all (no_asm_simp) add: st op VerifySigs_shape(2) AdvanceElkrem_shape(2))
    apply (rule saves_upd, assumption)
    apply (rule sig_rev_saved, assumption, simp (no_asm_simp) add: same_shape_def own_amt_def, assumption, simp (no_asm_simp))
       apply (rule same_shape_trans [rotated], erule (1) base_shape, simp (no_asm_simp))
      apply (assumption, simp (no_asm_simp), assumption, assumption)
    done
qed

lemma sint_bound: "sint (x :: u32) < 2 ^ 31"
  using sint_lt [of x] by simp

lemma DeltaSig_keeps:
  assumes st: "stored nd (q_Op q) d"
  shows "keeps (q_Op q) d (fst (DeltaSigHandler ev nd msg q))"
proof -
  have op: "px_Op (cdt_Txo d) = q_Op q" using st by (simp add: stored_def)
  have k: "keeps (q_Op q) d nd" by (rule keeps_refl [OF st])
  show ?thesis
    unfolding DeltaSigHandler_def
    apply (rule keeps_let keeps_reload)+
     apply (simp add: st)
    apply (intro follow k)
     apply (simp_all (no_asm_simp) add: op q_Txo_if VerifySigs_shape(2))
    apply (rule saves_upd, assumption, simp (no_asm_simp), rule delta_saved)
          apply (assumption, simp (no_asm_simp), assumption, assumption, assumption)
     apply (simp (no_asm_simp) add: sint_bound [simplified])
    apply (simp (no_asm_simp) add: if_distrib [of q_State] same_shape_def)
    done
qed

lemma keeps_clear_htlcs:
  assumes "keeps op d nd"
    "\<And>nd' s' e. keeps op d nd' \<Longrightarrow> same_shape s s' \<Longrightarrow> keeps op d (fst (f nd' s' e))"
  shows "keeps op d (fst (let (nd, s, err) = clear_htlcs ks l nd s in f nd s err))"
proof -
  obtain nd' s' e where c: "clear_htlcs ks l nd s = (nd', s', e)" by (cases "clear_htlcs ks l nd s")
  show ?thesis
    using assms(1) assms(2) [OF _ clear_htlcs_shape [OF c]] keeps_cong [OF clear_htlcs_channels [OF c]] by (simp add: c)
qed

lemma Rev_keeps:
  assumes st: "stored nd (q_Op q) d"
  shows "keeps (q_Op q) d (fst (RevHandler ev nd msg q))"
proof -
  have op: "px_Op (cdt_Txo d) = q_Op q" using st by (simp add: stored_def)
  have k: "keeps (q_Op q) d nd" by (rule keeps_refl [OF st])
  show ?thesis
    unfolding RevHandler_def
    apply (intro keeps_reload keeps_justice keeps_clear keeps_clear_htlcs follow k)
            apply (simp_all (no_asm_simp) add: st op AdvanceElkrem_shape(2))
    apply (rule saves_upd, assumption, rule rev_saved, assumption, simp (no_asm_simp), assumption, assumption)
    apply (simp (no_asm_simp))
    done
qed

section \<open>HTLCs\<close>

lemma SendHashSig_Txo: "SendHashSig ev q = (q', r) \<Longrightarrow> q_Txo q' = q_Txo q"
  by (auto simp: SendHashSig_def Let_def split: sum.splits prod.splits option.splits)

lemma SendPreimageSig_Txo: "SendPreimageSig ev q i = (q', r) \<Longrightarrow> q_Txo q' = q_Txo q"
  by (auto simp: SendPreimageSig_def Let_def split: sum.splits prod.splits if_splits)

lemma OfferHTLC_keeps:
  assumes st: "stored nd (q_Op q) d"
  shows "keeps (q_Op q) d (fst (OfferHTLC ev nd q amt RHash locktime data))"
proof -
  have op: "px_Op (cdt_Txo d) = q_Op q" using st by (simp add: stored_def)
  have k: "keeps (q_Op q) d nd" by (rule keeps_refl [OF st])
  show ?thesis
    unfolding OfferHTLC_def
    apply (intro keeps_reload keeps_clear follow k)
          apply (simp_all (no_asm_simp) add: st op SendHashSig_Txo)
    apply (rule saves_upd, assumption, rule offer_saved)
       apply (assumption, simp_all (no_asm_simp))
    done
qed

lemma ClearHTLC_keeps:
  assumes st: "stored nd (q_Op q) d"
  shows "keeps (q_Op q) d (fst (ClearHTLC ev nd q R idx data))"
proof -
  have op: "px_Op (cdt_Txo d) = q_Op q" using st by (simp add: stored_def)
  have k: "keeps (q_Op q) d nd" by (rule keeps_refl [OF st])
  show ?thesis
    unfolding ClearHTLC_def
    apply (intro keeps_reload keeps_clear follow k)
          apply (simp_all (no_asm_simp) add: st op SendPreimageSig_Txo)
    apply (rule saves_upd, assumption, rule stay)
    apply (simp (no_asm_simp) add: clear_saved)
    done
qed

lemma HashSig_keeps:
  assumes st: "stored nd (q_Op q) d"
  shows "keeps (q_Op q) d (fst (HashSigHandler ev nd msg q))"
proof -
  have op: "px_Op (cdt_Txo d) = q_Op q" using st by (simp add: stored_def)
  have k: "keeps (q_Op q) d nd" by (rule keeps_refl [OF st])
  show ?thesis
    unfolding HashSigHandler_def
    apply (rule keeps_let keeps_reload)+
     apply (simp add: st)
    apply (intro follow k)
       apply (simp_all (no_asm_simp) add: op VerifySigs_shape(2))
     apply (rule saves_upd, assumption, rule received)
      apply (rule hash_received(1), assumption, assumption, assumption, assumption, assumption)
         apply (simp_all (no_asm_simp) add: same_shape_def) [4]
     apply (rule hash_received(2), assumption, assumption, assumption, assumption, assumption)
       apply (simp_all (no_asm_simp) add: same_shape_def) [3]
    apply (rule saves_upd, assumption, rule hash_saved)
        apply (rule hash_received(1), assumption, assumption, assumption, assumption, assumption)
           apply (simp_all (no_asm_simp) add: same_shape_def) [4]
       apply (rule hash_received(2), assumption, assumption, assumption, assumption, assumption)
         apply (simp_all (no_asm_simp) add: same_shape_def) [3]
      apply (assumption, simp (no_asm_simp), simp (no_asm_simp))
    done
qed

lemma preimage_done_keeps:
  assumes "\<not> length (st_HTLCs t) \<le> unat (ps_Idx msg)"
    and "(if c then preimage_collision t ks else Inr t) = Inr s"
    and "VerifySigs ev q1 a b = Inr q2" "q_State q1 = preimage_next s msg" "inp = st_InProgHTLC t"
    and "keeps op d nd" "q_Op q2 = op" "cdt_State d = t"
  shows "keeps op d (fst (preimage_done ev nd q2 e inp ks))"
  unfolding preimage_done_def assms(5)
  apply (intro follow assms(6))
     apply (simp_all (no_asm_simp) add: assms(7))
  apply (rule saves_upd, assumption, unfold assms(8))
  apply (rule preimage_saved [OF assms(1-4)], assumption, rule base_shape [OF refl], assumption)
  done

lemma PreimageSig_keeps:
  assumes st: "stored nd (q_Op q) d"
  shows "keeps (q_Op q) d (fst (fst (PreimageSigHandler ev nd msg q)))"
proof -
  have op: "px_Op (cdt_Txo d) = q_Op q" using st by (simp add: stored_def)
  have k: "keeps (q_Op q) d nd" by (rule keeps_refl [OF st])
  have rl: "ReloadQchanState ev nd (q\<lparr>q_ClearToSend := False\<rparr>) = Inr (chan_of ev d False)"
    using reload_stored [OF stored_tok [OF st]] by simp
  show ?thesis
    by (auto simp: PreimageSigHandler_def rl Let_def op k VerifySigs_shape(2) split: option.split
        intro!: keeps_sum keeps_fail preimage_done_keeps)
qed

lemma on_chain_keeps:
  assumes st: "stored nd (q_Op q) d"
  shows "keeps (q_Op q) d (fst (SetHTLCClearedOnChain ev nd q h))"
proof -
  have op: "px_Op (cdt_Txo d) = q_Op q" using st by (simp add: stored_def)
  have "same_shape s (s\<lparr>st_HTLCs := (st_HTLCs s)[i := (st_HTLCs s ! i)\<lparr>ht_ClearedOnChain := True\<rparr>]\<rparr>)" for s i
    by (auto simp: same_shape_def follows_def ident_def intro!: extends_update)
  then show ?thesis
    using reload_stored [OF st] keeps_refl [OF st]
    by (auto simp: SetHTLCClearedOnChain_def Let_def op intro!: keeps_save stay)
qed

end
