(* ===== verification/ChannelLedger.thy ===== *)
theory ChannelLedger
  imports Htlc ChannelSafety
begin

text \<open>
  Pushes between two honest nodes as an abstract ledger: a run of pushes in either direction, message by
  message through \<open>PushPullHandler\<close>, does to the two stored balances what the ledger does to two numbers.
\<close>

section \<open>Runs of pushes\<close>

text \<open>One push: what the pusher sends is delivered, every answer likewise, until both sides are silent.\<close>

definition push_round ::
  "node_env \<Rightarrow> node_env \<Rightarrow> lit_node \<times> qchan \<Rightarrow> lit_node \<times> qchan \<Rightarrow> u32 \<Rightarrow> bytes \<Rightarrow>
   ((lit_node \<times> qchan) \<times> (lit_node \<times> qchan)) option" where
  "push_round ev ev' x x' amt data =
     (case PushChannel ev (fst x) (snd x) amt data of
        (nd1, q1, [m1], None) \<Rightarrow>
          (case PushPullHandler ev' (fst x') m1 (snd x') of
             ((nd1', q1', [m2], None), r1) \<Rightarrow>
               (case PushPullHandler ev nd1 m2 q1 of
                  ((nd2, q2, [m3], None), r2) \<Rightarrow>
                    (case PushPullHandler ev' nd1' m3 q1' of
                       ((nd2', q2', [], None), r3) \<Rightarrow>
                         (case PushChannel_wait ev nd2 q2 False of
                            (nd3, q3, [], None) \<Rightarrow> Some ((nd3, q3), (nd2', q2'))
                          | _ \<Rightarrow> None)
                     | _ \<Rightarrow> None)
                | _ \<Rightarrow> None)
           | _ \<Rightarrow> None)
      | _ \<Rightarrow> None)"

text \<open>A payment: from the first party or from the second, the amount, and the data attached.\<close>

type_synonym payment = "bool \<times> u32 \<times> bytes"

fun push_rounds ::
  "node_env \<Rightarrow> node_env \<Rightarrow> lit_node \<times> qchan \<Rightarrow> lit_node \<times> qchan \<Rightarrow> payment list \<Rightarrow>
   ((lit_node \<times> qchan) \<times> (lit_node \<times> qchan)) option" where
  "push_rounds ev ev' x x' [] = Some (x, x')"
| "push_rounds ev ev' x x' ((True, amt, data) # ps) =
     (case push_round ev ev' x x' amt data of None \<Rightarrow> None | Some (y, y') \<Rightarrow> push_rounds ev ev' y y' ps)"
| "push_rounds ev ev' x x' ((False, amt, data) # ps) =
     (case push_round ev' ev x' x amt data of None \<Rightarrow> None | Some (y', y) \<Rightarrow> push_rounds ev ev' y y' ps)"

section \<open>The ledger\<close>

text \<open>A payment is in order when the payer keeps the reserve, and the receiver has it after the payment.\<close>

definition pay :: "int \<Rightarrow> u32 \<Rightarrow> int \<times> int \<Rightarrow> (int \<times> int) option" where
  "pay reserve amt b =
     (if 1 \<le> amt \<and> amt < 2 ^ 30 \<and> reserve + uint amt \<le> fst b \<and> reserve \<le> snd b + uint amt
      then Some (fst b - uint amt, snd b + uint amt) else None)"

fun ledger :: "int \<Rightarrow> payment list \<Rightarrow> int \<times> int \<Rightarrow> (int \<times> int) option" where
  "ledger reserve [] b = Some b"
| "ledger reserve ((True, amt, data) # ps) b =
     (case pay reserve amt b of None \<Rightarrow> None | Some b' \<Rightarrow> ledger reserve ps b')"
| "ledger reserve ((False, amt, data) # ps) b =
     (case pay reserve amt (prod.swap b) of None \<Rightarrow> None | Some b' \<Rightarrow> ledger reserve ps (prod.swap b'))"

lemma in_sync_sym: "in_sync ev d ev' d' \<Longrightarrow> in_sync ev' d' ev d"
  by (auto simp: in_sync_def static_mirror_def)

text \<open>What a node needs at the start of a round: the channel in the database, the token, and no failure.\<close>

definition idle :: "lit_node \<times> qchan \<Rightarrow> chan_data \<Rightarrow> bool" where
  "idle x d \<longleftrightarrow> stored (fst x) (q_Op (snd x)) d \<and> q_ClearToSend (snd x) \<and> \<not> st_Failed (q_State (snd x))"

definition balances :: "chan_data \<Rightarrow> chan_data \<Rightarrow> int \<times> int" where
  "balances d d' = (st_MyAmt (cdt_State d), st_MyAmt (cdt_State d'))"

abbreviation reserve :: "chan_data \<Rightarrow> int" where
  "reserve d \<equiv> MinOutput + st_Fee (cdt_State d)"

lemma push_round_pays:
  assumes sy: "in_sync ev d ev' d'" and i: "idle x d" "idle x' d'"
    and p: "pay (reserve d) amt (balances d d') = Some b" and n: "st_StateIdx (cdt_State d) < 2 ^ 47"
  shows "\<exists>y y' e e'. push_round ev ev' x x' amt data = Some (y, y') \<and> idle y e \<and> idle y' e' \<and> in_sync ev e ev' e' \<and>
    st_StateIdx (cdt_State e) = st_StateIdx (cdt_State d) + 1 \<and> st_Fee (cdt_State e) = st_Fee (cdt_State d) \<and>
    q_Op (snd y) = q_Op (snd x) \<and> q_Op (snd y') = q_Op (snd x') \<and> balances e e' = b"
proof -
  have a: "1 \<le> amt" "amt < 2 ^ 30" "reserve d + uint amt \<le> st_MyAmt (cdt_State d)"
    "reserve d \<le> st_MyAmt (cdt_State d') + uint amt"
    "b = (st_MyAmt (cdt_State d) - uint amt, st_MyAmt (cdt_State d') + uint amt)"
    using p by (auto simp: pay_def balances_def split: if_splits)
  obtain m1 m2 m3 nd1 q1 nd1' q1' nd2 q2 nd2' q2' e e' where r:
    "PushChannel ev (fst x) (snd x) amt data = (nd1, q1, [MsgDeltaSig m1], None)"
    "DeltaSigHandler ev' (fst x') m1 (snd x') = (nd1', q1', [MsgSigRev m2], None)"
    "SigRevHandler ev nd1 m2 q1 = (nd2, q2, [MsgRev m3], None)"
    "RevHandler ev' nd1' m3 q1' = (nd2', q2', [], None)"
    "PushChannel_wait ev nd2 q2 False = (nd2, q2, [], None)"
    and f: "q_ClearToSend q2" "q_ClearToSend q2'" "q_Op q2 = q_Op (snd x)" "q_Op q2' = q_Op (snd x')"
    "\<not> st_Failed (q_State q2)" "\<not> st_Failed (q_State q2')"
    "stored nd2 (q_Op (snd x)) e" "stored nd2' (q_Op (snd x')) e'" "in_sync ev e ev' e'"
    "st_StateIdx (cdt_State e) = st_StateIdx (cdt_State d) + 1" "st_Fee (cdt_State e) = st_Fee (cdt_State d)"
    "balances e e' = b"
    using honest_push [OF sy _ _ _ _ _ a(1,2) n a(3,4), of "fst x" "snd x" "fst x'" "snd x'" data] i
    unfolding idle_def balances_def a(5) by (elim conjE) force
  have "push_round ev ev' x x' amt data = Some ((nd2, q2), (nd2', q2'))"
    by (simp add: push_round_def PushPullHandler_def r)
  then show ?thesis
    using f by (intro exI [of _ "(nd2, q2)"] exI [of _ "(nd2', q2')"] exI [of _ e] exI [of _ e']) (simp add: idle_def)
qed

lemma ledger_run:
  assumes "in_sync ev d ev' d'" "idle x d" "idle x' d'"
    and "ledger (reserve d) ps (balances d d') = Some b"
    and "unat (st_StateIdx (cdt_State d)) + length ps \<le> 2 ^ 47"
  shows "\<exists>y y' e e'. push_rounds ev ev' x x' ps = Some (y, y') \<and> idle y e \<and> idle y' e' \<and> in_sync ev e ev' e' \<and>
    st_StateIdx (cdt_State e) = st_StateIdx (cdt_State d) + of_nat (length ps) \<and> balances e e' = b \<and>
    st_Fee (cdt_State e) = st_Fee (cdt_State d) \<and> q_Op (snd y) = q_Op (snd x) \<and> q_Op (snd y') = q_Op (snd x')"
  using assms
proof (induction ps arbitrary: d d' x x')
  case Nil
  then show ?case by auto
next
  case (Cons p ps)
  obtain mine amt data where p: "p = (mine, amt, data)" by (cases p)
  let ?n = "st_StateIdx (cdt_State d)"
  have u: "unat ?n < 2 ^ 47" using Cons.prems(5) by simp
  then have n: "?n < 2 ^ 47" by (simp add: word_less_nat_alt)
  have n1: "unat (?n + 1) = unat ?n + 1"
    using u by (simp add: unat_word_ariths)
  have same: "st_StateIdx (cdt_State d') = ?n" "reserve d' = reserve d"
    using Cons.prems(1) by (simp_all add: in_sync_def)
  have "\<exists>y y' e e' b'. (if mine then push_round ev ev' x x' amt data = Some (y, y')
      else push_round ev' ev x' x amt data = Some (y', y)) \<and> idle y e \<and> idle y' e' \<and> in_sync ev e ev' e' \<and>
    st_StateIdx (cdt_State e) = ?n + 1 \<and> reserve e = reserve d \<and>
    ledger (reserve d) ps (balances e e') = Some b \<and> q_Op (snd y) = q_Op (snd x) \<and> q_Op (snd y') = q_Op (snd x')"
  proof (cases mine)
    case True
    then obtain b' where b: "pay (reserve d) amt (balances d d') = Some b'" "ledger (reserve d) ps b' = Some b"
      using Cons.prems(4) p by (auto split: option.splits)
    show ?thesis
      using push_round_pays [OF Cons.prems(1-3) b(1) n] b(2) True by fastforce
  next
    case False
    then obtain b' where b: "pay (reserve d') amt (balances d' d) = Some b'" "ledger (reserve d) ps (prod.swap b') = Some b"
      using Cons.prems(4) p same(2) by (auto simp: balances_def split: option.splits)
    have n': "st_StateIdx (cdt_State d') < 2 ^ 47" using n same(1) by simp
    obtain y' y e' e where r: "push_round ev' ev x' x amt data = Some (y', y)" "idle y' e'" "idle y e"
      "in_sync ev' e' ev e" "st_StateIdx (cdt_State e') = st_StateIdx (cdt_State d') + 1"
      "st_Fee (cdt_State e') = st_Fee (cdt_State d')" "balances e' e = b'"
      "q_Op (snd y') = q_Op (snd x')" "q_Op (snd y) = q_Op (snd x)"
      using push_round_pays [OF in_sync_sym [OF Cons.prems(1)] Cons.prems(3,2) b(1) n', of data] by blast
    have "st_StateIdx (cdt_State e) = ?n + 1" "reserve e = reserve d" "balances e e' = prod.swap b'"
      using r(4-7) same by (auto simp: in_sync_def balances_def)
    then show ?thesis
      using r in_sync_sym [OF r(4)] b(2) False by (intro exI [of _ y] exI [of _ y'] exI [of _ e] exI [of _ e']) simp
  qed
  then obtain y y' e e' where s: "if mine then push_round ev ev' x x' amt data = Some (y, y')
      else push_round ev' ev x' x amt data = Some (y', y)" "idle y e" "idle y' e'" "in_sync ev e ev' e'"
    "st_StateIdx (cdt_State e) = ?n + 1" "reserve e = reserve d" "ledger (reserve e) ps (balances e e') = Some b"
    "q_Op (snd y) = q_Op (snd x)" "q_Op (snd y') = q_Op (snd x')"
    by auto
  have len: "unat (st_StateIdx (cdt_State e)) + length ps \<le> 2 ^ 47"
    using Cons.prems(5) n1 s(5) by simp
  have "push_rounds ev ev' x x' (p # ps) = push_rounds ev ev' y y' ps"
    using s(1) p by (cases mine) simp_all
  then show ?case
    using Cons.IH [OF s(4,2,3,7) len] s(5,6,8,9) by (simp add: ac_simps)
qed

text \<open>C2: Runs of pushes refine the ledger. From two channels in step, any list of payments in either
  direction that the ledger accepts is carried out, payment by payment and without an error, and ends with two
  channels in step whose balances are the ledger's and whose state number has gone up by the number of
  payments.\<close>

theorem pushes_refine_ledger:
  assumes "in_sync ev d ev' d'" "idle x d" "idle x' d'"
    and "ledger (reserve d) ps (balances d d') = Some b"
    and "unat (st_StateIdx (cdt_State d)) + length ps \<le> 2 ^ 47"
  shows "\<exists>y y' e e'. push_rounds ev ev' x x' ps = Some (y, y') \<and> idle y e \<and> idle y' e' \<and> in_sync ev e ev' e' \<and>
    st_StateIdx (cdt_State e) = st_StateIdx (cdt_State d) + of_nat (length ps) \<and> balances e e' = b"
  using ledger_run [OF assms] by blast

theorem pushes_refine_ledger_witness:
  "\<exists>y y' e e'. push_rounds (toy_env 1) (toy_env 2) (toy_db 1 2 600000, toy_chan 1 2 3 600000 1000 [])
       (toy_db 2 1 400000, toy_chan 2 1 3 400000 1000 []) [(True, 50000, []), (False, 20000, [])] = Some (y, y') \<and>
     idle y e \<and> idle y' e' \<and> balances e e' = (570000, 430000)"
proof -
  have f: "q_ClearToSend (toy_chan x y 3 b 1000 [])" "\<not> st_Failed (q_State (toy_chan x y 3 b 1000 []))"
    "st_MyAmt (cdt_State (toy_data x y b)) = b" "st_Fee (cdt_State (toy_data x y b)) = 1000"
    "st_StateIdx (cdt_State (toy_data x y b)) = 3" for x y b
    by (simp_all add: toy_data_def NewChanDataFromQchan_def toy_chan_def)
  have a: "(0 :: int) \<le> 600000" "(600000 :: int) \<le> 1000000" by simp_all
  note sync = toy_sync [OF a, simplified]
  have i: "idle (toy_db 1 2 600000, toy_chan 1 2 3 600000 1000 []) (toy_data 1 2 600000)"
    "idle (toy_db 2 1 400000, toy_chan 2 1 3 400000 1000 []) (toy_data 2 1 400000)"
    using sync(2,3) by (simp_all add: idle_def f)
  have "ledger (reserve (toy_data 1 2 600000)) [(True, 50000, []), (False, 20000, [])]
      (balances (toy_data 1 2 600000) (toy_data 2 1 400000)) = Some (570000, 430000)"
    by (simp add: pay_def balances_def f MinOutput_def)
  from pushes_refine_ledger [OF sync(1) i this] show ?thesis
    by (simp add: f) blast
qed

end
