(* ===== verification/ChannelRuns.thy ===== *)
theory ChannelRuns
  imports ChannelSteps ChannelLedger
begin

text \<open>
  The steps of the push and HTLC protocol on one channel of a node, with any message that protocol handles, any
  environment and any copy of the channel in memory, and what holds along every run of them: an interpretation of the
  refinement of \<open>ChannelSteps\<close>. The messages that fund a channel are no steps here: a \<open>ChanDesc\<close> with the outpoint of an
  open channel replaces it (\<open>chan_desc_overwrites\<close> in \<open>FundRun\<close>), and a \<open>ChanAck\<close> replaces its elkrem points
  (\<open>chan_ack_replaces_points\<close>). Neither are the closing and breaking of a channel.
\<close>

section \<open>Steps\<close>

inductive db_step :: "outpoint \<Rightarrow> lit_node \<Rightarrow> lit_node \<Rightarrow> bool" for op where
  push: "q_Op q = op \<Longrightarrow> PushChannel ev nd q amt data = (nd', q', out) \<Longrightarrow> db_step op nd nd'"
| push_wait: "q_Op q = op \<Longrightarrow> PushChannel_wait ev nd q fired = (nd', q', out) \<Longrightarrow> db_step op nd nd'"
| offer: "q_Op q = op \<Longrightarrow> OfferHTLC ev nd q amt RHash locktime data = (nd', q', out) \<Longrightarrow> db_step op nd nd'"
| offer_wait: "q_Op q = op \<Longrightarrow> OfferHTLC_wait ev nd q fired = (nd', q', out) \<Longrightarrow> db_step op nd nd'"
| clear: "q_Op q = op \<Longrightarrow> ClearHTLC ev nd q R idx data = (nd', q', out) \<Longrightarrow> db_step op nd nd'"
| clear_wait: "q_Op q = op \<Longrightarrow> ClearHTLC_wait ev nd q fired = (nd', q', out) \<Longrightarrow> db_step op nd nd'"
| message: "q_Op q = op \<Longrightarrow> PushPullHandler ev nd msg q = ((nd', q', out), preimages) \<Longrightarrow> db_step op nd nd'"
| on_chain: "q_Op q = op \<Longrightarrow> SetHTLCClearedOnChain ev nd q h = (nd', q', err) \<Longrightarrow> db_step op nd nd'"

lemma OfferHTLC_wait_keeps:
  "stored nd (q_Op q) d \<Longrightarrow> keeps (q_Op q) d (fst (OfferHTLC_wait ev nd q fired))"
  unfolding OfferHTLC_wait_def by (intro follow) (simp_all add: keeps_refl)

lemma ClearHTLC_wait_keeps:
  "stored nd (q_Op q) d \<Longrightarrow> keeps (q_Op q) d (fst (ClearHTLC_wait ev nd q fired))"
  unfolding ClearHTLC_wait_def by (intro follow) (simp_all add: keeps_refl)

lemma PushPullHandler_keeps:
  "stored nd (q_Op q) d \<Longrightarrow> keeps (q_Op q) d (fst (fst (PushPullHandler ev nd msg q)))"
  by (simp add: PushPullHandler_def DeltaSig_keeps SigRev_keeps GapSigRev_keeps Rev_keeps HashSig_keeps
      PreimageSig_keeps keeps_refl split: lit_msg.split)

lemma db_step_keeps:
  assumes "db_step op nd nd'" "stored nd op d"
  shows "keeps op d nd'"
  using assms
proof (cases rule: db_step.cases)
  case (push q ev amt data q' out)
  then show ?thesis using PushChannel_keeps [of nd q d ev amt data] assms(2) by simp
next
  case (push_wait q ev fired q' out)
  then show ?thesis using PushChannel_wait_keeps [of nd q d ev fired] assms(2) by simp
next
  case (offer q ev amt RHash locktime data q' out)
  then show ?thesis using OfferHTLC_keeps [of nd q d ev amt RHash locktime data] assms(2) by simp
next
  case (offer_wait q ev fired q' out)
  then show ?thesis using OfferHTLC_wait_keeps [of nd q d ev fired] assms(2) by simp
next
  case (clear q ev R idx data q' out)
  then show ?thesis using ClearHTLC_keeps [of nd q d ev R idx data] assms(2) by simp
next
  case (clear_wait q ev fired q' out)
  then show ?thesis using ClearHTLC_wait_keeps [of nd q d ev fired] assms(2) by simp
next
  case (message q ev msg q' out preimages)
  then show ?thesis using PushPullHandler_keeps [of nd q d ev msg] assms(2) by simp
next
  case (on_chain q ev h q' err)
  then show ?thesis using on_chain_keeps [of nd q d ev h] assms(2) by simp
qed

section \<open>The interface of a stored channel\<close>

text \<open>
  What a client of the database may rely on: the channel is there with its fixed data, and every step makes
  one update of its state. Anything an update preserves holds along every run, and what an update lets grow
  only grows.
\<close>

locale channel_store =
  fixes here :: "'n \<Rightarrow> 's \<Rightarrow> bool" and step :: "'n \<Rightarrow> 'n \<Rightarrow> bool" and upd :: "'s \<Rightarrow> 's \<Rightarrow> bool"
  assumes step_upd: "here n s \<Longrightarrow> step n n' \<Longrightarrow> \<exists>s'. here n' s' \<and> upd s s'"
begin

lemma runs_upd: "here n s \<Longrightarrow> (step ^^ k) n n' \<Longrightarrow> \<exists>s'. here n' s' \<and> (upd ^^ k) s s'"
proof (induction k arbitrary: n')
  case (Suc k)
  then obtain n1 where n1: "(step ^^ k) n n1" "step n1 n'" by auto
  with Suc obtain s1 where "here n1 s1" "(upd ^^ k) s s1" by blast
  with step_upd n1(2) show ?case by (metis relpowp_Suc_I)
qed auto

lemma runs_inv:
  assumes "here n s" "step\<^sup>*\<^sup>* n n'" "P s" "\<And>s s'. upd s s' \<Longrightarrow> P s \<Longrightarrow> P s'"
  shows "\<exists>s'. here n' s' \<and> P s'"
proof -
  obtain k where "(step ^^ k) n n'" using assms(2) rtranclp_imp_relpowp by metis
  then obtain s' where s': "here n' s'" "(upd ^^ k) s s'" using runs_upd assms(1) by blast
  have "(upd ^^ k) s s' \<Longrightarrow> P s'" for k s'
    using assms(3,4) by (induction k arbitrary: s') auto
  with s' show ?thesis by blast
qed

end

interpretation ch: channel_store
  "\<lambda>nd s. stored nd op (d\<lparr>cdt_State := s\<rparr>)" "db_step op" update for op d
proof (unfold_locales)
  fix nd nd' s
  assume "stored nd op (d\<lparr>cdt_State := s\<rparr>)" "db_step op nd nd'"
  then have "keeps op (d\<lparr>cdt_State := s\<rparr>) nd'" using db_step_keeps by blast
  then show "\<exists>s'. stored nd' op (d\<lparr>cdt_State := s'\<rparr>) \<and> update s s'" by (auto simp: keeps_def)
qed

section \<open>Marking by stored index\<close>

text \<open>The handlers choose the HTLCs to mark by the index stored in them.\<close>

lemma set_clearing_at:
  assumes "\<forall>i \<in> set is. unat i < length (st_HTLCs s)"
  shows "set_clearing b is s = Inr (s\<lparr>st_HTLCs :=
    map (\<lambda>k. if k \<in> unat ` set is then (st_HTLCs s ! k)\<lparr>ht_Clearing := b\<rparr> else st_HTLCs s ! k) [0..<length (st_HTLCs s)]\<rparr>)"
  using assms
proof (induction "is" arbitrary: s)
  case Nil
  then show ?case by (simp add: set_clearing_def map_nth)
next
  case (Cons i xs)
  let ?hs = "(st_HTLCs s)[unat i := (st_HTLCs s ! unat i)\<lparr>ht_Clearing := b\<rparr>]"
  have i: "unat i < length (st_HTLCs s)" using Cons.prems by simp
  have "set_clearing b (i # xs) s = set_clearing b xs (s\<lparr>st_HTLCs := ?hs\<rparr>)"
    using i by (simp add: set_clearing_def bind_res_def)
  also have "\<dots> = Inr (s\<lparr>st_HTLCs := map (\<lambda>k. if k \<in> unat ` set xs then (?hs ! k)\<lparr>ht_Clearing := b\<rparr> else ?hs ! k)
      [0..<length (st_HTLCs s)]\<rparr>)"
    using Cons.IH [of "s\<lparr>st_HTLCs := ?hs\<rparr>"] Cons.prems by simp
  also have "map (\<lambda>k. if k \<in> unat ` set xs then (?hs ! k)\<lparr>ht_Clearing := b\<rparr> else ?hs ! k) [0..<length (st_HTLCs s)] =
      map (\<lambda>k. if k \<in> unat ` set (i # xs) then (st_HTLCs s ! k)\<lparr>ht_Clearing := b\<rparr> else st_HTLCs s ! k)
      [0..<length (st_HTLCs s)]"
    by (rule map_cong [OF refl]) (use i in \<open>auto simp: nth_list_update\<close>)
  finally show ?case .
qed

lemma indexed_unat:
  assumes "indexed s" "h \<in> set (st_HTLCs s)"
  shows "unat (ht_Idx h) < length (st_HTLCs s)"
proof -
  obtain i where i: "i < length (st_HTLCs s)" "h = st_HTLCs s ! i" using assms(2) by (metis in_set_conv_nth)
  then have "ht_Idx h = of_nat i" using assms(1) by (simp add: indexed_def)
  then have "unat (ht_Idx h) \<le> i" by (simp add: unat_of_nat)
  then show ?thesis using i(1) by simp
qed

text \<open>Marking HTLCs by the index stored in them, as all three signature handlers do before and after the
  verification, marks exactly the chosen ones, in a channel whose list is indexed and has at most 2^32 entries.\<close>

theorem set_clearing_exact:
  assumes ix: "indexed s" and len: "length (st_HTLCs s) \<le> 2 ^ 32"
  shows "set_clearing b (map ht_Idx (filter P (st_HTLCs s))) s =
    Inr (s\<lparr>st_HTLCs := map (\<lambda>h. if P h then h\<lparr>ht_Clearing := b\<rparr> else h) (st_HTLCs s)\<rparr>)"
proof -
  let ?hs = "st_HTLCs s"
  have u: "unat (ht_Idx (?hs ! k)) = k" if "k < length ?hs" for k
    using that ix len by (simp add: indexed_def unat_of_nat)
  have sel: "k \<in> unat ` set (map ht_Idx (filter P ?hs)) \<longleftrightarrow> P (?hs ! k)" if k: "k < length ?hs" for k
  proof
    assume "k \<in> unat ` set (map ht_Idx (filter P ?hs))"
    then obtain j where "j < length ?hs" "P (?hs ! j)" "k = unat (ht_Idx (?hs ! j))"
      by (auto simp: in_set_conv_nth)
    then show "P (?hs ! k)" using u by metis
  next
    assume "P (?hs ! k)"
    then have "?hs ! k \<in> set (filter P ?hs)" using k by simp
    then show "k \<in> unat ` set (map ht_Idx (filter P ?hs))"
      unfolding set_map image_image using u [OF k] by (intro image_eqI [of _ _ "?hs ! k"]) simp_all
  qed
  have "\<forall>i \<in> set (map ht_Idx (filter P ?hs)). unat i < length ?hs"
    using indexed_unat [OF ix] by simp
  then have "set_clearing b (map ht_Idx (filter P ?hs)) s = Inr (s\<lparr>st_HTLCs :=
      map (\<lambda>k. if k \<in> unat ` set (map ht_Idx (filter P ?hs)) then (?hs ! k)\<lparr>ht_Clearing := b\<rparr> else ?hs ! k) [0..<length ?hs]\<rparr>)"
    by (rule set_clearing_at)
  also have "map (\<lambda>k. if k \<in> unat ` set (map ht_Idx (filter P ?hs)) then (?hs ! k)\<lparr>ht_Clearing := b\<rparr> else ?hs ! k) [0..<length ?hs]
      = map (\<lambda>h. if P h then h\<lparr>ht_Clearing := b\<rparr> else h) ?hs"
    by (rule nth_equalityI) (use sel in auto)
  finally show ?thesis .
qed

section \<open>Properties of runs\<close>

text \<open>C6: Refinement of the abstract updates. A step of the push and HTLC protocol (\<open>db_step\<close>: a push, an HTLC offered or
  cleared, the waiting of these, a message \<open>PushPullHandler\<close> dispatches, an HTLC marked as cleared on chain), with
  whatever arguments, message, environment and copy of the channel in memory, leaves in the database a channel that is one
  abstract update away from what it held, and only its state has changed. The funding messages, close and break are not
  among these steps.\<close>

theorem step_refines_update:
  assumes "stored nd op d" "db_step op nd nd'"
  shows "\<exists>s. stored nd' op (d\<lparr>cdt_State := s\<rparr>) \<and> update (cdt_State d) s"
  using ch.step_upd [where op = op and d = d and n = nd and s = "cdt_State d"] assms by simp

text \<open>C8: Index invariant. In every state a run of steps reaches from an indexed one, each HTLC has its position
  as its index, the next index is the length of the list, pending HTLCs have the next two, and so marking HTLCs by
  their index never panics.\<close>

theorem runs_stay_indexed:
  assumes "stored nd op d" "indexed (cdt_State d)" "(db_step op)\<^sup>*\<^sup>* nd nd'"
  shows "\<exists>s. stored nd' op (d\<lparr>cdt_State := s\<rparr>) \<and> indexed s \<and>
    (\<forall>b P. set_clearing b (map ht_Idx (filter P (st_HTLCs s))) s \<noteq> Inl Panic)"
proof -
  have "\<exists>s. stored nd' op (d\<lparr>cdt_State := s\<rparr>) \<and> indexed s"
  proof (rule ch.runs_inv [where P = indexed])
    show "stored nd op (d\<lparr>cdt_State := cdt_State d\<rparr>)" using assms(1) by simp
    show "indexed s'" if "update s s'" "indexed s" for s s'
      using adv_update [OF that(1)] that(2) by (simp add: adv_def)
  qed (fact assms(3), fact assms(2))
  moreover have "set_clearing b (map ht_Idx (filter P (st_HTLCs s))) s \<noteq> Inl Panic" if "indexed s" for b P s
    using set_clearing_at [of "map ht_Idx (filter P (st_HTLCs s))" s b] indexed_unat [OF that] by simp
  ultimately show ?thesis by blast
qed

lemma adv_runs:
  "(update ^^ n) s s' \<Longrightarrow> (\<exists>k \<le> n. st_StateIdx s' = st_StateIdx s + of_nat k) \<and>
     (st_Failed s \<longrightarrow> st_Failed s') \<and> extends (st_HTLCs s) (st_HTLCs s')"
proof (induction n arbitrary: s')
  case (Suc n)
  then obtain u where u: "(update ^^ n) s u" "update u s'" by auto
  obtain k where k: "k \<le> n" "st_StateIdx u = st_StateIdx s + of_nat k" using Suc.IH [OF u(1)] by blast
  note a = adv_update [OF u(2), unfolded adv_def]
  have "\<exists>k \<le> Suc n. st_StateIdx s' = st_StateIdx s + of_nat k"
  proof (cases "st_StateIdx s' = st_StateIdx u")
    case True
    then show ?thesis using k by (intro exI [of _ k]) simp
  next
    case False
    then have "st_StateIdx s' = st_StateIdx u + 1" using a by blast
    then show ?thesis using k by (intro exI [of _ "Suc k"]) (simp add: ac_simps)
  qed
  then show ?case using Suc.IH [OF u(1)] a extends_trans by blast
qed (simp add: exI [of _ 0])

text \<open>C35: Nothing is taken back. Along n steps the state number goes up by at most n, a failed channel stays
  failed, and no HTLC disappears, moves, changes its amount, hash, locktime or direction, or loses a mark that it
  was cleared.\<close>

theorem runs_only_extend:
  assumes "stored nd op d" "(db_step op ^^ n) nd nd'"
  shows "\<exists>s. stored nd' op (d\<lparr>cdt_State := s\<rparr>) \<and> (\<exists>k \<le> n. st_StateIdx s = st_StateIdx (cdt_State d) + of_nat k) \<and>
    (st_Failed (cdt_State d) \<longrightarrow> st_Failed s) \<and> extends (st_HTLCs (cdt_State d)) (st_HTLCs s)"
  using ch.runs_upd [where op = op and d = d and n = nd and s = "cdt_State d"] assms adv_runs by fastforce

section \<open>The balance\<close>

lemma update_amt: "update t u \<Longrightarrow> st_MyAmt u = st_MyAmt t \<or> credit_amt t (st_MyAmt u) \<or> st_MyAmt u = own_amt t"
proof (induction rule: update.induct)
  case (own_listed t s u)
  have "st_MyAmt (append_inprog s) = st_MyAmt s" by (simp add: append_inprog_def split: option.split)
  then show ?case using own_listed by (simp add: same_shape_def)
next
  case (finished t s u)
  have "st_MyAmt (append_colliding (append_inprog s)) = st_MyAmt s"
    by (simp add: append_inprog_def append_colliding_def split: option.split)
  then show ?case using finished by (simp add: same_shape_def)
qed (simp_all add: same_shape_def paused_def two_placed_def)

text \<open>Amounts that cannot overflow.\<close>

definition sound_amts :: "stat_com \<Rightarrow> bool" where
  "sound_amts s \<longleftrightarrow> 0 \<le> st_MyAmt s \<and> (\<forall>h \<in> set (st_HTLCs s). 0 \<le> ht_Amt h) \<and>
     st_MyAmt s + \<bar>st_Delta s\<bar> + sum_list (map ht_Amt (st_HTLCs s)) < 2 ^ 62"

definition nothing_offered :: "stat_com \<Rightarrow> bool" where
  "nothing_offered s \<longleftrightarrow> 0 \<le> st_Delta s \<and> (\<forall>h. st_InProgHTLC s = Some h \<or> st_CollidingHTLC s = Some h \<longrightarrow> ht_Incoming h)"

lemma credit_fold:
  assumes "0 \<le> a" "\<forall>h \<in> set hs. 0 \<le> ht_Amt h" "a + sum_list (map ht_Amt hs) < 2 ^ 63"
  shows "a \<le> fold (\<lambda>h a. if credit_htlc h then i64 (a + ht_Amt h) else a) hs a"
  using assms
proof (induction hs arbitrary: a)
  case (Cons h hs)
  have s: "0 \<le> sum_list (map ht_Amt hs)" using Cons.prems(2) by (auto intro!: sum_list_nonneg)
  have h: "0 \<le> ht_Amt h" using Cons.prems(2) by simp
  have i: "i64 (a + ht_Amt h) = a + ht_Amt h"
    using Cons.prems(1,3) s h by (intro i64_id) simp_all
  show ?case
  proof (cases "credit_htlc h")
    case True
    have "a + ht_Amt h \<le> fold (\<lambda>h a. if credit_htlc h then i64 (a + ht_Amt h) else a) hs (a + ht_Amt h)"
      using Cons.prems h by (intro Cons.IH) simp_all
    with True i h show ?thesis by simp
  next
    case False
    with Cons.IH [of a] Cons.prems h show ?thesis by simp
  qed
qed simp

lemma own_amt_grows:
  assumes so: "sound_amts s" and no: "nothing_offered s"
  shows "st_MyAmt s \<le> own_amt s"
proof -
  let ?a = "st_MyAmt s + st_Delta s"
  have a: "0 \<le> st_MyAmt s" "0 \<le> st_Delta s" "\<forall>h \<in> set (st_HTLCs s). 0 \<le> ht_Amt h"
    "?a + sum_list (map ht_Amt (st_HTLCs s)) < 2 ^ 62"
    using so no by (auto simp: sound_amts_def nothing_offered_def)
  have "0 \<le> sum_list (map ht_Amt (st_HTLCs s))" using a(3) by (auto intro!: sum_list_nonneg)
  then have "i64 ?a = ?a" using a by (intro i64_id) simp_all
  moreover have "own_amt s = fold (\<lambda>h a. if credit_htlc h then i64 (a + ht_Amt h) else a) (st_HTLCs s) (i64 ?a)"
    using no by (simp add: own_amt_def pending_amt_def Let_def nothing_offered_def split: option.split)
  moreover have "?a \<le> fold (\<lambda>h a. if credit_htlc h then i64 (a + ht_Amt h) else a) (st_HTLCs s) ?a"
    using a by (intro credit_fold) simp_all
  ultimately show ?thesis using a(2) by simp
qed

lemma credit_grows:
  assumes so: "sound_amts s" and c: "credit_amt s m"
  shows "st_MyAmt s \<le> m"
proof -
  have s: "0 \<le> st_MyAmt s" "\<forall>h \<in> set (st_HTLCs s). 0 \<le> ht_Amt h"
    "st_MyAmt s + sum_list (map ht_Amt (st_HTLCs s)) < 2 ^ 62"
    using so abs_ge_zero [of "st_Delta s"] unfolding sound_amts_def by linarith+
  have n: "0 \<le> sum_list (map ht_Amt (st_HTLCs s))" using s(2) by (auto intro!: sum_list_nonneg)
  have le: "ht_Amt h \<le> sum_list (map ht_Amt (st_HTLCs s))" if "h \<in> set (st_HTLCs s)" for h
    using that s(2) by (intro member_le_sum_list) auto
  have "st_MyAmt s \<le> i64 (st_MyAmt s + x)" if "0 \<le> x" "st_MyAmt s + x < 2 ^ 63" for x
    using that s(1) i64_id [of "st_MyAmt s + x"] by simp
  moreover have "0 \<le> x \<and> st_MyAmt s + x < 2 ^ 63"
    if "1 \<le> x \<and> x < 2 ^ 31 \<or> (\<exists>h \<in> set (st_HTLCs s). x = ht_Amt h)" for x
    using that le s n by fastforce
  ultimately show ?thesis using c unfolding credit_amt_def by blast
qed

text \<open>C18: No step of the push and HTLC protocol (\<open>db_step\<close>) lowers the stored balance of a channel in which this node has
  nothing pending: whatever message of that protocol the other party sends, without a push of this node under way and
  without an HTLC it has offered, the balance stays or grows, as long as the amounts are within the 64-bit range. The
  funding messages are excluded: a channel description with the outpoint of the channel replaces it, balance included.\<close>

theorem balance_lowered_only_by_own_offers:
  assumes "stored nd op d" "db_step op nd nd'" and "sound_amts (cdt_State d)" "nothing_offered (cdt_State d)"
  shows "\<exists>s. stored nd' op (d\<lparr>cdt_State := s\<rparr>) \<and> st_MyAmt (cdt_State d) \<le> st_MyAmt s"
proof -
  obtain s where s: "stored nd' op (d\<lparr>cdt_State := s\<rparr>)" "update (cdt_State d) s"
    using ch.step_upd [where op = op and d = d and n = nd and s = "cdt_State d"] assms(1,2) by fastforce
  then have "st_MyAmt (cdt_State d) \<le> st_MyAmt s"
    using update_amt [OF s(2)] own_amt_grows [OF assms(3,4)] credit_grows [OF assms(3)] by force
  with s(1) show ?thesis by blast
qed

section \<open>A concrete run\<close>

definition toy_op :: outpoint where "toy_op = \<lparr>op_Hash = replicate 32 7, op_Index = 0\<rparr>"

lemma toy_facts:
  "q_ClearToSend (toy_chan x y 3 b 1000 [])" "\<not> st_Failed (q_State (toy_chan x y 3 b 1000 []))"
  "st_MyAmt (cdt_State (toy_data x y b)) = b" "st_Fee (cdt_State (toy_data x y b)) = 1000"
  "st_StateIdx (cdt_State (toy_data x y b)) = 3" "q_Op (toy_chan x y 3 b 1000 []) = toy_op"
  by (simp_all add: toy_data_def NewChanDataFromQchan_def toy_chan_def toy_op_def)

text \<open>A push that is started changes the database.\<close>

lemma toy_run:
  obtains nd' where "db_step toy_op (toy_db 1 2 600000) nd'" "stored (toy_db 1 2 600000) toy_op (toy_data 1 2 600000)"
proof -
  have a: "(0 :: int) \<le> 600000" "(600000 :: int) \<le> 1000000" by simp_all
  note sync = toy_sync [OF a]
  obtain m1 nd1 q1 where r: "PushChannel (toy_env 1) (toy_db 1 2 600000) (toy_chan 1 2 3 600000 1000 []) 50000 (replicate 32 5) =
     (nd1, q1, [MsgDeltaSig m1], None)"
    using honest_push [OF sync toy_facts(1,2,1), of 50000 "replicate 32 5"]
    by (simp add: toy_facts MinOutput_def) blast
  have st: "stored (toy_db 1 2 600000) toy_op (toy_data 1 2 600000)" using sync(2) by (simp add: toy_facts)
  show thesis by (rule that [OF db_step.push [OF toy_facts(6) r] st])
qed

lemma toy_indexed: "indexed (cdt_State (toy_data 1 2 600000))"
  by (simp add: indexed_def toy_data_def NewChanDataFromQchan_def toy_chan_def)

theorem set_clearing_exact_witness:
  "\<exists>s. st_HTLCs s = [toy_htlc 2 1 False 600 True, (toy_htlc 2 1 True 600 False)\<lparr>ht_Idx := 1, ht_Clearing := True\<rparr>] \<and>
     set_clearing True [1] ((cdt_State (toy_data 1 2 600000))\<lparr>st_HTLCs :=
       [toy_htlc 2 1 False 600 True, (toy_htlc 2 1 True 600 False)\<lparr>ht_Idx := 1\<rparr>], st_HTLCIdx := 2\<rparr>) = Inr s"
proof -
  let ?s = "(cdt_State (toy_data 1 2 600000))\<lparr>st_HTLCs :=
       [toy_htlc 2 1 False 600 True, (toy_htlc 2 1 True 600 False)\<lparr>ht_Idx := 1\<rparr>], st_HTLCIdx := 2\<rparr>"
  have "indexed ?s"
    by (simp add: indexed_def toy_data_def NewChanDataFromQchan_def toy_chan_def toy_htlc_def nth_Cons split: nat.split)
  from set_clearing_exact [OF this, of True ht_Incoming] show ?thesis
    by (simp add: toy_htlc_def)
qed

theorem step_refines_update_witness:
  "\<exists>nd' s. db_step toy_op (toy_db 1 2 600000) nd' \<and>
     stored nd' toy_op ((toy_data 1 2 600000)\<lparr>cdt_State := s\<rparr>) \<and> update (cdt_State (toy_data 1 2 600000)) s"
proof -
  obtain nd' where "db_step toy_op (toy_db 1 2 600000) nd'" "stored (toy_db 1 2 600000) toy_op (toy_data 1 2 600000)"
    by (rule toy_run)
  then show ?thesis using step_refines_update by blast
qed

theorem runs_stay_indexed_witness:
  "\<exists>nd' s. db_step toy_op (toy_db 1 2 600000) nd' \<and>
     stored nd' toy_op ((toy_data 1 2 600000)\<lparr>cdt_State := s\<rparr>) \<and> indexed s"
proof -
  obtain nd' where r: "db_step toy_op (toy_db 1 2 600000) nd'" "stored (toy_db 1 2 600000) toy_op (toy_data 1 2 600000)"
    by (rule toy_run)
  show ?thesis using runs_stay_indexed [OF r(2) toy_indexed r_into_rtranclp [of "db_step toy_op", OF r(1)]] r(1) by blast
qed

theorem runs_only_extend_witness:
  "\<exists>nd' s. db_step toy_op (toy_db 1 2 600000) nd' \<and> stored nd' toy_op ((toy_data 1 2 600000)\<lparr>cdt_State := s\<rparr>) \<and>
     (\<exists>k \<le> 1. st_StateIdx s = 3 + of_nat k)"
proof -
  obtain nd' where r: "db_step toy_op (toy_db 1 2 600000) nd'" "stored (toy_db 1 2 600000) toy_op (toy_data 1 2 600000)"
    by (rule toy_run)
  have "(db_step toy_op ^^ 1) (toy_db 1 2 600000) nd'" using r(1) by (simp only: relpowp_1)
  from runs_only_extend [OF r(2) this] show ?thesis using r(1) by (auto simp: toy_facts)
qed

theorem balance_lowered_only_by_own_offers_witness:
  "\<exists>nd' s. db_step toy_op (toy_db 1 2 600000) nd' \<and> stored nd' toy_op ((toy_data 1 2 600000)\<lparr>cdt_State := s\<rparr>) \<and>
     600000 \<le> st_MyAmt s"
proof -
  obtain nd' where r: "db_step toy_op (toy_db 1 2 600000) nd'" "stored (toy_db 1 2 600000) toy_op (toy_data 1 2 600000)"
    by (rule toy_run)
  have "sound_amts (cdt_State (toy_data 1 2 600000))" "nothing_offered (cdt_State (toy_data 1 2 600000))"
    by (simp_all add: sound_amts_def nothing_offered_def toy_data_def NewChanDataFromQchan_def toy_chan_def)
  from balance_lowered_only_by_own_offers [OF r(2,1) this] show ?thesis using r(1) by (auto simp: toy_facts)
qed

end
