(* ===== verification/Fund.thy ===== *)
theory Fund
  imports PushRun "HOL-Library.AList"
begin

text \<open>
  Opening a channel: the five messages of \<open>qln/fund.go\<close> with the funding in progress, the channel map of
  the database and the wallet calls they make, and the confirmation of the funding output
  (\<open>qln/msghandler.go\<close>). A handler returns the node, the messages it sends, and the error it reports:
  where the code only logs an error and returns, the model keeps it as the result too. \<open>Panic\<close> ends the
  process.
\<close>

section \<open>Constants and key paths\<close>

definition MinChanCapacity :: int where "MinChanCapacity = 1000000"
definition QcStateFee :: int where "QcStateFee = 10"
definition UseChannelWatchRefund :: u32 where "UseChannelWatchRefund = 31 OR hardened"

text \<open>\<open>portxo.TxoP2WSHComp\<close>: the witness, script and compressed flags.\<close>

definition TxoP2WSHComp :: byte where "TxoP2WSHComp = 0x04 OR 0x02 OR 0x08"

definition chan_keygen :: "u32 \<Rightarrow> u32 \<Rightarrow> u32 \<Rightarrow> keygen" where
  "chan_keygen coin peer cIdx =
     \<lparr>kg_Depth = 5, kg_Step = [44 OR hardened, coin OR hardened, UseChannelFund, peer OR hardened, cIdx OR hardened],
      kg_PrivKey = replicate 32 0\<rparr>"

definition base_keygen :: "u32 \<Rightarrow> u32 \<Rightarrow> u32 \<Rightarrow> keygen" where
  "base_keygen coin n cIdx =
     \<lparr>kg_Depth = 5, kg_Step = [44 OR hardened, coin OR hardened, UseHTLCBase, n OR hardened, cIdx OR hardened],
      kg_PrivKey = replicate 32 0\<rparr>"

section \<open>The state of a funding node\<close>

text \<open>
  \<open>InFlightFund\<close>, the funding in progress. Its \<open>done\<close> channel has capacity one: what is in it.
\<close>

record in_flight_fund =
  ff_PeerIdx :: u32
  ff_ChanIdx :: u32
  ff_Coin :: u32
  ff_Amt :: int
  ff_InitSend :: int
  ff_op :: "outpoint option"
  ff_done :: "u32 option"
  ff_Data :: bytes

definition InFlightFund_Clear :: "in_flight_fund \<Rightarrow> in_flight_fund" where
  "InFlightFund_Clear f = f\<lparr>ff_PeerIdx := 0, ff_ChanIdx := 0, ff_Amt := 0, ff_InitSend := 0\<rparr>"

text \<open>
  The node with its channel map (from the channel number to the outpoint), and what it told its wallets:
  transactions sent, outpoints watched, and outputs exported. \<open>fu_DualPeer\<close> is the peer of a dual funding in
  progress (\<open>InProgDual.PeerIdx\<close>).
\<close>

record fund_node =
  fu_node :: lit_node
  fu_ChanMap :: "(bytes \<times> bytes) list"
  fu_InProg :: in_flight_fund
  fu_sent :: "bytes list"
  fu_watched :: "outpoint list"
  fu_exported :: "por_txo list"
  fu_DualPeer :: u32

record remote_peer =
  rp_QCs :: "u32 \<Rightarrow> qchan option"
  rp_OpMap :: "bytes \<Rightarrow> u32 option"

text \<open>
  The environment: that of the channel code, the coin types with a daemon, what the wallet of a coin type
  answers, which byte strings are points of the curve, and the peers the peer manager knows.
\<close>

record fund_env =
  fe_ev :: node_env
  fe_ConnectedCoinTypes :: "u32 \<Rightarrow> bool"
  fe_MaybeSend :: "u32 \<Rightarrow> tx_out list \<Rightarrow> lit_error + outpoint list"
  fe_ReallySend :: "u32 \<Rightarrow> bytes \<Rightarrow> lit_error option"
  fe_WatchThis :: "u32 \<Rightarrow> outpoint \<Rightarrow> lit_error option"
  fe_ValidPub :: "bytes \<Rightarrow> bool"
  fe_PeerKnown :: "u32 \<Rightarrow> bool"

type_synonym fund_result = "fund_node \<times> lit_msg list \<times> lit_error option"

section \<open>The database\<close>

definition NextChannelIdx :: "fund_node \<Rightarrow> u32" where
  "NextChannelIdx nd = of_nat (length (fu_ChanMap nd) + 1)"

text \<open>\<open>SaveQChan\<close> with its second bucket: the channel number leads to the outpoint.\<close>

definition fund_SaveQChan :: "fund_node \<Rightarrow> qchan \<Rightarrow> fund_node" where
  "fund_SaveQChan nd q =
     nd\<lparr>fu_node := SaveQChan (fu_node nd) q,
        fu_ChanMap := AList.update (U32tB (Qchan_Idx q)) (OutPointToBytes (q_Op q)) (fu_ChanMap nd)\<rparr>"

definition fund_SaveQchanState :: "node_env \<Rightarrow> fund_node \<Rightarrow> qchan \<Rightarrow> fund_node" where
  "fund_SaveQchanState ev nd q =
     (case GetQchan ev (fu_node nd) (OutPointToBytes (q_Op q)) of Inl e \<Rightarrow> nd
      | Inr fq \<Rightarrow> fund_SaveQChan nd (fq\<lparr>q_State := q_State q\<rparr>))"

definition fund_FailChannel :: "node_env \<Rightarrow> fund_node \<Rightarrow> qchan \<Rightarrow> fund_node" where
  "fund_FailChannel ev nd q =
     (let q = (case ReloadQchanState ev (fu_node nd) q of Inl e \<Rightarrow> q | Inr q' \<Rightarrow> q')
      in fund_SaveQchanState ev nd (q\<lparr>q_State := (q_State q)\<lparr>st_Failed := True\<rparr>\<rparr>))"

text \<open>
  The usual end of a handler on an error: the channel is marked failed. A panic inside the failed call
  ends the process before that.
\<close>

definition fund_fail :: "node_env \<Rightarrow> fund_node \<Rightarrow> qchan \<Rightarrow> lit_error \<Rightarrow> fund_result" where
  "fund_fail ev nd q e = (if e = Panic then (nd, [], Some Panic) else (fund_FailChannel ev nd q, [], Some e))"

text \<open>
  A fresh \<open>Qchan\<close> and \<open>StatCom\<close>: every field zero. The pointers to the elkrem sender and receiver are
  nil, which the model stands in for by the sender of the zero root and the empty receiver; neither is
  stored.
\<close>

definition new_StatCom :: stat_com where
  "new_StatCom =
     \<lparr>st_StateIdx = 0, st_WatchUpTo = 0, st_MyAmt = 0, st_Fee = 0, st_Data = replicate 32 0, st_Delta = 0,
      st_Collision = 0, st_ElkPoint = replicate 33 0, st_NextElkPoint = replicate 33 0,
      st_N2ElkPoint = replicate 33 0, st_Sig = replicate 64 0, st_HTLCIdx = 0, st_InProgHTLC = None,
      st_CollidingHTLC = None, st_CollidingHashDelta = False, st_CollidingHashPreimage = False,
      st_CollidingPreimages = False, st_CollidingPreimageDelta = False, st_NextHTLCBase = replicate 33 0,
      st_N2HTLCBase = replicate 33 0, st_MyNextHTLCBase = replicate 33 0, st_MyN2HTLCBase = replicate 33 0,
      st_HTLCs = [], st_Failed = False\<rparr>"

definition new_PorTxo :: "keygen \<Rightarrow> por_txo" where
  "new_PorTxo k =
     \<lparr>px_Op = \<lparr>op_Hash = replicate 32 0, op_Index = 0\<rparr>, px_Value = 0, px_Height = 0, px_Seq = 0, px_Mode = 0,
      px_KeyGen = k, px_PkScript = [], px_PreSigStack = []\<rparr>"

definition new_Qchan :: "keygen \<Rightarrow> qchan" where
  "new_Qchan k =
     \<lparr>q_Txo = new_PorTxo k, q_CloseData = \<lparr>cl_CloseTxid = replicate 32 0, cl_CloseHeight = 0, cl_Closed = False\<rparr>,
      q_MyPub = replicate 33 0, q_TheirPub = replicate 33 0, q_MyRefundPub = replicate 33 0,
      q_TheirRefundPub = replicate 33 0, q_MyHAKDBase = replicate 33 0, q_TheirHAKDBase = replicate 33 0,
      q_WatchRefundAdr = replicate 20 0, q_ElkSnd = NewElkremSender (replicate 32 0),
      q_ElkRcv = NewElkremReceiver, q_Delay = 0, q_State = new_StatCom, q_ClearToSend = False, q_LastUpdate = 0\<rparr>"

section \<open>The funder asks for a point\<close>

text \<open>
  \<open>FundChannel\<close> up to the point where it has sent the request, and what it returns when \<open>done\<close> gives it
  the number of the new channel.
\<close>

definition FundChannel :: "fund_env \<Rightarrow> fund_node \<Rightarrow> u32 \<Rightarrow> u32 \<Rightarrow> int \<Rightarrow> int \<Rightarrow> bytes \<Rightarrow> fund_result" where
  "FundChannel fe nd peerIdx cointype ccap initSend data =
     (case ev_wallet (fe_ev fe) cointype of None \<Rightarrow> (nd, [], Some OutOfRange)
      | Some wal \<Rightarrow>
        if \<not> fe_ConnectedCoinTypes fe cointype then (nd, [], Some OutOfRange)
        else
          let fee = i64 (wl_Fee wal * 1000) in
          if ff_PeerIdx (fu_InProg nd) \<noteq> 0 then (nd, [], Some OutOfRange)
          else if initSend < 0 \<or> ccap < 0 then (nd, [], Some OutOfRange)
          else if ccap < MinChanCapacity then (nd, [], Some OutOfRange)
          else if ccap < initSend then (nd, [], Some OutOfRange)
          else if initSend \<noteq> 0 \<and> initSend < i64 (MinOutput + fee) then (nd, [], Some OutOfRange)
          else if i64 (ccap - initSend) < i64 (MinOutput + fee) then (nd, [], Some OutOfRange)
          else if \<not> ev_connected (fe_ev fe) peerIdx then (nd, [], Some OutOfRange)
          else
            let nd = nd\<lparr>fu_InProg := (fu_InProg nd)\<lparr>ff_ChanIdx := NextChannelIdx nd, ff_PeerIdx := peerIdx,
                       ff_Amt := ccap, ff_InitSend := initSend, ff_Data := data, ff_Coin := cointype\<rparr>\<rparr>
            in (nd, tmpSendLitMsg (fe_ev fe) (MsgPointReq (NewPointReqMsg peerIdx cointype)), None))"

definition FundChannel_wait :: "fund_node \<Rightarrow> fund_node \<times> (lit_error + u32)" where
  "FundChannel_wait nd =
     (case ff_done (fu_InProg nd) of None \<Rightarrow> (nd, Inl Blocked)
      | Some idx \<Rightarrow> (nd\<lparr>fu_InProg := (fu_InProg nd)\<lparr>ff_done := None\<rparr>\<rparr>, Inr idx))"

section \<open>The recipient answers with its points\<close>

text \<open>The two HTLC base keys every side of a new channel derives, in all three handlers alike.\<close>

definition my_bases :: "node_env \<Rightarrow> u32 \<Rightarrow> u32 \<Rightarrow> lit_error + bytes \<times> bytes" where
  "my_bases ev coin cIdx =
     bind_res (GetUsePub ev (base_keygen coin 0 cIdx) UseHTLCBase) (\<lambda>myNextHTLCBase.
     bind_res (GetUsePub ev (base_keygen coin 1 cIdx) UseHTLCBase) (\<lambda>myN2HTLCBase.
       Inr (myNextHTLCBase, myN2HTLCBase)))"

definition PointReqHandler :: "fund_env \<Rightarrow> fund_node \<Rightarrow> point_req_msg \<Rightarrow> fund_result" where
  "PointReqHandler fe nd msg =
     (let ev = fe_ev fe; cIdx = NextChannelIdx nd; coin = pq_Cointype msg in
      case ev_wallet ev coin of None \<Rightarrow> (nd, [], Some OutOfRange)
      | Some wal \<Rightarrow>
        let kg = chan_keygen coin (pq_PeerIdx msg) cIdx;
            myChanPub = GetUsePub_ign ev kg UseChannelFund;
            myRefundPub = GetUsePub_ign ev kg UseChannelRefund
        in case bind_res (GetUsePub ev kg UseChannelHAKDBase) (\<lambda>myHAKDbase.
             bind_res (my_bases ev coin cIdx) (\<lambda>(myNextHTLCBase, myN2HTLCBase).
               Inr (NewPointRespMsg (pq_PeerIdx msg) myChanPub myRefundPub myHAKDbase myNextHTLCBase myN2HTLCBase))) of
           Inl e \<Rightarrow> (nd, [], Some e)
         | Inr outMsg \<Rightarrow> (nd, tmpSendLitMsg ev (MsgPointResp outMsg), None))"

section \<open>The funder describes the channel\<close>

text \<open>The channel as the funder makes it, before the wallet is asked for its outpoint.\<close>

definition resp_chan :: "node_env \<Rightarrow> in_flight_fund \<Rightarrow> point_resp_msg \<Rightarrow> qchan" where
  "resp_chan ev f msg =
     (let k = chan_keygen (ff_Coin f) (ff_PeerIdx f) (ff_ChanIdx f); q = new_Qchan k in
      q\<lparr>q_Txo := (q_Txo q)\<lparr>px_Height := -1, px_Value := ff_Amt f\<rparr>,
        q_MyPub := GetUsePub_ign ev k UseChannelFund, q_MyRefundPub := GetUsePub_ign ev k UseChannelRefund,
        q_MyHAKDBase := GetUsePub_ign ev k UseChannelHAKDBase, q_ElkRcv := NewElkremReceiver,
        q_TheirPub := pr_ChannelPub msg, q_TheirRefundPub := pr_RefundPub msg, q_TheirHAKDBase := pr_HAKDbase msg,
        q_ElkSnd := NewElkremSender (case GetElkremRoot ev k of Inl e \<Rightarrow> replicate 32 0 | Inr r \<Rightarrow> r),
        q_LastUpdate := ev_now ev\<rparr>)"

text \<open>
  The wallet is asked to send to the funding output, and has to name exactly one outpoint for it. The
  wallet is looked up under the coin of the key path.
\<close>

definition fund_outpoint :: "fund_env \<Rightarrow> in_flight_fund \<Rightarrow> qchan \<Rightarrow> lit_error + outpoint \<times> wallet" where
  "fund_outpoint fe f q =
     bind_res (FundTxOut (ev_crypto (fe_ev fe)) (q_MyPub q) (q_TheirPub q) (ff_Amt f)) (\<lambda>txo.
     case ev_wallet (fe_ev fe) (Qchan_Coin q) of None \<Rightarrow> Inl Panic
     | Some wal \<Rightarrow>
       bind_res (fe_MaybeSend fe (Qchan_Coin q) [txo]) (\<lambda>ops.
         case ops of [op] \<Rightarrow> Inr (op, wal) | _ \<Rightarrow> Inl (BadLength (length ops))))"

definition resp_state :: "fund_env \<Rightarrow> in_flight_fund \<Rightarrow> wallet \<Rightarrow> point_resp_msg \<Rightarrow> lit_error + stat_com" where
  "resp_state fe f wal msg =
     (if \<not> fe_ValidPub fe (pr_NextHTLCBase msg) then Inl BadFormat
      else if \<not> fe_ValidPub fe (pr_N2HTLCBase msg) then Inl BadFormat
      else
        bind_res (my_bases (fe_ev fe) (ff_Coin f) (ff_ChanIdx f)) (\<lambda>(b0, b1).
          Inr (new_StatCom\<lparr>st_StateIdx := 0, st_MyAmt := i64 (ff_Amt f - ff_InitSend f),
            st_Fee := i64 (wl_Fee wal * QcStateFee), st_Data := ff_Data f, st_MyNextHTLCBase := b0,
            st_MyN2HTLCBase := b1, st_NextHTLCBase := pr_NextHTLCBase msg, st_N2HTLCBase := pr_N2HTLCBase msg\<rparr>)))"

text \<open>The first three elkrem points, which each side gives the other.\<close>

definition first_points :: "crypto \<Rightarrow> qchan \<Rightarrow> lit_error + bytes \<times> bytes \<times> bytes" where
  "first_points cr q =
     bind_res (ElkPoint cr q False 0) (\<lambda>p0.
     bind_res (ElkPoint cr q False 1) (\<lambda>p1.
     bind_res (N2ElkPointForThem cr q) (\<lambda>p2. Inr (p0, p1, p2))))"

definition PointRespHandler :: "fund_env \<Rightarrow> fund_node \<Rightarrow> point_resp_msg \<Rightarrow> fund_result" where
  "PointRespHandler fe nd msg =
     (let ev = fe_ev fe; f = fu_InProg nd in
      if ff_PeerIdx f = 0 then (nd, [], Some OutOfRange)
      else if ff_PeerIdx f \<noteq> pr_PeerIdx msg then (nd, [], Some Mismatch)
      else if ev_wallet ev (ff_Coin f) = None then (nd, [], Some OutOfRange)
      else
        let q = resp_chan ev f msg in
        if \<not> fe_ValidPub fe (q_TheirPub q) then (nd, [], Some BadFormat)
        else if \<not> fe_ValidPub fe (q_TheirRefundPub q) then (nd, [], Some BadFormat)
        else if \<not> fe_ValidPub fe (q_TheirHAKDBase q) then (nd, [], Some BadFormat)
        else case fund_outpoint fe f q of Inl e \<Rightarrow> (nd, [], Some e)
        | Inr (op, wal) \<Rightarrow>
          let nd = nd\<lparr>fu_InProg := f\<lparr>ff_op := Some op\<rparr>\<rparr>;
              q = q\<lparr>q_Txo := (q_Txo q)\<lparr>px_Op := op\<rparr>\<rparr>
          in case resp_state fe f wal msg of Inl e \<Rightarrow> (nd, [], Some e)
             | Inr s \<Rightarrow>
               let q = q\<lparr>q_State := s\<rparr>; nd = fund_SaveQChan nd q in
               (case first_points (ev_crypto ev) q of Inl e \<Rightarrow> fund_fail ev nd q e
                | Inr (p0, p1, p2) \<Rightarrow>
                  (nd, tmpSendLitMsg ev (MsgChanDesc (NewChanDescMsg (pr_PeerIdx msg) op (q_MyPub q)
                     (q_MyRefundPub q) (q_MyHAKDBase q) (st_MyNextHTLCBase s) (st_MyN2HTLCBase s) (ff_Coin f)
                     (of_int (ff_Amt f)) (of_int (ff_InitSend f)) p0 p1 p2 (ff_Data f))), None)))"

section \<open>The recipient stores the channel and signs\<close>

definition desc_chan :: "node_env \<Rightarrow> u32 \<Rightarrow> chan_desc_msg \<Rightarrow> qchan" where
  "desc_chan ev cIdx msg =
     (let k = chan_keygen (cd_CoinType msg) (cd_PeerIdx msg) cIdx; q = new_Qchan k in
      q\<lparr>q_Txo := (q_Txo q)\<lparr>px_Height := -1, px_Value := sint (cd_Capacity msg), px_Mode := TxoP2WSHComp,
          px_Op := cd_Outpoint msg\<rparr>,
        q_TheirPub := cd_PubKey msg, q_TheirRefundPub := cd_RefundPub msg, q_TheirHAKDBase := cd_HAKDbase msg,
        q_MyPub := GetUsePub_ign ev k UseChannelFund, q_MyRefundPub := GetUsePub_ign ev k UseChannelRefund,
        q_MyHAKDBase := GetUsePub_ign ev k UseChannelHAKDBase\<rparr>)"

definition desc_state :: "fund_env \<Rightarrow> u32 \<Rightarrow> wallet \<Rightarrow> chan_desc_msg \<Rightarrow> lit_error + stat_com" where
  "desc_state fe cIdx wal msg =
     (if \<not> fe_ValidPub fe (cd_NextHTLCBase msg) then Inl BadFormat
      else if \<not> fe_ValidPub fe (cd_N2HTLCBase msg) then Inl BadFormat
      else
        bind_res (my_bases (fe_ev fe) (cd_CoinType msg) cIdx) (\<lambda>(b0, b1).
          Inr (new_StatCom\<lparr>st_Fee := i64 (wl_Fee wal * QcStateFee), st_MyAmt := sint (cd_InitPayment msg),
            st_Data := cd_Data msg, st_StateIdx := 0, st_ElkPoint := cd_ElkZero msg,
            st_NextElkPoint := cd_ElkOne msg, st_N2ElkPoint := cd_ElkTwo msg, st_MyNextHTLCBase := b0,
            st_MyN2HTLCBase := b1, st_NextHTLCBase := cd_NextHTLCBase msg, st_N2HTLCBase := cd_N2HTLCBase msg\<rparr>)))"

text \<open>
  The channel is loaded again after it is saved. On an error of that load, \<open>FailChannel\<close> is called with a
  nil channel, which panics.
\<close>

definition QChanDescHandler :: "fund_env \<Rightarrow> fund_node \<Rightarrow> chan_desc_msg \<Rightarrow> fund_result" where
  "QChanDescHandler fe nd msg =
     (let ev = fe_ev fe; opArr = OutPointToBytes (cd_Outpoint msg); cIdx = NextChannelIdx nd in
      case ev_wallet ev (cd_CoinType msg) of None \<Rightarrow> (nd, [], Some OutOfRange)
      | Some wal \<Rightarrow>
        (case desc_state fe cIdx wal msg of Inl e \<Rightarrow> (nd, [], Some e)
         | Inr s \<Rightarrow>
           let nd = fund_SaveQChan nd ((desc_chan ev cIdx msg)\<lparr>q_State := s\<rparr>) in
           (case GetQchan ev (fu_node nd) opArr of Inl e \<Rightarrow> (nd, [], Some Panic)
            | Inr qc \<Rightarrow>
              (case bind_res (first_points (ev_crypto ev) qc) (\<lambda>(p0, p1, p2).
                 bind_res (SignState ev qc) (\<lambda>(sig, hs).
                   Inr (NewChanAckMsg (cd_PeerIdx msg) (cd_Outpoint msg) p0 p1 p2 sig))) of
                 Inl e \<Rightarrow> fund_fail ev nd qc e
               | Inr outMsg \<Rightarrow> (nd, tmpSendLitMsg ev (MsgChanAck outMsg), None)))))"

section \<open>The funder sends the money, and both sides open the channel\<close>

text \<open>
  The output without value that tells the wallet of an address: \<open>nullTxo\<close>.
\<close>

definition null_txo :: "qchan \<Rightarrow> por_txo" where
  "null_txo q =
     (let k = q_KeyGen q in (new_PorTxo k)\<lparr>px_KeyGen := k\<lparr>kg_Step := (kg_Step k)[2 := UseChannelWatchRefund]\<rparr>\<rparr>)"

text \<open>\<open>peer.QCs\<close> and \<open>peer.OpMap\<close> get the channel; the two maps are keyed by its number and outpoint.\<close>

definition peer_add :: "remote_peer \<Rightarrow> bytes \<Rightarrow> qchan \<Rightarrow> remote_peer" where
  "peer_add rp opArr q =
     rp\<lparr>rp_QCs := (rp_QCs rp)(Qchan_Idx q := Some q), rp_OpMap := (rp_OpMap rp)(opArr := Some (Qchan_Idx q))\<rparr>"

definition QChanAckHandler ::
  "fund_env \<Rightarrow> fund_node \<Rightarrow> remote_peer \<Rightarrow> chan_ack_msg \<Rightarrow> fund_node \<times> remote_peer \<times> lit_msg list \<times> lit_error option" where
  "QChanAckHandler fe nd rp msg =
     (let ev = fe_ev fe; opArr = OutPointToBytes (ak_Outpoint msg) in
      case GetQchan ev (fu_node nd) opArr of Inl e \<Rightarrow> (nd, rp, [], Some Panic)
      | Inr qc \<Rightarrow>
        let fail = (\<lambda>nd qc e. case fund_fail ev nd qc e of (nd, msgs, e) \<Rightarrow> (nd, rp, msgs, e));
            qc = qc\<lparr>q_State := (q_State qc)\<lparr>st_ElkPoint := ak_ElkZero msg, st_NextElkPoint := ak_ElkOne msg,
                   st_N2ElkPoint := ak_ElkTwo msg\<rparr>\<rparr>
        in case VerifySigs ev qc (ak_Signature msg) [] of Inl e \<Rightarrow> fail nd qc e
           | Inr qc \<Rightarrow>
             let nd = fund_SaveQchanState ev nd qc in
             (case SignState ev qc of Inl e \<Rightarrow> fail nd qc e
              | Inr (sig, hs) \<Rightarrow>
                (case fe_ReallySend fe (Qchan_Coin qc) (op_Hash (q_Op qc)) of Some e \<Rightarrow> fail nd qc e
                 | None \<Rightarrow>
                   let nd = nd\<lparr>fu_sent := fu_sent nd @ [op_Hash (q_Op qc)]\<rparr> in
                   (case fe_WatchThis fe (Qchan_Coin qc) (q_Op qc) of Some e \<Rightarrow> fail nd qc e
                    | None \<Rightarrow>
                      let nd = nd\<lparr>fu_watched := fu_watched nd @ [q_Op qc], fu_exported := fu_exported nd @ [null_txo qc]\<rparr> in
                      if ff_done (fu_InProg nd) \<noteq> None then (nd, rp, [], Some Blocked)
                      else
                        let nd = nd\<lparr>fu_InProg := InFlightFund_Clear ((fu_InProg nd)\<lparr>ff_done := Some (Qchan_Idx qc)\<rparr>)\<rparr>
                        in (nd, peer_add rp opArr qc,
                            tmpSendLitMsg ev (MsgSigProof (NewSigProofMsg (ak_PeerIdx msg) (ak_Outpoint msg) sig)), None)))))"

definition SigProofHandler ::
  "fund_env \<Rightarrow> fund_node \<Rightarrow> remote_peer \<Rightarrow> sig_proof_msg \<Rightarrow> fund_node \<times> remote_peer \<times> lit_msg list \<times> lit_error option" where
  "SigProofHandler fe nd rp msg =
     (let ev = fe_ev fe; opArr = OutPointToBytes (sp_Outpoint msg) in
      case GetQchan ev (fu_node nd) opArr of Inl e \<Rightarrow> (nd, rp, [], Some Panic)
      | Inr qc \<Rightarrow>
        let fail = (\<lambda>nd qc e. case fund_fail ev nd qc e of (nd, msgs, e) \<Rightarrow> (nd, rp, msgs, e)) in
        if ev_wallet ev (Qchan_Coin qc) = None then fail nd qc OutOfRange
        else case VerifySigs ev qc (sp_Signature msg) [] of Inl e \<Rightarrow> fail nd qc e
        | Inr qc \<Rightarrow>
          let nd = fund_SaveQchanState ev nd qc in
          (case fe_WatchThis fe (Qchan_Coin qc) (sp_Outpoint msg) of Some e \<Rightarrow> fail nd qc e
           | None \<Rightarrow>
             let nd = nd\<lparr>fu_watched := fu_watched nd @ [sp_Outpoint msg], fu_exported := fu_exported nd @ [null_txo qc]\<rparr>;
                 rp = peer_add rp opArr qc
             in if \<not> fe_PeerKnown fe (Qchan_Peer qc) then (nd, rp, [], Some Panic)
                else if \<not> ev_publish ev then (nd, rp, [], Some OutOfRange)
                else (nd, rp, [], None)))"

section \<open>The dispatcher\<close>

text \<open>
  \<open>ChannelHandler\<close> of \<open>qln/msghandler.go\<close>. While a dual funding is in progress every message goes to its
  handlers, which are a parameter.
\<close>

type_synonym peer_result = "fund_node \<times> remote_peer \<times> lit_msg list \<times> lit_error option"

definition keep_peer :: "remote_peer \<Rightarrow> fund_result \<Rightarrow> peer_result" where
  "keep_peer rp r = (case r of (nd, msgs, e) \<Rightarrow> (nd, rp, msgs, e))"

definition ChannelHandler ::
  "(fund_node \<Rightarrow> remote_peer \<Rightarrow> lit_msg \<Rightarrow> peer_result) \<Rightarrow> fund_env \<Rightarrow> fund_node \<Rightarrow> remote_peer \<Rightarrow> lit_msg \<Rightarrow> peer_result" where
  "ChannelHandler dual fe nd rp msg =
     (if fu_DualPeer nd \<noteq> 0 then dual nd rp msg
      else case msg of
        MsgPointReq m \<Rightarrow> keep_peer rp (PointReqHandler fe nd m)
      | MsgPointResp m \<Rightarrow> keep_peer rp (PointRespHandler fe nd m)
      | MsgChanDesc m \<Rightarrow> keep_peer rp (QChanDescHandler fe nd m)
      | MsgChanAck m \<Rightarrow> QChanAckHandler fe nd rp m
      | MsgSigProof m \<Rightarrow> SigProofHandler fe nd rp m
      | _ \<Rightarrow> (nd, rp, [], Some (UnknownMsgType (MsgType msg))))"

section \<open>Confirmation\<close>

text \<open>
  The part of \<open>OPEventHandler\<close> that stores the height of a confirmed channel: every channel is loaded and
  the one with the outpoint is saved with its new height.
\<close>

definition fund_SaveQchanUtxoData :: "node_env \<Rightarrow> fund_node \<Rightarrow> qchan \<Rightarrow> fund_node" where
  "fund_SaveQchanUtxoData ev nd q =
     (case GetQchan ev (fu_node nd) (OutPointToBytes (q_Op q)) of Inl e \<Rightarrow> nd
      | Inr fq \<Rightarrow>
        (let fq = fq\<lparr>q_Txo := q_Txo q\<rparr>;
             fq = (if cl_Closed (q_CloseData q) then fq\<lparr>q_CloseData := q_CloseData q\<rparr> else fq)
         in fund_SaveQChan nd fq))"

definition confirm_channel :: "node_env \<Rightarrow> fund_node \<Rightarrow> outpoint \<Rightarrow> int \<Rightarrow> fund_node" where
  "confirm_channel ev nd op height =
     (case GetQchan ev (fu_node nd) (OutPointToBytes op) of Inl e \<Rightarrow> nd
      | Inr q \<Rightarrow> fund_SaveQchanUtxoData ev nd (q\<lparr>q_Txo := (q_Txo q)\<lparr>px_Height := height\<rparr>\<rparr>))"

end
