(* ===== verification/FundRun.thy ===== *)
theory FundRun
  imports Fund ChannelLedger
begin

text \<open>
  An honest funding: the five messages cross the wire as bytes, both sides end with channels in step at
  state zero, and after confirmation the channel can carry pushes. Then what the handlers miss.
\<close>

section \<open>Keys\<close>

lemma harden_index: "(x :: u32) < 2 ^ 31 \<Longrightarrow> (x OR hardened) AND 0x7fffffff = x"
proof -
  assume "x < 2 ^ 31"
  then have "take_bit 31 x = x" by (simp add: take_bit_eq_mod mod_word_less)
  moreover have h: "(hardened :: u32) = push_bit 31 1" and m: "(0x7fffffff :: u32) = mask 31"
    by (simp_all add: mask_eq_exp_minus_1 push_bit_eq_mult)
  ultimately show ?thesis
    unfolding h m take_bit_eq_mask [symmetric] take_bit_or take_bit_push_bit by simp
qed

definition chan_key :: "node_env \<Rightarrow> u32 \<Rightarrow> u32 \<Rightarrow> u32 \<Rightarrow> u32 \<Rightarrow> bytes" where
  "chan_key ev coin peer i use =
     (let k = chan_keygen coin peer i in ev_GetPub ev (k\<lparr>kg_Step := (kg_Step k)[2 := use]\<rparr>))"

definition base_key :: "node_env \<Rightarrow> u32 \<Rightarrow> u32 \<Rightarrow> u32 \<Rightarrow> bytes" where
  "base_key ev coin n i = ev_GetPub ev (base_keygen coin n i)"

definition chan_root :: "node_env \<Rightarrow> u32 \<Rightarrow> u32 \<Rightarrow> u32 \<Rightarrow> bytes" where
  "chan_root ev coin peer i = ev_dh ev (chan_key ev coin peer i UseChannelElkrem)"

lemma keygen_steps [simp]:
  "kg_Step (chan_keygen coin peer i) = [44 OR hardened, coin OR hardened, UseChannelFund, peer OR hardened, i OR hardened]"
  "kg_Step (base_keygen coin n i) = [44 OR hardened, coin OR hardened, UseHTLCBase, n OR hardened, i OR hardened]"
  by (simp_all add: chan_keygen_def base_keygen_def)

lemma chan_key_fund: "chan_key ev coin peer i UseChannelFund = ev_GetPub ev (chan_keygen coin peer i)"
  by (simp add: chan_key_def Let_def chan_keygen_def)

lemma use_pubs:
  assumes "ev_wallet ev coin = Some w" "coin < 2 ^ 31"
  shows "GetUsePub ev (chan_keygen coin peer i) use = Inr (chan_key ev coin peer i use)"
    "GetUsePub_ign ev (chan_keygen coin peer i) use = chan_key ev coin peer i use"
    "GetElkremRoot ev (chan_keygen coin peer i) = Inr (chan_root ev coin peer i)"
    "my_bases ev coin i = Inr (base_key ev coin 0 i, base_key ev coin 1 i)"
  using assms harden_index [OF assms(2)]
  by (simp_all add: GetUsePub_ign_def GetElkremRoot_def chan_root_def my_bases_def GetUsePub_def chan_key_def
      base_key_def Let_def base_keygen_def)

section \<open>Delivery\<close>

text \<open>A message is printed, and parsed by the peer under its own number for the sender.\<close>

definition deliver :: "u32 \<Rightarrow> lit_msg \<Rightarrow> lit_error + lit_msg" where
  "deliver p m = bind_res (LitMsg_Bytes m) (\<lambda>b. LitMsgFromBytes b p)"

lemma deliver_msgs:
  "deliver p (MsgPointReq m1) = Inr (MsgPointReq (m1\<lparr>pq_PeerIdx := p\<rparr>))"
  "wf_point_resp_msg m2 \<Longrightarrow> deliver p (MsgPointResp m2) = Inr (MsgPointResp (m2\<lparr>pr_PeerIdx := p\<rparr>))"
  "wf_chan_desc_msg m3 \<Longrightarrow> deliver p (MsgChanDesc m3) = Inr (MsgChanDesc (m3\<lparr>cd_PeerIdx := p\<rparr>))"
  "wf_chan_ack_msg m4 \<Longrightarrow> deliver p (MsgChanAck m4) = Inr (MsgChanAck (m4\<lparr>ak_PeerIdx := p\<rparr>))"
  "wf_sig_proof_msg m5 \<Longrightarrow> deliver p (MsgSigProof m5) = Inr (MsgSigProof (m5\<lparr>sp_PeerIdx := p\<rparr>))"
  using LitMsg_decode [of "MsgPointReq (m1\<lparr>pq_PeerIdx := p\<rparr>)"] LitMsg_decode [of "MsgPointResp (m2\<lparr>pr_PeerIdx := p\<rparr>)"]
    LitMsg_decode [of "MsgChanDesc (m3\<lparr>cd_PeerIdx := p\<rparr>)"] LitMsg_decode [of "MsgChanAck (m4\<lparr>ak_PeerIdx := p\<rparr>)"]
    LitMsg_decode [of "MsgSigProof (m5\<lparr>sp_PeerIdx := p\<rparr>)"]
  by (simp_all add: deliver_def wf_point_req_msg_def wf_point_resp_msg_def wf_chan_desc_msg_def
      wf_chan_ack_msg_def wf_sig_proof_msg_def PointReqMsg_Bytes_def PointRespMsg_Bytes_def ChanDescMsg_Bytes_def
      ChanAckMsg_Bytes_def SigProofMsg_Bytes_def)

section \<open>What an opened channel looks like\<close>

text \<open>
  The parameters: the two environments, the coin, what each side calls the other and the number each side
  gives the channel.
\<close>

definition opened_state :: "node_env \<Rightarrow> node_env \<Rightarrow> u32 \<Rightarrow> u32 \<Rightarrow> u32 \<Rightarrow> int \<Rightarrow> int \<Rightarrow> bytes \<Rightarrow> stat_com" where
  "opened_state ev ev' coin i i' amt fee data =
     new_StatCom\<lparr>st_MyAmt := amt, st_Fee := fee, st_Data := data, st_MyNextHTLCBase := base_key ev coin 0 i,
       st_MyN2HTLCBase := base_key ev coin 1 i, st_NextHTLCBase := base_key ev' coin 0 i',
       st_N2HTLCBase := base_key ev' coin 1 i'\<rparr>"

definition with_points :: "crypto \<Rightarrow> bytes \<Rightarrow> stat_com \<Rightarrow> stat_com" where
  "with_points cr r s = s\<lparr>st_ElkPoint := pt cr r 0, st_NextElkPoint := pt cr r 1, st_N2ElkPoint := pt cr r 2\<rparr>"

definition opened :: "node_env \<Rightarrow> node_env \<Rightarrow> u32 \<Rightarrow> u32 \<Rightarrow> u32 \<Rightarrow> u32 \<Rightarrow> u32 \<Rightarrow> outpoint \<Rightarrow> int \<Rightarrow> byte \<Rightarrow> u64 \<Rightarrow> stat_com \<Rightarrow> chan_data" where
  "opened ev ev' coin peer i peer' i' op v mode t s =
     \<lparr>cdt_Txo = (new_PorTxo (chan_keygen coin peer i))\<lparr>px_Op := op, px_Value := v, px_Height := -1, px_Mode := mode\<rparr>,
      cdt_CloseData = \<lparr>cl_CloseTxid = replicate 32 0, cl_CloseHeight = 0, cl_Closed = False\<rparr>,
      cdt_TheirPub = chan_key ev' coin peer' i' UseChannelFund,
      cdt_TheirRefundPub = chan_key ev' coin peer' i' UseChannelRefund,
      cdt_TheirHAKDBase = chan_key ev' coin peer' i' UseChannelHAKDBase, cdt_State = s, cdt_LastUpdate = t\<rparr>"

lemma opened_simps [simp]:
  "cdt_State (opened ev ev' coin peer i peer' i' op v mode t s) = s"
  "px_KeyGen (cdt_Txo (opened ev ev' coin peer i peer' i' op v mode t s)) = chan_keygen coin peer i"
  "px_Op (cdt_Txo (opened ev ev' coin peer i peer' i' op v mode t s)) = op"
  "px_Value (cdt_Txo (opened ev ev' coin peer i peer' i' op v mode t s)) = v"
  "\<not> cl_Closed (cdt_CloseData (opened ev ev' coin peer i peer' i' op v mode t s))"
  "(opened ev ev' coin peer i peer' i' op v mode t s)\<lparr>cdt_State := s'\<rparr> = opened ev ev' coin peer i peer' i' op v mode t s'"
  by (simp_all add: opened_def new_PorTxo_def)

lemma opened_keys:
  assumes "ev_wallet ev coin = Some w" "coin < 2 ^ 31"
  shows "q_MyPub (chan_of ev (opened ev ev' coin peer i peer' i' op v mode t s) c) = chan_key ev coin peer i UseChannelFund"
    "q_MyRefundPub (chan_of ev (opened ev ev' coin peer i peer' i' op v mode t s) c) = chan_key ev coin peer i UseChannelRefund"
    "q_MyHAKDBase (chan_of ev (opened ev ev' coin peer i peer' i' op v mode t s) c) = chan_key ev coin peer i UseChannelHAKDBase"
    "root_of ev (opened ev ev' coin peer i peer' i' op v mode t s) = chan_root ev coin peer i"
  using use_pubs [OF assms] by (simp_all add: chan_of_def NewQchanFromChanData_def root_of_def)

lemma opened_mirror:
  assumes "ev_wallet ev coin = Some w" "ev_wallet ev' coin = Some w'" "coin < 2 ^ 31"
  shows "static_mirror (chan_of ev (opened ev ev' coin p i p' i' op v m t s) True)
    (chan_of ev' (opened ev' ev coin p' i' p i op v m' t' s') True)"
  using use_pubs [OF assms(1,3)] use_pubs [OF assms(2,3)]
  by (simp add: static_mirror_def chan_of_def NewQchanFromChanData_def opened_def new_PorTxo_def)

lemma opened_index:
  "coin < 2 ^ 31 \<Longrightarrow> Qchan_Coin (chan_of ev (opened ev ev' coin peer i peer' i' op v mode t s) c) = coin"
  "peer < 2 ^ 31 \<Longrightarrow> Qchan_Peer (chan_of ev (opened ev ev' coin peer i peer' i' op v mode t s) c) = peer"
  "i < 2 ^ 31 \<Longrightarrow> Qchan_Idx (chan_of ev (opened ev ev' coin peer i peer' i' op v mode t s) c) = i"
  using harden_index [of coin] harden_index [of peer] harden_index [of i] by (simp_all add: Qchan_Idx_def)

lemma first_points_of:
  assumes "q_ElkSnd q = NewElkremSender r" "st_StateIdx (q_State q) = 0"
  shows "first_points cr q = Inr (pt cr r 0, pt cr r 1, pt cr r 2)"
proof -
  have "ElkPoint cr q False i = Inr (pt cr r i)" if "i \<le> maxIndex" for i
    using sender_pt [OF that, of cr r] assms(1) by (force simp: ElkPoint_def)
  then show ?thesis
    using assms(2) by (simp add: first_points_def N2ElkPointForThem_def maxIndex_def)
qed

section \<open>Two honest nodes\<close>

text \<open>
  What an honest side brings: a connection to the peer, a wallet that answers, keys of the curve with
  signatures the other side accepts, and listeners that let the events pass.
\<close>

definition fund_side :: "fund_env \<Rightarrow> fund_env \<Rightarrow> u32 \<Rightarrow> u32 \<Rightarrow> bool" where
  "fund_side fe fe' coin peer \<longleftrightarrow>
     coin < 2 ^ 31 \<and> peer < 2 ^ 31 \<and> ev_connected (fe_ev fe) peer \<and> ev_publish (fe_ev fe) \<and> fe_PeerKnown fe peer \<and>
     (\<forall>op. fe_WatchThis fe coin op = None) \<and>
     (\<forall>k. length (ev_GetPub (fe_ev fe) k) = 33 \<and> fe_ValidPub fe' (ev_GetPub (fe_ev fe) k)) \<and>
     (\<forall>i. signs_for (fe_ev fe) (fe_ev fe') (chan_keygen coin peer i) (ev_GetPub (fe_ev fe) (chan_keygen coin peer i))) \<and>
     (\<forall>k. ev_GetPriv (fe_ev fe) k \<noteq> Inl Panic) \<and>
     (\<forall>k s t v. ev_sign (fe_ev fe) k s t v \<noteq> Inl Panic \<and> (\<forall>sig. ev_sign (fe_ev fe) k s t v = Inr sig \<longrightarrow> length sig = 64)) \<and>
     (\<forall>h. length (cr_PubFromHash (ev_crypto (fe_ev fe)) (ev_dh (fe_ev fe) h)) = 33)"

lemma pt_length:
  assumes "\<forall>h. length (cr_PubFromHash cr (cr_DoubleHash cr h)) = 33" "i \<le> maxIndex" shows "length (pt cr r i) = 33"
  using sender_pt [OF assms(2), of cr r] assms(1) by (metis ElkPointFromHash_def ElkScalar_def)

lemma fund_sideD:
  assumes "fund_side fe fe' coin peer"
  shows "coin < 2 ^ 31" "peer < 2 ^ 31" "ev_connected (fe_ev fe) peer" "ev_publish (fe_ev fe)" "fe_PeerKnown fe peer"
    "fe_WatchThis fe coin op = None" "length (chan_key (fe_ev fe) coin' p' i' u) = 33"
    "fe_ValidPub fe' (chan_key (fe_ev fe) coin' p' i' u)" "length (base_key (fe_ev fe) coin' n i') = 33"
    "fe_ValidPub fe' (base_key (fe_ev fe) coin' n i')"
    "ev_sign (fe_ev fe) k s t v = Inr sig \<Longrightarrow> length sig = 64"
    "j \<le> maxIndex \<Longrightarrow> length (pt (ev_crypto (fe_ev fe)) r j) = 33"
  using assms pt_length [of "ev_crypto (fe_ev fe)" j r] by (simp_all add: fund_side_def chan_key_def base_key_def Let_def)

lemma fund_side_safe:
  assumes "fund_side fe fe' coin peer"
  shows "\<forall>k. ev_GetPriv (fe_ev fe) k \<noteq> Inl Panic" "\<forall>k s t v. ev_sign (fe_ev fe) k s t v \<noteq> Inl Panic"
  using assms by (auto simp: fund_side_def)

lemma fund_side_signs:
  assumes "fund_side fe fe' coin peer"
  shows "signs_for (fe_ev fe) (fe_ev fe') (chan_keygen coin peer i) (chan_key (fe_ev fe) coin peer i UseChannelFund)"
  using assms by (simp add: fund_side_def chan_key_fund)

definition fund_pair :: "fund_env \<Rightarrow> fund_env \<Rightarrow> u32 \<Rightarrow> u32 \<Rightarrow> u32 \<Rightarrow> wallet \<Rightarrow> wallet \<Rightarrow> outpoint \<Rightarrow> bool" where
  "fund_pair fa fb coin pa pb wa wb op \<longleftrightarrow>
     fund_side fa fb coin pb \<and> fund_side fb fa coin pa \<and> pb \<noteq> 0 \<and>
     ev_crypto (fe_ev fb) = ev_crypto (fe_ev fa) \<and>
     ev_wallet (fe_ev fa) coin = Some wa \<and> ev_wallet (fe_ev fb) coin = Some wb \<and> wl_Fee wb = wl_Fee wa \<and>
     0 \<le> wl_Fee wa \<and> wl_Fee wa < 2 ^ 28 \<and> fe_ConnectedCoinTypes fa coin \<and>
     (\<forall>out. fe_MaybeSend fa coin [out] = Inr [op]) \<and> (\<forall>h. fe_ReallySend fa coin h = None) \<and> wf_outpoint op"

lemma fund_pairD:
  assumes "fund_pair fa fb coin pa pb wa wb op"
  shows "fund_side fa fb coin pb" "fund_side fb fa coin pa" "pb \<noteq> 0" "ev_crypto (fe_ev fb) = ev_crypto (fe_ev fa)"
    "ev_wallet (fe_ev fa) coin = Some wa" "ev_wallet (fe_ev fb) coin = Some wb" "wl_Fee wb = wl_Fee wa"
    "0 \<le> wl_Fee wa" "wl_Fee wa < 2 ^ 28" "fe_ConnectedCoinTypes fa coin" "fe_MaybeSend fa coin [out] = Inr [op]"
    "fe_ReallySend fa coin h = None" "wf_outpoint op"
  using assms by (simp_all add: fund_pair_def)

text \<open>Amounts the funder's checks let pass, as numbers without wrap-around.\<close>

definition fund_amounts :: "wallet \<Rightarrow> int \<Rightarrow> int \<Rightarrow> bool" where
  "fund_amounts w ccap initSend \<longleftrightarrow>
     MinChanCapacity \<le> ccap \<and> ccap < 2 ^ 62 \<and> 0 \<le> initSend \<and> (initSend \<noteq> 0 \<longrightarrow> MinOutput + wl_Fee w * 1000 \<le> initSend) \<and>
     MinOutput + wl_Fee w * 1000 \<le> ccap - initSend"

lemma fund_amounts_words:
  assumes "fund_amounts w ccap initSend" "0 \<le> wl_Fee w" "wl_Fee w < 2 ^ 28"
  shows "i64 (wl_Fee w * 1000) = wl_Fee w * 1000" "i64 (MinOutput + wl_Fee w * 1000) = MinOutput + wl_Fee w * 1000"
    "i64 (ccap - initSend) = ccap - initSend" "i64 (wl_Fee w * QcStateFee) = wl_Fee w * 10"
    "sint (of_int ccap :: u64) = ccap" "sint (of_int initSend :: u64) = initSend" "initSend \<le> ccap" "0 \<le> ccap"
proof -
  have s: "sint (of_int x :: u64) = x" if "- (2 ^ 63) \<le> x" "x < 2 ^ 63" for x
    using that by (simp add: signed_of_int signed_take_bit_int_eq_self)
  have b: "0 \<le> initSend" "initSend \<le> ccap" "ccap < 2 ^ 62"
    using assms by (auto simp: fund_amounts_def MinOutput_def)
  then show "sint (of_int ccap :: u64) = ccap" "sint (of_int initSend :: u64) = initSend" "initSend \<le> ccap" "0 \<le> ccap"
    "i64 (ccap - initSend) = ccap - initSend"
    using s [of ccap] s [of initSend] by (simp_all add: i64_id)
  show "i64 (wl_Fee w * 1000) = wl_Fee w * 1000" "i64 (MinOutput + wl_Fee w * 1000) = MinOutput + wl_Fee w * 1000"
    "i64 (wl_Fee w * QcStateFee) = wl_Fee w * 10"
    using assms(2,3) by (simp_all add: i64_id MinOutput_def QcStateFee_def)
qed

section \<open>The steps of an honest funding\<close>

definition started :: "fund_node \<Rightarrow> u32 \<Rightarrow> u32 \<Rightarrow> int \<Rightarrow> int \<Rightarrow> bytes \<Rightarrow> in_flight_fund" where
  "started nd peer coin ccap initSend data = (fu_InProg nd)\<lparr>ff_ChanIdx := NextChannelIdx nd, ff_PeerIdx := peer,
     ff_Amt := ccap, ff_InitSend := initSend, ff_Data := data, ff_Coin := coin\<rparr>"

lemma fund_start:
  assumes p: "fund_pair fa fb coin pa pb wa wb op" and a: "fund_amounts wa ccap initSend" and f: "ff_PeerIdx (fu_InProg na) = 0"
  shows "FundChannel fa na pb coin ccap initSend data =
    (na\<lparr>fu_InProg := started na pb coin ccap initSend data\<rparr>, [MsgPointReq (NewPointReqMsg pb coin)], None)"
proof -
  note d = fund_pairD [OF p] and w = fund_amounts_words [OF a fund_pairD(8,9) [OF p]]
  have "\<not> ccap < MinChanCapacity" "\<not> initSend < 0" "\<not> ccap < 0" "\<not> ccap < initSend"
    "\<not> (initSend \<noteq> 0 \<and> initSend < MinOutput + wl_Fee wa * 1000)" "\<not> ccap - initSend < MinOutput + wl_Fee wa * 1000"
    using a w by (auto simp: fund_amounts_def)
  then show ?thesis
    using d(5,10) f fund_sideD(3) [OF d(1)] w(1-3)
    by (simp add: FundChannel_def Let_def started_def tmpSendLitMsg_def NewPointReqMsg_def)
qed

definition point_resp :: "node_env \<Rightarrow> u32 \<Rightarrow> u32 \<Rightarrow> u32 \<Rightarrow> point_resp_msg" where
  "point_resp ev coin p i = NewPointRespMsg p (chan_key ev coin p i UseChannelFund) (chan_key ev coin p i UseChannelRefund)
     (chan_key ev coin p i UseChannelHAKDBase) (base_key ev coin 0 i) (base_key ev coin 1 i)"

lemma fund_points:
  assumes p: "fund_pair fa fb coin pa pb wa wb op"
  shows "PointReqHandler fb nb (NewPointReqMsg pa coin) =
    (nb, [MsgPointResp (point_resp (fe_ev fb) coin pa (NextChannelIdx nb))], None)"
  using fund_pairD(6) [OF p] fund_sideD(1,3) [OF fund_pairD(2) [OF p]] use_pubs
  by (simp add: PointReqHandler_def Let_def NewPointReqMsg_def point_resp_def tmpSendLitMsg_def NewPointRespMsg_def)

lemma fund_outpoint_ok:
  assumes p: "fund_pair fa fb coin pa pb wa wb op" and q: "length (q_MyPub q) = 33" "length (q_TheirPub q) = 33"
    "Qchan_Coin q = coin" and a: "0 \<le> ff_Amt f"
  shows "fund_outpoint fa f q = Inr (op, wa)"
proof -
  obtain s w where "FundTxScript (q_MyPub q) (q_TheirPub q) = Inr (s, w)"
    using FundTxScript_ok [OF q(1,2)] by blast
  then show ?thesis
    using fund_pairD(5,11) [OF p] a q(3) by (simp add: fund_outpoint_def FundTxOut_def)
qed

definition put_chan :: "fund_node \<Rightarrow> outpoint \<Rightarrow> u32 \<Rightarrow> chan_data \<Rightarrow> fund_node" where
  "put_chan nd op i d =
     nd\<lparr>fu_node := (fu_node nd)\<lparr>nd_Channels := (nd_Channels (fu_node nd))(OutPointToBytes op := Some d)\<rparr>,
        fu_ChanMap := AList.update (U32tB i) (OutPointToBytes op) (fu_ChanMap nd)\<rparr>"

lemma save_put: "fund_SaveQChan nd q = put_chan nd (q_Op q) (Qchan_Idx q) (NewChanDataFromQchan q)"
  by (simp add: fund_SaveQChan_def put_chan_def SaveQChan_def)

lemma put_chan_simps [simp]:
  "nd_Channels (fu_node (put_chan nd op i d)) (OutPointToBytes op) = Some d"
  "fu_InProg (put_chan nd op i d) = fu_InProg nd"
  by (simp_all add: put_chan_def)

lemma put_put: "put_chan (put_chan nd op i d) op i d' = put_chan nd op i d'"
  by (simp add: put_chan_def AList.update_Some_unfold) 

definition chan_desc :: "node_env \<Rightarrow> u32 \<Rightarrow> u32 \<Rightarrow> u32 \<Rightarrow> outpoint \<Rightarrow> int \<Rightarrow> int \<Rightarrow> bytes \<Rightarrow> chan_desc_msg" where
  "chan_desc ev coin p i op ccap initSend data =
     (let pt = pt (ev_crypto ev) (chan_root ev coin p i) in
      NewChanDescMsg p op (chan_key ev coin p i UseChannelFund) (chan_key ev coin p i UseChannelRefund)
        (chan_key ev coin p i UseChannelHAKDBase) (base_key ev coin 0 i) (base_key ev coin 1 i) coin
        (of_int ccap) (of_int initSend) (pt 0) (pt 1) (pt 2) data)"

lemma fund_desc:
  fixes nd :: fund_node
  defines "f \<equiv> fu_InProg nd"
  assumes p: "fund_pair fa fb coin pa pb wa wb op" and a: "fund_amounts wa ccap initSend"
    and f: "ff_PeerIdx f = pb" "ff_Coin f = coin" "ff_Amt f = ccap" "ff_InitSend f = initSend" "ff_Data f = data"
      "ff_ChanIdx f = ia" and ia: "ia < 2 ^ 31"
  shows "PointRespHandler fa nd ((point_resp (fe_ev fb) coin pa ib)\<lparr>pr_PeerIdx := pb\<rparr>) =
    (put_chan (nd\<lparr>fu_InProg := f\<lparr>ff_op := Some op\<rparr>\<rparr>) op ia
       (opened (fe_ev fa) (fe_ev fb) coin pb ia pa ib op ccap 0 (ev_now (fe_ev fa))
         (opened_state (fe_ev fa) (fe_ev fb) coin ia ib (ccap - initSend) (wl_Fee wa * 10) data)),
     [MsgChanDesc (chan_desc (fe_ev fa) coin pb ia op ccap initSend data)], None)"
proof -
  let ?ev = "fe_ev fa" and ?msg = "(point_resp (fe_ev fb) coin pa ib)\<lparr>pr_PeerIdx := pb\<rparr>"
  note d = fund_pairD [OF p] and w = fund_amounts_words [OF a fund_pairD(8,9) [OF p]]
  note sa = fund_sideD [OF d(1)] and sb = fund_sideD [OF d(2)]
  note u = use_pubs [OF d(5) sa(1)]
  let ?q = "resp_chan ?ev f ?msg"
  have m: "pr_ChannelPub ?msg = chan_key (fe_ev fb) coin pa ib UseChannelFund"
    "pr_RefundPub ?msg = chan_key (fe_ev fb) coin pa ib UseChannelRefund"
    "pr_HAKDbase ?msg = chan_key (fe_ev fb) coin pa ib UseChannelHAKDBase"
    "pr_NextHTLCBase ?msg = base_key (fe_ev fb) coin 0 ib" "pr_N2HTLCBase ?msg = base_key (fe_ev fb) coin 1 ib"
    by (simp_all add: point_resp_def NewPointRespMsg_def)
  have q: "q_MyPub ?q = chan_key ?ev coin pb ia UseChannelFund" "q_TheirPub ?q = chan_key (fe_ev fb) coin pa ib UseChannelFund"
    "q_MyRefundPub ?q = chan_key ?ev coin pb ia UseChannelRefund" "q_MyHAKDBase ?q = chan_key ?ev coin pb ia UseChannelHAKDBase"
    "q_TheirRefundPub ?q = chan_key (fe_ev fb) coin pa ib UseChannelRefund"
    "q_TheirHAKDBase ?q = chan_key (fe_ev fb) coin pa ib UseChannelHAKDBase"
    "q_ElkSnd ?q = NewElkremSender (chan_root ?ev coin pb ia)" "q_KeyGen ?q = chan_keygen coin pb ia"
    by (simp_all add: resp_chan_def Let_def f u m new_Qchan_def new_PorTxo_def)
  have idx: "Qchan_Coin ?q = coin" "Qchan_Idx ?q = ia"
    using harden_index [OF sa(1)] harden_index [OF ia] by (simp_all add: Qchan_Coin_def Qchan_Idx_def q(8))
  have o: "fund_outpoint fa f ?q = Inr (op, wa)"
    using fund_outpoint_ok [OF p _ _ idx(1)] w(8) by (simp add: q sa(7) sb(7) f)
  have st: "resp_state fa f wa ?msg = Inr (opened_state ?ev (fe_ev fb) coin ia ib (ccap - initSend) (wl_Fee wa * 10) data)"
    by (simp add: resp_state_def m sb(10) f u w opened_state_def new_StatCom_def)
  let ?s = "opened_state ?ev (fe_ev fb) coin ia ib (ccap - initSend) (wl_Fee wa * 10) data"
  let ?q' = "?q\<lparr>q_Txo := (q_Txo ?q)\<lparr>px_Op := op\<rparr>, q_State := ?s\<rparr>"
  have sv: "fund_SaveQChan nd' ?q' = put_chan nd' op ia
      (opened ?ev (fe_ev fb) coin pb ia pa ib op ccap 0 (ev_now ?ev) ?s)" for nd'
    using idx(2) by (simp add: save_put Qchan_Idx_def q NewChanDataFromQchan_def opened_def)
      (simp add: resp_chan_def Let_def f new_Qchan_def new_PorTxo_def)
  have fp: "first_points (ev_crypto ?ev) ?q' = Inr (pt (ev_crypto ?ev) (chan_root ?ev coin pb ia) 0,
      pt (ev_crypto ?ev) (chan_root ?ev coin pb ia) 1, pt (ev_crypto ?ev) (chan_root ?ev coin pb ia) 2)"
    by (rule first_points_of) (simp_all add: q opened_state_def new_StatCom_def)
  have b: "st_MyNextHTLCBase ?s = base_key ?ev coin 0 ia" "st_MyN2HTLCBase ?s = base_key ?ev coin 1 ia"
    by (simp_all add: opened_state_def)
  show ?thesis
    using sv fp d(3,5) sb(8) o st f b sa(3)
    by (simp add: PointRespHandler_def Let_def f_def [symmetric] q chan_desc_def tmpSendLitMsg_def NewChanDescMsg_def)
qed

lemma load_chan:
  "nd_Channels (fu_node nd) (OutPointToBytes op) = Some d \<Longrightarrow> GetQchan ev (fu_node nd) (OutPointToBytes op) = Inr (chan_of ev d True)"
  by (simp add: GetQchan_def chan_of_def NewQchanFromChanData_def)

lemma restore_data: "NewChanDataFromQchan ((chan_of ev d c)\<lparr>q_State := s\<rparr>) = d\<lparr>cdt_State := s\<rparr>"
  by (cases d) (simp add: NewChanDataFromQchan_def chan_of_def NewQchanFromChanData_def)

lemma save_state_put:
  assumes "nd_Channels (fu_node nd) (OutPointToBytes op) = Some d" "px_Op (cdt_Txo d) = op" "q_Op q = op"
    "Qchan_Idx (chan_of ev d True) = i"
  shows "fund_SaveQchanState ev nd q = put_chan nd op i (d\<lparr>cdt_State := q_State q\<rparr>)"
  using assms by (simp add: fund_SaveQchanState_def load_chan save_put restore_data Qchan_Idx_def)

definition chan_ack :: "node_env \<Rightarrow> u32 \<Rightarrow> u32 \<Rightarrow> u32 \<Rightarrow> outpoint \<Rightarrow> bytes \<Rightarrow> chan_ack_msg" where
  "chan_ack ev coin p i op sig =
     (let pt = pt (ev_crypto ev) (chan_root ev coin p i) in NewChanAckMsg p op (pt 0) (pt 1) (pt 2) sig)"

lemma fund_store:
  assumes p: "fund_pair fa fb coin pa pb wa wb op" and a: "fund_amounts wa ccap initSend"
    and ib: "ib = NextChannelIdx nb" "ib < 2 ^ 31"
    and d: "d = opened (fe_ev fb) (fe_ev fa) coin pa ib pb ia op ccap TxoP2WSHComp 0
      (with_points (ev_crypto (fe_ev fa)) (chan_root (fe_ev fa) coin pb ia)
        (opened_state (fe_ev fb) (fe_ev fa) coin ib ia initSend (wl_Fee wa * 10) data))"
    and sig: "SignState (fe_ev fb) (chan_of (fe_ev fb) d True) = Inr (sig, hs)"
  shows "QChanDescHandler fb nb ((chan_desc (fe_ev fa) coin pb ia op ccap initSend data)\<lparr>cd_PeerIdx := pa\<rparr>) =
    (put_chan nb op ib d, [MsgChanAck (chan_ack (fe_ev fb) coin pa ib op sig)], None)"
proof -
  let ?ev = "fe_ev fb" and ?msg = "(chan_desc (fe_ev fa) coin pb ia op ccap initSend data)\<lparr>cd_PeerIdx := pa\<rparr>"
  note dd = fund_pairD [OF p] and w = fund_amounts_words [OF a fund_pairD(8,9) [OF p]]
  note sa = fund_sideD [OF dd(1)] and sb = fund_sideD [OF dd(2)]
  note u = use_pubs [OF dd(6) sb(1)]
  have m: "cd_CoinType ?msg = coin" "cd_PeerIdx ?msg = pa" "cd_Outpoint ?msg = op" "cd_Capacity ?msg = of_int ccap"
    "cd_InitPayment ?msg = of_int initSend" "cd_Data ?msg = data"
    "cd_NextHTLCBase ?msg = base_key (fe_ev fa) coin 0 ia" "cd_N2HTLCBase ?msg = base_key (fe_ev fa) coin 1 ia"
    "cd_PubKey ?msg = chan_key (fe_ev fa) coin pb ia UseChannelFund"
    "cd_RefundPub ?msg = chan_key (fe_ev fa) coin pb ia UseChannelRefund"
    "cd_HAKDbase ?msg = chan_key (fe_ev fa) coin pb ia UseChannelHAKDBase"
    "cd_ElkZero ?msg = pt (ev_crypto (fe_ev fa)) (chan_root (fe_ev fa) coin pb ia) 0"
    "cd_ElkOne ?msg = pt (ev_crypto (fe_ev fa)) (chan_root (fe_ev fa) coin pb ia) 1"
    "cd_ElkTwo ?msg = pt (ev_crypto (fe_ev fa)) (chan_root (fe_ev fa) coin pb ia) 2"
    by (simp_all add: chan_desc_def NewChanDescMsg_def Let_def)
  have st: "desc_state fb ib wb ?msg = Inr (cdt_State d)"
    by (simp add: desc_state_def m sa(10) u w dd(7) d with_points_def opened_state_def new_StatCom_def)
  have k: "q_Op (desc_chan ?ev ib ?msg) = op" "q_KeyGen (desc_chan ?ev ib ?msg) = chan_keygen coin pa ib"
    by (simp_all add: desc_chan_def Let_def m new_Qchan_def new_PorTxo_def)
  have dt: "NewChanDataFromQchan ((desc_chan ?ev ib ?msg)\<lparr>q_State := cdt_State d\<rparr>) = d"
    by (simp add: NewChanDataFromQchan_def d opened_def)
      (simp add: desc_chan_def Let_def m w new_Qchan_def new_PorTxo_def)
  have sv: "fund_SaveQChan nb ((desc_chan ?ev ib ?msg)\<lparr>q_State := cdt_State d\<rparr>) = put_chan nb op ib d"
    using dt harden_index [OF ib(2)] by (simp add: save_put k Qchan_Idx_def)
  have "q_ElkSnd (chan_of ?ev d True) = NewElkremSender (chan_root ?ev coin pa ib)"
    using opened_keys [OF dd(6) sb(1)] by (simp add: d)
  moreover have "st_StateIdx (cdt_State d) = 0"
    by (simp add: d with_points_def opened_state_def new_StatCom_def)
  ultimately have fp: "first_points (ev_crypto ?ev) (chan_of ?ev d True) = Inr (pt (ev_crypto ?ev) (chan_root ?ev coin pa ib) 0,
      pt (ev_crypto ?ev) (chan_root ?ev coin pa ib) 1, pt (ev_crypto ?ev) (chan_root ?ev coin pa ib) 2)"
    by (intro first_points_of) simp_all
  show ?thesis
    using st dd(6) sv fp sig sb(3)
    by (simp add: QChanDescHandler_def Let_def m ib(1) [symmetric] load_chan chan_ack_def NewChanAckMsg_def tmpSendLitMsg_def)
qed

text \<open>What the two sides do when the channel is open: the node after its acknowledgement or its signature.\<close>

definition open_chan :: "fund_node \<Rightarrow> outpoint \<Rightarrow> qchan \<Rightarrow> fund_node" where
  "open_chan nd op q = nd\<lparr>fu_watched := fu_watched nd @ [op], fu_exported := fu_exported nd @ [null_txo q]\<rparr>"

lemma fund_ack:
  assumes p: "fund_pair fa fb coin pa pb wa wb op" and ia: "ia < 2 ^ 31"
    and ld: "nd_Channels (fu_node na) (OutPointToBytes op) = Some d" and dn: "ff_done (fu_InProg na) = None"
    and d: "d = opened (fe_ev fa) (fe_ev fb) coin pb ia pa ib op ccap mode t s"
    and s': "s' = with_points (ev_crypto (fe_ev fb)) (chan_root (fe_ev fb) coin pa ib) s"
    and q: "q = chan_of (fe_ev fa) (d\<lparr>cdt_State := s'\<rparr>) True" "q' = q\<lparr>q_State := s'\<lparr>st_Sig := sig\<rparr>\<rparr>"
    and ver: "VerifySigs (fe_ev fa) q sig [] = Inr q'" and sg: "SignState (fe_ev fa) q' = Inr (sig2, hs)"
  shows "QChanAckHandler fa na rp ((chan_ack (fe_ev fb) coin pa ib op sig)\<lparr>ak_PeerIdx := pb\<rparr>) =
    (open_chan ((put_chan na op ia (d\<lparr>cdt_State := s'\<lparr>st_Sig := sig\<rparr>\<rparr>))\<lparr>fu_sent := fu_sent na @ [op_Hash op],
       fu_InProg := InFlightFund_Clear ((fu_InProg na)\<lparr>ff_done := Some ia\<rparr>)\<rparr>) op q',
     peer_add rp (OutPointToBytes op) q', [MsgSigProof (NewSigProofMsg pb op sig2)], None)"
proof -
  let ?ev = "fe_ev fa" and ?msg = "(chan_ack (fe_ev fb) coin pa ib op sig)\<lparr>ak_PeerIdx := pb\<rparr>"
  note dd = fund_pairD [OF p] and sa = fund_sideD [OF fund_pairD(1) [OF p]]
  have m: "ak_Outpoint ?msg = op" "ak_PeerIdx ?msg = pb" "ak_Signature ?msg = sig"
    "ak_ElkZero ?msg = pt (ev_crypto (fe_ev fb)) (chan_root (fe_ev fb) coin pa ib) 0"
    "ak_ElkOne ?msg = pt (ev_crypto (fe_ev fb)) (chan_root (fe_ev fb) coin pa ib) 1"
    "ak_ElkTwo ?msg = pt (ev_crypto (fe_ev fb)) (chan_root (fe_ev fb) coin pa ib) 2"
    by (simp_all add: chan_ack_def NewChanAckMsg_def Let_def)
  have op: "px_Op (cdt_Txo d) = op" "q_Op q' = op" by (simp_all add: d q)
  have idx: "Qchan_Idx (chan_of ?ev d True) = ia" "Qchan_Idx q' = ia" "Qchan_Coin q' = coin"
    using opened_index(1) [OF sa(1)] opened_index(3) [OF ia] by (simp_all add: d q chan_of_state Qchan_Idx_def Qchan_Coin_def)
  have q0: "(chan_of ?ev d True)\<lparr>q_State := s'\<rparr> = q"
    by (simp add: q chan_of_state)
  have s0: "(cdt_State d)\<lparr>st_ElkPoint := ak_ElkZero ?msg, st_NextElkPoint := ak_ElkOne ?msg, st_N2ElkPoint := ak_ElkTwo ?msg\<rparr> = s'"
    by (simp add: s' d with_points_def m)
  have sv: "fund_SaveQchanState ?ev na q' = put_chan na op ia (d\<lparr>cdt_State := s'\<lparr>st_Sig := sig\<rparr>\<rparr>)"
    using save_state_put [OF ld op idx(1)] by (simp add: q(2))
  show ?thesis
    using ver sg sv s0 q0 idx op sa(3,6) dd(12) dn
    by (simp add: QChanAckHandler_def Let_def m load_chan [OF ld] open_chan_def tmpSendLitMsg_def NewSigProofMsg_def
        put_chan_def)
qed

lemma fund_proof:
  assumes p: "fund_pair fa fb coin pa pb wa wb op" and ib: "ib < 2 ^ 31"
    and ld: "nd_Channels (fu_node nb) (OutPointToBytes op) = Some d"
    and d: "d = opened (fe_ev fb) (fe_ev fa) coin pa ib pb ia op ccap mode t s"
    and q: "q = chan_of (fe_ev fb) d True" "q' = q\<lparr>q_State := s\<lparr>st_Sig := sig\<rparr>\<rparr>"
    and ver: "VerifySigs (fe_ev fb) q sig [] = Inr q'"
  shows "SigProofHandler fb nb rp ((NewSigProofMsg pb op sig)\<lparr>sp_PeerIdx := pa\<rparr>) =
    (open_chan (put_chan nb op ib (d\<lparr>cdt_State := s\<lparr>st_Sig := sig\<rparr>\<rparr>)) op q', peer_add rp (OutPointToBytes op) q', [], None)"
proof -
  let ?ev = "fe_ev fb"
  note dd = fund_pairD [OF p] and sb = fund_sideD [OF fund_pairD(2) [OF p]]
  have op: "px_Op (cdt_Txo d) = op" "q_Op q' = op" by (simp_all add: d q)
  have idx: "Qchan_Idx (chan_of ?ev d True) = ib" "Qchan_Coin q = coin" "Qchan_Coin q' = coin" "Qchan_Peer q' = pa"
    using opened_index(1) [OF sb(1)] opened_index(2) [OF sb(2)] opened_index(3) [OF ib]
    by (simp_all add: d q chan_of_state Qchan_Idx_def Qchan_Coin_def Qchan_Peer_def)
  have sv: "fund_SaveQchanState ?ev nb q' = put_chan nb op ib (d\<lparr>cdt_State := s\<lparr>st_Sig := sig\<rparr>\<rparr>)"
    using save_state_put [OF ld op idx(1)] by (simp add: q(2))
  show ?thesis
    using ver sv idx op sb(4,5,6) dd(6)
    by (simp add: SigProofHandler_def Let_def NewSigProofMsg_def load_chan [OF ld, of ?ev] q(1) [symmetric] open_chan_def put_chan_def)
qed

section \<open>The signatures of state zero\<close>

lemma opened_state_simps [simp]:
  "st_MyAmt (opened_state ev ev' coin i i' amt fee data) = amt" "st_Fee (opened_state ev ev' coin i i' amt fee data) = fee"
  "st_StateIdx (opened_state ev ev' coin i i' amt fee data) = 0" "st_HTLCs (opened_state ev ev' coin i i' amt fee data) = []"
  "st_InProgHTLC (opened_state ev ev' coin i i' amt fee data) = None"
  "st_CollidingHTLC (opened_state ev ev' coin i i' amt fee data) = None"
  "st_Data (opened_state ev ev' coin i i' amt fee data) = data"
  "quiet (opened_state ev ev' coin i i' amt fee data)"
  by (simp_all add: opened_state_def new_StatCom_def quiet_def)

lemma with_points_simps [simp]:
  "st_MyAmt (with_points cr r s) = st_MyAmt s" "st_Fee (with_points cr r s) = st_Fee s" "st_Data (with_points cr r s) = st_Data s"
  "st_StateIdx (with_points cr r s) = st_StateIdx s" "st_HTLCs (with_points cr r s) = st_HTLCs s"
  "st_InProgHTLC (with_points cr r s) = st_InProgHTLC s" "st_CollidingHTLC (with_points cr r s) = st_CollidingHTLC s"
  "st_ElkPoint (with_points cr r s) = pt cr r 0" "quiet (with_points cr r s) = quiet s"
  by (simp_all add: with_points_def quiet_def)

lemma opened_link:
  assumes "fund_pair fa fb coin pa pb wa wb op"
  shows "link_keys (fe_ev fa) (fe_ev fb) (opened (fe_ev fa) (fe_ev fb) coin pb ia pa ib op v m t s)"
    "link_keys (fe_ev fb) (fe_ev fa) (opened (fe_ev fb) (fe_ev fa) coin pa ib pb ia op v m t s)"
  using fund_pairD(5,6) [OF assms] fund_sideD(1,7) [OF fund_pairD(1) [OF assms]] fund_sideD(1,7) [OF fund_pairD(2) [OF assms]]
    fund_side_signs [OF fund_pairD(1) [OF assms]] fund_side_signs [OF fund_pairD(2) [OF assms]]
  by (simp_all add: link_keys_def opened_keys opened_index del: chan_of_simps)

text \<open>Both directions of the exchange of signatures, whatever else the states hold.\<close>

lemma opened_exchange:
  fixes amt amt' :: int
  assumes p: "fund_pair fa fb coin pa pb wa wb op" and a: "amt + amt' = v" "v < 2 ^ 62" "amt \<noteq> 0 \<or> amt' \<noteq> 0"
      "amt \<noteq> 0 \<longrightarrow> MinOutput + wl_Fee wa * 10 \<le> amt" "amt' \<noteq> 0 \<longrightarrow> MinOutput + wl_Fee wa * 10 \<le> amt'"
    and dA: "dA = opened (fe_ev fa) (fe_ev fb) coin pb ia pa ib op v mA tA
      ((with_points (ev_crypto (fe_ev fb)) (chan_root (fe_ev fb) coin pa ib)
        (opened_state (fe_ev fa) (fe_ev fb) coin ia ib amt (wl_Fee wa * 10) data))\<lparr>st_Sig := sA\<rparr>)"
    and dB: "dB = opened (fe_ev fb) (fe_ev fa) coin pa ib pb ia op v mB tB
      ((with_points (ev_crypto (fe_ev fa)) (chan_root (fe_ev fa) coin pb ia)
        (opened_state (fe_ev fb) (fe_ev fa) coin ib ia amt' (wl_Fee wa * 10) data))\<lparr>st_Sig := sB\<rparr>)"
  shows "\<exists>sig. SignState (fe_ev fa) (chan_of (fe_ev fa) dA True) = Inr (sig, []) \<and>
      VerifySigs (fe_ev fb) (chan_of (fe_ev fb) dB True) sig [] =
        Inr ((chan_of (fe_ev fb) dB True)\<lparr>q_State := (cdt_State dB)\<lparr>st_Sig := sig\<rparr>\<rparr>)"
    "\<exists>sig. SignState (fe_ev fb) (chan_of (fe_ev fb) dB True) = Inr (sig, []) \<and>
      VerifySigs (fe_ev fa) (chan_of (fe_ev fa) dA True) sig [] =
        Inr ((chan_of (fe_ev fa) dA True)\<lparr>q_State := (cdt_State dA)\<lparr>st_Sig := sig\<rparr>\<rparr>)"
proof -
  note dd = fund_pairD [OF p] and ks = opened_link [OF p]
  have co: "coin < 2 ^ 31" using fund_sideD [OF dd(1)] by simp
  have m: "static_mirror (chan_of (fe_ev fa) dA True) (chan_of (fe_ev fb) dB True)"
    unfolding dA dB by (rule opened_mirror [OF dd(5,6) co])
  have r: "root_of (fe_ev fa) dA = chan_root (fe_ev fa) coin pb ia" "root_of (fe_ev fb) dB = chan_root (fe_ev fb) coin pa ib"
    by (simp_all add: dA dB opened_keys [OF dd(5) co] opened_keys [OF dd(6) co])
  have a': "amt' + amt = v" "amt' \<noteq> 0 \<or> amt \<noteq> 0" using a by auto
  show "\<exists>sig. SignState (fe_ev fa) (chan_of (fe_ev fa) dA True) = Inr (sig, []) \<and>
      VerifySigs (fe_ev fb) (chan_of (fe_ev fb) dB True) sig [] =
        Inr ((chan_of (fe_ev fb) dB True)\<lparr>q_State := (cdt_State dB)\<lparr>st_Sig := sig\<rparr>\<rparr>)"
    unfolding chan_of_simps(2) [of "fe_ev fb" dB True, symmetric]
    by (rule exchange [OF likeI likeI dd(4) m]) (use ks a dd(4,8) r in \<open>simp_all add: dA dB maxIndex_def\<close>)
  show "\<exists>sig. SignState (fe_ev fb) (chan_of (fe_ev fb) dB True) = Inr (sig, []) \<and>
      VerifySigs (fe_ev fa) (chan_of (fe_ev fa) dA True) sig [] =
        Inr ((chan_of (fe_ev fa) dA True)\<lparr>q_State := (cdt_State dA)\<lparr>st_Sig := sig\<rparr>\<rparr>)"
    unfolding chan_of_simps(2) [of "fe_ev fa" dA True, symmetric]
    by (rule exchange [OF likeI likeI dd(4) [symmetric] static_mirror_sym [OF m]])
      (use ks a a' dd(4,8) r in \<open>simp_all add: dA dB maxIndex_def\<close>)
qed

section \<open>An honest funding\<close>

text \<open>
  One side of the conversation: its environment, what it calls the peer, its node and what it keeps of the
  peer. \<open>relay\<close> hands messages back and forth, at most \<open>n\<close> of them, until both are silent; it gives up on
  an error.
\<close>

type_synonym side = "fund_env \<times> u32 \<times> fund_node \<times> remote_peer"

definition receive :: "side \<Rightarrow> lit_msg list \<Rightarrow> (side \<times> lit_msg list) option" where
  "receive b ms =
     (case b of (fe, p, nd, rp) \<Rightarrow>
        (case ms of [m] \<Rightarrow>
           (case deliver p m of Inl e \<Rightarrow> None
            | Inr m' \<Rightarrow>
              (case ChannelHandler (\<lambda>nd rp m. (nd, rp, [], None)) fe nd rp m' of
                 (nd, rp, out, e) \<Rightarrow> if e = None then Some ((fe, p, nd, rp), out) else None))
         | _ \<Rightarrow> None))"

fun relay :: "nat \<Rightarrow> side \<Rightarrow> side \<Rightarrow> lit_msg list \<Rightarrow> (side \<times> side) option" where
  "relay n a b [] = Some (a, b)"
| "relay 0 a b (m # ms) = None"
| "relay (Suc n) a b (m # ms) =
     (case receive b (m # ms) of None \<Rightarrow> None | Some (b', out) \<Rightarrow> map_option prod.swap (relay n b' a out))"

definition confirmed :: "int \<Rightarrow> chan_data \<Rightarrow> chan_data" where
  "confirmed h d = d\<lparr>cdt_Txo := (cdt_Txo d)\<lparr>px_Height := h\<rparr>\<rparr>"

lemma confirm_put:
  assumes "nd_Channels (fu_node nd) (OutPointToBytes op) = Some d" "px_Op (cdt_Txo d) = op" "\<not> cl_Closed (cdt_CloseData d)"
  shows "stored (fu_node (confirm_channel ev nd op h)) op (confirmed h d)"
proof -
  have "NewChanDataFromQchan ((chan_of ev d True)\<lparr>q_Txo := (cdt_Txo d)\<lparr>px_Height := h\<rparr>\<rparr>) = confirmed h d"
    by (cases d) (simp add: NewChanDataFromQchan_def chan_of_def NewQchanFromChanData_def confirmed_def)
  then show ?thesis
    using assms by (simp add: confirm_channel_def load_chan fund_SaveQchanUtxoData_def Let_def save_put stored_def)
      (simp add: confirmed_def)
qed

lemma confirmed_sync:
  assumes p: "fund_pair fa fb coin pa pb wa wb op" and a: "fund_amounts wa ccap initSend"
    and h: "wl_TestCoin wa \<or> 100 \<le> h" "wl_TestCoin wb \<or> 100 \<le> h'"
    and dA: "dA = opened (fe_ev fa) (fe_ev fb) coin pb ia pa ib op ccap mA tA
      ((with_points (ev_crypto (fe_ev fb)) (chan_root (fe_ev fb) coin pa ib)
        (opened_state (fe_ev fa) (fe_ev fb) coin ia ib (ccap - initSend) (wl_Fee wa * 10) data))\<lparr>st_Sig := sA\<rparr>)"
    and dB: "dB = opened (fe_ev fb) (fe_ev fa) coin pa ib pb ia op ccap mB tB
      ((with_points (ev_crypto (fe_ev fa)) (chan_root (fe_ev fa) coin pb ia)
        (opened_state (fe_ev fb) (fe_ev fa) coin ib ia initSend (wl_Fee wa * 10) data))\<lparr>st_Sig := sB\<rparr>)"
  shows "in_sync (fe_ev fa) (confirmed h dA) (fe_ev fb) (confirmed h' dB)"
proof -
  note dd = fund_pairD [OF p] and w = fund_amounts_words [OF a fund_pairD(8,9) [OF p]] and ks = opened_link [OF p]
  have co: "coin < 2 ^ 31" using fund_sideD [OF dd(1)] by simp
  have k: "link_keys (fe_ev fa) (fe_ev fb) dA" "link_keys (fe_ev fb) (fe_ev fa) dB"
    unfolding dA dB by (rule ks)+
  have c: "chan_of ev (confirmed x d) True = (chan_of ev d True)\<lparr>q_Txo := (cdt_Txo d)\<lparr>px_Height := x\<rparr>\<rparr>" for ev x d
    by (simp add: chan_of_def NewQchanFromChanData_def confirmed_def)
  have e: "px_KeyGen (cdt_Txo (confirmed x d)) = px_KeyGen (cdt_Txo d)" "cdt_State (confirmed x d) = cdt_State d"
    "px_Height (cdt_Txo (confirmed x d)) = x" "px_Value (cdt_Txo (confirmed x d)) = px_Value (cdt_Txo d)"
    "cdt_CloseData (confirmed x d) = cdt_CloseData d" "root_of ev (confirmed x d) = root_of ev d" for x d ev
    by (simp_all add: confirmed_def root_of_def)
  have m: "static_mirror (chan_of (fe_ev fa) (confirmed h dA) True) (chan_of (fe_ev fb) (confirmed h' dB) True)"
    using opened_mirror [OF dd(5,6) co] unfolding dA dB c static_mirror_def by simp
  have i: "Qchan_Coin (chan_of (fe_ev fa) (confirmed h dA) True) = coin" "Qchan_Coin (chan_of (fe_ev fb) (confirmed h' dB) True) = coin"
    "Qchan_Peer (chan_of (fe_ev fa) (confirmed h dA) True) = pb" "Qchan_Peer (chan_of (fe_ev fb) (confirmed h' dB) True) = pa"
    using harden_index [OF co] harden_index [OF fund_sideD(2) [OF dd(1)]] harden_index [OF fund_sideD(2) [OF dd(2)]]
    by (simp_all add: e dA dB)
  have nc: "\<not> cl_Closed (cdt_CloseData dA)" "\<not> cl_Closed (cdt_CloseData dB)" by (simp_all add: dA dB)
  have l: "link_ok (fe_ev fa) (fe_ev fb) (confirmed h dA)" "link_ok (fe_ev fb) (fe_ev fa) (confirmed h' dB)"
    unfolding link_ok_def unfolding i unfolding e c
    using k [unfolded link_keys_def] h nc fund_side_safe [OF dd(1)] fund_side_safe [OF dd(2)]
      fund_sideD(3,4) [OF dd(1)] fund_sideD(3,4) [OF dd(2)] by (simp_all add: dd(5,6))
  have r: "root_of (fe_ev fa) dA = chan_root (fe_ev fa) coin pb ia" "root_of (fe_ev fb) dB = chan_root (fe_ev fb) coin pa ib"
    by (simp_all add: dA dB opened_keys [OF dd(5) co] opened_keys [OF dd(6) co])
  have q: "quiet (s\<lparr>st_Sig := x\<rparr>) = quiet s" for s x by (simp add: quiet_def)
  show ?thesis
    unfolding in_sync_def e r points_at_def
    using m l a w(7,8) dd(4,8,9) by (simp add: dA dB q fund_amounts_def) (simp add: with_points_def)
qed

lemma receive_ok:
  assumes "deliver p m = Inr m'" "fu_DualPeer nd = 0" "ChannelHandler (\<lambda>nd rp m. (nd, rp, [], None)) fe nd rp m' = (nd', rp', out, None)"
  shows "receive (fe, p, nd, rp) [m] = Some ((fe, p, nd', rp'), out)"
  using assms by (simp add: receive_def)

lemma relay_step:
  assumes "receive b [m] = Some (b', out)" "relay n b' a out = Some (x, y)"
  shows "relay (Suc n) a b [m] = Some (y, x)"
  using assms by simp

lemma SignState_length:
  assumes "SignState ev q = Inr (sig, hs)" "\<And>k s t v sig. ev_sign ev k s t v = Inr sig \<Longrightarrow> length sig = 64"
  shows "length sig = 64"
  using assms by (auto simp: SignState_def bind_res_eq_Inr split: if_splits)

text \<open>The whole run, with what both sides hold afterwards.\<close>

lemma honest_fund:
  assumes p: "fund_pair fa fb coin pa pb wa wb op" and a: "fund_amounts wa ccap initSend" and len: "length data = 32"
    and na: "ff_PeerIdx (fu_InProg na) = 0" "ff_done (fu_InProg na) = None" "fu_DualPeer na = 0" "NextChannelIdx na < 2 ^ 31"
    and nb: "fu_DualPeer nb = 0" "NextChannelIdx nb < 2 ^ 31"
    and h: "wl_TestCoin wa \<or> 100 \<le> h" "wl_TestCoin wb \<or> 100 \<le> h'"
  shows "\<exists>na1 ms na2 ra nb2 rb d d' q q'.
    FundChannel fa na pb coin ccap initSend data = (na1, ms, None) \<and>
    relay 5 (fa, pb, na1, rpa) (fb, pa, nb, rpb) ms = Some ((fa, pb, na2, ra), (fb, pa, nb2, rb)) \<and>
    snd (FundChannel_wait na2) = Inr (NextChannelIdx na) \<and> ff_PeerIdx (fu_InProg na2) = 0 \<and>
    fu_sent na2 = fu_sent na @ [op_Hash op] \<and>
    rp_QCs ra (NextChannelIdx na) = Some q \<and> rp_QCs rb (NextChannelIdx nb) = Some q' \<and> q_Op q = op \<and> q_Op q' = op \<and>
    idle (fu_node (confirm_channel (fe_ev fa) na2 op h), q) d \<and>
    idle (fu_node (confirm_channel (fe_ev fb) nb2 op h'), q') d' \<and>
    in_sync (fe_ev fa) d (fe_ev fb) d' \<and> st_StateIdx (cdt_State d) = 0 \<and>
    balances d d' = (ccap - initSend, initSend) \<and> st_Fee (cdt_State d) = wl_Fee wa * 10 \<and>
    st_Data (cdt_State d) = data \<and> st_Data (cdt_State d') = data"
proof -
  let ?ea = "fe_ev fa" and ?eb = "fe_ev fb" and ?ia = "NextChannelIdx na" and ?ib = "NextChannelIdx nb" and ?fee = "wl_Fee wa * 10"
  note dd = fund_pairD [OF p] and w = fund_amounts_words [OF a fund_pairD(8,9) [OF p]]
  note sa = fund_sideD [OF dd(1)] and sb = fund_sideD [OF dd(2)]
  define na1 where "na1 = na\<lparr>fu_InProg := started na pb coin ccap initSend data\<rparr>"
  define sA where "sA = opened_state ?ea ?eb coin ?ia ?ib (ccap - initSend) ?fee data"
  define dA where "dA = opened ?ea ?eb coin pb ?ia pa ?ib op ccap 0 (ev_now ?ea) sA"
  define sB where "sB = with_points (ev_crypto ?ea) (chan_root ?ea coin pb ?ia) (opened_state ?eb ?ea coin ?ib ?ia initSend ?fee data)"
  define dB where "dB = opened ?eb ?ea coin pa ?ib pb ?ia op ccap TxoP2WSHComp 0 sB"
  define sA' where "sA' = with_points (ev_crypto ?eb) (chan_root ?eb coin pa ?ib) sA"
  define qA where "qA = chan_of ?ea (dA\<lparr>cdt_State := sA'\<rparr>) True"
  define qB where "qB = chan_of ?eb dB True"
  have am: "(ccap - initSend) + initSend = ccap" "ccap < 2 ^ 62" "ccap - initSend \<noteq> 0 \<or> initSend \<noteq> 0"
    "ccap - initSend \<noteq> 0 \<longrightarrow> MinOutput + ?fee \<le> ccap - initSend" "initSend \<noteq> 0 \<longrightarrow> MinOutput + ?fee \<le> initSend"
    using a dd(8) by (auto simp: fund_amounts_def MinOutput_def)
  have nosig: "s\<lparr>st_Sig := st_Sig s\<rparr> = s" for s :: stat_com by simp
  have dA0: "dA\<lparr>cdt_State := sA'\<rparr> = opened ?ea ?eb coin pb ?ia pa ?ib op ccap 0 (ev_now ?ea) (sA'\<lparr>st_Sig := st_Sig sA'\<rparr>)"
    by (simp add: dA_def)
  have dB0: "dB = opened ?eb ?ea coin pa ?ib pb ?ia op ccap TxoP2WSHComp 0 (sB\<lparr>st_Sig := st_Sig sB\<rparr>)"
    by (simp add: dB_def)
  obtain sig where sig: "SignState ?eb qB = Inr (sig, [])" "VerifySigs ?ea qA sig [] = Inr (qA\<lparr>q_State := sA'\<lparr>st_Sig := sig\<rparr>\<rparr>)"
    using opened_exchange(2) [OF p am dA0 [unfolded sA'_def sA_def] dB0 [unfolded sB_def]]
    unfolding qA_def qB_def sA'_def sA_def sB_def by fastforce
  define qA' where "qA' = qA\<lparr>q_State := sA'\<lparr>st_Sig := sig\<rparr>\<rparr>"
  have qA'_alt: "qA' = chan_of ?ea (dA\<lparr>cdt_State := sA'\<lparr>st_Sig := sig\<rparr>\<rparr>) True"
    by (simp add: qA'_def qA_def chan_of_state)
  have dA1: "dA\<lparr>cdt_State := sA'\<lparr>st_Sig := sig\<rparr>\<rparr> = opened ?ea ?eb coin pb ?ia pa ?ib op ccap 0 (ev_now ?ea) (sA'\<lparr>st_Sig := sig\<rparr>)"
    by (simp add: dA_def)
  obtain sig2 where sig2: "SignState ?ea qA' = Inr (sig2, [])" "VerifySigs ?eb qB sig2 [] = Inr (qB\<lparr>q_State := sB\<lparr>st_Sig := sig2\<rparr>\<rparr>)"
    using opened_exchange(1) [OF p am dA1 [unfolded sA'_def sA_def] dB0 [unfolded sB_def]]
    unfolding qA'_alt qB_def sA'_def sA_def sB_def by (fastforce simp: dB_def sB_def)
  let ?msg2 = "point_resp ?eb coin pa ?ib" and ?msg3 = "chan_desc ?ea coin pb ?ia op ccap initSend data"
    and ?msg4 = "chan_ack ?eb coin pa ?ib op sig" and ?msg5 = "NewSigProofMsg pb op sig2"
  have "length sig = 64" "length sig2 = 64"
    using SignState_length [OF sig(1) sb(11)] SignState_length [OF sig2(1) sa(11)] by simp_all
  then have wf: "wf_point_resp_msg ?msg2" "wf_chan_desc_msg ?msg3" "wf_chan_ack_msg ?msg4" "wf_sig_proof_msg ?msg5"
    using sa(7,9,12) sb(7,9,12) dd(13) len
    by (simp_all add: wf_point_resp_msg_def point_resp_def NewPointRespMsg_def wf_chan_desc_msg_def chan_desc_def Let_def
        NewChanDescMsg_def wf_chan_ack_msg_def chan_ack_def NewChanAckMsg_def wf_sig_proof_msg_def NewSigProofMsg_def maxIndex_def)
  note dl = deliver_msgs(1) deliver_msgs(2) [OF wf(1)] deliver_msgs(3) [OF wf(2)] deliver_msgs(4) [OF wf(3)] deliver_msgs(5) [OF wf(4)]
  define na2 where "na2 = put_chan (na1\<lparr>fu_InProg := (fu_InProg na1)\<lparr>ff_op := Some op\<rparr>\<rparr>) op ?ia dA"
  define nb1 where "nb1 = put_chan nb op ?ib dB"
  define na3 where "na3 = open_chan ((put_chan na2 op ?ia (dA\<lparr>cdt_State := sA'\<lparr>st_Sig := sig\<rparr>\<rparr>))\<lparr>fu_sent := fu_sent na2 @ [op_Hash op],
       fu_InProg := InFlightFund_Clear ((fu_InProg na2)\<lparr>ff_done := Some ?ia\<rparr>)\<rparr>) op qA'"
  define qB' where "qB' = qB\<lparr>q_State := sB\<lparr>st_Sig := sig2\<rparr>\<rparr>"
  define nb2 where "nb2 = open_chan (put_chan nb1 op ?ib (dB\<lparr>cdt_State := sB\<lparr>st_Sig := sig2\<rparr>\<rparr>)) op qB'"
  have pr: "(NewPointReqMsg pb coin)\<lparr>pq_PeerIdx := pa\<rparr> = NewPointReqMsg pa coin"
    by (simp add: NewPointReqMsg_def)
  have dual: "fu_DualPeer na1 = 0" "fu_DualPeer na2 = 0" "fu_DualPeer nb1 = 0"
    using na nb by (simp_all add: na1_def na2_def nb1_def put_chan_def)
  have f1: "ff_PeerIdx (fu_InProg na1) = pb" "ff_Coin (fu_InProg na1) = coin" "ff_Amt (fu_InProg na1) = ccap"
    "ff_InitSend (fu_InProg na1) = initSend" "ff_Data (fu_InProg na1) = data" "ff_ChanIdx (fu_InProg na1) = ?ia"
    by (simp_all add: na1_def started_def)
  have r1: "receive (fb, pa, nb, rpb) [MsgPointReq (NewPointReqMsg pb coin)] = Some ((fb, pa, nb, rpb), [MsgPointResp ?msg2])"
    by (rule receive_ok [OF dl(1) nb(1)]) (use nb(1) in \<open>simp add: pr ChannelHandler_def keep_peer_def fund_points [OF p]\<close>)
  have r2: "receive (fa, pb, na1, rpa) [MsgPointResp ?msg2] = Some ((fa, pb, na2, rpa), [MsgChanDesc ?msg3])"
    by (rule receive_ok [OF dl(2) dual(1)])
      (use dual(1) fund_desc [OF p a f1 na(4), of ?ib] in \<open>simp add: ChannelHandler_def keep_peer_def na2_def dA_def sA_def\<close>)
  have r3: "receive (fb, pa, nb, rpb) [MsgChanDesc ?msg3] = Some ((fb, pa, nb1, rpb), [MsgChanAck ?msg4])"
    by (rule receive_ok [OF dl(3) nb(1)])
      (use nb(1) fund_store [OF p a refl nb(2) dB_def [unfolded sB_def] sig(1) [unfolded qB_def]]
        in \<open>simp add: ChannelHandler_def keep_peer_def nb1_def\<close>)
  have ldA: "nd_Channels (fu_node na2) (OutPointToBytes op) = Some dA" "ff_done (fu_InProg na2) = None"
    using na(2) by (simp_all add: na2_def na1_def started_def)
  have r4: "receive (fa, pb, na2, rpa) [MsgChanAck ?msg4] =
      Some ((fa, pb, na3, peer_add rpa (OutPointToBytes op) qA'), [MsgSigProof ?msg5])"
    by (rule receive_ok [OF dl(4) dual(2)])
      (use dual(2) fund_ack [OF p na(4) ldA dA_def sA'_def qA_def qA'_def sig(2) [folded qA'_def] sig2(1)]
        in \<open>simp add: ChannelHandler_def na3_def\<close>)
  have ldB: "nd_Channels (fu_node nb1) (OutPointToBytes op) = Some dB"
    by (simp add: nb1_def)
  have r5: "receive (fb, pa, nb1, rpb) [MsgSigProof ?msg5] = Some ((fb, pa, nb2, peer_add rpb (OutPointToBytes op) qB'), [])"
    by (rule receive_ok [OF dl(5) dual(3)])
      (use dual(3) fund_proof [OF p nb(2) ldB dB_def qB_def qB'_def sig2(2) [folded qB'_def]]
        in \<open>simp add: ChannelHandler_def nb2_def\<close>)
  have five: "(5 :: nat) = Suc (Suc (Suc (Suc (Suc 0))))" by simp
  have rl: "relay 5 (fa, pb, na1, rpa) (fb, pa, nb, rpb) [MsgPointReq (NewPointReqMsg pb coin)] =
      Some ((fa, pb, na3, peer_add rpa (OutPointToBytes op) qA'), (fb, pa, nb2, peer_add rpb (OutPointToBytes op) qB'))"
    unfolding five
    by (rule relay_step [OF r1], rule relay_step [OF r2], rule relay_step [OF r3], rule relay_step [OF r4],
        rule relay_step [OF r5]) simp
  let ?dA = "dA\<lparr>cdt_State := sA'\<lparr>st_Sig := sig\<rparr>\<rparr>" and ?dB = "dB\<lparr>cdt_State := sB\<lparr>st_Sig := sig2\<rparr>\<rparr>"
  have fin: "nd_Channels (fu_node na3) (OutPointToBytes op) = Some ?dA" "nd_Channels (fu_node nb2) (OutPointToBytes op) = Some ?dB"
    by (simp_all add: na3_def nb2_def open_chan_def)
  have st: "stored (fu_node (confirm_channel ?ea na3 op h)) op (confirmed h ?dA)"
    "stored (fu_node (confirm_channel ?eb nb2 op h')) op (confirmed h' ?dB)"
    by (rule confirm_put, rule fin, simp_all add: dA_def) (rule confirm_put, rule fin, simp_all add: dB_def)
  have qs: "q_Op qA' = op" "q_ClearToSend qA'" "\<not> st_Failed (q_State qA')" "q_Op qB' = op" "q_ClearToSend qB'"
    "\<not> st_Failed (q_State qB')" "Qchan_Idx qA' = ?ia" "Qchan_Idx qB' = ?ib"
    using opened_index(3) [OF na(4)] opened_index(3) [OF nb(2)]
    by (simp_all add: qA'_def qA_def qB'_def qB_def dA_def dB_def sA'_def sA_def sB_def with_points_def opened_state_def
        new_StatCom_def Qchan_Idx_def)
  have sy: "in_sync ?ea (confirmed h ?dA) ?eb (confirmed h' ?dB)"
    by (rule confirmed_sync [OF p a h]) (simp_all add: dA_def sA'_def sA_def dB_def sB_def)
  have vals: "st_StateIdx (cdt_State (confirmed h ?dA)) = 0" "balances (confirmed h ?dA) (confirmed h' ?dB) = (ccap - initSend, initSend)"
    "st_Fee (cdt_State (confirmed h ?dA)) = ?fee" "st_Data (cdt_State (confirmed h ?dA)) = data" "st_Data (cdt_State (confirmed h' ?dB)) = data"
    by (simp_all add: confirmed_def balances_def sA'_def sA_def sB_def)
  have pr': "rp_QCs (peer_add rpa (OutPointToBytes op) qA') ?ia = Some qA'" "rp_QCs (peer_add rpb (OutPointToBytes op) qB') ?ib = Some qB'"
    by (simp_all add: peer_add_def qs)
  have w3: "snd (FundChannel_wait na3) = Inr ?ia" "ff_PeerIdx (fu_InProg na3) = 0" "fu_sent na3 = fu_sent na @ [op_Hash op]"
    by (simp_all add: FundChannel_wait_def na3_def open_chan_def InFlightFund_Clear_def na2_def na1_def put_chan_def)
  have idl: "idle (fu_node (confirm_channel ?ea na3 op h), qA') (confirmed h ?dA)" "idle (fu_node (confirm_channel ?eb nb2 op h'), qB') (confirmed h' ?dB)"
    using st qs by (simp_all add: idle_def)
  show ?thesis
    using fund_start [OF p a na(1), of data] rl w3 pr' idl sy vals qs(1,4) unfolding na1_def by blast
qed

section \<open>What the handlers guarantee, and what they miss\<close>

lemma fail_channel_stored:
  assumes "nd_Channels (fu_node nd) (OutPointToBytes op) = Some d" "px_Op (cdt_Txo d) = op" "q_Op q = op"
  shows "nd_Channels (fu_node (fund_FailChannel ev nd q)) (OutPointToBytes op) = Some (d\<lparr>cdt_State := (cdt_State d)\<lparr>st_Failed := True\<rparr>\<rparr>)"
proof -
  have r: "ReloadQchanState ev (fu_node nd) q = Inr (chan_of ev d (q_ClearToSend q))"
    by (rule reload_stored) (simp add: stored_def assms)
  have "q_Op ((chan_of ev d (q_ClearToSend q))\<lparr>q_State := s\<rparr>) = op" for s using assms(2) by simp
  from save_state_put [OF assms(1,2) this refl] show ?thesis
    by (simp add: fund_FailChannel_def r)
qed

lemma fund_fail_stored:
  assumes "nd_Channels (fu_node nd) (OutPointToBytes op) = Some d" "px_Op (cdt_Txo d) = op" "q_Op q = op"
  shows "\<exists>b. nd_Channels (fu_node (fst (fund_fail ev nd q e))) (OutPointToBytes op) = Some (d\<lparr>cdt_State := (cdt_State d)\<lparr>st_Failed := b\<rparr>\<rparr>)"
proof (cases "e = Panic")
  case True
  then show ?thesis using assms(1) by (intro exI [of _ "st_Failed (cdt_State d)"]) (simp add: fund_fail_def)
next
  case False
  then show ?thesis using fail_channel_stored [OF assms, of ev] by (intro exI [of _ True]) (simp add: fund_fail_def)
qed

lemma fund_SaveQchanState_InProg [simp]: "fu_InProg (fund_SaveQchanState ev nd q) = fu_InProg nd"
  by (simp add: fund_SaveQchanState_def save_put split: sum.split)

lemma fund_fail_InProg [simp]: "fu_InProg (fst (fund_fail ev nd q e)) = fu_InProg nd"
  by (simp add: fund_fail_def fund_FailChannel_def Let_def split: sum.split)

lemma desc_stores:
  assumes "ev_wallet (fe_ev fe) (cd_CoinType m) = Some w" "cd_CoinType m < 2 ^ 31" "fe_ValidPub fe (cd_NextHTLCBase m)"
    "fe_ValidPub fe (cd_N2HTLCBase m)"
  shows "\<exists>d. nd_Channels (fu_node (fst (QChanDescHandler fe nd m))) (OutPointToBytes (cd_Outpoint m)) = Some d \<and>
    cdt_TheirPub d = cd_PubKey m \<and> cdt_TheirRefundPub d = cd_RefundPub m \<and> st_StateIdx (cdt_State d) = 0 \<and>
    st_MyAmt (cdt_State d) = sint (cd_InitPayment m) \<and> px_Value (cdt_Txo d) = sint (cd_Capacity m)"
proof -
  let ?op = "cd_Outpoint m" and ?ev = "fe_ev fe"
  obtain s where s: "desc_state fe (NextChannelIdx nd) w m = Inr s" "st_StateIdx s = 0" "st_MyAmt s = sint (cd_InitPayment m)"
    using use_pubs(4) [OF assms(1,2)] assms(3,4) by (simp add: desc_state_def)
  define d where "d = NewChanDataFromQchan ((desc_chan ?ev (NextChannelIdx nd) m)\<lparr>q_State := s\<rparr>)"
  have d: "px_Op (cdt_Txo d) = ?op" "cdt_TheirPub d = cd_PubKey m" "cdt_TheirRefundPub d = cd_RefundPub m" "cdt_State d = s"
    "px_Value (cdt_Txo d) = sint (cd_Capacity m)"
    by (simp_all add: d_def NewChanDataFromQchan_def desc_chan_def Let_def)
  define nd1 where "nd1 = fund_SaveQChan nd ((desc_chan ?ev (NextChannelIdx nd) m)\<lparr>q_State := s\<rparr>)"
  have q: "q_Op (desc_chan ?ev (NextChannelIdx nd) m) = ?op"
    by (simp add: desc_chan_def Let_def)
  have ld: "nd_Channels (fu_node nd1) (OutPointToBytes ?op) = Some d"
    unfolding nd1_def save_put by (simp add: q d_def [symmetric])
  have "\<exists>b. nd_Channels (fu_node (fst (QChanDescHandler fe nd m))) (OutPointToBytes ?op) =
      Some (d\<lparr>cdt_State := s\<lparr>st_Failed := b\<rparr>\<rparr>)"
  proof -
    have h: "QChanDescHandler fe nd m =
        (case bind_res (first_points (ev_crypto ?ev) (chan_of ?ev d True)) (\<lambda>(p0, p1, p2).
           bind_res (SignState ?ev (chan_of ?ev d True)) (\<lambda>(sig, hs).
             Inr (NewChanAckMsg (cd_PeerIdx m) ?op p0 p1 p2 sig))) of
           Inl e \<Rightarrow> fund_fail ?ev nd1 (chan_of ?ev d True) e
         | Inr outMsg \<Rightarrow> (nd1, tmpSendLitMsg ?ev (MsgChanAck outMsg), None))"
      using assms(1) s(1) load_chan [OF ld, of ?ev] by (simp add: QChanDescHandler_def Let_def nd1_def [symmetric])
    have e: "d\<lparr>cdt_State := s\<rparr> = d" using d(4) by (cases d) simp
    have o: "q_Op (chan_of ?ev d True) = ?op" by (simp add: d)
    have ff: "\<exists>b. nd_Channels (fu_node (fst (fund_fail ?ev nd1 (chan_of ?ev d True) x))) (OutPointToBytes ?op) =
        Some (d\<lparr>cdt_State := s\<lparr>st_Failed := b\<rparr>\<rparr>)" for x
      using fund_fail_stored [OF ld d(1) o, of ?ev x] d(4) by simp
    have nn: "\<exists>b. nd_Channels (fu_node nd1) (OutPointToBytes ?op) = Some (d\<lparr>cdt_State := s\<lparr>st_Failed := b\<rparr>\<rparr>)"
      by (rule exI [of _ "st_Failed s"]) (simp add: ld e)
    show ?thesis unfolding h by (simp add: ff nn split: sum.split)
  qed
  then show ?thesis using d s by auto
qed


lemma ack_replaces:
  assumes "nd_Channels (fu_node nd) (OutPointToBytes (ak_Outpoint m)) = Some d" "px_Op (cdt_Txo d) = ak_Outpoint m"
    and v: "VerifySigs (fe_ev fe) (chan_of (fe_ev fe) (d\<lparr>cdt_State := s\<rparr>) True) (ak_Signature m) [] = Inr q'"
    and s: "s = (cdt_State d)\<lparr>st_ElkPoint := ak_ElkZero m, st_NextElkPoint := ak_ElkOne m, st_N2ElkPoint := ak_ElkTwo m\<rparr>"
  shows "\<exists>b. nd_Channels (fu_node (fst (QChanAckHandler fe nd rp m))) (OutPointToBytes (ak_Outpoint m)) =
    Some (d\<lparr>cdt_State := (q_State q')\<lparr>st_Failed := b\<rparr>\<rparr>)"
proof -
  let ?ev = "fe_ev fe" and ?op = "ak_Outpoint m"
  have q': "q_Op q' = ?op"
    using v assms(2) by (auto simp: VerifySigs_def bind_res_eq_Inr Let_def split: if_splits)
  define nd1 where "nd1 = fund_SaveQchanState ?ev nd q'"
  let ?d = "d\<lparr>cdt_State := q_State q'\<rparr>"
  have ld: "nd_Channels (fu_node nd1) (OutPointToBytes ?op) = Some ?d"
    unfolding nd1_def save_state_put [OF assms(1,2) q' refl] by simp
  have fl: "\<exists>b. nd_Channels (fu_node (fst (fund_fail ?ev nd' q' x))) (OutPointToBytes ?op) = Some (d\<lparr>cdt_State := (q_State q')\<lparr>st_Failed := b\<rparr>\<rparr>)"
    if "nd_Channels (fu_node nd') (OutPointToBytes ?op) = Some ?d" for nd' x
    using fund_fail_stored [OF that _ q', of ?ev x] assms(2) by simp
  have ok: "\<exists>b. nd_Channels (fu_node nd') (OutPointToBytes ?op) = Some (d\<lparr>cdt_State := (q_State q')\<lparr>st_Failed := b\<rparr>\<rparr>)"
    if "nd_Channels (fu_node nd') (OutPointToBytes ?op) = Some ?d" for nd'
    by (rule exI [of _ "st_Failed (q_State q')"]) (simp add: that)
  have q: "(chan_of ?ev d True)\<lparr>q_State := s\<rparr> = chan_of ?ev (d\<lparr>cdt_State := s\<rparr>) True"
    by (simp add: chan_of_state)
  show ?thesis
    using v ld
    by (simp add: QChanAckHandler_def Let_def load_chan [OF assms(1)] s [symmetric] q nd1_def [symmetric])
      (simp add: fl ok case_prod_unfold Let_def split: sum.split option.split)
qed

lemma VerifySigs_plain_state:
  assumes "VerifySigs ev q sig [] = Inr q'" "st_HTLCs (q_State q) = []" "st_InProgHTLC (q_State q) = None"
    "st_CollidingHTLC (q_State q) = None" "(q_State q)\<lparr>st_Sig := sig\<rparr> = s\<lparr>st_Sig := sig\<rparr>"
  shows "\<exists>sig. q_State q' = s\<lparr>st_Sig := sig\<rparr>"
proof -
  have l: "live_htlcs (q_State q) = []" using assms(2-4) by (simp add: live_htlcs_def)
  have "outs = []" if "BuildStateTxs (ev_crypto ev) q True = Inr (tx, spends, outs)" for tx spends outs
    using that l by (auto simp: BuildStateTxs_def bind_res_eq_Inr Let_def case_prod_unfold split: if_splits)
  then have "q_State q' = (q_State q)\<lparr>st_Sig := sig\<rparr>"
    using assms(1) by (auto simp: VerifySigs_def bind_res_eq_Inr Let_def split: if_splits)
  then show ?thesis using assms(5) by auto
qed

text \<open>An error leaves the funding in progress as it is, and so does every message but an acknowledgement.\<close>

lemma handlers_keep_funding:
  "ff_PeerIdx (fu_InProg (fst (PointReqHandler fe nd m1))) = ff_PeerIdx (fu_InProg nd)"
  "ff_PeerIdx (fu_InProg (fst (PointRespHandler fe nd m2))) = ff_PeerIdx (fu_InProg nd)"
  "ff_PeerIdx (fu_InProg (fst (QChanDescHandler fe nd m3))) = ff_PeerIdx (fu_InProg nd)"
  "ff_PeerIdx (fu_InProg (fst (SigProofHandler fe nd rp m5))) = ff_PeerIdx (fu_InProg nd)"
  by (simp_all add: PointReqHandler_def PointRespHandler_def QChanDescHandler_def SigProofHandler_def Let_def save_put
      case_prod_unfold split: sum.split option.split)

lemma failed_ack_keeps_funding:
  "QChanAckHandler fe nd rp m = (nd', rp', out, Some e) \<Longrightarrow> fu_InProg nd' = fu_InProg nd"
  by (auto simp: QChanAckHandler_def Let_def case_prod_unfold split: sum.splits option.splits if_splits)

lemma funding_kept:
  assumes "fu_DualPeer nd = 0" "ChannelHandler dual fe nd rp msg = (nd', rp', out, e)" "(\<exists>m. msg = MsgChanAck m) \<Longrightarrow> e \<noteq> None"
  shows "ff_PeerIdx (fu_InProg nd') = ff_PeerIdx (fu_InProg nd)"
proof (cases "\<exists>m. msg = MsgChanAck m")
  case True
  then obtain m x where "msg = MsgChanAck m" "e = Some x" using assms(3) by auto
  then show ?thesis using assms(1,2) failed_ack_keeps_funding by (auto simp: ChannelHandler_def)
next
  case False
  have "nd' = fst (ChannelHandler dual fe nd rp msg)" using assms(2) by simp
  then show ?thesis
    using False assms(1) handlers_keep_funding
    by (auto simp: ChannelHandler_def keep_peer_def case_prod_unfold split: lit_msg.splits)
qed

section \<open>Properties\<close>

text \<open>Two nodes for the witnesses: the funder calls its peer 3 and is called 2.\<close>

definition toy_fund :: "byte \<Rightarrow> fund_env" where
  "toy_fund me = \<lparr>fe_ev = toy_env me, fe_ConnectedCoinTypes = (\<lambda>c. True),
     fe_MaybeSend = (\<lambda>c outs. Inr [\<lparr>op_Hash = replicate 32 7, op_Index = 0\<rparr>]), fe_ReallySend = (\<lambda>c h. None),
     fe_WatchThis = (\<lambda>c op. None), fe_ValidPub = (\<lambda>b. length b = 33), fe_PeerKnown = (\<lambda>p. True)\<rparr>"

definition toy_fund_node :: fund_node where
  "toy_fund_node = \<lparr>fu_node = toy_node, fu_ChanMap = [], fu_InProg = \<lparr>ff_PeerIdx = 0, ff_ChanIdx = 0, ff_Coin = 0,
     ff_Amt = 0, ff_InitSend = 0, ff_op = None, ff_done = None, ff_Data = replicate 32 0\<rparr>, fu_sent = [], fu_watched = [],
     fu_exported = [], fu_DualPeer = 0\<rparr>"

definition toy_peer :: remote_peer where
  "toy_peer = \<lparr>rp_QCs = (\<lambda>i. None), rp_OpMap = (\<lambda>b. None)\<rparr>"

abbreviation toy_wallet :: wallet where
  "toy_wallet \<equiv> \<lparr>wl_TestCoin = True, wl_Fee = 10, wl_Height = 500\<rparr>"

lemma toy_pair:
  "fund_pair (toy_fund 1) (toy_fund 2) 1 2 3 toy_wallet toy_wallet \<lparr>op_Hash = replicate 32 7, op_Index = 0\<rparr>"
proof -
  have "fund_side (toy_fund x) (toy_fund y) 1 2" "fund_side (toy_fund x) (toy_fund y) 1 3" for x y
    by (auto simp: fund_side_def toy_fund_def toy_env_def signs_for_def toy_crypto_def)
  then show ?thesis
    by (simp add: fund_pair_def) (simp add: toy_fund_def toy_env_def wf_outpoint_def)
qed

lemma toy_fund_start:
  "fund_amounts toy_wallet 2000000 500000" "ff_PeerIdx (fu_InProg toy_fund_node) = 0" "ff_done (fu_InProg toy_fund_node) = None"
  "fu_DualPeer toy_fund_node = 0" "NextChannelIdx toy_fund_node = 1"
  by (simp_all add: fund_amounts_def MinChanCapacity_def MinOutput_def toy_fund_node_def NextChannelIdx_def)

text \<open>Opening a channel between two honest nodes completes: the funder sends its request, and the four
  answers, each printed, sent and parsed, are handled without an error. The funding transaction is sent
  once, the call of the funder returns the number of the channel, the funding in progress is cleared, and
  after confirmation both databases hold channels in step at state zero with the agreed balances and data.\<close>

theorem funding_opens_channel:
  assumes "fund_pair fa fb coin pa pb wa wb op" "fund_amounts wa ccap initSend" "length data = 32"
    and "ff_PeerIdx (fu_InProg na) = 0" "ff_done (fu_InProg na) = None" "fu_DualPeer na = 0" "NextChannelIdx na < 2 ^ 31"
    and "fu_DualPeer nb = 0" "NextChannelIdx nb < 2 ^ 31"
    and "wl_TestCoin wa \<or> 100 \<le> h" "wl_TestCoin wb \<or> 100 \<le> h'"
  shows "\<exists>na1 ms na2 ra nb2 rb d d'.
    FundChannel fa na pb coin ccap initSend data = (na1, ms, None) \<and>
    relay 5 (fa, pb, na1, rpa) (fb, pa, nb, rpb) ms = Some ((fa, pb, na2, ra), (fb, pa, nb2, rb)) \<and>
    snd (FundChannel_wait na2) = Inr (NextChannelIdx na) \<and> ff_PeerIdx (fu_InProg na2) = 0 \<and>
    fu_sent na2 = fu_sent na @ [op_Hash op] \<and>
    stored (fu_node (confirm_channel (fe_ev fa) na2 op h)) op d \<and>
    stored (fu_node (confirm_channel (fe_ev fb) nb2 op h')) op d' \<and>
    in_sync (fe_ev fa) d (fe_ev fb) d' \<and> st_StateIdx (cdt_State d) = 0 \<and>
    balances d d' = (ccap - initSend, initSend) \<and> st_Data (cdt_State d) = data \<and> st_Data (cdt_State d') = data"
proof -
  obtain na1 ms na2 ra nb2 rb d d' q q' where r: "FundChannel fa na pb coin ccap initSend data = (na1, ms, None)"
    "relay 5 (fa, pb, na1, rpa) (fb, pa, nb, rpb) ms = Some ((fa, pb, na2, ra), (fb, pa, nb2, rb))"
    "snd (FundChannel_wait na2) = Inr (NextChannelIdx na)" "ff_PeerIdx (fu_InProg na2) = 0" "fu_sent na2 = fu_sent na @ [op_Hash op]"
    "idle (fu_node (confirm_channel (fe_ev fa) na2 op h), q) d" "idle (fu_node (confirm_channel (fe_ev fb) nb2 op h'), q') d'"
    "in_sync (fe_ev fa) d (fe_ev fb) d'" "st_StateIdx (cdt_State d) = 0" "balances d d' = (ccap - initSend, initSend)"
    "st_Data (cdt_State d) = data" "st_Data (cdt_State d') = data" "q_Op q = op" "q_Op q' = op"
    using honest_fund [OF assms, of rpa rpb] by blast
  then have "stored (fu_node (confirm_channel (fe_ev fa) na2 op h)) op d" "stored (fu_node (confirm_channel (fe_ev fb) nb2 op h')) op d'"
    by (simp_all add: idle_def)
  with r show ?thesis by blast
qed

theorem funding_opens_channel_witness:
  "\<exists>na1 ms na2 ra nb2 rb. FundChannel (toy_fund 1) toy_fund_node 3 1 2000000 500000 (replicate 32 5) = (na1, ms, None) \<and>
     relay 5 (toy_fund 1, 3, na1, toy_peer) (toy_fund 2, 2, toy_fund_node, toy_peer) ms =
       Some ((toy_fund 1, 3, na2, ra), (toy_fund 2, 2, nb2, rb)) \<and> snd (FundChannel_wait na2) = Inr 1"
proof -
  have "length (replicate 32 (5 :: byte)) = 32" "NextChannelIdx toy_fund_node < 2 ^ 31"
    "wl_TestCoin toy_wallet \<or> 100 \<le> (0 :: int)"
    by (simp_all add: toy_fund_start)
  from funding_opens_channel [OF toy_pair toy_fund_start(1) this(1) toy_fund_start(2-4) this(2) toy_fund_start(4) this(2,3,3),
      of toy_peer toy_peer]
  show ?thesis unfolding toy_fund_start(5) by blast
qed

text \<open>A channel opened by an honest funding carries payments. Any list of payments the ledger allows,
  starting from what the funder kept and what it gave, runs message by message between the two nodes with
  the channels they have in memory, and ends with the balances of the ledger, both sides in step.\<close>

theorem funded_channel_pays:
  assumes "fund_pair fa fb coin pa pb wa wb op" "fund_amounts wa ccap initSend" "length data = 32"
    and "ff_PeerIdx (fu_InProg na) = 0" "ff_done (fu_InProg na) = None" "fu_DualPeer na = 0" "NextChannelIdx na < 2 ^ 31"
    and "fu_DualPeer nb = 0" "NextChannelIdx nb < 2 ^ 31"
    and "wl_TestCoin wa \<or> 100 \<le> h" "wl_TestCoin wb \<or> 100 \<le> h'"
    and l: "ledger (MinOutput + wl_Fee wa * 10) ps (ccap - initSend, initSend) = Some b" "length ps \<le> 2 ^ 47"
  shows "\<exists>na1 ms na2 ra nb2 rb q q' y y' e e'.
    FundChannel fa na pb coin ccap initSend data = (na1, ms, None) \<and>
    relay 5 (fa, pb, na1, rpa) (fb, pa, nb, rpb) ms = Some ((fa, pb, na2, ra), (fb, pa, nb2, rb)) \<and>
    rp_QCs ra (NextChannelIdx na) = Some q \<and> rp_QCs rb (NextChannelIdx nb) = Some q' \<and>
    push_rounds (fe_ev fa) (fe_ev fb) (fu_node (confirm_channel (fe_ev fa) na2 op h), q)
      (fu_node (confirm_channel (fe_ev fb) nb2 op h'), q') ps = Some (y, y') \<and>
    idle y e \<and> idle y' e' \<and> in_sync (fe_ev fa) e (fe_ev fb) e' \<and> balances e e' = b"
proof -
  obtain na1 ms na2 ra nb2 rb d d' q q' where r: "FundChannel fa na pb coin ccap initSend data = (na1, ms, None)"
    "relay 5 (fa, pb, na1, rpa) (fb, pa, nb, rpb) ms = Some ((fa, pb, na2, ra), (fb, pa, nb2, rb))"
    "rp_QCs ra (NextChannelIdx na) = Some q" "rp_QCs rb (NextChannelIdx nb) = Some q'"
    "idle (fu_node (confirm_channel (fe_ev fa) na2 op h), q) d" "idle (fu_node (confirm_channel (fe_ev fb) nb2 op h'), q') d'"
    "in_sync (fe_ev fa) d (fe_ev fb) d'" "st_StateIdx (cdt_State d) = 0" "balances d d' = (ccap - initSend, initSend)"
    "st_Fee (cdt_State d) = wl_Fee wa * 10"
    using honest_fund [OF assms(1-11), of rpa rpb] by blast
  have "ledger (reserve d) ps (balances d d') = Some b" "unat (st_StateIdx (cdt_State d)) + length ps \<le> 2 ^ 47"
    using l r(8-10) by simp_all
  from ledger_run [OF r(7,5,6) this] r(1-4) show ?thesis by blast
qed

theorem funded_channel_pays_witness:
  "\<exists>na1 ms na2 ra nb2 rb q q' y y' e e'. FundChannel (toy_fund 1) toy_fund_node 3 1 2000000 500000 (replicate 32 5) = (na1, ms, None) \<and>
     relay 5 (toy_fund 1, 3, na1, toy_peer) (toy_fund 2, 2, toy_fund_node, toy_peer) ms =
       Some ((toy_fund 1, 3, na2, ra), (toy_fund 2, 2, nb2, rb)) \<and>
     push_rounds (toy_env 1) (toy_env 2) (fu_node (confirm_channel (toy_env 1) na2 \<lparr>op_Hash = replicate 32 7, op_Index = 0\<rparr> 0), q)
       (fu_node (confirm_channel (toy_env 2) nb2 \<lparr>op_Hash = replicate 32 7, op_Index = 0\<rparr> 0), q')
       [(True, 50000, []), (False, 20000, [])] = Some (y, y') \<and> balances e e' = (1470000, 530000)"
proof -
  have h: "length (replicate 32 (5 :: byte)) = 32" "NextChannelIdx toy_fund_node < 2 ^ 31"
    "wl_TestCoin toy_wallet \<or> 100 \<le> (0 :: int)"
    by (simp_all add: toy_fund_start)
  have l: "ledger (MinOutput + wl_Fee toy_wallet * 10) [(True, 50000, []), (False, 20000, [])] (2000000 - 500000, 500000) =
      Some (1470000, 530000)"
    by (simp add: pay_def MinOutput_def)
  have f: "fe_ev (toy_fund x) = toy_env x" for x by (simp add: toy_fund_def)
  from funded_channel_pays [OF toy_pair toy_fund_start(1) h(1) toy_fund_start(2-4) h(2) toy_fund_start(4) h(2,3,3) l,
      of toy_peer toy_peer]
  show ?thesis unfolding f by simp blast
qed

text \<open>A channel description is stored under its outpoint whatever the node has there. A peer that names
  the outpoint of an open channel, its own or another peer's, replaces that channel with one at state zero,
  with the keys and the balance of the message; neither is checked against the capacity.\<close>

theorem chan_desc_overwrites:
  assumes "ev_wallet (fe_ev fe) (cd_CoinType m) = Some w" "cd_CoinType m < 2 ^ 31" "fe_ValidPub fe (cd_NextHTLCBase m)"
    "fe_ValidPub fe (cd_N2HTLCBase m)"
  shows "\<exists>d. nd_Channels (fu_node (fst (QChanDescHandler fe nd m))) (OutPointToBytes (cd_Outpoint m)) = Some d \<and>
    cdt_TheirPub d = cd_PubKey m \<and> cdt_TheirRefundPub d = cd_RefundPub m \<and> st_StateIdx (cdt_State d) = 0 \<and>
    st_MyAmt (cdt_State d) = sint (cd_InitPayment m) \<and> px_Value (cdt_Txo d) = sint (cd_Capacity m)"
  using assms by (rule desc_stores)

definition toy_desc :: chan_desc_msg where
  "toy_desc = NewChanDescMsg 9 (q_Op (toy_chan 1 2 3 600000 1000 [])) (replicate 33 8) (replicate 33 8) (replicate 33 8)
    (replicate 33 8) (replicate 33 8) 1 1000000 700000 (replicate 33 8) (replicate 33 8) (replicate 33 8) (replicate 32 0)"

theorem chan_desc_overwrites_witness:
  "stored (toy_db 1 2 600000) (cd_Outpoint toy_desc) (toy_data 1 2 600000) \<and> st_StateIdx (cdt_State (toy_data 1 2 600000)) = 3 \<and>
    (\<exists>d. nd_Channels (fu_node (fst (QChanDescHandler (toy_fund 1) (toy_fund_node\<lparr>fu_node := toy_db 1 2 600000\<rparr>) toy_desc)))
       (OutPointToBytes (cd_Outpoint toy_desc)) = Some d \<and> cdt_TheirPub d = replicate 33 8 \<and> st_StateIdx (cdt_State d) = 0)"
proof -
  have m: "cd_CoinType toy_desc = 1" "cd_NextHTLCBase toy_desc = replicate 33 8" "cd_N2HTLCBase toy_desc = replicate 33 8" "cd_PubKey toy_desc = replicate 33 8"
    "cd_Outpoint toy_desc = q_Op (toy_chan 1 2 3 600000 1000 [])"
    by (simp_all add: toy_desc_def NewChanDescMsg_def)
  have a: "(0 :: int) \<le> 600000" "(600000 :: int) \<le> 1000000" by simp_all
  have "ev_wallet (fe_ev (toy_fund 1)) (cd_CoinType toy_desc) = Some toy_wallet" "cd_CoinType toy_desc < 2 ^ 31"
    "fe_ValidPub (toy_fund 1) (cd_NextHTLCBase toy_desc)" "fe_ValidPub (toy_fund 1) (cd_N2HTLCBase toy_desc)"
    by (simp_all add: m toy_fund_def toy_env_def)
  from chan_desc_overwrites [OF this, of "toy_fund_node\<lparr>fu_node := toy_db 1 2 600000\<rparr>"] toy_sync(2) [OF a]
  show ?thesis by (simp add: m) (auto simp: toy_data_def NewChanDataFromQchan_def toy_chan_def)
qed

text \<open>An acknowledgement that verifies replaces the three elkrem points of its channel, whatever state the
  channel has reached and whether or not a funding is in progress: the checks the peer's later secrets have
  to pass are against points it can choose again.\<close>

theorem chan_ack_replaces_points:
  assumes "nd_Channels (fu_node nd) (OutPointToBytes (ak_Outpoint m)) = Some d" "px_Op (cdt_Txo d) = ak_Outpoint m"
    and "VerifySigs (fe_ev fe) (chan_of (fe_ev fe) (d\<lparr>cdt_State := (cdt_State d)\<lparr>st_ElkPoint := ak_ElkZero m,
      st_NextElkPoint := ak_ElkOne m, st_N2ElkPoint := ak_ElkTwo m\<rparr>\<rparr>) True) (ak_Signature m) [] = Inr q'"
    and "st_HTLCs (cdt_State d) = []" "st_InProgHTLC (cdt_State d) = None" "st_CollidingHTLC (cdt_State d) = None"
  shows "\<exists>d'. nd_Channels (fu_node (fst (QChanAckHandler fe nd rp m))) (OutPointToBytes (ak_Outpoint m)) = Some d' \<and>
    st_ElkPoint (cdt_State d') = ak_ElkZero m \<and> st_NextElkPoint (cdt_State d') = ak_ElkOne m \<and>
    st_N2ElkPoint (cdt_State d') = ak_ElkTwo m \<and> st_StateIdx (cdt_State d') = st_StateIdx (cdt_State d)"
proof -
  have "\<exists>sig. q_State q' = ((cdt_State d)\<lparr>st_ElkPoint := ak_ElkZero m, st_NextElkPoint := ak_ElkOne m,
      st_N2ElkPoint := ak_ElkTwo m\<rparr>)\<lparr>st_Sig := sig\<rparr>"
    by (rule VerifySigs_plain_state [OF assms(3)]) (simp_all add: assms(4-6))
  then show ?thesis
    using ack_replaces [OF assms(1-3) refl, of rp] by auto
qed

theorem chan_ack_replaces_points_witness:
  "\<exists>d'. nd_Channels (fu_node (fst (QChanAckHandler (toy_fund 1) (toy_fund_node\<lparr>fu_node := toy_db 1 2 600000\<rparr>) toy_peer
      (NewChanAckMsg 9 (q_Op (toy_chan 1 2 3 600000 1000 [])) (replicate 33 8) (replicate 33 8) (replicate 33 8)
        (take 64 (replicate 33 2 @ replicate 64 0)))))) (OutPointToBytes (q_Op (toy_chan 1 2 3 600000 1000 []))) = Some d' \<and>
    st_ElkPoint (cdt_State d') = replicate 33 8 \<and> st_StateIdx (cdt_State d') = 3"
proof -
  let ?d = "toy_data 1 2 600000" and ?op = "q_Op (toy_chan 1 2 3 600000 1000 [])" and ?p = "replicate 33 (8 :: byte)"
    and ?sig = "take 64 (replicate 33 (2 :: byte) @ replicate 64 0)"
  let ?m = "NewChanAckMsg 9 ?op ?p ?p ?p ?sig"
  let ?q = "chan_of (toy_env 1) (?d\<lparr>cdt_State := (cdt_State ?d)\<lparr>st_ElkPoint := ?p, st_NextElkPoint := ?p, st_N2ElkPoint := ?p\<rparr>\<rparr>) True"
  have m: "ak_Outpoint ?m = ?op" "ak_ElkZero ?m = ?p" "ak_ElkOne ?m = ?p" "ak_ElkTwo ?m = ?p" "ak_Signature ?m = ?sig"
    by (simp_all add: NewChanAckMsg_def)
  have s: "cdt_State ?d = q_State (toy_chan 1 2 3 600000 1000 [])" by (simp add: toy_data_def NewChanDataFromQchan_def)
  have h: "st_HTLCs (cdt_State ?d) = []" "st_InProgHTLC (cdt_State ?d) = None" "st_CollidingHTLC (cdt_State ?d) = None"
    "st_StateIdx (cdt_State ?d) = 3" unfolding s by (simp_all add: toy_chan_def)
  have l: "live_htlcs (q_State ?q) = []" using h by (simp add: live_htlcs_def)
  obtain rp tp pk where k: "GetKeysFromState toy_crypto ?q True = Inr (rp, tp, pk)"
    using ElkPoint_like [OF likeI, of 3 toy_crypto "toy_env 1" "?d\<lparr>cdt_State := (cdt_State ?d)\<lparr>st_ElkPoint := ?p, st_NextElkPoint := ?p, st_N2ElkPoint := ?p\<rparr>\<rparr>" True]
    by (auto simp: GetKeysFromState_def h maxIndex_def)
  have v: "q_Value ?q = 1000000" "st_MyAmt (q_State ?q) = 600000" "st_Fee (q_State ?q) = 1000"
    by (simp_all add: toy_data_def NewChanDataFromQchan_def toy_chan_def)
  have a: "output_amts ?q True = (599000, 399000)"
    unfolding output_amts_def state_value_def Let_def v using h by (simp add: i64_id)
  from BuildStateTxs_plain [OF l k a] obtain tx where tx: "BuildStateTxs toy_crypto ?q True = Inr (tx, [], [])"
    by (auto simp: MinOutput_def)
  have pubs: "q_MyPub ?q = replicate 33 1" "q_TheirPub ?q = replicate 33 2"
    by (simp_all add: chan_of_def NewQchanFromChanData_def GetUsePub_ign_def GetUsePub_def toy_env_def toy_data_def
        NewChanDataFromQchan_def toy_chan_def)
  obtain pre w where f: "FundTxScript (q_MyPub ?q) (q_TheirPub ?q) = Inr (pre, w)"
    using FundTxScript_ok [of "q_MyPub ?q" "q_TheirPub ?q"] pubs by auto
  have e: "ev_crypto (toy_env 1) = toy_crypto" "\<And>s t v. ev_verify (toy_env 1) (replicate 33 2) s t v ?sig" "fe_ev (toy_fund 1) = toy_env 1"
    by (simp_all add: toy_env_def toy_fund_def)
  have "\<exists>q'. VerifySigs (fe_ev (toy_fund 1)) ?q (ak_Signature ?m) [] = Inr q'"
    using tx f e(2) unfolding VerifySigs_def e(1,3) m by (simp add: pubs(2) del: chan_of_simps)
  then obtain q' where ver: "VerifySigs (fe_ev (toy_fund 1)) ?q (ak_Signature ?m) [] = Inr q'" by blast
  have st: "nd_Channels (fu_node (toy_fund_node\<lparr>fu_node := toy_db 1 2 600000\<rparr>)) (OutPointToBytes (ak_Outpoint ?m)) = Some ?d"
    "px_Op (cdt_Txo ?d) = ak_Outpoint ?m"
    unfolding m by (simp_all add: toy_db_def toy_data_def NewChanDataFromQchan_def)
  from chan_ack_replaces_points [OF st _ h(1-3), of "toy_fund 1" q' toy_peer] ver
  show ?thesis unfolding m h(4) e(3) by blast
qed

text \<open>C38: An acknowledgement or a signature proof for an outpoint the node does not know ends the process: the
  handler calls \<open>FailChannel\<close> on the nil channel of the failed load. Any connected peer can send one.\<close>

theorem unknown_outpoint_panics:
  assumes "fu_DualPeer nd = 0" "nd_Channels (fu_node nd) (OutPointToBytes (ak_Outpoint a)) = None"
    "nd_Channels (fu_node nd) (OutPointToBytes (sp_Outpoint s)) = None"
  shows "ChannelHandler dual fe nd rp (MsgChanAck a) = (nd, rp, [], Some Panic) \<and>
    ChannelHandler dual fe nd rp (MsgSigProof s) = (nd, rp, [], Some Panic)"
  using assms by (simp add: ChannelHandler_def QChanAckHandler_def SigProofHandler_def Let_def GetQchan_def)

theorem unknown_outpoint_panics_witness:
  "snd (snd (snd (ChannelHandler (\<lambda>nd rp m. (nd, rp, [], None)) (toy_fund 1) toy_fund_node toy_peer
     (MsgSigProof (NewSigProofMsg 9 \<lparr>op_Hash = replicate 32 9, op_Index = 0\<rparr> (replicate 64 0)))))) = Some Panic"
  using unknown_outpoint_panics [of toy_fund_node "NewChanAckMsg 9 \<lparr>op_Hash = replicate 32 9, op_Index = 0\<rparr> [] [] [] []"
      "NewSigProofMsg 9 \<lparr>op_Hash = replicate 32 9, op_Index = 0\<rparr> (replicate 64 0)" "\<lambda>nd rp m. (nd, rp, [], None)" "toy_fund 1" toy_peer]
  by (simp add: toy_fund_node_def toy_node_def)

text \<open>C40: A funding that fails is never given up: no message but an acknowledgement handled without an error
  ends it, and as long as it is in progress every further call of \<open>FundChannel\<close> is refused, whatever it
  asks for.\<close>

theorem funding_never_given_up:
  assumes "fu_DualPeer nd = 0" "ChannelHandler dual fe nd rp msg = (nd', rp', out, e)" "(\<exists>m. msg = MsgChanAck m) \<Longrightarrow> e \<noteq> None"
    and "ff_PeerIdx (fu_InProg nd) \<noteq> 0"
  shows "\<exists>x. FundChannel fe' nd' peer coin ccap initSend data = (nd', [], Some x)"
  using funding_kept [OF assms(1-3)] assms(4) by (simp add: FundChannel_def Let_def split: option.split)

theorem funding_never_given_up_witness:
  "\<exists>x. FundChannel (toy_fund 1) (toy_fund_node\<lparr>fu_InProg := (fu_InProg toy_fund_node)\<lparr>ff_PeerIdx := 3\<rparr>\<rparr>) 4 1 2000000 0 [] =
     (toy_fund_node\<lparr>fu_InProg := (fu_InProg toy_fund_node)\<lparr>ff_PeerIdx := 3\<rparr>\<rparr>, [], Some x)"
proof -
  let ?nd = "toy_fund_node\<lparr>fu_InProg := (fu_InProg toy_fund_node)\<lparr>ff_PeerIdx := 3\<rparr>\<rparr>"
  have "fu_DualPeer ?nd = 0" "ff_PeerIdx (fu_InProg ?nd) \<noteq> 0" by (simp_all add: toy_fund_node_def)
  moreover have "ChannelHandler (\<lambda>nd rp m. (nd, rp, [], None)) (toy_fund 1) ?nd toy_peer (MsgPointResp (NewPointRespMsg 5 [] [] [] [] [])) =
      (?nd, toy_peer, [], Some Mismatch)"
    by (simp add: ChannelHandler_def PointRespHandler_def keep_peer_def NewPointRespMsg_def toy_fund_node_def)
  ultimately show ?thesis using funding_never_given_up by blast
qed

end
