(* ===== verification/TxScript.thy ===== *)
theory TxScript
  imports LnScript
begin

text \<open>
  Scripts as the engine of \<open>btcutil/txscript\<close> sees them: the opcode table, parsing and unparsing
  (\<open>script.go\<close>, \<open>opcode.go\<close>), the script classes, and the counting of signature operations. A parse error
  comes with the opcodes parsed up to it.
\<close>

section \<open>Errors of the engine\<close>

text \<open>\<open>ErrMsg\<close> is an error made from a format string; \<open>ScriptPanic\<close> an index or slice out of range.\<close>

datatype script_error =
    ErrStackShortScript | ErrStackLongScript | ErrStackUnderflow | ErrStackInvalidArgs | ErrStackOpDisabled
  | ErrStackVerifyFailed | ErrStackNumberTooBig | ErrStackInvalidOpcode | ErrStackReservedOpcode
  | ErrStackEarlyReturn | ErrStackNoIf | ErrStackMissingEndif | ErrStackTooManyPubKeys
  | ErrStackTooManyOperations | ErrStackElementTooBig | ErrStackScriptFailed | ErrStackScriptUnfinished
  | ErrStackEmptyStack | ErrStackP2SHNonPushOnly | ErrStackNonPushOnly | ErrStackOverflow
  | ErrStackInvalidLowSSignature | ErrStackInvalidPubKey | ErrStackCleanStack | ErrStackMinimalData
  | ErrWitnessProgramEmpty | ErrWitnessScriptMismatch | ErrWitnessProgramWrongLength | ErrWitnessMalleated
  | ErrWitnessMalleatedP2SH | ErrWitnessUnexpected | ErrInvalidFlags | ErrInvalidIndex
  | ErrMsg string | ScriptPanic

section \<open>Opcodes\<close>

abbreviation "OP_DATA_20 \<equiv> (0x14 :: byte)"
abbreviation "OP_DATA_32 \<equiv> (0x20 :: byte)"
abbreviation "OP_16 \<equiv> (0x60 :: byte)"
abbreviation "OP_RETURN \<equiv> (0x6a :: byte)"
abbreviation "OP_CODESEPARATOR \<equiv> (0xab :: byte)"
abbreviation "OP_CHECKSIGVERIFY \<equiv> (0xad :: byte)"
abbreviation "OP_CHECKMULTISIGVERIFY \<equiv> (0xaf :: byte)"

text \<open>
  The length column of the opcode table: 1 for a plain opcode, \<open>n + 1\<close> for a push of \<open>n\<close> bytes, and the
  negated width of the length that follows for the three long pushes.
\<close>

definition opcode_length :: "byte \<Rightarrow> int" where
  "opcode_length op =
     (if 1 \<le> op \<and> op \<le> 75 then uint op + 1
      else if op = OP_PUSHDATA1 then - 1 else if op = OP_PUSHDATA2 then - 2 else if op = OP_PUSHDATA4 then - 4
      else 1)"

record parsed_opcode =
  po_op :: byte
  po_data :: bytes

definition add_pop :: "byte \<Rightarrow> bytes \<Rightarrow> parsed_opcode list \<times> script_error option \<Rightarrow> parsed_opcode list \<times> script_error option" where
  "add_pop op data r = (\<lparr>po_op = op, po_data = data\<rparr> # fst r, snd r)"

fun parseScript :: "bytes \<Rightarrow> parsed_opcode list \<times> script_error option" where
  "parseScript [] = ([], None)"
| "parseScript (instr # rest) =
     (let len = opcode_length instr in
      if len = 1 then add_pop instr [] (parseScript rest)
      else if 1 < len then
        (if length rest + 1 < nat len then ([], Some ErrStackShortScript)
         else add_pop instr (take (nat len - 1) rest) (parseScript (drop (nat len - 1) rest)))
      else
        let n = nat (- len) in
        if length rest < n then ([], Some ErrStackShortScript)
        else
          let l = le_val (take n rest); rest = drop n rest in
          if length rest < l then ([], Some ErrStackShortScript)
          else add_pop instr (take l rest) (parseScript (drop l rest)))"

declare parseScript.simps(2) [simp del]

text \<open>For the callers that give up on an error.\<close>

definition ParseScript :: "bytes \<Rightarrow> script_error + parsed_opcode list" where
  "ParseScript script = (case parseScript script of (pops, None) \<Rightarrow> Inr pops | (pops, Some e) \<Rightarrow> Inl e)"

definition pop_bytes :: "parsed_opcode \<Rightarrow> script_error + bytes" where
  "pop_bytes pop =
     (let len = opcode_length (po_op pop) in
      if len = 1 then (if po_data pop \<noteq> [] then Inl ErrStackInvalidOpcode else Inr [po_op pop])
      else
        let n = nat (- len);
            header = (if 0 < len then [po_op pop] else po_op pop # le_enc n (length (po_data pop)));
            nbytes = (if 0 < len then nat len else le_val (tl header) + length header);
            retbytes = header @ po_data pop
        in if length retbytes \<noteq> nbytes then Inl ErrStackInvalidOpcode else Inr retbytes)"

definition unparseScript :: "parsed_opcode list \<Rightarrow> script_error + bytes" where
  "unparseScript pops = fold_res (\<lambda>script pop. bind_res (pop_bytes pop) (\<lambda>b. Inr (script @ b))) [] pops"

section \<open>Round trip\<close>

lemma opcode_length_cases:
  obtains (plain) "opcode_length op = 1"
  | (push) n where "opcode_length op = int n + 1" "1 \<le> n"
  | (long) n where "opcode_length op = - int n" "n = 1 \<or> n = 2 \<or> n = 4"
proof (cases "1 \<le> op \<and> op \<le> 75")
  case True
  then have "1 \<le> unat op" by (simp add: word_le_nat_alt)
  moreover have "opcode_length op = int (unat op) + 1" using True by (simp add: opcode_length_def)
  ultimately show thesis by (intro push) simp_all
next
  case False
  then have o: "opcode_length op = (if op = OP_PUSHDATA1 then - 1 else if op = OP_PUSHDATA2 then - 2
    else if op = OP_PUSHDATA4 then - 4 else 1)"
    unfolding opcode_length_def by (simp only: if_False)
  show thesis
    using o plain long [of 1] long [of 2] long [of 4] by (auto split: if_splits)
qed

lemma unparse_acc:
  "fold_res (\<lambda>script pop. bind_res (pop_bytes pop) (\<lambda>b. Inr (script @ b))) acc pops =
   bind_res (unparseScript pops) (\<lambda>b. Inr (acc @ b))"
proof (induction pops arbitrary: acc)
  case (Cons pop pops)
  show ?case
  proof (cases "pop_bytes pop")
    case (Inr b)
    then show ?thesis
      using Cons.IH [of "acc @ b"] Cons.IH [of b] by (auto simp: unparseScript_def bind_res_def split: sum.splits)
  qed (simp add: unparseScript_def)
qed (simp add: unparseScript_def)

lemma unparse_Nil [simp]: "unparseScript [] = Inr []"
  by (simp add: unparseScript_def)

lemma unparse_Cons:
  "unparseScript (pop # pops) = bind_res (pop_bytes pop) (\<lambda>b. bind_res (unparseScript pops) (\<lambda>bs. Inr (b @ bs)))"
proof (cases "pop_bytes pop")
  case (Inr b)
  then show ?thesis
    using unparse_acc [of b pops] by (simp add: unparseScript_def [of "pop # pops"])
qed (simp add: unparseScript_def)

lemma parse_plain: "opcode_length op = 1 \<Longrightarrow> parseScript (op # rest) = add_pop op [] (parseScript rest)"
  by (simp add: parseScript.simps(2))

lemma parse_push:
  assumes "opcode_length op = int n + 1" "1 \<le> n"
  shows "parseScript (op # rest) = (if length rest < n then ([], Some ErrStackShortScript)
    else add_pop op (take n rest) (parseScript (drop n rest)))"
proof -
  have n: "nat (int n + 1) = Suc n" by simp
  show ?thesis using assms(2) by (simp add: parseScript.simps(2) assms(1) n del: add_Suc)
qed

lemma parse_long:
  assumes "opcode_length op = - int n" "1 \<le> n"
  shows "parseScript (op # rest) = (if length rest < n \<or> length (drop n rest) < le_val (take n rest)
    then ([], Some ErrStackShortScript)
    else add_pop op (take (le_val (take n rest)) (drop n rest)) (parseScript (drop (le_val (take n rest)) (drop n rest))))"
  using assms by (simp add: parseScript.simps(2) Let_def)

lemma pop_bytes_plain:
  "opcode_length op = 1 \<Longrightarrow> pop_bytes \<lparr>po_op = op, po_data = d\<rparr> = (if d \<noteq> [] then Inl ErrStackInvalidOpcode else Inr [op])"
  by (simp add: pop_bytes_def)

lemma pop_bytes_push:
  assumes "opcode_length op = int n + 1" "1 \<le> n"
  shows "pop_bytes \<lparr>po_op = op, po_data = d\<rparr> = (if length d \<noteq> n then Inl ErrStackInvalidOpcode else Inr (op # d))"
proof -
  have n: "nat (int n + 1) = Suc n" by simp
  show ?thesis using assms(2) by (simp add: pop_bytes_def assms(1) n Let_def)
qed

lemma pop_bytes_long:
  assumes "opcode_length op = - int n" "1 \<le> n"
  shows "pop_bytes \<lparr>po_op = op, po_data = d\<rparr> =
    (if le_val (le_enc n (length d)) \<noteq> length d then Inl ErrStackInvalidOpcode else Inr (op # le_enc n (length d) @ d))"
  using assms by (auto simp: pop_bytes_def Let_def)

lemma parse_unparse: "parseScript script = (pops, None) \<Longrightarrow> unparseScript pops = Inr script"
proof (induction script arbitrary: pops rule: length_induct)
  case (1 script)
  have IH: "unparseScript ps = Inr ys" if "parseScript ys = (ps, None)" "length ys < length script" for ys ps
    using 1(1) that by blast
  show ?case
  proof (cases script)
    case Nil
    then show ?thesis using 1 by simp
  next
    case (Cons op rest)
    show ?thesis
    proof (cases op rule: opcode_length_cases)
      case plain
      then obtain ps where ps: "parseScript rest = (ps, None)" "pops = \<lparr>po_op = op, po_data = []\<rparr> # ps"
        using 1(2) Cons by (cases "parseScript rest") (auto simp: parse_plain add_pop_def)
      have "unparseScript ps = Inr rest" by (rule IH [OF ps(1)]) (simp add: Cons)
      then show ?thesis by (simp add: ps(2) Cons unparse_Cons pop_bytes_plain [OF plain])
    next
      case (push n)
      then obtain ps where ps: "parseScript (drop n rest) = (ps, None)" "n \<le> length rest"
        "pops = \<lparr>po_op = op, po_data = take n rest\<rparr> # ps"
        using 1(2) Cons by (cases "parseScript (drop n rest)") (auto simp: parse_push add_pop_def split: if_splits)
      have "unparseScript ps = Inr (drop n rest)" by (rule IH [OF ps(1)]) (simp add: Cons)
      then show ?thesis using ps(2) by (simp add: ps(3) Cons unparse_Cons pop_bytes_push [OF push])
    next
      case (long n)
      let ?l = "le_val (take n rest)"
      have n: "1 \<le> n" using long(2) by auto
      obtain ps where ps: "parseScript (drop ?l (drop n rest)) = (ps, None)" "n \<le> length rest" "?l \<le> length (drop n rest)"
        "pops = \<lparr>po_op = op, po_data = take ?l (drop n rest)\<rparr> # ps"
        using 1(2) Cons long n by (cases "parseScript (drop ?l (drop n rest))") (auto simp: parse_long add_pop_def split: if_splits)
      have l: "length (take ?l (drop n rest)) = ?l" using ps(3) by simp
      have e: "le_enc n ?l = take n rest" using le_enc_le_val [of "take n rest"] ps(2) by simp
      have u: "unparseScript ps = Inr (drop ?l (drop n rest))" by (rule IH [OF ps(1)]) (simp add: Cons)
      have "take n rest @ take ?l (drop n rest) @ drop ?l (drop n rest) = rest"
        by (simp only: append_take_drop_id)
      then show ?thesis
        by (simp only: ps(4) Cons unparse_Cons pop_bytes_long [OF long(1) n] l e u bind_res_simps append_Cons append_assoc
            simp_thms if_False)
    qed
  qed
qed

lemma unparse_parse: "unparseScript pops = Inr script \<Longrightarrow> parseScript script = (pops, None)"
proof (induction pops arbitrary: script)
  case (Cons pop pops)
  obtain op d where pop: "pop = \<lparr>po_op = op, po_data = d\<rparr>" by (cases pop)
  obtain b bs where b: "pop_bytes pop = Inr b" "unparseScript pops = Inr bs" "script = b @ bs"
    using Cons.prems by (auto simp: unparse_Cons bind_res_eq_Inr)
  have p: "parseScript bs = (pops, None)" by (rule Cons.IH [OF b(2)])
  show ?case
  proof (cases op rule: opcode_length_cases)
    case plain
    then show ?thesis
      using b(1) p by (simp add: pop b(3) pop_bytes_plain parse_plain add_pop_def split: if_splits) (auto simp: parse_plain add_pop_def)
  next
    case (push n)
    then show ?thesis
      using b(1) p by (auto simp: pop b(3) pop_bytes_push parse_push add_pop_def split: if_splits)
  next
    case (long n)
    then have n: "1 \<le> n" by auto
    then have "b = op # le_enc n (length d) @ d" "le_val (le_enc n (length d)) = length d"
      using b(1) by (simp_all add: pop pop_bytes_long [OF long(1)] split: if_splits)
    then show ?thesis
      using p by (simp add: pop b(3) parse_long [OF long(1) n] add_pop_def)
  qed
qed simp

text \<open>Parsing and printing scripts are inverse to each other: a script parses without an error to exactly the
  opcodes that print to it.\<close>

theorem script_parse_print: "ParseScript script = Inr pops \<longleftrightarrow> unparseScript pops = Inr script"
  using parse_unparse [of script pops] unparse_parse [of pops script]
  by (auto simp: ParseScript_def split: prod.splits option.splits)

section \<open>What the builder builds\<close>

text \<open>The opcode a builder call adds, and its bytes.\<close>

definition data_pop :: "bytes \<Rightarrow> parsed_opcode" where
  "data_pop d =
     (let n = length d in
      if n = 0 \<or> n = 1 \<and> hd d = 0 then \<lparr>po_op = OP_0, po_data = []\<rparr>
      else if n = 1 \<and> hd d \<le> 16 then \<lparr>po_op = (OP_1 - 1) + hd d, po_data = []\<rparr>
      else if n = 1 \<and> hd d = 0x81 then \<lparr>po_op = OP_1NEGATE, po_data = []\<rparr>
      else if n < unat OP_PUSHDATA1 then \<lparr>po_op = of_nat n, po_data = d\<rparr>
      else if n \<le> 0xff then \<lparr>po_op = OP_PUSHDATA1, po_data = d\<rparr>
      else if n \<le> 0xffff then \<lparr>po_op = OP_PUSHDATA2, po_data = d\<rparr>
      else \<lparr>po_op = OP_PUSHDATA4, po_data = d\<rparr>)"

definition num_pop :: "nat \<Rightarrow> parsed_opcode" where
  "num_pop n =
     (if n = 0 then \<lparr>po_op = OP_0, po_data = []\<rparr>
      else if n \<le> 16 then \<lparr>po_op = (OP_1 - 1) + of_nat n, po_data = []\<rparr> else data_pop (scriptNum_Bytes n))"

primrec item_pop :: "script_item \<Rightarrow> parsed_opcode" where
  "item_pop (Op c) = \<lparr>po_op = c, po_data = []\<rparr>"
| "item_pop (Data d) = data_pop d"
| "item_pop (Num n) = num_pop n"

definition num_bytes :: "nat \<Rightarrow> bytes" where
  "num_bytes n = (if n = 0 then [OP_0] else if n \<le> 16 then [(OP_1 - 1) + of_nat n] else addData_bytes (scriptNum_Bytes n))"

primrec item_bytes :: "script_item \<Rightarrow> bytes" where
  "item_bytes (Op c) = [c]"
| "item_bytes (Data d) = addData_bytes d"
| "item_bytes (Num n) = num_bytes n"

text \<open>A call with a plain opcode, or with data the engine could push.\<close>

primrec wf_item :: "script_item \<Rightarrow> bool" where
  "wf_item (Op c) = (opcode_length c = 1)"
| "wf_item (Data d) = (length d \<le> MaxScriptElementSize)"
| "wf_item (Num n) = (length (scriptNum_Bytes n) \<le> MaxScriptElementSize)"

lemma small_num_length: "w \<le> 16 \<Longrightarrow> opcode_length ((OP_1 - 1) + w) = 1"
proof -
  assume w: "w \<le> (16 :: byte)"
  then have u: "unat w \<le> 16" by (simp add: word_le_nat_alt)
  have "unat ((OP_1 - 1) + w) = 80 + unat w" using u by (simp add: unat_word_ariths)
  then have "\<not> ((OP_1 - 1) + w \<le> 75)" "(OP_1 - 1) + w \<noteq> OP_PUSHDATA1" "(OP_1 - 1) + w \<noteq> OP_PUSHDATA2"
    "(OP_1 - 1) + w \<noteq> OP_PUSHDATA4"
    by (auto simp: word_le_nat_alt word_unat_eq_iff)
  then show ?thesis unfolding opcode_length_def by (simp only: if_False simp_thms)
qed

lemma direct_push_length:
  assumes "1 \<le> n" "n < 76"
  shows "opcode_length (of_nat n) = int n + 1"
proof -
  have "unat (of_nat n :: byte) = n" using assms by (simp add: unat_of_nat)
  then have "1 \<le> (of_nat n :: byte)" "(of_nat n :: byte) \<le> 75" "uint (of_nat n :: byte) = int n"
    using assms by (simp_all add: word_le_nat_alt uint_nat)
  then show ?thesis by (simp add: opcode_length_def)
qed

lemma fixed_lengths [simp]:
  "opcode_length OP_0 = 1" "opcode_length OP_1NEGATE = 1" "opcode_length OP_PUSHDATA1 = - int 1"
  "opcode_length OP_PUSHDATA2 = - int 2" "opcode_length OP_PUSHDATA4 = - int 4"
  by (simp_all add: opcode_length_def)

lemma le_val_byte: "n \<le> 0xff \<Longrightarrow> unat (of_nat n :: byte) = n"
  by (simp add: unat_of_nat)

lemma parse_data:
  assumes "length d < 2 ^ 32"
  shows "parseScript (addData_bytes d @ rest) = add_pop (po_op (data_pop d)) (po_data (data_pop d)) (parseScript rest)"
proof -
  consider (zero) "length d = 0 \<or> length d = 1 \<and> hd d = 0"
    | (small) "\<not> (length d = 0 \<or> length d = 1 \<and> hd d = 0)" "length d = 1 \<and> hd d \<le> 16"
    | (neg) "\<not> (length d = 0 \<or> length d = 1 \<and> hd d = 0)" "\<not> (length d = 1 \<and> hd d \<le> 16)" "length d = 1 \<and> hd d = 0x81"
    | (other) "\<not> (length d = 0 \<or> length d = 1 \<and> hd d = 0)" "\<not> (length d = 1 \<and> hd d \<le> 16)" "\<not> (length d = 1 \<and> hd d = 0x81)"
    by blast
  then show ?thesis
  proof cases
    case zero
    then show ?thesis unfolding addData_bytes_def data_pop_def Let_def by (simp add: parse_plain)
  next
    case small
    then show ?thesis
      unfolding addData_bytes_def data_pop_def Let_def
      by (simp add: parse_plain small_num_length [simplified])
  next
    case neg
    then show ?thesis unfolding addData_bytes_def data_pop_def Let_def by (simp add: parse_plain)
  next
    case other
    then have pos: "1 \<le> length d" by (cases d) simp_all
    consider "length d < 76" | "76 \<le> length d" "length d \<le> 0xff" | "0xff < length d" "length d \<le> 0xffff" | "0xffff < length d"
      by linarith
    then show ?thesis
    proof cases
      case 1
      then show ?thesis
        using other pos direct_push_length [OF pos 1] unfolding addData_bytes_def data_pop_def Let_def
        by (auto simp: parse_push)
    next
      case 2
      then show ?thesis
        using other unfolding addData_bytes_def data_pop_def Let_def
        by (simp add: parse_long [of _ 1] le_val_byte)
    next
      case 3
      then show ?thesis
        using other unfolding addData_bytes_def data_pop_def Let_def
        by (simp add: parse_long [of _ 2] le_val_le_enc)
    next
      case 4
      then show ?thesis
        using other assms unfolding addData_bytes_def data_pop_def Let_def
        by (simp add: parse_long [of _ 4] le_val_le_enc)
    qed
  qed
qed

lemma parse_item:
  assumes "wf_item i"
  shows "parseScript (item_bytes i @ rest) = add_pop (po_op (item_pop i)) (po_data (item_pop i)) (parseScript rest)"
proof (cases i)
  case (Op c)
  then show ?thesis using assms by (simp add: parse_plain)
next
  case (Data d)
  then show ?thesis using assms parse_data [of d rest] by (simp add: MaxScriptElementSize_def)
next
  case (Num n)
  have le: "(of_nat n :: byte) \<le> 16" if "n \<le> 16"
    using that by (simp add: word_le_nat_alt unat_of_nat)
  show ?thesis
  proof (cases "n \<le> 16")
    case True
    then show ?thesis
      using le small_num_length [of "of_nat n"] by (auto simp: Num num_bytes_def num_pop_def parse_plain)
  next
    case False
    then show ?thesis
      using assms Num parse_data [of "scriptNum_Bytes n" rest] by (simp add: num_bytes_def num_pop_def MaxScriptElementSize_def)
  qed
qed

lemma parse_items:
  "list_all wf_item items \<Longrightarrow> parseScript (concat (map item_bytes items)) = (map item_pop items, None)"
  by (induction items) (simp_all add: parse_item add_pop_def)

lemma add_item_bytes:
  assumes "sb_err b = None" "wf_item i" "length (sb_script b) + length (item_bytes i) \<le> maxScriptSize"
  shows "add_item i b = b\<lparr>sb_script := sb_script b @ item_bytes i\<rparr>"
proof -
  have d: "canonicalDataSize d = length (addData_bytes d)" for d
    by (cases d) (auto simp: canonicalDataSize_def addData_bytes_def Let_def)
  have "AddData d b = b\<lparr>sb_script := sb_script b @ addData_bytes d\<rparr>"
    if "length d \<le> MaxScriptElementSize" "length (sb_script b) + length (addData_bytes d) \<le> maxScriptSize" for d
    using that assms(1) by (simp add: AddData_def d addData_def)
  moreover have "1 \<le> length (addData_bytes d)" for d
    by (cases d) (auto simp: addData_bytes_def Let_def)
  then have "1 \<le> length (item_bytes i)" by (cases i) (auto simp: num_bytes_def)
  then have "\<not> maxScriptSize < length (sb_script b) + 1" using assms(3) by simp
  ultimately show ?thesis
    using assms by (cases i) (auto simp: AddOp_def AddInt64_def num_bytes_def)
qed

lemma build_script_bytes:
  assumes "list_all wf_item items" "length (concat (map item_bytes items)) \<le> maxScriptSize"
  shows "build_script items = \<lparr>sb_script = concat (map item_bytes items), sb_err = None\<rparr>"
proof -
  have "fold add_item items b = b\<lparr>sb_script := sb_script b @ concat (map item_bytes items)\<rparr>"
    if "sb_err b = None" "length (sb_script b) + length (concat (map item_bytes items)) \<le> maxScriptSize" for b
    using assms(1) that
  proof (induction items arbitrary: b)
    case (Cons i items)
    have "add_item i b = b\<lparr>sb_script := sb_script b @ item_bytes i\<rparr>"
      using Cons.prems by (intro add_item_bytes) simp_all
    then show ?case using Cons.IH [of "b\<lparr>sb_script := sb_script b @ item_bytes i\<rparr>"] Cons.prems by simp
  qed simp
  then show ?thesis using assms(2) by (simp add: build_script_def NewScriptBuilder_def)
qed

lemma parse_built:
  assumes "list_all wf_item items" "length (concat (map item_bytes items)) \<le> maxScriptSize"
  shows "ParseScript (sb_script (build_script items)) = Inr (map item_pop items)"
  using assms by (simp add: build_script_bytes parse_items ParseScript_def)

text \<open>A script made with the builder is read by the engine as the opcodes that were put in: data becomes the
  shortest push of it, small numbers their own opcodes.\<close>

theorem builder_parses:
  assumes "list_all wf_item items" "length (concat (map item_bytes items)) \<le> maxScriptSize"
  shows "ParseScript (sb_script (build_script items)) = Inr (map item_pop items)"
  using assms by (rule parse_built)

theorem builder_parses_witness:
  "ParseScript (sb_script (build_script [Num 17, Op OP_DROP, Data [1, 2]])) =
   Inr [\<lparr>po_op = 1, po_data = [17]\<rparr>, \<lparr>po_op = OP_DROP, po_data = []\<rparr>, \<lparr>po_op = 2, po_data = [1, 2]\<rparr>]"
  using builder_parses [of "[Num 17, Op OP_DROP, Data [1, 2]]"]
  by (simp add: num_pop_def data_pop_def scriptNum_Bytes_def le_min.simps num_bytes_def addData_bytes_def
      MaxScriptElementSize_def maxScriptSize_def opcode_length_def)

section \<open>Classes of scripts\<close>

definition isSmallInt :: "byte \<Rightarrow> bool" where
  "isSmallInt op \<longleftrightarrow> op = OP_0 \<or> OP_1 \<le> op \<and> op \<le> OP_16"

definition asSmallInt :: "byte \<Rightarrow> int" where
  "asSmallInt op = (if op = OP_0 then 0 else uint (op - (OP_1 - 1)))"

definition isScriptHash :: "parsed_opcode list \<Rightarrow> bool" where
  "isScriptHash pops \<longleftrightarrow> length pops = 3 \<and> po_op (pops ! 0) = OP_HASH160 \<and> po_op (pops ! 1) = OP_DATA_20 \<and> po_op (pops ! 2) = OP_EQUAL"

definition isWitnessScriptHash :: "parsed_opcode list \<Rightarrow> bool" where
  "isWitnessScriptHash pops \<longleftrightarrow> length pops = 2 \<and> po_op (pops ! 0) = OP_0 \<and> po_op (pops ! 1) = OP_DATA_32"

definition isWitnessPubKeyHash :: "parsed_opcode list \<Rightarrow> bool" where
  "isWitnessPubKeyHash pops \<longleftrightarrow> length pops = 2 \<and> po_op (pops ! 0) = OP_0 \<and> po_op (pops ! 1) = OP_DATA_20"

definition canonicalPush :: "parsed_opcode \<Rightarrow> bool" where
  "canonicalPush pop =
     (let opcode = po_op pop; data = po_data pop; dataLen = length data in
      if OP_16 < opcode then True
      else if opcode < OP_PUSHDATA1 \<and> OP_0 < opcode \<and> dataLen = 1 \<and> hd data \<le> 16 then False
      else if opcode = OP_PUSHDATA1 \<and> dataLen < unat OP_PUSHDATA1 then False
      else if opcode = OP_PUSHDATA2 \<and> dataLen \<le> 0xff then False
      else if opcode = OP_PUSHDATA4 \<and> dataLen \<le> 0xffff then False
      else True)"

definition isWitnessProgram :: "parsed_opcode list \<Rightarrow> bool" where
  "isWitnessProgram pops \<longleftrightarrow> length pops = 2 \<and> isSmallInt (po_op (pops ! 0)) \<and> canonicalPush (pops ! 1) \<and>
     2 \<le> length (po_data (pops ! 1)) \<and> length (po_data (pops ! 1)) \<le> 40"

definition isPushOnly :: "parsed_opcode list \<Rightarrow> bool" where
  "isPushOnly pops = list_all (\<lambda>pop. \<not> OP_16 < po_op pop) pops"

text \<open>The exported tests answer False for a script that does not parse.\<close>

definition on_parsed :: "(parsed_opcode list \<Rightarrow> bool) \<Rightarrow> bytes \<Rightarrow> bool" where
  "on_parsed P script = (case ParseScript script of Inl e \<Rightarrow> False | Inr pops \<Rightarrow> P pops)"

definition IsPayToScriptHash :: "bytes \<Rightarrow> bool" where "IsPayToScriptHash = on_parsed isScriptHash"
definition IsPayToWitnessScriptHash :: "bytes \<Rightarrow> bool" where "IsPayToWitnessScriptHash = on_parsed isWitnessScriptHash"
definition IsPayToWitnessPubKeyHash :: "bytes \<Rightarrow> bool" where "IsPayToWitnessPubKeyHash = on_parsed isWitnessPubKeyHash"
definition IsPushOnlyScript :: "bytes \<Rightarrow> bool" where "IsPushOnlyScript = on_parsed isPushOnly"

definition IsWitnessProgram :: "bytes \<Rightarrow> bool" where
  "IsWitnessProgram script =
     (if length script < 4 \<or> 42 < length script then False else on_parsed isWitnessProgram script)"

text \<open>Reading the first opcode of an empty script is a panic, and so is the second of a script with one.\<close>

definition ExtractWitnessProgramInfo :: "bytes \<Rightarrow> script_error + int \<times> bytes" where
  "ExtractWitnessProgramInfo script = bind_res (ParseScript script) (\<lambda>pops.
     if length pops < 2 then Inl ScriptPanic else Inr (asSmallInt (po_op (pops ! 0)), po_data (pops ! 1)))"

definition IsUnspendable :: "bytes \<Rightarrow> bool" where
  "IsUnspendable pkScript = (case ParseScript pkScript of Inl e \<Rightarrow> True
     | Inr pops \<Rightarrow> 0 < length pops \<and> po_op (pops ! 0) = OP_RETURN)"

section \<open>Counting signature operations\<close>

definition MaxPubKeysPerMultiSig :: nat where "MaxPubKeysPerMultiSig = 20"

text \<open>What one opcode counts, with the opcode before it.\<close>

definition sig_ops_at :: "parsed_opcode list \<Rightarrow> bool \<Rightarrow> nat \<Rightarrow> int" where
  "sig_ops_at pops precise i =
     (let op = po_op (pops ! i) in
      if op = OP_CHECKSIG \<or> op = OP_CHECKSIGVERIFY then 1
      else if op = OP_CHECKMULTISIG \<or> op = OP_CHECKMULTISIGVERIFY then
        (if precise \<and> 0 < i \<and> OP_1 \<le> po_op (pops ! (i - 1)) \<and> po_op (pops ! (i - 1)) \<le> OP_16
         then asSmallInt (po_op (pops ! (i - 1))) else int MaxPubKeysPerMultiSig)
      else 0)"

definition getSigOpCount :: "parsed_opcode list \<Rightarrow> bool \<Rightarrow> int" where
  "getSigOpCount pops precise = sum_list (map (sig_ops_at pops precise) [0..<length pops])"

definition GetSigOpCount :: "bytes \<Rightarrow> int" where
  "GetSigOpCount script = getSigOpCount (fst (parseScript script)) False"

definition GetPreciseSigOpCount :: "bytes \<Rightarrow> bytes \<Rightarrow> bool \<Rightarrow> int" where
  "GetPreciseSigOpCount scriptSig scriptPubKey bip16 =
     (let pops = fst (parseScript scriptPubKey) in
      if \<not> (bip16 \<and> isScriptHash pops) then getSigOpCount pops True
      else case ParseScript scriptSig of Inl e \<Rightarrow> 0
      | Inr sigPops \<Rightarrow>
        if \<not> isPushOnly sigPops \<or> sigPops = [] then 0
        else let shScript = po_data (last sigPops) in
             if shScript = [] then 0 else getSigOpCount (fst (parseScript shScript)) True)"

definition getWitnessSigOps :: "bytes \<Rightarrow> bytes list \<Rightarrow> script_error + int" where
  "getWitnessSigOps witnessProgram witness =
     (case ExtractWitnessProgramInfo witnessProgram of
        Inl ScriptPanic \<Rightarrow> Inl ScriptPanic
      | Inl e \<Rightarrow> Inr 0
      | Inr (witnessVersion, program) \<Rightarrow>
        if witnessVersion = 0 then
          (if length witnessProgram = 22 then Inr 1
           else if length witnessProgram = 34 \<and> 0 < length witness then
             (case ParseScript (last witness) of Inl e \<Rightarrow> Inr 0 | Inr pops \<Rightarrow> Inr (getSigOpCount pops True))
           else Inr 0)
        else Inr 0)"

definition GetWitnessSigOpCount :: "bytes \<Rightarrow> bytes \<Rightarrow> bytes list \<Rightarrow> script_error + int" where
  "GetWitnessSigOpCount sigScript pkScript witness =
     (if IsWitnessProgram pkScript then getWitnessSigOps pkScript witness
      else case ParseScript sigScript of Inl e \<Rightarrow> Inr 0
      | Inr sigPops \<Rightarrow>
        if IsPayToScriptHash pkScript \<and> isPushOnly sigPops then
          (if sigScript = [] then Inl ScriptPanic
           else if IsPayToWitnessScriptHash (tl sigScript) then getWitnessSigOps (tl sigScript) witness else Inr 0)
        else Inr 0)"

end
