(* ===== verification/TxStack.thy ===== *)
theory TxStack
  imports TxScript
begin

text \<open>
  The data stack of the script engine (\<open>btcutil/txscript/stack.go\<close>) and the numbers it holds
  (\<open>scriptnum.go\<close>). The model's stack is the Go slice read from the top: the head of the list is the last
  element of \<open>stk\<close>. The flag \<open>verifyMinimalData\<close>, the same in both stacks of an engine, is an argument.
\<close>

section \<open>Numbers\<close>

definition checkMinimalDataEncoding :: "bytes \<Rightarrow> bool" where
  "checkMinimalDataEncoding v =
     (if v = [] then True
      else if last v AND 0x7f = 0 then
        (if length v = 1 then False else if v ! (length v - 2) AND 0x80 = 0 then False else True)
      else True)"

text \<open>The absolute value in little-endian, with the sign in the highest bit of the last byte.\<close>

definition num_Bytes :: "int \<Rightarrow> bytes" where
  "num_Bytes n =
     (if n = 0 then []
      else
        let isNegative = n < 0;
            result = le_min (nat \<bar>n\<bar>)
        in if last result AND 0x80 \<noteq> 0 then result @ [if isNegative then 0x80 else 0x00]
           else if isNegative then result[length result - 1 := last result OR 0x80]
           else result)"

definition num_Int32 :: "int \<Rightarrow> int" where
  "num_Int32 n = (if 2 ^ 31 - 1 < n then 2 ^ 31 - 1 else if n < - (2 ^ 31) then - (2 ^ 31) else n)"

definition makeScriptNum :: "bytes \<Rightarrow> bool \<Rightarrow> nat \<Rightarrow> script_error + int" where
  "makeScriptNum v requireMinimal scriptNumLen =
     (if scriptNumLen < length v then Inl ErrStackNumberTooBig
      else if requireMinimal \<and> \<not> checkMinimalDataEncoding v then Inl ErrStackMinimalData
      else if v = [] then Inr 0
      else if last v AND 0x80 \<noteq> 0
        then Inr (- int (le_val (v[length v - 1 := last v AND NOT 0x80])))
      else Inr (int (le_val v)))"

definition defaultScriptNumLen :: nat where "defaultScriptNumLen = 4"

section \<open>The stack\<close>

type_synonym script_stack = "bytes list"

definition asBool :: "bytes \<Rightarrow> bool" where
  "asBool t = (case find_idx (\<lambda>b. b \<noteq> 0) t of None \<Rightarrow> False
     | Some i \<Rightarrow> \<not> (i = length t - 1 \<and> t ! i = 0x80))"

definition fromBool :: "bool \<Rightarrow> bytes" where "fromBool v = (if v then [1] else [])"

definition Depth :: "script_stack \<Rightarrow> int" where "Depth s = int (length s)"

definition nipN :: "int \<Rightarrow> script_stack \<Rightarrow> script_error + bytes \<times> script_stack" where
  "nipN idx s =
     (if idx < 0 \<or> Depth s - 1 < idx then Inl ErrStackUnderflow
      else Inr (s ! nat idx, take (nat idx) s @ drop (nat idx + 1) s))"

definition NipN :: "int \<Rightarrow> script_stack \<Rightarrow> script_error + script_stack" where
  "NipN idx s = bind_res (nipN idx s) (\<lambda>(so, s). Inr s)"

definition PopByteArray :: "script_stack \<Rightarrow> script_error + bytes \<times> script_stack" where
  "PopByteArray s = nipN 0 s"

definition PopInt :: "bool \<Rightarrow> script_stack \<Rightarrow> script_error + int \<times> script_stack" where
  "PopInt minimal s = bind_res (PopByteArray s) (\<lambda>(so, s).
     bind_res (makeScriptNum so minimal defaultScriptNumLen) (\<lambda>n. Inr (n, s)))"

definition PopBool :: "script_stack \<Rightarrow> script_error + bool \<times> script_stack" where
  "PopBool s = bind_res (PopByteArray s) (\<lambda>(so, s). Inr (asBool so, s))"

definition PeekByteArray :: "int \<Rightarrow> script_stack \<Rightarrow> script_error + bytes" where
  "PeekByteArray idx s = (if idx < 0 \<or> Depth s \<le> idx then Inl ErrStackUnderflow else Inr (s ! nat idx))"

text \<open>A loop that does the same fallible thing \<open>n\<close> times.\<close>

primrec times_res :: "nat \<Rightarrow> ('s \<Rightarrow> 'e + 's) \<Rightarrow> 's \<Rightarrow> 'e + 's" where
  "times_res 0 f s = Inr s"
| "times_res (Suc n) f s = bind_res (f s) (times_res n f)"

definition Tuck :: "script_stack \<Rightarrow> script_error + script_stack" where
  "Tuck s = bind_res (PopByteArray s) (\<lambda>(so2, s). bind_res (PopByteArray s) (\<lambda>(so1, s).
     Inr (so2 # so1 # so2 # s)))"

definition DropN :: "int \<Rightarrow> script_stack \<Rightarrow> script_error + script_stack" where
  "DropN n s = (if n < 1 then Inl ErrStackInvalidArgs
     else times_res (nat n) (\<lambda>s. bind_res (PopByteArray s) (\<lambda>(so, s). Inr s)) s)"

definition DupN :: "int \<Rightarrow> script_stack \<Rightarrow> script_error + script_stack" where
  "DupN n s = (if n < 1 then Inl ErrStackInvalidArgs
     else times_res (nat n) (\<lambda>s. bind_res (PeekByteArray (n - 1) s) (\<lambda>so. Inr (so # s))) s)"

definition nip_to_top :: "int \<Rightarrow> script_stack \<Rightarrow> script_error + script_stack" where
  "nip_to_top entry s = bind_res (nipN entry s) (\<lambda>(so, s). Inr (so # s))"

definition RotN :: "int \<Rightarrow> script_stack \<Rightarrow> script_error + script_stack" where
  "RotN n s = (if n < 1 then Inl ErrStackInvalidArgs else times_res (nat n) (nip_to_top (3 * n - 1)) s)"

definition SwapN :: "int \<Rightarrow> script_stack \<Rightarrow> script_error + script_stack" where
  "SwapN n s = (if n < 1 then Inl ErrStackInvalidArgs else times_res (nat n) (nip_to_top (2 * n - 1)) s)"

definition OverN :: "int \<Rightarrow> script_stack \<Rightarrow> script_error + script_stack" where
  "OverN n s = (if n < 1 then Inl ErrStackInvalidArgs
     else times_res (nat n) (\<lambda>s. bind_res (PeekByteArray (2 * n - 1) s) (\<lambda>so. Inr (so # s))) s)"

definition PickN :: "int \<Rightarrow> script_stack \<Rightarrow> script_error + script_stack" where
  "PickN n s = bind_res (PeekByteArray n s) (\<lambda>so. Inr (so # s))"

definition RollN :: "int \<Rightarrow> script_stack \<Rightarrow> script_error + script_stack" where
  "RollN n s = nip_to_top n s"

section \<open>The stack operations as list operations\<close>

lemma PopByteArray_simps [simp]:
  "PopByteArray [] = Inl ErrStackUnderflow" "PopByteArray (x # s) = Inr (x, s)"
  by (simp_all add: PopByteArray_def nipN_def Depth_def)

lemma PopBool_simps [simp]:
  "PopBool [] = Inl ErrStackUnderflow" "PopBool (x # s) = Inr (asBool x, s)"
  by (simp_all add: PopBool_def)

lemma PopInt_simps [simp]:
  "PopInt m [] = Inl ErrStackUnderflow"
  "PopInt m (x # s) = bind_res (makeScriptNum x m defaultScriptNumLen) (\<lambda>n. Inr (n, s))"
  by (simp_all add: PopInt_def)

lemma PeekByteArray_simps [simp]:
  "PeekByteArray 0 [] = Inl ErrStackUnderflow" "PeekByteArray 0 (x # s) = Inr x"
  by (simp_all add: PeekByteArray_def Depth_def)

lemma times_drop:
  "times_res n (\<lambda>s. bind_res (PopByteArray s) (\<lambda>(so, s). Inr s)) s =
   (if length s < n then Inl ErrStackUnderflow else Inr (drop n s))"
proof (induction n arbitrary: s)
  case (Suc n)
  then show ?case by (cases s) simp_all
qed simp

lemma times_peek:
  assumes "e < length s" "k \<le> e + 1"
  shows "times_res k (\<lambda>s. bind_res (PeekByteArray (int e) s) (\<lambda>so. Inr (so # s))) s = Inr (take k (drop (e + 1 - k) s) @ s)"
  using assms
proof (induction k arbitrary: s)
  case (Suc k)
  have "times_res k (\<lambda>s. bind_res (PeekByteArray (int e) s) (\<lambda>so. Inr (so # s))) (s ! e # s) =
      Inr (take k (drop (e + 1 - k) (s ! e # s)) @ s ! e # s)"
    using Suc.prems by (intro Suc.IH) simp_all
  moreover have "drop (e + 1 - k) (s ! e # s) = drop (e - k) s"
    using Suc.prems by (simp add: Suc_diff_le)
  moreover have "take (Suc k) (drop (e - k) s) = take k (drop (e - k) s) @ [s ! e]"
    using Suc.prems by (simp add: take_Suc_conv_app_nth)
  ultimately show ?case
    using Suc.prems by (simp add: PeekByteArray_def Depth_def)
qed simp

lemma times_nip:
  assumes "e < length s" "k \<le> e + 1"
  shows "times_res k (nip_to_top (int e)) s = Inr (take k (drop (e + 1 - k) s) @ take (e + 1 - k) s @ drop (e + 1) s)"
  using assms
proof (induction k arbitrary: s)
  case (Suc k)
  let ?s = "s ! e # take e s @ drop (e + 1) s"
  have k: "k \<le> e" "e < length s" using Suc.prems by simp_all
  have "times_res k (nip_to_top (int e)) ?s = Inr (take k (drop (e + 1 - k) ?s) @ take (e + 1 - k) ?s @ drop (e + 1) ?s)"
    using k by (intro Suc.IH) simp_all
  moreover have "drop (e + 1 - k) ?s = drop (e - k) (take e s) @ drop (e + 1) s" "take (e + 1 - k) ?s = s ! e # take (e - k) s"
    "drop (e + 1) ?s = drop (e + 1) s"
    using k by (simp_all add: Suc_diff_le)
  moreover have "take k (drop (e - k) (take e s) @ drop (e + 1) s) = take k (drop (e - k) s)"
    using k by (simp add: drop_take)
  moreover have "take (Suc k) (drop (e - k) s) = take k (drop (e - k) s) @ [s ! e]"
    using k by (simp add: take_Suc_conv_app_nth)
  moreover have "nip_to_top (int e) s = Inr ?s"
    using k by (simp add: nip_to_top_def nipN_def Depth_def)
  ultimately show ?case by simp
qed simp

lemma times_underflow:
  assumes "length s \<le> e" "1 \<le> k"
  shows "times_res k (\<lambda>s. bind_res (PeekByteArray (int e) s) (\<lambda>so. Inr (so # s))) s = Inl ErrStackUnderflow"
    and "times_res k (nip_to_top (int e)) s = Inl ErrStackUnderflow"
proof -
  obtain j where k: "k = Suc j" using assms(2) by (cases k) simp_all
  have "PeekByteArray (int e) s = Inl ErrStackUnderflow" "nip_to_top (int e) s = Inl ErrStackUnderflow"
    using assms(1) by (simp_all add: PeekByteArray_def nip_to_top_def nipN_def Depth_def)
  then show "times_res k (\<lambda>s. bind_res (PeekByteArray (int e) s) (\<lambda>so. Inr (so # s))) s = Inl ErrStackUnderflow"
    "times_res k (nip_to_top (int e)) s = Inl ErrStackUnderflow"
    by (simp_all add: k)
qed

lemma times_peek_all:
  assumes "1 \<le> k" "k \<le> e"
  shows "times_res k (\<lambda>s. bind_res (PeekByteArray (int e - 1) s) (\<lambda>so. Inr (so # s))) s =
    (if length s < e then Inl ErrStackUnderflow else Inr (take k (drop (e - k) s) @ s))"
proof -
  obtain j where e: "e = Suc j" using assms by (cases e) simp_all
  then have "int e - 1 = int j" by simp
  then show ?thesis
    using assms e times_peek [of j s k] times_underflow(1) [of s j k] by (simp add: not_less)
qed

lemma times_nip_all:
  assumes "1 \<le> k" "k \<le> e"
  shows "times_res k (nip_to_top (int e - 1)) s =
    (if length s < e then Inl ErrStackUnderflow else Inr (take k (drop (e - k) s) @ take (e - k) s @ drop e s))"
proof -
  obtain j where e: "e = Suc j" using assms by (cases e) simp_all
  then have "int e - 1 = int j" by simp
  then show ?thesis
    using assms e times_nip [of j s k] times_underflow(2) [of s j k] by (simp add: not_less)
qed

lemma stack_primitive_results:
  assumes "1 \<le> n"
  shows "DropN (int n) s = (if length s < n then Inl ErrStackUnderflow else Inr (drop n s))"
    and "DupN (int n) s = (if length s < n then Inl ErrStackUnderflow else Inr (take n s @ s))"
    and "OverN (int n) s = (if length s < 2 * n then Inl ErrStackUnderflow else Inr (take n (drop n s) @ s))"
    and "SwapN (int n) s = (if length s < 2 * n then Inl ErrStackUnderflow
      else Inr (take n (drop n s) @ take n s @ drop (2 * n) s))"
    and "RotN (int n) s = (if length s < 3 * n then Inl ErrStackUnderflow
      else Inr (take n (drop (2 * n) s) @ take (2 * n) s @ drop (3 * n) s))"
proof -
  have n: "\<not> int n < 1" "nat (int n) = n" "2 * int n = int (2 * n)" "3 * int n = int (3 * n)" using assms by simp_all
  have k: "n - n = 0" "2 * n - n = n" "3 * n - n = 2 * n" "n \<le> 2 * n" "n \<le> 3 * n" by simp_all
  show "DropN (int n) s = (if length s < n then Inl ErrStackUnderflow else Inr (drop n s))"
    by (simp only: DropN_def n times_drop if_False)
  show "DupN (int n) s = (if length s < n then Inl ErrStackUnderflow else Inr (take n s @ s))"
    by (simp only: DupN_def n times_peek_all [OF assms order_refl] k if_False drop_0)
  show "OverN (int n) s = (if length s < 2 * n then Inl ErrStackUnderflow else Inr (take n (drop n s) @ s))"
    by (simp only: OverN_def n times_peek_all [OF assms k(4)] k(2) if_False)
  show "SwapN (int n) s = (if length s < 2 * n then Inl ErrStackUnderflow
      else Inr (take n (drop n s) @ take n s @ drop (2 * n) s))"
    by (simp only: SwapN_def n times_nip_all [OF assms k(4)] k(2) if_False)
  show "RotN (int n) s = (if length s < 3 * n then Inl ErrStackUnderflow
      else Inr (take n (drop (2 * n) s) @ take (2 * n) s @ drop (3 * n) s))"
    by (simp only: RotN_def n times_nip_all [OF assms k(5)] k(3) if_False)
qed

text \<open>The stack primitives do what their comments show: dropping, duplicating, copying over, swapping and
  rotating the n top entries, or the underflow error exactly when there are not enough.\<close>

theorem stack_primitives:
  assumes "1 \<le> n"
  shows "DropN (int n) s = (if length s < n then Inl ErrStackUnderflow else Inr (drop n s)) \<and>
    DupN (int n) s = (if length s < n then Inl ErrStackUnderflow else Inr (take n s @ s)) \<and>
    OverN (int n) s = (if length s < 2 * n then Inl ErrStackUnderflow else Inr (take n (drop n s) @ s)) \<and>
    SwapN (int n) s = (if length s < 2 * n then Inl ErrStackUnderflow
      else Inr (take n (drop n s) @ take n s @ drop (2 * n) s)) \<and>
    RotN (int n) s = (if length s < 3 * n then Inl ErrStackUnderflow
      else Inr (take n (drop (2 * n) s) @ take (2 * n) s @ drop (3 * n) s))"
  by (intro conjI stack_primitive_results assms)

section \<open>Numbers survive the stack\<close>

lemma le_val_le_min: "le_val (le_min n) = n"
proof (induction n rule: le_min.induct)
  case (1 n)
  show ?case
  proof (cases "n = 0")
    case False
    then show ?thesis using 1 by (subst le_min.simps) (simp add: unat_byte_of_nat)
  qed (simp add: le_min.simps)
qed

lemma le_min_pos: "0 < n \<Longrightarrow> le_min n \<noteq> [] \<and> last (le_min n) \<noteq> 0"
proof (induction n rule: le_min.induct)
  case (1 n)
  show ?case
  proof (cases "n div 256 = 0")
    case True
    then have "n < 256" "le_min n = [of_nat n]" using 1(2) by (simp, subst le_min.simps, simp add: le_min.simps)
    moreover have "(of_nat n :: byte) \<noteq> 0" using 1(2) \<open>n < 256\<close> by (simp add: word_unat_eq_iff unat_of_nat)
    ultimately show ?thesis by simp
  next
    case False
    moreover have "le_min n = of_nat n # le_min (n div 256)" using 1(2) by (subst le_min.simps) simp
    ultimately show ?thesis using 1 by simp
  qed
qed

lemma le_val_snoc: "le_val (xs @ [b]) = le_val xs + 256 ^ length xs * unat b"
  by (induction xs) (simp_all add: algebra_simps)

text \<open>The sign bit of a byte, in numbers; the 256 bytes are checked one by one.\<close>

lemma byte_bits:
  "((w :: byte) AND 0x80 = 0) = (unat w < 128)" "unat (w AND 0x7f) = unat w mod 128"
  "unat (w AND NOT 0x80) = unat w mod 128" "unat w < 128 \<Longrightarrow> unat (w OR 0x80) = unat w + 128"
proof -
  define ok where "ok = (\<lambda>w :: byte. ((w AND 0x80 = 0) = (unat w < 128)) \<and> unat (w AND 0x7f) = unat w mod 128 \<and>
    unat (w AND NOT 0x80) = unat w mod 128 \<and> (unat w < 128 \<longrightarrow> unat (w OR 0x80) = unat w + 128))"
  have all: "list_all (\<lambda>n. ok (word_of_nat n)) [0..<256]"
    unfolding ok_def by code_simp
  have "unat w < 256" using unsigned_less [of w] by simp
  then have "ok (word_of_nat (unat w))" using all by (simp only: list_all_iff set_upt atLeastLessThan_iff le0 simp_thms)
  then have "ok w" by simp
  then show "((w :: byte) AND 0x80 = 0) = (unat w < 128)" "unat (w AND 0x7f) = unat w mod 128"
    "unat (w AND NOT 0x80) = unat w mod 128" "unat w < 128 \<Longrightarrow> unat (w OR 0x80) = unat w + 128"
    by (simp_all add: ok_def)
qed

lemma le_min_length: "n < 256 ^ k \<Longrightarrow> length (le_min n) \<le> k"
proof (induction n arbitrary: k rule: le_min.induct)
  case (1 n)
  show ?case
  proof (cases "n = 0")
    case True
    then show ?thesis by (simp add: le_min.simps)
  next
    case False
    then obtain j where k: "k = Suc j" using "1.prems" by (cases k) simp_all
    have "n div 256 < 256 ^ j" using "1.prems" k by (simp add: less_mult_imp_div_less mult.commute)
    then have "length (le_min (n div 256)) \<le> j" using "1.IH" [OF False] by blast
    then show ?thesis using False k by (subst le_min.simps) simp
  qed
qed

lemma le_min_snoc:
  assumes "0 < n"
  obtains r w where "le_min n = r @ [w]" "0 < unat w" "n = le_val r + 256 ^ length r * unat w"
proof -
  have r: "le_min n = butlast (le_min n) @ [last (le_min n)]" using le_min_pos [OF assms] by simp
  have "0 < unat (last (le_min n))"
    using le_min_pos [OF assms] by (simp add: unat_gt_0)
  moreover have "n = le_val (butlast (le_min n)) + 256 ^ length (butlast (le_min n)) * unat (last (le_min n))"
    by (metis r le_val_le_min le_val_snoc)
  ultimately show thesis using that r by blast
qed

lemma zero_iff: "w = 0 \<longleftrightarrow> unat (w :: byte) = 0"
  by (simp add: unat_eq_0)

text \<open>A number pushed on the stack is read back as the same number, in the minimal encoding, when it fits
  the bytes the reader allows: 31 bits and a sign for the arithmetic opcodes, 39 for locktimes.\<close>

theorem script_number_roundtrip:
  assumes "1 \<le> k" "\<bar>n\<bar> < 2 ^ (8 * k - 1)"
  shows "makeScriptNum (num_Bytes n) m k = Inr n"
proof (cases "n = 0")
  case True
  then show ?thesis by (simp add: num_Bytes_def makeScriptNum_def checkMinimalDataEncoding_def)
next
  case False
  define a where "a = nat \<bar>n\<bar>"
  have a: "0 < a" "int a = \<bar>n\<bar>" using False by (simp_all add: a_def)
  obtain r w where r: "le_min a = r @ [w]" "0 < unat w" "a = le_val r + 256 ^ length r * unat w"
    using le_min_snoc [OF a(1)] .
  have val: "le_val (r @ [w]) = a" using r(3) by (simp add: le_val_snoc)
  obtain j where k: "k = Suc j" using assms(1) by (cases k) simp_all
  have "a < 128 * 256 ^ j"
  proof -
    have "8 * k - 1 = 7 + 8 * j" using k by simp
    then have "(2 :: int) ^ (8 * k - 1) = 128 * 256 ^ j" by (simp add: power_add power_mult)
    then have "int a < int (128 * 256 ^ j)" using assms(2) a(2) by simp
    then show ?thesis by (simp only: of_nat_less_iff)
  qed
  note aj = this
  have lj: "length r \<le> j"
    using le_min_length [of a "Suc j"] aj r(1) by simp
  have lh: "length r < j" if "128 \<le> unat w"
  proof -
    have "256 ^ length r * 128 \<le> 256 ^ length r * unat w" using that by (rule mult_le_mono2)
    also have "\<dots> \<le> a" by (subst r(3)) simp
    also note aj
    finally show ?thesis by simp
  qed
  show ?thesis
  proof (cases "128 \<le> unat w")
    case True
    let ?s = "if n < 0 then 0x80 else (0 :: byte)"
    have b: "num_Bytes n = r @ [w, ?s]"
      using False True by (simp add: num_Bytes_def a_def [symmetric] r(1) byte_bits(1) Let_def)
    have c: "checkMinimalDataEncoding (num_Bytes n)"
      using True by (simp add: b checkMinimalDataEncoding_def nth_append byte_bits(1))
    have z: "le_val (r @ [w, 0]) = a"
      using val le_val_snoc [of "r @ [w]" 0] by simp
    show ?thesis
    proof (cases "n < 0")
      case neg: True
      then show ?thesis
        using c z lh [OF True] a k by (simp add: makeScriptNum_def b list_update_append)
    next
      case False
      then show ?thesis
        using c z lh [OF True] a k by (simp add: makeScriptNum_def b)
    qed
  next
    case low: False
    let ?w = "if n < 0 then w OR 0x80 else w"
    have h: "w AND 0x80 = 0" using low by (simp add: byte_bits(1))
    have b: "num_Bytes n = r @ [?w]"
      using False h by (simp add: num_Bytes_def a_def [symmetric] r(1) Let_def list_update_append)
    have u: "unat (w OR 0x80) = unat w + 128" using low by (simp add: byte_bits(4))
    have "?w AND 0x7f \<noteq> 0"
      using r(2) low u by (simp add: zero_iff byte_bits(2))
    then have c: "checkMinimalDataEncoding (num_Bytes n)"
      by (simp add: b checkMinimalDataEncoding_def)
    have "(w OR 0x80) AND NOT 0x80 = w"
      unfolding word_unat_eq_iff byte_bits(3) u using low by simp
    then show ?thesis
      using c lj low u h val a k by (cases "n < 0") (simp_all add: makeScriptNum_def b byte_bits(1) list_update_append)
  qed
qed

theorem script_number_roundtrip_witness:
  "makeScriptNum (num_Bytes (- 255)) True 4 = Inr (- 255) \<and> num_Bytes (- 255) = [0xff, 0x80]"
proof
  show "makeScriptNum (num_Bytes (- 255)) True 4 = Inr (- 255)"
    by (rule script_number_roundtrip) simp_all
  show "num_Bytes (- 255) = [0xff, 0x80]"
    by (simp add: num_Bytes_def le_min.simps)
qed

theorem stack_primitives_witness:
  "RotN 1 [[1], [2], [3]] = Inr [[3], [1], [2]] \<and> SwapN 2 [[1], [2], [3]] = Inl ErrStackUnderflow"
  using stack_primitives [of 1 "[[1], [2], [3]]"] stack_primitives [of 2 "[[1], [2], [3]]"] by simp

end
