(* ===== verification/TxSighash.thy ===== *)
theory TxSighash
  imports TxStack
begin

text \<open>
  The message a script signature signs (\<open>btcutil/txscript/script.go\<close>, \<open>hashcache.go\<close>): the hash of BIP143 for
  witness inputs, and the original one. Sequences of bytes hashed as the source hashes them; double SHA-256 is
  the parameter \<open>cr_DoubleHash\<close>.
\<close>

section \<open>Hash types\<close>

definition SigHashOld :: u32 where "SigHashOld = 0x0"
definition SigHashAll :: u32 where "SigHashAll = 0x1"
definition SigHashNone :: u32 where "SigHashNone = 0x2"
definition SigHashSingle :: u32 where "SigHashSingle = 0x3"
definition SigHashAnyOneCanPay :: u32 where "SigHashAnyOneCanPay = 0x80"
definition sigHashMask :: u32 where "sigHashMask = 0x1f"

lemmas sighash_types = SigHashOld_def SigHashAll_def SigHashNone_def SigHashSingle_def SigHashAnyOneCanPay_def sigHashMask_def

definition zeroHash :: bytes where "zeroHash = replicate 32 0"

section \<open>Parts that do not depend on the input\<close>

record tx_sig_hashes =
  sh_HashPrevOuts :: bytes
  sh_HashSequence :: bytes
  sh_HashOutputs :: bytes

definition calcHashPrevOuts :: "crypto \<Rightarrow> msg_tx \<Rightarrow> bytes" where
  "calcHashPrevOuts cr tx = cr_DoubleHash cr (concat (map (\<lambda>ti.
     op_Hash (ti_PreviousOutPoint ti) @ le_enc 4 (unat (op_Index (ti_PreviousOutPoint ti)))) (tx_TxIn tx)))"

definition calcHashSequence :: "crypto \<Rightarrow> msg_tx \<Rightarrow> bytes" where
  "calcHashSequence cr tx = cr_DoubleHash cr (concat (map (\<lambda>ti. le_enc 4 (unat (ti_Sequence ti))) (tx_TxIn tx)))"

definition calcHashOutputs :: "crypto \<Rightarrow> msg_tx \<Rightarrow> bytes" where
  "calcHashOutputs cr tx = cr_DoubleHash cr (concat (map WriteTxOut (tx_TxOut tx)))"

definition NewTxSigHashes :: "crypto \<Rightarrow> msg_tx \<Rightarrow> tx_sig_hashes" where
  "NewTxSigHashes cr tx = \<lparr>sh_HashPrevOuts = calcHashPrevOuts cr tx, sh_HashSequence = calcHashSequence cr tx,
     sh_HashOutputs = calcHashOutputs cr tx\<rparr>"

section \<open>Witness inputs\<close>

text \<open>
  The script code. The error of \<open>unparseScript\<close> is dropped, which leaves no bytes, and slicing them is then a
  panic.
\<close>

definition script_code :: "parsed_opcode list \<Rightarrow> script_error + bytes" where
  "script_code subScript =
     (let rawScript = (case unparseScript subScript of Inl e \<Rightarrow> [] | Inr b \<Rightarrow> b) in
      if isWitnessPubKeyHash subScript then
        (if length rawScript < 22 then Inl ScriptPanic
         else Inr ([0x19, OP_DUP, OP_HASH160, OP_DATA_20] @ take 20 (drop 2 rawScript) @ [OP_EQUALVERIFY, OP_CHECKSIG]))
      else Inr (WriteVarBytes rawScript))"

definition CalcWitnessSignatureHash ::
  "crypto \<Rightarrow> parsed_opcode list \<Rightarrow> tx_sig_hashes \<Rightarrow> u32 \<Rightarrow> msg_tx \<Rightarrow> nat \<Rightarrow> int \<Rightarrow> script_error + bytes" where
  "CalcWitnessSignatureHash cr subScript sigHashes hashType tx idx amt =
     (if length (tx_TxIn tx) \<le> idx then Inr []
      else
        let ti = tx_TxIn tx ! idx; masked = hashType AND sigHashMask in
        bind_res (script_code subScript) (\<lambda>code.
          Inr (cr_DoubleHash cr (
            le_enc 4 (unat (tx_Version tx)) @
            (if hashType AND SigHashAnyOneCanPay = 0 then sh_HashPrevOuts sigHashes else zeroHash) @
            (if hashType AND SigHashAnyOneCanPay = 0 \<and> masked \<noteq> SigHashSingle \<and> masked \<noteq> SigHashNone
             then sh_HashSequence sigHashes else zeroHash) @
            op_Hash (ti_PreviousOutPoint ti) @ le_enc 4 (unat (op_Index (ti_PreviousOutPoint ti))) @
            code @ le_enc 8 (unat (of_int amt :: u64)) @ le_enc 4 (unat (ti_Sequence ti)) @
            (if hashType AND SigHashSingle \<noteq> SigHashSingle \<and> hashType AND SigHashNone \<noteq> SigHashNone
             then sh_HashOutputs sigHashes
             else if masked = SigHashSingle \<and> idx < length (tx_TxOut tx)
             then cr_DoubleHash cr (WriteTxOut (tx_TxOut tx ! idx))
             else zeroHash) @
            le_enc 4 (unat (tx_LockTime tx)) @ le_enc 4 (unat hashType)))))"

section \<open>Other inputs\<close>

definition removeOpcode :: "parsed_opcode list \<Rightarrow> byte \<Rightarrow> parsed_opcode list" where
  "removeOpcode pkscript opcode = filter (\<lambda>pop. po_op pop \<noteq> opcode) pkscript"

definition bytes_contains :: "bytes \<Rightarrow> bytes \<Rightarrow> bool" where
  "bytes_contains s sub = list_ex (\<lambda>i. take (length sub) (drop i s) = sub) [0..<length s + 1]"

definition removeOpcodeByData :: "parsed_opcode list \<Rightarrow> bytes \<Rightarrow> parsed_opcode list" where
  "removeOpcodeByData pkscript data = filter (\<lambda>pop. \<not> canonicalPush pop \<or> \<not> bytes_contains (po_data pop) data) pkscript"

text \<open>What the signature hash of the original scheme replaces in the copy of the transaction.\<close>

definition other_sequences_zero :: "nat \<Rightarrow> tx_in list \<Rightarrow> tx_in list" where
  "other_sequences_zero idx ins = map (\<lambda>i. if i \<noteq> idx then (ins ! i)\<lparr>ti_Sequence := 0\<rparr> else ins ! i) [0..<length ins]"

definition calcSignatureHash :: "crypto \<Rightarrow> parsed_opcode list \<Rightarrow> u32 \<Rightarrow> msg_tx \<Rightarrow> nat \<Rightarrow> bytes" where
  "calcSignatureHash cr script hashType tx idx =
     (let masked = hashType AND sigHashMask in
      if masked = SigHashSingle \<and> length (tx_TxOut tx) \<le> idx then 0x01 # replicate 31 0
      else
        let script = removeOpcode script OP_CODESEPARATOR;
            sigScript = (case unparseScript script of Inl e \<Rightarrow> [] | Inr b \<Rightarrow> b);
            ins = map (\<lambda>i. (tx_TxIn tx ! i)\<lparr>ti_SignatureScript := (if i = idx then sigScript else [])\<rparr>) [0..<length (tx_TxIn tx)];
            (ins, outs) =
              (if masked = SigHashNone then (other_sequences_zero idx ins, [])
               else if masked = SigHashSingle then
                 (other_sequences_zero idx ins,
                  map (\<lambda>i. if i < idx then \<lparr>to_Value = - 1, to_PkScript = []\<rparr> else tx_TxOut tx ! i) [0..<idx + 1])
               else (ins, tx_TxOut tx));
            ins = (if hashType AND SigHashAnyOneCanPay \<noteq> 0 then [ins ! idx] else ins)
        in cr_DoubleHash cr (SerializeNoWitness (tx\<lparr>tx_TxIn := ins, tx_TxOut := outs\<rparr>) @ le_enc 4 (unat hashType)))"

text \<open>The two tests of BIP143 for the outputs part disagree with the masked type: for a hash type such as 0x06,
  whose masked type is neither NONE nor SINGLE, the code hashes no outputs, so the signature does not commit to
  them: any outputs give the same hash.\<close>

theorem sighash_ignores_outputs:
  assumes "hashType AND SigHashNone = SigHashNone" "hashType AND sigHashMask \<noteq> SigHashSingle"
    and "sh_HashPrevOuts h' = sh_HashPrevOuts h" "sh_HashSequence h' = sh_HashSequence h"
  shows "CalcWitnessSignatureHash cr script h' hashType (tx\<lparr>tx_TxOut := outs\<rparr>) idx amt =
    CalcWitnessSignatureHash cr script h hashType tx idx amt"
  using assms by (simp add: CalcWitnessSignatureHash_def Let_def)

theorem sighash_ignores_outputs_witness:
  "let cr = \<lparr>cr_Sha256 = id, cr_DoubleHash = id, cr_Hash160 = id, cr_CombinePubs = (\<lambda>x y. x), cr_AddPubsEZ = (\<lambda>x y. x), cr_PubFromHash = id\<rparr>;
       tx = \<lparr>tx_Version = 2, tx_TxIn = [\<lparr>ti_PreviousOutPoint = \<lparr>op_Hash = replicate 32 7, op_Index = 0\<rparr>, ti_SignatureScript = [],
              ti_Witness = [], ti_Sequence = 0\<rparr>], tx_TxOut = [\<lparr>to_Value = 1000, to_PkScript = [OP_1]\<rparr>], tx_LockTime = 0\<rparr>;
       tx' = tx\<lparr>tx_TxOut := []\<rparr>
   in CalcWitnessSignatureHash cr [] (NewTxSigHashes cr tx') 6 tx' 0 1000 = CalcWitnessSignatureHash cr [] (NewTxSigHashes cr tx) 6 tx 0 1000"
  unfolding Let_def
  by (rule sighash_ignores_outputs) (simp_all add: sighash_types NewTxSigHashes_def calcHashPrevOuts_def calcHashSequence_def)

end
