(* ===== verification/TxOpcodes.thy ===== *)
theory TxOpcodes
  imports TxSighash
begin

text \<open>
  The opcode handlers of the script engine (\<open>btcutil/txscript/opcode.go\<close>): the state of the engine, one
  definition per handler, and the handler column of the opcode table. A handler that fails returns only its
  error: the engine is not used afterwards. Public keys and signatures of the curve package are pairs of
  integers, and parsing and verifying them are parameters.
\<close>

section \<open>Opcode names\<close>

abbreviation "OP_RESERVED \<equiv> (0x50 :: byte)"
abbreviation "OP_NOP \<equiv> (0x61 :: byte)"
abbreviation "OP_VER \<equiv> (0x62 :: byte)"
abbreviation "OP_VERIF \<equiv> (0x65 :: byte)"
abbreviation "OP_VERNOTIF \<equiv> (0x66 :: byte)"
abbreviation "OP_VERIFY \<equiv> (0x69 :: byte)"
abbreviation "OP_TOALTSTACK \<equiv> (0x6b :: byte)"
abbreviation "OP_FROMALTSTACK \<equiv> (0x6c :: byte)"
abbreviation "OP_2DROP \<equiv> (0x6d :: byte)"
abbreviation "OP_2DUP \<equiv> (0x6e :: byte)"
abbreviation "OP_3DUP \<equiv> (0x6f :: byte)"
abbreviation "OP_2OVER \<equiv> (0x70 :: byte)"
abbreviation "OP_2ROT \<equiv> (0x71 :: byte)"
abbreviation "OP_2SWAP \<equiv> (0x72 :: byte)"
abbreviation "OP_IFDUP \<equiv> (0x73 :: byte)"
abbreviation "OP_DEPTH \<equiv> (0x74 :: byte)"
abbreviation "OP_NIP \<equiv> (0x77 :: byte)"
abbreviation "OP_OVER \<equiv> (0x78 :: byte)"
abbreviation "OP_PICK \<equiv> (0x79 :: byte)"
abbreviation "OP_ROLL \<equiv> (0x7a :: byte)"
abbreviation "OP_ROT \<equiv> (0x7b :: byte)"
abbreviation "OP_TUCK \<equiv> (0x7d :: byte)"
abbreviation "OP_CAT \<equiv> (0x7e :: byte)"
abbreviation "OP_SUBSTR \<equiv> (0x7f :: byte)"
abbreviation "OP_LEFT \<equiv> (0x80 :: byte)"
abbreviation "OP_RIGHT \<equiv> (0x81 :: byte)"
abbreviation "OP_INVERT \<equiv> (0x83 :: byte)"
abbreviation "OP_AND \<equiv> (0x84 :: byte)"
abbreviation "OP_OR \<equiv> (0x85 :: byte)"
abbreviation "OP_XOR \<equiv> (0x86 :: byte)"
abbreviation "OP_RESERVED1 \<equiv> (0x89 :: byte)"
abbreviation "OP_RESERVED2 \<equiv> (0x8a :: byte)"
abbreviation "OP_1ADD \<equiv> (0x8b :: byte)"
abbreviation "OP_1SUB \<equiv> (0x8c :: byte)"
abbreviation "OP_2MUL \<equiv> (0x8d :: byte)"
abbreviation "OP_2DIV \<equiv> (0x8e :: byte)"
abbreviation "OP_NEGATE \<equiv> (0x8f :: byte)"
abbreviation "OP_ABS \<equiv> (0x90 :: byte)"
abbreviation "OP_NOT \<equiv> (0x91 :: byte)"
abbreviation "OP_0NOTEQUAL \<equiv> (0x92 :: byte)"
abbreviation "OP_ADD \<equiv> (0x93 :: byte)"
abbreviation "OP_SUB \<equiv> (0x94 :: byte)"
abbreviation "OP_MUL \<equiv> (0x95 :: byte)"
abbreviation "OP_DIV \<equiv> (0x96 :: byte)"
abbreviation "OP_MOD \<equiv> (0x97 :: byte)"
abbreviation "OP_LSHIFT \<equiv> (0x98 :: byte)"
abbreviation "OP_RSHIFT \<equiv> (0x99 :: byte)"
abbreviation "OP_BOOLAND \<equiv> (0x9a :: byte)"
abbreviation "OP_BOOLOR \<equiv> (0x9b :: byte)"
abbreviation "OP_NUMEQUAL \<equiv> (0x9c :: byte)"
abbreviation "OP_NUMEQUALVERIFY \<equiv> (0x9d :: byte)"
abbreviation "OP_NUMNOTEQUAL \<equiv> (0x9e :: byte)"
abbreviation "OP_LESSTHAN \<equiv> (0x9f :: byte)"
abbreviation "OP_GREATERTHAN \<equiv> (0xa0 :: byte)"
abbreviation "OP_LESSTHANOREQUAL \<equiv> (0xa1 :: byte)"
abbreviation "OP_GREATERTHANOREQUAL \<equiv> (0xa2 :: byte)"
abbreviation "OP_MIN \<equiv> (0xa3 :: byte)"
abbreviation "OP_MAX \<equiv> (0xa4 :: byte)"
abbreviation "OP_WITHIN \<equiv> (0xa5 :: byte)"
abbreviation "OP_RIPEMD160 \<equiv> (0xa6 :: byte)"
abbreviation "OP_SHA1 \<equiv> (0xa7 :: byte)"
abbreviation "OP_HASH256 \<equiv> (0xaa :: byte)"
abbreviation "OP_NOP1 \<equiv> (0xb0 :: byte)"
abbreviation "OP_NOP4 \<equiv> (0xb3 :: byte)"
abbreviation "OP_NOP5 \<equiv> (0xb4 :: byte)"
abbreviation "OP_NOP6 \<equiv> (0xb5 :: byte)"
abbreviation "OP_NOP7 \<equiv> (0xb6 :: byte)"
abbreviation "OP_NOP8 \<equiv> (0xb7 :: byte)"
abbreviation "OP_NOP9 \<equiv> (0xb8 :: byte)"
abbreviation "OP_NOP10 \<equiv> (0xb9 :: byte)"

section \<open>The state of the engine\<close>

text \<open>
  \<open>se_cached\<close> is what the shared signature cache answers at the start. Entries added during a run are
  signatures that were verified, so they change no answer.
\<close>

record script_env =
  se_crypto :: crypto
  se_Ripemd160 :: "bytes \<Rightarrow> bytes"
  se_Sha1 :: "bytes \<Rightarrow> bytes"
  se_ParsePubKey :: "bytes \<Rightarrow> (int \<times> int) option"
  se_ParseDERSignature :: "bytes \<Rightarrow> (int \<times> int) option"
  se_ParseSignature :: "bytes \<Rightarrow> (int \<times> int) option"
  se_Verify :: "int \<times> int \<Rightarrow> bytes \<Rightarrow> int \<times> int \<Rightarrow> bool"
  se_cached :: "bytes \<Rightarrow> int \<times> int \<Rightarrow> int \<times> int \<Rightarrow> bool"

datatype cond = OpCondFalse | OpCondTrue | OpCondSkip

text \<open>The condition stack is read from the top, as the data stacks are.\<close>

record engine =
  vm_scripts :: "parsed_opcode list list"
  vm_scriptIdx :: nat
  vm_scriptOff :: nat
  vm_lastCodeSep :: nat
  vm_dstack :: script_stack
  vm_astack :: script_stack
  vm_verifyMinimalData :: bool
  vm_tx :: msg_tx
  vm_txIdx :: nat
  vm_condStack :: "cond list"
  vm_numOps :: nat
  vm_flags :: u32
  vm_hashCache :: "tx_sig_hashes option"
  vm_bip16 :: bool
  vm_savedFirstStack :: "bytes list"
  vm_witness :: bool
  vm_witnessVersion :: int
  vm_witnessProgram :: bytes
  vm_inputAmount :: int

definition ScriptBip16 :: u32 where "ScriptBip16 = 1"
definition ScriptStrictMultiSig :: u32 where "ScriptStrictMultiSig = 2"
definition ScriptDiscourageUpgradableNops :: u32 where "ScriptDiscourageUpgradableNops = 4"
definition ScriptVerifyCheckLockTimeVerify :: u32 where "ScriptVerifyCheckLockTimeVerify = 8"
definition ScriptVerifyCleanStack :: u32 where "ScriptVerifyCleanStack = 16"
definition ScriptVerifyDERSignatures :: u32 where "ScriptVerifyDERSignatures = 32"
definition ScriptVerifyLowS :: u32 where "ScriptVerifyLowS = 64"
definition ScriptVerifyMinimalData :: u32 where "ScriptVerifyMinimalData = 128"
definition ScriptVerifySigPushOnly :: u32 where "ScriptVerifySigPushOnly = 256"
definition ScriptVerifyStrictEncoding :: u32 where "ScriptVerifyStrictEncoding = 512"
definition ScriptVerifyWitness :: u32 where "ScriptVerifyWitness = 1024"
definition ScriptVerifyDiscourageUpgradeableWitnessProgram :: u32 where
  "ScriptVerifyDiscourageUpgradeableWitnessProgram = 2048"

lemmas script_flags = ScriptBip16_def ScriptStrictMultiSig_def ScriptDiscourageUpgradableNops_def
  ScriptVerifyCheckLockTimeVerify_def ScriptVerifyCleanStack_def ScriptVerifyDERSignatures_def ScriptVerifyLowS_def
  ScriptVerifyMinimalData_def ScriptVerifySigPushOnly_def ScriptVerifyStrictEncoding_def ScriptVerifyWitness_def
  ScriptVerifyDiscourageUpgradeableWitnessProgram_def

definition hasFlag :: "engine \<Rightarrow> u32 \<Rightarrow> bool" where
  "hasFlag vm flag \<longleftrightarrow> vm_flags vm AND flag = flag"

definition isBranchExecuting :: "engine \<Rightarrow> bool" where
  "isBranchExecuting vm = (if vm_condStack vm = [] then True else hd (vm_condStack vm) = OpCondTrue)"

type_synonym vm_result = "script_error + engine"

definition on_dstack :: "(script_stack \<Rightarrow> script_error + script_stack) \<Rightarrow> engine \<Rightarrow> vm_result" where
  "on_dstack f vm = bind_res (f (vm_dstack vm)) (\<lambda>s. Inr (vm\<lparr>vm_dstack := s\<rparr>))"

definition push_vm :: "bytes \<Rightarrow> engine \<Rightarrow> vm_result" where
  "push_vm x vm = Inr (vm\<lparr>vm_dstack := x # vm_dstack vm\<rparr>)"

definition pop_vm :: "(bytes \<Rightarrow> engine \<Rightarrow> vm_result) \<Rightarrow> engine \<Rightarrow> vm_result" where
  "pop_vm f vm = bind_res (PopByteArray (vm_dstack vm)) (\<lambda>(x, s). f x (vm\<lparr>vm_dstack := s\<rparr>))"

definition pop_bool :: "(bool \<Rightarrow> engine \<Rightarrow> vm_result) \<Rightarrow> engine \<Rightarrow> vm_result" where
  "pop_bool f vm = bind_res (PopBool (vm_dstack vm)) (\<lambda>(b, s). f b (vm\<lparr>vm_dstack := s\<rparr>))"

definition pop_int :: "(int \<Rightarrow> engine \<Rightarrow> vm_result) \<Rightarrow> engine \<Rightarrow> vm_result" where
  "pop_int f vm = bind_res (PopInt (vm_verifyMinimalData vm) (vm_dstack vm)) (\<lambda>(n, s). f n (vm\<lparr>vm_dstack := s\<rparr>))"

definition push_int :: "int \<Rightarrow> engine \<Rightarrow> vm_result" where
  "push_int n = push_vm (num_Bytes n)"

text \<open>One operand, and two: the first argument is the top of the stack.\<close>

definition num1 :: "(int \<Rightarrow> int) \<Rightarrow> engine \<Rightarrow> vm_result" where
  "num1 f = pop_int (\<lambda>m. push_int (f m))"

definition num2 :: "(int \<Rightarrow> int \<Rightarrow> int) \<Rightarrow> engine \<Rightarrow> vm_result" where
  "num2 f = pop_int (\<lambda>v0. pop_int (\<lambda>v1. push_int (f v0 v1)))"

definition one_if :: "bool \<Rightarrow> int" where "one_if b = (if b then 1 else 0)"

section \<open>Pushes and conditionals\<close>

definition opcodeDisabled :: "engine \<Rightarrow> vm_result" where "opcodeDisabled vm = Inl ErrStackOpDisabled"
definition opcodeReserved :: "engine \<Rightarrow> vm_result" where "opcodeReserved vm = Inl ErrStackReservedOpcode"
definition opcodeInvalid :: "engine \<Rightarrow> vm_result" where "opcodeInvalid vm = Inl ErrStackInvalidOpcode"
definition opcodeFalse :: "engine \<Rightarrow> vm_result" where "opcodeFalse = push_vm []"
definition opcodePushData :: "parsed_opcode \<Rightarrow> engine \<Rightarrow> vm_result" where "opcodePushData op = push_vm (po_data op)"
definition opcode1Negate :: "engine \<Rightarrow> vm_result" where "opcode1Negate = push_int (- 1)"
definition opcodeN :: "parsed_opcode \<Rightarrow> engine \<Rightarrow> vm_result" where "opcodeN op = push_int (uint (po_op op - (OP_1 - 1)))"

definition opcodeNop :: "parsed_opcode \<Rightarrow> engine \<Rightarrow> vm_result" where
  "opcodeNop op vm =
     (if po_op op \<in> set [OP_NOP1, OP_NOP3, OP_NOP4, OP_NOP5, OP_NOP6, OP_NOP7, OP_NOP8, OP_NOP9, OP_NOP10] \<and>
         hasFlag vm ScriptDiscourageUpgradableNops
      then Inl (ErrMsg ''OP_NOP reserved for soft-fork upgrades'') else Inr vm)"

definition push_cond :: "cond \<Rightarrow> engine \<Rightarrow> vm_result" where
  "push_cond c vm = Inr (vm\<lparr>vm_condStack := c # vm_condStack vm\<rparr>)"

definition opcodeIf :: "engine \<Rightarrow> vm_result" where
  "opcodeIf vm = (if isBranchExecuting vm then pop_bool (\<lambda>ok. push_cond (if ok then OpCondTrue else OpCondFalse)) vm
     else push_cond OpCondSkip vm)"

definition opcodeNotIf :: "engine \<Rightarrow> vm_result" where
  "opcodeNotIf vm = (if isBranchExecuting vm then pop_bool (\<lambda>ok. push_cond (if \<not> ok then OpCondTrue else OpCondFalse)) vm
     else push_cond OpCondSkip vm)"

definition flip_cond :: "cond \<Rightarrow> cond" where
  "flip_cond c = (case c of OpCondTrue \<Rightarrow> OpCondFalse | OpCondFalse \<Rightarrow> OpCondTrue | OpCondSkip \<Rightarrow> OpCondSkip)"

definition opcodeElse :: "engine \<Rightarrow> vm_result" where
  "opcodeElse vm = (case vm_condStack vm of [] \<Rightarrow> Inl ErrStackNoIf
     | c # cs \<Rightarrow> Inr (vm\<lparr>vm_condStack := flip_cond c # cs\<rparr>))"

definition opcodeEndif :: "engine \<Rightarrow> vm_result" where
  "opcodeEndif vm = (case vm_condStack vm of [] \<Rightarrow> Inl ErrStackNoIf | c # cs \<Rightarrow> Inr (vm\<lparr>vm_condStack := cs\<rparr>))"

definition opcodeVerify :: "engine \<Rightarrow> vm_result" where
  "opcodeVerify = pop_bool (\<lambda>verified vm. if \<not> verified then Inl ErrStackVerifyFailed else Inr vm)"

definition opcodeReturn :: "engine \<Rightarrow> vm_result" where "opcodeReturn vm = Inl ErrStackEarlyReturn"

definition LockTimeThreshold :: u32 where "LockTimeThreshold = 500000000"
definition MaxTxInSequenceNum :: u32 where "MaxTxInSequenceNum = 0xffffffff"

definition opcodeCheckLockTimeVerify :: "engine \<Rightarrow> vm_result" where
  "opcodeCheckLockTimeVerify vm =
     (if \<not> hasFlag vm ScriptVerifyCheckLockTimeVerify then
        (if hasFlag vm ScriptDiscourageUpgradableNops then Inl (ErrMsg ''OP_NOP2 reserved for soft-fork upgrades'')
         else Inr vm)
      else
        bind_res (PeekByteArray 0 (vm_dstack vm)) (\<lambda>so.
        bind_res (makeScriptNum so (vm_verifyMinimalData vm) 5) (\<lambda>lockTime.
          let txLock = tx_LockTime (vm_tx vm) in
          if lockTime < 0 then Inl (ErrMsg ''negative locktime'')
          else if \<not> (txLock < LockTimeThreshold \<and> lockTime < uint LockTimeThreshold \<or>
                     LockTimeThreshold \<le> txLock \<and> uint LockTimeThreshold \<le> lockTime)
          then Inl (ErrMsg ''mismatched locktime types'')
          else if uint txLock < lockTime then Inl (ErrMsg ''locktime requirement not satisfied'')
          else if length (tx_TxIn (vm_tx vm)) \<le> vm_txIdx vm then Inl ScriptPanic
          else if ti_Sequence (tx_TxIn (vm_tx vm) ! vm_txIdx vm) = MaxTxInSequenceNum
          then Inl (ErrMsg ''transaction input is finalized'')
          else Inr vm)))"

section \<open>Stack opcodes\<close>

definition opcodeToAltStack :: "engine \<Rightarrow> vm_result" where
  "opcodeToAltStack = pop_vm (\<lambda>so vm. Inr (vm\<lparr>vm_astack := so # vm_astack vm\<rparr>))"

definition opcodeFromAltStack :: "engine \<Rightarrow> vm_result" where
  "opcodeFromAltStack vm = bind_res (PopByteArray (vm_astack vm)) (\<lambda>(so, s). push_vm so (vm\<lparr>vm_astack := s\<rparr>))"

definition opcode2Drop :: "engine \<Rightarrow> vm_result" where "opcode2Drop = on_dstack (DropN 2)"
definition opcode2Dup :: "engine \<Rightarrow> vm_result" where "opcode2Dup = on_dstack (DupN 2)"
definition opcode3Dup :: "engine \<Rightarrow> vm_result" where "opcode3Dup = on_dstack (DupN 3)"
definition opcode2Over :: "engine \<Rightarrow> vm_result" where "opcode2Over = on_dstack (OverN 2)"
definition opcode2Rot :: "engine \<Rightarrow> vm_result" where "opcode2Rot = on_dstack (RotN 2)"
definition opcode2Swap :: "engine \<Rightarrow> vm_result" where "opcode2Swap = on_dstack (SwapN 2)"
definition opcodeDrop :: "engine \<Rightarrow> vm_result" where "opcodeDrop = on_dstack (DropN 1)"
definition opcodeDup :: "engine \<Rightarrow> vm_result" where "opcodeDup = on_dstack (DupN 1)"
definition opcodeNip :: "engine \<Rightarrow> vm_result" where "opcodeNip = on_dstack (NipN 1)"
definition opcodeOver :: "engine \<Rightarrow> vm_result" where "opcodeOver = on_dstack (OverN 1)"
definition opcodeRot :: "engine \<Rightarrow> vm_result" where "opcodeRot = on_dstack (RotN 1)"
definition opcodeSwap :: "engine \<Rightarrow> vm_result" where "opcodeSwap = on_dstack (SwapN 1)"
definition opcodeTuck :: "engine \<Rightarrow> vm_result" where "opcodeTuck = on_dstack Tuck"

definition opcodeIfDup :: "engine \<Rightarrow> vm_result" where
  "opcodeIfDup vm = bind_res (PeekByteArray 0 (vm_dstack vm)) (\<lambda>so. if asBool so then push_vm so vm else Inr vm)"

definition opcodeDepth :: "engine \<Rightarrow> vm_result" where
  "opcodeDepth vm = push_int (Depth (vm_dstack vm)) vm"

definition opcodePick :: "engine \<Rightarrow> vm_result" where
  "opcodePick = pop_int (\<lambda>val. on_dstack (PickN (num_Int32 val)))"

definition opcodeRoll :: "engine \<Rightarrow> vm_result" where
  "opcodeRoll = pop_int (\<lambda>val. on_dstack (RollN (num_Int32 val)))"

definition opcodeSize :: "engine \<Rightarrow> vm_result" where
  "opcodeSize vm = bind_res (PeekByteArray 0 (vm_dstack vm)) (\<lambda>so. push_int (int (length so)) vm)"

section \<open>Comparison and arithmetic\<close>

definition opcodeEqual :: "engine \<Rightarrow> vm_result" where
  "opcodeEqual = pop_vm (\<lambda>a. pop_vm (\<lambda>b. push_vm (fromBool (a = b))))"

definition opcodeEqualVerify :: "engine \<Rightarrow> vm_result" where
  "opcodeEqualVerify vm = bind_res (opcodeEqual vm) opcodeVerify"

definition opcode1Add :: "engine \<Rightarrow> vm_result" where "opcode1Add = num1 (\<lambda>m. m + 1)"
definition opcode1Sub :: "engine \<Rightarrow> vm_result" where "opcode1Sub = num1 (\<lambda>m. m - 1)"
definition opcodeNegate :: "engine \<Rightarrow> vm_result" where "opcodeNegate = num1 (\<lambda>m. - m)"
definition opcodeAbs :: "engine \<Rightarrow> vm_result" where "opcodeAbs = num1 (\<lambda>m. if m < 0 then - m else m)"
definition opcodeNot :: "engine \<Rightarrow> vm_result" where "opcodeNot = num1 (\<lambda>m. one_if (m = 0))"
definition opcode0NotEqual :: "engine \<Rightarrow> vm_result" where "opcode0NotEqual = num1 (\<lambda>m. if m \<noteq> 0 then 1 else m)"
definition opcodeAdd :: "engine \<Rightarrow> vm_result" where "opcodeAdd = num2 (\<lambda>v0 v1. v0 + v1)"
definition opcodeSub :: "engine \<Rightarrow> vm_result" where "opcodeSub = num2 (\<lambda>v0 v1. v1 - v0)"
definition opcodeBoolAnd :: "engine \<Rightarrow> vm_result" where "opcodeBoolAnd = num2 (\<lambda>v0 v1. one_if (v0 \<noteq> 0 \<and> v1 \<noteq> 0))"
definition opcodeBoolOr :: "engine \<Rightarrow> vm_result" where "opcodeBoolOr = num2 (\<lambda>v0 v1. one_if (v0 \<noteq> 0 \<or> v1 \<noteq> 0))"
definition opcodeNumEqual :: "engine \<Rightarrow> vm_result" where "opcodeNumEqual = num2 (\<lambda>v0 v1. one_if (v0 = v1))"

definition opcodeNumEqualVerify :: "engine \<Rightarrow> vm_result" where
  "opcodeNumEqualVerify vm = bind_res (opcodeNumEqual vm) opcodeVerify"

definition opcodeNumNotEqual :: "engine \<Rightarrow> vm_result" where "opcodeNumNotEqual = num2 (\<lambda>v0 v1. one_if (v0 \<noteq> v1))"
definition opcodeLessThan :: "engine \<Rightarrow> vm_result" where "opcodeLessThan = num2 (\<lambda>v0 v1. one_if (v1 < v0))"
definition opcodeGreaterThan :: "engine \<Rightarrow> vm_result" where "opcodeGreaterThan = num2 (\<lambda>v0 v1. one_if (v1 > v0))"
definition opcodeLessThanOrEqual :: "engine \<Rightarrow> vm_result" where "opcodeLessThanOrEqual = num2 (\<lambda>v0 v1. one_if (v1 \<le> v0))"
definition opcodeGreaterThanOrEqual :: "engine \<Rightarrow> vm_result" where "opcodeGreaterThanOrEqual = num2 (\<lambda>v0 v1. one_if (v1 \<ge> v0))"
definition opcodeMin :: "engine \<Rightarrow> vm_result" where "opcodeMin = num2 (\<lambda>v0 v1. if v1 < v0 then v1 else v0)"
definition opcodeMax :: "engine \<Rightarrow> vm_result" where "opcodeMax = num2 (\<lambda>v0 v1. if v1 > v0 then v1 else v0)"

definition opcodeWithin :: "engine \<Rightarrow> vm_result" where
  "opcodeWithin = pop_int (\<lambda>maxVal. pop_int (\<lambda>minVal. pop_int (\<lambda>x. push_int (one_if (minVal \<le> x \<and> x < maxVal)))))"

section \<open>Hashes\<close>

definition opcodeRipemd160 :: "script_env \<Rightarrow> engine \<Rightarrow> vm_result" where
  "opcodeRipemd160 ev = pop_vm (\<lambda>buf. push_vm (se_Ripemd160 ev buf))"
definition opcodeSha1 :: "script_env \<Rightarrow> engine \<Rightarrow> vm_result" where
  "opcodeSha1 ev = pop_vm (\<lambda>buf. push_vm (se_Sha1 ev buf))"
definition opcodeSha256 :: "script_env \<Rightarrow> engine \<Rightarrow> vm_result" where
  "opcodeSha256 ev = pop_vm (\<lambda>buf. push_vm (cr_Sha256 (se_crypto ev) buf))"
definition opcodeHash160 :: "script_env \<Rightarrow> engine \<Rightarrow> vm_result" where
  "opcodeHash160 ev = pop_vm (\<lambda>buf. push_vm (se_Ripemd160 ev (cr_Sha256 (se_crypto ev) buf)))"
definition opcodeHash256 :: "script_env \<Rightarrow> engine \<Rightarrow> vm_result" where
  "opcodeHash256 ev = pop_vm (\<lambda>buf. push_vm (cr_DoubleHash (se_crypto ev) buf))"

definition opcodeCodeSeparator :: "engine \<Rightarrow> vm_result" where
  "opcodeCodeSeparator vm = Inr (vm\<lparr>vm_lastCodeSep := vm_scriptOff vm\<rparr>)"

section \<open>Signatures\<close>

definition subScript :: "engine \<Rightarrow> script_error + parsed_opcode list" where
  "subScript vm =
     (if length (vm_scripts vm) \<le> vm_scriptIdx vm then Inl ScriptPanic
      else if length (vm_scripts vm ! vm_scriptIdx vm) < vm_lastCodeSep vm then Inl ScriptPanic
      else Inr (drop (vm_lastCodeSep vm) (vm_scripts vm ! vm_scriptIdx vm)))"

text \<open>The checks of encodings answer with their error, if any.\<close>

definition guard_res :: "'e option \<Rightarrow> 'e + 'a \<Rightarrow> 'e + 'a" where
  "guard_res o' r = (case o' of None \<Rightarrow> r | Some e \<Rightarrow> Inl e)"

definition checkHashTypeEncoding :: "engine \<Rightarrow> u32 \<Rightarrow> script_error option" where
  "checkHashTypeEncoding vm hashType =
     (if \<not> hasFlag vm ScriptVerifyStrictEncoding then None
      else
        let sigHashType = hashType AND NOT SigHashAnyOneCanPay in
        if sigHashType < SigHashAll \<or> SigHashSingle < sigHashType then Some (ErrMsg ''invalid hashtype'') else None)"

definition checkPubKeyEncoding :: "engine \<Rightarrow> bytes \<Rightarrow> script_error option" where
  "checkPubKeyEncoding vm pubKey =
     (if \<not> hasFlag vm ScriptVerifyStrictEncoding then None
      else if length pubKey = 33 \<and> (pubKey ! 0 = 0x02 \<or> pubKey ! 0 = 0x03) then None
      else if length pubKey = 65 \<and> pubKey ! 0 = 0x04 then None
      else Some ErrStackInvalidPubKey)"

text \<open>Half the order of the curve.\<close>

definition halfOrder :: nat where
  "halfOrder = 0x7fffffffffffffffffffffffffffffff5d576e7357a4501ddfe92f46681b20a0"

text \<open>
  The bounds of the index expressions are those of the source: the length byte of S is read at \<open>rLen + 5\<close>
  after a test that lets \<open>rLen + 5\<close> equal the length of the signature.
\<close>

definition checkSignatureEncoding :: "engine \<Rightarrow> bytes \<Rightarrow> script_error option" where
  "checkSignatureEncoding vm sig =
     (if \<not> hasFlag vm ScriptVerifyDERSignatures \<and> \<not> hasFlag vm ScriptVerifyLowS \<and> \<not> hasFlag vm ScriptVerifyStrictEncoding
      then None
      else if length sig < 8 then Some (ErrMsg ''malformed signature: too short'')
      else if 72 < length sig then Some (ErrMsg ''malformed signature: too long'')
      else if sig ! 0 \<noteq> 0x30 then Some (ErrMsg ''malformed signature: format has wrong type'')
      else if unat (sig ! 1) \<noteq> length sig - 2 then Some (ErrMsg ''malformed signature: bad length'')
      else
        let rLen = unat (sig ! 3) in
        if length sig < rLen + 5 then Some (ErrMsg ''malformed signature: S out of bounds'')
        else if length sig \<le> rLen + 5 then Some ScriptPanic
        else
          let sLen = unat (sig ! (rLen + 5)) in
          if rLen + sLen + 6 \<noteq> length sig then Some (ErrMsg ''malformed signature: invalid R length'')
          else if sig ! 2 \<noteq> 0x02 then Some (ErrMsg ''malformed signature: missing first integer marker'')
          else if rLen = 0 then Some (ErrMsg ''malformed signature: R length is zero'')
          else if sig ! 4 AND 0x80 \<noteq> 0 then Some (ErrMsg ''malformed signature: R value is negative'')
          else if 1 < rLen \<and> sig ! 4 = 0x00 \<and> sig ! 5 AND 0x80 = 0 then Some (ErrMsg ''malformed signature: invalid R value'')
          else if sig ! (rLen + 4) \<noteq> 0x02 then Some (ErrMsg ''malformed signature: missing second integer marker'')
          else if sLen = 0 then Some (ErrMsg ''malformed signature: S length is zero'')
          else if sig ! (rLen + 6) AND 0x80 \<noteq> 0 then Some (ErrMsg ''malformed signature: S value is negative'')
          else if 1 < sLen \<and> sig ! (rLen + 6) = 0x00 \<and> sig ! (rLen + 7) AND 0x80 = 0
          then Some (ErrMsg ''malformed signature: invalid S value'')
          else if hasFlag vm ScriptVerifyLowS \<and> halfOrder < be_val (take sLen (drop (rLen + 6) sig))
          then Some ErrStackInvalidLowSSignature
          else None)"

definition parse_sig :: "script_env \<Rightarrow> engine \<Rightarrow> bytes \<Rightarrow> (int \<times> int) option" where
  "parse_sig ev vm sig =
     (if hasFlag vm ScriptVerifyStrictEncoding \<or> hasFlag vm ScriptVerifyDERSignatures
      then se_ParseDERSignature ev sig else se_ParseSignature ev sig)"

definition sig_hash :: "script_env \<Rightarrow> engine \<Rightarrow> parsed_opcode list \<Rightarrow> u32 \<Rightarrow> script_error + bytes" where
  "sig_hash ev vm script hashType =
     (if vm_witness vm then
        CalcWitnessSignatureHash (se_crypto ev) script
          (case vm_hashCache vm of Some h \<Rightarrow> h | None \<Rightarrow> NewTxSigHashes (se_crypto ev) (vm_tx vm))
          hashType (vm_tx vm) (vm_txIdx vm) (vm_inputAmount vm)
      else Inr (calcSignatureHash (se_crypto ev) script hashType (vm_tx vm) (vm_txIdx vm)))"

text \<open>The cache is asked with the hash copied into 32 bytes.\<close>

definition sig_valid :: "script_env \<Rightarrow> bytes \<Rightarrow> int \<times> int \<Rightarrow> int \<times> int \<Rightarrow> bool" where
  "sig_valid ev hash sig key \<longleftrightarrow> se_cached ev (copy_fresh 32 hash) sig key \<or> se_Verify ev sig hash key"

definition opcodeCheckSig :: "script_env \<Rightarrow> engine \<Rightarrow> vm_result" where
  "opcodeCheckSig ev = pop_vm (\<lambda>pkBytes. pop_vm (\<lambda>fullSigBytes vm.
     if length fullSigBytes < 1 then push_vm (fromBool False) vm
     else
       let hashType = ucast (last fullSigBytes) :: u32; sigBytes = butlast fullSigBytes in
       guard_res (checkHashTypeEncoding vm hashType) (
       guard_res (checkSignatureEncoding vm sigBytes) (
       guard_res (checkPubKeyEncoding vm pkBytes) (
       bind_res (subScript vm) (\<lambda>script.
         let script = (if \<not> vm_witness vm then removeOpcodeByData script fullSigBytes else script) in
         bind_res (sig_hash ev vm script hashType) (\<lambda>hash.
           case se_ParsePubKey ev pkBytes of None \<Rightarrow> push_vm (fromBool False) vm
           | Some pubKey \<Rightarrow>
             (case parse_sig ev vm sigBytes of None \<Rightarrow> push_vm (fromBool False) vm
              | Some signature \<Rightarrow> push_vm (fromBool (sig_valid ev hash signature pubKey)) vm))))))))"

definition opcodeCheckSigVerify :: "script_env \<Rightarrow> engine \<Rightarrow> vm_result" where
  "opcodeCheckSigVerify ev vm = bind_res (opcodeCheckSig ev vm) opcodeVerify"

text \<open>
  The loop of \<open>opcodeCheckMultiSig\<close> over the public keys. \<open>parsed\<close> is the memory of the signature in turn:
  whether it was parsed, and to what.
\<close>

primrec multisig_loop ::
  "script_env \<Rightarrow> engine \<Rightarrow> parsed_opcode list \<Rightarrow> (int \<times> int) option option \<Rightarrow> bytes list \<Rightarrow> bytes list \<Rightarrow> script_error + bool" where
  "multisig_loop ev vm script parsed sigs [] = Inr (sigs = [])"
| "multisig_loop ev vm script parsed sigs (pubKey # pks) =
     (case sigs of [] \<Rightarrow> Inr True
      | rawSig # rest \<Rightarrow>
        if length (pubKey # pks) < length sigs then Inr False
        else if rawSig = [] then multisig_loop ev vm script parsed sigs pks
        else
          let hashType = ucast (last rawSig) :: u32; signature = butlast rawSig in
          case (case parsed of Some p \<Rightarrow> Inr p
                | None \<Rightarrow> guard_res (checkHashTypeEncoding vm hashType) (
                    guard_res (checkSignatureEncoding vm signature) (Inr (parse_sig ev vm signature)))) of
            Inl e \<Rightarrow> Inl e
          | Inr None \<Rightarrow> multisig_loop ev vm script (Some None) sigs pks
          | Inr (Some parsedSig) \<Rightarrow>
            guard_res (checkPubKeyEncoding vm pubKey) (
              case se_ParsePubKey ev pubKey of None \<Rightarrow> multisig_loop ev vm script (Some (Some parsedSig)) sigs pks
              | Some parsedPubKey \<Rightarrow>
                bind_res (sig_hash ev vm script hashType) (\<lambda>hash.
                  if sig_valid ev hash parsedSig parsedPubKey then multisig_loop ev vm script None rest pks
                  else multisig_loop ev vm script (Some (Some parsedSig)) sigs pks)))"

text \<open>Popping \<open>n\<close> byte arrays, the first one first.\<close>

primrec pop_many :: "nat \<Rightarrow> script_stack \<Rightarrow> script_error + bytes list \<times> script_stack" where
  "pop_many 0 s = Inr ([], s)"
| "pop_many (Suc n) s = bind_res (PopByteArray s) (\<lambda>(x, s). bind_res (pop_many n s) (\<lambda>(xs, s). Inr (x # xs, s)))"

definition MaxOpsPerScript :: nat where "MaxOpsPerScript = 201"

definition opcodeCheckMultiSig :: "script_env \<Rightarrow> engine \<Rightarrow> vm_result" where
  "opcodeCheckMultiSig ev = pop_int (\<lambda>numKeys vm.
     let numPubKeys = num_Int32 numKeys in
     if numPubKeys < 0 \<or> int MaxPubKeysPerMultiSig < numPubKeys then Inl ErrStackTooManyPubKeys
     else
       let vm = vm\<lparr>vm_numOps := vm_numOps vm + nat numPubKeys\<rparr> in
       if MaxOpsPerScript < vm_numOps vm then Inl ErrStackTooManyOperations
       else
         bind_res (pop_many (nat numPubKeys) (vm_dstack vm)) (\<lambda>(pubKeys, s).
         pop_int (\<lambda>numSigs vm.
           let numSignatures = num_Int32 numSigs in
           if numSignatures < 0 then Inl (ErrMsg ''number of signatures is less than 0'')
           else if numPubKeys < numSignatures then Inl (ErrMsg ''more signatures than pubkeys'')
           else
             bind_res (pop_many (nat numSignatures) (vm_dstack vm)) (\<lambda>(signatures, s).
             pop_vm (\<lambda>dummy vm.
               if hasFlag vm ScriptStrictMultiSig \<and> length dummy \<noteq> 0
               then Inl (ErrMsg ''multisig dummy argument is not zero length'')
               else
                 bind_res (subScript vm) (\<lambda>script.
                   let script = (if \<not> vm_witness vm then fold (\<lambda>sig script. removeOpcodeByData script sig) signatures script
                                 else script)
                   in bind_res (multisig_loop ev vm script None signatures pubKeys) (\<lambda>success.
                        push_vm (fromBool success) vm)))
               (vm\<lparr>vm_dstack := s\<rparr>)))
           (vm\<lparr>vm_dstack := s\<rparr>)))"

definition opcodeCheckMultiSigVerify :: "script_env \<Rightarrow> engine \<Rightarrow> vm_result" where
  "opcodeCheckMultiSigVerify ev vm = bind_res (opcodeCheckMultiSig ev vm) opcodeVerify"

section \<open>The table\<close>

definition opfunc :: "script_env \<Rightarrow> parsed_opcode \<Rightarrow> engine \<Rightarrow> vm_result" where
  "opfunc ev pop =
     (let op = po_op pop in
      if op = OP_0 then opcodeFalse
      else if op \<le> OP_PUSHDATA4 then opcodePushData pop
      else if OP_1 \<le> op \<and> op \<le> OP_16 then opcodeN pop
      else if op = OP_1NEGATE then opcode1Negate
      else if op \<in> set [OP_RESERVED, OP_VER, OP_VERIF, OP_VERNOTIF, OP_RESERVED1, OP_RESERVED2] then opcodeReserved
      else if op \<in> set [OP_NOP, OP_NOP1, OP_NOP3, OP_NOP4, OP_NOP5, OP_NOP6, OP_NOP7, OP_NOP8, OP_NOP9, OP_NOP10] then opcodeNop pop
      else if op = OP_IF then opcodeIf
      else if op = OP_NOTIF then opcodeNotIf
      else if op = OP_ELSE then opcodeElse
      else if op = OP_ENDIF then opcodeEndif
      else if op = OP_VERIFY then opcodeVerify
      else if op = OP_RETURN then opcodeReturn
      else if op = OP_CHECKLOCKTIMEVERIFY then opcodeCheckLockTimeVerify
      else if op = OP_TOALTSTACK then opcodeToAltStack
      else if op = OP_FROMALTSTACK then opcodeFromAltStack
      else if op = OP_2DROP then opcode2Drop
      else if op = OP_2DUP then opcode2Dup
      else if op = OP_3DUP then opcode3Dup
      else if op = OP_2OVER then opcode2Over
      else if op = OP_2ROT then opcode2Rot
      else if op = OP_2SWAP then opcode2Swap
      else if op = OP_IFDUP then opcodeIfDup
      else if op = OP_DEPTH then opcodeDepth
      else if op = OP_DROP then opcodeDrop
      else if op = OP_DUP then opcodeDup
      else if op = OP_NIP then opcodeNip
      else if op = OP_OVER then opcodeOver
      else if op = OP_PICK then opcodePick
      else if op = OP_ROLL then opcodeRoll
      else if op = OP_ROT then opcodeRot
      else if op = OP_SWAP then opcodeSwap
      else if op = OP_TUCK then opcodeTuck
      else if op \<in> set [OP_CAT, OP_SUBSTR, OP_LEFT, OP_RIGHT, OP_INVERT, OP_AND, OP_OR, OP_XOR, OP_2MUL, OP_2DIV,
        OP_MUL, OP_DIV, OP_MOD, OP_LSHIFT, OP_RSHIFT] then opcodeDisabled
      else if op = OP_SIZE then opcodeSize
      else if op = OP_EQUAL then opcodeEqual
      else if op = OP_EQUALVERIFY then opcodeEqualVerify
      else if op = OP_1ADD then opcode1Add
      else if op = OP_1SUB then opcode1Sub
      else if op = OP_NEGATE then opcodeNegate
      else if op = OP_ABS then opcodeAbs
      else if op = OP_NOT then opcodeNot
      else if op = OP_0NOTEQUAL then opcode0NotEqual
      else if op = OP_ADD then opcodeAdd
      else if op = OP_SUB then opcodeSub
      else if op = OP_BOOLAND then opcodeBoolAnd
      else if op = OP_BOOLOR then opcodeBoolOr
      else if op = OP_NUMEQUAL then opcodeNumEqual
      else if op = OP_NUMEQUALVERIFY then opcodeNumEqualVerify
      else if op = OP_NUMNOTEQUAL then opcodeNumNotEqual
      else if op = OP_LESSTHAN then opcodeLessThan
      else if op = OP_GREATERTHAN then opcodeGreaterThan
      else if op = OP_LESSTHANOREQUAL then opcodeLessThanOrEqual
      else if op = OP_GREATERTHANOREQUAL then opcodeGreaterThanOrEqual
      else if op = OP_MIN then opcodeMin
      else if op = OP_MAX then opcodeMax
      else if op = OP_WITHIN then opcodeWithin
      else if op = OP_RIPEMD160 then opcodeRipemd160 ev
      else if op = OP_SHA1 then opcodeSha1 ev
      else if op = OP_SHA256 then opcodeSha256 ev
      else if op = OP_HASH160 then opcodeHash160 ev
      else if op = OP_HASH256 then opcodeHash256 ev
      else if op = OP_CODESEPARATOR then opcodeCodeSeparator
      else if op = OP_CHECKSIG then opcodeCheckSig ev
      else if op = OP_CHECKSIGVERIFY then opcodeCheckSigVerify ev
      else if op = OP_CHECKMULTISIG then opcodeCheckMultiSig ev
      else if op = OP_CHECKMULTISIGVERIFY then opcodeCheckMultiSigVerify ev
      else opcodeInvalid)"

end
