(* ===== verification/TxEngine.thy ===== *)
theory TxEngine
  imports TxOpcodes
begin

text \<open>
  The script engine (\<open>btcutil/txscript/engine.go\<close>): one opcode, one step with the changes of script at the end
  of one (pay-to-script-hash, witness programs), the run, and the construction of an engine for an input. The
  run is a partial function, \<open>None\<close> for not returning.
\<close>

section \<open>One opcode\<close>

definition isDisabled :: "parsed_opcode \<Rightarrow> bool" where
  "isDisabled pop \<longleftrightarrow> po_op pop \<in> set [OP_CAT, OP_SUBSTR, OP_LEFT, OP_RIGHT, OP_INVERT, OP_AND, OP_OR, OP_XOR,
     OP_2MUL, OP_2DIV, OP_MUL, OP_DIV, OP_MOD, OP_LSHIFT, OP_RSHIFT]"

definition alwaysIllegal :: "parsed_opcode \<Rightarrow> bool" where
  "alwaysIllegal pop \<longleftrightarrow> po_op pop \<in> set [OP_VERIF, OP_VERNOTIF]"

definition isConditional :: "parsed_opcode \<Rightarrow> bool" where
  "isConditional pop \<longleftrightarrow> po_op pop \<in> set [OP_IF, OP_NOTIF, OP_ELSE, OP_ENDIF]"

definition checkMinimalDataPush :: "parsed_opcode \<Rightarrow> bool" where
  "checkMinimalDataPush pop =
     (let data = po_data pop; dataLen = length data; opcode = po_op pop in
      if dataLen = 0 \<and> opcode \<noteq> OP_0 then False
      else if dataLen = 1 \<and> 1 \<le> hd data \<and> hd data \<le> 16 then opcode = OP_1 + hd data - 1
      else if dataLen = 1 \<and> hd data = 0x81 then opcode = OP_1NEGATE
      else if dataLen \<le> 75 then unat opcode = dataLen
      else if dataLen \<le> 255 then opcode = OP_PUSHDATA1
      else if dataLen \<le> 65535 then opcode = OP_PUSHDATA2
      else True)"

definition executeOpcode :: "script_env \<Rightarrow> parsed_opcode \<Rightarrow> engine \<Rightarrow> vm_result" where
  "executeOpcode ev pop vm =
     (if isDisabled pop then Inl ErrStackOpDisabled
      else if alwaysIllegal pop then Inl ErrStackReservedOpcode
      else if OP_16 < po_op pop \<and> MaxOpsPerScript < vm_numOps vm + 1 then Inl ErrStackTooManyOperations
      else if \<not> OP_16 < po_op pop \<and> MaxScriptElementSize < length (po_data pop) then Inl ErrStackElementTooBig
      else
        let vm = (if OP_16 < po_op pop then vm\<lparr>vm_numOps := vm_numOps vm + 1\<rparr> else vm) in
        if \<not> isBranchExecuting vm \<and> \<not> isConditional pop then Inr vm
        else if vm_verifyMinimalData vm \<and> isBranchExecuting vm \<and> po_op pop \<le> OP_PUSHDATA4 \<and> \<not> checkMinimalDataPush pop
        then Inl ErrStackMinimalData
        else opfunc ev pop vm)"

section \<open>Witness programs\<close>

definition payToPubKeyHashScript :: "bytes \<Rightarrow> script_error + bytes" where
  "payToPubKeyHashScript pubKeyHash =
     (let b = build_script [Op OP_DUP, Op OP_HASH160, Data pubKeyHash, Op OP_EQUALVERIFY, Op OP_CHECKSIG]
      in case sb_err b of Some e \<Rightarrow> Inl (ErrMsg ''script builder'') | None \<Rightarrow> Inr (sb_script b))"

text \<open>Scripts are appended at the end; \<open>SetStack\<close> puts the last item on top.\<close>

definition add_script :: "parsed_opcode list \<Rightarrow> engine \<Rightarrow> engine" where
  "add_script pops vm = vm\<lparr>vm_scripts := vm_scripts vm @ [pops]\<rparr>"

definition SetStack :: "bytes list \<Rightarrow> engine \<Rightarrow> engine" where
  "SetStack data vm = vm\<lparr>vm_dstack := rev data\<rparr>"

definition GetStack :: "engine \<Rightarrow> bytes list" where
  "GetStack vm = rev (vm_dstack vm)"

definition verifyWitnessProgram :: "script_env \<Rightarrow> bytes list \<Rightarrow> engine \<Rightarrow> vm_result" where
  "verifyWitnessProgram ev witness vm =
     (if list_ex (\<lambda>w. MaxScriptElementSize < length w) witness then Inl ErrStackElementTooBig
      else if vm_witnessVersion vm = 0 then
        (if length (vm_witnessProgram vm) = 20 then
           (if length witness \<noteq> 2 then Inl ErrWitnessScriptMismatch
            else bind_res (payToPubKeyHashScript (vm_witnessProgram vm)) (\<lambda>pkScript.
                 bind_res (ParseScript pkScript) (\<lambda>pops. Inr (SetStack witness (add_script pops vm)))))
         else if length (vm_witnessProgram vm) = 32 then
           (if witness = [] then Inl ErrWitnessProgramEmpty
            else if cr_Sha256 (se_crypto ev) (last witness) \<noteq> vm_witnessProgram vm
            then Inl (ErrMsg ''witness program mismatch'')
            else bind_res (ParseScript (last witness)) (\<lambda>pops. Inr (SetStack (butlast witness) (add_script pops vm))))
         else Inl ErrWitnessProgramWrongLength)
      else if hasFlag vm ScriptVerifyDiscourageUpgradeableWitnessProgram
      then Inl (ErrMsg ''new witness program versions invalid'')
      else Inr (vm\<lparr>vm_witness := False\<rparr>))"

section \<open>Steps\<close>

definition CheckErrorCondition :: "bool \<Rightarrow> engine \<Rightarrow> vm_result" where
  "CheckErrorCondition finalScript vm =
     (if vm_scriptIdx vm < length (vm_scripts vm) then Inl ErrStackScriptUnfinished
      else if finalScript \<and> vm_witness vm \<and> Depth (vm_dstack vm) \<noteq> 1 then Inl ErrStackCleanStack
      else if finalScript \<and> hasFlag vm ScriptVerifyCleanStack \<and> Depth (vm_dstack vm) \<noteq> 1 then Inl ErrStackCleanStack
      else if Depth (vm_dstack vm) < 1 then Inl ErrStackEmptyStack
      else pop_bool (\<lambda>v vm. if v = False then Inl ErrStackScriptFailed else Inr vm) vm)"

definition maxStackSize :: int where "maxStackSize = 1000"

text \<open>What happens at the end of a script, before the zero-length one after it is skipped.\<close>

definition next_script :: "script_env \<Rightarrow> engine \<Rightarrow> vm_result" where
  "next_script ev vm =
     (let vm = vm\<lparr>vm_astack := [], vm_numOps := 0, vm_scriptOff := 0\<rparr>;
          idx = vm_scriptIdx vm;
          vm' = vm\<lparr>vm_scriptIdx := idx + 1\<rparr>
      in if idx = 0 \<and> vm_bip16 vm then Inr (vm'\<lparr>vm_savedFirstStack := GetStack vm\<rparr>)
         else if idx = 1 \<and> vm_bip16 vm then
           bind_res (CheckErrorCondition False vm') (\<lambda>vm.
             let saved = vm_savedFirstStack vm in
             if saved = [] then Inl ScriptPanic
             else bind_res (ParseScript (last saved)) (\<lambda>pops. Inr (SetStack (butlast saved) (add_script pops vm))))
         else if idx = 1 \<and> vm_witness vm \<or> vm_witness vm \<and> vm_bip16 vm \<and> idx = 2 then
           (if length (tx_TxIn (vm_tx vm)) \<le> vm_txIdx vm then Inl ScriptPanic
            else verifyWitnessProgram ev (ti_Witness (tx_TxIn (vm_tx vm) ! vm_txIdx vm)) vm')
         else Inr vm')"

text \<open>The zero-length script after the end of one is passed.\<close>

definition skip_empty :: "engine \<Rightarrow> engine" where
  "skip_empty vm =
     (if vm_scriptIdx vm < length (vm_scripts vm) \<and> length (vm_scripts vm ! vm_scriptIdx vm) \<le> vm_scriptOff vm
      then vm\<lparr>vm_scriptIdx := vm_scriptIdx vm + 1\<rparr> else vm)"

definition Step :: "script_env \<Rightarrow> engine \<Rightarrow> script_error + bool \<times> engine" where
  "Step ev vm =
     (if length (vm_scripts vm) \<le> vm_scriptIdx vm then Inl (ErrMsg ''past input scripts'')
      else if length (vm_scripts vm ! vm_scriptIdx vm) \<le> vm_scriptOff vm then Inl (ErrMsg ''past input scripts'')
      else
        let opcode = vm_scripts vm ! vm_scriptIdx vm ! vm_scriptOff vm in
        bind_res (executeOpcode ev opcode (vm\<lparr>vm_scriptOff := vm_scriptOff vm + 1\<rparr>)) (\<lambda>vm.
          if maxStackSize < Depth (vm_dstack vm) + Depth (vm_astack vm) then Inl ErrStackOverflow
          else if length (vm_scripts vm ! vm_scriptIdx vm) \<le> vm_scriptOff vm then
            (if vm_condStack vm \<noteq> [] then Inl ErrStackMissingEndif
             else bind_res (next_script ev vm) (\<lambda>vm.
               let vm = (skip_empty vm)\<lparr>vm_lastCodeSep := 0\<rparr>
               in Inr (length (vm_scripts vm) \<le> vm_scriptIdx vm, vm)))
          else Inr (False, vm)))"

partial_function (option) run :: "script_env \<Rightarrow> engine \<Rightarrow> vm_result option" where
  "run ev vm =
     (case Step ev vm of
        Inl e \<Rightarrow> Some (Inl e)
      | Inr r \<Rightarrow> if fst r then Some (Inr (snd r)) else run ev (snd r))"

definition Execute :: "script_env \<Rightarrow> engine \<Rightarrow> (script_error + engine) option" where
  "Execute ev vm = map_option (\<lambda>r. bind_res r (CheckErrorCondition True)) (run ev vm)"

section \<open>Construction\<close>

definition new_engine :: "bytes list \<Rightarrow> parsed_opcode list list \<Rightarrow> msg_tx \<Rightarrow> nat \<Rightarrow> u32 \<Rightarrow> tx_sig_hashes option \<Rightarrow> int \<Rightarrow> engine" where
  "new_engine scripts parsed tx txIdx flags hashCache inputAmount =
     \<lparr>vm_scripts = parsed, vm_scriptIdx = (if hd scripts = [] then 1 else 0), vm_scriptOff = 0, vm_lastCodeSep = 0,
      vm_dstack = [], vm_astack = [], vm_verifyMinimalData = (flags AND ScriptVerifyMinimalData = ScriptVerifyMinimalData),
      vm_tx = tx, vm_txIdx = txIdx, vm_condStack = [], vm_numOps = 0, vm_flags = flags, vm_hashCache = hashCache,
      vm_bip16 = False, vm_savedFirstStack = [], vm_witness = False, vm_witnessVersion = 0, vm_witnessProgram = [],
      vm_inputAmount = inputAmount\<rparr>"

definition load_script :: "bytes \<Rightarrow> script_error + parsed_opcode list" where
  "load_script scr = (if maxScriptSize < length scr then Inl ErrStackLongScript else ParseScript scr)"

text \<open>The witness program of an input, native or nested in pay-to-script-hash, if there is one.\<close>

definition witness_program :: "bytes \<Rightarrow> bytes \<Rightarrow> bool \<Rightarrow> script_error + bytes option" where
  "witness_program scriptSig scriptPubKey bip16 =
     (if IsWitnessProgram scriptPubKey then
        (if length scriptSig \<noteq> 0 then Inl ErrWitnessMalleated else Inr (Some scriptPubKey))
      else if 1 < length scriptSig \<and> bip16 \<and> IsWitnessProgram (tl scriptSig) then
        (let b = build_script [Data (tl scriptSig)] in
         if sb_err b \<noteq> None then Inl (ErrMsg ''script builder'')
         else if scriptSig \<noteq> sb_script b then Inl ErrWitnessMalleatedP2SH
         else Inr (Some (tl scriptSig)))
      else Inr None)"

text \<open>Reading \<open>tx.TxIn[txIdx]\<close>: an index out of range is a panic.\<close>

definition tx_input :: "msg_tx \<Rightarrow> int \<Rightarrow> script_error + tx_in" where
  "tx_input tx i = (if i < 0 \<or> int (length (tx_TxIn tx)) \<le> i then Inl ScriptPanic else Inr (tx_TxIn tx ! nat i))"

definition NewEngine ::
  "bytes \<Rightarrow> msg_tx \<Rightarrow> int \<Rightarrow> u32 \<Rightarrow> tx_sig_hashes option \<Rightarrow> int \<Rightarrow> script_error + engine" where
  "NewEngine scriptPubKey tx txIdx flags hashCache inputAmount =
     (let flag = (\<lambda>f. flags AND f = f) in
      if txIdx < 0 \<or> int (length (tx_TxIn tx)) \<le> txIdx then Inl ErrInvalidIndex
      else
        bind_res (tx_input tx txIdx) (\<lambda>txIn.
        let scriptSig = ti_SignatureScript txIn in
        if flag ScriptVerifyCleanStack \<and> \<not> flag ScriptBip16 then Inl ErrInvalidFlags
        else if flag ScriptVerifySigPushOnly \<and> \<not> IsPushOnlyScript scriptSig then Inl ErrStackNonPushOnly
        else
          bind_res (load_script scriptSig) (\<lambda>sigPops.
          bind_res (load_script scriptPubKey) (\<lambda>pkPops.
            let vm = new_engine [scriptSig, scriptPubKey] [sigPops, pkPops] tx (nat txIdx) flags hashCache inputAmount;
                p2sh = flag ScriptBip16 \<and> isScriptHash pkPops
            in if p2sh \<and> \<not> isPushOnly sigPops then Inl ErrStackP2SHNonPushOnly
               else
                 let vm = vm\<lparr>vm_bip16 := p2sh\<rparr> in
                 if \<not> flag ScriptVerifyWitness then Inr vm
                 else if \<not> flag ScriptBip16 then Inl ErrInvalidFlags
                 else bind_res (witness_program scriptSig scriptPubKey p2sh) (\<lambda>program.
                   case program of
                     Some p \<Rightarrow> bind_res (ExtractWitnessProgramInfo p) (\<lambda>(version, data).
                       Inr (vm\<lparr>vm_witness := True, vm_witnessVersion := version, vm_witnessProgram := data\<rparr>))
                   | None \<Rightarrow>
                     if length (ti_Witness txIn) \<noteq> 0 then Inl ErrWitnessUnexpected
                     else Inr vm)))))"

end
