(* ===== verification/TxEngineSafe.thy ===== *)
theory TxEngineSafe
  imports TxEngine
begin

text \<open>
  What every run of the script engine keeps, whatever the scripts are: the code, the transaction and the flags do
  not change under an opcode, stack elements stay within 520 bytes, the counted operations within 201, and no slice
  is read out of bounds. The opcode handlers are composed from few combinators, so the proof has one rule for each
  combinator and the handlers follow by resolution.
\<close>

named_theorems vm_rules

section \<open>What an opcode keeps\<close>

text \<open>The part of an engine no opcode changes, but for \<open>OP_CODESEPARATOR\<close>.\<close>

definition code_of :: "engine \<Rightarrow> engine" where
  "code_of vm = vm\<lparr>vm_dstack := [], vm_astack := [], vm_condStack := [], vm_numOps := 0\<rparr>"

lemma code_of_updates [simp]:
  "code_of (vm\<lparr>vm_dstack := d\<rparr>) = code_of vm" "code_of (vm\<lparr>vm_astack := d\<rparr>) = code_of vm"
  "code_of (vm\<lparr>vm_condStack := c\<rparr>) = code_of vm" "code_of (vm\<lparr>vm_numOps := n\<rparr>) = code_of vm"
  by (cases vm, simp add: code_of_def)+

lemma code_of_fields:
  assumes "code_of vm = code_of vm0"
  shows "vm_scripts vm = vm_scripts vm0" "vm_scriptIdx vm = vm_scriptIdx vm0" "vm_scriptOff vm = vm_scriptOff vm0"
    "vm_lastCodeSep vm = vm_lastCodeSep vm0" "vm_tx vm = vm_tx vm0" "vm_txIdx vm = vm_txIdx vm0"
    "vm_flags vm = vm_flags vm0" "vm_bip16 vm = vm_bip16 vm0" "vm_savedFirstStack vm = vm_savedFirstStack vm0"
    "vm_witness vm = vm_witness vm0" "vm_hashCache vm = vm_hashCache vm0"
    "vm_witnessVersion vm = vm_witnessVersion vm0" "vm_witnessProgram vm = vm_witnessProgram vm0"
    "vm_inputAmount vm = vm_inputAmount vm0" "vm_verifyMinimalData vm = vm_verifyMinimalData vm0"
  using assms by (cases vm, cases vm0, simp add: code_of_def)+

definition small_stack :: "script_stack \<Rightarrow> bool" where
  "small_stack s \<longleftrightarrow> (\<forall>x \<in> set s. length x \<le> MaxScriptElementSize)"

lemma small_stack_simps [simp]:
  "small_stack []" "small_stack (x # s) \<longleftrightarrow> length x \<le> MaxScriptElementSize \<and> small_stack s"
  "small_stack (s @ t) \<longleftrightarrow> small_stack s \<and> small_stack t" "small_stack (rev s) = small_stack s"
  by (auto simp: small_stack_def)

lemma small_stack_parts [intro]:
  "small_stack s \<Longrightarrow> small_stack (take n s)" "small_stack s \<Longrightarrow> small_stack (drop n s)" "small_stack s \<Longrightarrow> small_stack (butlast s)"
  by (auto simp: small_stack_def dest: in_set_takeD in_set_dropD in_set_butlastD)

definition within :: "engine \<Rightarrow> engine \<Rightarrow> bool" where
  "within vm0 vm \<longleftrightarrow> code_of vm = code_of vm0 \<and> small_stack (vm_dstack vm) \<and> small_stack (vm_astack vm) \<and>
     vm_numOps vm \<le> MaxOpsPerScript"

definition holds_for :: "('a \<Rightarrow> bool) \<Rightarrow> (script_error \<Rightarrow> bool) \<Rightarrow> script_error + 'a \<Rightarrow> bool" where
  "holds_for P Q r = (case r of Inl e \<Rightarrow> Q e | Inr x \<Rightarrow> P x)"

lemma holds_for_simps [simp]:
  "holds_for P Q (Inl e) = Q e" "holds_for P Q (Inr x) = P x"
  by (simp_all add: holds_for_def)

lemma holds_for_bind:
  "holds_for (\<lambda>x. holds_for P Q (f x)) Q r \<Longrightarrow> holds_for P Q (bind_res r f)"
  by (cases r) simp_all

lemma holds_for_mono:
  "holds_for P Q r \<Longrightarrow> (\<And>x. P x \<Longrightarrow> P' x) \<Longrightarrow> holds_for P' Q r"
  by (cases r) simp_all

text \<open>Signature encodings are only looked at under these flags.\<close>

definition checks_encoding :: "engine \<Rightarrow> bool" where
  "checks_encoding vm \<longleftrightarrow> hasFlag vm ScriptVerifyDERSignatures \<or> hasFlag vm ScriptVerifyLowS \<or> hasFlag vm ScriptVerifyStrictEncoding"

abbreviation "op_ok vm0 \<equiv> holds_for (within vm0) (\<lambda>e. e = ScriptPanic \<longrightarrow> checks_encoding vm0)"

section \<open>One rule for each combinator\<close>

lemma push_vm_ok [vm_rules]: "within vm0 vm \<Longrightarrow> length x \<le> MaxScriptElementSize \<Longrightarrow> op_ok vm0 (push_vm x vm)"
  by (simp add: push_vm_def within_def)

lemma pop_vm_ok [vm_rules]:
  assumes "within vm0 vm" "\<And>x vm'. within vm0 vm' \<Longrightarrow> length x \<le> MaxScriptElementSize \<Longrightarrow> op_ok vm0 (f x vm')"
  shows "op_ok vm0 (pop_vm f vm)"
proof (cases "vm_dstack vm")
  case Nil
  then show ?thesis by (simp add: pop_vm_def)
next
  case (Cons x s)
  then show ?thesis using assms(1) by (simp add: pop_vm_def within_def, intro assms(2)) (simp_all add: within_def)
qed

lemma pop_bool_ok [vm_rules]:
  assumes "within vm0 vm" "\<And>x vm'. within vm0 vm' \<Longrightarrow> op_ok vm0 (f x vm')"
  shows "op_ok vm0 (pop_bool f vm)"
proof (cases "vm_dstack vm")
  case Nil
  then show ?thesis by (simp add: pop_bool_def)
next
  case (Cons x s)
  then show ?thesis using assms(1) by (simp add: pop_bool_def within_def, intro assms(2)) (simp_all add: within_def)
qed

lemma makeScriptNum_bound:
  "holds_for (\<lambda>n. \<bar>n\<bar> < 256 ^ k) (\<lambda>e. e \<noteq> ScriptPanic) (makeScriptNum v m k)"
proof (cases "length v \<le> k")
  case True
  have "le_val v < 256 ^ length v" "le_val (v[length v - 1 := last v AND NOT 0x80]) < 256 ^ length v"
    using le_val_bound [of v] le_val_bound [of "v[length v - 1 := last v AND NOT 0x80]"] by simp_all
  moreover have "(256 :: nat) ^ length v \<le> 256 ^ k" using True by (simp add: power_increasing)
  ultimately have "int (le_val v) < 256 ^ k" "int (le_val (v[length v - 1 := last v AND NOT 0x80])) < 256 ^ k"
    by (metis less_le_trans of_nat_less_iff of_nat_numeral of_nat_power)+
  then show ?thesis by (simp add: makeScriptNum_def)
qed (simp add: makeScriptNum_def)

lemma pop_int_ok [vm_rules]:
  assumes "within vm0 vm" "\<And>n vm'. within vm0 vm' \<Longrightarrow> \<bar>n\<bar> < 256 ^ 4 \<Longrightarrow> op_ok vm0 (f n vm')"
  shows "op_ok vm0 (pop_int f vm)"
proof (cases "vm_dstack vm")
  case Nil
  then show ?thesis by (simp add: pop_int_def)
next
  case (Cons x s)
  have b: "holds_for (\<lambda>n. \<bar>n\<bar> < 256 ^ 4) (\<lambda>e. e \<noteq> ScriptPanic) (makeScriptNum x (vm_verifyMinimalData vm) defaultScriptNumLen)"
    unfolding defaultScriptNumLen_def by (rule makeScriptNum_bound)
  have w: "within vm0 (vm\<lparr>vm_dstack := s\<rparr>)" using assms(1) Cons by (simp add: within_def)
  show ?thesis
    using b assms(2) [OF w] Cons
    by (cases "makeScriptNum x (vm_verifyMinimalData vm) defaultScriptNumLen") (simp_all add: pop_int_def)
qed

lemma num_Bytes_length: "\<bar>n\<bar> < 256 ^ k \<Longrightarrow> length (num_Bytes n) \<le> k + 1"
  using le_min_length [of "nat \<bar>n\<bar>" k]
  by (auto simp: num_Bytes_def Let_def nat_less_iff)

lemma push_int_ok [vm_rules]:
  assumes "within vm0 vm" "\<bar>n\<bar> < 256 ^ 8"
  shows "op_ok vm0 (push_int n vm)"
  using num_Bytes_length [of n 8] assms by (simp add: push_int_def push_vm_ok MaxScriptElementSize_def)

lemma on_dstack_ok [vm_rules]:
  assumes "within vm0 vm" "\<And>s. small_stack s \<Longrightarrow> holds_for small_stack (\<lambda>e. e \<noteq> ScriptPanic) (f s)"
  shows "op_ok vm0 (on_dstack f vm)"
  using assms(1) assms(2) [of "vm_dstack vm"]
  by (cases "f (vm_dstack vm)") (simp_all add: on_dstack_def within_def)

lemma push_cond_ok [vm_rules]: "within vm0 vm \<Longrightarrow> op_ok vm0 (push_cond c vm)"
  by (simp add: push_cond_def within_def)

lemma num1_ok [vm_rules]:
  "within vm0 vm \<Longrightarrow> (\<And>m. \<bar>m\<bar> < 256 ^ 4 \<Longrightarrow> \<bar>f m\<bar> < 256 ^ 8) \<Longrightarrow> op_ok vm0 (num1 f vm)"
  unfolding num1_def by (intro pop_int_ok push_int_ok)

lemma num2_ok [vm_rules]:
  "within vm0 vm \<Longrightarrow> (\<And>a b. \<bar>a\<bar> < 256 ^ 4 \<Longrightarrow> \<bar>b\<bar> < 256 ^ 4 \<Longrightarrow> \<bar>f a b\<bar> < 256 ^ 8) \<Longrightarrow> op_ok vm0 (num2 f vm)"
  unfolding num2_def by (intro pop_int_ok push_int_ok)

lemma one_if_bound [simp]: "\<bar>one_if b\<bar> < 18446744073709551616"
  by (simp add: one_if_def)

abbreviation "stack_ok \<equiv> holds_for small_stack (\<lambda>e. e \<noteq> ScriptPanic)"

lemma nipN_ok: "small_stack s \<Longrightarrow>
  holds_for (\<lambda>(x, s). length x \<le> MaxScriptElementSize \<and> small_stack s) (\<lambda>e. e \<noteq> ScriptPanic) (nipN n s)"
  by (auto simp: nipN_def Depth_def intro!: small_stack_parts) (simp add: small_stack_def)

lemma Peek_ok: "small_stack s \<Longrightarrow>
  holds_for (\<lambda>x. length x \<le> MaxScriptElementSize) (\<lambda>e. e \<noteq> ScriptPanic) (PeekByteArray n s)"
  by (auto simp: PeekByteArray_def Depth_def small_stack_def)

lemma times_ok: "small_stack s \<Longrightarrow> (\<And>s. small_stack s \<Longrightarrow> stack_ok (f s)) \<Longrightarrow> stack_ok (times_res n f s)"
proof (induction n arbitrary: s)
  case (Suc n)
  have "holds_for (\<lambda>s. stack_ok (times_res n f s)) (\<lambda>e. e \<noteq> ScriptPanic) (f s)"
    by (rule holds_for_mono [OF Suc.prems(2) [OF Suc.prems(1)]]) (rule Suc.IH, assumption, rule Suc.prems(2))
  then show ?case by (simp add: holds_for_bind)
qed simp

lemma nip_to_top_ok: "small_stack s \<Longrightarrow> stack_ok (nip_to_top n s)"
  unfolding nip_to_top_def by (rule holds_for_bind, rule holds_for_mono [OF nipN_ok]) auto

lemma stack_primitives_ok [vm_rules]:
  "small_stack s \<Longrightarrow> stack_ok (DropN n s)" "small_stack s \<Longrightarrow> stack_ok (DupN n s)"
  "small_stack s \<Longrightarrow> stack_ok (OverN n s)" "small_stack s \<Longrightarrow> stack_ok (RotN n s)"
  "small_stack s \<Longrightarrow> stack_ok (SwapN n s)" "small_stack s \<Longrightarrow> stack_ok (NipN n s)"
  "small_stack s \<Longrightarrow> stack_ok (PickN n s)" "small_stack s \<Longrightarrow> stack_ok (RollN n s)"
  unfolding DropN_def DupN_def OverN_def RotN_def SwapN_def NipN_def PickN_def RollN_def PopByteArray_def
  by (auto intro!: times_ok nip_to_top_ok holds_for_bind intro: holds_for_mono [OF nipN_ok] holds_for_mono [OF Peek_ok])

lemma Tuck_ok [vm_rules]: "small_stack s \<Longrightarrow> stack_ok (Tuck s)"
  by (cases s rule: remdups_adj.cases) (simp_all add: Tuck_def)

lemma pop_many_ok: "small_stack s \<Longrightarrow>
  holds_for (\<lambda>(xs, s). small_stack s) (\<lambda>e. e \<noteq> ScriptPanic) (pop_many n s)"
proof (induction n arbitrary: s)
  case (Suc n)
  show ?case
  proof (cases s)
    case (Cons x t)
    then show ?thesis using Suc.prems Suc.IH [of t] by (cases "pop_many n t") auto
  qed simp
qed simp

section \<open>The handlers\<close>

lemma within_cond [vm_rules]: "within vm0 vm \<Longrightarrow> op_ok vm0 (Inr (vm\<lparr>vm_condStack := c\<rparr>))"
  by (simp add: within_def)

lemma within_self [vm_rules]: "within vm0 vm \<Longrightarrow> op_ok vm0 (Inr vm)"
  by simp

lemma fail_ok [vm_rules]: "e \<noteq> ScriptPanic \<Longrightarrow> op_ok vm0 (Inl e)"
  by simp

lemma fromBool_small [simp]: "length (fromBool b) \<le> MaxScriptElementSize"
  by (simp add: fromBool_def MaxScriptElementSize_def)

lemma opcodeVerify_ok [vm_rules]: "within vm0 vm \<Longrightarrow> op_ok vm0 (opcodeVerify vm)"
  unfolding opcodeVerify_def by (intro pop_bool_ok) auto

lemma then_verify_ok [vm_rules]: "op_ok vm0 r \<Longrightarrow> op_ok vm0 (bind_res r opcodeVerify)"
  by (rule holds_for_bind, erule holds_for_mono) (rule opcodeVerify_ok)

lemma conditional_ok [vm_rules]:
  assumes "within vm0 vm"
  shows "op_ok vm0 (opcodeIf vm)" "op_ok vm0 (opcodeNotIf vm)" "op_ok vm0 (opcodeElse vm)" "op_ok vm0 (opcodeEndif vm)"
    "op_ok vm0 (opcodeNop pop vm)"
  using assms unfolding opcodeIf_def opcodeNotIf_def opcodeElse_def opcodeEndif_def opcodeNop_def
  by (auto intro!: vm_rules split: list.split) (simp_all add: within_def)

lemma peek_vm_ok:
  assumes "within vm0 vm" "\<And>x. length x \<le> MaxScriptElementSize \<Longrightarrow> op_ok vm0 (f x)"
  shows "op_ok vm0 (bind_res (PeekByteArray n (vm_dstack vm)) f)"
  using Peek_ok [of "vm_dstack vm" n] assms by (cases "PeekByteArray n (vm_dstack vm)") (simp_all add: within_def)

lemma opcodeCheckLockTimeVerify_ok:
  assumes "within vm0 vm" "vm_txIdx vm0 < length (tx_TxIn (vm_tx vm0))"
  shows "op_ok vm0 (opcodeCheckLockTimeVerify vm)"
proof -
  have f: "vm_txIdx vm = vm_txIdx vm0" "vm_tx vm = vm_tx vm0"
    using assms(1) by (auto simp: within_def dest: code_of_fields)
  have n: "makeScriptNum x m 5 \<noteq> Inl ScriptPanic" for x m
    using makeScriptNum_bound [of 5 x m] by auto
  have p: "PeekByteArray i s \<noteq> Inl ScriptPanic" for i s
    by (simp add: PeekByteArray_def)
  show ?thesis
    using assms n p unfolding opcodeCheckLockTimeVerify_def
    by (auto simp: f Let_def bind_res_def split: sum.split)
qed

lemma stack_opcodes_ok [vm_rules]:
  assumes "within vm0 vm"
  shows "op_ok vm0 (opcode2Drop vm)" "op_ok vm0 (opcode2Dup vm)" "op_ok vm0 (opcode3Dup vm)" "op_ok vm0 (opcode2Over vm)"
    "op_ok vm0 (opcode2Rot vm)" "op_ok vm0 (opcode2Swap vm)" "op_ok vm0 (opcodeDrop vm)" "op_ok vm0 (opcodeDup vm)"
    "op_ok vm0 (opcodeNip vm)" "op_ok vm0 (opcodeOver vm)" "op_ok vm0 (opcodeRot vm)" "op_ok vm0 (opcodeSwap vm)"
    "op_ok vm0 (opcodeTuck vm)" "op_ok vm0 (opcodePick vm)" "op_ok vm0 (opcodeRoll vm)"
  using assms unfolding opcode2Drop_def opcode2Dup_def opcode3Dup_def opcode2Over_def opcode2Rot_def opcode2Swap_def
    opcodeDrop_def opcodeDup_def opcodeNip_def opcodeOver_def opcodeRot_def opcodeSwap_def opcodeTuck_def
    opcodePick_def opcodeRoll_def
  by (auto intro!: vm_rules)

lemma alt_stack_ok [vm_rules]:
  assumes "within vm0 vm"
  shows "op_ok vm0 (opcodeToAltStack vm)" "op_ok vm0 (opcodeFromAltStack vm)" "op_ok vm0 (opcodeIfDup vm)"
proof -
  show "op_ok vm0 (opcodeToAltStack vm)"
    unfolding opcodeToAltStack_def by (rule pop_vm_ok [OF assms]) (simp add: within_def)
  show "op_ok vm0 (opcodeFromAltStack vm)"
    using assms by (cases "vm_astack vm") (simp_all add: opcodeFromAltStack_def push_vm_def within_def)
  show "op_ok vm0 (opcodeIfDup vm)"
    unfolding opcodeIfDup_def using assms by (intro peek_vm_ok) (auto intro: push_vm_ok)
qed

lemma size_ok [vm_rules]:
  assumes "within vm0 vm" "length (vm_dstack vm) < 2 ^ 63"
  shows "op_ok vm0 (opcodeDepth vm)" "op_ok vm0 (opcodeSize vm)"
  unfolding opcodeDepth_def opcodeSize_def using assms
  by (auto intro!: peek_vm_ok push_int_ok simp: Depth_def MaxScriptElementSize_def)

lemma arithmetic_ok [vm_rules]:
  assumes "within vm0 vm"
  shows "op_ok vm0 (opcode1Add vm)" "op_ok vm0 (opcode1Sub vm)" "op_ok vm0 (opcodeNegate vm)" "op_ok vm0 (opcodeAbs vm)"
    "op_ok vm0 (opcodeNot vm)" "op_ok vm0 (opcode0NotEqual vm)" "op_ok vm0 (opcodeAdd vm)" "op_ok vm0 (opcodeSub vm)"
    "op_ok vm0 (opcodeBoolAnd vm)" "op_ok vm0 (opcodeBoolOr vm)" "op_ok vm0 (opcodeNumEqual vm)" "op_ok vm0 (opcodeNumNotEqual vm)"
    "op_ok vm0 (opcodeLessThan vm)" "op_ok vm0 (opcodeGreaterThan vm)" "op_ok vm0 (opcodeLessThanOrEqual vm)"
    "op_ok vm0 (opcodeGreaterThanOrEqual vm)" "op_ok vm0 (opcodeMin vm)" "op_ok vm0 (opcodeMax vm)" "op_ok vm0 (opcodeWithin vm)"
  using assms unfolding opcode1Add_def opcode1Sub_def opcodeNegate_def opcodeAbs_def opcodeNot_def opcode0NotEqual_def
    opcodeAdd_def opcodeSub_def opcodeBoolAnd_def opcodeBoolOr_def opcodeNumEqual_def opcodeNumNotEqual_def
    opcodeLessThan_def opcodeGreaterThan_def opcodeLessThanOrEqual_def opcodeGreaterThanOrEqual_def opcodeMin_def
    opcodeMax_def opcodeWithin_def
  by (auto intro!: vm_rules)

lemma comparison_ok [vm_rules]:
  assumes "within vm0 vm"
  shows "op_ok vm0 (opcodeEqual vm)" "op_ok vm0 (opcodeEqualVerify vm)" "op_ok vm0 (opcodeNumEqualVerify vm)"
  using assms unfolding opcodeEqual_def opcodeEqualVerify_def opcodeNumEqualVerify_def opcodeNumEqual_def
  by (auto intro!: vm_rules)

lemma hash_opcodes_ok [vm_rules]:
  assumes "within vm0 vm" "\<And>x. length (se_Ripemd160 ev x) \<le> MaxScriptElementSize" "\<And>x. length (se_Sha1 ev x) \<le> MaxScriptElementSize"
    "\<And>x. length (cr_Sha256 (se_crypto ev) x) \<le> MaxScriptElementSize"
    "\<And>x. length (cr_DoubleHash (se_crypto ev) x) \<le> MaxScriptElementSize"
  shows "op_ok vm0 (opcodeRipemd160 ev vm)" "op_ok vm0 (opcodeSha1 ev vm)" "op_ok vm0 (opcodeSha256 ev vm)"
    "op_ok vm0 (opcodeHash160 ev vm)" "op_ok vm0 (opcodeHash256 ev vm)"
  using assms unfolding opcodeRipemd160_def opcodeSha1_def opcodeSha256_def opcodeHash160_def opcodeHash256_def
  by (auto intro!: vm_rules)

text \<open>Where the engine stands when an opcode runs: after it in the current script, with the code separator before it.\<close>

definition at_opcode :: "parsed_opcode \<Rightarrow> engine \<Rightarrow> bool" where
  "at_opcode pop vm \<longleftrightarrow> vm_txIdx vm < length (tx_TxIn (vm_tx vm)) \<and> vm_scriptIdx vm < length (vm_scripts vm) \<and>
     vm_lastCodeSep vm \<le> length (vm_scripts vm ! vm_scriptIdx vm) \<and>
     pop \<in> set (drop (vm_lastCodeSep vm) (vm_scripts vm ! vm_scriptIdx vm))"

lemma subScript_at:
  assumes "within vm0 vm" "at_opcode pop vm0" "po_op pop \<noteq> OP_0" "po_op pop \<noteq> OP_DATA_20"
  obtains script where "subScript vm = Inr script" "\<not> isWitnessPubKeyHash script"
proof
  have f: "vm_scripts vm = vm_scripts vm0" "vm_scriptIdx vm = vm_scriptIdx vm0" "vm_lastCodeSep vm = vm_lastCodeSep vm0"
    using assms(1) by (auto simp: within_def dest: code_of_fields)
  let ?s = "drop (vm_lastCodeSep vm0) (vm_scripts vm0 ! vm_scriptIdx vm0)"
  show "subScript vm = Inr ?s" using assms(2) by (simp add: subScript_def f at_opcode_def)
  have "po_op p = OP_0 \<or> po_op p = OP_DATA_20" if "isWitnessPubKeyHash s" "p \<in> set s" for s p
    using that by (auto simp: isWitnessPubKeyHash_def in_set_conv_nth less_2_cases_iff)
  then show "\<not> isWitnessPubKeyHash ?s" using assms(2-) by (auto simp: at_opcode_def)
qed

lemma sig_hash_calm: "\<not> isWitnessPubKeyHash script \<Longrightarrow> sig_hash ev vm script hashType \<noteq> Inl ScriptPanic"
  by (simp add: sig_hash_def CalcWitnessSignatureHash_def script_code_def Let_def)

lemma encoding_calm:
  assumes "within vm0 vm"
  shows "checkSignatureEncoding vm sig = Some ScriptPanic \<Longrightarrow> checks_encoding vm0"
    and "checkHashTypeEncoding vm hashType \<noteq> Some ScriptPanic" and "checkPubKeyEncoding vm pk \<noteq> Some ScriptPanic"
proof -
  have "vm_flags vm = vm_flags vm0" using assms by (auto simp: within_def dest: code_of_fields)
  then show "checkSignatureEncoding vm sig = Some ScriptPanic \<Longrightarrow> checks_encoding vm0"
    by (auto simp: checkSignatureEncoding_def checks_encoding_def hasFlag_def split: if_splits)
qed (simp_all add: checkHashTypeEncoding_def checkPubKeyEncoding_def Let_def)

lemma guard_ok:
  assumes "o' = Some ScriptPanic \<Longrightarrow> Q ScriptPanic" "\<And>e. e \<noteq> ScriptPanic \<Longrightarrow> Q e" "holds_for P Q r"
  shows "holds_for P Q (guard_res o' r)"
  using assms by (cases o', simp_all add: guard_res_def) metis

lemma bind_sig_hash_ok:
  assumes "sig_hash ev vm script hashType \<noteq> Inl ScriptPanic" "\<And>e. e \<noteq> ScriptPanic \<Longrightarrow> Q e" "\<And>hash. holds_for P Q (f hash)"
  shows "holds_for P Q (bind_res (sig_hash ev vm script hashType) f)"
  using assms by (cases "sig_hash ev vm script hashType") auto

lemma opcodeCheckSig_ok [vm_rules]:
  assumes "within vm0 vm" "at_opcode pop vm0" "po_op pop \<noteq> OP_0" "po_op pop \<noteq> OP_DATA_20"
  shows "op_ok vm0 (opcodeCheckSig ev vm)"
  unfolding opcodeCheckSig_def
proof (intro pop_vm_ok [OF assms(1)] pop_vm_ok, assumption)
  fix x y :: bytes and vm'' assume w: "within vm0 vm''"
  obtain script where script: "subScript vm'' = Inr script" "\<not> isWitnessPubKeyHash script"
    using subScript_at [OF w assms(2-)] .
  have removed: "\<not> vm_witness vm'' \<Longrightarrow> sig_hash ev vm'' s t \<noteq> Inl ScriptPanic" for s t
    by (simp add: sig_hash_def)
  show "op_ok vm0 (if length y < 1 then push_vm (fromBool False) vm''
     else
       let hashType = ucast (last y) :: u32; sigBytes = butlast y in
       guard_res (checkHashTypeEncoding vm'' hashType) (
       guard_res (checkSignatureEncoding vm'' sigBytes) (
       guard_res (checkPubKeyEncoding vm'' x) (
       bind_res (subScript vm'') (\<lambda>script.
         let script = (if \<not> vm_witness vm'' then removeOpcodeByData script y else script) in
         bind_res (sig_hash ev vm'' script hashType) (\<lambda>hash.
           case se_ParsePubKey ev x of None \<Rightarrow> push_vm (fromBool False) vm''
           | Some pubKey \<Rightarrow>
             (case parse_sig ev vm'' sigBytes of None \<Rightarrow> push_vm (fromBool False) vm''
              | Some signature \<Rightarrow> push_vm (fromBool (sig_valid ev hash signature pubKey)) vm'')))))))"
    using w removed sig_hash_calm [OF script(2), of ev vm''] encoding_calm [OF w]
    by (auto simp: Let_def script(1) intro!: push_vm_ok guard_ok bind_sig_hash_ok split: option.split)
qed

lemma multisig_ok:
  assumes "within vm0 vm" "\<And>hashType. sig_hash ev vm script hashType \<noteq> Inl ScriptPanic"
  shows "holds_for (\<lambda>b. True) (\<lambda>e. e = ScriptPanic \<longrightarrow> checks_encoding vm0) (multisig_loop ev vm script parsed sigs pks)"
proof (induction pks arbitrary: parsed sigs)
  case (Cons pk pks)
  show ?case
  proof (cases sigs)
    case (Cons rawSig rest)
    let ?h = "ucast (last rawSig) :: u32"
    have parse: "holds_for (\<lambda>b. True) (\<lambda>e. e = ScriptPanic \<longrightarrow> checks_encoding vm0)
       (case parsed of Some p \<Rightarrow> Inr p
        | None \<Rightarrow> guard_res (checkHashTypeEncoding vm ?h) (
            guard_res (checkSignatureEncoding vm (butlast rawSig)) (Inr (parse_sig ev vm (butlast rawSig)))))"
      using encoding_calm [OF assms(1)] by (auto intro!: guard_ok split: option.split)
    have rest: "holds_for (\<lambda>b. True) (\<lambda>e. e = ScriptPanic \<longrightarrow> checks_encoding vm0)
       (guard_res (checkPubKeyEncoding vm pk) (
          case se_ParsePubKey ev pk of None \<Rightarrow> multisig_loop ev vm script (Some (Some parsedSig)) sigs pks
          | Some parsedPubKey \<Rightarrow>
            bind_res (sig_hash ev vm script ?h) (\<lambda>hash.
              if sig_valid ev hash parsedSig parsedPubKey then multisig_loop ev vm script None rest pks
              else multisig_loop ev vm script (Some (Some parsedSig)) sigs pks)))" for parsedSig
      using encoding_calm [OF assms(1)] Cons.IH assms(2) [of ?h]
      by (auto intro!: guard_ok bind_sig_hash_ok split: option.split)
    show ?thesis
      using parse rest Cons.IH unfolding Cons
      by (auto simp: Let_def Cons split: sum.split option.split)
  qed simp
qed simp

lemma bind_pop_many_ok:
  assumes "within vm0 vm" "\<And>xs s. small_stack s \<Longrightarrow> op_ok vm0 (f (xs, s))"
  shows "op_ok vm0 (bind_res (pop_many n (vm_dstack vm)) f)"
  using pop_many_ok [of "vm_dstack vm" n] assms by (cases "pop_many n (vm_dstack vm)") (auto simp: within_def)

lemma within_updates:
  "within vm0 vm \<Longrightarrow> small_stack s \<Longrightarrow> within vm0 (vm\<lparr>vm_dstack := s\<rparr>)"
  "within vm0 vm \<Longrightarrow> n \<le> MaxOpsPerScript \<Longrightarrow> within vm0 (vm\<lparr>vm_numOps := n\<rparr>)"
  by (simp_all add: within_def)

lemma bind_success_ok:
  assumes "within vm0 vm" "\<And>hashType. sig_hash ev vm script hashType \<noteq> Inl ScriptPanic"
  shows "op_ok vm0 (bind_res (multisig_loop ev vm script None sigs pks) (\<lambda>success. push_vm (fromBool success) vm))"
  using multisig_ok [OF assms, of None sigs pks] push_vm_ok [OF assms(1) fromBool_small]
  by (cases "multisig_loop ev vm script None sigs pks") auto

lemma opcodeCheckMultiSig_ok [vm_rules]:
  assumes "within vm0 vm" "at_opcode pop vm0" "po_op pop \<noteq> OP_0" "po_op pop \<noteq> OP_DATA_20"
  shows "op_ok vm0 (opcodeCheckMultiSig ev vm)"
proof -
  have last: "op_ok vm0 (bind_res (subScript vm') (\<lambda>script.
      let script = (if \<not> vm_witness vm' then fold (\<lambda>sig script. removeOpcodeByData script sig) sigs script else script)
      in bind_res (multisig_loop ev vm' script None sigs pks) (\<lambda>success. push_vm (fromBool success) vm')))"
    if w: "within vm0 vm'" for vm' sigs pks
  proof -
    obtain script where script: "subScript vm' = Inr script" "\<not> isWitnessPubKeyHash script"
      using subScript_at [OF w assms(2-)] .
    show ?thesis
      using w sig_hash_calm [OF script(2), of ev vm'] by (auto simp: script(1) Let_def sig_hash_def intro!: bind_success_ok)
  qed
  show ?thesis
    unfolding opcodeCheckMultiSig_def
    by (rule pop_int_ok [OF assms(1)])
       (auto simp: Let_def intro!: bind_pop_many_ok pop_int_ok pop_vm_ok within_updates last [unfolded Let_def])
qed

lemma opfunc_ok:
  assumes "within vm0 vm" "at_opcode pop vm0" "length (vm_dstack vm) < 2 ^ 63" "po_op pop \<noteq> OP_CODESEPARATOR"
    and "po_op pop \<le> OP_PUSHDATA4 \<Longrightarrow> length (po_data pop) \<le> MaxScriptElementSize"
    and "\<And>x. length (se_Ripemd160 ev x) \<le> MaxScriptElementSize" "\<And>x. length (se_Sha1 ev x) \<le> MaxScriptElementSize"
    "\<And>x. length (cr_Sha256 (se_crypto ev) x) \<le> MaxScriptElementSize"
    "\<And>x. length (cr_DoubleHash (se_crypto ev) x) \<le> MaxScriptElementSize"
  shows "op_ok vm0 (opfunc ev pop vm)"
proof -
  have clt: "op_ok vm0 (opcodeCheckLockTimeVerify vm)"
    by (rule opcodeCheckLockTimeVerify_ok [OF assms(1)]) (use assms(2) in \<open>simp add: at_opcode_def\<close>)
  have push: "op_ok vm0 (opcodeFalse vm)" "op_ok vm0 (opcode1Negate vm)" "op_ok vm0 (opcodeN pop vm)"
    "po_op pop \<le> OP_PUSHDATA4 \<Longrightarrow> op_ok vm0 (opcodePushData pop vm)"
    using assms(1,5) unfolding opcodeFalse_def opcode1Negate_def opcodeN_def opcodePushData_def
    by (auto intro!: vm_rules order_less_le_trans [OF uint_lt2p])
  have bad: "op_ok vm0 (opcodeReserved vm)" "op_ok vm0 (opcodeInvalid vm)" "op_ok vm0 (opcodeDisabled vm)" "op_ok vm0 (opcodeReturn vm)"
    by (simp_all add: opcodeReserved_def opcodeInvalid_def opcodeDisabled_def opcodeReturn_def)
  note rules = clt push(1-3) bad conditional_ok [OF assms(1)] opcodeVerify_ok [OF assms(1)] stack_opcodes_ok [OF assms(1)]
    alt_stack_ok [OF assms(1)] size_ok [OF assms(1,3)] arithmetic_ok [OF assms(1)] comparison_ok [OF assms(1)]
    hash_opcodes_ok [OF assms(1,6-9)]
  have sigs: "po_op pop = OP_CHECKSIG \<Longrightarrow> op_ok vm0 (opcodeCheckSig ev vm)"
    "po_op pop = OP_CHECKSIGVERIFY \<Longrightarrow> op_ok vm0 (opcodeCheckSigVerify ev vm)"
    "po_op pop = OP_CHECKMULTISIG \<Longrightarrow> op_ok vm0 (opcodeCheckMultiSig ev vm)"
    "po_op pop = OP_CHECKMULTISIGVERIFY \<Longrightarrow> op_ok vm0 (opcodeCheckMultiSigVerify ev vm)"
    unfolding opcodeCheckSigVerify_def opcodeCheckMultiSigVerify_def
    using assms(1,2) by (auto intro!: vm_rules)
  have branch: "op_ok vm0 ((if c then f else g) vm)" if "c \<Longrightarrow> op_ok vm0 (f vm)" "\<not> c \<Longrightarrow> op_ok vm0 (g vm)" for c f g
    using that by simp
  show ?thesis
    unfolding opfunc_def Let_def
    by (rule branch, (rule rules | rule push(4), assumption | rule sigs, assumption | erule notE [OF assms(4)]))+
       (rule rules)
qed

end
