(* ===== verification/TxEngineRun.thy ===== *)
theory TxEngineRun
  imports TxEngineSafe
begin

text \<open>
  Runs of the script engine: they end, whatever the scripts, and the engines they pass through keep the consensus
  limits. The invariant is kept by every step; the engines the constructor builds have it.
\<close>

section \<open>One opcode\<close>

text \<open>What the hash functions are taken to do: their outputs are no longer than a stack element may be.\<close>

definition hashes_fit :: "script_env \<Rightarrow> bool" where
  "hashes_fit ev \<longleftrightarrow> (\<forall>x. length (se_Ripemd160 ev x) \<le> MaxScriptElementSize \<and> length (se_Sha1 ev x) \<le> MaxScriptElementSize \<and>
     length (cr_Sha256 (se_crypto ev) x) \<le> MaxScriptElementSize \<and>
     length (cr_DoubleHash (se_crypto ev) x) \<le> MaxScriptElementSize)"

text \<open>After an opcode the code separator is where it was or after this opcode.\<close>

definition after_op :: "engine \<Rightarrow> engine \<Rightarrow> bool" where
  "after_op vm vm' \<longleftrightarrow> within (vm\<lparr>vm_lastCodeSep := vm_lastCodeSep vm'\<rparr>) vm' \<and>
     vm_lastCodeSep vm' \<in> {vm_lastCodeSep vm, vm_scriptOff vm}"

lemma same_lastCodeSep: "vm_lastCodeSep vm' = vm_lastCodeSep vm \<Longrightarrow> vm\<lparr>vm_lastCodeSep := vm_lastCodeSep vm'\<rparr> = vm"
  by (cases vm) simp

lemma within_after_op: "within vm vm' \<Longrightarrow> after_op vm vm'"
proof -
  assume w: "within vm vm'"
  then have "vm_lastCodeSep vm' = vm_lastCodeSep vm" by (auto simp: within_def dest: code_of_fields)
  then show "after_op vm vm'" using w by (simp add: after_op_def same_lastCodeSep)
qed

lemma code_of_trans: "within vm vm' \<Longrightarrow> code_of vm = code_of vm0 \<Longrightarrow> within vm0 vm'"
  by (simp add: within_def)

lemma after_op_numOps: "after_op (vm\<lparr>vm_numOps := n\<rparr>) vm' \<Longrightarrow> after_op vm vm'"
proof -
  have c: "code_of (vm\<lparr>vm_numOps := n, vm_lastCodeSep := l\<rparr>) = code_of (vm\<lparr>vm_lastCodeSep := l\<rparr>)" for l
    by (cases vm) (simp add: code_of_def)
  assume "after_op (vm\<lparr>vm_numOps := n\<rparr>) vm'"
  then show "after_op vm vm'" by (simp add: after_op_def within_def c)
qed

lemma checks_encoding_numOps [simp]: "checks_encoding (vm\<lparr>vm_numOps := n\<rparr>) = checks_encoding vm"
  by (simp add: checks_encoding_def hasFlag_def)

lemma codesep_op: "po_op pop = OP_CODESEPARATOR \<Longrightarrow> opfunc ev pop vm = opcodeCodeSeparator vm"
  by (simp add: opfunc_def)

lemma opfunc_after:
  assumes "hashes_fit ev" "within vm vm" "at_opcode pop vm" "length (vm_dstack vm) < 2 ^ 63"
    and "po_op pop \<le> OP_PUSHDATA4 \<Longrightarrow> length (po_data pop) \<le> MaxScriptElementSize"
  shows "holds_for (after_op vm) (\<lambda>e. e = ScriptPanic \<longrightarrow> checks_encoding vm) (opfunc ev pop vm)"
proof (cases "po_op pop = OP_CODESEPARATOR")
  case True
  then show ?thesis
    using assms(2) by (simp add: codesep_op [OF True] opcodeCodeSeparator_def after_op_def within_def)
next
  case False
  have "op_ok vm (opfunc ev pop vm)"
    using assms False by (intro opfunc_ok) (simp_all add: hashes_fit_def)
  then show ?thesis by (rule holds_for_mono) (rule within_after_op)
qed

lemma executeOpcode_ok:
  assumes "hashes_fit ev" "within vm vm" "at_opcode pop vm" "length (vm_dstack vm) < 2 ^ 63"
  shows "holds_for (after_op vm) (\<lambda>e. e = ScriptPanic \<longrightarrow> checks_encoding vm) (executeOpcode ev pop vm)"
proof -
  let ?vm = "vm\<lparr>vm_numOps := vm_numOps vm + 1\<rparr>"
  have at: "at_opcode pop ?vm" using assms(3) by (simp add: at_opcode_def)
  have counted: "holds_for (after_op vm) (\<lambda>e. e = ScriptPanic \<longrightarrow> checks_encoding vm) (opfunc ev pop ?vm)"
    if "OP_16 < po_op pop" "\<not> MaxOpsPerScript < vm_numOps vm + 1"
  proof -
    have w: "within ?vm ?vm" using assms(2) that(2) by (simp add: within_def)
    have "\<not> po_op pop \<le> OP_PUSHDATA4"
      using that(1) order_less_le_trans by fastforce
    then have "holds_for (after_op ?vm) (\<lambda>e. e = ScriptPanic \<longrightarrow> checks_encoding ?vm) (opfunc ev pop ?vm)"
      using assms(4) by (intro opfunc_after [OF assms(1) w at]) simp_all
    then show ?thesis unfolding checks_encoding_numOps by (rule holds_for_mono) (rule after_op_numOps)
  qed
  have plain: "holds_for (after_op vm) (\<lambda>e. e = ScriptPanic \<longrightarrow> checks_encoding vm) (opfunc ev pop vm)"
    if "\<not> MaxScriptElementSize < length (po_data pop)"
    using that by (intro opfunc_after [OF assms]) simp_all
  have skip: "after_op vm vm" "\<not> MaxOpsPerScript < vm_numOps vm + 1 \<Longrightarrow> after_op vm ?vm"
    using within_after_op [OF assms(2)] assms(2)
    by (simp_all add: after_op_numOps [OF within_after_op] within_after_op within_def)
  show ?thesis
    using counted plain skip by (auto simp: executeOpcode_def Let_def)
qed

section \<open>The invariant\<close>

text \<open>The witness of the input, and the most items a stack can have between two opcodes: right after a witness program
  is set up its stack is the witness, which is only measured after the next opcode.\<close>

definition input_witness :: "engine \<Rightarrow> bytes list" where
  "input_witness vm = ti_Witness (tx_TxIn (vm_tx vm) ! vm_txIdx vm)"

definition stack_limit :: "engine \<Rightarrow> nat" where
  "stack_limit vm = max 1000 (length (input_witness vm))"

text \<open>For pay-to-script-hash, the first stack is saved, and not empty once the hash opcode of the public script ran.\<close>

definition p2sh_ok :: "engine \<Rightarrow> bool" where
  "p2sh_ok vm \<longleftrightarrow> 2 \<le> length (vm_scripts vm) \<and> isScriptHash (vm_scripts vm ! 1) \<and>
     (vm_scriptIdx vm = 1 \<and> vm_scriptOff vm = 0 \<longrightarrow> vm_savedFirstStack vm = rev (vm_dstack vm)) \<and>
     (vm_scriptIdx vm = 1 \<and> 0 < vm_scriptOff vm \<longrightarrow> vm_savedFirstStack vm \<noteq> [])"

definition engine_ok :: "engine \<Rightarrow> bool" where
  "engine_ok vm \<longleftrightarrow> within vm vm \<and> small_stack (vm_savedFirstStack vm) \<and> length (vm_savedFirstStack vm) \<le> 1000 \<and>
     vm_txIdx vm < length (tx_TxIn (vm_tx vm)) \<and>
     length (vm_dstack vm) + length (vm_astack vm) \<le> stack_limit vm \<and>
     (0 < vm_scriptOff vm \<longrightarrow> length (vm_dstack vm) + length (vm_astack vm) \<le> 1000) \<and>
     vm_lastCodeSep vm \<le> vm_scriptOff vm \<and> (vm_scriptOff vm = 0 \<longrightarrow> vm_condStack vm = []) \<and>
     (vm_bip16 vm \<longrightarrow> p2sh_ok vm)"

text \<open>The parts of an engine no step changes.\<close>

definition same_input :: "engine \<Rightarrow> engine \<Rightarrow> bool" where
  "same_input vm vm' \<longleftrightarrow> vm_tx vm' = vm_tx vm \<and> vm_txIdx vm' = vm_txIdx vm \<and> vm_flags vm' = vm_flags vm"

lemma same_input_limit: "same_input vm vm' \<Longrightarrow> stack_limit vm' = stack_limit vm" "same_input vm vm' \<Longrightarrow> checks_encoding vm' = checks_encoding vm"
  by (simp_all add: same_input_def stack_limit_def input_witness_def checks_encoding_def hasFlag_def)

lemma after_op_fields:
  assumes "after_op vm vm'"
  shows "vm_scripts vm' = vm_scripts vm" "vm_scriptIdx vm' = vm_scriptIdx vm" "vm_scriptOff vm' = vm_scriptOff vm"
    "vm_bip16 vm' = vm_bip16 vm" "vm_savedFirstStack vm' = vm_savedFirstStack vm" "same_input vm vm'"
    "vm_witness vm' = vm_witness vm"
  using assms by (auto simp: after_op_def within_def same_input_def dest: code_of_fields)

lemma ParseScript_calm: "ParseScript s \<noteq> Inl ScriptPanic"
proof -
  have "snd (parseScript s) \<noteq> Some ScriptPanic"
  proof (induction s rule: parseScript.induct)
    case (2 instr rest)
    then show ?case by (simp add: parseScript.simps(2) Let_def add_pop_def)
  qed simp
  then show ?thesis by (auto simp: ParseScript_def split: prod.splits option.splits)
qed

text \<open>What the engine is between scripts, before the bookkeeping of the next one.\<close>

definition between :: "engine \<Rightarrow> engine \<Rightarrow> bool" where
  "between vm vm' \<longleftrightarrow> same_input vm vm' \<and> small_stack (vm_dstack vm') \<and> vm_astack vm' = [] \<and> vm_numOps vm' = 0 \<and>
     vm_scriptOff vm' = 0 \<and> vm_condStack vm' = [] \<and> small_stack (vm_savedFirstStack vm') \<and> length (vm_savedFirstStack vm') \<le> 1000 \<and>
     length (vm_dstack vm') \<le> stack_limit vm \<and> vm_scriptIdx vm' = Suc (vm_scriptIdx vm) \<and> vm_bip16 vm' = vm_bip16 vm \<and>
     (vm_bip16 vm \<longrightarrow> 2 \<le> length (vm_scripts vm') \<and> isScriptHash (vm_scripts vm' ! 1) \<and>
        (vm_scriptIdx vm = 0 \<longrightarrow> vm_savedFirstStack vm' = rev (vm_dstack vm'))) \<and>
     (vm_scripts vm' = vm_scripts vm \<or> (\<exists>pops. vm_scripts vm' = vm_scripts vm @ [pops] \<and> vm_scriptIdx vm \<in> {1, 2}))"

text \<open>The end of a script: at its last offset, without open conditionals.\<close>

definition script_end :: "engine \<Rightarrow> bool" where
  "script_end vm \<longleftrightarrow> small_stack (vm_dstack vm) \<and> small_stack (vm_savedFirstStack vm) \<and> length (vm_savedFirstStack vm) \<le> 1000 \<and>
     vm_txIdx vm < length (tx_TxIn (vm_tx vm)) \<and> length (vm_dstack vm) \<le> 1000 \<and> vm_condStack vm = [] \<and>
     (vm_bip16 vm \<longrightarrow> 2 \<le> length (vm_scripts vm) \<and> isScriptHash (vm_scripts vm ! 1) \<and>
        (vm_scriptIdx vm = 1 \<longrightarrow> vm_savedFirstStack vm \<noteq> []))"

lemma append_keeps_second: "2 \<le> length xs \<Longrightarrow> (xs @ ys) ! Suc 0 = xs ! Suc 0"
  by (simp add: nth_append)

abbreviation next_idx :: "engine \<Rightarrow> engine" where
  "next_idx vm \<equiv> vm\<lparr>vm_astack := [], vm_numOps := 0, vm_scriptOff := 0, vm_scriptIdx := Suc (vm_scriptIdx vm)\<rparr>"

lemma between_appended:
  assumes "script_end vm" "vm_scriptIdx vm \<in> {1, 2}" "small_stack st" "length st \<le> stack_limit vm"
  shows "between vm (SetStack st (add_script pops (next_idx vm\<lparr>vm_dstack := d\<rparr>)))"
    and "between vm (SetStack st (add_script pops (next_idx vm)))"
  using assms by (auto simp: between_def script_end_def same_input_def SetStack_def add_script_def append_keeps_second)

lemma between_next:
  assumes "script_end vm" "vm_bip16 vm \<Longrightarrow> vm_scriptIdx vm \<noteq> 0"
  shows "between vm (next_idx vm)" "between vm (next_idx vm\<lparr>vm_witness := w\<rparr>)"
  using assms by (auto simp: between_def script_end_def same_input_def stack_limit_def)

lemma between_saved:
  assumes "script_end vm" "vm_scriptIdx vm = 0"
  shows "between vm (next_idx vm\<lparr>vm_savedFirstStack := rev (vm_dstack vm)\<rparr>)"
  using assms by (auto simp: between_def script_end_def same_input_def stack_limit_def)

lemma verifyWitnessProgram_between:
  assumes "script_end vm" "vm_scriptIdx vm \<in> {1, 2}"
  shows "holds_for (between vm) (\<lambda>e. e \<noteq> ScriptPanic) (verifyWitnessProgram ev (input_witness vm) (next_idx vm))"
proof (cases "list_ex (\<lambda>w. MaxScriptElementSize < length w) (input_witness vm)")
  case False
  then have small: "small_stack (input_witness vm)" by (auto simp: small_stack_def list_ex_iff not_less)
  note set = between_appended(2) [OF assms small] between_appended(2) [OF assms small_stack_parts(3) [OF small]]
  have set: "between vm (SetStack (input_witness vm) (add_script pops (next_idx vm)))"
    "between vm (SetStack (butlast (input_witness vm)) (add_script pops (next_idx vm)))" for pops
    by (rule set, simp add: stack_limit_def)+
  have unknown: "between vm (next_idx vm\<lparr>vm_witness := False\<rparr>)"
    using assms by (intro between_next) auto
  have pay: "payToPubKeyHashScript h \<noteq> Inl ScriptPanic" for h
    by (simp add: payToPubKeyHashScript_def Let_def split: option.split)
  have parse: "holds_for (between vm) (\<lambda>e. e \<noteq> ScriptPanic) (bind_res (ParseScript b) (\<lambda>pops. Inr (f pops)))"
    if "\<And>pops. between vm (f pops)" for b f
    using that ParseScript_calm [of b] by (cases "ParseScript b") auto
  have p2pkh: "holds_for (between vm) (\<lambda>e. e \<noteq> ScriptPanic) (bind_res (payToPubKeyHashScript h) (\<lambda>b.
      bind_res (ParseScript b) (\<lambda>pops. Inr (f pops))))" if "\<And>pops. between vm (f pops)" for h f
    using parse [OF that] pay [of h] by (cases "payToPubKeyHashScript h") auto
  show ?thesis
    unfolding verifyWitnessProgram_def
    by (simp add: False, intro impI conjI p2pkh parse set unknown)
qed (simp add: verifyWitnessProgram_def)

lemma CheckErrorCondition_keeps:
  "holds_for (\<lambda>vm'. \<exists>x s. vm_dstack vm = x # s \<and> asBool x \<and> vm' = vm\<lparr>vm_dstack := s\<rparr>) (\<lambda>e. e \<noteq> ScriptPanic) (CheckErrorCondition final vm)"
  by (cases "vm_dstack vm") (simp_all add: CheckErrorCondition_def pop_bool_def)

lemma next_script_between:
  assumes "script_end vm"
  shows "holds_for (between vm) (\<lambda>e. e \<noteq> ScriptPanic) (next_script ev vm)"
proof -
  have saved: "holds_for (between vm) (\<lambda>e. e \<noteq> ScriptPanic) (bind_res (CheckErrorCondition False (next_idx vm)) (\<lambda>vm.
      if vm_savedFirstStack vm = [] then Inl ScriptPanic
      else bind_res (ParseScript (last (vm_savedFirstStack vm)))
        (\<lambda>pops. Inr (SetStack (butlast (vm_savedFirstStack vm)) (add_script pops vm)))))"
    if i: "vm_scriptIdx vm = 1" "vm_bip16 vm"
  proof -
    have s: "vm_savedFirstStack vm \<noteq> []" "small_stack (butlast (vm_savedFirstStack vm))"
        "length (butlast (vm_savedFirstStack vm)) \<le> stack_limit vm"
      using assms i by (auto simp: script_end_def stack_limit_def)
    have set: "between vm (SetStack (butlast (vm_savedFirstStack vm)) (add_script pops (next_idx vm\<lparr>vm_dstack := d\<rparr>)))" for pops d
      by (rule between_appended(1) [OF assms _ s(2,3)]) (simp add: i)
    show ?thesis
      using CheckErrorCondition_keeps [of "next_idx vm" False] s(1) ParseScript_calm [of "last (vm_savedFirstStack vm)"]
      by (cases "CheckErrorCondition False (next_idx vm)"; cases "ParseScript (last (vm_savedFirstStack vm))")
         (auto intro!: set)
  qed
  have "vm_txIdx vm < length (tx_TxIn (vm_tx vm))" using assms by (simp add: script_end_def)
  then show ?thesis
    using saved verifyWitnessProgram_between [OF assms, of ev] between_next [OF assms] between_saved [OF assms]
    by (auto simp: next_script_def Let_def input_witness_def GetStack_def)
qed

section \<open>Steps keep the invariant\<close>

text \<open>The engine after the bookkeeping: the empty script that is skipped, and the code separator.\<close>

lemma between_engine_ok:
  assumes "between vm vm'" "vm_txIdx vm < length (tx_TxIn (vm_tx vm))" "i = vm_scriptIdx vm' \<or> i = Suc (vm_scriptIdx vm')"
    and "vm_scripts vm' ! 1 = [] \<or> i = vm_scriptIdx vm' \<or> 2 \<le> vm_scriptIdx vm'"
  shows "engine_ok (vm'\<lparr>vm_scriptIdx := i, vm_lastCodeSep := 0\<rparr>)"
proof -
  have "\<not> isScriptHash []" by (simp add: isScriptHash_def)
  then show ?thesis
    using assms by (auto simp: engine_ok_def between_def within_def p2sh_ok_def same_input_def stack_limit_def input_witness_def)
qed

text \<open>The first opcode of a pay-to-script-hash script fails on an empty stack.\<close>

lemma hash160_needs_item:
  assumes "po_op pop = OP_HASH160" "vm_dstack vm = []" "vm_condStack vm = []" "executeOpcode ev pop vm = Inr vm'"
  shows False
  using assms by (auto simp: executeOpcode_def opfunc_def isBranchExecuting_def opcodeHash160_def pop_vm_def Let_def isConditional_def
      split: if_splits)

text \<open>
  A step moves on in the current script or goes to a later one. At the end of a script one more can be appended, once
  after the redeem script of pay-to-script-hash and once for the witness program, at fixed positions: \<open>scripts_left\<close>
  counts the scripts still to come with those two.
\<close>

definition scripts_left :: "engine \<Rightarrow> nat" where
  "scripts_left vm = length (vm_scripts vm) + (2 - (vm_scriptIdx vm - 1)) - vm_scriptIdx vm"

definition ops_left :: "engine \<Rightarrow> nat" where
  "ops_left vm = length (vm_scripts vm ! vm_scriptIdx vm) - vm_scriptOff vm"

abbreviation "moves_on \<equiv> measures [scripts_left, ops_left]"

lemma nth_in_drop: "l \<le> i \<Longrightarrow> i < length xs \<Longrightarrow> xs ! i \<in> set (drop l xs)"
  by (metis drop_drop hd_drop_conv_nth le_add_diff_inverse2 length_drop list.set_sel(1) drop_eq_Nil linorder_not_le in_set_dropD)

text \<open>What a step has after its opcode and the check of the stack size.\<close>

lemma opcode_of_step:
  assumes "hashes_fit ev" "engine_ok vm" "length (input_witness vm) < 2 ^ 63"
    and "vm_scriptIdx vm < length (vm_scripts vm)" "vm_scriptOff vm < length (vm_scripts vm ! vm_scriptIdx vm)"
    and "pop = vm_scripts vm ! vm_scriptIdx vm ! vm_scriptOff vm"
  shows "holds_for (\<lambda>vm1. after_op (vm\<lparr>vm_scriptOff := vm_scriptOff vm + 1\<rparr>) vm1 \<and>
      (vm_bip16 vm \<and> vm_scriptIdx vm = 1 \<longrightarrow> vm_savedFirstStack vm \<noteq> []))
    (\<lambda>e. e = ScriptPanic \<longrightarrow> checks_encoding vm) (executeOpcode ev pop (vm\<lparr>vm_scriptOff := vm_scriptOff vm + 1\<rparr>))"
proof -
  let ?vm = "vm\<lparr>vm_scriptOff := vm_scriptOff vm + 1\<rparr>"
  have at: "at_opcode pop ?vm"
    using assms(2,4-6) by (auto simp: at_opcode_def engine_ok_def intro: nth_in_drop)
  have w: "within ?vm ?vm" using assms(2) by (simp add: engine_ok_def within_def)
  have "length (vm_dstack vm) \<le> stack_limit vm" using assms(2) by (simp add: engine_ok_def)
  then have depth: "length (vm_dstack ?vm) < 2 ^ 63" using assms(3) by (simp add: stack_limit_def)
  have "checks_encoding ?vm = checks_encoding vm" by (simp add: checks_encoding_def hasFlag_def)
  then have ok: "holds_for (after_op ?vm) (\<lambda>e. e = ScriptPanic \<longrightarrow> checks_encoding vm) (executeOpcode ev pop ?vm)"
    using executeOpcode_ok [OF assms(1) w at depth] by simp
  have "vm_savedFirstStack vm \<noteq> []"
    if r: "executeOpcode ev pop ?vm = Inr vm1" and p: "vm_bip16 vm" "vm_scriptIdx vm = 1" for vm1
  proof (cases "vm_scriptOff vm = 0")
    case True
    then have "po_op pop = OP_HASH160" "vm_condStack vm = []" "vm_savedFirstStack vm = rev (vm_dstack vm)"
      using assms(2,6) p by (simp_all add: engine_ok_def p2sh_ok_def isScriptHash_def)
    then show ?thesis using hash160_needs_item [of pop ?vm ev vm1] r by auto
  next
    case False
    then show ?thesis using assms(2) p by (simp add: engine_ok_def p2sh_ok_def)
  qed
  then show ?thesis using ok by (cases "executeOpcode ev pop ?vm") auto
qed

definition step_ok :: "engine \<Rightarrow> bool \<times> engine \<Rightarrow> bool" where
  "step_ok vm r \<longleftrightarrow> engine_ok (snd r) \<and> same_input vm (snd r) \<and> (snd r, vm) \<in> moves_on"

text \<open>In the middle of a script.\<close>

lemma step_ok_inside:
  assumes "engine_ok vm" "after_op (vm\<lparr>vm_scriptOff := vm_scriptOff vm + 1\<rparr>) vm1"
    and "vm_scriptOff vm < length (vm_scripts vm ! vm_scriptIdx vm)"
    and "vm_bip16 vm \<and> vm_scriptIdx vm = 1 \<longrightarrow> vm_savedFirstStack vm \<noteq> []"
    and "length (vm_dstack vm1) + length (vm_astack vm1) \<le> 1000"
  shows "step_ok vm (b, vm1)"
proof -
  note f = after_op_fields [OF assms(2)]
  have w: "within vm1 vm1" using assms(2) by (simp add: after_op_def within_def)
  have s: "same_input vm vm1" using f(6) by (simp add: same_input_def)
  have c: "vm_lastCodeSep vm1 \<le> Suc (vm_scriptOff vm)" using assms(1,2) by (auto simp: after_op_def engine_ok_def)
  have "engine_ok vm1"
    using assms(1,4,5) w c s same_input_limit(1) [OF s] f
    by (auto simp: engine_ok_def p2sh_ok_def stack_limit_def same_input_def)
  moreover have "(vm1, vm) \<in> moves_on"
    using f assms(3) by (auto simp: scripts_left_def ops_left_def)
  ultimately show ?thesis using s by (simp add: step_ok_def)
qed

text \<open>At the end of one.\<close>

lemma step_ok_end:
  assumes "between vm1 vm2" "same_input vm vm1" "vm_txIdx vm < length (tx_TxIn (vm_tx vm))"
    and "vm_scriptIdx vm < length (vm_scripts vm)" "vm_scripts vm1 = vm_scripts vm" "vm_scriptIdx vm1 = vm_scriptIdx vm"
    and "i = vm_scriptIdx vm2 \<or> i = Suc (vm_scriptIdx vm2) \<and> vm_scripts vm2 ! vm_scriptIdx vm2 = []"
  shows "step_ok vm (b, vm2\<lparr>vm_scriptIdx := i, vm_lastCodeSep := 0\<rparr>)"
proof -
  have t: "vm_txIdx vm1 < length (tx_TxIn (vm_tx vm1))" using assms(2,3) by (simp add: same_input_def)
  have i2: "vm_scriptIdx vm2 = Suc (vm_scriptIdx vm)" using assms(1,6) by (simp add: between_def)
  have "engine_ok (vm2\<lparr>vm_scriptIdx := i, vm_lastCodeSep := 0\<rparr>)"
    using assms(7) i2 by (cases "vm_scriptIdx vm") (auto intro!: between_engine_ok [OF assms(1) t])
  moreover have "same_input vm (vm2\<lparr>vm_scriptIdx := i, vm_lastCodeSep := 0\<rparr>)"
    using assms(1,2) by (simp add: between_def same_input_def)
  moreover have "scripts_left (vm2\<lparr>vm_scriptIdx := i, vm_lastCodeSep := 0\<rparr>) < scripts_left vm"
    using assms(1,4-7) i2 by (auto simp: between_def scripts_left_def)
  ultimately show ?thesis by (simp add: step_ok_def)
qed

lemma Step_ok:
  assumes "hashes_fit ev" "engine_ok vm" "length (input_witness vm) < 2 ^ 63"
  shows "holds_for (step_ok vm) (\<lambda>e. e = ScriptPanic \<longrightarrow> checks_encoding vm) (Step ev vm)"
proof (cases "length (vm_scripts vm) \<le> vm_scriptIdx vm \<or> length (vm_scripts vm ! vm_scriptIdx vm) \<le> vm_scriptOff vm")
  case True
  then show ?thesis by (auto simp: Step_def)
next
  case False
  define pop where "pop = vm_scripts vm ! vm_scriptIdx vm ! vm_scriptOff vm"
  let ?vm = "vm\<lparr>vm_scriptOff := vm_scriptOff vm + 1\<rparr>"
  have r: "vm_scriptIdx vm < length (vm_scripts vm)" "vm_scriptOff vm < length (vm_scripts vm ! vm_scriptIdx vm)"
    using False by auto
  note op = opcode_of_step [OF assms r pop_def]
  have tx: "vm_txIdx vm < length (tx_TxIn (vm_tx vm))" using assms(2) by (simp add: engine_ok_def)
  show ?thesis
  proof (cases "executeOpcode ev pop ?vm")
    case (Inl e)
    then show ?thesis using op False by (simp add: Step_def Let_def pop_def)
  next
    case (Inr vm1)
    then have a: "after_op ?vm vm1" and saved: "vm_bip16 vm \<and> vm_scriptIdx vm = 1 \<longrightarrow> vm_savedFirstStack vm \<noteq> []"
      using op by simp_all
    note f = after_op_fields [OF a]
    have s: "same_input vm vm1" using f(6) by (simp add: same_input_def)
    have inside: "step_ok vm (b, vm1)" if "length (vm_dstack vm1) + length (vm_astack vm1) \<le> 1000" for b
      by (rule step_ok_inside [OF assms(2) a r(2) saved that])
    have "end": "holds_for (step_ok vm) (\<lambda>e. e = ScriptPanic \<longrightarrow> checks_encoding vm)
        (bind_res (next_script ev vm1) (\<lambda>vm.
          let vm = (skip_empty vm)\<lparr>vm_lastCodeSep := 0\<rparr> in Inr (length (vm_scripts vm) \<le> vm_scriptIdx vm, vm)))"
      if "length (vm_dstack vm1) + length (vm_astack vm1) \<le> 1000" "vm_condStack vm1 = []"
    proof -
      have e: "script_end vm1"
        using assms(2) a that s f saved tx
        by (auto simp: script_end_def engine_ok_def p2sh_ok_def after_op_def within_def same_input_def)
      show ?thesis
      proof (cases "next_script ev vm1")
        case (Inl e)
        then show ?thesis using next_script_between [OF e, of ev] by simp
      next
        case (Inr vm2)
        then have b: "between vm1 vm2" using next_script_between [OF e, of ev] by simp
        have "step_ok vm (b, vm2\<lparr>vm_scriptIdx := i, vm_lastCodeSep := 0\<rparr>)"
          if "i = vm_scriptIdx vm2 \<or> i = Suc (vm_scriptIdx vm2) \<and> vm_scripts vm2 ! vm_scriptIdx vm2 = []" for i b
          using step_ok_end [OF b s tx r(1) _ _ that] f by simp
        note next_ok = this
        have "vm_scriptOff vm2 = 0" using b by (simp add: between_def)
        then show ?thesis
          using next_ok [of "vm_scriptIdx vm2"] next_ok [of "Suc (vm_scriptIdx vm2)"] by (auto simp: Inr Let_def skip_empty_def)
      qed
    qed
    show ?thesis
      using False Inr inside "end" f
      by (auto simp: Step_def Let_def pop_def [symmetric] maxStackSize_def Depth_def)
  qed
qed

section \<open>Construction\<close>

lemma NewEngine_ok:
  assumes "NewEngine scriptPubKey tx txIdx flags hashCache inputAmount = Inr vm"
  shows "engine_ok vm" "vm_tx vm = tx" "vm_txIdx vm = nat txIdx" "vm_flags vm = flags"
proof -
  define ok where "ok = (\<lambda>vm. engine_ok vm \<and> vm_tx vm = tx \<and> vm_txIdx vm = nat txIdx \<and> vm_flags vm = flags)"
  have new: "ok (new_engine [a, b] [sigPops, pkPops] tx (nat txIdx) flags hashCache inputAmount\<lparr>vm_bip16 := p2sh, vm_witness := w,
      vm_witnessVersion := v, vm_witnessProgram := p\<rparr>)"
    if "\<not> (txIdx < 0 \<or> int (length (tx_TxIn tx)) \<le> txIdx)" "p2sh \<longrightarrow> isScriptHash pkPops" for a b sigPops pkPops p2sh w v p
    using that by (auto simp: ok_def engine_ok_def new_engine_def within_def p2sh_ok_def stack_limit_def)
  have plain: "ok (new_engine [a, b] [sigPops, pkPops] tx (nat txIdx) flags hashCache inputAmount\<lparr>vm_bip16 := p2sh\<rparr>)"
    if "\<not> (txIdx < 0 \<or> int (length (tx_TxIn tx)) \<le> txIdx)" "p2sh \<longrightarrow> isScriptHash pkPops" for a b sigPops pkPops p2sh
    using new [OF that, where a = a and b = b and sigPops = sigPops and w = False and v = 0 and p = "[]"]
    by (simp add: new_engine_def)
  have "ok vm"
    using assms unfolding NewEngine_def Let_def
    by (auto simp: tx_input_def bind_res_eq_Inr split: if_splits option.splits intro!: new plain)
  then show "engine_ok vm" "vm_tx vm = tx" "vm_txIdx vm = nat txIdx" "vm_flags vm = flags"
    by (simp_all add: ok_def)
qed


abbreviation "calm \<equiv> holds_for (\<lambda>x. True) (\<lambda>e. e \<noteq> ScriptPanic)"




section \<open>Every run ends\<close>

lemma run_ok:
  assumes "hashes_fit ev" "engine_ok vm" "length (input_witness vm) < 2 ^ 63"
  shows "\<exists>r. run ev vm = Some r \<and> holds_for engine_ok (\<lambda>e. e = ScriptPanic \<longrightarrow> checks_encoding vm) r"
proof -
  have wf: "wf moves_on" by simp
  show ?thesis
    using assms(2,3)
  proof (induction vm rule: wf_induct_rule [OF wf])
    case (1 vm)
    note step = Step_ok [OF assms(1) "1.prems"]
    show ?case
    proof (cases "Step ev vm")
      case (Inl e)
      then show ?thesis using step by (subst run.simps) simp
    next
      case (Inr r)
      then have s: "engine_ok (snd r)" "same_input vm (snd r)" "(snd r, vm) \<in> moves_on"
        using step by (simp_all add: step_ok_def)
      have w: "input_witness (snd r) = input_witness vm" using s(2) by (simp add: same_input_def input_witness_def)
      show ?thesis
      proof (cases "fst r")
        case True
        then show ?thesis using Inr s(1) by (subst run.simps) simp
      next
        case False
        have "\<exists>q. run ev (snd r) = Some q \<and> holds_for engine_ok (\<lambda>e. e = ScriptPanic \<longrightarrow> checks_encoding (snd r)) q"
          using "1.IH" [OF s(3,1)] "1.prems"(2) w by simp
        then show ?thesis
          using Inr False same_input_limit(2) [OF s(2)] by (subst run.simps) simp
      qed
    qed
  qed
qed

lemma Execute_ok:
  assumes "hashes_fit ev" "engine_ok vm" "length (input_witness vm) < 2 ^ 63"
  shows "\<exists>r. Execute ev vm = Some r \<and> (r = Inl ScriptPanic \<longrightarrow> checks_encoding vm)"
proof -
  obtain r where r: "run ev vm = Some r" "holds_for engine_ok (\<lambda>e. e = ScriptPanic \<longrightarrow> checks_encoding vm) r"
    using run_ok [OF assms] by blast
  have "CheckErrorCondition True vm' \<noteq> Inl ScriptPanic" for vm'
    using CheckErrorCondition_keeps [of vm' True] by auto
  then show ?thesis using r by (cases r) (auto simp: Execute_def)
qed

text \<open>C23: Every run of an engine the constructor builds ends, with an error or an engine, whatever the scripts are:
  the loop over the opcodes and the scripts that are added at the end of others do not go on for ever.\<close>

theorem script_run_ends:
  assumes "hashes_fit ev" "NewEngine scriptPubKey tx txIdx flags hashCache inputAmount = Inr vm"
    and "length (ti_Witness (tx_TxIn tx ! nat txIdx)) < 2 ^ 63"
  shows "\<exists>r. Execute ev vm = Some r"
  using Execute_ok [OF assms(1) NewEngine_ok(1) [OF assms(2)]] assms(3) NewEngine_ok(2,3) [OF assms(2)]
  by (auto simp: input_witness_def)


section \<open>The limits\<close>

inductive reaches :: "script_env \<Rightarrow> engine \<Rightarrow> engine \<Rightarrow> bool" for ev vm0 where
  start: "reaches ev vm0 vm0"
| step: "reaches ev vm0 vm \<Longrightarrow> Step ev vm = Inr (finished, vm') \<Longrightarrow> reaches ev vm0 vm'"

lemma reaches_ok:
  assumes "hashes_fit ev" "reaches ev vm0 vm" "engine_ok vm0" "length (input_witness vm0) < 2 ^ 63"
  shows "engine_ok vm \<and> input_witness vm = input_witness vm0"
  using assms(2)
proof induction
  case start
  then show ?case using assms(3) by simp
next
  case (step vm finished vm')
  then have "step_ok vm (finished, vm')" using Step_ok [OF assms(1), of vm] assms(4) by simp
  then show ?case using step.IH by (simp add: step_ok_def same_input_def input_witness_def)
qed

text \<open>C25: Every engine a run passes through keeps the consensus limits: no element of a stack is longer than 520
  bytes, no more than 201 operations are counted in a script, and inside a script the two stacks hold at most 1000
  elements.\<close>

theorem engine_limits:
  assumes "hashes_fit ev" "NewEngine scriptPubKey tx txIdx flags hashCache inputAmount = Inr vm0"
    and "length (ti_Witness (tx_TxIn tx ! nat txIdx)) < 2 ^ 63" "reaches ev vm0 vm"
  shows "list_all (\<lambda>x. length x \<le> MaxScriptElementSize) (vm_dstack vm @ vm_astack vm) \<and> vm_numOps vm \<le> MaxOpsPerScript \<and>
    (0 < vm_scriptOff vm \<longrightarrow> int (length (vm_dstack vm @ vm_astack vm)) \<le> maxStackSize)"
proof -
  have "engine_ok vm"
    using reaches_ok [OF assms(1,4) NewEngine_ok(1) [OF assms(2)]] assms(3) NewEngine_ok(2,3) [OF assms(2)]
    by (simp add: input_witness_def)
  then show ?thesis
    by (auto simp: engine_ok_def within_def small_stack_def list_all_iff maxStackSize_def)
qed

section \<open>Signature encodings\<close>

text \<open>With one of the flags that look at signature encodings, a signature whose R reaches to its last byte but
  one makes the check read past its end: the test before it lets the length byte of S be at the length of the
  signature. Checking a signature then panics, whatever key it is checked against.\<close>

theorem short_signature_panics:
  assumes "checks_encoding vm" "vm_dstack vm = pk # (sig @ [hashType]) # s"
    and "8 \<le> length sig" "length sig \<le> 72" "sig ! 0 = 0x30" "unat (sig ! 1) = length sig - 2" "unat (sig ! 3) + 5 = length sig"
    and "checkHashTypeEncoding vm (ucast hashType) = None"
  shows "opcodeCheckSig ev vm = Inl ScriptPanic"
proof -
  let ?vm = "vm\<lparr>vm_dstack := s\<rparr>"
  have "checkSignatureEncoding ?vm sig = Some ScriptPanic"
    using assms(1,3-7) by (simp add: checkSignatureEncoding_def checks_encoding_def hasFlag_def Let_def)
  moreover have "checkHashTypeEncoding ?vm (ucast hashType) = None"
    using assms(8) by (simp add: checkHashTypeEncoding_def hasFlag_def)
  ultimately show ?thesis
    using assms(2) by (simp add: opcodeCheckSig_def pop_vm_def guard_res_def Let_def)
qed

section \<open>An example\<close>

text \<open>A concrete environment and transaction, for evaluating the engine.\<close>

definition sample_env :: script_env where
  "sample_env = \<lparr>se_crypto = \<lparr>cr_Sha256 = (\<lambda>x. replicate 32 0), cr_DoubleHash = (\<lambda>x. replicate 32 0),
       cr_Hash160 = (\<lambda>x. replicate 20 0), cr_CombinePubs = (\<lambda>x y. x), cr_AddPubsEZ = (\<lambda>x y. x), cr_PubFromHash = (\<lambda>x. x)\<rparr>,
     se_Ripemd160 = (\<lambda>x. replicate 20 0), se_Sha1 = (\<lambda>x. replicate 20 0),
     se_ParsePubKey = (\<lambda>k. if length k = 33 then Some (uint (hd k), 0) else None),
     se_ParseDERSignature = (\<lambda>s. Some (int (length s), 1)), se_ParseSignature = (\<lambda>s. Some (int (length s), 1)),
     se_Verify = (\<lambda>s h k. fst s = fst k), se_cached = (\<lambda>h s k. False)\<rparr>"

definition sample_tx :: "bytes list \<Rightarrow> msg_tx" where
  "sample_tx w = \<lparr>tx_Version = 2, tx_TxIn = [\<lparr>ti_PreviousOutPoint = \<lparr>op_Hash = replicate 32 0, op_Index = 0\<rparr>,
     ti_SignatureScript = [], ti_Witness = w, ti_Sequence = 0\<rparr>], tx_TxOut = [], tx_LockTime = 0\<rparr>"

lemma sample_fits: "hashes_fit sample_env"
  by (simp add: hashes_fit_def sample_env_def MaxScriptElementSize_def)

definition sample_engine :: engine where
  "sample_engine = new_engine [[], [OP_1]] [[], [\<lparr>po_op = OP_1, po_data = []\<rparr>]] (sample_tx []) 0 0 None 0"

lemma sample_new: "NewEngine [OP_1] (sample_tx []) 0 0 None 0 = Inr sample_engine"
  by (simp add: NewEngine_def tx_input_def sample_tx_def script_flags load_script_def maxScriptSize_def ParseScript_def parse_plain
      opcode_length_def add_pop_def sample_engine_def Let_def new_engine_def)

theorem script_run_ends_witness: "\<exists>r. Execute sample_env sample_engine = Some r"
  by (rule script_run_ends [OF sample_fits sample_new]) (simp add: sample_tx_def)


lemma sample_step: "\<exists>vm. Step sample_env sample_engine = Inr (True, vm) \<and> vm_dstack vm = [[1]]"
proof -
  have "num_Bytes 1 = [1]" by (simp add: num_Bytes_def le_min.simps)
  then show ?thesis
    by (simp add: Step_def sample_engine_def new_engine_def executeOpcode_def opfunc_def isDisabled_def alwaysIllegal_def
        isConditional_def isBranchExecuting_def opcodeN_def push_int_def push_vm_def MaxScriptElementSize_def Let_def maxStackSize_def
        Depth_def next_script_def skip_empty_def)
qed

theorem engine_limits_witness:
  "\<exists>vm. reaches sample_env sample_engine vm \<and> vm_dstack vm = [[1]] \<and> vm_numOps vm \<le> MaxOpsPerScript"
proof -
  obtain vm where vm: "Step sample_env sample_engine = Inr (True, vm)" "vm_dstack vm = [[1]]" using sample_step by blast
  have "reaches sample_env sample_engine vm" using vm(1) by (rule reaches.step [OF reaches.start])
  then show ?thesis
    using vm(2) engine_limits [OF sample_fits sample_new, of vm] by (auto simp: sample_tx_def)
qed

text \<open>A signature of eight bytes with an R of three, under the strict encoding flag.\<close>

theorem short_signature_panics_witness:
  "opcodeCheckSig sample_env (sample_engine\<lparr>vm_flags := ScriptVerifyStrictEncoding,
     vm_dstack := [replicate 33 2, [0x30, 6, 2, 3, 1, 1, 1, 2, 1]]\<rparr>) = Inl ScriptPanic"
  by (rule short_signature_panics [where sig = "[0x30, 6, 2, 3, 1, 1, 1, 2]" and hashType = 1 and s = "[]" and pk = "replicate 33 2"])
     (simp_all add: checks_encoding_def hasFlag_def checkHashTypeEncoding_def script_flags sighash_types Let_def)

end
