(* ===== verification/TxSpend.thy ===== *)
theory TxSpend
  imports TxEngineRun Commitment
begin

text \<open>
  Spending the outputs of a channel: what the script engine accepts for the witness scripts of \<open>lnlib\<close>, run as the
  block chain code runs it (\<open>btcutil/blockchain/scriptval.go\<close>). The scripts are executed symbolically, for all keys,
  signatures and transactions.
\<close>

section \<open>Validating an input\<close>

text \<open>The middle part of \<open>validateHandler\<close>: the engine for an input, and its run.\<close>

definition validate_input ::
  "script_env \<Rightarrow> bytes \<Rightarrow> msg_tx \<Rightarrow> int \<Rightarrow> u32 \<Rightarrow> tx_sig_hashes option \<Rightarrow> int \<Rightarrow> (script_error + engine) option" where
  "validate_input ev pkScript tx txIdx flags hashCache inputAmount =
     (case NewEngine pkScript tx txIdx flags hashCache inputAmount of
        Inl e \<Rightarrow> Some (Inl e)
      | Inr vm \<Rightarrow> Execute ev vm)"

text \<open>The flags \<open>checkConnectBlock\<close> sets for a block of version 4, less the one for strict DER signatures.\<close>

abbreviation "spend_flags \<equiv> ScriptBip16 OR ScriptVerifyCheckLockTimeVerify OR ScriptVerifyWitness OR ScriptStrictMultiSig"

definition accepts :: "(script_error + engine) option \<Rightarrow> bool" where
  "accepts r = (case r of Some (Inr vm) \<Rightarrow> True | _ \<Rightarrow> False)"

lemma accepts_simps [simp]: "accepts (Some (Inr vm))" "\<not> accepts (Some (Inl e))"
  by (simp_all add: accepts_def)

section \<open>The start of a witness script\<close>

text \<open>The engine once the witness script of an output is set up, at an opcode of it.\<close>

definition witness_engine ::
  "parsed_opcode list \<Rightarrow> bytes \<Rightarrow> msg_tx \<Rightarrow> nat \<Rightarrow> tx_sig_hashes option \<Rightarrow> int \<Rightarrow> nat \<Rightarrow> bytes list \<Rightarrow> cond list \<Rightarrow> nat \<Rightarrow> engine" where
  "witness_engine pops h tx i hc amt off d c n =
     \<lparr>vm_scripts = [[], [\<lparr>po_op = OP_0, po_data = []\<rparr>, \<lparr>po_op = OP_DATA_32, po_data = h\<rparr>], pops], vm_scriptIdx = 2,
      vm_scriptOff = off, vm_lastCodeSep = 0, vm_dstack = d, vm_astack = [], vm_verifyMinimalData = False,
      vm_tx = tx, vm_txIdx = i, vm_condStack = c, vm_numOps = n, vm_flags = spend_flags, vm_hashCache = hc,
      vm_bip16 = False, vm_savedFirstStack = [], vm_witness = True, vm_witnessVersion = 0, vm_witnessProgram = h,
      vm_inputAmount = amt\<rparr>"

lemma parse_P2WSHify:
  assumes "length (cr_Sha256 cr script) = 32"
  shows "ParseScript (P2WSHify cr script) = Inr [\<lparr>po_op = OP_0, po_data = []\<rparr>, \<lparr>po_op = OP_DATA_32, po_data = cr_Sha256 cr script\<rparr>]"
    and "length (P2WSHify cr script) = 34"
proof -
  let ?items = "[Op OP_0, Data (cr_Sha256 cr script)]"
  have d: "addData_bytes (cr_Sha256 cr script) = OP_DATA_32 # cr_Sha256 cr script"
    using assms by (simp add: addData_bytes_def Let_def)
  have wf: "list_all wf_item ?items" "length (concat (map item_bytes ?items)) \<le> maxScriptSize"
    using assms d by (simp_all add: opcode_length_def MaxScriptElementSize_def maxScriptSize_def)
  show "ParseScript (P2WSHify cr script) = Inr [\<lparr>po_op = OP_0, po_data = []\<rparr>, \<lparr>po_op = OP_DATA_32, po_data = cr_Sha256 cr script\<rparr>]"
    using parse_built [OF wf] assms by (simp add: P2WSHify_def data_pop_def)
  show "length (P2WSHify cr script) = 34"
    using build_script_bytes [OF wf] assms d by (simp add: P2WSHify_def)
qed

lemma spend_flag_tests:
  "spend_flags AND ScriptBip16 = ScriptBip16" "spend_flags AND ScriptVerifyWitness = ScriptVerifyWitness"
  "spend_flags AND ScriptVerifyCleanStack \<noteq> ScriptVerifyCleanStack" "spend_flags AND ScriptVerifySigPushOnly \<noteq> ScriptVerifySigPushOnly"
  "spend_flags AND ScriptVerifyMinimalData \<noteq> ScriptVerifyMinimalData"
  "spend_flags AND ScriptDiscourageUpgradableNops \<noteq> ScriptDiscourageUpgradableNops"
  "spend_flags AND ScriptVerifyDERSignatures \<noteq> ScriptVerifyDERSignatures" "spend_flags AND ScriptVerifyLowS \<noteq> ScriptVerifyLowS"
  "spend_flags AND ScriptVerifyStrictEncoding \<noteq> ScriptVerifyStrictEncoding"
  "spend_flags AND ScriptStrictMultiSig = ScriptStrictMultiSig"
  "spend_flags AND ScriptVerifyCheckLockTimeVerify = ScriptVerifyCheckLockTimeVerify"
  by (simp_all add: script_flags)

lemma run_next: "Step ev vm = Inr (False, vm') \<Longrightarrow> run ev vm = run ev vm'"
  by (subst run.simps) simp

lemma run_last: "Step ev vm = Inr (True, vm') \<Longrightarrow> run ev vm = Some (Inr vm')"
  by (subst run.simps) simp

lemma run_fails: "Step ev vm = Inl e \<Longrightarrow> run ev vm = Some (Inl e)"
  by (subst run.simps) simp

text \<open>From the construction of the engine to the first opcode of the witness script.\<close>

lemma witness_start:
  assumes h: "length (cr_Sha256 (se_crypto ev) script) = 32" and pops: "ParseScript script = Inr pops" "pops \<noteq> []"
    and i: "i < length (tx_TxIn tx)" "ti_SignatureScript (tx_TxIn tx ! i) = []" "ti_Witness (tx_TxIn tx ! i) = w @ [script]"
    and small: "list_all (\<lambda>x. length x \<le> MaxScriptElementSize) (w @ [script])"
  shows "validate_input ev (P2WSHify (se_crypto ev) script) tx (int i) spend_flags hc amt =
    map_option (\<lambda>r. bind_res r (CheckErrorCondition True))
      (run ev (witness_engine pops (cr_Sha256 (se_crypto ev) script) tx i hc amt 0 (rev w) [] 0))"
proof -
  let ?h = "cr_Sha256 (se_crypto ev) script" and ?pk = "P2WSHify (se_crypto ev) script"
  let ?pkPops = "[\<lparr>po_op = OP_0, po_data = []\<rparr>, \<lparr>po_op = OP_DATA_32, po_data = ?h\<rparr>]"
  note parse = parse_P2WSHify [OF h]
  have wp: "IsWitnessProgram ?pk"
    using parse h by (simp add: IsWitnessProgram_def on_parsed_def isWitnessProgram_def isSmallInt_def canonicalPush_def)
  have info: "ExtractWitnessProgramInfo ?pk = Inr (0, ?h)"
    by (simp add: ExtractWitnessProgramInfo_def parse asSmallInt_def)
  define vm0 where "vm0 = new_engine [[], ?pk] [[], ?pkPops] tx i spend_flags hc amt\<lparr>vm_bip16 := False,
    vm_witness := True, vm_witnessVersion := 0, vm_witnessProgram := ?h\<rparr>"
  have new: "NewEngine ?pk tx (int i) spend_flags hc amt = Inr vm0"
    using i parse by (simp add: NewEngine_def tx_input_def Let_def spend_flag_tests load_script_def ParseScript_def [of "[]"] witness_program_def wp info
        isScriptHash_def maxScriptSize_def vm0_def)
  define vm1 where "vm1 = vm0\<lparr>vm_scriptOff := 1, vm_dstack := [[]]\<rparr>"
  have s1: "Step ev vm0 = Inr (False, vm1)"
    by (simp add: Step_def vm0_def vm1_def new_engine_def executeOpcode_def opfunc_def opcodeFalse_def push_vm_def isDisabled_def
        alwaysIllegal_def isConditional_def isBranchExecuting_def maxStackSize_def Depth_def Let_def spend_flag_tests MaxScriptElementSize_def)
  have s2: "Step ev vm1 = Inr (False, witness_engine pops ?h tx i hc amt 0 (rev w) [] 0)"
    using h i pops small
    by (simp add: Step_def vm0_def vm1_def new_engine_def executeOpcode_def opfunc_def opcodePushData_def push_vm_def isDisabled_def
        alwaysIllegal_def isConditional_def isBranchExecuting_def maxStackSize_def Depth_def Let_def spend_flag_tests
        MaxScriptElementSize_def next_script_def verifyWitnessProgram_def list_ex_iff list_all_iff SetStack_def add_script_def
        skip_empty_def witness_engine_def not_less)
  show ?thesis
    by (simp add: validate_input_def new Execute_def run_next [OF s1] run_next [OF s2])
qed

section \<open>Steps in a witness script\<close>

lemma witness_engine_updates [simp]:
  "witness_engine pops h tx i hc amt off d c n\<lparr>vm_dstack := d'\<rparr> = witness_engine pops h tx i hc amt off d' c n"
  "witness_engine pops h tx i hc amt off d c n\<lparr>vm_condStack := c'\<rparr> = witness_engine pops h tx i hc amt off d c' n"
  "witness_engine pops h tx i hc amt off d c n\<lparr>vm_numOps := n'\<rparr> = witness_engine pops h tx i hc amt off d c n'"
  "witness_engine pops h tx i hc amt off d c n\<lparr>vm_scriptOff := off'\<rparr> = witness_engine pops h tx i hc amt off' d c n"
  "vm_dstack (witness_engine pops h tx i hc amt off d c n) = d"
  "vm_condStack (witness_engine pops h tx i hc amt off d c n) = c"
  "vm_numOps (witness_engine pops h tx i hc amt off d c n) = n"
  "vm_scriptOff (witness_engine pops h tx i hc amt off d c n) = off"
  "vm_verifyMinimalData (witness_engine pops h tx i hc amt off d c n) = False"
  "vm_flags (witness_engine pops h tx i hc amt off d c n) = spend_flags"
  "vm_witness (witness_engine pops h tx i hc amt off d c n) = True"
  "vm_hashCache (witness_engine pops h tx i hc amt off d c n) = hc" "vm_tx (witness_engine pops h tx i hc amt off d c n) = tx"
  "vm_txIdx (witness_engine pops h tx i hc amt off d c n) = i" "vm_inputAmount (witness_engine pops h tx i hc amt off d c n) = amt"
  "subScript (witness_engine pops h tx i hc amt off d c n) = Inr pops"
  by (simp_all add: witness_engine_def subScript_def)

lemma witness_step:
  assumes "executeOpcode ev pop (witness_engine pops h tx i hc amt off' d c n) = Inr (witness_engine pops h tx i hc amt off' d' c' n')"
    and "pops ! off = pop" "off' = Suc off" "off' < length pops" "length d' \<le> 1000"
  shows "run ev (witness_engine pops h tx i hc amt off d c n) = run ev (witness_engine pops h tx i hc amt off' d' c' n')"
proof (rule run_next)
  have f: "vm_scripts (witness_engine pops h tx i hc amt off d c n) ! vm_scriptIdx (witness_engine pops h tx i hc amt off d c n) = pops"
    "vm_scriptIdx (witness_engine pops h tx i hc amt off d c n) < length (vm_scripts (witness_engine pops h tx i hc amt off d c n))"
    "vm_astack (witness_engine pops h tx i hc amt off d c n) = []" for off d c n
    by (simp_all add: witness_engine_def)
  show "Step ev (witness_engine pops h tx i hc amt off d c n) = Inr (False, witness_engine pops h tx i hc amt off' d' c' n')"
    using assms f by (simp add: Step_def Let_def maxStackSize_def Depth_def not_le [symmetric])
qed

text \<open>The last opcode: the spend is accepted when exactly one element is left and it is true.\<close>

lemma witness_last:
  assumes "executeOpcode ev (pops ! off) (witness_engine pops h tx i hc amt (off + 1) d c n) =
      Inr (witness_engine pops h tx i hc amt (off + 1) d' [] n')"
    and "off + 1 = length pops" "length d' \<le> 1000"
  shows "accepts (map_option (\<lambda>r. bind_res r (CheckErrorCondition True)) (run ev (witness_engine pops h tx i hc amt off d c n))) \<longleftrightarrow>
    (\<exists>x. d' = [x] \<and> asBool x)"
proof -
  let ?vm = "witness_engine pops h tx i hc amt off d c n"
  define vm2 where "vm2 = (witness_engine pops h tx i hc amt 0 d' [] 0)\<lparr>vm_scriptIdx := 3\<rparr>"
  have "next_script ev (witness_engine pops h tx i hc amt (off + 1) d' [] n') = Inr vm2"
    by (simp add: next_script_def Let_def witness_engine_def vm2_def)
  moreover have "skip_empty vm2 = vm2" "vm2\<lparr>vm_lastCodeSep := 0\<rparr> = vm2" "length (vm_scripts vm2) \<le> vm_scriptIdx vm2"
    by (simp_all add: skip_empty_def witness_engine_def vm2_def)
  moreover have f: "vm_scripts (witness_engine pops h tx i hc amt off d c n) ! vm_scriptIdx (witness_engine pops h tx i hc amt off d c n) = pops"
    "vm_scriptIdx (witness_engine pops h tx i hc amt off d c n) < length (vm_scripts (witness_engine pops h tx i hc amt off d c n))"
    "vm_astack (witness_engine pops h tx i hc amt off d c n) = []" for off d c n
    by (simp_all add: witness_engine_def)
  moreover have "off < length pops" using assms(2) by simp
  ultimately have s: "Step ev ?vm = Inr (True, vm2)"
    using assms by (simp add: Step_def Let_def maxStackSize_def Depth_def not_le [symmetric])
  have e: "vm_scriptIdx vm2 = 3" "length (vm_scripts vm2) = 3" "vm_witness vm2" "vm_dstack vm2 = d'"
    by (simp_all add: vm2_def witness_engine_def)
  show ?thesis
    by (cases d') (auto simp: run_last [OF s] CheckErrorCondition_def e Depth_def pop_bool_def)
qed

section \<open>Opcodes of the channel scripts\<close>

lemmas exec_defs = executeOpcode_def opfunc_def isDisabled_def alwaysIllegal_def isConditional_def isBranchExecuting_def
  MaxScriptElementSize_def MaxOpsPerScript_def Let_def

abbreviation executing :: "cond list \<Rightarrow> bool" where "executing c \<equiv> c = [] \<or> hd c = OpCondTrue"

lemma exec_if:
  "n < 201 \<Longrightarrow> executing c \<Longrightarrow> executeOpcode ev \<lparr>po_op = OP_IF, po_data = []\<rparr> (witness_engine pops h tx i hc amt off (x # d) c n) =
    Inr (witness_engine pops h tx i hc amt off d ((if asBool x then OpCondTrue else OpCondFalse) # c) (n + 1))"
  by (auto simp: exec_defs opcodeIf_def pop_bool_def push_cond_def)

lemma exec_else:
  "n < 201 \<Longrightarrow> executeOpcode ev \<lparr>po_op = OP_ELSE, po_data = []\<rparr> (witness_engine pops h tx i hc amt off d (c # cs) n) =
    Inr (witness_engine pops h tx i hc amt off d (flip_cond c # cs) (n + 1))"
  by (simp add: exec_defs opcodeElse_def)

lemma exec_endif:
  "n < 201 \<Longrightarrow> executeOpcode ev \<lparr>po_op = OP_ENDIF, po_data = []\<rparr> (witness_engine pops h tx i hc amt off d (c # cs) n) =
    Inr (witness_engine pops h tx i hc amt off d cs (n + 1))"
  by (simp add: exec_defs opcodeEndif_def)

lemma exec_nop3:
  "n < 201 \<Longrightarrow> executeOpcode ev \<lparr>po_op = OP_NOP3, po_data = []\<rparr> (witness_engine pops h tx i hc amt off d c n) =
    Inr (witness_engine pops h tx i hc amt off d c (n + 1))"
  by (simp add: exec_defs opcodeNop_def hasFlag_def spend_flag_tests)

lemma exec_drop:
  "n < 201 \<Longrightarrow> c = [] \<or> hd c = OpCondTrue \<Longrightarrow>
    executeOpcode ev \<lparr>po_op = OP_DROP, po_data = []\<rparr> (witness_engine pops h tx i hc amt off (x # d) c n) =
    Inr (witness_engine pops h tx i hc amt off d c (n + 1))"
  by (auto simp: exec_defs opcodeDrop_def on_dstack_def DropN_def)

lemma exec_data33:
  "length key = 33 \<Longrightarrow> executeOpcode ev \<lparr>po_op = 33, po_data = key\<rparr> (witness_engine pops h tx i hc amt off d c n) =
    Inr (witness_engine pops h tx i hc amt off (if c = [] \<or> hd c = OpCondTrue then key # d else d) c n)"
  by (auto simp: exec_defs opcodePushData_def push_vm_def)

lemma exec_skipped:
  "c \<noteq> [] \<Longrightarrow> hd c \<noteq> OpCondTrue \<Longrightarrow> n < 201 \<Longrightarrow> executeOpcode ev \<lparr>po_op = OP_DROP, po_data = []\<rparr> (witness_engine pops h tx i hc amt off d c n) =
    Inr (witness_engine pops h tx i hc amt off d c (n + 1))"
  by (simp add: exec_defs)

text \<open>A push of any kind puts some element on the stack, in an executing branch.\<close>

lemma exec_small:
  assumes "po_op pop \<le> OP_16" "po_op pop \<noteq> OP_RESERVED" "length (po_data pop) \<le> MaxScriptElementSize"
  obtains x where "\<And>off d c n. executeOpcode ev pop (witness_engine pops h tx i hc amt off d c n) =
    Inr (witness_engine pops h tx i hc amt off (if c = [] \<or> hd c = OpCondTrue then x # d else d) c n)"
proof -
  have op: "po_op pop \<notin> set [OP_CAT, OP_SUBSTR, OP_LEFT, OP_RIGHT, OP_INVERT, OP_AND, OP_OR, OP_XOR,
     OP_2MUL, OP_2DIV, OP_MUL, OP_DIV, OP_MOD, OP_LSHIFT, OP_RSHIFT, OP_VERIF, OP_VERNOTIF, OP_IF, OP_NOTIF, OP_ELSE, OP_ENDIF]"
  proof
    assume "po_op pop \<in> set [OP_CAT, OP_SUBSTR, OP_LEFT, OP_RIGHT, OP_INVERT, OP_AND, OP_OR, OP_XOR,
     OP_2MUL, OP_2DIV, OP_MUL, OP_DIV, OP_MOD, OP_LSHIFT, OP_RSHIFT, OP_VERIF, OP_VERNOTIF, OP_IF, OP_NOTIF, OP_ELSE, OP_ENDIF]"
    then have "OP_16 < po_op pop" by auto
    then show False using assms(1) by simp
  qed
  have "\<exists>x. opfunc ev pop = push_vm x"
  proof -
    consider "po_op pop = OP_0" | "po_op pop \<noteq> OP_0" "po_op pop \<le> OP_PUSHDATA4" | "OP_1 \<le> po_op pop" "\<not> po_op pop \<le> OP_PUSHDATA4"
      | "po_op pop = OP_1NEGATE"
      using assms(2) by (fastforce simp: word_le_nat_alt word_unat_eq_iff)
    then show ?thesis
    proof cases
      case 1
      then have "opfunc ev pop = push_vm []" by (simp add: opfunc_def opcodeFalse_def)
      then show ?thesis by blast
    next
      case 2
      then have "opfunc ev pop = push_vm (po_data pop)" by (simp add: opfunc_def opcodePushData_def)
      then show ?thesis by blast
    next
      case 3
      then have "po_op pop \<noteq> OP_0" by auto
      then have "opfunc ev pop = push_vm (num_Bytes (uint (po_op pop - (OP_1 - 1))))"
        using 3 assms(1) unfolding opfunc_def Let_def by (simp only: if_False if_True simp_thms opcodeN_def push_int_def)
      then show ?thesis by blast
    next
      case 4
      then have "opfunc ev pop = push_vm (num_Bytes (- 1))" by (simp add: opfunc_def opcode1Negate_def push_int_def)
      then show ?thesis by blast
    qed
  qed
  then obtain x where "opfunc ev pop = push_vm x" ..
  then have "executeOpcode ev pop (witness_engine pops h tx i hc amt off d c n) =
    Inr (witness_engine pops h tx i hc amt off (if c = [] \<or> hd c = OpCondTrue then x # d else d) c n)" for off d c n
    using assms op by (auto simp: executeOpcode_def isDisabled_def alwaysIllegal_def isConditional_def isBranchExecuting_def push_vm_def Let_def)
  then show thesis by (rule that)
qed

lemma num_pop_small:
  assumes "k < 65536"
  shows "po_op (num_pop k) \<le> OP_16" "po_op (num_pop k) \<noteq> OP_RESERVED" "length (po_data (num_pop k)) \<le> MaxScriptElementSize"
    "wf_item (Num k)" "length (num_bytes k) \<le> 4"
proof -
  have len: "length (scriptNum_Bytes k) \<le> 3"
    using le_min_length [of k 2] assms by (simp add: scriptNum_Bytes_def Let_def)
  have n: "po_op (num_pop k) \<le> OP_16 \<and> po_op (num_pop k) \<noteq> OP_RESERVED \<and> length (po_data (num_pop k)) \<le> MaxScriptElementSize"
  proof (cases "k \<le> 16")
    case True
    then have "unat ((OP_1 - 1) + of_nat k) = 80 + k" by (simp add: unat_word_ariths unat_of_nat)
    then show ?thesis using True by (auto simp: num_pop_def MaxScriptElementSize_def word_le_nat_alt word_unat_eq_iff)
  next
    case False
    let ?d = "scriptNum_Bytes k"
    consider "length ?d = 0" | "length ?d = 1" | "length ?d = 2" | "length ?d = 3" using len by linarith
    then show ?thesis
    proof cases
      case 2
      have "unat (80 + w) = 80 + unat w" if "w \<le> 16" for w :: byte
        using that by (simp add: unat_word_ariths word_le_nat_alt)
      then have "80 + w \<le> (96 :: byte)" "80 + w = (80 :: byte) \<longleftrightarrow> w = 0" if "w \<le> 16" for w :: byte
        using that by (simp_all add: word_le_nat_alt)
      then show ?thesis using 2 False by (auto simp: num_pop_def data_pop_def Let_def MaxScriptElementSize_def)
    qed (use False in \<open>simp_all add: num_pop_def data_pop_def Let_def MaxScriptElementSize_def\<close>)
  qed
  then show "po_op (num_pop k) \<le> OP_16" "po_op (num_pop k) \<noteq> OP_RESERVED" "length (po_data (num_pop k)) \<le> MaxScriptElementSize"
    by simp_all
  show "wf_item (Num k)" using len by (simp add: MaxScriptElementSize_def)
  show "length (num_bytes k) \<le> 4" using len by (simp add: num_bytes_def addData_bytes_def Let_def)
qed

section \<open>Signatures\<close>

text \<open>A signature of an input by a key: over the hash of the witness scheme, of the whole witness script.\<close>

definition signed_by ::
  "script_env \<Rightarrow> parsed_opcode list \<Rightarrow> msg_tx \<Rightarrow> nat \<Rightarrow> tx_sig_hashes option \<Rightarrow> int \<Rightarrow> bytes \<Rightarrow> bytes \<Rightarrow> bool" where
  "signed_by ev pops tx i hc amt key sig \<longleftrightarrow> sig \<noteq> [] \<and>
     (case CalcWitnessSignatureHash (se_crypto ev) pops
        (case hc of Some h \<Rightarrow> h | None \<Rightarrow> NewTxSigHashes (se_crypto ev) tx) (ucast (last sig)) tx i amt of
        Inl e \<Rightarrow> False
      | Inr hash \<Rightarrow>
        (case se_ParsePubKey ev key of None \<Rightarrow> False
         | Some k \<Rightarrow> (case se_ParseSignature ev (butlast sig) of None \<Rightarrow> False | Some s \<Rightarrow> sig_valid ev hash s k)))"

lemma CalcWitnessSignatureHash_returns:
  "\<not> isWitnessPubKeyHash pops \<Longrightarrow> \<exists>hash. CalcWitnessSignatureHash cr pops hs t tx i amt = Inr hash"
  by (simp add: CalcWitnessSignatureHash_def script_code_def Let_def)

lemma exec_checksig:
  assumes "n < 201" "\<not> isWitnessPubKeyHash pops" "executing c"
  shows "executeOpcode ev \<lparr>po_op = OP_CHECKSIG, po_data = []\<rparr> (witness_engine pops h tx i hc amt off (pk # sig # d) c n) =
    Inr (witness_engine pops h tx i hc amt off (fromBool (signed_by ev pops tx i hc amt pk sig) # d) c (n + 1))"
proof -
  let ?vm = "witness_engine pops h tx i hc amt off d c (Suc n)"
  obtain hash where hash: "CalcWitnessSignatureHash (se_crypto ev) pops
      (case hc of Some h \<Rightarrow> h | None \<Rightarrow> NewTxSigHashes (se_crypto ev) tx) (ucast (last sig)) tx i amt = Inr hash"
    using CalcWitnessSignatureHash_returns [OF assms(2)] by blast
  have sh: "sig_hash ev ?vm pops (ucast (last sig)) = Inr hash"
    using hash by (cases hc) (simp_all add: sig_hash_def)
  have enc: "checkHashTypeEncoding ?vm t = None" "checkSignatureEncoding ?vm s = None" "checkPubKeyEncoding ?vm k = None"
    "parse_sig ev ?vm s = se_ParseSignature ev s" for t s k
    by (simp_all add: checkHashTypeEncoding_def checkSignatureEncoding_def checkPubKeyEncoding_def parse_sig_def hasFlag_def spend_flag_tests)
  have pop: "pop_vm f (witness_engine pops h tx i hc amt off (x # e) c k) = f x (witness_engine pops h tx i hc amt off e c k)" for f x e c k
    by (simp add: pop_vm_def)
  have "opcodeCheckSig ev (witness_engine pops h tx i hc amt off (pk # sig # d) c (Suc n)) =
      push_vm (fromBool (signed_by ev pops tx i hc amt pk sig)) ?vm"
  proof (cases "sig = []")
    case True
    then show ?thesis unfolding opcodeCheckSig_def pop by (simp add: signed_by_def)
  next
    case False
    then have "signed_by ev pops tx i hc amt pk sig \<longleftrightarrow> (case se_ParsePubKey ev pk of None \<Rightarrow> False
         | Some k \<Rightarrow> (case se_ParseSignature ev (butlast sig) of None \<Rightarrow> False | Some s \<Rightarrow> sig_valid ev hash s k))"
      by (simp add: signed_by_def hash)
    moreover have "length sig < 1 \<longleftrightarrow> False" using False by (cases sig) simp_all
    ultimately show ?thesis
      unfolding opcodeCheckSig_def pop Let_def enc guard_res_def option.case
      by (simp add: sh split: option.split)
  qed
  then show ?thesis
    using assms(1,3) by (auto simp: exec_defs push_vm_def)
qed

section \<open>The output of a commitment to its own side\<close>

lemma data_pop_33: "length key = 33 \<Longrightarrow> data_pop key = \<lparr>po_op = 33, po_data = key\<rparr>"
  by (simp add: data_pop_def Let_def)

definition commit_pops :: "bytes \<Rightarrow> bytes \<Rightarrow> u16 \<Rightarrow> parsed_opcode list" where
  "commit_pops rkey tkey delay = map item_pop [Op OP_IF, Data rkey, Op OP_ELSE, Num (unat delay), Op OP_NOP3, Op OP_DROP,
     Data tkey, Op OP_ENDIF, Op OP_CHECKSIG]"

lemma parse_CommitScript:
  assumes "length rkey = 33" "length tkey = 33"
  shows "ParseScript (CommitScript rkey tkey delay) = Inr (commit_pops rkey tkey delay)"
    and "length (CommitScript rkey tkey delay) \<le> MaxScriptElementSize"
proof -
  let ?items = "[Op OP_IF, Data rkey, Op OP_ELSE, Num (unat delay), Op OP_NOP3, Op OP_DROP, Data tkey, Op OP_ENDIF, Op OP_CHECKSIG]"
  have k: "unat delay < 65536" using unsigned_less [of delay] by simp
  have d: "length (addData_bytes x) = 34" if "length x = 33" for x using that by (simp add: addData_bytes_def Let_def)
  have wf: "list_all wf_item ?items"
    using assms num_pop_small(4) [OF k] by (simp add: opcode_length_def MaxScriptElementSize_def)
  have len: "length (concat (map item_bytes ?items)) \<le> 78"
    using num_pop_small(5) [OF k] assms by (simp add: d)
  then have max: "length (concat (map item_bytes ?items)) \<le> maxScriptSize" by (simp add: maxScriptSize_def)
  show "ParseScript (CommitScript rkey tkey delay) = Inr (commit_pops rkey tkey delay)"
    unfolding CommitScript_def commit_pops_def by (rule parse_built [OF wf max])
  show "length (CommitScript rkey tkey delay) \<le> MaxScriptElementSize"
    using len by (simp add: CommitScript_def build_script_bytes [OF wf max] MaxScriptElementSize_def)
qed

lemma commit_run:
  assumes "length rkey = 33" "length tkey = 33"
  shows "accepts (map_option (\<lambda>r. bind_res r (CheckErrorCondition True))
      (run ev (witness_engine (commit_pops rkey tkey delay) h tx i hc amt 0 [br, sig] [] 0))) \<longleftrightarrow>
    signed_by ev (commit_pops rkey tkey delay) tx i hc amt (if asBool br then rkey else tkey) sig"
proof -
  let ?pops = "commit_pops rkey tkey delay" and ?c = "if asBool br then OpCondTrue else OpCondFalse"
  let ?e = "witness_engine ?pops h tx i hc amt" and ?key = "if asBool br then rkey else tkey"
  have k: "unat delay < 65536" using unsigned_less [of delay] by simp
  obtain x where x: "\<And>off d c n. executeOpcode ev (num_pop (unat delay)) (?e off d c n) =
      Inr (?e off (if c = [] \<or> hd c = OpCondTrue then x # d else d) c n)"
    using exec_small [OF num_pop_small(1-3) [OF k]] by metis
  have pops: "?pops = [\<lparr>po_op = OP_IF, po_data = []\<rparr>, \<lparr>po_op = 33, po_data = rkey\<rparr>, \<lparr>po_op = OP_ELSE, po_data = []\<rparr>,
      num_pop (unat delay), \<lparr>po_op = OP_NOP3, po_data = []\<rparr>, \<lparr>po_op = OP_DROP, po_data = []\<rparr>,
      \<lparr>po_op = 33, po_data = tkey\<rparr>, \<lparr>po_op = OP_ENDIF, po_data = []\<rparr>, \<lparr>po_op = OP_CHECKSIG, po_data = []\<rparr>]"
    using assms by (simp add: commit_pops_def data_pop_33)
  have len: "length ?pops = 9" by (simp add: pops)
  have nth: "?pops ! 0 = \<lparr>po_op = OP_IF, po_data = []\<rparr>" "?pops ! 1 = \<lparr>po_op = 33, po_data = rkey\<rparr>"
    "?pops ! 2 = \<lparr>po_op = OP_ELSE, po_data = []\<rparr>" "?pops ! 3 = num_pop (unat delay)"
    "?pops ! 4 = \<lparr>po_op = OP_NOP3, po_data = []\<rparr>" "?pops ! 5 = \<lparr>po_op = OP_DROP, po_data = []\<rparr>"
    "?pops ! 6 = \<lparr>po_op = 33, po_data = tkey\<rparr>" "?pops ! 7 = \<lparr>po_op = OP_ENDIF, po_data = []\<rparr>"
    "?pops ! 8 = \<lparr>po_op = OP_CHECKSIG, po_data = []\<rparr>"
    by (simp_all add: pops)
  have one: "run ev (?e 0 [br, sig] [] 0) = run ev (?e 1 [sig] [?c] 1)"
    by (rule witness_step [OF _ nth(1)]) (simp_all add: exec_if len)
  note step2 = witness_step [OF _ nth(2), where off' = 2] and step3 = witness_step [OF _ nth(3), where off' = 3]
    and step4 = witness_step [OF _ nth(4), where off' = 4] and step5 = witness_step [OF _ nth(5), where off' = 5]
    and step6 = witness_step [OF _ nth(6), where off' = 6] and step7 = witness_step [OF _ nth(7), where off' = 7]
    and step8 = witness_step [OF _ nth(8), where off' = 8]
  have rest: "run ev (?e 1 [sig] [?c] 1) = run ev (?e 8 [?key, sig] [] 5)"
  proof (cases "asBool br")
    case True
    have "run ev (?e 1 [sig] [OpCondTrue] 1) = run ev (?e 2 [rkey, sig] [OpCondTrue] 1)"
      using assms by (intro step2) (simp_all add: exec_data33 len)
    also have "\<dots> = run ev (?e 3 [rkey, sig] [OpCondFalse] 2)" by (rule step3) (simp_all add: exec_else flip_cond_def len numeral_2_eq_2)
    also have "\<dots> = run ev (?e 4 [rkey, sig] [OpCondFalse] 2)" by (rule step4) (simp_all add: x len)
    also have "\<dots> = run ev (?e 5 [rkey, sig] [OpCondFalse] 3)" by (rule step5) (simp_all add: exec_nop3 len)
    also have "\<dots> = run ev (?e 6 [rkey, sig] [OpCondFalse] 4)" by (rule step6) (simp_all add: exec_skipped len)
    also have "\<dots> = run ev (?e 7 [rkey, sig] [OpCondFalse] 4)"
      using assms by (intro step7) (simp_all add: exec_data33 len)
    also have "\<dots> = run ev (?e 8 [rkey, sig] [] 5)" by (rule step8) (simp_all add: exec_endif len)
    finally show ?thesis using True by simp
  next
    case False
    have "run ev (?e 1 [sig] [OpCondFalse] 1) = run ev (?e 2 [sig] [OpCondFalse] 1)"
      using assms by (intro step2) (simp_all add: exec_data33 len)
    also have "\<dots> = run ev (?e 3 [sig] [OpCondTrue] 2)" by (rule step3) (simp_all add: exec_else flip_cond_def len numeral_2_eq_2)
    also have "\<dots> = run ev (?e 4 [x, sig] [OpCondTrue] 2)" by (rule step4) (simp_all add: x len)
    also have "\<dots> = run ev (?e 5 [x, sig] [OpCondTrue] 3)" by (rule step5) (simp_all add: exec_nop3 len)
    also have "\<dots> = run ev (?e 6 [sig] [OpCondTrue] 4)" by (rule step6) (simp_all add: exec_drop len)
    also have "\<dots> = run ev (?e 7 [tkey, sig] [OpCondTrue] 4)"
      using assms by (intro step7) (simp_all add: exec_data33 len)
    also have "\<dots> = run ev (?e 8 [tkey, sig] [] 5)" by (rule step8) (simp_all add: exec_endif len)
    finally show ?thesis using False by simp
  qed
  have "\<not> isWitnessPubKeyHash ?pops" by (simp add: isWitnessPubKeyHash_def len)
  then have last: "executeOpcode ev (?pops ! 8) (?e (8 + 1) [?key, sig] [] 5) =
      Inr (?e (8 + 1) [fromBool (signed_by ev ?pops tx i hc amt ?key sig)] [] 6)"
    by (simp add: nth exec_checksig)
  have "accepts (map_option (\<lambda>r. bind_res r (CheckErrorCondition True)) (run ev (?e 8 [?key, sig] [] 5))) \<longleftrightarrow>
      (\<exists>y. [fromBool (signed_by ev ?pops tx i hc amt ?key sig)] = [y] \<and> asBool y)"
    by (rule witness_last [OF last]) (simp_all add: len)
  moreover have "asBool (fromBool b) = b" for b
    by (simp add: asBool_def fromBool_def)
  ultimately show ?thesis
    using one rest by simp
qed

text \<open>C4: The output a commitment pays to its own side is spendable exactly with a signature by the revocation key when
  the element that chooses the branch is true, and by the key of the timeout otherwise. The delay has no part in it:
  the engine takes the relative timelock opcode of the script for a NOP.\<close>

theorem commit_output_spend:
  assumes "length rkey = 33" "length tkey = 33" "length (cr_Sha256 (se_crypto ev) (CommitScript rkey tkey delay)) = 32"
    and "i < length (tx_TxIn tx)" "ti_SignatureScript (tx_TxIn tx ! i) = []"
    and "ti_Witness (tx_TxIn tx ! i) = [sig, br, CommitScript rkey tkey delay]" "length sig \<le> 520" "length br \<le> 520"
  shows "accepts (validate_input ev (P2WSHify (se_crypto ev) (CommitScript rkey tkey delay)) tx (int i) spend_flags hc amt) \<longleftrightarrow>
    signed_by ev (commit_pops rkey tkey delay) tx i hc amt (if asBool br then rkey else tkey) sig"
proof -
  note parse = parse_CommitScript [OF assms(1,2), of delay]
  have ne: "commit_pops rkey tkey delay \<noteq> []" by (simp add: commit_pops_def)
  have w: "ti_Witness (tx_TxIn tx ! i) = [sig, br] @ [CommitScript rkey tkey delay]" using assms(6) by simp
  have small: "list_all (\<lambda>x. length x \<le> MaxScriptElementSize) ([sig, br] @ [CommitScript rkey tkey delay])"
    using assms(7,8) parse(2) by (simp add: MaxScriptElementSize_def)
  show ?thesis
    using commit_run [OF assms(1,2)] by (simp add: witness_start [OF assms(3) parse(1) ne assms(4,5) w small])
qed

section \<open>The funding output\<close>

definition fund_pops :: "bytes \<Rightarrow> bytes \<Rightarrow> parsed_opcode list" where
  "fund_pops k1 k2 = map item_pop [Op OP_2, Data k1, Data k2, Op OP_2, Op OP_CHECKMULTISIG]"

lemma parse_FundTxScript:
  assumes "length a = 33" "length b = 33" "FundTxScript a b = Inr (script, swapped)"
  shows "ParseScript script = Inr (if swapped then fund_pops b a else fund_pops a b)" "length script \<le> MaxScriptElementSize"
proof -
  let ?items = "\<lambda>a b. [Op OP_2, Data a, Data b, Op OP_2, Op OP_CHECKMULTISIG]"
  have d: "length (addData_bytes x) = 34" if "length x = 33" for x using that by (simp add: addData_bytes_def Let_def)
  have wf: "list_all wf_item (?items a b)" "length (concat (map item_bytes (?items a b))) \<le> 71" if "length a = 33" "length b = 33" for a b
    using that by (simp_all add: opcode_length_def MaxScriptElementSize_def d)
  have max: "length (concat (map item_bytes (?items a b))) \<le> maxScriptSize" if "length a = 33" "length b = 33" for a b
    using wf(2) [OF that] by (simp add: maxScriptSize_def)
  note built = build_script_bytes [OF wf(1) max] parse_built [OF wf(1) max]
  have s: "script = sb_script (build_script (?items (if swapped then b else a) (if swapped then a else b)))"
    using assms(3) by (auto simp: FundTxScript_def Let_def split: if_splits option.splits)
  show "ParseScript script = Inr (if swapped then fund_pops b a else fund_pops a b)"
    using built(2) assms(1,2) by (simp add: s fund_pops_def)
  show "length script \<le> MaxScriptElementSize"
    using built(1) assms(1,2) by (simp add: s MaxScriptElementSize_def d)
qed

lemma multisig_step:
  assumes "\<not> isWitnessPubKeyHash pops" "length rest = length pks"
  shows "multisig_loop ev (witness_engine pops h tx i hc amt off d c n) pops None (sig # rest) (k # pks) =
    (if signed_by ev pops tx i hc amt k sig
     then multisig_loop ev (witness_engine pops h tx i hc amt off d c n) pops None rest pks else Inr False)"
proof -
  let ?vm = "witness_engine pops h tx i hc amt off d c n"
  obtain hash where hash: "CalcWitnessSignatureHash (se_crypto ev) pops
      (case hc of Some h \<Rightarrow> h | None \<Rightarrow> NewTxSigHashes (se_crypto ev) tx) (ucast (last sig)) tx i amt = Inr hash"
    using CalcWitnessSignatureHash_returns [OF assms(1)] by blast
  have sh: "sig_hash ev ?vm pops (ucast (last sig)) = Inr hash"
    using hash by (cases hc) (simp_all add: sig_hash_def)
  have enc: "checkHashTypeEncoding ?vm t = None" "checkSignatureEncoding ?vm s = None" "checkPubKeyEncoding ?vm k = None"
    "parse_sig ev ?vm s = se_ParseSignature ev s" for t s k
    by (simp_all add: checkHashTypeEncoding_def checkSignatureEncoding_def checkPubKeyEncoding_def parse_sig_def hasFlag_def spend_flag_tests)
  have short: "multisig_loop ev ?vm pops p (sig # rest) pks = Inr False" for p
    using assms(2) by (cases pks) simp_all
  show ?thesis
  proof (cases "sig = []")
    case True
    then show ?thesis using assms(2) short [of None] by (simp add: signed_by_def)
  next
    case False
    then show ?thesis
      using assms(2) by (simp add: enc guard_res_def Let_def sh short signed_by_def hash split: option.split)
  qed
qed

lemma exec_checkmultisig:
  assumes "n + 3 \<le> 201" "\<not> isWitnessPubKeyHash pops" "executing c"
  shows "executeOpcode ev \<lparr>po_op = OP_CHECKMULTISIG, po_data = []\<rparr>
      (witness_engine pops h tx i hc amt off ([2] # k2 # k1 # [2] # sig2 # sig1 # [] # d) c n) =
    Inr (witness_engine pops h tx i hc amt off
      (fromBool (signed_by ev pops tx i hc amt k2 sig2 \<and> signed_by ev pops tx i hc amt k1 sig1) # d) c (n + 3))"
proof -
  have two: "makeScriptNum [2] False defaultScriptNumLen = Inr 2" "num_Int32 2 = 2"
    by (simp_all add: makeScriptNum_def defaultScriptNumLen_def num_Int32_def)
  have pop: "pop_vm f (witness_engine pops h tx i hc amt off (x # e) c k) = f x (witness_engine pops h tx i hc amt off e c k)" for f x e c k
    by (simp add: pop_vm_def)
  have int: "pop_int f (witness_engine pops h tx i hc amt off ([2] # e) c k) = f 2 (witness_engine pops h tx i hc amt off e c k)" for f e c k
    by (simp add: pop_int_def two)
  have many: "pop_many 2 (x # y # e) = Inr ([x, y], e)" for x y e
    by (simp add: numeral_2_eq_2)
  let ?vm = "witness_engine pops h tx i hc amt off d c (Suc n + 2)"
  have loop: "multisig_loop ev ?vm pops None [sig2, sig1] [k2, k1] =
      Inr (signed_by ev pops tx i hc amt k2 sig2 \<and> signed_by ev pops tx i hc amt k1 sig1)"
    using multisig_step [OF assms(2), of "[sig1]" "[k1]" ev h tx i hc amt off d c "Suc n + 2" sig2 k2]
      multisig_step [OF assms(2), of "[]" "[]" ev h tx i hc amt off d c "Suc n + 2" sig1 k1]
    by (simp del: multisig_loop.simps(2))
  have "opcodeCheckMultiSig ev (witness_engine pops h tx i hc amt off ([2] # k2 # k1 # [2] # sig2 # sig1 # [] # d) c (Suc n)) =
      push_vm (fromBool (signed_by ev pops tx i hc amt k2 sig2 \<and> signed_by ev pops tx i hc amt k1 sig1)) ?vm"
    using assms(1) loop unfolding opcodeCheckMultiSig_def int
    by (simp add: two int pop many MaxPubKeysPerMultiSig_def MaxOpsPerScript_def hasFlag_def spend_flag_tests del: multisig_loop.simps)
  then show ?thesis
    using assms(1,3) by (auto simp: exec_defs push_vm_def numeral_3_eq_3)
qed

lemma exec_two:
  "executing c \<Longrightarrow> executeOpcode ev \<lparr>po_op = OP_2, po_data = []\<rparr> (witness_engine pops h tx i hc amt off d c n) =
    Inr (witness_engine pops h tx i hc amt off ([2] # d) c n)"
proof -
  assume c: "executing c"
  have "num_Bytes 2 = [2]" by (simp add: num_Bytes_def le_min.simps)
  then show ?thesis using c by (auto simp: exec_defs opcodeN_def push_int_def push_vm_def)
qed

lemma fund_run:
  assumes "length k1 = 33" "length k2 = 33"
  shows "accepts (map_option (\<lambda>r. bind_res r (CheckErrorCondition True))
      (run ev (witness_engine (fund_pops k1 k2) h tx i hc amt 0 [sig2, sig1, []] [] 0))) \<longleftrightarrow>
    signed_by ev (fund_pops k1 k2) tx i hc amt k1 sig1 \<and> signed_by ev (fund_pops k1 k2) tx i hc amt k2 sig2"
proof -
  let ?pops = "fund_pops k1 k2" and ?s = "[sig2, sig1, []]"
  let ?e = "witness_engine ?pops h tx i hc amt"
  have pops: "?pops = [\<lparr>po_op = OP_2, po_data = []\<rparr>, \<lparr>po_op = 33, po_data = k1\<rparr>, \<lparr>po_op = 33, po_data = k2\<rparr>,
      \<lparr>po_op = OP_2, po_data = []\<rparr>, \<lparr>po_op = OP_CHECKMULTISIG, po_data = []\<rparr>]"
    using assms by (simp add: fund_pops_def data_pop_33)
  have len: "length ?pops = 5" by (simp add: pops)
  have nth: "?pops ! 0 = \<lparr>po_op = OP_2, po_data = []\<rparr>" "?pops ! 1 = \<lparr>po_op = 33, po_data = k1\<rparr>"
    "?pops ! 2 = \<lparr>po_op = 33, po_data = k2\<rparr>" "?pops ! 3 = \<lparr>po_op = OP_2, po_data = []\<rparr>"
    "?pops ! 4 = \<lparr>po_op = OP_CHECKMULTISIG, po_data = []\<rparr>"
    by (simp_all add: pops)
  have "run ev (?e 0 ?s [] 0) = run ev (?e 1 ([2] # ?s) [] 0)" by (rule witness_step [OF exec_two nth(1)]) (simp_all add: len)
  also have "\<dots> = run ev (?e 2 (k1 # [2] # ?s) [] 0)"
    using assms by (intro witness_step [OF _ nth(2), where off' = 2]) (simp_all add: exec_data33 len)
  also have "\<dots> = run ev (?e 3 (k2 # k1 # [2] # ?s) [] 0)"
    using assms by (intro witness_step [OF _ nth(3), where off' = 3]) (simp_all add: exec_data33 len)
  also have "\<dots> = run ev (?e 4 ([2] # k2 # k1 # [2] # ?s) [] 0)"
    by (rule witness_step [OF exec_two nth(4)]) (simp_all add: len)
  finally have run: "run ev (?e 0 ?s [] 0) = run ev (?e 4 ([2] # k2 # k1 # [2] # ?s) [] 0)" .
  have "\<not> isWitnessPubKeyHash ?pops" by (simp add: isWitnessPubKeyHash_def len)
  then have last: "executeOpcode ev (?pops ! 4) (?e (4 + 1) ([2] # k2 # k1 # [2] # ?s) [] 0) =
      Inr (?e (4 + 1) [fromBool (signed_by ev ?pops tx i hc amt k2 sig2 \<and> signed_by ev ?pops tx i hc amt k1 sig1)] [] 3)"
    unfolding nth by (subst exec_checkmultisig) simp_all
  have "accepts (map_option (\<lambda>r. bind_res r (CheckErrorCondition True)) (run ev (?e 4 ([2] # k2 # k1 # [2] # ?s) [] 0))) \<longleftrightarrow>
      (\<exists>y. [fromBool (signed_by ev ?pops tx i hc amt k2 sig2 \<and> signed_by ev ?pops tx i hc amt k1 sig1)] = [y] \<and> asBool y)"
    by (rule witness_last [OF last]) (simp_all add: len)
  moreover have "asBool (fromBool b) = b" for b
    by (simp add: asBool_def fromBool_def)
  ultimately show ?thesis unfolding run by auto
qed

lemma fund_spend:
  assumes "length a = 33" "length b = 33" "FundTxScript a b = Inr (pre, swapped)"
    and "length (cr_Sha256 (se_crypto ev) pre) = 32"
    and "i < length (tx_TxIn tx)" "ti_SignatureScript (tx_TxIn tx ! i) = []"
    and "ti_Witness (tx_TxIn tx ! i) = SpendMultiSigWitStack pre sigA sigB" "length sigA \<le> 520" "length sigB \<le> 520"
    and "kA = (if swapped then b else a)" "kB = (if swapped then a else b)"
  shows "accepts (validate_input ev (P2WSHify (se_crypto ev) pre) tx (int i) spend_flags hc amt) \<longleftrightarrow>
    signed_by ev (fund_pops kA kB) tx i hc amt kA sigA \<and> signed_by ev (fund_pops kA kB) tx i hc amt kB sigB"
proof -
  have pops: "(if swapped then fund_pops b a else fund_pops a b) = fund_pops kA kB" using assms(10,11) by simp
  note parse = parse_FundTxScript [OF assms(1-3), unfolded pops]
  have ne: "fund_pops kA kB \<noteq> []" by (simp add: fund_pops_def)
  have w: "ti_Witness (tx_TxIn tx ! i) = [[], sigA, sigB] @ [pre]" using assms(7) by (simp add: SpendMultiSigWitStack_def)
  have small: "list_all (\<lambda>x. length x \<le> MaxScriptElementSize) ([[], sigA, sigB] @ [pre])"
    using assms(8,9) parse(2) by (simp add: MaxScriptElementSize_def)
  have k: "length kA = 33" "length kB = 33" using assms(1,2,10,11) by simp_all
  show ?thesis
    using fund_run [OF k] by (simp add: witness_start [OF assms(4) parse(1) ne assms(5,6) w small])
qed

text \<open>C3: The funding output is spendable with the witness stack the code builds exactly when it holds a signature by
  each of the two keys, in the order of the keys in the script: the first signature by the key that was put first.\<close>

theorem fund_output_spend:
  assumes "length a = 33" "length b = 33" "FundTxScript a b = Inr (pre, swapped)"
    and "length (cr_Sha256 (se_crypto ev) pre) = 32"
    and "i < length (tx_TxIn tx)" "ti_SignatureScript (tx_TxIn tx ! i) = []"
    and "ti_Witness (tx_TxIn tx ! i) = SpendMultiSigWitStack pre sigA sigB" "length sigA \<le> 520" "length sigB \<le> 520"
    and "kA = (if swapped then b else a)" "kB = (if swapped then a else b)"
  shows "accepts (validate_input ev (P2WSHify (se_crypto ev) pre) tx (int i) spend_flags hc amt) \<longleftrightarrow>
    signed_by ev (fund_pops kA kB) tx i hc amt kA sigA \<and> signed_by ev (fund_pops kA kB) tx i hc amt kB sigB"
  using assms by (rule fund_spend)

section \<open>Examples\<close>

text \<open>In the sample environment a signature of two bytes and its hash type is one by a key that starts with 2.\<close>

lemma sample_signed:
  assumes "\<not> isWitnessPubKeyHash pops" "length key = 33"
  shows "signed_by sample_env pops tx i hc amt key (sig @ [t]) \<longleftrightarrow> int (length sig) = uint (hd key)"
proof -
  obtain hash where "CalcWitnessSignatureHash (se_crypto sample_env) pops
      (case hc of Some h \<Rightarrow> h | None \<Rightarrow> NewTxSigHashes (se_crypto sample_env) tx) (ucast t) tx i amt = Inr hash"
    using CalcWitnessSignatureHash_returns [OF assms(1)] by blast
  then show ?thesis
    using assms(2) by (simp add: signed_by_def) (simp add: sample_env_def sig_valid_def)
qed

lemma sample_tx_input:
  "length (tx_TxIn (sample_tx w)) = 1" "ti_SignatureScript (tx_TxIn (sample_tx w) ! 0) = []" "ti_Witness (tx_TxIn (sample_tx w) ! 0) = w"
  by (simp_all add: sample_tx_def)

lemma sample_sha: "length (cr_Sha256 (se_crypto sample_env) x) = 32"
  by (simp add: sample_env_def)

theorem commit_output_spend_witness:
  "let script = CommitScript (replicate 33 2) (replicate 33 3) 5; pk = P2WSHify (se_crypto sample_env) script in
   accepts (validate_input sample_env pk (sample_tx [[9, 9, 1], [1], script]) 0 spend_flags None 0) \<and>
   \<not> accepts (validate_input sample_env pk (sample_tx [[9, 9, 1], [], script]) 0 spend_flags None 0)"
proof -
  let ?script = "CommitScript (replicate 33 2) (replicate 33 3) 5"
  have n: "\<not> isWitnessPubKeyHash (commit_pops (replicate 33 2) (replicate 33 3) 5)"
    by (simp add: isWitnessPubKeyHash_def commit_pops_def)
  have "accepts (validate_input sample_env (P2WSHify (se_crypto sample_env) ?script) (sample_tx [[9, 9, 1], br, ?script]) (int 0) spend_flags None 0) \<longleftrightarrow>
      signed_by sample_env (commit_pops (replicate 33 2) (replicate 33 3) 5) (sample_tx [[9, 9, 1], br, ?script]) 0 None 0
        (if asBool br then replicate 33 2 else replicate 33 3) ([9, 9] @ [1])" if "length br \<le> 520" for br
    using that by (subst commit_output_spend [OF _ _ sample_sha]) (simp_all add: sample_tx_def)
  note spend = this
  have key: "length (if asBool br then replicate 33 2 else replicate 33 (3 :: byte)) = 33" for br by simp
  show ?thesis
    using spend [of "[1]"] spend [of "[]"] unfolding sample_signed [OF n key] Let_def by (simp add: asBool_def)
qed

theorem fund_output_spend_witness:
  "let k = replicate 33 2; pk = (\<lambda>s. P2WSHify (se_crypto sample_env) s) in
   \<exists>pre. FundTxScript k k = Inr (pre, False) \<and>
     accepts (validate_input sample_env (pk pre) (sample_tx (SpendMultiSigWitStack pre [9, 9, 1] [8, 8, 1])) 0 spend_flags None 0) \<and>
     \<not> accepts (validate_input sample_env (pk pre) (sample_tx (SpendMultiSigWitStack pre [9, 9, 1] [8, 1])) 0 spend_flags None 0)"
proof -
  let ?k = "replicate 33 (2 :: byte)"
  have wf: "list_all wf_item [Op OP_2, Data ?k, Data ?k, Op OP_2, Op OP_CHECKMULTISIG]"
    "length (concat (map item_bytes [Op OP_2, Data ?k, Data ?k, Op OP_2, Op OP_CHECKMULTISIG])) \<le> maxScriptSize"
    by (simp_all add: opcode_length_def MaxScriptElementSize_def maxScriptSize_def addData_bytes_def Let_def)
  obtain pre where pre: "FundTxScript ?k ?k = Inr (pre, False)"
    by (simp add: FundTxScript_def build_script_bytes [OF wf])
  have k: "length ?k = 33" by simp
  have n: "\<not> isWitnessPubKeyHash (fund_pops ?k ?k)" by (simp add: isWitnessPubKeyHash_def fund_pops_def)
  have "accepts (validate_input sample_env (P2WSHify (se_crypto sample_env) pre) (sample_tx (SpendMultiSigWitStack pre (s1 @ [1]) (s2 @ [1]))) (int 0) spend_flags None 0) \<longleftrightarrow>
      length s1 = 2 \<and> length s2 = 2" if "length s1 \<le> 3" "length s2 \<le> 3" for s1 s2
    using that
    by (subst fund_output_spend [where sigA = "s1 @ [1]" and sigB = "s2 @ [1]" and kA = ?k and kB = ?k, OF k k pre sample_sha])
       (simp_all add: sample_tx_input sample_signed [OF n k])
  from this [of "[9, 9]" "[8, 8]"] this [of "[9, 9]" "[8]"] show ?thesis
    using pre by auto
qed

end
