(* ===== verification/Sig64.thy ===== *)
theory Sig64
  imports LitPrelude
begin

text \<open>
  The 64-byte form of signatures (\<open>sig64/sigcompress.go\<close>): the two numbers of a DER signature as 32 bytes
  each, and back. The properties: the two directions are inverse to each other on the signatures that
  have numbers of at least 22 bytes, and restoring always gives the shortest DER form.
\<close>

section \<open>Compressing\<close>

text \<open>
  Slicing \<open>s[:n]\<close> reads behind the end of the slice as far as its capacity goes, and panics beyond:
  \<open>extra\<close> are the bytes between length and capacity.
\<close>

definition slice_to :: "nat \<Rightarrow> bytes \<Rightarrow> bytes \<Rightarrow> lit_error + bytes" where
  "slice_to n s extra = (if n \<le> length s + length extra then Inr (take n (s @ extra)) else Inl Panic)"

text \<open>
  One number: its tag, its length (a length above what is left is remembered as an error, but the code
  goes on), and its bytes right-aligned in 32. The signature from the number on and the length of the
  number are returned too.
\<close>

definition compress_int :: "bytes \<Rightarrow> bytes \<Rightarrow> lit_error + (bytes \<times> bytes \<times> nat \<times> bool)" where
  "compress_int sig extra =
     (case sig of [] \<Rightarrow> Inl Panic
      | t # sig \<Rightarrow>
        if t \<noteq> 0x02 then Inl BadFormat
        else case sig of [] \<Rightarrow> Inl Panic
        | rlen # sig \<Rightarrow>
          if rlen < 22 \<or> 33 < rlen then Inl (BadLength (unat rlen))
          else
            let bad = length sig < unat rlen;
                rest = (if rlen = 33 then (case sig of [] \<Rightarrow> Inl Panic | x # xs \<Rightarrow> Inr (xs, 32)) else Inr (sig, unat rlen))
            in bind_res rest (\<lambda>(sig, n).
               bind_res (slice_to n sig extra) (\<lambda>r. Inr (replicate (32 - n) 0 @ r, sig, n, bad))))"

definition SigCompress :: "bytes \<Rightarrow> bytes \<Rightarrow> lit_error + bytes" where
  "SigCompress sig extra =
     (if length sig < 65 \<or> 72 < length sig then Inl (BadLength (length sig))
      else if sig ! 0 \<noteq> 0x30 then Inl BadFormat
      else
        let sig = tl sig; bad = unat (sig ! 0) \<noteq> length sig - 1; sig = tl sig in
        bind_res (compress_int sig extra) (\<lambda>(r, sig, n, bad1).
        if length sig < n then Inl Panic else
        bind_res (compress_int (drop n sig) extra) (\<lambda>(s, sig, n, bad2).
          if bad \<or> bad1 \<or> bad2 then Inl (BadLength (length sig)) else Inr (r @ s))))"

section \<open>Restoring\<close>

text \<open>The loop that chops leading zeros: \<open>rlen\<close> and \<open>i\<close>.\<close>

function chop :: "bytes \<Rightarrow> nat \<Rightarrow> nat \<Rightarrow> nat \<times> nat" where
  "chop csig rlen i =
     (if 1 < rlen \<and> csig ! i = 0 \<and> csig ! (i + 1) AND 0x80 = 0 then chop csig (rlen - 1) (i + 1) else (rlen, i))"
  by pat_completeness auto
termination by (relation "measure (\<lambda>(csig, rlen, i). rlen)") auto

declare chop.simps [simp del]

text \<open>The number at \<open>start\<close>, with a zero in front when its first bit is set.\<close>

definition restore_int :: "bytes \<Rightarrow> nat \<Rightarrow> bytes" where
  "restore_int csig start =
     (let rlen = (if csig ! start AND 0x80 = 0 then 32 else 33); (rlen, i) = chop csig rlen start;
          off = rlen - (start + 32 - i)
      in take rlen (replicate off 0 @ drop i csig))"

definition SigDecompress :: "bytes \<Rightarrow> bytes" where
  "SigDecompress csig =
     (let padr = restore_int csig 0; pads = restore_int csig 32; fulllen = of_nat (length padr + length pads + 6) :: byte
      in [0x30, fulllen - 2, 0x02, of_nat (length padr)] @ padr @ [0x02, of_nat (length pads)] @ pads)"

section \<open>The shortest form of a number\<close>

fun min_int :: "bytes \<Rightarrow> bytes" where
  "min_int (x # y # r) =
     (if x = 0 \<and> y AND 0x80 = 0 then min_int (y # r) else if x AND 0x80 = 0 then x # y # r else 0 # x # y # r)"
| "min_int [x] = (if x AND 0x80 = 0 then [x] else [0, x])"
| "min_int [] = []"

lemma length_min_int: "length (min_int bs) \<le> length bs + 1"
  by (induction bs rule: min_int.induct) auto

lemma min_int_pad:
  "bs \<noteq> [] \<Longrightarrow> (if length (min_int bs) = length bs + 1 then tl (min_int bs)
     else replicate (length bs - length (min_int bs)) 0 @ min_int bs) = bs"
proof (induction bs rule: min_int.induct)
  case (1 x y r)
  show ?case
  proof (cases "x = 0 \<and> y AND 0x80 = 0")
    case True
    have len: "length (min_int (y # r)) \<le> length (y # r)"
      using True length_min_int [of r] by (cases r) (auto simp: le_Suc_eq intro: le_trans)
    then show ?thesis
      using 1(1) [OF True] True by (simp add: Suc_diff_le)
  qed auto
qed auto

lemma chop_min:
  assumes "i + n \<le> length c" "1 \<le> n" "c ! i AND 0x80 = 0"
  shows "\<exists>n' i'. chop c n i = (n', i') \<and> n' + i' = n + i \<and> i \<le> i' \<and> take n' (drop i' c) = min_int (take n (drop i c))"
  using assms
proof (induction c n i rule: chop.induct)
  case (1 c n i)
  have d: "drop i c = c ! i # drop (Suc i) c" using 1(2,3) by (simp add: Cons_nth_drop_Suc)
  show ?case
  proof (cases "1 < n \<and> c ! i = 0 \<and> c ! (i + 1) AND 0x80 = 0")
    case True
    then have "n = Suc (Suc (n - 2))" by arith
    then obtain m where m: "n = Suc (Suc m)" by blast
    have d': "drop (Suc i) c = c ! Suc i # drop (Suc (Suc i)) c" using 1(2) m by (simp add: Cons_nth_drop_Suc)
    have "min_int (take n (drop i c)) = min_int (take (n - 1) (drop (i + 1) c))"
      using True by (simp add: m d d')
    moreover have "i + 1 + (n - 1) \<le> length c" "1 \<le> n - 1" "c ! (i + 1) AND 0x80 = 0" using 1(2) True by auto
    note 1(1) [OF True this]
    ultimately show ?thesis using True by (subst chop.simps) fastforce
  next
    case False
    then have "chop c n i = (n, i)" by (subst chop.simps) auto
    moreover have "take n (drop i c) = min_int (take n (drop i c))"
    proof (cases "n = 1")
      case True
      then show ?thesis using 1(4) by (simp add: d)
    next
      case ne: False
      then have "n = Suc (Suc (n - 2))" using 1(3) by arith
      then obtain m where m: "n = Suc (Suc m)" by blast
      have d': "drop (Suc i) c = c ! Suc i # drop (Suc (Suc i)) c" using 1(2) m by (simp add: Cons_nth_drop_Suc)
      have "\<not> (c ! i = 0 \<and> c ! Suc i AND 0x80 = 0)" using False m by auto
      then show ?thesis using 1(4) by (simp only: m d d' take_Suc_Cons min_int.simps if_False) simp
    qed
    ultimately show ?thesis by simp
  qed
qed

lemma restore_min:
  assumes "start + 32 \<le> length c"
  shows "restore_int c start = min_int (take 32 (drop start c))"
proof (cases "c ! start AND 0x80 = 0")
  case True
  obtain n i where ch: "chop c 32 start = (n, i)" "n + i = 32 + start" "start \<le> i" "take n (drop i c) = min_int (take 32 (drop start c))"
    using chop_min [OF assms _ True] by auto
  then have "n - (start + 32 - i) = 0" by auto
  then show ?thesis using True ch by (simp add: restore_int_def)
next
  case False
  have "2 \<le> length (drop start c)" using assms by simp
  then obtain x y r where xs: "drop start c = x # y # r"
    by (cases "drop start c"; cases "tl (drop start c)") auto
  then have x: "x = c ! start" using assms by (metis hd_drop_conv_nth list.sel(1) add_leD1 le_neq_implies_less drop_all le_refl list.distinct(1))
  have z: "c ! start \<noteq> 0" using False by auto
  have "chop c 33 start = (33, start)" using z by (subst chop.simps) simp
  then show ?thesis
    using False z x by (simp add: restore_int_def xs numeral_eq_Suc)
qed

section \<open>Both directions\<close>

text \<open>A DER signature of two numbers, and the numbers that are positive without excess padding.\<close>

definition der_sig :: "bytes \<Rightarrow> bytes \<Rightarrow> bytes" where
  "der_sig r s = [0x30, of_nat (length r + length s + 4), 0x02, of_nat (length r)] @ r @ [0x02, of_nat (length s)] @ s"

definition der_int :: "bytes \<Rightarrow> bool" where
  "der_int r \<longleftrightarrow> r \<noteq> [] \<and> length r \<le> 33 \<and> r ! 0 AND 0x80 = 0 \<and> (length r = 1 \<or> r ! 0 \<noteq> 0 \<or> r ! 1 AND 0x80 \<noteq> 0) \<and>
     (length r = 33 \<longrightarrow> r ! 0 = 0)"

lemma decompress_der:
  assumes "length c = 64"
  shows "SigDecompress c = der_sig (min_int (take 32 c)) (min_int (drop 32 c))"
proof -
  have "restore_int c 0 = min_int (take 32 c)" "restore_int c 32 = min_int (drop 32 c)"
    using restore_min [of 0 c] restore_min [of 32 c] assms by simp_all
  then show ?thesis by (simp add: SigDecompress_def der_sig_def Let_def)
qed

lemma unat_numeral_33: "unat (33 :: byte) = 33"
  by simp

lemma compress_int_min:
  assumes "length bs = 32" "22 \<le> length (min_int bs)"
  shows "\<exists>sig n. compress_int (0x02 # of_nat (length (min_int bs)) # min_int bs @ rest) extra = Inr (bs, sig, n, False) \<and>
    n \<le> length sig \<and> drop n sig = rest"
proof -
  have l: "length (min_int bs) \<le> 33" using length_min_int [of bs] assms(1) by simp
  have u: "unat (of_nat (length (min_int bs)) :: byte) = length (min_int bs)" using l by (simp add: unat_of_nat)
  have lt: "\<not> (of_nat (length (min_int bs)) :: byte) < 22" "\<not> 33 < (of_nat (length (min_int bs)) :: byte)"
    using l assms(2) u by (simp_all add: word_less_nat_alt)
  have e: "(of_nat (length (min_int bs)) :: byte) = 33 \<longleftrightarrow> length (min_int bs) = 33"
    using u by (metis of_nat_numeral unat_numeral_33)
  have pad: "if length (min_int bs) = 33 then tl (min_int bs) = bs else replicate (32 - length (min_int bs)) 0 @ min_int bs = bs"
    using min_int_pad [of bs] assms(1) by (cases "bs = []") (auto split: if_splits)
  show ?thesis
  proof (cases "length (min_int bs) = 33")
    case True
    then obtain x xs where m: "min_int bs = x # xs" "length xs = 32" by (cases "min_int bs") auto
    then show ?thesis using lt e pad True by (simp add: compress_int_def u slice_to_def)
  next
    case False
    then show ?thesis using lt e pad l by (simp add: compress_int_def u slice_to_def)
  qed
qed

lemma compress_der:
  assumes "length r0 = 32" "length s0 = 32" "22 \<le> length (min_int r0)" "22 \<le> length (min_int s0)"
    "59 \<le> length (min_int r0) + length (min_int s0)"
  shows "SigCompress (der_sig (min_int r0) (min_int s0)) extra = Inr (r0 @ s0)"
proof -
  let ?r = "min_int r0" and ?s = "min_int s0"
  have l: "length ?r \<le> 33" "length ?s \<le> 33" using length_min_int [of r0] length_min_int [of s0] assms(1,2) by simp_all
  obtain sig1 n1 where c1: "compress_int (0x02 # of_nat (length ?r) # ?r @ (0x02 # of_nat (length ?s) # ?s)) extra = Inr (r0, sig1, n1, False)"
    "n1 \<le> length sig1" "drop n1 sig1 = 0x02 # of_nat (length ?s) # ?s"
    using compress_int_min [OF assms(1,3), of "0x02 # of_nat (length ?s) # ?s" extra] by blast
  obtain sig2 n2 where c2: "compress_int (0x02 # of_nat (length ?s) # ?s) extra = Inr (s0, sig2, n2, False)"
    using compress_int_min [OF assms(2,4), of "[]" extra] by auto
  have u: "unat (of_nat (length ?r + length ?s + 4) :: byte) = length ?r + length ?s + 4"
    using l unat_of_nat [where 'a = 8, of "length ?r + length ?s + 4"] by (simp del: of_nat_add of_nat_numeral)
  show ?thesis
    using l assms(5) c1 c2 u by (simp add: SigCompress_def der_sig_def Let_def not_less del: of_nat_add)
qed

lemma min_int_zeros: "der_int r \<Longrightarrow> length r \<le> 32 \<Longrightarrow> min_int (replicate k 0 @ r) = r"
proof (induction k)
  case 0
  then show ?case by (cases r rule: min_int.cases) (auto simp: der_int_def)
next
  case (Suc k)
  have "r \<noteq> []" "r ! 0 AND 0x80 = 0" using Suc.prems(1) by (simp_all add: der_int_def)
  then obtain y ys where y: "replicate k 0 @ r = y # ys" "y AND 0x80 = 0" by (cases k; cases r) auto
  then show ?case using Suc.IH [OF Suc.prems] by simp
qed

lemma der_min:
  assumes "der_int r" shows "\<exists>bs. length bs = 32 \<and> min_int bs = r"
proof (cases "length r = 33")
  case False
  then have "length r \<le> 32" using assms by (simp add: der_int_def)
  then show ?thesis using min_int_zeros [OF assms, of "32 - length r"] by (intro exI [of _ "replicate (32 - length r) 0 @ r"]) simp
next
  case True
  then obtain y z zs where r: "r = 0 # y # z # zs" "length zs = 30" "y AND 0x80 \<noteq> 0"
    using assms by (cases r; cases "tl r"; cases "tl (tl r)") (auto simp: der_int_def)
  then have "min_int (y # z # zs) = r" by auto
  then show ?thesis using r(2) by (intro exI [of _ "y # z # zs"]) simp
qed

lemma compress_back:
  assumes "der_int r" "der_int s" "22 \<le> length r" "22 \<le> length s" "59 \<le> length r + length s"
  shows "\<exists>c. SigCompress (der_sig r s) extra = Inr c \<and> length c = 64 \<and> SigDecompress c = der_sig r s"
proof -
  obtain r0 s0 where b: "length r0 = 32" "min_int r0 = r" "length s0 = 32" "min_int s0 = s"
    using der_min [OF assms(1)] der_min [OF assms(2)] by blast
  have "SigCompress (der_sig r s) extra = Inr (r0 @ s0)"
    using compress_der [of r0 s0 extra] assms(3-5) b by simp
  moreover have "SigDecompress (r0 @ s0) = der_sig r s"
    using decompress_der [of "r0 @ s0"] b by simp
  ultimately show ?thesis using b by auto
qed

text \<open>A signature in shortest form that can be compressed at all is restored.\<close>

lemma compressed_back:
  assumes "der_int r" "der_int s" "SigCompress (der_sig r s) extra = Inr c"
  shows "SigDecompress c = der_sig r s"
proof -
  have "length r \<le> 33" "length s \<le> 33" using assms(1,2) by (simp_all add: der_int_def)
  moreover have "65 \<le> length (der_sig r s)" using assms(3) by (auto simp: SigCompress_def split: if_splits)
  then have sum: "59 \<le> length r + length s" by (simp add: der_sig_def)
  ultimately have "22 \<le> length r" "22 \<le> length s" by linarith+
  from compress_back [OF assms(1,2) this sum, of extra] show ?thesis using assms(3) by auto
qed

text \<open>C33: A signature in its shortest DER form, both numbers positive, at least 22 bytes long each and at least 59 bytes long
  together (the signature is refused below 65 bytes), survives the 64-byte form: compressing gives 64 bytes and restoring these gives the signature, byte by byte.\<close>

theorem sig64_roundtrip:
  assumes "der_int r" "der_int s" "22 \<le> length r" "22 \<le> length s" "59 \<le> length r + length s"
  shows "\<exists>c. SigCompress (der_sig r s) extra = Inr c \<and> length c = 64 \<and> SigDecompress c = der_sig r s"
  using assms by (rule compress_back)

theorem sig64_roundtrip_witness:
  "\<exists>c. SigCompress (der_sig (0 # replicate 32 0x90) (replicate 32 0x70)) [] = Inr c \<and> length c = 64 \<and>
     SigDecompress c = der_sig (0 # replicate 32 0x90) (replicate 32 0x70)"
  by (rule sig64_roundtrip) (simp_all add: der_int_def)

end
