(* ===== verification/Close.thy ===== *)
theory Close
  imports FundRun TxSpend Sig64
begin

text \<open>
  Closing a channel: the cooperative close and the unilateral break (\<open>qln/close.go\<close>, \<open>qln/break.go\<close>,
  \<open>SignSimpleClose\<close> and \<open>SignBreakTx\<close> of \<open>qln/signtx.go\<close>), and what a node recovers from a transaction that
  closed a channel (\<open>GetCloseTxos\<close>, the spend event of \<open>qln/msghandler.go\<close>). Signatures are made and checked
  as the code does it: over the witness hash of the transaction, in DER form, sent in 64 bytes.
\<close>

section \<open>The environment\<close>

text \<open>
  The signing primitive gives a DER signature of a hash. \<open>ce_spare\<close> are the bytes behind the signature in the
  array that holds it, which slicing can reach.
\<close>

record close_env =
  ce_node :: node_env
  ce_se :: script_env
  ce_Sign :: "bytes \<Rightarrow> bytes \<Rightarrow> lit_error + bytes"
  ce_spare :: bytes
  ce_CombineSub :: "bytes \<Rightarrow> bytes \<Rightarrow> bytes"
  ce_PushTx :: "u32 \<Rightarrow> msg_tx \<Rightarrow> lit_error option"
  ce_PeerKnown :: "u32 \<Rightarrow> bool"

abbreviation ce_crypto :: "close_env \<Rightarrow> crypto" where "ce_crypto ce \<equiv> se_crypto (ce_se ce)"

definition script_res :: "script_error + 'a \<Rightarrow> lit_error + 'a" where
  "script_res r = (case r of Inl e \<Rightarrow> Inl (if e = ScriptPanic then Panic else BadFormat) | Inr x \<Rightarrow> Inr x)"

definition RawTxInWitnessSignature ::
  "close_env \<Rightarrow> msg_tx \<Rightarrow> tx_sig_hashes \<Rightarrow> nat \<Rightarrow> int \<Rightarrow> bytes \<Rightarrow> u32 \<Rightarrow> bytes \<Rightarrow> lit_error + bytes" where
  "RawTxInWitnessSignature ce tx sigHashes idx amt script hashType key =
     bind_res (script_res (ParseScript script)) (\<lambda>parsedScript.
     bind_res (script_res (CalcWitnessSignatureHash (ce_crypto ce) parsedScript sigHashes hashType tx idx amt)) (\<lambda>hash.
     bind_res (ce_Sign ce key hash) (\<lambda>signature. Inr (signature @ [ucast hashType]))))"

text \<open>A signature of the first input as it is sent: without its hash type, in 64 bytes.\<close>

definition sign64 :: "close_env \<Rightarrow> bytes \<Rightarrow> bytes \<Rightarrow> msg_tx \<Rightarrow> int \<Rightarrow> lit_error + bytes" where
  "sign64 ce priv pre tx amt =
     bind_res (RawTxInWitnessSignature ce tx (NewTxSigHashes (ce_crypto ce) tx) 0 amt pre SigHashAll priv) (\<lambda>mySig.
       SigCompress (butlast mySig) (last mySig # ce_spare ce))"

text \<open>The check of such a signature. A signature that does not verify is the error \<open>bad\<close>.\<close>

definition check64 :: "close_env \<Rightarrow> lit_error \<Rightarrow> bytes \<Rightarrow> bytes \<Rightarrow> msg_tx \<Rightarrow> int \<Rightarrow> bytes \<Rightarrow> lit_error option" where
  "check64 ce bad pub pre tx amt sig =
     (case bind_res (script_res (ParseScript pre)) (\<lambda>parsed.
        script_res (CalcWitnessSignatureHash (ce_crypto ce) parsed (NewTxSigHashes (ce_crypto ce) tx) SigHashAll tx 0 amt)) of
        Inl e \<Rightarrow> Some e
      | Inr hash \<Rightarrow>
        (case se_ParseDERSignature (ce_se ce) (SigDecompress sig) of None \<Rightarrow> Some BadFormat
         | Some pSig \<Rightarrow>
           (case se_ParsePubKey (ce_se ce) pub of None \<Rightarrow> Some BadFormat
            | Some key \<Rightarrow> if se_Verify (ce_se ce) pSig hash key then None else Some bad)))"

text \<open>The environment of the channel code, with its two signature parameters given by these definitions.\<close>

definition ce_ev :: "close_env \<Rightarrow> node_env" where
  "ce_ev ce = (ce_node ce)\<lparr>ev_crypto := ce_crypto ce, ev_sign := sign64 ce,
     ev_verify := (\<lambda>pub pre tx amt sig. check64 ce Mismatch pub pre tx amt sig = None)\<rparr>"

section \<open>Signing a close\<close>

definition set_witness :: "msg_tx \<Rightarrow> bytes list \<Rightarrow> msg_tx" where
  "set_witness tx w = tx\<lparr>tx_TxIn := (tx_TxIn tx)[0 := (tx_TxIn tx ! 0)\<lparr>ti_Witness := w\<rparr>]\<rparr>"

text \<open>The witness stack of the funding output, with the signatures in the order of the keys in the script.\<close>

definition fund_witness :: "bytes \<Rightarrow> bool \<Rightarrow> bytes \<Rightarrow> bytes \<Rightarrow> bytes list" where
  "fund_witness pre swapped mySig theirSig =
     (if swapped then SpendMultiSigWitStack pre theirSig mySig else SpendMultiSigWitStack pre mySig theirSig)"

definition GetPriv_of :: "close_env \<Rightarrow> qchan \<Rightarrow> lit_error + bytes" where
  "GetPriv_of ce q =
     (if ev_wallet (ce_ev ce) (Qchan_Coin q) = None then Inl Panic else ev_GetPriv (ce_ev ce) (q_KeyGen q))"

definition SignSimpleClose :: "close_env \<Rightarrow> qchan \<Rightarrow> msg_tx \<Rightarrow> lit_error + bytes" where
  "SignSimpleClose ce q tx =
     bind_res (FundTxScript (q_MyPub q) (q_TheirPub q)) (\<lambda>(pre, swapped).
     bind_res (GetPriv_of ce q) (\<lambda>priv. sign64 ce priv pre tx (q_Value q)))"

definition SignBreakTx :: "close_env \<Rightarrow> qchan \<Rightarrow> lit_error + msg_tx" where
  "SignBreakTx ce q =
     bind_res (BuildStateTxs (ce_crypto ce) q True) (\<lambda>(tx, spends, outs).
     bind_res (FundTxScript (q_MyPub q) (q_TheirPub q)) (\<lambda>(pre, swapped).
     bind_res (GetPriv_of ce q) (\<lambda>priv.
     bind_res (RawTxInWitnessSignature ce tx (NewTxSigHashes (ce_crypto ce) tx) 0 (q_Value q) pre SigHashAll priv) (\<lambda>mySig.
       let theirSig = SigDecompress (st_Sig (q_State q)) @ [ucast SigHashAll]
       in Inr (set_witness tx (fund_witness pre swapped mySig theirSig))))))"

section \<open>Cooperative close\<close>

definition uncleared :: "qchan \<Rightarrow> bool" where
  "uncleared q \<longleftrightarrow> list_ex (\<lambda>h. \<not> ht_Cleared h) (st_HTLCs (q_State q))"

text \<open>The channel marked closed by a transaction.\<close>

definition mark_closed :: "close_env \<Rightarrow> msg_tx \<Rightarrow> qchan \<Rightarrow> qchan" where
  "mark_closed ce tx q =
     q\<lparr>q_LastUpdate := ev_now (ce_ev ce),
       q_CloseData := (q_CloseData q)\<lparr>cl_Closed := True, cl_CloseTxid := TxHash (ce_crypto ce) tx\<rparr>\<rparr>"

definition CoopClose :: "close_env \<Rightarrow> lit_node \<Rightarrow> qchan \<Rightarrow> q_result" where
  "CoopClose ce nd q =
     (let ev = ce_ev ce in
      if \<not> ev_connected ev (Qchan_Peer q) then (nd, q, [], Some OutOfRange)
      else if cl_Closed (q_CloseData q) then (nd, q, [], Some OutOfRange)
      else if uncleared q then (nd, q, [], Some OutOfRange)
      else case bind_res (SimpleCloseTx (ce_crypto ce) q) (\<lambda>tx.
                bind_res (SignSimpleClose ce q tx) (\<lambda>sig. Inr (tx, sig))) of
             Inl e \<Rightarrow> (nd, q, [], Some e)
           | Inr (tx, sig) \<Rightarrow>
             let q = mark_closed ce tx q; nd = SaveQchanUtxoData ev nd q
             in (nd, q, tmpSendLitMsg ev (MsgCloseReq (NewCloseReqMsg (Qchan_Peer q) (q_Op q) sig)), None))"

text \<open>
  The check of the other side's signature. When it does not verify the code formats the error with
  \<open>err.Error()\<close>, and \<open>err\<close> is nil there.
\<close>

definition close_sig_check :: "close_env \<Rightarrow> qchan \<Rightarrow> msg_tx \<Rightarrow> bytes \<Rightarrow> lit_error + unit" where
  "close_sig_check ce q tx sig =
     bind_res (FundTxScript (q_MyPub q) (q_TheirPub q)) (\<lambda>(pre, swapped).
       case check64 ce Panic (q_TheirPub q) pre tx (q_Value q) sig of Some e \<Rightarrow> Inl e | None \<Rightarrow> Inr ())"

definition signed_close :: "close_env \<Rightarrow> qchan \<Rightarrow> bytes \<Rightarrow> lit_error + msg_tx" where
  "signed_close ce q theirSig =
     bind_res (SimpleCloseTx (ce_crypto ce) q) (\<lambda>tx.
     bind_res (close_sig_check ce q tx theirSig) (\<lambda>u.
     bind_res (SignSimpleClose ce q tx) (\<lambda>mySig.
     bind_res (FundTxScript (q_MyPub q) (q_TheirPub q)) (\<lambda>(pre, swapped).
       Inr (set_witness tx (fund_witness pre swapped (SigDecompress mySig @ [ucast SigHashAll])
         (SigDecompress theirSig @ [ucast SigHashAll])))))))"

text \<open>The node, the transaction it has published, and the error it logs. A missing wallet is only logged at first.\<close>

definition CloseReqHandler :: "close_env \<Rightarrow> lit_node \<Rightarrow> close_req_msg \<Rightarrow> lit_node \<times> msg_tx list \<times> lit_error option" where
  "CloseReqHandler ce nd msg =
     (let ev = ce_ev ce in
      case GetQchan ev nd (OutPointToBytes (cr_Outpoint msg)) of Inl e \<Rightarrow> (nd, [], Some e)
      | Inr q \<Rightarrow>
        if uncleared q then (nd, [], Some OutOfRange)
        else case signed_close ce q (cr_Signature msg) of Inl e \<Rightarrow> (nd, [], Some e)
        | Inr tx \<Rightarrow>
          let q = mark_closed ce tx q; nd = SaveQchanUtxoData ev nd q in
          (case ce_PushTx ce (Qchan_Coin q) tx of Some e \<Rightarrow> (nd, [], Some e)
           | None \<Rightarrow>
             if \<not> ce_PeerKnown ce (Qchan_Peer q) then (nd, [tx], Some Panic)
             else if \<not> ev_publish ev then (nd, [tx], Some OutOfRange)
             else (nd, [tx], None)))"

definition CloseHandler :: "close_env \<Rightarrow> lit_node \<Rightarrow> lit_msg \<Rightarrow> lit_node \<times> msg_tx list \<times> lit_error option" where
  "CloseHandler ce nd msg =
     (case msg of MsgCloseReq m \<Rightarrow> CloseReqHandler ce nd m | _ \<Rightarrow> (nd, [], Some (UnknownMsgType (MsgType msg))))"

section \<open>Unilateral close\<close>

text \<open>What a break resets in memory: nothing is in progress, and no HTLC is being cleared.\<close>

definition settle :: "qchan \<Rightarrow> qchan" where
  "settle q =
     q\<lparr>q_State := (q_State q)\<lparr>st_Delta := 0, st_InProgHTLC := None, st_CollidingHTLC := None,
        st_HTLCs := map (\<lambda>h. if \<not> ht_Cleared h \<and> ht_Clearing h then h\<lparr>ht_Clearing := False\<rparr> else h)
          (st_HTLCs (q_State q))\<rparr>\<rparr>"

text \<open>
  The channel is saved before it is marked closed, and is only marked in memory. The last component but one
  is the transaction that was published.
\<close>

definition BreakChannel :: "close_env \<Rightarrow> lit_node \<Rightarrow> qchan \<Rightarrow> lit_node \<times> qchan \<times> msg_tx list \<times> lit_error option" where
  "BreakChannel ce nd q =
     (let ev = ce_ev ce in
      if ev_wallet ev (Qchan_Coin q) = None then (nd, q, [], Some OutOfRange)
      else case ReloadQchanState ev nd q of Inl e \<Rightarrow> (nd, q, [], Some e)
      | Inr q \<Rightarrow>
        if cl_Closed (q_CloseData q) then (nd, q, [], Some OutOfRange)
        else
          let q = settle q in
          (case SignBreakTx ce q of Inl e \<Rightarrow> (nd, q, [], Some e)
           | Inr tx \<Rightarrow>
             (case ce_PushTx ce (Qchan_Coin q) tx of Some e \<Rightarrow> (nd, q, [], Some OutOfRange)
              | None \<Rightarrow>
                (SaveQchanUtxoData ev nd q,
                 q\<lparr>q_CloseData := (q_CloseData q)\<lparr>cl_Closed := True, cl_CloseTxid := TxHash (ce_crypto ce) tx\<rparr>\<rparr>,
                 [tx], None))))"

section \<open>The outputs of a transaction that closed a channel\<close>

definition GenHTLCOutWithElkPointsAndRevPub :: "crypto \<Rightarrow> htlc \<Rightarrow> bool \<Rightarrow> bytes \<Rightarrow> bytes \<Rightarrow> bytes \<Rightarrow> tx_out" where
  "GenHTLCOutWithElkPointsAndRevPub cr h mine theirElkPoint myElkPoint revPub =
     NewTxOut (of_int (ht_Amt h)) (P2WSHify cr (GenHTLCScriptWithElkPointsAndRevPub cr h mine theirElkPoint myElkPoint revPub))"

definition numbered :: "'a list \<Rightarrow> (u32 \<times> 'a) list" where
  "numbered xs = zip (map of_nat [0..<length xs]) xs"

text \<open>The outputs that pay to an HTLC of the channel, each with its index.\<close>

definition GetHtlcTxosWithElkPointsAndRevPub ::
  "crypto \<Rightarrow> qchan \<Rightarrow> msg_tx \<Rightarrow> bool \<Rightarrow> bytes \<Rightarrow> bytes \<Rightarrow> bytes \<Rightarrow> (u32 \<times> tx_out) list" where
  "GetHtlcTxosWithElkPointsAndRevPub cr q tx mine theirElkPoint myElkPoint revPub =
     (let htlcOuts = map (\<lambda>h. GenHTLCOutWithElkPointsAndRevPub cr h mine theirElkPoint myElkPoint revPub) (st_HTLCs (q_State q))
      in filter (\<lambda>(i, out). list_ex (\<lambda>hOut. to_Value out = to_Value hOut \<and> to_PkScript out = to_PkScript hOut) htlcOuts)
           (numbered (tx_TxOut tx)))"

definition GetHtlcTxos :: "crypto \<Rightarrow> qchan \<Rightarrow> msg_tx \<Rightarrow> bool \<Rightarrow> lit_error + (u32 \<times> tx_out) list" where
  "GetHtlcTxos cr q tx mine =
     bind_res (GetKeysFromState cr q mine) (\<lambda>(revPub, timePub, pkhPub).
     bind_res (ElkPoint cr q False (st_StateIdx (q_State q))) (\<lambda>curElk.
       Inr (GetHtlcTxosWithElkPointsAndRevPub cr q tx mine (st_ElkPoint (q_State q)) curElk revPub)))"

text \<open>The last script-hash output that is not an HTLC (999 when there is none), and the last one to my key.\<close>

definition find_sh :: "u32 list \<Rightarrow> msg_tx \<Rightarrow> u32" where
  "find_sh htlcIdxs tx =
     fold (\<lambda>(i, out) sh. if length (to_PkScript out) = 34 \<and> i \<notin> set htlcIdxs then i else sh)
       (numbered (tx_TxOut tx)) 999"

definition find_pkh :: "bytes \<Rightarrow> msg_tx \<Rightarrow> u32 option" where
  "find_pkh myPKHPkScript tx =
     fold (\<lambda>(i, out) pkh. if length (to_PkScript out) \<noteq> 34 \<and> myPKHPkScript = to_PkScript out then Some i else pkh)
       (numbered (tx_TxOut tx)) None"

definition TxoP2WPKHComp :: byte where "TxoP2WPKHComp = 0x04 OR 0x08"

definition zero_PorTxo :: por_txo where
  "zero_PorTxo = new_PorTxo \<lparr>kg_Depth = 0, kg_Step = replicate 5 0, kg_PrivKey = replicate 32 0\<rparr>"

text \<open>An output of the closing transaction, spendable with a key of the channel.\<close>

definition close_txo :: "crypto \<Rightarrow> qchan \<Rightarrow> msg_tx \<Rightarrow> u32 \<Rightarrow> u32 \<Rightarrow> por_txo" where
  "close_txo cr q tx idx use =
     (new_PorTxo ((q_KeyGen q)\<lparr>kg_Step := (kg_Step (q_KeyGen q))[2 := use]\<rparr>))\<lparr>
       px_Op := \<lparr>op_Hash = TxHash cr tx, op_Index = idx\<rparr>, px_Height := cl_CloseHeight (q_CloseData q),
       px_Value := sint (to_Value (tx_TxOut tx ! unat idx))\<rparr>"

definition pkh_txo :: "crypto \<Rightarrow> qchan \<Rightarrow> msg_tx \<Rightarrow> u32 \<Rightarrow> por_txo" where
  "pkh_txo cr q tx idx =
     (close_txo cr q tx idx UseChannelRefund)\<lparr>px_Mode := TxoP2WPKHComp,
        px_PkScript := to_PkScript (tx_TxOut tx ! unat idx)\<rparr>"

definition sh_txo :: "crypto \<Rightarrow> qchan \<Rightarrow> msg_tx \<Rightarrow> u32 \<Rightarrow> bytes \<Rightarrow> bytes \<Rightarrow> u32 \<Rightarrow> bytes \<Rightarrow> por_txo" where
  "sh_txo cr q tx idx privKey script seq presig =
     (let t = close_txo cr q tx idx UseChannelHAKDBase in
      t\<lparr>px_KeyGen := (px_KeyGen t)\<lparr>kg_PrivKey := privKey\<rparr>, px_Mode := TxoP2WSHComp, px_Seq := seq,
        px_PreSigStack := [presig], px_PkScript := script\<rparr>)"

text \<open>My own transaction, of the current state: the output with the timeout. Scripts are compared only for a warning.\<close>

definition timeout_txo :: "crypto \<Rightarrow> qchan \<Rightarrow> msg_tx \<Rightarrow> u32 \<Rightarrow> u64 \<Rightarrow> lit_error + por_txo" where
  "timeout_txo cr q tx shIdx comNum =
     bind_res (ElkPoint cr q False comNum) (\<lambda>theirElkPoint.
     let timeoutPub = cr_AddPubsEZ cr (q_MyHAKDBase q) theirElkPoint;
         revokePub = cr_CombinePubs cr (q_TheirHAKDBase q) theirElkPoint;
         script = CommitScript revokePub timeoutPub (q_Delay q)
     in bind_res (sender_AtIndex (cr_DoubleHash cr) (q_ElkSnd q) comNum) (\<lambda>elk.
          let addhash = cr_DoubleHash cr (ElkPointFromHash cr elk @ q_MyHAKDBase q)
          in Inr (sh_txo cr q tx shIdx addhash script (ucast (q_Delay q)) [])))"

text \<open>
  Their transaction, of a revoked state: the output with the timeout, and the HTLC outputs. The code stores
  the script of the first of these in all of them; the script of the HTLC of the same position in
  \<open>State.HTLCs\<close> is built for a comparison only.
\<close>

definition justice_txos :: "crypto \<Rightarrow> qchan \<Rightarrow> msg_tx \<Rightarrow> u64 \<Rightarrow> lit_error + por_txo list" where
  "justice_txos cr q tx comNum =
     bind_res (ElkPoint cr q True comNum) (\<lambda>myElkPoint.
     bind_res (ElkPoint cr q False comNum) (\<lambda>theirElkPoint.
     let timeoutPub = cr_AddPubsEZ cr (q_TheirHAKDBase q) myElkPoint;
         revokePub = cr_CombinePubs cr (q_MyHAKDBase q) myElkPoint;
         script = CommitScript revokePub timeoutPub (q_Delay q);
         htlcs = GetHtlcTxosWithElkPointsAndRevPub cr q tx False myElkPoint theirElkPoint revokePub;
         shIdx = find_sh (map fst htlcs) tx
     in if length (tx_TxOut tx) \<le> unat shIdx then Inl Panic
        else bind_res (receiver_AtIndex (cr_DoubleHash cr) (q_ElkRcv q) comNum) (\<lambda>elk.
          if length (st_HTLCs (q_State q)) < length htlcs then Inl Panic
          else Inr (map (\<lambda>idx. sh_txo cr q tx idx (ElkScalar cr elk) script 1 [1]) (shIdx # map fst htlcs)))))"

definition GetCloseTxos :: "crypto \<Rightarrow> qchan \<Rightarrow> msg_tx \<Rightarrow> lit_error + por_txo list" where
  "GetCloseTxos cr q tx =
     (if \<not> (length (tx_TxIn tx) = 1 \<and> ti_PreviousOutPoint (tx_TxIn tx ! 0) = q_Op q) then Inl Mismatch
      else
        bind_res (GetHtlcTxos cr q tx False) (\<lambda>theirs.
        bind_res (GetHtlcTxos cr q tx True) (\<lambda>ours.
        let shIdx = find_sh (map fst (theirs @ ours)) tx;
            pkhIdx = find_pkh (DirectWPKHScript cr (q_MyRefundPub q)) tx;
            first = (case pkhIdx of None \<Rightarrow> zero_PorTxo | Some i \<Rightarrow> pkh_txo cr q tx i);
            comNum = GetStateIdxFromTx tx (GetChanHint cr q (pkhIdx = None));
            known = st_StateIdx (q_State q)
        in if known < comNum then Inr [first]
           else if pkhIdx = None \<and> shIdx < 999 \<and> comNum \<noteq> 0 \<and> comNum = known then
             bind_res (timeout_txo cr q tx shIdx comNum) (\<lambda>t. Inr [t])
           else if pkhIdx \<noteq> None \<and> comNum \<noteq> 0 \<and> comNum < known then
             bind_res (justice_txos cr q tx comNum) (\<lambda>ts. Inr (first # ts))
           else Inr [first])))"

section \<open>The spend event\<close>

text \<open>
  A key of a revoked output: the elkrem scalar that \<open>GetCloseTxos\<close> has put in place of the key is combined
  with the private key of the wallet. An output whose key cannot be had is left out.
\<close>

definition export_txo :: "close_env \<Rightarrow> por_txo \<Rightarrow> por_txo option" where
  "export_txo ce t =
     (if px_Seq t = 1 then
        let elkScalar = kg_PrivKey (px_KeyGen t);
            t = t\<lparr>px_KeyGen := (px_KeyGen t)\<lparr>kg_PrivKey := replicate 32 0\<rparr>\<rparr>
        in (case ev_GetPriv (ce_ev ce) (px_KeyGen t) of Inl e \<Rightarrow> None
            | Inr privBase \<Rightarrow> Some (t\<lparr>px_KeyGen := (px_KeyGen t)\<lparr>kg_PrivKey := ce_CombineSub ce privBase elkScalar\<rparr>\<rparr>))
      else Some t)"

text \<open>
  \<open>OPEventHandler\<close> when the funding output of a channel is spent: the node, the outputs given to the wallet,
  and the outpoints it is told to watch. With no wallet the first output is a nil dereference.
\<close>

definition spend_event ::
  "close_env \<Rightarrow> lit_node \<Rightarrow> outpoint \<Rightarrow> msg_tx \<Rightarrow> int \<Rightarrow> lit_node \<times> por_txo list \<times> outpoint list \<times> lit_error option" where
  "spend_event ce nd op tx height =
     (let ev = ce_ev ce; cr = ce_crypto ce in
      case GetQchan ev nd (OutPointToBytes op) of Inl e \<Rightarrow> (nd, [], [], Some e)
      | Inr q \<Rightarrow>
        let q = q\<lparr>q_CloseData := \<lparr>cl_CloseTxid = TxHash cr tx, cl_CloseHeight = height, cl_Closed = True\<rparr>\<rparr>;
            nd = SaveQchanUtxoData ev nd q
        in (case GetCloseTxos cr q tx of Inl e \<Rightarrow> (nd, [], [], Some e)
            | Inr txos \<Rightarrow>
              if ev_wallet ev (Qchan_Coin q) = None then (nd, [], [], Some Panic)
              else
                let exported = List.map_filter (export_txo ce) txos in
                (case bind_res (GetHtlcTxos cr q tx False) (\<lambda>theirs.
                   bind_res (GetHtlcTxos cr q tx True) (\<lambda>ours. Inr (theirs @ ours))) of
                   Inl e \<Rightarrow> (nd, exported, [], Some e)
                 | Inr htlcs \<Rightarrow> (nd, exported, map (\<lambda>(i, out). \<lparr>op_Hash = TxHash cr tx, op_Index = i\<rparr>) htlcs, None))))"

end
