(* ===== verification/CloseRun.thy ===== *)
theory CloseRun
  imports Close "HOL-Library.Multiset"
begin

text \<open>
  Runs of the closing code: a cooperative close between two honest nodes ends with both databases closed and a
  transaction the script engine accepts; a break gives back what the node can claim; justice on a revoked state.
\<close>

section \<open>Lemmas on signatures in 64 bytes\<close>

lemma compress_int_length: "compress_int sig extra = Inr (r, rest, n, bad) \<Longrightarrow> length r = 32"
  by (auto simp: compress_int_def slice_to_def Let_def bind_res_eq_Inr word_less_nat_alt word_unat_eq_iff not_less
      split: list.splits if_splits)

lemma SigCompress_length: "SigCompress sig extra = Inr c \<Longrightarrow> length c = 64"
  by (auto simp: SigCompress_def Let_def bind_res_eq_Inr split: if_splits dest!: compress_int_length)

lemma SigDecompress_length: "length c = 64 \<Longrightarrow> length (SigDecompress c) \<le> 72"
  using length_min_int [of "take 32 c"] length_min_int [of "drop 32 c"] by (simp add: decompress_der der_sig_def)

lemma sign64_length: "sign64 ce priv pre tx amt = Inr sig \<Longrightarrow> length sig = 64"
  by (auto simp: sign64_def bind_res_eq_Inr dest: SigCompress_length)

lemma map_first:
  assumes "f y = f (xs ! 0)" shows "map f (xs[0 := y]) = map f xs"
  using assms by (cases xs) simp_all

lemma set_witness_hashes [simp]:
  "NewTxSigHashes cr (set_witness tx w) = NewTxSigHashes cr tx"
  by (simp add: NewTxSigHashes_def calcHashPrevOuts_def calcHashSequence_def calcHashOutputs_def set_witness_def map_first)

lemma set_witness_hash [simp]:
  "CalcWitnessSignatureHash cr pops hs t (set_witness tx w) 0 amt = CalcWitnessSignatureHash cr pops hs t tx 0 amt"
proof (cases "tx_TxIn tx")
  case Nil
  then show ?thesis by (simp add: CalcWitnessSignatureHash_def set_witness_def)
next
  case (Cons x xs)
  then show ?thesis by (simp add: CalcWitnessSignatureHash_def set_witness_def Let_def)
qed

lemma set_witness_txid [simp]: "TxHash cr (set_witness tx w) = TxHash cr tx"
  by (cases "tx_TxIn tx") (simp_all add: TxHash_def SerializeNoWitness_def BtcEncode_def writeTxIn_def set_witness_def)

lemma set_witness_simps [simp]:
  "tx_TxOut (set_witness tx w) = tx_TxOut tx" "tx_LockTime (set_witness tx w) = tx_LockTime tx"
  "tx_Version (set_witness tx w) = tx_Version tx" "length (tx_TxIn (set_witness tx w)) = length (tx_TxIn tx)"
  by (simp_all add: set_witness_def)

lemma check64_bad: "check64 ce bad pub pre tx amt sig = None \<longleftrightarrow> check64 ce bad' pub pre tx amt sig = None"
  by (simp add: check64_def split: sum.split option.split)

lemma check64_se:
  assumes "ce_se ce' = ce_se ce" shows "check64 ce' bad pub pre tx amt sig = check64 ce bad pub pre tx amt sig"
  unfolding check64_def assms ..

text \<open>The parser of the engine reads every signature the DER parser reads, and the hash function has 32 bytes.\<close>

definition sound_engine :: "script_env \<Rightarrow> bool" where
  "sound_engine se \<longleftrightarrow> (\<forall>s r. se_ParseDERSignature se s = Some r \<longrightarrow> se_ParseSignature se s = Some r) \<and>
     (\<forall>x. length (cr_Sha256 (se_crypto se) x) = 32)"

text \<open>A signature that passes the check is one for the engine, whatever witness the transaction gets.\<close>

lemma check64_signed:
  assumes "check64 ce bad pub pre tx amt sig = None" "ParseScript pre = Inr pops" "sound_engine (ce_se ce)"
  shows "signed_by (ce_se ce) pops (set_witness tx w) 0 None amt pub (SigDecompress sig @ [ucast SigHashAll])"
  using assms
  by (auto simp: check64_def signed_by_def script_res_def sighash_types sound_engine_def sig_valid_def
      split: sum.splits option.splits if_splits)

section \<open>Signing on one side, checking on the other\<close>

lemma ce_ev_simps [simp]:
  "ev_crypto (ce_ev ce) = ce_crypto ce" "ev_sign (ce_ev ce) = sign64 ce" "ev_wallet (ce_ev ce) = ev_wallet (ce_node ce)"
  "ev_GetPub (ce_ev ce) = ev_GetPub (ce_node ce)" "ev_GetPriv (ce_ev ce) = ev_GetPriv (ce_node ce)"
  "ev_connected (ce_ev ce) = ev_connected (ce_node ce)" "ev_publish (ce_ev ce) = ev_publish (ce_node ce)"
  "ev_now (ce_ev ce) = ev_now (ce_node ce)"
  "ev_verify (ce_ev ce) pub pre tx amt sig \<longleftrightarrow> check64 ce Mismatch pub pre tx amt sig = None"
  by (simp_all add: ce_ev_def)

text \<open>What a link gives for a signature of a transaction that spends the funding output.\<close>

lemma close_signature:
  assumes k: "link_keys (ce_ev ce) (ce_ev ce') d" and q: "q = chan_of (ce_ev ce) d c"
    and len: "length (q_TheirPub q) = 33"
  shows "\<exists>pre swapped sig. FundTxScript (q_MyPub q) (q_TheirPub q) = Inr (pre, swapped) \<and>
    SignSimpleClose ce q tx = Inr sig \<and> (\<forall>bad. check64 ce' bad (q_MyPub q) pre tx (q_Value q) sig = None) \<and> length sig = 64"
proof -
  have my: "q_MyPub q = q_MyPub (chan_of (ce_ev ce) d True)" by (simp add: q chan_of_def)
  have len1: "length (q_MyPub q) = 33" using k by (simp add: link_keys_def my)
  obtain pre swapped where p: "FundTxScript (q_MyPub q) (q_TheirPub q) = Inr (pre, swapped)"
    using FundTxScript_ok [OF len1 len] by blast
  obtain priv sig where s: "ev_GetPriv (ce_node ce) (px_KeyGen (cdt_Txo d)) = Inr priv" "sign64 ce priv pre tx (q_Value q) = Inr sig"
    "check64 ce' Mismatch (q_MyPub q) pre tx (q_Value q) sig = None"
    using k p len1 len unfolding link_keys_def signs_for_def my [symmetric] ce_ev_simps by metis
  have w: "ev_wallet (ce_node ce) (Qchan_Coin q) \<noteq> None"
    using k by (auto simp: link_keys_def q)
  have "SignSimpleClose ce q tx = Inr sig"
    using s(1,2) w p by (simp add: SignSimpleClose_def GetPriv_of_def q)
  moreover have "\<forall>bad. check64 ce' bad (q_MyPub q) pre tx (q_Value q) sig = None"
    using s(3) check64_bad by blast
  ultimately show ?thesis using p sign64_length [OF s(2)] by blast
qed

text \<open>The two funding keys in the order of the script, and a spend with the stack the code builds.\<close>

lemma fund_witness_accepted:
  assumes "length a = 33" "length b = 33" "FundTxScript a b = Inr (pre, swapped)" "sound_engine se"
    and "length (tx_TxIn tx) = 1" "ti_SignatureScript (tx_TxIn tx ! 0) = []" "length sA \<le> 520" "length sB \<le> 520"
    and t: "t = set_witness tx (fund_witness pre swapped sA sB)"
    and s: "\<And>pops. ParseScript pre = Inr pops \<Longrightarrow> signed_by se pops t 0 None amt a sA \<and> signed_by se pops t 0 None amt b sB"
  shows "accepts (validate_input se (P2WSHify (se_crypto se) pre) t 0 spend_flags None amt)"
proof -
  let ?kA = "if swapped then b else a" and ?kB = "if swapped then a else b"
  let ?sA = "if swapped then sB else sA" and ?sB = "if swapped then sA else sB"
  have pops: "ParseScript pre = Inr (fund_pops ?kA ?kB)"
    using parse_FundTxScript(1) [OF assms(1-3)] by (simp split: if_splits)
  have i: "0 < length (tx_TxIn t)" "ti_SignatureScript (tx_TxIn t ! 0) = []" "ti_Witness (tx_TxIn t ! 0) = SpendMultiSigWitStack pre ?sA ?sB"
    using assms(5,6) by (auto simp: t set_witness_def fund_witness_def)
  have sha: "length (cr_Sha256 (se_crypto se) pre) = 32" using assms(4) by (simp add: sound_engine_def)
  have len: "length ?sA \<le> 520" "length ?sB \<le> 520" using assms(7,8) by simp_all
  from s [OF pops] fund_spend [OF assms(1-3) sha i len refl refl, of None amt]
  show ?thesis by (simp split: if_splits)
qed

section \<open>Cooperative close\<close>

lemma mark_closed_simps [simp]:
  "q_Txo (mark_closed ce tx q) = q_Txo q" "q_State (mark_closed ce tx q) = q_State q"
  "Qchan_Peer (mark_closed ce tx q) = Qchan_Peer q" "Qchan_Coin (mark_closed ce tx q) = Qchan_Coin q"
  by (simp_all add: mark_closed_def Qchan_Peer_def Qchan_Coin_def)

lemma mset_sort_by [simp]: "mset (sort_by lt xs) = mset xs"
proof -
  have "mset (insert_by lt x ys) = add_mset x (mset ys)" for x ys by (induction ys) auto
  then show ?thesis by (induction xs) (auto simp: sort_by_def)
qed

definition store_close :: "lit_node \<Rightarrow> outpoint \<Rightarrow> chan_data \<Rightarrow> bytes \<Rightarrow> lit_node" where
  "store_close nd op d txid = nd\<lparr>nd_Channels := (nd_Channels nd)(OutPointToBytes op :=
     Some (d\<lparr>cdt_CloseData := (cdt_CloseData d)\<lparr>cl_Closed := True, cl_CloseTxid := txid\<rparr>\<rparr>))\<rparr>"

lemma save_closed:
  assumes "stored nd op d"
  shows "SaveQchanUtxoData ev nd (mark_closed ce tx (chan_of ev d c)) = store_close nd op d (TxHash (ce_crypto ce) tx)"
  using assms
  by (cases d) (simp add: stored_def SaveQchanUtxoData_def GetQchan_def SaveQChan_def NewChanDataFromQchan_def
      NewQchanFromChanData_def store_close_def mark_closed_def chan_of_def Let_def)

text \<open>What a closing transaction pays to the two sides: their balances less the fee.\<close>

definition close_outs :: "crypto \<Rightarrow> qchan \<Rightarrow> int \<Rightarrow> int \<Rightarrow> tx_out multiset" where
  "close_outs cr q mine theirs =
     (let pay = (\<lambda>x key. if x = 0 then {#} else {#NewTxOut (of_int (x - st_Fee (q_State q))) (DirectWPKHScript cr key)#})
      in pay mine (q_MyRefundPub q) + pay theirs (q_TheirRefundPub q))"

lemma in_sync_link:
  assumes "in_sync ev d ev' d'"
  shows "link_keys ev ev' d" "link_keys ev' ev d'" "static_mirror (chan_of ev d c) (chan_of ev' d' c')"
    "length (q_MyPub (chan_of ev d c)) = 33" "length (q_TheirPub (chan_of ev d c)) = 33"
  using assms by (auto simp: in_sync_def link_ok_keys static_mirror_def link_ok_def chan_of_def)

lemma paying_ok:
  assumes "\<not> (a = 0 \<and> b = 0)" "a \<noteq> 0 \<longrightarrow> MinOutput \<le> a" "b \<noteq> 0 \<longrightarrow> MinOutput \<le> b"
  shows "paying op a b sa sb = Inr \<lparr>tx_Version = 1, tx_TxIn = [NewTxIn op [] []], tx_TxOut = sort_by output_less
        ((if a \<noteq> 0 then [NewTxOut (of_int a) sa] else []) @ (if b \<noteq> 0 then [NewTxOut (of_int b) sb] else [])),
        tx_LockTime = 0\<rparr>"
  using assms by (auto simp: paying_def)

lemma close_tx:
  assumes sy: "in_sync ev d ev' d'" and q: "q = chan_of ev d c"
    and v: "st_MyAmt (cdt_State d) \<noteq> 0 \<longrightarrow> reserve d \<le> st_MyAmt (cdt_State d)"
      "st_MyAmt (cdt_State d') \<noteq> 0 \<longrightarrow> reserve d \<le> st_MyAmt (cdt_State d')" "px_Value (cdt_Txo d) \<noteq> 0"
  shows "\<exists>tx. SimpleCloseTx cr q = Inr tx \<and> length (tx_TxIn tx) = 1 \<and> ti_SignatureScript (tx_TxIn tx ! 0) = [] \<and>
    mset (tx_TxOut tx) = close_outs cr q (st_MyAmt (cdt_State d)) (st_MyAmt (cdt_State d'))"
proof -
  let ?a = "st_MyAmt (cdt_State d)" and ?b = "st_MyAmt (cdt_State d')" and ?f = "st_Fee (cdt_State d)"
  have y: "0 \<le> ?a" "0 \<le> ?b" "?a + ?b = px_Value (cdt_Txo d)" "px_Value (cdt_Txo d) < 2 ^ 62" "0 \<le> ?f"
    using sy by (simp_all add: in_sync_def)
  have fee: "less_fee ?f x = (if x = 0 then 0 else x - ?f)" "less_fee ?f x \<noteq> 0 \<longrightarrow> MinOutput \<le> less_fee ?f x"
    "less_fee ?f x = 0 \<longleftrightarrow> x = 0"
    if "x \<noteq> 0 \<longrightarrow> reserve d \<le> x" "0 \<le> x" "x < 2 ^ 62" for x
    using that y(5) by (auto simp: less_fee_def i64_id MinOutput_def)
  have le: "?a < 2 ^ 62" "?b < 2 ^ 62" using y(1-4) by linarith+
  note fa = fee [OF v(1) y(1) le(1)] and fb = fee [OF v(2) y(2) le(2)]
  have r: "i64 (px_Value (cdt_Txo d) - ?a) = ?b" using y le by (simp add: i64_id)
  have ne: "\<not> (?a = 0 \<and> ?b = 0)" using v(3) y(3) by auto
  let ?sa = "DirectWPKHScript cr (q_MyRefundPub q)" and ?sb = "DirectWPKHScript cr (q_TheirRefundPub q)"
  let ?fa = "less_fee ?f ?a" and ?fb = "less_fee ?f ?b"
  let ?tx = "\<lparr>tx_Version = 1, tx_TxIn = [NewTxIn (px_Op (cdt_Txo d)) [] []], tx_TxOut = sort_by output_less
        ((if ?fa \<noteq> 0 then [NewTxOut (of_int ?fa) ?sa] else []) @ (if ?fb \<noteq> 0 then [NewTxOut (of_int ?fb) ?sb] else [])), tx_LockTime = 0\<rparr>"
  have "SimpleCloseTx cr q = paying (px_Op (cdt_Txo d)) ?fa ?fb ?sa ?sb"
    unfolding SimpleCloseTx_paying by (simp add: q r)
  also have "\<dots> = Inr ?tx"
    by (rule paying_ok) (use ne fa(2,3) fb(2,3) in simp_all)
  finally have t: "SimpleCloseTx cr q = Inr ?tx" .
  have "mset (tx_TxOut ?tx) = close_outs cr q ?a ?b"
    unfolding fa(3) fb(3) close_outs_def Let_def using fa(1) fb(1) by (simp add: q)
  then show ?thesis by (intro exI [of _ ?tx] conjI t) (simp_all add: NewTxIn_def)
qed

lemma coop_close_run:
  assumes "in_sync (ce_ev ce) d (ce_ev ce') d'" "stored nd op d" "stored nd' op d'"
    and "st_MyAmt (cdt_State d) \<noteq> 0 \<longrightarrow> reserve d \<le> st_MyAmt (cdt_State d)"
    and "st_MyAmt (cdt_State d') \<noteq> 0 \<longrightarrow> reserve d \<le> st_MyAmt (cdt_State d')" "px_Value (cdt_Txo d) \<noteq> 0"
    and "ce_se ce' = ce_se ce" "sound_engine (ce_se ce)"
    and "\<And>coin tx. ce_PushTx ce' coin tx = None" "\<And>p. ce_PeerKnown ce' p"
    and "q = chan_of (ce_ev ce) d c"
  shows "\<exists>msg tx pre swapped. let txid = TxHash (ce_crypto ce) tx in
    CoopClose ce nd q = (store_close nd op d txid, mark_closed ce tx q, [msg], None) \<and>
    CloseHandler ce' nd' msg = (store_close nd' op d' txid, [tx], None) \<and>
    FundTxScript (q_MyPub q) (q_TheirPub q) = Inr (pre, swapped) \<and>
    accepts (validate_input (ce_se ce) (P2WSHify (ce_crypto ce) pre) tx 0 spend_flags None (q_Value q)) \<and>
    mset (tx_TxOut tx) = close_outs (ce_crypto ce) q (st_MyAmt (cdt_State d)) (st_MyAmt (cdt_State d'))"
proof -
  note sy = assms(1)
  let ?cr = "ce_crypto ce"
  define q' where q': "q' = chan_of (ce_ev ce') d' True"
  note link = in_sync_link(1,2,4,5) [OF sy]
  have sm: "static_mirror q q'" using in_sync_link(3) [OF sy] by (simp add: assms(11) q')
  have m: "q_MyPub q' = q_TheirPub q" "q_TheirPub q' = q_MyPub q" "q_Value q' = q_Value q"
    using sm by (simp_all add: static_mirror_def)
  have len: "length (q_MyPub q) = 33" "length (q_TheirPub q) = 33" using link(3,4) by (simp_all add: assms(11))
  obtain tx where tx: "SimpleCloseTx ?cr q = Inr tx" "length (tx_TxIn tx) = 1" "ti_SignatureScript (tx_TxIn tx ! 0) = []"
    "mset (tx_TxOut tx) = close_outs ?cr q (st_MyAmt (cdt_State d)) (st_MyAmt (cdt_State d'))"
    using close_tx [OF sy assms(11) assms(4-6)] by blast
  have b: "st_MyAmt (cdt_State d) + st_MyAmt (cdt_State d') = q_Value q" "0 \<le> st_MyAmt (cdt_State d)"
    "0 \<le> st_MyAmt (cdt_State d')" "q_Value q < 2 ^ 62" "st_Fee (cdt_State d') = st_Fee (cdt_State d)"
    using sy by (simp_all add: in_sync_def assms(11))
  have tx': "SimpleCloseTx ?cr q' = Inr tx"
    using SimpleCloseTx_mirror [OF sm, of ?cr] b tx(1) by (simp add: assms(11) q')
  obtain pre swapped sig where s: "FundTxScript (q_MyPub q) (q_TheirPub q) = Inr (pre, swapped)" "SignSimpleClose ce q tx = Inr sig"
    "\<And>bad. check64 ce' bad (q_MyPub q) pre tx (q_Value q) sig = None" "length sig = 64"
    using close_signature [OF link(1) assms(11) len(2)] by blast
  have len': "length (q_TheirPub q') = 33" using len(1) m by simp
  obtain pre' swapped' sig' where s': "FundTxScript (q_TheirPub q) (q_MyPub q) = Inr (pre', swapped')" "SignSimpleClose ce' q' tx = Inr sig'"
    "\<And>bad. check64 ce bad (q_TheirPub q) pre' tx (q_Value q) sig' = None" "length sig' = 64"
    using close_signature [OF link(2) q' len', of tx] unfolding m by blast
  have pre: "pre' = pre" using FundTxScript_sym [OF s(1)] s'(1) by auto
  let ?msg = "MsgCloseReq (NewCloseReqMsg (Qchan_Peer q) (q_Op q) sig)"
  let ?tx = "set_witness tx (fund_witness pre swapped' (SigDecompress sig' @ [ucast SigHashAll]) (SigDecompress sig @ [ucast SigHashAll]))"
  have qs: "\<not> uncleared q" "\<not> uncleared q'" "\<not> cl_Closed (q_CloseData q)" "ev_connected (ce_node ce) (Qchan_Peer q)"
    "q_Op q = op"
    using sy assms(2) by (auto simp: in_sync_def quiet_def uncleared_def link_ok_def assms(11) q' stored_def)
  have coop: "CoopClose ce nd q = (store_close nd op d (TxHash ?cr ?tx), mark_closed ce ?tx q, [?msg], None)"
  proof -
    have e: "mark_closed ce ?tx q = mark_closed ce tx q" by (simp add: mark_closed_def)
    show ?thesis
      using qs tx(1) s(2) save_closed [OF assms(2), of "ce_ev ce" ce tx c]
      by (simp add: CoopClose_def Let_def tmpSendLitMsg_def NewCloseReqMsg_def e assms(11) [symmetric])
  qed
  have cr: "ce_crypto ce' = ?cr" using assms(7) by simp
  have sc: "signed_close ce' q' sig = Inr ?tx"
    using s(3) s'(1,2) tx' by (simp add: signed_close_def close_sig_check_def m pre cr)
  have get: "GetQchan (ce_ev ce') nd' (OutPointToBytes op) = Inr q'"
    using assms(3) by (simp add: stored_def GetQchan_def q' chan_of_def NewQchanFromChanData_def)
  have handler: "CloseHandler ce' nd' ?msg = (store_close nd' op d' (TxHash ?cr ?tx), [?tx], None)"
  proof -
    have "ev_publish (ce_node ce')" using sy by (simp add: in_sync_def link_ok_def)
    then show ?thesis
      using qs(2,5) get sc assms(9,10) save_closed [OF assms(3), of "ce_ev ce'" ce' ?tx True, folded q']
      by (simp add: CloseHandler_def CloseReqHandler_def NewCloseReqMsg_def Let_def cr)
  qed
  have "accepts (validate_input (ce_se ce) (P2WSHify ?cr pre) ?tx 0 spend_flags None (q_Value q))"
  proof (rule fund_witness_accepted [OF len(2,1) s'(1) [unfolded pre] assms(8) tx(2,3) _ _ refl])
    show "length (SigDecompress sig' @ [ucast SigHashAll]) \<le> 520" "length (SigDecompress sig @ [ucast SigHashAll]) \<le> 520"
      using SigDecompress_length [OF s(4)] SigDecompress_length [OF s'(4)] by simp_all
    fix pops assume p: "ParseScript pre = Inr pops"
    show "signed_by (ce_se ce) pops ?tx 0 None (q_Value q) (q_TheirPub q) (SigDecompress sig' @ [ucast SigHashAll]) \<and>
        signed_by (ce_se ce) pops ?tx 0 None (q_Value q) (q_MyPub q) (SigDecompress sig @ [ucast SigHashAll])"
      using check64_signed [OF s'(3) [unfolded pre] p assms(8)]
        check64_signed [OF s(3) [unfolded check64_se [OF assms(7)]] p assms(8)] by blast
  qed
  then show ?thesis
    unfolding Let_def using coop handler s(1) tx(4) by (intro exI conjI) (assumption | simp)+
qed

text \<open>A cooperative close between two honest nodes in step completes: the initiator signs and marks its
  channel closed, the other side checks the signature, adds its own, publishes the transaction and marks the channel
  closed under the same transaction number; the script engine accepts the transaction as a spend of the funding
  output, and it pays each side its balance less the fee.\<close>

theorem coop_close_completes:
  assumes "in_sync (ce_ev ce) d (ce_ev ce') d'" "stored nd op d" "stored nd' op d'"
    and "st_MyAmt (cdt_State d) \<noteq> 0 \<longrightarrow> reserve d \<le> st_MyAmt (cdt_State d)"
    and "st_MyAmt (cdt_State d') \<noteq> 0 \<longrightarrow> reserve d \<le> st_MyAmt (cdt_State d')" "px_Value (cdt_Txo d) \<noteq> 0"
    and "ce_se ce' = ce_se ce" "sound_engine (ce_se ce)"
    and "\<And>coin tx. ce_PushTx ce' coin tx = None" "\<And>p. ce_PeerKnown ce' p"
    and "q = chan_of (ce_ev ce) d c"
  shows "\<exists>msg tx pre swapped. let txid = TxHash (ce_crypto ce) tx in
    CoopClose ce nd q = (store_close nd op d txid, mark_closed ce tx q, [msg], None) \<and>
    CloseHandler ce' nd' msg = (store_close nd' op d' txid, [tx], None) \<and>
    FundTxScript (q_MyPub q) (q_TheirPub q) = Inr (pre, swapped) \<and>
    accepts (validate_input (ce_se ce) (P2WSHify (ce_crypto ce) pre) tx 0 spend_flags None (q_Value q)) \<and>
    mset (tx_TxOut tx) = close_outs (ce_crypto ce) q (st_MyAmt (cdt_State d)) (st_MyAmt (cdt_State d'))"
  using assms by (rule coop_close_run)

section \<open>The life of a channel\<close>

text \<open>What payments keep of the two balances: their sum, and that each is nothing or enough for an output.\<close>

lemma ledger_keeps:
  assumes "ledger r ps b = Some b'" "fst b \<noteq> 0 \<longrightarrow> r \<le> fst b" "snd b \<noteq> 0 \<longrightarrow> r \<le> snd b"
  shows "fst b' + snd b' = fst b + snd b \<and> (fst b' \<noteq> 0 \<longrightarrow> r \<le> fst b') \<and> (snd b' \<noteq> 0 \<longrightarrow> r \<le> snd b')"
  using assms
proof (induction r ps b rule: ledger.induct)
  case (2 r amt data ps b)
  then show ?case by (auto simp: pay_def split: if_splits)
next
  case (3 r amt data ps b)
  then show ?case by (auto simp: pay_def split: if_splits)
qed simp

text \<open>C1: The life of a channel. Two honest nodes open a channel, pay each other any list of payments that the
  ledger allows, and close it: every message of the three protocols is handled without an error, and the
  transaction published at the end is accepted by the script engine as a spend of the output that was funded, and
  pays each side what the ledger says it has, less the fee.\<close>

theorem channel_lifecycle:
  assumes "fund_pair fa fb coin pa pb wa wb op" "fund_amounts wa ccap initSend" "length data = 32"
    and "ff_PeerIdx (fu_InProg na) = 0" "ff_done (fu_InProg na) = None" "fu_DualPeer na = 0" "NextChannelIdx na < 2 ^ 31"
    and "fu_DualPeer nb = 0" "NextChannelIdx nb < 2 ^ 31"
    and "wl_TestCoin wa \<or> 100 \<le> h" "wl_TestCoin wb \<or> 100 \<le> h'"
    and l: "ledger (MinOutput + wl_Fee wa * 10) ps (ccap - initSend, initSend) = Some (x, y)" "length ps \<le> 2 ^ 47"
    and ev: "fe_ev fa = ce_ev ce" "fe_ev fb = ce_ev ce'" "ce_se ce' = ce_se ce" "sound_engine (ce_se ce)"
    and net: "\<And>coin tx. ce_PushTx ce' coin tx = None" "\<And>p. ce_PeerKnown ce' p"
  shows "\<exists>na1 ms na2 ra nb2 rb q q' nd nd' r r' d msg nd1 nd1' q1 tx pre swapped.
    FundChannel fa na pb coin ccap initSend data = (na1, ms, None) \<and>
    relay 5 (fa, pb, na1, rpa) (fb, pa, nb, rpb) ms = Some ((fa, pb, na2, ra), (fb, pa, nb2, rb)) \<and>
    rp_QCs ra (NextChannelIdx na) = Some q \<and> rp_QCs rb (NextChannelIdx nb) = Some q' \<and>
    push_rounds (fe_ev fa) (fe_ev fb) (fu_node (confirm_channel (fe_ev fa) na2 op h), q)
      (fu_node (confirm_channel (fe_ev fb) nb2 op h'), q') ps = Some ((nd, r), (nd', r')) \<and>
    GetQchan (ce_ev ce) nd (OutPointToBytes op) = Inr d \<and>
    CoopClose ce nd d = (nd1, q1, [msg], None) \<and> CloseHandler ce' nd' msg = (nd1', [tx], None) \<and>
    FundTxScript (q_MyPub d) (q_TheirPub d) = Inr (pre, swapped) \<and>
    accepts (validate_input (ce_se ce) (P2WSHify (ce_crypto ce) pre) tx 0 spend_flags None ccap) \<and>
    mset (tx_TxOut tx) = close_outs (ce_crypto ce) d x y"
proof -
  obtain na1 ms na2 ra nb2 rb d d' q q' where o: "FundChannel fa na pb coin ccap initSend data = (na1, ms, None)"
    "relay 5 (fa, pb, na1, rpa) (fb, pa, nb, rpb) ms = Some ((fa, pb, na2, ra), (fb, pa, nb2, rb))"
    "rp_QCs ra (NextChannelIdx na) = Some q" "rp_QCs rb (NextChannelIdx nb) = Some q'"
    "idle (fu_node (confirm_channel (fe_ev fa) na2 op h), q) d" "idle (fu_node (confirm_channel (fe_ev fb) nb2 op h'), q') d'"
    "in_sync (fe_ev fa) d (fe_ev fb) d'" "st_StateIdx (cdt_State d) = 0" "balances d d' = (ccap - initSend, initSend)"
    "st_Fee (cdt_State d) = wl_Fee wa * 10" "q_Op q = op" "q_Op q' = op"
    using honest_fund [OF assms(1-11), of rpa rpb] by blast
  have run: "ledger (reserve d) ps (balances d d') = Some (x, y)" "unat (st_StateIdx (cdt_State d)) + length ps \<le> 2 ^ 47"
    using l o(8-10) by simp_all
  obtain nd r nd' r' e e' where p: "push_rounds (fe_ev fa) (fe_ev fb) (fu_node (confirm_channel (fe_ev fa) na2 op h), q)
      (fu_node (confirm_channel (fe_ev fb) nb2 op h'), q') ps = Some ((nd, r), (nd', r'))"
    "idle (nd, r) e" "idle (nd', r') e'" "in_sync (fe_ev fa) e (fe_ev fb) e'" "balances e e' = (x, y)"
    "st_Fee (cdt_State e) = st_Fee (cdt_State d)" "q_Op r = op" "q_Op r' = op"
    using ledger_run [OF o(7,5,6) run] o(11,12) by fastforce
  have am: "fund_amounts wa ccap initSend" "0 \<le> wl_Fee wa" using assms(1,2) by (simp_all add: fund_pair_def)
  have b0: "fst (balances d d') \<noteq> 0 \<longrightarrow> reserve d \<le> fst (balances d d')" "snd (balances d d') \<noteq> 0 \<longrightarrow> reserve d \<le> snd (balances d d')"
    using am o(9,10) by (auto simp: fund_amounts_def)
  have b: "x + y = ccap" "x \<noteq> 0 \<longrightarrow> reserve d \<le> x" "y \<noteq> 0 \<longrightarrow> reserve d \<le> y"
    using ledger_keeps [OF run(1) b0] o(9) by simp_all
  have v: "px_Value (cdt_Txo e) = ccap"
    using p(4,5) b(1) by (auto simp: in_sync_def balances_def)
  let ?d = "chan_of (ce_ev ce) e True"
  have st: "stored nd op e" "stored nd' op e'" using p(2,3,7,8) by (auto simp: idle_def)
  have get: "GetQchan (ce_ev ce) nd (OutPointToBytes op) = Inr ?d"
    using st(1) by (simp add: stored_def GetQchan_def chan_of_def NewQchanFromChanData_def)
  have am: "st_MyAmt (cdt_State e) = x" "st_MyAmt (cdt_State e') = y" using p(5) by (simp_all add: balances_def)
  have nz: "ccap \<noteq> 0" using assms(2) by (auto simp: fund_amounts_def MinChanCapacity_def)
  note close = coop_close_run [OF p(4) [unfolded ev(1,2)] st _ _ _ ev(3,4) net refl, of True]
  obtain msg tx pre swapped where c: "CoopClose ce nd ?d = (store_close nd op e (TxHash (ce_crypto ce) tx), mark_closed ce tx ?d, [msg], None)"
    "CloseHandler ce' nd' msg = (store_close nd' op e' (TxHash (ce_crypto ce) tx), [tx], None)"
    "FundTxScript (q_MyPub ?d) (q_TheirPub ?d) = Inr (pre, swapped)"
    "accepts (validate_input (ce_se ce) (P2WSHify (ce_crypto ce) pre) tx 0 spend_flags None (q_Value ?d))"
    "mset (tx_TxOut tx) = close_outs (ce_crypto ce) ?d (st_MyAmt (cdt_State e)) (st_MyAmt (cdt_State e'))"
    using close b(2,3) p(6) nz unfolding v am Let_def by auto
  show ?thesis
    using o(1-4) p(1) get c v by (intro exI conjI) (assumption | simp add: am)+
qed

section \<open>Examples\<close>

text \<open>A pair of nodes with signatures whose first number names the key: 2 for the key of twos, else 1.\<close>

definition toy_se :: script_env where
  "toy_se = \<lparr>se_crypto = toy_crypto, se_Ripemd160 = (\<lambda>x. replicate 20 0), se_Sha1 = (\<lambda>x. replicate 20 0),
     se_ParsePubKey = (\<lambda>k. Some (uint (hd k), 0)), se_ParseDERSignature = (\<lambda>s. Some (uint (s ! 4), 0)),
     se_ParseSignature = (\<lambda>s. Some (uint (s ! 4), 0)), se_Verify = (\<lambda>s h k. fst s = fst k), se_cached = (\<lambda>h s k. False)\<rparr>"

definition toy_num :: "bytes \<Rightarrow> byte" where
  "toy_num key = (if key = replicate 33 2 then 2 else 1)"

definition toy_close :: "byte \<Rightarrow> close_env" where
  "toy_close me = \<lparr>ce_node = toy_env me, ce_se = toy_se,
     ce_Sign = (\<lambda>key h. Inr (der_sig (replicate 32 (toy_num key)) (replicate 32 1))), ce_spare = [],
     ce_CombineSub = (\<lambda>a b. a), ce_PushTx = (\<lambda>c tx. None), ce_PeerKnown = (\<lambda>p. True)\<rparr>"

lemma parse_calm: "ParseScript s \<noteq> Inl ScriptPanic"
proof -
  have "snd (parseScript s) \<noteq> Some ScriptPanic"
    by (induction s rule: parseScript.induct) (auto simp: parseScript.simps(2) add_pop_def Let_def)
  then show ?thesis by (auto simp: ParseScript_def split: prod.splits option.splits)
qed

text \<open>The panic of the witness hash needs a script that is not the result of parsing.\<close>

lemma hash_calm:
  assumes "ParseScript s = Inr pops"
  shows "CalcWitnessSignatureHash cr pops hs t tx i amt \<noteq> Inl ScriptPanic"
proof -
  have u: "unparseScript pops = Inr s"
    using assms parse_unparse [of s pops] by (auto simp: ParseScript_def split: prod.splits option.splits)
  have "22 \<le> length s" if w: "isWitnessPubKeyHash pops"
  proof -
    obtain a b where "pops = [a, b]" "po_op a = OP_0" "po_op b = OP_DATA_20"
      using w by (cases pops; cases "tl pops") (auto simp: isWitnessPubKeyHash_def)
    then show ?thesis
      using u by (auto simp: unparse_Cons pop_bytes_def opcode_length_def Let_def bind_res_eq_Inr split: if_splits)
  qed
  then show ?thesis
    by (auto simp: CalcWitnessSignatureHash_def script_code_def u Let_def bind_res_eq_Inl)
qed

lemma toy_ints: "der_int (replicate 32 (toy_num k))" "der_int (replicate 32 1)"
  by (simp_all add: der_int_def toy_num_def)

lemma toy_compress:
  "SigCompress (der_sig (replicate 32 (toy_num k)) (replicate 32 1)) extra = Inr (replicate 32 (toy_num k) @ replicate 32 1)"
  using compress_der [of "replicate 32 (toy_num k)" "replicate 32 1" extra] min_int_zeros [OF toy_ints(1) [of k], of 0]
    min_int_zeros [OF toy_ints(2), of 0] by simp

lemma toy_decompress:
  "SigDecompress (replicate 32 (toy_num k) @ replicate 32 1) = der_sig (replicate 32 (toy_num k)) (replicate 32 1)"
  using decompress_der [of "replicate 32 (toy_num k) @ replicate 32 1"] min_int_zeros [OF toy_ints(1) [of k], of 0]
    min_int_zeros [OF toy_ints(2), of 0] by simp

lemma toy_sign:
  "sign64 (toy_close me) priv script tx amt = (case ParseScript script of Inl e \<Rightarrow> Inl BadFormat
     | Inr pops \<Rightarrow> (case CalcWitnessSignatureHash toy_crypto pops (NewTxSigHashes toy_crypto tx) SigHashAll tx 0 amt of
         Inl e \<Rightarrow> Inl BadFormat | Inr hash \<Rightarrow> Inr (replicate 32 (toy_num priv) @ replicate 32 1)))"
  using parse_calm [of script] hash_calm [of script]
  by (auto simp: sign64_def RawTxInWitnessSignature_def script_res_def toy_close_def toy_se_def toy_compress
      split: sum.split)

lemma toy_signs:
  assumes "x = 1 \<or> x = 2"
  shows "signs_for (ce_ev (toy_close x)) (ce_ev (toy_close y)) kg (replicate 33 x)"
proof -
  have num: "toy_num (replicate 33 x) = x" using assms by (auto simp: toy_num_def)
  have "sign64 (toy_close x) (replicate 33 x) script tx v = Inr (replicate 32 x @ replicate 32 1) \<and>
      check64 (toy_close y) Mismatch (replicate 33 x) script tx v (replicate 32 x @ replicate 32 1) = None"
    if f: "length a = 33" "length b = 33" "FundTxScript a b = Inr (script, w)" for a b script w tx v
  proof -
    obtain k1 k2 where p: "ParseScript script = Inr (fund_pops k1 k2)"
      using parse_FundTxScript(1) [OF f] by (auto split: if_splits)
    have "\<not> isWitnessPubKeyHash (fund_pops k1 k2)" by (simp add: isWitnessPubKeyHash_def fund_pops_def)
    then obtain hash where "CalcWitnessSignatureHash toy_crypto (fund_pops k1 k2) (NewTxSigHashes toy_crypto tx) SigHashAll tx 0 v = Inr hash"
      using CalcWitnessSignatureHash_returns by blast
    then show ?thesis
      using p toy_decompress [of "replicate 33 x"]
      by (simp add: toy_sign check64_def script_res_def num) (simp add: toy_close_def toy_se_def der_sig_def nth_append)
  qed
  moreover have "ev_GetPriv (ce_node (toy_close x)) kg = Inr (replicate 33 x)" by (simp add: toy_close_def toy_env_def)
  ultimately show ?thesis unfolding signs_for_def ce_ev_simps by blast
qed

lemma toy_sign_calm: "sign64 (toy_close me) k s t v \<noteq> Inl Panic" "sign64 (toy_close me) k s t v = Inr sig \<Longrightarrow> length sig = 64"
  by (auto simp: toy_sign split: sum.splits)

lemma toy_sound: "sound_engine toy_se"
  by (simp add: sound_engine_def toy_se_def toy_crypto_def)

lemma toy_close_sync:
  assumes "0 \<le> a" "a \<le> 1000000"
  shows "in_sync (ce_ev (toy_close 1)) (toy_data 1 2 a) (ce_ev (toy_close 2)) (toy_data 2 1 (1000000 - a))"
proof -
  have n: "ce_node (toy_close x) = toy_env x" "ce_crypto (toy_close x) = toy_crypto" "ev_crypto (toy_env x) = toy_crypto" for x
    by (simp_all add: toy_close_def toy_se_def toy_env_def)
  have use: "GetUsePub (ce_ev (toy_close x)) k u = GetUsePub (toy_env x) k u" for x k u
    unfolding GetUsePub_def ce_ev_simps n ..
  have root: "GetElkremRoot (ce_ev (toy_close x)) k = GetElkremRoot (toy_env x) k" for x k
    by (simp add: GetElkremRoot_def use n)
  have c: "chan_of (ce_ev (toy_close x)) d b = chan_of (toy_env x) d b" "root_of (ce_ev (toy_close x)) d = root_of (toy_env x) d" for x d b
    by (simp_all add: chan_of_def NewQchanFromChanData_def root_of_def GetUsePub_ign_def use root)
  have k: "link_ok (ce_ev (toy_close x)) (ce_ev (toy_close y)) (toy_data x y b)"
    if "link_ok (toy_env x) (toy_env y) (toy_data x y b)" "x = 1 \<or> x = 2" for x y b
  proof -
    have "q_MyPub (chan_of (toy_env x) (toy_data x y b) True) = replicate 33 x"
      by (simp add: chan_of_def NewQchanFromChanData_def GetUsePub_ign_def GetUsePub_def toy_env_def)
    then show ?thesis
      using that(1) toy_signs [OF that(2)] toy_sign_calm by (simp add: link_ok_def c n)
  qed
  have sy: "in_sync (toy_env 1) (toy_data 1 2 a) (toy_env 2) (toy_data 2 1 (1000000 - a))"
    using toy_sync(1) [OF assms] .
  then show ?thesis
    using k unfolding in_sync_def c by (simp add: n)
qed

theorem coop_close_completes_witness:
  "\<exists>msg tx pre swapped. let txid = TxHash toy_crypto tx; q = chan_of (ce_ev (toy_close 1)) (toy_data 1 2 600000) True in
    CoopClose (toy_close 1) (toy_db 1 2 600000) q =
      (store_close (toy_db 1 2 600000) (q_Op q) (toy_data 1 2 600000) txid, mark_closed (toy_close 1) tx q, [msg], None) \<and>
    CloseHandler (toy_close 2) (toy_db 2 1 400000) msg =
      (store_close (toy_db 2 1 400000) (q_Op q) (toy_data 2 1 400000) txid, [tx], None) \<and>
    accepts (validate_input toy_se (P2WSHify toy_crypto pre) tx 0 spend_flags None (q_Value q)) \<and>
    mset (tx_TxOut tx) = close_outs toy_crypto q 600000 400000"
proof -
  let ?q = "chan_of (ce_ev (toy_close 1)) (toy_data 1 2 600000) True"
  have a: "(0 :: int) \<le> 600000" "(600000 :: int) \<le> 1000000" by simp_all
  have f: "q_Op (toy_chan 1 2 3 600000 1000 []) = q_Op ?q" "q_Op (toy_chan 2 1 3 400000 1000 []) = q_Op ?q"
    "st_MyAmt (cdt_State (toy_data x y b)) = b" "st_Fee (cdt_State (toy_data x y b)) = 1000" "px_Value (cdt_Txo (toy_data x y b)) = 1000000"
    for x y b
    by (simp_all add: toy_data_def NewChanDataFromQchan_def toy_chan_def)
  have e: "ce_se (toy_close x) = toy_se" "ce_PushTx (toy_close x) c tx = None" "ce_PeerKnown (toy_close x) p" "se_crypto toy_se = toy_crypto" for x c tx p
    by (simp_all add: toy_close_def toy_se_def)
  have st: "stored (toy_db 1 2 600000) (q_Op ?q) (toy_data 1 2 600000)" "stored (toy_db 2 1 400000) (q_Op ?q) (toy_data 2 1 400000)"
    using toy_sync(2,3) [OF a] by (simp_all add: f(1,2))
  have sy: "in_sync (ce_ev (toy_close 1)) (toy_data 1 2 600000) (ce_ev (toy_close 2)) (toy_data 2 1 400000)"
    using toy_close_sync [OF a] by simp
  have "\<exists>msg tx pre swapped. let txid = TxHash (ce_crypto (toy_close 1)) tx in
    CoopClose (toy_close 1) (toy_db 1 2 600000) ?q = (store_close (toy_db 1 2 600000) (q_Op ?q) (toy_data 1 2 600000) txid, mark_closed (toy_close 1) tx ?q, [msg], None) \<and>
    CloseHandler (toy_close 2) (toy_db 2 1 400000) msg = (store_close (toy_db 2 1 400000) (q_Op ?q) (toy_data 2 1 400000) txid, [tx], None) \<and>
    FundTxScript (q_MyPub ?q) (q_TheirPub ?q) = Inr (pre, swapped) \<and>
    accepts (validate_input (ce_se (toy_close 1)) (P2WSHify (ce_crypto (toy_close 1)) pre) tx 0 spend_flags None (q_Value ?q)) \<and>
    mset (tx_TxOut tx) = close_outs (ce_crypto (toy_close 1)) ?q (st_MyAmt (cdt_State (toy_data 1 2 600000))) (st_MyAmt (cdt_State (toy_data 2 1 400000)))"
    by (rule coop_close_completes [OF sy st]) (simp_all add: f(3-5) e toy_sound MinOutput_def)
  then show ?thesis unfolding f(3) e Let_def by blast
qed

definition toy_life :: "byte \<Rightarrow> fund_env" where
  "toy_life me = (toy_fund me)\<lparr>fe_ev := ce_ev (toy_close me)\<rparr>"

lemma toy_life_pair:
  "fund_pair (toy_life 1) (toy_life 2) 1 2 3 toy_wallet toy_wallet \<lparr>op_Hash = replicate 32 7, op_Index = 0\<rparr>"
proof -
  have n: "ce_node (toy_close x) = toy_env x" "ce_crypto (toy_close x) = toy_crypto" for x
    by (simp_all add: toy_close_def toy_se_def)
  have f: "fe_ev (toy_life x) = ce_ev (toy_close x)" "fe_ValidPub (toy_life x) = (\<lambda>b. length b = 33)" "fe_PeerKnown (toy_life x) = (\<lambda>p. True)"
    "fe_WatchThis (toy_life x) = (\<lambda>c op. None)" for x
    by (simp_all add: toy_life_def toy_fund_def)
  have t: "ev_GetPub (toy_env x) k = replicate 33 x" "ev_GetPriv (toy_env x) k = Inr (replicate 33 x)" "ev_connected (toy_env x) p" "ev_publish (toy_env x)"
    "ev_wallet (toy_env x) c = Some toy_wallet" for x k p c
    by (simp_all add: toy_env_def)
  have side: "fund_side (toy_life x) (toy_life y) 1 p" if "x = 1 \<or> x = 2" "p < 2 ^ 31" for x y p
  proof -
    have "signs_for (ce_ev (toy_close x)) (ce_ev (toy_close y)) k (replicate 33 x)" for k
      using that(1) by (rule toy_signs)
    moreover have "length (cr_PubFromHash toy_crypto (cr_DoubleHash toy_crypto h)) = 33" for h
      by (simp add: toy_crypto_def)
    ultimately show ?thesis
      using that(2) toy_sign_calm t(3,4) unfolding fund_side_def f ce_ev_simps n t(1,2) by simp
  qed
  have "fund_side (toy_life 1) (toy_life 2) 1 3" "fund_side (toy_life 2) (toy_life 1) 1 2" by (rule side; simp)+
  then show ?thesis
    unfolding fund_pair_def f ce_ev_simps n t by (simp add: toy_life_def toy_fund_def wf_outpoint_def)
qed

theorem channel_lifecycle_witness:
  "\<exists>na1 ms na2 ra nb2 rb q q' nd nd' r r' d msg nd1 nd1' q1 tx pre.
    FundChannel (toy_life 1) toy_fund_node 3 1 2000000 500000 (replicate 32 5) = (na1, ms, None) \<and>
    relay 5 (toy_life 1, 3, na1, toy_peer) (toy_life 2, 2, toy_fund_node, toy_peer) ms =
      Some ((toy_life 1, 3, na2, ra), (toy_life 2, 2, nb2, rb)) \<and>
    push_rounds (ce_ev (toy_close 1)) (ce_ev (toy_close 2))
      (fu_node (confirm_channel (ce_ev (toy_close 1)) na2 \<lparr>op_Hash = replicate 32 7, op_Index = 0\<rparr> 0), q)
      (fu_node (confirm_channel (ce_ev (toy_close 2)) nb2 \<lparr>op_Hash = replicate 32 7, op_Index = 0\<rparr> 0), q')
      [(True, 50000, []), (False, 20000, [])] = Some ((nd, r), (nd', r')) \<and>
    CoopClose (toy_close 1) nd d = (nd1, q1, [msg], None) \<and> CloseHandler (toy_close 2) nd' msg = (nd1', [tx], None) \<and>
    accepts (validate_input toy_se (P2WSHify toy_crypto pre) tx 0 spend_flags None 2000000) \<and>
    mset (tx_TxOut tx) = close_outs toy_crypto d 1470000 530000"
proof -
  have h: "length (replicate 32 (5 :: byte)) = 32" "NextChannelIdx toy_fund_node < 2 ^ 31"
    "wl_TestCoin toy_wallet \<or> 100 \<le> (0 :: int)" "length [(True, 50000 :: u32, [] :: bytes), (False, 20000, [])] \<le> 2 ^ 47"
    by (simp_all add: toy_fund_start)
  have l: "ledger (MinOutput + wl_Fee toy_wallet * 10) [(True, 50000, []), (False, 20000, [])] (2000000 - 500000, 500000) =
      Some (1470000, 530000)"
    by (simp add: pay_def MinOutput_def)
  have f: "fe_ev (toy_life x) = ce_ev (toy_close x)" "ce_se (toy_close x) = toy_se" "se_crypto toy_se = toy_crypto" for x
    by (simp_all add: toy_life_def toy_close_def toy_se_def)
  have e: "ce_se (toy_close 2) = ce_se (toy_close 1)" "sound_engine (ce_se (toy_close 1))" "ce_PushTx (toy_close 2) c tx = None" "ce_PeerKnown (toy_close 2) p"
    for c tx p
    using toy_sound by (simp_all add: toy_close_def)
  from channel_lifecycle [OF toy_life_pair toy_fund_start(1) h(1) toy_fund_start(2-4) h(2) toy_fund_start(4) h(2,3,3) l h(4) f(1,1) e,
      of toy_peer toy_peer]
  show ?thesis unfolding f by blast
qed

end
