(* ===== verification/Recovery.thy ===== *)
theory Recovery
  imports CloseRun
begin

text \<open>
  What a node gets back from a transaction that closed a channel on its own: its output of the commitment it
  broadcast, the outputs of a revoked commitment of the other side while it holds the revocation secret, and what
  is lost when it does not.
\<close>

section \<open>Finding the outputs of a commitment\<close>

definition hash_lengths :: "crypto \<Rightarrow> bool" where
  "hash_lengths cr \<longleftrightarrow> (\<forall>x. length (cr_Sha256 cr x) = 32) \<and> (\<forall>x. length (cr_Hash160 cr x) = 20) \<and>
     (\<forall>x. length (cr_DoubleHash cr x) = 32)"

lemma script_lengths:
  assumes "hash_lengths cr"
  shows "length (P2WSHify cr s) = 34" "length (DirectWPKHScript cr k) = 22"
proof -
  show "length (P2WSHify cr s) = 34" using parse_P2WSHify(2) [of cr s] assms by (simp add: hash_lengths_def)
  have l: "length (cr_Hash160 cr k) = 20" using assms by (simp add: hash_lengths_def)
  then have d: "length (addData_bytes (cr_Hash160 cr k)) = 21" by (simp add: addData_bytes_def Let_def)
  have wf: "list_all wf_item [Op OP_0, Data (cr_Hash160 cr k)]"
    "length (concat (map item_bytes [Op OP_0, Data (cr_Hash160 cr k)])) \<le> maxScriptSize"
    using l d by (simp_all add: opcode_length_def MaxScriptElementSize_def maxScriptSize_def)
  show "length (DirectWPKHScript cr k) = 22"
    using build_script_bytes [OF wf] d by (simp add: DirectWPKHScript_def)
qed

lemma numbered_snoc: "numbered (xs @ [x]) = numbered xs @ [(of_nat (length xs), x)]"
  by (simp add: numbered_def)

text \<open>A search that keeps the last hit.\<close>

lemma fold_last:
  "(\<exists>k<length xs. P (of_nat k) (xs ! k) \<and> fold (\<lambda>(i, x) a. if P i x then g i else a) (numbered xs) z = g (of_nat k)) \<or>
   (\<forall>k<length xs. \<not> P (of_nat k) (xs ! k)) \<and> fold (\<lambda>(i, x) a. if P i x then g i else a) (numbered xs) z = z"
proof (induction xs rule: rev_induct)
  case (snoc x xs)
  show ?case
  proof (cases "P (of_nat (length xs)) x")
    case True
    then show ?thesis by (intro disjI1 exI [of _ "length xs"]) (simp add: numbered_snoc)
  next
    case False
    then have "fold (\<lambda>(i, x) a. if P i x then g i else a) (numbered (xs @ [x])) z =
        fold (\<lambda>(i, x) a. if P i x then g i else a) (numbered xs) z"
      by (simp add: numbered_snoc)
    note f = this
    from snoc show ?thesis
    proof (elim disjE exE conjE)
      fix k assume "k < length xs" "P (of_nat k) (xs ! k)" "fold (\<lambda>(i, x) a. if P i x then g i else a) (numbered xs) z = g (of_nat k)"
      then show ?thesis by (intro disjI1 exI [of _ k]) (simp add: f nth_append)
    next
      assume "\<forall>k<length xs. \<not> P (of_nat k) (xs ! k)" "fold (\<lambda>(i, x) a. if P i x then g i else a) (numbered xs) z = z"
      then show ?thesis using False f by (intro disjI2) (auto simp: nth_append less_Suc_eq)
    qed
  qed
qed (simp add: numbered_def)

lemma find_sh_plain:
  "(\<exists>k<length (tx_TxOut tx). length (to_PkScript (tx_TxOut tx ! k)) = 34 \<and> find_sh [] tx = of_nat k) \<or>
   (\<forall>out\<in>set (tx_TxOut tx). length (to_PkScript out) \<noteq> 34) \<and> find_sh [] tx = 999"
  using fold_last [of "tx_TxOut tx" "\<lambda>i out. length (to_PkScript out) = 34" "\<lambda>i. i" 999]
  by (auto simp: find_sh_def in_set_conv_nth)

lemma find_pkh_plain:
  "(\<exists>k<length (tx_TxOut tx). length (to_PkScript (tx_TxOut tx ! k)) \<noteq> 34 \<and> to_PkScript (tx_TxOut tx ! k) = s \<and>
      find_pkh s tx = Some (of_nat k)) \<or>
   (\<forall>out\<in>set (tx_TxOut tx). length (to_PkScript out) \<noteq> 34 \<longrightarrow> to_PkScript out \<noteq> s) \<and> find_pkh s tx = None"
  using fold_last [of "tx_TxOut tx" "\<lambda>i out. length (to_PkScript out) \<noteq> 34 \<and> s = to_PkScript out" Some None]
  by (auto simp: find_pkh_def in_set_conv_nth)

text \<open>The transaction of a commitment without HTLCs.\<close>

definition plain_commit :: "crypto \<Rightarrow> qchan \<Rightarrow> bool \<Rightarrow> int \<Rightarrow> int \<Rightarrow> bytes \<Rightarrow> bytes \<Rightarrow> msg_tx" where
  "plain_commit cr q mine fancy pkh script key =
     InPlaceSort (snd (SetStateIdxBits
       \<lparr>tx_Version = 1, tx_TxIn = [NewTxIn (q_Op q) [] []],
        tx_TxOut = commit_outs fancy pkh (P2WSHify cr script) (DirectWPKHScript cr key) [], tx_LockTime = 0\<rparr>
       (st_StateIdx (q_State q)) (GetChanHint cr q mine)))"

lemma plain_commit_outs [simp]:
  "tx_TxOut (plain_commit cr q mine fancy pkh script key) =
     sort_by output_less (commit_outs fancy pkh (P2WSHify cr script) (DirectWPKHScript cr key) [])"
  by (simp add: plain_commit_def InPlaceSort_def SetStateIdxBits_fields)

lemma plain_commit_input:
  "length (tx_TxIn (plain_commit cr q mine fancy pkh script key)) = 1"
  "ti_PreviousOutPoint (tx_TxIn (plain_commit cr q mine fancy pkh script key) ! 0) = q_Op q"
  "ti_SignatureScript (tx_TxIn (plain_commit cr q mine fancy pkh script key) ! 0) = []"
  by (simp_all add: plain_commit_def InPlaceSort_def SetStateIdxBits_def NewTxIn_def Let_def)

lemma plain_commit_state:
  assumes "st_StateIdx (q_State q) < 2 ^ 48" "hash_lengths cr"
  shows "GetStateIdxFromTx (plain_commit cr q mine fancy pkh script key) (GetChanHint cr q mine) = st_StateIdx (q_State q)"
  unfolding plain_commit_def
  by (rule GetSet_StateIdx) (use assms GetChanHint_bound in \<open>simp_all add: hash_lengths_def\<close>)

lemma plain_sh:
  assumes "hash_lengths cr" "fancy \<noteq> 0"
  shows "\<exists>k. find_sh [] (plain_commit cr q mine fancy pkh script key) = of_nat k \<and> k < 2 \<and>
    k < length (tx_TxOut (plain_commit cr q mine fancy pkh script key)) \<and>
    tx_TxOut (plain_commit cr q mine fancy pkh script key) ! k = NewTxOut (of_int fancy) (P2WSHify cr script)"
proof -
  let ?tx = "plain_commit cr q mine fancy pkh script key"
  have s: "set (tx_TxOut ?tx) \<subseteq> {NewTxOut (of_int fancy) (P2WSHify cr script), NewTxOut (of_int pkh) (DirectWPKHScript cr key)}"
    "NewTxOut (of_int fancy) (P2WSHify cr script) \<in> set (tx_TxOut ?tx)" "length (tx_TxOut ?tx) \<le> 2"
    using assms(2) by (auto simp: commit_outs_def)
  note l = script_lengths [OF assms(1)]
  have "\<not> (\<forall>out\<in>set (tx_TxOut ?tx). length (to_PkScript out) \<noteq> 34)"
    using s(2) l(1) by (force simp: NewTxOut_def)
  then obtain k where k: "k < length (tx_TxOut ?tx)" "length (to_PkScript (tx_TxOut ?tx ! k)) = 34" "find_sh [] ?tx = of_nat k"
    using find_sh_plain [of ?tx] by auto
  have "tx_TxOut ?tx ! k \<in> set (tx_TxOut ?tx)" using k(1) by (rule nth_mem)
  then have "tx_TxOut ?tx ! k = NewTxOut (of_int fancy) (P2WSHify cr script)"
    using s(1) k(2) l(2) by (auto simp: NewTxOut_def simp del: plain_commit_outs)
  then show ?thesis using k s(3) by (intro exI [of _ k]) simp
qed

lemma plain_pkh:
  assumes "hash_lengths cr" "pkh \<noteq> 0"
  shows "\<exists>k. find_pkh (DirectWPKHScript cr key) (plain_commit cr q mine fancy pkh script key) = Some (of_nat k) \<and> k < 2 \<and>
    k < length (tx_TxOut (plain_commit cr q mine fancy pkh script key)) \<and>
    tx_TxOut (plain_commit cr q mine fancy pkh script key) ! k = NewTxOut (of_int pkh) (DirectWPKHScript cr key)"
proof -
  let ?tx = "plain_commit cr q mine fancy pkh script key"
  have s: "set (tx_TxOut ?tx) \<subseteq> {NewTxOut (of_int fancy) (P2WSHify cr script), NewTxOut (of_int pkh) (DirectWPKHScript cr key)}"
    "NewTxOut (of_int pkh) (DirectWPKHScript cr key) \<in> set (tx_TxOut ?tx)" "length (tx_TxOut ?tx) \<le> 2"
    using assms(2) by (auto simp: commit_outs_def)
  note l = script_lengths [OF assms(1)]
  have "\<not> (\<forall>out\<in>set (tx_TxOut ?tx). length (to_PkScript out) \<noteq> 34 \<longrightarrow> to_PkScript out \<noteq> DirectWPKHScript cr key)"
    using s(2) l(2) by (force simp: NewTxOut_def)
  then obtain k where k: "k < length (tx_TxOut ?tx)" "length (to_PkScript (tx_TxOut ?tx ! k)) \<noteq> 34"
    "find_pkh (DirectWPKHScript cr key) ?tx = Some (of_nat k)"
    using find_pkh_plain [of ?tx "DirectWPKHScript cr key"] by auto
  have "tx_TxOut ?tx ! k \<in> set (tx_TxOut ?tx)" using k(1) by (rule nth_mem)
  then have "tx_TxOut ?tx ! k = NewTxOut (of_int pkh) (DirectWPKHScript cr key)"
    using s(1) k(2) l(1) by (auto simp: NewTxOut_def simp del: plain_commit_outs)
  then show ?thesis using k s(3) by (intro exI [of _ k]) simp
qed

lemma plain_no_pkh:
  assumes "hash_lengths cr" "DirectWPKHScript cr key' \<noteq> DirectWPKHScript cr key"
  shows "find_pkh (DirectWPKHScript cr key') (plain_commit cr q mine fancy pkh script key) = None"
proof -
  let ?tx = "plain_commit cr q mine fancy pkh script key"
  have "set (tx_TxOut ?tx) \<subseteq> {NewTxOut (of_int fancy) (P2WSHify cr script), NewTxOut (of_int pkh) (DirectWPKHScript cr key)}"
    by (auto simp: commit_outs_def)
  then have "\<forall>out\<in>set (tx_TxOut ?tx). length (to_PkScript out) \<noteq> 34 \<longrightarrow> to_PkScript out \<noteq> DirectWPKHScript cr key'"
    using script_lengths [OF assms(1)] assms(2) by (fastforce simp: NewTxOut_def)
  then show ?thesis
    using find_pkh_plain [of ?tx "DirectWPKHScript cr key'"] by (fastforce dest: nth_mem)
qed

text \<open>Nothing of this depends on the witness.\<close>

lemma find_witness [simp]:
  "find_sh hs (set_witness tx w) = find_sh hs tx" "find_pkh s (set_witness tx w) = find_pkh s tx"
  by (simp_all add: find_sh_def find_pkh_def)

lemma state_idx_witness [simp]: "GetStateIdxFromTx (set_witness tx w) x = GetStateIdxFromTx tx x"
  by (cases "tx_TxIn tx") (simp_all add: GetStateIdxFromTx_def set_witness_def)

lemma outpoint_witness [simp]:
  "length (tx_TxIn tx) = 1 \<Longrightarrow> ti_PreviousOutPoint (tx_TxIn (set_witness tx w) ! 0) = ti_PreviousOutPoint (tx_TxIn tx ! 0)"
  by (cases "tx_TxIn tx") (simp_all add: set_witness_def)

lemma close_txo_witness [simp]: "close_txo cr q (set_witness tx w) idx use = close_txo cr q tx idx use"
  by (simp add: close_txo_def)

lemma sh_txo_witness [simp]: "sh_txo cr q (set_witness tx w) idx p s seq ps = sh_txo cr q tx idx p s seq ps"
  by (simp add: sh_txo_def)

lemma GetHtlcTxos_none:
  assumes "st_HTLCs (q_State q) = []" "ElkPoint cr q False (st_StateIdx (q_State q)) = Inr elk"
  shows "GetHtlcTxos cr q tx mine = Inr []"
  using assms by (cases mine) (simp_all add: GetHtlcTxos_def GetKeysFromState_def GetHtlcTxosWithElkPointsAndRevPub_def Let_def)

lemma pkh_txo_witness [simp]: "pkh_txo cr q (set_witness tx w) idx = pkh_txo cr q tx idx"
  by (simp add: pkh_txo_def)

text \<open>A commitment that was built, when the state has no HTLCs.\<close>

definition no_htlcs :: "stat_com \<Rightarrow> bool" where
  "no_htlcs s \<longleftrightarrow> st_HTLCs s = [] \<and> st_InProgHTLC s = None \<and> st_CollidingHTLC s = None"

lemma build_plain:
  assumes "BuildStateTxs cr q mine = Inr (tx, spends, outs)" "no_htlcs (q_State q)" "output_amts q mine = (fancy, pkh)"
  obtains rp tp pk where "GetKeysFromState cr q mine = Inr (rp, tp, pk)"
    "tx = plain_commit cr q mine fancy pkh (CommitScript rp tp (q_Delay q)) pk" "fancy \<noteq> 0 \<longrightarrow> MinOutput \<le> fancy"
proof -
  have l: "live_htlcs (q_State q) = []" using assms(2) by (simp add: no_htlcs_def live_htlcs_def)
  obtain rp tp pk where k: "GetKeysFromState cr q mine = Inr (rp, tp, pk)" "fancy \<noteq> 0 \<longrightarrow> MinOutput \<le> fancy" "pkh \<noteq> 0 \<longrightarrow> MinOutput \<le> pkh"
    using assms(1,3) by (elim BuildStateTxs_elim) auto
  have "fancy \<noteq> 0 \<or> pkh \<noteq> 0"
  proof (rule ccontr)
    assume "\<not> (fancy \<noteq> 0 \<or> pkh \<noteq> 0)"
    then have "BuildStateTxs cr q mine = Inl OutOfRange"
      by (simp add: BuildStateTxs_def k(1) l assms(3) Let_def NewMsgTx_def)
    then show False using assms(1) by simp
  qed
  then have "tx = plain_commit cr q mine fancy pkh (CommitScript rp tp (q_Delay q)) pk"
    using BuildStateTxs_plain [OF l k(1) assms(3) k(2,3)] assms(1) by (simp add: plain_commit_def)
  with k show thesis using that by blast
qed

lemma output_amts_range:
  assumes "output_amts q mine = (fancy, pkh)"
  shows "sint (of_int fancy :: u64) = fancy" "sint (of_int pkh :: u64) = pkh"
proof -
  have "sint (of_int (i64 x) :: u64) = i64 x" for x by (simp add: i64_def signed_of_int)
  then show "sint (of_int fancy :: u64) = fancy" "sint (of_int pkh :: u64) = pkh"
    using assms by (auto simp: output_amts_def Let_def split: if_splits)
qed

section \<open>The transaction of a break\<close>

text \<open>What \<open>GetCloseTxos\<close> finds in a node's own transaction of its current state.\<close>

lemma own_commit:
  assumes "BuildStateTxs cr q True = Inr (tx, spends, outs)" "no_htlcs (q_State q)" "output_amts q True = (fancy, pkh)" "fancy \<noteq> 0"
    and "st_StateIdx (q_State q) < 2 ^ 48" "hash_lengths cr"
    and "DirectWPKHScript cr (q_MyRefundPub q) \<noteq> DirectWPKHScript cr (q_TheirRefundPub q)"
  shows "\<exists>k elk pt. k < length (tx_TxOut tx) \<and> ElkPoint cr q False (st_StateIdx (q_State q)) = Inr pt \<and>
    sender_AtIndex (cr_DoubleHash cr) (q_ElkSnd q) (st_StateIdx (q_State q)) = Inr elk \<and> pt = ElkPointFromHash cr elk \<and>
    (let script = CommitScript (cr_CombinePubs cr (q_TheirHAKDBase q) pt) (cr_AddPubsEZ cr (q_MyHAKDBase q) pt) (q_Delay q) in
     tx_TxOut tx ! k = NewTxOut (of_int fancy) (P2WSHify cr script) \<and>
     GetCloseTxos cr q (set_witness tx w) = Inr
       [if st_StateIdx (q_State q) = 0 then zero_PorTxo
        else sh_txo cr q tx (of_nat k) (cr_DoubleHash cr (pt @ q_MyHAKDBase q)) script (ucast (q_Delay q)) []])"
proof -
  obtain rp tp pk where b: "GetKeysFromState cr q True = Inr (rp, tp, pk)"
    "tx = plain_commit cr q True fancy pkh (CommitScript rp tp (q_Delay q)) pk"
    using build_plain [OF assms(1-3)] by blast
  obtain pt where pt: "ElkPoint cr q False (st_StateIdx (q_State q)) = Inr pt" "rp = cr_CombinePubs cr (q_TheirHAKDBase q) pt"
    "tp = cr_AddPubsEZ cr (q_MyHAKDBase q) pt" "pk = q_TheirRefundPub q"
    using b(1) by (auto simp: GetKeysFromState_def bind_res_eq_Inr)
  obtain elk where elk: "sender_AtIndex (cr_DoubleHash cr) (q_ElkSnd q) (st_StateIdx (q_State q)) = Inr elk" "pt = ElkPointFromHash cr elk"
    using pt(1) by (auto simp: ElkPoint_def bind_res_eq_Inr)
  obtain k where k: "find_sh [] tx = of_nat k" "k < 2" "k < length (tx_TxOut tx)"
    "tx_TxOut tx ! k = NewTxOut (of_int fancy) (P2WSHify cr (CommitScript rp tp (q_Delay q)))"
    using plain_sh [OF assms(6,4)] unfolding b(2) by blast
  have p: "find_pkh (DirectWPKHScript cr (q_MyRefundPub q)) tx = None"
    using plain_no_pkh [OF assms(6)] assms(7) unfolding b(2) pt(4) by blast
  have i: "length (tx_TxIn tx) = 1" "ti_PreviousOutPoint (tx_TxIn tx ! 0) = q_Op q"
    unfolding b(2) by (rule plain_commit_input)+
  have n: "GetStateIdxFromTx tx (GetChanHint cr q True) = st_StateIdx (q_State q)"
    unfolding b(2) using plain_commit_state [OF assms(5,6)] .
  have h: "GetHtlcTxos cr q (set_witness tx w) mine = Inr []" for mine
    using GetHtlcTxos_none [OF _ pt(1)] assms(2) by (simp add: no_htlcs_def)
  have lt: "(of_nat k :: u32) < 999" using k(2) by (auto simp: less_2_cases_iff)
  have "GetCloseTxos cr q (set_witness tx w) = Inr [if st_StateIdx (q_State q) = 0 then zero_PorTxo
        else sh_txo cr q tx (of_nat k) (cr_DoubleHash cr (pt @ q_MyHAKDBase q)) (CommitScript rp tp (q_Delay q)) (ucast (q_Delay q)) []]"
    using i h k(1) p n lt pt(1-3) elk by (simp add: GetCloseTxos_def Let_def timeout_txo_def)
  then show ?thesis
    using k(3,4) pt(1-3) elk by (intro exI [of _ k] exI [of _ elk] exI [of _ pt]) (simp add: Let_def)
qed

text \<open>The signing primitive gives the shortest DER form, which the 64 bytes keep.\<close>

definition der_signer :: "close_env \<Rightarrow> bool" where
  "der_signer ce \<longleftrightarrow> (\<forall>k h s. ce_Sign ce k h = Inr s \<longrightarrow> (\<exists>a b. der_int a \<and> der_int b \<and> s = der_sig a b))"

lemma sign64_raw:
  assumes "sign64 ce priv pre tx amt = Inr sig" "der_signer ce"
  shows "RawTxInWitnessSignature ce tx (NewTxSigHashes (ce_crypto ce) tx) 0 amt pre SigHashAll priv = Inr (SigDecompress sig @ [ucast SigHashAll])"
proof -
  obtain s k h where s: "RawTxInWitnessSignature ce tx (NewTxSigHashes (ce_crypto ce) tx) 0 amt pre SigHashAll priv = Inr (s @ [ucast SigHashAll])"
    "ce_Sign ce k h = Inr s" "SigCompress s (ucast SigHashAll # ce_spare ce) = Inr sig"
    using assms(1) by (auto simp: sign64_def RawTxInWitnessSignature_def bind_res_eq_Inr)
  then obtain a b where "der_int a" "der_int b" "s = der_sig a b" using assms(2) unfolding der_signer_def by blast
  then have "SigDecompress sig = s" using compressed_back s(3) by blast
  then show ?thesis using s(1) by simp
qed

lemma save_unchanged:
  assumes "stored nd op d" "q_Txo q = cdt_Txo d" "\<not> cl_Closed (q_CloseData q)"
  shows "SaveQchanUtxoData ev nd q = nd"
proof -
  have "NewChanDataFromQchan (NewQchanFromChanData ev d\<lparr>q_Txo := cdt_Txo d\<rparr>) = d"
    by (cases d) (simp add: NewChanDataFromQchan_def NewQchanFromChanData_def)
  moreover have "q_Txo (NewQchanFromChanData ev d\<lparr>q_Txo := cdt_Txo d\<rparr>) = cdt_Txo d" by simp
  moreover have "(nd_Channels nd)(OutPointToBytes op := Some d) = nd_Channels nd" using assms(1) by (auto simp: stored_def)
  ultimately show ?thesis
    using assms by (simp add: SaveQchanUtxoData_def GetQchan_def stored_def SaveQChan_def Let_def)
qed

lemma settle_quiet:
  assumes "quiet (q_State q)" shows "settle q = q"
  using assms by (cases q; cases "q_State q") (simp add: settle_def quiet_def)

lemma break_run:
  assumes sy: "in_sync (ce_ev ce) d (ce_ev ce') d'" and st: "stored nd (q_Op q) d"
    and w: "ev_wallet (ce_node ce) (Qchan_Coin q) \<noteq> None"
    and ver: "VerifySigs (ce_ev ce) (chan_of (ce_ev ce) d c) (st_Sig (cdt_State d)) [] = Inr q'" "length (st_Sig (cdt_State d)) = 64"
    and env: "ce_se ce' = ce_se ce" "sound_engine (ce_se ce)" "der_signer ce" "\<And>coin tx. ce_PushTx ce coin tx = None"
    and c: "c = q_ClearToSend q"
  shows "\<exists>tx spends outs w pre swapped. BuildStateTxs (ce_crypto ce) (chan_of (ce_ev ce) d c) True = Inr (tx, spends, outs) \<and>
    BreakChannel ce nd q = (nd, (chan_of (ce_ev ce) d c)\<lparr>q_CloseData := (cdt_CloseData d)\<lparr>cl_Closed := True,
      cl_CloseTxid := TxHash (ce_crypto ce) tx\<rparr>\<rparr>, [set_witness tx w], None) \<and>
    FundTxScript (q_MyPub (chan_of (ce_ev ce) d c)) (cdt_TheirPub d) = Inr (pre, swapped) \<and>
    accepts (validate_input (ce_se ce) (P2WSHify (ce_crypto ce) pre) (set_witness tx w) 0 spend_flags None (px_Value (cdt_Txo d)))"
proof -
  define b where b: "b = chan_of (ce_ev ce) d c"
  note link = in_sync_link(1,4,5) [OF sy]
  have f: "q_Txo b = cdt_Txo d" "q_State b = cdt_State d" "q_CloseData b = cdt_CloseData d" "q_TheirPub b = cdt_TheirPub d" "q_Value b = px_Value (cdt_Txo d)"
    by (simp_all add: b)
  have l: "live_htlcs (q_State b) = []" and nh: "no_htlcs (q_State b)" using sy by (simp_all add: f in_sync_def quiet_def live_htlcs_def no_htlcs_def)
  obtain tx spends outs pre swapped where t: "BuildStateTxs (ce_crypto ce) b True = Inr (tx, spends, outs)"
    "FundTxScript (q_MyPub b) (q_TheirPub b) = Inr (pre, swapped)"
    "check64 ce Mismatch (q_TheirPub b) pre tx (q_Value b) (st_Sig (cdt_State d)) = None"
    using ver(1) unfolding b [symmetric] by (auto simp: VerifySigs_def bind_res_eq_Inr split: if_splits)
  have len: "length (q_MyPub b) = 33" "length (q_TheirPub b) = 33" using link(2,3) by (simp_all add: b)
  obtain sig where s: "SignSimpleClose ce b tx = Inr sig" "\<And>bad. check64 ce' bad (q_MyPub b) pre tx (q_Value b) sig = None" "length sig = 64"
    using close_signature [OF link(1) b len(2), of tx] t(2) by auto
  obtain priv where p: "GetPriv_of ce b = Inr priv" "sign64 ce priv pre tx (q_Value b) = Inr sig"
    using s(1) t(2) by (auto simp: SignSimpleClose_def bind_res_eq_Inr)
  let ?mine = "SigDecompress sig @ [ucast SigHashAll]" and ?theirs = "SigDecompress (st_Sig (cdt_State d)) @ [ucast SigHashAll]"
  let ?w = "fund_witness pre swapped ?mine ?theirs"
  have sb: "SignBreakTx ce b = Inr (set_witness tx ?w)"
    using t(1,2) p sign64_raw [OF p(2) env(3)] by (simp add: SignBreakTx_def Let_def f(2))
  obtain fancy pkh where "output_amts b True = (fancy, pkh)" by fastforce
  from build_plain [OF t(1) nh this] obtain rp tp pk where pl: "tx = plain_commit (ce_crypto ce) b True fancy pkh (CommitScript rp tp (q_Delay b)) pk"
    by blast
  have acc: "accepts (validate_input (ce_se ce) (P2WSHify (ce_crypto ce) pre) (set_witness tx ?w) 0 spend_flags None (q_Value b))"
  proof (rule fund_witness_accepted [OF len t(2) env(2) _ _ _ _ refl])
    show "length (tx_TxIn tx) = 1" "ti_SignatureScript (tx_TxIn tx ! 0) = []" unfolding pl by (rule plain_commit_input)+
    show "length ?mine \<le> 520" "length ?theirs \<le> 520"
      using SigDecompress_length [OF s(3)] SigDecompress_length [OF ver(2)] by simp_all
    fix pops assume "ParseScript pre = Inr pops"
    then show "signed_by (ce_se ce) pops (set_witness tx ?w) 0 None (q_Value b) (q_MyPub b) ?mine \<and>
        signed_by (ce_se ce) pops (set_witness tx ?w) 0 None (q_Value b) (q_TheirPub b) ?theirs"
      using check64_signed [OF s(2) [unfolded check64_se [OF env(1)]] _ env(2)] check64_signed [OF t(3) _ env(2)] by blast
  qed
  have q: "quiet (cdt_State d)" "\<not> cl_Closed (cdt_CloseData d)" using sy by (simp_all add: in_sync_def link_ok_def)
  have "settle b = b" using settle_quiet q(1) f(2) by simp
  moreover have "SaveQchanUtxoData (ce_ev ce) nd b = nd" using save_unchanged [OF st f(1)] q(2) f(3) by simp
  moreover have "ReloadQchanState (ce_ev ce) nd q = Inr b" using reload_stored [OF st, of "ce_ev ce"] by (simp add: b c)
  ultimately have "BreakChannel ce nd q = (nd, b\<lparr>q_CloseData := (cdt_CloseData d)\<lparr>cl_Closed := True,
      cl_CloseTxid := TxHash (ce_crypto ce) tx\<rparr>\<rparr>, [set_witness tx ?w], None)"
    using w sb env(4) q(2) f(3) by (simp add: BreakChannel_def Let_def)
  with t(1,2) acc show ?thesis unfolding b [symmetric] f(4,5) by blast
qed

text \<open>A break between nodes in step publishes a transaction that the script engine accepts as a spend of the
  funding output, with the two signatures the node holds; the database is left as it was: the channel is marked
  closed in memory only.\<close>

theorem break_accepted_unrecorded:
  assumes "in_sync (ce_ev ce) d (ce_ev ce') d'" "stored nd (q_Op q) d" "ev_wallet (ce_node ce) (Qchan_Coin q) \<noteq> None"
    and "VerifySigs (ce_ev ce) (chan_of (ce_ev ce) d (q_ClearToSend q)) (st_Sig (cdt_State d)) [] = Inr q'" "length (st_Sig (cdt_State d)) = 64"
    and "ce_se ce' = ce_se ce" "sound_engine (ce_se ce)" "der_signer ce" "\<And>coin tx. ce_PushTx ce coin tx = None"
  shows "\<exists>q1 tx pre swapped. BreakChannel ce nd q = (nd, q1, [tx], None) \<and> cl_Closed (q_CloseData q1) \<and>
    FundTxScript (q_MyPub q1) (q_TheirPub q1) = Inr (pre, swapped) \<and>
    accepts (validate_input (ce_se ce) (P2WSHify (ce_crypto ce) pre) tx 0 spend_flags None (px_Value (cdt_Txo d)))"
proof -
  obtain tx w pre swapped where r: "BreakChannel ce nd q = (nd, (chan_of (ce_ev ce) d (q_ClearToSend q))\<lparr>q_CloseData :=
      (cdt_CloseData d)\<lparr>cl_Closed := True, cl_CloseTxid := TxHash (ce_crypto ce) tx\<rparr>\<rparr>, [set_witness tx w], None)"
    "FundTxScript (q_MyPub (chan_of (ce_ev ce) d (q_ClearToSend q))) (cdt_TheirPub d) = Inr (pre, swapped)"
    "accepts (validate_input (ce_se ce) (P2WSHify (ce_crypto ce) pre) (set_witness tx w) 0 spend_flags None (px_Value (cdt_Txo d)))"
    using break_run [OF assms refl] by blast
  then show ?thesis by (intro exI conjI) (assumption | simp)+
qed

text \<open>C22: A node pays out of a channel it has broken. After the break both nodes still hold the channel in step, and a
  push the balances allow runs through, although the funding output is being spent by the state before it.\<close>

theorem broken_channel_pays:
  assumes "in_sync (ce_ev ce) d (ce_ev ce') d'" "idle (nd, q) d" "idle x' d'" "ev_wallet (ce_node ce) (Qchan_Coin q) \<noteq> None"
    and "VerifySigs (ce_ev ce) (chan_of (ce_ev ce) d (q_ClearToSend q)) (st_Sig (cdt_State d)) [] = Inr q'" "length (st_Sig (cdt_State d)) = 64"
    and "ce_se ce' = ce_se ce" "sound_engine (ce_se ce)" "der_signer ce" "\<And>coin tx. ce_PushTx ce coin tx = None"
    and "pay (reserve d) amt (balances d d') = Some b" "st_StateIdx (cdt_State d) < 2 ^ 47"
  shows "\<exists>nd1 q1 tx y y' e e'. BreakChannel ce nd q = (nd1, q1, [tx], None) \<and> cl_Closed (q_CloseData q1) \<and>
    push_round (ce_ev ce) (ce_ev ce') (nd1, q1) x' amt data = Some (y, y') \<and> idle y e \<and> idle y' e' \<and> balances e e' = b"
proof -
  have st: "stored nd (q_Op q) d" "q_ClearToSend q" using assms(2) by (simp_all add: idle_def)
  obtain tx w where r: "BreakChannel ce nd q = (nd, (chan_of (ce_ev ce) d (q_ClearToSend q))\<lparr>q_CloseData :=
      (cdt_CloseData d)\<lparr>cl_Closed := True, cl_CloseTxid := TxHash (ce_crypto ce) tx\<rparr>\<rparr>, [set_witness tx w], None)"
    using break_run [OF assms(1) st(1) assms(4-10) refl] by blast
  let ?q1 = "(chan_of (ce_ev ce) d (q_ClearToSend q))\<lparr>q_CloseData :=
      (cdt_CloseData d)\<lparr>cl_Closed := True, cl_CloseTxid := TxHash (ce_crypto ce) tx\<rparr>\<rparr>"
  have "\<not> st_Failed (cdt_State d)" using assms(1) by (simp add: in_sync_def quiet_def)
  then have "idle (nd, ?q1) d" using st by (simp add: idle_def stored_def)
  from push_round_pays [OF assms(1) this assms(3,11,12)] r show ?thesis
    by (fastforce simp: chan_of_def)
qed

text \<open>C21: A node that broadcasts its own commitment of the current state, when that state is above zero and below 2^48, has no
  HTLCs and leaves the node a balance, and the refund scripts of the two sides differ, gets its balance back: of the transaction
  that spends the channel it exports one output, which is the output with its balance less the fee; the script it
  stores is the one that output pays to, to be spent after the channel's delay by the branch of the timeout. At state zero it
  recovers nothing (\<open>break_at_state_zero_lost\<close>).\<close>

theorem own_output_recovered:
  assumes "BuildStateTxs cr q True = Inr (tx, spends, outs)" "no_htlcs (q_State q)" "output_amts q True = (fancy, pkh)" "fancy \<noteq> 0"
    and "0 < st_StateIdx (q_State q)" "st_StateIdx (q_State q) < 2 ^ 48" "hash_lengths cr"
    and "DirectWPKHScript cr (q_MyRefundPub q) \<noteq> DirectWPKHScript cr (q_TheirRefundPub q)"
  shows "\<exists>t k. GetCloseTxos cr q (set_witness tx w) = Inr [t] \<and> k < length (tx_TxOut tx) \<and>
    px_Op t = \<lparr>op_Hash = TxHash cr tx, op_Index = of_nat k\<rparr> \<and> px_Value t = fancy \<and>
    tx_TxOut tx ! k = NewTxOut (of_int fancy) (P2WSHify cr (px_PkScript t)) \<and>
    px_Seq t = ucast (q_Delay q) \<and> px_PreSigStack t = [[]]"
proof -
  have nz: "st_StateIdx (q_State q) \<noteq> 0" using assms(5) by auto
  obtain k script key where t: "k < length (tx_TxOut tx)" "tx_TxOut tx ! k = NewTxOut (of_int fancy) (P2WSHify cr script)"
    "GetCloseTxos cr q (set_witness tx w) = Inr [sh_txo cr q tx (of_nat k) key script (ucast (q_Delay q)) []]"
    using own_commit [OF assms(1-4,6-8), of w] nz unfolding Let_def by (simp only: if_False) blast
  obtain rp tp pk where "tx = plain_commit cr q True fancy pkh (CommitScript rp tp (q_Delay q)) pk"
    using build_plain [OF assms(1-3)] by blast
  then have "length (tx_TxOut tx) \<le> 2" by (simp add: commit_outs_def)
  then have "unat (of_nat k :: u32) = k" using t(1) by (auto simp: unat_of_nat)
  then show ?thesis
    using t output_amts_range [OF assms(3)]
    by (intro exI [of _ "sh_txo cr q tx (of_nat k) key script (ucast (q_Delay q)) []"] exI [of _ k])
      (simp add: sh_txo_def close_txo_def new_PorTxo_def NewTxOut_def Let_def)
qed

text \<open>At state zero, the state a channel is in until the first payment, nothing is recovered: the state number
  zero is taken for a missing one, and the node exports an output without outpoint or value.\<close>

theorem break_at_state_zero_lost:
  assumes "BuildStateTxs cr q True = Inr (tx, spends, outs)" "no_htlcs (q_State q)" "output_amts q True = (fancy, pkh)" "fancy \<noteq> 0"
    and "st_StateIdx (q_State q) = 0" "hash_lengths cr"
    and "DirectWPKHScript cr (q_MyRefundPub q) \<noteq> DirectWPKHScript cr (q_TheirRefundPub q)"
  shows "GetCloseTxos cr q (set_witness tx w) = Inr [zero_PorTxo]"
proof -
  have "st_StateIdx (q_State q) < 2 ^ 48" using assms(5) by simp
  from own_commit [OF assms(1-4) this assms(6,7), of w] show ?thesis using assms(5) by (auto simp: Let_def)
qed

section \<open>A revoked commitment\<close>

text \<open>
  The commitment of the other side at an earlier state \<open>s\<close> of the channel \<open>q\<close>: what \<open>q\<close>'s owner builds for
  them at that state, with a balance on both sides and no HTLCs then and now.
\<close>

definition revoked :: "crypto \<Rightarrow> qchan \<Rightarrow> stat_com \<Rightarrow> int \<Rightarrow> int \<Rightarrow> msg_tx \<Rightarrow> bool" where
  "revoked cr q s fancy pkh tx \<longleftrightarrow>
     (\<exists>spends outs. BuildStateTxs cr (q\<lparr>q_State := s\<rparr>) False = Inr (tx, spends, outs)) \<and> no_htlcs s \<and>
     st_HTLCs (q_State q) = [] \<and> output_amts (q\<lparr>q_State := s\<rparr>) False = (fancy, pkh) \<and> fancy \<noteq> 0 \<and> pkh \<noteq> 0 \<and>
     0 < st_StateIdx s \<and> st_StateIdx s < st_StateIdx (q_State q) \<and> st_StateIdx (q_State q) \<le> maxIndex"

lemma elk_point_sender:
  assumes "q_ElkSnd q = NewElkremSender root" "i \<le> maxIndex"
  shows "\<exists>pt. ElkPoint cr q False i = Inr pt"
proof -
  obtain h where "sender_AtIndex (cr_DoubleHash cr) (NewElkremSender root) i = Inr h"
    using assms(2) by (rule sender_pt)
  then show ?thesis using assms(1) by (simp add: ElkPoint_def)
qed

text \<open>How \<open>GetCloseTxos\<close> takes it: as a revoked state, with my output at \<open>j\<close> and theirs at \<open>k\<close>.\<close>

lemma revoked_commit:
  assumes r: "revoked cr q s fancy pkh tx" and h: "hash_lengths cr" and snd: "q_ElkSnd q = NewElkremSender root"
  shows "\<exists>j k. j < length (tx_TxOut tx) \<and> k < length (tx_TxOut tx) \<and> k < 2 \<and> find_sh [] tx = of_nat k \<and>
    tx_TxOut tx ! j = NewTxOut (of_int pkh) (DirectWPKHScript cr (q_MyRefundPub q)) \<and>
    tx_TxOut tx ! k = NewTxOut (of_int fancy) (P2WSHify cr (CommitScript (cr_CombinePubs cr (q_MyHAKDBase q) (st_ElkPoint s))
      (cr_AddPubsEZ cr (q_TheirHAKDBase q) (st_ElkPoint s)) (q_Delay q))) \<and>
    GetCloseTxos cr q (set_witness tx w) = bind_res (justice_txos cr q (set_witness tx w) (st_StateIdx s))
      (\<lambda>ts. Inr (pkh_txo cr q tx (of_nat j) # ts))"
proof -
  let ?q0 = "q\<lparr>q_State := s\<rparr>"
  have r': "no_htlcs (q_State ?q0)" "output_amts ?q0 False = (fancy, pkh)" "fancy \<noteq> 0" "pkh \<noteq> 0" "st_HTLCs (q_State q) = []"
    "st_StateIdx s < st_StateIdx (q_State q)" "st_StateIdx (q_State q) \<le> maxIndex" "st_StateIdx s \<noteq> 0"
    using r by (auto simp: revoked_def)
  have lt: "st_StateIdx (q_State ?q0) < 2 ^ 48"
  proof -
    have "maxIndex < 2 ^ 48" by (simp add: maxIndex_def)
    then show ?thesis using r'(6,7) by simp
  qed
  obtain spends outs where "BuildStateTxs cr ?q0 False = Inr (tx, spends, outs)" using r by (auto simp: revoked_def)
  from build_plain [OF this r'(1,2)] have b: "tx = plain_commit cr ?q0 False fancy pkh
      (CommitScript (cr_CombinePubs cr (q_MyHAKDBase q) (st_ElkPoint s)) (cr_AddPubsEZ cr (q_TheirHAKDBase q) (st_ElkPoint s)) (q_Delay q))
      (q_MyRefundPub q)"
    by (auto simp: GetKeysFromState_def)
  obtain k where k: "find_sh [] tx = of_nat k" "k < 2" "k < length (tx_TxOut tx)"
    "tx_TxOut tx ! k = NewTxOut (of_int fancy) (P2WSHify cr (CommitScript (cr_CombinePubs cr (q_MyHAKDBase q) (st_ElkPoint s))
      (cr_AddPubsEZ cr (q_TheirHAKDBase q) (st_ElkPoint s)) (q_Delay q)))"
    using plain_sh [OF h r'(3)] unfolding b by blast
  obtain j where j: "find_pkh (DirectWPKHScript cr (q_MyRefundPub q)) tx = Some (of_nat j)" "j < length (tx_TxOut tx)"
    "tx_TxOut tx ! j = NewTxOut (of_int pkh) (DirectWPKHScript cr (q_MyRefundPub q))"
    using plain_pkh [OF h r'(4)] unfolding b by blast
  have i: "length (tx_TxIn tx) = 1" "ti_PreviousOutPoint (tx_TxIn tx ! 0) = q_Op q"
    using plain_commit_input [of cr ?q0] unfolding b by simp_all
  have hint: "GetChanHint cr ?q0 False = GetChanHint cr q False" by (simp add: GetChanHint_def)
  have n: "GetStateIdxFromTx tx (GetChanHint cr q False) = st_StateIdx s"
    using plain_commit_state [OF lt h, of False] unfolding b hint by simp
  obtain pt where pt: "ElkPoint cr q False (st_StateIdx (q_State q)) = Inr pt"
    using elk_point_sender [OF snd r'(7)] ..
  have "GetHtlcTxos cr q (set_witness tx w) mine = Inr []" for mine
    using GetHtlcTxos_none [OF r'(5) pt] .
  moreover have nlt: "\<not> st_StateIdx (q_State q) < st_StateIdx s" using r'(6) by (meson order.asym)
  ultimately have "GetCloseTxos cr q (set_witness tx w) = bind_res (justice_txos cr q (set_witness tx w) (st_StateIdx s))
      (\<lambda>ts. Inr (pkh_txo cr q tx (of_nat j) # ts))"
    using i j(1) n r'(6,8) nlt by (simp add: GetCloseTxos_def Let_def del: not_less)
  with k j show ?thesis by (intro exI [of _ j] exI [of _ k]) simp
qed

text \<open>C20: Justice. While the node holds the revocation secrets, of a broadcast revoked commitment of a state above zero, with
  a balance on both sides and no HTLCs in it nor in the channel now (\<open>revoked\<close>), it takes both outputs: its own balance,
  and the output of the cheating side, whose script it knows, with the scalar of the revocation secret of that state as the
  key, the branch of the revocation key and no delay. A revoked commitment of state zero is not covered, as the code
  does not punish it.\<close>

theorem justice_takes_both:
  assumes "revoked cr q s fancy pkh tx" "hash_lengths cr" "q_ElkSnd q = NewElkremSender root"
    and "receiver_inv (cr_DoubleHash cr) (q_ElkRcv q) hs" "unat (st_StateIdx s) < length hs"
    and "st_ElkPoint s = ElkPointFromHash cr (hs ! unat (st_StateIdx s))"
  shows "\<exists>t t' j k. GetCloseTxos cr q (set_witness tx w) = Inr [t, t'] \<and>
    j < length (tx_TxOut tx) \<and> px_Op t = \<lparr>op_Hash = TxHash cr tx, op_Index = of_nat j\<rparr> \<and>
    tx_TxOut tx ! j = NewTxOut (of_int pkh) (px_PkScript t) \<and> px_PkScript t = DirectWPKHScript cr (q_MyRefundPub q) \<and>
    k < length (tx_TxOut tx) \<and> px_Op t' = \<lparr>op_Hash = TxHash cr tx, op_Index = of_nat k\<rparr> \<and>
    tx_TxOut tx ! k = NewTxOut (of_int fancy) (P2WSHify cr (px_PkScript t')) \<and>
    px_Seq t' = 1 \<and> px_PreSigStack t' = [[1]] \<and> kg_PrivKey (px_KeyGen t') = ElkScalar cr (hs ! unat (st_StateIdx s))"
proof -
  let ?n = "st_StateIdx s" and ?h = "hs ! unat (st_StateIdx s)" and ?pt = "st_ElkPoint s"
  let ?script = "CommitScript (cr_CombinePubs cr (q_MyHAKDBase q) ?pt) (cr_AddPubsEZ cr (q_TheirHAKDBase q) ?pt) (q_Delay q)"
  obtain j k where jk: "j < length (tx_TxOut tx)" "k < length (tx_TxOut tx)" "k < 2" "find_sh [] tx = of_nat k"
    "tx_TxOut tx ! j = NewTxOut (of_int pkh) (DirectWPKHScript cr (q_MyRefundPub q))"
    "tx_TxOut tx ! k = NewTxOut (of_int fancy) (P2WSHify cr ?script)"
    "GetCloseTxos cr q (set_witness tx w) = bind_res (justice_txos cr q (set_witness tx w) ?n) (\<lambda>ts. Inr (pkh_txo cr q tx (of_nat j) # ts))"
    using revoked_commit [OF assms(1-3), of w] by blast
  have r: "st_HTLCs (q_State q) = []" "?n < st_StateIdx (q_State q)" "st_StateIdx (q_State q) \<le> maxIndex"
    using assms(1) by (simp_all add: revoked_def)
  have rcv: "receiver_AtIndex (cr_DoubleHash cr) (q_ElkRcv q) ?n = Inr ?h"
    using assms(4,5) by (rule receiver_inv_AtIndex)
  have mine: "ElkPoint cr q True ?n = Inr ?pt" by (simp add: ElkPoint_def rcv assms(6))
  have "?n \<le> maxIndex" using r(2,3) by simp
  from elk_point_sender [OF assms(3) this] obtain pt where theirs: "ElkPoint cr q False ?n = Inr pt" ..
  have u: "unat (of_nat k :: u32) = k" using jk(3) by (auto simp: unat_of_nat)
  let ?t' = "sh_txo cr q tx (of_nat k) (ElkScalar cr ?h) ?script 1 [1]"
  have "justice_txos cr q (set_witness tx w) ?n = Inr [?t']"
    using jk(2,4) by (simp add: justice_txos_def mine theirs rcv r(1) GetHtlcTxosWithElkPointsAndRevPub_def Let_def u)
  then have g: "GetCloseTxos cr q (set_witness tx w) = Inr [pkh_txo cr q tx (of_nat j), ?t']" by (simp add: jk(7))
  obtain spends outs where bt: "BuildStateTxs cr (q\<lparr>q_State := s\<rparr>) False = Inr (tx, spends, outs)"
    "no_htlcs (q_State (q\<lparr>q_State := s\<rparr>))" "output_amts (q\<lparr>q_State := s\<rparr>) False = (fancy, pkh)"
    using assms(1) by (auto simp: revoked_def)
  obtain rp tp pk where "tx = plain_commit cr (q\<lparr>q_State := s\<rparr>) False fancy pkh (CommitScript rp tp (q_Delay (q\<lparr>q_State := s\<rparr>))) pk"
    using build_plain [OF bt] by blast
  then have "length (tx_TxOut tx) \<le> 2" by (simp add: commit_outs_def)
  then have u': "unat (of_nat j :: u32) = j" using jk(1) by (auto simp: unat_of_nat)
  show ?thesis
    using g jk(1,2,5,6) u'
    by (intro exI [of _ "pkh_txo cr q tx (of_nat j)"] exI [of _ ?t'] exI [of _ j] exI [of _ k])
      (simp add: sh_txo_def pkh_txo_def close_txo_def new_PorTxo_def NewTxOut_def Let_def)
qed

text \<open>C14: The node does not hold the revocation secrets. The handler of the spend event loads the channel from the
  database, which stores no elkrem receiver, so on a broadcast commitment of the other side that is revoked it panics where
  it should take both outputs, and nothing is exported. The commitment is of a state above zero with a balance on both
  sides, and neither it nor the channel now has HTLCs (\<open>revoked\<close>). At state zero the code does not look for the secret and
  does not panic.\<close>

theorem justice_panics:
  assumes "stored nd op d" "revoked (ce_crypto ce) (chan_of (ce_ev ce) d True) s fancy pkh tx" "hash_lengths (ce_crypto ce)"
  shows "\<exists>nd'. spend_event ce nd op (set_witness tx w) height = (nd', [], [], Some Panic)"
proof -
  let ?cr = "ce_crypto ce"
  define cd where "cd = \<lparr>cl_CloseTxid = TxHash ?cr tx, cl_CloseHeight = height, cl_Closed = True\<rparr>"
  let ?q = "(chan_of (ce_ev ce) d True)\<lparr>q_CloseData := cd\<rparr>"
  have get: "GetQchan (ce_ev ce) nd (OutPointToBytes op) = Inr (chan_of (ce_ev ce) d True)"
    using assms(1) by (simp add: stored_def GetQchan_def chan_of_def NewQchanFromChanData_def)
  have "revoked ?cr ?q s fancy pkh tx"
  proof -
    have "BuildStateTxs ?cr (?q\<lparr>q_State := s\<rparr>) False = BuildStateTxs ?cr ((chan_of (ce_ev ce) d True)\<lparr>q_State := s\<rparr>) False"
      "output_amts (?q\<lparr>q_State := s\<rparr>) False = output_amts ((chan_of (ce_ev ce) d True)\<lparr>q_State := s\<rparr>) False"
      using assms(2)
      by (auto simp: revoked_def no_htlcs_def BuildStateTxs_def GetKeysFromState_def output_amts_def state_value_def live_htlcs_def GetChanHint_def
          htlc_spends_def Let_def)
    then show ?thesis using assms(2) by (simp add: revoked_def)
  qed
  moreover have "q_ElkSnd ?q = NewElkremSender (root_of (ce_ev ce) d)" by simp
  ultimately obtain j where "GetCloseTxos ?cr ?q (set_witness tx w) =
      bind_res (justice_txos ?cr ?q (set_witness tx w) (st_StateIdx s)) (\<lambda>ts. Inr (pkh_txo ?cr ?q tx (of_nat j) # ts))"
    using revoked_commit [OF _ assms(3), of ?q s fancy pkh tx _ w] by blast
  moreover have "justice_txos ?cr ?q (set_witness tx w) (st_StateIdx s) = Inl Panic"
    by (simp add: justice_txos_def ElkPoint_def receiver_AtIndex_def NewElkremReceiver_def)
  ultimately have "GetCloseTxos ?cr ?q (set_witness tx w) = Inl Panic" by simp
  then show ?thesis
    using get by (simp add: spend_event_def Let_def cd_def)
qed

section \<open>A close request that is not signed\<close>

text \<open>A close request whose signature does not verify ends the process of the node that gets it. Any peer can
  send one: no other check comes before, and the error that is to be logged is the nil error of the step before.\<close>

theorem bad_close_request_panics:
  assumes "GetQchan (ce_ev ce) nd (OutPointToBytes (cr_Outpoint msg)) = Inr q" "\<not> uncleared q"
    and "SimpleCloseTx (ce_crypto ce) q = Inr tx" "FundTxScript (q_MyPub q) (q_TheirPub q) = Inr (pre, swapped)"
    and "ParseScript pre = Inr pops"
    and "CalcWitnessSignatureHash (ce_crypto ce) pops (NewTxSigHashes (ce_crypto ce) tx) SigHashAll tx 0 (q_Value q) = Inr hash"
    and "se_ParseDERSignature (ce_se ce) (SigDecompress (cr_Signature msg)) = Some sig"
    and "se_ParsePubKey (ce_se ce) (q_TheirPub q) = Some key" "\<not> se_Verify (ce_se ce) sig hash key"
  shows "CloseHandler ce nd (MsgCloseReq msg) = (nd, [], Some Panic)"
  using assms by (simp add: CloseHandler_def CloseReqHandler_def signed_close_def close_sig_check_def check64_def script_res_def)

section \<open>Examples\<close>

lemma toy_lengths: "hash_lengths toy_crypto"
  by (auto simp: hash_lengths_def toy_crypto_def)

lemma toy_scripts: "DirectWPKHScript toy_crypto (replicate 33 1) \<noteq> DirectWPKHScript toy_crypto (replicate 33 2)"
proof -
  have "length (cr_Hash160 toy_crypto k) = 20" for k by (simp add: toy_crypto_def)
  then have "list_all wf_item [Op OP_0, Data (cr_Hash160 toy_crypto k)]"
    "length (concat (map item_bytes [Op OP_0, Data (cr_Hash160 toy_crypto k)])) \<le> maxScriptSize" for k
    by (simp_all add: opcode_length_def MaxScriptElementSize_def maxScriptSize_def addData_bytes_def Let_def)
  note b = build_script_bytes [OF this]
  show ?thesis
    using b(1) [of "replicate 33 1"] b(1) [of "replicate 33 2"]
    by (simp add: DirectWPKHScript_def) (simp add: toy_crypto_def addData_bytes_def Let_def numeral_eq_Suc)
qed

text \<open>What the channel of the examples builds at a state.\<close>

lemma toy_commit_built:
  assumes "i \<le> maxIndex" "ElkPoint toy_crypto q False i = Inr ep" "q_Value q = 1000000"
    and "q_State q = s" "st_StateIdx s = i" "no_htlcs s" "st_Fee s = 1000" "st_MyAmt s = a" "200000 \<le> a" "a \<le> 800000"
  shows "\<exists>tx. BuildStateTxs toy_crypto q mine = Inr (tx, [], [])"
    "output_amts q True = (a - 1000, 999000 - a)" "output_amts q False = (999000 - a, a - 1000)"
proof -
  have v: "state_value q = 1000000" "live_htlcs (q_State q) = []"
    using assms(3,4,6) by (simp_all add: state_value_def no_htlcs_def live_htlcs_def Let_def)
  show amts: "output_amts q True = (a - 1000, 999000 - a)" "output_amts q False = (999000 - a, a - 1000)"
    using assms(4,7-10) by (simp_all add: output_amts_def Let_def v i64_id)
  obtain rp tp pk where k: "GetKeysFromState toy_crypto q mine = Inr (rp, tp, pk)"
    using assms(2,4,5) by (cases mine) (simp_all add: GetKeysFromState_def)
  obtain f p where fp: "output_amts q mine = (f, p)" "f = a - 1000 \<and> p = 999000 - a \<or> f = 999000 - a \<and> p = a - 1000"
    using amts by (cases mine) simp_all
  have "f \<noteq> 0 \<longrightarrow> MinOutput \<le> f" "p \<noteq> 0 \<longrightarrow> MinOutput \<le> p" "f \<noteq> 0 \<or> p \<noteq> 0"
    using fp(2) assms(9,10) by (auto simp: MinOutput_def)
  from BuildStateTxs_plain [OF v(2) k fp(1) this] show "\<exists>tx. BuildStateTxs toy_crypto q mine = Inr (tx, [], [])" by blast
qed

lemma toy_own:
  assumes "i = 0 \<or> i = 3"
  shows "\<exists>tx. BuildStateTxs toy_crypto (toy_chan 1 2 i 600000 1000 []) True = Inr (tx, [], [])"
    "output_amts (toy_chan 1 2 i 600000 1000 []) True = (599000, 399000)" "no_htlcs (q_State (toy_chan 1 2 i 600000 1000 []))"
    "DirectWPKHScript toy_crypto (q_MyRefundPub (toy_chan 1 2 i 600000 1000 [])) \<noteq>
      DirectWPKHScript toy_crypto (q_TheirRefundPub (toy_chan 1 2 i 600000 1000 []))"
proof -
  let ?q = "toy_chan 1 2 i 600000 1000 []"
  have i: "i \<le> maxIndex" using assms by (auto simp: maxIndex_def)
  have f: "q_Value ?q = 1000000" "st_Fee (q_State ?q) = 1000" "st_MyAmt (q_State ?q) = 600000" "no_htlcs (q_State ?q)"
    by (simp_all add: toy_chan_def no_htlcs_def)
  note b = toy_commit_built [OF i toy_chan_elk [OF i] f(1) refl toy_state_idx f(4,2,3)]
  show "\<exists>tx. BuildStateTxs toy_crypto ?q True = Inr (tx, [], [])" using b(1) by simp
  show "output_amts ?q True = (599000, 399000)" using b(2) by simp
  show "no_htlcs (q_State ?q)" by (rule f(4))
  show "DirectWPKHScript toy_crypto (q_MyRefundPub ?q) \<noteq> DirectWPKHScript toy_crypto (q_TheirRefundPub ?q)"
    using toy_scripts by (simp add: toy_chan_def)
qed

theorem own_output_recovered_witness:
  "\<exists>tx t k. BuildStateTxs toy_crypto (toy_chan 1 2 3 600000 1000 []) True = Inr (tx, [], []) \<and>
     GetCloseTxos toy_crypto (toy_chan 1 2 3 600000 1000 []) (set_witness tx []) = Inr [t] \<and>
     px_Value t = 599000 \<and> tx_TxOut tx ! k = NewTxOut 599000 (P2WSHify toy_crypto (px_PkScript t))"
proof -
  have three: "(3 :: u64) = 0 \<or> (3 :: u64) = 3" by simp
  note t = toy_own [OF three]
  obtain tx where tx: "BuildStateTxs toy_crypto (toy_chan 1 2 3 600000 1000 []) True = Inr (tx, [], [])" using t(1) by blast
  have n: "0 < st_StateIdx (q_State (toy_chan 1 2 3 600000 1000 []))" "st_StateIdx (q_State (toy_chan 1 2 3 600000 1000 [])) < 2 ^ 48"
    "(599000 :: int) \<noteq> 0" by simp_all
  from own_output_recovered [OF tx t(3,2) n(3,1,2) toy_lengths t(4), of "[]"] tx show ?thesis by auto
qed

theorem break_at_state_zero_lost_witness:
  "\<exists>tx. BuildStateTxs toy_crypto (toy_chan 1 2 0 600000 1000 []) True = Inr (tx, [], []) \<and>
     GetCloseTxos toy_crypto (toy_chan 1 2 0 600000 1000 []) (set_witness tx []) = Inr [zero_PorTxo]"
proof -
  have zero: "(0 :: u64) = 0 \<or> (0 :: u64) = 3" by simp
  note t = toy_own [OF zero]
  obtain tx where tx: "BuildStateTxs toy_crypto (toy_chan 1 2 0 600000 1000 []) True = Inr (tx, [], [])" using t(1) by blast
  have n: "st_StateIdx (q_State (toy_chan 1 2 0 600000 1000 [])) = 0" "(599000 :: int) \<noteq> 0" by simp_all
  from break_at_state_zero_lost [OF tx t(3,2) n(2,1) toy_lengths t(4), of "[]"] tx show ?thesis by blast
qed

text \<open>An earlier state, with the point of a given hash.\<close>

definition toy_old :: "bytes \<Rightarrow> stat_com" where
  "toy_old h = (q_State (toy_chan 1 2 1 500000 1000 []))\<lparr>st_ElkPoint := ElkPointFromHash toy_crypto h\<rparr>"

lemma toy_revoked:
  assumes "q_Value q = 1000000" "q_ElkSnd q = NewElkremSender r" "st_HTLCs (q_State q) = []" "st_StateIdx (q_State q) = 3"
  shows "\<exists>tx. revoked toy_crypto q (toy_old h) 499000 499000 tx"
proof -
  have i: "(1 :: u64) \<le> maxIndex" by (simp add: maxIndex_def)
  have f: "q_Value (q\<lparr>q_State := toy_old h\<rparr>) = 1000000" "st_StateIdx (toy_old h) = 1" "no_htlcs (toy_old h)" "st_Fee (toy_old h) = 1000"
    "st_MyAmt (toy_old h) = 500000" "q_State (q\<lparr>q_State := toy_old h\<rparr>) = toy_old h" "q_ElkSnd (q\<lparr>q_State := toy_old h\<rparr>) = NewElkremSender r"
    using assms by (simp_all add: toy_old_def toy_chan_def no_htlcs_def)
  obtain pt where pt: "ElkPoint toy_crypto (q\<lparr>q_State := toy_old h\<rparr>) False 1 = Inr pt"
    using elk_point_sender [OF f(7) i] by blast
  note b = toy_commit_built [OF i pt f(1,6,2-5)]
  have "(3 :: u64) \<le> maxIndex" by (simp add: maxIndex_def)
  then show ?thesis
    using b(1) [of False] b(3) f(2,3) assms(3,4) by (auto simp: revoked_def)
qed

theorem justice_takes_both_witness:
  "\<exists>rcv tx t t'. revoked toy_crypto ((toy_chan 1 2 3 600000 1000 [])\<lparr>q_ElkRcv := rcv\<rparr>) (toy_old (replicate 32 9)) 499000 499000 tx \<and>
     GetCloseTxos toy_crypto ((toy_chan 1 2 3 600000 1000 [])\<lparr>q_ElkRcv := rcv\<rparr>) (set_witness tx []) = Inr [t, t'] \<and>
     px_Seq t' = 1 \<and> kg_PrivKey (px_KeyGen t') = ElkScalar toy_crypto (replicate 32 9)"
proof -
  let ?dh = "cr_DoubleHash toy_crypto" and ?h0 = "replicate 32 8 :: bytes" and ?h1 = "replicate 32 9 :: bytes"
  obtain e0 e1 where e: "AddNext ?dh NewElkremReceiver (Some ?h0) = Inr e0" "AddNext ?dh e0 (Some ?h1) = Inr e1"
    by (simp add: AddNext_def NewElkremReceiver_def maxIndex_def)
  have "receiver_inv ?dh NewElkremReceiver []" by (simp add: receiver_inv_def NewElkremReceiver_def)
  from AddNext_inv [OF this _ e(1)] have "receiver_inv ?dh e0 [?h0]" by simp
  from AddNext_inv [OF this _ e(2)] have inv: "receiver_inv ?dh e1 [?h0, ?h1]" by simp
  let ?q = "(toy_chan 1 2 3 600000 1000 [])\<lparr>q_ElkRcv := e1\<rparr>"
  have f: "q_Value ?q = 1000000" "q_ElkSnd ?q = NewElkremSender (replicate 32 1)" "st_HTLCs (q_State ?q) = []" "st_StateIdx (q_State ?q) = 3"
    "q_ElkRcv ?q = e1" by (simp_all add: toy_chan_def)
  obtain tx where r: "revoked toy_crypto ?q (toy_old ?h1) 499000 499000 tx" using toy_revoked [OF f(1-4)] by blast
  have o: "st_StateIdx (toy_old ?h1) = 1" "st_ElkPoint (toy_old ?h1) = ElkPointFromHash toy_crypto ?h1"
    by (simp_all add: toy_old_def toy_chan_def)
  from justice_takes_both [OF r toy_lengths f(2), of "[?h0, ?h1]" "[]"] show ?thesis
    using inv o r by (auto simp: f(5))
qed

theorem justice_panics_witness:
  "\<exists>tx nd'. revoked toy_crypto (chan_of (ce_ev (toy_close 1)) (toy_data 1 2 600000) True) (toy_old (replicate 32 9)) 499000 499000 tx \<and>
     spend_event (toy_close 1) (toy_db 1 2 600000) \<lparr>op_Hash = replicate 32 7, op_Index = 0\<rparr> (set_witness tx []) 600 = (nd', [], [], Some Panic)"
proof -
  let ?q = "chan_of (ce_ev (toy_close 1)) (toy_data 1 2 600000) True"
  have a: "(0 :: int) \<le> 600000" "(600000 :: int) \<le> 1000000" by simp_all
  have f: "q_Value ?q = 1000000" "st_HTLCs (q_State ?q) = []" "st_StateIdx (q_State ?q) = 3"
    by (simp_all add: toy_data_def NewChanDataFromQchan_def toy_chan_def)
  have e: "q_ElkSnd ?q = NewElkremSender (root_of (ce_ev (toy_close 1)) (toy_data 1 2 600000))" by simp
  obtain tx where r: "revoked toy_crypto ?q (toy_old (replicate 32 9)) 499000 499000 tx" using toy_revoked [OF f(1) e f(2,3)] by blast
  have c: "ce_crypto (toy_close 1) = toy_crypto" by (simp add: toy_close_def toy_se_def)
  have st: "stored (toy_db 1 2 600000) \<lparr>op_Hash = replicate 32 7, op_Index = 0\<rparr> (toy_data 1 2 600000)"
    using toy_sync(2) [OF a] by (simp add: toy_chan_def)
  from justice_panics [OF st, of "toy_close 1" _ _ _ tx "[]" 600, unfolded c, OF r toy_lengths] r show ?thesis by blast
qed

text \<open>The channel of the examples with a signature of its state by the other side.\<close>

definition toy_sig :: "byte \<Rightarrow> bytes" where "toy_sig x = replicate 32 x @ replicate 32 1"

definition toy_signed :: chan_data where
  "toy_signed = (toy_data 1 2 600000)\<lparr>cdt_State := (cdt_State (toy_data 1 2 600000))\<lparr>st_Sig := toy_sig 2\<rparr>\<rparr>"

abbreviation close_op :: outpoint where "close_op \<equiv> \<lparr>op_Hash = replicate 32 7, op_Index = 0\<rparr>"

definition toy_signed_db :: lit_node where
  "toy_signed_db = store_state (toy_db 1 2 600000) close_op (toy_data 1 2 600000) (cdt_State toy_signed)"

lemma toy_check:
  assumes "x = 1 \<or> x = 2" "y = 1 \<or> y = 2" "FundTxScript a b = Inr (script, w)" "length a = 33" "length b = 33"
  shows "check64 (toy_close me) bad (replicate 33 y) script tx v (toy_sig x) = (if x = y then None else Some bad)"
    and "\<exists>pops hash. ParseScript script = Inr pops \<and>
      CalcWitnessSignatureHash toy_crypto pops (NewTxSigHashes toy_crypto tx) SigHashAll tx 0 v = Inr hash"
proof -
  obtain k1 k2 where p: "ParseScript script = Inr (fund_pops k1 k2)"
    using parse_FundTxScript(1) [OF assms(4,5,3)] by (auto split: if_splits)
  have "\<not> isWitnessPubKeyHash (fund_pops k1 k2)" by (simp add: isWitnessPubKeyHash_def fund_pops_def)
  then obtain hash where h: "CalcWitnessSignatureHash toy_crypto (fund_pops k1 k2) (NewTxSigHashes toy_crypto tx) SigHashAll tx 0 v = Inr hash"
    using CalcWitnessSignatureHash_returns by blast
  show "\<exists>pops hash. ParseScript script = Inr pops \<and>
      CalcWitnessSignatureHash toy_crypto pops (NewTxSigHashes toy_crypto tx) SigHashAll tx 0 v = Inr hash"
    using p h by blast
  have num: "toy_num (replicate 33 x) = x" using assms(1) by (auto simp: toy_num_def)
  have d: "SigDecompress (toy_sig x) ! 4 = x"
    using toy_decompress [of "replicate 33 x"] by (simp add: toy_sig_def num der_sig_def nth_append)
  have "uint x = uint y \<longleftrightarrow> x = y" by (simp add: word_uint_eq_iff)
  then show "check64 (toy_close me) bad (replicate 33 y) script tx v (toy_sig x) = (if x = y then None else Some bad)"
    using p h d by (simp add: check64_def script_res_def toy_close_def toy_se_def)
qed

lemma toy_signed_link:
  "in_sync (ce_ev (toy_close 1)) toy_signed (ce_ev (toy_close 2)) (toy_data 2 1 400000)"
  "stored toy_signed_db close_op toy_signed" "der_signer (toy_close me)"
  "\<exists>q'. VerifySigs (ce_ev (toy_close 1)) (chan_of (ce_ev (toy_close 1)) toy_signed c) (st_Sig (cdt_State toy_signed)) [] = Inr q'"
  "length (st_Sig (cdt_State toy_signed)) = 64"
proof -
  have a: "(0 :: int) \<le> 600000" "(600000 :: int) \<le> 1000000" by simp_all
  have sy: "in_sync (ce_ev (toy_close 1)) (toy_data 1 2 600000) (ce_ev (toy_close 2)) (toy_data 2 1 400000)"
    using toy_close_sync [OF a] by simp
  then show sy': "in_sync (ce_ev (toy_close 1)) toy_signed (ce_ev (toy_close 2)) (toy_data 2 1 400000)"
    unfolding toy_signed_def in_sync_def by (simp add: quiet_def points_at_def chan_of_state static_mirror_def)
  have st: "stored (toy_db 1 2 600000) close_op (toy_data 1 2 600000)"
    using toy_sync(2) [OF a] by (simp add: toy_chan_def)
  show "stored toy_signed_db close_op toy_signed"
    using stored_store [OF st, of "cdt_State toy_signed"] by (simp add: toy_signed_db_def toy_signed_def)
  show "der_signer (toy_close me)"
    unfolding der_signer_def using toy_ints by (fastforce simp: toy_close_def)
  show "length (st_Sig (cdt_State toy_signed)) = 64" by (simp add: toy_signed_def toy_sig_def)
  define q where "q = chan_of (ce_ev (toy_close 1)) toy_signed c"
  have f: "q_Value q = 1000000" "no_htlcs (q_State q)" "st_StateIdx (q_State q) = 3" "st_Fee (q_State q) = 1000" "st_MyAmt (q_State q) = 600000"
    "q_TheirPub q = replicate 33 2" "q_ElkSnd q = NewElkremSender (root_of (ce_ev (toy_close 1)) toy_signed)"
    by (simp_all add: q_def toy_signed_def toy_data_def NewChanDataFromQchan_def toy_chan_def no_htlcs_def)
  have three: "(3 :: u64) \<le> maxIndex" by (simp add: maxIndex_def)
  obtain pt where pt: "ElkPoint toy_crypto q False 3 = Inr pt" using elk_point_sender [OF f(7) three] by blast
  have "\<exists>tx. BuildStateTxs toy_crypto q True = Inr (tx, [], [])"
    by (rule toy_commit_built(1) [OF three pt f(1) refl f(3,2,4,5)]) simp_all
  then obtain tx where tx: "BuildStateTxs toy_crypto q True = Inr (tx, [], [])" ..
  have len: "length (q_MyPub q) = 33" "length (q_TheirPub q) = 33" using in_sync_link(4,5) [OF sy'] by (simp_all add: q_def)
  obtain pre w where p: "FundTxScript (q_MyPub q) (q_TheirPub q) = Inr (pre, w)" using FundTxScript_ok [OF len] by blast
  have "check64 (toy_close 1) Mismatch (q_TheirPub q) pre tx 1000000 (toy_sig 2) = None"
    using toy_check(1) [OF _ _ p len, of 2 2] by (simp add: f(6))
  moreover have c: "ce_crypto (toy_close 1) = toy_crypto" by (simp add: toy_close_def toy_se_def)
  moreover have "st_Sig (cdt_State toy_signed) = toy_sig 2" by (simp add: toy_signed_def)
  ultimately have "VerifySigs (ce_ev (toy_close 1)) q (st_Sig (cdt_State toy_signed)) [] = Inr (q\<lparr>q_State := (q_State q)\<lparr>st_Sig := toy_sig 2\<rparr>\<rparr>)"
    by (simp add: VerifySigs_def tx p f(1) c)
  then show "\<exists>q'. VerifySigs (ce_ev (toy_close 1)) (chan_of (ce_ev (toy_close 1)) toy_signed c) (st_Sig (cdt_State toy_signed)) [] = Inr q'"
    unfolding q_def by blast
qed

lemma toy_net:
  "ce_se (toy_close 2) = ce_se (toy_close 1)" "sound_engine (ce_se (toy_close 1))" "ce_PushTx (toy_close x) coin tx = None"
  "ev_wallet (ce_node (toy_close x)) coin \<noteq> None" "ce_crypto (toy_close x) = toy_crypto"
  using toy_sound by (simp_all add: toy_close_def toy_env_def toy_se_def)

abbreviation toy_mem :: qchan where
  "toy_mem \<equiv> chan_of (ce_ev (toy_close 1)) toy_signed True"

lemma toy_mem_op: "q_Op toy_mem = close_op"
  by (simp add: toy_signed_def toy_data_def NewChanDataFromQchan_def toy_chan_def)

theorem break_accepted_unrecorded_witness:
  "\<exists>q1 tx pre. BreakChannel (toy_close 1) toy_signed_db toy_mem = (toy_signed_db, q1, [tx], None) \<and> cl_Closed (q_CloseData q1) \<and>
    accepts (validate_input (ce_se (toy_close 1)) (P2WSHify toy_crypto pre) tx 0 spend_flags None 1000000)"
proof -
  obtain q' where v: "VerifySigs (ce_ev (toy_close 1)) (chan_of (ce_ev (toy_close 1)) toy_signed (q_ClearToSend toy_mem)) (st_Sig (cdt_State toy_signed)) [] = Inr q'"
    using toy_signed_link(4) by blast
  have val: "px_Value (cdt_Txo toy_signed) = 1000000" by (simp add: toy_signed_def toy_data_def NewChanDataFromQchan_def toy_chan_def)
  from break_accepted_unrecorded [OF toy_signed_link(1) _ toy_net(4) v toy_signed_link(5) toy_net(1,2) toy_signed_link(3) toy_net(3), of toy_signed_db]
  show ?thesis using toy_signed_link(2) unfolding toy_mem_op toy_net(5) val by blast
qed

theorem broken_channel_pays_witness:
  "\<exists>nd1 q1 tx y y' e e'. BreakChannel (toy_close 1) toy_signed_db toy_mem = (nd1, q1, [tx], None) \<and> cl_Closed (q_CloseData q1) \<and>
    push_round (ce_ev (toy_close 1)) (ce_ev (toy_close 2)) (nd1, q1) (toy_db 2 1 400000, toy_chan 2 1 3 400000 1000 []) 50000 [] = Some (y, y') \<and>
    balances e e' = (550000, 450000)"
proof -
  obtain q' where v: "VerifySigs (ce_ev (toy_close 1)) (chan_of (ce_ev (toy_close 1)) toy_signed (q_ClearToSend toy_mem)) (st_Sig (cdt_State toy_signed)) [] = Inr q'"
    using toy_signed_link(4) by blast
  have f: "st_MyAmt (cdt_State toy_signed) = 600000" "st_Fee (cdt_State toy_signed) = 1000" "st_StateIdx (cdt_State toy_signed) = 3"
    "\<not> st_Failed (cdt_State toy_signed)" "st_MyAmt (cdt_State (toy_data 2 1 400000)) = 400000"
    "q_Op (toy_chan 2 1 3 400000 1000 []) = close_op" "q_ClearToSend (toy_chan 2 1 3 400000 1000 [])" "\<not> st_Failed (q_State (toy_chan 2 1 3 400000 1000 []))"
    by (simp_all add: toy_signed_def toy_data_def NewChanDataFromQchan_def toy_chan_def)
  have i: "idle (toy_signed_db, toy_mem) toy_signed" using toy_signed_link(2) toy_mem_op f(4) by (simp add: idle_def)
  have a: "(0 :: int) \<le> 600000" "(600000 :: int) \<le> 1000000" by simp_all
  have i': "idle (toy_db 2 1 400000, toy_chan 2 1 3 400000 1000 []) (toy_data 2 1 400000)"
    using toy_sync(3) [OF a] f(7,8) by (simp add: idle_def)
  have p: "pay (reserve toy_signed) 50000 (balances toy_signed (toy_data 2 1 400000)) = Some (550000, 450000)"
    by (simp add: pay_def balances_def f MinOutput_def)
  have n: "st_StateIdx (cdt_State toy_signed) < 2 ^ 47" by (simp add: f)
  from broken_channel_pays [OF toy_signed_link(1) i i' toy_net(4) v toy_signed_link(5) toy_net(1,2) toy_signed_link(3) toy_net(3) p n, of "[]"]
  show ?thesis by blast
qed

theorem bad_close_request_panics_witness:
  "CloseHandler (toy_close 1) toy_signed_db (MsgCloseReq \<lparr>cr_PeerIdx = 2, cr_Outpoint = close_op, cr_Signature = toy_sig 1\<rparr>) =
     (toy_signed_db, [], Some Panic)"
proof -
  note sy = toy_signed_link(1)
  have get: "GetQchan (ce_ev (toy_close 1)) toy_signed_db (OutPointToBytes close_op) = Inr toy_mem"
    using toy_signed_link(2) by (simp add: stored_def GetQchan_def chan_of_def NewQchanFromChanData_def)
  have f: "\<not> uncleared toy_mem" "q_TheirPub toy_mem = replicate 33 2" "st_MyAmt (cdt_State toy_signed) = 600000" "st_Fee (cdt_State toy_signed) = 1000"
    "st_MyAmt (cdt_State (toy_data 2 1 400000)) = 400000" "px_Value (cdt_Txo toy_signed) = 1000000" "q_Value toy_mem = 1000000"
    by (simp_all add: uncleared_def toy_signed_def toy_data_def NewChanDataFromQchan_def toy_chan_def)
  obtain tx where tx: "SimpleCloseTx toy_crypto toy_mem = Inr tx"
    using close_tx [OF sy refl, of toy_crypto True] by (auto simp: f(3-6) MinOutput_def)
  note len = in_sync_link(4,5) [OF sy, of True]
  obtain pre w where p: "FundTxScript (q_MyPub toy_mem) (q_TheirPub toy_mem) = Inr (pre, w)" using FundTxScript_ok [OF len] by blast
  obtain pops hash where h: "ParseScript pre = Inr pops"
    "CalcWitnessSignatureHash toy_crypto pops (NewTxSigHashes toy_crypto tx) SigHashAll tx 0 (q_Value toy_mem) = Inr hash"
    using toy_check(2) [OF _ _ p len, of 1 1] by blast
  have num: "toy_num (replicate 33 1) = 1" by (simp add: toy_num_def)
  have d: "SigDecompress (toy_sig 1) ! 4 = 1"
    using toy_decompress [of "replicate 33 1"] by (simp add: toy_sig_def num der_sig_def nth_append)
  show ?thesis
    by (rule bad_close_request_panics [where q = toy_mem and tx = tx and hash = hash and pops = pops and pre = pre and swapped = w and
          sig = "(1, 0)" and key = "(2, 0)"])
      (use get f(1,2) tx p h d in \<open>simp_all add: toy_net(5) del: chan_of_simps\<close>, simp_all add: toy_close_def toy_se_def)
qed

end
