(* ===== verification/Bech32.thy ===== *)
theory Bech32
  imports TxScript
begin

text \<open>
  Bech32 addresses (\<open>bech32/bech32.go\<close>): regrouping of bits, the alphabet, the checksum, strings with a prefix, and
  addresses of witness programs. The properties: decoding inverts encoding, errors within six consecutive
  characters never pass the checksum, the regrouping of bits agrees with its specification on lists of bits,
  and what the segwit functions do with versions and with empty payloads.
\<close>

section \<open>Strings\<close>

text \<open>
  A Go string is its bytes; \<open>range\<close> decodes it as UTF-8: a rune and its width, and for bytes that are no UTF-8
  the replacement rune and width one.
\<close>

definition cont :: "byte \<Rightarrow> bool" where "cont b \<longleftrightarrow> 0x80 \<le> b \<and> b \<le> 0xBF"

definition rune_bits :: "byte \<Rightarrow> byte \<Rightarrow> nat" where "rune_bits m b = unat (b AND m)"

fun decode_rune :: "bytes \<Rightarrow> nat \<times> nat" where
  "decode_rune [] = (0xFFFD, 0)"
| "decode_rune (b0 # bs) =
     (if b0 < 0x80 then (unat b0, 1)
      else case bs of [] \<Rightarrow> (0xFFFD, 1)
      | b1 # bs \<Rightarrow>
        if 0xC2 \<le> b0 \<and> b0 \<le> 0xDF then
          (if cont b1 then (rune_bits 0x1F b0 * 2 ^ 6 + rune_bits 0x3F b1, 2) else (0xFFFD, 1))
        else case bs of [] \<Rightarrow> (0xFFFD, 1)
        | b2 # bs \<Rightarrow>
          if 0xE0 \<le> b0 \<and> b0 \<le> 0xEF then
            (if (if b0 = 0xE0 then 0xA0 else 0x80) \<le> b1 \<and> b1 \<le> (if b0 = 0xED then 0x9F else 0xBF) \<and> cont b2
             then (rune_bits 0x0F b0 * 2 ^ 12 + rune_bits 0x3F b1 * 2 ^ 6 + rune_bits 0x3F b2, 3) else (0xFFFD, 1))
          else case bs of [] \<Rightarrow> (0xFFFD, 1)
          | b3 # bs \<Rightarrow>
            if 0xF0 \<le> b0 \<and> b0 \<le> 0xF4 \<and> (if b0 = 0xF0 then 0x90 else 0x80) \<le> b1 \<and> b1 \<le> (if b0 = 0xF4 then 0x8F else 0xBF) \<and>
              cont b2 \<and> cont b3
            then (rune_bits 0x07 b0 * 2 ^ 18 + rune_bits 0x3F b1 * 2 ^ 12 + rune_bits 0x3F b2 * 2 ^ 6 + rune_bits 0x3F b3, 4)
            else (0xFFFD, 1))"

text \<open>The positions and runes of a string from a position on.\<close>

function runes :: "nat \<Rightarrow> bytes \<Rightarrow> (nat \<times> nat) list" where
  "runes i s = (if s = [] then [] else let (c, w) = decode_rune s in (i, c) # runes (i + max 1 w) (drop (max 1 w) s))"
  by pat_completeness auto
termination by (relation "measure (\<lambda>(i, s). length s)") auto

declare runes.simps [simp del]

text \<open>
  \<open>strings.ToLower\<close> and \<open>strings.ToUpper\<close>: bytewise on ASCII. What they make of other strings comes from the
  tables of the \<open>unicode\<close> package, which are a parameter.
\<close>

record unicode =
  uc_lower :: "bytes \<Rightarrow> bytes"
  uc_upper :: "bytes \<Rightarrow> bytes"

definition ascii :: "bytes \<Rightarrow> bool" where "ascii s \<longleftrightarrow> list_all (\<lambda>b. b < 0x80) s"

definition lower_byte :: "byte \<Rightarrow> byte" where "lower_byte b = (if 0x41 \<le> b \<and> b \<le> 0x5A then b + 0x20 else b)"
definition upper_byte :: "byte \<Rightarrow> byte" where "upper_byte b = (if 0x61 \<le> b \<and> b \<le> 0x7A then b - 0x20 else b)"

definition to_lower :: "unicode \<Rightarrow> bytes \<Rightarrow> bytes" where
  "to_lower uc s = (if ascii s then map lower_byte s else uc_lower uc s)"

definition to_upper :: "unicode \<Rightarrow> bytes \<Rightarrow> bytes" where
  "to_upper uc s = (if ascii s then map upper_byte s else uc_upper uc s)"

primrec last_index :: "byte \<Rightarrow> bytes \<Rightarrow> nat option" where
  "last_index c [] = None"
| "last_index c (b # s) = (case last_index c s of Some i \<Rightarrow> Some (Suc i) | None \<Rightarrow> if b = c then Some 0 else None)"

definition str :: "string \<Rightarrow> bytes" where "str s = map of_char s"

section \<open>The alphabet\<close>

definition charset :: bytes where "charset = str ''qpzry9x8gf2tvdw0s3jn54khce6mua7l''"

text \<open>The table has 256 entries, of which the source gives the first half; the others are zero, and not -1.\<close>

definition inverseCharset :: "int list" where
  "inverseCharset =
     replicate 48 (-1) @
     [15, -1, 10, 17, 21, 20, 26, 30, 7, 5, -1, -1, -1, -1, -1, -1,
      -1, 29, -1, 24, 13, 25, 9, 8, 23, -1, 18, 22, 31, 27, 19, -1,
      1, 0, 3, 16, 11, 28, 12, 14, 6, 4, 2, -1, -1, -1, -1, -1,
      -1, 29, -1, 24, 13, 25, 9, 8, 23, -1, 18, 22, 31, 27, 19, -1,
      1, 0, 3, 16, 11, 28, 12, 14, 6, 4, 2, -1, -1, -1, -1, -1] @
     replicate 128 0"

section \<open>Regrouping bits\<close>

text \<open>The inner loop: the bits in stash, and the output. With an output width of zero the code would not end.\<close>

function drain :: "u32 \<Rightarrow> nat \<Rightarrow> nat \<Rightarrow> nat \<times> bytes" where
  "drain acc outputWidth bitstash =
     (if outputWidth \<le> bitstash \<and> 0 < outputWidth then
        let bitstash = bitstash - outputWidth; (b, out) = drain acc outputWidth bitstash
        in (b, ucast (drop_bit bitstash acc AND mask outputWidth) # out)
      else (bitstash, []))"
  by pat_completeness auto
termination by (relation "measure (\<lambda>(acc, w, b). b)") auto

declare drain.simps [simp del]

primrec squash :: "nat \<Rightarrow> nat \<Rightarrow> u32 \<Rightarrow> nat \<Rightarrow> bytes \<Rightarrow> lit_error + (u32 \<times> nat \<times> bytes)" where
  "squash iw ow acc bitstash [] = Inr (acc, bitstash, [])"
| "squash iw ow acc bitstash (c # input) =
     (if drop_bit iw c \<noteq> 0 then Inl BadFormat
      else
        let acc = push_bit iw acc OR ucast c; (bitstash, out) = drain acc ow (bitstash + iw) in
        bind_res (squash iw ow acc bitstash input) (\<lambda>(acc, bitstash, rest). Inr (acc, bitstash, out @ rest)))"

definition ByteSquasher :: "bytes \<Rightarrow> nat \<Rightarrow> nat \<Rightarrow> lit_error + bytes" where
  "ByteSquasher input inputWidth outputWidth =
     bind_res (squash inputWidth outputWidth 0 0 input) (\<lambda>(acc, bitstash, output).
       let last = push_bit (outputWidth - bitstash) acc AND mask outputWidth in
       if inputWidth = 8 \<and> outputWidth = 5 then
         Inr (if bitstash \<noteq> 0 then output @ [ucast last] else output)
       else if inputWidth \<le> bitstash \<or> last \<noteq> 0 then Inl BadFormat
       else Inr output)"

text \<open>The error is dropped, and the output with it.\<close>

definition Bytes8to5 :: "bytes \<Rightarrow> bytes" where
  "Bytes8to5 input = (case ByteSquasher input 8 5 of Inl e \<Rightarrow> [] | Inr out \<Rightarrow> out)"

definition Bytes5to8 :: "bytes \<Rightarrow> lit_error + bytes" where "Bytes5to8 input = ByteSquasher input 5 8"

section \<open>Letters\<close>

primrec SquashedBytesToString :: "bytes \<Rightarrow> lit_error + bytes" where
  "SquashedBytesToString [] = Inr []"
| "SquashedBytesToString (c # input) =
     (if c AND 0xe0 \<noteq> 0 then Inl BadFormat
      else bind_res (SquashedBytesToString input) (\<lambda>s. Inr (charset ! unat c # s)))"

text \<open>A rune above the table is an index out of range. The position of a rune is counted in bytes.\<close>

definition StringToSquashedBytes :: "bytes \<Rightarrow> lit_error + bytes" where
  "StringToSquashedBytes input =
     fold_res (\<lambda>b (i, c).
       if 256 \<le> c then Inl Panic
       else if inverseCharset ! c = -1 then Inl BadFormat
       else Inr (b[i := of_int (inverseCharset ! c)])) (replicate (length input) 0) (runes 0 input)"

section \<open>The checksum\<close>

definition gen :: "u32 list" where "gen = [0x3b6a57b2, 0x26508e6d, 0x1ea119fa, 0x3d4233dd, 0x2a1462b3]"

definition polymod_step :: "byte \<Rightarrow> u32 \<Rightarrow> u32" where
  "polymod_step v chk =
     (let top = drop_bit 25 chk; chk = push_bit 5 (chk AND 0x1ffffff) XOR ucast v in
      fold (\<lambda>(i, g) chk. if drop_bit i top AND 1 = 1 then chk XOR g else chk) (enumerate 0 gen) chk)"

definition PolyMod :: "bytes \<Rightarrow> u32" where "PolyMod values = fold polymod_step values 1"

definition HRPExpand :: "bytes \<Rightarrow> bytes" where
  "HRPExpand input =
     (let n = length input; output = replicate (2 * n + 1) 0;
          output = fold (\<lambda>(i, c) out. out[i := drop_bit 5 (of_nat c :: byte)]) (runes 0 input) output
      in fold (\<lambda>(i, c) out. out[i + n + 1 := (of_nat c :: byte) AND 0x1f]) (runes 0 input) output)"

definition CreateChecksum :: "bytes \<Rightarrow> bytes \<Rightarrow> bytes" where
  "CreateChecksum hrp data =
     (let checksum = PolyMod (HRPExpand hrp @ data @ replicate 6 0) XOR 1
      in map (\<lambda>i. ucast (drop_bit (5 * (5 - i)) checksum) AND 0x1f) [0..<6])"

definition VerifyChecksum :: "bytes \<Rightarrow> bytes \<Rightarrow> bool" where
  "VerifyChecksum hrp data \<longleftrightarrow> PolyMod (HRPExpand hrp @ data) = 1"

section \<open>Strings with a prefix\<close>

definition EncodeSquashed :: "bytes \<Rightarrow> bytes \<Rightarrow> bytes" where
  "EncodeSquashed hrp data =
     (case SquashedBytesToString (data @ CreateChecksum hrp data) of Inl e \<Rightarrow> []
      | Inr s \<Rightarrow> hrp @ str ''1'' @ s)"

definition Encode :: "bytes \<Rightarrow> bytes \<Rightarrow> bytes" where
  "Encode hrp data = EncodeSquashed hrp (Bytes8to5 data)"

text \<open>The prefix is returned with the error too.\<close>

definition DecodeSquashed :: "unicode \<Rightarrow> bytes \<Rightarrow> bytes \<times> (lit_error + bytes)" where
  "DecodeSquashed uc adr =
     (let lowAdr = to_lower uc adr; highAdr = to_upper uc adr in
      if adr \<noteq> lowAdr \<and> adr \<noteq> highAdr then ([], Inl BadFormat)
      else let adr = lowAdr in
      (case last_index 0x31 adr of None \<Rightarrow> ([], Inl BadFormat)
       | Some splitLoc \<Rightarrow>
         let hrp = take splitLoc adr in
         (hrp, bind_res (StringToSquashedBytes (drop (splitLoc + 1) adr)) (\<lambda>data.
            if \<not> VerifyChecksum hrp data then Inl Mismatch
            else if length data < 6 then Inl Panic
            else Inr (take (length data - 6) data)))))"

definition Decode :: "unicode \<Rightarrow> bytes \<Rightarrow> bytes \<times> (lit_error + bytes)" where
  "Decode uc adr = (let (hrp, r) = DecodeSquashed uc adr in (hrp, bind_res r Bytes5to8))"

definition GetHRP :: "bytes \<Rightarrow> lit_error + bytes" where
  "GetHRP adr = (case last_index 0x31 adr of None \<Rightarrow> Inl BadFormat | Some splitLoc \<Rightarrow> Inr (take splitLoc adr))"

section \<open>Witness programs\<close>

definition SegWitAddressEncode :: "bytes \<Rightarrow> bytes \<Rightarrow> lit_error + bytes" where
  "SegWitAddressEncode hrp data =
     (if length data < 4 then Inl (TooShort (length data))
      else
        let version = data ! 0; len = data ! 1; data = drop 2 data in
        if unat len \<noteq> length data then Inl Mismatch
        else if length data < 2 \<or> 40 < length data then Inl (BadLength (length data))
        else if 16 < version then Inl OutOfRange
        else if version = 0 \<and> length data \<noteq> 20 \<and> length data \<noteq> 32 then Inl (BadLength (length data))
        else Inr (EncodeSquashed hrp (version # Bytes8to5 data)))"

definition SegWitAddressDecode :: "unicode \<Rightarrow> bytes \<Rightarrow> lit_error + bytes" where
  "SegWitAddressDecode uc adr =
     bind_res (snd (DecodeSquashed uc adr)) (\<lambda>squashedData.
     case squashedData of [] \<Rightarrow> Inl Panic
     | version # rest \<Rightarrow>
       bind_res (Bytes5to8 rest) (\<lambda>data.
       if length data < 2 \<or> 40 < length data then Inl (BadLength (length data))
       else if 16 < version then Inl OutOfRange
       else if version = 0 \<and> length data \<noteq> 20 \<and> length data \<noteq> 32 then Inl (BadLength (length data))
       else Inr ((if 0 < version then version OR 0x80 else version) # of_nat (length data) # data)))"

definition SegWitV0Encode :: "bytes \<Rightarrow> bytes \<Rightarrow> lit_error + bytes" where
  "SegWitV0Encode hrp data =
     (if length data \<noteq> 20 \<and> length data \<noteq> 32 then Inl (BadLength (length data))
      else SegWitAddressEncode hrp (0 # of_nat (length data) # data))"


section \<open>The checksum is linear\<close>

definition tap :: "u32 \<Rightarrow> nat \<Rightarrow> u32 \<Rightarrow> u32" where "tap c i g = (if bit c i then g else 0)"

lemma tap_xor: "tap (c XOR d) i g = tap c i g XOR tap d i g"
  by (simp add: tap_def bit_xor_iff)

lemma tap_0 [simp]: "tap 0 i g = 0"
  by (simp add: tap_def)

lemma odd_tap: "(if drop_bit i (drop_bit 25 c) AND 1 = (1 :: u32) then chk XOR g else chk) = chk XOR tap c (25 + i) g"
  by (simp add: tap_def and_one_eq odd_iff_mod_2_eq_one [symmetric] bit_iff_odd_drop_bit add.commute)

lemma step_eq:
  "polymod_step v c = push_bit 5 (take_bit 25 c) XOR ucast v XOR tap c 25 0x3b6a57b2 XOR tap c 26 0x26508e6d XOR
     tap c 27 0x1ea119fa XOR tap c 28 0x3d4233dd XOR tap c 29 0x2a1462b3"
proof -
  have m: "(0x1ffffff :: u32) = mask 25" by (simp add: mask_eq_exp_minus_1)
  show ?thesis unfolding polymod_step_def gen_def Let_def m take_bit_eq_mask [symmetric]
    using odd_tap [of 0 c] odd_tap [of 1 c] odd_tap [of 2 c] odd_tap [of 3 c] odd_tap [of 4 c] by (simp add: xor.assoc)
qed

lemma step_xor: "polymod_step (v XOR w) (c XOR d) = polymod_step v c XOR polymod_step w d"
  by (simp add: step_eq tap_xor push_bit_xor take_bit_xor unsigned_xor_eq ac_simps)

lemma fold_step_xor:
  "length es = length vs \<Longrightarrow>
    fold polymod_step (map2 (XOR) vs es) (c XOR d) = fold polymod_step vs c XOR fold polymod_step es d"
proof (induction vs es arbitrary: c d rule: list_induct2')
  case (4 v vs e es)
  then show ?case by (simp add: step_xor)
qed simp_all

definition small :: "u32 \<Rightarrow> bool" where "small c \<longleftrightarrow> take_bit 30 c = c"

lemma small_xor [intro]: "small c \<Longrightarrow> small d \<Longrightarrow> small (c XOR d)"
  by (simp add: small_def take_bit_xor)

lemma small_byte: "small (ucast (v :: byte))"
  unfolding small_def by (rule bit_eqI) (auto simp: bit_take_bit_iff bit_ucast_iff dest: bit_imp_le_length)

lemma small_tap: "small g \<Longrightarrow> small (tap c i g)"
  by (simp add: tap_def small_def)

lemma small_shift: "small (push_bit 5 (take_bit 25 c))"
  by (simp add: small_def take_bit_push_bit)

lemma step_small: "small (polymod_step v c)"
  unfolding step_eq by (intro small_xor small_shift small_byte small_tap) (simp_all add: small_def)

lemma step_shift: "take_bit 25 c = c \<Longrightarrow> polymod_step v c = push_bit 5 c XOR ucast v"
proof -
  assume c: "take_bit 25 c = c"
  have "tap c i g = 0" if "25 \<le> i" for i g
    using that by (subst c [symmetric]) (simp add: tap_def bit_take_bit_iff)
  then show ?thesis by (simp add: step_eq c)
qed


lemma five_bits: "(v :: byte) < 32 \<Longrightarrow> take_bit 5 v = v"
  by (simp add: word_unat_eq_iff unsigned_take_bit_eq take_bit_nat_eq_self word_less_nat_alt)

text \<open>A step without input loses nothing.\<close>

lemma step_inj:
  assumes "small c" "polymod_step 0 c = 0"
  shows "c = 0"
proof -
  have b: "bit (polymod_step 0 c) n = False" for n by (simp add: assms(2))
  have t: "\<not> bit c 25 \<and> \<not> bit c 26 \<and> \<not> bit c 27 \<and> \<not> bit c 28 \<and> \<not> bit c 29"
    using b [of 0] b [of 1] b [of 2] b [of 3] b [of 4]
    by (simp add: step_eq bit_xor_iff bit_push_bit_iff tap_def if_distrib [of "\<lambda>x. bit x _"] bit_numeral_rec cong: if_cong) argo
  then have p: "push_bit 5 (take_bit 25 c) = 0" using assms(2) by (simp add: step_eq tap_def)
  show ?thesis
  proof (rule bit_eqI)
    fix n
    have "bit (push_bit 5 (take_bit 25 c)) (n + 5) = False" by (simp add: p)
    then have "\<not> bit c n" if "n < 25" using that by (simp add: bit_push_bit_iff bit_take_bit_iff)
    moreover have "\<not> bit c n" if "25 \<le> n" "n < 30" using t that by (auto simp: le_Suc_eq numeral_eq_Suc less_Suc_eq)
    moreover have "\<not> bit c n" if "30 \<le> n" using that assms(1) unfolding small_def by (metis bit_take_bit_iff not_less)
    ultimately show "bit c n = bit 0 n" by (cases "n < 25"; cases "n < 30") auto
  qed
qed

lemma steps_inj: "small c \<Longrightarrow> fold polymod_step (replicate m 0) c = 0 \<Longrightarrow> c = 0"
  by (induction m arbitrary: c) (auto dest: step_inj intro: step_small)

lemma steps_zero [simp]: "(polymod_step 0 ^^ k) 0 = 0"
  by (induction k) (simp_all add: step_eq)

text \<open>Up to six characters are shifted in without feedback.\<close>

lemma fold_short:
  assumes "length e \<le> 6" "\<forall>v\<in>set e. v < 32"
  shows "take_bit (5 * length e) (fold polymod_step e 0) = fold polymod_step e 0 \<and>
    (fold polymod_step e 0 = 0 \<longrightarrow> e = replicate (length e) 0)"
  using assms
proof (induction e rule: rev_induct)
  case (snoc v e)
  let ?x = "fold polymod_step e 0"
  have l: "length e \<le> 5" using snoc.prems(1) by simp
  have IH: "take_bit (5 * length e) ?x = ?x" "?x = 0 \<Longrightarrow> e = replicate (length e) 0" using snoc by simp_all
  have "min 25 (5 * length e) = 5 * length e" using l by simp
  then have x: "take_bit 25 ?x = ?x" by (metis IH(1) take_bit_take_bit)
  then have st: "fold polymod_step (e @ [v]) 0 = push_bit 5 ?x XOR ucast v" using step_shift by simp
  have v: "take_bit 5 v = v" using snoc.prems(2) by (simp add: five_bits)
  then have v': "take_bit 5 (ucast v :: u32) = ucast v"
    by (metis v unsigned_take_bit_eq)
  have "take_bit (5 * length e + 5) (ucast v :: u32) = ucast v"
    using take_bit_take_bit [of "5 * length e + 5" 5 "ucast v :: u32"] by (simp add: v' min_def)
  then have 1: "take_bit (5 * length (e @ [v])) (fold polymod_step (e @ [v]) 0) = fold polymod_step (e @ [v]) 0"
    unfolding st by (simp add: take_bit_xor take_bit_push_bit IH(1) add.commute)
  have 2: "e @ [v] = replicate (length (e @ [v])) 0" if z: "push_bit 5 ?x XOR ucast v = 0"
  proof -
    have "ucast v = take_bit 5 (push_bit 5 ?x XOR ucast v)" by (simp add: take_bit_xor take_bit_push_bit v')
    then have "(ucast v :: u32) = 0" by (simp add: z)
    then have "bit (ucast v :: u32) n = bit (0 :: u32) n" for n by simp
    then have v0: "v = 0" by (intro bit_eqI) (simp add: bit_ucast_iff)
    have "?x = 0"
    proof (rule bit_eqI)
      fix n
      have "\<not> bit (push_bit 5 ?x) (n + 5)" using z v0 by simp
      then show "bit ?x n = bit 0 n"
        using x by (cases "n < 25") (simp_all add: bit_push_bit_iff, metis bit_take_bit_iff)
    qed
    then have "e @ [v] = replicate (length e) 0 @ [0]" using IH(2) v0 by (metis)
    then show ?thesis by (simp only: replicate_append_same) simp
  qed
  show ?case using 1 2 st by simp
qed simp


section \<open>Checksums that are created verify\<close>

lemma chunk_step:
  "push_bit 5 (drop_bit (n + 5) q) XOR ucast ((ucast (drop_bit n q) :: byte) AND 0x1f) = drop_bit n (q :: u32)"
proof -
  have m: "(0x1f :: byte) = mask 5" by (simp add: mask_eq_exp_minus_1)
  show ?thesis
    unfolding m take_bit_eq_mask [symmetric]
    by (rule bit_eqI) (auto simp: bit_xor_iff bit_push_bit_iff bit_drop_bit_eq bit_ucast_iff bit_take_bit_iff ac_simps
      dest: bit_imp_le_length)
qed

lemma fold_chunks:
  assumes "small q"
  shows "fold polymod_step (map (\<lambda>i. ucast (drop_bit (5 * (5 - i)) q) AND 0x1f) [0..<6]) 0 = q"
proof -
  have d: "take_bit 25 (drop_bit n q) = drop_bit n q" if "5 \<le> n" for n
  proof -
    have "drop_bit n q = take_bit (30 - n) (drop_bit n q)" using assms by (metis drop_bit_take_bit small_def)
    moreover have "min 25 (30 - n) = 30 - n" using that by simp
    ultimately show ?thesis by (metis take_bit_take_bit)
  qed
  have s: "polymod_step (ucast (drop_bit n q) AND 0x1f) (drop_bit (n + 5) q) = drop_bit n q" for n
    using step_shift [OF d [of "n + 5"]] chunk_step [of n q] by simp
  have z: "drop_bit 30 q = 0" using assms by (metis drop_bit_take_bit diff_self_eq_0 small_def take_bit_0)
  have u: "[0..<6] = [0, 1, 2, 3, 4, 5]" by (simp add: upt_rec)
  show ?thesis
    using s [of 25] s [of 20] s [of 15] s [of 10] s [of 5] s [of 0] z by (simp add: u)
qed

lemma PolyMod_small: "vs \<noteq> [] \<Longrightarrow> small (PolyMod vs)"
  by (cases vs rule: rev_cases) (simp_all add: PolyMod_def step_small)

lemma xor_map2: "length es = length vs \<Longrightarrow> PolyMod (map2 (XOR) vs es) = PolyMod vs XOR fold polymod_step es 0"
  using fold_step_xor [of es vs 1 0] by (simp add: PolyMod_def)

lemma VerifyChecksum_Create: "VerifyChecksum hrp (data @ CreateChecksum hrp data)"
proof -
  let ?X = "HRPExpand hrp @ data" and ?c = "CreateChecksum hrp data"
  let ?p = "PolyMod (?X @ replicate 6 0)"
  have c: "length ?c = 6" by (simp add: CreateChecksum_def Let_def)
  have m: "map2 (XOR) xs (replicate (length xs) 0) = xs" "map2 (XOR) (replicate (length xs) 0) xs = xs" for xs :: bytes
    by (induction xs) simp_all
  have "?X @ ?c = map2 (XOR) (?X @ replicate 6 0) (replicate (length ?X) 0 @ ?c)"
    using m(1) [of "HRPExpand hrp"] m(1) [of data] m(2) [of ?c] by (simp add: c replicate_add)
  moreover have "length (replicate (length ?X) 0 @ ?c) = length (?X @ replicate 6 0)" by (simp add: c)
  ultimately have "PolyMod (?X @ ?c) = ?p XOR fold polymod_step (replicate (length ?X) 0 @ ?c) 0"
    by (metis xor_map2)
  also have "fold polymod_step (replicate (length ?X) 0 @ ?c) 0 = fold polymod_step ?c 0"
    by simp
  also have "\<dots> = ?p XOR 1"
    unfolding CreateChecksum_def Let_def append.assoc
    by (rule fold_chunks) (auto intro!: small_xor PolyMod_small simp: small_def [of 1])
  finally show ?thesis by (simp add: VerifyChecksum_def xor.assoc [symmetric])
qed

text \<open>An error that is confined to six consecutive places changes the checksum.\<close>

lemma burst_detected:
  assumes "length e \<le> 6" "\<forall>v\<in>set e. v < 32" "\<exists>v\<in>set e. v \<noteq> 0"
  shows "fold polymod_step (replicate k 0 @ e @ replicate m 0) 0 \<noteq> 0"
proof
  let ?x = "fold polymod_step e 0"
  have s: "small ?x" using step_small by (cases e rule: rev_cases) (auto simp: small_def)
  assume "fold polymod_step (replicate k 0 @ e @ replicate m 0) 0 = 0"
  then have "fold polymod_step (replicate m 0) ?x = 0" by simp
  then have "?x = 0" using steps_inj s by blast
  then have "e = replicate (length e) 0" using fold_short assms(1,2) by blast
  then show False using assms(3) by (metis in_set_replicate)
qed


section \<open>Regrouping as lists of bits\<close>

text \<open>The low bits of a word, the highest first, and the bits of a list of words.\<close>

definition low_bits :: "nat \<Rightarrow> 'a::len word \<Rightarrow> bool list" where
  "low_bits n x = map (bit x) (rev [0..<n])"

definition all_bits :: "nat \<Rightarrow> 'a::len word list \<Rightarrow> bool list" where
  "all_bits n xs = concat (map (low_bits n) xs)"

lemma low_bits_simps [simp]: "low_bits 0 x = []" "length (low_bits n x) = n"
  by (simp_all add: low_bits_def)

lemma all_bits_simps [simp]:
  "all_bits n [] = []" "all_bits n (x # xs) = low_bits n x @ all_bits n xs" "all_bits n (xs @ ys) = all_bits n xs @ all_bits n ys"
  "length (all_bits n xs) = n * length xs"
  by (induction xs) (simp_all add: all_bits_def)

lemma low_bits_nth: "i < n \<Longrightarrow> low_bits n x ! i = bit x (n - Suc i)"
  by (simp add: low_bits_def rev_nth)

lemma low_bits_append: "low_bits (m + n) x = low_bits m (drop_bit n x) @ low_bits n x"
  by (rule nth_equalityI) (auto simp: low_bits_nth nth_append bit_drop_bit_eq add.commute)

lemma low_bits_cong:
  fixes x :: "'a::len word" and y :: "'b::len word"
  shows "(\<And>i. i < n \<Longrightarrow> bit x i = bit y i) \<Longrightarrow> low_bits n x = low_bits n y"
  by (simp add: low_bits_def)

lemma low_bits_inj:
  assumes "low_bits n x = low_bits n y" "drop_bit n x = 0" "drop_bit n y = 0"
  shows "x = y"
proof (rule bit_eqI)
  fix i
  show "bit x i = bit y i"
  proof (cases "i < n")
    case True
    then show ?thesis using arg_cong [OF assms(1), of "\<lambda>l. l ! (n - Suc i)"] by (simp add: low_bits_nth)
  next
    case False
    then have "bit x i = bit (drop_bit n x) (i - n)" "bit y i = bit (drop_bit n y) (i - n)" by (simp_all add: bit_drop_bit_eq)
    then show ?thesis by (simp add: assms(2,3))
  qed
qed

lemma all_bits_inj:
  assumes "all_bits n xs = all_bits n ys" "0 < n" "\<forall>x\<in>set xs. drop_bit n x = 0" "\<forall>y\<in>set ys. drop_bit n y = 0"
  shows "xs = ys"
proof -
  have "length xs = length ys" using arg_cong [OF assms(1), of length] assms(2) by simp
  then show ?thesis using assms(1,3,4)
    by (induction xs ys rule: list_induct2) (auto dest: low_bits_inj)
qed

text \<open>The inner loop moves bits from the stash to the output.\<close>

lemma drain_bits:
  assumes "drain acc ow b = (b', out)" "0 < ow" "ow \<le> 8"
  shows "all_bits ow out @ low_bits b' acc = low_bits b acc \<and> b' < ow \<and> (\<forall>x\<in>set out. drop_bit ow x = 0)"
  using assms
proof (induction acc ow b arbitrary: out rule: drain.induct)
  case (1 acc ow b)
  show ?case
  proof (cases "ow \<le> b")
    case True
    let ?d = "drop_bit (b - ow) acc"
    let ?x = "ucast (?d AND mask ow) :: byte"
    obtain o' where o: "drain acc ow (b - ow) = (b', o')" "out = ?x # o'"
      using "1.prems"(1,2) True
      by (cases "drain acc ow (b - ow)") (simp add: drain.simps [of acc ow b] Let_def)
    have IH: "all_bits ow o' @ low_bits b' acc = low_bits (b - ow) acc \<and> b' < ow \<and> (\<forall>x\<in>set o'. drop_bit ow x = 0)"
      using "1.IH" [OF _ refl o(1)] True "1.prems"(2,3) by simp
    have "low_bits ow ?x = low_bits ow ?d"
      using "1.prems"(3) by (intro low_bits_cong) (auto simp: bit_ucast_iff bit_and_iff bit_mask_iff)
    moreover have "drop_bit ow ?x = 0"
      by (rule bit_eqI) (auto simp: bit_drop_bit_eq bit_ucast_iff bit_and_iff bit_mask_iff)
    ultimately show ?thesis
      using IH o(2) low_bits_append [of ow "b - ow" acc] True by auto
  next
    case False
    then show ?thesis using "1.prems"(1) drain.simps [of acc ow b] by auto
  qed
qed

text \<open>What the loop has put out and what is in the stash are the bits of its input.\<close>

lemma squash_bits:
  assumes "st < ow" "0 < ow" "ow \<le> 8" "iw \<le> 8" "\<forall>c\<in>set input. drop_bit iw c = 0"
  shows "\<exists>acc' st' out. squash iw ow acc st input = Inr (acc', st', out) \<and> st' < ow \<and> (\<forall>x\<in>set out. drop_bit ow x = 0) \<and>
    all_bits ow out @ low_bits st' acc' = low_bits st acc @ all_bits iw input"
  using assms(1,5)
proof (induction input arbitrary: acc st)
  case (Cons c input)
  let ?acc = "push_bit iw acc OR ucast c :: u32"
  obtain b' out where d: "drain ?acc ow (st + iw) = (b', out)" by (cases "drain ?acc ow (st + iw)")
  note db = drain_bits [OF d assms(2,3)]
  have c: "\<not> bit c (i + iw)" for i
    using Cons.prems(2) bit_drop_bit_eq [of iw c] by (auto simp: fun_eq_iff add.commute)
  have "low_bits st (drop_bit iw ?acc) = low_bits st acc"
    using Cons.prems(1) assms(3,4) c
    by (intro low_bits_cong) (auto simp: bit_drop_bit_eq bit_or_iff bit_push_bit_iff bit_ucast_iff add.commute)
  moreover have "low_bits iw ?acc = low_bits iw c"
    using assms(4) by (intro low_bits_cong) (auto simp: bit_or_iff bit_push_bit_iff bit_ucast_iff)
  ultimately have l: "low_bits (st + iw) ?acc = low_bits st acc @ low_bits iw c"
    by (simp add: low_bits_append)
  from Cons.IH [of b' ?acc] db Cons.prems(2) obtain acc' st' rest where
    r: "squash iw ow ?acc b' input = Inr (acc', st', rest)" "st' < ow" "\<forall>x\<in>set rest. drop_bit ow x = 0"
    "all_bits ow rest @ low_bits st' acc' = low_bits b' ?acc @ all_bits iw input" by auto
  have "all_bits ow (out @ rest) @ low_bits st' acc' = low_bits st acc @ all_bits iw (c # input)"
    using r(4) db l by (simp only: all_bits_simps append_assoc) (metis append_assoc)
  then show ?case
    using Cons.prems(2) d db r by auto
qed simp

text \<open>From eight bits to five the bits are padded with zeros to a multiple of five.\<close>

definition pad_len :: "bytes \<Rightarrow> nat" where "pad_len x = (5 - 8 * length x mod 5) mod 5"

lemma squash_8_5:
  "all_bits 5 (Bytes8to5 x) = all_bits 8 x @ replicate (pad_len x) False \<and> (\<forall>v\<in>set (Bytes8to5 x). drop_bit 5 v = 0)"
proof -
  have "drop_bit 8 c = 0" for c :: byte by (rule bit_eqI) (auto simp: bit_drop_bit_eq dest: bit_imp_le_length)
  then obtain acc st out where s: "squash 8 5 0 0 x = Inr (acc, st, out)" "st < 5" "\<forall>v\<in>set out. drop_bit 5 v = 0"
    "all_bits 5 out @ low_bits st acc = all_bits 8 x"
    using squash_bits [of 0 5 8 x 0] by auto
  have n: "8 * length x = 5 * length out + st" using arg_cong [OF s(4), of length] by simp
  then have m: "8 * length x mod 5 = st" using s(2) by simp
  let ?last = "ucast (push_bit (5 - st) acc AND mask 5) :: byte"
  have "low_bits 5 ?last = low_bits st acc @ replicate (5 - st) False"
    using s(2) by (intro nth_equalityI)
      (auto simp: low_bits_nth nth_append bit_ucast_iff bit_and_iff bit_mask_iff bit_push_bit_iff)
  moreover have "drop_bit 5 ?last = 0"
    by (rule bit_eqI) (auto simp: bit_drop_bit_eq bit_ucast_iff bit_and_iff bit_mask_iff)
  ultimately show ?thesis
    using s m by (auto simp: Bytes8to5_def ByteSquasher_def pad_len_def append_assoc [symmetric] simp del: append_assoc)
qed

lemma squash_5_8: "Bytes5to8 (Bytes8to5 x) = Inr x"
proof -
  note e = squash_8_5 [of x]
  have p: "pad_len x < 5" by (simp add: pad_len_def)
  obtain acc st out where s: "squash 5 8 0 0 (Bytes8to5 x) = Inr (acc, st, out)" "st < 8" "\<forall>v\<in>set out. drop_bit 8 v = 0"
    "all_bits 8 out @ low_bits st acc = all_bits 8 x @ replicate (pad_len x) False"
    using squash_bits [of 0 8 5 "Bytes8to5 x" 0] e by auto
  have n: "8 * length out + st = 8 * length x + pad_len x" using arg_cong [OF s(4), of length] by simp
  then have l: "length out = length x" "st = pad_len x" using s(2) p by presburger+
  then have b: "all_bits 8 out = all_bits 8 x" "low_bits st acc = replicate (pad_len x) False" using s(4) by simp_all
  have "drop_bit 8 c = 0" for c :: byte by (rule bit_eqI) (auto simp: bit_drop_bit_eq dest: bit_imp_le_length)
  then have o: "out = x" using b(1) by (intro all_bits_inj [of 8]) simp_all
  have "\<not> bit acc i" if "i < st" for i
    using arg_cong [OF b(2), of "\<lambda>l. l ! (st - Suc i)"] that l(2) by (simp add: low_bits_nth)
  then have "push_bit (8 - st) acc AND mask 8 = 0"
    using s(2) by (intro bit_eqI) (auto simp: bit_and_iff bit_mask_iff bit_push_bit_iff)
  then show ?thesis using s(1) l(2) p o by (simp add: Bytes5to8_def ByteSquasher_def)
qed


section \<open>Strings of letters\<close>

lemma ascii_simps [simp]: "ascii []" "ascii (b # s) \<longleftrightarrow> b < 0x80 \<and> ascii s" "ascii (s @ t) \<longleftrightarrow> ascii s \<and> ascii t"
  by (simp_all add: ascii_def)

lemma runes_ascii: "ascii s \<Longrightarrow> runes i (s @ t) = enumerate i (map unat s) @ runes (i + length s) t"
proof (induction s arbitrary: i)
  case (Cons b s)
  have "runes i ((b # s) @ t) = (i, unat b) # runes (Suc i) (s @ t)"
    using Cons.prems by (subst runes.simps) simp
  then show ?case using Cons.IH [of "Suc i"] Cons.prems by simp
qed simp

definition letter :: "byte \<Rightarrow> byte" where "letter v = charset ! unat v"

lemma five_less: "drop_bit 5 (v :: byte) = 0 \<Longrightarrow> v < 32"
proof -
  assume "drop_bit 5 v = 0"
  then have "take_bit 5 v = v" using bits_ident [of 5 v] by simp
  then have "unat v = take_bit 5 (unat v)" by (metis unsigned_take_bit_eq)
  then show ?thesis using take_bit_nat_less_exp [of 5 "unat v"] by (simp add: word_less_nat_alt)
qed

lemma letters:
  assumes "drop_bit 5 (v :: byte) = 0"
  shows "letter v < 0x80" "lower_byte (letter v) = letter v" "letter v \<noteq> 0x31" "inverseCharset ! unat (letter v) = uint v"
proof -
  have "list_all (\<lambda>v. let c = charset ! v in c < 0x80 \<and> lower_byte c = c \<and> c \<noteq> 0x31 \<and> inverseCharset ! unat c = int v) [0..<32]"
    by code_simp
  moreover have "unat v < 32" using five_less [OF assms] by (simp add: word_less_nat_alt)
  ultimately have "let c = charset ! unat v in c < 0x80 \<and> lower_byte c = c \<and> c \<noteq> 0x31 \<and> inverseCharset ! unat c = int (unat v)"
    unfolding list_all_iff by (elim ballE [of _ _ "unat v"]) simp_all
  then show "letter v < 0x80" "lower_byte (letter v) = letter v" "letter v \<noteq> 0x31" "inverseCharset ! unat (letter v) = uint v"
    by (simp_all add: letter_def Let_def)
qed

definition five :: "bytes \<Rightarrow> bool" where "five d \<longleftrightarrow> (\<forall>v\<in>set d. drop_bit 5 v = 0)"

lemma five_simps [simp]: "five []" "five (v # d) \<longleftrightarrow> drop_bit 5 v = 0 \<and> five d" "five (d @ e) \<longleftrightarrow> five d \<and> five e"
  by (auto simp: five_def)

lemma five_checksum: "five (CreateChecksum hrp data)"
proof -
  have "drop_bit 5 (x AND 0x1f) = 0" for x :: byte
    by (simp add: drop_bit_and)
  then show ?thesis by (simp add: five_def CreateChecksum_def Let_def)
qed

lemma high_mask: "n + m = LENGTH('a) \<Longrightarrow> c AND push_bit n (mask m) = push_bit n (drop_bit n (c :: 'a::len word))"
  by (rule bit_eqI) (auto simp: bit_and_iff bit_push_bit_iff bit_mask_iff bit_drop_bit_eq)

lemma drop_push: "drop_bit n (push_bit n (drop_bit n c)) = drop_bit n (c :: 'a::len word)"
  by (rule bit_eqI) (auto simp: bit_push_bit_iff bit_drop_bit_eq dest: bit_imp_le_length)

lemma top_bits_zero: "c AND 0xe0 = 0 \<longleftrightarrow> drop_bit 5 (c :: byte) = 0"
proof -
  have e: "(0xe0 :: byte) = push_bit 5 (mask 3)" by (simp add: mask_eq_exp_minus_1)
  have "c AND 0xe0 = push_bit 5 (drop_bit 5 c)" unfolding e by (rule high_mask) simp
  then show ?thesis by (metis drop_push drop_bit_of_0 push_bit_of_0)
qed

lemma to_letters: "five d \<Longrightarrow> SquashedBytesToString d = Inr (map letter d)"
  by (induction d) (simp_all add: top_bits_zero letter_def)

lemma ascii_letters: "five d \<Longrightarrow> ascii (map letter d)"
  using letters(1) by (auto simp: ascii_def five_def list_all_iff)

text \<open>Reading letters at their positions.\<close>

abbreviation put_letter :: "bytes \<Rightarrow> nat \<times> nat \<Rightarrow> lit_error + bytes" where
  "put_letter \<equiv> \<lambda>b (i, c).
       if 256 \<le> c then Inl Panic
       else if inverseCharset ! c = -1 then Inl BadFormat
       else Inr (b[i := of_int (inverseCharset ! c)])"

lemma put_letters:
  assumes "five d" "i + length d \<le> length b"
  shows "fold_res put_letter b (enumerate i (map unat (map letter d))) = Inr (take i b @ d @ drop (i + length d) b)"
  using assms
proof (induction d arbitrary: i b)
  case (Cons v d)
  have u: "\<not> 256 \<le> unat (letter v)" using letters(1) [of v] Cons.prems by (simp add: word_less_nat_alt)
  have n: "uint v \<noteq> - 1" using uint_nonnegative [of v] by linarith
  have "fold_res put_letter b (enumerate i (map unat (map letter (v # d)))) =
      fold_res put_letter (b[i := v]) (enumerate (Suc i) (map unat (map letter d)))"
    using letters(4) [of v] Cons.prems u n by simp
  also have "\<dots> = Inr (take (Suc i) (b[i := v]) @ d @ drop (Suc i + length d) (b[i := v]))"
    using Cons.prems by (intro Cons.IH) simp_all
  finally show ?case using Cons.prems by (simp add: take_Suc_conv_app_nth)
qed simp

lemma from_letters: "five d \<Longrightarrow> StringToSquashedBytes (map letter d) = Inr d"
  using put_letters [of d 0 "replicate (length d) 0"] runes_ascii [of "map letter d" 0 "[]"]
  by (simp add: StringToSquashedBytes_def ascii_letters runes.simps)

section \<open>Addresses\<close>

text \<open>A prefix in lower case.\<close>

definition hrp_ok :: "bytes \<Rightarrow> bool" where "hrp_ok hrp \<longleftrightarrow> ascii hrp \<and> map lower_byte hrp = hrp"

lemma last_index_split: "c \<notin> set s \<Longrightarrow> last_index c (hrp @ c # s) = Some (length hrp)"
proof -
  assume "c \<notin> set s"
  then have "last_index c s = None" by (induction s) auto
  then show ?thesis by (induction hrp) simp_all
qed

lemma decode_address:
  assumes "hrp_ok hrp" "five d"
  shows "DecodeSquashed uc (hrp @ 0x31 # map letter d) =
    (hrp, if \<not> VerifyChecksum hrp d then Inl Mismatch else if length d < 6 then Inl Panic else Inr (take (length d - 6) d))"
proof -
  have low: "map lower_byte (hrp @ 0x31 # map letter d) = hrp @ 0x31 # map letter d"
    using assms letters(2) by (simp add: hrp_ok_def five_def lower_byte_def)
  have "0x31 \<notin> set (map letter d)" using assms(2) letters(3) by (force simp: five_def)
  then show ?thesis
    using assms(1) ascii_letters [OF assms(2)] from_letters [OF assms(2)]
    unfolding DecodeSquashed_def Let_def to_lower_def hrp_ok_def low by (simp add: low last_index_split del: map_append map_map)
qed

lemma encode_address: "five d \<Longrightarrow> EncodeSquashed hrp d = hrp @ 0x31 # map letter (d @ CreateChecksum hrp d)"
  by (simp add: EncodeSquashed_def to_letters five_checksum str_def)

lemma checksum_len [simp]: "length (CreateChecksum hrp d) = 6"
  by (simp add: CreateChecksum_def Let_def)

lemma squashed_roundtrip: "hrp_ok hrp \<Longrightarrow> five d \<Longrightarrow> DecodeSquashed uc (EncodeSquashed hrp d) = (hrp, Inr d)"
  using decode_address [of hrp "d @ CreateChecksum hrp d" uc] five_checksum [of hrp d] VerifyChecksum_Create [of hrp d]
  by (simp add: encode_address)


lemma xor_zero: "x XOR y = 0 \<Longrightarrow> x = (y :: byte)"
  by (metis xor.assoc xor.left_neutral xor.right_neutral xor_self_eq)

lemma xor_cancel: "x XOR e = x \<Longrightarrow> e = (0 :: u32)"
proof -
  assume "x XOR e = x"
  moreover have "x XOR (x XOR e) = e" by (simp add: xor.assoc [symmetric])
  ultimately show "e = 0" by simp
qed

lemma xor_differs: "length y = length x \<Longrightarrow> y \<noteq> x \<Longrightarrow> \<exists>v\<in>set (map2 (XOR) x y). v \<noteq> (0 :: byte)"
proof (induction x y rule: list_induct2')
  case (4 u x v y)
  then show ?case by (cases "u XOR v = 0") (auto dest!: xor_zero)
qed simp_all

lemma five_xor: "five x \<Longrightarrow> five y \<Longrightarrow> \<forall>v\<in>set (map2 (XOR) x y). v < 32"
  by (induction x y rule: list_induct2') (simp_all add: five_less drop_bit_xor)

lemma five_8_5: "five (Bytes8to5 x)"
  using squash_8_5 by (simp add: five_def)

section \<open>What holds of addresses\<close>

text \<open>C34: Decoding inverts encoding: from the string of a prefix in lower case and of any bytes, both are read back.\<close>

theorem bech32_roundtrip:
  assumes "hrp_ok hrp"
  shows "Decode uc (Encode hrp data) = (hrp, Inr data)"
  using squashed_roundtrip [OF assms five_8_5, of uc data] squash_5_8 [of data]
  by (simp add: Decode_def Encode_def)

text \<open>C26: Typing errors in the data part, confined to six consecutive letters and to letters of the alphabet, never pass: if a
  prefix, the separator and data letters decode, then the same with at most six neighbouring data letters replaced by other
  letters of the alphabet is refused for its checksum. Errors in the prefix or the separator, and characters outside the
  alphabet, are not covered: one of the latter is even accepted (\<open>other_letters_accepted\<close>).\<close>

theorem typing_errors_refused:
  assumes "hrp_ok hrp" "five (a @ x @ b)" "DecodeSquashed uc (hrp @ 0x31 # map letter (a @ x @ b)) = (hrp, Inr data)"
    and "five y" "length y = length x" "length x \<le> 6" "y \<noteq> x"
  shows "DecodeSquashed uc (hrp @ 0x31 # map letter (a @ y @ b)) = (hrp, Inl Mismatch)"
proof -
  let ?X = "HRPExpand hrp @ a" and ?e = "map2 (XOR) x y"
  have v: "PolyMod (?X @ x @ b) = 1"
    using assms(3) decode_address [OF assms(1,2), of uc] by (auto simp: VerifyChecksum_def split: if_splits)
  have m: "map2 (XOR) xs (replicate (length xs) 0) = xs" for xs :: bytes by (induction xs) simp_all
  have y: "map2 (XOR) x ?e = y" using assms(5)
    by (induction x y rule: list_induct2') (simp_all add: xor.assoc [symmetric])
  have "map2 (XOR) (?X @ x @ b) (replicate (length ?X) 0 @ ?e @ replicate (length b) 0) = ?X @ y @ b"
    using m [of "HRPExpand hrp"] m [of a] m [of b] y assms(5) by (simp add: replicate_add)
  then have "PolyMod (?X @ y @ b) = 1 XOR fold polymod_step (replicate (length ?X) 0 @ ?e @ replicate (length b) 0) 0"
    using xor_map2 [of "replicate (length ?X) 0 @ ?e @ replicate (length b) 0" "?X @ x @ b"] v assms(5) by simp
  moreover have "fold polymod_step (replicate (length ?X) 0 @ ?e @ replicate (length b) 0) 0 \<noteq> 0"
  proof (rule burst_detected)
    show "length ?e \<le> 6" using assms(5,6) by simp
    have "five x" using assms(2) by simp
    then show "\<forall>v\<in>set ?e. v < 32" using assms(4) by (rule five_xor)
    show "\<exists>v\<in>set ?e. v \<noteq> 0"
      using assms(5,7) by (rule xor_differs)
  qed
  ultimately have "PolyMod (?X @ y @ b) \<noteq> 1" using xor_cancel [of "1 :: u32"] by metis
  then have "\<not> VerifyChecksum hrp (a @ y @ b)" by (simp add: VerifyChecksum_def)
  then show ?thesis using decode_address [OF assms(1), of "a @ y @ b" uc] assms(2,4) by simp
qed


text \<open>An address gives back its witness program, with the version as the code writes it.\<close>

lemma witness_address:
  assumes "hrp_ok hrp" "v \<le> 16" "2 \<le> length prog" "length prog \<le> 40" "v = 0 \<longrightarrow> length prog = 20 \<or> length prog = 32"
  shows "\<exists>adr. SegWitAddressEncode hrp (v # of_nat (length prog) # prog) = Inr adr \<and>
    SegWitAddressDecode uc adr = Inr ((if 0 < v then v OR 0x80 else v) # of_nat (length prog) # prog)"
proof -
  have n: "unat (of_nat (length prog) :: byte) = length prog" using assms(4) by (simp add: unat_of_nat)
  have "drop_bit 5 v = 0"
  proof -
    have "unat v \<le> 16" using assms(2) by (simp add: word_le_nat_alt)
    moreover have "unat (drop_bit 5 v) = unat v div 2 ^ 5" by (subst unat_drop_bit_eq, rule drop_bit_eq_div)
    ultimately show ?thesis by (simp add: word_unat_eq_iff)
  qed
  then have f: "five (v # Bytes8to5 prog)" by (simp add: five_8_5)
  have e: "SegWitAddressEncode hrp (v # of_nat (length prog) # prog) = Inr (EncodeSquashed hrp (v # Bytes8to5 prog))"
    using assms n by (auto simp: SegWitAddressEncode_def not_less [symmetric])
  show ?thesis
    using squashed_roundtrip [OF assms(1) f, of uc] squash_5_8 [of prog] assms(2-5)
    by (intro exI [of _ "EncodeSquashed hrp (v # Bytes8to5 prog)"] conjI e)
      (auto simp: SegWitAddressDecode_def not_less [symmetric])
qed

text \<open>The address of a hash: a version 0 script of 20 or 32 bytes comes back from its address, byte by byte.\<close>

theorem segwit_v0_roundtrip:
  assumes "hrp_ok hrp" "length prog = 20 \<or> length prog = 32"
  shows "\<exists>adr. SegWitV0Encode hrp prog = Inr adr \<and> SegWitAddressDecode uc adr = Inr (0 # of_nat (length prog) # prog)"
  using witness_address [OF assms(1), of 0 prog uc] assms(2) by (auto simp: SegWitV0Encode_def)

text \<open>A version above zero is lost: decoding gives it as the byte 0x80 + version, and not as the opcode for a small
  integer. The engine does not take the script for a witness program, and it cannot be encoded again.\<close>

theorem segwit_version_lost:
  assumes "hrp_ok hrp" "0 < v" "v \<le> 16" "2 \<le> length prog" "length prog \<le> 40"
  shows "\<exists>adr script. SegWitAddressEncode hrp (v # of_nat (length prog) # prog) = Inr adr \<and>
    SegWitAddressDecode uc adr = Inr script \<and> SegWitAddressEncode hrp script = Inl OutOfRange \<and> \<not> IsWitnessProgram script"
proof -
  let ?s = "(v OR 0x80) # of_nat (length prog) # prog"
  have "v \<noteq> 0" using assms(2) by auto
  then obtain adr where a: "SegWitAddressEncode hrp (v # of_nat (length prog) # prog) = Inr adr" "SegWitAddressDecode uc adr = Inr ?s"
    using witness_address [OF assms(1,3-5), of uc] assms(2) by auto
  have big: "0x80 \<le> v OR 0x80" by (rule le_word_or1)
  have b: "16 < v OR 0x80" "\<not> isSmallInt (v OR 0x80)" "opcode_length (v OR 0x80) = 1"
    using big by (auto simp: isSmallInt_def opcode_length_def word_less_nat_alt word_le_nat_alt)
  have n: "unat (of_nat (length prog) :: byte) = length prog" using assms(5) by (simp add: unat_of_nat)
  have "SegWitAddressEncode hrp ?s = Inl OutOfRange"
    using assms(4,5) n b(1) by (simp add: SegWitAddressEncode_def)
  moreover have "\<not> IsWitnessProgram ?s"
    using b(2) by (auto simp: IsWitnessProgram_def on_parsed_def isWitnessProgram_def ParseScript_def parse_plain [OF b(3)] add_pop_def
        split: prod.splits option.splits sum.splits)
  ultimately show ?thesis using a by blast
qed

text \<open>An address without payload has a valid checksum and ends the process: its version is read from an empty slice.\<close>

theorem empty_address_panics:
  assumes "hrp_ok hrp"
  shows "SegWitAddressDecode uc (EncodeSquashed hrp []) = Inl Panic"
  using squashed_roundtrip [OF assms, of "[]" uc] by (simp add: SegWitAddressDecode_def)

text \<open>C1: The second half of the table of letters is zero, which is the value of \<open>q\<close>: in place of two of them an
  address can have an e with an accent (the bytes c3 a9), and decodes to the same data.\<close>

theorem other_letters_accepted:
  assumes "hrp_ok hrp" "five (a @ b)" "DecodeSquashed uc (hrp @ 0x31 # map letter (a @ [0, 0] @ b)) = (hrp, Inr data)"
    and "uc_lower uc (hrp @ 0x31 # map letter a @ [0xC3, 0xA9] @ map letter b) = hrp @ 0x31 # map letter a @ [0xC3, 0xA9] @ map letter b"
  shows "DecodeSquashed uc (hrp @ 0x31 # map letter a @ [0xC3, 0xA9] @ map letter b) = (hrp, Inr data)"
proof -
  let ?t = "map letter a @ [0xC3, 0xA9] @ map letter b" and ?d = "a @ [0, 0] @ b"
  define k where "k = length b + 2"
  let ?z = "replicate (length a + k) 0 :: bytes"
  have z: "replicate (length ?t) 0 = ?z" "replicate k (0 :: byte) = [0, 0] @ replicate (length b) 0" by (simp_all add: k_def)
  have f: "five a" "five b" using assms(2) by simp_all
  have na: "\<not> ascii (hrp @ 0x31 # ?t)" by simp
  have "0x31 \<notin> set ?t" using f letters(3) by (force simp: five_def)
  then have li: "last_index 0x31 (hrp @ 0x31 # ?t) = Some (length hrp)" by (rule last_index_split)
  have "decode_rune ([0xC3, 0xA9] @ map letter b) = (0xE9, 2)" by (simp add: cont_def rune_bits_def)
  then have "runes (length a) ([0xC3, 0xA9] @ map letter b) = (length a, 0xE9) # runes (length a + 2) (map letter b)"
    by (subst runes.simps) simp
  then have r: "runes 0 ?t = enumerate 0 (map unat (map letter a)) @ (length a, 0xE9) # enumerate (length a + 2) (map unat (map letter b))"
    using runes_ascii [OF ascii_letters [OF f(1)], of 0 "[0xC3, 0xA9] @ map letter b"] runes_ascii [OF ascii_letters [OF f(2)], of "length a + 2" "[]"]
    by (simp add: runes.simps [of _ "[]"])
  have p1: "fold_res put_letter ?z (enumerate 0 (map unat (map letter a))) = Inr (a @ replicate k 0)"
    using put_letters [OF f(1), of 0 ?z] by simp
  have e9: "inverseCharset ! 0xE9 = 0" by code_simp
  have p2: "put_letter (a @ replicate k 0) (length a, 0xE9) = Inr (a @ replicate k 0)"
    by (simp add: e9 list_update_append z(2))
  have p3: "fold_res put_letter (a @ replicate k 0) (enumerate (length a + 2) (map unat (map letter b))) = Inr ?d"
    using put_letters [OF f(2), of "length a + 2" "a @ replicate k 0"] by (simp add: z(2))
  have "StringToSquashedBytes ?t = Inr ?d"
    unfolding StringToSquashedBytes_def r z(1) fold_res_append p1 bind_res_simps fold_res.simps p2 using p3 by simp
  then have "DecodeSquashed uc (hrp @ 0x31 # ?t) = (hrp, if \<not> VerifyChecksum hrp ?d then Inl Mismatch
      else if length ?d < 6 then Inl Panic else Inr (take (length ?d - 6) ?d))"
    using na li assms(4) by (simp add: DecodeSquashed_def Let_def to_lower_def del: ascii_simps)
  also have "\<dots> = DecodeSquashed uc (hrp @ 0x31 # map letter ?d)"
    using decode_address [OF assms(1), of ?d uc] f by simp
  finally show ?thesis using assms(3) by simp
qed


section \<open>Examples\<close>

definition toy_uc :: unicode where "toy_uc = \<lparr>uc_lower = \<lambda>s. s, uc_upper = \<lambda>s. s\<rparr>"

lemma toy_hrp: "hrp_ok (str ''ln'')" "hrp_ok (str ''bc'')" "hrp_ok (str ''a'')"
  by (simp_all add: hrp_ok_def str_def lower_byte_def)

lemma toy_adr: "str ''a12uel5l'' = str ''a'' @ 0x31 # map letter ([10, 28] @ [25, 31, 20, 31])"
  "str ''a1u2el5l'' = str ''a'' @ 0x31 # map letter ([28, 10] @ [25, 31, 20, 31])"
  by code_simp+

theorem bech32_roundtrip_witness: "Decode toy_uc (Encode (str ''ln'') [1, 2, 255]) = (str ''ln'', Inr [1, 2, 255])"
  using bech32_roundtrip [OF toy_hrp(1)] .

lemma toy_empty: "DecodeSquashed toy_uc (str ''a12uel5l'') = (str ''a'', Inr [])"
proof -
  have "CreateChecksum (str ''a'') [] = [10, 28, 25, 31, 20, 31]" by code_simp
  then have "EncodeSquashed (str ''a'') [] = str ''a12uel5l''" by (simp add: encode_address toy_adr)
  then show ?thesis using squashed_roundtrip [OF toy_hrp(3), of "[]" toy_uc] by simp
qed

theorem typing_errors_refused_witness:
  "DecodeSquashed toy_uc (str ''a12uel5l'') = (str ''a'', Inr []) \<and> DecodeSquashed toy_uc (str ''a1u2el5l'') = (str ''a'', Inl Mismatch)"
  using toy_empty typing_errors_refused [OF toy_hrp(3), of "[]" "[10, 28]" "[25, 31, 20, 31]" toy_uc "[]" "[28, 10]"]
  by (simp add: toy_adr)

theorem segwit_v0_roundtrip_witness:
  "\<exists>adr. SegWitV0Encode (str ''bc'') (replicate 20 7) = Inr adr \<and> SegWitAddressDecode toy_uc adr = Inr (0 # 20 # replicate 20 7)"
  using segwit_v0_roundtrip [OF toy_hrp(2), of "replicate 20 7" toy_uc] by simp

theorem segwit_version_lost_witness:
  "\<exists>adr script. SegWitAddressEncode (str ''bc'') (16 # 2 # [0x75, 0x1e]) = Inr adr \<and>
    SegWitAddressDecode toy_uc adr = Inr script \<and> SegWitAddressEncode (str ''bc'') script = Inl OutOfRange \<and> \<not> IsWitnessProgram script"
  using segwit_version_lost [OF toy_hrp(2), of 16 "[0x75, 0x1e]" toy_uc] by simp

theorem empty_address_panics_witness: "SegWitAddressDecode toy_uc (EncodeSquashed (str ''a'') []) = Inl Panic"
  using empty_address_panics [OF toy_hrp(3)] .

theorem other_letters_accepted_witness:
  "\<exists>data. DecodeSquashed toy_uc (EncodeSquashed (str ''bc'') [0, 0, 5]) = (str ''bc'', Inr data) \<and>
    DecodeSquashed toy_uc (str ''bc'' @ 0x31 # [0xC3, 0xA9] @ map letter ([5] @ CreateChecksum (str ''bc'') [0, 0, 5])) = (str ''bc'', Inr data)"
proof -
  let ?b = "[5] @ CreateChecksum (str ''bc'') [0, 0, 5]"
  have f: "five [0, 0, 5]" by (simp add: five_def drop_bit_eq_div)
  have d: "DecodeSquashed toy_uc (EncodeSquashed (str ''bc'') [0, 0, 5]) = (str ''bc'', Inr [0, 0, 5])"
    using squashed_roundtrip [OF toy_hrp(2) f] .
  moreover have "EncodeSquashed (str ''bc'') [0, 0, 5] = str ''bc'' @ 0x31 # map letter ([] @ [0, 0] @ ?b)"
    using encode_address [OF f] by simp
  moreover have "five ([] @ ?b)" using five_checksum f by (simp add: five_def)
  ultimately show ?thesis
    using other_letters_accepted [OF toy_hrp(2), of "[]" ?b toy_uc "[0, 0, 5]"] by (simp add: toy_uc_def)
qed

end
