(* ===== verification/Routing.thy ===== *)
theory Routing
  imports Htlc "HOL-Library.Signed_Division"
begin

text \<open>
  Routing of multihop payments (\<open>qln/routing.go\<close>, \<open>qln/heap.go\<close>): the map of advertised links and its upkeep, the
  graph built from it, and the search for a path by Bellman-Ford and Dijkstra over a binary heap.
  \<open>Routes\<close> proves what the search promises and what it misses.
\<close>

section \<open>The map of links\<close>

record link_desc =
  ld_Link :: link_msg
  ld_Dirty :: bool

text \<open>The map is a list of its entries, in the order in which \<open>range\<close> happens to visit them.\<close>

type_synonym chan_map = "(bytes \<times> link_desc list) list"

definition links_of :: "chan_map \<Rightarrow> bytes \<Rightarrow> link_desc list" where
  "links_of cm pkh = (case map_of cm pkh of None \<Rightarrow> [] | Some ls \<Rightarrow> ls)"

definition put_links :: "bytes \<Rightarrow> link_desc list \<Rightarrow> chan_map \<Rightarrow> chan_map" where
  "put_links pkh ls cm =
     (if pkh \<in> fst ` set cm then map (\<lambda>(k, v). (k, if k = pkh then ls else v)) cm else cm @ [(pkh, ls)])"

definition ChannelAdvTimeout :: int where "ChannelAdvTimeout = 60"

text \<open>A node is in the new map when one of its links is.\<close>

definition cleanStaleChannels :: "int \<Rightarrow> chan_map \<Rightarrow> chan_map" where
  "cleanStaleChannels now cm =
     filter (\<lambda>(pkh, ls). ls \<noteq> [])
       (map (\<lambda>(pkh, ls). (pkh, filter (\<lambda>c. now \<le> i64 (sint (lk_Timestamp (ld_Link c)) + ChannelAdvTimeout)) ls)) cm)"

text \<open>
  A link advertisement: the new map, and the copies sent on to the peers it did not come from. The position of
  the link is that of the first one with the same peer and coin.
\<close>

definition same_link :: "link_msg \<Rightarrow> link_desc \<Rightarrow> bool" where
  "same_link msg v \<longleftrightarrow> lk_BPKH (ld_Link v) = lk_BPKH msg \<and> lk_CoinType (ld_Link v) = lk_CoinType msg"

definition rebroadcast :: "u32 list \<Rightarrow> link_msg \<Rightarrow> link_msg list" where
  "rebroadcast peers msg = map (\<lambda>p. msg\<lparr>lk_PeerIdx := p\<rparr>) (filter (\<lambda>p. p \<noteq> lk_PeerIdx msg) peers)"

definition LinkMsgHandler :: "int \<Rightarrow> u32 list \<Rightarrow> link_msg \<Rightarrow> chan_map \<Rightarrow> chan_map \<times> link_msg list" where
  "LinkMsgHandler now peers msg cm =
     (let msg = msg\<lparr>lk_Timestamp := of_int now\<rparr>; ls = links_of cm (lk_APKH msg) in
      case find_idx (same_link msg) ls of
        Some i \<Rightarrow>
          if lk_Seq msg \<le> lk_Seq (ld_Link (ls ! i)) then (cm, [])
          else (put_links (lk_APKH msg) (ls[i := \<lparr>ld_Link = msg, ld_Dirty = False\<rparr>]) cm, rebroadcast peers msg)
      | None \<Rightarrow> (put_links (lk_APKH msg) (ls @ [\<lparr>ld_Link = msg, ld_Dirty = False\<rparr>]) cm, rebroadcast peers msg))"

text \<open>
  What a node advertises of its own channels: for each peer and coin the largest balance that a single channel
  can send, less the reserve. The channels come with the hash of the key of their peer; the messages go
  through \<open>LinkMsgHandler\<close> of the node itself.
\<close>

definition usable :: "qchan \<Rightarrow> bool" where
  "usable q \<longleftrightarrow> \<not> cl_Closed (q_CloseData q) \<and> i64 (2 * (MinOutput + st_Fee (q_State q))) \<le> st_MyAmt (q_State q) \<and> \<not> st_Failed (q_State q)"

definition free_amt :: "qchan \<Rightarrow> int" where
  "free_amt q = i64 (i64 (st_MyAmt (q_State q) - MinOutput) - st_Fee (q_State q))"

definition put_cap :: "bytes \<times> qchan \<Rightarrow> ((bytes \<times> u32) \<times> int) list \<Rightarrow> ((bytes \<times> u32) \<times> int) list" where
  "put_cap = (\<lambda>(BPKH, q) caps.
     let k = (BPKH, Qchan_Coin q); old = (case map_of caps k of None \<Rightarrow> 0 | Some c \<Rightarrow> c) in
     if \<not> usable q \<or> \<not> old < free_amt q then caps
     else if k \<in> fst ` set caps then map (\<lambda>(k', c). (k', if k' = k then free_amt q else c)) caps
     else caps @ [(k, free_amt q)])"

definition own_links ::
  "bytes \<Rightarrow> (u32 \<Rightarrow> rate_desc list option) \<Rightarrow> u32 \<Rightarrow> (bytes \<times> qchan) list \<Rightarrow> link_msg list" where
  "own_links me rates seq chans =
     map (\<lambda>((BPKH, coin), capacity).
        \<lparr>lk_PeerIdx = 0xFFFFFFFF, lk_APKH = me, lk_ACapacity = of_int capacity, lk_BPKH = BPKH, lk_CoinType = coin, lk_Seq = seq,
         lk_Timestamp = 0, lk_Rates = (case rates coin of None \<Rightarrow> [] | Some rs \<Rightarrow> rs)\<rparr>)
       (fold put_cap chans [])"

definition advertiseLinks ::
  "int \<Rightarrow> u32 list \<Rightarrow> bytes \<Rightarrow> (u32 \<Rightarrow> rate_desc list option) \<Rightarrow> u32 \<Rightarrow> (bytes \<times> qchan) list \<Rightarrow> chan_map \<Rightarrow> chan_map \<times> link_msg list" where
  "advertiseLinks now peers me rates seq chans cm =
     fold (\<lambda>msg (cm, out). let (cm, out') = LinkMsgHandler now peers msg cm in (cm, out @ out'))
       (own_links me rates seq chans) (cm, [])"

section \<open>The graph\<close>

text \<open>
  Weights are the floating-point numbers of Go. Their operations are a parameter: addition, subtraction, comparison,
  zero, the largest number, and the weight of a rate, \<open>-math.Log(price)\<close>.
\<close>

record 'w floats =
  fl_add :: "'w \<Rightarrow> 'w \<Rightarrow> 'w"
  fl_sub :: "'w \<Rightarrow> 'w \<Rightarrow> 'w"
  fl_less :: "'w \<Rightarrow> 'w \<Rightarrow> bool"
  fl_zero :: 'w
  fl_max :: 'w
  fl_weight :: "rate_desc \<Rightarrow> 'w"

record vertex =
  vx_Node :: bytes
  vx_CoinType :: u32
  vx_Terminus :: bool

text \<open>\<open>channelEdge\<close> between vertices, and \<open>channelEdgeLight\<close> between their numbers.\<close>

record ('w, 'v) edge =
  ed_W :: 'w
  ed_U :: 'v
  ed_V :: 'v
  ed_Rate :: rate_desc
  ed_Capacity :: int

text \<open>
  The edges of one link: to each coin in which the peer has links of its own and takes this coin, the first rate
  found, and to the peer as the end of a path.
\<close>

definition add_trade ::
  "'w floats \<Rightarrow> link_msg \<Rightarrow> link_desc \<Rightarrow> u32 list \<times> ('w, vertex) edge list \<Rightarrow> u32 list \<times> ('w, vertex) edge list" where
  "add_trade fl c their = (\<lambda>(coins, es).
     let coin = lk_CoinType (ld_Link their) in
     if coin \<in> set coins then (coins, es)
     else case find (\<lambda>r. rd_CoinType r = lk_CoinType c) (lk_Rates (ld_Link their)) of
       None \<Rightarrow> (coins, es)
     | Some rd \<Rightarrow>
       (coin # coins,
        es @ [\<lparr>ed_W = fl_weight fl rd, ed_U = \<lparr>vx_Node = lk_APKH c, vx_CoinType = lk_CoinType c, vx_Terminus = False\<rparr>,
               ed_V = \<lparr>vx_Node = lk_BPKH c, vx_CoinType = coin, vx_Terminus = False\<rparr>, ed_Rate = rd,
               ed_Capacity = sint (lk_ACapacity c)\<rparr>]))"

definition trade_edges :: "'w floats \<Rightarrow> chan_map \<Rightarrow> link_msg \<Rightarrow> ('w, vertex) edge list" where
  "trade_edges fl cm c = snd (fold (add_trade fl c) (links_of cm (lk_BPKH c)) ([], []))"

definition sink_edge :: "'w floats \<Rightarrow> link_msg \<Rightarrow> ('w, vertex) edge" where
  "sink_edge fl c =
     \<lparr>ed_W = fl_zero fl, ed_U = \<lparr>vx_Node = lk_APKH c, vx_CoinType = lk_CoinType c, vx_Terminus = False\<rparr>,
      ed_V = \<lparr>vx_Node = lk_BPKH c, vx_CoinType = lk_CoinType c, vx_Terminus = True\<rparr>,
      ed_Rate = \<lparr>rd_CoinType = lk_CoinType c, rd_Rate = 1, rd_Reciprocal = False\<rparr>, ed_Capacity = sint (lk_ACapacity c)\<rparr>"

definition link_edges :: "'w floats \<Rightarrow> chan_map \<Rightarrow> link_msg \<Rightarrow> ('w, vertex) edge list" where
  "link_edges fl cm c = trade_edges fl cm c @ [sink_edge fl c]"

definition all_edges :: "'w floats \<Rightarrow> chan_map \<Rightarrow> ('w, vertex) edge list" where
  "all_edges fl cm = concat (map (\<lambda>(pkh, ls). concat (map (\<lambda>l. link_edges fl cm (ld_Link l)) ls)) cm)"

text \<open>The vertices, in the order in which their map is visited (a parameter), and the edges between their numbers.\<close>

definition vertex_set :: "('w, vertex) edge list \<Rightarrow> vertex list" where
  "vertex_set es = remdups (concat (map (\<lambda>e. [ed_U e, ed_V e]) es))"

definition vertex_idx :: "vertex list \<Rightarrow> vertex \<Rightarrow> nat" where
  "vertex_idx vs v = (case find_idx (\<lambda>u. u = v) vs of None \<Rightarrow> 0 | Some i \<Rightarrow> i)"

definition light :: "vertex list \<Rightarrow> ('w, vertex) edge \<Rightarrow> ('w, nat) edge" where
  "light vs e =
     \<lparr>ed_W = ed_W e, ed_U = vertex_idx vs (ed_U e), ed_V = vertex_idx vs (ed_V e), ed_Rate = ed_Rate e, ed_Capacity = ed_Capacity e\<rparr>"

section \<open>Bellman-Ford\<close>

text \<open>The dummy vertex has the number after the last.\<close>

definition dummy_edge :: "'w floats \<Rightarrow> nat \<Rightarrow> nat \<Rightarrow> ('w, nat) edge" where
  "dummy_edge fl n i = \<lparr>ed_W = fl_zero fl, ed_U = n, ed_V = i, ed_Rate = \<lparr>rd_CoinType = 0, rd_Rate = 0, rd_Reciprocal = False\<rparr>, ed_Capacity = 0\<rparr>"

definition relaxable :: "'w floats \<Rightarrow> 'w list \<Rightarrow> ('w, nat) edge \<Rightarrow> bool" where
  "relaxable fl d e \<longleftrightarrow> fl_less fl (fl_add fl (d ! ed_U e) (ed_W e)) (d ! ed_V e)"

definition relax :: "'w floats \<Rightarrow> ('w, nat) edge \<Rightarrow> 'w list \<times> bool \<Rightarrow> 'w list \<times> bool" where
  "relax fl e = (\<lambda>(d, relaxed).
     if relaxable fl d e then (d[ed_V e := fl_add fl (d ! ed_U e) (ed_W e)], True) else (d, relaxed))"

primrec relax_rounds :: "nat \<Rightarrow> 'w floats \<Rightarrow> ('w, nat) edge list \<Rightarrow> 'w list \<Rightarrow> 'w list" where
  "relax_rounds 0 fl es d = d"
| "relax_rounds (Suc n) fl es d =
     (let (d, relaxed) = fold (relax fl) es (d, False) in if relaxed then relax_rounds n fl es d else d)"

text \<open>The weights of the edges after the potentials are added, unless there is a cycle of negative weight.\<close>

definition reweight :: "'w floats \<Rightarrow> nat \<Rightarrow> ('w, nat) edge list \<Rightarrow> lit_error + ('w, nat) edge list" where
  "reweight fl n es =
     (let es' = es @ map (dummy_edge fl n) [0..<n];
          d = relax_rounds (n + 1) fl es' (replicate n (fl_max fl) @ [fl_zero fl])
      in if list_ex (relaxable fl d) es' then Inl Mismatch
         else Inr (map (\<lambda>e. e\<lparr>ed_W := fl_add fl (ed_W e) (fl_sub fl (d ! ed_U e) (d ! ed_V e))\<rparr>) es))"

section \<open>The heap\<close>

record 'w node_dist =
  nw_Dist :: 'w
  nw_Node :: nat
  nw_Amt :: int

definition heap_less :: "'w floats \<Rightarrow> 'w node_dist list \<Rightarrow> nat \<Rightarrow> nat \<Rightarrow> bool" where
  "heap_less fl h i j = fl_less fl (nw_Dist (h ! i)) (nw_Dist (h ! j))"

definition heap_swap :: "'a list \<Rightarrow> nat \<Rightarrow> nat \<Rightarrow> 'a list" where
  "heap_swap h i j = h[i := h ! j, j := h ! i]"

text \<open>\<open>container/heap\<close>: sifting up and down, \<open>Push\<close> and \<open>Pop\<close>.\<close>

function heap_up :: "'w floats \<Rightarrow> 'w node_dist list \<Rightarrow> nat \<Rightarrow> 'w node_dist list" where
  "heap_up fl h j =
     (let i = (j - 1) div 2 in if i = j \<or> \<not> heap_less fl h j i then h else heap_up fl (heap_swap h i j) i)"
  by pat_completeness auto
termination by (relation "measure (\<lambda>(fl, h, j). j)") auto

function heap_down :: "'w floats \<Rightarrow> 'w node_dist list \<Rightarrow> nat \<Rightarrow> nat \<Rightarrow> 'w node_dist list" where
  "heap_down fl h i n =
     (let j1 = 2 * i + 1 in
      if n \<le> j1 then h
      else
        let j = (if j1 + 1 < n \<and> heap_less fl h (j1 + 1) j1 then j1 + 1 else j1) in
        if \<not> heap_less fl h j i then h else heap_down fl (heap_swap h i j) j n)"
  by pat_completeness auto
termination by (relation "measure (\<lambda>(fl, h, i, n). n - i)") auto

declare heap_up.simps [simp del] heap_down.simps [simp del]

definition heap_push :: "'w floats \<Rightarrow> 'w node_dist list \<Rightarrow> 'w node_dist \<Rightarrow> 'w node_dist list" where
  "heap_push fl h x = heap_up fl (h @ [x]) (length h)"

definition heap_pop :: "'w floats \<Rightarrow> 'w node_dist list \<Rightarrow> 'w node_dist list \<times> 'w node_dist" where
  "heap_pop fl h =
     (let n = length h - 1; h = heap_down fl (heap_swap h 0 n) 0 n in (take n h, h ! n))"

section \<open>Dijkstra\<close>

record 'w search =
  se_Dist :: "'w node_dist option list"
  se_Pred :: "nat option list"
  se_Heap :: "'w node_dist list"

text \<open>The amount that is left on the next hop. A rate of zero is a division by zero.\<close>

definition next_amt :: "rate_desc \<Rightarrow> int \<Rightarrow> lit_error + int" where
  "next_amt rd amt =
     (if rd_Reciprocal rd then (if rd_Rate rd = 0 then Inl Panic else Inr (i64 (amt sdiv sint (rd_Rate rd))))
      else Inr (i64 (amt * sint (rd_Rate rd))))"

text \<open>The amount is that of the entry taken from the heap, the distance the present one of its node.\<close>

definition use_edge ::
  "'w floats \<Rightarrow> int \<Rightarrow> 'w node_dist \<Rightarrow> 'w search \<Rightarrow> ('w, nat) edge \<Rightarrow> lit_error + 'w search" where
  "use_edge fl fee part s e =
     (if nw_Amt part < i64 (MinOutput + fee) then Inr s
      else if ed_Capacity e < nw_Amt part then Inr s
      else
        bind_res (next_amt (ed_Rate e) (nw_Amt part)) (\<lambda>amt.
        case se_Dist s ! nw_Node part of None \<Rightarrow> Inl Panic
        | Some du \<Rightarrow>
          let alt = fl_add fl (nw_Dist du) (ed_W e) in
          if (case se_Dist s ! ed_V e of None \<Rightarrow> True | Some dv \<Rightarrow> fl_less fl alt (nw_Dist dv)) then
            let x = \<lparr>nw_Dist = alt, nw_Node = ed_V e, nw_Amt = amt\<rparr> in
            Inr \<lparr>se_Dist = (se_Dist s)[ed_V e := Some x], se_Pred = (se_Pred s)[ed_V e := Some (ed_U e)],
                 se_Heap = heap_push fl (se_Heap s) x\<rparr>
          else Inr s))"

text \<open>One turn of the loop. \<open>fees\<close> are the fees per byte of the registered coins, by vertex.\<close>

definition search_step ::
  "'w floats \<Rightarrow> (nat \<Rightarrow> int option) \<Rightarrow> ('w, nat) edge list \<Rightarrow> 'w search \<Rightarrow> lit_error + 'w search" where
  "search_step fl fees es s =
     (let (h, part) = heap_pop fl (se_Heap s); s = s\<lparr>se_Heap := h\<rparr> in
      case fees (nw_Node part) of None \<Rightarrow> Inr s
      | Some f \<Rightarrow> fold_res (use_edge fl (i64 (f * 1000)) part) s (filter (\<lambda>e. ed_U e = nw_Node part) es))"

text \<open>The loops of the search and of the reading back have no bound in the code: \<open>None\<close> is a loop that does not end.\<close>

partial_function (option) search_loop ::
  "'w floats \<Rightarrow> (nat \<Rightarrow> int option) \<Rightarrow> ('w, nat) edge list \<Rightarrow> 'w search \<Rightarrow> (lit_error + 'w search) option" where
  "search_loop fl fees es s =
     (if se_Heap s = [] then Some (Inr s)
      else case search_step fl fees es s of Inl e \<Rightarrow> Some (Inl e) | Inr s' \<Rightarrow> search_loop fl fees es s')"

partial_function (option) route_ids :: "nat option list \<Rightarrow> nat list \<Rightarrow> nat list option" where
  "route_ids pred ids =
     (case pred ! hd ids of None \<Rightarrow> Some ids | Some p \<Rightarrow> route_ids pred (p # ids))"

declare search_loop.simps [code] route_ids.simps [code]

definition search_init :: "'w floats \<Rightarrow> nat \<Rightarrow> nat \<Rightarrow> int \<Rightarrow> 'w search" where
  "search_init fl n me amount =
     (let x = \<lparr>nw_Dist = fl_zero fl, nw_Node = me, nw_Amt = amount\<rparr> in
      \<lparr>se_Dist = (replicate n None)[me := Some x], se_Pred = replicate n None, se_Heap = heap_push fl [] x\<rparr>)"

section \<open>Finding a path\<close>

text \<open>The hash of the own key, the fees per byte of the registered coins, the order of the vertices.\<close>

record 'w route_env =
  re_floats :: "'w floats"
  re_me :: bytes
  re_fee :: "u32 \<Rightarrow> int option"
  re_order :: "vertex list \<Rightarrow> vertex list"

definition FindPath ::
  "'w route_env \<Rightarrow> chan_map \<Rightarrow> bytes \<Rightarrow> u32 \<Rightarrow> u32 \<Rightarrow> int \<Rightarrow> (lit_error + route_hop list) option" where
  "FindPath re cm targetPkh destCoinType originCoinType amount =
     (let fl = re_floats re; es = all_edges fl cm; vs = re_order re (vertex_set es); n = length vs in
      case find_idx (\<lambda>v. v = \<lparr>vx_Node = re_me re, vx_CoinType = originCoinType, vx_Terminus = False\<rparr>) vs of
        None \<Rightarrow> Some (Inl OutOfRange)
      | Some me \<Rightarrow>
        (case find_idx (\<lambda>v. v = \<lparr>vx_Node = targetPkh, vx_CoinType = destCoinType, vx_Terminus = True\<rparr>) vs of
           None \<Rightarrow> Some (Inl OutOfRange)
         | Some target \<Rightarrow>
           (case reweight fl n (map (light vs) es) of Inl e \<Rightarrow> Some (Inl e)
            | Inr es \<Rightarrow>
              (case search_loop fl (\<lambda>i. re_fee re (vx_CoinType (vs ! i))) es (search_init fl n me amount) of None \<Rightarrow> None
               | Some (Inl e) \<Rightarrow> Some (Inl e)
               | Some (Inr s) \<Rightarrow>
                 if se_Dist s ! target = None then Some (Inl BadFormat)
                 else case se_Pred s ! target of None \<Rightarrow> Some (Inl Panic)
                 | Some p \<Rightarrow>
                   map_option (\<lambda>ids. Inr (map (\<lambda>i. \<lparr>rh_Node = vx_Node (vs ! i), rh_CoinType = vx_CoinType (vs ! i)\<rparr>) ids))
                     (route_ids (se_Pred s) [p, target])))))"

end
