(* ===== verification/Multihop.thy ===== *)
theory Multihop
  imports Bech32 Routing
begin

text \<open>
  Multihop payments (\<open>qln/multihop.go\<close>, \<open>lncore/peers.go\<close>, \<open>InFlightMultihop\<close> of \<open>qln/lndb.go\<close>): a payer finds a path and asks
  the payee for a hash; with the hash it offers an HTLC to the first hop and sends the path after it; each hop checks
  that it was offered an HTLC with the hash and offers the next one, and the payee claims. Offers and claims run
  in goroutines that start when a handler has returned: they are part of the handlers' results.
\<close>

section \<open>Payments in flight\<close>

definition InFlightMultihop_Bytes :: "in_flight \<Rightarrow> bytes" where
  "InFlightMultihop_Bytes p =
     WriteVarInt (len64 (mu_Path p)) @ concat (map RouteHop_Bytes (mu_Path p)) @ WriteVarInt (of_int (mu_Amt p)) @
     mu_HHash p @ mu_PreImage p @ [if mu_Succeeded p then 1 else 0]"

text \<open>A missing last byte is an error; any byte but zero is true.\<close>

definition InFlightMultihopFromBytes :: "bytes \<Rightarrow> lit_error + in_flight" where
  "InFlightMultihopFromBytes b =
     (let (hops, buf) = ReadVarInt_ign b in
      bind_res (read_list_err (unat hops) read_hop buf) (\<lambda>(path, buf).
      let (amount, buf) = ReadVarInt_ign buf; (hHash, buf) = next_arr 32 buf; (preImage, buf) = next_arr 16 buf in
      case buf of [] \<Rightarrow> Inl UnexpectedEOF
      | x # _ \<Rightarrow> Inr \<lparr>mu_Path = path, mu_Amt = sint amount, mu_HHash = hHash, mu_PreImage = preImage, mu_Succeeded = (x \<noteq> 0)\<rparr>))"

definition SaveMultihopPayment :: "lit_node \<Rightarrow> in_flight \<Rightarrow> lit_node" where
  "SaveMultihopPayment nd p = nd\<lparr>nd_Payments := (nd_Payments nd)(mu_HHash p := Some p)\<rparr>"

definition add_in_flight :: "lit_node \<Rightarrow> in_flight \<Rightarrow> lit_node" where
  "add_in_flight nd p = nd\<lparr>nd_InProgMultihop := nd_InProgMultihop nd @ [p]\<rparr>"

section \<open>The environment\<close>

text \<open>
  The peers that are known by address, before and after dialling, the channels in memory with a connected peer
  (visited in this order), the key of a peer, the random preimage, the order of the channel bucket, and the rest
  of what path finding and channels are given.
\<close>

record 'w hop_env =
  he_ev :: node_env
  he_route :: "'w route_env"
  he_uc :: unicode
  he_GetPeer :: "bytes \<Rightarrow> u32 option"
  he_Dial :: "bytes \<Rightarrow> lit_error option"
  he_GetPeer2 :: "bytes \<Rightarrow> u32 option"
  he_QCs :: "u32 \<Rightarrow> qchan list option"
  he_PeerKey :: "u32 \<Rightarrow> bytes"
  he_rand :: bytes
  he_keys :: "bytes list"

definition ParseLnAddr :: "unicode \<Rightarrow> bytes \<Rightarrow> lit_error + bytes" where
  "ParseLnAddr uc m =
     (let (prefix, raw) = Decode uc m in
      bind_res raw (\<lambda>raw. if prefix \<noteq> str ''ln'' then Inl Mismatch else if 20 < length raw then Inl (BadLength (length raw)) else Inr m))"

definition FindPeerIndexByAddress :: "unicode \<Rightarrow> (bytes \<Rightarrow> u32 option) \<Rightarrow> bytes \<Rightarrow> lit_error + u32" where
  "FindPeerIndexByAddress uc peers lnAdr =
     bind_res (ParseLnAddr uc lnAdr) (\<lambda>a. case peers a of None \<Rightarrow> Inl OutOfRange | Some i \<Rightarrow> Inr i)"

text \<open>A peer that is not known is dialled.\<close>

definition connect :: "'w hop_env \<Rightarrow> bytes \<Rightarrow> lit_error option" where
  "connect he adr =
     (case FindPeerIndexByAddress (he_uc he) (he_GetPeer he) adr of Inr i \<Rightarrow> None | Inl e \<Rightarrow> he_Dial he adr)"

abbreviation he_me :: "'w hop_env \<Rightarrow> bytes" where "he_me he \<equiv> re_me (he_route he)"

definition DefaultLockTime :: u32 where "DefaultLockTime = 500"

section \<open>Asking for a payment\<close>

text \<open>\<open>None\<close>: the search for a path does not end.\<close>

definition PayMultihop ::
  "'w hop_env \<Rightarrow> lit_node \<Rightarrow> chan_map \<Rightarrow> bytes \<Rightarrow> u32 \<Rightarrow> u32 \<Rightarrow> int \<Rightarrow> (lit_node \<times> lit_msg list \<times> lit_error option) option" where
  "PayMultihop he nd cm dstLNAdr originCoinType destCoinType amount =
     (case snd (Decode (he_uc he) dstLNAdr) of Inl e \<Rightarrow> Some (nd, [], Some e)
      | Inr adr \<Rightarrow>
        (case ev_wallet (he_ev he) originCoinType of None \<Rightarrow> Some (nd, [], Some OutOfRange)
         | Some wal \<Rightarrow>
           if amount < i64 (MinOutput + i64 (wl_Fee wal * 1000)) then Some (nd, [], Some OutOfRange)
           else
             (case connect he dstLNAdr of Some e \<Rightarrow> Some (nd, [], Some e)
              | None \<Rightarrow>
                map_option (\<lambda>r.
                  case r of Inl e \<Rightarrow> (nd, [], Some e)
                  | Inr path \<Rightarrow>
                    (case FindPeerIndexByAddress (he_uc he) (he_GetPeer2 he) dstLNAdr of Inl e \<Rightarrow> (nd, [], Some e)
                     | Inr idx \<Rightarrow>
                       (add_in_flight nd \<lparr>mu_Path = path, mu_Amt = amount, mu_HHash = replicate 32 0, mu_PreImage = replicate 16 0,
                          mu_Succeeded = False\<rparr>,
                        tmpSendLitMsg (he_ev he) (MsgPayReq (NewMultihopPaymentRequestMsg idx destCoinType)), None)))
                  (FindPath (he_route he) cm (copy_fresh 20 adr) destCoinType originCoinType amount))))"

definition MultihopPaymentRequestHandler :: "'w hop_env \<Rightarrow> lit_node \<Rightarrow> pay_req_msg \<Rightarrow> lit_node \<times> lit_msg list" where
  "MultihopPaymentRequestHandler he nd msg =
     (let sha = cr_Sha256 (ev_crypto (he_ev he));
          pkh = copy_fresh 20 (take 20 (sha (he_PeerKey he (mq_PeerIdx msg))));
          hash = sha (he_rand he);
          p = \<lparr>mu_Path = [\<lparr>rh_Node = pkh, rh_CoinType = mq_Cointype msg\<rparr>], mu_Amt = 0, mu_HHash = hash, mu_PreImage = he_rand he,
               mu_Succeeded = False\<rparr>
      in (SaveMultihopPayment (add_in_flight nd p) p,
          tmpSendLitMsg (he_ev he) (MsgPayAck (NewMultihopPaymentAckMsg (mq_PeerIdx msg) hash))))"

section \<open>Offers\<close>

text \<open>An offer that a goroutine makes, and the message it sends when the offer went through.\<close>

record offer =
  of_Chan :: qchan
  of_Amt :: u32
  of_Hash :: bytes
  of_Locktime :: u32
  of_Setup :: pay_setup_msg
  of_Dirty :: "route_hop list"

text \<open>The first link of each hop in its coin is marked.\<close>

definition mark_dirty :: "route_hop \<Rightarrow> chan_map \<Rightarrow> chan_map" where
  "mark_dirty hop cm =
     (let ls = links_of cm (rh_Node hop) in
      case find_idx (\<lambda>l. lk_CoinType (ld_Link l) = rh_CoinType hop) ls of None \<Rightarrow> cm
      | Some i \<Rightarrow> put_links (rh_Node hop) (ls[i := (ls ! i)\<lparr>ld_Dirty := True\<rparr>]) cm)"

definition start_offer :: "node_env \<Rightarrow> lit_node \<Rightarrow> offer \<Rightarrow> q_result" where
  "start_offer ev nd r = OfferHTLC ev nd (of_Chan r) (of_Amt r) (of_Hash r) (of_Locktime r) (replicate 32 0)"

definition finish_offer :: "node_env \<Rightarrow> chan_map \<Rightarrow> offer \<Rightarrow> lit_error option \<Rightarrow> chan_map \<times> lit_msg list" where
  "finish_offer ev cm r err =
     (case err of Some e \<Rightarrow> (cm, [])
      | None \<Rightarrow> (fold mark_dirty (of_Dirty r) cm, tmpSendLitMsg ev (MsgPaySetup (of_Setup r))))"

text \<open>A channel in memory that can carry an amount above a reserve.\<close>

definition carries :: "u32 \<Rightarrow> int \<Rightarrow> int \<Rightarrow> qchan \<Rightarrow> bool" where
  "carries coin fee amt ch \<longleftrightarrow> Qchan_Coin ch = coin \<and> amt \<le> i64 (i64 (st_MyAmt (q_State ch) - MinOutput) - fee) \<and>
     \<not> cl_Closed (q_CloseData ch) \<and> \<not> st_Failed (q_State ch)"

section \<open>The answer of the payee\<close>

definition ack_hop :: "'w hop_env \<Rightarrow> lit_node \<Rightarrow> nat \<Rightarrow> in_flight \<Rightarrow> bytes \<Rightarrow> lit_node \<times> offer option \<times> lit_error option" where
  "ack_hop he nd idx mh hHash =
     (if length (mu_Path mh) < 2 then (nd, None, Some Panic)
      else
        let firstHop = mu_Path mh ! 1; ourHop = mu_Path mh ! 0 in
        case FindPeerIndexByAddress (he_uc he) (he_GetPeer he) (Encode (str ''ln'') (rh_Node firstHop)) of Inl e \<Rightarrow> (nd, None, Some e)
        | Inr firstHopIdx \<Rightarrow>
          (case he_QCs he firstHopIdx of None \<Rightarrow> (nd, None, Some Panic)
           | Some qcs \<Rightarrow>
             (case find (\<lambda>ch. carries (rh_CoinType ourHop) (st_Fee (q_State ch)) (mu_Amt mh) ch) qcs of
                None \<Rightarrow> (nd, None, Some OutOfRange)
              | Some qc \<Rightarrow>
                let mh = mh\<lparr>mu_HHash := hHash\<rparr>;
                    nd = SaveMultihopPayment (nd\<lparr>nd_InProgMultihop := (nd_InProgMultihop nd)[idx := mh]\<rparr>) mh
                in (case ev_wallet (he_ev he) (rh_CoinType ourHop) of None \<Rightarrow> (nd, None, Some OutOfRange)
                    | Some wal \<Rightarrow>
                      (nd, Some \<lparr>of_Chan = qc, of_Amt = of_int (mu_Amt mh), of_Hash = hHash,
                         of_Locktime = of_int (i32 (wl_Height wal + i32 (int (length (mu_Path mh)) * 505))),
                         of_Setup = NewMultihopPaymentSetupMsg firstHopIdx hHash (mu_Path mh) (replicate 32 0),
                         of_Dirty = mu_Path mh\<rparr>, None)))))"

text \<open>The first payment without a hash whose target is the sender. An address that is not connected ends the loop.\<close>

primrec ack_loop ::
  "'w hop_env \<Rightarrow> lit_node \<Rightarrow> pay_ack_msg \<Rightarrow> nat \<Rightarrow> in_flight list \<Rightarrow> lit_node \<times> offer option \<times> lit_error option" where
  "ack_loop he nd msg idx [] = (nd, None, None)"
| "ack_loop he nd msg idx (mh # mhs) =
     (if \<not> mu_Succeeded mh \<and> mu_HHash mh = replicate 32 0 then
        if mu_Path mh = [] then (nd, None, Some Panic)
        else
          (case FindPeerIndexByAddress (he_uc he) (he_GetPeer he) (Encode (str ''ln'') (rh_Node (last (mu_Path mh)))) of
             Inl e \<Rightarrow> (nd, None, Some e)
           | Inr targetIdx \<Rightarrow>
             if ma_PeerIdx msg = targetIdx then ack_hop he nd idx mh (ma_HHash msg) else ack_loop he nd msg (Suc idx) mhs)
      else ack_loop he nd msg (Suc idx) mhs)"

definition MultihopPaymentAckHandler :: "'w hop_env \<Rightarrow> lit_node \<Rightarrow> pay_ack_msg \<Rightarrow> lit_node \<times> offer option \<times> lit_error option" where
  "MultihopPaymentAckHandler he nd msg = ack_loop he nd msg 0 (nd_InProgMultihop nd)"

section \<open>Forwarding\<close>

datatype setup_action = Offer offer | Claim bytes

text \<open>The hops around this node in a path: the one before, its own, the one after it if there is one.\<close>

definition my_place :: "bytes \<Rightarrow> route_hop list \<Rightarrow> lit_error + (route_hop \<times> route_hop \<times> route_hop option) option" where
  "my_place me path =
     (case find_idx (\<lambda>h. rh_Node h = me) path of None \<Rightarrow> Inr None
      | Some i \<Rightarrow>
        if i = 0 then Inl BadFormat
        else Inr (Some (path ! (i - 1), path ! i, if i + 1 < length path then Some (path ! (i + 1)) else None)))"

text \<open>The search for the HTLC that was offered to this node. Without a place in the path the hop before is a nil pointer.\<close>

primrec find_incoming :: "route_hop option \<Rightarrow> (htlc \<times> qchan) list \<Rightarrow> lit_error + htlc" where
  "find_incoming incomingHop [] = Inl OutOfRange"
| "find_incoming incomingHop (hc # hs) =
     (let (h, ch) = hc;
          live = (ht_Incoming h \<and> \<not> ht_Cleared h \<and> \<not> ht_Clearing h \<and> \<not> ht_ClearedOnChain h)
      in if live \<and> incomingHop = None then Inl Panic
         else if live \<and> Qchan_Coin ch = rh_CoinType (the incomingHop) then Inr h
         else if \<not> ht_Incoming h \<and> \<not> ht_Cleared h \<and> \<not> ht_ClearedOnChain h then Inl Mismatch
         else find_incoming incomingHop hs)"

text \<open>The payments this node knows the preimage of.\<close>

definition known_preimage :: "crypto \<Rightarrow> bytes \<Rightarrow> u32 \<Rightarrow> in_flight list \<Rightarrow> in_flight option" where
  "known_preimage cr hHash coin mhs =
     find (\<lambda>mh. mu_PreImage mh \<noteq> replicate 16 0 \<and> cr_Sha256 cr (mu_PreImage mh) = hHash \<and> rh_CoinType (last (mu_Path mh)) = coin) mhs"

definition new_locktime :: "u32 \<Rightarrow> u32 \<Rightarrow> u32 \<Rightarrow> u32" where
  "new_locktime locktime height nextHeight = ((locktime - height) div DefaultLockTime - 1) * DefaultLockTime + nextHeight"

text \<open>The amount after this node's exchange. The rate is positive, so that it can be divided by.\<close>

definition exchange :: "chan_map \<Rightarrow> bytes \<Rightarrow> u32 \<Rightarrow> u32 \<Rightarrow> int \<Rightarrow> lit_error + int" where
  "exchange cm me incoming ours amt =
     (if incoming = ours then Inr amt
      else
        let rates = (case find (\<lambda>l. lk_CoinType (ld_Link l) = ours) (links_of cm me) of None \<Rightarrow> [] | Some l \<Rightarrow> lk_Rates (ld_Link l)) in
        case find (\<lambda>r. rd_CoinType r = incoming \<and> 0 < sint (rd_Rate r)) rates of None \<Rightarrow> Inl OutOfRange
        | Some rd \<Rightarrow> if rd_Reciprocal rd then Inr (i64 (amt sdiv sint (rd_Rate rd))) else Inr (i64 (amt * sint (rd_Rate rd))))"

text \<open>The part of the handler after the HTLC was found and no preimage is known.\<close>

definition forward ::
  "'w hop_env \<Rightarrow> lit_node \<Rightarrow> chan_map \<Rightarrow> pay_setup_msg \<Rightarrow> htlc \<Rightarrow> route_hop \<Rightarrow> route_hop \<Rightarrow> route_hop \<Rightarrow>
   lit_node \<times> offer option \<times> lit_error option" where
  "forward he nd cm msg h incomingHop ourHop nextHop =
     (case ev_wallet (he_ev he) (rh_CoinType incomingHop) of None \<Rightarrow> (nd, None, Some OutOfRange)
      | Some wal \<Rightarrow>
        let height = wl_Height wal in
        if ht_Locktime h - DefaultLockTime < of_int (i32 (height + 500)) then (nd, None, Some OutOfRange)
        else
          (case ev_wallet (he_ev he) (rh_CoinType ourHop) of None \<Rightarrow> (nd, None, Some OutOfRange)
           | Some wal \<Rightarrow>
             let fee = i64 (wl_Fee wal * 1000);
                 newLocktime = new_locktime (ht_Locktime h) (of_int height) (of_int (wl_Height wal));
                 p = \<lparr>mu_Path = mp_NodeRoute msg, mu_Amt = 0, mu_HHash = mp_HHash msg, mu_PreImage = replicate 16 0, mu_Succeeded = False\<rparr>;
                 nd = SaveMultihopPayment (add_in_flight nd p) p;
                 lnAdr = Encode (str ''ln'') (rh_Node nextHop)
             in case connect he lnAdr of Some e \<Rightarrow> (nd, None, Some e)
             | None \<Rightarrow>
               (case FindPeerIndexByAddress (he_uc he) (he_GetPeer2 he) lnAdr of Inl e \<Rightarrow> (nd, None, Some e)
                | Inr sendToIdx \<Rightarrow>
                  (case exchange cm (he_me he) (rh_CoinType incomingHop) (rh_CoinType ourHop) (ht_Amt h) of Inl e \<Rightarrow> (nd, None, Some e)
                   | Inr amtRqd \<Rightarrow>
                     if amtRqd < i64 (MinOutput + fee) then (nd, None, Some OutOfRange)
                     else
                       (case he_QCs he sendToIdx of None \<Rightarrow> (nd, None, Some Panic)
                        | Some qcs \<Rightarrow>
                          (case find (carries (rh_CoinType ourHop) fee amtRqd) qcs of None \<Rightarrow> (nd, None, Some OutOfRange)
                           | Some qc \<Rightarrow>
                             (nd, Some \<lparr>of_Chan = qc, of_Amt = of_int amtRqd, of_Hash = mp_HHash msg, of_Locktime = newLocktime,
                                of_Setup = msg\<lparr>mp_PeerIdx := sendToIdx, mp_NodeRoute := tl (mp_NodeRoute msg)\<rparr>,
                                of_Dirty = mp_NodeRoute msg\<rparr>, None)))))))"

definition MultihopPaymentSetupHandler ::
  "'w hop_env \<Rightarrow> lit_node \<Rightarrow> chan_map \<Rightarrow> pay_setup_msg \<Rightarrow> lit_node \<times> setup_action option \<times> lit_error option" where
  "MultihopPaymentSetupHandler he nd cm msg =
     (case my_place (he_me he) (mp_NodeRoute msg) of Inl e \<Rightarrow> (nd, None, Some e)
      | Inr place \<Rightarrow>
        (case find_incoming (map_option fst place) (FindHTLCsByHash (he_ev he) nd (he_keys he) (mp_HHash msg)) of
           Inl e \<Rightarrow> (nd, None, Some e)
         | Inr h \<Rightarrow>
           (case place of None \<Rightarrow> (nd, None, Some Panic)
            | Some (incomingHop, ourHop, nextHop) \<Rightarrow>
              (case known_preimage (ev_crypto (he_ev he)) (mp_HHash msg) (rh_CoinType incomingHop) (nd_InProgMultihop nd) of
                 Some mh \<Rightarrow> (nd, Some (Claim (mu_PreImage mh)), None)
               | None \<Rightarrow>
                 (case nextHop of None \<Rightarrow> (nd, None, Some BadFormat)
                  | Some next \<Rightarrow>
                    let (nd, r, e) = forward he nd cm msg h incomingHop ourHop next in (nd, map_option Offer r, e))))))"

end
