(* ===== verification/Routes.thy ===== *)
theory Routes
  imports Routing "HOL-Library.Multiset"
begin

text \<open>
  What the search for a path promises: a path that is found consists of advertised links from the node to its target,
  for any arithmetic of the weights; the loop over the heap ends for any arithmetic of finitely many numbers, and FindPath
  returns unless it leaves the predecessors in a cycle, which rounding can bring about; a cycle of profitable exchanges anywhere in the
  map makes it fail; and the capacity of a link is checked against an amount that need not be that of the path found.
\<close>

section \<open>The heap\<close>

lemma heap_swap_mset: "i < length h \<Longrightarrow> j < length h \<Longrightarrow> mset (heap_swap h i j) = mset h"
  by (simp add: heap_swap_def mset_swap)

lemma heap_swap_length [simp]: "length (heap_swap h i j) = length h"
  by (simp add: heap_swap_def)

lemma heap_up_mset: "j < length h \<Longrightarrow> mset (heap_up fl h j) = mset h"
proof (induction fl h j rule: heap_up.induct)
  case (1 fl h j)
  let ?i = "(j - 1) div 2"
  show ?case
  proof (cases "?i = j \<or> \<not> heap_less fl h j ?i")
    case True
    then show ?thesis by (subst heap_up.simps) (simp add: Let_def)
  next
    case False
    moreover have "mset (heap_up fl (heap_swap h ?i j) ?i) = mset h"
      using "1.IH" [OF refl False] "1.prems" by (simp add: heap_swap_mset)
    ultimately show ?thesis by (subst heap_up.simps) (simp add: Let_def)
  qed
qed

lemma heap_down_mset: "n \<le> length h \<Longrightarrow> mset (heap_down fl h i n) = mset h"
proof (induction fl h i n rule: heap_down.induct)
  case (1 fl h i n)
  let ?j1 = "2 * i + 1"
  let ?j = "if ?j1 + 1 < n \<and> heap_less fl h (?j1 + 1) ?j1 then ?j1 + 1 else ?j1"
  show ?case
  proof (cases "n \<le> ?j1 \<or> \<not> heap_less fl h ?j i")
    case True
    then show ?thesis by (subst heap_down.simps) (auto simp: Let_def)
  next
    case False
    then have l: "i < length h" "?j < length h" using "1.prems" by auto
    have "mset (heap_down fl (heap_swap h i ?j) ?j n) = mset h"
      using "1.IH" [OF refl _ refl] False "1.prems" l by (simp add: heap_swap_mset del: if_split)
    then show ?thesis using False by (subst heap_down.simps) (auto simp: Let_def split: if_splits)
  qed
qed

lemma heap_push_mset: "mset (heap_push fl h x) = add_mset x (mset h)"
  by (simp add: heap_push_def heap_up_mset)

lemma heap_pop_mset:
  assumes "h \<noteq> []" "heap_pop fl h = (h', x)"
  shows "mset h = add_mset x (mset h')"
proof -
  let ?n = "length h - 1"
  let ?d = "heap_down fl (heap_swap h 0 ?n) 0 ?n"
  have m: "mset ?d = mset h" using assms(1) by (simp add: heap_down_mset heap_swap_mset)
  then have "length ?d = length h" by (metis size_mset)
  then have "?d = take ?n ?d @ [?d ! ?n]" using assms(1) by (metis Suc_pred' id_take_nth_drop drop_all le_refl length_greater_0_conv lessI)
  moreover have "h' = take ?n ?d" "x = ?d ! ?n" using assms(2) by (simp_all add: heap_pop_def Let_def)
  ultimately have "mset ?d = add_mset x (mset h')" by (metis add_mset_add_single mset.simps(1,2) mset_append)
  then show ?thesis by (simp only: m)
qed

lemma heap_pop_set: "h \<noteq> [] \<Longrightarrow> heap_pop fl h = (h', x) \<Longrightarrow> set h = insert x (set h') \<and> length h = Suc (length h')"
  by (drule (1) heap_pop_mset) (metis set_mset_add_mset_insert set_mset_mset size_add_mset size_mset)

lemma heap_push_set: "set (heap_push fl h x) = insert x (set h)" "length (heap_push fl h x) = Suc (length h)"
  using heap_push_mset [of fl h x] by (metis set_mset_add_mset_insert set_mset_mset, metis size_add_mset size_mset)

section \<open>The search finds edges\<close>

definition edges_below :: "nat \<Rightarrow> ('w, nat) edge list \<Rightarrow> bool" where
  "edges_below n es \<longleftrightarrow> (\<forall>e\<in>set es. ed_U e < n \<and> ed_V e < n)"

text \<open>Every vertex that was reached has a predecessor over an edge, or is the start.\<close>

definition search_inv :: "nat \<Rightarrow> nat \<Rightarrow> ('w, nat) edge list \<Rightarrow> 'w search \<Rightarrow> bool" where
  "search_inv n me es s \<longleftrightarrow> me < n \<and> length (se_Dist s) = n \<and> length (se_Pred s) = n \<and> se_Dist s ! me \<noteq> None \<and>
     (\<forall>x\<in>set (se_Heap s). nw_Node x < n \<and> se_Dist s ! nw_Node x \<noteq> None) \<and>
     (\<forall>v<n. se_Dist s ! v \<noteq> None \<longrightarrow> v = me \<or> se_Pred s ! v \<noteq> None) \<and>
     (\<forall>v<n. \<forall>u. se_Pred s ! v = Some u \<longrightarrow> u < n \<and> se_Dist s ! u \<noteq> None \<and> (\<exists>e\<in>set es. ed_U e = u \<and> ed_V e = v))"

lemma use_edge_cases:
  assumes "use_edge fl fee part s e = Inr s'"
  obtains "s' = s" | du x where "se_Dist s ! nw_Node part = Some du" "nw_Node x = ed_V e" "nw_Dist x = fl_add fl (nw_Dist du) (ed_W e)"
    "\<And>dv. se_Dist s ! ed_V e = Some dv \<Longrightarrow> fl_less fl (nw_Dist x) (nw_Dist dv)"
    "s' = \<lparr>se_Dist = (se_Dist s)[ed_V e := Some x], se_Pred = (se_Pred s)[ed_V e := Some (ed_U e)], se_Heap = heap_push fl (se_Heap s) x\<rparr>"
proof (cases "s' = s")
  case False
  then obtain amt du where a: "next_amt (ed_Rate e) (nw_Amt part) = Inr amt" "se_Dist s ! nw_Node part = Some du"
    using assms by (auto simp: use_edge_def bind_res_eq_Inr split: if_splits option.splits)
  let ?x = "\<lparr>nw_Dist = fl_add fl (nw_Dist du) (ed_W e), nw_Node = ed_V e, nw_Amt = amt\<rparr>"
  have "s' = \<lparr>se_Dist = (se_Dist s)[ed_V e := Some ?x], se_Pred = (se_Pred s)[ed_V e := Some (ed_U e)], se_Heap = heap_push fl (se_Heap s) ?x\<rparr>"
    "case se_Dist s ! ed_V e of None \<Rightarrow> True | Some dv \<Rightarrow> fl_less fl (nw_Dist ?x) (nw_Dist dv)"
    using assms False a by (auto simp: use_edge_def Let_def split: if_splits option.splits)
  with a(2) show thesis using that(2) [of du ?x] by (auto split: option.splits)
qed

lemma use_edge_inv:
  assumes "search_inv n me es s" "use_edge fl fee part s e = Inr s'" "e \<in> set es" "edges_below n es" "ed_U e = nw_Node part"
  shows "search_inv n me es s'"
proof -
  have e: "ed_U e < n" "ed_V e < n" using assms(3,4) by (auto simp: edges_below_def)
  from assms(2) show ?thesis
  proof (cases rule: use_edge_cases)
    case 1
    then show ?thesis using assms(1) by simp
  next
    case (2 du x)
    then show ?thesis
      using assms(1,3,5) e unfolding search_inv_def by (auto simp: nth_list_update heap_push_set)
  qed
qed

lemma search_step_inv:
  assumes "search_inv n me es s" "search_step fl fees es s = Inr s'" "edges_below n es" "se_Heap s \<noteq> []"
  shows "search_inv n me es s'"
proof -
  obtain h part where p: "heap_pop fl (se_Heap s) = (h, part)" by (cases "heap_pop fl (se_Heap s)")
  note hp = heap_pop_set [OF assms(4) p]
  have i: "search_inv n me es (s\<lparr>se_Heap := h\<rparr>)" using assms(1) hp by (simp add: search_inv_def)
  have "search_inv n me es t'"
    if "fold_res (use_edge fl fee part) t l = Inr t'" "search_inv n me es t" "set l \<subseteq> {e\<in>set es. ed_U e = nw_Node part}" for fee t t' l
    using that
  proof (induction l arbitrary: t)
    case (Cons e l)
    then obtain t1 where "use_edge fl fee part t e = Inr t1" "fold_res (use_edge fl fee part) t1 l = Inr t'"
      by (auto simp: bind_res_eq_Inr)
    then show ?case using Cons.IH [of t1] use_edge_inv [OF Cons.prems(2) _ _ assms(3)] Cons.prems(3) by auto
  qed simp
  then show ?thesis using assms(2) p i by (auto simp: search_step_def Let_def split: option.splits)
qed

lemma search_loop_inv:
  assumes "search_loop fl fees es s = Some r"
  shows "search_inv n me es s \<Longrightarrow> edges_below n es \<Longrightarrow> (case r of Inl e \<Rightarrow> True | Inr s' \<Rightarrow> search_inv n me es s' \<and> se_Heap s' = [])"
  using assms
proof (induction rule: search_loop.raw_induct [rotated 1, consumes 1])
  case (1 loop fl fees es s r)
  show ?case
  proof (cases "se_Heap s = []")
    case True
    then show ?thesis using "1.hyps" "1.prems" by auto
  next
    case False
    show ?thesis
    proof (cases "search_step fl fees es s")
      case (Inl e)
      then have "r = Inl e" using "1.hyps" False by simp
      then show ?thesis by simp
    next
      case (Inr s')
      then have "loop fl fees es s' = Some r" using "1.hyps" False by simp
      from "1.IH" [OF this search_step_inv [OF "1.prems"(1) Inr "1.prems"(2) False] "1.prems"(2)] show ?thesis .
    qed
  qed
qed

text \<open>Reading back: the list is extended at its front along the predecessors until one is missing.\<close>

lemma route_ids_run:
  assumes "route_ids pred ids = Some r"
  shows "ids \<noteq> [] \<Longrightarrow> \<exists>pre. r = pre @ ids \<and> pred ! hd r = None \<and>
    (\<forall>i<length pre. pred ! (r ! Suc i) = Some (r ! i))"
  using assms
proof (induction rule: route_ids.raw_induct [rotated 1, consumes 1])
  case (1 loop pred ids r)
  show ?case
  proof (cases "pred ! hd ids")
    case None
    then show ?thesis using "1.hyps" by auto
  next
    case (Some p)
    then have "loop pred (p # ids) = Some r" using "1.hyps" by simp
    from "1.IH" [OF this list.simps(3)] obtain pre where "r = pre @ p # ids" "pred ! hd r = None"
      "\<forall>i<length pre. pred ! (r ! Suc i) = Some (r ! i)" by auto
    then show ?thesis using Some "1.prems"
      by (intro exI [of _ "pre @ [p]"]) (auto simp: less_Suc_eq nth_append hd_conv_nth)
  qed
qed


section \<open>Paths of links\<close>

definition advertised :: "chan_map \<Rightarrow> link_msg \<Rightarrow> bool" where
  "advertised cm c \<longleftrightarrow> (\<exists>pkh ls. (pkh, ls) \<in> set cm \<and> (\<exists>l\<in>set ls. ld_Link l = c))"

text \<open>The peer of a link takes the coin of the link and has a link in the other coin itself.\<close>

definition trades :: "chan_map \<Rightarrow> link_msg \<Rightarrow> u32 \<Rightarrow> rate_desc \<Rightarrow> bool" where
  "trades cm c coin rd \<longleftrightarrow> (\<exists>l\<in>set (links_of cm (lk_BPKH c)). lk_CoinType (ld_Link l) = coin \<and>
     rd \<in> set (lk_Rates (ld_Link l)) \<and> rd_CoinType rd = lk_CoinType c)"

definition hop_link :: "chan_map \<Rightarrow> bool \<Rightarrow> route_hop \<Rightarrow> route_hop \<Rightarrow> bool" where
  "hop_link cm final a b \<longleftrightarrow> (\<exists>c. advertised cm c \<and> lk_APKH c = rh_Node a \<and> lk_CoinType c = rh_CoinType a \<and> lk_BPKH c = rh_Node b \<and>
     (if final then rh_CoinType b = lk_CoinType c else \<exists>rd. trades cm c (rh_CoinType b) rd))"

fun path_ok :: "chan_map \<Rightarrow> route_hop list \<Rightarrow> bool" where
  "path_ok cm (a # b # rest) \<longleftrightarrow> hop_link cm (rest = []) a b \<and> path_ok cm (b # rest)"
| "path_ok cm route \<longleftrightarrow> True"

lemma find_Some: "find P xs = Some x \<Longrightarrow> x \<in> set xs \<and> P x"
  by (induction xs) (auto split: if_splits)

lemma fold_keeps: "I z \<Longrightarrow> (\<And>x a. x \<in> set xs \<Longrightarrow> I a \<Longrightarrow> I (f x a)) \<Longrightarrow> I (fold f xs z)"
  by (induction xs arbitrary: z) simp_all

definition trade_ok :: "'w floats \<Rightarrow> chan_map \<Rightarrow> link_msg \<Rightarrow> ('w, vertex) edge \<Rightarrow> bool" where
  "trade_ok fl cm c e \<longleftrightarrow> ed_U e = \<lparr>vx_Node = lk_APKH c, vx_CoinType = lk_CoinType c, vx_Terminus = False\<rparr> \<and>
    (\<exists>coin. ed_V e = \<lparr>vx_Node = lk_BPKH c, vx_CoinType = coin, vx_Terminus = False\<rparr> \<and> trades cm c coin (ed_Rate e)) \<and>
    ed_W e = fl_weight fl (ed_Rate e) \<and> ed_Capacity e = sint (lk_ACapacity c)"

lemma add_trade_ok:
  assumes "l \<in> set (links_of cm (lk_BPKH c))" "\<forall>e\<in>set (snd a). trade_ok fl cm c e"
  shows "\<forall>e\<in>set (snd (add_trade fl c l a)). trade_ok fl cm c e"
proof -
  have t: "trades cm c (lk_CoinType (ld_Link l)) rd"
    if "find (\<lambda>r. rd_CoinType r = lk_CoinType c) (lk_Rates (ld_Link l)) = Some rd" for rd
    using assms(1) find_Some [OF that] by (auto simp: trades_def)
  show ?thesis
    using assms(2) t by (cases a) (auto simp: add_trade_def Let_def trade_ok_def split: option.splits)
qed

lemma trade_edges_sound: "e \<in> set (trade_edges fl cm c) \<Longrightarrow> trade_ok fl cm c e"
  using fold_keeps [of "\<lambda>a. \<forall>e\<in>set (snd a). trade_ok fl cm c e" "([], [])" "links_of cm (lk_BPKH c)" "add_trade fl c"]
    add_trade_ok [of _ cm c _ fl]
  by (simp add: trade_edges_def)

lemma all_edges_sound:
  assumes "e \<in> set (all_edges fl cm)"
  obtains c where "advertised cm c" "ed_U e = \<lparr>vx_Node = lk_APKH c, vx_CoinType = lk_CoinType c, vx_Terminus = False\<rparr>"
    "ed_Capacity e = sint (lk_ACapacity c)"
    "(\<exists>coin. ed_V e = \<lparr>vx_Node = lk_BPKH c, vx_CoinType = coin, vx_Terminus = False\<rparr> \<and> trades cm c coin (ed_Rate e)) \<or>
     ed_V e = \<lparr>vx_Node = lk_BPKH c, vx_CoinType = lk_CoinType c, vx_Terminus = True\<rparr>"
proof -
  obtain pkh ls l where l: "(pkh, ls) \<in> set cm" "l \<in> set ls" "e \<in> set (link_edges fl cm (ld_Link l))"
    using assms by (auto simp: all_edges_def)
  have a: "advertised cm (ld_Link l)" using l(1,2) by (auto simp: advertised_def)
  show thesis
  proof (cases "e = sink_edge fl (ld_Link l)")
    case True
    then show thesis using that [OF a] by (simp add: sink_edge_def)
  next
    case False
    then have "e \<in> set (trade_edges fl cm (ld_Link l))" using l(3) by (simp add: link_edges_def)
    from trade_edges_sound [OF this] show thesis using that [OF a] unfolding trade_ok_def by blast
  qed
qed

lemma vertex_idx_nth: "v \<in> set vs \<Longrightarrow> vertex_idx vs v < length vs \<and> vs ! vertex_idx vs v = v"
  using find_idx_None [of "\<lambda>u. u = v" vs] find_idx_Some [of "\<lambda>u. u = v" vs]
  by (auto simp: vertex_idx_def split: option.splits)

lemma vertex_set_all: "e \<in> set es \<Longrightarrow> ed_U e \<in> set (vertex_set es) \<and> ed_V e \<in> set (vertex_set es)"
  by (auto simp: vertex_set_def)

text \<open>The order of the vertices is a permutation.\<close>

definition permutes_vertices :: "'w route_env \<Rightarrow> bool" where
  "permutes_vertices re \<longleftrightarrow> (\<forall>vs. mset (re_order re vs) = mset vs)"

lemma reweight_edges:
  assumes "reweight fl n es = Inr es'"
  shows "\<exists>f. es' = map (\<lambda>e. e\<lparr>ed_W := f e\<rparr>) es"
  using assms by (auto simp: reweight_def Let_def split: if_splits)

text \<open>A step between the numbers of two vertices comes from a link.\<close>

lemma light_step:
  assumes "permutes_vertices re" "vs = re_order re (vertex_set (all_edges fl cm))"
    and "reweight fl n (map (light vs) (all_edges fl cm)) = Inr es" "e \<in> set es"
  shows "ed_U e < length vs \<and> ed_V e < length vs \<and> \<not> vx_Terminus (vs ! ed_U e) \<and>
    hop_link cm (vx_Terminus (vs ! ed_V e)) \<lparr>rh_Node = vx_Node (vs ! ed_U e), rh_CoinType = vx_CoinType (vs ! ed_U e)\<rparr>
      \<lparr>rh_Node = vx_Node (vs ! ed_V e), rh_CoinType = vx_CoinType (vs ! ed_V e)\<rparr>"
proof -
  obtain f e0 where e: "e0 \<in> set (all_edges fl cm)" "e = (light vs e0)\<lparr>ed_W := f (light vs e0)\<rparr>"
    using reweight_edges [OF assms(3)] assms(4) by auto
  have "set vs = set (vertex_set (all_edges fl cm))"
    using assms(1,2) by (metis permutes_vertices_def set_mset_mset)
  then have i: "vertex_idx vs (ed_U e0) < length vs" "vs ! vertex_idx vs (ed_U e0) = ed_U e0"
    "vertex_idx vs (ed_V e0) < length vs" "vs ! vertex_idx vs (ed_V e0) = ed_V e0"
    using vertex_set_all [OF e(1)] vertex_idx_nth by auto
  from e(1) obtain c where "advertised cm c" "ed_U e0 = \<lparr>vx_Node = lk_APKH c, vx_CoinType = lk_CoinType c, vx_Terminus = False\<rparr>"
    "(\<exists>coin. ed_V e0 = \<lparr>vx_Node = lk_BPKH c, vx_CoinType = coin, vx_Terminus = False\<rparr> \<and> trades cm c coin (ed_Rate e0)) \<or>
     ed_V e0 = \<lparr>vx_Node = lk_BPKH c, vx_CoinType = lk_CoinType c, vx_Terminus = True\<rparr>"
    by (rule all_edges_sound)
  then show ?thesis
    using i unfolding e(2) by (auto simp: light_def hop_link_def intro!: exI [of _ c])
qed


lemma path_okI:
  "(\<And>i. Suc i < length r \<Longrightarrow> hop_link cm (Suc (Suc i) = length r) (r ! i) (r ! Suc i)) \<Longrightarrow> path_ok cm r"
proof (induction cm r rule: path_ok.induct)
  case (1 cm a b rest)
  have "hop_link cm (rest = []) a b" using "1.prems" [of 0] by simp
  moreover have "path_ok cm (b # rest)" using "1.prems" [of "Suc i" for i] by (intro "1.IH") auto
  ultimately show ?case by simp
qed simp_all

lemma search_init_inv:
  "me < n \<Longrightarrow> search_inv n me es (search_init fl n me amount)"
  by (auto simp: search_inv_def search_init_def Let_def heap_push_set nth_list_update)

text \<open>What FindPath has computed when it returns a path.\<close>

lemma FindPath_elim:
  assumes "FindPath re cm targetPkh destCoinType originCoinType amount = Some (Inr route)"
  obtains vs me target es s p ids where "vs = re_order re (vertex_set (all_edges (re_floats re) cm))"
    "me < length vs" "vs ! me = \<lparr>vx_Node = re_me re, vx_CoinType = originCoinType, vx_Terminus = False\<rparr>"
    "target < length vs" "vs ! target = \<lparr>vx_Node = targetPkh, vx_CoinType = destCoinType, vx_Terminus = True\<rparr>"
    "reweight (re_floats re) (length vs) (map (light vs) (all_edges (re_floats re) cm)) = Inr es"
    "search_loop (re_floats re) (\<lambda>i. re_fee re (vx_CoinType (vs ! i))) es (search_init (re_floats re) (length vs) me amount) = Some (Inr s)"
    "se_Dist s ! target \<noteq> None" "se_Pred s ! target = Some p" "route_ids (se_Pred s) [p, target] = Some ids"
    "route = map (\<lambda>i. \<lparr>rh_Node = vx_Node (vs ! i), rh_CoinType = vx_CoinType (vs ! i)\<rparr>) ids"
  using assms
  by (auto simp: FindPath_def Let_def split: option.splits sum.splits if_splits dest!: find_idx_Some)

text \<open>The numbers read back form a path over the edges from the start to the target.\<close>

lemma ids_path:
  assumes "search_inv n me es s" "target < n" "se_Pred s ! target = Some p" "route_ids (se_Pred s) [p, target] = Some ids"
  shows "\<exists>pre. ids = pre @ [p, target] \<and> hd ids = me \<and>
    (\<forall>i. Suc i < length ids \<longrightarrow> (\<exists>e\<in>set es. ed_U e = ids ! i \<and> ed_V e = ids ! Suc i) \<and> ids ! i < n)"
proof -
  obtain pre where pre: "ids = pre @ [p, target]" "se_Pred s ! hd ids = None" "\<forall>i<length pre. se_Pred s ! (ids ! Suc i) = Some (ids ! i)"
    using route_ids_run [OF assms(4)] by auto
  have step: "se_Pred s ! (ids ! Suc i) = Some (ids ! i)" if "Suc i < length ids" for i
    using pre(1,3) assms(3) that by (cases "i = length pre") (auto simp: nth_append)
  have below: "ids ! (length ids - Suc k) < n" if "k < length ids" for k
    using that
  proof (induction k)
    case 0
    then show ?case using pre(1) assms(2) by (simp add: nth_append)
  next
    case (Suc k)
    let ?i = "length ids - Suc (Suc k)"
    have "Suc ?i = length ids - Suc k" "Suc ?i < length ids" using Suc.prems by simp_all
    then show ?case using Suc step [of ?i] assms(1) by (auto simp: search_inv_def)
  qed
  have b: "ids ! i < n" if "i < length ids" for i using below [of "length ids - Suc i"] that by simp
  have edge: "\<exists>e\<in>set es. ed_U e = ids ! i \<and> ed_V e = ids ! Suc i" "se_Dist s ! (ids ! i) \<noteq> None" if "Suc i < length ids" for i
    using step [OF that] b [of "Suc i"] that assms(1) by (auto simp: search_inv_def)
  have "hd ids = ids ! 0" using pre(1) by (simp add: hd_conv_nth)
  then have "hd ids = me"
    using edge(2) [of 0] pre(1,2) b [of 0] assms(1) by (auto simp: search_inv_def)
  then show ?thesis using pre(1) edge(1) b by auto
qed

text \<open>C12: A path that is found is a path of advertised links: it leads from the node with the coin it pays in to the target
  with the coin it is paid in, every hop is a link of the map in the coin of the hop, and every node in between takes
  this coin and has a link in the next one. This holds whatever the floating-point operations give.\<close>

theorem path_found_is_links:
  assumes "permutes_vertices re" "FindPath re cm targetPkh destCoinType originCoinType amount = Some (Inr route)"
  shows "path_ok cm route \<and> 2 \<le> length route \<and> hd route = \<lparr>rh_Node = re_me re, rh_CoinType = originCoinType\<rparr> \<and>
    last route = \<lparr>rh_Node = targetPkh, rh_CoinType = destCoinType\<rparr>"
proof -
  from assms(2) obtain vs me target es s p ids where g: "vs = re_order re (vertex_set (all_edges (re_floats re) cm))"
    "me < length vs" "vs ! me = \<lparr>vx_Node = re_me re, vx_CoinType = originCoinType, vx_Terminus = False\<rparr>"
    "target < length vs" "vs ! target = \<lparr>vx_Node = targetPkh, vx_CoinType = destCoinType, vx_Terminus = True\<rparr>"
    "reweight (re_floats re) (length vs) (map (light vs) (all_edges (re_floats re) cm)) = Inr es"
    "search_loop (re_floats re) (\<lambda>i. re_fee re (vx_CoinType (vs ! i))) es (search_init (re_floats re) (length vs) me amount) = Some (Inr s)"
    "se_Pred s ! target = Some p" "route_ids (se_Pred s) [p, target] = Some ids"
    "route = map (\<lambda>i. \<lparr>rh_Node = vx_Node (vs ! i), rh_CoinType = vx_CoinType (vs ! i)\<rparr>) ids"
    by (rule FindPath_elim) blast
  note st = light_step [OF assms(1) g(1,6)]
  have "edges_below (length vs) es" using st by (auto simp: edges_below_def)
  then have "search_inv (length vs) me es s"
    using search_loop_inv [OF g(7) search_init_inv [OF g(2)]] by simp
  from ids_path [OF this g(4,8,9)] obtain pre where ids: "ids = pre @ [p, target]" "hd ids = me"
    "\<And>i. Suc i < length ids \<Longrightarrow> \<exists>e\<in>set es. ed_U e = ids ! i \<and> ed_V e = ids ! Suc i" by blast
  have "path_ok cm route"
  proof (rule path_okI)
    fix i
    assume i: "Suc i < length route"
    then obtain e where e: "e \<in> set es" "ed_U e = ids ! i" "ed_V e = ids ! Suc i" using ids(3) g(10) by auto
    have "vx_Terminus (vs ! (ids ! Suc i)) \<longleftrightarrow> Suc (Suc i) = length ids"
    proof (cases "Suc (Suc i) = length ids")
      case True
      then have "ids ! Suc i = target" using ids(1) by (simp add: nth_append)
      then show ?thesis using g(5) True by simp
    next
      case False
      then obtain e' where e': "e' \<in> set es" "ed_U e' = ids ! Suc i" using ids(3) [of "Suc i"] i g(10) by auto
      then show ?thesis using st [OF e'(1)] False by simp
    qed
    then show "hop_link cm (Suc (Suc i) = length route) (route ! i) (route ! Suc i)"
      using st [OF e(1)] i e(2,3) g(10) by simp
  qed
  moreover have "hd route = \<lparr>rh_Node = re_me re, rh_CoinType = originCoinType\<rparr>"
    using ids(1,2) g(3,10) by (cases pre) simp_all
  moreover have "last route = \<lparr>rh_Node = targetPkh, rh_CoinType = destCoinType\<rparr>"
    using ids(1) g(5,10) by simp
  ultimately show ?thesis using ids(1) g(10) by simp
qed


section \<open>Exact weights\<close>

definition exact :: "'w::linordered_ab_group_add floats \<Rightarrow> bool" where
  "exact fl \<longleftrightarrow> fl_add fl = (+) \<and> fl_sub fl = (-) \<and> fl_less fl = (<) \<and> fl_zero fl = 0"

text \<open>Without an error there are potentials, and no weight is negative after they are added.\<close>

lemma reweight_potentials:
  fixes es :: "('w::linordered_ab_group_add, nat) edge list"
  assumes "reweight fl n es = Inr es'" "exact fl"
  shows "(\<exists>d. \<forall>e\<in>set es. d ! ed_V e \<le> d ! ed_U e + ed_W e) \<and> (\<forall>e\<in>set es'. 0 \<le> ed_W e)"
proof -
  let ?all = "es @ map (dummy_edge fl n) [0..<n]"
  define d where "d = relax_rounds (n + 1) fl ?all (replicate n (fl_max fl) @ [fl_zero fl])"
  have r: "reweight fl n es = (if list_ex (relaxable fl d) ?all then Inl Mismatch
      else Inr (map (\<lambda>e. e\<lparr>ed_W := fl_add fl (ed_W e) (fl_sub fl (d ! ed_U e) (d ! ed_V e))\<rparr>) es))"
    by (simp add: reweight_def d_def Let_def del: relax_rounds.simps)
  then have nr: "\<not> list_ex (relaxable fl d) ?all"
    and es': "es' = map (\<lambda>e. e\<lparr>ed_W := ed_W e + (d ! ed_U e - d ! ed_V e)\<rparr>) es"
    using assms by (auto simp: exact_def split: if_splits)
  have p: "\<forall>e\<in>set es. d ! ed_V e \<le> d ! ed_U e + ed_W e"
    using nr assms(2) by (auto simp: list_ex_iff relaxable_def exact_def not_less)
  then have "\<forall>e\<in>set es'. 0 \<le> ed_W e"
    using es' by (auto simp: algebra_simps)
  then show ?thesis using p by blast
qed

fun walk :: "'v \<Rightarrow> ('w, 'v) edge list \<Rightarrow> 'v \<Rightarrow> bool" where
  "walk u [] v \<longleftrightarrow> u = v"
| "walk u (e # p) v \<longleftrightarrow> ed_U e = u \<and> walk (ed_V e) p v"

definition weight :: "('w::linordered_ab_group_add, 'v) edge list \<Rightarrow> 'w" where "weight p = sum_list (map ed_W p)"

lemma walk_potential:
  "walk u p v \<Longrightarrow> \<forall>e\<in>set p. f (ed_V e) \<le> f (ed_U e) + ed_W e \<Longrightarrow> f v \<le> f u + weight p"
proof (induction p arbitrary: u)
  case (Cons e p)
  then have "f v \<le> f (ed_V e) + weight p" "f (ed_V e) \<le> f u + ed_W e" by auto
  then have "f v \<le> f u + ed_W e + weight p" by (meson add_right_mono order_trans)
  then show ?case by (simp add: weight_def add.assoc)
qed (simp add: weight_def)

lemma profitable_cycle:
  fixes fl :: "'w::linordered_ab_group_add floats"
  assumes "exact fl" "walk u p u" "set p \<subseteq> set es" "weight p < 0"
  shows "reweight fl n (map (light vs) es) = Inl Mismatch"
proof (cases "reweight fl n (map (light vs) es)")
  case (Inl e)
  then show ?thesis by (simp add: reweight_def Let_def split: if_splits)
next
  case (Inr es')
  obtain d where "\<forall>e\<in>set (map (light vs) es). d ! ed_V e \<le> d ! ed_U e + ed_W e"
    using reweight_potentials [OF Inr assms(1)] by blast
  then have "\<forall>e\<in>set p. d ! vertex_idx vs (ed_V e) \<le> d ! vertex_idx vs (ed_U e) + ed_W e"
    using assms(3) by (auto simp: light_def)
  from walk_potential [OF assms(2), of "\<lambda>v. d ! vertex_idx vs v", OF this] have "0 \<le> weight p" by simp
  then show ?thesis using assms(4) by simp
qed

lemma cycle_no_path:
  assumes "exact (re_floats re)" "walk u p u" "set p \<subseteq> set (all_edges (re_floats re) cm)" "weight p < 0"
  shows "\<exists>e. FindPath re cm targetPkh destCoinType originCoinType amount = Some (Inl e)"
  using profitable_cycle [OF assms]
  by (simp add: FindPath_def Let_def split: option.splits)

text \<open>Two advertisements of links between two unknown nodes, each of which takes one unit of its coin for two.\<close>

definition profit_rate :: "u32 \<Rightarrow> rate_desc" where "profit_rate coin = \<lparr>rd_CoinType = coin, rd_Rate = 2, rd_Reciprocal = False\<rparr>"

definition profit_link :: "u32 \<Rightarrow> u32 \<Rightarrow> bytes \<Rightarrow> bytes \<Rightarrow> link_msg" where
  "profit_link peer coin a b =
     \<lparr>lk_PeerIdx = peer, lk_APKH = a, lk_ACapacity = 1, lk_BPKH = b, lk_CoinType = coin, lk_Seq = 1, lk_Timestamp = 0,
      lk_Rates = [profit_rate coin]\<rparr>"

lemma new_link: "links_of cm (lk_APKH msg) = [] \<Longrightarrow> lk_APKH msg \<notin> fst ` set cm \<Longrightarrow>
  fst (LinkMsgHandler now peers msg cm) = cm @ [(lk_APKH msg, [\<lparr>ld_Link = msg\<lparr>lk_Timestamp := of_int now\<rparr>, ld_Dirty = False\<rparr>])]"
  by (simp add: LinkMsgHandler_def Let_def put_links_def)

text \<open>Nobody checks who advertises a link. After two advertisements of links between two made-up nodes, that exchange
  a coin with a profit in a circle, no node that has them finds any path.\<close>

theorem two_adverts_stop_routing:
  fixes re :: "'w::linordered_ab_group_add route_env"
  assumes "exact (re_floats re)" "fl_weight (re_floats re) (profit_rate coin) < 0" "a \<noteq> b" "a \<notin> fst ` set cm" "b \<notin> fst ` set cm"
    and "cm1 = fst (LinkMsgHandler now peers (profit_link peer coin a b) cm)"
    and "cm2 = fst (LinkMsgHandler now peers (profit_link peer coin b a) cm1)"
  shows "\<exists>e. FindPath re cm2 targetPkh destCoinType originCoinType amount = Some (Inl e)"
proof -
  let ?fl = "re_floats re" and ?l = "\<lambda>a b. (profit_link peer coin a b)\<lparr>lk_Timestamp := of_int now\<rparr>"
  let ?e = "\<lambda>a b. \<lparr>ed_W = fl_weight ?fl (profit_rate coin), ed_U = \<lparr>vx_Node = a, vx_CoinType = coin, vx_Terminus = False\<rparr>,
    ed_V = \<lparr>vx_Node = b, vx_CoinType = coin, vx_Terminus = False\<rparr>, ed_Rate = profit_rate coin, ed_Capacity = 1\<rparr>"
  have n: "links_of cm x = []" if "x \<notin> fst ` set cm" for x
    using that by (simp add: links_of_def map_of_eq_None_iff [THEN iffD2] split: option.splits)
  have c1: "cm1 = cm @ [(a, [\<lparr>ld_Link = ?l a b, ld_Dirty = False\<rparr>])]"
    using assms(4,6) n new_link [of cm "profit_link peer coin a b"] by (simp add: profit_link_def)
  have c2: "cm2 = cm @ [(a, [\<lparr>ld_Link = ?l a b, ld_Dirty = False\<rparr>]), (b, [\<lparr>ld_Link = ?l b a, ld_Dirty = False\<rparr>])]"
    using assms(3,5,7) n new_link [of cm1 "profit_link peer coin b a"] unfolding c1
    by (simp add: profit_link_def links_of_def map_add_def map_of_eq_None_iff [THEN iffD2] split: option.splits)
  have l: "links_of cm2 a = [\<lparr>ld_Link = ?l a b, ld_Dirty = False\<rparr>]" "links_of cm2 b = [\<lparr>ld_Link = ?l b a, ld_Dirty = False\<rparr>]"
    using assms(3-5) by (simp_all add: c2 links_of_def map_add_def map_of_eq_None_iff [THEN iffD2])
  have "?e a b \<in> set (link_edges ?fl cm2 (?l a b))" "?e b a \<in> set (link_edges ?fl cm2 (?l b a))"
    using l by (simp_all add: link_edges_def trade_edges_def add_trade_def profit_link_def profit_rate_def)
  then have s: "set [?e a b, ?e b a] \<subseteq> set (all_edges ?fl cm2)" by (auto simp: all_edges_def c2)
  have w: "weight [?e a b, ?e b a] < 0" using assms(2) by (simp add: weight_def add_neg_neg)
  have "walk \<lparr>vx_Node = a, vx_CoinType = coin, vx_Terminus = False\<rparr> [?e a b, ?e b a] \<lparr>vx_Node = a, vx_CoinType = coin, vx_Terminus = False\<rparr>"
    by simp
  from cycle_no_path [OF assms(1) this s w] show ?thesis .
qed


section \<open>The search ends\<close>

text \<open>The weights of the walks that have at most as many edges as there are vertices.\<close>

definition weights :: "nat \<Rightarrow> ('w::linordered_ab_group_add, 'v) edge list \<Rightarrow> 'w set" where
  "weights n es = weight ` {p. set p \<subseteq> set es \<and> length p \<le> n}"

lemma finite_weights [simp]: "finite (weights n es)"
  by (simp add: weights_def finite_lists_length_le)

text \<open>A label is the weight of a walk without repeated vertices, and the labels along the walk are not above its weight so far.\<close>

definition label_path :: "nat \<Rightarrow> ('w::linordered_ab_group_add, nat) edge list \<Rightarrow> 'w search \<Rightarrow> nat \<Rightarrow> 'w \<Rightarrow> ('w, nat) edge list \<Rightarrow> bool" where
  "label_path me es s v w p \<longleftrightarrow> walk me p v \<and> set p \<subseteq> set es \<and> distinct (me # map ed_V p) \<and> weight p = w \<and>
     (\<forall>k\<le>length p. \<exists>d. se_Dist s ! ((me # map ed_V p) ! k) = Some d \<and> nw_Dist d \<le> weight (take k p))"

definition preds :: "nat \<Rightarrow> 'w search \<Rightarrow> (nat \<times> nat) set" where
  "preds n s = {(u, v). v < n \<and> se_Pred s ! v = Some u}"

definition reach_inv :: "nat \<Rightarrow> nat \<Rightarrow> ('w::linordered_ab_group_add, nat) edge list \<Rightarrow> 'w search \<Rightarrow> bool" where
  "reach_inv n me es s \<longleftrightarrow> search_inv n me es s \<and>
     (\<forall>v<n. \<forall>d. se_Dist s ! v = Some d \<longrightarrow> (\<exists>p. label_path me es s v (nw_Dist d) p)) \<and>
     (\<forall>u v. (u, v) \<in> preds n s \<longrightarrow> (\<exists>a b. se_Dist s ! u = Some a \<and> se_Dist s ! v = Some b \<and> nw_Dist a \<le> nw_Dist b)) \<and>
     acyclic (preds n s)"

definition pot :: "nat \<Rightarrow> ('w::linordered_ab_group_add, nat) edge list \<Rightarrow> 'w search \<Rightarrow> nat" where
  "pot n es s = (\<Sum>v<n. case se_Dist s ! v of None \<Rightarrow> Suc (card (weights n es)) | Some d \<Rightarrow> card {w\<in>weights n es. w < nw_Dist d})"

lemma weight_nonneg: "\<forall>e\<in>set es. 0 \<le> ed_W e \<Longrightarrow> set p \<subseteq> set es \<Longrightarrow> 0 \<le> weight p"
  by (induction p) (auto simp: weight_def)

lemma weight_append [simp]: "weight (p @ q) = weight p + weight q" "weight [] = 0" "weight [e] = ed_W e"
  by (simp_all add: weight_def)

lemma weight_take: "\<forall>e\<in>set es. 0 \<le> ed_W e \<Longrightarrow> set p \<subseteq> set es \<Longrightarrow> weight (take k p) \<le> weight p"
proof -
  assume a: "\<forall>e\<in>set es. 0 \<le> ed_W e" "set p \<subseteq> set es"
  then have "0 \<le> weight (drop k p)" by (intro weight_nonneg) (auto dest: in_set_dropD)
  moreover have "weight p = weight (take k p) + weight (drop k p)" by (metis append_take_drop_id weight_append(1))
  ultimately show ?thesis by simp
qed

lemma walk_append: "walk u (p @ q) v \<longleftrightarrow> (\<exists>m. walk u p m \<and> walk m q v)"
  by (induction p arbitrary: u) auto

lemma walk_last: "walk u p v \<Longrightarrow> (u # map ed_V p) ! length p = v"
  by (induction p arbitrary: u) auto

lemma label_path_len:
  assumes "label_path me es s v w p" "edges_below n es" "me < n"
  shows "Suc (length p) \<le> n"
proof -
  have "set (me # map ed_V p) \<subseteq> {..<n}"
    using assms by (auto simp: label_path_def edges_below_def)
  then have "card (set (me # map ed_V p)) \<le> card {..<n}" by (intro card_mono) simp_all
  moreover have "card (set (me # map ed_V p)) = Suc (length p)"
    using assms(1) distinct_card [of "me # map ed_V p"] by (simp add: label_path_def)
  ultimately show ?thesis by simp
qed

text \<open>The improved vertex is not on the walk to the vertex it is improved from.\<close>

lemma new_vertex:
  assumes "label_path me es s u du p" "\<forall>e\<in>set es. 0 \<le> ed_W e" "0 \<le> w" "\<And>d. se_Dist s ! v = Some d \<Longrightarrow> du + w < nw_Dist d"
  shows "v \<notin> set (me # map ed_V p)"
proof
  assume "v \<in> set (me # map ed_V p)"
  then obtain k where k: "k < length (me # map ed_V p)" "(me # map ed_V p) ! k = v" unfolding in_set_conv_nth by blast
  then have k': "k \<le> length p" by simp
  then obtain d where d: "se_Dist s ! v = Some d" "nw_Dist d \<le> weight (take k p)"
    using assms(1) k' k(2) unfolding label_path_def by blast
  have "weight (take k p) \<le> du" using weight_take [OF assms(2), of p k] assms(1) by (auto simp: label_path_def)
  then have "nw_Dist d \<le> du + w" using d(2) assms(3) by (meson add_increasing2 order_trans)
  then show False using assms(4) [OF d(1)] by simp
qed

lemma use_edge_reach:
  fixes fl :: "'w::linordered_ab_group_add floats"
  assumes "reach_inv n me es s" "use_edge fl fee part s e = Inr s'" "e \<in> set es" "edges_below n es" "ed_U e = nw_Node part"
    and "exact fl" "\<forall>e\<in>set es. 0 \<le> ed_W e"
  shows "reach_inv n me es s' \<and> (s' = s \<or> pot n es s' < pot n es s)"
  using assms(2)
proof (cases rule: use_edge_cases)
  case 1
  then show ?thesis using assms(1) by simp
next
  case (2 du x)
  let ?u = "ed_U e" and ?v = "ed_V e"
  have n: "?u < n" "?v < n" using assms(3,4) by (auto simp: edges_below_def)
  have len: "length (se_Dist s) = n" "length (se_Pred s) = n" "me < n" using assms(1) by (simp_all add: reach_inv_def search_inv_def)
  have w0: "0 \<le> ed_W e" using assms(3,7) by blast
  have x: "nw_Dist x = nw_Dist du + ed_W e" using 2(3) assms(6) by (simp add: exact_def)
  have less: "nw_Dist x < nw_Dist d" if "se_Dist s ! ?v = Some d" for d
    using 2(4) [OF that] assms(6) by (simp add: exact_def)
  have du: "se_Dist s ! ?u = Some du" using 2(1) assms(5) by simp
  obtain p where p: "label_path me es s ?u (nw_Dist du) p"
    using assms(1) du n(1) unfolding reach_inv_def by blast
  have nv: "?v \<notin> set (me # map ed_V p)"
    by (rule new_vertex [OF p assms(7) w0]) (use less x in auto)
  have D: "se_Dist s' ! a = (if a = ?v then Some x else se_Dist s ! a)" if "a < n" for a
    using that len n unfolding 2(5) by simp
  have p': "label_path me es s' ?v (nw_Dist x) (p @ [e])"
    unfolding label_path_def
  proof (intro conjI allI impI)
    show "walk me (p @ [e]) ?v" using p by (auto simp: label_path_def walk_append)
    show "set (p @ [e]) \<subseteq> set es" using p assms(3) by (simp add: label_path_def)
    show "distinct (me # map ed_V (p @ [e]))" using p nv by (auto simp: label_path_def)
    show "weight (p @ [e]) = nw_Dist x" using p x by (simp add: label_path_def)
    fix k
    assume k: "k \<le> length (p @ [e])"
    show "\<exists>d. se_Dist s' ! ((me # map ed_V (p @ [e])) ! k) = Some d \<and> nw_Dist d \<le> weight (take k (p @ [e]))"
    proof (cases "k \<le> length p")
      case True
      then have b: "(me # map ed_V p) ! k \<in> set (me # map ed_V p)" by (intro nth_mem) simp
      then have "(me # map ed_V p) ! k < n" using p len(3) assms(4) by (auto simp: label_path_def edges_below_def)
      moreover have "(me # map ed_V p) ! k \<noteq> ?v" using b nv by metis
      moreover have "(me # map ed_V (p @ [e])) ! k = (me # map ed_V p) ! k" using True by (auto simp: nth_Cons nth_append split: nat.splits)
      ultimately show ?thesis using p True D by (simp add: label_path_def)
    next
      case False
      then have "k = Suc (length p)" using k by simp
      then show ?thesis using D [OF n(2)] p x by (simp add: label_path_def nth_append)
    qed
  qed
  have q': "label_path me es s' a w q" if q: "label_path me es s a w q" for a w q
    unfolding label_path_def
  proof (intro conjI allI impI)
    show "walk me q a" "set q \<subseteq> set es" "distinct (me # map ed_V q)" "weight q = w" using q by (simp_all add: label_path_def)
    fix k
    assume k: "k \<le> length q"
    let ?b = "(me # map ed_V q) ! k"
    have "?b \<in> set (me # map ed_V q)" using k by (intro nth_mem) simp
    then have b: "?b < n" using q len(3) assms(4) by (auto simp: label_path_def edges_below_def)
    obtain d where d: "se_Dist s ! ?b = Some d" "nw_Dist d \<le> weight (take k q)" using q k unfolding label_path_def by blast
    then show "\<exists>d. se_Dist s' ! ?b = Some d \<and> nw_Dist d \<le> weight (take k q)"
      using D [OF b] less by (cases "?b = ?v") (auto simp del: nth_Cons_Suc intro: less_imp_le order_trans)
  qed
  have le: "\<exists>d'. se_Dist s' ! a = Some d' \<and> nw_Dist d' \<le> nw_Dist d" if "se_Dist s ! a = Some d" "a < n" for a d
    using D [OF that(2)] that(1) less by (cases "a = ?v") (auto intro: less_imp_le)
  have P: "preds n s' \<subseteq> insert (?u, ?v) (preds n s)" "\<And>a. (a, ?v) \<in> preds n s' \<Longrightarrow> a = ?u"
    using n len unfolding preds_def 2(5) by (auto simp: nth_list_update split: if_splits)
  have chain: "b = a \<or> (\<exists>da db. se_Dist s ! a = Some da \<and> se_Dist s ! b = Some db \<and> nw_Dist da \<le> nw_Dist db)"
    if "(a, b) \<in> (preds n s)\<^sup>*" for a b
    using that
  proof (induction rule: rtrancl_induct)
    case (step y z)
    then obtain dy dz where "se_Dist s ! y = Some dy" "se_Dist s ! z = Some dz" "nw_Dist dy \<le> nw_Dist dz"
      using assms(1) unfolding reach_inv_def by blast
    then show ?case using step.IH by auto
  qed simp
  have "(?v, ?u) \<notin> (preds n s)\<^sup>*"
  proof
    assume "(?v, ?u) \<in> (preds n s)\<^sup>*"
    from chain [OF this] obtain dv where "se_Dist s ! ?v = Some dv" "nw_Dist dv \<le> nw_Dist du" using du by auto
    then show False using less [of dv] x w0 by (metis add_increasing2 leD)
  qed
  then have ac: "acyclic (preds n s')"
    using assms(1) P(1) by (intro acyclic_subset [OF _ P(1)]) (simp add: acyclic_insert reach_inv_def)
  have r: "reach_inv n me es s'"
    unfolding reach_inv_def
  proof (intro conjI allI impI ac)
    show "search_inv n me es s'" using use_edge_inv [OF _ assms(2-5)] assms(1) by (simp add: reach_inv_def)
    show "\<exists>q. label_path me es s' a (nw_Dist d) q" if av: "a < n" "se_Dist s' ! a = Some d" for a d
    proof (cases "a = ?v")
      case True
      then show ?thesis using p' D [OF n(2)] av(2) by auto
    next
      case False
      then have "se_Dist s ! a = Some d" using D [OF av(1)] av(2) by simp
      then obtain q where "label_path me es s a (nw_Dist d) q" using assms(1) av(1) unfolding reach_inv_def by blast
      then show ?thesis using q' by blast
    qed
    show "\<exists>da db. se_Dist s' ! a = Some da \<and> se_Dist s' ! b = Some db \<and> nw_Dist da \<le> nw_Dist db" if "(a, b) \<in> preds n s'" for a b
    proof (cases "b = ?v")
      case True
      then have "a = ?u" using P(2) that by blast
      then show ?thesis using True le [OF du n(1)] D [OF n(2)] x w0 by (auto intro: add_increasing2)
    next
      case False
      then have ab: "(a, b) \<in> preds n s" using that P(1) by auto
      then obtain da db where d: "se_Dist s ! a = Some da" "se_Dist s ! b = Some db" "nw_Dist da \<le> nw_Dist db"
        using assms(1) unfolding reach_inv_def by blast
      have "a < n" "b < n" using ab assms(1) by (auto simp: preds_def reach_inv_def search_inv_def)
      then show ?thesis using le [OF d(1)] D [of b] d False by (auto intro: order_trans)
    qed
  qed
  have "nw_Dist x \<in> weights n es"
    using label_path_len [OF p' assms(4) len(3)] p' by (auto simp: weights_def label_path_def intro!: image_eqI [of _ _ "p @ [e]"])
  then have c: "card {w \<in> weights n es. w < nw_Dist x} < (case se_Dist s ! ?v of None \<Rightarrow> Suc (card (weights n es)) | Some d \<Rightarrow> card {w\<in>weights n es. w < nw_Dist d})"
    using less by (auto split: option.splits intro!: psubset_card_mono card_mono le_imp_less_Suc intro: less_trans)
  have "pot n es s' < pot n es s"
    unfolding pot_def
    by (rule sum_strict_mono_ex1) (use D c n(2) in \<open>auto split: option.splits\<close>)
  then show ?thesis using r by simp
qed


lemma use_edges_reach:
  fixes fl :: "'w::linordered_ab_group_add floats"
  assumes "exact fl" "\<forall>e\<in>set es. 0 \<le> ed_W e" "edges_below n es"
  shows "fold_res (use_edge fl fee part) t l = Inr t' \<Longrightarrow> reach_inv n me es t \<Longrightarrow> set l \<subseteq> {e\<in>set es. ed_U e = nw_Node part} \<Longrightarrow>
    reach_inv n me es t' \<and> (t' = t \<or> pot n es t' < pot n es t)"
proof (induction l arbitrary: t)
  case (Cons e l)
  then obtain t1 where t1: "use_edge fl fee part t e = Inr t1" "fold_res (use_edge fl fee part) t1 l = Inr t'"
    by (auto simp: bind_res_eq_Inr)
  have "e \<in> set es" "ed_U e = nw_Node part" using Cons.prems(3) by auto
  from use_edge_reach [OF Cons.prems(2) t1(1) this(1) assms(3) this(2) assms(1,2)]
  have "reach_inv n me es t1" "t1 = t \<or> pot n es t1 < pot n es t" by auto
  then show ?case using Cons.IH [OF t1(2)] Cons.prems(3) by auto
qed simp

lemma search_step_reach:
  fixes fl :: "'w::linordered_ab_group_add floats"
  assumes "exact fl" "\<forall>e\<in>set es. 0 \<le> ed_W e" "edges_below n es"
    and "reach_inv n me es s" "search_step fl fees es s = Inr s'" "se_Heap s \<noteq> []"
  shows "reach_inv n me es s' \<and> ((pot n es s', length (se_Heap s')), (pot n es s, length (se_Heap s))) \<in> less_than <*lex*> less_than"
proof -
  obtain h part where p: "heap_pop fl (se_Heap s) = (h, part)" by (cases "heap_pop fl (se_Heap s)")
  note hp = heap_pop_set [OF assms(6) p]
  let ?t = "s\<lparr>se_Heap := h\<rparr>"
  have t: "reach_inv n me es ?t" "pot n es ?t = pot n es s" "length (se_Heap ?t) < length (se_Heap s)"
    using assms(4) hp by (auto simp: reach_inv_def search_inv_def label_path_def preds_def pot_def)
  have "reach_inv n me es s' \<and> (s' = ?t \<or> pot n es s' < pot n es ?t)"
  proof (cases "fees (nw_Node part)")
    case None
    then show ?thesis using assms(5) p t by (simp add: search_step_def Let_def)
  next
    case (Some f)
    then have "fold_res (use_edge fl (i64 (f * 1000)) part) ?t (filter (\<lambda>e. ed_U e = nw_Node part) es) = Inr s'"
      using assms(5) p by (simp add: search_step_def Let_def)
    from use_edges_reach [OF assms(1-3) this t(1)] show ?thesis by auto
  qed
  then show ?thesis using t by auto
qed

lemma search_loop_ends:
  fixes fl :: "'w::linordered_ab_group_add floats"
  assumes "exact fl" "\<forall>e\<in>set es. 0 \<le> ed_W e" "edges_below n es" "reach_inv n me es s"
  shows "\<exists>r. search_loop fl fees es s = Some r \<and> (case r of Inl e \<Rightarrow> True | Inr s' \<Rightarrow> reach_inv n me es s')"
  using assms(4)
proof (induction "(pot n es s, length (se_Heap s))" arbitrary: s rule: wf_induct_rule [OF wf_lex_prod [OF wf_less_than wf_less_than]])
  case (1 s)
  show ?case
  proof (cases "se_Heap s = []")
    case True
    then show ?thesis using "1.prems" by (subst search_loop.simps) simp
  next
    case False
    show ?thesis
    proof (cases "search_step fl fees es s")
      case (Inl e)
      then show ?thesis using False by (subst search_loop.simps) simp
    next
      case (Inr s')
      note st = search_step_reach [OF assms(1-3) "1.prems" Inr False]
      have "\<exists>r. search_loop fl fees es s' = Some r \<and> (case r of Inl e \<Rightarrow> True | Inr s' \<Rightarrow> reach_inv n me es s')"
        using st by (intro "1.hyps") auto
      then show ?thesis using Inr False by (subst search_loop.simps) simp
    qed
  qed
qed

lemma search_init_reach:
  fixes fl :: "'w::linordered_ab_group_add floats"
  assumes "me < n" "exact fl"
  shows "reach_inv n me es (search_init fl n me amount)"
proof -
  let ?x = "\<lparr>nw_Dist = 0, nw_Node = me, nw_Amt = amount\<rparr>" and ?s = "search_init fl n me amount"
  have d: "se_Dist ?s ! a = (if a = me then Some ?x else None)" if "a < n" for a
    using that assms by (simp add: search_init_def Let_def exact_def nth_list_update)
  have "label_path me es ?s me 0 []" using d [OF assms(1)] by (simp add: label_path_def)
  then have "\<exists>p. label_path me es ?s a (nw_Dist x) p" if "a < n" "se_Dist ?s ! a = Some x" for a x
    using d [OF that(1)] that(2) by (auto split: if_splits)
  moreover have "preds n ?s = {}" by (auto simp: preds_def search_init_def Let_def)
  ultimately show ?thesis using search_init_inv [OF assms(1)] by (simp add: reach_inv_def acyclic_def)
qed

lemma route_ids_ends:
  assumes "acyclic (preds n s)" "hd ids < n" "\<forall>u v. (u, v) \<in> preds n s \<longrightarrow> u < n"
  shows "\<exists>r. route_ids (se_Pred s) ids = Some r"
proof -
  have "preds n s \<subseteq> {..<n} \<times> {..<n}" using assms(3) by (auto simp: preds_def)
  then have "wf (preds n s)" using assms(1) finite_subset by (intro finite_acyclic_wf) auto
  then show ?thesis using assms(2)
  proof (induction "hd ids" arbitrary: ids rule: wf_induct_rule)
    case less
    show ?case
    proof (cases "se_Pred s ! hd ids")
      case None
      then show ?thesis by (subst route_ids.simps) simp
    next
      case (Some p)
      then have "(p, hd ids) \<in> preds n s" using less.prems by (simp add: preds_def)
      then have "\<exists>r. route_ids (se_Pred s) (p # ids) = Some r" using assms(3) by (intro less.hyps) auto
      then show ?thesis using Some by (subst route_ids.simps) simp
    qed
  qed
qed

text \<open>If weights were added exactly, as float64 does not, FindPath would always return: each improvement lowers a label among
  finitely many weights, and the predecessors never form a cycle.\<close>

theorem path_search_ends:
  fixes re :: "'w::linordered_ab_group_add route_env"
  assumes "exact (re_floats re)" "permutes_vertices re"
  shows "\<exists>r. FindPath re cm targetPkh destCoinType originCoinType amount = Some r"
proof -
  let ?fl = "re_floats re"
  let ?es = "all_edges ?fl cm"
  define vs where "vs = re_order re (vertex_set ?es)"
  have ids: "\<exists>r. (case search_loop ?fl (\<lambda>i. re_fee re (vx_CoinType (vs ! i))) es (search_init ?fl (length vs) me amount) of None \<Rightarrow> None
               | Some (Inl e) \<Rightarrow> Some (Inl e)
               | Some (Inr s) \<Rightarrow>
                 if se_Dist s ! target = None then Some (Inl BadFormat)
                 else case se_Pred s ! target of None \<Rightarrow> Some (Inl Panic)
                 | Some p \<Rightarrow>
                   map_option (\<lambda>ids. Inr (map (\<lambda>i. \<lparr>rh_Node = vx_Node (vs ! i), rh_CoinType = vx_CoinType (vs ! i)\<rparr>) ids))
                     (route_ids (se_Pred s) [p, target])) = Some r"
    if mt: "me < length vs" "target < length vs" "reweight ?fl (length vs) (map (light vs) ?es) = Inr es" for me target es
  proof -
    note st = light_step [OF assms(2) vs_def mt(3)]
    have b: "edges_below (length vs) es" using st by (auto simp: edges_below_def)
    have w: "\<forall>e\<in>set es. 0 \<le> ed_W e" using reweight_potentials [OF mt(3) assms(1)] by blast
    obtain r where r: "search_loop ?fl (\<lambda>i. re_fee re (vx_CoinType (vs ! i))) es (search_init ?fl (length vs) me amount) = Some r"
      "case r of Inl e \<Rightarrow> True | Inr s \<Rightarrow> reach_inv (length vs) me es s"
      using search_loop_ends [OF assms(1) w b search_init_reach [OF mt(1) assms(1)]] by blast
    show ?thesis
    proof (cases r)
      case (Inl e)
      then show ?thesis using r(1) by simp
    next
      case (Inr s)
      then have i: "reach_inv (length vs) me es s" using r(2) by simp
      show ?thesis
      proof (cases "se_Pred s ! target")
        case None
        then show ?thesis using r(1) Inr by simp
      next
        case (Some p)
        then have "p < length vs" using i mt(2) by (auto simp: reach_inv_def search_inv_def)
        moreover have "\<forall>u v. (u, v) \<in> preds (length vs) s \<longrightarrow> u < length vs"
          using i by (auto simp: reach_inv_def search_inv_def preds_def)
        ultimately obtain ids where "route_ids (se_Pred s) [p, target] = Some ids"
          using route_ids_ends [of "length vs" s "[p, target]"] i by (auto simp: reach_inv_def)
        then show ?thesis using r(1) Inr Some by simp
      qed
    qed
  qed
  note unf = FindPath_def Let_def vs_def [symmetric]
  show ?thesis
  proof (cases "find_idx (\<lambda>v. v = \<lparr>vx_Node = re_me re, vx_CoinType = originCoinType, vx_Terminus = False\<rparr>) vs")
    case None
    then show ?thesis unfolding unf by simp
  next
    case me: (Some me)
    show ?thesis
    proof (cases "find_idx (\<lambda>v. v = \<lparr>vx_Node = targetPkh, vx_CoinType = destCoinType, vx_Terminus = True\<rparr>) vs")
      case None
      then show ?thesis unfolding unf me by simp
    next
      case target: (Some target)
      have lt: "me < length vs" "target < length vs" using find_idx_Some [OF me] find_idx_Some [OF target] by simp_all
      show ?thesis
      proof (cases "reweight ?fl (length vs) (map (light vs) ?es)")
        case (Inl e)
        then show ?thesis unfolding unf me target by simp
      next
        case (Inr es)
        show ?thesis using ids [OF lt Inr] unfolding unf me target Inr by simp
      qed
    qed
  qed
qed


section \<open>Any arithmetic of finitely many numbers\<close>

text \<open>
  The numbers of the code are float64: finitely many, with rounding in every addition. Of their comparison only that it is a
  strict order is used here (it is one also on not-a-numbers, which are below nothing). The loop over the heap then
  always ends, since every improvement lowers a label; reading the path back need not.
\<close>

definition strict_less :: "'w floats \<Rightarrow> bool" where
  "strict_less fl \<longleftrightarrow> irreflp (fl_less fl) \<and> transp (fl_less fl)"

definition below :: "'w floats \<Rightarrow> 'w \<Rightarrow> nat" where "below fl w = card {v. fl_less fl v w}"

definition labels_left :: "nat \<Rightarrow> 'w::finite floats \<Rightarrow> 'w search \<Rightarrow> nat" where
  "labels_left n fl s = (\<Sum>v<n. case se_Dist s ! v of None \<Rightarrow> Suc (card (UNIV :: 'w set)) | Some d \<Rightarrow> below fl (nw_Dist d))"

lemma below_less:
  fixes fl :: "'w::finite floats"
  assumes "strict_less fl"
  shows "fl_less fl x y \<Longrightarrow> below fl x < below fl y" and "below fl x < Suc (card (UNIV :: 'w set))"
proof -
  assume "fl_less fl x y"
  then have "{v. fl_less fl v x} \<subset> {v. fl_less fl v y}"
    using assms by (auto simp: strict_less_def irreflp_def dest: transpD)
  then show "below fl x < below fl y" by (simp add: below_def psubset_card_mono)
next
  show "below fl x < Suc (card (UNIV :: 'w set))" by (simp add: below_def le_imp_less_Suc card_mono)
qed

lemma use_edge_left:
  fixes fl :: "'w::finite floats"
  assumes "search_inv n me es s" "use_edge fl fee part s e = Inr s'" "ed_V e < n" "strict_less fl"
  shows "s' = s \<or> labels_left n fl s' < labels_left n fl s"
  using assms(2)
proof (cases rule: use_edge_cases)
  case (2 du x)
  let ?v = "ed_V e"
  have D: "se_Dist s' ! a = (if a = ?v then Some x else se_Dist s ! a)" if "a < n" for a
    using that assms(1,3) unfolding 2(5) by (simp add: search_inv_def)
  have "below fl (nw_Dist x) < (case se_Dist s ! ?v of None \<Rightarrow> Suc (card (UNIV :: 'w set)) | Some d \<Rightarrow> below fl (nw_Dist d))"
    using 2(4) below_less [OF assms(4)] by (auto split: option.splits)
  then have "labels_left n fl s' < labels_left n fl s"
    unfolding labels_left_def by (intro sum_strict_mono_ex1) (use D assms(3) in \<open>auto split: option.splits\<close>)
  then show ?thesis ..
qed simp

lemma use_edges_left:
  fixes fl :: "'w::finite floats"
  assumes "edges_below n es" "strict_less fl"
  shows "fold_res (use_edge fl fee part) t l = Inr t' \<Longrightarrow> search_inv n me es t \<Longrightarrow> set l \<subseteq> {e\<in>set es. ed_U e = nw_Node part} \<Longrightarrow>
    t' = t \<or> labels_left n fl t' < labels_left n fl t"
proof (induction l arbitrary: t)
  case (Cons e l)
  then obtain t1 where t1: "use_edge fl fee part t e = Inr t1" "fold_res (use_edge fl fee part) t1 l = Inr t'"
    by (auto simp: bind_res_eq_Inr)
  have e: "e \<in> set es" "ed_U e = nw_Node part" using Cons.prems(3) by auto
  then have "ed_V e < n" using assms(1) by (simp add: edges_below_def)
  from use_edge_left [OF Cons.prems(2) t1(1) this assms(2)]
  have "t1 = t \<or> labels_left n fl t1 < labels_left n fl t" .
  moreover have "search_inv n me es t1" by (rule use_edge_inv [OF Cons.prems(2) t1(1) e(1) assms(1) e(2)])
  ultimately show ?case using Cons.IH [OF t1(2)] Cons.prems(3) by auto
qed simp

lemma search_step_left:
  fixes fl :: "'w::finite floats"
  assumes "edges_below n es" "strict_less fl" "search_inv n me es s" "search_step fl fees es s = Inr s'" "se_Heap s \<noteq> []"
  shows "((labels_left n fl s', length (se_Heap s')), (labels_left n fl s, length (se_Heap s))) \<in> less_than <*lex*> less_than"
proof -
  obtain h part where p: "heap_pop fl (se_Heap s) = (h, part)" by (cases "heap_pop fl (se_Heap s)")
  note hp = heap_pop_set [OF assms(5) p]
  let ?t = "s\<lparr>se_Heap := h\<rparr>"
  have t: "search_inv n me es ?t" "labels_left n fl ?t = labels_left n fl s" "length (se_Heap ?t) < length (se_Heap s)"
    using assms(3) hp by (auto simp: search_inv_def labels_left_def)
  have "s' = ?t \<or> labels_left n fl s' < labels_left n fl ?t"
  proof (cases "fees (nw_Node part)")
    case None
    then show ?thesis using assms(4) p by (simp add: search_step_def Let_def)
  next
    case (Some f)
    then have "fold_res (use_edge fl (i64 (f * 1000)) part) ?t (filter (\<lambda>e. ed_U e = nw_Node part) es) = Inr s'"
      using assms(4) p by (simp add: search_step_def Let_def)
    from use_edges_left [OF assms(1,2) this t(1)] show ?thesis by auto
  qed
  then show ?thesis using t by auto
qed

lemma search_loop_returns:
  fixes fl :: "'w::finite floats"
  assumes "edges_below n es" "strict_less fl" "search_inv n me es s"
  shows "\<exists>r. search_loop fl fees es s = Some r"
  using assms(3)
proof (induction "(labels_left n fl s, length (se_Heap s))" arbitrary: s rule: wf_induct_rule [OF wf_lex_prod [OF wf_less_than wf_less_than]])
  case (1 s)
  show ?case
  proof (cases "se_Heap s = []")
    case True
    then show ?thesis by (subst search_loop.simps) simp
  next
    case False
    show ?thesis
    proof (cases "search_step fl fees es s")
      case (Inl e)
      then show ?thesis using False by (subst search_loop.simps) simp
    next
      case (Inr s')
      have "\<exists>r. search_loop fl fees es s' = Some r"
        using search_step_left [OF assms(1,2) "1.prems" Inr False] search_step_inv [OF "1.prems" Inr assms(1) False]
        by (intro "1.hyps") auto
      then show ?thesis using Inr False by (subst search_loop.simps) simp
    qed
  qed
qed

text \<open>Reading back from \<open>t\<close> fails to end exactly when it comes to a cycle.\<close>

lemma route_ids_cycle:
  assumes "(c, c) \<in> (preds n s)\<^sup>+" "(c, hd ids) \<in> (preds n s)\<^sup>*" "ids \<noteq> []"
  shows "route_ids (se_Pred s) ids = None"
proof (rule ccontr)
  assume "route_ids (se_Pred s) ids \<noteq> None"
  then obtain r where r: "route_ids (se_Pred s) ids = Some r" by blast
  obtain pre where pre: "r = pre @ ids" "se_Pred s ! hd r = None" "\<forall>i<length pre. se_Pred s ! (r ! Suc i) = Some (r ! i)"
    using route_ids_run [OF r assms(3)] by blast
  have up: "\<exists>u. se_Pred s ! v = Some u \<and> (c, u) \<in> (preds n s)\<^sup>*" if "(c, v) \<in> (preds n s)\<^sup>*" for v
  proof -
    from that assms(1) have "(c, v) \<in> (preds n s)\<^sup>+" by (metis rtranclD)
    then obtain u where "(c, u) \<in> (preds n s)\<^sup>*" "(u, v) \<in> preds n s" by (metis tranclD2)
    then show ?thesis by (auto simp: preds_def)
  qed
  have "(c, r ! (length pre - k)) \<in> (preds n s)\<^sup>*" if "k \<le> length pre" for k
    using that
  proof (induction k)
    case 0
    then show ?case using assms(2,3) pre(1) by (simp add: nth_append hd_conv_nth)
  next
    case (Suc k)
    let ?i = "length pre - Suc k"
    have "Suc ?i = length pre - k" using Suc.prems by simp
    then obtain u where "se_Pred s ! (r ! Suc ?i) = Some u" "(c, u) \<in> (preds n s)\<^sup>*" using up Suc by fastforce
    moreover have "se_Pred s ! (r ! Suc ?i) = Some (r ! ?i)" using pre(3) Suc.prems by simp
    ultimately show ?case by simp
  qed
  from this [of "length pre"] have "(c, hd r) \<in> (preds n s)\<^sup>*" using pre(1) assms(3) by (simp add: hd_conv_nth)
  from up [OF this] show False using pre(2) by simp
qed

lemma route_ids_no_cycle:
  assumes "\<forall>c. (c, c) \<in> (preds n s)\<^sup>+ \<longrightarrow> (c, t) \<notin> (preds n s)\<^sup>*" "\<forall>u v. (u, v) \<in> preds n s \<longrightarrow> u < n" "t < n" "(hd ids, t) \<in> (preds n s)\<^sup>*"
  shows "\<exists>r. route_ids (se_Pred s) ids = Some r"
proof -
  define P where "P = {(u, v). (u, v) \<in> preds n s \<and> (v, t) \<in> (preds n s)\<^sup>*}"
  have no: "(c, c) \<notin> P\<^sup>+" for c
  proof
    assume c: "(c, c) \<in> P\<^sup>+"
    then have "(c, c) \<in> (preds n s)\<^sup>+" by (rule trancl_mono) (auto simp: P_def)
    moreover obtain u where "(u, c) \<in> P" using c by (metis tranclD2)
    then have "(c, t) \<in> (preds n s)\<^sup>*" by (simp add: P_def)
    ultimately show False using assms(1) by blast
  qed
  have "P \<subseteq> {..<n} \<times> {..<n}" using assms(2) by (auto simp: P_def preds_def)
  then have "finite P" by (rule finite_subset) simp
  moreover have "acyclic P" unfolding acyclic_def using no by blast
  ultimately have "wf P" by (simp add: finite_acyclic_wf)
  then show ?thesis using assms(4)
  proof (induction "hd ids" arbitrary: ids rule: wf_induct_rule)
    case less
    have n: "hd ids < n" using less.prems assms(2,3) by (metis converse_rtranclE)
    show ?case
    proof (cases "se_Pred s ! hd ids")
      case None
      then show ?thesis by (subst route_ids.simps) simp
    next
      case (Some p)
      then have p: "(p, hd ids) \<in> preds n s" using n by (simp add: preds_def)
      then have "\<exists>r. route_ids (se_Pred s) (p # ids) = Some r" using less.prems by (intro less.hyps) (auto simp: P_def intro: converse_rtrancl_into_rtrancl)
      then show ?thesis using Some by (subst route_ids.simps) simp
    qed
  qed
qed

text \<open>The labels and predecessors a call of FindPath ends its search with: \<open>n\<close> vertices, the number of the target, and the tables.\<close>

definition search_done ::
  "'w route_env \<Rightarrow> chan_map \<Rightarrow> bytes \<Rightarrow> u32 \<Rightarrow> u32 \<Rightarrow> int \<Rightarrow> nat \<Rightarrow> nat \<Rightarrow> 'w search \<Rightarrow> bool" where
  "search_done re cm targetPkh destCoinType originCoinType amount n target s \<longleftrightarrow>
     (\<exists>vs me es. vs = re_order re (vertex_set (all_edges (re_floats re) cm)) \<and> n = length vs \<and>
        find_idx (\<lambda>v. v = \<lparr>vx_Node = re_me re, vx_CoinType = originCoinType, vx_Terminus = False\<rparr>) vs = Some me \<and>
        find_idx (\<lambda>v. v = \<lparr>vx_Node = targetPkh, vx_CoinType = destCoinType, vx_Terminus = True\<rparr>) vs = Some target \<and>
        reweight (re_floats re) n (map (light vs) (all_edges (re_floats re) cm)) = Inr es \<and>
        search_loop (re_floats re) (\<lambda>i. re_fee re (vx_CoinType (vs ! i))) es (search_init (re_floats re) n me amount) = Some (Inr s))"

lemma search_done_inv:
  assumes "permutes_vertices re" "search_done re cm targetPkh destCoinType originCoinType amount n target s"
  shows "\<exists>me es. search_inv n me es s \<and> target < n"
proof -
  obtain vs me es where g: "vs = re_order re (vertex_set (all_edges (re_floats re) cm))" "n = length vs" "me < length vs" "target < length vs"
    "reweight (re_floats re) n (map (light vs) (all_edges (re_floats re) cm)) = Inr es"
    "search_loop (re_floats re) (\<lambda>i. re_fee re (vx_CoinType (vs ! i))) es (search_init (re_floats re) n me amount) = Some (Inr s)"
    using assms(2) unfolding search_done_def by (auto dest!: find_idx_Some)
  have "edges_below n es" using light_step [OF assms(1) g(1,5)] g(2) by (auto simp: edges_below_def)
  then have "search_inv n me es s" using search_loop_inv [OF g(6)] search_init_inv g(2,3) by fastforce
  then show ?thesis using g(2,4) by blast
qed

lemma FindPath_None:
  fixes re :: "'w::finite route_env"
  assumes "strict_less (re_floats re)" "permutes_vertices re" "FindPath re cm targetPkh destCoinType originCoinType amount = None"
  shows "\<exists>n target s. search_done re cm targetPkh destCoinType originCoinType amount n target s \<and> se_Dist s ! target \<noteq> None \<and>
    (\<exists>p. se_Pred s ! target = Some p \<and> route_ids (se_Pred s) [p, target] = None)"
proof -
  let ?fl = "re_floats re"
  define vs where "vs = re_order re (vertex_set (all_edges ?fl cm))"
  note unf = FindPath_def Let_def vs_def [symmetric]
  obtain me where me: "find_idx (\<lambda>v. v = \<lparr>vx_Node = re_me re, vx_CoinType = originCoinType, vx_Terminus = False\<rparr>) vs = Some me"
    using assms(3) unfolding unf by (cases "find_idx (\<lambda>v. v = \<lparr>vx_Node = re_me re, vx_CoinType = originCoinType, vx_Terminus = False\<rparr>) vs") simp_all
  obtain target where t: "find_idx (\<lambda>v. v = \<lparr>vx_Node = targetPkh, vx_CoinType = destCoinType, vx_Terminus = True\<rparr>) vs = Some target"
    using assms(3) unfolding unf me
    by (cases "find_idx (\<lambda>v. v = \<lparr>vx_Node = targetPkh, vx_CoinType = destCoinType, vx_Terminus = True\<rparr>) vs") simp_all
  obtain es where es: "reweight ?fl (length vs) (map (light vs) (all_edges ?fl cm)) = Inr es"
    using assms(3) unfolding unf me t by (cases "reweight ?fl (length vs) (map (light vs) (all_edges ?fl cm))") simp_all
  note g = me t es
  let ?loop = "search_loop ?fl (\<lambda>i. re_fee re (vx_CoinType (vs ! i))) es (search_init ?fl (length vs) me amount)"
  have "edges_below (length vs) es" using light_step [OF assms(2) vs_def g(3)] by (auto simp: edges_below_def)
  then obtain r where r: "?loop = Some r"
    using search_loop_returns [OF _ assms(1) search_init_inv] find_idx_Some [OF g(1)] by blast
  obtain s where s: "r = Inr s"
    using assms(3) unfolding unf me t es option.case sum.case r by (cases r) simp_all
  have "se_Dist s ! target \<noteq> None"
    using assms(3) unfolding unf me t es option.case sum.case r s by (cases "se_Dist s ! target") simp_all
  moreover from this obtain p where "se_Pred s ! target = Some p"
    using assms(3) unfolding unf me t es option.case sum.case r s by (cases "se_Pred s ! target") auto
  moreover from this have "route_ids (se_Pred s) [p, target] = None"
    using assms(3) calculation(1) unfolding unf me t es option.case sum.case r s by auto
  moreover have "search_done re cm targetPkh destCoinType originCoinType amount (length vs) target s"
    unfolding search_done_def using vs_def g r s by blast
  ultimately show ?thesis by blast
qed

text \<open>C13: FindPath fails to return exactly when its search over the heap, which always ends, leaves the predecessors of the vertices
  in a cycle from which the target is reached: the path is then read back for ever. This holds for every map, every order of
  the vertices and every arithmetic of the weights, rounded or not, over finitely many numbers with a strict order.\<close>

theorem path_search_returns:
  fixes re :: "'w::finite route_env"
  assumes "strict_less (re_floats re)" "permutes_vertices re"
  shows "FindPath re cm targetPkh destCoinType originCoinType amount = None \<longleftrightarrow>
    (\<exists>n target s c. search_done re cm targetPkh destCoinType originCoinType amount n target s \<and> se_Dist s ! target \<noteq> None \<and>
       (c, c) \<in> (preds n s)\<^sup>+ \<and> (c, target) \<in> (preds n s)\<^sup>*)"
    (is "?none \<longleftrightarrow> ?cycle")
proof
  assume ?none
  then obtain n target s where d: "search_done re cm targetPkh destCoinType originCoinType amount n target s" "se_Dist s ! target \<noteq> None"
    "\<exists>p. se_Pred s ! target = Some p \<and> route_ids (se_Pred s) [p, target] = None"
    using FindPath_None [OF assms] by blast
  obtain me es where i: "search_inv n me es s" "target < n" using search_done_inv [OF assms(2) d(1)] by blast
  have b: "\<forall>u v. (u, v) \<in> preds n s \<longrightarrow> u < n" using i(1) by (auto simp: search_inv_def preds_def)
  obtain p where p: "se_Pred s ! target = Some p" "route_ids (se_Pred s) [p, target] = None" using d(3) by blast
  then have "(hd [p, target], target) \<in> (preds n s)\<^sup>*" using i(2) by (auto simp: preds_def)
  with route_ids_no_cycle [OF _ b i(2), of "[p, target]"] p(2)
  have "\<exists>c. (c, c) \<in> (preds n s)\<^sup>+ \<and> (c, target) \<in> (preds n s)\<^sup>*" by auto
  with d(1,2) show ?cycle by blast
next
  assume ?cycle
  then obtain n target s c where d: "search_done re cm targetPkh destCoinType originCoinType amount n target s" "se_Dist s ! target \<noteq> None"
    "(c, c) \<in> (preds n s)\<^sup>+" "(c, target) \<in> (preds n s)\<^sup>*" by blast
  then have "(c, target) \<in> (preds n s)\<^sup>+" by (metis rtranclD)
  then obtain p where p: "(c, p) \<in> (preds n s)\<^sup>*" "(p, target) \<in> preds n s" by (metis tranclD2)
  then have "se_Pred s ! target = Some p" by (simp add: preds_def)
  moreover have "route_ids (se_Pred s) [p, target] = None" by (rule route_ids_cycle [OF d(3)]) (use p in simp_all)
  ultimately show ?none using d(1,2) by (auto simp: search_done_def FindPath_def Let_def)
qed

section \<open>Rates of zero\<close>

lemma fold_res_panics:
  "x \<in> set xs \<Longrightarrow> (\<And>s. f s x = Inl Panic) \<Longrightarrow> (\<And>s y e. f s y = Inl e \<Longrightarrow> e = Panic) \<Longrightarrow> fold_res f s xs = Inl Panic"
proof (induction xs arbitrary: s)
  case (Cons y ys)
  show ?case
  proof (cases "f s y")
    case (Inl e)
    then show ?thesis using Cons.prems(3) [OF Inl] by simp
  next
    case (Inr s')
    then have "x \<in> set ys" using Cons.prems(1,2) by auto
    then show ?thesis using Cons.IH Cons.prems(2,3) Inr by simp
  qed
qed simp

lemma use_edge_error: "use_edge fl fee part s e = Inl err \<Longrightarrow> err = Panic"
  by (auto simp: use_edge_def next_amt_def Let_def bind_res_eq_Inl split: if_splits option.splits)

lemma search_first:
  assumes "e \<in> set es" "ed_U e = me" "rd_Rate (ed_Rate e) = 0" "rd_Reciprocal (ed_Rate e)"
    and "fees me = Some f" "i64 (MinOutput + i64 (f * 1000)) \<le> amount" "amount \<le> ed_Capacity e" "me < n"
  shows "search_loop fl fees es (search_init fl n me amount) = Some (Inl Panic)"
proof -
  let ?x = "\<lparr>nw_Dist = fl_zero fl, nw_Node = me, nw_Amt = amount\<rparr>" and ?s = "search_init fl n me amount"
  have h: "se_Heap ?s = [?x]"
    by (simp add: search_init_def Let_def heap_push_def) (subst heap_up.simps, simp)
  have p: "heap_pop fl [?x] = ([], ?x)"
    by (simp add: heap_pop_def heap_swap_def) (simp add: heap_down.simps [of fl _ 0 0])
  have "fold_res (use_edge fl (i64 (f * 1000)) ?x) (?s\<lparr>se_Heap := []\<rparr>) (filter (\<lambda>e. ed_U e = me) es) = Inl Panic"
  proof (rule fold_res_panics)
    show "e \<in> set (filter (\<lambda>e. ed_U e = me) es)" using assms(1,2) by simp
    show "use_edge fl (i64 (f * 1000)) ?x s e = Inl Panic" for s
      using assms(3,4,6,7) by (simp add: use_edge_def next_amt_def)
  qed (rule use_edge_error)
  then have "search_step fl fees es ?s = Inl Panic"
    using h p assms(5) by (simp add: search_step_def)
  then show ?thesis using h by (subst search_loop.simps) simp
qed

text \<open>A rate of zero that is advertised for the coin of a payment ends the process of the payer: the first vertex visited
  is the node itself, and the amount is divided by the rate of each of its edges.\<close>

theorem zero_rate_panics:
  assumes "permutes_vertices re" "e \<in> set (all_edges (re_floats re) cm)" "rd_Rate (ed_Rate e) = 0" "rd_Reciprocal (ed_Rate e)"
    and "ed_U e = \<lparr>vx_Node = re_me re, vx_CoinType = originCoinType, vx_Terminus = False\<rparr>"
    and "advertised cm c" "lk_BPKH c = targetPkh" "lk_CoinType c = destCoinType"
    and "re_fee re originCoinType = Some f" "i64 (MinOutput + i64 (f * 1000)) \<le> amount" "amount \<le> ed_Capacity e"
    and "FindPath re cm targetPkh destCoinType originCoinType amount \<noteq> Some (Inl Mismatch)"
  shows "FindPath re cm targetPkh destCoinType originCoinType amount = Some (Inl Panic)"
proof -
  let ?fl = "re_floats re"
  let ?es = "all_edges ?fl cm"
  define vs where "vs = re_order re (vertex_set ?es)"
  let ?me = "\<lparr>vx_Node = re_me re, vx_CoinType = originCoinType, vx_Terminus = False\<rparr>"
  let ?t = "\<lparr>vx_Node = targetPkh, vx_CoinType = destCoinType, vx_Terminus = True\<rparr>"
  have vs: "set vs = set (vertex_set ?es)" using assms(1) unfolding vs_def by (metis permutes_vertices_def set_mset_mset)
  have "?me \<in> set vs" using vertex_set_all [OF assms(2)] assms(5) vs by simp
  then have "find_idx (\<lambda>v. v = ?me) vs \<noteq> None" by (auto simp: find_idx_None)
  then obtain me where me: "find_idx (\<lambda>v. v = ?me) vs = Some me" by blast
  have "sink_edge ?fl c \<in> set ?es"
    using assms(6) by (force simp: advertised_def all_edges_def link_edges_def)
  then have "?t \<in> set vs" using vertex_set_all [of "sink_edge ?fl c" ?es] vs assms(7,8) by (simp add: sink_edge_def)
  then have "find_idx (\<lambda>v. v = ?t) vs \<noteq> None" by (auto simp: find_idx_None)
  then obtain target where t: "find_idx (\<lambda>v. v = ?t) vs = Some target" by blast
  note unf = FindPath_def Let_def vs_def [symmetric] me t
  show ?thesis
  proof (cases "reweight ?fl (length vs) (map (light vs) ?es)")
    case (Inl err)
    then have "err = Mismatch" by (simp add: reweight_def Let_def split: if_splits)
    then show ?thesis using assms(12) Inl unfolding unf by simp
  next
    case (Inr es)
    then obtain g where es: "es = map (\<lambda>e. e\<lparr>ed_W := g e\<rparr>) (map (light vs) ?es)" using reweight_edges by blast
    let ?e = "(light vs e)\<lparr>ed_W := g (light vs e)\<rparr>"
    have "?e \<in> set es" using assms(2) es by simp
    moreover have "ed_U ?e = me" using me assms(5) by (simp add: light_def vertex_idx_def)
    moreover have "vs ! me = ?me" "me < length vs" using find_idx_Some [OF me] by simp_all
    ultimately have "search_loop ?fl (\<lambda>i. re_fee re (vx_CoinType (vs ! i))) es (search_init ?fl (length vs) me amount) = Some (Inl Panic)"
      using assms(3,4,9-11) by (intro search_first [of ?e]) (simp_all add: light_def)
    then show ?thesis using Inr unfolding unf by simp
  qed
qed

section \<open>Capacities\<close>

text \<open>Whether a payment fits through the links of a path: the amount is within the capacity of each, and is exchanged on the way.\<close>

fun fits :: "('w, vertex) edge list \<Rightarrow> int \<Rightarrow> route_hop list \<Rightarrow> bool" where
  "fits es amt (a # b # rest) \<longleftrightarrow>
     list_ex (\<lambda>e. ed_U e = \<lparr>vx_Node = rh_Node a, vx_CoinType = rh_CoinType a, vx_Terminus = False\<rparr> \<and>
       ed_V e = \<lparr>vx_Node = rh_Node b, vx_CoinType = rh_CoinType b, vx_Terminus = (rest = [])\<rparr> \<and> amt \<le> ed_Capacity e \<and>
       (case next_amt (ed_Rate e) amt of Inl err \<Rightarrow> False | Inr amt' \<Rightarrow> fits es amt' (b # rest))) es"
| "fits es amt route \<longleftrightarrow> True"

definition toy_floats :: "int floats" where
  "toy_floats = \<lparr>fl_add = (+), fl_sub = (-), fl_less = (<), fl_zero = 0, fl_max = 1000,
     fl_weight = (\<lambda>rd. if rd_Rate rd = 1 then 0 else if rd_Reciprocal rd then 1 else - 1)\<rparr>"

definition toy_pkh :: "byte \<Rightarrow> bytes" where "toy_pkh n = replicate 20 n"

definition toy_route_env :: "int route_env" where
  "toy_route_env = \<lparr>re_floats = toy_floats, re_me = toy_pkh 1, re_fee = (\<lambda>coin. Some 80), re_order = (\<lambda>vs. vs)\<rparr>"

definition toy_link :: "byte \<Rightarrow> byte \<Rightarrow> u32 \<Rightarrow> u64 \<Rightarrow> (u32 \<times> u64) list \<Rightarrow> link_desc" where
  "toy_link a b coin cap rates =
     \<lparr>ld_Link = \<lparr>lk_PeerIdx = 1, lk_APKH = toy_pkh a, lk_ACapacity = cap, lk_BPKH = toy_pkh b, lk_CoinType = coin, lk_Seq = 1,
        lk_Timestamp = 0, lk_Rates = map (\<lambda>(c, r). \<lparr>rd_CoinType = c, rd_Rate = r, rd_Reciprocal = False\<rparr>) rates\<rparr>, ld_Dirty = False\<rparr>"

text \<open>Node 1 has links to 2 and 3; 2 has one to 3, and 3 one to 4 that takes coin 1 for one unit and coin 3 for two.\<close>

definition toy_map :: chan_map where
  "toy_map = [(toy_pkh 1, [toy_link 1 3 1 9000000 [], toy_link 1 2 1 9000000 []]), (toy_pkh 2, [toy_link 2 3 3 9000000 [(1, 1)]]),
     (toy_pkh 3, [toy_link 3 4 2 3000000 [(1, 1), (3, 2)]])]"

definition toy_hop :: "byte \<Rightarrow> u32 \<Rightarrow> route_hop" where "toy_hop n coin = \<lparr>rh_Node = toy_pkh n, rh_CoinType = coin\<rparr>"

text \<open>The capacity of a link is checked against the amount of the entry taken from the heap, but the path follows the
  best predecessors. A better exchange found later brings more of the coin than the next link can carry: the path
  that is returned does not fit its links, although there is one that does.\<close>

theorem path_over_capacity:
  "FindPath toy_route_env toy_map (toy_pkh 4) 2 1 2000000 = Some (Inr [toy_hop 1 1, toy_hop 2 3, toy_hop 3 2, toy_hop 4 2]) \<and>
     \<not> fits (all_edges toy_floats toy_map) 2000000 [toy_hop 1 1, toy_hop 2 3, toy_hop 3 2, toy_hop 4 2] \<and>
     fits (all_edges toy_floats toy_map) 2000000 [toy_hop 1 1, toy_hop 3 2, toy_hop 4 2]"
proof (intro conjI)
  show "FindPath toy_route_env toy_map (toy_pkh 4) 2 1 2000000 = Some (Inr [toy_hop 1 1, toy_hop 2 3, toy_hop 3 2, toy_hop 4 2])"
    by code_simp
  show "\<not> fits (all_edges toy_floats toy_map) 2000000 [toy_hop 1 1, toy_hop 2 3, toy_hop 3 2, toy_hop 4 2]" by code_simp
  show "fits (all_edges toy_floats toy_map) 2000000 [toy_hop 1 1, toy_hop 3 2, toy_hop 4 2]" by code_simp
qed

section \<open>Sequence numbers\<close>

text \<open>The number of the link from a node to a peer in a coin.\<close>

definition seq_of :: "chan_map \<Rightarrow> bytes \<Rightarrow> bytes \<Rightarrow> u32 \<Rightarrow> u32 option" where
  "seq_of cm a b coin = map_option (\<lambda>l. lk_Seq (ld_Link l)) (find (\<lambda>l. lk_BPKH (ld_Link l) = b \<and> lk_CoinType (ld_Link l) = coin) (links_of cm a))"

lemma links_put: "links_of (put_links pkh ls cm) a = (if a = pkh then ls else links_of cm a)"
proof -
  have m: "map_of (map (\<lambda>(k, v). (k, if k = pkh then ls else v)) cm) a = (case map_of cm a of None \<Rightarrow> None | Some v \<Rightarrow> Some (if a = pkh then ls else v))"
    by (induction cm) auto
  have "map_of cm pkh \<noteq> None \<longleftrightarrow> pkh \<in> fst ` set cm" by (simp add: map_of_eq_None_iff)
  then show ?thesis
    using m by (auto simp: links_of_def put_links_def map_add_def split: option.splits)
qed

lemma find_idx_find: "find P xs = (case find_idx P xs of None \<Rightarrow> None | Some i \<Rightarrow> Some (xs ! i))"
  by (induction xs) (auto split: option.splits)

lemma find_idx_update:
  assumes "find_idx P xs = Some i" "P x"
  shows "find_idx P (xs[i := x]) = Some i"
  using assms by (induction xs arbitrary: i) (auto split: if_splits)

lemma find_update_other:
  assumes "\<not> P x" "\<not> P (xs ! i)"
  shows "find P (xs[i := x]) = find P xs"
  using assms by (induction xs arbitrary: i) (auto split: nat.splits)


lemma seq_idx:
  "seq_of cm (lk_APKH msg) (lk_BPKH msg) (lk_CoinType msg) =
     (case find_idx (same_link msg) (links_of cm (lk_APKH msg)) of None \<Rightarrow> None
      | Some i \<Rightarrow> Some (lk_Seq (ld_Link (links_of cm (lk_APKH msg) ! i))))"
proof -
  have "same_link msg = (\<lambda>l. lk_BPKH (ld_Link l) = lk_BPKH msg \<and> lk_CoinType (ld_Link l) = lk_CoinType msg)"
    by (auto simp: same_link_def)
  then show ?thesis
    using find_idx_find [of "same_link msg" "links_of cm (lk_APKH msg)"] by (simp add: seq_of_def split: option.splits)
qed

lemma find_append: "find P (xs @ ys) = (case find P xs of None \<Rightarrow> find P ys | Some x \<Rightarrow> Some x)"
  by (induction xs) auto

lemma handler_seq:
  assumes "LinkMsgHandler now peers msg cm = (cm', out)"
  shows "seq_of cm' a b coin = (if a = lk_APKH msg \<and> b = lk_BPKH msg \<and> coin = lk_CoinType msg
    then Some (case seq_of cm a b coin of None \<Rightarrow> lk_Seq msg | Some n \<Rightarrow> max n (lk_Seq msg)) else seq_of cm a b coin)"
proof -
  let ?m = "msg\<lparr>lk_Timestamp := of_int now\<rparr>" and ?ls = "links_of cm (lk_APKH msg)"
  let ?new = "\<lparr>ld_Link = ?m, ld_Dirty = False\<rparr>"
  let ?P = "\<lambda>l. lk_BPKH (ld_Link l) = b \<and> lk_CoinType (ld_Link l) = coin"
  have sl: "same_link ?m = same_link msg" by (auto simp: same_link_def)
  have sn: "?P ?new \<longleftrightarrow> b = lk_BPKH msg \<and> coin = lk_CoinType msg" by auto
  show ?thesis
  proof (cases "find_idx (same_link msg) ?ls")
    case None
    then have "cm' = put_links (lk_APKH msg) (?ls @ [?new]) cm" using assms by (simp add: LinkMsgHandler_def Let_def sl)
    moreover have "find ?P ?ls = None" if "b = lk_BPKH msg" "coin = lk_CoinType msg"
      using None that by (auto simp: find_idx_None find_None_iff same_link_def)
    ultimately show ?thesis
      by (auto simp: seq_of_def links_put find_append split: option.splits)
  next
    case (Some i)
    note i = find_idx_Some [OF Some]
    show ?thesis
    proof (cases "lk_Seq msg \<le> lk_Seq (ld_Link (?ls ! i))")
      case True
      then have "cm' = cm" using assms Some by (simp add: LinkMsgHandler_def Let_def sl)
      then show ?thesis using seq_idx [of cm msg] Some True by (auto simp: max_def)
    next
      case False
      then have c: "cm' = put_links (lk_APKH msg) (?ls[i := ?new]) cm" using assms Some by (simp add: LinkMsgHandler_def Let_def sl)
      show ?thesis
      proof (cases "a = lk_APKH msg \<and> b = lk_BPKH msg \<and> coin = lk_CoinType msg")
        case True
        have "find_idx (same_link msg) (?ls[i := ?new]) = Some i"
          by (rule find_idx_update [OF Some]) (simp add: same_link_def)
        then have "seq_of cm' (lk_APKH msg) (lk_BPKH msg) (lk_CoinType msg) = Some (lk_Seq msg)"
          using seq_idx [of cm' msg] i by (simp add: c links_put)
        moreover have "lk_Seq (ld_Link (?ls ! i)) \<le> lk_Seq msg" using False by simp
        ultimately show ?thesis using True seq_idx [of cm msg] Some by (simp add: max_def)
      next
        case other: False
        have "find ?P (?ls[i := ?new]) = find ?P ?ls" if "a = lk_APKH msg"
          using other that i by (intro find_update_other) (auto simp: same_link_def)
        then show ?thesis using other by (auto simp: seq_of_def c links_put)
      qed
    qed
  qed
qed

text \<open>The number of a link never falls: handling an advertisement raises it to the number of the message, if that is
  higher, and leaves the numbers of all other links as they are. The same advertisement, from whichever peer it comes
  again, changes nothing and is not sent on, so that it floods through a node once.\<close>

theorem adverts_flood_once:
  assumes "LinkMsgHandler now peers msg cm = (cm', out)"
  shows "seq_of cm' a b coin = (if a = lk_APKH msg \<and> b = lk_BPKH msg \<and> coin = lk_CoinType msg
      then Some (case seq_of cm a b coin of None \<Rightarrow> lk_Seq msg | Some n \<Rightarrow> max n (lk_Seq msg)) else seq_of cm a b coin) \<and>
    LinkMsgHandler now' peers' (msg\<lparr>lk_PeerIdx := p\<rparr>) cm' = (cm', [])"
proof
  note seq = handler_seq [OF assms]
  show "seq_of cm' a b coin = (if a = lk_APKH msg \<and> b = lk_BPKH msg \<and> coin = lk_CoinType msg
      then Some (case seq_of cm a b coin of None \<Rightarrow> lk_Seq msg | Some n \<Rightarrow> max n (lk_Seq msg)) else seq_of cm a b coin)"
    by (rule seq)
  let ?m = "msg\<lparr>lk_PeerIdx := p, lk_Timestamp := of_int now'\<rparr>"
  obtain n where n: "seq_of cm' (lk_APKH ?m) (lk_BPKH ?m) (lk_CoinType ?m) = Some n" "lk_Seq msg \<le> n"
    using seq [of "lk_APKH msg" "lk_BPKH msg" "lk_CoinType msg"] by (auto split: option.splits)
  then obtain i where "find_idx (same_link ?m) (links_of cm' (lk_APKH ?m)) = Some i"
    "n = lk_Seq (ld_Link (links_of cm' (lk_APKH ?m) ! i))"
    using seq_idx [of cm' ?m] by (auto split: option.splits)
  then show "LinkMsgHandler now' peers' (msg\<lparr>lk_PeerIdx := p\<rparr>) cm' = (cm', [])"
    using n(2) by (simp add: LinkMsgHandler_def Let_def)
qed

section \<open>Examples\<close>

lemma toy_route_env_ok: "permutes_vertices toy_route_env" "exact (re_floats toy_route_env)"
  by (simp_all add: permutes_vertices_def toy_route_env_def exact_def toy_floats_def)

theorem path_found_is_links_witness: "path_ok toy_map [toy_hop 1 1, toy_hop 2 3, toy_hop 3 2, toy_hop 4 2]"
proof -
  have "FindPath toy_route_env toy_map (toy_pkh 4) 2 1 2000000 = Some (Inr [toy_hop 1 1, toy_hop 2 3, toy_hop 3 2, toy_hop 4 2])"
    by code_simp
  from path_found_is_links [OF toy_route_env_ok(1) this] show ?thesis by blast
qed

text \<open>An arithmetic that keeps three significant bits of a number and drops the others.\<close>

function keep3 :: "int \<Rightarrow> int" where
  "keep3 a = (if a < 8 then a else 2 * keep3 (a div 2))"
  by auto
termination by (relation "measure nat") auto

declare keep3.simps [simp del]

definition round3 :: "int \<Rightarrow> 16 word" where "round3 x = of_int (sgn x * keep3 \<bar>x\<bar>)"

definition rounded_floats :: "16 word floats" where
  "rounded_floats = \<lparr>fl_add = (\<lambda>a b. round3 (sint a + sint b)), fl_sub = (\<lambda>a b. round3 (sint a - sint b)),
     fl_less = (\<lambda>a b. sint a < sint b), fl_zero = 0, fl_max = 1024,
     fl_weight = (\<lambda>rd. if rd_Reciprocal rd then 8 else if rd_Rate rd = 2 then - 5 else 0)\<rparr>"

definition rounded_env :: "16 word route_env" where
  "rounded_env = \<lparr>re_floats = rounded_floats, re_me = toy_pkh 1, re_fee = (\<lambda>coin. Some 80), re_order = (\<lambda>vs. vs)\<rparr>"

text \<open>A ring of three nodes that takes a coin for two, two and a quarter of a unit: no profit, but a loss of the sum to rounding.\<close>

definition ring_link :: "byte \<Rightarrow> byte \<Rightarrow> u64 \<Rightarrow> bool \<Rightarrow> link_desc" where
  "ring_link a b rate recip =
     \<lparr>ld_Link = \<lparr>lk_PeerIdx = 1, lk_APKH = toy_pkh a, lk_ACapacity = 9000000, lk_BPKH = toy_pkh b, lk_CoinType = 1, lk_Seq = 1,
        lk_Timestamp = 0, lk_Rates = [\<lparr>rd_CoinType = 1, rd_Rate = rate, rd_Reciprocal = recip\<rparr>]\<rparr>, ld_Dirty = False\<rparr>"

definition ring_map :: chan_map where
  "ring_map = [(toy_pkh 1, [ring_link 1 2 4 True]), (toy_pkh 2, [ring_link 2 3 2 False]), (toy_pkh 3, [ring_link 3 1 2 False])]"

abbreviation ring_edges :: "(16 word, vertex) edge list" where
  "ring_edges \<equiv> all_edges rounded_floats ring_map"

lemma ring_reweight: "\<exists>es. reweight rounded_floats 6 (map (light (vertex_set ring_edges)) ring_edges) = Inr es \<and>
  (case search_loop rounded_floats (\<lambda>i. Some 80) es (search_init rounded_floats 6 3 2000000) of None \<Rightarrow> False
   | Some (Inl e) \<Rightarrow> False
   | Some (Inr s) \<Rightarrow> se_Pred s = [Some 3, Some 3, Some 1, Some 4, Some 1, Some 4] \<and> se_Dist s ! 2 \<noteq> None)"
proof -
  have "case reweight rounded_floats 6 (map (light (vertex_set ring_edges)) ring_edges) of Inl e \<Rightarrow> False
    | Inr es \<Rightarrow> (case search_loop rounded_floats (\<lambda>i. Some 80) es (search_init rounded_floats 6 3 2000000) of None \<Rightarrow> False
     | Some (Inl e) \<Rightarrow> False
     | Some (Inr s) \<Rightarrow> se_Pred s = [Some 3, Some 3, Some 1, Some 4, Some 1, Some 4] \<and> se_Dist s ! 2 \<noteq> None)"
    by code_simp
  then show ?thesis by (cases "reweight rounded_floats 6 (map (light (vertex_set ring_edges)) ring_edges)") auto
qed

text \<open>With rounding FindPath may not return: in the ring the predecessors form a cycle through the node itself. With float64
  the rates 22, 8 and 1/176 leave such a reweighted cycle below zero.\<close>

theorem path_search_returns_witness: "FindPath rounded_env ring_map (toy_pkh 3) 1 1 2000000 = None"
proof -
  let ?vs = "vertex_set ring_edges" and ?pred = "[Some 3, Some 3, Some 1, Some 4, Some 1, Some 4]"
  obtain es where es: "reweight rounded_floats 6 (map (light ?vs) ring_edges) = Inr es"
    "case search_loop rounded_floats (\<lambda>i. Some 80) es (search_init rounded_floats 6 3 2000000) of None \<Rightarrow> False
     | Some (Inl e) \<Rightarrow> False | Some (Inr s) \<Rightarrow> se_Pred s = ?pred \<and> se_Dist s ! 2 \<noteq> None"
    using ring_reweight by blast
  then obtain s where s: "search_loop rounded_floats (\<lambda>i. Some 80) es (search_init rounded_floats 6 3 2000000) = Some (Inr s)"
    "se_Pred s = ?pred" "se_Dist s ! 2 \<noteq> None" by (auto split: option.splits sum.splits)
  have e: "re_floats rounded_env = rounded_floats" "re_order rounded_env = (\<lambda>vs. vs)" "re_me rounded_env = toy_pkh 1" "re_fee rounded_env = (\<lambda>coin. Some 80)"
    by (simp_all add: rounded_env_def)
  have i: "length ?vs = 6"
    "find_idx (\<lambda>v. v = \<lparr>vx_Node = toy_pkh 1, vx_CoinType = 1, vx_Terminus = False\<rparr>) ?vs = Some 3"
    "find_idx (\<lambda>v. v = \<lparr>vx_Node = toy_pkh 3, vx_CoinType = 1, vx_Terminus = True\<rparr>) ?vs = Some 2"
    by code_simp+
  have d: "search_done rounded_env ring_map (toy_pkh 3) 1 1 2000000 6 2 s"
    unfolding search_done_def e
    by (rule exI [of _ ?vs], rule exI [of _ 3], rule exI [of _ es]) (simp add: i es(1) s(1) del: One_nat_def)
  have p: "(3, 1) \<in> preds 6 s" "(1, 4) \<in> preds 6 s" "(4, 3) \<in> preds 6 s" "(1, 2) \<in> preds 6 s"
    by (simp_all add: preds_def s(2))
  then have "(1, 1) \<in> (preds 6 s)\<^sup>+" by (meson trancl.simps)
  moreover have "(1, 2) \<in> (preds 6 s)\<^sup>*" using p(4) by blast
  moreover have "strict_less (re_floats rounded_env)"
    by (auto simp: e strict_less_def rounded_floats_def irreflp_def transp_def)
  moreover have "permutes_vertices rounded_env" by (simp add: e permutes_vertices_def)
  ultimately show ?thesis using d s(3) path_search_returns [of rounded_env ring_map "toy_pkh 3" 1 1 2000000] by blast
qed

theorem path_search_ends_witness: "\<exists>r. FindPath toy_route_env toy_map (toy_pkh 4) 2 1 7 = Some r"
  by (rule path_search_ends [OF toy_route_env_ok(2,1)])

theorem two_adverts_stop_routing_witness:
  "\<exists>e. FindPath toy_route_env (fst (LinkMsgHandler 5 [] (profit_link 9 0 (toy_pkh 8) (toy_pkh 7))
     (fst (LinkMsgHandler 5 [] (profit_link 9 0 (toy_pkh 7) (toy_pkh 8)) toy_map)))) (toy_pkh 4) 2 1 2000000 = Some (Inl e)"
  by (rule two_adverts_stop_routing [OF toy_route_env_ok(2) _ _ _ _ refl refl])
    (simp_all add: toy_route_env_def toy_floats_def profit_rate_def toy_map_def toy_pkh_def)

definition toy_zero_map :: chan_map where
  "toy_zero_map = [(toy_pkh 1, [toy_link 1 2 1 9000000 []]),
     (toy_pkh 2, [\<lparr>ld_Link = (ld_Link (toy_link 2 3 3 1 []))\<lparr>lk_Rates := [\<lparr>rd_CoinType = 1, rd_Rate = 0, rd_Reciprocal = True\<rparr>]\<rparr>, ld_Dirty = False\<rparr>])]"

theorem zero_rate_panics_witness: "FindPath toy_route_env toy_zero_map (toy_pkh 2) 1 1 2000000 = Some (Inl Panic)"
proof (rule zero_rate_panics [OF toy_route_env_ok(1), where f = 80])
  let ?e = "\<lparr>ed_W = 1, ed_U = \<lparr>vx_Node = toy_pkh 1, vx_CoinType = 1, vx_Terminus = False\<rparr>,
    ed_V = \<lparr>vx_Node = toy_pkh 2, vx_CoinType = 3, vx_Terminus = False\<rparr>, ed_Rate = \<lparr>rd_CoinType = 1, rd_Rate = 0, rd_Reciprocal = True\<rparr>,
    ed_Capacity = 9000000\<rparr>"
  show "?e \<in> set (all_edges (re_floats toy_route_env) toy_zero_map)" by code_simp
  show "advertised toy_zero_map (ld_Link (toy_link 1 2 1 9000000 []))" unfolding advertised_def toy_zero_map_def
    by (rule exI [of _ "toy_pkh 1"], rule exI [of _ "[toy_link 1 2 1 9000000 []]"]) simp
  show "FindPath toy_route_env toy_zero_map (toy_pkh 2) 1 1 2000000 \<noteq> Some (Inl Mismatch)" by code_simp
  show "i64 (MinOutput + i64 (80 * 1000)) \<le> 2000000" by code_simp
qed (simp_all add: toy_route_env_def toy_link_def)

theorem adverts_flood_once_witness:
  "LinkMsgHandler 6 [1, 2] (profit_link 3 0 (toy_pkh 7) (toy_pkh 8))
     (fst (LinkMsgHandler 5 [1, 2] (profit_link 9 0 (toy_pkh 7) (toy_pkh 8)) toy_map)) =
   (fst (LinkMsgHandler 5 [1, 2] (profit_link 9 0 (toy_pkh 7) (toy_pkh 8)) toy_map), [])"
  using adverts_flood_once [OF prod.collapse [symmetric], where now' = 6 and peers' = "[1, 2]" and p = 3 and now = 5 and peers = "[1, 2]" and
      msg = "profit_link 9 0 (toy_pkh 7) (toy_pkh 8)" and cm = toy_map]
  by (simp add: profit_link_def)

end
