(* ===== verification/Forwarding.thy ===== *)
theory Forwarding
  imports Multihop Routes
begin

text \<open>
  What forwarding promises and what it misses. An offer to the next hop is covered by an HTLC that was offered to this
  node: same hash, the exchanged amount, and a locktime that leaves 500 blocks to claim. The check of the locktime
  wraps around, the check for an earlier offer depends on the order of the channels, and a path without this
  node is a nil pointer.
\<close>

section \<open>Lemmas\<close>

definition open_in :: "htlc \<Rightarrow> bool" where
  "open_in h \<longleftrightarrow> ht_Incoming h \<and> \<not> ht_Cleared h \<and> \<not> ht_Clearing h \<and> \<not> ht_ClearedOnChain h"

definition open_out :: "htlc \<Rightarrow> bool" where "open_out h \<longleftrightarrow> \<not> ht_Incoming h \<and> \<not> ht_Cleared h \<and> \<not> ht_ClearedOnChain h"

abbreviation htlcs_of :: "'w hop_env \<Rightarrow> lit_node \<Rightarrow> pay_setup_msg \<Rightarrow> (htlc \<times> qchan) list" where
  "htlcs_of he nd msg \<equiv> FindHTLCsByHash (he_ev he) nd (he_keys he) (mp_HHash msg)"

lemma find_incoming_step:
  "find_incoming inc ((h, ch) # hs) =
     (if open_in h then
        case inc of None \<Rightarrow> Inl Panic
        | Some i \<Rightarrow> if Qchan_Coin ch = rh_CoinType i then Inr h else find_incoming inc hs
      else if open_out h then Inl Mismatch else find_incoming inc hs)"
  by (auto simp: open_in_def open_out_def Let_def split: option.splits)

declare find_incoming.simps(2) [simp del]

lemma find_incoming_skip:
  "\<forall>(h, ch)\<in>set pre. \<not> open_in h \<and> \<not> open_out h \<Longrightarrow> find_incoming inc (pre @ hs) = find_incoming inc hs"
  by (induction pre) (auto simp: find_incoming_step)

lemma find_incoming_append: "find_incoming inc hs = Inr h \<Longrightarrow> find_incoming inc (hs @ hs2) = Inr h"
  by (induction hs) (auto simp: find_incoming_step split: if_splits option.splits)

lemma find_incoming_ok:
  "find_incoming (Some i) hs = Inr h \<Longrightarrow> \<exists>ch. (h, ch) \<in> set hs \<and> open_in h \<and> Qchan_Coin ch = rh_CoinType i"
  by (induction hs) (auto simp: find_incoming_step split: if_splits)

lemma htlc_hash: "(h, ch) \<in> set (FindHTLCsByHash ev nd keys hash) \<Longrightarrow> ht_RHash h = hash"
  by (auto simp: FindHTLCsByHash_def)

lemma my_place_ok:
  assumes "my_place me path = Inr (Some (a, b, c))"
  shows "\<exists>i. Suc i < length path \<and> a = path ! i \<and> b = path ! Suc i \<and> rh_Node b = me"
proof -
  obtain i where i: "find_idx (\<lambda>h. rh_Node h = me) path = Some i" "i \<noteq> 0" "a = path ! (i - 1)" "b = path ! i"
    using assms by (auto simp: my_place_def split: option.splits if_splits)
  note f = find_idx_Some [OF i(1)]
  show ?thesis using i f by (intro exI [of _ "i - 1"]) auto
qed

text \<open>Marking links leaves what is advertised as it is.\<close>

lemma links_mark: "map ld_Link (links_of (mark_dirty hop cm) pkh) = map ld_Link (links_of cm pkh)"
  by (auto simp: mark_dirty_def Let_def links_put map_update split: option.splits)
    (metis find_idx_Some list_update_id map_update nth_map)

lemma exchange_links:
  "exchange cm me inc ours amt = (if inc = ours then Inr amt
      else case find (\<lambda>r. rd_CoinType r = inc \<and> 0 < sint (rd_Rate r))
          (case find (\<lambda>l. lk_CoinType l = ours) (map ld_Link (links_of cm me)) of None \<Rightarrow> [] | Some l \<Rightarrow> lk_Rates l) of
        None \<Rightarrow> Inl OutOfRange
      | Some rd \<Rightarrow> if rd_Reciprocal rd then Inr (i64 (amt sdiv sint (rd_Rate rd))) else Inr (i64 (amt * sint (rd_Rate rd))))"
proof -
  have "find (\<lambda>l. lk_CoinType l = ours) (map ld_Link ls) = map_option ld_Link (find (\<lambda>l. lk_CoinType (ld_Link l) = ours) ls)" for ls
    by (induction ls) auto
  note find_map = this
  show ?thesis
    unfolding exchange_def Let_def find_map
    by (cases "find (\<lambda>l. lk_CoinType (ld_Link l) = ours) (links_of cm me)") simp_all
qed

lemma exchange_mark: "exchange (fold mark_dirty hops cm) me inc ours amt = exchange cm me inc ours amt"
proof -
  have "map ld_Link (links_of (fold mark_dirty hops cm) me) = map ld_Link (links_of cm me)"
    by (induction hops arbitrary: cm) (simp_all add: links_mark)
  then show ?thesis unfolding exchange_links by simp
qed

text \<open>The shape of a successful forwarding.\<close>

definition pending_payment :: "pay_setup_msg \<Rightarrow> in_flight" where
  "pending_payment msg =
     \<lparr>mu_Path = mp_NodeRoute msg, mu_Amt = 0, mu_HHash = mp_HHash msg, mu_PreImage = replicate 16 0, mu_Succeeded = False\<rparr>"

lemma forward_ok:
  assumes "forward he nd cm msg h inc ours nxt = (nd', Some r, e)"
  obtains w w' idx amt qcs qc where
    "ev_wallet (he_ev he) (rh_CoinType inc) = Some w" "ev_wallet (he_ev he) (rh_CoinType ours) = Some w'"
    "of_int (i32 (wl_Height w + 500)) \<le> ht_Locktime h - DefaultLockTime"
    "nd' = SaveMultihopPayment (add_in_flight nd (pending_payment msg)) (pending_payment msg)"
    "connect he (Encode (str ''ln'') (rh_Node nxt)) = None"
    "FindPeerIndexByAddress (he_uc he) (he_GetPeer2 he) (Encode (str ''ln'') (rh_Node nxt)) = Inr idx"
    "exchange cm (he_me he) (rh_CoinType inc) (rh_CoinType ours) (ht_Amt h) = Inr amt"
    "i64 (MinOutput + i64 (wl_Fee w' * 1000)) \<le> amt" "he_QCs he idx = Some qcs"
    "find (carries (rh_CoinType ours) (i64 (wl_Fee w' * 1000)) amt) qcs = Some qc" "e = None"
    "r = \<lparr>of_Chan = qc, of_Amt = of_int amt, of_Hash = mp_HHash msg,
        of_Locktime = new_locktime (ht_Locktime h) (of_int (wl_Height w)) (of_int (wl_Height w')),
        of_Setup = msg\<lparr>mp_PeerIdx := idx, mp_NodeRoute := tl (mp_NodeRoute msg)\<rparr>, of_Dirty = mp_NodeRoute msg\<rparr>"
  using assms by (auto simp: forward_def Let_def pending_payment_def not_less split: option.splits if_splits sum.splits)

lemma setup_ok:
  assumes "MultihopPaymentSetupHandler he nd cm msg = (nd', Some (Offer r), e)"
  obtains inc ours nxt h where
    "my_place (he_me he) (mp_NodeRoute msg) = Inr (Some (inc, ours, Some nxt))"
    "find_incoming (Some inc) (htlcs_of he nd msg) = Inr h"
    "known_preimage (ev_crypto (he_ev he)) (mp_HHash msg) (rh_CoinType inc) (nd_InProgMultihop nd) = None"
    "forward he nd cm msg h inc ours nxt = (nd', Some r, e)"
  using assms
  by (auto simp: MultihopPaymentSetupHandler_def split: option.splits sum.splits prod.splits)

section \<open>Offers are covered\<close>

lemma locktime_room:
  fixes l h :: u32
  assumes "500 \<le> uint l" "uint h + 500 \<le> uint (l - 500)"
  shows "uint (new_locktime l h h) + 500 \<le> uint l" "uint h + 500 \<le> uint (new_locktime l h h)"
proof -
  have l: "uint (l - 500) = uint l - 500" using assms(1) uint_sub_lem [of 500 l] by simp
  have x: "uint (l - h) = uint l - uint h" using assms l uint_sub_lem [of h l] by simp
  define k where "k = (uint l - uint h) div 500"
  have k: "2 \<le> k" "500 * k \<le> uint l - uint h" "uint l - uint h < 500 * k + 500" using assms l unfolding k_def by linarith+
  have b: "uint l < 4294967296" using uint_bounded [of l] by simp
  have "uint ((l - h) div 500) = k" by (simp add: uint_div x k_def)
  then have q: "(l - h) div 500 = of_int k" by (metis word_of_int_uint)
  have "new_locktime l h h = of_int ((k - 1) * 500 + uint h)"
    by (simp add: new_locktime_def DefaultLockTime_def q)
  then have "uint (new_locktime l h h) = ((k - 1) * 500 + uint h) mod 2 ^ LENGTH(32)"
    by (simp only: uint_word_of_int)
  then have "uint (new_locktime l h h) = ((k - 1) * 500 + uint h) mod 4294967296" by simp
  moreover have "0 \<le> (k - 1) * 500 + uint h" "(k - 1) * 500 + uint h < 4294967296" using k b uint_nonnegative [of h] by (simp_all add: left_diff_distrib)
  ultimately have "uint (new_locktime l h h) = (k - 1) * 500 + uint h" by simp
  then show "uint (new_locktime l h h) + 500 \<le> uint l" "uint h + 500 \<le> uint (new_locktime l h h)"
    using k by (simp_all add: left_diff_distrib)
qed

text \<open>C9: An offer that a payment setup message brings about is covered: the node was offered an HTLC with the same hash, in
  the coin of the hop before it on the path, that is neither cleared nor being cleared. The offer goes to a channel in the
  coin of its own hop for the amount of that HTLC, at the exchange rate it advertises, and keeps a reserve of 100000 satoshi
  and a fee. Within one coin the amount is the same; and there, if the HTLC has a locktime of at least 500 and the height of the
  chain is not negative and more than 500 below 2^31, the next hop has at least 500 blocks, and so has this node after it. For
  two coins, or a locktime below 500 (\<open>expired_htlc_forwarded\<close>), nothing is said of the locktimes.\<close>

theorem offer_covered:
  assumes "MultihopPaymentSetupHandler he nd cm msg = (nd', Some (Offer r), err)"
  shows "err = None \<and> (\<exists>i h ch amt. Suc i < length (mp_NodeRoute msg) \<and> rh_Node (mp_NodeRoute msg ! Suc i) = he_me he \<and>
    (h, ch) \<in> set (htlcs_of he nd msg) \<and> open_in h \<and> ht_RHash h = of_Hash r \<and> of_Hash r = mp_HHash msg \<and>
    Qchan_Coin ch = rh_CoinType (mp_NodeRoute msg ! i) \<and> Qchan_Coin (of_Chan r) = rh_CoinType (mp_NodeRoute msg ! Suc i) \<and>
    exchange cm (he_me he) (Qchan_Coin ch) (Qchan_Coin (of_Chan r)) (ht_Amt h) = Inr amt \<and> of_Amt r = of_int amt \<and>
    (\<exists>w. ev_wallet (he_ev he) (Qchan_Coin (of_Chan r)) = Some w \<and> i64 (MinOutput + i64 (wl_Fee w * 1000)) \<le> amt \<and>
       carries (Qchan_Coin (of_Chan r)) (i64 (wl_Fee w * 1000)) amt (of_Chan r)) \<and>
    (Qchan_Coin ch = Qchan_Coin (of_Chan r) \<longrightarrow> amt = ht_Amt h \<and>
       (\<forall>w. ev_wallet (he_ev he) (Qchan_Coin ch) = Some w \<longrightarrow> 0 \<le> wl_Height w \<longrightarrow> wl_Height w + 500 < 2 ^ 31 \<longrightarrow>
          500 \<le> uint (ht_Locktime h) \<longrightarrow>
          wl_Height w + 500 \<le> uint (of_Locktime r) \<and> uint (of_Locktime r) + 500 \<le> uint (ht_Locktime h))))"
proof -
  obtain inc ours nxt h where s: "my_place (he_me he) (mp_NodeRoute msg) = Inr (Some (inc, ours, Some nxt))"
    "find_incoming (Some inc) (htlcs_of he nd msg) = Inr h" "forward he nd cm msg h inc ours nxt = (nd', Some r, err)"
    using setup_ok [OF assms] by metis
  obtain w w' idx amt qcs qc where f: "ev_wallet (he_ev he) (rh_CoinType inc) = Some w"
    "ev_wallet (he_ev he) (rh_CoinType ours) = Some w'" "of_int (i32 (wl_Height w + 500)) \<le> ht_Locktime h - DefaultLockTime"
    "exchange cm (he_me he) (rh_CoinType inc) (rh_CoinType ours) (ht_Amt h) = Inr amt"
    "i64 (MinOutput + i64 (wl_Fee w' * 1000)) \<le> amt"
    "find (carries (rh_CoinType ours) (i64 (wl_Fee w' * 1000)) amt) qcs = Some qc" "err = None"
    "r = \<lparr>of_Chan = qc, of_Amt = of_int amt, of_Hash = mp_HHash msg,
        of_Locktime = new_locktime (ht_Locktime h) (of_int (wl_Height w)) (of_int (wl_Height w')),
        of_Setup = msg\<lparr>mp_PeerIdx := idx, mp_NodeRoute := tl (mp_NodeRoute msg)\<rparr>, of_Dirty = mp_NodeRoute msg\<rparr>"
    by (rule forward_ok [OF s(3)])
  obtain i where i: "Suc i < length (mp_NodeRoute msg)" "inc = mp_NodeRoute msg ! i" "ours = mp_NodeRoute msg ! Suc i"
    "rh_Node ours = he_me he"
    using my_place_ok [OF s(1)] by blast
  obtain ch where ch: "(h, ch) \<in> set (htlcs_of he nd msg)" "open_in h" "Qchan_Coin ch = rh_CoinType inc"
    using find_incoming_ok [OF s(2)] by blast
  have c: "carries (rh_CoinType ours) (i64 (wl_Fee w' * 1000)) amt qc" using f(6) by (auto simp: find_Some_iff)
  then have coin: "Qchan_Coin qc = rh_CoinType ours" by (simp add: carries_def)
  have same: "amt = ht_Amt h \<and> (0 \<le> wl_Height w \<longrightarrow> wl_Height w + 500 < 2 ^ 31 \<longrightarrow> 500 \<le> uint (ht_Locktime h) \<longrightarrow>
      wl_Height w + 500 \<le> uint (of_Locktime r) \<and> uint (of_Locktime r) + 500 \<le> uint (ht_Locktime h))"
    if eq: "rh_CoinType inc = rh_CoinType ours"
  proof (intro conjI impI)
    show "amt = ht_Amt h" using f(4) eq by (simp add: exchange_def)
    assume h: "0 \<le> wl_Height w" "wl_Height w + 500 < 2 ^ 31" "500 \<le> uint (ht_Locktime h)"
    have "w' = w" using f(1,2) eq by simp
    have n: "uint (of_int k :: u32) = k" if "0 \<le> k" "k < 2 ^ 32" for k using that by (simp add: uint_word_of_int)
    have u: "uint (of_int (wl_Height w) :: u32) = wl_Height w" using h by (intro n) simp_all
    have "i32 (wl_Height w + 500) = wl_Height w + 500" using h by (simp add: i32_id)
    then have "uint (of_int (wl_Height w + 500) :: u32) \<le> uint (ht_Locktime h - DefaultLockTime)"
      using f(3) by (simp add: word_le_def)
    moreover have "uint (of_int (wl_Height w + 500) :: u32) = wl_Height w + 500" using h by (intro n) simp_all
    ultimately have "uint (of_int (wl_Height w) :: u32) + 500 \<le> uint (ht_Locktime h - 500)"
      unfolding u by (simp add: DefaultLockTime_def)
    from locktime_room [OF h(3) this]
    show "wl_Height w + 500 \<le> uint (of_Locktime r)" "uint (of_Locktime r) + 500 \<le> uint (ht_Locktime h)"
      using u by (simp_all add: f(8) \<open>w' = w\<close>)
  qed
  show ?thesis
    using i ch f c coin same htlc_hash [OF ch(1)]
    by (intro conjI, simp, intro exI [of _ i] exI [of _ h] exI [of _ ch] exI [of _ amt] conjI) auto
qed

section \<open>The check of the locktime wraps around\<close>

lemma locktime_wraps:
  fixes l h :: u32
  assumes "uint l < 500" "uint l < uint h" "uint h < 2 ^ 31"
  shows "2 ^ 32 - 1000 + uint l < uint (new_locktime l h h)"
proof -
  have x: "uint (l - h) = uint l - uint h + 4294967296"
    using assms uint_sub_lem [of h l] uint_nonnegative [of l] by (subst uint_sub_if') simp
  define k where "k = (uint l - uint h + 4294967296) div 500"
  have h: "uint h < 2147483648" using assms(3) by simp
  have k: "500 * k \<le> uint l - uint h + 4294967296" "uint l - uint h + 4294967296 < 500 * k + 500"
    unfolding k_def by linarith+
  then have "1 \<le> k" using h uint_nonnegative [of l] by linarith
  note k = k this
  have "uint ((l - h) div 500) = k" by (simp add: uint_div x k_def)
  then have q: "(l - h) div 500 = of_int k" by (metis word_of_int_uint)
  have "new_locktime l h h = of_int ((k - 1) * 500 + uint h)"
    by (simp add: new_locktime_def DefaultLockTime_def q)
  then have "uint (new_locktime l h h) = ((k - 1) * 500 + uint h) mod 2 ^ LENGTH(32)"
    by (simp only: uint_word_of_int)
  then have "uint (new_locktime l h h) = ((k - 1) * 500 + uint h) mod 4294967296" by simp
  moreover have "0 \<le> (k - 1) * 500 + uint h" "(k - 1) * 500 + uint h < 4294967296"
    using k h uint_nonnegative [of h] assms(1,2) by (simp_all add: left_diff_distrib)
  ultimately have "uint (new_locktime l h h) = (k - 1) * 500 + uint h" by simp
  then show ?thesis using k assms by simp
qed

text \<open>An HTLC whose locktime is below 500 has expired at any later height, but the check that it leaves enough blocks is
  made after a subtraction that wraps around: within one coin every offer made for it has a locktime close to the largest
  number. The hop before can take its payment back at once, while the one to the next hop is bound.\<close>

theorem expired_htlc_forwarded:
  assumes "forward he nd cm msg h inc ours nxt = (nd', Some r, e)" "rh_CoinType inc = rh_CoinType ours"
    and "ev_wallet (he_ev he) (rh_CoinType ours) = Some w" "uint (ht_Locktime h) < wl_Height w" "wl_Height w < 2 ^ 31"
    and "uint (ht_Locktime h) < 500"
  shows "2 ^ 32 - 1000 + uint (ht_Locktime h) < uint (of_Locktime r)"
proof -
  have w: "of_Locktime r = new_locktime (ht_Locktime h) (of_int (wl_Height w)) (of_int (wl_Height w))"
    using assms(2,3) by (rule_tac forward_ok [OF assms(1)]) simp
  have "0 \<le> wl_Height w" using assms(4) uint_nonnegative [of "ht_Locktime h"] by linarith
  then have "uint (of_int (wl_Height w) :: u32) = wl_Height w" using assms(5) by (simp add: uint_word_of_int)
  then show ?thesis unfolding w using assms(4-6) by (intro locktime_wraps) simp_all
qed

section \<open>A setup message that comes again\<close>

lemma known_preimage_append:
  "known_preimage cr hh coin (mhs @ [pending_payment msg]) = known_preimage cr hh coin mhs"
  by (simp add: known_preimage_def find_append pending_payment_def split: option.split)

lemma offered_amount:
  assumes "carries coin fee amt ch" "i64 (MinOutput + fee) \<le> amt" "0 \<le> fee" "fee < 2 ^ 40"
    and "0 \<le> st_MyAmt (q_State ch)" "st_MyAmt (q_State ch) < 2 ^ 32"
  shows "uint (of_int amt :: u32) = amt"
proof -
  have i: "i64 (i64 (st_MyAmt (q_State ch) - MinOutput) - fee) = st_MyAmt (q_State ch) - MinOutput - fee"
    "i64 (MinOutput + fee) = MinOutput + fee"
    using assms(3-6) by (simp_all add: i64_id MinOutput_def)
  then have "0 \<le> amt" "amt < 2 ^ 32" using assms by (simp_all add: carries_def MinOutput_def)
  then show ?thesis by (simp add: uint_word_of_int)
qed

text \<open>C10: A setup message that comes a second time is served a second time, when the incoming HTLC comes before the outgoing ones
  in the order of the channels and the next hop has a channel that carries the amount again: the node offers the same
  amount for the same hash once more, and only one HTLC covers both offers.\<close>

theorem setup_served_twice:
  assumes "MultihopPaymentSetupHandler he nd cm msg = (nd', Some (Offer r), e)"
    and "htlcs_of he nd2 msg = htlcs_of he nd msg @ offered" "nd_InProgMultihop nd2 = nd_InProgMultihop nd'"
    and "cm2 = fst (finish_offer (he_ev he) cm r None)"
    and "ev_wallet (he_ev he) (Qchan_Coin (of_Chan r)) = Some w" "0 \<le> wl_Fee w" "wl_Fee w < 2 ^ 30"
    and "0 \<le> st_MyAmt (q_State (of_Chan r))" "st_MyAmt (q_State (of_Chan r)) < 2 ^ 32"
    and "qcs (mp_PeerIdx (of_Setup r)) = Some chans"
    and "list_ex (carries (Qchan_Coin (of_Chan r)) (wl_Fee w * 1000) (uint (of_Amt r))) chans"
  shows "\<exists>nd3 r2. MultihopPaymentSetupHandler (he\<lparr>he_QCs := qcs\<rparr>) nd2 cm2 msg = (nd3, Some (Offer r2), None) \<and>
    of_Hash r2 = of_Hash r \<and> of_Amt r2 = of_Amt r \<and> mp_PeerIdx (of_Setup r2) = mp_PeerIdx (of_Setup r)"
proof -
  obtain inc ours nxt h where s: "my_place (he_me he) (mp_NodeRoute msg) = Inr (Some (inc, ours, Some nxt))"
    "find_incoming (Some inc) (htlcs_of he nd msg) = Inr h"
    "known_preimage (ev_crypto (he_ev he)) (mp_HHash msg) (rh_CoinType inc) (nd_InProgMultihop nd) = None"
    "forward he nd cm msg h inc ours nxt = (nd', Some r, e)"
    by (rule setup_ok [OF assms(1)])
  obtain v w' idx amt qs qc where f: "ev_wallet (he_ev he) (rh_CoinType inc) = Some v"
    "ev_wallet (he_ev he) (rh_CoinType ours) = Some w'" "of_int (i32 (wl_Height v + 500)) \<le> ht_Locktime h - DefaultLockTime"
    "nd' = SaveMultihopPayment (add_in_flight nd (pending_payment msg)) (pending_payment msg)"
    "connect he (Encode (str ''ln'') (rh_Node nxt)) = None"
    "FindPeerIndexByAddress (he_uc he) (he_GetPeer2 he) (Encode (str ''ln'') (rh_Node nxt)) = Inr idx"
    "exchange cm (he_me he) (rh_CoinType inc) (rh_CoinType ours) (ht_Amt h) = Inr amt"
    "i64 (MinOutput + i64 (wl_Fee w' * 1000)) \<le> amt"
    "find (carries (rh_CoinType ours) (i64 (wl_Fee w' * 1000)) amt) qs = Some qc"
    "r = \<lparr>of_Chan = qc, of_Amt = of_int amt, of_Hash = mp_HHash msg,
        of_Locktime = new_locktime (ht_Locktime h) (of_int (wl_Height v)) (of_int (wl_Height w')),
        of_Setup = msg\<lparr>mp_PeerIdx := idx, mp_NodeRoute := tl (mp_NodeRoute msg)\<rparr>, of_Dirty = mp_NodeRoute msg\<rparr>"
    by (rule forward_ok [OF s(4)])
  have c: "carries (rh_CoinType ours) (i64 (wl_Fee w' * 1000)) amt qc" using f(9) by (auto simp: find_Some_iff)
  then have coin: "Qchan_Coin (of_Chan r) = rh_CoinType ours" by (simp add: carries_def f(10))
  have w: "w' = w" using f(2) assms(5) by (simp add: coin)
  have fee: "i64 (wl_Fee w * 1000) = wl_Fee w * 1000" using assms(6,7) by (simp add: i64_id)
  have amt: "uint (of_Amt r) = amt"
    using offered_amount [OF c [unfolded w fee] f(8) [unfolded w fee]] assms(6-9) by (simp add: f(10))
  then have "find (carries (rh_CoinType ours) (wl_Fee w * 1000) amt) chans \<noteq> None"
    using assms(11) by (auto simp: find_None_iff list_ex_iff coin)
  then obtain qc2 where qc2: "find (carries (rh_CoinType ours) (wl_Fee w * 1000) amt) chans = Some qc2" by auto
  have inc: "find_incoming (Some inc) (htlcs_of he nd2 msg) = Inr h"
    unfolding assms(2) by (rule find_incoming_append [OF s(2)])
  have known: "known_preimage (ev_crypto (he_ev he)) (mp_HHash msg) (rh_CoinType inc) (nd_InProgMultihop nd2) = None"
    using s(3) by (simp add: assms(3) f(4) SaveMultihopPayment_def add_in_flight_def known_preimage_append)
  have ex: "exchange cm2 (he_me he) (rh_CoinType inc) (rh_CoinType ours) (ht_Amt h) = Inr amt"
    using f(7) by (simp add: assms(4) finish_offer_def exchange_mark)
  have conn: "connect (he\<lparr>he_QCs := qcs\<rparr>) a = connect he a" for a
    by (cases "FindPeerIndexByAddress (he_uc he) (he_GetPeer he) a") (simp_all add: connect_def)
  let ?r2 = "\<lparr>of_Chan = qc2, of_Amt = of_int amt, of_Hash = mp_HHash msg,
        of_Locktime = new_locktime (ht_Locktime h) (of_int (wl_Height v)) (of_int (wl_Height w')),
        of_Setup = msg\<lparr>mp_PeerIdx := idx, mp_NodeRoute := tl (mp_NodeRoute msg)\<rparr>, of_Dirty = mp_NodeRoute msg\<rparr>"
  have "\<exists>nd3. forward (he\<lparr>he_QCs := qcs\<rparr>) nd2 cm2 msg h inc ours nxt = (nd3, Some ?r2, None)"
    using f(1-3,5,6,8) ex assms(10) qc2
    by (simp add: forward_def Let_def conn w fee f(10) not_less)
  then show ?thesis
    using s(1) inc known by (auto simp: MultihopPaymentSetupHandler_def f(10))
qed

section \<open>A path without this node\<close>

text \<open>A setup message whose path does not lead through this node stops it when it has an HTLC with the hash that is offered
  to it and open, and none of its own offers before that: the hop before it is a nil pointer.\<close>

theorem path_without_node_panics:
  assumes "he_me he \<notin> rh_Node ` set (mp_NodeRoute msg)"
    and "htlcs_of he nd msg = before @ (h, ch) # after" "open_in h" "\<forall>(h, ch)\<in>set before. \<not> open_in h \<and> \<not> open_out h"
  shows "MultihopPaymentSetupHandler he nd cm msg = (nd, None, Some Panic)"
proof -
  have "find_idx (\<lambda>h. rh_Node h = he_me he) (mp_NodeRoute msg) = None"
    using assms(1) by (force simp: find_idx_None)
  then show ?thesis
    using assms(3) by (simp add: MultihopPaymentSetupHandler_def my_place_def assms(2) find_incoming_skip [OF assms(4)] find_incoming_step)
qed

section \<open>Examples\<close>

lemma find_encoded:
  "length a \<le> 20 \<Longrightarrow> FindPeerIndexByAddress uc peers (Encode (str ''ln'') a) =
     (case peers (Encode (str ''ln'') a) of None \<Rightarrow> Inl OutOfRange | Some i \<Rightarrow> Inr i)"
  using squashed_roundtrip [OF toy_hrp(1) five_8_5, of uc a]
  by (simp add: FindPeerIndexByAddress_def ParseLnAddr_def Decode_def Encode_def squash_5_8)

text \<open>Node 2 between node 1 and node 3, all in coin 1 and with one channel of each peer in the database.\<close>

definition toy_between :: "u32 \<Rightarrow> int hop_env" where
  "toy_between p = \<lparr>he_ev = toy_env 1, he_route = toy_route_env\<lparr>re_me := toy_pkh 2\<rparr>, he_uc = toy_uc, he_GetPeer = (\<lambda>a. Some p),
     he_Dial = (\<lambda>a. None), he_GetPeer2 = (\<lambda>a. Some p), he_QCs = (\<lambda>i. Some [toy_chan 1 3 3 600000 1000 []]),
     he_PeerKey = (\<lambda>i. replicate 33 3), he_rand = replicate 16 1, he_keys = [[1], [2]]\<rparr>"

definition toy_offered :: "u32 \<Rightarrow> htlc list \<Rightarrow> lit_node" where
  "toy_offered locktime hs = toy_node\<lparr>nd_Channels := (\<lambda>k. Some (NewChanDataFromQchan
     (if k = [1] then toy_chan 1 2 3 500000 1000 [toy_htlc 1 2 True locktime False] else toy_chan 1 3 3 600000 1000 hs)))\<rparr>"

definition toy_setup :: "byte list \<Rightarrow> pay_setup_msg" where
  "toy_setup nodes = \<lparr>mp_PeerIdx = 2, mp_HHash = replicate 32 9, mp_NodeRoute = map (\<lambda>n. toy_hop n 1) nodes, mp_Data = []\<rparr>"

lemmas toy_defs = toy_between_def toy_offered_def toy_setup_def toy_env_def toy_chan_def toy_htlc_def toy_node_def toy_hop_def
  NewChanDataFromQchan_def NewQchanFromChanData_def

lemma toy_htlcs:
  "htlcs_of (toy_between p) (toy_offered l hs) (toy_setup ns) =
     map (\<lambda>h. (h, NewQchanFromChanData (toy_env 1) (NewChanDataFromQchan (toy_chan 1 2 3 500000 1000 [toy_htlc 1 2 True l False]))))
       [toy_htlc 1 2 True l False] @
     map (\<lambda>h. (h, NewQchanFromChanData (toy_env 1) (NewChanDataFromQchan (toy_chan 1 3 3 600000 1000 hs))))
       (filter (\<lambda>h. ht_RHash h = replicate 32 9) hs)"
  by (simp add: FindHTLCsByHash_def GetAllQchans_def map_filter_def toy_defs)

lemma toy_wallet: "ev_wallet (toy_env 1) k = Some \<lparr>wl_TestCoin = True, wl_Fee = 10, wl_Height = 500\<rparr>"
  by (simp add: toy_env_def)

lemma toy_forward:
  assumes "1000 \<le> l - 500"
  shows "\<exists>nd' r. forward (toy_between 3) (toy_offered l []) toy_map (toy_setup [1, 2, 3]) (toy_htlc 1 2 True l False)
      (toy_hop 1 1) (toy_hop 2 1) (toy_hop 3 1) = (nd', Some r, None) \<and>
     of_Chan r = toy_chan 1 3 3 600000 1000 [] \<and> of_Hash r = replicate 32 9 \<and> of_Amt r = 200000 \<and> mp_PeerIdx (of_Setup r) = 3 \<and>
     nd_InProgMultihop nd' = [pending_payment (toy_setup [1, 2, 3])] \<and> of_Dirty r = map (\<lambda>n. toy_hop n 1) [1, 2, 3]"
proof -
  have "carries 1 10000 200000 (toy_chan 1 3 3 600000 1000 [])"
    by (simp add: carries_def Qchan_Coin_def toy_chan_def MinOutput_def i64_id)
  then show ?thesis
    using assms
    by (simp add: forward_def Let_def connect_def find_encoded toy_between_def toy_setup_def toy_wallet toy_hop_def toy_pkh_def
        exchange_def DefaultLockTime_def i32_id i64_id MinOutput_def toy_htlc_def not_less pending_payment_def
        SaveMultihopPayment_def add_in_flight_def toy_offered_def toy_node_def)
qed

lemma toy_forwarded:
  "\<exists>nd' r. MultihopPaymentSetupHandler (toy_between 3) (toy_offered l []) toy_map (toy_setup [1, 2, 3]) = (nd', Some (Offer r), None) \<and>
     of_Chan r = toy_chan 1 3 3 600000 1000 [] \<and> of_Hash r = replicate 32 9 \<and> of_Amt r = 200000 \<and> mp_PeerIdx (of_Setup r) = 3 \<and>
     nd_InProgMultihop nd' = [pending_payment (toy_setup [1, 2, 3])] \<and> of_Dirty r = map (\<lambda>n. toy_hop n 1) [1, 2, 3]"
  if "1000 \<le> l - 500"
proof -
  have place: "my_place (he_me (toy_between 3)) (mp_NodeRoute (toy_setup [1, 2, 3])) =
      Inr (Some (toy_hop 1 1, toy_hop 2 1, Some (toy_hop 3 1)))"
    by (simp add: my_place_def toy_between_def toy_setup_def toy_hop_def toy_pkh_def)
  have inc: "find_incoming (Some (toy_hop 1 1)) (htlcs_of (toy_between 3) (toy_offered l []) (toy_setup [1, 2, 3])) =
      Inr (toy_htlc 1 2 True l False)"
    by (simp add: toy_htlcs find_incoming_step open_in_def Qchan_Coin_def) (simp add: toy_defs)
  have known: "known_preimage (ev_crypto (he_ev (toy_between 3))) (mp_HHash (toy_setup [1, 2, 3])) 1 (nd_InProgMultihop (toy_offered l [])) = None"
    by (simp add: known_preimage_def toy_offered_def toy_node_def)
  have coin: "rh_CoinType (toy_hop 1 1) = 1" by (simp add: toy_hop_def)
  show ?thesis
    using toy_forward [OF that] inc known by (auto simp: MultihopPaymentSetupHandler_def place coin)
qed

theorem offer_covered_witness:
  "\<exists>r. (\<exists>nd'. MultihopPaymentSetupHandler (toy_between 3) (toy_offered 5000 []) toy_map (toy_setup [1, 2, 3]) = (nd', Some (Offer r), None)) \<and>
     (\<exists>h ch. (h, ch) \<in> set (htlcs_of (toy_between 3) (toy_offered 5000 []) (toy_setup [1, 2, 3])) \<and> open_in h \<and> ht_RHash h = of_Hash r)"
proof -
  obtain nd' r where r: "MultihopPaymentSetupHandler (toy_between 3) (toy_offered 5000 []) toy_map (toy_setup [1, 2, 3]) = (nd', Some (Offer r), None)"
    using toy_forwarded [of 5000] by auto
  from offer_covered [OF this] show ?thesis using r by blast
qed

theorem expired_htlc_forwarded_witness:
  "\<exists>nd' r. forward (toy_between 3) (toy_offered 7 []) toy_map (toy_setup [1, 2, 3]) (toy_htlc 1 2 True 7 False)
     (toy_hop 1 1) (toy_hop 2 1) (toy_hop 3 1) = (nd', Some r, None) \<and> 2 ^ 32 - 1000 + 7 < uint (of_Locktime r)"
proof -
  obtain nd' r where r: "forward (toy_between 3) (toy_offered 7 []) toy_map (toy_setup [1, 2, 3]) (toy_htlc 1 2 True 7 False)
     (toy_hop 1 1) (toy_hop 2 1) (toy_hop 3 1) = (nd', Some r, None)"
    using toy_forward [of 7] by auto
  have w: "ev_wallet (he_ev (toy_between 3)) (rh_CoinType (toy_hop 2 1)) = Some \<lparr>wl_TestCoin = True, wl_Fee = 10, wl_Height = 500\<rparr>"
    by (simp add: toy_between_def toy_env_def)
  have "2 ^ 32 - 1000 + uint (ht_Locktime (toy_htlc 1 2 True 7 False)) < uint (of_Locktime r)"
    by (rule expired_htlc_forwarded [OF r _ w]) (simp_all add: toy_hop_def toy_htlc_def)
  then show ?thesis using r by (auto simp: toy_htlc_def)
qed

theorem setup_served_twice_witness:
  "\<exists>nd3 r2. MultihopPaymentSetupHandler ((toy_between 3)\<lparr>he_QCs := (\<lambda>i. Some [toy_chan 1 3 3 400000 1000 []])\<rparr>)
      ((toy_offered 5000 [toy_htlc 1 3 False 4500 False])\<lparr>nd_InProgMultihop := [pending_payment (toy_setup [1, 2, 3])]\<rparr>)
      (fold mark_dirty (map (\<lambda>n. toy_hop n 1) [1, 2, 3]) toy_map) (toy_setup [1, 2, 3]) = (nd3, Some (Offer r2), None) \<and>
    of_Hash r2 = replicate 32 9 \<and> of_Amt r2 = 200000"
proof -
  obtain nd' r where r: "MultihopPaymentSetupHandler (toy_between 3) (toy_offered 5000 []) toy_map (toy_setup [1, 2, 3]) = (nd', Some (Offer r), None)"
    "of_Chan r = toy_chan 1 3 3 600000 1000 []" "of_Hash r = replicate 32 9" "of_Amt r = 200000" "mp_PeerIdx (of_Setup r) = 3"
    "nd_InProgMultihop nd' = [pending_payment (toy_setup [1, 2, 3])]" "of_Dirty r = map (\<lambda>n. toy_hop n 1) [1, 2, 3]"
    using toy_forwarded [of 5000] by auto
  have "Qchan_Coin (of_Chan r) = 1" by (simp add: r(2) Qchan_Coin_def toy_chan_def)
  moreover have "carries 1 10000 200000 (toy_chan 1 3 3 400000 1000 [])"
    by (simp add: carries_def Qchan_Coin_def toy_chan_def MinOutput_def i64_id)
  ultimately have "\<exists>nd3 r2. MultihopPaymentSetupHandler ((toy_between 3)\<lparr>he_QCs := (\<lambda>i. Some [toy_chan 1 3 3 400000 1000 []])\<rparr>)
      ((toy_offered 5000 [toy_htlc 1 3 False 4500 False])\<lparr>nd_InProgMultihop := [pending_payment (toy_setup [1, 2, 3])]\<rparr>)
      (fst (finish_offer (he_ev (toy_between 3)) toy_map r None)) (toy_setup [1, 2, 3]) = (nd3, Some (Offer r2), None) \<and>
    of_Hash r2 = of_Hash r \<and> of_Amt r2 = of_Amt r \<and> mp_PeerIdx (of_Setup r2) = mp_PeerIdx (of_Setup r)"
    using toy_htlcs [of 3 5000 "[]" "[1, 2, 3]"] toy_htlcs [of 3 5000 "[toy_htlc 1 3 False 4500 False]" "[1, 2, 3]"]
    by (intro setup_served_twice [OF r(1) _ _ refl, where w = "\<lparr>wl_TestCoin = True, wl_Fee = 10, wl_Height = 500\<rparr>" and
          chans = "[toy_chan 1 3 3 400000 1000 []]"])
      (simp_all add: r FindHTLCsByHash_def GetAllQchans_def, simp_all add: toy_between_def toy_env_def toy_chan_def)
  then show ?thesis using r by (auto simp: finish_offer_def)
qed

theorem path_without_node_panics_witness:
  "MultihopPaymentSetupHandler (toy_between 3) (toy_offered 5000 []) toy_map (toy_setup [1, 3]) = (toy_offered 5000 [], None, Some Panic)"
proof -
  have "htlcs_of (toy_between 3) (toy_offered 5000 []) (toy_setup [1, 3]) =
      [] @ (toy_htlc 1 2 True 5000 False,
        NewQchanFromChanData (toy_env 1) (NewChanDataFromQchan (toy_chan 1 2 3 500000 1000 [toy_htlc 1 2 True 5000 False]))) # []"
    by (simp add: toy_htlcs)
  then show ?thesis
    by (rule path_without_node_panics [rotated])
      (simp_all add: toy_between_def toy_setup_def toy_hop_def toy_pkh_def open_in_def, simp add: toy_htlc_def)
qed

end
