(* ===== verification/HtlcSpend.thy ===== *)
theory HtlcSpend
  imports TxSpend
begin

text \<open>
  Spending the HTLC outputs of a commitment: symbolic runs of \<open>ReceiveHTLCScript\<close> and \<open>OfferHTLCScript\<close>. The witness script is
  executed opcode by opcode as a list that gets shorter; each opcode has one rewrite rule.
\<close>

section \<open>Pushes\<close>

lemma exec_push:
  assumes "po_op pop \<le> OP_16" "po_op pop \<noteq> OP_RESERVED" "length (po_data pop) \<le> MaxScriptElementSize" "opfunc ev pop = push_vm x"
  shows "executeOpcode ev pop (witness_engine pops h tx i hc amt off d c n) =
    Inr (witness_engine pops h tx i hc amt off (if executing c then x # d else d) c n)"
proof -
  have "po_op pop \<notin> set [OP_CAT, OP_SUBSTR, OP_LEFT, OP_RIGHT, OP_INVERT, OP_AND, OP_OR, OP_XOR,
     OP_2MUL, OP_2DIV, OP_MUL, OP_DIV, OP_MOD, OP_LSHIFT, OP_RSHIFT, OP_VERIF, OP_VERNOTIF, OP_IF, OP_NOTIF, OP_ELSE, OP_ENDIF]"
  proof
    assume "po_op pop \<in> set [OP_CAT, OP_SUBSTR, OP_LEFT, OP_RIGHT, OP_INVERT, OP_AND, OP_OR, OP_XOR,
     OP_2MUL, OP_2DIV, OP_MUL, OP_DIV, OP_MOD, OP_LSHIFT, OP_RSHIFT, OP_VERIF, OP_VERNOTIF, OP_IF, OP_NOTIF, OP_ELSE, OP_ENDIF]"
    then have "OP_16 < po_op pop" by auto
    then show False using assms(1) by simp
  qed
  then show ?thesis
    using assms by (auto simp: executeOpcode_def isDisabled_def alwaysIllegal_def isConditional_def isBranchExecuting_def push_vm_def Let_def)
qed

lemma opfunc_data: "op \<noteq> OP_0 \<Longrightarrow> op \<le> OP_PUSHDATA4 \<Longrightarrow> opfunc ev \<lparr>po_op = op, po_data = x\<rparr> = push_vm x"
  by (simp add: opfunc_def opcodePushData_def)

lemma opfunc_zero: "opfunc ev \<lparr>po_op = OP_0, po_data = x\<rparr> = push_vm []"
  by (simp add: opfunc_def opcodeFalse_def)

lemma opfunc_small:
  assumes "1 \<le> w" "w \<le> (16 :: byte)"
  shows "opfunc ev \<lparr>po_op = (OP_1 - 1) + w, po_data = x\<rparr> = push_vm (num_Bytes (uint w))" "(OP_1 - 1) + w \<le> OP_16" "(OP_1 - 1) + w \<noteq> OP_RESERVED"
proof -
  have u: "unat ((OP_1 - 1) + w) = 80 + unat w" using assms(2) by (simp add: unat_word_ariths word_le_nat_alt)
  have w: "1 \<le> unat w" "unat w \<le> 16" using assms by (simp_all add: word_le_nat_alt)
  have o: "(OP_1 - 1) + w \<noteq> OP_0" "\<not> (OP_1 - 1) + w \<le> OP_PUSHDATA4" "(OP_1 - 1) + w \<noteq> OP_1NEGATE" "OP_1 \<le> (OP_1 - 1) + w"
    "(OP_1 - 1) + w \<le> OP_16" "(OP_1 - 1) + w \<noteq> OP_RESERVED"
    using w by (simp_all only: word_le_nat_alt word_unat_eq_iff u) simp_all
  have "(OP_1 - 1) + w - (OP_1 - 1) = w" by (rule add_diff_cancel_left')
  then show "opfunc ev \<lparr>po_op = (OP_1 - 1) + w, po_data = x\<rparr> = push_vm (num_Bytes (uint w))"
    using o unfolding opfunc_def Let_def by (simp only: parsed_opcode.select_convs if_False if_True simp_thms opcodeN_def push_int_def)
  show "(OP_1 - 1) + w \<le> OP_16" "(OP_1 - 1) + w \<noteq> OP_RESERVED" using o by simp_all
qed

lemma num_Bytes_nat: "num_Bytes (int k) = scriptNum_Bytes k"
  by (simp add: num_Bytes_def scriptNum_Bytes_def Let_def)

text \<open>A number is pushed as itself.\<close>

lemma exec_num:
  assumes "k < 2 ^ 32"
  shows "executeOpcode ev (num_pop k) (witness_engine pops h tx i hc amt off d c n) =
    Inr (witness_engine pops h tx i hc amt off (if executing c then num_Bytes (int k) # d else d) c n)"
proof -
  consider "k = 0" | "1 \<le> k" "k \<le> 16" | "16 < k" by linarith
  then show ?thesis
  proof cases
    case 1
    then show ?thesis
      by (simp only: num_pop_def if_True) (rule exec_push, simp_all add: opfunc_zero num_Bytes_def MaxScriptElementSize_def)
  next
    case 2
    then have "1 \<le> (of_nat k :: byte)" "(of_nat k :: byte) \<le> 16" "uint (of_nat k :: byte) = int k"
      by (simp_all add: word_le_nat_alt unat_of_nat uint_nat)
    note small = opfunc_small [OF this(1,2)] this(3)
    have pop: "num_pop k = \<lparr>po_op = (OP_1 - 1) + of_nat k, po_data = []\<rparr>" using 2 by (simp add: num_pop_def)
    show ?thesis unfolding pop by (rule exec_push) (use small in \<open>simp_all add: MaxScriptElementSize_def\<close>)
  next
    case 3
    let ?d = "scriptNum_Bytes k"
    have "length ?d \<le> 5" using le_min_length [of k 4] assms by (simp add: scriptNum_Bytes_def Let_def)
    moreover have "2 \<le> length ?d \<or> length ?d = 1 \<and> 16 < hd ?d \<and> hd ?d \<noteq> 0x81"
    proof (cases "k < 128")
      case True
      then have "le_min k = [of_nat k]" using 3 by (simp add: le_min.simps)
      moreover have "unat (of_nat k :: byte) = k" using True by (simp add: unat_of_nat)
      then have "(of_nat k :: byte) AND 0x80 = 0" "16 < (of_nat k :: byte)" "(of_nat k :: byte) \<noteq> 0x81"
        using True 3 byte_bits(1) [of "of_nat k"] by (simp_all add: word_less_nat_alt) (simp add: word_unat_eq_iff)
      ultimately show ?thesis using 3 by (simp add: scriptNum_Bytes_def)
    next
      case False
      show ?thesis
      proof (cases "k < 256")
        case True
        then have "le_min k = [of_nat k]" using 3 by (simp add: le_min.simps)
        moreover have "unat (of_nat k :: byte) = k" using True by (simp add: unat_of_nat)
        ultimately show ?thesis using False 3 byte_bits(1) [of "of_nat k"] by (simp add: scriptNum_Bytes_def)
      next
        case False
        then have "2 \<le> length (le_min k)" by (subst le_min.simps, subst le_min.simps) simp
        then show ?thesis using 3 by (simp add: scriptNum_Bytes_def Let_def)
      qed
    qed
    ultimately have d: "?d \<noteq> []" "length ?d \<le> 5" "length ?d = 1 \<Longrightarrow> \<not> hd ?d \<le> 16 \<and> hd ?d \<noteq> 0x81 \<and> hd ?d \<noteq> 0"
      by auto
    then have "data_pop ?d = \<lparr>po_op = of_nat (length ?d), po_data = ?d\<rparr>" by (auto simp: data_pop_def Let_def)
    moreover have "unat (of_nat (length ?d) :: byte) = length ?d" using d(2) by (simp add: unat_of_nat)
    then have "(of_nat (length ?d) :: byte) \<noteq> OP_0" "(of_nat (length ?d) :: byte) \<le> 5"
      using d by (simp_all only: word_le_nat_alt word_unat_eq_iff) auto
    ultimately have "\<exists>op. data_pop ?d = \<lparr>po_op = op, po_data = ?d\<rparr> \<and> op \<noteq> OP_0 \<and> op \<le> 5" by blast
    then obtain op where "num_pop k = \<lparr>po_op = op, po_data = ?d\<rparr>" "op \<noteq> OP_0" "op \<le> 5"
      using 3 by (auto simp: num_pop_def)
    moreover have "op \<le> OP_16" "op \<noteq> OP_RESERVED" "op \<le> OP_PUSHDATA4" if "op \<le> (5 :: byte)" for op
      using that by (auto simp: word_le_nat_alt)
    ultimately show ?thesis
      using \<open>length ?d \<le> 5\<close> unfolding num_Bytes_nat by (simp only:) (rule exec_push, simp_all add: opfunc_data MaxScriptElementSize_def)
  qed
qed

lemma exec_data:
  assumes "2 \<le> length x" "length x \<le> 75"
  shows "executeOpcode ev (data_pop x) (witness_engine pops h tx i hc amt off d c n) =
    Inr (witness_engine pops h tx i hc amt off (if executing c then x # d else d) c n)"
proof -
  have "unat (of_nat (length x) :: byte) = length x" using assms by (simp add: unat_of_nat)
  then have o: "(of_nat (length x) :: byte) \<noteq> OP_0" "(of_nat (length x) :: byte) \<le> OP_PUSHDATA4"
    "(of_nat (length x) :: byte) \<le> OP_16" "(of_nat (length x) :: byte) \<noteq> OP_RESERVED"
    using assms by (simp_all only: word_le_nat_alt word_unat_eq_iff) auto
  have "data_pop x = \<lparr>po_op = of_nat (length x), po_data = x\<rparr>" using assms by (auto simp: data_pop_def Let_def)
  then show ?thesis by (simp only:) (rule exec_push, use assms o in \<open>simp_all add: opfunc_data MaxScriptElementSize_def\<close>)
qed

section \<open>One opcode at a time\<close>

text \<open>
  Whether the rest of a witness script is executed to its end and leaves exactly one true element: after the opcodes in
  \<open>pre\<close>, with a stack, the open conditionals and the number of opcodes counted. \<open>sg\<close> tells the signatures.
\<close>

definition goes ::
  "script_env \<Rightarrow> bytes \<Rightarrow> msg_tx \<Rightarrow> nat \<Rightarrow> tx_sig_hashes option \<Rightarrow> int \<Rightarrow> (bytes \<Rightarrow> bytes \<Rightarrow> bool) \<Rightarrow>
   parsed_opcode list \<Rightarrow> parsed_opcode list \<Rightarrow> bytes list \<Rightarrow> cond list \<Rightarrow> nat \<Rightarrow> bool" where
  "goes ev h tx i hc amt sg pre rest d c n \<longleftrightarrow>
     sg = signed_by ev (pre @ rest) tx i hc amt \<and> \<not> isWitnessPubKeyHash (pre @ rest) \<and>
     accepts (map_option (\<lambda>r. bind_res r (CheckErrorCondition True))
       (run ev (witness_engine (pre @ rest) h tx i hc amt (length pre) d c n)))"

lemma goes_step:
  assumes "\<And>pops. sg = signed_by ev pops tx i hc amt \<Longrightarrow> \<not> isWitnessPubKeyHash pops \<Longrightarrow>
      executeOpcode ev pop (witness_engine pops h tx i hc amt (Suc (length pre)) d c n) =
      Inr (witness_engine pops h tx i hc amt (Suc (length pre)) d' c' n')"
    and "length d' \<le> 1000"
  shows "goes ev h tx i hc amt sg pre (pop # next_pop # rest) d c n = goes ev h tx i hc amt sg (pre @ [pop]) (next_pop # rest) d' c' n'"
proof (cases "sg = signed_by ev (pre @ pop # next_pop # rest) tx i hc amt \<and> \<not> isWitnessPubKeyHash (pre @ pop # next_pop # rest)")
  case True
  then have "run ev (witness_engine (pre @ pop # next_pop # rest) h tx i hc amt (length pre) d c n) =
      run ev (witness_engine (pre @ pop # next_pop # rest) h tx i hc amt (Suc (length pre)) d' c' n')"
    using assms by (intro witness_step) auto
  then show ?thesis by (simp add: goes_def)
qed (auto simp: goes_def)

lemma goes_stops:
  assumes "executeOpcode ev pop (witness_engine (pre @ pop # rest) h tx i hc amt (Suc (length pre)) d c n) = Inl e"
  shows "\<not> goes ev h tx i hc amt sg pre (pop # rest) d c n"
proof -
  let ?vm = "witness_engine (pre @ pop # rest) h tx i hc amt (length pre) d c n"
  have f: "vm_scripts ?vm ! vm_scriptIdx ?vm = pre @ pop # rest" "vm_scriptIdx ?vm < length (vm_scripts ?vm)"
    by (simp_all add: witness_engine_def)
  have "Step ev ?vm = Inl e" using assms f by (simp add: Step_def Let_def)
  then show ?thesis by (simp add: goes_def run_fails)
qed

lemma goes_last:
  assumes "\<And>pops. executeOpcode ev pop (witness_engine pops h tx i hc amt (Suc (length pre)) d c n) =
      Inr (witness_engine pops h tx i hc amt (Suc (length pre)) d' [] n')" "length d' \<le> 1000"
  shows "goes ev h tx i hc amt sg pre [pop] d c n \<longleftrightarrow>
    sg = signed_by ev (pre @ [pop]) tx i hc amt \<and> \<not> isWitnessPubKeyHash (pre @ [pop]) \<and> (\<exists>x. d' = [x] \<and> asBool x)"
  using witness_last [of ev "pre @ [pop]" "length pre" h tx i hc amt d c n d' n'] assms by (simp add: goes_def)

abbreviation opc :: "byte \<Rightarrow> parsed_opcode" where "opc c \<equiv> \<lparr>po_op = c, po_data = []\<rparr>"

text \<open>The opcodes with a word on the stack alone, in a branch that is executed.\<close>

lemma exec_stack:
  assumes "n < 201" "executing c"
  shows "executeOpcode ev (opc OP_DUP) (witness_engine pops h tx i hc amt off (x # d) c n) =
      Inr (witness_engine pops h tx i hc amt off (x # x # d) c (n + 1))"
    and "executeOpcode ev (opc OP_SWAP) (witness_engine pops h tx i hc amt off (x # y # d) c n) =
      Inr (witness_engine pops h tx i hc amt off (y # x # d) c (n + 1))"
    and "executeOpcode ev (opc OP_SIZE) (witness_engine pops h tx i hc amt off (x # d) c n) =
      Inr (witness_engine pops h tx i hc amt off (num_Bytes (int (length x)) # x # d) c (n + 1))"
    and "executeOpcode ev (opc OP_EQUAL) (witness_engine pops h tx i hc amt off (x # y # d) c n) =
      Inr (witness_engine pops h tx i hc amt off (fromBool (x = y) # d) c (n + 1))"
    and "executeOpcode ev (opc OP_HASH160) (witness_engine pops h tx i hc amt off (x # d) c n) =
      Inr (witness_engine pops h tx i hc amt off (se_Ripemd160 ev (cr_Sha256 (se_crypto ev) x) # d) c (n + 1))"
    and "executeOpcode ev (opc OP_SHA256) (witness_engine pops h tx i hc amt off (x # d) c n) =
      Inr (witness_engine pops h tx i hc amt off (cr_Sha256 (se_crypto ev) x # d) c (n + 1))"
    and "executeOpcode ev (opc OP_EQUALVERIFY) (witness_engine pops h tx i hc amt off (x # y # d) c n) =
      (if x = y then Inr (witness_engine pops h tx i hc amt off d c (n + 1)) else Inl ErrStackVerifyFailed)"
    and "executeOpcode ev (opc OP_NOTIF) (witness_engine pops h tx i hc amt off (x # d) c n) =
      Inr (witness_engine pops h tx i hc amt off d ((if asBool x then OpCondFalse else OpCondTrue) # c) (n + 1))"
proof -
  have b: "asBool (fromBool v) = v" for v by (simp add: asBool_def fromBool_def)
  show "executeOpcode ev (opc OP_DUP) (witness_engine pops h tx i hc amt off (x # d) c n) =
      Inr (witness_engine pops h tx i hc amt off (x # x # d) c (n + 1))"
    using assms by (auto simp: exec_defs opcodeDup_def on_dstack_def DupN_def PeekByteArray_def Depth_def)
  show "executeOpcode ev (opc OP_SWAP) (witness_engine pops h tx i hc amt off (x # y # d) c n) =
      Inr (witness_engine pops h tx i hc amt off (y # x # d) c (n + 1))"
    using assms by (auto simp: exec_defs opcodeSwap_def on_dstack_def SwapN_def nip_to_top_def nipN_def Depth_def)
  show "executeOpcode ev (opc OP_SIZE) (witness_engine pops h tx i hc amt off (x # d) c n) =
      Inr (witness_engine pops h tx i hc amt off (num_Bytes (int (length x)) # x # d) c (n + 1))"
    using assms by (auto simp: exec_defs opcodeSize_def PeekByteArray_def Depth_def push_int_def push_vm_def)
  show "executeOpcode ev (opc OP_EQUAL) (witness_engine pops h tx i hc amt off (x # y # d) c n) =
      Inr (witness_engine pops h tx i hc amt off (fromBool (x = y) # d) c (n + 1))"
    using assms by (auto simp: exec_defs opcodeEqual_def pop_vm_def push_vm_def)
  show "executeOpcode ev (opc OP_HASH160) (witness_engine pops h tx i hc amt off (x # d) c n) =
      Inr (witness_engine pops h tx i hc amt off (se_Ripemd160 ev (cr_Sha256 (se_crypto ev) x) # d) c (n + 1))"
    using assms by (auto simp: exec_defs opcodeHash160_def pop_vm_def push_vm_def)
  show "executeOpcode ev (opc OP_SHA256) (witness_engine pops h tx i hc amt off (x # d) c n) =
      Inr (witness_engine pops h tx i hc amt off (cr_Sha256 (se_crypto ev) x # d) c (n + 1))"
    using assms by (auto simp: exec_defs opcodeSha256_def pop_vm_def push_vm_def)
  show "executeOpcode ev (opc OP_EQUALVERIFY) (witness_engine pops h tx i hc amt off (x # y # d) c n) =
      (if x = y then Inr (witness_engine pops h tx i hc amt off d c (n + 1)) else Inl ErrStackVerifyFailed)"
    using assms b by (auto simp: exec_defs opcodeEqualVerify_def opcodeEqual_def opcodeVerify_def pop_vm_def push_vm_def pop_bool_def)
  show "executeOpcode ev (opc OP_NOTIF) (witness_engine pops h tx i hc amt off (x # d) c n) =
      Inr (witness_engine pops h tx i hc amt off d ((if asBool x then OpCondFalse else OpCondTrue) # c) (n + 1))"
    using assms by (auto simp: exec_defs opcodeNotIf_def pop_bool_def push_cond_def)
qed

text \<open>A locktime within the range that is compared with the locktime of the transaction.\<close>

definition lock_passed :: "msg_tx \<Rightarrow> nat \<Rightarrow> u32 \<Rightarrow> bool" where
  "lock_passed tx i locktime \<longleftrightarrow> (tx_LockTime tx < LockTimeThreshold \<longleftrightarrow> locktime < LockTimeThreshold) \<and> locktime \<le> tx_LockTime tx \<and>
     ti_Sequence (tx_TxIn tx ! i) \<noteq> MaxTxInSequenceNum"

lemma exec_cltv:
  assumes "n < 201" "executing c" "i < length (tx_TxIn tx)"
  shows "\<exists>e. executeOpcode ev (opc OP_CHECKLOCKTIMEVERIFY) (witness_engine pops h tx i hc amt off (num_Bytes (uint locktime) # d) c n) =
      (if lock_passed tx i locktime then Inr (witness_engine pops h tx i hc amt off (num_Bytes (uint locktime) # d) c (n + 1)) else Inl e)"
proof -
  have b: "uint locktime < 2 ^ 39" using uint_bounded [of locktime] by simp
  have "makeScriptNum (num_Bytes (uint locktime)) False 5 = Inr (uint locktime)"
    using script_number_roundtrip [of 5 "uint locktime" False] b by simp
  then show ?thesis
    using assms
    by (auto simp: exec_defs opcodeCheckLockTimeVerify_def hasFlag_def spend_flag_tests PeekByteArray_def Depth_def lock_passed_def
        uint_nat [symmetric] word_le_def word_less_def not_less not_le)
qed

text \<open>The rewrite rules of \<open>goes\<close>.\<close>

lemma goes_ops:
  assumes "n < 190" "executing c" "length d \<le> 900"
  shows "goes ev h tx i hc amt sg pre (opc OP_DUP # p # rest) (x # d) c n = goes ev h tx i hc amt sg (pre @ [opc OP_DUP]) (p # rest) (x # x # d) c (n + 1)"
    and "goes ev h tx i hc amt sg pre (opc OP_SWAP # p # rest) (x # y # d) c n = goes ev h tx i hc amt sg (pre @ [opc OP_SWAP]) (p # rest) (y # x # d) c (n + 1)"
    and "goes ev h tx i hc amt sg pre (opc OP_SIZE # p # rest) (x # d) c n =
      goes ev h tx i hc amt sg (pre @ [opc OP_SIZE]) (p # rest) (num_Bytes (int (length x)) # x # d) c (n + 1)"
    and "goes ev h tx i hc amt sg pre (opc OP_EQUAL # p # rest) (x # y # d) c n =
      goes ev h tx i hc amt sg (pre @ [opc OP_EQUAL]) (p # rest) (fromBool (x = y) # d) c (n + 1)"
    and "goes ev h tx i hc amt sg pre (opc OP_HASH160 # p # rest) (x # d) c n =
      goes ev h tx i hc amt sg (pre @ [opc OP_HASH160]) (p # rest) (se_Ripemd160 ev (cr_Sha256 (se_crypto ev) x) # d) c (n + 1)"
    and "goes ev h tx i hc amt sg pre (opc OP_SHA256 # p # rest) (x # d) c n =
      goes ev h tx i hc amt sg (pre @ [opc OP_SHA256]) (p # rest) (cr_Sha256 (se_crypto ev) x # d) c (n + 1)"
    and "goes ev h tx i hc amt sg pre (opc OP_DROP # p # rest) (x # d) c n = goes ev h tx i hc amt sg (pre @ [opc OP_DROP]) (p # rest) d c (n + 1)"
    and "goes ev h tx i hc amt sg pre (opc OP_IF # p # rest) (x # d) c n =
      goes ev h tx i hc amt sg (pre @ [opc OP_IF]) (p # rest) d ((if asBool x then OpCondTrue else OpCondFalse) # c) (n + 1)"
    and "goes ev h tx i hc amt sg pre (opc OP_NOTIF # p # rest) (x # d) c n =
      goes ev h tx i hc amt sg (pre @ [opc OP_NOTIF]) (p # rest) d ((if asBool x then OpCondFalse else OpCondTrue) # c) (n + 1)"
    and "goes ev h tx i hc amt sg pre (opc OP_CHECKSIG # p # rest) (x # y # d) c n =
      goes ev h tx i hc amt sg (pre @ [opc OP_CHECKSIG]) (p # rest) (fromBool (sg x y) # d) c (n + 1)"
    and "goes ev h tx i hc amt sg pre (opc OP_CHECKMULTISIG # p # rest) ([2] # k2 # k1 # [2] # s2 # s1 # [] # d) c n =
      goes ev h tx i hc amt sg (pre @ [opc OP_CHECKMULTISIG]) (p # rest) (fromBool (sg k2 s2 \<and> sg k1 s1) # d) c (n + 3)"
  by (rule goes_step; use assms in \<open>simp add: exec_stack exec_drop exec_if exec_checksig exec_checkmultisig\<close>)+

lemma goes_verify:
  assumes "n < 190" "executing c" "length d \<le> 900"
  shows "goes ev h tx i hc amt sg pre (opc OP_EQUALVERIFY # p # rest) (x # y # d) c n \<longleftrightarrow>
      x = y \<and> goes ev h tx i hc amt sg (pre @ [opc OP_EQUALVERIFY]) (p # rest) d c (n + 1)"
proof (cases "x = y")
  case True
  have "goes ev h tx i hc amt sg pre (opc OP_EQUALVERIFY # p # rest) (x # y # d) c n =
      goes ev h tx i hc amt sg (pre @ [opc OP_EQUALVERIFY]) (p # rest) d c (n + 1)"
    by (rule goes_step) (use assms True in \<open>simp_all add: exec_stack(7)\<close>)
  then show ?thesis using True by simp
next
  case False
  then show ?thesis using assms goes_stops [where pop = "opc OP_EQUALVERIFY"] by (simp add: exec_stack(7))
qed

lemma goes_flow:
  assumes "n < 190" "length d \<le> 900"
  shows "goes ev h tx i hc amt sg pre (opc OP_ELSE # p # rest) d (b # c) n = goes ev h tx i hc amt sg (pre @ [opc OP_ELSE]) (p # rest) d (flip_cond b # c) (n + 1)"
    and "goes ev h tx i hc amt sg pre (opc OP_ENDIF # p # rest) d (b # c) n = goes ev h tx i hc amt sg (pre @ [opc OP_ENDIF]) (p # rest) d c (n + 1)"
    and "k < 2 ^ 32 \<Longrightarrow> goes ev h tx i hc amt sg pre (num_pop k # p # rest) d c n =
      goes ev h tx i hc amt sg (pre @ [num_pop k]) (p # rest) (if executing c then num_Bytes (int k) # d else d) c n"
    and "2 \<le> length x \<Longrightarrow> length x \<le> 75 \<Longrightarrow> goes ev h tx i hc amt sg pre (data_pop x # p # rest) d c n =
      goes ev h tx i hc amt sg (pre @ [data_pop x]) (p # rest) (if executing c then x # d else d) c n"
  by (rule goes_step; use assms in \<open>simp add: exec_else exec_endif exec_num exec_data\<close>)+

lemma goes_cltv:
  assumes "n < 190" "executing c" "length d \<le> 900" "i < length (tx_TxIn tx)"
  shows "goes ev h tx i hc amt sg pre (opc OP_CHECKLOCKTIMEVERIFY # p # rest) (num_Bytes (uint locktime) # d) c n \<longleftrightarrow>
      lock_passed tx i locktime \<and>
      goes ev h tx i hc amt sg (pre @ [opc OP_CHECKLOCKTIMEVERIFY]) (p # rest) (num_Bytes (uint locktime) # d) c (n + 1)"
proof (cases "lock_passed tx i locktime")
  case True
  have "executeOpcode ev (opc OP_CHECKLOCKTIMEVERIFY) (witness_engine pops h tx i hc amt off (num_Bytes (uint locktime) # d) c n) =
      Inr (witness_engine pops h tx i hc amt off (num_Bytes (uint locktime) # d) c (n + 1))" for pops off
    using exec_cltv [of n c i tx ev pops h hc amt off locktime d] assms True by auto
  then have "goes ev h tx i hc amt sg pre (opc OP_CHECKLOCKTIMEVERIFY # p # rest) (num_Bytes (uint locktime) # d) c n =
      goes ev h tx i hc amt sg (pre @ [opc OP_CHECKLOCKTIMEVERIFY]) (p # rest) (num_Bytes (uint locktime) # d) c (n + 1)"
    by (rule goes_step) (use assms in simp)
  then show ?thesis using True by simp
next
  case False
  have b: "\<exists>e. executeOpcode ev (opc OP_CHECKLOCKTIMEVERIFY) (witness_engine pops h tx i hc amt off (num_Bytes (uint locktime) # d) c n) = Inl e" for pops off
    using exec_cltv [of n c i tx ev pops h hc amt off locktime d] assms False by auto
  have "\<not> goes ev h tx i hc amt sg pre (opc OP_CHECKLOCKTIMEVERIFY # p # rest) (num_Bytes (uint locktime) # d) c n"
  proof -
    obtain e where "executeOpcode ev (opc OP_CHECKLOCKTIMEVERIFY)
        (witness_engine (pre @ opc OP_CHECKLOCKTIMEVERIFY # p # rest) h tx i hc amt (Suc (length pre)) (num_Bytes (uint locktime) # d) c n) = Inl e"
      using b by blast
    then show ?thesis by (rule goes_stops)
  qed
  then show ?thesis using False by simp
qed

text \<open>A branch that is not executed.\<close>

abbreviation skipping :: "cond list \<Rightarrow> bool" where "skipping c \<equiv> c \<noteq> [] \<and> hd c \<noteq> OpCondTrue"

lemma exec_skip:
  assumes "n < 201" "skipping c" "OP_16 < b" "\<not> isDisabled (opc b)" "\<not> alwaysIllegal (opc b)" "\<not> isConditional (opc b)"
  shows "executeOpcode ev (opc b) (witness_engine pops h tx i hc amt off d c n) = Inr (witness_engine pops h tx i hc amt off d c (n + 1))"
  using assms by (simp add: executeOpcode_def isBranchExecuting_def MaxOpsPerScript_def)

lemma exec_skip_if:
  assumes "n < 201" "skipping c"
  shows "executeOpcode ev (opc OP_IF) (witness_engine pops h tx i hc amt off d c n) = Inr (witness_engine pops h tx i hc amt off d (OpCondSkip # c) (n + 1))"
    and "executeOpcode ev (opc OP_NOTIF) (witness_engine pops h tx i hc amt off d c n) = Inr (witness_engine pops h tx i hc amt off d (OpCondSkip # c) (n + 1))"
  using assms by (simp_all add: exec_defs opcodeIf_def opcodeNotIf_def push_cond_def)

lemma goes_skip:
  assumes "n < 190" "length d \<le> 900" "skipping c"
  shows "OP_16 < b \<Longrightarrow> \<not> isDisabled (opc b) \<Longrightarrow> \<not> alwaysIllegal (opc b) \<Longrightarrow> \<not> isConditional (opc b) \<Longrightarrow>
      goes ev h tx i hc amt sg pre (opc b # p # rest) d c n = goes ev h tx i hc amt sg (pre @ [opc b]) (p # rest) d c (n + 1)"
    and "goes ev h tx i hc amt sg pre (opc OP_IF # p # rest) d c n = goes ev h tx i hc amt sg (pre @ [opc OP_IF]) (p # rest) d (OpCondSkip # c) (n + 1)"
    and "goes ev h tx i hc amt sg pre (opc OP_NOTIF # p # rest) d c n = goes ev h tx i hc amt sg (pre @ [opc OP_NOTIF]) (p # rest) d (OpCondSkip # c) (n + 1)"
  by (rule goes_step; use assms in \<open>simp add: exec_skip exec_skip_if\<close>)+

lemma goes_end:
  "n < 190 \<Longrightarrow> length d \<le> 900 \<Longrightarrow> goes ev h tx i hc amt sg pre [opc OP_ENDIF] d [b] n \<longleftrightarrow>
    sg = signed_by ev (pre @ [opc OP_ENDIF]) tx i hc amt \<and> \<not> isWitnessPubKeyHash (pre @ [opc OP_ENDIF]) \<and> (\<exists>x. d = [x] \<and> asBool x)"
  by (rule goes_last) (simp_all add: exec_endif)

lemma small_num: "k < 65536 \<Longrightarrow> makeScriptNum (num_Bytes (int k)) False 4 = Inr (int k)"
proof -
  assume "k < 65536"
  then have "\<bar>int k\<bar> < 2 ^ (8 * 4 - 1)" by simp
  from script_number_roundtrip [OF _ this, of False] show ?thesis by simp
qed

lemma num_Bytes_inj: "a < 65536 \<Longrightarrow> b < 65536 \<Longrightarrow> num_Bytes (int a) = num_Bytes (int b) \<longleftrightarrow> a = b"
  using small_num [of a] small_num [of b] by (metis of_nat_eq_iff sum.inject(2))

lemma num_Bytes_small [simp]: "num_Bytes 2 = [2]" "num_Bytes 16 = [16]"
  by (simp_all add: num_Bytes_def le_min.simps)

section \<open>The output of a received HTLC\<close>

definition receive_items :: "bytes \<Rightarrow> bytes \<Rightarrow> bytes \<Rightarrow> bytes \<Rightarrow> u32 \<Rightarrow> script_item list" where
  "receive_items revPKH remotePub rHash localPub locktime =
     [Op OP_DUP, Op OP_HASH160, Data revPKH, Op OP_EQUAL, Op OP_IF, Op OP_CHECKSIG, Op OP_ELSE,
      Data remotePub, Op OP_SWAP, Op OP_SIZE, Num 16, Op OP_EQUAL, Op OP_IF, Op OP_SHA256, Data rHash,
      Op OP_EQUALVERIFY, Num 2, Op OP_SWAP, Data localPub, Num 2, Op OP_CHECKMULTISIG, Op OP_ELSE,
      Op OP_DROP, Num (unat locktime), Op OP_CHECKLOCKTIMEVERIFY, Op OP_DROP, Op OP_CHECKSIG,
      Op OP_ENDIF, Op OP_ENDIF]"

abbreviation "hash160 ev x \<equiv> se_Ripemd160 ev (cr_Sha256 (se_crypto ev) x)"

lemma as_from_bool [simp]: "asBool (fromBool v) = v"
  by (simp add: asBool_def fromBool_def)

lemma size_16: "length x \<le> 520 \<Longrightarrow> [16] = num_Bytes (int (length x)) \<longleftrightarrow> length x = 16"
  using num_Bytes_inj [of 16 "length x"] by auto

text \<open>The result of a run of the script: the signatures are those over the script, and a condition \<open>ok\<close>.\<close>

definition run_means :: "script_env \<Rightarrow> bytes \<Rightarrow> msg_tx \<Rightarrow> nat \<Rightarrow> tx_sig_hashes option \<Rightarrow> int \<Rightarrow> (bytes \<Rightarrow> bytes \<Rightarrow> bool) \<Rightarrow>
   parsed_opcode list \<Rightarrow> bytes list \<Rightarrow> bool \<Rightarrow> bool" where
  "run_means ev h tx i hc amt sg pops d ok \<longleftrightarrow>
     (goes ev h tx i hc amt sg [] pops d [] 0 \<longleftrightarrow> sg = signed_by ev pops tx i hc amt \<and> \<not> isWitnessPubKeyHash pops \<and> ok)"

lemmas goes_rules = goes_ops goes_verify goes_flow goes_cltv goes_skip goes_end flip_cond_def isDisabled_def alwaysIllegal_def isConditional_def

lemma receive_goes:
  assumes len: "length revPKH = 20" "length remotePub = 33" "length localPub = 33" "length rHash = 32" "length x \<le> 520"
    and i: "i < length (tx_TxIn tx)"
  shows "hash160 ev x = revPKH \<Longrightarrow>
      run_means ev h tx i hc amt sg (map item_pop (receive_items revPKH remotePub rHash localPub locktime)) [x, sig] (sg x sig)"
    and "hash160 ev x \<noteq> revPKH \<Longrightarrow> length x \<noteq> 16 \<Longrightarrow>
      run_means ev h tx i hc amt sg (map item_pop (receive_items revPKH remotePub rHash localPub locktime)) [x, sig]
        (lock_passed tx i locktime \<and> sg remotePub sig)"
    and "hash160 ev x \<noteq> revPKH \<Longrightarrow> length x = 16 \<Longrightarrow>
      run_means ev h tx i hc amt sg (map item_pop (receive_items revPKH remotePub rHash localPub locktime)) [x, lsig, rsig, []]
        (cr_Sha256 (se_crypto ev) x = rHash \<and> sg remotePub rsig \<and> sg localPub lsig)"
proof -
  have l: "unat locktime < 4294967296" using unsigned_less [of locktime] by simp
  note s = receive_items_def run_means_def goes_rules size_16 [OF len(5)]
  show "hash160 ev x = revPKH \<Longrightarrow>
      run_means ev h tx i hc amt sg (map item_pop (receive_items revPKH remotePub rHash localPub locktime)) [x, sig] (sg x sig)"
    using len i l by (simp add: s)
  show "hash160 ev x \<noteq> revPKH \<Longrightarrow> length x \<noteq> 16 \<Longrightarrow>
      run_means ev h tx i hc amt sg (map item_pop (receive_items revPKH remotePub rHash localPub locktime)) [x, sig]
        (lock_passed tx i locktime \<and> sg remotePub sig)"
    using len i l by (auto simp: s)
  show "hash160 ev x \<noteq> revPKH \<Longrightarrow> length x = 16 \<Longrightarrow>
      run_means ev h tx i hc amt sg (map item_pop (receive_items revPKH remotePub rHash localPub locktime)) [x, lsig, rsig, []]
        (cr_Sha256 (se_crypto ev) x = rHash \<and> sg remotePub rsig \<and> sg localPub lsig)"
    using len i l by (auto simp: s)
qed

lemma htlc_lengths:
  assumes "length revPKH = 20" "length remotePub = 33" "length localPub = 33" "length rHash = 32"
  shows "length (addData_bytes revPKH) = 21" "length (addData_bytes remotePub) = 34" "length (addData_bytes localPub) = 34"
    "length (addData_bytes rHash) = 33" "length (scriptNum_Bytes (unat (locktime :: u32))) \<le> 520" "length (num_bytes (unat locktime)) \<le> 6"
    "length (num_bytes 2) = 1" "length (num_bytes 16) = 1"
proof -
  have "unat locktime < 4294967296" using unsigned_less [of locktime] by simp
  then have "length (scriptNum_Bytes (unat locktime)) \<le> 5"
    using le_min_length [of "unat locktime" 4] by (simp add: scriptNum_Bytes_def Let_def)
  then show "length (scriptNum_Bytes (unat locktime)) \<le> 520" "length (num_bytes (unat locktime)) \<le> 6"
    by (simp_all add: num_bytes_def addData_bytes_def Let_def)
qed (use assms in \<open>simp_all add: addData_bytes_def Let_def num_bytes_def\<close>)

lemma parse_ReceiveHTLCScript:
  assumes "length revPKH = 20" "length remotePub = 33" "length localPub = 33" "length rHash = 32"
  shows "ParseScript (ReceiveHTLCScript revPKH remotePub rHash localPub locktime) =
      Inr (map item_pop (receive_items revPKH remotePub rHash localPub locktime))"
    and "length (ReceiveHTLCScript revPKH remotePub rHash localPub locktime) \<le> 520"
proof -
  note len = htlc_lengths [OF assms]
  let ?items = "receive_items revPKH remotePub rHash localPub locktime"
  have wf: "list_all wf_item ?items" using assms len(5) num_pop_small(4) [of 2] num_pop_small(4) [of 16]
    by (simp add: receive_items_def opcode_length_def MaxScriptElementSize_def)
  have l: "length (concat (map item_bytes ?items)) \<le> 200" using len(1-4,7,8) len(6) [of locktime] by (simp add: receive_items_def)
  then have max: "length (concat (map item_bytes ?items)) \<le> maxScriptSize" by (simp add: maxScriptSize_def)
  show "ParseScript (ReceiveHTLCScript revPKH remotePub rHash localPub locktime) = Inr (map item_pop ?items)"
    using parse_built [OF wf max] by (simp add: ReceiveHTLCScript_def receive_items_def)
  show "length (ReceiveHTLCScript revPKH remotePub rHash localPub locktime) \<le> 520"
    using build_script_bytes [OF wf max] l by (simp add: ReceiveHTLCScript_def receive_items_def)
qed

text \<open>From the run of a script to the validation of the input that spends its output.\<close>

lemma htlc_validated:
  assumes "length (cr_Sha256 (se_crypto ev) script) = 32" "ParseScript script = Inr pops" "length script \<le> 520" "length pops \<noteq> 5" "pops \<noteq> []"
    and "i < length (tx_TxIn tx)" "ti_SignatureScript (tx_TxIn tx ! i) = []" "ti_Witness (tx_TxIn tx ! i) = w @ [script]"
    and "list_all (\<lambda>x. length x \<le> 520) w" "length pops \<noteq> 2"
    and "run_means ev (cr_Sha256 (se_crypto ev) script) tx i hc amt (signed_by ev pops tx i hc amt) pops (rev w) ok"
  shows "accepts (validate_input ev (P2WSHify (se_crypto ev) script) tx (int i) spend_flags hc amt) \<longleftrightarrow> ok"
proof -
  have small: "list_all (\<lambda>x. length x \<le> MaxScriptElementSize) (w @ [script])"
    using assms(3,9) by (simp add: MaxScriptElementSize_def)
  have "\<not> isWitnessPubKeyHash pops" using assms(10) by (simp add: isWitnessPubKeyHash_def)
  then show ?thesis
    using assms(11) unfolding witness_start [OF assms(1,2,5-8) small] by (simp add: run_means_def goes_def)
qed

lemma received_accepted:
  assumes "length revPKH = 20" "length remotePub = 33" "length localPub = 33" "length rHash = 32"
    and "script = ReceiveHTLCScript revPKH remotePub rHash localPub locktime" "length (cr_Sha256 (se_crypto ev) script) = 32"
    and "ParseScript script = Inr pops" "i < length (tx_TxIn tx)" "ti_SignatureScript (tx_TxIn tx ! i) = []"
    and "ti_Witness (tx_TxIn tx ! i) = (if hash160 ev x \<noteq> revPKH \<and> length x = 16 then [[], rsig, sig, x, script] else [sig, x, script])"
    and "length sig \<le> 520" "length rsig \<le> 520" "length x \<le> 520"
  shows "accepts (validate_input ev (P2WSHify (se_crypto ev) script) tx (int i) spend_flags hc amt) \<longleftrightarrow>
    (if hash160 ev x = revPKH then signed_by ev pops tx i hc amt x sig
     else if length x = 16 then cr_Sha256 (se_crypto ev) x = rHash \<and> signed_by ev pops tx i hc amt remotePub rsig \<and>
       signed_by ev pops tx i hc amt localPub sig
     else lock_passed tx i locktime \<and> signed_by ev pops tx i hc amt remotePub sig)"
proof (rule htlc_validated [OF assms(6,7)])
  note parse = parse_ReceiveHTLCScript [OF assms(1-4), of locktime]
  have pops: "pops = map item_pop (receive_items revPKH remotePub rHash localPub locktime)" using assms(5,7) parse(1) by simp
  show "length script \<le> 520" using assms(5) parse(2) by simp
  show "length pops \<noteq> 5" "pops \<noteq> []" "length pops \<noteq> 2" by (simp_all add: pops receive_items_def)
  show "ti_Witness (tx_TxIn tx ! i) = (if hash160 ev x \<noteq> revPKH \<and> length x = 16 then [[], rsig, sig, x] else [sig, x]) @ [script]"
    using assms(10) by simp
  show "list_all (\<lambda>x. length x \<le> 520) (if hash160 ev x \<noteq> revPKH \<and> length x = 16 then [[], rsig, sig, x] else [sig, x])"
    using assms(11-13) by simp
  show "run_means ev (cr_Sha256 (se_crypto ev) script) tx i hc amt (signed_by ev pops tx i hc amt) pops
      (rev (if hash160 ev x \<noteq> revPKH \<and> length x = 16 then [[], rsig, sig, x] else [sig, x]))
      (if hash160 ev x = revPKH then signed_by ev pops tx i hc amt x sig
       else if length x = 16 then cr_Sha256 (se_crypto ev) x = rHash \<and> signed_by ev pops tx i hc amt remotePub rsig \<and>
         signed_by ev pops tx i hc amt localPub sig
       else lock_passed tx i locktime \<and> signed_by ev pops tx i hc amt remotePub sig)"
    unfolding pops using receive_goes [OF assms(1-4,13,8)] by simp
qed (fact assms)+

text \<open>C5: The output of an HTLC in the transaction of the party it was offered to has three ways of being spent, told apart by the
  last element before the script. If its hash is that of the revocation key, the spend is accepted exactly with a signature by
  it; if it has 16 bytes, exactly when it is the preimage and both parties have signed; otherwise exactly when the
  locktime of the transaction has reached that of the HTLC and the other party has signed.\<close>

theorem received_htlc_spend:
  assumes "length revPKH = 20" "length remotePub = 33" "length localPub = 33" "length rHash = 32"
    and "script = ReceiveHTLCScript revPKH remotePub rHash localPub locktime" "length (cr_Sha256 (se_crypto ev) script) = 32"
    and "ParseScript script = Inr pops" "i < length (tx_TxIn tx)" "ti_SignatureScript (tx_TxIn tx ! i) = []"
    and "ti_Witness (tx_TxIn tx ! i) = (if hash160 ev x \<noteq> revPKH \<and> length x = 16 then [[], rsig, sig, x, script] else [sig, x, script])"
    and "length sig \<le> 520" "length rsig \<le> 520" "length x \<le> 520"
  shows "accepts (validate_input ev (P2WSHify (se_crypto ev) script) tx (int i) spend_flags hc amt) \<longleftrightarrow>
    (if hash160 ev x = revPKH then signed_by ev pops tx i hc amt x sig
     else if length x = 16 then cr_Sha256 (se_crypto ev) x = rHash \<and> signed_by ev pops tx i hc amt remotePub rsig \<and>
       signed_by ev pops tx i hc amt localPub sig
     else lock_passed tx i locktime \<and> signed_by ev pops tx i hc amt remotePub sig)"
  using assms by (rule received_accepted)

section \<open>The output of an offered HTLC\<close>

definition offer_items :: "bytes \<Rightarrow> bytes \<Rightarrow> bytes \<Rightarrow> bytes \<Rightarrow> script_item list" where
  "offer_items revPKH remotePub rHash localPub =
     [Op OP_DUP, Op OP_HASH160, Data revPKH, Op OP_EQUAL, Op OP_IF, Op OP_CHECKSIG, Op OP_ELSE,
      Data remotePub, Op OP_SWAP, Op OP_SIZE, Num 16, Op OP_EQUAL, Op OP_NOTIF, Op OP_DROP, Num 2,
      Op OP_SWAP, Data localPub, Num 2, Op OP_CHECKMULTISIG, Op OP_ELSE, Op OP_SHA256, Data rHash,
      Op OP_EQUALVERIFY, Op OP_CHECKSIG, Op OP_ENDIF, Op OP_ENDIF]"

lemma offer_goes:
  assumes len: "length revPKH = 20" "length remotePub = 33" "length localPub = 33" "length rHash = 32" "length x \<le> 520"
  shows "hash160 ev x = revPKH \<Longrightarrow>
      run_means ev h tx i hc amt sg (map item_pop (offer_items revPKH remotePub rHash localPub)) [x, sig] (sg x sig)"
    and "hash160 ev x \<noteq> revPKH \<Longrightarrow> length x = 16 \<Longrightarrow>
      run_means ev h tx i hc amt sg (map item_pop (offer_items revPKH remotePub rHash localPub)) [x, sig]
        (cr_Sha256 (se_crypto ev) x = rHash \<and> sg remotePub sig)"
    and "hash160 ev x \<noteq> revPKH \<Longrightarrow> length x \<noteq> 16 \<Longrightarrow>
      run_means ev h tx i hc amt sg (map item_pop (offer_items revPKH remotePub rHash localPub)) [x, lsig, rsig, []]
        (sg remotePub rsig \<and> sg localPub lsig)"
proof -
  note s = offer_items_def run_means_def goes_rules size_16 [OF len(5)]
  show "hash160 ev x = revPKH \<Longrightarrow>
      run_means ev h tx i hc amt sg (map item_pop (offer_items revPKH remotePub rHash localPub)) [x, sig] (sg x sig)"
    using len by (simp add: s)
  show "hash160 ev x \<noteq> revPKH \<Longrightarrow> length x = 16 \<Longrightarrow>
      run_means ev h tx i hc amt sg (map item_pop (offer_items revPKH remotePub rHash localPub)) [x, sig]
        (cr_Sha256 (se_crypto ev) x = rHash \<and> sg remotePub sig)"
    using len by (auto simp: s)
  show "hash160 ev x \<noteq> revPKH \<Longrightarrow> length x \<noteq> 16 \<Longrightarrow>
      run_means ev h tx i hc amt sg (map item_pop (offer_items revPKH remotePub rHash localPub)) [x, lsig, rsig, []]
        (sg remotePub rsig \<and> sg localPub lsig)"
    using len by (auto simp: s)
qed

lemma parse_OfferHTLCScript:
  assumes "length revPKH = 20" "length remotePub = 33" "length localPub = 33" "length rHash = 32"
  shows "ParseScript (OfferHTLCScript revPKH remotePub rHash localPub) = Inr (map item_pop (offer_items revPKH remotePub rHash localPub))"
    and "length (OfferHTLCScript revPKH remotePub rHash localPub) \<le> 520"
proof -
  note len = htlc_lengths(1-4,7,8) [OF assms]
  let ?items = "offer_items revPKH remotePub rHash localPub"
  have wf: "list_all wf_item ?items" using assms num_pop_small(4) [of 2] num_pop_small(4) [of 16]
    by (simp add: offer_items_def opcode_length_def MaxScriptElementSize_def)
  have l: "length (concat (map item_bytes ?items)) \<le> 200" using len by (simp add: offer_items_def)
  then have max: "length (concat (map item_bytes ?items)) \<le> maxScriptSize" by (simp add: maxScriptSize_def)
  show "ParseScript (OfferHTLCScript revPKH remotePub rHash localPub) = Inr (map item_pop ?items)"
    using parse_built [OF wf max] by (simp add: OfferHTLCScript_def offer_items_def)
  show "length (OfferHTLCScript revPKH remotePub rHash localPub) \<le> 520"
    using build_script_bytes [OF wf max] l by (simp add: OfferHTLCScript_def offer_items_def)
qed

lemma offered_accepted:
  assumes "length revPKH = 20" "length remotePub = 33" "length localPub = 33" "length rHash = 32"
    and "script = OfferHTLCScript revPKH remotePub rHash localPub" "length (cr_Sha256 (se_crypto ev) script) = 32"
    and "ParseScript script = Inr pops" "i < length (tx_TxIn tx)" "ti_SignatureScript (tx_TxIn tx ! i) = []"
    and "ti_Witness (tx_TxIn tx ! i) = (if hash160 ev x \<noteq> revPKH \<and> length x \<noteq> 16 then [[], rsig, sig, x, script] else [sig, x, script])"
    and "length sig \<le> 520" "length rsig \<le> 520" "length x \<le> 520"
  shows "accepts (validate_input ev (P2WSHify (se_crypto ev) script) tx (int i) spend_flags hc amt) \<longleftrightarrow>
    (if hash160 ev x = revPKH then signed_by ev pops tx i hc amt x sig
     else if length x = 16 then cr_Sha256 (se_crypto ev) x = rHash \<and> signed_by ev pops tx i hc amt remotePub sig
     else signed_by ev pops tx i hc amt remotePub rsig \<and> signed_by ev pops tx i hc amt localPub sig)"
proof (rule htlc_validated [OF assms(6,7)])
  note parse = parse_OfferHTLCScript [OF assms(1-4)]
  have pops: "pops = map item_pop (offer_items revPKH remotePub rHash localPub)" using assms(5,7) parse(1) by simp
  show "length script \<le> 520" using assms(5) parse(2) by simp
  show "length pops \<noteq> 5" "pops \<noteq> []" "length pops \<noteq> 2" by (simp_all add: pops offer_items_def)
  show "ti_Witness (tx_TxIn tx ! i) = (if hash160 ev x \<noteq> revPKH \<and> length x \<noteq> 16 then [[], rsig, sig, x] else [sig, x]) @ [script]"
    using assms(10) by simp
  show "list_all (\<lambda>x. length x \<le> 520) (if hash160 ev x \<noteq> revPKH \<and> length x \<noteq> 16 then [[], rsig, sig, x] else [sig, x])"
    using assms(11-13) by simp
  show "run_means ev (cr_Sha256 (se_crypto ev) script) tx i hc amt (signed_by ev pops tx i hc amt) pops
      (rev (if hash160 ev x \<noteq> revPKH \<and> length x \<noteq> 16 then [[], rsig, sig, x] else [sig, x]))
      (if hash160 ev x = revPKH then signed_by ev pops tx i hc amt x sig
       else if length x = 16 then cr_Sha256 (se_crypto ev) x = rHash \<and> signed_by ev pops tx i hc amt remotePub sig
       else signed_by ev pops tx i hc amt remotePub rsig \<and> signed_by ev pops tx i hc amt localPub sig)"
    unfolding pops using offer_goes [OF assms(1-4,13)] by simp
qed (fact assms)+

text \<open>The output of an HTLC in the transaction of the party that offered it has three ways of being spent: if the last element
  before the script hashes to the revocation key, the spend is accepted exactly with a signature by it; if it has 16
  bytes, exactly when it is the preimage and the other party has signed; otherwise exactly with the signatures of both
  parties, whatever the locktime: the script leaves it to the transaction that both have signed.\<close>

theorem offered_htlc_spend:
  assumes "length revPKH = 20" "length remotePub = 33" "length localPub = 33" "length rHash = 32"
    and "script = OfferHTLCScript revPKH remotePub rHash localPub" "length (cr_Sha256 (se_crypto ev) script) = 32"
    and "ParseScript script = Inr pops" "i < length (tx_TxIn tx)" "ti_SignatureScript (tx_TxIn tx ! i) = []"
    and "ti_Witness (tx_TxIn tx ! i) = (if hash160 ev x \<noteq> revPKH \<and> length x \<noteq> 16 then [[], rsig, sig, x, script] else [sig, x, script])"
    and "length sig \<le> 520" "length rsig \<le> 520" "length x \<le> 520"
  shows "accepts (validate_input ev (P2WSHify (se_crypto ev) script) tx (int i) spend_flags hc amt) \<longleftrightarrow>
    (if hash160 ev x = revPKH then signed_by ev pops tx i hc amt x sig
     else if length x = 16 then cr_Sha256 (se_crypto ev) x = rHash \<and> signed_by ev pops tx i hc amt remotePub sig
     else signed_by ev pops tx i hc amt remotePub rsig \<and> signed_by ev pops tx i hc amt localPub sig)"
  using assms by (rule offered_accepted)

section \<open>Examples\<close>

lemma sample_hash160: "hash160 sample_env x = replicate 20 0"
  by (simp add: sample_env_def)

lemma sample_ripemd: "se_Ripemd160 sample_env x = replicate 20 0"
  by (simp add: sample_env_def)

theorem received_htlc_spend_witness:
  "let script = ReceiveHTLCScript (replicate 20 1) (replicate 33 2) (replicate 32 0) (replicate 33 3) 7;
       pk = P2WSHify (se_crypto sample_env) script in
   accepts (validate_input sample_env pk (sample_tx [[], [9, 9, 1], [8, 8, 8, 1], replicate 16 5, script]) 0 spend_flags None 0) \<and>
   \<not> accepts (validate_input sample_env pk (sample_tx [[9, 9, 1], [], script]) 0 spend_flags None 0)"
proof -
  define script where "script = ReceiveHTLCScript (replicate 20 1) (replicate 33 2) (replicate 32 0) (replicate 33 3) 7"
  obtain pops where pops: "ParseScript script = Inr pops" "length pops = 29"
    using parse_ReceiveHTLCScript(1) [of "replicate 20 1" "replicate 33 2" "replicate 33 3" "replicate 32 0" 7]
    by (simp add: script_def receive_items_def)
  have n: "\<not> isWitnessPubKeyHash pops" using pops(2) by (simp add: isWitnessPubKeyHash_def)
  have k: "length (replicate 33 (2 :: byte)) = 33" "length (replicate 33 (3 :: byte)) = 33" by simp_all
  have signed: "signed_by sample_env pops tx i hc amt (replicate 33 2) [9, 9, 1]" "signed_by sample_env pops tx i hc amt (replicate 33 3) [8, 8, 8, 1]"
    for tx i hc amt
    using sample_signed [OF n k(1), of tx i hc amt "[9, 9]" 1] sample_signed [OF n k(2), of tx i hc amt "[8, 8, 8]" 1] by simp_all
  have sha: "cr_Sha256 (se_crypto sample_env) x = replicate 32 0" for x by (simp add: sample_env_def)
  note spend = received_htlc_spend [of "replicate 20 1" "replicate 33 2" "replicate 33 3" "replicate 32 0" script 7 sample_env,
      OF _ _ _ _ script_def sample_sha pops(1), where i = 0]
  have "accepts (validate_input sample_env (P2WSHify (se_crypto sample_env) script)
      (sample_tx [[], [9, 9, 1], [8, 8, 8, 1], replicate 16 5, script]) (int 0) spend_flags None 0)"
    by (subst spend [where x = "replicate 16 5" and rsig = "[9, 9, 1]" and sig = "[8, 8, 8, 1]"])
      (simp_all add: sample_tx_input sample_hash160 sample_ripemd sha signed replicate_eq_replicate)
  moreover have "\<not> accepts (validate_input sample_env (P2WSHify (se_crypto sample_env) script)
      (sample_tx [[9, 9, 1], [], script]) (int 0) spend_flags None 0)"
    by (subst spend [where x = "[]" and rsig = "[]" and sig = "[9, 9, 1]"])
      (simp_all add: sample_tx_input sample_hash160 sample_ripemd replicate_eq_replicate lock_passed_def sample_tx_def)
  ultimately show ?thesis by (simp add: script_def Let_def)
qed

theorem offered_htlc_spend_witness:
  "let script = OfferHTLCScript (replicate 20 1) (replicate 33 2) (replicate 32 0) (replicate 33 3);
       pk = P2WSHify (se_crypto sample_env) script in
   accepts (validate_input sample_env pk (sample_tx [[9, 9, 1], replicate 16 5, script]) 0 spend_flags None 0) \<and>
   accepts (validate_input sample_env pk (sample_tx [[], [9, 9, 1], [8, 8, 8, 1], [], script]) 0 spend_flags None 0)"
proof -
  define script where "script = OfferHTLCScript (replicate 20 1) (replicate 33 2) (replicate 32 0) (replicate 33 3)"
  obtain pops where pops: "ParseScript script = Inr pops" "length pops = 26"
    using parse_OfferHTLCScript(1) [of "replicate 20 1" "replicate 33 2" "replicate 33 3" "replicate 32 0"]
    by (simp add: script_def offer_items_def)
  have n: "\<not> isWitnessPubKeyHash pops" using pops(2) by (simp add: isWitnessPubKeyHash_def)
  have k: "length (replicate 33 (2 :: byte)) = 33" "length (replicate 33 (3 :: byte)) = 33" by simp_all
  have signed: "signed_by sample_env pops tx i hc amt (replicate 33 2) [9, 9, 1]" "signed_by sample_env pops tx i hc amt (replicate 33 3) [8, 8, 8, 1]"
    for tx i hc amt
    using sample_signed [OF n k(1), of tx i hc amt "[9, 9]" 1] sample_signed [OF n k(2), of tx i hc amt "[8, 8, 8]" 1] by simp_all
  have sha: "cr_Sha256 (se_crypto sample_env) x = replicate 32 0" for x by (simp add: sample_env_def)
  note spend = offered_htlc_spend [of "replicate 20 1" "replicate 33 2" "replicate 33 3" "replicate 32 0" script sample_env,
      OF _ _ _ _ script_def sample_sha pops(1), where i = 0]
  have "accepts (validate_input sample_env (P2WSHify (se_crypto sample_env) script)
      (sample_tx [[9, 9, 1], replicate 16 5, script]) (int 0) spend_flags None 0)"
    by (subst spend [where x = "replicate 16 5" and rsig = "[]" and sig = "[9, 9, 1]"])
      (simp_all add: sample_tx_input sample_hash160 sample_ripemd sha signed replicate_eq_replicate)
  moreover have "accepts (validate_input sample_env (P2WSHify (se_crypto sample_env) script)
      (sample_tx [[], [9, 9, 1], [8, 8, 8, 1], [], script]) (int 0) spend_flags None 0)"
    by (subst spend [where x = "[]" and rsig = "[9, 9, 1]" and sig = "[8, 8, 8, 1]"])
      (simp_all add: sample_tx_input sample_hash160 sample_ripemd signed replicate_eq_replicate)
  ultimately show ?thesis by (simp add: script_def Let_def)
qed

end
