(* ===== verification/HtlcClaim.thy ===== *)
theory HtlcClaim
  imports Multihop Recovery HtlcSpend
begin

text \<open>
  Claiming HTLCs (\<open>ClaimHTLC\<close>, \<open>ClaimHTLCTimeouts\<close> and \<open>ClaimHTLCOnChain\<close> of \<open>qln/htlc.go\<close>, the part of
  \<open>OPEventHandler\<close> of \<open>qln/msghandler.go\<close> for HTLC outputs): on chain from the transaction that closed the channel, otherwise
  by clearing it with the peer.
\<close>

section \<open>The claim transaction\<close>

text \<open>The key of an HTLC at the current state of the channel.\<close>

definition claim_key :: "close_env \<Rightarrow> qchan \<Rightarrow> htlc \<Rightarrow> lit_error + bytes" where
  "claim_key ce q h =
     bind_res (sender_AtIndex (cr_DoubleHash (ce_crypto ce)) (q_ElkSnd q) (st_StateIdx (q_State q))) (\<lambda>curElk.
     bind_res (ev_GetPriv (ce_ev ce) (ht_KeyGen h)) (\<lambda>base.
       Inr (ev_CombinePriv (ce_ev ce) base (ElkScalar (ce_crypto ce) curElk))))"

text \<open>
  The transaction to be signed. From the own commitment it is the one both parties have signed (an empty one when there
  is none for this output), from the other party's it pays to a new address.
\<close>

definition claim_base :: "qchan \<Rightarrow> htlc \<Rightarrow> bool \<Rightarrow> outpoint \<Rightarrow> msg_tx list \<Rightarrow> lit_error + bytes \<Rightarrow> lit_error + msg_tx" where
  "claim_base q h mine op spends adr =
     (if mine then Inr (case find (\<lambda>s. ti_PreviousOutPoint (tx_TxIn s ! 0) = op) spends of None \<Rightarrow> NewMsgTx | Some s \<Rightarrow> s)
      else bind_res adr (\<lambda>pkh.
        Inr (AddTxOut (AddTxIn (NewMsgTx\<lparr>tx_Version := 2, tx_LockTime := (if ht_Incoming h then 0 else ht_Locktime h)\<rparr>)
               ((NewTxIn op [] [])\<lparr>ti_Sequence := 0\<rparr>))
             (NewTxOut (of_int (ht_Amt h - st_Fee (q_State q))) (DirectWPKHScriptFromPKH pkh)))))"

definition claim_witness :: "htlc \<Rightarrow> bool \<Rightarrow> bytes \<Rightarrow> bytes \<Rightarrow> bytes list" where
  "claim_witness h mine script mySig =
     (let theirSig = SigDecompress (ht_Sig h) @ [ucast SigHashAll];
          x = (if ht_Incoming h then ht_R h else [])
      in if mine then [[], theirSig, mySig, x, script] else [mySig, x, script])"

text \<open>The signed claim, and the output it spends.\<close>

definition signed_claim ::
  "close_env \<Rightarrow> qchan \<Rightarrow> htlc \<Rightarrow> msg_tx \<Rightarrow> msg_tx list \<Rightarrow> bool \<Rightarrow> lit_error + bytes \<Rightarrow> lit_error + msg_tx" where
  "signed_claim ce q h stateTx spends mine adr =
     (let cr = ce_crypto ce in
      bind_res (GetHTLCOut cr q h stateTx mine) (\<lambda>(htlcTxo, i).
      bind_res (claim_key ce q h) (\<lambda>priv.
      bind_res (claim_base q h mine \<lparr>op_Hash = TxHash cr stateTx, op_Index = i\<rparr> spends adr) (\<lambda>tx.
      bind_res (GenHTLCScript cr q h mine) (\<lambda>script.
      bind_res (RawTxInWitnessSignature ce tx (NewTxSigHashes cr tx) 0 (sint (to_Value htlcTxo)) script SigHashAll priv) (\<lambda>mySig.
        Inr (set_witness tx (claim_witness h mine script mySig))))))))"

text \<open>
  The output of a claim from the own commitment, which can be spent after the delay; nothing is given to the wallet when
  its script is another one.
\<close>

definition claim_txo :: "crypto \<Rightarrow> qchan \<Rightarrow> msg_tx \<Rightarrow> u64 \<Rightarrow> lit_error + por_txo list" where
  "claim_txo cr q tx comNum =
     bind_res (ElkPoint cr q False comNum) (\<lambda>theirElkPoint.
     let timeoutPub = cr_AddPubsEZ cr (q_MyHAKDBase q) theirElkPoint;
         revokePub = cr_CombinePubs cr (q_TheirHAKDBase q) theirElkPoint;
         script = CommitScript revokePub timeoutPub (q_Delay q);
         paid = to_PkScript (tx_TxOut tx ! 0)
     in if tx_TxOut tx = [] \<or> length paid < 34 then Inl Panic
        else if cr_Sha256 cr script \<noteq> take 32 (drop 2 paid) then Inr []
        else bind_res (sender_AtIndex (cr_DoubleHash cr) (q_ElkSnd q) comNum) (\<lambda>elk.
          let addhash = cr_DoubleHash cr (ElkPointFromHash cr elk @ q_MyHAKDBase q)
          in Inr [sh_txo cr q tx 0 addhash script (ucast (q_Delay q)) []]))"

text \<open>The channel, the transactions published, the outputs given to the wallet, and the result.\<close>

definition ClaimHTLCOnChain ::
  "close_env \<Rightarrow> lit_error + bytes \<Rightarrow> qchan \<Rightarrow> htlc \<Rightarrow> qchan \<times> msg_tx list \<times> por_txo list \<times> (lit_error + msg_tx)" where
  "ClaimHTLCOnChain ce adr q h =
     (let cr = ce_crypto ce in
      case ev_wallet (ce_ev ce) (Qchan_Coin q) of None \<Rightarrow> (q, [], [], Inl OutOfRange)
      | Some wal \<Rightarrow>
        if \<not> ht_Incoming h \<and> wl_Height wal < sint (ht_Locktime h) then (q, [], [], Inl OutOfRange)
        else (case GetCloseTxs cr q of
          (q, Inl e) \<Rightarrow> (q, [], [], Inl e)
        | (q, Inr (stateTx, spends, mine)) \<Rightarrow>
          (case signed_claim ce q h stateTx spends mine adr of
             Inl e \<Rightarrow> (q, [], [], Inl e)
           | Inr tx \<Rightarrow>
             (case (if mine then claim_txo cr q tx (GetStateIdxFromTx stateTx (GetChanHint cr q True)) else Inr []) of
                Inl e \<Rightarrow> (q, [tx], [], Inl e)
              | Inr txos \<Rightarrow> (q, [tx], txos, Inr tx)))))"

section \<open>Claiming by preimage and by timeout\<close>

text \<open>
  What a claim is given besides: the order of the channel bucket, the addresses of the wallet by number, and what happens
  while it waits for the peer to answer: the node and channel after the wait, and whether the timer has fired.
\<close>

record claim_env =
  cm_ce :: close_env
  cm_keys :: "bytes list"
  cm_NewAdr :: "u32 \<Rightarrow> nat \<Rightarrow> lit_error + bytes"
  cm_wait :: "lit_node \<Rightarrow> qchan \<Rightarrow> lit_node \<times> qchan \<times> bool"

text \<open>
  The state of a claim: the node, the channels in memory of the connected peers (by peer and channel number), the channel
  objects this claim has used before (HTLCs of one channel share the object), the addresses used, and what was sent.
\<close>

record claim_run =
  cn_node :: lit_node
  cn_QCs :: "u32 \<Rightarrow> u32 \<Rightarrow> qchan option"
  cn_seen :: "outpoint \<Rightarrow> qchan option"
  cn_asked :: nat
  cn_txs :: "msg_tx list"
  cn_txos :: "por_txo list"
  cn_msgs :: "lit_msg list"
  cn_txids :: "bytes list"

text \<open>Errors are logged and the next HTLC is tried; a panic and a lock that is not given end the run.\<close>

definition stops :: "lit_error \<Rightarrow> bool" where
  "stops e \<longleftrightarrow> e = Panic \<or> e = Blocked"

definition claim_closed :: "claim_env \<Rightarrow> claim_run \<Rightarrow> qchan \<Rightarrow> htlc \<Rightarrow> claim_run \<times> (lit_error + bool)" where
  "claim_closed cm cn q h =
     (let ev = ce_ev (cm_ce cm) in
      case ClaimHTLCOnChain (cm_ce cm) (cm_NewAdr cm (Qchan_Coin q) (cn_asked cn)) q h of (q, txs, txos, r) \<Rightarrow>
        let cn = cn\<lparr>cn_asked := cn_asked cn + 1, cn_seen := (cn_seen cn)(q_Op q := Some q),
              cn_txs := cn_txs cn @ txs, cn_txos := cn_txos cn @ txos\<rparr>
        in (case r of Inl e \<Rightarrow> (cn, if stops e then Inl e else Inr False)
           | Inr tx \<Rightarrow>
             (case SetHTLCClearedOnChain ev (cn_node cn) q h of (nd, q, e) \<Rightarrow>
                let cn = cn\<lparr>cn_node := nd, cn_seen := (cn_seen cn)(q_Op q := Some q)\<rparr>
                in if e = Some Panic then (cn, Inl Panic)
                   else (cn\<lparr>cn_txids := cn_txids cn @ [TxHash (ce_crypto (cm_ce cm)) tx]\<rparr>, Inr True))))"

definition claim_open :: "claim_env \<Rightarrow> claim_run \<Rightarrow> qchan \<Rightarrow> bytes \<Rightarrow> u32 \<Rightarrow> claim_run \<times> lit_error option" where
  "claim_open cm cn qc R idx =
     (let ev = ce_ev (cm_ce cm);
          put = (\<lambda>nd qc. cn\<lparr>cn_node := nd, cn_QCs := (\<lambda>p i. if p = Qchan_Peer qc \<and> i = Qchan_Idx qc then Some qc else cn_QCs cn p i)\<rparr>)
      in case ClearHTLC ev (cn_node cn) qc R idx (replicate 32 0) of
           (nd, qc, msgs, Some e) \<Rightarrow> ((put nd qc)\<lparr>cn_msgs := cn_msgs cn @ msgs\<rparr>, Some e)
         | (nd, qc, msgs, None) \<Rightarrow>
           (case cm_wait cm nd qc of (nd, qc, fired) \<Rightarrow>
             (case ClearHTLC_wait ev nd qc fired of (nd, qc, msgs', e) \<Rightarrow>
               ((put nd qc)\<lparr>cn_msgs := cn_msgs cn @ msgs @ msgs'\<rparr>, e))))"

definition chan_seen :: "claim_run \<Rightarrow> qchan \<Rightarrow> qchan" where
  "chan_seen cn q = (case cn_seen cn (q_Op q) of None \<Rightarrow> q | Some q' \<Rightarrow> q')"

text \<open>One HTLC with the hash: whether it was claimed.\<close>

definition claim_htlc :: "claim_env \<Rightarrow> bytes \<Rightarrow> claim_run \<Rightarrow> htlc \<times> qchan \<Rightarrow> claim_run \<times> (lit_error + bool)" where
  "claim_htlc cm R cn hq =
     (case hq of (h, q) \<Rightarrow>
        let q = chan_seen cn q in
        if \<not> (ht_Incoming h \<and> \<not> ht_Cleared h) then (cn, Inr False)
        else if cl_Closed (q_CloseData q) then claim_closed cm cn q (h\<lparr>ht_R := R\<rparr>)
        else (case cn_QCs cn (Qchan_Peer q) (Qchan_Idx q) of None \<Rightarrow> (cn, Inr False)
             | Some qc \<Rightarrow>
               (case claim_open cm cn qc R (ht_Idx h) of
                  (cn, None) \<Rightarrow> (cn, Inr True)
                | (cn, Some e) \<Rightarrow> (cn, if stops e then Inl e else Inr False))))"

text \<open>
  After each HTLC that was claimed the multihop mutex is taken inside the loop and released when the function returns:
  the next one waits for itself.
\<close>

primrec claim_loop :: "claim_env \<Rightarrow> bytes \<Rightarrow> (htlc \<times> qchan) list \<Rightarrow> bool \<Rightarrow> claim_run \<Rightarrow> claim_run \<times> lit_error option" where
  "claim_loop cm R [] locked cn = (cn, None)"
| "claim_loop cm R (hq # hqs) locked cn =
     (case claim_htlc cm R cn hq of
        (cn, Inl e) \<Rightarrow> (cn, Some e)
      | (cn, Inr False) \<Rightarrow> claim_loop cm R hqs locked cn
      | (cn, Inr True) \<Rightarrow>
        if locked then (cn, Some Blocked)
        else
          let nd = cn_node cn;
              (mus, db) = mark_payment ((fst hq)\<lparr>ht_R := R\<rparr>) (nd_InProgMultihop nd) (nd_Payments nd)
          in claim_loop cm R hqs True (cn\<lparr>cn_node := nd\<lparr>nd_InProgMultihop := mus, nd_Payments := db\<rparr>\<rparr>))"

definition ClaimHTLC :: "claim_env \<Rightarrow> claim_run \<Rightarrow> bytes \<Rightarrow> claim_run \<times> lit_error option" where
  "ClaimHTLC cm cn R =
     claim_loop cm R
       (FindHTLCsByHash (ce_ev (cm_ce cm)) (cn_node cn) (cm_keys cm) (cr_Sha256 (ce_crypto (cm_ce cm)) R))
       False (cn\<lparr>cn_seen := (\<lambda>op. None), cn_txids := []\<rparr>)"

text \<open>By timeout, an HTLC of an open channel whose peer or channel is not found ends the loop.\<close>

primrec timeout_loop :: "claim_env \<Rightarrow> (htlc \<times> qchan) list \<Rightarrow> claim_run \<Rightarrow> claim_run \<times> lit_error option" where
  "timeout_loop cm [] cn = (cn, None)"
| "timeout_loop cm (hq # hqs) cn =
     (case hq of (h, q) \<Rightarrow>
        let q = chan_seen cn q in
        if ht_Incoming h then timeout_loop cm hqs cn
        else if cl_Closed (q_CloseData q) then
          (case claim_closed cm cn q h of
             (cn, Inl e) \<Rightarrow> (cn, Some e) | (cn, Inr b) \<Rightarrow> timeout_loop cm hqs cn)
        else (case cn_QCs cn (Qchan_Peer q) (Qchan_Idx q) of None \<Rightarrow> (cn, Some OutOfRange)
             | Some qc \<Rightarrow>
               (case claim_open cm cn qc zeroR (ht_Idx h) of
                  (cn, None) \<Rightarrow> timeout_loop cm hqs cn
                | (cn, Some e) \<Rightarrow> if stops e then (cn, Some e) else timeout_loop cm hqs cn)))"

definition ClaimHTLCTimeouts :: "claim_env \<Rightarrow> claim_run \<Rightarrow> u32 \<Rightarrow> int \<Rightarrow> claim_run \<times> lit_error option" where
  "ClaimHTLCTimeouts cm cn coinType height =
     (case FindHTLCsByTimeoutHeight (ce_ev (cm_ce cm)) (cn_node cn) (cm_keys cm) coinType height of
        Inl e \<Rightarrow> (cn, Some e)
      | Inr hqs \<Rightarrow> timeout_loop cm hqs (cn\<lparr>cn_seen := (\<lambda>op. None), cn_txids := []\<rparr>))"

section \<open>Preimages on the chain\<close>

text \<open>The preimage in the witness of an input that may claim an HTLC: of a claim from the own, or from the other party's commitment.\<close>

definition input_preimage :: "tx_in \<Rightarrow> bytes option" where
  "input_preimage txi =
     (let w = ti_Witness txi;
          a = (if length w = 5 \<and> w ! 0 = [] \<and> length (w ! 3) = 16 then Some (w ! 3) else None)
      in if length w = 3 \<and> length (w ! 1) = 16 then Some (w ! 1) else a)"

text \<open>
  The event of an output that is no funding output: an HTLC is looked for among the HTLCs of all channels, an error is
  logged and taken for none found.
\<close>

primrec claim_all :: "claim_env \<Rightarrow> bytes list \<Rightarrow> claim_run \<Rightarrow> claim_run \<times> lit_error option" where
  "claim_all cm [] cn = (cn, None)"
| "claim_all cm (R # Rs) cn =
     (case ClaimHTLC cm cn R of
        (cn, Some e) \<Rightarrow> if stops e then (cn, Some e) else claim_all cm Rs cn
      | (cn, None) \<Rightarrow> claim_all cm Rs cn)"

definition htlc_spend_event :: "claim_env \<Rightarrow> claim_run \<Rightarrow> outpoint \<Rightarrow> msg_tx \<Rightarrow> claim_run \<times> lit_error option" where
  "htlc_spend_event cm cn op tx =
     (case GetHTLC (ce_crypto (cm_ce cm)) op (GetAllQchans (ce_ev (cm_ce cm)) (cn_node cn) (cm_keys cm)) of
        Inl e \<Rightarrow> (cn, if e = Panic then Some Panic else None)
      | Inr None \<Rightarrow> (cn, None)
      | Inr (Some (h, q)) \<Rightarrow>
        if ht_Idx h = 0 \<and> ht_Amt h = 0 then (cn, None)
        else claim_all cm (List.map_filter input_preimage (tx_TxIn tx)) cn)"

section \<open>The claim is a spend of the HTLC output\<close>

text \<open>The keys of the two parties in the script of an HTLC.\<close>

definition our_htlc_key :: "crypto \<Rightarrow> htlc \<Rightarrow> bytes \<Rightarrow> bytes" where
  "our_htlc_key cr h elk = cr_CombinePubs cr (ht_MyHTLCBase h) elk"

definition their_htlc_key :: "crypto \<Rightarrow> qchan \<Rightarrow> htlc \<Rightarrow> bytes" where
  "their_htlc_key cr q h = cr_CombinePubs cr (ht_TheirHTLCBase h) (st_ElkPoint (q_State q))"

lemma GenHTLCScript_form:
  assumes "GenHTLCScript cr q h mine = Inr script"
  obtains rp tp pk elk where "GetKeysFromState cr q mine = Inr (rp, tp, pk)" "ElkPoint cr q False (st_StateIdx (q_State q)) = Inr elk"
    "script = (let remote = (if mine then their_htlc_key cr q h else our_htlc_key cr h elk);
        local = (if mine then our_htlc_key cr h elk else their_htlc_key cr q h);
        revPKH = copy_fresh 20 (take 20 (cr_Hash160 cr rp))
      in if ht_Incoming h = mine then ReceiveHTLCScript revPKH remote (ht_RHash h) local (ht_Locktime h)
         else OfferHTLCScript revPKH remote (ht_RHash h) local)"
proof -
  obtain rp tp pk elk where k: "GetKeysFromState cr q mine = Inr (rp, tp, pk)" "ElkPoint cr q False (st_StateIdx (q_State q)) = Inr elk"
    "script = GenHTLCScriptWithElkPointsAndRevPub cr h mine (st_ElkPoint (q_State q)) elk rp"
    using assms by (auto simp: GenHTLCScript_def bind_res_eq_Inr)
  show thesis
    by (rule that [OF k(1,2)]) (simp add: k(3) GenHTLCScriptWithElkPointsAndRevPub_def their_htlc_key_def our_htlc_key_def Let_def)
qed

text \<open>What the witness of a claim shows besides signatures: the preimage, or nothing. It is not the revocation key.\<close>

definition claim_secret :: "htlc \<Rightarrow> bytes" where
  "claim_secret h = (if ht_Incoming h then ht_R h else [])"

definition claimable :: "close_env \<Rightarrow> qchan \<Rightarrow> htlc \<Rightarrow> bool \<Rightarrow> bool" where
  "claimable ce q h mine \<longleftrightarrow> length (ht_RHash h) = 32 \<and>
     (ht_Incoming h \<longrightarrow> length (ht_R h) = 16 \<and> cr_Sha256 (ce_crypto ce) (ht_R h) = ht_RHash h) \<and>
     (\<forall>p. length (cr_CombinePubs (ce_crypto ce) (ht_MyHTLCBase h) p) = 33 \<and> length (cr_CombinePubs (ce_crypto ce) (ht_TheirHTLCBase h) p) = 33) \<and>
     (\<forall>rp tp pk. GetKeysFromState (ce_crypto ce) q mine = Inr (rp, tp, pk) \<longrightarrow>
        hash160 (ce_se ce) (claim_secret h) \<noteq> copy_fresh 20 (take 20 (cr_Hash160 (ce_crypto ce) rp)))"

lemma claim_parses:
  assumes "GenHTLCScript (ce_crypto ce) q h mine = Inr script" "claimable ce q h mine"
  shows "\<exists>pops. ParseScript script = Inr pops \<and> \<not> isWitnessPubKeyHash pops"
proof -
  obtain r a b where s: "length r = 20" "length a = 33" "length b = 33" "length (ht_RHash h) = 32"
    "script \<in> {ReceiveHTLCScript r a (ht_RHash h) b (ht_Locktime h), OfferHTLCScript r a (ht_RHash h) b}"
  proof (rule GenHTLCScript_form [OF assms(1)], goal_cases)
    case (1 rp tp pk elk)
    show ?case
      by (rule 1(1) [of "copy_fresh 20 (take 20 (cr_Hash160 (ce_crypto ce) rp))"
          "if mine then their_htlc_key (ce_crypto ce) q h else our_htlc_key (ce_crypto ce) h elk"
          "if mine then our_htlc_key (ce_crypto ce) h elk else their_htlc_key (ce_crypto ce) q h"])
        (use assms(2) 1(4) in \<open>simp_all add: claimable_def their_htlc_key_def our_htlc_key_def Let_def\<close>)
  qed
  show ?thesis
    using s(5) parse_ReceiveHTLCScript(1) [OF s(1-4)] parse_OfferHTLCScript(1) [OF s(1-4)]
    by (auto simp: isWitnessPubKeyHash_def receive_items_def offer_items_def)
qed

lemma claim_accepted:
  assumes g: "GenHTLCScript (ce_crypto ce) q h mine = Inr script" "ParseScript script = Inr pops" "claimable ce q h mine"
    and elk: "ElkPoint (ce_crypto ce) q False (st_StateIdx (q_State q)) = Inr elk"
    and snd: "sound_engine (ce_se ce)"
    and tx: "tx_TxIn tx \<noteq> []" "ti_SignatureScript (tx_TxIn tx ! 0) = []" "t = set_witness tx (claim_witness h mine script mySig)"
    and lock: "\<not> mine \<Longrightarrow> \<not> ht_Incoming h \<Longrightarrow> lock_passed t 0 (ht_Locktime h)"
    and sigs: "signed_by (ce_se ce) pops t 0 None amt (our_htlc_key (ce_crypto ce) h elk) mySig" "length mySig \<le> 520"
      "mine \<Longrightarrow> signed_by (ce_se ce) pops t 0 None amt (their_htlc_key (ce_crypto ce) q h) (SigDecompress (ht_Sig h) @ [ucast SigHashAll])"
      "length (ht_Sig h) = 64"
  shows "accepts (validate_input (ce_se ce) (P2WSHify (ce_crypto ce) script) t 0 spend_flags None amt)"
proof -
  let ?cr = "ce_crypto ce"
  obtain rp tp pk elk' where k: "GetKeysFromState ?cr q mine = Inr (rp, tp, pk)" "elk' = elk"
    "script = (let remote = (if mine then their_htlc_key ?cr q h else our_htlc_key ?cr h elk');
        local = (if mine then our_htlc_key ?cr h elk' else their_htlc_key ?cr q h);
        revPKH = copy_fresh 20 (take 20 (cr_Hash160 ?cr rp))
      in if ht_Incoming h = mine then ReceiveHTLCScript revPKH remote (ht_RHash h) local (ht_Locktime h)
         else OfferHTLCScript revPKH remote (ht_RHash h) local)"
    using GenHTLCScript_form [OF g(1)] elk by (metis sum.inject(2))
  let ?r = "copy_fresh 20 (take 20 (cr_Hash160 ?cr rp))"
  let ?remote = "if mine then their_htlc_key ?cr q h else our_htlc_key ?cr h elk"
  let ?local = "if mine then our_htlc_key ?cr h elk else their_htlc_key ?cr q h"
  have script: "script = (if ht_Incoming h = mine then ReceiveHTLCScript ?r ?remote (ht_RHash h) ?local (ht_Locktime h)
      else OfferHTLCScript ?r ?remote (ht_RHash h) ?local)"
    using k(2,3) by (simp add: Let_def)
  have len: "length ?r = 20" "length ?remote = 33" "length ?local = 33" "length (ht_RHash h) = 32"
    using g(3) by (simp_all add: claimable_def their_htlc_key_def our_htlc_key_def)
  have s: "length (cr_Sha256 ?cr script) = 32" using snd by (simp add: sound_engine_def)
  have i: "0 < length (tx_TxIn t)" "ti_SignatureScript (tx_TxIn t ! 0) = []"
    "ti_Witness (tx_TxIn t ! 0) = claim_witness h mine script mySig"
    using tx by (auto simp: set_witness_def)
  have n: "hash160 (ce_se ce) (claim_secret h) \<noteq> ?r" "length (claim_secret h) \<le> 520" "length (claim_secret h) = 16 \<longleftrightarrow> ht_Incoming h"
    "ht_Incoming h \<Longrightarrow> cr_Sha256 ?cr (claim_secret h) = ht_RHash h"
    using g(3) k(1) by (auto simp: claimable_def claim_secret_def)
  let ?their = "SigDecompress (ht_Sig h) @ [ucast SigHashAll]"
  have l: "length ?their \<le> 520" using SigDecompress_length [OF sigs(4)] by simp
  show ?thesis
  proof (cases "ht_Incoming h = mine")
    case True
    then have w: "ti_Witness (tx_TxIn t ! 0) = (if hash160 (ce_se ce) (claim_secret h) \<noteq> ?r \<and> length (claim_secret h) = 16
        then [[], ?their, mySig, claim_secret h, script] else [mySig, claim_secret h, script])"
      using n by (simp add: i(3) claim_witness_def claim_secret_def Let_def)
    have sc: "script = ReceiveHTLCScript ?r ?remote (ht_RHash h) ?local (ht_Locktime h)" using script True by simp
    from received_accepted [OF len sc s g(2) i(1,2) w sigs(2) l n(2), of None amt] show ?thesis
      using n(1,3,4) True sigs(1,3) lock by auto
  next
    case False
    then have w: "ti_Witness (tx_TxIn t ! 0) = (if hash160 (ce_se ce) (claim_secret h) \<noteq> ?r \<and> length (claim_secret h) \<noteq> 16
        then [[], ?their, mySig, claim_secret h, script] else [mySig, claim_secret h, script])"
      using n by (auto simp: i(3) claim_witness_def claim_secret_def Let_def)
    have sc: "script = OfferHTLCScript ?r ?remote (ht_RHash h) ?local" using script False by simp
    from offered_accepted [OF len sc s g(2) i(1,2) w sigs(2) l n(2), of None amt] show ?thesis
      using n(1,3,4) False sigs(1,3) by auto
  qed
qed

text \<open>Every HTLC transaction of a commitment has one input without a signature script.\<close>

lemma spends_shape:
  assumes "BuildStateTxs cr q mine = Inr (tx, spends, outs)" "s \<in> set spends"
  shows "length (tx_TxIn s) = 1 \<and> ti_SignatureScript (tx_TxIn s ! 0) = []"
proof -
  let ?ok = "\<lambda>s. length (tx_TxIn s) = 1 \<and> ti_SignatureScript (tx_TxIn s ! 0) = []"
  obtain rp tp m where m: "htlc_spends cr q mine rp tp tx outs = Inr m" "spends = map_arr m"
    using BuildStateTxs_elim [OF assms(1)] by metis
  have step: "?ok sp" if "htlc_spend cr q mine rp tp tx j out = Inr (i, sp)" for j out i sp
    using that by (auto simp: htlc_spend_def Let_def bind_res_eq_Inr AddTxIn_def AddTxOut_def NewMsgTx_def NewTxIn_def split: if_splits)
  have "\<forall>(k, sp) \<in> set m. ?ok sp"
    if "fold_res (\<lambda>m (j, h). bind_res (htlc_spend cr q mine rp tp tx j h) (\<lambda>(i, sp). Inr (map_put i sp m))) m0 xs = Inr m"
      "\<forall>(k, sp) \<in> set m0. ?ok sp" for m0 xs m
    using that
  proof (induction xs arbitrary: m0)
    case (Cons x xs)
    obtain j out where x: "x = (j, out)" by fastforce
    obtain i sp where h: "htlc_spend cr q mine rp tp tx j out = Inr (i, sp)"
      "fold_res (\<lambda>m (j, h). bind_res (htlc_spend cr q mine rp tp tx j h) (\<lambda>(i, sp). Inr (map_put i sp m))) (map_put i sp m0) xs = Inr m"
      using Cons.prems(1) by (auto simp: x bind_res_eq_Inr)
    have "\<forall>(k, sp) \<in> set (map_put i sp m0). ?ok sp"
      using Cons.prems(2) step [OF h(1)] by (auto simp: map_put_def)
    then show ?case by (rule Cons.IH [OF h(2)])
  qed simp
  then have "\<forall>(k, sp) \<in> set m. ?ok sp" using m(1) unfolding htlc_spends_def by fastforce
  moreover obtain k where "map_of m k = Some s"
    using assms(2) unfolding m(2) map_arr_def by (auto split: option.splits)
  ultimately show ?thesis using map_of_SomeD by fastforce
qed

lemma GetCloseTxs_spends:
  assumes "GetCloseTxs cr q = (q', Inr (stateTx, spends, mine))" "s \<in> set spends"
  shows "length (tx_TxIn s) = 1 \<and> ti_SignatureScript (tx_TxIn s ! 0) = []"
  using assms spends_shape by (auto simp: GetCloseTxs_def Let_def bind_res_eq_Inr split: if_splits)

text \<open>A node that signs with the key of its HTLC.\<close>

definition htlc_signer :: "close_env \<Rightarrow> qchan \<Rightarrow> htlc \<Rightarrow> bool" where
  "htlc_signer ce q h \<longleftrightarrow> (\<exists>priv elk key. claim_key ce q h = Inr priv \<and>
     ElkPoint (ce_crypto ce) q False (st_StateIdx (q_State q)) = Inr elk \<and>
     se_ParsePubKey (ce_se ce) (our_htlc_key (ce_crypto ce) h elk) = Some key \<and>
     (\<forall>hash. \<exists>s sig. ce_Sign ce priv hash = Inr s \<and> length s \<le> 72 \<and> se_ParseSignature (ce_se ce) s = Some sig \<and>
        se_Verify (ce_se ce) sig hash key))"

lemma own_signature:
  assumes "htlc_signer ce q h" "ParseScript script = Inr pops" "\<not> isWitnessPubKeyHash pops"
  obtains priv elk mySig where "claim_key ce q h = Inr priv" "ElkPoint (ce_crypto ce) q False (st_StateIdx (q_State q)) = Inr elk"
    "RawTxInWitnessSignature ce tx (NewTxSigHashes (ce_crypto ce) tx) 0 amt script SigHashAll priv = Inr mySig" "length mySig \<le> 73"
    "\<And>w. signed_by (ce_se ce) pops (set_witness tx w) 0 None amt (our_htlc_key (ce_crypto ce) h elk) mySig"
proof -
  obtain priv elk key where k: "claim_key ce q h = Inr priv" "ElkPoint (ce_crypto ce) q False (st_StateIdx (q_State q)) = Inr elk"
    "se_ParsePubKey (ce_se ce) (our_htlc_key (ce_crypto ce) h elk) = Some key"
    "\<And>hash. \<exists>s sig. ce_Sign ce priv hash = Inr s \<and> length s \<le> 72 \<and> se_ParseSignature (ce_se ce) s = Some sig \<and> se_Verify (ce_se ce) sig hash key"
    using assms(1) unfolding htlc_signer_def by blast
  obtain hash where h: "CalcWitnessSignatureHash (ce_crypto ce) pops (NewTxSigHashes (ce_crypto ce) tx) SigHashAll tx 0 amt = Inr hash"
    using CalcWitnessSignatureHash_returns [OF assms(3)] by blast
  obtain s sig where s: "ce_Sign ce priv hash = Inr s" "length s \<le> 72" "se_ParseSignature (ce_se ce) s = Some sig" "se_Verify (ce_se ce) sig hash key"
    using k(4) by blast
  have "RawTxInWitnessSignature ce tx (NewTxSigHashes (ce_crypto ce) tx) 0 amt script SigHashAll priv = Inr (s @ [ucast SigHashAll])"
    by (simp add: RawTxInWitnessSignature_def script_res_def assms(2) h s(1))
  moreover have "signed_by (ce_se ce) pops (set_witness tx w) 0 None amt (our_htlc_key (ce_crypto ce) h elk) (s @ [ucast SigHashAll])" for w
    using h s(3,4) k(3) by (simp add: signed_by_def sighash_types sig_valid_def)
  ultimately show thesis using that k(1,2) s(2) by (metis length_append_singleton Suc_le_mono add_Suc numeral_eq_Suc pred_numeral_simps(3) eval_nat_numeral(3))
qed

text \<open>C11: A node that finds a channel closed by the commitment of either party can take an HTLC of it, with the preimage when it
  is incoming and after its locktime when it is outgoing: \<open>ClaimHTLCOnChain\<close> publishes one transaction, it spends the
  output of the HTLC, and the script engine accepts it. From the own commitment this needs the signature of the peer on the HTLC transaction.\<close>

theorem htlc_claim_accepted:
  assumes close: "GetCloseTxs (ce_crypto ce) q = (q', Inr (stateTx, spends, mine))" "GetHTLCOut (ce_crypto ce) q' h stateTx mine = Inr (out, i)"
    and wal: "ev_wallet (ce_ev ce) (Qchan_Coin q) = Some wal" "\<not> ht_Incoming h \<Longrightarrow> sint (ht_Locktime h) \<le> wl_Height wal"
    and own: "htlc_signer ce q' h" "claimable ce q' h mine" "sound_engine (ce_se ce)" "length (ht_Sig h) = 64"
    and peer: "mine \<Longrightarrow> find (\<lambda>s. ti_PreviousOutPoint (tx_TxIn s ! 0) = \<lparr>op_Hash = TxHash (ce_crypto ce) stateTx, op_Index = i\<rparr>) spends = Some sp"
      "\<And>script. mine \<Longrightarrow> GenHTLCScript (ce_crypto ce) q' h mine = Inr script \<Longrightarrow>
        check64 ce Mismatch (their_htlc_key (ce_crypto ce) q' h) script sp (sint (to_Value out)) (ht_Sig h) = None"
  shows "\<exists>tx txos r. ClaimHTLCOnChain ce (Inr pkh) q h = (q', [tx], txos, r) \<and>
    ti_PreviousOutPoint (tx_TxIn tx ! 0) = \<lparr>op_Hash = TxHash (ce_crypto ce) stateTx, op_Index = i\<rparr> \<and>
    accepts (validate_input (ce_se ce) (to_PkScript out) tx 0 spend_flags None (sint (to_Value out)))"
proof -
  let ?cr = "ce_crypto ce" and ?op = "\<lparr>op_Hash = TxHash (ce_crypto ce) stateTx, op_Index = i\<rparr>" and ?v = "sint (to_Value out)"
  obtain script j where script: "GenHTLCScript ?cr q' h mine = Inr script"
    and j: "find_idx (\<lambda>o'. to_PkScript o' = P2WSHify ?cr script) (tx_TxOut stateTx) = Some j" "out = tx_TxOut stateTx ! j"
    using close(2) by (auto simp: GetHTLCOut_def GenHTLCOut_alt bind_res_eq_Inr NewTxOut_def split: if_splits option.splits)
  have paid: "to_PkScript out = P2WSHify ?cr script" using find_idx_Some [OF j(1)] j(2) by simp
  obtain pops where pops: "ParseScript script = Inr pops" "\<not> isWitnessPubKeyHash pops"
    using claim_parses [OF script own(2)] by blast
  obtain base where base: "claim_base q' h mine ?op spends (Inr pkh) = Inr base" "length (tx_TxIn base) = 1"
    "ti_SignatureScript (tx_TxIn base ! 0) = []" "ti_PreviousOutPoint (tx_TxIn base ! 0) = ?op" "mine \<longrightarrow> base = sp"
    "\<not> mine \<longrightarrow> \<not> ht_Incoming h \<longrightarrow> lock_passed base 0 (ht_Locktime h)"
  proof (cases mine)
    case True
    note f = peer(1) [OF True]
    have "sp \<in> set spends" "ti_PreviousOutPoint (tx_TxIn sp ! 0) = ?op" using f by (auto simp: find_Some_iff)
    then show ?thesis using that [of sp] GetCloseTxs_spends [OF close(1), of sp] True f by (simp add: claim_base_def)
  next
    case False
    then show ?thesis
      by (intro that [OF _ _ _ _ _ _]) (auto simp: claim_base_def AddTxIn_def AddTxOut_def NewMsgTx_def NewTxIn_def lock_passed_def MaxTxInSequenceNum_def)
  qed
  obtain priv elk mySig where sig: "claim_key ce q' h = Inr priv" "ElkPoint ?cr q' False (st_StateIdx (q_State q')) = Inr elk"
    "RawTxInWitnessSignature ce base (NewTxSigHashes ?cr base) 0 ?v script SigHashAll priv = Inr mySig" "length mySig \<le> 73"
    "\<And>w. signed_by (ce_se ce) pops (set_witness base w) 0 None ?v (our_htlc_key ?cr h elk) mySig"
    using own_signature [OF own(1) pops] by metis
  let ?t = "set_witness base (claim_witness h mine script mySig)"
  have theirs: "signed_by (ce_se ce) pops ?t 0 None ?v (their_htlc_key ?cr q' h) (SigDecompress (ht_Sig h) @ [ucast SigHashAll])" if mine
    using check64_signed [OF peer(2) [OF that script] pops(1) own(3)] base(5) that by simp
  have l: "lock_passed ?t 0 (ht_Locktime h)" if "\<not> mine" "\<not> ht_Incoming h"
    using base(2,6) that by (cases "tx_TxIn base") (auto simp: lock_passed_def set_witness_def)
  have ne: "tx_TxIn base \<noteq> []" using base(2) by auto
  have "accepts (validate_input (ce_se ce) (P2WSHify ?cr script) ?t 0 spend_flags None ?v)"
    by (rule claim_accepted [OF script pops(1) own(2) sig(2) own(3) ne base(3) refl]) (use l sig(4,5) theirs own(4) in auto)
  moreover have "signed_claim ce q' h stateTx spends mine (Inr pkh) = Inr ?t"
    by (simp add: signed_claim_def close(2) sig(1) base(1) script sig(3))
  moreover have "ti_PreviousOutPoint (tx_TxIn ?t ! 0) = ?op"
    using base(2,4) by (cases "tx_TxIn base") (simp_all add: set_witness_def)
  ultimately show ?thesis
    using close(1) wal paid by (auto simp: ClaimHTLCOnChain_def Let_def not_less split: sum.splits)
qed

section \<open>What a claim leaves out\<close>

lemma claim_closed_txids:
  assumes "claim_closed cm cn q h = (cn', r)"
  shows "length (cn_txids cn') = length (cn_txids cn) + (if r = Inr True then 1 else 0)"
  using assms by (auto simp: claim_closed_def Let_def split: prod.splits sum.splits if_splits)

lemma claim_htlc_txids:
  assumes "claim_htlc cm R cn hq = (cn', r)"
  shows "length (cn_txids cn') \<le> length (cn_txids cn) + (if r = Inr True then 1 else 0)"
  using assms
  by (auto simp: claim_htlc_def claim_open_def Let_def split: prod.splits sum.splits if_splits option.splits dest!: claim_closed_txids)

lemma claim_loop_locked:
  "length (cn_txids (fst (claim_loop cm R hqs True cn))) \<le>
     length (cn_txids cn) + (if snd (claim_loop cm R hqs True cn) = Some Blocked then 1 else 0)"
proof (induction hqs arbitrary: cn)
  case (Cons hq hqs)
  obtain cn' r where h: "claim_htlc cm R cn hq = (cn', r)" by fastforce
  show ?case using claim_htlc_txids [OF h] Cons.IH [of cn'] by (auto simp: h split: sum.split bool.split)
qed simp

lemma claim_loop_free:
  "length (cn_txids (fst (claim_loop cm R hqs False cn))) \<le>
     length (cn_txids cn) + (if snd (claim_loop cm R hqs False cn) = Some Blocked then 2 else 1)"
proof (induction hqs arbitrary: cn)
  case (Cons hq hqs)
  obtain cn' r where h: "claim_htlc cm R cn hq = (cn', r)" by fastforce
  obtain mus db where m: "mark_payment ((fst hq)\<lparr>ht_R := R\<rparr>) (nd_InProgMultihop (cn_node cn')) (nd_Payments (cn_node cn')) = (mus, db)" by fastforce
  let ?cn = "cn'\<lparr>cn_node := (cn_node cn')\<lparr>nd_InProgMultihop := mus, nd_Payments := db\<rparr>\<rparr>"
  show ?case
    using claim_htlc_txids [OF h] Cons.IH [of cn'] claim_loop_locked [of cm R hqs ?cn]
    by (auto simp: h m Let_def split: sum.split bool.split if_splits)
qed simp

text \<open>C37: \<open>ClaimHTLC\<close> takes the multihop mutex once for each HTLC it has claimed and gives it back when it returns: a call that
  returns has claimed at most one HTLC on chain. When a preimage opens two, the second claim waits for ever for the
  mutex the call itself holds, and with it every other multihop payment of the node.\<close>

theorem claims_one_or_blocks:
  "length (cn_txids (fst (ClaimHTLC cm cn R))) \<le> (if snd (ClaimHTLC cm cn R) = Some Blocked then 2 else 1)"
  using claim_loop_free [of cm R _ "cn\<lparr>cn_seen := (\<lambda>op. None), cn_txids := []\<rparr>"] by (simp add: ClaimHTLC_def)

text \<open>
  An expired HTLC of an open channel whose peer is not connected ends \<open>ClaimHTLCTimeouts\<close>: nothing that comes after it is
  claimed, also not from channels that are closed.
\<close>

theorem absent_peer_stops_timeouts:
  assumes "FindHTLCsByTimeoutHeight (ce_ev (cm_ce cm)) (cn_node cn) (cm_keys cm) coin height = Inr ((h, q) # hqs)"
    and "\<not> ht_Incoming h" "\<not> cl_Closed (q_CloseData q)" "cn_QCs cn (Qchan_Peer q) (Qchan_Idx q) = None"
  shows "ClaimHTLCTimeouts cm cn coin height = (cn\<lparr>cn_seen := (\<lambda>op. None), cn_txids := []\<rparr>, Some OutOfRange)"
  using assms by (simp add: ClaimHTLCTimeouts_def chan_seen_def)

text \<open>C40: When the first channel of the database has a cleared HTLC at its head, which has no output in the commitment, the search for
  an HTLC on chain ends with an error: whatever output is spent, whatever preimage the transaction shows, it is ignored, and
  the incoming HTLCs it would open are not claimed.\<close>

theorem cleared_htlc_hides_preimages:
  assumes "GetAllQchans (ce_ev (cm_ce cm)) (cn_node cn) (cm_keys cm) = q # qs"
    and "BuildStateTxs (ce_crypto (cm_ce cm)) q False = Inr (tx, spends, outs)" "st_HTLCs (q_State q) = h # hs"
    and "GenHTLCOut (ce_crypto (cm_ce cm)) q h False = Inr out" "to_PkScript out \<notin> to_PkScript ` set (tx_TxOut tx)"
  shows "htlc_spend_event cm cn op spend = (cn, None)"
proof -
  have "find_idx (\<lambda>o'. to_PkScript o' = to_PkScript out) (tx_TxOut tx) = None"
    unfolding find_idx_None using assms(5) by (metis imageI)
  then have "GetHTLCOut (ce_crypto (cm_ce cm)) q h tx False = Inl OutOfRange"
    using assms(4) by (simp add: GetHTLCOut_def)
  then show ?thesis using assms(1-3) by (simp add: htlc_spend_event_def)
qed

text \<open>The mark \<open>SetHTLCClearedOnChain\<close> leaves on an HTLC is not read by \<open>ClaimHTLCTimeouts\<close>.\<close>

definition keyed :: "lit_node \<Rightarrow> bool" where
  "keyed nd \<longleftrightarrow> (\<forall>k d. nd_Channels nd k = Some d \<longrightarrow> OutPointToBytes (px_Op (cdt_Txo d)) = k)"

definition expired :: "node_env \<Rightarrow> u32 \<Rightarrow> int \<Rightarrow> chan_data \<Rightarrow> (htlc \<times> qchan) list" where
  "expired ev coin height d =
     (let q = NewQchanFromChanData ev d in
      if Qchan_Coin q = coin then map (\<lambda>h. (h, q)) (filter (timed_out height) (st_HTLCs (cdt_State d))) else [])"

lemma find_expired:
  assumes "keyed nd"
  shows "FindHTLCsByTimeoutHeight ev nd keys coin height =
    Inr (concat (map (expired ev coin height) (List.map_filter (nd_Channels nd) keys)))"
proof -
  have r: "ReloadQchanState ev nd (NewQchanFromChanData ev d) = Inr (NewQchanFromChanData ev d)" if "nd_Channels nd k = Some d" for k d
    using assms that by (simp add: keyed_def ReloadQchanState_def ApplyChanDataToQchan_def NewQchanFromChanData_def)
  have st: "q_State (NewQchanFromChanData ev d) = cdt_State d" for d by (simp add: NewQchanFromChanData_def)
  have "fold_res (\<lambda>acc q. bind_res (ReloadQchanState ev nd q) (\<lambda>q.
        Inr (if Qchan_Coin q = coin then acc @ map (\<lambda>h. (h, q)) (filter (timed_out height) (st_HTLCs (q_State q))) else acc)))
       acc (map (NewQchanFromChanData ev) (List.map_filter (nd_Channels nd) keys)) =
    Inr (acc @ concat (map (expired ev coin height) (List.map_filter (nd_Channels nd) keys)))" for acc
    by (induction keys arbitrary: acc)
      (auto simp: List.map_filter_simps r expired_def Let_def st split: option.split)
  then show ?thesis by (simp add: FindHTLCsByTimeoutHeight_def GetAllQchans_def)
qed

theorem claimed_timeouts_come_again:
  assumes "keyed nd" "SetHTLCClearedOnChain ev nd q h = (nd', q', None)"
  shows "\<exists>hqs hqs'. FindHTLCsByTimeoutHeight ev nd keys coin height = Inr hqs \<and>
    FindHTLCsByTimeoutHeight ev nd' keys coin height = Inr hqs' \<and> map (ht_Idx \<circ> fst) hqs' = map (ht_Idx \<circ> fst) hqs"
proof -
  let ?k = "OutPointToBytes (q_Op q)" and ?i = "unat (ht_Idx h)"
  let ?mark = "\<lambda>hs. hs[?i := (hs ! ?i)\<lparr>ht_ClearedOnChain := True\<rparr>]"
  obtain d where d: "nd_Channels nd ?k = Some d" "OutPointToBytes (px_Op (cdt_Txo d)) = ?k"
    using assms by (auto simp: keyed_def SetHTLCClearedOnChain_def ReloadQchanState_def split: option.splits)
  let ?d = "d\<lparr>cdt_State := (cdt_State d)\<lparr>st_HTLCs := ?mark (st_HTLCs (cdt_State d))\<rparr>\<rparr>"
  have nd': "nd' = nd\<lparr>nd_Channels := (nd_Channels nd)(?k := Some ?d)\<rparr>"
    using assms(2) d
    by (cases d) (auto simp: SetHTLCClearedOnChain_def ReloadQchanState_def ApplyChanDataToQchan_def SaveQchanState_def GetQchan_def
        SaveQChan_def NewChanDataFromQchan_def NewQchanFromChanData_def Let_def split: if_splits)
  have k': "keyed nd'" using assms(1) d(2) by (auto simp: keyed_def nd')
  have "map ht_Idx (filter (timed_out height) (hs[i := (hs ! i)\<lparr>ht_ClearedOnChain := True\<rparr>])) = map ht_Idx (filter (timed_out height) hs)"
    for hs i by (induction hs arbitrary: i) (auto simp: timed_out_def split: nat.split)
  then have "map (ht_Idx \<circ> fst) (expired ev coin height ?d) = map (ht_Idx \<circ> fst) (expired ev coin height d)"
    by (simp add: expired_def Qchan_Coin_def NewQchanFromChanData_def Let_def o_def)
  then have "map (ht_Idx \<circ> fst) (concat (map (expired ev coin height) (List.map_filter (nd_Channels nd') keys))) =
      map (ht_Idx \<circ> fst) (concat (map (expired ev coin height) (List.map_filter (nd_Channels nd) keys)))"
    by (induction keys) (auto simp: nd' d(1) List.map_filter_simps split: option.split)
  then show ?thesis using find_expired [OF assms(1)] find_expired [OF k'] by blast
qed

section \<open>Examples\<close>

lemma close_data_ignored:
  "GetKeysFromState cr (q\<lparr>q_CloseData := c\<rparr>) mine = GetKeysFromState cr q mine"
  "ElkPoint cr (q\<lparr>q_CloseData := c\<rparr>) mine i = ElkPoint cr q mine i"
  "output_amts (q\<lparr>q_CloseData := c\<rparr>) mine = output_amts q mine"
  "GetChanHint cr (q\<lparr>q_CloseData := c\<rparr>) mine = GetChanHint cr q mine"
  "htlc_spend cr (q\<lparr>q_CloseData := c\<rparr>) mine rp tp tx j out = htlc_spend cr q mine rp tp tx j out"
  by (simp_all add: GetKeysFromState_def ElkPoint_def output_amts_def state_value_def GetChanHint_def htlc_spend_def Let_def)

lemma close_data_scripts:
  "GenHTLCScript cr (q\<lparr>q_CloseData := c\<rparr>) h mine = GenHTLCScript cr q h mine"
  "GenHTLCOut cr (q\<lparr>q_CloseData := c\<rparr>) h mine = GenHTLCOut cr q h mine"
  by (simp_all add: GenHTLCScript_def GenHTLCOut_def close_data_ignored)

lemma close_data_build: "BuildStateTxs cr (q\<lparr>q_CloseData := c\<rparr>) mine = BuildStateTxs cr q mine"
  by (simp add: BuildStateTxs_def htlc_spends_def close_data_ignored close_data_scripts Let_def cong: if_cong prod.case_cong)

text \<open>A channel with one incoming HTLC, and the channel after the node has published its commitment.\<close>

definition toy_paid :: qchan where
  "toy_paid = toy_chan 1 2 3 500000 1000 [(toy_htlc 1 2 True 600 False)\<lparr>ht_RHash := replicate 32 0, ht_R := replicate 16 5,
     ht_Sig := replicate 32 2 @ replicate 32 1\<rparr>]"

definition toy_broken :: qchan where
  "toy_broken = (case BuildStateTxs toy_crypto toy_paid True of Inl e \<Rightarrow> toy_paid
     | Inr (tx, spends, outs) \<Rightarrow> toy_paid\<lparr>q_CloseData := \<lparr>cl_CloseTxid = TxHash toy_crypto tx, cl_CloseHeight = 600, cl_Closed = True\<rparr>\<rparr>)"

lemma toy_paid_elk: "ElkPoint toy_crypto toy_paid False 3 = Inr (toy_point 1 3)"
  unfolding toy_paid_def by (rule toy_chan_elk) (simp add: maxIndex_def)

lemma toy_paid_built:
  obtains tx sp script where "BuildStateTxs toy_crypto toy_paid True = Inr (tx, [sp], [NewTxOut 200000 (P2WSHify toy_crypto script)])"
    "GenHTLCScript toy_crypto toy_paid (hd (st_HTLCs (q_State toy_paid))) True = Inr script"
    "tx_TxOut tx \<noteq> []" "tx_TxOut tx ! 0 = NewTxOut 200000 (P2WSHify toy_crypto script)"
    "ti_PreviousOutPoint (tx_TxIn sp ! 0) = \<lparr>op_Hash = TxHash toy_crypto tx, op_Index = 0\<rparr>"
proof -
  have f: "st_StateIdx (q_State toy_paid) = 3" "output_amts toy_paid True = (499000, 299000)" "st_Fee (q_State toy_paid) = 1000"
    "live_htlcs (q_State toy_paid) = [hd (st_HTLCs (q_State toy_paid))]" "ht_Amt (hd (st_HTLCs (q_State toy_paid))) = 200000"
    "htlc_at (q_State toy_paid) 0 = Inr (hd (st_HTLCs (q_State toy_paid)))"
    by (simp_all add: toy_paid_def toy_chan_def output_amts_def state_value_def toy_htlc_def Let_def i64_id live_htlcs_def htlc_active_def htlc_at_def)
  obtain script where s: "GenHTLCScript toy_crypto toy_paid (hd (st_HTLCs (q_State toy_paid))) True = Inr script"
    by (simp add: GenHTLCScript_def GetKeysFromState_def f(1) toy_paid_elk)
  let ?out = "NewTxOut 200000 (P2WSHify toy_crypto script)"
  have "\<exists>r. BuildStateTxs toy_crypto toy_paid True = Inr r"
    by (simp add: BuildStateTxs_def GetKeysFromState_def GenHTLCOut_alt s f toy_paid_elk htlc_spends_def htlc_spend_def
       Let_def i64_id MinOutput_def NewTxOut_def AddTxOut_def)
  then obtain tx spends outs where b: "BuildStateTxs toy_crypto toy_paid True = Inr (tx, spends, outs)" by auto
  obtain rp tp fancy pkh m fs ps where e: "output_amts toy_paid True = (fancy, pkh)"
    "map_res (\<lambda>h. GenHTLCOut toy_crypto toy_paid h True) (live_htlcs (q_State toy_paid)) = Inr outs"
    "tx_TxOut tx = sort_by output_less (commit_outs fancy pkh fs ps outs)"
    "htlc_spends toy_crypto toy_paid True rp tp tx outs = Inr m" "spends = map_arr m"
    by (rule BuildStateTxs_elim [OF b]) (simp add: InPlaceSort_def SetStateIdxBits_fields)
  have t: "tx_TxOut tx = sort_by output_less (commit_outs 499000 299000 fs ps outs)" "outs = [?out]"
    "htlc_spends toy_crypto toy_paid True rp tp tx outs = Inr m" "spends = map_arr m"
    using e by (simp_all add: f s GenHTLCOut_alt)
  have o: "tx_TxOut tx = [?out, NewTxOut 299000 ps, NewTxOut 499000 fs]"
    by (simp add: t(1,2) commit_outs_def sort_by_def output_less_def NewTxOut_def)
  then have "find_vout tx ?out = 0" by (simp add: find_vout_def)
  then obtain sp where "m = [(0, sp)]" "ti_PreviousOutPoint (tx_TxIn sp ! 0) = \<lparr>op_Hash = TxHash toy_crypto tx, op_Index = 0\<rparr>"
    using t(3) unfolding t(2) by (auto simp: htlc_spends_def htlc_spend_def f NewTxOut_def Let_def i64_id MinOutput_def map_put_def AddTxIn_def
        AddTxOut_def NewMsgTx_def NewTxIn_def)
  moreover from this have "map_arr m = [sp]" by (simp add: map_arr_def)
  ultimately show thesis using that [of tx sp script] b s o t(2,4) by simp
qed

theorem htlc_claim_accepted_witness:
  "\<exists>q' tx txos r script. ClaimHTLCOnChain (toy_close 1) (Inr []) toy_broken (hd (st_HTLCs (q_State toy_broken))) = (q', [tx], txos, r) \<and>
    accepts (validate_input toy_se (P2WSHify toy_crypto script) tx 0 spend_flags None 200000)"
proof -
  let ?ce = "toy_close 1" and ?h = "hd (st_HTLCs (q_State toy_paid))"
  have se: "ce_se ?ce = toy_se" "se_crypto toy_se = toy_crypto" by (simp_all add: toy_close_def toy_se_def)
  obtain tx sp script where b: "BuildStateTxs toy_crypto toy_paid True = Inr (tx, [sp], [NewTxOut 200000 (P2WSHify toy_crypto script)])"
    "GenHTLCScript toy_crypto toy_paid ?h True = Inr script"
    "tx_TxOut tx \<noteq> []" "tx_TxOut tx ! 0 = NewTxOut 200000 (P2WSHify toy_crypto script)"
    "ti_PreviousOutPoint (tx_TxIn sp ! 0) = \<lparr>op_Hash = TxHash toy_crypto tx, op_Index = 0\<rparr>"
    by (rule toy_paid_built)
  let ?c = "\<lparr>cl_CloseTxid = TxHash toy_crypto tx, cl_CloseHeight = 600, cl_Closed = True\<rparr>"
  have q: "toy_broken = toy_paid\<lparr>q_CloseData := ?c\<rparr>" by (simp add: toy_broken_def b(1))
  have st: "close_state (q_State toy_paid) = q_State toy_paid"
    by (simp add: close_state_def toy_paid_def toy_chan_def toy_htlc_def)
  have close: "GetCloseTxs toy_crypto toy_broken = (toy_broken, Inr (tx, [sp], True))"
    unfolding GetCloseTxs_def q by (simp add: st close_data_build b(1) Let_def)
  have out: "GetHTLCOut toy_crypto toy_broken ?h tx True = Inr (NewTxOut 200000 (P2WSHify toy_crypto script), 0)"
    using b(3,4) by (cases "tx_TxOut tx") (simp_all add: GetHTLCOut_def q close_data_scripts GenHTLCOut_alt b(2) NewTxOut_def)
  have h: "ht_Incoming ?h" "ht_RHash ?h = replicate 32 0" "ht_R ?h = replicate 16 5" "ht_Sig ?h = replicate 32 2 @ replicate 32 1"
    "ht_MyHTLCBase ?h = replicate 33 1" "ht_TheirHTLCBase ?h = replicate 33 2" "q_TheirHAKDBase toy_paid = replicate 33 2"
    "q_ElkSnd toy_paid = NewElkremSender (replicate 32 1)" "st_StateIdx (q_State toy_paid) = 3"
    by (simp_all add: toy_paid_def toy_chan_def toy_htlc_def)
  have cr: "cr_CombinePubs toy_crypto x y = x" "cr_Sha256 toy_crypto x = replicate 32 0" for x y by (simp_all add: toy_crypto_def)
  obtain elk where elk: "sender_AtIndex (cr_DoubleHash toy_crypto) (NewElkremSender (replicate 32 1)) 3 = Inr elk"
    using sender_AtIndex_elk [of 3] by (simp add: maxIndex_def)
  have key: "claim_key ?ce toy_broken ?h = Inr (replicate 33 1)"
    by (simp add: claim_key_def se q h elk) (simp add: toy_close_def toy_env_def ce_ev_def)
  have signer: "htlc_signer ?ce toy_broken ?h"
    unfolding htlc_signer_def key se
    by (simp add: q close_data_ignored h(9) toy_paid_elk our_htlc_key_def cr h(5))
      (simp add: toy_close_def toy_se_def toy_num_def der_sig_def nth_append)
  have claims: "claimable ?ce toy_broken ?h True"
    by (auto simp: claimable_def se cr h q close_data_ignored GetKeysFromState_def toy_paid_elk claim_secret_def)
      (simp_all add: toy_se_def toy_crypto_def copy_fresh_full)
  have sound: "sound_engine (ce_se ?ce)" using toy_sound by (simp add: se)
  have len: "length (ht_Sig ?h) = 64" by (simp add: h)
  have found: "find (\<lambda>s. ti_PreviousOutPoint (tx_TxIn s ! 0) = \<lparr>op_Hash = TxHash (ce_crypto ?ce) tx, op_Index = 0\<rparr>) [sp] = Some sp"
    by (simp add: se b(5))
  have num: "toy_num (replicate 33 2) = 2" by (simp add: toy_num_def)
  have peer: "check64 ?ce Mismatch (their_htlc_key (ce_crypto ?ce) toy_broken ?h) script' sp v (ht_Sig ?h) = None"
    if g: "GenHTLCScript (ce_crypto ?ce) toy_broken ?h True = Inr script'" for script' v
  proof -
    obtain pops where p: "ParseScript script' = Inr pops" "\<not> isWitnessPubKeyHash pops" using claim_parses [OF g claims] by blast
    obtain hash where "CalcWitnessSignatureHash toy_crypto pops (NewTxSigHashes toy_crypto sp) SigHashAll sp 0 v = Inr hash"
      using CalcWitnessSignatureHash_returns [OF p(2)] by blast
    then show ?thesis
      using toy_decompress [of "replicate 33 2"]
      by (simp add: check64_def script_res_def se p(1) their_htlc_key_def cr h num) (simp add: toy_close_def toy_se_def der_sig_def nth_append)
  qed
  have w: "ev_wallet (ce_ev ?ce) c = Some \<lparr>wl_TestCoin = True, wl_Fee = 10, wl_Height = 500\<rparr>" for c
    by (simp add: toy_close_def toy_env_def)
  have hd: "hd (st_HTLCs (q_State toy_broken)) = ?h" by (simp add: q)
  have "\<exists>tx' txos r. ClaimHTLCOnChain ?ce (Inr []) toy_broken ?h = (toy_broken, [tx'], txos, r) \<and>
      ti_PreviousOutPoint (tx_TxIn tx' ! 0) = \<lparr>op_Hash = TxHash (ce_crypto ?ce) tx, op_Index = 0\<rparr> \<and>
      accepts (validate_input (ce_se ?ce) (to_PkScript (NewTxOut 200000 (P2WSHify toy_crypto script))) tx' 0 spend_flags None
        (sint (to_Value (NewTxOut 200000 (P2WSHify toy_crypto script)))))"
    by (rule htlc_claim_accepted [OF _ _ w _ signer claims sound len found peer]) (simp_all add: se close out h(1))
  then show ?thesis unfolding hd se by (fastforce simp: NewTxOut_def)
qed

theorem cleared_htlc_hides_preimages_witness:
  "let q = toy_chan 1 2 3 1000000 1000 [toy_htlc 1 2 True 600 True];
       nd = toy_node\<lparr>nd_Channels := (\<lambda>k. if k = [1] then Some (NewChanDataFromQchan q) else None)\<rparr>;
       cm = \<lparr>cm_ce = toy_close 1, cm_keys = [[1]], cm_NewAdr = (\<lambda>c n. Inr []), cm_wait = (\<lambda>nd q. (nd, q, False))\<rparr>;
       cn = \<lparr>cn_node = nd, cn_QCs = (\<lambda>p i. None), cn_seen = (\<lambda>op. None), cn_asked = 0, cn_txs = [], cn_txos = [], cn_msgs = [], cn_txids = []\<rparr>
   in htlc_spend_event cm cn \<lparr>op_Hash = replicate 32 0, op_Index = 0\<rparr> NewMsgTx = (cn, None)"
proof -
  let ?h = "toy_htlc 1 2 True 600 True" and ?ev = "ce_ev (toy_close 1)"
  define q where "q = NewQchanFromChanData ?ev (NewChanDataFromQchan (toy_chan 1 2 3 1000000 1000 [?h]))"
  have f: "st_StateIdx (q_State q) = 3" "output_amts q False = (0, 999000)" "live_htlcs (q_State q) = []" "st_HTLCs (q_State q) = [?h]"
    by (simp_all add: q_def NewQchanFromChanData_def NewChanDataFromQchan_def toy_chan_def output_amts_def state_value_def toy_htlc_def
        Let_def i64_id live_htlcs_def htlc_active_def)
  obtain tx spends outs where b: "BuildStateTxs toy_crypto q False = Inr (tx, spends, outs)"
    "tx_TxOut tx = [NewTxOut 999000 (DirectWPKHScript toy_crypto (q_MyRefundPub q))]"
    by (simp add: BuildStateTxs_def GetKeysFromState_def f htlc_spends_def Let_def MinOutput_def AddTxOut_def AddTxIn_def NewMsgTx_def
        InPlaceSort_def SetStateIdxBits_fields)
  obtain elk where "sender_AtIndex (cr_DoubleHash toy_crypto) (q_ElkSnd q) 3 = Inr elk"
    using sender_AtIndex_elk [of 3] by (simp add: maxIndex_def q_def NewQchanFromChanData_def)
  then obtain script where s: "GenHTLCOut toy_crypto q ?h False = Inr (NewTxOut 200000 (P2WSHify toy_crypto script))"
    by (simp add: GenHTLCOut_alt GenHTLCScript_def GetKeysFromState_def ElkPoint_def f(1)) (simp add: toy_htlc_def)
  have "P2WSHify toy_crypto script \<noteq> DirectWPKHScript toy_crypto (q_MyRefundPub q)"
    using script_lengths [OF toy_lengths] by (metis numeral_eq_iff semiring_norm)
  then have "to_PkScript (NewTxOut 200000 (P2WSHify toy_crypto script)) \<notin> to_PkScript ` set (tx_TxOut tx)"
    by (simp add: b(2) NewTxOut_def)
  moreover have "ce_crypto (toy_close 1) = toy_crypto" by (simp add: toy_close_def toy_se_def)
  moreover have "GetAllQchans ?ev (toy_node\<lparr>nd_Channels := (\<lambda>k. if k = [1] then
      Some (NewChanDataFromQchan (toy_chan 1 2 3 1000000 1000 [?h])) else None)\<rparr>) [[1]] = [q]"
    by (simp add: GetAllQchans_def map_filter_def q_def)
  ultimately show ?thesis
    unfolding Let_def
    by (intro cleared_htlc_hides_preimages [where q = q and qs = "[]" and h = ?h and hs = "[]"])
      (simp_all add: b(1) s f(4))
qed

end
