(* ===== verification/DualFund.thy ===== *)
theory DualFund
  imports FundRun
begin

text \<open>
  Opening a channel with money from both sides (\<open>qln/dualfund.go\<close>, the dispatchers of \<open>qln/msghandler.go\<close>,
  \<open>InFlightDualFund\<close> of \<open>qln/lndb.go\<close>): a request with inputs, an answer with inputs, a funding transaction that both
  sides build for themselves, and the messages of the ordinary funding.
\<close>

section \<open>The state of a dual funding\<close>

record dual_result =
  dr_ChannelId :: u32
  dr_Error :: bool
  dr_Accepted :: bool
  dr_DeclineReason :: byte

definition new_DualFundingResult :: dual_result where
  "new_DualFundingResult = \<lparr>dr_ChannelId = 0, dr_Error = False, dr_Accepted = False, dr_DeclineReason = 0\<rparr>"

text \<open>
  \<open>InFlightDualFund\<close>. Its \<open>done\<close> channel has capacity one: what is in it. Its mutex is free between messages unless a function has
  returned or blocked with the mutex held (\<open>dd_locked\<close>). The lists of signatures are never set and left out.
\<close>

record in_flight_dual =
  dd_PeerIdx :: u32
  dd_ChanIdx :: u32
  dd_CoinType :: u32
  dd_OurAmount :: int
  dd_TheirAmount :: int
  dd_OurInputs :: "fund_input list"
  dd_TheirInputs :: "fund_input list"
  dd_OurChangeAddress :: bytes
  dd_TheirChangeAddress :: bytes
  dd_OurPub :: bytes
  dd_OurRefundPub :: bytes
  dd_OurHAKDBase :: bytes
  dd_TheirPub :: bytes
  dd_TheirRefundPub :: bytes
  dd_TheirHAKDBase :: bytes
  dd_OurNextHTLCBase :: bytes
  dd_OurN2HTLCBase :: bytes
  dd_TheirNextHTLCBase :: bytes
  dd_TheirN2HTLCBase :: bytes
  dd_InitiatedByUs :: bool
  dd_OutPoint :: "outpoint option"
  dd_done :: "dual_result option"
  dd_locked :: bool

definition zero33 :: bytes where "zero33 = replicate 33 0"

definition InFlightDualFund_Clear :: "in_flight_dual \<Rightarrow> in_flight_dual" where
  "InFlightDualFund_Clear d =
     d\<lparr>dd_PeerIdx := 0, dd_ChanIdx := 0, dd_OurAmount := 0, dd_TheirAmount := 0, dd_OurInputs := [], dd_TheirInputs := [],
       dd_OurChangeAddress := replicate 20 0, dd_TheirChangeAddress := replicate 20 0, dd_OurPub := zero33,
       dd_OurRefundPub := zero33, dd_OurHAKDBase := zero33, dd_TheirPub := zero33, dd_TheirRefundPub := zero33,
       dd_TheirHAKDBase := zero33, dd_OurNextHTLCBase := zero33, dd_OurN2HTLCBase := zero33, dd_TheirNextHTLCBase := zero33,
       dd_TheirN2HTLCBase := zero33, dd_InitiatedByUs := False\<rparr>"

text \<open>
  The node, with the transactions it has sent. What the wallets of a coin type answer besides: a new address, inputs for an
  amount, all outputs, and the transaction with the own inputs signed, which may also come with an error. \<open>de_PartialIns\<close> gives the inputs of a
  transaction in a message whose reading failed half way.
\<close>

record dual_node =
  dn_fund :: fund_node
  dn_dual :: in_flight_dual
  dn_txs :: "msg_tx list"

record dual_env =
  de_fe :: fund_env
  de_NewAdr :: "u32 \<Rightarrow> lit_error + bytes"
  de_PickUtxos :: "u32 \<Rightarrow> int \<Rightarrow> int \<Rightarrow> lit_error + fund_input list"
  de_UtxoDump :: "u32 \<Rightarrow> lit_error + por_txo list"
  de_SignMyInputs :: "u32 \<Rightarrow> msg_tx \<Rightarrow> msg_tx \<times> lit_error option"
  de_PartialIns :: "lit_error \<Rightarrow> tx_in list"

abbreviation de_ev :: "dual_env \<Rightarrow> node_env" where "de_ev de \<equiv> fe_ev (de_fe de)"

type_synonym dual_res = "dual_node \<times> lit_msg list \<times> lit_error option"

abbreviation set_dual :: "(in_flight_dual \<Rightarrow> in_flight_dual) \<Rightarrow> dual_node \<Rightarrow> dual_node" where
  "set_dual f nd \<equiv> nd\<lparr>dn_dual := f (dn_dual nd)\<rparr>"

definition DualFundFee :: int where "DualFundFee = 50"

definition DECLINE_INSUFFICIENT_BALANCE :: byte where "DECLINE_INSUFFICIENT_BALANCE = 2"
definition DECLINE_UNSUPPORTED_COIN :: byte where "DECLINE_UNSUPPORTED_COIN = 3"
definition DECLINE_ALREADY_PENDING :: byte where "DECLINE_ALREADY_PENDING = 4"

section \<open>Asking for it\<close>

text \<open>The mutex is taken before the checks and given back on the returns of these, but not when there are no inputs or no key.\<close>

definition DualFundChannel :: "dual_env \<Rightarrow> dual_node \<Rightarrow> u32 \<Rightarrow> u32 \<Rightarrow> int \<Rightarrow> int \<Rightarrow> dual_res" where
  "DualFundChannel de nd peerIdx cointype ourAmount theirAmount =
     (let ev = de_ev de; stuck = set_dual (\<lambda>d. d\<lparr>dd_locked := True\<rparr>) nd in
      if ev_wallet ev cointype = None then (nd, [], Some OutOfRange)
      else case de_NewAdr de cointype of Inl e \<Rightarrow> (nd, [], Some e)
      | Inr changeAddr \<Rightarrow>
        if dd_locked (dn_dual nd) then (nd, [], Some Blocked)
        else if dd_PeerIdx (dn_dual nd) \<noteq> 0 then (nd, [], Some OutOfRange)
        else if theirAmount \<le> 0 \<or> ourAmount \<le> 0 then (nd, [], Some OutOfRange)
        else if i64 (theirAmount + ourAmount) < MinChanCapacity then (nd, [], Some OutOfRange)
        else if \<not> ev_connected ev peerIdx then (nd, [], Some OutOfRange)
        else
          let cIdx = NextChannelIdx (dn_fund nd); kg = chan_keygen cointype peerIdx cIdx;
              myChanPub = GetUsePub_ign ev kg UseChannelFund; myRefundPub = GetUsePub_ign ev kg UseChannelRefund
          in (case bind_res (de_PickUtxos de cointype ourAmount DualFundFee) (\<lambda>ourInputs.
                bind_res (GetUsePub ev kg UseChannelHAKDBase) (\<lambda>myHAKDbase. Inr (ourInputs, myHAKDbase))) of
                Inl e \<Rightarrow> (stuck, [], Some e)
              | Inr (ourInputs, myHAKDbase) \<Rightarrow>
                (set_dual (\<lambda>d. d\<lparr>dd_ChanIdx := cIdx, dd_PeerIdx := peerIdx, dd_CoinType := cointype, dd_OurAmount := ourAmount,
                   dd_TheirAmount := theirAmount, dd_OurChangeAddress := changeAddr, dd_InitiatedByUs := True, dd_OurPub := myChanPub,
                   dd_OurRefundPub := myRefundPub, dd_OurHAKDBase := myHAKDbase, dd_OurInputs := ourInputs\<rparr>) nd,
                 tmpSendLitMsg ev (MsgDualReq (NewDualFundingReqMsg peerIdx cointype (of_int ourAmount) (of_int theirAmount) myChanPub
                   myRefundPub myHAKDbase changeAddr ourInputs)), None)))"

text \<open>What \<open>DualFundChannel\<close> and \<open>DualFundAccept\<close> do when they are done waiting.\<close>

definition DualFund_wait :: "dual_node \<Rightarrow> dual_node \<times> (lit_error + dual_result)" where
  "DualFund_wait nd =
     (case dd_done (dn_dual nd) of None \<Rightarrow> (nd, Inl Blocked)
      | Some r \<Rightarrow> (set_dual (\<lambda>d. d\<lparr>dd_done := None\<rparr>) nd, Inr r))"

section \<open>Answering\<close>

definition DualFundDecline :: "dual_env \<Rightarrow> dual_node \<Rightarrow> byte \<Rightarrow> dual_res" where
  "DualFundDecline de nd reason =
     (let msgs = tmpSendLitMsg (de_ev de) (MsgDualDecl (NewDualFundingDeclMsg (dd_PeerIdx (dn_dual nd)) reason)) in
      if dd_locked (dn_dual nd) then (nd, msgs, Some Blocked)
      else (set_dual InFlightDualFund_Clear nd, msgs, None))"

definition DualFundAccept :: "dual_env \<Rightarrow> dual_node \<Rightarrow> dual_res" where
  "DualFundAccept de nd =
     (let ev = de_ev de; d = dn_dual nd; coin = dd_CoinType d in
      if ev_wallet ev coin = None then (nd, [], Some OutOfRange)
      else
        let kg = chan_keygen coin (dd_PeerIdx d) (dd_ChanIdx d);
            myChanPub = GetUsePub_ign ev kg UseChannelFund; myRefundPub = GetUsePub_ign ev kg UseChannelRefund
        in (case bind_res (de_NewAdr de coin) (\<lambda>changeAddr.
              bind_res (de_PickUtxos de coin (dd_OurAmount d) 500) (\<lambda>ourInputs.
              bind_res (GetUsePub ev kg UseChannelHAKDBase) (\<lambda>myHAKDbase.
              bind_res (my_bases ev coin (dd_ChanIdx d)) (\<lambda>(b0, b1). Inr (changeAddr, ourInputs, myHAKDbase, b0, b1))))) of
              Inl e \<Rightarrow> (nd, [], Some e)
            | Inr (changeAddr, ourInputs, myHAKDbase, b0, b1) \<Rightarrow>
              if dd_locked d then (nd, [], Some Blocked)
              else
                (set_dual (\<lambda>d. d\<lparr>dd_OurChangeAddress := changeAddr, dd_OurInputs := ourInputs, dd_OurPub := myChanPub,
                   dd_OurRefundPub := myRefundPub, dd_OurHAKDBase := myHAKDbase, dd_OurNextHTLCBase := b0, dd_OurN2HTLCBase := b1\<rparr>) nd,
                 tmpSendLitMsg ev (MsgDualAccept (NewDualFundingAcceptMsg (dd_PeerIdx d) coin myChanPub myRefundPub myHAKDbase changeAddr
                   ourInputs b0 b1)), None)))"

text \<open>The value of the outputs that can be spent now: \<open>SumWitness\<close> of \<open>portxo/sort.go\<close>, with its sums in 32 and 64 bits.\<close>

definition SumWitness :: "int \<Rightarrow> por_txo list \<Rightarrow> int" where
  "SumWitness currentHeight txos =
     fold (\<lambda>t total. if px_Mode t AND 0x04 \<noteq> 0 \<and> 0 < px_Height t \<and> i32 (px_Height t + sint (px_Seq t)) \<le> currentHeight
        then i64 (total + px_Value t) else total) txos 0"

text \<open>
  A request. A second one is declined while the mutex is held, which \<open>DualFundDecline\<close> takes again; and the decline goes to the
  peer of the pending request. That of a coin without wallet does so, too, and clears the pending one.
\<close>

definition DualFundingReqHandler :: "dual_env \<Rightarrow> dual_node \<Rightarrow> dual_req_msg \<Rightarrow> dual_res" where
  "DualFundingReqHandler de nd msg =
     (let ev = de_ev de; coin = fr_CoinType msg in
      case ev_wallet ev coin of None \<Rightarrow> DualFundDecline de nd DECLINE_UNSUPPORTED_COIN
      | Some wal \<Rightarrow>
        if dd_locked (dn_dual nd) then (nd, [], Some Blocked)
        else if dd_PeerIdx (dn_dual nd) \<noteq> 0
        then DualFundDecline de (set_dual (\<lambda>d. d\<lparr>dd_locked := True\<rparr>) nd) DECLINE_ALREADY_PENDING
        else
          let nd = set_dual (\<lambda>d. d\<lparr>dd_ChanIdx := NextChannelIdx (dn_fund nd), dd_PeerIdx := fr_PeerIdx msg, dd_CoinType := coin,
                dd_OurAmount := sint (fr_TheirAmount msg), dd_TheirInputs := fr_OurInputs msg, dd_TheirAmount := sint (fr_OurAmount msg),
                dd_TheirChangeAddress := fr_OurChangeAddressPKH msg, dd_TheirPub := fr_OurPub msg, dd_TheirRefundPub := fr_OurRefundPub msg,
                dd_TheirHAKDBase := fr_OurHAKDBase msg, dd_InitiatedByUs := False\<rparr>) nd
          in (case de_UtxoDump de coin of Inl e \<Rightarrow> (nd, [], Some e)
              | Inr txos \<Rightarrow>
                if i64 (SumWitness (wl_Height wal) txos - 50000) < sint (fr_TheirAmount msg)
                then DualFundDecline de nd DECLINE_INSUFFICIENT_BALANCE else (nd, [], None)))"

text \<open>The result goes into \<open>done\<close> while the mutex is held: when nobody has taken the last one, this waits for ever.\<close>

definition dual_finish :: "dual_node \<Rightarrow> dual_result \<Rightarrow> dual_node \<times> lit_error option" where
  "dual_finish nd r =
     (if dd_locked (dn_dual nd) then (nd, Some Blocked)
      else if dd_done (dn_dual nd) \<noteq> None then (set_dual (\<lambda>d. d\<lparr>dd_locked := True\<rparr>) nd, Some Blocked)
      else (set_dual (\<lambda>d. InFlightDualFund_Clear (d\<lparr>dd_done := Some r\<rparr>)) nd, None))"

definition DualFundingDeclHandler :: "dual_node \<Rightarrow> dual_decl_msg \<Rightarrow> dual_res" where
  "DualFundingDeclHandler nd msg =
     (case dual_finish nd (new_DualFundingResult\<lparr>dr_DeclineReason := fd_Reason msg\<rparr>) of (nd, e) \<Rightarrow> (nd, [], e))"

section \<open>The funding transaction\<close>

definition sum_inputs :: "fund_input list \<Rightarrow> int" where
  "sum_inputs ins = fold (\<lambda>u total. i64 (total + sint (du_Value u))) ins 0"

text \<open>Its height is that of the wallet when it is built. On an error the transaction is returned as far as it was built.\<close>

definition BuildDualFundingTransaction :: "dual_env \<Rightarrow> in_flight_dual \<Rightarrow> msg_tx \<times> lit_error option" where
  "BuildDualFundingTransaction de d =
     (case ev_wallet (de_ev de) (dd_CoinType d) of None \<Rightarrow> (NewMsgTx, Some OutOfRange)
      | Some w \<Rightarrow>
        let tx = NewMsgTx\<lparr>tx_Version := 2, tx_LockTime := of_int (wl_Height w)\<rparr>;
            tx = foldl (\<lambda>tx u. AddTxIn tx (NewTxIn (du_Outpoint u) [] [])) tx (dd_OurInputs d @ dd_TheirInputs d);
            ours = (dd_OurPub d, dd_OurChangeAddress d, i64 (sum_inputs (dd_OurInputs d) - dd_OurAmount d - DualFundFee));
            theirs = (dd_TheirPub d, dd_TheirChangeAddress d, i64 (sum_inputs (dd_TheirInputs d) - dd_TheirAmount d - DualFundFee));
            ((pubA, adrA, changeA), (pubB, adrB, changeB)) = (if dd_InitiatedByUs d then (ours, theirs) else (theirs, ours))
        in (case FundTxOut (ev_crypto (de_ev de)) pubA pubB (i64 (dd_OurAmount d + dd_TheirAmount d)) of
              Inl e \<Rightarrow> (tx, Some e)
            | Inr txo \<Rightarrow>
              (InPlaceSort (AddTxOut (AddTxOut (AddTxOut tx txo)
                 (NewTxOut (of_int changeA) (DirectWPKHScriptFromPKH adrA))) (NewTxOut (of_int changeB) (DirectWPKHScriptFromPKH adrB))),
               None)))"

section \<open>The messages of the channel\<close>

definition accept_chan :: "node_env \<Rightarrow> in_flight_dual \<Rightarrow> qchan" where
  "accept_chan ev d =
     (let k = chan_keygen (dd_CoinType d) (dd_PeerIdx d) (dd_ChanIdx d); q = new_Qchan k in
      q\<lparr>q_Txo := (q_Txo q)\<lparr>px_Height := -1\<rparr>,
        q_MyPub := GetUsePub_ign ev k UseChannelFund, q_MyRefundPub := GetUsePub_ign ev k UseChannelRefund,
        q_MyHAKDBase := GetUsePub_ign ev k UseChannelHAKDBase,
        q_TheirPub := dd_TheirPub d, q_TheirRefundPub := dd_TheirRefundPub d, q_TheirHAKDBase := dd_TheirHAKDBase d,
        q_ElkSnd := NewElkremSender (case GetElkremRoot ev k of Inl e \<Rightarrow> replicate 32 0 | Inr r \<Rightarrow> r)\<rparr>)"

definition accept_state :: "in_flight_dual \<Rightarrow> wallet \<Rightarrow> dual_accept_msg \<Rightarrow> stat_com" where
  "accept_state d wal msg =
     new_StatCom\<lparr>st_StateIdx := 0, st_MyAmt := dd_OurAmount d, st_Fee := i64 (wl_Fee wal * QcStateFee),
       st_NextHTLCBase := fa_OurNextHTLCBase msg, st_N2HTLCBase := fa_OurN2HTLCBase msg,
       st_MyNextHTLCBase := dd_OurNextHTLCBase d, st_MyN2HTLCBase := dd_OurN2HTLCBase d\<rparr>"

text \<open>
  The answer to a request: it is not compared with a request, nor with its peer. The outpoint of the channel is output 0
  of the transaction. When the elkrem points cannot be had the mutex stays locked.
\<close>

definition DualFundingAcceptHandler :: "dual_env \<Rightarrow> dual_node \<Rightarrow> dual_accept_msg \<Rightarrow> dual_res" where
  "DualFundingAcceptHandler de nd msg =
     (let ev = de_ev de in
      if dd_locked (dn_dual nd) then (nd, [], Some Blocked)
      else
        let nd = set_dual (\<lambda>d. d\<lparr>dd_TheirInputs := fa_OurInputs msg, dd_TheirChangeAddress := fa_OurChangeAddressPKH msg,
               dd_TheirPub := fa_OurPub msg, dd_TheirRefundPub := fa_OurRefundPub msg, dd_TheirHAKDBase := fa_OurHAKDBase msg\<rparr>) nd;
            q = accept_chan ev (dn_dual nd)
        in if \<not> list_all (fe_ValidPub (de_fe de))
                [q_TheirPub q, q_TheirRefundPub q, q_TheirHAKDBase q, fa_OurNextHTLCBase msg, fa_OurN2HTLCBase msg]
           then (nd, [], Some BadFormat)
           else
             let d = (dn_dual nd)\<lparr>dd_TheirNextHTLCBase := fa_OurNextHTLCBase msg, dd_TheirN2HTLCBase := fa_OurN2HTLCBase msg\<rparr>;
                 op = \<lparr>op_Hash = TxHash (ev_crypto ev) (fst (BuildDualFundingTransaction de d)), op_Index = 0\<rparr>;
                 d = d\<lparr>dd_OutPoint := Some op\<rparr>; nd = nd\<lparr>dn_dual := d\<rparr>
             in (case ev_wallet ev (Qchan_Coin q) of None \<Rightarrow> (set_dual (\<lambda>d. d\<lparr>dd_locked := True\<rparr>) nd, [], Some Panic)
                 | Some wal \<Rightarrow>
                   let cap = i64 (dd_OurAmount d + dd_TheirAmount d);
                       q = q\<lparr>q_Txo := (q_Txo q)\<lparr>px_Op := op, px_Value := cap\<rparr>, q_State := accept_state d wal msg\<rparr>;
                       nd = nd\<lparr>dn_fund := fund_SaveQChan (dn_fund nd) q\<rparr>
                   in (case first_points (ev_crypto ev) q of
                         Inl e \<Rightarrow> (set_dual (\<lambda>d. d\<lparr>dd_locked := True\<rparr>) nd, [], Some e)
                       | Inr (p0, p1, p2) \<Rightarrow>
                         (nd, tmpSendLitMsg ev (MsgChanDesc (NewChanDescMsg (dd_PeerIdx d) op (q_MyPub q) (q_MyRefundPub q)
                            (q_MyHAKDBase q) (dd_OurNextHTLCBase d) (dd_OurN2HTLCBase d) (dd_CoinType d) (of_int cap)
                            (of_int (dd_TheirAmount d)) p0 p1 p2 (replicate 32 0))), None))))"

definition dual_desc_state :: "in_flight_dual \<Rightarrow> wallet \<Rightarrow> chan_desc_msg \<Rightarrow> stat_com" where
  "dual_desc_state d wal msg =
     new_StatCom\<lparr>st_Fee := i64 (wl_Fee wal * QcStateFee), st_MyAmt := sint (cd_InitPayment msg), st_Data := cd_Data msg,
       st_StateIdx := 0, st_ElkPoint := cd_ElkZero msg, st_NextElkPoint := cd_ElkOne msg, st_N2ElkPoint := cd_ElkTwo msg,
       st_MyNextHTLCBase := dd_OurNextHTLCBase d, st_MyN2HTLCBase := dd_OurN2HTLCBase d,
       st_NextHTLCBase := cd_NextHTLCBase msg, st_N2HTLCBase := cd_N2HTLCBase msg\<rparr>"

definition DualFundChanDescHandler :: "dual_env \<Rightarrow> dual_node \<Rightarrow> chan_desc_msg \<Rightarrow> dual_res" where
  "DualFundChanDescHandler de nd msg =
     (let ev = de_ev de; fe = de_fe de in
      case ev_wallet ev (cd_CoinType msg) of None \<Rightarrow> (nd, [], Some OutOfRange)
      | Some wal \<Rightarrow>
        if \<not> fe_ValidPub fe (cd_NextHTLCBase msg) then (nd, [], Some BadFormat)
        else if \<not> fe_ValidPub fe (cd_N2HTLCBase msg) then (nd, [], Some BadFormat)
        else
          let qc = (desc_chan ev (NextChannelIdx (dn_fund nd)) msg)\<lparr>q_State := dual_desc_state (dn_dual nd) wal msg\<rparr>;
              nd = nd\<lparr>dn_fund := fund_SaveQChan (dn_fund nd) qc\<rparr>
          in (case bind_res (GetQchan ev (fu_node (dn_fund nd)) (OutPointToBytes (cd_Outpoint msg))) (\<lambda>qc.
                bind_res (first_points (ev_crypto ev) qc) (\<lambda>(p0, p1, p2).
                bind_res (SignState ev qc) (\<lambda>(sig, hs).
                case BuildDualFundingTransaction de (dn_dual nd) of (tx, Some e) \<Rightarrow> Inl e
                | (tx, None) \<Rightarrow>
                  Inr (NewDualFundingChanAckMsg (cd_PeerIdx msg) (cd_Outpoint msg) p0 p1 p2 sig
                    (fst (de_SignMyInputs de (cd_CoinType msg) tx)))))) of
                Inl e \<Rightarrow> (nd, [], Some e)
              | Inr outMsg \<Rightarrow> (nd, tmpSendLitMsg ev (MsgDualChanAck outMsg), None)))"

text \<open>
  The other party's witnesses are put into the inputs that are not signed yet, position by position; more inputs than the
  transaction has are out of range. A script that was read is never nil, so every position is looked at.
\<close>

definition add_signatures :: "tx_in list \<Rightarrow> tx_in list \<Rightarrow> lit_error + tx_in list" where
  "add_signatures theirs ins =
     (if length ins < length theirs then Inl Panic
      else Inr (map (\<lambda>(i, t). if ti_Witness i = [] \<and> ti_SignatureScript i = []
                  then i\<lparr>ti_Witness := ti_Witness t, ti_SignatureScript := ti_SignatureScript t\<rparr> else i)
             (zip ins theirs) @ drop (length theirs) ins))"

definition funding_ins :: "dual_env \<Rightarrow> funding_tx \<Rightarrow> tx_in list" where
  "funding_ins de t = (case t of FullTx tx \<Rightarrow> tx_TxIn tx | PartialTx e \<Rightarrow> de_PartialIns de e)"

definition dual_funded :: "qchan \<Rightarrow> dual_result" where
  "dual_funded q = new_DualFundingResult\<lparr>dr_Accepted := True, dr_ChannelId := Qchan_Idx q\<rparr>"

type_synonym dual_peer_res = "dual_node \<times> remote_peer \<times> lit_msg list \<times> lit_error option"

definition dual_signed :: "dual_env \<Rightarrow> in_flight_dual \<Rightarrow> qchan \<Rightarrow> dual_chan_ack_msg \<Rightarrow> lit_error + msg_tx" where
  "dual_signed de d qc msg =
     (case BuildDualFundingTransaction de d of (tx, Some e) \<Rightarrow> Inl e
      | (tx, None) \<Rightarrow>
        if ev_wallet (de_ev de) (Qchan_Coin qc) = None then Inl Panic
        else case de_SignMyInputs de (Qchan_Coin qc) tx of (tx, Some e) \<Rightarrow> Inl e
          | (tx, None) \<Rightarrow>
            bind_res (add_signatures (funding_ins de (fc_SignedFundingTx msg)) (tx_TxIn tx)) (\<lambda>ins. Inr (tx\<lparr>tx_TxIn := ins\<rparr>)))"

definition DualFundChanAckHandler :: "dual_env \<Rightarrow> dual_node \<Rightarrow> remote_peer \<Rightarrow> dual_chan_ack_msg \<Rightarrow> dual_peer_res" where
  "DualFundChanAckHandler de nd rp msg =
     (let ev = de_ev de; opArr = OutPointToBytes (fc_Outpoint msg) in
      case GetQchan ev (fu_node (dn_fund nd)) opArr of Inl e \<Rightarrow> (nd, rp, [], Some e)
      | Inr qc \<Rightarrow>
        let qc = qc\<lparr>q_State := (q_State qc)\<lparr>st_ElkPoint := fc_ElkZero msg, st_NextElkPoint := fc_ElkOne msg,
                   st_N2ElkPoint := fc_ElkTwo msg\<rparr>\<rparr>
        in (case VerifySigs ev qc (fc_Signature msg) [] of Inl e \<Rightarrow> (nd, rp, [], Some e)
           | Inr qc \<Rightarrow>
             let nd = nd\<lparr>dn_fund := fund_SaveQchanState ev (dn_fund nd) qc\<rparr> in
             (case bind_res (SignState ev qc) (\<lambda>(sig, hs). bind_res (dual_signed de (dn_dual nd) qc msg) (\<lambda>tx. Inr (sig, tx))) of
                Inl e \<Rightarrow> (nd, rp, [], Some e)
              | Inr (sig, tx) \<Rightarrow>
                let nd = nd\<lparr>dn_txs := dn_txs nd @ [tx]\<rparr> in
                (case fe_WatchThis (de_fe de) (Qchan_Coin qc) (q_Op qc) of Some e \<Rightarrow> (nd, rp, [], Some e)
                 | None \<Rightarrow>
                   let f = dn_fund nd;
                       nd = nd\<lparr>dn_fund := f\<lparr>fu_watched := fu_watched f @ [q_Op qc], fu_exported := fu_exported f @ [null_txo qc]\<rparr>\<rparr>
                   in (case dual_finish nd (dual_funded qc) of (nd, Some e) \<Rightarrow> (nd, rp, [], Some e)
                       | (nd, None) \<Rightarrow>
                         (nd, peer_add rp opArr qc,
                          tmpSendLitMsg ev (MsgSigProof (NewSigProofMsg (fc_PeerIdx msg) (fc_Outpoint msg) sig)), None))))))"

definition DualFundSigProofHandler :: "dual_env \<Rightarrow> dual_node \<Rightarrow> remote_peer \<Rightarrow> sig_proof_msg \<Rightarrow> dual_peer_res" where
  "DualFundSigProofHandler de nd rp msg =
     (let ev = de_ev de; opArr = OutPointToBytes (sp_Outpoint msg) in
      case GetQchan ev (fu_node (dn_fund nd)) opArr of Inl e \<Rightarrow> (nd, rp, [], Some e)
      | Inr qc \<Rightarrow>
        if ev_wallet ev (Qchan_Coin qc) = None then (nd, rp, [], Some OutOfRange)
        else (case VerifySigs ev qc (sp_Signature msg) [] of Inl e \<Rightarrow> (nd, rp, [], Some e)
          | Inr qc \<Rightarrow>
            let nd = nd\<lparr>dn_fund := fund_SaveQchanState ev (dn_fund nd) qc\<rparr> in
            (case fe_WatchThis (de_fe de) (Qchan_Coin qc) (sp_Outpoint msg) of Some e \<Rightarrow> (nd, rp, [], Some e)
             | None \<Rightarrow>
               let f = dn_fund nd;
                   nd = nd\<lparr>dn_fund := f\<lparr>fu_watched := fu_watched f @ [sp_Outpoint msg], fu_exported := fu_exported f @ [null_txo qc]\<rparr>\<rparr>
               in (case dual_finish nd (dual_funded qc) of (nd, e) \<Rightarrow> (nd, peer_add rp opArr qc, [], e)))))"

section \<open>The dispatchers\<close>

text \<open>The error of a handler tells where it has stopped; the code logs it or drops it and goes on with the next message.\<close>

definition keep_rp :: "remote_peer \<Rightarrow> dual_res \<Rightarrow> dual_peer_res" where
  "keep_rp rp r = (case r of (nd, msgs, e) \<Rightarrow> (nd, rp, msgs, e))"

definition DualFundingHandler :: "dual_env \<Rightarrow> dual_node \<Rightarrow> remote_peer \<Rightarrow> lit_msg \<Rightarrow> dual_peer_res" where
  "DualFundingHandler de nd rp msg =
     (case msg of
        MsgDualReq m \<Rightarrow> keep_rp rp (DualFundingReqHandler de nd m)
      | MsgDualAccept m \<Rightarrow> keep_rp rp (DualFundingAcceptHandler de nd m)
      | MsgDualDecl m \<Rightarrow> keep_rp rp (DualFundingDeclHandler nd m)
      | MsgChanDesc m \<Rightarrow> keep_rp rp (DualFundChanDescHandler de nd m)
      | MsgDualChanAck m \<Rightarrow> DualFundChanAckHandler de nd rp m
      | MsgSigProof m \<Rightarrow> DualFundSigProofHandler de nd rp m
      | _ \<Rightarrow> (nd, rp, [], Some (UnknownMsgType (MsgType msg))))"

text \<open>
  \<open>ChannelHandler\<close> for a node with a dual funding state: while one is in progress all messages go to its handlers, and the error they
  return is dropped, so that only a handler that does not return is seen. Otherwise they go to those of the ordinary funding. The peer that
  \<open>fund_node\<close> has for a dual funding is not used.
\<close>

definition drop_error :: "lit_error option \<Rightarrow> lit_error option" where
  "drop_error e = (if e = Some Blocked \<or> e = Some Panic then e else None)"

definition dual_ChannelHandler :: "dual_env \<Rightarrow> dual_node \<Rightarrow> remote_peer \<Rightarrow> lit_msg \<Rightarrow> dual_peer_res" where
  "dual_ChannelHandler de nd rp msg =
     (if dd_PeerIdx (dn_dual nd) \<noteq> 0
      then case DualFundingHandler de nd rp msg of (nd, rp, msgs, e) \<Rightarrow> (nd, rp, msgs, drop_error e)
      else case ChannelHandler (\<lambda>f rp m. (f, rp, [], None)) (de_fe de) ((dn_fund nd)\<lparr>fu_DualPeer := 0\<rparr>) rp msg of
        (f, rp, msgs, e) \<Rightarrow> (nd\<lparr>dn_fund := f\<rparr>, rp, msgs, e))"

section \<open>Both sides build the same transaction\<close>

lemma insert_by_swap:
  assumes "lt a b \<longleftrightarrow> \<not> lt b a" "\<And>x y z. lt x y \<Longrightarrow> lt y z \<Longrightarrow> lt x z"
  shows "insert_by lt a (insert_by lt b xs) = insert_by lt b (insert_by lt a xs)"
  using assms(1) by (induction xs) (auto intro: assms(2))

lemma sort_by_append_swap:
  assumes "\<And>a b. a \<in> set xs \<Longrightarrow> b \<in> set ys \<Longrightarrow> lt a b \<longleftrightarrow> \<not> lt b a" "\<And>x y z. lt x y \<Longrightarrow> lt y z \<Longrightarrow> lt x z"
  shows "sort_by lt (xs @ ys) = sort_by lt (ys @ xs)"
proof -
  have one: "foldr (insert_by lt) ys (insert_by lt a zs) = insert_by lt a (foldr (insert_by lt) ys zs)"
    if "\<And>b. b \<in> set ys \<Longrightarrow> lt a b \<longleftrightarrow> \<not> lt b a" for a zs ys
    using that
  proof (induction ys)
    case (Cons y ys)
    have "lt a y \<longleftrightarrow> \<not> lt y a" "\<And>b. b \<in> set ys \<Longrightarrow> lt a b \<longleftrightarrow> \<not> lt b a" by (rule Cons.prems, simp)+
    then show ?case
      using insert_by_swap [of lt a y, OF _ assms(2)] Cons.IH by simp
  qed simp
  have "foldr (insert_by lt) xs (foldr (insert_by lt) ys zs) = foldr (insert_by lt) ys (foldr (insert_by lt) xs zs)" for zs
    using assms(1) by (induction xs) (simp_all add: one)
  then show ?thesis by (simp add: sort_by_def)
qed

text \<open>The input that spends an outpoint. Two of them are ordered, one way or the other, unless they are the same.\<close>

abbreviation dual_in :: "fund_input \<Rightarrow> tx_in" where "dual_in u \<equiv> NewTxIn (du_Outpoint u) [] []"

lemma input_less_trans: "input_less a b \<Longrightarrow> input_less b c \<Longrightarrow> input_less a c"
  by (auto simp: input_less_def Let_def split: if_splits dest: bytes_less_trans bytes_less_asym)

lemma dual_in_total:
  "du_Outpoint u \<noteq> du_Outpoint v \<Longrightarrow> input_less (dual_in u) (dual_in v) \<longleftrightarrow> \<not> input_less (dual_in v) (dual_in u)"
proof -
  assume ne: "du_Outpoint u \<noteq> du_Outpoint v"
  let ?u = "rev (op_Hash (du_Outpoint u))" and ?v = "rev (op_Hash (du_Outpoint v))"
  have "op_Index (du_Outpoint u) \<noteq> op_Index (du_Outpoint v)" if "op_Hash (du_Outpoint u) = op_Hash (du_Outpoint v)"
    using ne that by (cases "du_Outpoint u"; cases "du_Outpoint v") simp
  moreover have "bytes_less ?u ?v \<longleftrightarrow> \<not> bytes_less ?v ?u" if "op_Hash (du_Outpoint u) \<noteq> op_Hash (du_Outpoint v)"
    using that bytes_less_asym bytes_less_total [of ?u ?v] by auto
  ultimately show ?thesis by (auto simp: input_less_def Let_def NewTxIn_def)
qed

text \<open>The fundings of two nodes that see each other's side. The inputs are of two wallets, so no outpoint is on both sides.\<close>

definition dual_mirror :: "in_flight_dual \<Rightarrow> in_flight_dual \<Rightarrow> bool" where
  "dual_mirror d d' \<longleftrightarrow> dd_CoinType d' = dd_CoinType d \<and>
     dd_OurAmount d' = dd_TheirAmount d \<and> dd_TheirAmount d' = dd_OurAmount d \<and>
     dd_OurInputs d' = dd_TheirInputs d \<and> dd_TheirInputs d' = dd_OurInputs d \<and>
     dd_OurChangeAddress d' = dd_TheirChangeAddress d \<and> dd_TheirChangeAddress d' = dd_OurChangeAddress d \<and>
     dd_OurPub d' = dd_TheirPub d \<and> dd_TheirPub d' = dd_OurPub d \<and> dd_InitiatedByUs d' = (\<not> dd_InitiatedByUs d) \<and>
     du_Outpoint ` set (dd_OurInputs d) \<inter> du_Outpoint ` set (dd_TheirInputs d) = {}"

lemma foldl_AddTxIn: "foldl (\<lambda>tx u. AddTxIn tx (f u)) tx us = tx\<lparr>tx_TxIn := tx_TxIn tx @ map f us\<rparr>"
  by (induction us arbitrary: tx) (simp_all add: AddTxIn_def)

text \<open>C36: Two nodes whose fundings mirror each other and whose wallets are at the same height build the same funding transaction, each for
  itself, or both report the same error: it does not matter whose inputs come first.\<close>

theorem dual_tx_agreement:
  assumes "dual_mirror d d'" "ev_crypto (de_ev de') = ev_crypto (de_ev de)"
    and "map_option wl_Height (ev_wallet (de_ev de') (dd_CoinType d)) = map_option wl_Height (ev_wallet (de_ev de) (dd_CoinType d))"
  shows "snd (BuildDualFundingTransaction de' d') = snd (BuildDualFundingTransaction de d) \<and>
    (snd (BuildDualFundingTransaction de d) = None \<longrightarrow> BuildDualFundingTransaction de' d' = BuildDualFundingTransaction de d)"
proof -
  note m = assms(1) [unfolded dual_mirror_def]
  have ins: "sort_by input_less (map dual_in (dd_TheirInputs d) @ map dual_in (dd_OurInputs d)) =
      sort_by input_less (map dual_in (dd_OurInputs d) @ map dual_in (dd_TheirInputs d))"
  proof (rule sort_by_append_swap)
    fix a b assume "a \<in> set (map dual_in (dd_TheirInputs d))" "b \<in> set (map dual_in (dd_OurInputs d))"
    then obtain u v where uv: "u \<in> set (dd_TheirInputs d)" "v \<in> set (dd_OurInputs d)" "a = dual_in u" "b = dual_in v" by auto
    then have "du_Outpoint u \<noteq> du_Outpoint v" using m by blast
    then show "input_less a b \<longleftrightarrow> \<not> input_less b a" unfolding uv(3,4) by (rule dual_in_total)
  qed (rule input_less_trans)
  show ?thesis
  proof (cases "ev_wallet (de_ev de) (dd_CoinType d)")
    case None
    then show ?thesis using assms(3) m by (simp add: BuildDualFundingTransaction_def)
  next
    case (Some w)
    then obtain w' where w': "ev_wallet (de_ev de') (dd_CoinType d) = Some w'" "wl_Height w' = wl_Height w" using assms(3) by auto
    show ?thesis
      using m
      by (cases "dd_InitiatedByUs d")
        (auto simp: BuildDualFundingTransaction_def Some w' assms(2) Let_def add.commute foldl_AddTxIn InPlaceSort_def AddTxOut_def NewMsgTx_def ins
          split: sum.split)
  qed
qed

section \<open>What goes wrong\<close>

lemma fund_out_value: "FundTxOut cr a b amt = Inr out \<Longrightarrow> to_Value out = of_int amt"
  by (auto simp: FundTxOut_def bind_res_eq_Inr NewTxOut_def split: if_splits)

text \<open>C37: \<open>DualFundingAcceptHandler\<close> takes output 0 of the funding transaction for the channel, but the outputs have been sorted by value:
  when a side gets less change than the channel holds, output 0 is worth less than the channel, so the channel is
  stored, described and signed with the outpoint of a change output.\<close>

theorem dual_outpoint_is_change:
  assumes "BuildDualFundingTransaction de d = (tx, None)" "dd_OurAmount d + dd_TheirAmount d < 2 ^ 63" "0 \<le> dd_OurAmount d + dd_TheirAmount d"
    and "i64 (sum_inputs (dd_OurInputs d) - dd_OurAmount d - DualFundFee) < dd_OurAmount d + dd_TheirAmount d"
  shows "sint (to_Value (tx_TxOut tx ! 0)) < dd_OurAmount d + dd_TheirAmount d"
proof -
  let ?cap = "dd_OurAmount d + dd_TheirAmount d"
  let ?ours = "i64 (sum_inputs (dd_OurInputs d) - dd_OurAmount d - DualFundFee)"
  let ?theirs = "i64 (sum_inputs (dd_TheirInputs d) - dd_TheirAmount d - DualFundFee)"
  have cap: "i64 ?cap = ?cap" using assms(2,3) by (simp add: i64_id)
  have o: "sint (of_int ?ours :: u64) = ?ours"
    by (simp add: i64_def sint_sbintrunc')
  obtain out a b sa sb where t: "tx_TxOut tx = sort_by output_less [out, NewTxOut a sa, NewTxOut b sb]" "to_Value out = of_int ?cap"
    "a = of_int ?ours \<and> b = of_int ?theirs \<or> a = of_int ?theirs \<and> b = of_int ?ours"
    using assms(1) cap
    by (cases "dd_InitiatedByUs d")
      (auto simp: BuildDualFundingTransaction_def Let_def foldl_AddTxIn InPlaceSort_def AddTxOut_def NewMsgTx_def
        split: sum.splits option.splits dest!: fund_out_value)
  have c: "sint (to_Value out) = ?cap" using assms(2,3) by (simp add: t(2) sint_of_int64 del: of_int_add)
  have "sint a < ?cap \<or> sint b < ?cap" using t(3) o assms(4) by auto
  then show ?thesis
    using c by (auto simp: t(1) sort_by_def output_less_def NewTxOut_def nth_Cons split: nat.split)
qed

text \<open>A second request makes the node that has one pending wait for ever: it is declined with the mutex held that declining takes, and
  the message that declines it goes to the peer of the first one.\<close>

theorem second_request_locks:
  assumes "dd_PeerIdx (dn_dual nd) \<noteq> 0" "\<not> dd_locked (dn_dual nd)" "ev_wallet (de_ev de) (fr_CoinType msg) \<noteq> None"
  shows "\<exists>nd'. DualFundingReqHandler de nd msg =
      (nd', tmpSendLitMsg (de_ev de) (MsgDualDecl (NewDualFundingDeclMsg (dd_PeerIdx (dn_dual nd)) DECLINE_ALREADY_PENDING)), Some Blocked) \<and>
    dd_locked (dn_dual nd') \<and>
    (\<forall>msg'. ev_wallet (de_ev de) (fr_CoinType msg') \<noteq> None \<longrightarrow> DualFundingReqHandler de nd' msg' = (nd', [], Some Blocked))"
  using assms by (auto simp: DualFundingReqHandler_def DualFundDecline_def)

text \<open>An answer nobody has asked for ends a node that has no wallet for the coin of its last dual funding, the coin number 0 when
  there was none: the handler does not look whether a funding is in progress.\<close>

theorem unasked_accept_panics:
  assumes "\<not> dd_locked (dn_dual nd)" "ev_wallet (de_ev de) (dd_CoinType (dn_dual nd) AND 0x7fffffff) = None"
    and "list_all (fe_ValidPub (de_fe de)) [fa_OurPub msg, fa_OurRefundPub msg, fa_OurHAKDBase msg, fa_OurNextHTLCBase msg, fa_OurN2HTLCBase msg]"
  shows "\<exists>nd'. DualFundingHandler de nd rp (MsgDualAccept msg) = (nd', rp, [], Some Panic)"
proof -
  have "Qchan_Coin (accept_chan ev d) = dd_CoinType d AND 0x7fffffff" "q_TheirPub (accept_chan ev d) = dd_TheirPub d"
    "q_TheirRefundPub (accept_chan ev d) = dd_TheirRefundPub d" "q_TheirHAKDBase (accept_chan ev d) = dd_TheirHAKDBase d" for ev d
    by (simp_all add: Qchan_Coin_def accept_chan_def new_Qchan_def new_PorTxo_def chan_keygen_def Let_def word_ao_dist)
  then show ?thesis
    using assms by (auto simp: DualFundingHandler_def keep_rp_def DualFundingAcceptHandler_def Let_def)
qed

text \<open>C15: A dual funding that goes as intended stops at the description of the channel. The node that asks never derives the HTLC keys
  it has to describe the channel with, so the description carries zeros, which are no keys: the other node refuses it without
  an answer and without a change to its state. At that point nothing is under way, both nodes have \<open>done\<close> empty and go on
  waiting for it, which a decline by either of them would end, and meanwhile both throw away every request for an ordinary
  funding unanswered.\<close>

theorem dual_funding_stops:
  assumes a: "dd_OurNextHTLCBase (dn_dual nA) = zero33" "dd_done (dn_dual nA) = None" "dd_done (dn_dual nB) = None" "pA \<noteq> 0" "pB \<noteq> 0"
    and keys: "\<not> fe_ValidPub (de_fe deB) zero33" "\<not> ev_connected (de_ev deB) 0"
    and ask: "DualFundChannel deA nA pB coin x y = (nA1, [MsgDualReq r], None)"
    and get: "DualFundingReqHandler deB nB (r\<lparr>fr_PeerIdx := pA\<rparr>) = (nB1, [], None)"
    and accept: "DualFundAccept deB nB1 = (nB2, [MsgDualAccept m], None)"
    and desc: "DualFundingAcceptHandler deA nA1 (m\<lparr>fa_PeerIdx := pB\<rparr>) = (nA2, [MsgChanDesc d], None)"
  shows "(\<exists>e. DualFundChanDescHandler deB nB2 (d\<lparr>cd_PeerIdx := pA\<rparr>) = (nB2, [], Some e)) \<and>
    DualFund_wait nA2 = (nA2, Inl Blocked) \<and> DualFund_wait nB2 = (nB2, Inl Blocked) \<and>
    dual_ChannelHandler deA nA2 rp (MsgPointReq q) = (nA2, rp, [], None) \<and>
    dual_ChannelHandler deB nB2 rp (MsgPointReq q) = (nB2, rp, [], None)"
proof -
  have A1: "dd_OurNextHTLCBase (dn_dual nA1) = zero33" "dd_done (dn_dual nA1) = None" "dd_PeerIdx (dn_dual nA1) = pB"
    using ask a by (auto simp: DualFundChannel_def Let_def split: if_splits sum.splits)
  have A2: "cd_NextHTLCBase d = zero33" "dd_done (dn_dual nA2) = None" "dd_PeerIdx (dn_dual nA2) = pB"
    using desc A1 by (auto simp: DualFundingAcceptHandler_def Let_def tmpSendLitMsg_def NewChanDescMsg_def split: if_splits sum.splits option.splits)
  have "dd_PeerIdx (dn_dual nB1) \<noteq> 0"
    using accept keys(2) by (auto simp: DualFundAccept_def Let_def tmpSendLitMsg_def NewDualFundingAcceptMsg_def split: if_splits sum.splits)
  then have B1: "dd_done (dn_dual nB1) = None" "dd_PeerIdx (dn_dual nB1) = pA"
    using get a by (auto simp: DualFundingReqHandler_def DualFundDecline_def Let_def InFlightDualFund_Clear_def split: if_splits sum.splits option.splits)
  have B2: "dd_done (dn_dual nB2) = None" "dd_PeerIdx (dn_dual nB2) = pA"
    using accept B1 by (auto simp: DualFundAccept_def Let_def split: if_splits sum.splits)
  have "\<exists>e. DualFundChanDescHandler deB nB2 (d\<lparr>cd_PeerIdx := pA\<rparr>) = (nB2, [], Some e)"
    using A2(1) keys(1) by (simp add: DualFundChanDescHandler_def Let_def split: option.split)
  then show ?thesis
    using A2 B2 a by (simp add: DualFund_wait_def dual_ChannelHandler_def DualFundingHandler_def drop_error_def)
qed

section \<open>Examples\<close>

text \<open>Two nodes with one input each; keys are 33 bytes that do not begin with zero. The peers call each other 3 and 2.\<close>

definition toy_dual :: "byte \<Rightarrow> dual_env" where
  "toy_dual me = \<lparr>de_fe = (toy_fund me)\<lparr>fe_ev := (toy_env me)\<lparr>ev_connected := (\<lambda>p. p \<noteq> 0)\<rparr>,
       fe_ValidPub := (\<lambda>k. length k = 33 \<and> hd k \<noteq> 0)\<rparr>,
     de_NewAdr = (\<lambda>c. Inr (replicate 20 me)),
     de_PickUtxos = (\<lambda>c amt size. Inr [\<lparr>du_Outpoint = \<lparr>op_Hash = replicate 32 me, op_Index = 0\<rparr>, du_Value = 1200000\<rparr>]),
     de_UtxoDump = (\<lambda>c. Inr [(new_PorTxo (chan_keygen 1 1 1))\<lparr>px_Value := 1200000, px_Height := 400, px_Mode := 4\<rparr>]),
     de_SignMyInputs = (\<lambda>c tx. (tx, None)), de_PartialIns = (\<lambda>e. [])\<rparr>"

definition toy_in_flight :: in_flight_dual where
  "toy_in_flight = \<lparr>dd_PeerIdx = 0, dd_ChanIdx = 0, dd_CoinType = 0, dd_OurAmount = 0, dd_TheirAmount = 0, dd_OurInputs = [],
     dd_TheirInputs = [], dd_OurChangeAddress = replicate 20 0, dd_TheirChangeAddress = replicate 20 0, dd_OurPub = zero33,
     dd_OurRefundPub = zero33, dd_OurHAKDBase = zero33, dd_TheirPub = zero33, dd_TheirRefundPub = zero33,
     dd_TheirHAKDBase = zero33, dd_OurNextHTLCBase = zero33, dd_OurN2HTLCBase = zero33, dd_TheirNextHTLCBase = zero33,
     dd_TheirN2HTLCBase = zero33, dd_InitiatedByUs = False, dd_OutPoint = None, dd_done = None, dd_locked = False\<rparr>"

definition toy_dual_node :: dual_node where
  "toy_dual_node = \<lparr>dn_fund = toy_fund_node, dn_dual = toy_in_flight, dn_txs = []\<rparr>"

text \<open>The two sides of a funding with 1000000 from each.\<close>

definition toy_half :: "byte \<Rightarrow> byte \<Rightarrow> bool \<Rightarrow> in_flight_dual" where
  "toy_half me them first = toy_in_flight\<lparr>dd_PeerIdx := 2, dd_CoinType := 1, dd_OurAmount := 1000000, dd_TheirAmount := 1000000,
     dd_OurInputs := [\<lparr>du_Outpoint = \<lparr>op_Hash = replicate 32 me, op_Index = 0\<rparr>, du_Value = 1200000\<rparr>],
     dd_TheirInputs := [\<lparr>du_Outpoint = \<lparr>op_Hash = replicate 32 them, op_Index = 0\<rparr>, du_Value = 1200000\<rparr>],
     dd_OurChangeAddress := replicate 20 me, dd_TheirChangeAddress := replicate 20 them, dd_OurPub := replicate 33 me,
     dd_TheirPub := replicate 33 them, dd_InitiatedByUs := first\<rparr>"

lemmas toy_dual_defs = toy_dual_def toy_fund_def toy_env_def toy_dual_node_def toy_fund_node_def toy_in_flight_def toy_half_def

theorem dual_tx_agreement_witness:
  "BuildDualFundingTransaction (toy_dual 2) (toy_half 2 1 False) = BuildDualFundingTransaction (toy_dual 1) (toy_half 1 2 True) \<and>
   snd (BuildDualFundingTransaction (toy_dual 1) (toy_half 1 2 True)) = None"
proof -
  have "dual_mirror (toy_half 1 2 True) (toy_half 2 1 False)" by (simp add: dual_mirror_def toy_half_def)
  from dual_tx_agreement [OF this, of "toy_dual 2" "toy_dual 1"]
  have a: "snd (BuildDualFundingTransaction (toy_dual 1) (toy_half 1 2 True)) = None \<longrightarrow>
      BuildDualFundingTransaction (toy_dual 2) (toy_half 2 1 False) = BuildDualFundingTransaction (toy_dual 1) (toy_half 1 2 True)"
    by (simp add: toy_dual_defs)
  have "length (replicate 33 (1 :: byte)) = 33" "length (replicate 33 (2 :: byte)) = 33" by simp_all
  from FundTxScript_ok [OF this] obtain pre w where "FundTxScript (replicate 33 1) (replicate 33 2) = Inr (pre, w)" by blast
  then have "snd (BuildDualFundingTransaction (toy_dual 1) (toy_half 1 2 True)) = None"
    by (simp add: BuildDualFundingTransaction_def toy_dual_defs FundTxOut_def i64_id Let_def split: sum.split)
  with a show ?thesis by simp
qed

theorem dual_outpoint_is_change_witness:
  "sint (to_Value (tx_TxOut (fst (BuildDualFundingTransaction (toy_dual 1) (toy_half 1 2 True))) ! 0)) < 2000000"
proof -
  have s: "snd (BuildDualFundingTransaction (toy_dual 1) (toy_half 1 2 True)) = None"
  proof -
    have "length (replicate 33 (1 :: byte)) = 33" "length (replicate 33 (2 :: byte)) = 33" by simp_all
    from FundTxScript_ok [OF this] obtain pre w where "FundTxScript (replicate 33 1) (replicate 33 2) = Inr (pre, w)" by blast
    then show ?thesis
      by (simp add: BuildDualFundingTransaction_def toy_dual_defs FundTxOut_def i64_id Let_def split: sum.split)
  qed
  have f: "dd_OurAmount (toy_half 1 2 True) = 1000000" "dd_TheirAmount (toy_half 1 2 True) = 1000000"
    "sum_inputs (dd_OurInputs (toy_half 1 2 True)) = 1200000"
    by (simp_all add: toy_half_def sum_inputs_def i64_id)
  obtain tx where "BuildDualFundingTransaction (toy_dual 1) (toy_half 1 2 True) = (tx, None)" using s by (metis prod.collapse)
  from dual_outpoint_is_change [OF this] this show ?thesis by (simp add: f DualFundFee_def i64_id)
qed

theorem second_request_locks_witness:
  "\<exists>nd' e. DualFundingReqHandler (toy_dual 1) (set_dual (\<lambda>d. d\<lparr>dd_PeerIdx := 2\<rparr>) toy_dual_node)
      (NewDualFundingReqMsg 3 1 1000000 1000000 [] [] [] [] []) = (nd', [MsgDualDecl (NewDualFundingDeclMsg 2 4)], Some e) \<and>
    dd_locked (dn_dual nd')"
  using second_request_locks [of "set_dual (\<lambda>d. d\<lparr>dd_PeerIdx := 2\<rparr>) toy_dual_node" "toy_dual 1" "NewDualFundingReqMsg 3 1 1000000 1000000 [] [] [] [] []"]
  by (auto simp: toy_dual_defs tmpSendLitMsg_def NewDualFundingDeclMsg_def DECLINE_ALREADY_PENDING_def)

text \<open>The messages and the fundings of an opening between the two.\<close>

abbreviation toy_input :: "byte \<Rightarrow> fund_input" where
  "toy_input me \<equiv> \<lparr>du_Outpoint = \<lparr>op_Hash = replicate 32 me, op_Index = 0\<rparr>, du_Value = 1200000\<rparr>"

definition toy_req :: dual_req_msg where
  "toy_req = NewDualFundingReqMsg 3 1 1000000 1000000 (replicate 33 1) (replicate 33 1) (replicate 33 1) (replicate 20 1) [toy_input 1]"

definition toy_accept :: dual_accept_msg where
  "toy_accept = NewDualFundingAcceptMsg 2 1 (replicate 33 2) (replicate 33 2) (replicate 33 2) (replicate 20 2) [toy_input 2]
     (replicate 33 2) (replicate 33 2)"

definition toy_asked :: in_flight_dual where
  "toy_asked = toy_in_flight\<lparr>dd_ChanIdx := 1, dd_PeerIdx := 3, dd_CoinType := 1, dd_OurAmount := 1000000,
     dd_TheirAmount := 1000000, dd_OurChangeAddress := replicate 20 1, dd_InitiatedByUs := True, dd_OurPub := replicate 33 1,
     dd_OurRefundPub := replicate 33 1, dd_OurHAKDBase := replicate 33 1, dd_OurInputs := [toy_input 1]\<rparr>"

definition toy_got :: in_flight_dual where
  "toy_got = toy_in_flight\<lparr>dd_ChanIdx := 1, dd_PeerIdx := 2, dd_CoinType := 1, dd_OurAmount := 1000000,
     dd_TheirInputs := [toy_input 1], dd_TheirAmount := 1000000, dd_TheirChangeAddress := replicate 20 1,
     dd_TheirPub := replicate 33 1, dd_TheirRefundPub := replicate 33 1, dd_TheirHAKDBase := replicate 33 1,
     dd_InitiatedByUs := False\<rparr>"

lemma toy_dual_env [simp]:
  "GetUsePub_ign (de_ev (toy_dual me)) k u = replicate 33 me" "GetUsePub (de_ev (toy_dual me)) k u = Inr (replicate 33 me)"
  "ev_wallet (de_ev (toy_dual me)) c = Some toy_wallet" "de_NewAdr (toy_dual me) c = Inr (replicate 20 me)"
  "de_PickUtxos (toy_dual me) c a z = Inr [toy_input me]" "ev_connected (de_ev (toy_dual me)) p \<longleftrightarrow> p \<noteq> 0"
  "fe_ValidPub (de_fe (toy_dual me)) b \<longleftrightarrow> length b = 33 \<and> hd b \<noteq> 0"
  by (simp_all add: GetUsePub_ign_def GetUsePub_def toy_dual_defs)

lemma toy_dual_start [simp]:
  "dn_dual toy_dual_node = toy_in_flight" "NextChannelIdx (dn_fund toy_dual_node) = 1"
  "dd_locked toy_in_flight = False" "dd_PeerIdx toy_in_flight = 0" "dd_done toy_in_flight = None"
  "dd_OurNextHTLCBase toy_in_flight = zero33"
  by (simp_all add: toy_dual_node_def toy_fund_node_def toy_in_flight_def NextChannelIdx_def)

lemma toy_ask:
  "DualFundChannel (toy_dual 1) toy_dual_node 3 1 1000000 1000000 = (toy_dual_node\<lparr>dn_dual := toy_asked\<rparr>, [MsgDualReq toy_req], None)"
  by (simp add: DualFundChannel_def Let_def tmpSendLitMsg_def i64_id MinChanCapacity_def toy_req_def NewDualFundingReqMsg_def toy_asked_def)

lemma toy_get:
  "DualFundingReqHandler (toy_dual 2) toy_dual_node (toy_req\<lparr>fr_PeerIdx := 2\<rparr>) = (toy_dual_node\<lparr>dn_dual := toy_got\<rparr>, [], None)"
proof -
  have "de_UtxoDump (toy_dual 2) 1 = Inr [(new_PorTxo (chan_keygen 1 1 1))\<lparr>px_Value := 1200000, px_Height := 400, px_Mode := 4\<rparr>]"
    by (simp add: toy_dual_defs)
  then show ?thesis
    by (simp add: DualFundingReqHandler_def toy_req_def NewDualFundingReqMsg_def toy_got_def SumWitness_def new_PorTxo_def i64_id i32_def)
qed

lemma toy_answer:
  "\<exists>nd. DualFundAccept (toy_dual 2) (toy_dual_node\<lparr>dn_dual := toy_got\<rparr>) = (nd, [MsgDualAccept toy_accept], None)"
  by (simp add: DualFundAccept_def my_bases_def toy_got_def toy_accept_def NewDualFundingAcceptMsg_def tmpSendLitMsg_def Let_def)

lemma toy_desc:
  "\<exists>nd d. DualFundingAcceptHandler (toy_dual 1) (toy_dual_node\<lparr>dn_dual := toy_asked\<rparr>) (toy_accept\<lparr>fa_PeerIdx := 3\<rparr>) = (nd, [MsgChanDesc d], None)"
proof -
  let ?r = "\<lambda>d. case GetElkremRoot (de_ev (toy_dual 1)) (chan_keygen (dd_CoinType d) (dd_PeerIdx d) (dd_ChanIdx d)) of
      Inl e \<Rightarrow> replicate 32 0 | Inr r \<Rightarrow> r"
  have "first_points cr ((accept_chan (de_ev (toy_dual 1)) d)\<lparr>q_Txo := t, q_State := accept_state d' w m\<rparr>) =
      Inr (pt cr (?r d) 0, pt cr (?r d) 1, pt cr (?r d) 2)" for cr d t d' w m
    by (rule first_points_of) (simp_all add: accept_chan_def accept_state_def Let_def new_StatCom_def)
  moreover have "q_TheirPub (accept_chan ev d) = dd_TheirPub d" "q_TheirRefundPub (accept_chan ev d) = dd_TheirRefundPub d"
    "q_TheirHAKDBase (accept_chan ev d) = dd_TheirHAKDBase d" for ev d
    by (simp_all add: accept_chan_def Let_def)
  ultimately show ?thesis
    by (simp add: DualFundingAcceptHandler_def toy_accept_def NewDualFundingAcceptMsg_def toy_asked_def Let_def tmpSendLitMsg_def NewChanDescMsg_def)
qed

theorem dual_funding_stops_witness:
  "\<exists>nA r nB nB' m nA' d e.
     DualFundChannel (toy_dual 1) toy_dual_node 3 1 1000000 1000000 = (nA, [MsgDualReq r], None) \<and>
     DualFundingReqHandler (toy_dual 2) toy_dual_node (r\<lparr>fr_PeerIdx := 2\<rparr>) = (nB, [], None) \<and>
     DualFundAccept (toy_dual 2) nB = (nB', [MsgDualAccept m], None) \<and>
     DualFundingAcceptHandler (toy_dual 1) nA (m\<lparr>fa_PeerIdx := 3\<rparr>) = (nA', [MsgChanDesc d], None) \<and>
     DualFundChanDescHandler (toy_dual 2) nB' (d\<lparr>cd_PeerIdx := 2\<rparr>) = (nB', [], Some e)"
proof -
  obtain nB' where b: "DualFundAccept (toy_dual 2) (toy_dual_node\<lparr>dn_dual := toy_got\<rparr>) = (nB', [MsgDualAccept toy_accept], None)"
    using toy_answer by blast
  obtain nA' d where a: "DualFundingAcceptHandler (toy_dual 1) (toy_dual_node\<lparr>dn_dual := toy_asked\<rparr>) (toy_accept\<lparr>fa_PeerIdx := 3\<rparr>) =
      (nA', [MsgChanDesc d], None)" using toy_desc by blast
  have "\<exists>e. DualFundChanDescHandler (toy_dual 2) nB' (d\<lparr>cd_PeerIdx := 2\<rparr>) = (nB', [], Some e)"
    by (rule dual_funding_stops [OF _ _ _ _ _ _ _ toy_ask toy_get b a, THEN conjunct1]) (simp_all add: zero33_def)
  then show ?thesis using toy_ask toy_get a b by blast
qed

end
