(* ===== verification/Watchtower.thy ===== *)
theory Watchtower
  imports PushPull Sig64
begin

text \<open>
  The watchtower (\<open>watchtower/watchtower.go\<close>, \<open>watchtower/watchdb.go\<close>, \<open>watchtower/justice.go\<close>, \<open>watchtower/serdes.go\<close>) and what a
  node sends it (\<open>SyncWatch\<close> of \<open>qln/justicetx.go\<close>). A tower learns of a channel from a description, gets a secret, half a transaction id and a
  signature for every revoked state, and looks for the ids in every block.
\<close>

section \<open>The tower and its database\<close>

text \<open>
  A bucket of the database is a list of keys with their values. Only the first bucket is asked for its last key, and its keys, four
  bytes, are ordered as numbers. An update that returns an error is rolled back.
\<close>

definition bolt_put :: "'k \<Rightarrow> 'v \<Rightarrow> ('k \<times> 'v) list \<Rightarrow> ('k \<times> 'v) list" where
  "bolt_put k v kvs = (k, v) # filter (\<lambda>kv. fst kv \<noteq> k) kvs"

definition last_key :: "('k :: linorder \<times> 'v) list \<Rightarrow> 'k option" where
  "last_key kvs = (case kvs of [] \<Rightarrow> None | kv # kvs \<Rightarrow> Some (fold (\<lambda>kv. max (fst kv)) kvs (fst kv)))"

record tower_chan =
  tc_Static :: bytes
  tc_Idx :: bytes
  tc_ElkRcv :: "bytes option"

record watch_tower =
  wt_open :: bool
  wt_Watching :: bool
  wt_Hooks :: "u32 list"
  wt_PKHMap :: "(u32 \<times> bytes) list"
  wt_Chandata :: "(bytes \<times> tower_chan) list"
  wt_Txid :: "(bytes \<times> bytes) list"

definition OpenDB :: "watch_tower \<Rightarrow> watch_tower" where
  "OpenDB w = w\<lparr>wt_open := True, wt_Watching := (if wt_Txid w \<noteq> [] then True else wt_Watching w)\<rparr>"

text \<open>The error is that of opening the database.\<close>

definition HookLink :: "lit_error option \<Rightarrow> watch_tower \<Rightarrow> u32 \<Rightarrow> watch_tower \<times> lit_error option" where
  "HookLink db w cointype =
     (if wt_Hooks w = [] \<and> db \<noteq> None then (w, db)
      else
        let w = (if wt_Hooks w = [] then OpenDB w else w) in
        if cointype \<in> set (wt_Hooks w) then (w, Some OutOfRange)
        else (w\<lparr>wt_Hooks := cointype # wt_Hooks w\<rparr>, None))"

definition NewChannel :: "watch_tower \<Rightarrow> watch_desc_msg \<Rightarrow> watch_tower \<times> lit_error option" where
  "NewChannel w m =
     (if \<not> wt_open w then (w, Some OutOfRange)
      else if wd_CoinType m \<notin> set (wt_Hooks w) then (w, Some OutOfRange)
      else
        let newIdx = (case last_key (wt_PKHMap w) of None \<Rightarrow> 0 | Some k \<Rightarrow> k + 1); wdBytes = WatchDescMsg_Bytes m in
        if map_of (wt_Chandata w) (wd_DestPKHScript m) \<noteq> None then (w, Some OutOfRange)
        else if length wdBytes < 96 then (w, Some (TooShort (length wdBytes)))
        else (w\<lparr>wt_Chandata := bolt_put (wd_DestPKHScript m)
                 \<lparr>tc_Static = take 96 wdBytes, tc_Idx = U32tB newIdx, tc_ElkRcv = None\<rparr> (wt_Chandata w),
               wt_Watching := True, wt_PKHMap := bolt_put newIdx (wd_DestPKHScript m) (wt_PKHMap w)\<rparr>, None))"

text \<open>The 74 bytes kept for a transaction: the channel, six bytes of the state number, and the signature.\<close>

record idx_sig =
  is_PKHIdx :: u32
  is_StateIdx :: u64
  is_Sig :: bytes

definition idx_sig_bytes :: "bytes \<Rightarrow> u64 \<Rightarrow> bytes \<Rightarrow> bytes" where
  "idx_sig_bytes cIdxBytes stateNum sig = copy_fresh 4 cIdxBytes @ copy_fresh 6 (drop 2 (U64tB stateNum)) @ copy_fresh 64 sig"

definition IdxSigFromBytes :: "bytes \<Rightarrow> lit_error + idx_sig" where
  "IdxSigFromBytes b =
     (if length b \<noteq> 74 then Inl (BadLength (length b))
      else Inr \<lparr>is_PKHIdx = BtU32 (take 4 b), is_StateIdx = BtU64 (take 8 (drop 2 b)) AND 0x0000ffffffffffff,
        is_Sig = copy_fresh 64 (drop 10 b)\<rparr>)"

definition UpdateChannel :: "crypto \<Rightarrow> watch_tower \<Rightarrow> watch_state_msg \<Rightarrow> watch_tower \<times> lit_error option" where
  "UpdateChannel cr w m =
     (if \<not> wt_open w then (w, Some OutOfRange)
      else case map_of (wt_Chandata w) (ws_DestPKH m) of None \<Rightarrow> (w, Some OutOfRange)
      | Some c \<Rightarrow>
        (case bind_res (ElkremReceiverFromBytes (case tc_ElkRcv c of None \<Rightarrow> [] | Some b \<Rightarrow> b)) (\<lambda>elkr.
              bind_res (AddNext (cr_DoubleHash cr) elkr (Some (ws_Elk m))) (\<lambda>elkr.
              bind_res (receiver_ToBytes elkr) (\<lambda>elkBytes. Inr (UpTo elkr, elkBytes)))) of
           Inl e \<Rightarrow> (w, Some e)
         | Inr (stateNum, elkBytes) \<Rightarrow>
           (w\<lparr>wt_Chandata := bolt_put (ws_DestPKH m) (c\<lparr>tc_ElkRcv := Some elkBytes\<rparr>) (wt_Chandata w),
              wt_Txid := bolt_put (take 16 (ws_ParTxid m)) (idx_sig_bytes (tc_Idx c) stateNum (ws_Sig m)) (wt_Txid w)\<rparr>, None)))"

text \<open>Forgetting a channel is not implemented.\<close>

definition DeleteChannel :: "watch_tower \<Rightarrow> watch_del_msg \<Rightarrow> watch_tower \<times> lit_error option" where
  "DeleteChannel w m = (w, if wt_open w then None else Some OutOfRange)"

section \<open>Justice\<close>

text \<open>All but the coinbase transaction are looked up.\<close>

definition MatchTxids :: "watch_tower \<Rightarrow> bytes list \<Rightarrow> bytes list" where
  "MatchTxids w txids = filter (\<lambda>txid. map_of (wt_Txid w) (take 16 txid) \<noteq> None) (drop 1 txids)"

text \<open>The second half of \<open>BuildJusticeTx\<close>: the description, the secret and the signature are there. An output number 999 is taken for none.\<close>

definition justice_script :: "crypto \<Rightarrow> watch_desc_msg \<Rightarrow> bytes \<Rightarrow> bytes" where
  "justice_script cr wd elkHash =
     (let elkPoint = ElkPointFromHash cr elkHash in
      CommitScript (cr_CombinePubs cr (wd_CustomerBasePoint wd) elkPoint) (cr_AddPubsEZ cr (wd_AdversaryBasePoint wd) elkPoint) (wd_Delay wd))"

definition justice_from :: "crypto \<Rightarrow> watch_desc_msg \<Rightarrow> bytes \<Rightarrow> bytes \<Rightarrow> msg_tx \<Rightarrow> lit_error + msg_tx" where
  "justice_from cr wd elkHash sig badTx =
     (let script = justice_script cr wd elkHash in
      case find_idx (\<lambda>out. P2WSHify cr script = to_PkScript out) (tx_TxOut badTx) of None \<Rightarrow> Inl OutOfRange
      | Some txoutNum \<Rightarrow>
        if txoutNum = 999 then Inl OutOfRange
        else
          let justiceAmt = i64 (sint (to_Value (tx_TxOut badTx ! txoutNum)) - sint (wd_Fee wd));
              justiceOut = NewTxOut (of_int justiceAmt) (DirectWPKHScriptFromPKH (wd_DestPKHScript wd));
              badOP = \<lparr>op_Hash = TxHash cr badTx, op_Index = of_nat txoutNum\<rparr>;
              justiceIn = (NewTxIn badOP [] [])\<lparr>ti_Sequence := 1, ti_Witness := [SigDecompress sig @ [0x01], [0x01], script]\<rparr>
          in Inr (AddTxOut (AddTxIn (NewMsgTx\<lparr>tx_Version := 2\<rparr>) justiceIn) justiceOut))"

definition BuildJusticeTx :: "crypto \<Rightarrow> watch_tower \<Rightarrow> msg_tx \<Rightarrow> lit_error + msg_tx" where
  "BuildJusticeTx cr w badTx =
     (case map_of (wt_Txid w) (take 16 (TxHash cr badTx)) of None \<Rightarrow> Inl OutOfRange
      | Some b \<Rightarrow> bind_res (IdxSigFromBytes b) (\<lambda>iSig.
        case map_of (wt_PKHMap w) (is_PKHIdx iSig) of None \<Rightarrow> Inl OutOfRange
        | Some pkh \<Rightarrow>
          (case map_of (wt_Chandata w) pkh of None \<Rightarrow> Inl OutOfRange
           | Some c \<Rightarrow> bind_res (NewWatchDescMsgFromBytes (tc_Static c) 0) (\<lambda>wd.
             case tc_ElkRcv c of None \<Rightarrow> Inl OutOfRange
             | Some elkBytes \<Rightarrow> bind_res (ElkremReceiverFromBytes elkBytes) (\<lambda>elkRcv.
               bind_res (receiver_AtIndex (cr_DoubleHash cr) elkRcv (is_StateIdx iSig)) (\<lambda>elkHash.
                 justice_from cr wd elkHash (is_Sig iSig) badTx))))))"

text \<open>
  A block, and what is pushed to the network. The id of the justice transaction is logged even when there is none, which is a nil
  dereference.
\<close>

definition justice_pushes :: "crypto \<Rightarrow> watch_tower \<Rightarrow> msg_tx list \<Rightarrow> msg_tx list \<Rightarrow> bytes \<Rightarrow> lit_error + msg_tx list" where
  "justice_pushes cr w txs pushed hit =
     fold_res (\<lambda>pushed tx.
       if TxHash cr tx = hit
       then (case BuildJusticeTx cr w tx of Inl e \<Rightarrow> Inl Panic | Inr justice \<Rightarrow> Inr (pushed @ [justice]))
       else Inr pushed) pushed txs"

definition BlockHandler :: "crypto \<Rightarrow> watch_tower \<Rightarrow> msg_tx list \<Rightarrow> lit_error + msg_tx list" where
  "BlockHandler cr w txs = fold_res (justice_pushes cr w txs) [] (MatchTxids w (map (TxHash cr) txs))"

section \<open>What a node sends\<close>

definition JusticeFee :: int where "JusticeFee = 5000"

definition SendWatchComMsg :: "node_env \<Rightarrow> lit_node \<Rightarrow> qchan \<Rightarrow> u64 \<Rightarrow> u32 \<Rightarrow> lit_error + lit_msg list" where
  "SendWatchComMsg ev nd qc idx watchPeer =
     bind_res (LoadJusticeSig nd idx (q_WatchRefundAdr qc)) (\<lambda>txidsig.
     bind_res (receiver_AtIndex (ev_dh ev) (q_ElkRcv qc) idx) (\<lambda>elk.
       Inr (tmpSendLitMsg ev (MsgWatchState (NewComMsg watchPeer (Qchan_Coin qc) (q_WatchRefundAdr qc) elk (jt_Txid txidsig) (jt_Sig txidsig))))))"

text \<open>The loop over the states from the one after \<open>up\<close>, with the number reached, also when it fails.\<close>

function sync_states :: "node_env \<Rightarrow> lit_node \<Rightarrow> qchan \<Rightarrow> u32 \<Rightarrow> u64 \<Rightarrow> lit_msg list \<Rightarrow> u64 \<times> lit_msg list \<times> lit_error option" where
  "sync_states ev nd qc watchPeer up msgs =
     (if up < st_StateIdx (q_State qc) - 1
      then (case SendWatchComMsg ev nd qc (up + 1) watchPeer of Inl e \<Rightarrow> (up + 1, msgs, Some e)
        | Inr ms \<Rightarrow> sync_states ev nd qc watchPeer (up + 1) (msgs @ ms))
      else (up, msgs, None))"
  by pat_completeness auto
termination
proof (relation "measure (\<lambda>(ev, nd, qc, p, up, msgs). unat (st_StateIdx (q_State qc) - 1) - unat up)")
  fix ev nd qc watchPeer up msgs ms
  assume lt: "up < st_StateIdx (q_State qc) - 1"
  have "unat up + 1 \<le> unat (st_StateIdx (q_State qc) - 1)" using lt by (simp add: word_less_nat_alt)
  also have "\<dots> < 2 ^ 64" using unsigned_less [of "st_StateIdx (q_State qc) - 1"] by simp
  finally have "unat up + 1 < 2 ^ 64" .
  then have "unat (up + 1) = unat up + 1" by (rule unat_word_Suc)
  with lt show "((ev, nd, qc, watchPeer, up + 1, msgs @ ms), (ev, nd, qc, watchPeer, up, msgs))
    \<in> measure (\<lambda>(ev, nd, qc, p, up, msgs). unat (st_StateIdx (q_State qc) - 1) - unat up)"
    by (simp add: word_less_nat_alt)
qed simp

declare sync_states.simps [simp del]

abbreviation set_up :: "u64 \<Rightarrow> qchan \<Rightarrow> qchan" where
  "set_up n qc \<equiv> qc\<lparr>q_State := (q_State qc)\<lparr>st_WatchUpTo := n\<rparr>\<rparr>"

text \<open>The description and the states 0 and 1, which go out first.\<close>

definition sync_desc :: "qchan \<Rightarrow> u32 \<Rightarrow> watch_desc_msg" where
  "sync_desc qc watchPeer =
     NewWatchDescMsg watchPeer (Qchan_Coin qc) (q_WatchRefundAdr qc) (q_Delay qc) (of_int JusticeFee) (q_TheirHAKDBase qc) (q_MyHAKDBase qc)"

definition sync_start :: "node_env \<Rightarrow> lit_node \<Rightarrow> qchan \<Rightarrow> u32 \<Rightarrow> u64 \<times> lit_msg list \<times> lit_error option" where
  "sync_start ev nd qc watchPeer =
     (if st_WatchUpTo (q_State qc) \<noteq> 0 then (st_WatchUpTo (q_State qc), [], None)
      else
        let ms = tmpSendLitMsg ev (MsgWatchDesc (sync_desc qc watchPeer)) in
        case SendWatchComMsg ev nd qc 0 watchPeer of Inl e \<Rightarrow> (0, ms, Some e)
        | Inr ms0 \<Rightarrow>
          (case SendWatchComMsg ev nd qc 1 watchPeer of Inl e \<Rightarrow> (0, ms @ ms0, Some e)
           | Inr ms1 \<Rightarrow> (1, ms @ ms0 @ ms1, None)))"

definition SyncWatch :: "node_env \<Rightarrow> lit_node \<Rightarrow> qchan \<Rightarrow> u32 \<Rightarrow> lit_node \<times> qchan \<times> lit_msg list \<times> lit_error option" where
  "SyncWatch ev nd qc watchPeer =
     (let s = q_State qc in
      if \<not> ev_connected ev watchPeer then (nd, qc, [], Some OutOfRange)
      else if st_StateIdx s < st_WatchUpTo s + 2 \<or> st_StateIdx s < 2 then (nd, qc, [], Some OutOfRange)
      else (case sync_start ev nd qc watchPeer of (up, ms, Some e) \<Rightarrow> (nd, set_up up qc, ms, Some e)
        | (up, ms, None) \<Rightarrow>
          (case sync_states ev nd qc watchPeer up ms of (up, ms, Some e) \<Rightarrow> (nd, set_up up qc, ms, Some e)
           | (up, ms, None) \<Rightarrow> (SaveQchanState ev nd (set_up up qc), set_up up qc, ms, None))))"

section \<open>What the database holds\<close>

lemma map_of_filter_other: "map_of (filter (\<lambda>kv. fst kv \<noteq> k) kvs) x = (if x = k then None else map_of kvs x)"
  by (induction kvs) auto

lemma map_of_bolt_put [simp]: "map_of (bolt_put k v kvs) = (map_of kvs)(k \<mapsto> v)"
  by (rule ext) (simp add: bolt_put_def map_of_filter_other)

text \<open>The messages a tower has taken, one after the other.\<close>

datatype tower_msg = TowerDesc watch_desc_msg | TowerState watch_state_msg | TowerDel watch_del_msg

definition tower_take :: "crypto \<Rightarrow> watch_tower \<Rightarrow> tower_msg \<Rightarrow> watch_tower \<times> lit_error option" where
  "tower_take cr w msg =
     (case msg of TowerDesc m \<Rightarrow> NewChannel w m | TowerState m \<Rightarrow> UpdateChannel cr w m | TowerDel m \<Rightarrow> DeleteChannel w m)"

definition empty_tower :: watch_tower where
  "empty_tower = \<lparr>wt_open = False, wt_Watching = False, wt_Hooks = [], wt_PKHMap = [], wt_Chandata = [], wt_Txid = []\<rparr>"

text \<open>
  The towers that can come about, with the number of messages taken and, for every half of a transaction id, what the last state message
  accepted with it has brought: the channel, the secret and the signature.
\<close>

definition wf_tower_msg :: "tower_msg \<Rightarrow> bool" where
  "wf_tower_msg msg = (case msg of TowerDesc m \<Rightarrow> wf_watch_desc_msg m | TowerState m \<Rightarrow> wf_watch_state_msg m | TowerDel m \<Rightarrow> True)"

definition tower_log :: "tower_msg \<Rightarrow> lit_error option \<Rightarrow> (bytes \<rightharpoonup> bytes \<times> bytes \<times> bytes) \<Rightarrow> bytes \<rightharpoonup> bytes \<times> bytes \<times> bytes" where
  "tower_log msg e lg =
     (case msg of TowerState m \<Rightarrow> if e = None then lg(take 16 (ws_ParTxid m) \<mapsto> (ws_DestPKH m, ws_Elk m, ws_Sig m)) else lg | _ \<Rightarrow> lg)"

inductive tower_reach :: "crypto \<Rightarrow> nat \<Rightarrow> (bytes \<rightharpoonup> bytes \<times> bytes \<times> bytes) \<Rightarrow> watch_tower \<Rightarrow> bool" for cr where
  tower_empty: "tower_reach cr 0 (\<lambda>_. None) empty_tower"
| tower_hook: "tower_reach cr n lg w \<Longrightarrow> tower_reach cr n lg (fst (HookLink db w coin))"
| tower_msg: "tower_reach cr n lg w \<Longrightarrow> wf_tower_msg msg \<Longrightarrow> tower_take cr w msg = (w', e) \<Longrightarrow> tower_reach cr (Suc n) (tower_log msg e lg) w'"

lemma UpdateChannel_cases:
  assumes "UpdateChannel cr w m = (w', e)"
  shows "w' = w \<and> e \<noteq> None \<or> e = None \<and> (\<exists>c elkr elkr' b. map_of (wt_Chandata w) (ws_DestPKH m) = Some c \<and>
    ElkremReceiverFromBytes (case tc_ElkRcv c of None \<Rightarrow> [] | Some b \<Rightarrow> b) = Inr elkr \<and>
    AddNext (cr_DoubleHash cr) elkr (Some (ws_Elk m)) = Inr elkr' \<and> receiver_ToBytes elkr' = Inr b \<and>
    w' = w\<lparr>wt_Chandata := bolt_put (ws_DestPKH m) (c\<lparr>tc_ElkRcv := Some b\<rparr>) (wt_Chandata w),
      wt_Txid := bolt_put (take 16 (ws_ParTxid m)) (idx_sig_bytes (tc_Idx c) (UpTo elkr') (ws_Sig m)) (wt_Txid w)\<rparr>)"
proof (cases "wt_open w")
  case True
  show ?thesis
  proof (cases "map_of (wt_Chandata w) (ws_DestPKH m)")
    case (Some c)
    let ?old = "ElkremReceiverFromBytes (case tc_ElkRcv c of None \<Rightarrow> [] | Some b \<Rightarrow> b)"
    show ?thesis
    proof (cases ?old)
      case (Inr elkr)
      show ?thesis
      proof (cases "AddNext (cr_DoubleHash cr) elkr (Some (ws_Elk m))")
        case (Inr elkr')
        then show ?thesis
          using assms True Some \<open>?old = Inr elkr\<close> by (cases "receiver_ToBytes elkr'") (auto simp: UpdateChannel_def)
      qed (use assms True Some Inr in \<open>auto simp: UpdateChannel_def\<close>)
    qed (use assms True Some in \<open>auto simp: UpdateChannel_def\<close>)
  qed (use assms True in \<open>auto simp: UpdateChannel_def\<close>)
qed (use assms in \<open>auto simp: UpdateChannel_def\<close>)

definition tower_next_idx :: "watch_tower \<Rightarrow> u32" where
  "tower_next_idx w = (case last_key (wt_PKHMap w) of None \<Rightarrow> 0 | Some k \<Rightarrow> k + 1)"

lemma NewChannel_cases:
  assumes "NewChannel w m = (w', e)"
  shows "w' = w \<or> (\<exists>c. map_of (wt_Chandata w) (wd_DestPKHScript m) = None \<and> length (tc_Static c) = 96 \<and>
    tc_Idx c = U32tB (tower_next_idx w) \<and> tc_ElkRcv c = None \<and>
    w' = w\<lparr>wt_Chandata := bolt_put (wd_DestPKHScript m) c (wt_Chandata w), wt_Watching := True,
      wt_PKHMap := bolt_put (tower_next_idx w) (wd_DestPKHScript m) (wt_PKHMap w)\<rparr>)"
  using assms
  by (intro disj_imp [THEN iffD2] impI exI [of _ "\<lparr>tc_Static = take 96 (WatchDescMsg_Bytes m), tc_Idx = U32tB (tower_next_idx w), tc_ElkRcv = None\<rparr>"])
    (simp add: NewChannel_def tower_next_idx_def Let_def split: if_splits)

lemma HookLink_db [simp]:
  "wt_PKHMap (fst (HookLink db w coin)) = wt_PKHMap w" "wt_Chandata (fst (HookLink db w coin)) = wt_Chandata w"
  "wt_Txid (fst (HookLink db w coin)) = wt_Txid w"
  by (simp_all add: HookLink_def OpenDB_def Let_def)

text \<open>The receiver kept for a channel has taken the hashes \<open>hs\<close>.\<close>

definition rcv_ok :: "crypto \<Rightarrow> tower_chan \<Rightarrow> hash list \<Rightarrow> bool" where
  "rcv_ok cr c hs \<longleftrightarrow> (\<forall>h \<in> set hs. length h = 32) \<and>
     (case tc_ElkRcv c of None \<Rightarrow> hs = []
      | Some b \<Rightarrow> hs \<noteq> [] \<and> (\<exists>e. ElkremReceiverFromBytes b = Inr e \<and> receiver_inv (cr_DoubleHash cr) e hs))"

text \<open>What holds of every tower with \<open>k\<close> channels.\<close>

definition chan_ok :: "crypto \<Rightarrow> nat \<Rightarrow> nat \<Rightarrow> watch_tower \<Rightarrow> bytes \<Rightarrow> tower_chan \<Rightarrow> bool" where
  "chan_ok cr n k w pkh c \<longleftrightarrow>
     (\<exists>i<k. tc_Idx c = U32tB (of_nat i) \<and> map_of (wt_PKHMap w) (of_nat i) = Some pkh) \<and> (\<exists>hs. length hs \<le> n \<and> rcv_ok cr c hs)"

definition entry_ok :: "crypto \<Rightarrow> nat \<Rightarrow> watch_tower \<Rightarrow> bytes \<times> bytes \<times> bytes \<Rightarrow> bytes \<Rightarrow> bool" where
  "entry_ok cr n w l b \<longleftrightarrow> (case l of (pkh, elk, sig) \<Rightarrow> length sig = 64 \<and> (\<exists>c hs j. map_of (wt_Chandata w) pkh = Some c \<and> length hs \<le> n \<and>
     rcv_ok cr c hs \<and> j < length hs \<and> hs ! j = elk \<and> b = idx_sig_bytes (tc_Idx c) (of_nat j) sig))"

definition tower_inv :: "crypto \<Rightarrow> nat \<Rightarrow> (bytes \<rightharpoonup> bytes \<times> bytes \<times> bytes) \<Rightarrow> watch_tower \<Rightarrow> bool" where
  "tower_inv cr n lg w \<longleftrightarrow> (\<exists>k\<le>n.
     last_key (wt_PKHMap w) = (if k = 0 then None else Some (of_nat (k - 1))) \<and> (\<forall>kv \<in> set (wt_PKHMap w). unat (fst kv) < k) \<and>
     (\<forall>pkh c. map_of (wt_Chandata w) pkh = Some c \<longrightarrow> chan_ok cr n k w pkh c) \<and>
     (\<forall>key. rel_option (entry_ok cr n w) (lg key) (map_of (wt_Txid w) key)))"

text \<open>The receiver after one more hash.\<close>

lemma rcv_ok_add:
  assumes c: "rcv_ok cr c hs" "ElkremReceiverFromBytes (case tc_ElkRcv c of None \<Rightarrow> [] | Some b \<Rightarrow> b) = Inr e"
    and n: "length hs < 2 ^ 48 - 1" "length s = 32"
    and add: "AddNext (cr_DoubleHash cr) e (Some s) = Inr e'" "receiver_ToBytes e' = Inr b"
  shows "rcv_ok cr (c\<lparr>tc_ElkRcv := Some b\<rparr>) (hs @ [s]) \<and> UpTo e' = of_nat (length hs)"
proof -
  let ?dh = "cr_DoubleHash cr"
  have "receiver_inv ?dh e hs"
    using c by (auto simp: rcv_ok_def ElkremReceiverFromBytes_def receiver_inv_def split: option.splits)
  from AddNext_inv [OF this n(1) add(1)] have inv: "receiver_inv ?dh e' (hs @ [s])" .
  have l: "\<forall>h \<in> set (hs @ [s]). length h = 32" using c(1) n(2) by (simp add: rcv_ok_def)
  have sg: "seg ?dh (hs @ [s]) 0 (nodes_of e') (Suc (length hs))" using inv by (simp add: receiver_inv_def)
  then obtain ns x where x: "nodes_of e' = ns @ [x]" by (cases "nodes_of e'" rule: rev_cases) auto
  have "UpTo e' = of_nat (length hs)"
    using seg_last [of ?dh "hs @ [s]" 0 ns x "Suc (length hs)"] sg by (simp add: UpTo_def x)
  moreover obtain e'' where "ElkremReceiverFromBytes b = Inr e''" "nodes_of e'' = nodes_of e'"
    using receiver_roundtrip [OF inv l] add(2) by (cases "ElkremReceiverFromBytes b") auto
  ultimately show ?thesis using inv l by (auto simp: rcv_ok_def receiver_inv_def)
qed

lemma last_key_put:
  assumes "\<forall>kv \<in> set kvs. fst kv < k"
  shows "last_key (bolt_put k v kvs) = Some k"
proof -
  have "fold (\<lambda>kv. max (fst kv)) xs k = k" if "\<forall>kv \<in> set xs. fst kv < k" for xs :: "('a \<times> 'b) list"
    using that by (induction xs) (simp_all add: max_def less_le_not_le)
  then show ?thesis using assms by (simp add: last_key_def bolt_put_def)
qed

lemma unat_index: "i < 2 ^ 32 \<Longrightarrow> unat (of_nat i :: u32) = i"
  by (simp add: unat_of_nat)

lemma entry_ok_mono:
  assumes "entry_ok cr n w l b" "\<And>pkh c. map_of (wt_Chandata w) pkh = Some c \<Longrightarrow> map_of (wt_Chandata w') pkh = Some c"
  shows "entry_ok cr (Suc n) w' l b"
proof -
  obtain pkh elk sig where l: "l = (pkh, elk, sig)" by (cases l)
  obtain c hs j where "length sig = 64" "map_of (wt_Chandata w) pkh = Some c" "length hs \<le> n" "rcv_ok cr c hs"
    "j < length hs" "hs ! j = elk" "b = idx_sig_bytes (tc_Idx c) (of_nat j) sig"
    using assms(1) by (auto simp: entry_ok_def l)
  with assms(2) show ?thesis by (auto simp: l entry_ok_def intro!: exI [of _ c] exI [of _ hs] exI [of _ j])
qed

lemma tower_inv_del:
  assumes "tower_inv cr n lg w" "n < 2 ^ 32 - 1"
  shows "tower_inv cr (Suc n) lg w"
proof -
  from assms(1) obtain k where k: "k \<le> n" "last_key (wt_PKHMap w) = (if k = 0 then None else Some (of_nat (k - 1)))"
    "\<forall>kv \<in> set (wt_PKHMap w). unat (fst kv) < k" "\<And>pkh c. map_of (wt_Chandata w) pkh = Some c \<Longrightarrow> chan_ok cr n k w pkh c"
    "\<And>key. rel_option (entry_ok cr n w) (lg key) (map_of (wt_Txid w) key)"
    by (auto simp: tower_inv_def)
  have "chan_ok cr (Suc n) k w pkh c" if "map_of (wt_Chandata w) pkh = Some c" for pkh c
    using k(4) [OF that] by (auto simp: chan_ok_def intro: le_SucI)
  moreover have "rel_option (entry_ok cr (Suc n) w) (lg key) (map_of (wt_Txid w) key)" for key
    by (rule option.rel_mono_strong [OF k(5)]) (rule entry_ok_mono)
  ultimately show ?thesis using k(1-3) unfolding tower_inv_def by (intro exI [of _ k]) simp
qed

lemma tower_inv_desc:
  assumes inv: "tower_inv cr n lg w" and n: "n < 2 ^ 32 - 1" and m: "NewChannel w m = (w', e)"
  shows "tower_inv cr (Suc n) lg w'"
proof -
  from inv obtain k where k: "k \<le> n" "last_key (wt_PKHMap w) = (if k = 0 then None else Some (of_nat (k - 1)))"
    "\<forall>kv \<in> set (wt_PKHMap w). unat (fst kv) < k" "\<And>pkh c. map_of (wt_Chandata w) pkh = Some c \<Longrightarrow> chan_ok cr n k w pkh c"
    "\<And>key. rel_option (entry_ok cr n w) (lg key) (map_of (wt_Txid w) key)"
    by (auto simp: tower_inv_def)
  from NewChannel_cases [OF m] show ?thesis
  proof (elim disjE exE conjE)
    assume "w' = w"
    then show ?thesis using tower_inv_del [OF inv n] by simp
  next
    fix c
    assume c: "map_of (wt_Chandata w) (wd_DestPKHScript m) = None" "length (tc_Static c) = 96" "tc_Idx c = U32tB (tower_next_idx w)"
      "tc_ElkRcv c = None" and w': "w' = w\<lparr>wt_Chandata := bolt_put (wd_DestPKHScript m) c (wt_Chandata w), wt_Watching := True,
        wt_PKHMap := bolt_put (tower_next_idx w) (wd_DestPKHScript m) (wt_PKHMap w)\<rparr>"
    have i: "tower_next_idx w = of_nat k" using k(2) by (simp add: tower_next_idx_def of_nat_diff)
    have u: "unat (of_nat i :: u32) = i" if "i \<le> k" for i using that k(1) n by (intro unat_index) simp
    have l: "last_key (wt_PKHMap w') = Some (of_nat k)" "\<forall>kv \<in> set (wt_PKHMap w'). unat (fst kv) < Suc k"
      using last_key_put [of "wt_PKHMap w" "of_nat k" "wd_DestPKHScript m"] k(3) u [of k] by (auto simp: w' i word_less_nat_alt) (auto simp: bolt_put_def)
    have "chan_ok cr (Suc n) (Suc k) w' pkh c'" if "map_of (wt_Chandata w') pkh = Some c'" for pkh c'
    proof (cases "pkh = wd_DestPKHScript m")
      case True
      then show ?thesis using that c by (auto simp: w' i chan_ok_def rcv_ok_def intro!: exI [of _ k] exI [of _ "[]"])
    next
      case False
      with that have "chan_ok cr n k w pkh c'" using k(4) by (simp add: w')
      then obtain j hs where j: "j < k" "tc_Idx c' = U32tB (of_nat j)" "map_of (wt_PKHMap w) (of_nat j) = Some pkh"
        "length hs \<le> n" "rcv_ok cr c' hs" by (auto simp: chan_ok_def)
      have "of_nat j \<noteq> (of_nat k :: u32)" using u [of j] u [of k] j(1) by (metis less_imp_le_nat less_irrefl order_refl)
      with j show ?thesis by (auto simp: w' i chan_ok_def intro!: exI [of _ j] exI [of _ hs])
    qed
    moreover have "rel_option (entry_ok cr (Suc n) w') (lg key) (map_of (wt_Txid w') key)" for key
    proof -
      have "rel_option (entry_ok cr (Suc n) w') (lg key) (map_of (wt_Txid w) key)"
        by (rule option.rel_mono_strong [OF k(5)], erule entry_ok_mono) (use c(1) in \<open>auto simp: w'\<close>)
      then show ?thesis by (simp add: w')
    qed
    ultimately show ?thesis using k(1) l unfolding tower_inv_def by (intro exI [of _ "Suc k"]) auto
  qed
qed

lemma tower_inv_state:
  assumes inv: "tower_inv cr n lg w" and n: "n < 2 ^ 32 - 1" and m: "UpdateChannel cr w m = (w', e)" and wf: "wf_watch_state_msg m"
  shows "tower_inv cr (Suc n) (tower_log (TowerState m) e lg) w'"
proof -
  from inv obtain k where k: "k \<le> n" "last_key (wt_PKHMap w) = (if k = 0 then None else Some (of_nat (k - 1)))"
    "\<forall>kv \<in> set (wt_PKHMap w). unat (fst kv) < k" "\<And>pkh c. map_of (wt_Chandata w) pkh = Some c \<Longrightarrow> chan_ok cr n k w pkh c"
    "\<And>key. rel_option (entry_ok cr n w) (lg key) (map_of (wt_Txid w) key)"
    by (auto simp: tower_inv_def)
  from UpdateChannel_cases [OF m] show ?thesis
  proof (elim disjE exE conjE)
    assume "w' = w" "e \<noteq> None"
    then show ?thesis using tower_inv_del [OF inv n] by (auto simp: tower_log_def)
  next
    fix c :: tower_chan and elkr elkr' b
    let ?c = "c\<lparr>tc_ElkRcv := Some b\<rparr>"
    assume e: "e = None" and c: "map_of (wt_Chandata w) (ws_DestPKH m) = Some c"
      and r: "ElkremReceiverFromBytes (case tc_ElkRcv c of None \<Rightarrow> [] | Some b \<Rightarrow> b) = Inr elkr"
        "AddNext (cr_DoubleHash cr) elkr (Some (ws_Elk m)) = Inr elkr'" "receiver_ToBytes elkr' = Inr b"
      and w': "w' = w\<lparr>wt_Chandata := bolt_put (ws_DestPKH m) ?c (wt_Chandata w),
        wt_Txid := bolt_put (take 16 (ws_ParTxid m)) (idx_sig_bytes (tc_Idx c) (UpTo elkr') (ws_Sig m)) (wt_Txid w)\<rparr>"
    have len: "length (ws_Elk m) = 32" "length (ws_Sig m) = 64" using wf by (simp_all add: wf_watch_state_msg_def)
    have add: "rcv_ok cr ?c (hs @ [ws_Elk m]) \<and> UpTo elkr' = of_nat (length hs)" if "rcv_ok cr c hs" "length hs \<le> n" for hs
      using that(2) n by (intro rcv_ok_add [OF that(1) r(1) _ len(1) r(2,3)]) simp
    obtain hs where hs: "rcv_ok cr c hs" "length hs \<le> n" using k(4) [OF c] by (auto simp: chan_ok_def)
    have "chan_ok cr (Suc n) k w' pkh c'" if "map_of (wt_Chandata w') pkh = Some c'" for pkh c'
    proof (cases "pkh = ws_DestPKH m")
      case True
      then show ?thesis using that k(4) [OF c] add [OF hs] hs(2) by (auto simp: w' chan_ok_def intro!: exI [of _ "hs @ [ws_Elk m]"])
    next
      case False
      with that have "chan_ok cr n k w pkh c'" using k(4) by (simp add: w')
      then show ?thesis by (auto simp: w' chan_ok_def intro: le_SucI)
    qed
    moreover have "rel_option (entry_ok cr (Suc n) w') (tower_log (TowerState m) e lg key) (map_of (wt_Txid w') key)" for key
    proof (cases "key = take 16 (ws_ParTxid m)")
      case True
      then show ?thesis
        using add [OF hs] hs(2) len(2) by (auto simp: tower_log_def e w' entry_ok_def intro!: exI [of _ "hs @ [ws_Elk m]"] exI [of _ "length hs"])
    next
      case False
      have "entry_ok cr (Suc n) w' l b'" if entry: "entry_ok cr n w l b'" for l b'
      proof -
        obtain pkh elk sig where l: "l = (pkh, elk, sig)" by (cases l)
        obtain c1 hs1 j where o: "length sig = 64" "map_of (wt_Chandata w) pkh = Some c1" "length hs1 \<le> n" "rcv_ok cr c1 hs1"
          "j < length hs1" "hs1 ! j = elk" "b' = idx_sig_bytes (tc_Idx c1) (of_nat j) sig"
          using entry by (auto simp: entry_ok_def l)
        show ?thesis
        proof (cases "pkh = ws_DestPKH m")
          case True
          then have "c1 = c" using o(2) c by simp
          then show ?thesis
            using True o add [of hs1] by (auto simp: l entry_ok_def w' nth_append intro!: exI [of _ "hs1 @ [ws_Elk m]"] exI [of _ j])
        next
          case False
          then show ?thesis using o by (auto simp: l entry_ok_def w' intro!: exI [of _ c1] exI [of _ hs1] exI [of _ j])
        qed
      qed
      then show ?thesis using False option.rel_mono_strong [OF k(5) [of key], of "entry_ok cr (Suc n) w'"] by (simp add: tower_log_def e w')
    qed
    ultimately show ?thesis using k(1-3) unfolding tower_inv_def by (intro exI [of _ k]) (simp add: w')
  qed
qed

lemma reach_inv: "tower_reach cr n lg w \<Longrightarrow> n < 2 ^ 32 \<Longrightarrow> tower_inv cr n lg w"
proof (induction rule: tower_reach.induct)
  case tower_empty
  then show ?case by (simp add: tower_inv_def empty_tower_def last_key_def)
next
  case (tower_hook n lg w db coin)
  then show ?case by (simp add: tower_inv_def chan_ok_def entry_ok_def cong: option.rel_cong)
next
  case (tower_msg n lg w msg w' e)
  then have inv: "tower_inv cr n lg w" "n < 2 ^ 32 - 1" by simp_all
  show ?case
  proof (cases msg)
    case (TowerDesc m)
    then show ?thesis using tower_msg.hyps tower_inv_desc [OF inv, of m w' e] by (simp add: tower_take_def tower_log_def)
  next
    case (TowerState m)
    then show ?thesis using tower_msg.hyps tower_inv_state [OF inv, of m w' e] by (simp add: tower_take_def wf_tower_msg_def)
  next
    case (TowerDel m)
    then show ?thesis using tower_msg.hyps tower_inv_del [OF inv] by (simp add: tower_take_def DeleteChannel_def tower_log_def)
  qed
qed

section \<open>The stored signatures\<close>

lemma le_val_append: "le_val (xs @ ys) = le_val xs + 256 ^ length xs * le_val ys"
  by (induction xs) (simp_all add: algebra_simps)

lemma be_val_append: "be_val (xs @ ys) = be_val xs * 256 ^ length ys + be_val ys"
  by (simp add: be_val_def le_val_append)

lemma be_val_low: "be_val (drop 2 (be_enc 8 x)) = x mod 2 ^ 48"
proof -
  let ?a = "be_val (take 2 (be_enc 8 x))" and ?b = "be_val (drop 2 (be_enc 8 x))"
  have "?a * 256 ^ 6 + ?b = x mod 256 ^ 8"
    using be_val_append [of "take 2 (be_enc 8 x)" "drop 2 (be_enc 8 x)"] by (simp add: be_val_be_enc)
  moreover have "?b < 256 ^ 6" using be_val_bound [of "drop 2 (be_enc 8 x)"] by simp
  ultimately have "(x mod 256 ^ 8) mod 256 ^ 6 = ?b" by (metis mod_mult_self3 mod_less)
  then show ?thesis by (simp add: mod_mod_cancel)
qed

lemma idx_sig_back:
  assumes "unat n < 2 ^ 48" "length sig = 64"
  shows "IdxSigFromBytes (idx_sig_bytes (U32tB i) n sig) = Inr \<lparr>is_PKHIdx = i, is_StateIdx = n, is_Sig = sig\<rparr>"
proof -
  let ?b = "drop 2 (U32tB i) @ drop 2 (U64tB n)"
  have v: "take_bit 48 (be_val ?b) = unat n"
    using assms(1) by (simp add: take_bit_eq_mod be_val_append U32tB_def U64tB_def be_val_low)
  have "take_bit 48 (of_nat (be_val ?b) :: u64) = of_nat (take_bit 48 (be_val ?b))" by (rule of_nat_take_bit [symmetric])
  then have t: "take_bit 48 (of_nat (be_val ?b) :: u64) = n" unfolding v by simp
  have "BtU64 ?b = of_nat (be_val ?b)" by (simp add: BtU64_def U32tB_def U64tB_def)
  moreover have m: "0x0000ffffffffffff = (mask 48 :: u64)" by (simp add: mask_eq_exp_minus_1)
  ultimately have "BtU64 ?b AND 0x0000ffffffffffff = n" using t by (simp only: m take_bit_eq_mask)
  moreover have "take 8 (drop 2 (idx_sig_bytes (U32tB i) n sig)) = ?b" "take 4 (idx_sig_bytes (U32tB i) n sig) = U32tB i"
    "drop 10 (idx_sig_bytes (U32tB i) n sig) = sig" "length (idx_sig_bytes (U32tB i) n sig) = 74"
    using assms(2) by (simp_all add: idx_sig_bytes_def copy_fresh_full U32tB_def U64tB_def)
  ultimately show ?thesis using assms(2) by (simp add: IdxSigFromBytes_def copy_fresh_full Bt_tB)
qed

text \<open>C17: A tower has what it needs for justice but for the description: for every half of a transaction id, the entry leads to the channel,
  the signature and, through the receiver kept for the channel, the secret of the last state message accepted with it, and there is no entry for
  others. Messages of any channels come in any order, fewer than \<open>2 ^ 32\<close> of them.\<close>

theorem tower_keeps_updates:
  assumes "tower_reach cr n lg w" "n < 2 ^ 32"
  shows "case lg key of None \<Rightarrow> map_of (wt_Txid w) key = None
    | Some (pkh, elk, sig) \<Rightarrow> \<exists>b s c eb e. map_of (wt_Txid w) key = Some b \<and> IdxSigFromBytes b = Inr s \<and> is_Sig s = sig \<and>
        map_of (wt_PKHMap w) (is_PKHIdx s) = Some pkh \<and> map_of (wt_Chandata w) pkh = Some c \<and> tc_ElkRcv c = Some eb \<and>
        ElkremReceiverFromBytes eb = Inr e \<and> receiver_AtIndex (cr_DoubleHash cr) e (is_StateIdx s) = Inr elk"
proof -
  have inv: "tower_inv cr n lg w" by (rule reach_inv [OF assms])
  show ?thesis
  proof (cases "lg key")
    case None
    then show ?thesis using inv by (auto simp: tower_inv_def elim: option.rel_cases dest!: spec [of _ key])
  next
    case (Some l)
    obtain pkh elk sig where l: "l = (pkh, elk, sig)" by (cases l)
    obtain k where k0: "\<forall>pkh c. map_of (wt_Chandata w) pkh = Some c \<longrightarrow> chan_ok cr n k w pkh c"
      "\<forall>key. rel_option (entry_ok cr n w) (lg key) (map_of (wt_Txid w) key)" using inv unfolding tower_inv_def by blast
    obtain b where k: "map_of (wt_Txid w) key = Some b" "entry_ok cr n w l b"
      using k0(2) [rule_format, of key] Some by (auto simp: option_rel_Some1)
    then obtain c hs j where c: "length sig = 64" "map_of (wt_Chandata w) pkh = Some c" "length hs \<le> n" "rcv_ok cr c hs"
      "j < length hs" "hs ! j = elk" "b = idx_sig_bytes (tc_Idx c) (of_nat j) sig" by (auto simp: entry_ok_def l)
    obtain i where i: "tc_Idx c = U32tB (of_nat i)" "map_of (wt_PKHMap w) (of_nat i) = Some pkh"
      using k0(1) c(2) by (auto simp: chan_ok_def)
    have j: "unat (of_nat j :: u64) = j" using c(3,5) assms(2) by (simp add: unat_of_nat)
    have "IdxSigFromBytes b = Inr \<lparr>is_PKHIdx = of_nat i, is_StateIdx = of_nat j, is_Sig = sig\<rparr>"
      unfolding c(7) i(1) by (rule idx_sig_back) (use c(1,3,5) assms(2) j in simp_all)
    moreover obtain eb e where e: "tc_ElkRcv c = Some eb" "ElkremReceiverFromBytes eb = Inr e" "receiver_inv (cr_DoubleHash cr) e hs"
      using c(4,5) by (auto simp: rcv_ok_def split: option.splits)
    moreover have "receiver_AtIndex (cr_DoubleHash cr) e (of_nat j) = Inr elk"
      using receiver_inv_AtIndex [OF e(3), of "of_nat j"] c(5,6) j by simp
    ultimately show ?thesis using k(1) c(2) i(2) by (simp add: Some l)
  qed
qed

section \<open>Punishment\<close>

lemma reach_static:
  "tower_reach cr n lg w \<Longrightarrow> map_of (wt_Chandata w) pkh = Some c \<Longrightarrow> length (tc_Static c) = 96"
proof (induction arbitrary: pkh c rule: tower_reach.induct)
  case (tower_msg n lg w msg w' e)
  show ?case
  proof (cases msg)
    case (TowerDesc m)
    then have "NewChannel w m = (w', e)" using tower_msg.hyps by (simp add: tower_take_def)
    from NewChannel_cases [OF this] show ?thesis using tower_msg.IH tower_msg.prems by (auto split: if_splits)
  next
    case (TowerState m)
    then have "UpdateChannel cr w m = (w', e)" using tower_msg.hyps by (simp add: tower_take_def)
    from UpdateChannel_cases [OF this] show ?thesis using tower_msg.IH tower_msg.prems by (auto split: if_splits)
  next
    case (TowerDel m)
    then show ?thesis using tower_msg by (simp add: tower_take_def DeleteChannel_def)
  qed
qed (auto simp: empty_tower_def)

lemma reach_no_justice: "tower_reach cr n lg w \<Longrightarrow> \<exists>e. BuildJusticeTx cr w badTx = Inl e"
  using reach_static [of cr n lg w]
  by (fastforce simp: BuildJusticeTx_def IdxSigFromBytes_def NewWatchDescMsgFromBytes_def split: option.split)

lemma justice_pushes_panic:
  assumes "\<And>tx. \<exists>e. BuildJusticeTx cr w tx = Inl e"
  shows "hit \<in> TxHash cr ` set txs \<Longrightarrow> justice_pushes cr w txs pushed hit = Inl Panic"
proof (induction txs)
  case (Cons tx txs)
  then show ?case using assms [of tx] by (auto simp: justice_pushes_def)
qed simp

text \<open>C16: No tower ever makes a justice transaction, whatever it has been told: it keeps 96 bytes of a description and does not read
  back less than 97. When a transaction it watches for is in a block, after the first place, the tower ends by a nil dereference.\<close>

theorem tower_never_punishes:
  assumes "tower_reach cr n lg w"
  shows "(\<exists>e. BuildJusticeTx cr w badTx = Inl e) \<and>
    (badTx \<in> set txs \<and> map_of (wt_Txid w) (take 16 (TxHash cr badTx)) \<noteq> None \<longrightarrow> BlockHandler cr w (coinbase # txs) = Inl Panic)"
proof (intro conjI impI)
  note no = reach_no_justice [OF assms]
  then show "\<exists>e. BuildJusticeTx cr w badTx = Inl e" .
  let ?hits = "MatchTxids w (map (TxHash cr) (coinbase # txs))"
  assume "badTx \<in> set txs \<and> map_of (wt_Txid w) (take 16 (TxHash cr badTx)) \<noteq> None"
  then have "TxHash cr badTx \<in> set ?hits" by (auto simp: MatchTxids_def)
  then obtain h hs where h: "?hits = h # hs" by (cases ?hits) auto
  then have "h \<in> set ?hits" by simp
  then have "h \<in> TxHash cr ` set (coinbase # txs)" by (auto simp: MatchTxids_def)
  from justice_pushes_panic [OF no this] show "BlockHandler cr w (coinbase # txs) = Inl Panic"
    unfolding BlockHandler_def h by simp
qed

section \<open>Telling the tower\<close>

lemma loaded_no_states:
  assumes "GetQchan ev nd opArr = Inr qc"
  shows "SendWatchComMsg ev nd qc idx p = (case LoadJusticeSig nd idx (q_WatchRefundAdr qc) of Inl e \<Rightarrow> Inl e | Inr t \<Rightarrow> Inl Panic)"
proof -
  have "q_ElkRcv qc = NewElkremReceiver"
    using assms by (auto simp: GetQchan_def NewQchanFromChanData_def Let_def split: option.splits)
  then show ?thesis by (auto simp: SendWatchComMsg_def receiver_AtIndex_def NewElkremReceiver_def split: sum.split)
qed

text \<open>The node never tells a tower of a state of a channel it has loaded from the database, as the command for it does: the database does
  not keep the receiver of the secrets. When a signature for the first state is stored, the node ends by a panic after the description.\<close>

theorem sync_sends_no_state:
  assumes "GetQchan ev nd opArr = Inr qc"
  shows "\<exists>nd' qc' msgs err. SyncWatch ev nd qc p = (nd', qc', msgs, err) \<and> set msgs \<subseteq> {MsgWatchDesc (sync_desc qc p)} \<and>
    (ev_connected ev p \<and> 2 \<le> st_StateIdx (q_State qc) \<and> st_WatchUpTo (q_State qc) = 0 \<and>
      (\<exists>t. LoadJusticeSig nd 0 (q_WatchRefundAdr qc) = Inr t) \<longrightarrow> err = Some Panic)"
proof -
  have loop: "\<exists>up' e. sync_states ev nd qc p up ms = (up', ms, e)" for up ms
    by (subst sync_states.simps) (auto simp: loaded_no_states [OF assms] split: sum.split)
  show ?thesis
  proof (cases "sync_start ev nd qc p")
    case (fields up ms e)
    have ms: "set ms \<subseteq> {MsgWatchDesc (sync_desc qc p)}" and e: "st_WatchUpTo (q_State qc) = 0 \<Longrightarrow> e \<noteq> None \<and>
        ((\<exists>t. LoadJusticeSig nd 0 (q_WatchRefundAdr qc) = Inr t) \<longrightarrow> e = Some Panic)"
      using fields
      by (auto simp: sync_start_def Let_def loaded_no_states [OF assms] tmpSendLitMsg_def split: if_splits sum.splits)
    then show ?thesis
      using fields loop [of up ms] by (cases e) (auto simp: SyncWatch_def Let_def not_less split: option.split)
  qed
qed

text \<open>C38: Apart from the description, the tower is right: given one with the points of the customer and the adversary in their places and the fee
  the node signs for, it makes from the stored signature and the secret the transaction the node has signed, for the commitment transaction of
  the other party, with the signature, the selector 1 and the script as its witness.\<close>

theorem tower_tx_is_signed_tx:
  assumes b: "BuildJusticeSig ev nd q = (nd', q', None)" and w: "ev_wallet ev (Qchan_Coin q) = Some wal"
    and wd: "wd_CustomerBasePoint wd = q_MyHAKDBase q" "wd_AdversaryBasePoint wd = q_TheirHAKDBase q" "wd_Delay wd = q_Delay q"
      "wd_DestPKHScript wd = q_WatchRefundAdr q" "sint (wd_Fee wd) = i64 (JusticeTxBump * wl_Fee wal)"
  shows "\<exists>elk badTx spends outs i script key stx sig.
    receiver_AtIndex (ev_dh ev) (q_ElkRcv q) (st_StateIdx (q_State q)) = Inr elk \<and>
    BuildStateTxs (ev_crypto ev) q' False = Inr (badTx, spends, outs) \<and>
    i < length (tx_TxOut badTx) \<and> to_PkScript (tx_TxOut badTx ! i) = P2WSHify (ev_crypto ev) script \<and>
    ev_sign ev key script stx (sint (to_Value (tx_TxOut badTx ! i))) = Inr sig \<and>
    (i \<noteq> 999 \<longrightarrow> justice_from (ev_crypto ev) wd elk (copy_fresh 64 sig) badTx =
      Inr (stx\<lparr>tx_TxIn := map (\<lambda>ti. ti\<lparr>ti_Witness := [SigDecompress (copy_fresh 64 sig) @ [0x01], [0x01], script]\<rparr>) (tx_TxIn stx)\<rparr>)) \<and>
    nd_Justice nd' (q_WatchRefundAdr q) (st_StateIdx (q_State q)) =
      Some (JusticeTx_ToBytes \<lparr>jt_Sig = copy_fresh 64 sig, jt_Txid = copy_fresh 16 (take 16 (TxHash (ev_crypto ev) badTx)),
        jt_Amt = st_MyAmt (q_State q), jt_Data = st_Data (q_State q)\<rparr>)"
proof -
  let ?cr = "ev_crypto ev" and ?fee = "i64 (JusticeTxBump * wl_Fee wal)"
  obtain elk where elk: "receiver_AtIndex (ev_dh ev) (q_ElkRcv q) (st_StateIdx (q_State q)) = Inr elk"
    using b by (auto simp: BuildJusticeSig_def Let_def w split: sum.splits)
  let ?script = "justice_script ?cr wd elk"
  let ?q = "q\<lparr>q_State := (q_State q)\<lparr>st_ElkPoint := ElkPointFromHash ?cr elk\<rparr>\<rparr>"
  let ?stx = "\<lambda>badTx i. AddTxOut (AddTxIn (NewMsgTx\<lparr>tx_Version := 2\<rparr>)
      ((NewTxIn \<lparr>op_Hash = TxHash ?cr badTx, op_Index = of_nat i\<rparr> [] [])\<lparr>ti_Sequence := 1\<rparr>))
      (NewTxOut (of_int (i64 (sint (to_Value (tx_TxOut badTx ! i)) - ?fee))) (DirectWPKHScriptFromPKH (q_WatchRefundAdr q)))"
  have sc: "CommitScript (cr_CombinePubs ?cr (q_MyHAKDBase q) (ElkPointFromHash ?cr elk))
      (cr_AddPubsEZ ?cr (q_TheirHAKDBase q) (ElkPointFromHash ?cr elk)) (q_Delay q) = ?script"
    by (simp add: justice_script_def wd Let_def)
  obtain badTx spends outs i key sig where r: "q' = ?q" "BuildStateTxs ?cr ?q False = Inr (badTx, spends, outs)"
    "find_idx (\<lambda>out. to_PkScript out = P2WSHify ?cr ?script) (tx_TxOut badTx) = Some i"
    "ev_sign ev key ?script (?stx badTx i) (sint (to_Value (tx_TxOut badTx ! i))) = Inr sig"
    "nd' = SaveJusticeSig nd (st_StateIdx (q_State q)) (q_WatchRefundAdr q)
       (JusticeTx_ToBytes \<lparr>jt_Sig = copy_fresh 64 sig, jt_Txid = copy_fresh 16 (take 16 (TxHash ?cr badTx)),
          jt_Amt = st_MyAmt (q_State q), jt_Data = st_Data (q_State q)\<rparr>)"
    using b by (auto simp: BuildJusticeSig_def Let_def w elk sc bind_res_eq_Inr split: option.splits sum.splits)
  have i: "i < length (tx_TxOut badTx)" "to_PkScript (tx_TxOut badTx ! i) = P2WSHify ?cr ?script"
    using find_idx_Some [OF r(3)] by auto
  have "find_idx (\<lambda>out. P2WSHify ?cr ?script = to_PkScript out) (tx_TxOut badTx) = Some i"
    using r(3) by (simp add: eq_commute [of "P2WSHify ?cr ?script"])
  then have "i \<noteq> 999 \<longrightarrow> justice_from ?cr wd elk (copy_fresh 64 sig) badTx =
      Inr ((?stx badTx i)\<lparr>tx_TxIn := map (\<lambda>ti. ti\<lparr>ti_Witness := [SigDecompress (copy_fresh 64 sig) @ [0x01], [0x01], ?script]\<rparr>)
        (tx_TxIn (?stx badTx i))\<rparr>)"
    by (simp add: justice_from_def Let_def wd AddTxIn_def AddTxOut_def NewMsgTx_def NewTxIn_def)
  moreover have "nd_Justice nd' (q_WatchRefundAdr q) (st_StateIdx (q_State q)) =
      Some (JusticeTx_ToBytes \<lparr>jt_Sig = copy_fresh 64 sig, jt_Txid = copy_fresh 16 (take 16 (TxHash ?cr badTx)),
        jt_Amt = st_MyAmt (q_State q), jt_Data = st_Data (q_State q)\<rparr>)"
    by (simp add: r(5) SaveJusticeSig_def)
  ultimately show ?thesis using elk r(1,2,4) i by blast
qed

section \<open>A node that has everything, and its tower\<close>

text \<open>How a tower takes the messages of a peer (\<open>PeerHandler\<close> of \<open>qln/msghandler.go\<close>), up to the first it refuses.\<close>

definition tower_msg_of :: "lit_msg \<Rightarrow> tower_msg option" where
  "tower_msg_of msg = (case msg of MsgWatchDesc m \<Rightarrow> Some (TowerDesc m) | MsgWatchState m \<Rightarrow> Some (TowerState m) | _ \<Rightarrow> None)"

definition tower_run :: "crypto \<Rightarrow> watch_tower \<Rightarrow> lit_msg list \<Rightarrow> lit_error + watch_tower" where
  "tower_run cr = fold_res (\<lambda>w msg. case tower_msg_of msg of None \<Rightarrow> Inl OutOfRange
     | Some m \<Rightarrow> (case tower_take cr w m of (w, None) \<Rightarrow> Inr w | (w, Some e) \<Rightarrow> Inl e))"

abbreviation parsed_rcv :: "tower_chan \<Rightarrow> lit_error + elkrem_receiver" where
  "parsed_rcv c \<equiv> ElkremReceiverFromBytes (case tc_ElkRcv c of None \<Rightarrow> [] | Some b \<Rightarrow> b)"

lemma AddNext_nodes: "nodes_of e = nodes_of e' \<Longrightarrow> AddNext dh e s = AddNext dh e' s"
  by (simp add: AddNext_def)

lemma update_accepted:
  assumes o: "wt_open w" "map_of (wt_Chandata w) (ws_DestPKH m) = Some c"
    and r: "rcv_ok cr c hs" "parsed_rcv c = Inr e" "AddNext (cr_DoubleHash cr) e (Some (ws_Elk m)) = Inr e1"
    and n: "length hs < 2 ^ 48 - 1" "length (ws_Elk m) = 32"
  shows "\<exists>w' c'. UpdateChannel cr w m = (w', None) \<and> wt_open w' \<and> map_of (wt_Chandata w') (ws_DestPKH m) = Some c' \<and>
    rcv_ok cr c' (hs @ [ws_Elk m]) \<and> (\<exists>e2. parsed_rcv c' = Inr e2 \<and> nodes_of e2 = nodes_of e1)"
proof -
  have "receiver_inv (cr_DoubleHash cr) e hs"
    using r(1,2) by (auto simp: rcv_ok_def ElkremReceiverFromBytes_def receiver_inv_def split: option.splits)
  from AddNext_inv [OF this n(1) r(3)] have inv: "receiver_inv (cr_DoubleHash cr) e1 (hs @ [ws_Elk m])" .
  have "\<forall>h \<in> set (hs @ [ws_Elk m]). length h = 32" using r(1) n(2) by (simp add: rcv_ok_def)
  from receiver_roundtrip [OF inv this] obtain b where b0: "receiver_ToBytes e1 = Inr b"
    "map_sum id nodes_of (ElkremReceiverFromBytes b) = Inr (nodes_of e1)" by blast
  then obtain e2 where b: "receiver_ToBytes e1 = Inr b" "ElkremReceiverFromBytes b = Inr e2" "nodes_of e2 = nodes_of e1"
    by (cases "ElkremReceiverFromBytes b") auto
  from rcv_ok_add [OF r(1,2) n r(3) b(1)] have "rcv_ok cr (c\<lparr>tc_ElkRcv := Some b\<rparr>) (hs @ [ws_Elk m])" by simp
  then show ?thesis
    using o r(2,3) b by (simp add: UpdateChannel_def)
qed

lemma updates_accepted:
  assumes "wt_open w" "map_of (wt_Chandata w) pkh = Some c" "rcv_ok cr c hs" "parsed_rcv c = Inr e"
    and "feed (cr_DoubleHash cr) e0 (map ws_Elk ms) = Inr ef" "nodes_of e0 = nodes_of e"
    and "length hs + length ms \<le> 2 ^ 48 - 1" "\<forall>m \<in> set ms. ws_DestPKH m = pkh \<and> length (ws_Elk m) = 32"
  shows "\<exists>w' c'. tower_run cr w (map MsgWatchState ms) = Inr w' \<and> map_of (wt_Chandata w') pkh = Some c' \<and> rcv_ok cr c' (hs @ map ws_Elk ms)"
  using assms
proof (induction ms arbitrary: w c hs e e0)
  case Nil
  then show ?case by (auto simp: tower_run_def)
next
  case (Cons m ms)
  obtain e1 where e1: "AddNext (cr_DoubleHash cr) e0 (Some (ws_Elk m)) = Inr e1" "feed (cr_DoubleHash cr) e1 (map ws_Elk ms) = Inr ef"
    using Cons.prems(5) by (auto simp: bind_res_eq_Inr)
  have p: "ws_DestPKH m = pkh" "length (ws_Elk m) = 32" "length hs < 2 ^ 48 - 1" using Cons.prems(7,8) by simp_all
  have "AddNext (cr_DoubleHash cr) e (Some (ws_Elk m)) = Inr e1" using e1(1) AddNext_nodes [OF Cons.prems(6)] by simp
  from update_accepted [OF Cons.prems(1) _ Cons.prems(3,4) this p(3,2)] Cons.prems(2) p(1)
  obtain w' c' e2 where u: "UpdateChannel cr w m = (w', None)" "wt_open w'" "map_of (wt_Chandata w') pkh = Some c'"
    "rcv_ok cr c' (hs @ [ws_Elk m])" "parsed_rcv c' = Inr e2" "nodes_of e2 = nodes_of e1" by auto
  from Cons.IH [OF u(2-5) e1(2)] u(6) Cons.prems(7,8)
  obtain w'' c'' where "tower_run cr w' (map MsgWatchState ms) = Inr w''" "map_of (wt_Chandata w'') pkh = Some c''"
    "rcv_ok cr c'' ((hs @ [ws_Elk m]) @ map ws_Elk ms)" by auto
  then show ?case using u(1) by (simp add: tower_run_def tower_msg_of_def tower_take_def)
qed

lemma sync_states_all:
  assumes "\<And>k. unat up < k \<Longrightarrow> k < unat (st_StateIdx (q_State qc)) \<Longrightarrow> SendWatchComMsg ev nd qc (of_nat k) p = Inr (f k)"
    and "up \<le> st_StateIdx (q_State qc) - 1" "st_StateIdx (q_State qc) \<noteq> 0"
  shows "sync_states ev nd qc p up ms =
    (st_StateIdx (q_State qc) - 1, ms @ concat (map f [unat up + 1..<unat (st_StateIdx (q_State qc))]), None)"
  using assms
proof (induction ev nd qc p up ms rule: sync_states.induct)
  case (1 ev nd qc p up ms)
  let ?n = "st_StateIdx (q_State qc)"
  have n: "unat (?n - 1) = unat ?n - 1" "0 < unat ?n" using "1.prems"(3) by (auto simp: unat_minus_one unat_gt_0)
  show ?case
  proof (cases "up < ?n - 1")
    case True
    then have lt: "unat up + 1 < unat ?n" using n by (simp add: word_less_nat_alt)
    have "unat up + 1 < 2 ^ 64" by (rule less_trans [OF lt]) (use unsigned_less [of ?n] in simp)
    then have u: "unat (up + 1) = unat up + 1" by (rule unat_word_Suc)
    have up: "of_nat (unat up + 1) = up + 1" by simp
    have s: "SendWatchComMsg ev nd qc (up + 1) p = Inr (f (unat up + 1))"
      using "1.prems"(1) [of "unat up + 1"] lt unfolding up by simp
    have "up + 1 \<le> ?n - 1" using lt n u by (simp add: word_le_nat_alt)
    then have "sync_states ev nd qc p (up + 1) (ms @ f (unat up + 1)) =
        (?n - 1, (ms @ f (unat up + 1)) @ concat (map f [unat (up + 1) + 1..<unat ?n]), None)"
      using "1.prems"(1,3) u by (intro "1.IH" [OF True s]) simp_all
    then show ?thesis
      using True s lt u by (subst sync_states.simps) (simp add: upt_conv_Cons [of "Suc (unat up)"])
  next
    case False
    then have "up = ?n - 1" using "1.prems"(2) by simp
    then show ?thesis using n by (subst sync_states.simps) simp
  qed
qed

text \<open>The messages a node has for its tower.\<close>

definition state_msg :: "qchan \<Rightarrow> u32 \<Rightarrow> hash list \<Rightarrow> (nat \<Rightarrow> justice_tx) \<Rightarrow> nat \<Rightarrow> watch_state_msg" where
  "state_msg qc p hs t k = NewComMsg p (Qchan_Coin qc) (q_WatchRefundAdr qc) (hs ! k) (jt_Txid (t k)) (jt_Sig (t k))"

lemma new_channel_accepted:
  assumes "wt_open w" "Qchan_Coin qc \<in> set (wt_Hooks w)" "map_of (wt_Chandata w) (q_WatchRefundAdr qc) = None"
    and "length (q_WatchRefundAdr qc) = 20" "length (q_TheirHAKDBase qc) = 33" "length (q_MyHAKDBase qc) = 33"
  shows "\<exists>w' c. NewChannel w (sync_desc qc p) = (w', None) \<and> wt_open w' \<and> map_of (wt_Chandata w') (q_WatchRefundAdr qc) = Some c \<and>
    rcv_ok cr c [] \<and> parsed_rcv c = Inr \<lparr>elk_Nodes = None\<rparr>"
  using assms
  by (simp add: NewChannel_def Let_def sync_desc_def NewWatchDescMsg_def WatchDescMsg_Bytes_def rcv_ok_def ElkremReceiverFromBytes_def)

text \<open>C39: The first sync of the first channel. A node that has not synchronized the channel yet, is connected to the tower and
  has the secrets and the justice signatures of all its states (two at least) sends the tower the description and then every state in
  order. A tower that is open, has the coin and has no channel under the refund address of the node yet takes all of it:
  afterwards it answers every revoked state with its secret. A second channel with the same refund address is refused
  (\<open>second_channel_refused\<close>).\<close>

theorem sync_feeds_tower:
  assumes conn: "ev_connected ev p"
    and st: "st_WatchUpTo (q_State qc) = 0" "unat (st_StateIdx (q_State qc)) = length hs" "2 \<le> length hs" "length hs \<le> 2 ^ 48 - 1"
    and elk: "feed (ev_dh ev) NewElkremReceiver hs = Inr (q_ElkRcv qc)" "\<forall>h \<in> set hs. length h = 32"
    and sigs: "\<forall>k<length hs. LoadJusticeSig nd (of_nat k) (q_WatchRefundAdr qc) = Inr (t k)"
    and keys: "length (q_WatchRefundAdr qc) = 20" "length (q_TheirHAKDBase qc) = 33" "length (q_MyHAKDBase qc) = 33"
    and tower: "wt_open w" "Qchan_Coin qc \<in> set (wt_Hooks w)" "map_of (wt_Chandata w) (q_WatchRefundAdr qc) = None"
  shows "\<exists>nd' msgs w' c e. SyncWatch ev nd qc p = (nd', set_up (st_StateIdx (q_State qc) - 1) qc, msgs, None) \<and>
    msgs = MsgWatchDesc (sync_desc qc p) # map (\<lambda>k. MsgWatchState (state_msg qc p hs t k)) [0..<length hs] \<and>
    tower_run (ev_crypto ev) w msgs = Inr w' \<and> map_of (wt_Chandata w') (q_WatchRefundAdr qc) = Some c \<and> parsed_rcv c = Inr e \<and>
    (\<forall>k<length hs. receiver_AtIndex (ev_dh ev) e (of_nat k) = Inr (hs ! k))"
proof -
  let ?cr = "ev_crypto ev" and ?n = "st_StateIdx (q_State qc)" and ?m = "\<lambda>k. MsgWatchState (state_msg qc p hs t k)"
  let ?up = "\<lambda>k. [0..<k]" and ?adr = "q_WatchRefundAdr qc"
  have u: "unat (of_nat k :: u64) = k" if "k < length hs" for k using that st(4) by (simp add: unat_of_nat)
  have send: "SendWatchComMsg ev nd qc (of_nat k) p = Inr [?m k]" if "k < length hs" for k
  proof -
    have "receiver_AtIndex (ev_dh ev) (q_ElkRcv qc) (of_nat k) = Inr (hs ! k)"
      using elk.look_fold [OF elk(1) st(4), of "of_nat k"] that u by simp
    then show ?thesis
      using sigs that conn by (simp add: SendWatchComMsg_def tmpSendLitMsg_def state_msg_def NewComMsg_def)
  qed
  have start: "sync_start ev nd qc p = (1, MsgWatchDesc (sync_desc qc p) # map ?m [0..<2], None)"
  proof -
    have "tmpSendLitMsg ev (MsgWatchDesc (sync_desc qc p)) = [MsgWatchDesc (sync_desc qc p)]"
      using conn by (simp add: tmpSendLitMsg_def sync_desc_def NewWatchDescMsg_def)
    moreover have "SendWatchComMsg ev nd qc 0 p = Inr [?m 0]" "SendWatchComMsg ev nd qc 1 p = Inr [?m 1]"
      using send [of 0] send [of 1] st(3) by fastforce+
    ultimately show ?thesis
      using st(1) by (simp add: sync_start_def Let_def upt_rec numeral_2_eq_2)
  qed
  have n: "2 \<le> ?n" using st(2,3) by (simp add: word_le_nat_alt)
  then have nz: "?n \<noteq> 0" by auto
  have le: "1 \<le> ?n - 1" using st(2,3) nz by (simp add: word_le_nat_alt unat_minus_one)
  have loop: "sync_states ev nd qc p 1 ms = (?n - 1, ms @ concat (map (\<lambda>k. [?m k]) [unat (1 :: u64) + 1..<unat ?n]), None)" for ms
    by (rule sync_states_all [OF _ le nz]) (use send st(2) in simp)
  let ?msgs = "MsgWatchDesc (sync_desc qc p) # map ?m [0..<length hs]"
  have "[0..<2] @ [2..<length hs] = [0..<length hs]" using upt_add_eq_append [of 0 2 "length hs - 2"] st(3) by (metis le_add_diff_inverse zero_le)
  then have "map ?m [0..<2] @ map ?m [2..<length hs] = map ?m [0..<length hs]" by (metis map_append)
  then have "SyncWatch ev nd qc p = (SaveQchanState ev nd (set_up (?n - 1) qc), set_up (?n - 1) qc, ?msgs, None)"
    using conn n st(1) loop [of "MsgWatchDesc (sync_desc qc p) # map ?m [0..<2]"] st(2)
    by (simp add: SyncWatch_def Let_def start not_less concat_map_singleton numeral_2_eq_2)
  moreover
  obtain w1 c1 where w1: "NewChannel w (sync_desc qc p) = (w1, None)" "wt_open w1" "map_of (wt_Chandata w1) ?adr = Some c1"
    "rcv_ok ?cr c1 []" "parsed_rcv c1 = Inr \<lparr>elk_Nodes = None\<rparr>"
    using new_channel_accepted [OF tower keys] by blast
  have es: "map ws_Elk (map (state_msg qc p hs t) [0..<length hs]) = hs"
    by (rule nth_equalityI) (simp_all add: state_msg_def NewComMsg_def)
  obtain w' c where w': "tower_run ?cr w1 (map MsgWatchState (map (state_msg qc p hs t) [0..<length hs])) = Inr w'"
    "map_of (wt_Chandata w') ?adr = Some c" "rcv_ok ?cr c ([] @ hs)"
    using updates_accepted [OF w1(2-5), of NewElkremReceiver "map (state_msg qc p hs t) [0..<length hs]" "q_ElkRcv qc"] st(4) elk
    unfolding es by (auto simp: NewElkremReceiver_def state_msg_def NewComMsg_def)
  have "tower_run ?cr w ?msgs = Inr w'"
    using w'(1) w1(1) by (simp add: tower_run_def tower_msg_of_def tower_take_def comp_def)
  moreover obtain e where e: "parsed_rcv c = Inr e" "receiver_inv (ev_dh ev) e hs"
    using w'(3) st(3) by (auto simp: rcv_ok_def split: option.splits)
  moreover have "\<forall>k<length hs. receiver_AtIndex (ev_dh ev) e (of_nat k) = Inr (hs ! k)"
    using receiver_inv_AtIndex [OF e(2)] u by simp
  ultimately show ?thesis using w'(2) by blast
qed

lemma tower_take_keeps: "map_of (wt_Chandata w) k \<noteq> None \<Longrightarrow> map_of (wt_Chandata (fst (tower_take cr w msg))) k \<noteq> None"
  by (auto simp: tower_take_def NewChannel_def UpdateChannel_def DeleteChannel_def Let_def split: tower_msg.split option.split sum.split prod.split)

lemma tower_keeps_channel:
  "map_of (wt_Chandata w) k \<noteq> None \<Longrightarrow> map_of (wt_Chandata (fold (\<lambda>msg w. fst (tower_take cr w msg)) msgs w)) k \<noteq> None"
  by (induction msgs arbitrary: w) (simp_all add: tower_take_keeps del: not_None_eq)

text \<open>A tower that has taken the description of one channel refuses, whatever messages come in between, every later description with
  the same refund address. No code assigns \<open>WatchRefundAdr\<close>, so all channels of all nodes are announced with the address of
  zeros, and a tower takes one channel in its life.\<close>

theorem second_channel_refused:
  assumes "NewChannel w m = (w1, None)" "w2 = fold (\<lambda>msg w. fst (tower_take cr w msg)) msgs w1" "wd_DestPKHScript m' = wd_DestPKHScript m"
  shows "\<exists>e. NewChannel w2 m' = (w2, Some e)"
proof -
  have "map_of (wt_Chandata w1) (wd_DestPKHScript m) \<noteq> None"
    using assms(1) by (auto simp: NewChannel_def Let_def split: if_splits)
  from tower_keeps_channel [OF this, of cr msgs] have "map_of (wt_Chandata w2) (wd_DestPKHScript m') \<noteq> None"
    by (simp add: assms(2,3))
  then show ?thesis by (simp add: NewChannel_def Let_def)
qed

section \<open>Examples\<close>

lemma reach_entry: "tower_reach cr n lg w \<Longrightarrow> n < 2 ^ 32 \<Longrightarrow> lg key \<noteq> None \<Longrightarrow> map_of (wt_Txid w) key \<noteq> None"
  using reach_inv [of cr n lg w] by (auto simp: tower_inv_def option_rel_Some1 dest!: spec [of _ key])

text \<open>A tower that has been told of one channel and of its first state.\<close>

lemma toy_reach:
  assumes "length x = 16"
  shows "\<exists>w lg. tower_reach toy_crypto 2 lg w \<and> lg x = Some (replicate 20 0, replicate 32 1, replicate 64 0)"
proof -
  let ?q = "toy_chan 1 2 2 600000 1000 []" and ?cr = toy_crypto
  define m where "m = NewComMsg 3 1 (replicate 20 0) (replicate 32 1) x (replicate 64 0)"
  have q: "Qchan_Coin ?q = 1" "q_WatchRefundAdr ?q = replicate 20 0" "length (q_TheirHAKDBase ?q) = 33" "length (q_MyHAKDBase ?q) = 33"
    by (simp_all add: toy_chan_def Qchan_Coin_def)
  let ?w0 = "fst (HookLink None empty_tower 1)"
  have r0: "tower_reach ?cr 0 (\<lambda>_. None) ?w0" by (rule tower_hook [OF tower_empty])
  have w0: "wt_open ?w0" "wt_Hooks ?w0 = [1]" "map_of (wt_Chandata ?w0) (replicate 20 0) = None"
    by (simp_all add: HookLink_def OpenDB_def empty_tower_def)
  obtain w1 c where w1: "NewChannel ?w0 (sync_desc ?q 3) = (w1, None)" "wt_open w1" "map_of (wt_Chandata w1) (replicate 20 0) = Some c"
    "rcv_ok ?cr c []" "parsed_rcv c = Inr \<lparr>elk_Nodes = None\<rparr>"
    using new_channel_accepted [of ?w0 ?q 3 ?cr] w0 q by auto
  have r1: "tower_reach ?cr (Suc 0) (tower_log (TowerDesc (sync_desc ?q 3)) None (\<lambda>_. None)) w1"
    by (rule tower_msg [OF r0]) (use w1(1) q in \<open>simp_all add: wf_tower_msg_def tower_take_def sync_desc_def NewWatchDescMsg_def wf_watch_desc_msg_def\<close>)
  have m: "ws_DestPKH m = replicate 20 0" "ws_Elk m = replicate 32 1" "ws_ParTxid m = x" "ws_Sig m = replicate 64 0"
    by (simp_all add: m_def NewComMsg_def)
  have "AddNext (cr_DoubleHash ?cr) \<lparr>elk_Nodes = None\<rparr> (Some (ws_Elk m)) = Inr \<lparr>elk_Nodes = Some [\<lparr>elk_H = 0, elk_I = 0, elk_Sha = Some (ws_Elk m)\<rparr>]\<rparr>"
    by (simp add: AddNext_def)
  from update_accepted [OF w1(2) _ w1(4,5) this] w1(3) m
  obtain w2 where w2: "UpdateChannel ?cr w1 m = (w2, None)" by auto
  have "tower_reach ?cr (Suc (Suc 0)) (tower_log (TowerState m) None (tower_log (TowerDesc (sync_desc ?q 3)) None (\<lambda>_. None))) w2"
    by (rule tower_msg [OF r1]) (use w2 m assms in \<open>simp_all add: wf_tower_msg_def tower_take_def wf_watch_state_msg_def\<close>)
  moreover have "tower_log (TowerState m) None (tower_log (TowerDesc (sync_desc ?q 3)) None (\<lambda>_. None)) x =
      Some (replicate 20 0, replicate 32 1, replicate 64 0)" using assms m by (simp add: tower_log_def)
  ultimately show ?thesis unfolding numeral_2_eq_2 by blast
qed

theorem tower_keeps_updates_witness:
  "\<exists>lg w b. tower_reach toy_crypto 2 lg w \<and> lg (replicate 16 5) = Some (replicate 20 0, replicate 32 1, replicate 64 0) \<and>
     map_of (wt_Txid w) (replicate 16 5) = Some b \<and> length b = 74"
proof -
  obtain w lg where r: "tower_reach toy_crypto 2 lg w" "lg (replicate 16 5) = Some (replicate 20 0, replicate 32 1, replicate 64 0)"
    using toy_reach [of "replicate 16 5"] by auto
  show ?thesis
    using tower_keeps_updates [OF r(1), of "replicate 16 5"] r by (auto simp: IdxSigFromBytes_def split: if_splits)
qed

theorem tower_never_punishes_witness:
  "\<exists>lg w. tower_reach toy_crypto 2 lg w \<and> BlockHandler toy_crypto w [NewMsgTx, NewMsgTx\<lparr>tx_Version := 2\<rparr>] = Inl Panic"
proof -
  let ?tx = "NewMsgTx\<lparr>tx_Version := 2\<rparr>"
  have "length (take 16 (TxHash toy_crypto ?tx)) = 16" by (simp add: TxHash_def toy_crypto_def)
  from toy_reach [OF this] obtain w lg where r: "tower_reach toy_crypto 2 lg w" "lg (take 16 (TxHash toy_crypto ?tx)) \<noteq> None"
    by auto
  then show ?thesis
    using tower_never_punishes [OF r(1), of ?tx "[?tx]" NewMsgTx] reach_entry [OF r(1) _ r(2)] by auto
qed

theorem sync_sends_no_state_witness:
  "snd (snd (snd (SyncWatch (toy_env 1)
     (SaveJusticeSig (toy_node\<lparr>nd_Channels := (\<lambda>k. Some (NewChanDataFromQchan (toy_chan 1 2 2 600000 1000 [])))\<rparr>) 0 (replicate 20 0) (replicate 120 0))
     (NewQchanFromChanData (toy_env 1) (NewChanDataFromQchan (toy_chan 1 2 2 600000 1000 []))) 3))) = Some Panic"
proof -
  let ?d = "NewChanDataFromQchan (toy_chan 1 2 2 600000 1000 [])"
  let ?nd = "SaveJusticeSig (toy_node\<lparr>nd_Channels := (\<lambda>k. Some ?d)\<rparr>) 0 (replicate 20 0) (replicate 120 0)"
  let ?qc = "NewQchanFromChanData (toy_env 1) ?d"
  have g: "GetQchan (toy_env 1) ?nd [] = Inr ?qc" by (simp add: GetQchan_def SaveJusticeSig_def)
  have f: "q_WatchRefundAdr ?qc = replicate 20 0" "q_State ?qc = q_State (toy_chan 1 2 2 600000 1000 [])" "ev_connected (toy_env 1) 3"
    by (simp_all add: NewQchanFromChanData_def NewChanDataFromQchan_def toy_env_def)
  have "\<exists>t. LoadJusticeSig ?nd 0 (replicate 20 0) = Inr t"
    by (simp add: LoadJusticeSig_def SaveJusticeSig_def JusticeTxFromBytes_def)
  with sync_sends_no_state [OF g, of 3] show ?thesis by (auto simp: f) (simp add: toy_chan_def)
qed

theorem second_channel_refused_witness:
  "\<exists>e. NewChannel (fst (NewChannel (fst (HookLink None empty_tower 1)) (NewWatchDescMsg 3 1 (replicate 20 0) 5 1000 (replicate 33 1) (replicate 33 2))))
     (NewWatchDescMsg 4 1 (replicate 20 0) 7 1000 (replicate 33 3) (replicate 33 4)) =
   (fst (NewChannel (fst (HookLink None empty_tower 1)) (NewWatchDescMsg 3 1 (replicate 20 0) 5 1000 (replicate 33 1) (replicate 33 2))), Some e)"
proof -
  let ?w = "fst (HookLink None empty_tower 1)" and ?m = "NewWatchDescMsg 3 1 (replicate 20 0) 5 1000 (replicate 33 1) (replicate 33 2)"
  have "snd (NewChannel ?w ?m) = None"
    by (simp add: NewChannel_def HookLink_def OpenDB_def empty_tower_def Let_def NewWatchDescMsg_def WatchDescMsg_Bytes_def)
  then have "NewChannel ?w ?m = (fst (NewChannel ?w ?m), None)" by (metis prod.collapse)
  from second_channel_refused [OF this, of _ undefined "[]"] show ?thesis by (simp add: NewWatchDescMsg_def)
qed

theorem tower_tx_is_signed_tx_witness:
  "\<exists>nd' elk sig badTx tx. BuildJusticeSig (toy_env 1) toy_node toy_punisher = (nd', toy_punisher, None) \<and>
     justice_from toy_crypto (NewWatchDescMsg 3 1 (replicate 20 0) 5 1000 (replicate 33 1) (replicate 33 2)) elk sig badTx = Inr tx"
proof -
  obtain nd' where b: "BuildJusticeSig (toy_env 1) toy_node toy_punisher = (nd', toy_punisher, None)" using toy_punisher_justice by blast
  have w: "ev_wallet (toy_env 1) (Qchan_Coin toy_punisher) = Some \<lparr>wl_TestCoin = True, wl_Fee = 10, wl_Height = 500\<rparr>" "ev_crypto (toy_env 1) = toy_crypto"
    by (simp_all add: toy_env_def)
  let ?wd = "NewWatchDescMsg 3 1 (replicate 20 0) 5 1000 (replicate 33 1) (replicate 33 2)"
  from tower_tx_is_signed_tx [OF b w(1), of ?wd]
  obtain elk badTx spends outs i script key stx sig where r:
    "BuildStateTxs toy_crypto toy_punisher False = Inr (badTx, spends, outs)" "i < length (tx_TxOut badTx)"
    "i \<noteq> 999 \<longrightarrow> justice_from toy_crypto ?wd elk (copy_fresh 64 sig) badTx =
       Inr (stx\<lparr>tx_TxIn := map (\<lambda>ti. ti\<lparr>ti_Witness := [SigDecompress (copy_fresh 64 sig) @ [0x01], [0x01], script]\<rparr>) (tx_TxIn stx)\<rparr>)"
    by (simp add: NewWatchDescMsg_def toy_punisher_fields JusticeTxBump_def i64_id w(2)) blast
  have a: "output_amts toy_punisher False = (399000, 599000)"
    by (simp add: toy_punisher_def output_amts_def state_value_def Let_def toy_chan_def i64_id)
  have k: "GetKeysFromState toy_crypto toy_punisher False = Inr (replicate 33 1, replicate 33 2, replicate 33 1)"
    by (simp add: toy_punisher_def GetKeysFromState_def toy_chan_def toy_crypto_def)
  have "length (tx_TxOut badTx) = 2"
    using r(1) BuildStateTxs_plain [OF toy_punisher_fields(6) k a]
    by (auto simp: MinOutput_def SetStateIdxBits_fields InPlaceSort_def commit_outs_def)
  then have "i \<noteq> 999" using r(2) by simp
  then show ?thesis using r(3) b by blast
qed

theorem sync_feeds_tower_witness:
  "\<exists>nd' qc msgs w'. SyncWatch (toy_env 1) (SaveJusticeSig (SaveJusticeSig toy_node 0 (replicate 20 0) (replicate 120 0)) 1 (replicate 20 0) (replicate 120 0))
       ((toy_chan 1 2 2 600000 1000 [])\<lparr>q_ElkRcv := projr (feed (cr_DoubleHash toy_crypto) NewElkremReceiver [replicate 32 1, replicate 32 2])\<rparr>) 3 = (nd', qc, msgs, None) \<and>
     length msgs = 3 \<and> tower_run toy_crypto (fst (HookLink None empty_tower 1)) msgs = Inr w'"
proof -
  let ?hs = "[replicate 32 1, replicate 32 2 :: bytes]"
  obtain e where e: "feed (cr_DoubleHash toy_crypto) NewElkremReceiver ?hs = Inr e"
    by (simp add: NewElkremReceiver_def AddNext_def Let_def)
  let ?qc = "(toy_chan 1 2 2 600000 1000 [])\<lparr>q_ElkRcv := e\<rparr>"
  let ?nd = "SaveJusticeSig (SaveJusticeSig toy_node 0 (replicate 20 0) (replicate 120 0)) 1 (replicate 20 0) (replicate 120 0)"
  let ?w = "fst (HookLink None empty_tower 1)"
  let ?t = "projr (JusticeTxFromBytes (replicate 120 0))"
  have ec: "wt_Chandata empty_tower = []" by (simp add: empty_tower_def)
  have w: "wt_open ?w" "wt_Hooks ?w = [1]" "wt_Chandata ?w = []"
    by (simp_all add: HookLink_def OpenDB_def empty_tower_def)
  have q: "q_WatchRefundAdr ?qc = replicate 20 0" "Qchan_Coin ?qc = 1" "length (q_TheirHAKDBase ?qc) = 33" "length (q_MyHAKDBase ?qc) = 33"
    "st_WatchUpTo (q_State ?qc) = 0" "st_StateIdx (q_State ?qc) = 2" "q_ElkRcv ?qc = e"
    by (simp_all add: toy_chan_def Qchan_Coin_def)
  define qc where "qc = ?qc"
  note q = q [folded qc_def]
  have ev: "ev_crypto (toy_env 1) = toy_crypto" "ev_connected (toy_env 1) 3" by (simp_all add: toy_env_def)
  have l: "\<forall>k<length ?hs. LoadJusticeSig ?nd (of_nat k) (replicate 20 0) = Inr ?t"
    by (auto simp: less_Suc_eq LoadJusticeSig_def SaveJusticeSig_def JusticeTxFromBytes_def)
  have "\<exists>nd' msgs w' c e'. SyncWatch (toy_env 1) ?nd qc 3 = (nd', set_up (st_StateIdx (q_State qc) - 1) qc, msgs, None) \<and>
    msgs = MsgWatchDesc (sync_desc qc 3) # map (\<lambda>k. MsgWatchState (state_msg qc 3 ?hs (\<lambda>k. ?t) k)) [0..<length ?hs] \<and>
    tower_run (ev_crypto (toy_env 1)) ?w msgs = Inr w' \<and> map_of (wt_Chandata w') (q_WatchRefundAdr qc) = Some c \<and> parsed_rcv c = Inr e' \<and>
    (\<forall>k<length ?hs. receiver_AtIndex (ev_dh (toy_env 1)) e' (of_nat k) = Inr (?hs ! k))"
    by (rule sync_feeds_tower) (use e l in \<open>simp_all add: ev q w ec\<close>)
  then obtain nd' msgs w' where r: "SyncWatch (toy_env 1) ?nd qc 3 = (nd', set_up (st_StateIdx (q_State qc) - 1) qc, msgs, None)"
    "length msgs = 3" "tower_run (ev_crypto (toy_env 1)) ?w msgs = Inr w'" by auto
  show ?thesis
    by (rule exI [of _ nd'], rule exI [of _ "set_up (st_StateIdx (q_State qc) - 1) qc"], rule exI [of _ msgs], rule exI [of _ w'])
      (use r e in \<open>simp add: qc_def ev\<close>)
qed

end
