(* ===== verification/Spec2Isabelle.thy ===== *)
theory Spec2Isabelle
  imports Dlc ChannelRuns Recovery Forwarding HtlcClaim DualFund Watchtower
begin

text \<open>
  A verification library for \<open>lit\<close>, a Lightning node in Go: payment channels between two peers on top of Bitcoin,
  with discreet log contracts, watchtower support and its own copies of the Bitcoin libraries.

  \<^bold>\<open>The parts and how they interact.\<close> A channel is funded by an output that needs a signature of both peers.
  Both hold a commitment transaction that spends it; an update of the channel signs the next one and reveals the secret
  of the last one, so that an outdated commitment transaction can be punished. The secrets come from a hash tree
  (\<open>elkrem\<close>), of which the receiver keeps only logarithmically many nodes. A channel is opened by five messages
  (\<open>qln/fund.go\<close>): the funder asks for the keys of its peer, has its wallet prepare the funding transaction, describes the
  channel, and sends the money when the peer has signed the first state. Updates are messages
  (\<open>lnutil/msglib.go\<close>): a push sends DeltaSig, SigRev and Rev (\<open>qln/pushpull.go\<close>), an HTLC is offered by HashSig
  and cleared by PreimageSig (\<open>qln/htlc.go\<close>), and when both peers start at once GapSigRev joins the two updates. What
  is signed is built by \<open>qln/buildtx.go\<close> from the scripts of \<open>lnutil/lnlib.go\<close>, which the script engine of
  \<open>btcutil/txscript\<close> runs when the transactions are spent. A contract (\<open>lnutil/dlclib.go\<close>) is settled by one of many
  transactions, built by both sides for themselves. A channel ends when a CloseReq carries the first signature of a close
  transaction and the other side adds its own and publishes it (\<open>qln/close.go\<close>), or when one side publishes its commitment
  transaction (\<open>qln/break.go\<close>); a node that sees the funding output spent works out which outputs it can take.
  Nodes advertise their channels (\<open>qln/routing.go\<close>); a payer finds a path over the advertised links, asks the payee for a hash, and
  offers an HTLC with it to the first hop; each hop offers the next one (\<open>qln/multihop.go\<close>). Nodes are addressed by
  bech32 strings (\<open>bech32/bech32.go\<close>).

  \<^bold>\<open>Conventions.\<close> Go's \<open>int64\<close> amounts are integers with the wrap-around written out (\<open>i64\<close>), unsigned and byte
  values are words; byte slices are lists of 8-bit words; a nil pointer or slice that the code tells apart is an option.
  A fallible function returns a sum with its error on the left, and a run-time panic is one of the errors (\<open>Panic\<close>,
  \<open>ScriptPanic\<close>). A handler takes the environment of the node (wallets, keys, signing, the peer connection), the node
  with its database, the message and the channel in memory, and returns the node, the channel, the messages it sent and
  its error. Hash functions, curve arithmetic and signatures are parameters (\<open>crypto\<close>, \<open>node_env\<close>, \<open>script_env\<close>).

  \<^bold>\<open>The theories.\<close>
  \<^item> \<open>LitPrelude\<close>: bytes, words, errors, byte orders, fixed-size copies, reading buffers, the result monad.
  \<^item> \<open>Elkrem\<close> (\<open>elkrem/elkrem.go\<close>, \<open>elkrem/serdes.go\<close>): sender, receiver and its binary form, against a post-order tree
    as the specification.
  \<^item> \<open>LitWire\<close> (\<open>wire/common.go\<close>, \<open>wire/msgtx.go\<close>, \<open>lnutil/btclib.go\<close>, \<open>lnutil/stdlib.go\<close>): variable-length
    integers, outpoints, transactions with their parser and printer.
  \<^item> \<open>MsgBase\<close>, \<open>MsgChannel\<close>, \<open>MsgFunding\<close>, \<open>MsgDlc\<close>, \<open>MsgRpc\<close>, \<open>MsgTower\<close> and \<open>LitMsg\<close> (\<open>lnutil/msglib.go\<close>): one record,
    constructor, printer and parser for each of the messages, and the dispatcher over their sum.
  \<^item> \<open>Dlc\<close> (\<open>lnutil/dlclib.go\<close>, \<open>qln/dlc.go\<close>): contracts, their binary form and settlement transactions.
  \<^item> \<open>LnScript\<close> (\<open>txscript/scriptbuilder.go\<close>, \<open>lnutil/lnlib.go\<close>, \<open>txsort\<close>): the script builder, the scripts of a
    channel, the order of inputs and outputs.
  \<^item> \<open>Channel\<close> (\<open>qln/lnchannels.go\<close>, \<open>qln/elkpoints.go\<close>, \<open>qln/serdes.go\<close>, \<open>qln/lndb.go\<close>, \<open>portxo\<close>): the record of a
    channel, its state (\<open>StatCom\<close>), key paths, elkrem points, and what survives saving and reloading.
  \<^item> \<open>Commitment\<close> (\<open>qln/buildtx.go\<close>, \<open>qln/signtx.go\<close>): commitment, HTLC and close transactions; signing and verifying.
  \<^item> \<open>Justice\<close> (\<open>qln/justicetx.go\<close>): the signatures kept against revoked states.
  \<^item> \<open>PushPull\<close> (\<open>qln/pushpull.go\<close>), \<open>Htlc\<close> (\<open>qln/htlc.go\<close>, \<open>qln/msghandler.go\<close>): the operations and handlers.
  \<^item> \<open>PushRun\<close>, \<open>ChannelLedger\<close>: two nodes that exchange messages; pushes refine a ledger of two accounts.
  \<^item> \<open>Fund\<close> (\<open>qln/fund.go\<close>, \<open>qln/msghandler.go\<close>, \<open>qln/lndb.go\<close>): the funding in progress, the five handlers and their
    dispatcher, and the confirmation. \<open>FundRun\<close>: an honest funding, message by message through printer and parser, and
    what the handlers miss.
  \<^item> \<open>ChannelSafety\<close>: what single handlers guarantee or miss.
  \<^item> \<open>ChannelSpec\<close>, \<open>ChannelFlow\<close>, \<open>ChannelSteps\<close>, \<open>ChannelRuns\<close>: an abstract specification of the stored channel
    (\<open>update\<close>), its rules, the refinement of every operation and message to it, and what follows for every run; the
    contract of the store is the locale \<open>channel_store\<close>, interpreted on the model's node.
  \<^item> \<open>TxScript\<close>, \<open>TxStack\<close>, \<open>TxSighash\<close>, \<open>TxOpcodes\<close>, \<open>TxEngine\<close> (\<open>btcutil/txscript\<close>): parsing, the stack and its
    numbers, signature hashes, one handler for each opcode, steps, runs and construction of an engine.
  \<^item> \<open>TxEngineSafe\<close>, \<open>TxEngineRun\<close>: one rule for each combinator of handlers; termination, limits and absence of panics.
  \<^item> \<open>TxSpend\<close> (\<open>blockchain/scriptval.go\<close>): symbolic runs of the scripts of a channel; \<open>HtlcSpend\<close>: of the two HTLC
    scripts (\<open>lnutil/lnlib.go\<close>), one rewrite rule for each opcode.
  \<^item> \<open>Sig64\<close> (\<open>sig64/sigcompress.go\<close>): signatures in 64 bytes and their way back to DER.
  \<^item> \<open>Close\<close> (\<open>qln/close.go\<close>, \<open>qln/break.go\<close>, \<open>qln/signtx.go\<close>, \<open>qln/msghandler.go\<close>): cooperative close, break, the
    outputs taken from a closing transaction, the spend event. \<open>CloseRun\<close>: the close of an honest channel and the life of
    a channel from its funding on. \<open>Recovery\<close>: what is recovered after a break and after a revoked commitment.
  \<^item> \<open>Bech32\<close> (\<open>bech32/bech32.go\<close>): addresses, their checksum, and witness programs.
  \<^item> \<open>Routing\<close> (\<open>qln/routing.go\<close>, \<open>qln/heap.go\<close>): the map of links, the graph, Bellman-Ford, and Dijkstra over a binary heap;
    \<open>Routes\<close>: what a path that was found is, when the search returns, and what stops it.
  \<^item> \<open>Multihop\<close> (\<open>qln/multihop.go\<close>, \<open>qln/lndb.go\<close>, \<open>lncore/peers.go\<close>): the handlers of multihop payments; \<open>Forwarding\<close>: what
    covers an offer to the next hop, and where it is not covered.
  \<^item> \<open>HtlcClaim\<close> (\<open>qln/htlc.go\<close>, \<open>qln/msghandler.go\<close>): taking an HTLC on chain or with the peer, by preimage or by timeout, and the
    preimages other claims show; the claim transaction as a spend of the output of the HTLC.
  \<^item> \<open>DualFund\<close> (\<open>qln/dualfund.go\<close>, \<open>qln/lndb.go\<close>, \<open>qln/msghandler.go\<close>): opening a channel with money from both sides,
    the funding transaction both build, and where the handshake stops.
  \<^item> \<open>Watchtower\<close> (\<open>watchtower/watchdb.go\<close>, \<open>watchtower/justice.go\<close>, \<open>qln/justicetx.go\<close>): the database of a tower, its justice
    transactions, and what a node sends it.

  \<^bold>\<open>What the lemmas show.\<close> Serialization: parsers invert printers, for every message, transaction, contract, justice
  record, receiver and script, and the inputs on which a parser panics are listed. The hash tree: a receiver that got the
  first hashes in order answers every earlier index. Agreement: both peers build the same commitment, HTLC, settlement
  and close transactions from mirrored channels. Funding: an honest funding completes
  and ends with two channels in step, which then carry every list of payments the ledger allows. In a dual funding both sides build
  the same funding transaction, but the handshake stops at a description the other side refuses. Updates: an honest push completes and
  moves its amount, lists of pushes behave as a ledger, and under the operations and messages of the push and HTLC protocol, whatever
  they are, with any environment and copy in memory, the stored channel only changes as the abstract updates allow, so that HTLCs
  keep their places and terms, and the balance is only lowered by the node's own offers. Funding messages are not among these
  steps: a channel description replaces an open channel. Closing: two honest nodes can open a channel, pay, and close it, and the transaction published last is accepted by
  the script engine and pays what the ledger says; after a break above state zero and without
  HTLCs a node finds its own output, and with the revocation secrets it takes both outputs of a revoked commitment above state zero that
  has a balance on both sides and no HTLCs, while the handler that runs without them panics.
  HTLCs: the claim a node publishes for an HTLC of a closed channel is accepted by the script engine, but a preimage that opens two
  blocks the node, and a cleared HTLC can hide the preimages on chain.
  The watchtower: its entries lead to the signature and the secret of every state it was told, and from a right description it makes the
  transaction the node has signed; it takes a first channel with all its states; but the description it keeps cannot be read, so it never punishes, and ends instead.
  Routing: a path that is found follows advertised links and rates from the payer to the payee; the loop of the search ends,
  and FindPath returns unless the predecessors end in a cycle, as they can when weights are rounded; an offer to
  the next hop is covered by an incoming HTLC, but one HTLC can cover two. Addresses: decoding inverts encoding, and replacing up to
  six consecutive letters of the data part by other letters of the alphabet is always noticed.
  The script engine: building one never panics; every run ends, within the limits, without a panic unless signature encodings are checked;
  the funding output needs both signatures, the output of a commitment the revocation or the timeout key, and an HTLC output
  the revocation key, the preimage, or the timeout with the signatures its script asks for.

  \<^bold>\<open>Bounds and fuel.\<close> There is no fuel: loops are structural recursions or carry a measure. \<open>parseScript\<close> shortens the
  script; the hash tree recursion descends its height of at most 63 (\<open>maxHeight\<close>). The run of the engine is a partial
  function proved total by a lexicographic measure: the scripts still to come, with the two that can be appended at
  fixed positions, then the opcodes left in the current one. The depth of a stack is taken to be below \<open>2 ^ 63\<close>, as
  every length in Go is. The waits for the peer (\<open>PushChannel_wait\<close> and the like) are cut out: an operation is the
  part before its wait and the part after it, with the answer as an argument. The loops of the path search have no bound in the
  code; they are partial functions. The loop over the heap is proved to end for every arithmetic of finitely many numbers, as
  float64 is, because each turn lowers a label or shortens the heap; the number of its turns is bounded by no more than that. The loop
  that reads the path back does not end when the predecessors form a cycle.

  \<^bold>\<open>Not modelled.\<close> The encrypted transport, peer management, the header chain, the wallet and the user interfaces:
  input and output over goroutines, sockets and databases. Mutexes appear only where a handler locks one twice. The
  JSON form of stored channels, the event bus (its veto is a flag of the environment) and logging. The curve and
  the hash functions are parameters, and so are the floating-point weights of links and the order in which maps are visited. The
  contract handshakes and the block chain rules beyond script validation are left
  out. Of
  the script package, disassembly, standard script classes and all signing helpers but one are left out; answers of the signature
  cache are a parameter, because a cached answer was computed by the same verification.
\<close>

end
